(* ===== verification/Prelude.thy ===== *)
theory Prelude
  imports Main "HOL-Library.Word"
begin

text \<open>
  Shared vocabulary of the development: the collections of rewrite rules the component proofs
  draw on, the errors a native call can end with, the narrowing conversions of C++ integers on
  the Android ABIs, and indexed access to a \<^verbatim>\<open>std::vector\<close>.
\<close>

named_theorems mat_simps "reading and writing matrices in the store"
named_theorems frame_simps "what an operation leaves unchanged"
named_theorems inv_intros "introduction rules of the component invariants"

section \<open>Errors of a native call\<close>

text \<open>
  A native call ends the process when it dereferences a null pointer, indexes outside an array
  or a vector (undefined behaviour), overflows a signed integer (undefined behaviour), lets an
  OpenCV exception escape, or calls \<^verbatim>\<open>exit\<close>. Freeing a block that is not live and reading
  one after it was freed are errors too, and so are a division by zero and a loop that never ends.
  \<open>Undefined\<close> is a call whose arguments break a requirement of the language's library, for which the
  standard puts no bound on what happens.
\<close>

datatype native_error =
    NullDeref
  | OutOfBounds
  | SignedOverflow
  | CvException
  | ProcessExit int
  | InvalidFree
  | InvalidAccess
  | Diverges
  | DivideByZero
  | Undefined

type_synonym 'a res = "native_error + 'a"

definition bind_res :: "'a res \<Rightarrow> ('a \<Rightarrow> 'b res) \<Rightarrow> 'b res" where
  "bind_res r f = (case r of Inl e \<Rightarrow> Inl e | Inr x \<Rightarrow> f x)"

lemma bind_res_simps [simp]:
  "bind_res (Inl e) f = Inl e"
  "bind_res (Inr x) f = f x"
  by (simp_all add: bind_res_def)

lemma bind_res_eq_Inr [simp]:
  "bind_res r f = Inr y \<longleftrightarrow> (\<exists>x. r = Inr x \<and> f x = Inr y)"
  by (cases r) simp_all

lemma bind_res_assoc: "bind_res (bind_res r f) g = bind_res r (\<lambda>x. bind_res (f x) g)"
  by (cases r) simp_all

lemma bind_res_cong [fundef_cong]:
  "r = r' \<Longrightarrow> (\<And>x. r' = Inr x \<Longrightarrow> f x = g x) \<Longrightarrow> bind_res r f = bind_res r' g"
  by (cases r') simp_all

section \<open>Integer conversions\<close>

text \<open>
  \<^verbatim>\<open>int\<close> is 32 bits wide and \<^verbatim>\<open>size_t\<close> 64 (the 64-bit ABIs of the build). A conversion to
  \<^verbatim>\<open>int\<close> keeps the low 32 bits read as two's complement, one to \<^verbatim>\<open>int16_t\<close> or \<^verbatim>\<open>int8_t\<close> the low 16 or 8; a conversion to \<^verbatim>\<open>size_t\<close> is
  modulo \<open>2 ^ 64\<close>.
\<close>

definition to_int :: "int \<Rightarrow> int" where
  "to_int z = signed_take_bit 31 z"

definition to_int16 :: "int \<Rightarrow> int" where
  "to_int16 z = signed_take_bit 15 z"

definition to_int8 :: "int \<Rightarrow> int" where
  "to_int8 z = signed_take_bit 7 z"

definition to_size_t :: "int \<Rightarrow> int" where
  "to_size_t z = z mod 2 ^ 64"

definition fits_int :: "int \<Rightarrow> bool" where
  "fits_int z \<longleftrightarrow> - (2 ^ 31) \<le> z \<and> z < 2 ^ 31"

text \<open>\<^verbatim>\<open>int size = v.size();\<close>\<close>

definition int_size :: "'a list \<Rightarrow> int" where
  "int_size xs = to_int (int (length xs))"

lemma to_int_id [simp]: "fits_int z \<Longrightarrow> to_int z = z"
  by (simp add: to_int_def fits_int_def signed_take_bit_int_eq_self)

lemma to_int_fits: "fits_int (to_int z)"
  using signed_take_bit_int_greater_eq_minus_exp [of 31 z] signed_take_bit_int_less_exp [of 31 z]
  by (simp add: to_int_def fits_int_def)

lemma int_size_small [simp]: "length xs < 2 ^ 31 \<Longrightarrow> int_size xs = int (length xs)"
  by (simp add: int_size_def fits_int_def)

lemma int_size_le: "int_size xs \<le> int (length xs)"
proof (cases "length xs < 2 ^ 31")
  case False
  then have "(2::int) ^ 31 \<le> int (length xs)" by simp
  moreover have "to_int (int (length xs)) < 2 ^ 31" using to_int_fits by (simp add: fits_int_def)
  ultimately show ?thesis by (simp add: int_size_def)
qed simp

text \<open>Signed arithmetic that overflows is undefined behaviour, so it is an error of the model.\<close>

definition checked_int :: "int \<Rightarrow> int res" where
  "checked_int z = (if fits_int z then Inr z else Inl SignedOverflow)"

lemma checked_int_Inr [simp]: "checked_int z = Inr y \<longleftrightarrow> y = z \<and> fits_int z"
  by (auto simp: checked_int_def)

text \<open>C++ integer division truncates towards zero.\<close>

definition quot_int :: "int \<Rightarrow> int \<Rightarrow> int" where
  "quot_int n d = (let q = (if n < 0 then - n else n) div (if d < 0 then - d else d)
     in if (n < 0) = (d < 0) then q else - q)"

lemma quot_int_nonneg: "0 \<le> n \<Longrightarrow> 0 < d \<Longrightarrow> quot_int n d = n div d"
  by (simp add: quot_int_def)

text \<open>The division of two \<^verbatim>\<open>int\<close>s: undefined for a zero divisor and for the smallest \<^verbatim>\<open>int\<close> by \<open>-1\<close>.\<close>

definition checked_quot :: "int \<Rightarrow> int \<Rightarrow> int res" where
  "checked_quot n d = (if d = 0 then Inl DivideByZero else checked_int (quot_int n d))"

lemma checked_quot_pos:
  assumes "0 \<le> n" "fits_int n" "0 < d"
  shows "checked_quot n d = Inr (n div d)"
proof -
  have "n div d \<le> n" using assms zdiv_mono2[of n 1 d] by simp
  moreover have "0 \<le> n div d" using assms by (simp add: pos_imp_zdiv_nonneg_iff)
  ultimately show ?thesis using assms by (simp add: checked_quot_def quot_int_nonneg fits_int_def)
qed

section \<open>Vectors\<close>

text \<open>\<^verbatim>\<open>v[i]\<close> with an \<^verbatim>\<open>int\<close> index: a negative index converts to a huge \<^verbatim>\<open>size_t\<close>.\<close>

definition vec_at :: "'a list \<Rightarrow> int \<Rightarrow> 'a res" where
  "vec_at xs i = (if 0 \<le> i \<and> i < int (length xs) then Inr (xs ! nat i) else Inl OutOfBounds)"

lemma vec_at_Inr [simp]:
  "vec_at xs i = Inr x \<longleftrightarrow> 0 \<le> i \<and> i < int (length xs) \<and> xs ! nat i = x"
  by (auto simp: vec_at_def)

lemma vec_at_Inl [simp]: "vec_at xs i = Inl e \<longleftrightarrow> e = OutOfBounds \<and> \<not> (0 \<le> i \<and> i < int (length xs))"
  by (auto simp: vec_at_def)

lemma vec_at_Nil [simp]: "vec_at [] i = Inl OutOfBounds"
  by simp

lemma vec_at_0 [simp]: "vec_at (x # xs) 0 = Inr x"
  by simp

text \<open>\<^verbatim>\<open>v[i] = x\<close>.\<close>

definition vec_set :: "'a list \<Rightarrow> int \<Rightarrow> 'a \<Rightarrow> 'a list res" where
  "vec_set xs i x = (if 0 \<le> i \<and> i < int (length xs) then Inr (xs[nat i := x]) else Inl OutOfBounds)"

lemma vec_set_Inr [simp]:
  "vec_set xs i x = Inr ys \<longleftrightarrow> 0 \<le> i \<and> i < int (length xs) \<and> ys = xs[nat i := x]"
  by (auto simp: vec_set_def)

text \<open>A loop \<^verbatim>\<open>for (int i = 0; i < n; i++)\<close> whose body may fail.\<close>

fun for_loop :: "(nat \<Rightarrow> 's \<Rightarrow> 's res) \<Rightarrow> nat \<Rightarrow> nat \<Rightarrow> 's \<Rightarrow> 's res" where
  "for_loop body i 0 s = Inr s"
| "for_loop body i (Suc k) s = bind_res (body i s) (for_loop body (Suc i) k)"

lemma for_loop_invariant:
  assumes "for_loop body i k s = Inr t" and "P s"
    and "\<And>j u v. i \<le> j \<Longrightarrow> j < i + k \<Longrightarrow> body j u = Inr v \<Longrightarrow> P u \<Longrightarrow> P v"
  shows "P t"
  using assms
proof (induction k arbitrary: i s)
  case (Suc k)
  from Suc.prems(1) obtain u where u: "body i s = Inr u" and t: "for_loop body (Suc i) k u = Inr t"
    by auto
  have "P u" using Suc.prems(2) Suc.prems(3)[OF _ _ u] by simp
  moreover have "P w" if "Suc i \<le> j" "j < Suc i + k" "body j v = Inr w" "P v" for j v w
    using Suc.prems(3)[of j v w] that by simp
  ultimately show ?case using Suc.IH[OF t] by blast
qed simp

lemma for_loop_keeps:
  assumes "P s" and "\<And>j u. i \<le> j \<Longrightarrow> j < i + k \<Longrightarrow> P u \<Longrightarrow> \<exists>v. body j u = Inr v \<and> P v"
  shows "\<exists>t. for_loop body i k s = Inr t \<and> P t"
  using assms
proof (induction k arbitrary: i s)
  case (Suc k)
  obtain u where u: "body i s = Inr u" "P u" using Suc.prems(2)[of i s] Suc.prems(1) by auto
  have "\<exists>t. for_loop body (Suc i) k u = Inr t \<and> P t" using Suc.prems(2) u(2) by (intro Suc.IH) simp_all
  then show ?case using u(1) by simp
qed simp

lemma for_loop_total:
  assumes "\<And>j u. i \<le> j \<Longrightarrow> j < i + k \<Longrightarrow> \<exists>v. body j u = Inr v"
  shows "\<exists>t. for_loop body i k s = Inr t"
  using assms
proof (induction k arbitrary: i s)
  case (Suc k)
  obtain u where "body i s = Inr u" using Suc.prems[of i s] by auto
  moreover have "\<exists>t. for_loop body (Suc i) k u = Inr t" using Suc.prems by (intro Suc.IH) simp
  ultimately show ?case by simp
qed simp

end
