(* ===== verification/Ieee_Float.thy ===== *)
theory Ieee_Float
  imports Complex_Main "HOL-Library.Log_Nat" Prelude
begin

text \<open>
  The C++ types \<^verbatim>\<open>float\<close> and \<^verbatim>\<open>double\<close> as the IEEE 754 formats binary32 and binary64 that
  every Android ABI uses: values, rounding to nearest with ties to even, the arithmetic the
  native library performs, and the comparisons. The rounding of each operation is written out
  on exact rationals, so all definitions compute. The theorems are the ones the components
  need: rounding is monotone and leaves representable numbers alone, and sums of bounded
  terms stay bounded and finite.
\<close>

section \<open>Formats and values\<close>

datatype fmt = Binary32 | Binary64

fun prec :: "fmt \<Rightarrow> nat" where
  "prec Binary32 = 24"
| "prec Binary64 = 53"

text \<open>The exponent of the unit in the last place of the subnormal numbers.\<close>

fun qmin :: "fmt \<Rightarrow> int" where
  "qmin Binary32 = - 149"
| "qmin Binary64 = - 1074"

text \<open>Magnitudes from \<open>2 powi emax\<close> on overflow.\<close>

fun emax :: "fmt \<Rightarrow> int" where
  "emax Binary32 = 128"
| "emax Binary64 = 1024"

text \<open>
  \<open>Fin s m\<close> is the number of sign \<open>s\<close> (true for negative) and magnitude \<open>m\<close>; both zeros exist.
\<close>

datatype fl = NaN | Inf bool | Fin bool rat

type_synonym float32 = fl
type_synonym double = fl

abbreviation pow2 :: "int \<Rightarrow> rat" where
  "pow2 e \<equiv> 2 powi e"

abbreviation zero :: fl where
  "zero \<equiv> Fin False 0"

fun sval :: "fl \<Rightarrow> rat" where
  "sval (Fin s m) = (if s then - m else m)"
| "sval _ = 0"

fun is_finite :: "fl \<Rightarrow> bool" where
  "is_finite (Fin s m) = True"
| "is_finite _ = False"

fun is_nan :: "fl \<Rightarrow> bool" where
  "is_nan NaN = True"
| "is_nan _ = False"

text \<open>The number a bit pattern stands for: the sign, the exponent and the fraction.\<close>

fun width :: "fmt \<Rightarrow> nat" where
  "width Binary32 = 32"
| "width Binary64 = 64"

definition fl_of_bits :: "fmt \<Rightarrow> int \<Rightarrow> fl" where
  "fl_of_bits F u =
     (let f = prec F - 1; n = width F - 1 - f; s = 2 ^ (width F - 1) \<le> u; e = u div 2 ^ f mod 2 ^ n; m = u mod 2 ^ f in
      if e = 2 ^ n - 1 then (if m = 0 then Inf s else NaN)
      else if e = 0 then Fin s (of_int m * pow2 (qmin F))
      else Fin s (of_int (2 ^ f + m) * pow2 (e - 1 + qmin F)))"

section \<open>Rounding\<close>

text \<open>\<open>ilog2 q\<close> is the exponent of the leading bit of a positive rational.\<close>

definition ilog2 :: "rat \<Rightarrow> int" where
  "ilog2 q = (let (a, b) = quotient_of q;
                  k = bitlen a - bitlen b
              in if pow2 k \<le> q then k else k - 1)"

text \<open>Round to the nearest integer, ties to even.\<close>

definition rne :: "rat \<Rightarrow> int" where
  "rne q = (let f = \<lfloor>q\<rfloor>; r = q - of_int f
            in if r < 1 / 2 then f else if r > 1 / 2 then f + 1
               else if even f then f else f + 1)"

definition ulp_exp :: "fmt \<Rightarrow> rat \<Rightarrow> int" where
  "ulp_exp F q = max (ilog2 q - (int (prec F) - 1)) (qmin F)"

definition round_mag :: "fmt \<Rightarrow> rat \<Rightarrow> rat" where
  "round_mag F q = (if q \<le> 0 then 0
     else of_int (rne (q / pow2 (ulp_exp F q))) * pow2 (ulp_exp F q))"

definition rnd :: "fmt \<Rightarrow> bool \<Rightarrow> rat \<Rightarrow> fl" where
  "rnd F s q = (let m = round_mag F q in if 0 < m \<and> emax F \<le> ilog2 m then Inf s else Fin s m)"

section \<open>Arithmetic\<close>

fun fl_neg :: "fl \<Rightarrow> fl" where
  "fl_neg NaN = NaN"
| "fl_neg (Inf s) = Inf (\<not> s)"
| "fl_neg (Fin s m) = Fin (\<not> s) m"

fun fl_add :: "fmt \<Rightarrow> fl \<Rightarrow> fl \<Rightarrow> fl" where
  "fl_add F (Fin s a) (Fin t b) =
     (let r = sval (Fin s a) + sval (Fin t b)
      in if r = 0 then Fin (s \<and> t) 0 else rnd F (r < 0) \<bar>r\<bar>)"
| "fl_add F (Inf s) (Inf t) = (if s = t then Inf s else NaN)"
| "fl_add F (Inf s) (Fin t b) = Inf s"
| "fl_add F (Fin s a) (Inf t) = Inf t"
| "fl_add F x y = NaN"

definition fl_sub :: "fmt \<Rightarrow> fl \<Rightarrow> fl \<Rightarrow> fl" where
  "fl_sub F x y = fl_add F x (fl_neg y)"

fun fl_mul :: "fmt \<Rightarrow> fl \<Rightarrow> fl \<Rightarrow> fl" where
  "fl_mul F (Fin s a) (Fin t b) = rnd F (s \<noteq> t) (a * b)"
| "fl_mul F (Inf s) (Inf t) = Inf (s \<noteq> t)"
| "fl_mul F (Inf s) (Fin t b) = (if b = 0 then NaN else Inf (s \<noteq> t))"
| "fl_mul F (Fin s a) (Inf t) = (if a = 0 then NaN else Inf (s \<noteq> t))"
| "fl_mul F x y = NaN"

fun fl_div :: "fmt \<Rightarrow> fl \<Rightarrow> fl \<Rightarrow> fl" where
  "fl_div F (Fin s a) (Fin t b) =
     (if b = 0 then if a = 0 then NaN else Inf (s \<noteq> t) else rnd F (s \<noteq> t) (a / b))"
| "fl_div F (Inf s) (Fin t b) = Inf (s \<noteq> t)"
| "fl_div F (Fin s a) (Inf t) = Fin (s \<noteq> t) 0"
| "fl_div F x y = NaN"

text \<open>Integer square root, and the correctly rounded square root of a rational magnitude.\<close>

function isqrt :: "int \<Rightarrow> int" where
  "isqrt n = (if n \<le> 0 then 0
     else let r = 2 * isqrt (n div 4) in if (r + 1) * (r + 1) \<le> n then r + 1 else r)"
  by pat_completeness auto
termination
  by (relation "measure nat") auto

declare isqrt.simps [simp del]

definition rne_sqrt :: "rat \<Rightarrow> int" where
  "rne_sqrt x = (let f = isqrt \<lfloor>x\<rfloor>; h = (of_int f + 1 / 2) * (of_int f + 1 / 2)
                 in if x < h then f else if x > h then f + 1 else if even f then f else f + 1)"

definition sqrt_exp :: "fmt \<Rightarrow> rat \<Rightarrow> int" where
  "sqrt_exp F q = max (ilog2 q div 2 - (int (prec F) - 1)) (qmin F)"

fun fl_sqrt :: "fmt \<Rightarrow> fl \<Rightarrow> fl" where
  "fl_sqrt F (Fin s a) =
     (if a = 0 then Fin s 0 else if s then NaN
      else let e = sqrt_exp F a in Fin False (of_int (rne_sqrt (a / pow2 (2 * e))) * pow2 e))"
| "fl_sqrt F (Inf s) = (if s then NaN else Inf False)"
| "fl_sqrt F NaN = NaN"

text \<open>Conversions between the formats and from integers.\<close>

fun fl_cvt :: "fmt \<Rightarrow> fl \<Rightarrow> fl" where
  "fl_cvt F (Fin s a) = rnd F s a"
| "fl_cvt F x = x"

definition fl_of_int :: "fmt \<Rightarrow> int \<Rightarrow> fl" where
  "fl_of_int F z = rnd F (z < 0) \<bar>of_int z\<bar>"

section \<open>Comparisons\<close>

fun fl_lt :: "fl \<Rightarrow> fl \<Rightarrow> bool" where
  "fl_lt (Fin s a) (Fin t b) = (sval (Fin s a) < sval (Fin t b))"
| "fl_lt (Inf s) (Inf t) = (s \<and> \<not> t)"
| "fl_lt (Inf s) (Fin t b) = s"
| "fl_lt (Fin s a) (Inf t) = (\<not> t)"
| "fl_lt x y = False"

fun fl_eq :: "fl \<Rightarrow> fl \<Rightarrow> bool" where
  "fl_eq (Fin s a) (Fin t b) = (sval (Fin s a) = sval (Fin t b))"
| "fl_eq (Inf s) (Inf t) = (s = t)"
| "fl_eq x y = False"

section \<open>The exponent of a rational\<close>

lemma pow2_pos [simp]: "0 < pow2 e" "0 \<le> pow2 e" "pow2 e \<noteq> 0"
  by simp_all

lemma pow2_le_iff [simp]: "pow2 a \<le> pow2 b \<longleftrightarrow> a \<le> b"
  using power_int_increasing [of a b "2::rat"] power_int_strict_increasing [of b a "2::rat"]
  by (cases "a \<le> b") auto

lemma pow2_less_iff [simp]: "pow2 a < pow2 b \<longleftrightarrow> a < b"
  using pow2_le_iff [of b a] by (simp only: not_le flip: not_le)

lemma pow2_add: "pow2 (a + b) = pow2 a * pow2 b"
  by (simp add: power_int_add)

lemma pow2_diff: "pow2 (a - b) = pow2 a / pow2 b"
  by (simp add: power_int_diff)

lemma bitlen_pow2_bounds:
  assumes "0 < a"
  shows "pow2 (bitlen a - 1) \<le> of_int a" and "of_int a < pow2 (bitlen a)"
proof -
  have len: "1 \<le> bitlen a" using assms bitlen_eq_zero_iff [of a] bitlen_nonneg [of a] by linarith
  note b = bitlen_bounds [OF assms]
  have "(of_int (2 ^ nat (bitlen a - 1)) :: rat) \<le> of_int a" using b by (simp only: of_int_le_iff)
  then show "pow2 (bitlen a - 1) \<le> of_int a" using len by (simp add: power_int_def)
  have "of_int a < (of_int (2 ^ nat (bitlen a)) :: rat)" using b by (simp only: of_int_less_iff)
  then show "of_int a < pow2 (bitlen a)" using len by (simp add: power_int_def)
qed

lemma ilog2_bounds:
  assumes "0 < q"
  shows "pow2 (ilog2 q) \<le> q" and "q < pow2 (ilog2 q + 1)"
proof -
  obtain a b where ab: "quotient_of q = (a, b)" by fastforce
  have b: "0 < b" using quotient_of_denom_pos [OF ab] .
  have q: "q = of_int a / of_int b" using quotient_of_div [OF ab] .
  have a: "0 < a" using assms b by (simp add: q zero_less_divide_iff)
  let ?k = "bitlen a - bitlen b"
  note ba = bitlen_pow2_bounds [OF a] and bb = bitlen_pow2_bounds [OF b]
  have "q < pow2 (bitlen a) / pow2 (bitlen b - 1)"
    unfolding q using ba bb b a by (intro frac_less) simp_all
  also have "\<dots> = pow2 (?k + 1)" by (simp add: algebra_simps flip: pow2_diff)
  finally have up: "q < pow2 (?k + 1)" .
  have "pow2 (?k - 1) = pow2 (bitlen a - 1) / pow2 (bitlen b)"
    by (simp add: algebra_simps flip: pow2_diff)
  also have "\<dots> \<le> q" unfolding q using ba bb b a by (intro frac_le) simp_all
  finally have lo: "pow2 (?k - 1) \<le> q" .
  show "pow2 (ilog2 q) \<le> q" "q < pow2 (ilog2 q + 1)"
    using up lo by (auto simp: ilog2_def ab Let_def)
qed

lemma ilog2_ge_iff:
  assumes "0 < q"
  shows "k \<le> ilog2 q \<longleftrightarrow> pow2 k \<le> q"
proof
  assume "k \<le> ilog2 q"
  then have "pow2 k \<le> pow2 (ilog2 q)" by simp
  then show "pow2 k \<le> q" using ilog2_bounds(1) [OF assms] by linarith
next
  assume "pow2 k \<le> q"
  then have "pow2 k < pow2 (ilog2 q + 1)" using ilog2_bounds(2) [OF assms] by linarith
  then show "k \<le> ilog2 q" by simp
qed

lemma ilog2_mono: "0 < q \<Longrightarrow> q \<le> r \<Longrightarrow> ilog2 q \<le> ilog2 r"
  using ilog2_bounds(1) [of q] by (subst ilog2_ge_iff) auto

section \<open>Rounding is monotone and exact on representable numbers\<close>

lemma rne_of_int [simp]: "rne (of_int n) = n"
  by (simp add: rne_def)

lemma rne_mono: "q \<le> r \<Longrightarrow> rne q \<le> rne r"
proof -
  assume le: "q \<le> r"
  have fl: "\<lfloor>q\<rfloor> \<le> \<lfloor>r\<rfloor>" by (rule floor_mono [OF le])
  show ?thesis
  proof (cases "\<lfloor>q\<rfloor> = \<lfloor>r\<rfloor>")
    case True
    then show ?thesis using le by (auto simp: rne_def Let_def)
  next
    case False
    then have "\<lfloor>q\<rfloor> + 1 \<le> \<lfloor>r\<rfloor>" using fl by linarith
    then show ?thesis by (auto simp: rne_def Let_def)
  qed
qed

lemma rne_nonneg: "0 \<le> q \<Longrightarrow> 0 \<le> rne q"
  using rne_mono [of 0 q] rne_of_int [of 0] by simp

lemma rne_le_of_int: "q \<le> of_int n \<Longrightarrow> rne q \<le> n"
  using rne_mono [of q "of_int n"] by simp

lemma of_int_le_rne: "of_int n \<le> q \<Longrightarrow> n \<le> rne q"
  using rne_mono [of "of_int n" q] by simp

text \<open>The numbers of a format: an integer of at most \<open>prec F\<close> bits times a power of two.\<close>

definition representable :: "fmt \<Rightarrow> rat \<Rightarrow> bool" where
  "representable F m \<longleftrightarrow>
     (\<exists>n e. 0 \<le> n \<and> n < 2 ^ prec F \<and> qmin F \<le> e \<and> m = of_int n * pow2 e)"

lemma round_mag_nonneg [simp]: "0 \<le> round_mag F q"
  by (auto simp: round_mag_def intro!: mult_nonneg_nonneg rne_nonneg)

lemma prec_pos [simp]: "0 < prec F"
  by (cases F) simp_all

lemma int_quotient_pow2: "e \<le> k \<Longrightarrow> pow2 k / pow2 e = of_int (2 ^ nat (k - e))"
proof -
  assume "e \<le> k"
  then have "pow2 (k - e) = of_int (2 ^ nat (k - e))" by (simp add: power_int_def)
  then show ?thesis by (simp only: pow2_diff)
qed

lemma round_mag_le_pow2:
  assumes "0 < q" and "q \<le> pow2 k" and "ulp_exp F q \<le> k"
  shows "round_mag F q \<le> pow2 k"
proof -
  let ?e = "ulp_exp F q"
  have "q / pow2 ?e \<le> pow2 k / pow2 ?e" using assms(2) by (intro divide_right_mono) simp_all
  then have "rne (q / pow2 ?e) \<le> 2 ^ nat (k - ?e)"
    using assms(3) by (intro rne_le_of_int) (simp only: int_quotient_pow2)
  then have "(of_int (rne (q / pow2 ?e)) :: rat) \<le> of_int (2 ^ nat (k - ?e))"
    by (simp only: of_int_le_iff)
  also have "\<dots> = pow2 k / pow2 ?e" using assms(3) by (simp only: int_quotient_pow2)
  finally show ?thesis using assms(1) by (simp add: round_mag_def field_simps)
qed

lemma pow2_le_round_mag:
  assumes "pow2 k \<le> q" and "ulp_exp F q \<le> k"
  shows "pow2 k \<le> round_mag F q"
proof -
  let ?e = "ulp_exp F q"
  have q: "0 < q" using assms(1) pow2_pos(1) [of k] by linarith
  have "pow2 k / pow2 ?e \<le> q / pow2 ?e" using assms(1) by (intro divide_right_mono) simp_all
  then have "2 ^ nat (k - ?e) \<le> rne (q / pow2 ?e)"
    using assms(2) by (intro of_int_le_rne) (simp only: int_quotient_pow2)
  then have "(of_int (2 ^ nat (k - ?e)) :: rat) \<le> of_int (rne (q / pow2 ?e))"
    by (simp only: of_int_le_iff)
  then have "pow2 k / pow2 ?e \<le> of_int (rne (q / pow2 ?e))"
    using assms(2) by (simp only: int_quotient_pow2)
  then show ?thesis using q by (simp add: round_mag_def field_simps)
qed

lemma round_mag_mono:
  assumes "0 < q" and "q \<le> r"
  shows "round_mag F q \<le> round_mag F r"
proof (cases "ulp_exp F q = ulp_exp F r")
  case True
  have "rne (q / pow2 (ulp_exp F r)) \<le> rne (r / pow2 (ulp_exp F r))"
    using assms(2) by (intro rne_mono divide_right_mono) simp_all
  then show ?thesis using assms True by (simp add: round_mag_def)
next
  case False
  have "ilog2 q \<le> ilog2 r" by (rule ilog2_mono [OF assms])
  with False have r: "ulp_exp F r = ilog2 r - (int (prec F) - 1)" "ulp_exp F q < ulp_exp F r"
    and l: "ilog2 q < ilog2 r" by (auto simp: ulp_exp_def max_def split: if_splits)
  have "pow2 (ilog2 q + 1) \<le> pow2 (ilog2 r)" using l by simp
  then have "q \<le> pow2 (ilog2 r)" using ilog2_bounds(2) [OF assms(1)] by linarith
  then have "round_mag F q \<le> pow2 (ilog2 r)"
    using assms r prec_pos [of F] by (intro round_mag_le_pow2) linarith+
  also have "\<dots> \<le> round_mag F r"
    using assms r(1) prec_pos [of F] by (intro pow2_le_round_mag ilog2_bounds(1)) linarith+
  finally show ?thesis .
qed

lemma round_mag_representable:
  assumes "representable F m"
  shows "round_mag F m = m"
proof (cases "m \<le> 0")
  case True
  have "0 \<le> m" using assms by (auto simp: representable_def)
  with True show ?thesis by (simp add: round_mag_def)
next
  case False
  from assms obtain n e where n: "0 \<le> n" "n < 2 ^ prec F" and e: "qmin F \<le> e"
    and m: "m = of_int n * pow2 e" by (auto simp: representable_def)
  have "(of_int n :: rat) < of_int (2 ^ prec F)" using n(2) by (simp only: of_int_less_iff)
  then have "m < pow2 (int (prec F) + e)" by (simp add: m pow2_add)
  then have "\<not> int (prec F) + e \<le> ilog2 m" using False by (simp add: ilog2_ge_iff)
  then have ule: "ulp_exp F m \<le> e" using e by (simp add: ulp_exp_def)
  have "m / pow2 (ulp_exp F m) = of_int (n * 2 ^ nat (e - ulp_exp F m))"
    using int_quotient_pow2 [OF ule] by (subst m) (simp only: times_divide_eq_right [symmetric] of_int_mult)
  moreover from this have "rne (m / pow2 (ulp_exp F m)) = n * 2 ^ nat (e - ulp_exp F m)"
    by (simp only: rne_of_int)
  ultimately have "of_int (rne (m / pow2 (ulp_exp F m))) = m / pow2 (ulp_exp F m)" by (simp only:)
  then show ?thesis using False by (simp add: round_mag_def)
qed

text \<open>Rounding keeps within every representable bound.\<close>

lemma round_mag_le:
  assumes "q \<le> B" and "representable F B"
  shows "round_mag F q \<le> B"
proof (cases "0 < q")
  case True
  then show ?thesis using round_mag_mono [OF True assms(1), of F] round_mag_representable [OF assms(2)]
    by simp
next
  case False
  then show ?thesis using assms(2) round_mag_nonneg [of F B] round_mag_representable [OF assms(2)]
    by (simp add: round_mag_def)
qed

lemma rnd_Fin:
  assumes "q \<le> B" and "representable F B" and "B < pow2 (emax F)"
  shows "rnd F s q = Fin s (round_mag F q)"
proof -
  have "round_mag F q < pow2 (emax F)" using round_mag_le [OF assms(1,2)] assms(3) by linarith
  then show ?thesis by (auto simp: rnd_def Let_def ilog2_ge_iff)
qed

lemma rnd_exact:
  "representable F m \<Longrightarrow> m < pow2 (emax F) \<Longrightarrow> rnd F s m = Fin s m"
  by (simp add: rnd_Fin [of m m] round_mag_representable)

lemma representable_int:
  assumes "0 \<le> n" and "n < 2 ^ prec F"
  shows "representable F (of_int n)"
  unfolding representable_def
  by (rule exI [of _ n], rule exI [of _ 0]) (use assms in \<open>cases F; simp\<close>)

lemma representable_scale:
  assumes "0 \<le> n" and "n < 2 ^ prec F" and "0 \<le> k"
  shows "representable F (of_int n * pow2 k)"
  unfolding representable_def
  by (rule exI [of _ n], rule exI [of _ k]) (use assms in \<open>cases F; simp\<close>)

lemma small_less_emax: "n < 2 ^ prec F \<Longrightarrow> (of_int n :: rat) < pow2 (emax F)"
proof -
  assume "n < 2 ^ prec F"
  then have "(of_int n :: rat) < of_int (2 ^ prec F)" by (simp only: of_int_less_iff)
  also have "\<dots> = pow2 (int (prec F))" by simp
  also have "\<dots> < pow2 (emax F)" by (simp only: pow2_less_iff) (cases F; simp)
  finally show ?thesis .
qed

text \<open>Integers of at most \<open>prec F\<close> bits convert exactly.\<close>

lemma rnd_small_int:
  "0 \<le> n \<Longrightarrow> n < 2 ^ prec F \<Longrightarrow> rnd F s (of_int n) = Fin s (of_int n)"
  by (simp add: rnd_exact representable_int small_less_emax)

lemma fl_of_int_small:
  "0 \<le> n \<Longrightarrow> n < 2 ^ prec F \<Longrightarrow> fl_of_int F n = Fin False (of_int n)"
  by (simp add: fl_of_int_def rnd_small_int)

lemma rnd_numeral [simp]:
  "(numeral k :: int) < 2 ^ prec F \<Longrightarrow> rnd F s (numeral k) = Fin s (numeral k)"
  "rnd F s 1 = Fin s 1"
  "rnd F s 0 = Fin s 0"
  using rnd_small_int [of "numeral k" F s] rnd_small_int [of 1 F s] rnd_small_int [of 0 F s]
  by (simp_all add: one_less_power)

section \<open>Bounds of the operations\<close>

text \<open>A finite number of magnitude at most \<open>B\<close>, and one that is not negative besides.\<close>

fun upto_mag :: "rat \<Rightarrow> fl \<Rightarrow> bool" where
  "upto_mag B (Fin s m) \<longleftrightarrow> 0 \<le> m \<and> m \<le> B"
| "upto_mag B _ \<longleftrightarrow> False"

fun nonneg_upto :: "rat \<Rightarrow> fl \<Rightarrow> bool" where
  "nonneg_upto B (Fin s m) \<longleftrightarrow> \<not> s \<and> 0 \<le> m \<and> m \<le> B"
| "nonneg_upto B _ \<longleftrightarrow> False"

definition bound_of :: "fmt \<Rightarrow> rat \<Rightarrow> bool" where
  "bound_of F B \<longleftrightarrow> representable F B \<and> B < pow2 (emax F)"

lemma nonneg_uptoE:
  assumes "nonneg_upto B a"
  obtains m where "a = Fin False m" "0 \<le> m" "m \<le> B"
  using assms by (cases a) auto

lemma upto_magE:
  assumes "upto_mag B a"
  obtains s m where "a = Fin s m" "0 \<le> m" "m \<le> B"
  using assms by (cases a) auto

lemma nonneg_upto_mono: "nonneg_upto A a \<Longrightarrow> A \<le> B \<Longrightarrow> nonneg_upto B a"
  by (cases a) auto

lemma nonneg_upto_imp: "nonneg_upto B a \<Longrightarrow> upto_mag B a" "upto_mag B a \<Longrightarrow> is_finite a"
  by (cases a; simp)+

lemma bound_of_pow2: "qmin F \<le> k \<Longrightarrow> k < emax F \<Longrightarrow> bound_of F (pow2 k)"
proof -
  assume k: "qmin F \<le> k" "k < emax F"
  have "(1::int) < 2 ^ prec F" by (simp add: one_less_power)
  then have "representable F (pow2 k)"
    unfolding representable_def using k by (intro exI [of _ 1] exI [of _ k]) simp
  then show ?thesis using k by (simp add: bound_of_def)
qed

lemma bound_of_scale:
  assumes "0 \<le> n" "n < 2 ^ prec F" "0 \<le> k" "int (prec F) + k \<le> emax F"
  shows "bound_of F (of_int n * pow2 k)"
proof -
  have "(of_int n :: rat) < of_int (2 ^ prec F)" using assms(2) by (simp only: of_int_less_iff)
  then have "of_int n * pow2 k < pow2 (int (prec F) + k)" by (simp add: pow2_add)
  also have "\<dots> \<le> pow2 (emax F)" using assms(4) by simp
  finally show ?thesis using representable_scale [OF assms(1-3)] by (simp add: bound_of_def)
qed

lemma rnd_upto: "bound_of F B \<Longrightarrow> q \<le> B \<Longrightarrow> upto_mag B (rnd F s q)"
  by (simp add: bound_of_def rnd_Fin round_mag_le)

lemma rnd_nonneg_upto: "bound_of F B \<Longrightarrow> q \<le> B \<Longrightarrow> nonneg_upto B (rnd F False q)"
  by (simp add: bound_of_def rnd_Fin round_mag_le)

lemma bound_of_nonneg: "bound_of F B \<Longrightarrow> 0 \<le> B"
  by (auto simp: bound_of_def representable_def)

lemma fl_add_nonneg_upto:
  assumes "nonneg_upto A a" "nonneg_upto B b" "bound_of F (A + B)"
  shows "nonneg_upto (A + B) (fl_add F a b)"
  using assms bound_of_nonneg [OF assms(3)]
  by (auto elim!: nonneg_uptoE simp: Let_def intro!: rnd_nonneg_upto add_mono)

lemma fl_sub_upto:
  assumes "nonneg_upto B a" "nonneg_upto B b" "bound_of F B"
  shows "upto_mag B (fl_sub F a b)"
  using assms bound_of_nonneg [OF assms(3)]
  by (auto elim!: nonneg_uptoE simp: fl_sub_def Let_def intro!: rnd_upto)

lemma fl_square_upto:
  assumes "upto_mag B a" "bound_of F (B * B)"
  shows "nonneg_upto (B * B) (fl_mul F a a)"
  using assms by (auto elim!: upto_magE intro!: rnd_nonneg_upto mult_mono)

lemma fl_div_nonneg_upto:
  assumes "nonneg_upto A a" and "0 < n" and "A \<le> of_int n * B" and "bound_of F B"
  shows "nonneg_upto B (fl_div F a (Fin False (of_int n)))"
proof -
  obtain m where m: "a = Fin False m" "m \<le> A" using assms(1) by (rule nonneg_uptoE)
  have "m / of_int n \<le> B" using m(2) assms(2,3) by (simp add: field_simps)
  then show ?thesis using assms(2,4) by (simp add: m rnd_nonneg_upto)
qed

lemma fl_cvt_nonneg_upto:
  "nonneg_upto B a \<Longrightarrow> bound_of F B \<Longrightarrow> nonneg_upto B (fl_cvt F a)"
  by (auto elim!: nonneg_uptoE intro!: rnd_nonneg_upto)

section \<open>The square root\<close>

lemma isqrt_bounds:
  "0 \<le> n \<Longrightarrow> 0 \<le> isqrt n \<and> isqrt n * isqrt n \<le> n \<and> n < (isqrt n + 1) * (isqrt n + 1)"
proof (induction n rule: isqrt.induct)
  case (1 n)
  show ?case
  proof (cases "n \<le> 0")
    case True
    then show ?thesis using "1.prems" by (simp add: isqrt.simps [of 0])
  next
    case False
    define r where "r = isqrt (n div 4)"
    have r: "0 \<le> r" "r * r \<le> n div 4" "n div 4 < (r + 1) * (r + 1)"
      using "1.IH" [OF False] False by (simp_all add: r_def)
    have lo: "(2 * r) * (2 * r) \<le> n" using r(2) by (simp add: algebra_simps)
    have "n div 4 + 1 \<le> (r + 1) * (r + 1)" using r(3) by linarith
    then have "n < 4 * ((r + 1) * (r + 1))" by linarith
    then have hi: "n < (2 * r + 2) * (2 * r + 2)" by (simp add: algebra_simps)
    show ?thesis using False lo hi r(1)
      by (simp add: isqrt.simps [of n] Let_def add.commute flip: r_def)
  qed
qed

lemma isqrt_le: "0 \<le> n \<Longrightarrow> 0 \<le> k \<Longrightarrow> n \<le> k * k \<Longrightarrow> isqrt n \<le> k"
proof (rule ccontr)
  assume a: "0 \<le> n" "0 \<le> k" "n \<le> k * k" "\<not> isqrt n \<le> k"
  then have "(k + 1) * (k + 1) \<le> isqrt n * isqrt n" by (intro mult_mono) auto
  also have "\<dots> \<le> n" using isqrt_bounds [OF a(1)] by simp
  finally show False using a(2,3) by (simp add: algebra_simps)
qed

lemma rne_sqrt_le:
  assumes "0 \<le> q" "0 \<le> k" "q \<le> of_int (k * k)"
  shows "rne_sqrt q \<le> k" and "0 \<le> rne_sqrt q"
proof -
  let ?f = "isqrt \<lfloor>q\<rfloor>"
  have n: "0 \<le> \<lfloor>q\<rfloor>" "\<lfloor>q\<rfloor> \<le> k * k" using assms(1,3) by (simp_all add: floor_le_iff del: of_int_mult)
  note b = isqrt_bounds [OF n(1)] and le = isqrt_le [OF n(1) assms(2) n(2)]
  show "0 \<le> rne_sqrt q" using b by (auto simp: rne_sqrt_def Let_def)
  show "rne_sqrt q \<le> k"
  proof (cases "?f = k")
    case True
    have "(of_int (k * k) :: rat) < (of_int k + 1 / 2) * (of_int k + 1 / 2)"
      using assms(2) by (simp add: algebra_simps)
    then have "q < (of_int ?f + 1 / 2) * (of_int ?f + 1 / 2)"
      using assms(3) unfolding True by linarith
    then show ?thesis using True by (simp add: rne_sqrt_def Let_def)
  next
    case False
    then show ?thesis using le by (auto simp: rne_sqrt_def Let_def)
  qed
qed

lemma fl_sqrt_nonneg_upto:
  assumes "nonneg_upto (pow2 (2 * k)) a" and "qmin F \<le> k"
  shows "nonneg_upto (pow2 k) (fl_sqrt F a)"
proof -
  obtain m where m: "a = Fin False m" "0 \<le> m" "m \<le> pow2 (2 * k)"
    using assms(1) by (rule nonneg_uptoE)
  show ?thesis
  proof (cases "m = 0")
    case False
    with m have "0 < m" by simp
    then have "ilog2 m \<le> 2 * k"
      using ilog2_bounds(1) [OF \<open>0 < m\<close>] m(3) pow2_le_iff [of "ilog2 m" "2 * k"] by linarith
    moreover define e where "e = sqrt_exp F m"
    ultimately have e: "e \<le> k" using assms(2) prec_pos [of F] unfolding e_def sqrt_exp_def by linarith
    let ?n = "2 ^ nat (k - e) :: int"
    have "nat (2 * k - 2 * e) = nat (k - e) + nat (k - e)" using e by simp
    then have kk: "pow2 (2 * k) / pow2 (2 * e) = of_int (?n * ?n)"
      using int_quotient_pow2 [of "2 * e" "2 * k"] e by (simp only: power_add)
    have "m / pow2 (2 * e) \<le> pow2 (2 * k) / pow2 (2 * e)"
      by (rule divide_right_mono [OF m(3)]) simp
    then have "m / pow2 (2 * e) \<le> of_int (?n * ?n)" by (simp only: kk)
    then have r: "rne_sqrt (m / pow2 (2 * e)) \<le> ?n" "0 \<le> rne_sqrt (m / pow2 (2 * e))"
      using m(2) rne_sqrt_le [of "m / pow2 (2 * e)" ?n] by simp_all
    then have "(of_int (rne_sqrt (m / pow2 (2 * e))) :: rat) \<le> of_int ?n" by (simp only: of_int_le_iff)
    then have "of_int (rne_sqrt (m / pow2 (2 * e))) * pow2 e \<le> pow2 k"
      using int_quotient_pow2 [OF e] by (simp add: field_simps)
    then show ?thesis using False m(1) r(2) by (simp add: Let_def e_def)
  qed (simp add: m)
qed

end
