(* ===== verification/Cv_Mat.thy ===== *)
theory Cv_Mat
  imports Ieee_Float
begin

text \<open>
  The part of \<^verbatim>\<open>cv::Mat\<close> the native library relies on: a small header that refers to a
  reference-counted buffer, so that copying a header shares the elements. Buffers of doubles
  live in an explicit store, because the tracker writes through such a shared header. The
  element accessors are the inline ones of \<^verbatim>\<open>opencv2/core/mat.inl.hpp\<close>. The compiled part of
  OpenCV is the record \<open>cv_api\<close> of parameters; what its documentation promises of
  \<^verbatim>\<open>Mat::create\<close> is the hypothesis \<open>create_ok\<close>.
\<close>

section \<open>Headers and the store\<close>

type_synonym addr = nat

abbreviation (input) nullptr :: addr where
  "nullptr \<equiv> 0"

definition CV_8U :: int where "CV_8U = 0"
definition CV_64F :: int where "CV_64F = 6"

definition CV_CN_SHIFT :: nat where "CV_CN_SHIFT = 3"

definition CV_MAT_DEPTH :: "int \<Rightarrow> int" where
  "CV_MAT_DEPTH flags = and flags (2 ^ CV_CN_SHIFT - 1)"

definition CV_MAKETYPE :: "int \<Rightarrow> int \<Rightarrow> int" where
  "CV_MAKETYPE depth cn = CV_MAT_DEPTH depth + push_bit CV_CN_SHIFT (cn - 1)"

definition CV_64FC1 :: int where "CV_64FC1 = CV_MAKETYPE CV_64F 1"
definition CV_8UC4 :: int where "CV_8UC4 = CV_MAKETYPE CV_8U 4"

record mat =
  rows :: int
  cols :: int
  mtype :: int
  data :: addr

text \<open>A default-constructed header refers to no buffer.\<close>

definition empty_mat :: mat where
  "empty_mat = \<lparr>rows = 0, cols = 0, mtype = 0, data = nullptr\<rparr>"

text \<open>
  The buffers of doubles by address, and a bound below which the addresses used so far lie. A
  buffer stays in the store after its last header is gone and no address is given out twice,
  so a stale pointer is visible as a pointer that no live header has.
\<close>

record store =
  cells :: "addr \<rightharpoonup> double list"
  brk :: addr

definition store_ok :: "store \<Rightarrow> bool" where
  "store_ok h \<longleftrightarrow> 0 < brk h \<and> (\<forall>a. brk h \<le> a \<longrightarrow> cells h a = None)"

definition init_store :: store where
  "init_store = \<lparr>cells = Map.empty, brk = 1\<rparr>"

section \<open>Element access\<close>

definition depth :: "mat \<Rightarrow> int" where
  "depth m = CV_MAT_DEPTH (mtype m)"

definition mat_empty :: "mat \<Rightarrow> bool" where
  "mat_empty m \<longleftrightarrow> data m = nullptr"

text \<open>A raw pointer into a buffer of doubles: the buffer and the element it points at.\<close>

type_synonym dptr = "addr \<times> int"

abbreviation (input) null_dptr :: dptr where
  "null_dptr \<equiv> (nullptr, 0)"

text \<open>
  \<^verbatim>\<open>ptr<double>(y)\<close> is \<^verbatim>\<open>data + step * y\<close>; the matrices here are allocated by the library and
  continuous, so a step is one row of \<open>cols\<close> doubles.
\<close>

definition mat_ptr :: "mat \<Rightarrow> int \<Rightarrow> dptr" where
  "mat_ptr m y = (data m, cols m * y)"

text \<open>\<^verbatim>\<open>p[i]\<close> on a raw pointer.\<close>

definition deref :: "store \<Rightarrow> dptr \<Rightarrow> int \<Rightarrow> double res" where
  "deref h p i = (if fst p = nullptr then Inl NullDeref
     else case cells h (fst p) of None \<Rightarrow> Inl OutOfBounds | Some vs \<Rightarrow> vec_at vs (snd p + i))"

text \<open>\<^verbatim>\<open>at<double>(i0, i1)\<close>: the bounds are only asserted in debug builds.\<close>

definition mat_at :: "store \<Rightarrow> mat \<Rightarrow> int \<Rightarrow> int \<Rightarrow> double res" where
  "mat_at h m i0 i1 = deref h (mat_ptr m i0) i1"

definition mat_values :: "store \<Rightarrow> mat \<Rightarrow> double list" where
  "mat_values h m = (case cells h (data m) of None \<Rightarrow> [] | Some vs \<Rightarrow> vs)"

section \<open>Points and the library as parameters\<close>

record point2f =
  px :: float32
  py :: float32

record point3f =
  qx :: float32
  qy :: float32
  qz :: float32

type_synonym scalar = "int list"
type_synonym contour = "(int \<times> int) list"

record moments =
  m00 :: double
  m10 :: double
  m01 :: double

text \<open>
  One field per function of the compiled OpenCV the sources call, over an abstract type of
  pixel contents. Numeric results are left open; constants of the API keep their numeric value
  from the headers.
\<close>

record 'img cv_api =
  cv_create :: "store \<Rightarrow> mat \<Rightarrow> int \<Rightarrow> int \<Rightarrow> int \<Rightarrow> store \<times> mat"
  cv_cvtColor :: "'img \<Rightarrow> int \<Rightarrow> 'img res"
  cv_inRange :: "'img \<Rightarrow> scalar \<Rightarrow> scalar \<Rightarrow> 'img"
  cv_getStructuringElement :: "int \<Rightarrow> int \<times> int \<Rightarrow> 'img"
  cv_morphologyEx :: "'img \<Rightarrow> int \<Rightarrow> 'img \<Rightarrow> int \<times> int \<Rightarrow> int \<Rightarrow> 'img"
  cv_findContours :: "'img \<Rightarrow> int \<Rightarrow> int \<Rightarrow> contour list"
  cv_moments :: "contour \<Rightarrow> moments"
  cv_contourArea :: "contour \<Rightarrow> double"
  cv_kmeans :: "point2f list \<Rightarrow> int \<Rightarrow> double res"
  cv_circle :: "'img \<Rightarrow> point2f \<Rightarrow> int \<Rightarrow> scalar \<Rightarrow> int \<Rightarrow> int \<Rightarrow> int \<Rightarrow> 'img"
  cv_line :: "'img \<Rightarrow> point2f \<Rightarrow> point2f \<Rightarrow> scalar \<Rightarrow> int \<Rightarrow> 'img"
  cv_putText :: "'img \<Rightarrow> string \<Rightarrow> point2f \<Rightarrow> int \<Rightarrow> int \<Rightarrow> scalar \<Rightarrow> int \<Rightarrow> 'img"
  cv_solvePnPGeneric :: "point3f list \<Rightarrow> point2f list \<Rightarrow> double list \<Rightarrow> double list \<Rightarrow> int \<Rightarrow>
     (int \<times> double list list \<times> double list list) res"
  cv_projectPoints :: "point3f list \<Rightarrow> double list \<Rightarrow> double list \<Rightarrow> double list \<Rightarrow> double list \<Rightarrow>
     point2f list"
  cv_Rodrigues :: "double list \<Rightarrow> double list"
  cv_convertTo :: "double list \<Rightarrow> int \<Rightarrow> double list"
  cv_neg :: "double list \<Rightarrow> double list"
  cv_mul :: "double list \<Rightarrow> double list \<Rightarrow> double list"
  cv_add :: "double list \<Rightarrow> double list \<Rightarrow> double list"
  cv_div :: "double list \<Rightarrow> double \<Rightarrow> double list"
  cv_raw :: "'img \<Rightarrow> 8 word list"

text \<open>
  \<^verbatim>\<open>Mat::create\<close> as mat.hpp documents it: it returns immediately when shape and type match, and
  otherwise initialises a header on newly allocated data.
\<close>

definition shape_matches :: "mat \<Rightarrow> int \<Rightarrow> int \<Rightarrow> int \<Rightarrow> bool" where
  "shape_matches m r c t \<longleftrightarrow> data m \<noteq> nullptr \<and> rows m = r \<and> cols m = c \<and> mtype m = t"

definition fresh_alloc :: "store \<Rightarrow> int \<Rightarrow> int \<Rightarrow> int \<Rightarrow> store \<Rightarrow> mat \<Rightarrow> bool" where
  "fresh_alloc h r c t h' m' \<longleftrightarrow>
     rows m' = r \<and> cols m' = c \<and> mtype m' = t \<and> brk h \<le> data m' \<and> data m' < brk h' \<and>
     (\<exists>vs. length vs = nat (r * c) \<and> cells h' = (cells h)(data m' \<mapsto> vs))"

definition create_ok :: "'img cv_api \<Rightarrow> bool" where
  "create_ok cv \<longleftrightarrow> (\<forall>h m r c t. store_ok h \<longrightarrow>
     (if shape_matches m r c t then cv_create cv h m r c t = (h, m)
      else fresh_alloc h r c t (fst (cv_create cv h m r c t)) (snd (cv_create cv h m r c t))))"

section \<open>Operations on matrices of doubles\<close>

text \<open>
  An output array: the library calls \<^verbatim>\<open>create\<close> on it and writes the result into its buffer. The
  operations of the sources that produce a matrix of doubles are instances.
\<close>

definition write_mat :: "store \<Rightarrow> mat \<Rightarrow> double list \<Rightarrow> store" where
  "write_mat h m vs = h\<lparr>cells := (cells h)(data m \<mapsto> vs)\<rparr>"

definition out_array :: "'img cv_api \<Rightarrow> store \<Rightarrow> mat \<Rightarrow> int \<Rightarrow> int \<Rightarrow> int \<Rightarrow> double list \<Rightarrow> store \<times> mat"
  where
  "out_array cv h m r c t vs =
     (let (h', m') = cv_create cv h m r c t in (write_mat h' m' vs, m'))"

definition fone :: fl where
  "fone = Fin False 1"

definition eye3 :: "double list" where
  "eye3 = [fone, zero, zero, zero, fone, zero, zero, zero, fone]"

definition zeros3 :: "double list" where
  "zeros3 = [zero, zero, zero]"

text \<open>\<^verbatim>\<open>m = Mat::eye(3, 3, CV_64FC1)\<close>, \<^verbatim>\<open>m = Mat::zeros(3, 1, CV_64FC1)\<close> and \<^verbatim>\<open>m.clone()\<close>.\<close>

definition assign_eye :: "'img cv_api \<Rightarrow> store \<Rightarrow> mat \<Rightarrow> store \<times> mat" where
  "assign_eye cv h m = out_array cv h m 3 3 CV_64FC1 eye3"

definition assign_zeros :: "'img cv_api \<Rightarrow> store \<Rightarrow> mat \<Rightarrow> store \<times> mat" where
  "assign_zeros cv h m = out_array cv h m 3 1 CV_64FC1 zeros3"

definition mat_clone :: "'img cv_api \<Rightarrow> store \<Rightarrow> mat \<Rightarrow> store \<times> mat" where
  "mat_clone cv h m = out_array cv h empty_mat (rows m) (cols m) (mtype m) (mat_values h m)"

section \<open>Laws\<close>

lemma CV_depths [simp]: "CV_MAT_DEPTH CV_64FC1 = 6" "CV_MAT_DEPTH CV_8UC4 = 0"
  by (simp_all add: CV_MAT_DEPTH_def CV_64FC1_def CV_8UC4_def CV_MAKETYPE_def CV_64F_def CV_8U_def
      CV_CN_SHIFT_def)

lemma empty_mat_simps [simp]:
  "data empty_mat = nullptr" "\<not> shape_matches empty_mat r c t" "mat_empty empty_mat"
  by (simp_all add: empty_mat_def shape_matches_def mat_empty_def)

lemma init_store_ok [simp]: "store_ok init_store"
  by (simp add: store_ok_def init_store_def)

lemma write_mat_simps [mat_simps]:
  "cells (write_mat h m vs) a = (if a = data m then Some vs else cells h a)"
  "brk (write_mat h m vs) = brk h"
  "mat_values (write_mat h m vs) m' = (if data m' = data m then vs else mat_values h m')"
  by (auto simp: write_mat_def mat_values_def)

text \<open>
  A live matrix has a buffer in the store that its shape describes.
\<close>

definition live :: "store \<Rightarrow> mat \<Rightarrow> bool" where
  "live h m \<longleftrightarrow> data m \<noteq> nullptr \<and> data m < brk h \<and>
     (\<exists>vs. cells h (data m) = Some vs \<and> length vs = nat (rows m * cols m))"

definition has_shape :: "mat \<Rightarrow> int \<Rightarrow> int \<Rightarrow> bool" where
  "has_shape m r c \<longleftrightarrow> rows m = r \<and> cols m = c \<and> mtype m = CV_64FC1"

lemma create_okD:
  assumes "create_ok cv" "store_ok h"
  shows "shape_matches m r c t \<Longrightarrow> cv_create cv h m r c t = (h, m)"
    and "\<not> shape_matches m r c t \<Longrightarrow>
      fresh_alloc h r c t (fst (cv_create cv h m r c t)) (snd (cv_create cv h m r c t))"
  using assms unfolding create_ok_def by metis+

lemma out_array_reuse [mat_simps]:
  assumes "create_ok cv" "store_ok h" "shape_matches m r c t"
  shows "out_array cv h m r c t vs = (write_mat h m vs, m)"
  by (simp add: out_array_def create_okD(1) [OF assms])

text \<open>What an output array that has to be allocated looks like.\<close>

lemma out_array_fresh:
  assumes "create_ok cv" "store_ok h" "\<not> shape_matches m r c t"
    and "length vs = nat (r * c)" and "out_array cv h m r c t vs = (h', m')"
  shows "store_ok h'" "live h' m'" "mat_values h' m' = vs" "rows m' = r" "cols m' = c" "mtype m' = t"
    "brk h \<le> data m'" "brk h \<le> brk h'" "\<And>a. a < brk h \<Longrightarrow> cells h' a = cells h a"
proof -
  obtain h1 m1 where c: "cv_create cv h m r c t = (h1, m1)" by fastforce
  then have f: "fresh_alloc h r c t h1 m1" using create_okD(2) [OF assms(1-3)] by simp
  have e: "h' = write_mat h1 m1 vs" "m' = m1" using assms(5) c by (auto simp: out_array_def)
  show "store_ok h'" using f assms(2) by (auto simp: e store_ok_def fresh_alloc_def write_mat_def)
  show "live h' m'" using f assms(2,4) by (auto simp: e live_def fresh_alloc_def store_ok_def mat_simps)
  show "mat_values h' m' = vs" by (simp add: e mat_simps)
  show "rows m' = r" "cols m' = c" "mtype m' = t" "brk h \<le> data m'"
    using f by (auto simp: e fresh_alloc_def)
  show "brk h \<le> brk h'" using f by (auto simp: e fresh_alloc_def mat_simps)
  show "cells h' a = cells h a" if "a < brk h" for a
    using f that by (auto simp: e fresh_alloc_def mat_simps)
qed

text \<open>
  Reused or allocated, an output array is live, holds the values written, has the shape asked
  for, and leaves every other buffer of the store alone.
\<close>

definition same_except :: "addr \<Rightarrow> store \<Rightarrow> store \<Rightarrow> bool" where
  "same_except p h h' \<longleftrightarrow> brk h \<le> brk h' \<and> (\<forall>a. a < brk h \<longrightarrow> a \<noteq> p \<longrightarrow> a \<noteq> nullptr \<longrightarrow> cells h' a = cells h a)"

lemma out_array_spec:
  assumes "create_ok cv" "store_ok h" "live h m \<or> data m = nullptr"
    and "length vs = nat (r * c)" and "out_array cv h m r c t vs = (h', m')"
  shows "store_ok h'" "live h' m'" "mat_values h' m' = vs" "rows m' = r" "cols m' = c" "mtype m' = t"
    "data m' = data m \<or> brk h \<le> data m'" "same_except (data m) h h'"
proof -
  have "store_ok h' \<and> live h' m' \<and> mat_values h' m' = vs \<and> rows m' = r \<and> cols m' = c \<and> mtype m' = t \<and>
    (data m' = data m \<or> brk h \<le> data m') \<and> same_except (data m) h h'"
  proof (cases "shape_matches m r c t")
    case True
    then have lm: "live h m" using assms(3) by (auto simp: shape_matches_def)
    have e: "h' = write_mat h m vs" "m' = m"
      using assms(5) out_array_reuse [OF assms(1,2) True, of vs] by auto
    show ?thesis using True lm assms(2,4)
      by (auto simp: e live_def store_ok_def shape_matches_def same_except_def mat_simps)
  next
    case False
    show ?thesis using out_array_fresh [OF assms(1,2) False assms(4,5)]
      by (simp add: same_except_def)
  qed
  then show "store_ok h'" "live h' m'" "mat_values h' m' = vs" "rows m' = r" "cols m' = c" "mtype m' = t"
    "data m' = data m \<or> brk h \<le> data m'" "same_except (data m) h h'" by simp_all
qed

lemma same_except_live:
  "same_except p h h' \<Longrightarrow> live h m \<Longrightarrow> data m \<noteq> p \<Longrightarrow> live h' m"
  by (auto simp: same_except_def live_def)

lemma same_except_values:
  "same_except p h h' \<Longrightarrow> live h m \<Longrightarrow> data m \<noteq> p \<Longrightarrow> mat_values h' m = mat_values h m"
  by (auto simp: same_except_def live_def mat_values_def)

lemma same_except_trans:
  "same_except p h1 h2 \<Longrightarrow> same_except q h2 h3 \<Longrightarrow> 
     q = nullptr \<or> brk h1 \<le> q \<or> q = p \<Longrightarrow> same_except p h1 h3"
  by (auto simp: same_except_def)

lemma same_except_null: "same_except nullptr h h' \<Longrightarrow> same_except p h h'"
  by (auto simp: same_except_def)

lemma same_except_brk: "same_except p h h' \<Longrightarrow> brk h \<le> brk h'"
  by (simp add: same_except_def)

lemma new_array_spec:
  assumes "create_ok cv" "store_ok h" "length vs = nat (r * c)" "out_array cv h empty_mat r c t vs = (h', m')"
  shows "store_ok h'" "live h' m'" "mat_values h' m' = vs" "rows m' = r" "cols m' = c" "mtype m' = t"
    "brk h \<le> data m'" "same_except nullptr h h'"
  using out_array_fresh [OF assms(1,2) _ assms(3,4)] by (simp_all add: same_except_def)

lemma length_mat_values: "live h m \<Longrightarrow> length (mat_values h m) = nat (rows m * cols m)"
  by (auto simp: live_def mat_values_def)

lemma clone_spec:
  assumes "create_ok cv" "store_ok h" "live h m" "mat_clone cv h m = (h', m')"
  shows "store_ok h'" "live h' m'" "mat_values h' m' = mat_values h m"
    "rows m' = rows m" "cols m' = cols m" "mtype m' = mtype m"
    "brk h \<le> data m'" "same_except nullptr h h'"
  using new_array_spec [OF assms(1,2) length_mat_values [OF assms(3)] assms(4) [unfolded mat_clone_def]]
  by simp_all

lemma live_below_brk: "live h m \<Longrightarrow> data m < brk h" "live h m \<Longrightarrow> data m \<noteq> nullptr"
  by (simp_all add: live_def)

lemma deref_live:
  assumes "live h m" and "0 \<le> i" and "i < rows m * cols m"
  shows "deref h (mat_ptr m 0) i = Inr (mat_values h m ! nat i)"
  using assms by (auto simp: deref_def live_def mat_ptr_def mat_values_def)

end
