(* ===== verification/Camera_Info.thy ===== *)
theory Camera_Info
  imports Cv_Mat
begin

text \<open>
  \<^verbatim>\<open>pt_camera_info\<close> (utils.h): the settings and results of a frame. The members \<^verbatim>\<open>R\<close>, \<^verbatim>\<open>rvec\<close> and
  \<^verbatim>\<open>tvec\<close> are matrix headers, so a copy of the struct shares their buffers; \<^verbatim>\<open>rv\<close> and \<^verbatim>\<open>tv\<close> are raw
  pointers into them. Every function of the library takes the struct by value: in the model a
  function that changes its copy returns it, and the caller decides what becomes of it.
\<close>

record pt_camera_info =
  fov :: float32
  fps :: float32
  res_x :: int
  res_y :: int
  touch_status :: int
  start_tracking :: int
  n_contours :: int
  n_solutions :: int
  cam_name :: string
  cam_R :: mat
  cam_rvec :: mat
  cam_tvec :: mat
  rv :: dptr
  tv :: dptr
  tflite_model :: addr
  tflite_model_size :: int

text \<open>
  The static object: default member initialisers where there are any, zero initialisation of
  the pointers and of the model size otherwise.
\<close>

definition static_camera_info :: pt_camera_info where
  "static_camera_info =
     \<lparr>fov = zero, fps = zero, res_x = 0, res_y = 0, touch_status = 1, start_tracking = 0,
      n_contours = 0, n_solutions = 0, cam_name = [], cam_R = empty_mat, cam_rvec = empty_mat,
      cam_tvec = empty_mat, rv = null_dptr, tv = null_dptr, tflite_model = nullptr,
      tflite_model_size = 0\<rparr>"

end
