(* ===== verification/Point_Obj.thy ===== *)
theory Point_Obj
  imports Cv_Mat
begin

text \<open>
  \<^verbatim>\<open>point_obj\<close> (point_obj.h, point_obj.cpp): the tracked object, its pose matrices and the image
  points of the current frame.
\<close>

record point_obj =
  gR :: mat
  gt :: mat
  gr :: mat
  points :: "point2f list"

text \<open>A static \<^verbatim>\<open>point_obj\<close> starts with empty matrices and no points.\<close>

definition static_point_obj :: point_obj where
  "static_point_obj = \<lparr>gR = empty_mat, gt = empty_mat, gr = empty_mat, points = []\<rparr>"

definition init :: "'img cv_api \<Rightarrow> store \<Rightarrow> point_obj \<Rightarrow> store \<times> point_obj" where
  "init cv h obj =
     (let (h1, R) = assign_eye cv h (gR obj);
          (h2, t) = assign_zeros cv h1 (gt obj);
          (h3, r) = assign_zeros cv h2 (gr obj)
      in (h3, obj\<lparr>gR := R, gt := t, gr := r\<rparr>))"

definition push_back :: "point_obj \<Rightarrow> point2f \<Rightarrow> point_obj" where
  "push_back obj p = obj\<lparr>points := points obj @ [p]\<rparr>"

definition clearPoints :: "point_obj \<Rightarrow> point_obj" where
  "clearPoints obj = obj\<lparr>points := []\<rparr>"

section \<open>The interface of a point buffer\<close>

text \<open>
  What a client of the point list relies on: clearing empties it, pushing appends, and neither
  changes anything else of the object.
\<close>

locale point_buffer =
  fixes clear :: "'b \<Rightarrow> 'b"
    and push :: "'b \<Rightarrow> 'p \<Rightarrow> 'b"
    and contents :: "'b \<Rightarrow> 'p list"
    and rest :: "'b \<Rightarrow> 'r"
  assumes contents_clear [simp]: "contents (clear b) = []"
    and contents_push [simp]: "contents (push b p) = contents b @ [p]"
    and rest_clear [simp]: "rest (clear b) = rest b"
    and rest_push [simp]: "rest (push b p) = rest b"
begin

lemma contents_foldl: "contents (foldl push b ps) = contents b @ ps"
  by (induction ps arbitrary: b) simp_all

lemma rest_foldl: "rest (foldl push b ps) = rest b"
  by (induction ps arbitrary: b) simp_all

lemma refill: "contents (foldl push (clear b) ps) = ps" "rest (foldl push (clear b) ps) = rest b"
  by (simp_all add: contents_foldl rest_foldl)

end

interpretation po: point_buffer clearPoints push_back points "\<lambda>obj. (gR obj, gt obj, gr obj)"
  by unfold_locales (simp_all add: clearPoints_def push_back_def)

end
