(* ===== verification/Std_Sort.thy ===== *)
theory Std_Sort
  imports "HOL-Library.Multiset" Prelude
begin

text \<open>
  \<^verbatim>\<open>std::sort\<close> with a comparator. The language requires the comparator to be a strict weak order
  on the elements sorted; \<open>weak_order_on\<close> decides it, and a call that breaks it is undefined
  behaviour, an error of the model. The algorithm is not specified by the language, so the model
  fixes one; the locale states the requirement and shows that under it the result is a sorted
  permutation and, up to equivalent elements, the only one.
\<close>

fun insert_by :: "('a \<Rightarrow> 'a \<Rightarrow> bool) \<Rightarrow> 'a \<Rightarrow> 'a list \<Rightarrow> 'a list" where
  "insert_by lt a [] = [a]"
| "insert_by lt a (b # bs) = (if lt b a then b # insert_by lt a bs else a # b # bs)"

fun sort_by :: "('a \<Rightarrow> 'a \<Rightarrow> bool) \<Rightarrow> 'a list \<Rightarrow> 'a list" where
  "sort_by lt [] = []"
| "sort_by lt (a # as) = insert_by lt a (sort_by lt as)"

definition weak_order_on :: "('a \<Rightarrow> 'a \<Rightarrow> bool) \<Rightarrow> 'a list \<Rightarrow> bool" where
  "weak_order_on lt as \<longleftrightarrow>
     (\<forall>a \<in> set as. \<not> lt a a) \<and>
     (\<forall>a \<in> set as. \<forall>b \<in> set as. \<forall>c \<in> set as. lt a b \<and> lt b c \<longrightarrow> lt a c) \<and>
     (\<forall>a \<in> set as. \<forall>b \<in> set as. \<forall>c \<in> set as.
        \<not> lt a b \<and> \<not> lt b a \<and> \<not> lt b c \<and> \<not> lt c b \<longrightarrow> \<not> lt a c \<and> \<not> lt c a)"

definition std_sort :: "('a \<Rightarrow> 'a \<Rightarrow> bool) \<Rightarrow> 'a list \<Rightarrow> 'a list res" where
  "std_sort lt as = (if weak_order_on lt as then Inr (sort_by lt as) else Inl Undefined)"

lemma mset_insert_by: "mset (insert_by lt a bs) = add_mset a (mset bs)"
  by (induction bs) auto

lemma mset_sort_by [simp]: "mset (sort_by lt as) = mset as"
  by (induction as) (simp_all add: mset_insert_by)

lemma set_insert_by [simp]: "set (insert_by lt a bs) = insert a (set bs)"
  by (induction bs) auto

lemma set_sort_by [simp]: "set (sort_by lt as) = set as"
  by (induction as) simp_all

lemma length_sort_by [simp]: "length (sort_by lt as) = length as"
  using mset_sort_by [of lt as] by (metis size_mset)

locale strict_weak_order =
  fixes lt :: "'a \<Rightarrow> 'a \<Rightarrow> bool"
    and ok :: "'a \<Rightarrow> bool"
  assumes irrefl: "ok a \<Longrightarrow> \<not> lt a a"
    and trans: "ok a \<Longrightarrow> ok b \<Longrightarrow> ok c \<Longrightarrow> lt a b \<Longrightarrow> lt b c \<Longrightarrow> lt a c"
    and incomp_trans: "ok a \<Longrightarrow> ok b \<Longrightarrow> ok c \<Longrightarrow> \<not> lt a b \<Longrightarrow> \<not> lt b a \<Longrightarrow> \<not> lt b c \<Longrightarrow> \<not> lt c b \<Longrightarrow>
      \<not> lt a c \<and> \<not> lt c a"
begin

definition equiv :: "'a \<Rightarrow> 'a \<Rightarrow> bool" where
  "equiv a b \<longleftrightarrow> \<not> lt a b \<and> \<not> lt b a"

definition in_order :: "'a list \<Rightarrow> bool" where
  "in_order as \<longleftrightarrow> sorted_wrt (\<lambda>a b. \<not> lt b a) as"

lemma asym: "ok a \<Longrightarrow> ok b \<Longrightarrow> lt a b \<Longrightarrow> \<not> lt b a"
  using irrefl trans by blast

lemma neg_trans: "ok a \<Longrightarrow> ok b \<Longrightarrow> ok c \<Longrightarrow> \<not> lt a b \<Longrightarrow> \<not> lt b c \<Longrightarrow> \<not> lt a c"
  using trans incomp_trans asym by metis

lemma insert_by_in_order:
  "ok a \<Longrightarrow> \<forall>b \<in> set bs. ok b \<Longrightarrow> in_order bs \<Longrightarrow> in_order (insert_by lt a bs)"
proof (induction bs)
  case (Cons b bs)
  show ?case
  proof (cases "lt b a")
    case True
    then show ?thesis using Cons asym by (auto simp: in_order_def)
  next
    case False
    then have "\<not> lt c a" if "c \<in> set bs" for c
      using Cons.prems that neg_trans [of c b a] by (auto simp: in_order_def)
    then show ?thesis using Cons.prems False by (auto simp: in_order_def)
  qed
qed (simp add: in_order_def)

lemma sort_by_in_order: "\<forall>a \<in> set as. ok a \<Longrightarrow> in_order (sort_by lt as)"
  by (induction as) (simp_all add: insert_by_in_order, simp add: in_order_def)

definition cls :: "'a \<Rightarrow> 'a set" where
  "cls a = {b. ok b \<and> equiv a b}"

lemma cls_eq_iff: "ok a \<Longrightarrow> ok b \<Longrightarrow> cls a = cls b \<longleftrightarrow> equiv a b"
proof
  assume ok: "ok a" "ok b" and "cls a = cls b"
  have "b \<in> cls b" using ok irrefl by (simp add: cls_def equiv_def)
  then show "equiv a b" using \<open>cls a = cls b\<close> by (auto simp: cls_def)
next
  assume ok: "ok a" "ok b" and e: "equiv a b"
  show "cls a = cls b"
    using ok e incomp_trans unfolding cls_def equiv_def by blast
qed

lemma in_order_head_le:
  assumes "in_order (z # zs)" and "\<forall>c \<in> set (z # zs). ok c" and "ok a"
    and "cls a \<in> set (map cls (z # zs))"
  shows "\<not> lt a z"
proof -
  from assms(4) obtain b where b: "b \<in> set (z # zs)" "cls b = cls a" by auto
  then have "ok b" "equiv b a" using assms(2,3) cls_eq_iff by auto
  moreover have "\<not> lt b z" using b(1) assms(1,2) irrefl by (auto simp: in_order_def)
  ultimately show ?thesis using assms neg_trans [of a b z] by (auto simp: equiv_def)
qed

lemma in_order_unique_aux:
  assumes "in_order as" "in_order bs" "\<forall>c \<in> set as. ok c" "\<forall>c \<in> set bs. ok c"
    and "mset (map cls as) = mset (map cls bs)"
  shows "list_all2 equiv as bs"
  using assms
proof (induction as arbitrary: bs)
  case (Cons a as)
  then obtain b bs' where bs: "bs = b # bs'" by (cases bs) auto
  have ms: "set (map cls (a # as)) = set (map cls bs)"
    using Cons.prems(5) by (rule mset_eq_setD)
  have "\<not> lt a b" using Cons.prems ms by (intro in_order_head_le [of b bs' a]) (auto simp: bs)
  moreover have "\<not> lt b a" using Cons.prems ms by (intro in_order_head_le [of a as b]) (auto simp: bs)
  ultimately have e: "equiv a b" by (simp add: equiv_def)
  then have "cls a = cls b" using Cons.prems cls_eq_iff by (auto simp: bs)
  then have "mset (map cls as) = mset (map cls bs')" using Cons.prems(5) by (simp add: bs)
  then have "list_all2 equiv as bs'" using Cons.prems by (intro Cons.IH) (auto simp: bs in_order_def)
  then show ?case using e by (simp add: bs)
qed simp

text \<open>On proper elements the call is defined.\<close>

lemma weak_order_on_ok: "\<forall>a \<in> set as. ok a \<Longrightarrow> weak_order_on lt as"
  unfolding weak_order_on_def using irrefl trans incomp_trans by blast

text \<open>Any sorted permutation agrees with the model of \<^verbatim>\<open>std::sort\<close> up to equivalent elements.\<close>

lemma sort_by_unique:
  assumes "mset bs = mset as" and "in_order bs" and "\<forall>a \<in> set as. ok a"
  shows "list_all2 equiv bs (sort_by lt as)"
proof (rule in_order_unique_aux [OF assms(2) sort_by_in_order [OF assms(3)]])
  show "\<forall>c \<in> set bs. ok c" using assms(1,3) mset_eq_setD by fastforce
  show "\<forall>c \<in> set (sort_by lt as). ok c" using assms(3) by simp
  show "mset (map cls bs) = mset (map cls (sort_by lt as))" using assms(1) by simp
qed

end

text \<open>A call that is defined sorts, whatever the comparator does on other elements.\<close>

lemma std_sort_sorted:
  assumes "std_sort lt as = Inr bs"
  shows "mset bs = mset as" "sorted_wrt (\<lambda>a b. \<not> lt b a) bs"
proof -
  have w: "weak_order_on lt as" and bs: "bs = sort_by lt as"
    using assms by (auto simp: std_sort_def split: if_splits)
  have swo: "strict_weak_order lt (\<lambda>a. a \<in> set as)"
    by unfold_locales (use w in \<open>unfold weak_order_on_def, blast+\<close>)
  show "mset bs = mset as" by (simp add: bs)
  show "sorted_wrt (\<lambda>a b. \<not> lt b a) bs"
    using strict_weak_order.sort_by_in_order [OF swo, of as] strict_weak_order.in_order_def [OF swo] by (simp add: bs)
qed

end
