(* ===== verification/Cv_Sample.thy ===== *)
theory Cv_Sample
  imports Cv_Mat
begin

text \<open>
  A concrete instance of the OpenCV parameters, small enough to evaluate. An image is the list of
  its contours, a contour's moments put its centroid at its first vertex, and the solver always
  finds the identity pose. It shows that the hypotheses on the library can hold together.
\<close>

definition sample_create :: "store \<Rightarrow> mat \<Rightarrow> int \<Rightarrow> int \<Rightarrow> int \<Rightarrow> store \<times> mat" where
  "sample_create h m r c t =
     (if shape_matches m r c t then (h, m)
      else (\<lparr>cells = (cells h)(brk h \<mapsto> replicate (nat (r * c)) zero), brk = brk h + 1\<rparr>,
            \<lparr>rows = r, cols = c, mtype = t, data = brk h\<rparr>))"

definition sample_moments :: "contour \<Rightarrow> moments" where
  "sample_moments c = (case c of
       [] \<Rightarrow> \<lparr>m00 = zero, m10 = zero, m01 = zero\<rparr>
     | v # vs \<Rightarrow> \<lparr>m00 = fone, m10 = Fin False (of_int (fst v)), m01 = Fin False (of_int (snd v))\<rparr>)"

definition sample_cv :: "contour list cv_api" where
  "sample_cv =
     \<lparr>cv_create = sample_create,
      cv_cvtColor = (\<lambda>img c. Inr img),
      cv_inRange = (\<lambda>img lo hi. img),
      cv_getStructuringElement = (\<lambda>s d. []),
      cv_morphologyEx = (\<lambda>img op k a n. img),
      cv_findContours = (\<lambda>img m a. take 100 img),
      cv_moments = sample_moments,
      cv_contourArea = (\<lambda>c. Fin False (of_nat (length c))),
      cv_kmeans = (\<lambda>ps k. Inr zero),
      cv_circle = (\<lambda>img p r s t l f. img),
      cv_line = (\<lambda>img p q s t. img),
      cv_putText = (\<lambda>img s p f k sc t. img),
      cv_solvePnPGeneric = (\<lambda>os ps K D f. Inr (1, [zeros3], [[zero, zero, fone]])),
      cv_projectPoints = (\<lambda>os r t K D. map (\<lambda>q. \<lparr>px = qx q, py = qy q\<rparr>) os),
      cv_Rodrigues = (\<lambda>v. eye3),
      cv_convertTo = (\<lambda>v d. v),
      cv_neg = (\<lambda>v. v),
      cv_mul = (\<lambda>A v. if length v = 3 then v else zeros3),
      cv_add = (\<lambda>u v. v),
      cv_div = (\<lambda>v d. v),
      cv_raw = (\<lambda>img. [])\<rparr>"

lemma sample_create_ok: "create_ok sample_cv"
proof -
  have "fresh_alloc h r c t (fst (sample_create h m r c t)) (snd (sample_create h m r c t))"
    if "store_ok h" "\<not> shape_matches m r c t" for h m r c t
    using that by (simp add: sample_create_def fresh_alloc_def) (metis length_replicate)
  then show ?thesis by (simp add: create_ok_def sample_cv_def sample_create_def)
qed

end
