(* ===== verification/Point_Tracker.thy ===== *)
theory Point_Tracker
  imports Camera_Info Point_Obj Std_Sort Cv_Sample "HOL-Library.Product_Lexorder"
begin

text \<open>
  \<^verbatim>\<open>point_tracker\<close> (point_tracker.h, point_tracker.cpp): orders the detected points by their distance
  from the centroid, keeps them as model points when their number changes or the screen is
  touched, and otherwise solves for the pose of the object.
\<close>

section \<open>Geometry\<close>

definition add_coords :: "float32 \<times> float32 \<Rightarrow> point2f \<Rightarrow> float32 \<times> float32" where
  "add_coords acc p = (fl_add Binary32 (fst acc) (px p), fl_add Binary32 (snd acc) (py p))"

definition avg_coord :: "point2f list \<Rightarrow> point2f" where
  "avg_coord getPoints =
     (let size = int_size getPoints;
          (avg_x, avg_y) = foldl add_coords (zero, zero) (take (nat size) getPoints)
      in \<lparr>px = fl_div Binary32 avg_x (fl_of_int Binary32 size),
          py = fl_div Binary32 avg_y (fl_of_int Binary32 size)\<rparr>)"

definition point_comparator :: "point2f \<times> float32 \<Rightarrow> point2f \<times> float32 \<Rightarrow> bool" where
  "point_comparator a b =
     (if fl_eq (snd a) (snd b) then
        if fl_lt (px (fst a)) (px (fst b)) then True
        else if fl_eq (px (fst b)) (px (fst a)) then
          if fl_lt (py (fst a)) (py (fst b)) then True else False
        else False
      else fl_lt (snd a) (snd b))"

text \<open>
  \<^verbatim>\<open>pow(mid.x - p.x, 2)\<close>: the difference is a \<^verbatim>\<open>float\<close>, the power a \<^verbatim>\<open>double\<close>; the square of a
  24-bit significand has at most 48 bits, so it is exact.
\<close>

definition pow_2 :: "float32 \<Rightarrow> double" where
  "pow_2 d = fl_mul Binary64 d d"

definition distance :: "point2f \<Rightarrow> point2f \<Rightarrow> float32" where
  "distance mid_point p =
     fl_cvt Binary32 (fl_sqrt Binary64
       (fl_add Binary64 (pow_2 (fl_sub Binary32 (px mid_point) (px p)))
                        (pow_2 (fl_sub Binary32 (py mid_point) (py p)))))"

definition add_distance :: "point2f list \<Rightarrow> point2f \<Rightarrow> (point2f \<times> float32) list" where
  "add_distance srcPoints mid_point =
     (let size = int_size srcPoints
      in map (\<lambda>p. (\<lparr>px = px p, py = py p\<rparr>, distance mid_point p)) (take (nat size) srcPoints))"

section \<open>The model points\<close>

text \<open>The two vectors with static storage of point_tracker.cpp.\<close>

record tracker =
  model_points :: "point3f list"
  object_points :: "point3f list"

definition static_tracker :: tracker where
  "static_tracker = \<lparr>model_points = [], object_points = []\<rparr>"

definition refresh_model_points :: "tracker \<Rightarrow> point2f list \<Rightarrow> tracker" where
  "refresh_model_points tr getPoints =
     (let n = length getPoints
      in tr\<lparr>model_points := map (\<lambda>i. \<lparr>qx = px (getPoints ! i), qy = py (getPoints ! i),
                                       qz = Fin False 10\<rparr>) [0..<n],
            object_points := map (\<lambda>i. \<lparr>qx = px (getPoints ! i), qy = py (getPoints ! i),
                                        qz = fl_of_int Binary32 (int i)\<rparr>) [0..<n]\<rparr>)"

section \<open>Pose estimation\<close>

text \<open>
  The state a call works on: the store, the static vectors, the image drawn on, the caller's
  three result matrices (passed by pointer), the callee's own copy of the camera struct, and
  the number of arrays obtained with \<^verbatim>\<open>new[]\<close> that nothing deletes.
\<close>

record 'img pose_env =
  heap :: store
  trk :: tracker
  canvas :: 'img
  Rot :: mat
  rvec_out :: mat
  tvec_out :: mat
  cam :: pt_camera_info
  new_live :: nat

text \<open>\<^verbatim>\<open>*Rot = info.R.clone()\<close>.\<close>

definition set_Rot :: "'img cv_api \<Rightarrow> 'img pose_env \<Rightarrow> 'img pose_env" where
  "set_Rot cv e = (let (h, m) = mat_clone cv (heap e) (cam_R (cam e)) in e\<lparr>heap := h, Rot := m\<rparr>)"

text \<open>\<^verbatim>\<open>std::to_string\<close> of a positive \<^verbatim>\<open>int\<close>.\<close>

function to_string :: "nat \<Rightarrow> string" where
  "to_string n = (if n < 10 then [char_of (48 + n)]
     else to_string (n div 10) @ [char_of (48 + n mod 10)])"
  by pat_completeness auto
termination
  by (relation "measure id") auto

declare to_string.simps [simp del]

definition white :: scalar where "white = [255, 255, 255]"

definition draw_point ::
  "'img cv_api \<Rightarrow> point2f \<Rightarrow> point2f list \<Rightarrow> point3f list \<Rightarrow> nat \<Rightarrow> 'img \<Rightarrow> 'img res" where
  "draw_point cv mid_point image_points objs i img =
     bind_res (vec_at image_points (int i)) (\<lambda>p.
     bind_res (vec_at objs (int i)) (\<lambda>q.
       let img1 = cv_line cv img mid_point p white 1;
           img2 = cv_line cv img1 p \<lparr>px = qx q, py = qy q\<rparr> [255, 0, 255] 1;
           org = \<lparr>px = fl_add Binary32 (px p) (fl_of_int Binary32 10),
                  py = fl_add Binary32 (py p) (fl_of_int Binary32 10)\<rparr>
       in Inr (cv_putText cv img2 (to_string (i + 1)) org 0 1 white 2)))"

text \<open>\<^verbatim>\<open>camera_matrix\<close> with the image height as focal length and the centre of the image.\<close>

definition camera_matrix :: "pt_camera_info \<Rightarrow> double list" where
  "camera_matrix info =
     (let focal_length = fl_of_int Binary64 (res_y info);
          cx = fl_of_int Binary32 (quot_int (res_x info) 2);
          cy = fl_of_int Binary32 (quot_int (res_y info) 2)
      in [focal_length, zero, cx, zero, focal_length, cy, zero, zero, fone])"

definition SOLVEPNP_SQPNP :: int where "SOLVEPNP_SQPNP = 8"

text \<open>
  The block under \<^verbatim>\<open>if (info.solutions > 0)\<close>, in three steps. The local matrices \<^verbatim>\<open>irvec\<close> and
  \<^verbatim>\<open>itvec\<close> start as \<^verbatim>\<open>zeros(3, 1)\<close> of type \<^verbatim>\<open>CV_64F\<close>, so both conversions keep that depth, and both
  branches on \<^verbatim>\<open>start_tracking\<close> run the same statements. First the solution is copied out and
  cloned into the callee's \<^verbatim>\<open>info.rvec\<close> and \<^verbatim>\<open>info.tvec\<close>.
\<close>

definition solution_vectors ::
  "'img cv_api \<Rightarrow> double list \<Rightarrow> double list \<Rightarrow> store \<Rightarrow> store \<times> mat \<times> mat \<times> mat \<times> mat" where
  "solution_vectors cv rvec0 tvec0 h =
     (let (h1, irvec) = out_array cv h empty_mat 3 1 CV_64FC1 (cv_convertTo cv rvec0 CV_64F);
          (h2, itvec) = out_array cv h1 empty_mat 3 1 CV_64FC1 (cv_convertTo cv tvec0 CV_64F);
          (h3, info_rvec) = mat_clone cv h2 irvec;
          (h4, info_tvec) = mat_clone cv h3 itvec
      in (h4, irvec, itvec, info_rvec, info_tvec))"

text \<open>
  Then the rotation vector is negated in place and \<^verbatim>\<open>Rodrigues\<close> writes its matrix into \<^verbatim>\<open>info.R\<close>,
  the header the callee's copy of the struct shares with the caller's.
\<close>

definition solution_rotation :: "'img cv_api \<Rightarrow> mat \<Rightarrow> mat \<Rightarrow> store \<Rightarrow> store \<times> mat \<times> mat" where
  "solution_rotation cv irvec info_R h =
     (let (h1, irvec') = out_array cv h irvec 3 1 CV_64FC1 (cv_neg cv (mat_values h irvec));
          (h2, info_R') = out_array cv h1 info_R 3 3 CV_64FC1 (cv_Rodrigues cv (mat_values h1 irvec'))
      in (h2, irvec', info_R'))"

text \<open>Last, the translation is moved by the rotated unit offset and scaled, and both are handed out.\<close>

definition solution_outputs :: "'img cv_api \<Rightarrow> mat \<Rightarrow> mat \<Rightarrow> mat \<Rightarrow> store \<Rightarrow> store \<times> mat \<times> mat" where
  "solution_outputs cv irvec itvec info_R h =
     (let factor = [fone, fone, fone];
          restvec = cv_div cv (cv_add cv (mat_values h itvec) (cv_mul cv (mat_values h info_R) factor))
                      (fl_of_int Binary64 100);
          (h1, t) = out_array cv h empty_mat 3 1 CV_64FC1 restvec;
          (h2, r) = mat_clone cv h1 irvec
      in (h2, t, r))"

definition apply_solution ::
  "'img cv_api \<Rightarrow> double list \<Rightarrow> double list \<Rightarrow> 'img pose_env \<Rightarrow> 'img pose_env" where
  "apply_solution cv rvec0 tvec0 e =
     (let (h1, irvec, itvec, info_rvec, info_tvec) = solution_vectors cv rvec0 tvec0 (heap e);
          (h2, irvec', info_R) = solution_rotation cv irvec (cam_R (cam e)) h1;
          info1 = (cam e)\<lparr>cam_rvec := info_rvec, cam_tvec := info_tvec, cam_R := info_R,
                           rv := mat_ptr info_R 0, tv := mat_ptr info_tvec 0\<rparr>;
          (h3, t, r) = solution_outputs cv irvec' itvec info_R h2
      in e\<lparr>heap := h3, cam := info1, tvec_out := t, rvec_out := r, new_live := new_live e + 1\<rparr>)"

definition solve_pose ::
  "'img cv_api \<Rightarrow> point2f list \<Rightarrow> point2f \<Rightarrow> int \<Rightarrow> 'img pose_env \<Rightarrow> 'img pose_env res" where
  "solve_pose cv image_points mid_point g_size e =
     (let K = camera_matrix (cam e);
          dist_coeffs = [zero, zero, zero, zero]
      in bind_res (cv_solvePnPGeneric cv (model_points (trk e)) image_points K dist_coeffs SOLVEPNP_SQPNP)
        (\<lambda>(solutions, irvecs, itvecs).
          let info1 = (cam e)\<lparr>n_solutions := solutions\<rparr>;
              end_point3f = [\<lparr>qx = zero, qy = zero, qz = fl_of_int Binary32 100\<rparr>];
              end_point2f = cv_projectPoints cv end_point3f zeros3 zeros3 K dist_coeffs
          in bind_res (vec_at end_point2f 0) (\<lambda>end_point.
             let img1 = cv_line cv (canvas e) mid_point end_point [0, 0, 255] 1
             in bind_res (for_loop (draw_point cv mid_point image_points (object_points (trk e)))
                            0 (nat g_size) img1) (\<lambda>img2.
             let e1 = e\<lparr>canvas := img2, cam := info1\<rparr>
             in if 0 < solutions then
                  bind_res (vec_at irvecs 0) (\<lambda>rvec0.
                  bind_res (vec_at itvecs 0) (\<lambda>tvec0. Inr (apply_solution cv rvec0 tvec0 e1)))
                else Inr e1))))"

text \<open>
  The detected points in the order of their distance from the centroid. A distance that is not a number
  breaks the comparator, and with it the call of \<^verbatim>\<open>std::sort\<close>.
\<close>

definition image_points_of :: "point2f list \<Rightarrow> point2f list res" where
  "image_points_of getPoints =
     (let g_size = int_size getPoints;
          mid_point = avg_coord getPoints
      in bind_res (std_sort point_comparator (add_distance getPoints mid_point)) (\<lambda>points_dis.
           Inr (map (\<lambda>i. \<lparr>px = px (fst (points_dis ! i)), py = py (fst (points_dis ! i))\<rparr>) [0..<nat g_size])))"

definition estimate_pose ::
  "'img cv_api \<Rightarrow> point2f list \<Rightarrow> 'img pose_env \<Rightarrow> ('img pose_env \<times> bool) res" where
  "estimate_pose cv getPoints e =
     (let m_size = int_size (model_points (trk e));
          g_size = int_size getPoints;
          mid_point = avg_coord getPoints;
          finish = (\<lambda>e1. Inr (set_Rot cv (e1\<lparr>cam := (cam e1)\<lparr>start_tracking := 1\<rparr>\<rparr>), True))
      in bind_res (image_points_of getPoints) (\<lambda>image_points.
         if touch_status (cam e) = 0 then
           Inr (set_Rot cv (e\<lparr>trk := refresh_model_points (trk e) image_points,
                              cam := (cam e)\<lparr>start_tracking := 0\<rparr>\<rparr>), True)
         else if g_size \<le> 2 then finish e
         else if g_size - m_size \<noteq> 0 then
           Inr (set_Rot cv (e\<lparr>trk := refresh_model_points (trk e) image_points\<rparr>), True)
         else bind_res (solve_pose cv image_points mid_point g_size e) finish))"

section \<open>The comparator orders the points\<close>

text \<open>Numbers other than NaN embed into a linear order.\<close>

fun fl_key :: "fl \<Rightarrow> int \<times> rat" where
  "fl_key (Fin s m) = (0, sval (Fin s m))"
| "fl_key (Inf s) = (if s then - 1 else 1, 0)"
| "fl_key NaN = (0, 0)"

lemma fl_lt_key: "\<not> is_nan a \<Longrightarrow> \<not> is_nan b \<Longrightarrow> fl_lt a b \<longleftrightarrow> fl_key a < fl_key b"
  by (cases a; cases b) auto

lemma fl_eq_key: "\<not> is_nan a \<Longrightarrow> \<not> is_nan b \<Longrightarrow> fl_eq a b \<longleftrightarrow> fl_key a = fl_key b"
  by (cases a; cases b) auto

definition no_nan :: "point2f \<times> float32 \<Rightarrow> bool" where
  "no_nan a \<longleftrightarrow> \<not> is_nan (snd a) \<and> \<not> is_nan (px (fst a)) \<and> \<not> is_nan (py (fst a))"

definition point_key :: "point2f \<times> float32 \<Rightarrow> (int \<times> rat) \<times> (int \<times> rat) \<times> (int \<times> rat)" where
  "point_key a = (fl_key (snd a), fl_key (px (fst a)), fl_key (py (fst a)))"

lemma point_comparator_key:
  "no_nan a \<Longrightarrow> no_nan b \<Longrightarrow> point_comparator a b \<longleftrightarrow> point_key a < point_key b"
  by (auto simp: point_comparator_def no_nan_def point_key_def fl_lt_key fl_eq_key
      less_prod_def' simp del: less_prod_simp)

interpretation pc: strict_weak_order point_comparator no_nan
  by unfold_locales (auto simp: point_comparator_key)

section \<open>Points of a frame have a finite centroid and finite distances\<close>

definition in_frame :: "int \<Rightarrow> point2f \<Rightarrow> bool" where
  "in_frame k p \<longleftrightarrow> nonneg_upto (pow2 k) (px p) \<and> nonneg_upto (pow2 k) (py p)"

lemma coords_sum_bound:
  assumes "0 \<le> k" "k \<le> 100" "\<forall>p \<in> set ps. in_frame k p" "n + int (length ps) < 2 ^ 24" "0 \<le> n"
    and "nonneg_upto (of_int n * pow2 k) ax" "nonneg_upto (of_int n * pow2 k) ay"
    and "foldl add_coords (ax, ay) ps = (sx, sy)"
  shows "nonneg_upto (of_int (n + int (length ps)) * pow2 k) sx \<and>
         nonneg_upto (of_int (n + int (length ps)) * pow2 k) sy"
  using assms
proof (induction ps arbitrary: ax ay n)
  case (Cons p ps)
  have b: "bound_of Binary32 (of_int (n + 1) * pow2 k)"
    using Cons.prems by (intro bound_of_scale) simp_all
  have e: "of_int (n + 1) * pow2 k = of_int n * pow2 k + pow2 k" by (simp add: algebra_simps)
  have s: "nonneg_upto (of_int (n + 1) * pow2 k) (fl_add Binary32 ax (px p))"
    "nonneg_upto (of_int (n + 1) * pow2 k) (fl_add Binary32 ay (py p))"
    using Cons.prems b unfolding e by (auto simp: in_frame_def intro!: fl_add_nonneg_upto)
  have "nonneg_upto (of_int (n + 1 + int (length ps)) * pow2 k) sx \<and>
        nonneg_upto (of_int (n + 1 + int (length ps)) * pow2 k) sy"
    using Cons.prems by (intro Cons.IH [OF _ _ _ _ _ s]) (simp_all add: add_coords_def)
  then show ?case by (simp add: algebra_simps)
qed simp

lemma centroid_in_frame:
  assumes "0 \<le> k" "k \<le> 100" "\<forall>p \<in> set ps. in_frame k p" "ps \<noteq> []" "length ps < 2 ^ 24"
  shows "in_frame k (avg_coord ps)"
proof -
  let ?n = "int (length ps)"
  have n: "int_size ps = ?n" using assms(5) by simp
  obtain sx sy where s: "foldl add_coords (zero, zero) ps = (sx, sy)" by fastforce
  have b: "nonneg_upto (of_int ?n * pow2 k) sx" "nonneg_upto (of_int ?n * pow2 k) sy"
    using coords_sum_bound [OF assms(1-3), of 0 zero zero sx sy] s assms(5) by simp_all
  have d: "fl_of_int Binary32 ?n = Fin False (of_int ?n)"
    using assms(5) by (intro fl_of_int_small) simp_all
  have bk: "bound_of Binary32 (pow2 k)" using assms(1,2) by (intro bound_of_pow2) simp_all
  have pos: "0 < ?n" using assms(4) by simp
  have q: "nonneg_upto (pow2 k) (fl_div Binary32 sx (Fin False (of_int ?n)))"
    "nonneg_upto (pow2 k) (fl_div Binary32 sy (Fin False (of_int ?n)))"
    by (rule fl_div_nonneg_upto [OF b(1) pos order_refl bk])
      (rule fl_div_nonneg_upto [OF b(2) pos order_refl bk])
  show ?thesis using q unfolding avg_coord_def n Let_def d by (simp add: s in_frame_def)
qed

lemma distance_in_frame:
  assumes "0 \<le> k" "k \<le> 100" "in_frame k m" "in_frame k p"
  shows "nonneg_upto (pow2 (k + 1)) (distance m p)"
proof -
  have bk: "bound_of Binary32 (pow2 k)" using assms(1,2) by (intro bound_of_pow2) simp_all
  have kk: "pow2 k * pow2 k = pow2 (2 * k)" by (simp flip: pow2_add)
  have b2: "bound_of Binary64 (pow2 (2 * k))" using assms(1,2) by (intro bound_of_pow2) simp_all
  have sq: "nonneg_upto (pow2 (2 * k)) (pow_2 (fl_sub Binary32 a b))"
    if "nonneg_upto (pow2 k) a" "nonneg_upto (pow2 k) b" for a b
    using fl_square_upto [OF fl_sub_upto [OF that bk], of Binary64] b2 by (simp add: pow_2_def kk)
  have e: "pow2 (2 * k) + pow2 (2 * k) = pow2 (2 * k + 1)" by (simp add: pow2_add)
  have b3: "bound_of Binary64 (pow2 (2 * k) + pow2 (2 * k))"
    unfolding e using assms(1,2) by (intro bound_of_pow2) simp_all
  have "nonneg_upto (pow2 (2 * k + 1)) (fl_add Binary64 (pow_2 (fl_sub Binary32 (px m) (px p)))
      (pow_2 (fl_sub Binary32 (py m) (py p))))"
    using fl_add_nonneg_upto [OF sq sq b3] assms(3,4) by (simp add: in_frame_def e)
  then have "nonneg_upto (pow2 (2 * (k + 1))) (fl_add Binary64 (pow_2 (fl_sub Binary32 (px m) (px p)))
      (pow_2 (fl_sub Binary32 (py m) (py p))))"
    by (rule nonneg_upto_mono) simp
  then have "nonneg_upto (pow2 (k + 1)) (fl_sqrt Binary64 (fl_add Binary64
      (pow_2 (fl_sub Binary32 (px m) (px p))) (pow_2 (fl_sub Binary32 (py m) (py p)))))"
    using assms(1) by (intro fl_sqrt_nonneg_upto) simp_all
  then show ?thesis
    unfolding distance_def using assms(1,2) by (intro fl_cvt_nonneg_upto bound_of_pow2) simp_all
qed

lemma in_frame_no_nan: "in_frame k p \<Longrightarrow> nonneg_upto B d \<Longrightarrow> no_nan (p, d)"
  by (auto simp: no_nan_def in_frame_def elim!: nonneg_uptoE)

lemma point2f_eta [simp]: "\<lparr>px = px p, py = py p\<rparr> = p"
  by (cases p) simp

lemma add_distance_eq:
  "add_distance ps m = map (\<lambda>p. (p, distance m p)) (take (nat (int_size ps)) ps)"
  by (simp add: add_distance_def Let_def)

text \<open>So the comparator is only ever applied to proper numbers.\<close>

lemma add_distance_no_nan:
  assumes "0 \<le> k" "k \<le> 100" "\<forall>p \<in> set ps. in_frame k p" "length ps < 2 ^ 24"
    and "a \<in> set (add_distance ps (avg_coord ps))"
  shows "no_nan a"
proof -
  from assms(5) obtain p where p: "p \<in> set ps" "a = (p, distance (avg_coord ps) p)"
    by (auto simp: add_distance_eq dest: in_set_takeD)
  then have "in_frame k (avg_coord ps)" using assms by (intro centroid_in_frame) auto
  moreover have "in_frame k p" using p(1) assms(3) by simp
  ultimately show ?thesis
    unfolding p(2) using in_frame_no_nan [OF _ distance_in_frame [OF assms(1,2)]] by blast
qed

section \<open>The ordered image points\<close>

text \<open>
  Whether the comparator is a strict weak order on the points of a call, and the result of the sort
  when it is.
\<close>

definition sortable :: "point2f list \<Rightarrow> bool" where
  "sortable ps \<longleftrightarrow> weak_order_on point_comparator (add_distance ps (avg_coord ps))"

definition sorted_points :: "point2f list \<Rightarrow> point2f list" where
  "sorted_points ps = map fst (sort_by point_comparator (add_distance ps (avg_coord ps)))"

lemma image_points_of_eq:
  "image_points_of ps = (if sortable ps then Inr (sorted_points ps) else Inl Undefined)"
proof -
  let ?s = "sort_by point_comparator (add_distance ps (avg_coord ps))"
  have "length ?s = nat (int_size ps)" using int_size_le [of ps] by (simp add: add_distance_eq)
  then show ?thesis
    by (simp add: image_points_of_def sortable_def sorted_points_def std_sort_def Let_def list_eq_iff_nth_eq)
qed

lemma in_frame_sortable:
  assumes "0 \<le> k" "k \<le> 100" "\<forall>p \<in> set ps. in_frame k p" "length ps < 2 ^ 24"
  shows "sortable ps"
  unfolding sortable_def by (intro pc.weak_order_on_ok ballI) (rule add_distance_no_nan [OF assms])

text \<open>
  Three points at the distances one, not a number and two break the requirement: the second is
  equivalent to both others, which are not equivalent to each other.
\<close>

lemma nan_breaks_order:
  "\<not> weak_order_on point_comparator
     [(\<lparr>px = zero, py = zero\<rparr>, fone), (\<lparr>px = zero, py = zero\<rparr>, NaN), (\<lparr>px = zero, py = zero\<rparr>, Fin False 2)]"
  by (simp add: weak_order_on_def point_comparator_def fone_def)

lemma mset_image_points: "length ps < 2 ^ 31 \<Longrightarrow> mset (sorted_points ps) = mset ps"
  by (simp add: sorted_points_def add_distance_eq flip: mset_map) (simp add: multiset.map_comp comp_def)

lemma length_image_points: "length ps < 2 ^ 31 \<Longrightarrow> length (sorted_points ps) = length ps"
  using mset_image_points [of ps] by (metis size_mset)

lemma sorted_map_fst_distance:
  assumes "\<forall>a \<in> set as. snd a = distance m (fst a)"
    and "sorted_wrt (\<lambda>a b. \<not> point_comparator b a) as"
  shows "sorted_wrt (\<lambda>p q. \<not> point_comparator (q, distance m q) (p, distance m p)) (map fst as)"
proof -
  have "sorted_wrt (\<lambda>a b. \<not> point_comparator (fst b, distance m (fst b)) (fst a, distance m (fst a))) as"
    by (rule sorted_wrt_mono_rel [OF _ assms(2)]) (metis assms(1) prod.collapse)
  then show ?thesis by (simp add: sorted_wrt_map)
qed

lemma image_points_sorted_aux:
  assumes "0 \<le> k" "k \<le> 100" "\<forall>p \<in> set ps. in_frame k p" "length ps < 2 ^ 24"
  defines "m \<equiv> avg_coord ps"
  shows "sorted_wrt (\<lambda>p q. \<not> point_comparator (q, distance m q) (p, distance m p)) (sorted_points ps)"
proof -
  have "\<forall>a \<in> set (add_distance ps m). no_nan a"
    using add_distance_no_nan [OF assms(1-4)] by (simp add: m_def)
  then have "sorted_wrt (\<lambda>a b. \<not> point_comparator b a) (sort_by point_comparator (add_distance ps m))"
    using pc.sort_by_in_order by (simp add: pc.in_order_def)
  then show ?thesis unfolding sorted_points_def m_def [symmetric]
    by (intro sorted_map_fst_distance) (auto simp: add_distance_eq)
qed

section \<open>Invariants of the model points\<close>

definition tracker_ok :: "tracker \<Rightarrow> bool" where
  "tracker_ok tr \<longleftrightarrow> length (object_points tr) = length (model_points tr)"

lemma refresh_lengths [simp]:
  "length (model_points (refresh_model_points tr ps)) = length ps"
  "length (object_points (refresh_model_points tr ps)) = length ps"
  by (simp_all add: refresh_model_points_def Let_def)

lemma refresh_points:
  "model_points (refresh_model_points tr ps) = map (\<lambda>p. \<lparr>qx = px p, qy = py p, qz = Fin False 10\<rparr>) ps"
  by (rule nth_equalityI) (simp_all add: refresh_model_points_def Let_def)

lemma tracker_ok_intros [inv_intros]:
  "tracker_ok static_tracker" "tracker_ok (refresh_model_points tr ps)"
  by (simp_all add: tracker_ok_def static_tracker_def)

lemma draw_point_total:
  "i < length ips \<Longrightarrow> i < length objs \<Longrightarrow> \<exists>img'. draw_point cv mid ips objs i img = Inr img'"
  by (simp add: draw_point_def vec_at_def Let_def)

section \<open>What the library promises of its numeric results\<close>

text \<open>
  The dimensions the OpenCV documentation gives: three-vectors and a \<open>3 \<times> 3\<close> matrix, as many
  vectors as solutions, one projected point per input point.
\<close>

definition dims_ok :: "'img cv_api \<Rightarrow> bool" where
  "dims_ok cv \<longleftrightarrow>
     (\<forall>v. length v = 3 \<longrightarrow> length (cv_Rodrigues cv v) = 9) \<and>
     (\<forall>v d. length (cv_convertTo cv v d) = length v) \<and>
     (\<forall>v. length (cv_neg cv v) = length v) \<and>
     (\<forall>A v. length A = 9 \<longrightarrow> length v = 3 \<longrightarrow> length (cv_mul cv A v) = 3) \<and>
     (\<forall>u v. length u = length v \<longrightarrow> length (cv_add cv u v) = length v) \<and>
     (\<forall>v d. length (cv_div cv v d) = length v) \<and>
     (\<forall>os r t K D. length (cv_projectPoints cv os r t K D) = length os) \<and>
     (\<forall>os ps K D f n rs ts. cv_solvePnPGeneric cv os ps K D f = Inr (n, rs, ts) \<longrightarrow>
        length rs = nat n \<and> length ts = nat n \<and> (\<forall>v \<in> set rs \<union> set ts. length v = 3))"

lemma dims_okD:
  assumes "dims_ok cv"
  shows "length v = 3 \<Longrightarrow> length (cv_Rodrigues cv v) = 9"
    "length (cv_convertTo cv v d) = length v" "length (cv_neg cv v) = length v"
    "length A = 9 \<Longrightarrow> length v = 3 \<Longrightarrow> length (cv_mul cv A v) = 3"
    "length u = length v \<Longrightarrow> length (cv_add cv u v) = length v"
    "length (cv_div cv v x) = length v"
    "length (cv_projectPoints cv os r t K D) = length os"
  using assms by (auto simp: dims_ok_def)

lemma dims_ok_solve:
  assumes "dims_ok cv" "cv_solvePnPGeneric cv os ps K D f = Inr (n, rs, ts)"
  shows "length rs = nat n" "length ts = nat n" "v \<in> set rs \<Longrightarrow> length v = 3" "v \<in> set ts \<Longrightarrow> length v = 3"
  using assms unfolding dims_ok_def by blast+

section \<open>The effect of a solution on the store\<close>

text \<open>The values a solution produces: the negated rotation vector, its matrix, the translation.\<close>

definition solution_r :: "'img cv_api \<Rightarrow> double list \<Rightarrow> double list" where
  "solution_r cv rvec0 = cv_neg cv (cv_convertTo cv rvec0 CV_64F)"

definition solution_R :: "'img cv_api \<Rightarrow> double list \<Rightarrow> double list" where
  "solution_R cv rvec0 = cv_Rodrigues cv (solution_r cv rvec0)"

definition solution_t :: "'img cv_api \<Rightarrow> double list \<Rightarrow> double list \<Rightarrow> double list" where
  "solution_t cv rvec0 tvec0 =
     cv_div cv (cv_add cv (cv_convertTo cv tvec0 CV_64F) (cv_mul cv (solution_R cv rvec0) [fone, fone, fone]))
       (fl_of_int Binary64 100)"

lemma solution_lengths:
  assumes "dims_ok cv" "length rvec0 = 3" "length tvec0 = 3"
  shows "length (solution_r cv rvec0) = 3" "length (solution_R cv rvec0) = 9"
    "length (solution_t cv rvec0 tvec0) = 3"
proof -
  show r: "length (solution_r cv rvec0) = 3" and R: "length (solution_R cv rvec0) = 9"
    using assms by (simp_all add: solution_r_def solution_R_def dims_okD)
  then have "length (cv_mul cv (solution_R cv rvec0) [fone, fone, fone]) = 3"
    by (intro dims_okD(4) [OF assms(1)]) simp_all
  moreover have "length (cv_convertTo cv tvec0 CV_64F) = 3"
    using assms(3) by (simp add: dims_okD(2) [OF assms(1)])
  ultimately show "length (solution_t cv rvec0 tvec0) = 3"
    by (simp add: solution_t_def dims_okD(6) [OF assms(1)] dims_okD(5) [OF assms(1)])
qed

text \<open>A matrix of a given shape that is live and holds given values.\<close>

definition holds :: "store \<Rightarrow> mat \<Rightarrow> int \<Rightarrow> int \<Rightarrow> double list \<Rightarrow> bool" where
  "holds h m r c vs \<longleftrightarrow> live h m \<and> has_shape m r c \<and> mat_values h m = vs"

lemma holds_frame: "same_except p h h' \<Longrightarrow> holds h m r c vs \<Longrightarrow> data m \<noteq> p \<Longrightarrow> holds h' m r c vs"
  by (simp add: holds_def same_except_live same_except_values)

lemma holds_bounds: "holds h m r c vs \<Longrightarrow> data m < brk h" "holds h m r c vs \<Longrightarrow> data m \<noteq> nullptr"
  by (simp_all add: holds_def live_def)

lemma holds_frame_null: "same_except nullptr h h' \<Longrightarrow> holds h m r c vs \<Longrightarrow> holds h' m r c vs"
  using holds_bounds(2) holds_frame by blast

lemma new_array_holds:
  assumes "create_ok cv" "store_ok h" "length vs = nat (r * c)" "out_array cv h empty_mat r c CV_64FC1 vs = (h', m')"
  shows "store_ok h'" "same_except nullptr h h'" "holds h' m' r c vs" "brk h \<le> data m'"
  using new_array_spec [OF assms] by (simp_all add: holds_def has_shape_def)

lemma clone_holds:
  assumes "create_ok cv" "store_ok h" "holds h m r c vs" "mat_clone cv h m = (h', m')"
  shows "store_ok h'" "same_except nullptr h h'" "holds h' m' r c vs" "brk h \<le> data m'"
  using clone_spec [OF assms(1,2) _ assms(4)] assms(3) by (simp_all add: holds_def has_shape_def)

lemma reuse_holds:
  assumes "create_ok cv" "store_ok h" "holds h m r c us" "length vs = nat (r * c)"
    "out_array cv h m r c CV_64FC1 vs = (h', m')"
  shows "store_ok h'" "same_except (data m) h h'" "holds h' m r c vs" "m' = m" "brk h' = brk h"
proof -
  have "shape_matches m r c CV_64FC1"
    using assms(3) by (simp add: holds_def live_def has_shape_def shape_matches_def)
  then have e: "h' = write_mat h m vs" "m' = m"
    using assms(5) out_array_reuse [OF assms(1,2), of m r c CV_64FC1 vs] by auto
  show "m' = m" "brk h' = brk h" by (simp_all add: e mat_simps)
  show "store_ok h'" "same_except (data m) h h'" "holds h' m r c vs"
    using out_array_spec [OF assms(1,2) _ assms(4,5)] assms(3) e
    by (simp_all add: holds_def has_shape_def)
qed

lemma solution_vectors_spec:
  assumes cv: "create_ok cv" "dims_ok cv" and h: "store_ok h"
    and len: "length rvec0 = 3" "length tvec0 = 3"
    and eq: "solution_vectors cv rvec0 tvec0 h = (h', irvec, itvec, r', t')"
  shows "store_ok h'" "same_except nullptr h h'" "holds h' irvec 3 1 (cv_convertTo cv rvec0 CV_64F)"
    "holds h' itvec 3 1 (cv_convertTo cv tvec0 CV_64F)" "data irvec < data itvec"
    "brk h \<le> data irvec" "brk h \<le> data t'"
proof -
  have l3: "length (cv_convertTo cv rvec0 CV_64F) = nat (3 * 1)"
    "length (cv_convertTo cv tvec0 CV_64F) = nat (3 * 1)"
    using len by (simp_all add: dims_okD(2) [OF cv(2)])
  obtain h1 h2 h3 where
    a1: "out_array cv h empty_mat 3 1 CV_64FC1 (cv_convertTo cv rvec0 CV_64F) = (h1, irvec)" and
    a2: "out_array cv h1 empty_mat 3 1 CV_64FC1 (cv_convertTo cv tvec0 CV_64F) = (h2, itvec)" and
    a3: "mat_clone cv h2 irvec = (h3, r')" and a4: "mat_clone cv h3 itvec = (h', t')"
    using eq by (auto simp: solution_vectors_def Let_def split: prod.splits)
  note s1 = new_array_holds [OF cv(1) h l3(1) a1]
  note s2 = new_array_holds [OF cv(1) s1(1) l3(2) a2]
  note s3 = clone_holds [OF cv(1) s2(1) holds_frame_null [OF s2(2) s1(3)] a3]
  note s4 = clone_holds [OF cv(1) s3(1) holds_frame_null [OF s3(2) s2(3)] a4]
  show "store_ok h'" by (rule s4(1))
  show "holds h' itvec 3 1 (cv_convertTo cv tvec0 CV_64F)"
    by (intro holds_frame_null [OF s4(2)] holds_frame_null [OF s3(2)] s2(3))
  show "holds h' irvec 3 1 (cv_convertTo cv rvec0 CV_64F)"
    by (intro holds_frame_null [OF s4(2)] holds_frame_null [OF s3(2)] holds_frame_null [OF s2(2)] s1(3))
  show "data irvec < data itvec" "brk h \<le> data irvec" using holds_bounds [OF s1(3)] s2(4) s1(4) by simp_all
  show "brk h \<le> data t'"
    using s4(4) same_except_brk [OF s1(2)] same_except_brk [OF s2(2)] same_except_brk [OF s3(2)] by simp
  show "same_except nullptr h h'"
    by (rule same_except_trans [OF same_except_trans [OF same_except_trans [OF s1(2) s2(2)] s3(2)] s4(2)]) simp_all
qed

lemma solution_rotation_spec:
  assumes cv: "create_ok cv" "dims_ok cv" and h: "store_ok h"
    and i: "holds h irvec 3 1 us" and R: "holds h m 3 3 ws" and ne: "data irvec \<noteq> data m"
    and eq: "solution_rotation cv irvec m h = (h', irvec', m')"
  shows "store_ok h'" "irvec' = irvec" "m' = m" "brk h' = brk h"
    "holds h' irvec 3 1 (cv_neg cv us)" "holds h' m 3 3 (cv_Rodrigues cv (cv_neg cv us))"
    "\<And>n r c vs. holds h n r c vs \<Longrightarrow> data n \<noteq> data irvec \<Longrightarrow> data n \<noteq> data m \<Longrightarrow> holds h' n r c vs"
proof -
  have us: "mat_values h irvec = us" "length us = 3"
    using i length_mat_values [of h irvec] by (auto simp: holds_def has_shape_def)
  have l: "length (cv_neg cv us) = nat (3 * 1)" "length (cv_Rodrigues cv (cv_neg cv us)) = nat (3 * 3)"
    using us(2) dims_okD(1,3) [OF cv(2)] by simp_all
  obtain h1 where a1: "out_array cv h irvec 3 1 CV_64FC1 (cv_neg cv us) = (h1, irvec')"
    and a2: "out_array cv h1 m 3 3 CV_64FC1 (cv_Rodrigues cv (mat_values h1 irvec')) = (h', m')"
    using eq by (auto simp: solution_rotation_def Let_def us split: prod.splits)
  note s1 = reuse_holds [OF cv(1) h i l(1) a1]
  have v: "mat_values h1 irvec' = cv_neg cv us" using s1(3,4) by (simp add: holds_def)
  note s2 = reuse_holds [OF cv(1) s1(1) holds_frame [OF s1(2) R] l(2) a2 [unfolded v]]
  show "store_ok h'" "irvec' = irvec" "m' = m" "brk h' = brk h" using s1 s2 ne by simp_all
  show "holds h' m 3 3 (cv_Rodrigues cv (cv_neg cv us))" using s2(3) ne by simp
  show "holds h' irvec 3 1 (cv_neg cv us)" using holds_frame [OF s2(2) s1(3)] ne by simp
  show "holds h' n r c vs" if "holds h n r c vs" "data n \<noteq> data irvec" "data n \<noteq> data m" for n r c vs
    using holds_frame [OF s2(2) holds_frame [OF s1(2) that(1,2)]] that(3) ne by simp
qed

lemma solution_outputs_spec:
  assumes cv: "create_ok cv" and h: "store_ok h" and i: "holds h irvec 3 1 us" and t: "holds h itvec 3 1 ts"
    and R: "holds h m 3 3 ws"
    and len: "length (cv_div cv (cv_add cv ts (cv_mul cv ws [fone, fone, fone])) (fl_of_int Binary64 100)) = 3"
    and eq: "solution_outputs cv irvec itvec m h = (h', to, ro)"
  shows "store_ok h'" "same_except nullptr h h'" "holds h' ro 3 1 us"
    "holds h' to 3 1 (cv_div cv (cv_add cv ts (cv_mul cv ws [fone, fone, fone])) (fl_of_int Binary64 100))"
    "brk h \<le> data to" "data to < data ro"
proof -
  let ?v = "cv_div cv (cv_add cv ts (cv_mul cv ws [fone, fone, fone])) (fl_of_int Binary64 100)"
  have l: "length ?v = nat (3 * 1)" using len by simp
  have "mat_values h itvec = ts" "mat_values h m = ws" using t R by (simp_all add: holds_def)
  then obtain h1 where a1: "out_array cv h empty_mat 3 1 CV_64FC1 ?v = (h1, to)"
    and a2: "mat_clone cv h1 irvec = (h', ro)"
    using eq by (auto simp: solution_outputs_def Let_def split: prod.splits)
  note s1 = new_array_holds [OF cv h l a1]
  note s2 = clone_holds [OF cv s1(1) holds_frame_null [OF s1(2) i] a2]
  show "store_ok h'" "holds h' ro 3 1 us" "brk h \<le> data to" using s1 s2 by simp_all
  show "same_except nullptr h h'" by (rule same_except_trans [OF s1(2) s2(2)]) simp
  show "holds h' to 3 1 ?v" by (rule holds_frame_null [OF s2(2) s1(3)])
  show "data to < data ro" using holds_bounds(1) [OF s1(3)] s2(4) by simp
qed

text \<open>
  The whole block: the caller's rotation matrix is rewritten in place, the two results are new
  matrices, and every other matrix of the caller keeps its contents.
\<close>

lemma apply_solution_spec:
  assumes cv: "create_ok cv" "dims_ok cv" and h: "store_ok (heap e)"
    and R: "holds (heap e) (cam_R (cam e)) 3 3 ws" and len: "length rvec0 = 3" "length tvec0 = 3"
    and e': "e' = apply_solution cv rvec0 tvec0 e"
  shows "store_ok (heap e')" "cam_R (cam e') = cam_R (cam e)"
    "holds (heap e') (cam_R (cam e)) 3 3 (solution_R cv rvec0)"
    "holds (heap e') (rvec_out e') 3 1 (solution_r cv rvec0)"
    "holds (heap e') (tvec_out e') 3 1 (solution_t cv rvec0 tvec0)"
    "brk (heap e) \<le> data (tvec_out e')" "data (tvec_out e') < data (rvec_out e')"
    "brk (heap e) \<le> brk (heap e')"
    "\<And>n r c vs. holds (heap e) n r c vs \<Longrightarrow> data n \<noteq> data (cam_R (cam e)) \<Longrightarrow> holds (heap e') n r c vs"
proof -
  let ?R = "cam_R (cam e)"
  obtain h1 irvec itvec ir it where
    a1: "solution_vectors cv rvec0 tvec0 (heap e) = (h1, irvec, itvec, ir, it)" by (metis prod_cases5)
  obtain h2 irvec2 R2 where a2: "solution_rotation cv irvec ?R h1 = (h2, irvec2, R2)" by (metis prod_cases3)
  obtain h3 to ro where a3: "solution_outputs cv irvec2 itvec R2 h2 = (h3, to, ro)" by (metis prod_cases3)
  have r: "heap e' = h3" "cam_R (cam e') = R2" "tvec_out e' = to" "rvec_out e' = ro"
    by (simp_all add: e' apply_solution_def a1 a2 a3)
  note s1 = solution_vectors_spec [OF cv h len a1]
  have ne: "data irvec \<noteq> data ?R" "data itvec \<noteq> data ?R" "data itvec \<noteq> data irvec"
    using holds_bounds(1) [OF R] s1(5,6) by simp_all
  note s2 = solution_rotation_spec [OF cv s1(1,3) holds_frame_null [OF s1(2) R] ne(1) a2]
  note sl = solution_lengths [OF cv(2) len, unfolded solution_t_def solution_R_def solution_r_def]
  note s3 = solution_outputs_spec [OF cv(1) s2(1) s2(5) s2(7) [OF s1(4) ne(3,2)] s2(6) sl(3)
      a3 [unfolded s2(2,3)]]
  show "store_ok (heap e')" "cam_R (cam e') = ?R" "data (tvec_out e') < data (rvec_out e')"
    using s2 s3 by (simp_all add: r)
  show "holds (heap e') ?R 3 3 (solution_R cv rvec0)"
    unfolding r solution_R_def solution_r_def by (rule holds_frame_null [OF s3(2) s2(6)])
  show "holds (heap e') (rvec_out e') 3 1 (solution_r cv rvec0)"
    unfolding r solution_r_def by (rule s3(3))
  show "holds (heap e') (tvec_out e') 3 1 (solution_t cv rvec0 tvec0)"
    unfolding r solution_t_def solution_R_def solution_r_def by (rule s3(4))
  show "brk (heap e) \<le> data (tvec_out e')" "brk (heap e) \<le> brk (heap e')"
    using s3(5) s2(4) same_except_brk [OF s1(2)] same_except_brk [OF s3(2)] by (simp_all add: r)
  show "holds (heap e') n r c vs" if n: "holds (heap e) n r c vs" "data n \<noteq> data ?R" for n r c vs
    using holds_frame_null [OF s3(2) s2(7) [OF holds_frame_null [OF s1(2) n(1)] _ n(2)]]
      holds_bounds(1) [OF n(1)] s1(6) by (simp add: r)
qed

section \<open>The pose estimator\<close>

definition env_ok :: "'img pose_env \<Rightarrow> bool" where
  "env_ok e \<longleftrightarrow> store_ok (heap e) \<and> tracker_ok (trk e) \<and> (\<exists>ws. holds (heap e) (cam_R (cam e)) 3 3 ws)"

lemma set_Rot_fields [simp]:
  "trk (set_Rot cv e) = trk e" "canvas (set_Rot cv e) = canvas e" "cam (set_Rot cv e) = cam e"
  "rvec_out (set_Rot cv e) = rvec_out e" "tvec_out (set_Rot cv e) = tvec_out e"
  "new_live (set_Rot cv e) = new_live e"
  by (simp_all add: set_Rot_def Let_def split: prod.splits)

lemma set_Rot_spec:
  assumes "create_ok cv" "store_ok (heap e)" "holds (heap e) (cam_R (cam e)) 3 3 ws"
  shows "store_ok (heap (set_Rot cv e))" "same_except nullptr (heap e) (heap (set_Rot cv e))"
    "holds (heap (set_Rot cv e)) (Rot (set_Rot cv e)) 3 3 ws" "brk (heap e) \<le> data (Rot (set_Rot cv e))"
proof -
  obtain h' m' where a: "mat_clone cv (heap e) (cam_R (cam e)) = (h', m')" by fastforce
  show "store_ok (heap (set_Rot cv e))" "same_except nullptr (heap e) (heap (set_Rot cv e))"
    "holds (heap (set_Rot cv e)) (Rot (set_Rot cv e)) 3 3 ws" "brk (heap e) \<le> data (Rot (set_Rot cv e))"
    using clone_holds [OF assms a] by (simp_all add: set_Rot_def a)
qed

text \<open>The drawing loop stays in the bounds of both vectors.\<close>

lemma draw_loop_total:
  "length ips = n \<Longrightarrow> length objs = n \<Longrightarrow> \<exists>img'. for_loop (draw_point cv mid ips objs) 0 n img = Inr img'"
  by (rule for_loop_total) (simp add: draw_point_total)

abbreviation pnp :: "'img cv_api \<Rightarrow> point2f list \<Rightarrow> 'img pose_env \<Rightarrow> (int \<times> double list list \<times> double list list) res"
  where "pnp cv ips e \<equiv> cv_solvePnPGeneric cv (model_points (trk e)) ips (camera_matrix (cam e))
           [zero, zero, zero, zero] SOLVEPNP_SQPNP"

lemma solve_pose_error: "pnp cv ips e = Inl err \<Longrightarrow> solve_pose cv ips mid g e = Inl err"
  by (simp add: solve_pose_def Let_def)

lemma solve_pose_result:
  assumes "dims_ok cv" "tracker_ok (trk e)" "length (model_points (trk e)) = nat g" "length ips = nat g"
    and "pnp cv ips e = Inr (n, rs, ts)"
  obtains img where "solve_pose cv ips mid g e = Inr (let e1 = e\<lparr>canvas := img, cam := (cam e)\<lparr>n_solutions := n\<rparr>\<rparr>
       in if 0 < n then apply_solution cv (hd rs) (hd ts) e1 else e1)"
proof -
  obtain q where q: "cv_projectPoints cv [\<lparr>qx = zero, qy = zero, qz = fl_of_int Binary32 100\<rparr>] zeros3 zeros3
      (camera_matrix (cam e)) [zero, zero, zero, zero] = [q]"
    using dims_okD(7) [OF assms(1)] by (metis length_Cons list.size(3) length_0_conv length_Suc_conv)
  obtain img where img: "for_loop (draw_point cv mid ips (object_points (trk e))) 0 (nat g)
      (cv_line cv (canvas e) mid q [0, 0, 255] 1) = Inr img"
    using draw_loop_total assms(2-4) unfolding tracker_ok_def by metis
  have "vec_at rs 0 = Inr (hd rs)" "vec_at ts 0 = Inr (hd ts)" if "0 < n"
    using that dims_ok_solve(1,2) [OF assms(1,5)] by (cases rs; cases ts; simp)+
  then show thesis using that [of img] assms(5) by (simp add: solve_pose_def q img Let_def)
qed

text \<open>
  The five ways a call can return. In the first three the tracker does not solve at all; a
  solver that finds nothing leaves the pose alone.
\<close>

inductive pose_outcome :: "'img cv_api \<Rightarrow> point2f list \<Rightarrow> 'img pose_env \<Rightarrow> 'img pose_env \<Rightarrow> bool"
  for cv ps e where
  touched: "touch_status (cam e) = 0 \<Longrightarrow>
     pose_outcome cv ps e (set_Rot cv (e\<lparr>trk := refresh_model_points (trk e) (sorted_points ps),
       cam := (cam e)\<lparr>start_tracking := 0\<rparr>\<rparr>))"
| few: "touch_status (cam e) \<noteq> 0 \<Longrightarrow> length ps \<le> 2 \<Longrightarrow>
     pose_outcome cv ps e (set_Rot cv (e\<lparr>cam := (cam e)\<lparr>start_tracking := 1\<rparr>\<rparr>))"
| resized: "touch_status (cam e) \<noteq> 0 \<Longrightarrow> 2 < length ps \<Longrightarrow> length ps \<noteq> length (model_points (trk e)) \<Longrightarrow>
     pose_outcome cv ps e (set_Rot cv (e\<lparr>trk := refresh_model_points (trk e) (sorted_points ps)\<rparr>))"
| unsolved: "touch_status (cam e) \<noteq> 0 \<Longrightarrow> 2 < length ps \<Longrightarrow> length ps = length (model_points (trk e)) \<Longrightarrow>
     pnp cv (sorted_points ps) e = Inr (n, rs, ts) \<Longrightarrow> n \<le> 0 \<Longrightarrow>
     pose_outcome cv ps e (set_Rot cv (e\<lparr>canvas := img,
       cam := (cam e)\<lparr>n_solutions := n, start_tracking := 1\<rparr>\<rparr>))"
| solved: "touch_status (cam e) \<noteq> 0 \<Longrightarrow> 2 < length ps \<Longrightarrow> length ps = length (model_points (trk e)) \<Longrightarrow>
     pnp cv (sorted_points ps) e = Inr (n, rs, ts) \<Longrightarrow> 0 < n \<Longrightarrow>
     e1 = apply_solution cv (hd rs) (hd ts) (e\<lparr>canvas := img, cam := (cam e)\<lparr>n_solutions := n\<rparr>\<rparr>) \<Longrightarrow>
     pose_outcome cv ps e (set_Rot cv (e1\<lparr>cam := (cam e1)\<lparr>start_tracking := 1\<rparr>\<rparr>))"

lemma estimate_pose_undefined: "\<not> sortable ps \<Longrightarrow> estimate_pose cv ps e = Inl Undefined"
  by (simp add: estimate_pose_def image_points_of_eq Let_def)

lemma estimate_pose_total:
  assumes "dims_ok cv" "tracker_ok (trk e)" "length ps < 2 ^ 31" "length (model_points (trk e)) < 2 ^ 31" "sortable ps"
  shows "(\<exists>e'. estimate_pose cv ps e = Inr (e', True) \<and> pose_outcome cv ps e e') \<or>
    (\<exists>err. touch_status (cam e) \<noteq> 0 \<and> 2 < length ps \<and> length ps = length (model_points (trk e)) \<and>
       pnp cv (sorted_points ps) e = Inl err \<and> estimate_pose cv ps e = Inl err)"
proof -
  note d = estimate_pose_def Let_def int_size_small [OF assms(3)] int_size_small [OF assms(4)] image_points_of_eq assms(5)
  consider "touch_status (cam e) = 0" | "touch_status (cam e) \<noteq> 0" "length ps \<le> 2"
    | "touch_status (cam e) \<noteq> 0" "2 < length ps" "length ps \<noteq> length (model_points (trk e))"
    | "touch_status (cam e) \<noteq> 0" "2 < length ps" "length ps = length (model_points (trk e))" by linarith
  then show ?thesis
  proof cases
    case 4
    show ?thesis
    proof (cases "pnp cv (sorted_points ps) e")
      case (Inl err)
      then show ?thesis using 4 by (simp add: d solve_pose_error)
    next
      case (Inr res)
      obtain n rs ts where res: "pnp cv (sorted_points ps) e = Inr (n, rs, ts)"
        using Inr by (metis prod_cases3)
      have l: "length (model_points (trk e)) = nat (int (length ps))"
        "length (sorted_points ps) = nat (int (length ps))"
        using 4 length_image_points [OF assms(3)] by simp_all
      obtain img where "solve_pose cv (sorted_points ps) (avg_coord ps) (int (length ps)) e =
          Inr (let e1 = e\<lparr>canvas := img, cam := (cam e)\<lparr>n_solutions := n\<rparr>\<rparr>
               in if 0 < n then apply_solution cv (hd rs) (hd ts) e1 else e1)"
        by (rule solve_pose_result [OF assms(1,2) l res])
      then show ?thesis using 4 unsolved [OF 4 res, of img] solved [OF 4 res, of _ img]
        by (cases "0 < n") (simp_all add: d)
    qed
  qed (auto simp: d intro: touched few resized)
qed

lemma estimate_pose_outcome:
  assumes "dims_ok cv" "tracker_ok (trk e)" "length ps < 2 ^ 31" "length (model_points (trk e)) < 2 ^ 31"
    and "estimate_pose cv ps e = Inr (e', b)"
  shows "b" "pose_outcome cv ps e e'" "sortable ps"
proof -
  show s: "sortable ps" using assms(5) estimate_pose_undefined [of ps cv e] by (cases "sortable ps") simp_all
  show "b" "pose_outcome cv ps e e'" using estimate_pose_total [OF assms(1-4) s] assms(5) by auto
qed

text \<open>What every outcome does to the store and to the invariant.\<close>

lemma pose_outcome_store:
  assumes cv: "create_ok cv" "dims_ok cv" and ok: "env_ok e" and len: "length ps < 2 ^ 31"
    and out: "pose_outcome cv ps e e'"
  shows "env_ok e'" "cam_R (cam e') = cam_R (cam e)"
    "mat_values (heap e') (Rot e') = mat_values (heap e') (cam_R (cam e))" "holds (heap e') (Rot e') 3 3 (mat_values (heap e') (Rot e'))"
    "brk (heap e) \<le> data (Rot e')" "brk (heap e) \<le> brk (heap e')"
    "\<And>n r c vs. holds (heap e) n r c vs \<Longrightarrow> data n \<noteq> data (cam_R (cam e)) \<Longrightarrow> holds (heap e') n r c vs"
proof -
  let ?R = "cam_R (cam e)"
  obtain ws where h: "store_ok (heap e)" and R: "holds (heap e) ?R 3 3 ws" using ok by (auto simp: env_ok_def)
  obtain e1 ws1 where e1: "e' = set_Rot cv e1" "tracker_ok (trk e1)" "cam_R (cam e1) = ?R" "store_ok (heap e1)"
      "holds (heap e1) ?R 3 3 ws1" "brk (heap e) \<le> brk (heap e1)"
    and fr: "\<And>n r c vs. holds (heap e) n r c vs \<Longrightarrow> data n \<noteq> data ?R \<Longrightarrow> holds (heap e1) n r c vs"
    using out
  proof cases
    case (solved n rs ts e2 img)
    let ?e = "e\<lparr>canvas := img, cam := (cam e)\<lparr>n_solutions := n\<rparr>\<rparr>"
    have l: "length (hd rs) = 3" "length (hd ts) = 3"
      using dims_ok_solve [OF cv(2) solved(5)] solved(6) by (cases rs; cases ts; simp)+
    have a: "store_ok (heap ?e)" "holds (heap ?e) (cam_R (cam ?e)) 3 3 ws" using h R by simp_all
    note s = apply_solution_spec [OF cv a l solved(7)]
    have "trk e2 = trk e" by (simp add: solved(7) apply_solution_def Let_def split: prod.splits)
    then show ?thesis using that [of "e2\<lparr>cam := (cam e2)\<lparr>start_tracking := 1\<rparr>\<rparr>"] s ok solved(1)
      by (simp add: env_ok_def)
  next
    case touched
    show ?thesis by (rule that [OF touched(1), of ws]) (use h R in \<open>simp_all add: tracker_ok_intros\<close>)
  next
    case few
    show ?thesis by (rule that [OF few(1), of ws]) (use h R ok in \<open>simp_all add: env_ok_def\<close>)
  next
    case resized
    show ?thesis by (rule that [OF resized(1), of ws]) (use h R in \<open>simp_all add: tracker_ok_intros\<close>)
  next
    case (unsolved n rs ts img)
    show ?thesis by (rule that [OF unsolved(1), of ws]) (use h R ok in \<open>simp_all add: env_ok_def\<close>)
  qed
  note s = set_Rot_spec [OF cv(1) e1(4), unfolded e1(3), OF e1(5), folded e1(1)]
  have R': "holds (heap e') ?R 3 3 ws1" by (rule holds_frame_null [OF s(2) e1(5)])
  show "cam_R (cam e') = ?R" "env_ok e'" using s R' e1 by (auto simp: env_ok_def)
  show "mat_values (heap e') (Rot e') = mat_values (heap e') ?R"
    "holds (heap e') (Rot e') 3 3 (mat_values (heap e') (Rot e'))" using s(3) R' by (simp_all add: holds_def)
  show "brk (heap e) \<le> data (Rot e')" "brk (heap e) \<le> brk (heap e')"
    using s(4) e1(6) same_except_brk [OF s(2)] by simp_all
  show "holds (heap e') n r c vs" if "holds (heap e) n r c vs" "data n \<noteq> data ?R" for n r c vs
    by (rule holds_frame_null [OF s(2) fr [OF that]])
qed

lemma pose_outcome_model_length:
  assumes "pose_outcome cv ps e e'" "length ps < 2 ^ 31" "length (model_points (trk e)) < 2 ^ 31"
  shows "length (model_points (trk e')) < 2 ^ 31"
  using assms
proof cases
  case (solved n rs ts e1 img)
  have "trk e1 = trk e" by (simp add: solved(7) apply_solution_def Let_def split: prod.splits)
  then show ?thesis using solved assms(3) by simp
qed (simp_all add: length_image_points)

text \<open>When a call solves for the pose, with which solution.\<close>

definition solves :: "'img cv_api \<Rightarrow> point2f list \<Rightarrow> 'img pose_env \<Rightarrow> (double list \<times> double list) option" where
  "solves cv ps e =
     (if touch_status (cam e) \<noteq> 0 \<and> 2 < length ps \<and> length ps = length (model_points (trk e))
      then case pnp cv (sorted_points ps) e of
             Inr (n, rs, ts) \<Rightarrow> if 0 < n then Some (hd rs, hd ts) else None
           | Inl _ \<Rightarrow> None
      else None)"

lemma pose_outcome_unsolved:
  assumes cv: "create_ok cv" and ok: "env_ok e" and out: "pose_outcome cv ps e e'" and n: "solves cv ps e = None"
  shows "rvec_out e' = rvec_out e" "tvec_out e' = tvec_out e" "new_live e' = new_live e"
    "same_except nullptr (heap e) (heap e')"
proof -
  have h: "store_ok (heap e)" "holds (heap e) (cam_R (cam e)) 3 3 (mat_values (heap e) (cam_R (cam e)))"
    using ok by (auto simp: env_ok_def holds_def)
  have k: "same_except nullptr (heap e) (heap (set_Rot cv e1))"
    if "heap e1 = heap e" "cam_R (cam e1) = cam_R (cam e)" for e1
    using set_Rot_spec(2) [OF cv, of e1] h that by simp
  have "rvec_out e' = rvec_out e \<and> tvec_out e' = tvec_out e \<and> new_live e' = new_live e \<and>
      same_except nullptr (heap e) (heap e')"
    using out
  proof cases
    case (solved n rs ts e1 img)
    then show ?thesis using n by (simp add: solves_def)
  qed (use k in simp_all)
  then show "rvec_out e' = rvec_out e" "tvec_out e' = tvec_out e" "new_live e' = new_live e"
    "same_except nullptr (heap e) (heap e')" by simp_all
qed

lemma pose_outcome_solved:
  assumes cv: "create_ok cv" "dims_ok cv" and ok: "env_ok e" and out: "pose_outcome cv ps e e'"
    and s: "solves cv ps e = Some (r0, t0)"
  shows "holds (heap e') (cam_R (cam e)) 3 3 (solution_R cv r0)"
    "holds (heap e') (rvec_out e') 3 1 (solution_r cv r0)" "holds (heap e') (tvec_out e') 3 1 (solution_t cv r0 t0)"
    "brk (heap e) \<le> data (tvec_out e')" "data (tvec_out e') < data (rvec_out e')" "data (rvec_out e') < data (Rot e')"
    "new_live e' = new_live e + 1"
proof -
  obtain n rs ts where p: "pnp cv (sorted_points ps) e = Inr (n, rs, ts)" "0 < n" "r0 = hd rs" "t0 = hd ts"
    using s by (auto simp: solves_def split: if_splits sum.splits)
  obtain img e1 where e1: "e1 = apply_solution cv r0 t0 (e\<lparr>canvas := img, cam := (cam e)\<lparr>n_solutions := n\<rparr>\<rparr>)"
    and e': "e' = set_Rot cv (e1\<lparr>cam := (cam e1)\<lparr>start_tracking := 1\<rparr>\<rparr>)"
    using out p s by cases (auto simp: solves_def)
  have l: "length r0 = 3" "length t0 = 3"
    using dims_ok_solve [OF cv(2) p(1)] p(2-4) by (cases rs; cases ts; simp)+
  obtain ws where a: "store_ok (heap e)" "holds (heap e) (cam_R (cam e)) 3 3 ws" using ok by (auto simp: env_ok_def)
  note f = apply_solution_spec [OF cv _ _ l e1, simplified, OF a]
  let ?e1 = "e1\<lparr>cam := (cam e1)\<lparr>start_tracking := 1\<rparr>\<rparr>"
  have g: "store_ok (heap ?e1)" "holds (heap ?e1) (cam_R (cam ?e1)) 3 3 (solution_R cv r0)" using f by simp_all
  note k = set_Rot_spec [OF cv(1) g, folded e']
  show "holds (heap e') (cam_R (cam e)) 3 3 (solution_R cv r0)"
    "holds (heap e') (rvec_out e') 3 1 (solution_r cv r0)" "holds (heap e') (tvec_out e') 3 1 (solution_t cv r0 t0)"
    using holds_frame_null [OF k(2)] f by (simp_all add: e')
  show "brk (heap e) \<le> data (tvec_out e')" "data (tvec_out e') < data (rvec_out e')" using f by (simp_all add: e')
  show "data (rvec_out e') < data (Rot e')" using holds_bounds(1) [OF f(4)] k(4) by (simp add: e')
  show "new_live e' = new_live e + 1"
    by (simp add: e' e1 apply_solution_def Let_def split: prod.splits)
qed

section \<open>Properties\<close>

lemma sample_dims_ok: "dims_ok sample_cv"
  by (auto simp: dims_ok_def sample_cv_def eye3_def zeros3_def)

definition corner_points :: "point2f list" where
  "corner_points = [\<lparr>px = Fin False 4, py = Fin False 1\<rparr>, \<lparr>px = Fin False 2, py = Fin False 3\<rparr>,
     \<lparr>px = zero, py = Fin False 5\<rparr>]"

lemma corner_points_ok: "\<forall>p \<in> set corner_points. in_frame 3 p" "length corner_points = 3"
  by (simp_all add: corner_points_def in_frame_def)

text \<open>
  C7: For fewer than \<open>2^24\<close> image points with coordinates in \<open>[0, 2^k]\<close> the centroid computed in
  single precision stays in that range, and every distance from it is a finite number of at
  most \<open>2^(k+1)\<close>: rounding never produces an infinity or a NaN.
\<close>

theorem centroid_and_distances_bounded:
  assumes "0 \<le> k" "k \<le> 100" "\<forall>p \<in> set ps. in_frame k p" "ps \<noteq> []" "length ps < 2 ^ 24"
  shows "in_frame k (avg_coord ps) \<and>
    (\<forall>(p, d) \<in> set (add_distance ps (avg_coord ps)). in_frame k p \<and> nonneg_upto (pow2 (k + 1)) d)"
proof -
  have c: "in_frame k (avg_coord ps)" by (rule centroid_in_frame [OF assms])
  then show ?thesis
    using distance_in_frame [OF assms(1,2) c] assms(3) by (auto simp: add_distance_eq dest: in_set_takeD)
qed

theorem centroid_and_distances_bounded_witness: "in_frame 3 (avg_coord corner_points)"
  using centroid_and_distances_bounded [of 3 corner_points] corner_points_ok by fastforce

text \<open>
  C5: For fewer than \<open>2^24\<close> points in the frame the sort is well defined, and the image points handed to
  the solver are the detected points, each once, in the order the comparator defines on their
  distances from the centroid.
\<close>

theorem image_points_sorted:
  assumes "0 \<le> k" "k \<le> 100" "\<forall>p \<in> set ps. in_frame k p" "length ps < 2 ^ 24"
  defines "m \<equiv> avg_coord ps"
  shows "\<exists>qs. image_points_of ps = Inr qs \<and> mset qs = mset ps \<and>
    sorted_wrt (\<lambda>p q. \<not> point_comparator (q, distance m q) (p, distance m p)) qs"
  using image_points_sorted_aux [OF assms(1-4)] mset_image_points [of ps] assms(4) in_frame_sortable [OF assms(1-4)]
  by (simp add: m_def image_points_of_eq)

theorem image_points_sorted_witness: "\<exists>qs. image_points_of corner_points = Inr qs \<and> mset qs = mset corner_points"
  using image_points_sorted [of 3 corner_points] corner_points_ok by auto

text \<open>
  C11: The call of \<^verbatim>\<open>std::sort\<close> is well defined on the points of a frame and its result does not
  depend on the algorithm: any arrangement of the pairs that is sorted by the comparator agrees
  with the model's in every position, up to pairs the comparator does not distinguish.
\<close>

theorem sort_result_determined:
  assumes "0 \<le> k" "k \<le> 100" "\<forall>p \<in> set ps. in_frame k p" "length ps < 2 ^ 24"
    and "mset bs = mset (add_distance ps (avg_coord ps))"
    and "sorted_wrt (\<lambda>a b. \<not> point_comparator b a) bs"
  shows "\<exists>as. std_sort point_comparator (add_distance ps (avg_coord ps)) = Inr as \<and>
    list_all2 (\<lambda>a b. \<not> point_comparator a b \<and> \<not> point_comparator b a) bs as"
proof -
  have "list_all2 pc.equiv bs (sort_by point_comparator (add_distance ps (avg_coord ps)))"
    using add_distance_no_nan [OF assms(1-4)] assms(5,6)
    by (intro pc.sort_by_unique) (auto simp: pc.in_order_def)
  then show ?thesis
    using in_frame_sortable [OF assms(1-4)] by (simp add: pc.equiv_def [abs_def] std_sort_def sortable_def)
qed

theorem sort_result_determined_witness:
  "\<exists>bs. std_sort point_comparator (add_distance corner_points (avg_coord corner_points)) = Inr bs \<and>
     list_all2 (\<lambda>a b. \<not> point_comparator a b \<and> \<not> point_comparator b a) bs bs"
proof -
  let ?as = "add_distance corner_points (avg_coord corner_points)"
  have "sortable corner_points" using in_frame_sortable [of 3 corner_points] corner_points_ok by simp
  then obtain bs where bs: "std_sort point_comparator ?as = Inr bs" by (simp add: std_sort_def sortable_def)
  show ?thesis
    using sort_result_determined [of 3 corner_points bs] std_sort_sorted [OF bs] bs corner_points_ok by auto
qed

text \<open>
  C4: \<^verbatim>\<open>estimate_pose\<close> fails in exactly two ways. The call of \<^verbatim>\<open>std::sort\<close>, which every call makes first, is
  undefined because the comparator is not a strict weak order on the points and their distances; or
  it is defined, the solver runs (no touch, more than two points, as many as model points) and
  throws. In every other case it returns true in one of the five ways of \<open>pose_outcome\<close>. No vector
  access in it is out of bounds.
\<close>

theorem estimate_pose_fails_iff:
  assumes "dims_ok cv" "tracker_ok (trk e)" "length ps < 2 ^ 31" "length (model_points (trk e)) < 2 ^ 31"
  shows "(estimate_pose cv ps e = Inl err \<longleftrightarrow>
      (if weak_order_on point_comparator (add_distance ps (avg_coord ps))
       then touch_status (cam e) \<noteq> 0 \<and> 2 < length ps \<and> length ps = length (model_points (trk e)) \<and>
         pnp cv (sorted_points ps) e = Inl err
       else err = Undefined)) \<and>
    ((\<exists>e'. estimate_pose cv ps e = Inr (e', True) \<and> pose_outcome cv ps e e') \<or>
     (\<exists>err'. estimate_pose cv ps e = Inl err'))"
proof (cases "sortable ps")
  case True
  note d = estimate_pose_def Let_def int_size_small [OF assms(3)] int_size_small [OF assms(4)] image_points_of_eq True
  have "estimate_pose cv ps e = Inl err"
    if "touch_status (cam e) \<noteq> 0" "2 < length ps" "length ps = length (model_points (trk e))"
      "pnp cv (sorted_points ps) e = Inl err"
    using that by (simp add: d solve_pose_error)
  then show ?thesis using estimate_pose_total [OF assms True] True by (auto simp: sortable_def)
next
  case False
  then show ?thesis using estimate_pose_undefined [OF False] by (auto simp: sortable_def)
qed

definition sample_env :: "contour list pose_env" where
  "sample_env = \<lparr>heap = init_store, trk = static_tracker, canvas = [], Rot = empty_mat, rvec_out = empty_mat,
     tvec_out = empty_mat, cam = static_camera_info, new_live = 0\<rparr>"

theorem estimate_pose_fails_iff_witness:
  "\<exists>e'. estimate_pose sample_cv corner_points sample_env = Inr (e', True) \<and>
     pose_outcome sample_cv corner_points sample_env e'"
proof -
  have "tracker_ok (trk sample_env)" "length (model_points (trk sample_env)) = 0"
    by (simp_all add: sample_env_def tracker_ok_def static_tracker_def)
  moreover have "weak_order_on point_comparator (add_distance corner_points (avg_coord corner_points))"
    using in_frame_sortable [of 3 corner_points] corner_points_ok by (simp add: sortable_def)
  ultimately show ?thesis
    using estimate_pose_fails_iff [OF sample_dims_ok, of sample_env corner_points] corner_points_ok(2) by auto
qed

text \<open>
  The frames after a touch as long as they show no other number of points: each is one that is not
  touched and has at most two points or as many as the touched one. Only the tracker's own variables
  pass from one call to the next; the rest of the environment is the frame's.
\<close>

inductive steady_frames :: "'img cv_api \<Rightarrow> nat \<Rightarrow> tracker \<Rightarrow> tracker \<Rightarrow> bool" for cv n where
  no_frame: "steady_frames cv n tr tr"
| next_frame: "steady_frames cv n tr (trk e) \<Longrightarrow> touch_status (cam e) \<noteq> 0 \<Longrightarrow> length ps \<le> 2 \<or> length ps = n \<Longrightarrow>
     estimate_pose cv ps e = Inr (e', b) \<Longrightarrow> steady_frames cv n tr (trk e')"

lemma steady_frames_keep:
  assumes "steady_frames cv n tr tr'" "dims_ok cv" "tracker_ok tr" "length (model_points tr) = n" "n < 2 ^ 31"
  shows "tr' = tr"
  using assms
proof induction
  case (next_frame tr e ps e' b)
  then have t: "trk e = tr" and l: "length ps < 2 ^ 31" by auto
  have "pose_outcome cv ps e e'"
    by (rule estimate_pose_outcome(2) [OF _ _ l _ next_frame.hyps(4)]) (use t next_frame.prems in auto)
  then show ?case
  proof cases
    case (solved m rs ts e1 img)
    have "trk e1 = trk e" by (simp add: solved(7) apply_solution_def Let_def split: prod.splits)
    then show ?thesis using solved(1) t by simp
  qed (use t next_frame.hyps(2,3) next_frame.prems(3) in auto)
qed simp

text \<open>
  C10: A touch fixes the model: the points of the touched frame, at depth 10, are what the solver is
  given in a later frame with the same number of points, together with that frame's points and
  the camera matrix built from its resolution, provided no frame in between was touched or showed
  another number of points (more than two, and not as many): such a frame replaces the model.
\<close>

theorem touch_fixes_model:
  assumes "touch_status (cam e) = 0" "estimate_pose cv ps e = Inr (e1, b)" "length ps < 2 ^ 31"
    and "steady_frames cv (length ps) (trk e1) (trk e2)" "touch_status (cam e2) \<noteq> 0" "2 < length ps'" "length ps' = length ps"
    and "image_points_of ps = Inr qs" "image_points_of ps' = Inr qs'"
    and "cv_solvePnPGeneric cv (map (\<lambda>p. \<lparr>qx = px p, qy = py p, qz = Fin False 10\<rparr>) qs)
      qs' (camera_matrix (cam e2)) [zero, zero, zero, zero] SOLVEPNP_SQPNP = Inr (n, rs, ts)"
    and "dims_ok cv"
  shows "solves cv ps' e2 = (if 0 < n then Some (hd rs, hd ts) else None) \<and>
    (\<exists>e3. estimate_pose cv ps' e2 = Inr (e3, True) \<and> pose_outcome cv ps' e2 e3)"
proof -
  have q: "sortable ps" "qs = sorted_points ps" "sortable ps'" "qs' = sorted_points ps'"
    using assms(8,9) by (auto simp: image_points_of_eq split: if_splits)
  have "e1 = set_Rot cv (e\<lparr>trk := refresh_model_points (trk e) qs, cam := (cam e)\<lparr>start_tracking := 0\<rparr>\<rparr>)"
    using assms(2) by (simp add: estimate_pose_def Let_def assms(1,8))
  then have t1: "trk e1 = refresh_model_points (trk e) qs" by simp
  have l1: "length qs = length ps" using assms(3) q by (simp add: length_image_points)
  have "trk e2 = trk e1" by (rule steady_frames_keep [OF assms(4,11)]) (use t1 l1 assms(3) in \<open>simp_all add: inv_intros\<close>)
  then have t: "trk e2 = refresh_model_points (trk e) qs" using t1 by simp
  then have m: "model_points (trk e2) = map (\<lambda>p. \<lparr>qx = px p, qy = py p, qz = Fin False 10\<rparr>) qs"
    by (simp add: refresh_points)
  have l: "length (model_points (trk e2)) = length ps'" using assms(7) l1 by (simp add: m)
  have p: "pnp cv (sorted_points ps') e2 = Inr (n, rs, ts)" using assms(10) by (simp add: m q(4))
  have "tracker_ok (trk e2)" using t by (simp add: inv_intros)
  then have "\<exists>e3. estimate_pose cv ps' e2 = Inr (e3, True) \<and> pose_outcome cv ps' e2 e3"
    using estimate_pose_total [OF assms(11), of e2 ps'] p l assms(3,7) q(3) by simp
  then show ?thesis using p l assms(5,6) by (simp add: solves_def)
qed

theorem touch_fixes_model_witness:
  "\<exists>e1 e2 e3. estimate_pose sample_cv corner_points (sample_env\<lparr>cam := static_camera_info\<lparr>touch_status := 0\<rparr>\<rparr>) = Inr (e1, True) \<and>
     estimate_pose sample_cv [] (sample_env\<lparr>trk := trk e1\<rparr>) = Inr (e2, True) \<and>
     estimate_pose sample_cv corner_points (sample_env\<lparr>trk := trk e2\<rparr>) = Inr (e3, True) \<and>
     solves sample_cv corner_points (sample_env\<lparr>trk := trk e2\<rparr>) = Some (zeros3, [zero, zero, fone])"
proof -
  let ?e = "sample_env\<lparr>cam := static_camera_info\<lparr>touch_status := 0\<rparr>\<rparr>"
  have t: "touch_status (cam ?e) = 0" by simp
  obtain qs where q: "image_points_of corner_points = Inr qs"
    using image_points_of_eq in_frame_sortable [of 3 corner_points] corner_points_ok by simp
  obtain e1 where e1: "estimate_pose sample_cv corner_points ?e = Inr (e1, True)"
    by (simp add: estimate_pose_def Let_def q)
  have q0: "image_points_of [] = Inr []" by (simp add: image_points_of_def add_distance_def std_sort_def weak_order_on_def)
  have c: "touch_status (cam (sample_env\<lparr>trk := tr\<rparr>)) \<noteq> 0" for tr by (simp add: sample_env_def static_camera_info_def)
  obtain e2 where e2: "estimate_pose sample_cv [] (sample_env\<lparr>trk := trk e1\<rparr>) = Inr (e2, True)"
    using c [of "trk e1"] by (simp add: estimate_pose_def Let_def q0)
  have f2: "steady_frames sample_cv (length corner_points) (trk e1) (trk (sample_env\<lparr>trk := trk e2\<rparr>))"
    using next_frame [OF _ c _ e2, of "length corner_points" "trk e1"] no_frame [of sample_cv _ "trk e1"] by simp
  have s: "cv_solvePnPGeneric sample_cv os ps K D f = Inr (1, [zeros3], [[zero, zero, fone]])" for os ps K D f
    by (simp add: sample_cv_def)
  have l: "length corner_points < 2 ^ 31" "2 < length corner_points" by (simp_all add: corner_points_ok(2))
  note f = touch_fixes_model [OF t e1 l(1) f2 c l(2) refl q q s sample_dims_ok]
  have "solves sample_cv corner_points (sample_env\<lparr>trk := trk e2\<rparr>) = Some (zeros3, [zero, zero, fone])"
    using f by simp
  then show ?thesis using f e1 e2 by blast
qed

end
