(* ===== verification/Detect_Obj.thy ===== *)
theory Detect_Obj
  imports Camera_Info
begin

text \<open>
  \<^verbatim>\<open>detect_obj\<close> (detect_obj.h, detect_obj.cpp): the centroids of the green blobs of a frame. Pixel
  buffers are a map from addresses to contents; the input and the result image are headers
  that may refer to the same buffer.
\<close>

type_synonym 'img pixels = "addr \<Rightarrow> 'img"

definition COLOR_BGR2HSV :: int where "COLOR_BGR2HSV = 40"
definition MORPH_RECT :: int where "MORPH_RECT = 0"
definition MORPH_DILATE :: int where "MORPH_DILATE = 1"
definition RETR_TREE :: int where "RETR_TREE = 3"
definition CHAIN_APPROX_SIMPLE :: int where "CHAIN_APPROX_SIMPLE = 2"

text \<open>The literal \<^verbatim>\<open>1e-5\<close>, and the literal \<^verbatim>\<open>300\<close> converted to double for the comparison.\<close>

definition d1em5 :: double where
  "d1em5 = rnd Binary64 False (1 / 100000)"

definition min_area :: double where
  "min_area = fl_of_int Binary64 300"

text \<open>The centroid of a contour, \<^verbatim>\<open>static_cast<float>(m10 / (m00 + 1e-5))\<close> and the same with \<^verbatim>\<open>m01\<close>.\<close>

definition centroid :: "moments \<Rightarrow> point2f" where
  "centroid mu =
     \<lparr>px = fl_cvt Binary32 (fl_div Binary64 (m10 mu) (fl_add Binary64 (m00 mu) d1em5)),
      py = fl_cvt Binary32 (fl_div Binary64 (m01 mu) (fl_add Binary64 (m00 mu) d1em5))\<rparr>"

text \<open>
  The loop over the contours: an origin centroid is skipped, a large contour gives a point, any
  other is marked on the result image.
\<close>

fun contour_loop ::
  "'img cv_api \<Rightarrow> (contour \<times> moments) list \<Rightarrow> 'img \<times> point2f list \<Rightarrow> 'img \<times> point2f list" where
  "contour_loop cv [] (canvas, pts) = (canvas, pts)"
| "contour_loop cv ((c, mu) # cs) (canvas, pts) =
     (let p = centroid mu
      in if fl_eq (px p) zero \<and> fl_eq (py p) zero then contour_loop cv cs (canvas, pts)
         else if fl_lt min_area (cv_contourArea cv c) then contour_loop cv cs (canvas, pts @ [p])
         else contour_loop cv cs (cv_circle cv canvas p 1 [128, 128, 128] 10 8 0, pts))"

definition detect_points ::
  "'img cv_api \<Rightarrow> pt_camera_info \<Rightarrow> 'img pixels \<Rightarrow> mat \<Rightarrow> mat \<Rightarrow> point2f list \<Rightarrow>
   (pt_camera_info \<times> 'img pixels \<times> point2f list) res" where
  "detect_points cv info pix matInput matResult pts =
     bind_res (cv_cvtColor cv (pix (data matInput)) COLOR_BGR2HSV) (\<lambda>img_hsv.
       let hue_green = 60;
           img_mask = cv_inRange cv img_hsv [hue_green - 10, 100, 100] [hue_green + 10, 255, 255];
           kernel = cv_getStructuringElement cv MORPH_RECT (5, 5);
           img_hsv' = cv_morphologyEx cv img_mask MORPH_DILATE kernel (0, 0) 3;
           contours = cv_findContours cv img_mask RETR_TREE CHAIN_APPROX_SIMPLE;
           info' = info\<lparr>n_contours := int_size contours\<rparr>
       in if contours \<noteq> []
          then let mu = map (cv_moments cv) contours;
                   (canvas, pts') = contour_loop cv (zip contours mu) (pix (data matResult), pts)
               in Inr (info', pix(data matResult := canvas), pts')
          else Inr (info', pix, pts))"

definition clusturing_kmeans :: "'img cv_api \<Rightarrow> point2f list \<Rightarrow> unit res" where
  "clusturing_kmeans cv pts =
     (let clusterCount = 2 in bind_res (cv_kmeans cv pts clusterCount) (\<lambda>compactness. Inr ()))"

section \<open>What the contour loop computes\<close>

definition at_origin :: "point2f \<Rightarrow> bool" where
  "at_origin p \<longleftrightarrow> fl_eq (px p) zero \<and> fl_eq (py p) zero"

text \<open>The contours that become points, and those that are only marked.\<close>

definition accepted :: "'img cv_api \<Rightarrow> contour \<Rightarrow> bool" where
  "accepted cv c \<longleftrightarrow>
     \<not> at_origin (centroid (cv_moments cv c)) \<and> fl_lt min_area (cv_contourArea cv c)"

definition marked :: "'img cv_api \<Rightarrow> contour \<Rightarrow> bool" where
  "marked cv c \<longleftrightarrow>
     \<not> at_origin (centroid (cv_moments cv c)) \<and> \<not> fl_lt min_area (cv_contourArea cv c)"

definition blob_centres :: "'img cv_api \<Rightarrow> (contour \<Rightarrow> bool) \<Rightarrow> contour list \<Rightarrow> point2f list" where
  "blob_centres cv P cs = map (\<lambda>c. centroid (cv_moments cv c)) (filter P cs)"

lemma contour_loop_spec:
  "contour_loop cv (zip cs (map (cv_moments cv) cs)) (canvas, pts) =
     (foldl (\<lambda>im p. cv_circle cv im p 1 [128, 128, 128] 10 8 0) canvas (blob_centres cv (marked cv) cs),
      pts @ blob_centres cv (accepted cv) cs)"
  by (induction cs arbitrary: canvas pts)
    (simp_all add: blob_centres_def accepted_def marked_def at_origin_def Let_def)

text \<open>The contours the frame yields, and the specification of the whole detection step.\<close>

definition frame_contours :: "'img cv_api \<Rightarrow> 'img \<Rightarrow> contour list" where
  "frame_contours cv hsv =
     cv_findContours cv (cv_inRange cv hsv [50, 100, 100] [70, 255, 255]) RETR_TREE CHAIN_APPROX_SIMPLE"

lemma detect_points_spec:
  assumes "cv_cvtColor cv (pix (data inp)) COLOR_BGR2HSV = Inr hsv"
  shows "detect_points cv info pix inp out pts =
    Inr (info\<lparr>n_contours := int_size (frame_contours cv hsv)\<rparr>,
         pix(data out := foldl (\<lambda>im p. cv_circle cv im p 1 [128, 128, 128] 10 8 0) (pix (data out))
               (blob_centres cv (marked cv) (frame_contours cv hsv))),
         pts @ blob_centres cv (accepted cv) (frame_contours cv hsv))"
  using assms
  by (simp add: detect_points_def frame_contours_def [symmetric] Let_def contour_loop_spec)
    (simp add: blob_centres_def)

section \<open>Properties\<close>

text \<open>
  C6: Detection appends, in contour order, the centroids of the contours whose centroid is not the
  origin and whose area exceeds 300, marks the remaining non-origin centroids on the result
  image, changes no other image, and fails exactly when the colour conversion does.
\<close>

theorem detect_points_correct:
  "detect_points cv info pix inp out pts =
     (case cv_cvtColor cv (pix (data inp)) COLOR_BGR2HSV of
        Inl err \<Rightarrow> Inl err
      | Inr hsv \<Rightarrow>
          Inr (info\<lparr>n_contours := int_size (frame_contours cv hsv)\<rparr>,
               pix(data out := foldl (\<lambda>im p. cv_circle cv im p 1 [128, 128, 128] 10 8 0) (pix (data out))
                     (blob_centres cv (marked cv) (frame_contours cv hsv))),
               pts @ blob_centres cv (accepted cv) (frame_contours cv hsv)))"
  by (cases "cv_cvtColor cv (pix (data inp)) COLOR_BGR2HSV")
    (simp add: detect_points_def, simp add: detect_points_spec)

text \<open>
  The dilation has no effect: the dilated mask is written to an image that is not read again, so
  detection gives the same points, image and contour count whatever \<^verbatim>\<open>morphologyEx\<close> and the
  structuring element are.
\<close>

lemma dilation_unused:
  "detect_points (cv\<lparr>cv_morphologyEx := f, cv_getStructuringElement := g\<rparr>) info pix inp out pts =
     detect_points cv info pix inp out pts"
proof -
  have "contour_loop (cv\<lparr>cv_morphologyEx := f, cv_getStructuringElement := g\<rparr>) cs st = contour_loop cv cs st" for cs st
    by (induction cv cs st rule: contour_loop.induct) (simp_all add: Let_def)
  then show ?thesis by (simp add: detect_points_def Let_def cong: if_cong)
qed

end
