(* ===== verification/Tflite_Interpreter.thy ===== *)
theory Tflite_Interpreter
  imports Prelude
begin

text \<open>
  The inline part of the TensorFlow Lite interpreter the native library calls: the lists of
  input and output tensors of the primary subgraph and the typed access to tensor data
  (tensorflow/lite/interpreter.h, core/subgraph.h, c/c_api_types.h). A tensor is referred to by
  its index and its data is the bytes behind \<^verbatim>\<open>data.raw\<close>. What is compiled into
  libtensorflowlite.so is the record \<open>tfl_api\<close> of parameters.
\<close>

datatype TfLiteStatus = kTfLiteOk | kTfLiteError | kTfLiteDelegateError | kTfLiteApplicationError

datatype TfLiteType =
    kTfLiteNoType | kTfLiteFloat32 | kTfLiteInt32 | kTfLiteUInt8 | kTfLiteInt64 | kTfLiteString
  | kTfLiteBool | kTfLiteInt16 | kTfLiteComplex64 | kTfLiteInt8 | kTfLiteFloat16 | kTfLiteFloat64
  | kTfLiteComplex128 | kTfLiteUInt64 | kTfLiteResource | kTfLiteVariant | kTfLiteUInt32

type_synonym byte = "8 word"

text \<open>\<open>raw\<close> is None for a null data pointer.\<close>

record TfLiteTensor =
  ttype :: TfLiteType
  raw :: "byte list option"
  tname :: string

record subgraph =
  tensors :: "TfLiteTensor list"
  sg_inputs :: "int list"
  sg_outputs :: "int list"
  sg_variables :: "int list"
  sg_execution_plan :: "int list"

record interpreter =
  primary_subgraph :: subgraph
  other_subgraphs :: "subgraph list"

section \<open>Access to tensors\<close>

text \<open>A pointer to a tensor is its index; None is the null pointer.\<close>

definition subgraph_tensor :: "subgraph \<Rightarrow> int \<Rightarrow> nat option" where
  "subgraph_tensor g tensor_index =
     (if tensor_index < 0 \<or> tensor_index \<ge> int (length (tensors g)) then None
      else Some (nat tensor_index))"

definition inputs :: "interpreter \<Rightarrow> int list" where
  "inputs it = sg_inputs (primary_subgraph it)"

definition outputs :: "interpreter \<Rightarrow> int list" where
  "outputs it = sg_outputs (primary_subgraph it)"

definition tensor :: "interpreter \<Rightarrow> int \<Rightarrow> nat option" where
  "tensor it tensor_index = subgraph_tensor (primary_subgraph it) tensor_index"

text \<open>
  \<^verbatim>\<open>typed_tensor<T>\<close>: a null pointer when there is no such tensor, when its type is not the one
  asked for, or when it has no data.
\<close>

definition typed_tensor :: "TfLiteType \<Rightarrow> interpreter \<Rightarrow> int \<Rightarrow> nat option" where
  "typed_tensor T it tensor_index =
     (case tensor it tensor_index of
        Some i \<Rightarrow>
          (if ttype (tensors (primary_subgraph it) ! i) = T
           then (case raw (tensors (primary_subgraph it) ! i) of None \<Rightarrow> None | Some _ \<Rightarrow> Some i)
           else None)
      | None \<Rightarrow> None)"

text \<open>\<^verbatim>\<open>inputs()[index]\<close> and \<^verbatim>\<open>outputs()[index]\<close> are unchecked vector accesses.\<close>

definition typed_input_tensor :: "TfLiteType \<Rightarrow> interpreter \<Rightarrow> int \<Rightarrow> nat option res" where
  "typed_input_tensor T it index = bind_res (vec_at (inputs it) index) (\<lambda>i. Inr (typed_tensor T it i))"

definition typed_output_tensor :: "TfLiteType \<Rightarrow> interpreter \<Rightarrow> int \<Rightarrow> nat option res" where
  "typed_output_tensor T it index = bind_res (vec_at (outputs it) index) (\<lambda>i. Inr (typed_tensor T it i))"

definition tensor_data :: "interpreter \<Rightarrow> nat \<Rightarrow> byte list" where
  "tensor_data it i = (case raw (tensors (primary_subgraph it) ! i) of None \<Rightarrow> [] | Some bs \<Rightarrow> bs)"

definition set_tensor_data :: "interpreter \<Rightarrow> nat \<Rightarrow> byte list \<Rightarrow> interpreter" where
  "set_tensor_data it i bs =
     (let g = primary_subgraph it
      in it\<lparr>primary_subgraph := g\<lparr>tensors := (tensors g)[i := (tensors g ! i)\<lparr>raw := Some bs\<rparr>]\<rparr>\<rparr>)"

section \<open>The compiled runtime\<close>

record 'model tfl_api =
  tf_BuildFromBuffer :: "nat \<Rightarrow> int \<Rightarrow> 'model option"
  tf_InterpreterBuilder :: "'model \<Rightarrow> interpreter option"
  tf_AllocateTensors :: "interpreter \<Rightarrow> TfLiteStatus \<times> interpreter"
  tf_Invoke :: "interpreter \<Rightarrow> TfLiteStatus \<times> interpreter"

section \<open>Laws of the access functions\<close>

lemma typed_tensor_Some:
  "typed_tensor T it k = Some i \<longleftrightarrow>
     k = int i \<and> i < length (tensors (primary_subgraph it)) \<and>
     ttype (tensors (primary_subgraph it) ! i) = T \<and> raw (tensors (primary_subgraph it) ! i) \<noteq> None"
proof (cases "k < 0 \<or> k \<ge> int (length (tensors (primary_subgraph it)))")
  case True
  then have "typed_tensor T it k = None" by (simp add: typed_tensor_def tensor_def subgraph_tensor_def)
  then show ?thesis using True by auto
next
  case False
  then obtain j where j: "k = int j" by (metis nonneg_int_cases not_less)
  then show ?thesis using False
    by (cases "raw (tensors (primary_subgraph it) ! j)")
      (auto simp: typed_tensor_def tensor_def subgraph_tensor_def)
qed

lemma tensor_data_set [simp]:
  "i < length (tensors (primary_subgraph it)) \<Longrightarrow> tensor_data (set_tensor_data it i bs) i = bs"
  "j \<noteq> i \<Longrightarrow> tensor_data (set_tensor_data it i bs) j = tensor_data it j"
  by (simp_all add: tensor_data_def set_tensor_data_def Let_def)

lemma set_tensor_data_same:
  "typed_tensor T it k = Some i \<Longrightarrow> set_tensor_data it i (tensor_data it i) = it"
  by (auto simp: typed_tensor_Some set_tensor_data_def tensor_data_def Let_def list_update_same_conv)

lemma lists_set_tensor_data [simp]:
  "inputs (set_tensor_data it i bs) = inputs it" "outputs (set_tensor_data it i bs) = outputs it"
  by (simp_all add: inputs_def outputs_def set_tensor_data_def Let_def)

end
