(* ===== verification/Tflite_Obj.thy ===== *)
theory Tflite_Obj
  imports Camera_Info Detect_Obj Tflite_Interpreter Cv_Sample
begin

text \<open>
  \<^verbatim>\<open>tflite_obj\<close> (tflite_obj.h, tflite_obj.cpp): loading the model handed over by the Java side and
  running it on a frame.
\<close>

section \<open>State and checks\<close>

text \<open>The static \<^verbatim>\<open>unique_ptr\<close>s; None is a null pointer. The resolver has no state of its own.\<close>

record 'model tfl_state =
  g_model :: "'model option"
  g_interpreter :: "interpreter option"

definition static_tfl_state :: "'model tfl_state" where
  "static_tfl_state = \<lparr>g_model = None, g_interpreter = None\<rparr>"

definition TFLITE_MINIMAL_CHECK :: "bool \<Rightarrow> unit res" where
  "TFLITE_MINIMAL_CHECK c = (if \<not> c then Inl (ProcessExit 1) else Inr ())"

section \<open>Loading\<close>

definition tflite_load_model ::
  "'model tfl_api \<Rightarrow> pt_camera_info \<Rightarrow> 'model tfl_state \<Rightarrow> 'model tfl_state res" where
  "tflite_load_model tf info st =
     (let m = tf_BuildFromBuffer tf (tflite_model info) (to_size_t (tflite_model_size info));
          st1 = st\<lparr>g_model := m\<rparr>
      in bind_res (TFLITE_MINIMAL_CHECK (m \<noteq> None)) (\<lambda>_.
         let it = tf_InterpreterBuilder tf (the m);
             st2 = st1\<lparr>g_interpreter := it\<rparr>
         in bind_res (TFLITE_MINIMAL_CHECK (it \<noteq> None)) (\<lambda>_.
            let (status, it') = tf_AllocateTensors tf (the it)
            in bind_res (TFLITE_MINIMAL_CHECK (status = kTfLiteOk)) (\<lambda>_.
               Inr (st2\<lparr>g_interpreter := Some it'\<rparr>)))))"

section \<open>Running\<close>

text \<open>
  \<^verbatim>\<open>matInput.rows * matInput.cols * matInput.depth() * sizeof(float)\<close>, stored in an \<^verbatim>\<open>int\<close>: the
  first two products are signed, the last one is in \<^verbatim>\<open>size_t\<close>.
\<close>

definition input_data_size :: "mat \<Rightarrow> int res" where
  "input_data_size m =
     bind_res (checked_int (rows m * cols m)) (\<lambda>area.
     bind_res (checked_int (area * depth m)) (\<lambda>n. Inr (to_int (to_size_t (to_size_t n * 4)))))"

text \<open>\<^verbatim>\<open>memcpy(input, object, data_size)\<close> into the data of a tensor.\<close>

definition memcpy_tensor :: "interpreter \<Rightarrow> nat option \<Rightarrow> byte list \<Rightarrow> int \<Rightarrow> interpreter res" where
  "memcpy_tensor it dst src data_size =
     (let n = nat (to_size_t data_size)
      in if n = 0 then Inr it
         else case dst of
           None \<Rightarrow> Inl NullDeref
         | Some i \<Rightarrow>
             (if n \<le> length src \<and> n \<le> length (tensor_data it i)
              then Inr (set_tensor_data it i (take n src @ drop n (tensor_data it i)))
              else Inl OutOfBounds))"

text \<open>\<^verbatim>\<open>*output\<close>: the four bytes of the first \<^verbatim>\<open>float\<close>.\<close>

definition read_float :: "interpreter \<Rightarrow> nat option \<Rightarrow> byte list res" where
  "read_float it p =
     (case p of None \<Rightarrow> Inl NullDeref
      | Some i \<Rightarrow> if 4 \<le> length (tensor_data it i) then Inr (take 4 (tensor_data it i)) else Inl OutOfBounds)"

text \<open>The value logged at the end is returned beside the new state.\<close>

definition tflite_model_run ::
  "'img cv_api \<Rightarrow> 'model tfl_api \<Rightarrow> 'img pixels \<Rightarrow> mat \<Rightarrow> 'model tfl_state \<Rightarrow> ('model tfl_state \<times> byte list) res"
  where
  "tflite_model_run cv tf pix matInput st =
     (case g_interpreter st of
        None \<Rightarrow> Inl NullDeref
      | Some it \<Rightarrow>
          bind_res (typed_input_tensor kTfLiteFloat32 it 0) (\<lambda>input.
          let object = cv_raw cv (pix (data matInput))
          in bind_res (input_data_size matInput) (\<lambda>data_size.
             bind_res (memcpy_tensor it input object data_size) (\<lambda>it1.
             let (status, it2) = tf_Invoke tf it1
             in bind_res (TFLITE_MINIMAL_CHECK (status = kTfLiteOk)) (\<lambda>_.
                bind_res (vec_at (outputs it2) 0) (\<lambda>output_idx.
                bind_res (typed_output_tensor kTfLiteFloat32 it2 output_idx) (\<lambda>output.
                bind_res (read_float it2 output) (\<lambda>v.
                  Inr (st\<lparr>g_interpreter := Some it2\<rparr>, v)))))))))"

section \<open>Checks that end the process\<close>

lemma TFLITE_MINIMAL_CHECK_simps [simp]:
  "TFLITE_MINIMAL_CHECK c = Inr u \<longleftrightarrow> c" "TFLITE_MINIMAL_CHECK c = Inl e \<longleftrightarrow> \<not> c \<and> e = ProcessExit 1"
  by (auto simp: TFLITE_MINIMAL_CHECK_def)

section \<open>The frame never reaches the network\<close>

lemma input_data_size_8U:
  assumes "fits_int (rows m * cols m)" "depth m = 0"
  shows "input_data_size m = Inr 0"
  using assms by (simp add: input_data_size_def checked_int_def fits_int_def to_size_t_def)

lemma memcpy_nothing [simp]: "memcpy_tensor it dst src 0 = Inr it"
  by (simp add: memcpy_tensor_def to_size_t_def)

lemma depth_8UC4: "mtype m = CV_8UC4 \<Longrightarrow> depth m = 0"
  by (simp add: depth_def)

section \<open>The output index\<close>

lemma typed_output_error:
  "outputs it = k # ks \<Longrightarrow> typed_output_tensor T it k = Inl OutOfBounds \<longleftrightarrow> k < 0 \<or> k > int (length ks)"
  by (auto simp: typed_output_tensor_def vec_at_def bind_res_def)

section \<open>A concrete runtime\<close>

text \<open>One float tensor that is both input and output, and an \<^verbatim>\<open>Invoke\<close> that leaves it alone.\<close>

definition sample_interpreter :: interpreter where
  "sample_interpreter =
     \<lparr>primary_subgraph = \<lparr>tensors = [\<lparr>ttype = kTfLiteFloat32, raw = Some [0, 0, 128, 63], tname = ''t''\<rparr>],
        sg_inputs = [0], sg_outputs = [0], sg_variables = [], sg_execution_plan = []\<rparr>,
      other_subgraphs = []\<rparr>"

definition sample_tf :: "unit tfl_api" where
  "sample_tf =
     \<lparr>tf_BuildFromBuffer = (\<lambda>a n. if a = 0 then None else Some ()),
      tf_InterpreterBuilder = (\<lambda>_. Some sample_interpreter),
      tf_AllocateTensors = Pair kTfLiteOk, tf_Invoke = Pair kTfLiteOk\<rparr>"

section \<open>Properties\<close>

text \<open>
  C31: The network never sees the frame. For an 8-bit image \<^verbatim>\<open>depth()\<close> is 0, so the number of bytes
  copied into the input tensor is 0 and the run is the same for any two contents of the image,
  whatever the number of channels.
\<close>

theorem frame_never_copied:
  assumes "depth m = 0" "fits_int (rows m * cols m)"
  shows "tflite_model_run cv tf pixels1 m st = tflite_model_run cv tf pixels2 m st"
  by (simp add: tflite_model_run_def input_data_size_8U [OF assms(2,1)] Let_def split: option.split)

definition sample_mat :: mat where
  "sample_mat = \<lparr>rows = 480, cols = 640, mtype = CV_8UC4, data = 1\<rparr>"

definition sample_tfl_state :: "unit tfl_state" where
  "sample_tfl_state = \<lparr>g_model = Some (), g_interpreter = Some sample_interpreter\<rparr>"

lemma sample_mat_8U: "depth sample_mat = 0" "fits_int (rows sample_mat * cols sample_mat)"
  by (simp_all add: depth_def fits_int_def sample_mat_def)

theorem frame_never_copied_witness:
  "tflite_model_run sample_cv sample_tf (\<lambda>_. []) sample_mat sample_tfl_state =
   tflite_model_run sample_cv sample_tf (\<lambda>_. [[(1, 2)]]) sample_mat sample_tfl_state"
  by (rule frame_never_copied [OF sample_mat_8U])

text \<open>
  C40: After a run the library uses the index of the first output tensor as a position in the list of
  outputs. When that index is not smaller than the number of outputs, as in any model whose
  input tensors come first and that has one output, the access is out of bounds: with a loaded
  interpreter, a run on an 8-bit frame whose pixels can be counted in an \<^verbatim>\<open>int\<close>, whose input tensor exists and whose
  \<^verbatim>\<open>Invoke\<close> succeeds always ends there.
\<close>

theorem output_index_misused:
  assumes "g_interpreter st = Some it" "typed_input_tensor kTfLiteFloat32 it 0 = Inr p"
    and "depth m = 0" "fits_int (rows m * cols m)"
    and "tf_Invoke tf it = (kTfLiteOk, it')" "outputs it' = k # ks" "k > int (length ks)"
  shows "tflite_model_run cv tf pixels m st = Inl OutOfBounds"
proof -
  have "typed_output_tensor kTfLiteFloat32 it' k = Inl OutOfBounds"
    using typed_output_error [OF assms(6)] assms(7) by simp
  then show ?thesis using assms by (simp add: tflite_model_run_def input_data_size_8U TFLITE_MINIMAL_CHECK_def Let_def)
qed

definition two_tensor_interpreter :: interpreter where
  "two_tensor_interpreter =
     \<lparr>primary_subgraph =
        \<lparr>tensors = [\<lparr>ttype = kTfLiteFloat32, raw = Some [0, 0, 0, 0], tname = ''input''\<rparr>,
                    \<lparr>ttype = kTfLiteFloat32, raw = Some [0, 0, 128, 63], tname = ''output''\<rparr>],
         sg_inputs = [0], sg_outputs = [1], sg_variables = [], sg_execution_plan = []\<rparr>,
      other_subgraphs = []\<rparr>"

theorem output_index_misused_witness:
  "tflite_model_run sample_cv sample_tf (\<lambda>_. []) sample_mat
     \<lparr>g_model = Some (), g_interpreter = Some two_tensor_interpreter\<rparr> = Inl OutOfBounds"
  by (rule output_index_misused [where it = two_tensor_interpreter and it' = two_tensor_interpreter and p = "Some 0" and k = 1 and ks = "[]"])
    (simp_all add: sample_mat_8U two_tensor_interpreter_def typed_input_tensor_def inputs_def outputs_def
      typed_tensor_Some sample_tf_def)

end
