(* ===== verification/Native_Lib.thy ===== *)
theory Native_Lib
  imports Point_Tracker Detect_Obj Tflite_Obj
begin

text \<open>
  native-lib.cpp: the objects with static storage and the six functions the Java activity calls.
  Every function takes the whole native state and returns the new one, or the error the
  process dies with. Java arrays are lists that the call returns changed.
\<close>

section \<open>State\<close>

record ('img, 'model) native_state =
  nheap :: store
  pix :: "'img pixels"
  jmats :: "nat \<rightharpoonup> mat"
  global_gR :: mat
  global_gt :: mat
  global_gr :: mat
  objLeft :: point_obj
  info :: pt_camera_info
  tracker_vars :: tracker
  tfl :: "'model tfl_state"
  new_arrays :: nat
  pinned_arrays :: nat

text \<open>
  The state when the library is loaded. \<open>pix\<close> and \<open>jmats\<close> are the pixel buffers and the
  \<^verbatim>\<open>Mat\<close> objects the Java side owns and passes by address.
\<close>

definition library_loaded :: "'img pixels \<Rightarrow> (nat \<rightharpoonup> mat) \<Rightarrow> ('img, 'model) native_state" where
  "library_loaded px0 jm0 =
     \<lparr>nheap = init_store, pix = px0, jmats = jm0, global_gR = empty_mat, global_gt = empty_mat,
      global_gr = empty_mat, objLeft = static_point_obj, info = static_camera_info,
      tracker_vars = static_tracker, tfl = static_tfl_state, new_arrays = 0, pinned_arrays = 0\<rparr>"

section \<open>Java arrays\<close>

text \<open>
  \<^verbatim>\<open>SetFloatArrayRegion(array, 0, len, buf)\<close> copies, or raises ArrayIndexOutOfBoundsException (the
  flag) when the region does not fit.
\<close>

definition SetFloatArrayRegion :: "float32 list \<Rightarrow> float32 list \<Rightarrow> float32 list \<times> bool" where
  "SetFloatArrayRegion arr buf =
     (if length buf \<le> length arr then (buf @ drop (length buf) arr, False) else (arr, True))"

fun read_all :: "(int \<Rightarrow> double res) \<Rightarrow> int list \<Rightarrow> double list res" where
  "read_all f [] = Inr []"
| "read_all f (i # is) = bind_res (f i) (\<lambda>v. bind_res (read_all f is) (\<lambda>vs. Inr (v # vs)))"

section \<open>The calls\<close>

definition InitJniWithByteBuffer ::
  "'model tfl_api \<Rightarrow> addr \<Rightarrow> int \<Rightarrow> ('img, 'model) native_state \<Rightarrow> ('img, 'model) native_state res" where
  "InitJniWithByteBuffer tf address capacity s =
     (let info1 = (info s)\<lparr>tflite_model := address, tflite_model_size := to_int capacity\<rparr>
      in bind_res (tflite_load_model tf info1 (tfl s)) (\<lambda>st. Inr (s\<lparr>info := info1, tfl := st\<rparr>)))"

definition InitMatrix ::
  "'img cv_api \<Rightarrow> ('img, 'model) native_state \<Rightarrow> ('img, 'model) native_state" where
  "InitMatrix cv s =
     (let (h1, R) = assign_eye cv (nheap s) (global_gR s);
          (h2, t) = assign_zeros cv h1 (global_gt s);
          (h3, r) = assign_zeros cv h2 (global_gr s);
          (h4, obj) = init cv h3 (objLeft s)
      in s\<lparr>nheap := h4, global_gR := R, global_gt := t, global_gr := r, objLeft := obj\<rparr>)"

definition GetRvecTvec ::
  "('img, 'model) native_state \<Rightarrow> float32 list \<Rightarrow> float32 list \<Rightarrow> (float32 list \<times> float32 list \<times> bool) res"
  where
  "GetRvecTvec s rvec tvec =
     bind_res (read_all (mat_at (nheap s) (global_gr s) 0) [0, 1, 2]) (\<lambda>fr.
     bind_res (read_all (mat_at (nheap s) (global_gt s) 0) [0, 1, 2]) (\<lambda>ft.
       let (rvec', x1) = SetFloatArrayRegion rvec (map (fl_cvt Binary32) fr);
           (tvec', x2) = SetFloatArrayRegion tvec (map (fl_cvt Binary32) ft)
       in Inr (rvec', tvec', x1 \<or> x2)))"

definition NativeInfo ::
  "('img, 'model) native_state \<Rightarrow> float32 list \<Rightarrow> (float32 list \<times> bool) res" where
  "NativeInfo s arr =
     bind_res (read_all (deref (nheap s) (rv (info s))) [0, 1, 2, 3, 4, 5, 6, 7, 8]) (\<lambda>vr.
     bind_res (read_all (deref (nheap s) (tv (info s))) [0, 1, 2]) (\<lambda>vt.
       let valuesf = map (fl_cvt Binary32) vr @ map (fl_cvt Binary32) vt @
             [fl_of_int Binary32 (n_contours (info s)), fl_of_int Binary32 (start_tracking (info s)),
              fl_of_int Binary32 (n_solutions (info s)), zero]
       in Inr (SetFloatArrayRegion arr valuesf)))"

text \<open>The camera settings of a frame, from the four integers of \<^verbatim>\<open>cInfo\<close>.\<close>

definition set_camera_info ::
  "'img cv_api \<Rightarrow> int list \<Rightarrow> ('img, 'model) native_state \<Rightarrow> ('img, 'model) native_state res" where
  "set_camera_info cv cfArray s =
     (let (h1, R) = assign_eye cv (nheap s) (cam_R (info s));
          (h2, r) = assign_zeros cv h1 (cam_rvec (info s));
          (h3, t) = assign_zeros cv h2 (cam_tvec (info s));
          info1 = (info s)\<lparr>cam_R := R, cam_rvec := r, cam_tvec := t, rv := mat_ptr R 0, tv := mat_ptr t 0\<rparr>
      in bind_res (vec_at cfArray 2) (\<lambda>c2.
         bind_res (vec_at cfArray 1) (\<lambda>c1.
         bind_res (vec_at cfArray 0) (\<lambda>c0.
         bind_res (vec_at cfArray 3) (\<lambda>c3.
           Inr (s\<lparr>nheap := h3, info := info1\<lparr>fov := fl_of_int Binary32 c2, res_x := c1, res_y := c0,
                    touch_status := c3\<rparr>\<rparr>))))))"

text \<open>
  The block under \<^verbatim>\<open>if (points.size() != 0)\<close>: mark the points, hand them to the tracked object and
  estimate its pose; a touch also runs the network. The camera struct is passed by value, so
  the copy the estimator returns is dropped.
\<close>

definition track_points ::
  "'img cv_api \<Rightarrow> 'model tfl_api \<Rightarrow> mat \<Rightarrow> mat \<Rightarrow> point2f list \<Rightarrow> ('img, 'model) native_state \<Rightarrow>
   (('img, 'model) native_state \<times> bool) res" where
  "track_points cv tf matInput matResult pts s =
     (let obj = foldl push_back (clearPoints (objLeft s)) pts;
          canvas0 = foldl (\<lambda>im p. cv_circle cv im p 5 [255, 255, 255] 10 8 0) (pix s (data matResult)) pts;
          e0 = \<lparr>heap = nheap s, trk = tracker_vars s, canvas = canvas0, Rot = gR obj, rvec_out = gr obj,
                tvec_out = gt obj, cam = info s, new_live = new_arrays s\<rparr>
      in bind_res (estimate_pose cv (points obj) e0) (\<lambda>(e1, bResL).
         let s1 = s\<lparr>nheap := heap e1, tracker_vars := trk e1, pix := (pix s)(data matResult := canvas e1),
                    objLeft := obj\<lparr>gR := Rot e1, gr := rvec_out e1, gt := tvec_out e1\<rparr>,
                    new_arrays := new_live e1\<rparr>
         in if touch_status (info s1) = 0
            then bind_res (tflite_model_run cv tf (pix s1) matInput (tfl s1)) (\<lambda>(st, v).
                   Inr (s1\<lparr>tfl := st\<rparr>, bResL))
            else Inr (s1, bResL)))"

text \<open>The sixteen floats of the OpenGL model matrix.\<close>

definition pose_values :: "('img, 'model) native_state \<Rightarrow> float32 list res" where
  "pose_values s =
     (let oR = gR (objLeft s); ot = gt (objLeft s)
      in bind_res (read_all (deref (nheap s) (mat_ptr oR 0)) [0, 1, 2]) (\<lambda>l0.
         bind_res (read_all (deref (nheap s) (mat_ptr oR 1)) [0, 1, 2]) (\<lambda>l1.
         bind_res (read_all (deref (nheap s) (mat_ptr oR 2)) [0, 1, 2]) (\<lambda>l2.
         bind_res (read_all (deref (nheap s) (mat_ptr ot 0)) [0, 1, 2]) (\<lambda>t1.
           Inr (map (fl_cvt Binary32) l0 @ [zero] @ map (fl_cvt Binary32) l1 @ [zero] @
                map (fl_cvt Binary32) l2 @ [zero] @ map (fl_cvt Binary32) t1 @ [fone]))))))"

definition ConvertRGBtoGray ::
  "'img cv_api \<Rightarrow> 'model tfl_api \<Rightarrow> nat \<Rightarrow> nat \<Rightarrow> float32 list \<Rightarrow> int list \<Rightarrow> ('img, 'model) native_state \<Rightarrow>
   (('img, 'model) native_state \<times> float32 list \<times> bool \<times> bool) res" where
  "ConvertRGBtoGray cv tf mat_addr_input mat_addr_result rotation cInfo s =
     (case (jmats s mat_addr_input, jmats s mat_addr_result) of
        (Some matInput, Some _) \<Rightarrow>
          let matResult = matInput;
              s1 = s\<lparr>jmats := (jmats s)(mat_addr_result \<mapsto> matResult), pinned_arrays := pinned_arrays s + 1\<rparr>
          in bind_res (set_camera_info cv cInfo s1) (\<lambda>s2.
             bind_res (detect_points cv (info s2) (pix s2) matInput matResult []) (\<lambda>(info_copy, px, pts).
             let s3 = s2\<lparr>pix := px\<rparr>
             in bind_res (if pts \<noteq> [] then track_points cv tf matInput matResult pts s3 else Inr (s3, False))
                  (\<lambda>(s4, bResL).
                bind_res (pose_values s4) (\<lambda>valuesf.
                let (rotation', thrown) = SetFloatArrayRegion rotation valuesf
                in Inr (s4, rotation', thrown, bResL)))))
      | _ \<Rightarrow> Inl NullDeref)"

text \<open>
  \<^verbatim>\<open>AssetsfromJAVA\<close>: the loop over the asset directory. The asset manager of the NDK is a parameter:
  the handle \<^verbatim>\<open>AAssetManager_openDir\<close> gives, the function from a directory handle to the next name and the
  moved handle, and the one from a name to the handle of the opened asset; None stands for \<^verbatim>\<open>NULL\<close>. The source
  tests neither handle, so the functions that take one are called with \<^verbatim>\<open>NULL\<close> and dereference it. The result
  is the trace of calls on assets.
\<close>

record 'd asset_manager =
  AAssetManager_openDir :: "'d option"
  AAssetDir_getNextFileName :: "'d \<Rightarrow> string option \<times> 'd"
  AAssetManager_open :: "string \<Rightarrow> nat option"

datatype asset_call = Open_asset string | Log_asset string | Close_asset nat | Close_dir

partial_function (option) asset_loop ::
  "'d asset_manager \<Rightarrow> 'd \<Rightarrow> asset_call list \<Rightarrow> asset_call list res option" where
  "asset_loop mgr d trace =
     (case AAssetDir_getNextFileName mgr d of
        (None, d') \<Rightarrow> Some (Inr (trace @ [Close_dir]))
      | (Some filename, d') \<Rightarrow>
          (case AAssetManager_open mgr filename of
             None \<Rightarrow> Some (Inl NullDeref)
           | Some asset \<Rightarrow>
               asset_loop mgr d' (trace @ [Open_asset filename, Log_asset filename, Close_asset asset])))"

definition AssetsfromJAVA :: "'d asset_manager \<Rightarrow> asset_call list res option" where
  "AssetsfromJAVA mgr =
     (case AAssetManager_openDir mgr of
        None \<Rightarrow> Some (Inl NullDeref)
      | Some assetDir \<Rightarrow> asset_loop mgr assetDir [])"

section \<open>The asset loop\<close>

text \<open>A directory handle over a list of names, as the NDK documents it: each name once, then \<^verbatim>\<open>NULL\<close>.\<close>

inductive lists_names :: "'d asset_manager \<Rightarrow> 'd \<Rightarrow> string list \<Rightarrow> bool" for mgr where
  no_more: "AAssetDir_getNextFileName mgr d = (None, d') \<Longrightarrow> lists_names mgr d []"
| one_more: "AAssetDir_getNextFileName mgr d = (Some f, d') \<Longrightarrow> lists_names mgr d' fs \<Longrightarrow> lists_names mgr d (f # fs)"

text \<open>
  On a finite directory the loop returns when every asset opens, each opened, logged and closed
  in turn, and crashes at the first that does not.
\<close>

lemma asset_loop_trace:
  "lists_names mgr d fs \<Longrightarrow> asset_loop mgr d tr = Some
     (if \<forall>f \<in> set fs. AAssetManager_open mgr f \<noteq> None
      then Inr (tr @ concat (map (\<lambda>f. [Open_asset f, Log_asset f, Close_asset (the (AAssetManager_open mgr f))]) fs) @ [Close_dir])
      else Inl NullDeref)"
proof (induction arbitrary: tr rule: lists_names.induct)
  case (one_more d f d' fs)
  then show ?case by (cases "AAssetManager_open mgr f") (simp_all add: asset_loop.simps)
qed (simp add: asset_loop.simps)

end
