(* ===== verification/Native_Inv.thy ===== *)
theory Native_Inv
  imports Native_Lib
begin

text \<open>
  The invariant of the native state and how each call keeps it. The state is in one of three phases:
  \<open>loaded\<close>, before \<^verbatim>\<open>InitMatrix\<close>, when all matrices with static storage are empty; \<open>ready\<close>, when those
  of the pose are live, have their shapes and never share a buffer; and \<open>running\<close>, after the first
  frame, when those of the camera struct are too and its raw pointers point into them. The counters the
  library means to report never move.
\<close>

section \<open>Families of matrices that do not overlap\<close>

definition owned :: "store \<Rightarrow> (mat \<times> int \<times> int) list \<Rightarrow> bool" where
  "owned h L \<longleftrightarrow> (\<forall>(m, r, c) \<in> set L. \<exists>vs. holds h m r c vs) \<and> distinct (map (data \<circ> fst) L)"

lemma owned_Nil [simp]: "owned h []"
  by (simp add: owned_def)

lemma owned_Cons:
  "owned h ((m, r, c) # L) \<longleftrightarrow>
     (\<exists>vs. holds h m r c vs) \<and> data m \<notin> (data \<circ> fst) ` set L \<and> owned h L"
  by (auto simp: owned_def)

lemma owned_below: "owned h L \<Longrightarrow> (m, r, c) \<in> set L \<Longrightarrow> data m < brk h"
  by (auto simp: owned_def dest: holds_bounds)

lemma owned_distinct:
  assumes "owned h L" "(m, r, c) \<in> set L" "(n, r', c') \<in> set L" "(m, r, c) \<noteq> (n, r', c')"
  shows "data m \<noteq> data n"
  using assms inj_onD [of "data \<circ> fst" "set L" "(m, r, c)" "(n, r', c')"]
  by (auto simp: owned_def distinct_map)

text \<open>Assigning to a member of the family writes in place and leaves the others alone.\<close>

lemma owned_assign:
  assumes "create_ok cv" "store_ok h" "owned h L" "(m, r, c) \<in> set L" "length vs = nat (r * c)"
    and "out_array cv h m r c CV_64FC1 vs = (h', m')"
  shows "store_ok h'" "m' = m" "owned h' L" "holds h' m r c vs" "brk h' = brk h"
    "\<And>n s d ws. holds h n s d ws \<Longrightarrow> data n \<noteq> data m \<Longrightarrow> holds h' n s d ws"
proof -
  obtain us where m: "holds h m r c us" using assms(3,4) by (auto simp: owned_def)
  note s = reuse_holds [OF assms(1,2) m assms(5,6)]
  show "store_ok h'" "m' = m" "holds h' m r c vs" "brk h' = brk h" using s by simp_all
  show f: "holds h' n s d ws" if "holds h n s d ws" "data n \<noteq> data m" for n s d ws
    by (rule holds_frame [OF s(2) that])
  have "\<exists>ws. holds h' n s d ws" if n: "(n, s, d) \<in> set L" for n s d
  proof (cases "(m, r, c) = (n, s, d)")
    case False
    obtain ws where "holds h n s d ws" using assms(3) n by (auto simp: owned_def)
    then show ?thesis using f owned_distinct [OF assms(3,4) n False] by metis
  qed (use s(3) in auto)
  then show "owned h' L" using assms(3) by (auto simp: owned_def)
qed

text \<open>A header without a buffer joins the family on its first assignment.\<close>

lemma owned_alloc:
  assumes "create_ok cv" "store_ok h" "owned h L" "length vs = nat (r * c)"
    and "out_array cv h empty_mat r c CV_64FC1 vs = (h', m')"
  shows "store_ok h'" "owned h' ((m', r, c) # L)" "holds h' m' r c vs"
    "\<And>n s d ws. holds h n s d ws \<Longrightarrow> holds h' n s d ws"
proof -
  note s = new_array_holds [OF assms(1,2,4,5)]
  show "store_ok h'" "holds h' m' r c vs" using s by simp_all
  show f: "holds h' n s d ws" if "holds h n s d ws" for n s d ws
    by (rule holds_frame_null [OF s(2) that])
  have "data m' \<notin> (data \<circ> fst) ` set L" using owned_below [OF assms(3)] s(4) by fastforce
  then show "owned h' ((m', r, c) # L)" using s(3) f assms(3) by (fastforce simp: owned_def)
qed

lemma lengths3 [simp]: "length eye3 = 9" "length zeros3 = 3"
  by (simp_all add: eye3_def zeros3_def)

section \<open>Reading back\<close>

lemma deref_holds:
  assumes "holds h m r c vs" "0 \<le> c * y + i" "c * y + i < r * c"
  shows "deref h (mat_ptr m y) i = Inr (vs ! nat (c * y + i))"
proof -
  have "cells h (data m) = Some vs" "length vs = nat (r * c)" "data m \<noteq> nullptr" "cols m = c"
    using assms(1) by (auto simp: holds_def live_def has_shape_def mat_values_def)
  then show ?thesis using assms(2,3) by (simp add: deref_def mat_ptr_def vec_at_def)
qed

lemma read_vec3:
  assumes "holds h m 3 1 [a, b, c]"
  shows "read_all (deref h (mat_ptr m 0)) [0, 1, 2] = Inr [a, b, c]"
  using deref_holds [OF assms, of 0] by simp

lemma read_row3:
  assumes "holds h m 3 3 vs" "0 \<le> y" "y \<le> 2"
  shows "read_all (deref h (mat_ptr m y)) [0, 1, 2] =
    Inr [vs ! nat (3 * y), vs ! nat (3 * y + 1), vs ! nat (3 * y + 2)]"
  using deref_holds [OF assms(1), of y] assms(2,3) by simp

lemma list9: "length vs = 9 \<Longrightarrow> vs = [vs ! 0, vs ! 1, vs ! 2, vs ! 3, vs ! 4, vs ! 5, vs ! 6, vs ! 7, vs ! 8]"
  by (auto simp: list_eq_iff_nth_eq less_Suc_eq numeral_eq_Suc)

lemma holds_length: "holds h m r c vs \<Longrightarrow> length vs = nat (r * c)"
  using length_mat_values by (auto simp: holds_def has_shape_def)

lemma read_mat9:
  assumes "holds h m 3 3 vs"
  shows "read_all (deref h (mat_ptr m 0)) [0, 1, 2, 3, 4, 5, 6, 7, 8] = Inr vs"
  using deref_holds [OF assms, of 0] list9 [of vs] holds_length [OF assms] by simp

lemma SetFloatArrayRegion_fits:
  "length buf = length arr \<Longrightarrow> SetFloatArrayRegion arr buf = (buf, False)"
  by (simp add: SetFloatArrayRegion_def)

section \<open>The invariant\<close>

definition pose_mats :: "('img, 'model) native_state \<Rightarrow> (mat \<times> int \<times> int) list" where
  "pose_mats s = [(global_gR s, 3, 3), (global_gt s, 3, 1), (global_gr s, 3, 1),
     (gR (objLeft s), 3, 3), (gt (objLeft s), 3, 1), (gr (objLeft s), 3, 1)]"

definition cam_mats :: "('img, 'model) native_state \<Rightarrow> (mat \<times> int \<times> int) list" where
  "cam_mats s = [(cam_R (info s), 3, 3), (cam_rvec (info s), 3, 1), (cam_tvec (info s), 3, 1)]"

text \<open>The globals \<^verbatim>\<open>gR\<close>, \<^verbatim>\<open>gt\<close> and \<^verbatim>\<open>gr\<close> of native-lib.cpp still hold what \<^verbatim>\<open>InitMatrix\<close> put there.\<close>

definition globals_reset :: "('img, 'model) native_state \<Rightarrow> bool" where
  "globals_reset s \<longleftrightarrow> holds (nheap s) (global_gR s) 3 3 eye3 \<and> holds (nheap s) (global_gt s) 3 1 zeros3 \<and> holds (nheap s) (global_gr s) 3 1 zeros3"

text \<open>The identity pose \<^verbatim>\<open>InitMatrix\<close> sets up.\<close>

definition pose_reset :: "('img, 'model) native_state \<Rightarrow> bool" where
  "pose_reset s \<longleftrightarrow> holds (nheap s) (global_gR s) 3 3 eye3 \<and> holds (nheap s) (gR (objLeft s)) 3 3 eye3 \<and>
     holds (nheap s) (gt (objLeft s)) 3 1 zeros3 \<and> holds (nheap s) (gr (objLeft s)) 3 1 zeros3"

definition cam_unset :: "('img, 'model) native_state \<Rightarrow> bool" where
  "cam_unset s \<longleftrightarrow> cam_R (info s) = empty_mat \<and> cam_rvec (info s) = empty_mat \<and>
     cam_tvec (info s) = empty_mat \<and> rv (info s) = null_dptr \<and> tv (info s) = null_dptr"

definition pose_unset :: "('img, 'model) native_state \<Rightarrow> bool" where
  "pose_unset s \<longleftrightarrow> global_gR s = empty_mat \<and> global_gt s = empty_mat \<and> global_gr s = empty_mat \<and>
     gR (objLeft s) = empty_mat \<and> gt (objLeft s) = empty_mat \<and> gr (objLeft s) = empty_mat"

definition cam_set :: "('img, 'model) native_state \<Rightarrow> bool" where
  "cam_set s \<longleftrightarrow> rv (info s) = mat_ptr (cam_R (info s)) 0 \<and> tv (info s) = mat_ptr (cam_tvec (info s)) 0 \<and>
     holds (nheap s) (cam_tvec (info s)) 3 1 zeros3"

definition loaded :: "('img, 'model) native_state \<Rightarrow> bool" where
  "loaded s \<longleftrightarrow> pose_unset s \<and> cam_unset s \<and> model_points (tracker_vars s) = []"

definition ready :: "('img, 'model) native_state \<Rightarrow> bool" where
  "ready s \<longleftrightarrow> owned (nheap s) (pose_mats s) \<and> globals_reset s \<and> cam_unset s"

definition running :: "('img, 'model) native_state \<Rightarrow> bool" where
  "running s \<longleftrightarrow> owned (nheap s) (cam_mats s @ pose_mats s) \<and> globals_reset s \<and> cam_set s"

text \<open>The results every function writes to its own copy of the struct.\<close>

definition counters_unmoved :: "('img, 'model) native_state \<Rightarrow> bool" where
  "counters_unmoved s \<longleftrightarrow> n_contours (info s) = 0 \<and> n_solutions (info s) = 0 \<and> start_tracking (info s) = 0"

definition native_inv :: "('img, 'model) native_state \<Rightarrow> bool" where
  "native_inv s \<longleftrightarrow> store_ok (nheap s) \<and> tracker_ok (tracker_vars s) \<and>
     length (model_points (tracker_vars s)) < 2 ^ 31 \<and> counters_unmoved s \<and>
     (loaded s \<or> ready s \<or> running s)"

lemmas inv_defs = native_inv_def counters_unmoved_def loaded_def ready_def running_def cam_set_def
  cam_unset_def pose_unset_def globals_reset_def

lemma library_loaded_inv: "native_inv (library_loaded px0 jm0)" "loaded (library_loaded px0 jm0)"
  by (simp_all add: inv_defs library_loaded_def static_point_obj_def static_camera_info_def
      static_tracker_def tracker_ok_def)

text \<open>The invariant looks at the struct's matrices and counters only, not at the rest of it.\<close>

lemma load_model_frame:
  assumes "InitJniWithByteBuffer tf a n s = Inr s'"
  shows "nheap s' = nheap s" "tracker_vars s' = tracker_vars s" "objLeft s' = objLeft s"
    "global_gR s' = global_gR s" "global_gt s' = global_gt s" "global_gr s' = global_gr s"
    "info s' = (info s)\<lparr>tflite_model := a, tflite_model_size := to_int n\<rparr>"
  using assms by (auto simp: InitJniWithByteBuffer_def Let_def)

lemma load_model_inv:
  "InitJniWithByteBuffer tf a n s = Inr s' \<Longrightarrow> native_inv s \<Longrightarrow> native_inv s'"
  using load_model_frame [of tf a n s s'] by (simp add: inv_defs pose_mats_def cam_mats_def)

section \<open>InitMatrix\<close>

text \<open>First call: six matrices are allocated.\<close>

lemma InitMatrix_first:
  assumes cv: "create_ok cv" and h: "store_ok (nheap s)" and l: "loaded s"
  shows "store_ok (nheap (InitMatrix cv s))" "ready (InitMatrix cv s)" "pose_reset (InitMatrix cv s)"
proof -
  have e: "global_gR s = empty_mat" "global_gt s = empty_mat" "global_gr s = empty_mat"
    "gR (objLeft s) = empty_mat" "gt (objLeft s) = empty_mat" "gr (objLeft s) = empty_mat"
    using l by (simp_all add: loaded_def pose_unset_def)
  obtain h1 m1 where a1: "assign_eye cv (nheap s) empty_mat = (h1, m1)" by fastforce
  obtain h2 m2 where a2: "assign_zeros cv h1 empty_mat = (h2, m2)" by fastforce
  obtain h3 m3 where a3: "assign_zeros cv h2 empty_mat = (h3, m3)" by fastforce
  obtain h4 m4 where a4: "assign_eye cv h3 empty_mat = (h4, m4)" by fastforce
  obtain h5 m5 where a5: "assign_zeros cv h4 empty_mat = (h5, m5)" by fastforce
  obtain h6 m6 where a6: "assign_zeros cv h5 empty_mat = (h6, m6)" by fastforce
  have l9: "length eye3 = nat (3 * 3)" "length zeros3 = nat (3 * 1)" by simp_all
  note s1 = owned_alloc [OF cv h owned_Nil l9(1) a1 [unfolded assign_eye_def]]
  note s2 = owned_alloc [OF cv s1(1,2) l9(2) a2 [unfolded assign_zeros_def]]
  note s3 = owned_alloc [OF cv s2(1,2) l9(2) a3 [unfolded assign_zeros_def]]
  note s4 = owned_alloc [OF cv s3(1,2) l9(1) a4 [unfolded assign_eye_def]]
  note s5 = owned_alloc [OF cv s4(1,2) l9(2) a5 [unfolded assign_zeros_def]]
  note s6 = owned_alloc [OF cv s5(1,2) l9(2) a6 [unfolded assign_zeros_def]]
  have r: "InitMatrix cv s = s\<lparr>nheap := h6, global_gR := m1, global_gt := m2, global_gr := m3,
      objLeft := (objLeft s)\<lparr>gR := m4, gt := m5, gr := m6\<rparr>\<rparr>"
    by (simp add: InitMatrix_def init_def e a1 a2 a3 a4 a5 a6)
  have "holds h6 m1 3 3 eye3" "holds h6 m2 3 1 zeros3" "holds h6 m3 3 1 zeros3"
    using s1(3) s2(3,4) s3(3,4) s4(4) s5(4) s6(4) by blast+
  moreover have "owned h6 [(m1, 3, 3), (m2, 3, 1), (m3, 3, 1), (m4, 3, 3), (m5, 3, 1), (m6, 3, 1)]"
    using s6(2) by (auto simp: owned_Cons)
  ultimately show "ready (InitMatrix cv s)" "store_ok (nheap (InitMatrix cv s))"
    using l s6(1) by (simp_all add: r inv_defs pose_mats_def)
  have "holds h6 m1 3 3 eye3" "holds h6 m4 3 3 eye3" "holds h6 m5 3 1 zeros3" "holds h6 m6 3 1 zeros3"
    using s1(3) s2(4) s3(4) s4(3,4) s5(3,4) s6(3,4) by blast+
  then show "pose_reset (InitMatrix cv s)" by (simp add: r pose_reset_def)
qed

text \<open>A later call overwrites the same six buffers and nothing else.\<close>

lemma InitMatrix_again:
  assumes cv: "create_ok cv" and h: "store_ok (nheap s)" and o: "owned (nheap s) (X @ pose_mats s)"
  obtains h' where "InitMatrix cv s = s\<lparr>nheap := h'\<rparr>" "store_ok h'" "owned h' (X @ pose_mats s)"
    "pose_reset (s\<lparr>nheap := h'\<rparr>)" "holds h' (global_gt s) 3 1 zeros3" "holds h' (global_gr s) 3 1 zeros3"
    "\<And>n r c vs. holds (nheap s) n r c vs \<Longrightarrow> data n \<notin> set (map (data \<circ> fst) (pose_mats s)) \<Longrightarrow> holds h' n r c vs"
proof -
  let ?L = "X @ pose_mats s"
  have mem: "(global_gR s, 3, 3) \<in> set ?L" "(global_gt s, 3, 1) \<in> set ?L" "(global_gr s, 3, 1) \<in> set ?L"
    "(gR (objLeft s), 3, 3) \<in> set ?L" "(gt (objLeft s), 3, 1) \<in> set ?L" "(gr (objLeft s), 3, 1) \<in> set ?L"
    by (simp_all add: pose_mats_def)
  have d: "distinct (map (data \<circ> fst) (pose_mats s))" using o by (simp add: owned_def)
  obtain h1 m1 where a1: "assign_eye cv (nheap s) (global_gR s) = (h1, m1)" by fastforce
  obtain h2 m2 where a2: "assign_zeros cv h1 (global_gt s) = (h2, m2)" by fastforce
  obtain h3 m3 where a3: "assign_zeros cv h2 (global_gr s) = (h3, m3)" by fastforce
  obtain h4 m4 where a4: "assign_eye cv h3 (gR (objLeft s)) = (h4, m4)" by fastforce
  obtain h5 m5 where a5: "assign_zeros cv h4 (gt (objLeft s)) = (h5, m5)" by fastforce
  obtain h6 m6 where a6: "assign_zeros cv h5 (gr (objLeft s)) = (h6, m6)" by fastforce
  have l9: "length eye3 = nat (3 * 3)" "length zeros3 = nat (3 * 1)" by simp_all
  note s1 = owned_assign [OF cv h o mem(1) l9(1) a1 [unfolded assign_eye_def]]
  note s2 = owned_assign [OF cv s1(1,3) mem(2) l9(2) a2 [unfolded assign_zeros_def]]
  note s3 = owned_assign [OF cv s2(1,3) mem(3) l9(2) a3 [unfolded assign_zeros_def]]
  note s4 = owned_assign [OF cv s3(1,3) mem(4) l9(1) a4 [unfolded assign_eye_def]]
  note s5 = owned_assign [OF cv s4(1,3) mem(5) l9(2) a5 [unfolded assign_zeros_def]]
  note s6 = owned_assign [OF cv s5(1,3) mem(6) l9(2) a6 [unfolded assign_zeros_def]]
  show thesis
  proof (rule that [of h6])
    show "InitMatrix cv s = s\<lparr>nheap := h6\<rparr>"
      by (simp add: InitMatrix_def init_def a1 a2 a3 a4 a5 a6 s1(2) s2(2) s3(2) s4(2) s5(2) s6(2))
    show "store_ok h6" "owned h6 ?L" using s6 by simp_all
    have "holds h6 (global_gR s) 3 3 eye3"
      by (rule s6(6) [OF s5(6) [OF s4(6) [OF s3(6) [OF s2(6) [OF s1(4)]]]]]) (use d in \<open>simp_all add: pose_mats_def\<close>)
    moreover have "holds h6 (gR (objLeft s)) 3 3 eye3" "holds h6 (gt (objLeft s)) 3 1 zeros3"
      by (rule s6(6) [OF s5(6) [OF s4(4)]] s6(6) [OF s5(4)]; use d in \<open>simp add: pose_mats_def\<close>)+
    ultimately show "pose_reset (s\<lparr>nheap := h6\<rparr>)" using s6(4) by (simp add: pose_reset_def)
    show "holds h6 (global_gt s) 3 1 zeros3"
      by (rule s6(6) [OF s5(6) [OF s4(6) [OF s3(6) [OF s2(4)]]]]) (use d in \<open>simp_all add: pose_mats_def\<close>)
    show "holds h6 (global_gr s) 3 1 zeros3"
      by (rule s6(6) [OF s5(6) [OF s4(6) [OF s3(4)]]]) (use d in \<open>simp_all add: pose_mats_def\<close>)
    show "holds h6 n r c vs"
      if n: "holds (nheap s) n r c vs" "data n \<notin> set (map (data \<circ> fst) (pose_mats s))" for n r c vs
      by (rule s6(6) [OF s5(6) [OF s4(6) [OF s3(6) [OF s2(6) [OF s1(6) [OF n(1)]]]]]])
        (use n(2) in \<open>simp_all add: pose_mats_def\<close>)
  qed
qed

lemma mats_upd [simp]:
  "pose_mats (s\<lparr>nheap := h\<rparr>) = pose_mats s" "cam_mats (s\<lparr>nheap := h\<rparr>) = cam_mats s"
  by (simp_all add: pose_mats_def cam_mats_def)

lemma InitMatrix_frame:
  "tracker_vars (InitMatrix cv s) = tracker_vars s" "info (InitMatrix cv s) = info s"
  "pix (InitMatrix cv s) = pix s" "jmats (InitMatrix cv s) = jmats s" "tfl (InitMatrix cv s) = tfl s"
  "points (objLeft (InitMatrix cv s)) = points (objLeft s)"
  by (simp_all add: InitMatrix_def init_def Let_def split: prod.splits)

lemma InitMatrix_inv:
  assumes cv: "create_ok cv" and i: "native_inv s"
  shows "native_inv (InitMatrix cv s)" "ready (InitMatrix cv s) \<or> running (InitMatrix cv s)"
    "pose_reset (InitMatrix cv s)"
proof -
  have h: "store_ok (nheap s)" using i by (simp add: native_inv_def)
  have "store_ok (nheap (InitMatrix cv s)) \<and> (ready (InitMatrix cv s) \<or> running (InitMatrix cv s)) \<and>
      pose_reset (InitMatrix cv s)"
  proof -
    consider "loaded s" | "ready s" | "running s" using i by (auto simp: native_inv_def)
    then show ?thesis
    proof cases
      case 1
      then show ?thesis using InitMatrix_first [OF cv h] by simp
    next
      case 2
      then have o: "owned (nheap s) ([] @ pose_mats s)" by (simp add: ready_def)
      obtain h' where
        "InitMatrix cv s = s\<lparr>nheap := h'\<rparr>" "store_ok h'" "owned h' ([] @ pose_mats s)"
        "pose_reset (s\<lparr>nheap := h'\<rparr>)" "holds h' (global_gt s) 3 1 zeros3" "holds h' (global_gr s) 3 1 zeros3"
        by (rule InitMatrix_again [OF cv h o]) blast
      then show ?thesis using 2 by (simp add: ready_def cam_unset_def globals_reset_def pose_reset_def)
    next
      case 3
      then have o: "owned (nheap s) (cam_mats s @ pose_mats s)" by (simp add: running_def)
      then have n: "data (cam_tvec (info s)) \<notin> set (map (data \<circ> fst) (pose_mats s))"
        by (auto simp: owned_def cam_mats_def)
      obtain h' where e: "InitMatrix cv s = s\<lparr>nheap := h'\<rparr>" "store_ok h'" "owned h' (cam_mats s @ pose_mats s)"
        "pose_reset (s\<lparr>nheap := h'\<rparr>)" "holds h' (global_gt s) 3 1 zeros3" "holds h' (global_gr s) 3 1 zeros3"
        and f: "\<And>n r c vs. holds (nheap s) n r c vs \<Longrightarrow>
          data n \<notin> set (map (data \<circ> fst) (pose_mats s)) \<Longrightarrow> holds h' n r c vs"
        by (rule InitMatrix_again [OF cv h o]) blast
      then show ?thesis using 3 f [OF _ n] by (simp add: running_def cam_set_def globals_reset_def pose_reset_def)
    qed
  qed
  then show "native_inv (InitMatrix cv s)" "ready (InitMatrix cv s) \<or> running (InitMatrix cv s)"
    "pose_reset (InitMatrix cv s)" using i by (auto simp: native_inv_def counters_unmoved_def InitMatrix_frame)
qed

section \<open>The start of a frame\<close>

lemma set_camera_info_short:
  "length cf < 4 \<Longrightarrow> set_camera_info cv cf s = Inl OutOfBounds"
  by (auto simp: set_camera_info_def Let_def vec_at_def split: prod.splits)

definition camera_of :: "int list \<Rightarrow> mat \<Rightarrow> mat \<Rightarrow> mat \<Rightarrow> pt_camera_info \<Rightarrow> pt_camera_info" where
  "camera_of cf R r t i = i\<lparr>cam_R := R, cam_rvec := r, cam_tvec := t, rv := mat_ptr R 0, tv := mat_ptr t 0,
     fov := fl_of_int Binary32 (cf ! 2), res_x := cf ! 1, res_y := cf ! 0, touch_status := cf ! 3\<rparr>"

lemma set_camera_info_eq:
  assumes "4 \<le> length cf" "assign_eye cv (nheap s) (cam_R (info s)) = (h1, R)"
    "assign_zeros cv h1 (cam_rvec (info s)) = (h2, r)" "assign_zeros cv h2 (cam_tvec (info s)) = (h3, t)"
  shows "set_camera_info cv cf s = Inr (s\<lparr>nheap := h3, info := camera_of cf R r t (info s)\<rparr>)"
proof -
  have "0 < length cf" using assms(1) by linarith
  then show ?thesis using assms by (simp add: set_camera_info_def Let_def vec_at_def camera_of_def)
qed

text \<open>The three matrices of the struct, allocated in the first frame.\<close>

lemma frame_start_alloc:
  assumes cv: "create_ok cv" and h: "store_ok (nheap s)" and u: "cam_unset s" and P: "owned (nheap s) P"
    and cf: "4 \<le> length cf"
  obtains h' R r t where "set_camera_info cv cf s = Inr (s\<lparr>nheap := h', info := camera_of cf R r t (info s)\<rparr>)"
    "store_ok h'" "owned h' ([(R, 3, 3), (r, 3, 1), (t, 3, 1)] @ P)" "holds h' R 3 3 eye3" "holds h' t 3 1 zeros3"
    "\<And>n r c vs. holds (nheap s) n r c vs \<Longrightarrow> holds h' n r c vs"
proof -
  have e: "cam_R (info s) = empty_mat" "cam_rvec (info s) = empty_mat" "cam_tvec (info s) = empty_mat"
    using u by (simp_all add: cam_unset_def)
  obtain h1 R where a1: "assign_eye cv (nheap s) empty_mat = (h1, R)" by fastforce
  obtain h2 r where a2: "assign_zeros cv h1 empty_mat = (h2, r)" by fastforce
  obtain h3 t where a3: "assign_zeros cv h2 empty_mat = (h3, t)" by fastforce
  have l9: "length eye3 = nat (3 * 3)" "length zeros3 = nat (3 * 1)" by simp_all
  note s1 = owned_alloc [OF cv h P l9(1) a1 [unfolded assign_eye_def]]
  note s2 = owned_alloc [OF cv s1(1,2) l9(2) a2 [unfolded assign_zeros_def]]
  note s3 = owned_alloc [OF cv s2(1,2) l9(2) a3 [unfolded assign_zeros_def]]
  show thesis
  proof (rule that [OF set_camera_info_eq [OF cf a1 [folded e(1)] a2 [folded e(2)] a3 [folded e(3)]] s3(1)])
    show "owned h3 ([(R, 3, 3), (r, 3, 1), (t, 3, 1)] @ P)" using s3(2) by (auto simp: owned_Cons)
    show "holds h3 R 3 3 eye3" "holds h3 t 3 1 zeros3" using s1(3) s2(4) s3(3,4) by blast+
    show "holds h3 n r c vs" if "holds (nheap s) n r c vs" for n r c vs
      using that s1(4) s2(4) s3(4) by blast
  qed
qed

text \<open>Later frames write the same three matrices in place.\<close>

lemma frame_start_reuse:
  assumes cv: "create_ok cv" and h: "store_ok (nheap s)" and o: "owned (nheap s) (cam_mats s @ P)"
    and cf: "4 \<le> length cf"
  obtains h' where "set_camera_info cv cf s =
      Inr (s\<lparr>nheap := h', info := camera_of cf (cam_R (info s)) (cam_rvec (info s)) (cam_tvec (info s)) (info s)\<rparr>)"
    "store_ok h'" "owned h' (cam_mats s @ P)" "holds h' (cam_R (info s)) 3 3 eye3"
    "holds h' (cam_tvec (info s)) 3 1 zeros3"
    "\<And>n r c vs. holds (nheap s) n r c vs \<Longrightarrow> data n \<notin> set (map (data \<circ> fst) (cam_mats s)) \<Longrightarrow> holds h' n r c vs"
proof -
  let ?L = "cam_mats s @ P"
  have mem: "(cam_R (info s), 3, 3) \<in> set ?L" "(cam_rvec (info s), 3, 1) \<in> set ?L" "(cam_tvec (info s), 3, 1) \<in> set ?L"
    by (simp_all add: cam_mats_def)
  have d: "distinct (map (data \<circ> fst) (cam_mats s))" using o by (simp add: owned_def)
  obtain h1 R where a1: "assign_eye cv (nheap s) (cam_R (info s)) = (h1, R)" by fastforce
  obtain h2 r where a2: "assign_zeros cv h1 (cam_rvec (info s)) = (h2, r)" by fastforce
  obtain h3 t where a3: "assign_zeros cv h2 (cam_tvec (info s)) = (h3, t)" by fastforce
  have l9: "length eye3 = nat (3 * 3)" "length zeros3 = nat (3 * 1)" by simp_all
  note s1 = owned_assign [OF cv h o mem(1) l9(1) a1 [unfolded assign_eye_def]]
  note s2 = owned_assign [OF cv s1(1,3) mem(2) l9(2) a2 [unfolded assign_zeros_def]]
  note s3 = owned_assign [OF cv s2(1,3) mem(3) l9(2) a3 [unfolded assign_zeros_def]]
  show thesis
  proof (rule that [OF set_camera_info_eq [OF cf a1 a2 a3, unfolded s1(2) s2(2) s3(2)] s3(1) s3(3)])
    show "holds h3 (cam_R (info s)) 3 3 eye3"
      by (rule s3(6) [OF s2(6) [OF s1(4)]]) (use d in \<open>simp_all add: cam_mats_def\<close>)
    show "holds h3 (cam_tvec (info s)) 3 1 zeros3" by (rule s3(4))
    show "holds h3 n r c vs"
      if n: "holds (nheap s) n r c vs" "data n \<notin> set (map (data \<circ> fst) (cam_mats s))" for n r c vs
      by (rule s3(6) [OF s2(6) [OF s1(6) [OF n(1)]]]) (use n(2) in \<open>simp_all add: cam_mats_def\<close>)
  qed
qed

end
