(* ===== verification/Native_Frame.thy ===== *)
theory Native_Frame
  imports Native_Inv
begin

text \<open>
  The camera frame call: it keeps the invariant, returns the pose of the tracked object as a
  homogeneous matrix, and cannot run before \<^verbatim>\<open>InitMatrix\<close>.
\<close>

section \<open>A frame\<close>

text \<open>After its first lines a frame is in the running state, with a fresh rotation matrix.\<close>

lemma frame_start:
  assumes cv: "create_ok cv" and i: "native_inv s" and n: "\<not> loaded s" and cf: "4 \<le> length cf"
  obtains s' where "set_camera_info cv cf s = Inr s'" "native_inv s'" "running s'"
    "holds (nheap s') (cam_R (info s')) 3 3 eye3" "tracker_vars s' = tracker_vars s" "objLeft s' = objLeft s"
    "pix s' = pix s" "jmats s' = jmats s" "tfl s' = tfl s" "new_arrays s' = new_arrays s"
    "pinned_arrays s' = pinned_arrays s" "touch_status (info s') = cf ! 3"
    "\<And>m. m \<in> {gR (objLeft s), gt (objLeft s), gr (objLeft s)} \<Longrightarrow> mat_values (nheap s') m = mat_values (nheap s) m"
proof -
  let ?P = "{gR (objLeft s), gt (objLeft s), gr (objLeft s)}"
  have h: "store_ok (nheap s)" and c: "counters_unmoved s" "tracker_ok (tracker_vars s)"
    "length (model_points (tracker_vars s)) < 2 ^ 31" using i by (simp_all add: native_inv_def)
  consider "ready s" | "running s" using i n by (auto simp: native_inv_def)
  then show thesis
  proof cases
    case 1
    then have g: "globals_reset s" "cam_unset s" "owned (nheap s) (pose_mats s)" by (simp_all add: ready_def)
    obtain h' R r t where e: "set_camera_info cv cf s = Inr (s\<lparr>nheap := h', info := camera_of cf R r t (info s)\<rparr>)"
      "store_ok h'" "owned h' ([(R, 3, 3), (r, 3, 1), (t, 3, 1)] @ pose_mats s)" "holds h' R 3 3 eye3"
      "holds h' t 3 1 zeros3" and f: "\<And>n r c vs. holds (nheap s) n r c vs \<Longrightarrow> holds h' n r c vs"
      by (rule frame_start_alloc [OF cv h g(2,3) cf]) blast
    have "\<exists>k c vs. holds (nheap s) m k c vs" if "m \<in> ?P" for m
      using that g(3) by (auto simp: owned_Cons pose_mats_def)
    then have "mat_values h' m = mat_values (nheap s) m" if "m \<in> ?P" for m
      using f that by (metis holds_def)
    then show thesis using e f c g(1)
      by (intro that [OF e(1)]) (simp_all add: inv_defs camera_of_def pose_mats_def cam_mats_def)
  next
    case 2
    then have g: "globals_reset s" "owned (nheap s) (cam_mats s @ pose_mats s)" by (simp_all add: running_def)
    obtain h' where e: "set_camera_info cv cf s =
      Inr (s\<lparr>nheap := h', info := camera_of cf (cam_R (info s)) (cam_rvec (info s)) (cam_tvec (info s)) (info s)\<rparr>)"
      "store_ok h'" "owned h' (cam_mats s @ pose_mats s)" "holds h' (cam_R (info s)) 3 3 eye3"
      "holds h' (cam_tvec (info s)) 3 1 zeros3" and f: "\<And>n r c vs. holds (nheap s) n r c vs \<Longrightarrow>
         data n \<notin> set (map (data \<circ> fst) (cam_mats s)) \<Longrightarrow> holds h' n r c vs"
      by (rule frame_start_reuse [OF cv h g(2) cf]) blast
    have d: "data (global_gt s) \<notin> set (map (data \<circ> fst) (cam_mats s))"
      "data (global_gR s) \<notin> set (map (data \<circ> fst) (cam_mats s))"
      "data (global_gr s) \<notin> set (map (data \<circ> fst) (cam_mats s))"
      "m \<in> ?P \<Longrightarrow> data m \<notin> set (map (data \<circ> fst) (cam_mats s))" for m
      using g(2) by (auto simp: owned_def cam_mats_def pose_mats_def)
    have "\<exists>k c vs. holds (nheap s) m k c vs" if "m \<in> ?P" for m
      using that g(2) by (auto simp: owned_Cons cam_mats_def pose_mats_def)
    then have "mat_values h' m = mat_values (nheap s) m" if "m \<in> ?P" for m
      using f d(4) that by (metis holds_def)
    then show thesis using e f [OF _ d(1)] f [OF _ d(2)] f [OF _ d(3)] c g(1)
      by (intro that [OF e(1)]) (simp_all add: inv_defs camera_of_def pose_mats_def cam_mats_def)
  qed
qed

text \<open>What the tracker is called with: the object's own matrices and a copy of the camera struct.\<close>

definition frame_env ::
  "'img cv_api \<Rightarrow> mat \<Rightarrow> point2f list \<Rightarrow> ('img, 'model) native_state \<Rightarrow> 'img pose_env" where
  "frame_env cv matResult pts s =
     \<lparr>heap = nheap s, trk = tracker_vars s,
      canvas = foldl (\<lambda>im p. cv_circle cv im p 5 [255, 255, 255] 10 8 0) (pix s (data matResult)) pts,
      Rot = gR (objLeft s), rvec_out = gr (objLeft s), tvec_out = gt (objLeft s), cam = info s,
      new_live = new_arrays s\<rparr>"

lemma refilled:
  "points (foldl push_back (clearPoints obj) pts) = pts" "gR (foldl push_back (clearPoints obj) pts) = gR obj"
  "gt (foldl push_back (clearPoints obj) pts) = gt obj" "gr (foldl push_back (clearPoints obj) pts) = gr obj"
  using po.refill [of obj pts] by simp_all

lemma track_points_eq:
  "track_points cv tf mi mr pts s =
     bind_res (estimate_pose cv pts (frame_env cv mr pts s)) (\<lambda>(e1, bResL).
       let s1 = s\<lparr>nheap := heap e1, tracker_vars := trk e1, pix := (pix s)(data mr := canvas e1),
             objLeft := (foldl push_back (clearPoints (objLeft s)) pts)\<lparr>gR := Rot e1, gr := rvec_out e1,
               gt := tvec_out e1\<rparr>, new_arrays := new_live e1\<rparr>
       in if touch_status (info s) = 0
          then bind_res (tflite_model_run cv tf (pix s1) mi (tfl s)) (\<lambda>(st, v). Inr (s1\<lparr>tfl := st\<rparr>, bResL))
          else Inr (s1, bResL))"
  by (simp add: track_points_def frame_env_def refilled Let_def cong: if_cong)

lemma track_points_result:
  assumes "track_points cv tf mi mr pts s = Inr (s', b)"
  obtains e1 where "estimate_pose cv pts (frame_env cv mr pts s) = Inr (e1, b)" "nheap s' = heap e1"
    "tracker_vars s' = trk e1" "gR (objLeft s') = Rot e1" "gr (objLeft s') = rvec_out e1"
    "gt (objLeft s') = tvec_out e1" "points (objLeft s') = pts" "new_arrays s' = new_live e1"
    "info s' = info s" "global_gR s' = global_gR s" "global_gt s' = global_gt s" "global_gr s' = global_gr s"
    "jmats s' = jmats s" "pinned_arrays s' = pinned_arrays s"
proof -
  obtain e1 c where e: "estimate_pose cv pts (frame_env cv mr pts s) = Inr (e1, c)"
    using assms by (auto simp: track_points_eq bind_res_def split: sum.splits)
  show thesis
    by (rule that) (use assms e in \<open>auto simp: track_points_eq Let_def refilled split: if_splits\<close>)
qed

lemma frame_env_ok: "native_inv s \<Longrightarrow> running s \<Longrightarrow> env_ok (frame_env cv mr pts s)"
  by (auto simp: env_ok_def frame_env_def native_inv_def running_def cam_mats_def owned_Cons)

text \<open>
  The tracker leaves the state running: the new pose matrices are disjoint from everything that
  was there, and only the camera's own rotation matrix was written in place.
\<close>

lemma pose_owned:
  assumes o: "owned h ([(R, 3, 3), (r, 3, 1), (t, 3, 1)] @ [(a, 3, 3), (b, 3, 1), (c, 3, 1), (a', 3, 3), (b', 3, 1), (c', 3, 1)])"
    and f: "\<And>n r c vs. holds h n r c vs \<Longrightarrow> data n \<noteq> data R \<Longrightarrow> holds h' n r c vs"
    and R: "\<exists>vs. holds h' R 3 3 vs" and m: "\<exists>vs. holds h' m 3 3 vs" "brk h \<le> data m"
    and n: "b1 = b' \<and> c1 = c' \<or> (\<exists>vs. holds h' b1 3 1 vs) \<and> (\<exists>vs. holds h' c1 3 1 vs) \<and>
       brk h \<le> data b1 \<and> data b1 < data c1 \<and> data c1 < data m"
  shows "owned h' ([(R, 3, 3), (r, 3, 1), (t, 3, 1)] @ [(a, 3, 3), (b, 3, 1), (c, 3, 1), (m, 3, 3), (b1, 3, 1), (c1, 3, 1)])"
proof -
  have k: "(\<exists>vs. holds h' n k l vs) \<and> data n < brk h" if "\<exists>vs. holds h n k l vs" "data R \<noteq> data n" for n k l
    using that f [of n] holds_bounds(1) [of h n] by metis
  have q: "Ex (holds h R 3 3)" "Ex (holds h r 3 1)" "Ex (holds h t 3 1)" "Ex (holds h a 3 3)" "Ex (holds h b 3 1)" "Ex (holds h c 3 1)"
    "Ex (holds h b' 3 1)" "Ex (holds h c' 3 1)" "data R \<noteq> data r" "data R \<noteq> data t" "data R \<noteq> data a"
    "data R \<noteq> data b" "data R \<noteq> data c" "data R \<noteq> data b'" "data R \<noteq> data c'"
    using o by (simp_all add: owned_Cons)
  have R': "data R < brk h" using q(1) holds_bounds(1) by blast
  note old = k [OF q(2,9)] k [OF q(3,10)] k [OF q(4,11)] k [OF q(5,12)] k [OF q(6,13)] k [OF q(7,14)] k [OF q(8,15)]
  have d: "distinct (map data [R, r, t, a, b, c, b', c'])" using o by (simp add: owned_def)
  show ?thesis using n
  proof (elim disjE conjE)
    assume "b1 = b'" "c1 = c'"
    then show ?thesis using old R R' m d by (auto simp: owned_def)
  next
    assume "\<exists>vs. holds h' b1 3 1 vs" "\<exists>vs. holds h' c1 3 1 vs" "brk h \<le> data b1" "data b1 < data c1" "data c1 < data m"
    then show ?thesis using old R R' m(1) d by (auto simp: owned_def)
  qed
qed

lemma track_points_inv:
  assumes cv: "create_ok cv" "dims_ok cv" and i: "native_inv s" and r: "running s" and l: "length pts < 2 ^ 31"
    and t: "track_points cv tf mi mr pts s = Inr (s', b)"
  shows "native_inv s'" "running s'" "b" "info s' = info s"
    "mat_values (nheap s') (gR (objLeft s')) = mat_values (nheap s') (cam_R (info s'))"
proof -
  let ?e = "frame_env cv mr pts s"
  obtain e1 where e1: "estimate_pose cv pts ?e = Inr (e1, b)" "nheap s' = heap e1" "tracker_vars s' = trk e1"
    and g: "gR (objLeft s') = Rot e1" "gr (objLeft s') = rvec_out e1" "gt (objLeft s') = tvec_out e1"
      "info s' = info s" "global_gR s' = global_gR s" "global_gt s' = global_gt s" "global_gr s' = global_gr s"
    by (rule track_points_result [OF t]) blast
  have e: "heap ?e = nheap s" "cam ?e = info s" "trk ?e = tracker_vars s" "rvec_out ?e = gr (objLeft s)"
    "tvec_out ?e = gt (objLeft s)" by (simp_all add: frame_env_def)
  note ok = frame_env_ok [OF i r, of cv mr pts]
  have out: "b" "pose_outcome cv pts ?e e1"
    using estimate_pose_outcome(1,2) [OF cv(2) _ l _ e1(1)] i by (simp_all add: e native_inv_def)
  note p = pose_outcome_store [OF cv ok l out(2), unfolded e]
  have o: "owned (nheap s) (cam_mats s @ pose_mats s)" using r by (simp add: running_def)
  have n: "tvec_out e1 = gt (objLeft s) \<and> rvec_out e1 = gr (objLeft s) \<or>
      (\<exists>vs. holds (heap e1) (tvec_out e1) 3 1 vs) \<and> (\<exists>vs. holds (heap e1) (rvec_out e1) 3 1 vs) \<and>
      brk (nheap s) \<le> data (tvec_out e1) \<and> data (tvec_out e1) < data (rvec_out e1) \<and> data (rvec_out e1) < data (Rot e1)"
  proof (cases "solves cv pts ?e")
    case None
    then show ?thesis using pose_outcome_unsolved [OF cv(1) ok out(2)] by (simp add: e)
  next
    case (Some rt)
    then show ?thesis using pose_outcome_solved [OF cv ok out(2), of "fst rt" "snd rt"] unfolding e by auto
  qed
  have R: "\<exists>vs. holds (heap e1) (cam_R (info s)) 3 3 vs" "\<exists>vs. holds (heap e1) (Rot e1) 3 3 vs"
    using p(1,2,4) by (auto simp: env_ok_def)
  have own: "owned (heap e1) (cam_mats s' @ pose_mats s')"
    using pose_owned [OF o [unfolded cam_mats_def pose_mats_def] p(7) R p(5) n]
    by (simp add: cam_mats_def pose_mats_def g)
  have d: "data (global_gt s) \<noteq> data (cam_R (info s))" "data (global_gr s) \<noteq> data (cam_R (info s))"
    "data (cam_tvec (info s)) \<noteq> data (cam_R (info s))" "data (global_gR s) \<noteq> data (cam_R (info s))" using o by (auto simp: owned_def cam_mats_def pose_mats_def)
  show run: "running s'" using own r p(7) [OF _ d(1)] p(7) [OF _ d(2)] p(7) [OF _ d(3)] p(7) [OF _ d(4)]
    by (simp add: running_def globals_reset_def cam_set_def e1 g)
  show "b" "info s' = info s" by (rule out(1), rule g(4))
  show "mat_values (nheap s') (gR (objLeft s')) = mat_values (nheap s') (cam_R (info s'))"
    using p(3) by (simp add: g e1)
  have "length (model_points (trk e1)) < 2 ^ 31"
    using pose_outcome_model_length [OF out(2) l] i by (simp add: e native_inv_def)
  then show "native_inv s'" using i run p(1) by (simp add: native_inv_def counters_unmoved_def e1 g env_ok_def)
qed

text \<open>The OpenGL matrix of a rotation and a translation, and that the call reads it back in bounds.\<close>

definition gl_matrix :: "double list \<Rightarrow> double list \<Rightarrow> float32 list" where
  "gl_matrix R t =
     map (fl_cvt Binary32) [R ! 0, R ! 1, R ! 2] @ [zero] @ map (fl_cvt Binary32) [R ! 3, R ! 4, R ! 5] @ [zero] @
     map (fl_cvt Binary32) [R ! 6, R ! 7, R ! 8] @ [zero] @ map (fl_cvt Binary32) [t ! 0, t ! 1, t ! 2] @ [fone]"

lemma length_gl_matrix [simp]: "length (gl_matrix R t) = 16"
  by (simp add: gl_matrix_def)

lemma list3: "length vs = 3 \<Longrightarrow> vs = [vs ! 0, vs ! 1, vs ! 2]"
  by (auto simp: list_eq_iff_nth_eq less_Suc_eq numeral_eq_Suc)

lemma pose_values_running:
  assumes "running s"
  shows "pose_values s = Inr (gl_matrix (mat_values (nheap s) (gR (objLeft s))) (mat_values (nheap s) (gt (objLeft s))))"
proof -
  obtain R t where R: "holds (nheap s) (gR (objLeft s)) 3 3 R" and t: "holds (nheap s) (gt (objLeft s)) 3 1 t"
    using assms by (auto simp: running_def owned_Cons cam_mats_def pose_mats_def)
  have v: "mat_values (nheap s) (gR (objLeft s)) = R" "mat_values (nheap s) (gt (objLeft s)) = t"
    using R t by (simp_all add: holds_def)
  have "t = [t ! 0, t ! 1, t ! 2]" using list3 holds_length [OF t] by simp
  then have "read_all (deref (nheap s) (mat_ptr (gt (objLeft s)) 0)) [0, 1, 2] = Inr [t ! 0, t ! 1, t ! 2]"
    using read_vec3 t by metis
  then show ?thesis using read_row3 [OF R, of 0] read_row3 [OF R, of 1] read_row3 [OF R, of 2]
    unfolding v by (simp add: pose_values_def Let_def gl_matrix_def)
qed

lemma pose_values_null: "gt (objLeft s) = empty_mat \<Longrightarrow> \<exists>err. pose_values s = Inl err"
  by (auto simp: pose_values_def Let_def bind_res_def deref_def mat_ptr_def split: sum.splits)

lemma pose_values_null_gR: "gR (objLeft s) = empty_mat \<Longrightarrow> pose_values s = Inl NullDeref"
  by (simp add: pose_values_def deref_def mat_ptr_def)

lemma pose_values_null_gt:
  assumes "holds (nheap s) (gR (objLeft s)) 3 3 vs" "gt (objLeft s) = empty_mat"
  shows "pose_values s = Inl NullDeref"
proof -
  have "deref (nheap s) (mat_ptr empty_mat 0) 0 = Inl NullDeref" by (simp add: deref_def mat_ptr_def)
  then show ?thesis
    using read_row3 [OF assms(1), of 0] read_row3 [OF assms(1), of 1] read_row3 [OF assms(1), of 2]
    by (simp add: pose_values_def assms(2))
qed

text \<open>
  A frame of 2^31 contours does not fit any image: contours are counted in an \<^verbatim>\<open>int\<close> by the library.
\<close>

definition few_contours :: "'img cv_api \<Rightarrow> bool" where
  "few_contours cv \<longleftrightarrow> (\<forall>im m a. length (cv_findContours cv im m a) < 2 ^ 31)"

lemma detect_points_result:
  assumes "few_contours cv" "detect_points cv cam1 pb mi mr [] = Inr (cam2, pb', pts)"
  obtains hsv where "cv_cvtColor cv (pb (data mi)) COLOR_BGR2HSV = Inr hsv"
    "pts = blob_centres cv (accepted cv) (frame_contours cv hsv)" "length pts < 2 ^ 31"
proof -
  obtain hsv where h: "cv_cvtColor cv (pb (data mi)) COLOR_BGR2HSV = Inr hsv"
    using assms(2) by (auto simp: detect_points_def bind_res_def split: sum.splits)
  then have p: "pts = blob_centres cv (accepted cv) (frame_contours cv hsv)"
    using assms(2) detect_points_spec [of cv pb mi hsv cam1 mr "[]"] h by simp
  then have "length pts \<le> length (frame_contours cv hsv)" by (simp add: blob_centres_def)
  then show thesis using that [OF h p] assms(1) by (simp add: few_contours_def frame_contours_def le_less_trans)
qed

lemma native_inv_irrelevant [simp]:
  "native_inv (s\<lparr>pix := p\<rparr>) = native_inv s" "native_inv (s\<lparr>jmats := j, pinned_arrays := k\<rparr>) = native_inv s"
  "running (s\<lparr>pix := p\<rparr>) = running s" "loaded (s\<lparr>jmats := j, pinned_arrays := k\<rparr>) = loaded s"
  by (simp_all add: inv_defs pose_mats_def cam_mats_def)

text \<open>The steps of a frame that returns.\<close>

lemma frame_steps:
  assumes "ConvertRGBtoGray cv tf a b rot cf s = Inr (s', rot', thrown, res)"
  obtains mi mb s2 cam1 pb pts vs where "jmats s a = Some mi" "jmats s b = Some mb"
    "set_camera_info cv cf (s\<lparr>jmats := (jmats s)(b \<mapsto> mi), pinned_arrays := pinned_arrays s + 1\<rparr>) = Inr s2"
    "detect_points cv (info s2) (pix s2) mi mi [] = Inr (cam1, pb, pts)"
    "(if pts \<noteq> [] then track_points cv tf mi mi pts (s2\<lparr>pix := pb\<rparr>) else Inr (s2\<lparr>pix := pb\<rparr>, False)) = Inr (s', res)"
    "pose_values s' = Inr vs" "SetFloatArrayRegion rot vs = (rot', thrown)"
proof -
  obtain mi mb s2 c2 pb pts s4 r vs where p: "jmats s a = Some mi" "jmats s b = Some mb"
    "set_camera_info cv cf (s\<lparr>jmats := (jmats s)(b \<mapsto> mi), pinned_arrays := pinned_arrays s + 1\<rparr>) = Inr s2"
    "detect_points cv (info s2) (pix s2) mi mi [] = Inr (c2, pb, pts)"
    "(if pts \<noteq> [] then track_points cv tf mi mi pts (s2\<lparr>pix := pb\<rparr>) else Inr (s2\<lparr>pix := pb\<rparr>, False)) = Inr (s4, r)"
    "pose_values s4 = Inr vs"
    "(let (rot1, x) = SetFloatArrayRegion rot vs in Inr (s4, rot1, x, r)) = (Inr (s', rot', thrown, res) :: _ res)"
    using assms by (auto simp: ConvertRGBtoGray_def Let_def split: option.splits)
  obtain rot1 x where "SetFloatArrayRegion rot vs = (rot1, x)" by fastforce
  then show thesis using that [OF p(1-4)] p(5-7) by simp
qed

lemma frame_inv:
  assumes cv: "create_ok cv" "dims_ok cv" "few_contours cv" and i: "native_inv s" and n: "\<not> loaded s"
    and f: "ConvertRGBtoGray cv tf a b rot cf s = Inr (s', rot', thrown, res)"
  shows "native_inv s'" "running s'" "4 \<le> length cf" "pinned_arrays s' = pinned_arrays s + 1"
    "rot' = fst (SetFloatArrayRegion rot
       (gl_matrix (mat_values (nheap s') (gR (objLeft s'))) (mat_values (nheap s') (gt (objLeft s')))))"
    "res \<Longrightarrow> mat_values (nheap s') (gR (objLeft s')) = mat_values (nheap s') (cam_R (info s'))"
proof -
  obtain mi mb s2 c2 pb pts vs where j: "jmats s a = Some mi" "jmats s b = Some mb"
    and s2: "set_camera_info cv cf (s\<lparr>jmats := (jmats s)(b \<mapsto> mi), pinned_arrays := pinned_arrays s + 1\<rparr>) = Inr s2"
    and d: "detect_points cv (info s2) (pix s2) mi mi [] = Inr (c2, pb, pts)"
    and t: "(if pts \<noteq> [] then track_points cv tf mi mi pts (s2\<lparr>pix := pb\<rparr>) else Inr (s2\<lparr>pix := pb\<rparr>, False)) = Inr (s', res)"
    and v: "pose_values s' = Inr vs" "SetFloatArrayRegion rot vs = (rot', thrown)"
    by (rule frame_steps [OF f]) blast
  show cf: "4 \<le> length cf" using s2 set_camera_info_short [of cf cv] by (metis Inl_Inr_False not_le)
  let ?s1 = "s\<lparr>jmats := (jmats s)(b \<mapsto> mi), pinned_arrays := pinned_arrays s + 1\<rparr>"
  obtain s3 where "set_camera_info cv cf ?s1 = Inr s3" "native_inv s3" "running s3" "pinned_arrays s3 = pinned_arrays ?s1"
    by (rule frame_start [OF cv(1), of ?s1 cf]) (use i n cf in simp_all)
  then have i2: "native_inv s2" "running s2" "pinned_arrays s2 = pinned_arrays s + 1" using s2 by simp_all
  have l: "length pts < 2 ^ 31" by (rule detect_points_result [OF cv(3) d])
  have "native_inv s' \<and> running s' \<and> pinned_arrays s' = pinned_arrays s + 1 \<and>
    (res \<longrightarrow> mat_values (nheap s') (gR (objLeft s')) = mat_values (nheap s') (cam_R (info s')))"
  proof (cases "pts = []")
    case False
    then have t': "track_points cv tf mi mi pts (s2\<lparr>pix := pb\<rparr>) = Inr (s', res)" using t by simp
    have "pinned_arrays s' = pinned_arrays (s2\<lparr>pix := pb\<rparr>)" by (rule track_points_result [OF t'])
    then show ?thesis using track_points_inv [OF cv(1,2) _ _ l t'] i2 by simp
  qed (use t i2 in auto)
  then show r: "native_inv s'" "running s'" "pinned_arrays s' = pinned_arrays s + 1"
    "res \<Longrightarrow> mat_values (nheap s') (gR (objLeft s')) = mat_values (nheap s') (cam_R (info s'))" by simp_all
  show "rot' = fst (SetFloatArrayRegion rot
       (gl_matrix (mat_values (nheap s') (gR (objLeft s'))) (mat_values (nheap s') (gt (objLeft s')))))"
    using v pose_values_running [OF r(2)] by simp
qed

text \<open>
  A frame before the first \<^verbatim>\<open>InitMatrix\<close> never returns: the translation of the object is an empty
  matrix, and no pose can be solved in that frame because there are no model points yet.
\<close>

lemma loaded_start:
  assumes cv: "create_ok cv" and i: "native_inv s" and n: "loaded s" and cf: "4 \<le> length cf"
  obtains s' where "set_camera_info cv cf s = Inr s'" "pix s' = pix s" "gR (objLeft s') = empty_mat"
    "gt (objLeft s') = empty_mat" "model_points (tracker_vars s') = []" "touch_status (info s') = cf ! 3"
    "\<And>mr pts pb. env_ok (frame_env cv mr pts (s'\<lparr>pix := pb\<rparr>))"
proof -
  have h: "store_ok (nheap s)" "cam_unset s" "owned (nheap s) []" using i n by (simp_all add: native_inv_def loaded_def)
  obtain h' R r t where e: "set_camera_info cv cf s = Inr (s\<lparr>nheap := h', info := camera_of cf R r t (info s)\<rparr>)"
      "store_ok h'" "holds h' R 3 3 eye3"
    by (rule frame_start_alloc [OF cv h cf]) blast
  show thesis
    by (rule that [OF e(1)]) (use e i n in \<open>auto simp: loaded_def pose_unset_def env_ok_def frame_env_def camera_of_def native_inv_def\<close>)
qed

lemma loaded_estimate:
  assumes cv: "create_ok cv" "dims_ok cv" and ok: "env_ok (frame_env cv mr pts s)" and l: "length pts < 2 ^ 31"
    and m: "model_points (tracker_vars s) = []" and t: "gt (objLeft s) = empty_mat"
    and e: "estimate_pose cv pts (frame_env cv mr pts s) = Inr (e1, b)"
  shows "tvec_out e1 = empty_mat" "\<exists>vs. holds (heap e1) (Rot e1) 3 3 vs"
proof -
  let ?e = "frame_env cv mr pts s"
  have out: "pose_outcome cv pts ?e e1"
    using estimate_pose_outcome(2) [OF cv(2) _ l _ e] ok m by (simp add: env_ok_def frame_env_def)
  have "solves cv pts ?e = None" using m by (auto simp: solves_def frame_env_def)
  then show "tvec_out e1 = empty_mat"
    using pose_outcome_unsolved(2) [OF cv(1) ok out] t by (simp add: frame_env_def)
  show "\<exists>vs. holds (heap e1) (Rot e1) 3 3 vs" using pose_outcome_store(4) [OF cv ok l out] by blast
qed

lemma frame_loaded_fails:
  assumes cv: "create_ok cv" "dims_ok cv" "few_contours cv" and i: "native_inv s" and n: "loaded s"
  shows "\<exists>err. ConvertRGBtoGray cv tf a b rot cf s = Inl err"
proof (rule ccontr)
  assume "\<not> ?thesis"
  then obtain s' rot' thrown res where f: "ConvertRGBtoGray cv tf a b rot cf s = Inr (s', rot', thrown, res)"
    by (metis obj_sumE prod_cases4)
  obtain mi mb s2 c2 pb pts vs where
        s2: "set_camera_info cv cf (s\<lparr>jmats := (jmats s)(b \<mapsto> mi), pinned_arrays := pinned_arrays s + 1\<rparr>) = Inr s2"
    and d: "detect_points cv (info s2) (pix s2) mi mi [] = Inr (c2, pb, pts)"
    and t: "(if pts \<noteq> [] then track_points cv tf mi mi pts (s2\<lparr>pix := pb\<rparr>) else Inr (s2\<lparr>pix := pb\<rparr>, False)) = Inr (s', res)"
    and v: "pose_values s' = Inr vs"
    by (rule frame_steps [OF f]) blast
  have cf: "4 \<le> length cf" using s2 set_camera_info_short [of cf cv] by (metis Inl_Inr_False not_le)
  let ?s1 = "s\<lparr>jmats := (jmats s)(b \<mapsto> mi), pinned_arrays := pinned_arrays s + 1\<rparr>"
  obtain s3 where s3: "set_camera_info cv cf ?s1 = Inr s3" "gt (objLeft s3) = empty_mat"
    "model_points (tracker_vars s3) = []" "\<And>mr pts pb. env_ok (frame_env cv mr pts (s3\<lparr>pix := pb\<rparr>))"
    by (rule loaded_start [OF cv(1), of ?s1 cf]) (use i n cf in simp_all)
  have s23: "s3 = s2" using s2 s3(1) by simp
  have l: "length pts < 2 ^ 31" by (rule detect_points_result [OF cv(3) d])
  have "gt (objLeft s') = empty_mat"
  proof (cases "pts = []")
    case False
    then have t': "track_points cv tf mi mi pts (s2\<lparr>pix := pb\<rparr>) = Inr (s', res)" using t by simp
    obtain e1 where e1: "estimate_pose cv pts (frame_env cv mi pts (s2\<lparr>pix := pb\<rparr>)) = Inr (e1, res)" "gt (objLeft s') = tvec_out e1"
      by (rule track_points_result [OF t']) blast
    show ?thesis using loaded_estimate(1) [OF cv(1,2) _ l _ _ e1(1)] s3(2-4) e1(2) by (simp add: s23)
  qed (use t s3(2) s23 in auto)
  then show False using pose_values_null [of s'] v by simp
qed

text \<open>
  With matrices, settings and no touch the failure is known: the image cannot be converted, or the sort
  is undefined, or a matrix of the object is read through a null pointer (the rotation when there are
  no points, otherwise the translation).
\<close>

lemma frame_loaded_error:
  assumes cv: "create_ok cv" "dims_ok cv" "few_contours cv" and i: "native_inv s" and n: "loaded s"
    and j: "jmats s a = Some mi" "jmats s b = Some mb" and cf: "4 \<le> length cf" "cf ! 3 \<noteq> 0"
  shows "ConvertRGBtoGray cv tf a b rot cf s =
    Inl (case cv_cvtColor cv (pix s (data mi)) COLOR_BGR2HSV of
           Inl err \<Rightarrow> err
         | Inr hsv \<Rightarrow> if sortable (blob_centres cv (accepted cv) (frame_contours cv hsv)) then NullDeref else Undefined)"
proof -
  let ?s1 = "s\<lparr>jmats := (jmats s)(b \<mapsto> mi), pinned_arrays := pinned_arrays s + 1\<rparr>"
  obtain s2 where s2: "set_camera_info cv cf ?s1 = Inr s2" "pix s2 = pix s" "gR (objLeft s2) = empty_mat" "gt (objLeft s2) = empty_mat"
    "model_points (tracker_vars s2) = []" "touch_status (info s2) = cf ! 3"
    and ok: "\<And>mr pts pb. env_ok (frame_env cv mr pts (s2\<lparr>pix := pb\<rparr>))"
    by (rule loaded_start [OF cv(1), of ?s1 cf]) (use i n cf in simp_all)
  show ?thesis
  proof (cases "cv_cvtColor cv (pix s (data mi)) COLOR_BGR2HSV")
    case (Inl err)
    then show ?thesis using s2(1,2) j by (simp add: ConvertRGBtoGray_def detect_points_def)
  next
    case (Inr hsv)
    let ?pts = "blob_centres cv (accepted cv) (frame_contours cv hsv)"
    have h2: "cv_cvtColor cv (pix s2 (data mi)) COLOR_BGR2HSV = Inr hsv" using Inr s2(2) by simp
    obtain c2 pb where d: "detect_points cv (info s2) (pix s2) mi mi [] = Inr (c2, pb, ?pts)"
      using detect_points_spec [of cv "pix s2" mi hsv, OF h2] by simp
    have l: "length ?pts < 2 ^ 31" using detect_points_result [OF cv(3) d] by blast
    let ?s3 = "s2\<lparr>pix := pb\<rparr>" and ?e = "frame_env cv mi ?pts (s2\<lparr>pix := pb\<rparr>)"
    consider "?pts = []" | "?pts \<noteq> []" "\<not> sortable ?pts" | "?pts \<noteq> []" "sortable ?pts" by blast
    then show ?thesis
    proof cases
      case 1
      have "sortable []" by (simp add: sortable_def weak_order_on_def add_distance_def)
      then show ?thesis using 1 s2(1) d j Inr pose_values_null_gR [of ?s3] s2(3) by (simp add: ConvertRGBtoGray_def)
    next
      case 2
      then show ?thesis using s2(1) d j Inr estimate_pose_undefined [of ?pts cv ?e]
        by (simp add: ConvertRGBtoGray_def track_points_eq)
    next
      case 3
      have k: "tracker_ok (trk ?e)" "length (model_points (trk ?e)) = 0"
        using ok [of mi ?pts pb] s2(5) by (simp_all add: env_ok_def frame_env_def)
      then obtain e1 where e1: "estimate_pose cv ?pts ?e = Inr (e1, True)"
        using estimate_pose_total [OF cv(2) k(1) l _ 3(2)] by auto
      have g: "tvec_out e1 = empty_mat" "Ex (holds (heap e1) (Rot e1) 3 3)"
        using loaded_estimate [OF cv(1,2) ok l _ _ e1] s2(4,5) by simp_all
      obtain s4 where "track_points cv tf mi mi ?pts ?s3 = Inr (s4, True)" "gR (objLeft s4) = Rot e1"
          "gt (objLeft s4) = tvec_out e1" "nheap s4 = heap e1"
        using e1 s2(6) cf(2) by (simp add: track_points_eq Let_def)
      then show ?thesis using 3 s2(1) d j Inr g pose_values_null_gt [of s4] by (auto simp: ConvertRGBtoGray_def)
    qed
  qed
qed

text \<open>With good inputs a frame that is not a touch returns.\<close>

lemma track_points_total:
  assumes cv: "create_ok cv" "dims_ok cv" and i: "native_inv s" and r: "running s" and l: "length pts < 2 ^ 31"
    and t: "touch_status (info s) \<noteq> 0" and w: "sortable pts"
    and p: "2 < length pts \<Longrightarrow> length pts = length (model_points (tracker_vars s)) \<Longrightarrow>
      \<exists>r. cv_solvePnPGeneric cv (model_points (tracker_vars s)) (sorted_points pts) (camera_matrix (info s))
        [zero, zero, zero, zero] SOLVEPNP_SQPNP = Inr r"
  shows "\<exists>s'. track_points cv tf mi mr pts s = Inr (s', True)"
proof -
  let ?e = "frame_env cv mr pts s"
  have k: "tracker_ok (trk ?e)" "length (model_points (trk ?e)) < 2 ^ 31" "trk ?e = tracker_vars s" "cam ?e = info s"
    using i by (simp_all add: native_inv_def frame_env_def)
  have "\<exists>e1. estimate_pose cv pts ?e = Inr (e1, True)"
    using estimate_pose_total [OF cv(2) k(1) l k(2) w] p by (auto simp: k(3,4))
  then show ?thesis using t by (auto simp: track_points_eq Let_def)
qed

lemma camera_matrix_settings:
  assumes "4 \<le> length cf" "set_camera_info cv cf s = Inr s'"
  shows "camera_matrix (info s') = camera_matrix ((info s)\<lparr>res_x := cf ! 1, res_y := cf ! 0\<rparr>)"
proof -
  obtain h1 R h2 r h3 t where "assign_eye cv (nheap s) (cam_R (info s)) = (h1, R)"
    "assign_zeros cv h1 (cam_rvec (info s)) = (h2, r)" "assign_zeros cv h2 (cam_tvec (info s)) = (h3, t)"
    by (metis surj_pair)
  from set_camera_info_eq [OF assms(1) this] assms(2) show ?thesis
    by (auto simp: camera_matrix_def camera_of_def)
qed

lemma frame_total:
  assumes cv: "create_ok cv" "dims_ok cv" "few_contours cv" and i: "native_inv s" and n: "\<not> loaded s"
    and j: "jmats s a = Some mi" "jmats s b = Some mb" and cf: "4 \<le> length cf" "cf ! 3 \<noteq> 0"
    and hsv: "cv_cvtColor cv (pix s (data mi)) COLOR_BGR2HSV = Inr hsv"
    and pts: "pts = blob_centres cv (accepted cv) (frame_contours cv hsv)" and w: "sortable pts"
    and p: "2 < length pts \<Longrightarrow> length pts = length (model_points (tracker_vars s)) \<Longrightarrow>
      \<exists>r. cv_solvePnPGeneric cv (model_points (tracker_vars s)) (sorted_points pts)
        (camera_matrix ((info s)\<lparr>res_x := cf ! 1, res_y := cf ! 0\<rparr>)) [zero, zero, zero, zero] SOLVEPNP_SQPNP = Inr r"
  shows "\<exists>s' rot' thrown. ConvertRGBtoGray cv tf a b rot cf s = Inr (s', rot', thrown, pts \<noteq> [])"
proof -
  let ?s1 = "s\<lparr>jmats := (jmats s)(b \<mapsto> mi), pinned_arrays := pinned_arrays s + 1\<rparr>"
  obtain s2 where s2: "set_camera_info cv cf ?s1 = Inr s2" "native_inv s2" "running s2" "pix s2 = pix ?s1" "tracker_vars s2 = tracker_vars s"
      "touch_status (info s2) = cf ! 3"
    by (rule frame_start [OF cv(1), of ?s1 cf]) (use i n cf in simp_all)
  have c: "camera_matrix (info s2) = camera_matrix ((info s)\<lparr>res_x := cf ! 1, res_y := cf ! 0\<rparr>)"
    "tracker_vars s2 = tracker_vars s"
    using camera_matrix_settings [OF cf(1) s2(1)] s2(5) by simp_all
  have h2: "cv_cvtColor cv (pix s2 (data mi)) COLOR_BGR2HSV = Inr hsv" using hsv s2(4) by simp
  obtain c2 pb where d: "detect_points cv (info s2) (pix s2) mi mi [] = Inr (c2, pb, pts)"
    using detect_points_spec [of cv "pix s2" mi hsv, OF h2] by (simp add: pts)
  have l: "length pts < 2 ^ 31" using detect_points_result [OF cv(3) d] by blast
  let ?s3 = "s2\<lparr>pix := pb\<rparr>"
  obtain s4 where s4: "(if pts \<noteq> [] then track_points cv tf mi mi pts ?s3 else Inr (?s3, False)) = Inr (s4, pts \<noteq> [])"
    "running s4"
  proof (cases "pts = []")
    case True
    then show ?thesis using that s2(3) by simp
  next
    case False
    have i3: "native_inv ?s3" "running ?s3" "touch_status (info ?s3) \<noteq> 0" using s2 cf(2) by simp_all
    obtain s4 where s4: "track_points cv tf mi mi pts ?s3 = Inr (s4, True)"
      using track_points_total [OF cv(1,2) i3(1,2) l i3(3) w, of tf mi mi] p c by auto
    then show ?thesis using that track_points_inv(2) [OF cv(1,2) i3(1,2) l s4] False by simp
  qed
  obtain rot' thrown where "SetFloatArrayRegion rot
      (gl_matrix (mat_values (nheap s4) (gR (objLeft s4))) (mat_values (nheap s4) (gt (objLeft s4)))) = (rot', thrown)"
    by fastforce
  then have "ConvertRGBtoGray cv tf a b rot cf s = Inr (s4, rot', thrown, pts \<noteq> [])"
    using s2(1) d s4(1) pose_values_running [OF s4(2)] j by (simp add: ConvertRGBtoGray_def Let_def)
  then show ?thesis by blast
qed

text \<open>The pose a call to the tracker leaves in the object, and what is read back from it.\<close>

lemma track_solved:
  assumes cv: "create_ok cv" "dims_ok cv" and i: "native_inv s" and r: "running s" and l: "length pts < 2 ^ 31"
    and t: "track_points cv tf mi mr pts s = Inr (s', b)"
    and s: "solves cv pts (frame_env cv mr pts s) = Some (r0, t0)"
  shows "mat_values (nheap s') (gR (objLeft s')) = solution_R cv r0"
    "mat_values (nheap s') (gt (objLeft s')) = solution_t cv r0 t0"
    "mat_values (nheap s') (gr (objLeft s')) = solution_r cv r0" "new_arrays s' = new_arrays s + 1"
proof -
  let ?e = "frame_env cv mr pts s"
  obtain e1 where e1: "estimate_pose cv pts ?e = Inr (e1, b)" "nheap s' = heap e1" "gR (objLeft s') = Rot e1"
    "gr (objLeft s') = rvec_out e1" "gt (objLeft s') = tvec_out e1" "new_arrays s' = new_live e1" "info s' = info s"
    by (rule track_points_result [OF t]) blast
  have out: "pose_outcome cv pts ?e e1"
    using estimate_pose_outcome(2) [OF cv(2) _ l _ e1(1)] i by (simp add: native_inv_def frame_env_def)
  note p = pose_outcome_solved [OF cv frame_env_ok [OF i r] out s]
  show "mat_values (nheap s') (gt (objLeft s')) = solution_t cv r0 t0"
    "mat_values (nheap s') (gr (objLeft s')) = solution_r cv r0" "new_arrays s' = new_arrays s + 1"
    using p by (simp_all add: e1 holds_def frame_env_def)
  show "mat_values (nheap s') (gR (objLeft s')) = solution_R cv r0"
    using track_points_inv(5) [OF cv i r l t] p(1) by (simp add: e1 holds_def frame_env_def)
qed

lemma track_unsolved:
  assumes cv: "create_ok cv" "dims_ok cv" and i: "native_inv s" and r: "running s" and l: "length pts < 2 ^ 31"
    and t: "track_points cv tf mi mr pts s = Inr (s', b)"
    and s: "solves cv pts (frame_env cv mr pts s) = None"
  shows "mat_values (nheap s') (gR (objLeft s')) = mat_values (nheap s) (cam_R (info s))"
    "mat_values (nheap s') (gt (objLeft s')) = mat_values (nheap s) (gt (objLeft s))"
    "new_arrays s' = new_arrays s"
proof -
  let ?e = "frame_env cv mr pts s"
  obtain e1 where e1: "estimate_pose cv pts ?e = Inr (e1, b)" "nheap s' = heap e1" "gR (objLeft s') = Rot e1"
    "gr (objLeft s') = rvec_out e1" "gt (objLeft s') = tvec_out e1" "new_arrays s' = new_live e1" "info s' = info s"
    by (rule track_points_result [OF t]) blast
  have out: "pose_outcome cv pts ?e e1"
    using estimate_pose_outcome(2) [OF cv(2) _ l _ e1(1)] i by (simp add: native_inv_def frame_env_def)
  note p = pose_outcome_unsolved [OF cv(1) frame_env_ok [OF i r] out s]
  have f: "same_except nullptr (nheap s) (heap e1)" using p(4) by (simp add: frame_env_def)
  have k: "mat_values (heap e1) m = mat_values (nheap s) m" if "Ex (holds (nheap s) m k c)" for m k c
    using that holds_frame_null [OF f] by (metis holds_def)
  have "mat_values (heap e1) (cam_R (info s)) = mat_values (nheap s) (cam_R (info s))"
    "mat_values (heap e1) (gt (objLeft s)) = mat_values (nheap s) (gt (objLeft s))"
    using k [of _ 3 3] k [of _ 3 1] r by (simp_all add: running_def owned_Cons cam_mats_def pose_mats_def)
  then show "mat_values (nheap s') (gR (objLeft s')) = mat_values (nheap s) (cam_R (info s))"
    "mat_values (nheap s') (gt (objLeft s')) = mat_values (nheap s) (gt (objLeft s))"
    using track_points_inv(5) [OF cv i r l t] p(2) by (simp_all add: e1 frame_env_def)
  show "new_arrays s' = new_arrays s" using p(3) by (simp add: e1 frame_env_def)
qed

lemma frame_no_points:
  assumes cv: "create_ok cv" "dims_ok cv" "few_contours cv" and i: "native_inv s" and n: "\<not> loaded s"
    and f: "ConvertRGBtoGray cv tf a b rot cf s = Inr (s', rot', thrown, res)"
    and hsv: "jmats s a = Some mi" "cv_cvtColor cv (pix s (data mi)) COLOR_BGR2HSV = Inr hsv"
    and p: "blob_centres cv (accepted cv) (frame_contours cv hsv) = []"
  shows "objLeft s' = objLeft s" "\<not> res" "rot' = fst (SetFloatArrayRegion rot
       (gl_matrix (mat_values (nheap s) (gR (objLeft s))) (mat_values (nheap s) (gt (objLeft s)))))"
proof -
  let ?s1 = "s\<lparr>jmats := (jmats s)(b \<mapsto> mi), pinned_arrays := pinned_arrays s + 1\<rparr>"
  obtain s2 c2 pb pts vs where s2: "set_camera_info cv cf ?s1 = Inr s2"
    and d: "detect_points cv (info s2) (pix s2) mi mi [] = Inr (c2, pb, pts)"
    and t: "(if pts \<noteq> [] then track_points cv tf mi mi pts (s2\<lparr>pix := pb\<rparr>) else Inr (s2\<lparr>pix := pb\<rparr>, False)) = Inr (s', res)"
    using frame_steps [OF f] hsv(1) by (metis option.inject)
  have cf: "4 \<le> length cf" by (rule frame_inv(3) [OF cv i n f])
  obtain s3 where s3: "set_camera_info cv cf ?s1 = Inr s3" "objLeft s3 = objLeft s" "pix s3 = pix s"
    "\<And>m. m \<in> {gR (objLeft s), gt (objLeft s), gr (objLeft s)} \<Longrightarrow> mat_values (nheap s3) m = mat_values (nheap s) m"
    by (rule frame_start [OF cv(1), of ?s1 cf]) (use i n cf in simp_all)
  then have "s3 = s2" using s2 by simp
  have "pts = []"
    by (rule detect_points_result [OF cv(3) d]) (use hsv(2) p s3(3) \<open>s3 = s2\<close> in simp)
  then have s': "s' = s2\<lparr>pix := pb\<rparr>" "\<not> res" using t by auto
  show "objLeft s' = objLeft s" "\<not> res" using s' s3(2) \<open>s3 = s2\<close> by simp_all
  show "rot' = fst (SetFloatArrayRegion rot
       (gl_matrix (mat_values (nheap s) (gR (objLeft s))) (mat_values (nheap s) (gt (objLeft s)))))"
    using frame_inv(5) [OF cv i n f] s'(1) s3(2,4) \<open>s3 = s2\<close> by simp
qed

section \<open>The two reading calls\<close>

lemma cvt_zero [simp]: "fl_cvt f zero = zero"
  by simp

lemma GetRvecTvec_zero:
  assumes "globals_reset s"
  shows "GetRvecTvec s rvec tvec = Inr (fst (SetFloatArrayRegion rvec [zero, zero, zero]),
     fst (SetFloatArrayRegion tvec [zero, zero, zero]), length rvec < 3 \<or> length tvec < 3)"
proof -
  have "read_all (mat_at (nheap s) (global_gr s) 0) [0, 1, 2] = Inr [zero, zero, zero]"
    "read_all (mat_at (nheap s) (global_gt s) 0) [0, 1, 2] = Inr [zero, zero, zero]"
    using assms read_vec3 by (simp_all add: mat_at_def [abs_def] globals_reset_def zeros3_def del: read_all.simps)
  then show ?thesis by (auto simp: GetRvecTvec_def SetFloatArrayRegion_def simp del: read_all.simps)
qed

lemma NativeInfo_running:
  assumes "running s" "counters_unmoved s"
  shows "NativeInfo s arr = Inr (SetFloatArrayRegion arr
     (map (fl_cvt Binary32) (mat_values (nheap s) (cam_R (info s))) @ replicate 7 zero))"
proof -
  obtain R where R: "holds (nheap s) (cam_R (info s)) 3 3 R"
    using assms(1) by (auto simp: running_def owned_Cons cam_mats_def)
  have "rv (info s) = mat_ptr (cam_R (info s)) 0" "tv (info s) = mat_ptr (cam_tvec (info s)) 0"
    "holds (nheap s) (cam_tvec (info s)) 3 1 [zero, zero, zero]"
    using assms(1) by (simp_all add: running_def cam_set_def zeros3_def)
  moreover have "mat_values (nheap s) (cam_R (info s)) = R" using R by (simp add: holds_def)
  moreover have "replicate 7 zero = [zero, zero, zero, zero, zero, zero, zero]" by (simp add: numeral_eq_Suc)
  ultimately show ?thesis using read_mat9 [OF R] read_vec3 assms(2)
    by (simp add: NativeInfo_def counters_unmoved_def fl_of_int_def del: read_all.simps)
qed

lemma NativeInfo_unset: "cam_unset s \<Longrightarrow> NativeInfo s arr = Inl NullDeref"
  by (simp add: NativeInfo_def cam_unset_def deref_def)

lemma GetRvecTvec_unset: "pose_unset s \<Longrightarrow> GetRvecTvec s r t = Inl NullDeref"
  by (simp add: GetRvecTvec_def pose_unset_def mat_at_def deref_def mat_ptr_def)

end
