(* ===== verification/Native_Calls.thy ===== *)
theory Native_Calls
  imports Native_Frame Cv_Sample
begin

text \<open>
  The library as a state machine: the calls the Java side makes, in any order, between which it
  may replace its own images. Runs are sequences of calls that return.
\<close>

section \<open>Calls and runs\<close>

datatype jni_call =
    Load_model addr int
  | Init_matrix
  | Get_pose "float32 list" "float32 list"
  | Get_info "float32 list"
  | Frame nat nat "float32 list" "int list"
  | New_images

inductive jni_step ::
  "'img cv_api \<Rightarrow> 'model tfl_api \<Rightarrow> ('img, 'model) native_state \<Rightarrow> jni_call \<Rightarrow> ('img, 'model) native_state \<Rightarrow> bool"
  for cv tf where
  load_step: "InitJniWithByteBuffer tf a n s = Inr s' \<Longrightarrow> jni_step cv tf s (Load_model a n) s'"
| matrix_step: "jni_step cv tf s Init_matrix (InitMatrix cv s)"
| pose_step: "GetRvecTvec s r t = Inr out \<Longrightarrow> jni_step cv tf s (Get_pose r t) s"
| info_step: "NativeInfo s arr = Inr out \<Longrightarrow> jni_step cv tf s (Get_info arr) s"
| frame_step: "ConvertRGBtoGray cv tf a b rot cf s = Inr (s', rot', thrown, res) \<Longrightarrow>
     jni_step cv tf s (Frame a b rot cf) s'"
| images_step: "jni_step cv tf s New_images (s\<lparr>pix := pb, jmats := jm\<rparr>)"

inductive_cases jni_step_elims:
  "jni_step cv tf s (Load_model a n) s'" "jni_step cv tf s Init_matrix s'" "jni_step cv tf s (Get_pose r t) s'"
  "jni_step cv tf s (Get_info arr) s'" "jni_step cv tf s (Frame a b rot cf) s'" "jni_step cv tf s New_images s'"

inductive jni_run ::
  "'img cv_api \<Rightarrow> 'model tfl_api \<Rightarrow> jni_call list \<Rightarrow> ('img, 'model) native_state \<Rightarrow> bool"
  for cv tf where
  run_start: "jni_run cv tf [] (library_loaded pb jm)"
| run_step: "jni_run cv tf cs s \<Longrightarrow> jni_step cv tf s c s' \<Longrightarrow> jni_run cv tf (cs @ [c]) s'"

text \<open>What the development assumes of OpenCV.\<close>

definition lib_ok :: "'img cv_api \<Rightarrow> bool" where
  "lib_ok cv \<longleftrightarrow> create_ok cv \<and> dims_ok cv \<and> few_contours cv"

lemma lib_okD: "lib_ok cv \<Longrightarrow> create_ok cv" "lib_ok cv \<Longrightarrow> dims_ok cv" "lib_ok cv \<Longrightarrow> few_contours cv"
  by (simp_all add: lib_ok_def)

lemma sample_lib_ok: "lib_ok sample_cv"
  by (simp add: lib_ok_def sample_create_ok sample_dims_ok) (simp add: few_contours_def sample_cv_def min_less_iff_disj)

section \<open>The interface of an invariant\<close>

text \<open>
  A predicate that holds at the start and that every step keeps while the library behaves. What
  follows for whole runs is proved once.
\<close>

locale call_invariant =
  fixes ok :: "'l \<Rightarrow> bool"
    and start :: "'s \<Rightarrow> bool"
    and step :: "'l \<Rightarrow> 's \<Rightarrow> 'c \<Rightarrow> 's \<Rightarrow> bool"
    and run :: "'l \<Rightarrow> 'c list \<Rightarrow> 's \<Rightarrow> bool"
    and good :: "'s \<Rightarrow> bool"
  assumes run_induct: "run l cs s \<Longrightarrow> (\<And>s. start s \<Longrightarrow> P [] s) \<Longrightarrow>
      (\<And>cs s c s'. run l cs s \<Longrightarrow> P cs s \<Longrightarrow> step l s c s' \<Longrightarrow> P (cs @ [c]) s') \<Longrightarrow> P cs s"
    and good_start: "start s \<Longrightarrow> good s"
    and good_step: "ok l \<Longrightarrow> good s \<Longrightarrow> step l s c s' \<Longrightarrow> good s'"
begin

lemma run_good:
  assumes "ok l" "run l cs s"
  shows "good s"
  by (rule run_induct [OF assms(2), of "\<lambda>_. good"]) (auto intro: good_start good_step [OF assms(1)])

text \<open>A property of the calls made so far, by induction along the run.\<close>

lemma run_history:
  assumes "ok l" "run l cs s"
    and "\<And>s. start s \<Longrightarrow> P [] s"
    and "\<And>cs s c s'. good s \<Longrightarrow> P cs s \<Longrightarrow> step l s c s' \<Longrightarrow> P (cs @ [c]) s'"
  shows "P cs s"
  by (rule run_induct [OF assms(2), of P]) (use assms(3,4) run_good [OF assms(1)] in blast)+

end

lemma jni_step_inv:
  assumes "lib_ok cv" "native_inv s" "jni_step cv tf s c s'"
  shows "native_inv s'"
  using assms(3)
proof cases
  case (frame_step a b rot cf rot' thrown res)
  then show ?thesis using frame_inv(1) frame_loaded_fails assms(1,2) lib_okD by (metis Inl_Inr_False)
next
  case (images_step pb jm)
  then show ?thesis using assms(2) by (simp add: inv_defs pose_mats_def cam_mats_def)
qed (use assms load_model_inv InitMatrix_inv(1) lib_okD in blast)+

interpretation jni: call_invariant "\<lambda>(cv, tf). lib_ok cv" "\<lambda>s. \<exists>pb jm. s = library_loaded pb jm"
    "\<lambda>(cv, tf). jni_step cv tf" "\<lambda>(cv, tf). jni_run cv tf" native_inv
proof (unfold_locales, goal_cases)
  case (1 l cs s P)
  obtain cv tf where l: "l = (cv, tf)" by fastforce
  have "jni_run cv tf cs s" using 1(1) l by simp
  then show ?case by induct (use 1(2,3) l in auto)
next
  case (2 s)
  then show ?case using library_loaded_inv(1) by blast
next
  case (3 l s c s')
  then show ?case using jni_step_inv by (cases l) auto
qed

section \<open>Which calls have been made\<close>

fun is_Frame :: "jni_call \<Rightarrow> bool" where
  "is_Frame (Frame a b rot cf) = True"
| "is_Frame c = False"

definition frames :: "jni_call list \<Rightarrow> nat" where
  "frames cs = length (filter is_Frame cs)"

lemma phases_disjoint: "ready s \<Longrightarrow> \<not> loaded s" "running s \<Longrightarrow> \<not> loaded s" "running s \<Longrightarrow> \<not> ready s"
  by (auto simp: ready_def running_def loaded_def pose_unset_def cam_unset_def pose_mats_def cam_mats_def owned_Cons
      dest: holds_bounds(2))

lemma load_model_phase:
  assumes "InitJniWithByteBuffer tf a n s = Inr s'"
  shows "loaded s' = loaded s" "running s' = running s" "pinned_arrays s' = pinned_arrays s"
  using load_model_frame [OF assms] assms
  by (auto simp: inv_defs pose_mats_def cam_mats_def InitJniWithByteBuffer_def Let_def)

lemma images_phase:
  "loaded (s\<lparr>pix := pb, jmats := jm\<rparr>) = loaded s" "running (s\<lparr>pix := pb, jmats := jm\<rparr>) = running s"
  by (simp_all add: inv_defs pose_mats_def cam_mats_def)

lemma InitMatrix_running:
  assumes "create_ok cv" "native_inv s"
  shows "running (InitMatrix cv s) = running s" "\<not> loaded (InitMatrix cv s)" "pinned_arrays (InitMatrix cv s) = pinned_arrays s"
proof -
  have c: "cam_unset (InitMatrix cv s) = cam_unset s" by (simp add: cam_unset_def InitMatrix_frame)
  have u: "running s' = (\<not> cam_unset s')" if "native_inv s'" "\<not> loaded s'" for s' :: "('a, 'b) native_state"
    using that by (auto simp: native_inv_def ready_def running_def cam_unset_def cam_mats_def owned_Cons dest: holds_bounds(2))
  show l: "\<not> loaded (InitMatrix cv s)" using InitMatrix_inv(2) [OF assms] phases_disjoint by blast
  show "running (InitMatrix cv s) = running s"
    using u [OF InitMatrix_inv(1) [OF assms] l] c u [OF assms(2)] phases_disjoint(2) [of s]
    by (cases "loaded s") (auto simp: loaded_def)
  show "pinned_arrays (InitMatrix cv s) = pinned_arrays s"
    by (simp add: InitMatrix_def init_def Let_def split: prod.splits)
qed

lemma run_phases:
  assumes "lib_ok cv" "jni_run cv tf cs s"
  shows "(loaded s \<longleftrightarrow> Init_matrix \<notin> set cs) \<and> (running s \<longleftrightarrow> 0 < frames cs) \<and> pinned_arrays s = frames cs"
proof (rule jni.run_history [of "(cv, tf)" cs s])
  fix s :: "('a, 'b) native_state" assume "\<exists>pb jm. s = library_loaded pb jm"
  then obtain pb jm where s: "s = library_loaded pb jm" by blast
  have "loaded s" "pinned_arrays s = 0" using library_loaded_inv(2) by (simp_all add: s library_loaded_def)
  then show "(loaded s \<longleftrightarrow> Init_matrix \<notin> set []) \<and> (running s \<longleftrightarrow> 0 < frames []) \<and> pinned_arrays s = frames []"
    using phases_disjoint(2) by (auto simp: frames_def)
next
  fix cs s c and s' :: "('a, 'b) native_state"
  assume i: "native_inv s" and ih: "(loaded s \<longleftrightarrow> Init_matrix \<notin> set cs) \<and> (running s \<longleftrightarrow> 0 < frames cs) \<and> pinned_arrays s = frames cs"
    and st: "(case (cv, tf) of (cv, tf) \<Rightarrow> jni_step cv tf) s c s'"
  have "jni_step cv tf s c s'" using st by simp
  then show "(loaded s' \<longleftrightarrow> Init_matrix \<notin> set (cs @ [c])) \<and> (running s' \<longleftrightarrow> 0 < frames (cs @ [c])) \<and>
      pinned_arrays s' = frames (cs @ [c])"
  proof cases
    case (frame_step a b rot cf rot' thrown res)
    note cv = lib_okD [OF assms(1)]
    have n: "\<not> loaded s" using frame_loaded_fails [OF cv i, of tf a b rot cf] frame_step(2) by auto
    show ?thesis using frame_inv(2,4) [OF cv i n frame_step(2)] phases_disjoint(2) [of s'] ih n frame_step(1)
      by (auto simp: frames_def)
  next
    case (load_step a n)
    then show ?thesis using ih load_model_phase [OF load_step(2)] by (auto simp: frames_def)
  next
    case matrix_step
    then show ?thesis using ih InitMatrix_running [OF lib_okD(1) [OF assms(1)] i] by (auto simp: frames_def)
  qed (use ih in \<open>auto simp: frames_def images_phase\<close>)
qed (use assms in simp_all)

end
