(* ===== verification/Tflite_Schema.thy ===== *)
theory Tflite_Schema
  imports Ieee_Float
begin

text \<open>
  The part of the TensorFlow Lite schema the operator parser reads
  (tensorflow/lite/schema/schema_generated.h): enumerators, the options tables of the operators
  and their field accessors. A flatbuffer table is the fields its vtable has an entry for; an
  accessor returns the stored value or the default of the schema. A model file may store any
  value in an enumeration field, so enumeration fields are integers and the enumerators are
  names for their values.
\<close>

section \<open>Tables\<close>

record fb_table =
  fb_ints :: "nat \<rightharpoonup> int"
  fb_floats :: "nat \<rightharpoonup> float32"
  fb_vecs :: "nat \<rightharpoonup> int list"

definition empty_table :: fb_table where
  "empty_table = \<lparr>fb_ints = Map.empty, fb_floats = Map.empty, fb_vecs = Map.empty\<rparr>"

definition GetField :: "fb_table \<Rightarrow> nat \<Rightarrow> int \<Rightarrow> int" where
  "GetField t field default_value = (case fb_ints t field of None \<Rightarrow> default_value | Some v \<Rightarrow> v)"

definition GetField_float :: "fb_table \<Rightarrow> nat \<Rightarrow> float32 \<Rightarrow> float32" where
  "GetField_float t field default_value = (case fb_floats t field of None \<Rightarrow> default_value | Some v \<Rightarrow> v)"

definition GetPointer_vec :: "fb_table \<Rightarrow> nat \<Rightarrow> int list option" where
  "GetPointer_vec t field = fb_vecs t field"

lemmas table_defs = GetField_def GetField_float_def GetPointer_vec_def

lemma empty_table_fields [simp]:
  "GetField empty_table f d = d" "GetField_float empty_table f x = x" "GetPointer_vec empty_table f = None"
  by (simp_all add: table_defs empty_table_def)

section \<open>Enumerators\<close>

text \<open>\<^verbatim>\<open>enum ActivationFunctionType\<close>.\<close>

abbreviation (input) ActivationFunctionType_NONE :: int where "ActivationFunctionType_NONE \<equiv> 0"
abbreviation (input) ActivationFunctionType_RELU :: int where "ActivationFunctionType_RELU \<equiv> 1"
abbreviation (input) ActivationFunctionType_RELU_N1_TO_1 :: int where "ActivationFunctionType_RELU_N1_TO_1 \<equiv> 2"
abbreviation (input) ActivationFunctionType_RELU6 :: int where "ActivationFunctionType_RELU6 \<equiv> 3"
abbreviation (input) ActivationFunctionType_TANH :: int where "ActivationFunctionType_TANH \<equiv> 4"
abbreviation (input) ActivationFunctionType_SIGN_BIT :: int where "ActivationFunctionType_SIGN_BIT \<equiv> 5"

text \<open>\<^verbatim>\<open>enum Padding\<close>.\<close>

abbreviation (input) Padding_SAME :: int where "Padding_SAME \<equiv> 0"
abbreviation (input) Padding_VALID :: int where "Padding_VALID \<equiv> 1"

text \<open>\<^verbatim>\<open>enum TensorType\<close>.\<close>

abbreviation (input) TensorType_FLOAT32 :: int where "TensorType_FLOAT32 \<equiv> 0"
abbreviation (input) TensorType_FLOAT16 :: int where "TensorType_FLOAT16 \<equiv> 1"
abbreviation (input) TensorType_INT32 :: int where "TensorType_INT32 \<equiv> 2"
abbreviation (input) TensorType_UINT8 :: int where "TensorType_UINT8 \<equiv> 3"
abbreviation (input) TensorType_INT64 :: int where "TensorType_INT64 \<equiv> 4"
abbreviation (input) TensorType_STRING :: int where "TensorType_STRING \<equiv> 5"
abbreviation (input) TensorType_BOOL :: int where "TensorType_BOOL \<equiv> 6"
abbreviation (input) TensorType_INT16 :: int where "TensorType_INT16 \<equiv> 7"
abbreviation (input) TensorType_COMPLEX64 :: int where "TensorType_COMPLEX64 \<equiv> 8"
abbreviation (input) TensorType_INT8 :: int where "TensorType_INT8 \<equiv> 9"
abbreviation (input) TensorType_FLOAT64 :: int where "TensorType_FLOAT64 \<equiv> 10"
abbreviation (input) TensorType_COMPLEX128 :: int where "TensorType_COMPLEX128 \<equiv> 11"
abbreviation (input) TensorType_UINT64 :: int where "TensorType_UINT64 \<equiv> 12"
abbreviation (input) TensorType_RESOURCE :: int where "TensorType_RESOURCE \<equiv> 13"
abbreviation (input) TensorType_VARIANT :: int where "TensorType_VARIANT \<equiv> 14"
abbreviation (input) TensorType_UINT32 :: int where "TensorType_UINT32 \<equiv> 15"

text \<open>\<^verbatim>\<open>enum LSHProjectionType\<close>.\<close>

abbreviation (input) LSHProjectionType_UNKNOWN :: int where "LSHProjectionType_UNKNOWN \<equiv> 0"
abbreviation (input) LSHProjectionType_SPARSE :: int where "LSHProjectionType_SPARSE \<equiv> 1"
abbreviation (input) LSHProjectionType_DENSE :: int where "LSHProjectionType_DENSE \<equiv> 2"

text \<open>\<^verbatim>\<open>enum CombinerType\<close>.\<close>

abbreviation (input) CombinerType_SUM :: int where "CombinerType_SUM \<equiv> 0"
abbreviation (input) CombinerType_MEAN :: int where "CombinerType_MEAN \<equiv> 1"
abbreviation (input) CombinerType_SQRTN :: int where "CombinerType_SQRTN \<equiv> 2"

text \<open>\<^verbatim>\<open>enum LSTMKernelType\<close>.\<close>

abbreviation (input) LSTMKernelType_FULL :: int where "LSTMKernelType_FULL \<equiv> 0"
abbreviation (input) LSTMKernelType_BASIC :: int where "LSTMKernelType_BASIC \<equiv> 1"

text \<open>\<^verbatim>\<open>enum MirrorPadMode\<close>.\<close>

abbreviation (input) MirrorPadMode_REFLECT :: int where "MirrorPadMode_REFLECT \<equiv> 0"
abbreviation (input) MirrorPadMode_SYMMETRIC :: int where "MirrorPadMode_SYMMETRIC \<equiv> 1"

text \<open>\<^verbatim>\<open>enum FullyConnectedOptionsWeightsFormat\<close>.\<close>

abbreviation (input) FullyConnectedOptionsWeightsFormat_DEFAULT :: int where "FullyConnectedOptionsWeightsFormat_DEFAULT \<equiv> 0"
abbreviation (input) FullyConnectedOptionsWeightsFormat_SHUFFLED4x16INT8 :: int where "FullyConnectedOptionsWeightsFormat_SHUFFLED4x16INT8 \<equiv> 1"

text \<open>\<^verbatim>\<open>enum BuiltinOptions\<close>.\<close>

abbreviation (input) BuiltinOptions_Conv2DOptions :: int where "BuiltinOptions_Conv2DOptions \<equiv> 1"
abbreviation (input) BuiltinOptions_DepthwiseConv2DOptions :: int where "BuiltinOptions_DepthwiseConv2DOptions \<equiv> 2"
abbreviation (input) BuiltinOptions_LSHProjectionOptions :: int where "BuiltinOptions_LSHProjectionOptions \<equiv> 4"
abbreviation (input) BuiltinOptions_Pool2DOptions :: int where "BuiltinOptions_Pool2DOptions \<equiv> 5"
abbreviation (input) BuiltinOptions_SVDFOptions :: int where "BuiltinOptions_SVDFOptions \<equiv> 6"
abbreviation (input) BuiltinOptions_RNNOptions :: int where "BuiltinOptions_RNNOptions \<equiv> 7"
abbreviation (input) BuiltinOptions_FullyConnectedOptions :: int where "BuiltinOptions_FullyConnectedOptions \<equiv> 8"
abbreviation (input) BuiltinOptions_SoftmaxOptions :: int where "BuiltinOptions_SoftmaxOptions \<equiv> 9"
abbreviation (input) BuiltinOptions_ConcatenationOptions :: int where "BuiltinOptions_ConcatenationOptions \<equiv> 10"
abbreviation (input) BuiltinOptions_AddOptions :: int where "BuiltinOptions_AddOptions \<equiv> 11"
abbreviation (input) BuiltinOptions_L2NormOptions :: int where "BuiltinOptions_L2NormOptions \<equiv> 12"
abbreviation (input) BuiltinOptions_LocalResponseNormalizationOptions :: int where "BuiltinOptions_LocalResponseNormalizationOptions \<equiv> 13"
abbreviation (input) BuiltinOptions_LSTMOptions :: int where "BuiltinOptions_LSTMOptions \<equiv> 14"
abbreviation (input) BuiltinOptions_ResizeBilinearOptions :: int where "BuiltinOptions_ResizeBilinearOptions \<equiv> 15"
abbreviation (input) BuiltinOptions_ReshapeOptions :: int where "BuiltinOptions_ReshapeOptions \<equiv> 17"
abbreviation (input) BuiltinOptions_SkipGramOptions :: int where "BuiltinOptions_SkipGramOptions \<equiv> 18"
abbreviation (input) BuiltinOptions_SpaceToDepthOptions :: int where "BuiltinOptions_SpaceToDepthOptions \<equiv> 19"
abbreviation (input) BuiltinOptions_EmbeddingLookupSparseOptions :: int where "BuiltinOptions_EmbeddingLookupSparseOptions \<equiv> 20"
abbreviation (input) BuiltinOptions_MulOptions :: int where "BuiltinOptions_MulOptions \<equiv> 21"
abbreviation (input) BuiltinOptions_GatherOptions :: int where "BuiltinOptions_GatherOptions \<equiv> 23"
abbreviation (input) BuiltinOptions_ReducerOptions :: int where "BuiltinOptions_ReducerOptions \<equiv> 27"
abbreviation (input) BuiltinOptions_SubOptions :: int where "BuiltinOptions_SubOptions \<equiv> 28"
abbreviation (input) BuiltinOptions_DivOptions :: int where "BuiltinOptions_DivOptions \<equiv> 29"
abbreviation (input) BuiltinOptions_SqueezeOptions :: int where "BuiltinOptions_SqueezeOptions \<equiv> 30"
abbreviation (input) BuiltinOptions_SequenceRNNOptions :: int where "BuiltinOptions_SequenceRNNOptions \<equiv> 31"
abbreviation (input) BuiltinOptions_StridedSliceOptions :: int where "BuiltinOptions_StridedSliceOptions \<equiv> 32"
abbreviation (input) BuiltinOptions_SplitOptions :: int where "BuiltinOptions_SplitOptions \<equiv> 35"
abbreviation (input) BuiltinOptions_CastOptions :: int where "BuiltinOptions_CastOptions \<equiv> 37"
abbreviation (input) BuiltinOptions_ArgMaxOptions :: int where "BuiltinOptions_ArgMaxOptions \<equiv> 40"
abbreviation (input) BuiltinOptions_TransposeConvOptions :: int where "BuiltinOptions_TransposeConvOptions \<equiv> 49"
abbreviation (input) BuiltinOptions_SparseToDenseOptions :: int where "BuiltinOptions_SparseToDenseOptions \<equiv> 50"
abbreviation (input) BuiltinOptions_ShapeOptions :: int where "BuiltinOptions_ShapeOptions \<equiv> 55"
abbreviation (input) BuiltinOptions_ArgMinOptions :: int where "BuiltinOptions_ArgMinOptions \<equiv> 57"
abbreviation (input) BuiltinOptions_FakeQuantOptions :: int where "BuiltinOptions_FakeQuantOptions \<equiv> 58"
abbreviation (input) BuiltinOptions_PackOptions :: int where "BuiltinOptions_PackOptions \<equiv> 59"
abbreviation (input) BuiltinOptions_OneHotOptions :: int where "BuiltinOptions_OneHotOptions \<equiv> 61"
abbreviation (input) BuiltinOptions_UnpackOptions :: int where "BuiltinOptions_UnpackOptions \<equiv> 64"
abbreviation (input) BuiltinOptions_BidirectionalSequenceLSTMOptions :: int where "BuiltinOptions_BidirectionalSequenceLSTMOptions \<equiv> 69"
abbreviation (input) BuiltinOptions_BidirectionalSequenceRNNOptions :: int where "BuiltinOptions_BidirectionalSequenceRNNOptions \<equiv> 70"
abbreviation (input) BuiltinOptions_UnidirectionalSequenceLSTMOptions :: int where "BuiltinOptions_UnidirectionalSequenceLSTMOptions \<equiv> 71"
abbreviation (input) BuiltinOptions_ResizeNearestNeighborOptions :: int where "BuiltinOptions_ResizeNearestNeighborOptions \<equiv> 74"
abbreviation (input) BuiltinOptions_LeakyReluOptions :: int where "BuiltinOptions_LeakyReluOptions \<equiv> 75"
abbreviation (input) BuiltinOptions_MirrorPadOptions :: int where "BuiltinOptions_MirrorPadOptions \<equiv> 77"
abbreviation (input) BuiltinOptions_SplitVOptions :: int where "BuiltinOptions_SplitVOptions \<equiv> 79"
abbreviation (input) BuiltinOptions_UniqueOptions :: int where "BuiltinOptions_UniqueOptions \<equiv> 80"
abbreviation (input) BuiltinOptions_ReverseSequenceOptions :: int where "BuiltinOptions_ReverseSequenceOptions \<equiv> 87"
abbreviation (input) BuiltinOptions_IfOptions :: int where "BuiltinOptions_IfOptions \<equiv> 92"
abbreviation (input) BuiltinOptions_WhileOptions :: int where "BuiltinOptions_WhileOptions \<equiv> 93"
abbreviation (input) BuiltinOptions_DepthToSpaceOptions :: int where "BuiltinOptions_DepthToSpaceOptions \<equiv> 94"
abbreviation (input) BuiltinOptions_BatchMatMulOptions :: int where "BuiltinOptions_BatchMatMulOptions \<equiv> 101"
abbreviation (input) BuiltinOptions_CumsumOptions :: int where "BuiltinOptions_CumsumOptions \<equiv> 102"
abbreviation (input) BuiltinOptions_CallOnceOptions :: int where "BuiltinOptions_CallOnceOptions \<equiv> 103"
abbreviation (input) BuiltinOptions_Conv3DOptions :: int where "BuiltinOptions_Conv3DOptions \<equiv> 106"
abbreviation (input) BuiltinOptions_HashtableOptions :: int where "BuiltinOptions_HashtableOptions \<equiv> 107"

text \<open>\<^verbatim>\<open>enum BuiltinOperator\<close>.\<close>

abbreviation (input) BuiltinOperator_ADD :: int where "BuiltinOperator_ADD \<equiv> 0"
abbreviation (input) BuiltinOperator_AVERAGE_POOL_2D :: int where "BuiltinOperator_AVERAGE_POOL_2D \<equiv> 1"
abbreviation (input) BuiltinOperator_CONCATENATION :: int where "BuiltinOperator_CONCATENATION \<equiv> 2"
abbreviation (input) BuiltinOperator_CONV_2D :: int where "BuiltinOperator_CONV_2D \<equiv> 3"
abbreviation (input) BuiltinOperator_DEPTHWISE_CONV_2D :: int where "BuiltinOperator_DEPTHWISE_CONV_2D \<equiv> 4"
abbreviation (input) BuiltinOperator_DEPTH_TO_SPACE :: int where "BuiltinOperator_DEPTH_TO_SPACE \<equiv> 5"
abbreviation (input) BuiltinOperator_DEQUANTIZE :: int where "BuiltinOperator_DEQUANTIZE \<equiv> 6"
abbreviation (input) BuiltinOperator_EMBEDDING_LOOKUP :: int where "BuiltinOperator_EMBEDDING_LOOKUP \<equiv> 7"
abbreviation (input) BuiltinOperator_FLOOR :: int where "BuiltinOperator_FLOOR \<equiv> 8"
abbreviation (input) BuiltinOperator_FULLY_CONNECTED :: int where "BuiltinOperator_FULLY_CONNECTED \<equiv> 9"
abbreviation (input) BuiltinOperator_HASHTABLE_LOOKUP :: int where "BuiltinOperator_HASHTABLE_LOOKUP \<equiv> 10"
abbreviation (input) BuiltinOperator_L2_NORMALIZATION :: int where "BuiltinOperator_L2_NORMALIZATION \<equiv> 11"
abbreviation (input) BuiltinOperator_L2_POOL_2D :: int where "BuiltinOperator_L2_POOL_2D \<equiv> 12"
abbreviation (input) BuiltinOperator_LOCAL_RESPONSE_NORMALIZATION :: int where "BuiltinOperator_LOCAL_RESPONSE_NORMALIZATION \<equiv> 13"
abbreviation (input) BuiltinOperator_LOGISTIC :: int where "BuiltinOperator_LOGISTIC \<equiv> 14"
abbreviation (input) BuiltinOperator_LSH_PROJECTION :: int where "BuiltinOperator_LSH_PROJECTION \<equiv> 15"
abbreviation (input) BuiltinOperator_LSTM :: int where "BuiltinOperator_LSTM \<equiv> 16"
abbreviation (input) BuiltinOperator_MAX_POOL_2D :: int where "BuiltinOperator_MAX_POOL_2D \<equiv> 17"
abbreviation (input) BuiltinOperator_MUL :: int where "BuiltinOperator_MUL \<equiv> 18"
abbreviation (input) BuiltinOperator_RELU :: int where "BuiltinOperator_RELU \<equiv> 19"
abbreviation (input) BuiltinOperator_RELU_N1_TO_1 :: int where "BuiltinOperator_RELU_N1_TO_1 \<equiv> 20"
abbreviation (input) BuiltinOperator_RELU6 :: int where "BuiltinOperator_RELU6 \<equiv> 21"
abbreviation (input) BuiltinOperator_RESHAPE :: int where "BuiltinOperator_RESHAPE \<equiv> 22"
abbreviation (input) BuiltinOperator_RESIZE_BILINEAR :: int where "BuiltinOperator_RESIZE_BILINEAR \<equiv> 23"
abbreviation (input) BuiltinOperator_RNN :: int where "BuiltinOperator_RNN \<equiv> 24"
abbreviation (input) BuiltinOperator_SOFTMAX :: int where "BuiltinOperator_SOFTMAX \<equiv> 25"
abbreviation (input) BuiltinOperator_SPACE_TO_DEPTH :: int where "BuiltinOperator_SPACE_TO_DEPTH \<equiv> 26"
abbreviation (input) BuiltinOperator_SVDF :: int where "BuiltinOperator_SVDF \<equiv> 27"
abbreviation (input) BuiltinOperator_TANH :: int where "BuiltinOperator_TANH \<equiv> 28"
abbreviation (input) BuiltinOperator_CONCAT_EMBEDDINGS :: int where "BuiltinOperator_CONCAT_EMBEDDINGS \<equiv> 29"
abbreviation (input) BuiltinOperator_SKIP_GRAM :: int where "BuiltinOperator_SKIP_GRAM \<equiv> 30"
abbreviation (input) BuiltinOperator_CALL :: int where "BuiltinOperator_CALL \<equiv> 31"
abbreviation (input) BuiltinOperator_CUSTOM :: int where "BuiltinOperator_CUSTOM \<equiv> 32"
abbreviation (input) BuiltinOperator_EMBEDDING_LOOKUP_SPARSE :: int where "BuiltinOperator_EMBEDDING_LOOKUP_SPARSE \<equiv> 33"
abbreviation (input) BuiltinOperator_PAD :: int where "BuiltinOperator_PAD \<equiv> 34"
abbreviation (input) BuiltinOperator_UNIDIRECTIONAL_SEQUENCE_RNN :: int where "BuiltinOperator_UNIDIRECTIONAL_SEQUENCE_RNN \<equiv> 35"
abbreviation (input) BuiltinOperator_GATHER :: int where "BuiltinOperator_GATHER \<equiv> 36"
abbreviation (input) BuiltinOperator_BATCH_TO_SPACE_ND :: int where "BuiltinOperator_BATCH_TO_SPACE_ND \<equiv> 37"
abbreviation (input) BuiltinOperator_SPACE_TO_BATCH_ND :: int where "BuiltinOperator_SPACE_TO_BATCH_ND \<equiv> 38"
abbreviation (input) BuiltinOperator_TRANSPOSE :: int where "BuiltinOperator_TRANSPOSE \<equiv> 39"
abbreviation (input) BuiltinOperator_MEAN :: int where "BuiltinOperator_MEAN \<equiv> 40"
abbreviation (input) BuiltinOperator_SUB :: int where "BuiltinOperator_SUB \<equiv> 41"
abbreviation (input) BuiltinOperator_DIV :: int where "BuiltinOperator_DIV \<equiv> 42"
abbreviation (input) BuiltinOperator_SQUEEZE :: int where "BuiltinOperator_SQUEEZE \<equiv> 43"
abbreviation (input) BuiltinOperator_UNIDIRECTIONAL_SEQUENCE_LSTM :: int where "BuiltinOperator_UNIDIRECTIONAL_SEQUENCE_LSTM \<equiv> 44"
abbreviation (input) BuiltinOperator_STRIDED_SLICE :: int where "BuiltinOperator_STRIDED_SLICE \<equiv> 45"
abbreviation (input) BuiltinOperator_BIDIRECTIONAL_SEQUENCE_RNN :: int where "BuiltinOperator_BIDIRECTIONAL_SEQUENCE_RNN \<equiv> 46"
abbreviation (input) BuiltinOperator_EXP :: int where "BuiltinOperator_EXP \<equiv> 47"
abbreviation (input) BuiltinOperator_TOPK_V2 :: int where "BuiltinOperator_TOPK_V2 \<equiv> 48"
abbreviation (input) BuiltinOperator_SPLIT :: int where "BuiltinOperator_SPLIT \<equiv> 49"
abbreviation (input) BuiltinOperator_LOG_SOFTMAX :: int where "BuiltinOperator_LOG_SOFTMAX \<equiv> 50"
abbreviation (input) BuiltinOperator_DELEGATE :: int where "BuiltinOperator_DELEGATE \<equiv> 51"
abbreviation (input) BuiltinOperator_BIDIRECTIONAL_SEQUENCE_LSTM :: int where "BuiltinOperator_BIDIRECTIONAL_SEQUENCE_LSTM \<equiv> 52"
abbreviation (input) BuiltinOperator_CAST :: int where "BuiltinOperator_CAST \<equiv> 53"
abbreviation (input) BuiltinOperator_PRELU :: int where "BuiltinOperator_PRELU \<equiv> 54"
abbreviation (input) BuiltinOperator_MAXIMUM :: int where "BuiltinOperator_MAXIMUM \<equiv> 55"
abbreviation (input) BuiltinOperator_ARG_MAX :: int where "BuiltinOperator_ARG_MAX \<equiv> 56"
abbreviation (input) BuiltinOperator_MINIMUM :: int where "BuiltinOperator_MINIMUM \<equiv> 57"
abbreviation (input) BuiltinOperator_LESS :: int where "BuiltinOperator_LESS \<equiv> 58"
abbreviation (input) BuiltinOperator_NEG :: int where "BuiltinOperator_NEG \<equiv> 59"
abbreviation (input) BuiltinOperator_PADV2 :: int where "BuiltinOperator_PADV2 \<equiv> 60"
abbreviation (input) BuiltinOperator_GREATER :: int where "BuiltinOperator_GREATER \<equiv> 61"
abbreviation (input) BuiltinOperator_GREATER_EQUAL :: int where "BuiltinOperator_GREATER_EQUAL \<equiv> 62"
abbreviation (input) BuiltinOperator_LESS_EQUAL :: int where "BuiltinOperator_LESS_EQUAL \<equiv> 63"
abbreviation (input) BuiltinOperator_SELECT :: int where "BuiltinOperator_SELECT \<equiv> 64"
abbreviation (input) BuiltinOperator_SLICE :: int where "BuiltinOperator_SLICE \<equiv> 65"
abbreviation (input) BuiltinOperator_SIN :: int where "BuiltinOperator_SIN \<equiv> 66"
abbreviation (input) BuiltinOperator_TRANSPOSE_CONV :: int where "BuiltinOperator_TRANSPOSE_CONV \<equiv> 67"
abbreviation (input) BuiltinOperator_SPARSE_TO_DENSE :: int where "BuiltinOperator_SPARSE_TO_DENSE \<equiv> 68"
abbreviation (input) BuiltinOperator_TILE :: int where "BuiltinOperator_TILE \<equiv> 69"
abbreviation (input) BuiltinOperator_EXPAND_DIMS :: int where "BuiltinOperator_EXPAND_DIMS \<equiv> 70"
abbreviation (input) BuiltinOperator_EQUAL :: int where "BuiltinOperator_EQUAL \<equiv> 71"
abbreviation (input) BuiltinOperator_NOT_EQUAL :: int where "BuiltinOperator_NOT_EQUAL \<equiv> 72"
abbreviation (input) BuiltinOperator_LOG :: int where "BuiltinOperator_LOG \<equiv> 73"
abbreviation (input) BuiltinOperator_SUM :: int where "BuiltinOperator_SUM \<equiv> 74"
abbreviation (input) BuiltinOperator_SQRT :: int where "BuiltinOperator_SQRT \<equiv> 75"
abbreviation (input) BuiltinOperator_RSQRT :: int where "BuiltinOperator_RSQRT \<equiv> 76"
abbreviation (input) BuiltinOperator_SHAPE :: int where "BuiltinOperator_SHAPE \<equiv> 77"
abbreviation (input) BuiltinOperator_POW :: int where "BuiltinOperator_POW \<equiv> 78"
abbreviation (input) BuiltinOperator_ARG_MIN :: int where "BuiltinOperator_ARG_MIN \<equiv> 79"
abbreviation (input) BuiltinOperator_FAKE_QUANT :: int where "BuiltinOperator_FAKE_QUANT \<equiv> 80"
abbreviation (input) BuiltinOperator_REDUCE_PROD :: int where "BuiltinOperator_REDUCE_PROD \<equiv> 81"
abbreviation (input) BuiltinOperator_REDUCE_MAX :: int where "BuiltinOperator_REDUCE_MAX \<equiv> 82"
abbreviation (input) BuiltinOperator_PACK :: int where "BuiltinOperator_PACK \<equiv> 83"
abbreviation (input) BuiltinOperator_LOGICAL_OR :: int where "BuiltinOperator_LOGICAL_OR \<equiv> 84"
abbreviation (input) BuiltinOperator_ONE_HOT :: int where "BuiltinOperator_ONE_HOT \<equiv> 85"
abbreviation (input) BuiltinOperator_LOGICAL_AND :: int where "BuiltinOperator_LOGICAL_AND \<equiv> 86"
abbreviation (input) BuiltinOperator_LOGICAL_NOT :: int where "BuiltinOperator_LOGICAL_NOT \<equiv> 87"
abbreviation (input) BuiltinOperator_UNPACK :: int where "BuiltinOperator_UNPACK \<equiv> 88"
abbreviation (input) BuiltinOperator_REDUCE_MIN :: int where "BuiltinOperator_REDUCE_MIN \<equiv> 89"
abbreviation (input) BuiltinOperator_FLOOR_DIV :: int where "BuiltinOperator_FLOOR_DIV \<equiv> 90"
abbreviation (input) BuiltinOperator_REDUCE_ANY :: int where "BuiltinOperator_REDUCE_ANY \<equiv> 91"
abbreviation (input) BuiltinOperator_SQUARE :: int where "BuiltinOperator_SQUARE \<equiv> 92"
abbreviation (input) BuiltinOperator_ZEROS_LIKE :: int where "BuiltinOperator_ZEROS_LIKE \<equiv> 93"
abbreviation (input) BuiltinOperator_FILL :: int where "BuiltinOperator_FILL \<equiv> 94"
abbreviation (input) BuiltinOperator_FLOOR_MOD :: int where "BuiltinOperator_FLOOR_MOD \<equiv> 95"
abbreviation (input) BuiltinOperator_RANGE :: int where "BuiltinOperator_RANGE \<equiv> 96"
abbreviation (input) BuiltinOperator_RESIZE_NEAREST_NEIGHBOR :: int where "BuiltinOperator_RESIZE_NEAREST_NEIGHBOR \<equiv> 97"
abbreviation (input) BuiltinOperator_LEAKY_RELU :: int where "BuiltinOperator_LEAKY_RELU \<equiv> 98"
abbreviation (input) BuiltinOperator_SQUARED_DIFFERENCE :: int where "BuiltinOperator_SQUARED_DIFFERENCE \<equiv> 99"
abbreviation (input) BuiltinOperator_MIRROR_PAD :: int where "BuiltinOperator_MIRROR_PAD \<equiv> 100"
abbreviation (input) BuiltinOperator_ABS :: int where "BuiltinOperator_ABS \<equiv> 101"
abbreviation (input) BuiltinOperator_SPLIT_V :: int where "BuiltinOperator_SPLIT_V \<equiv> 102"
abbreviation (input) BuiltinOperator_UNIQUE :: int where "BuiltinOperator_UNIQUE \<equiv> 103"
abbreviation (input) BuiltinOperator_CEIL :: int where "BuiltinOperator_CEIL \<equiv> 104"
abbreviation (input) BuiltinOperator_REVERSE_V2 :: int where "BuiltinOperator_REVERSE_V2 \<equiv> 105"
abbreviation (input) BuiltinOperator_ADD_N :: int where "BuiltinOperator_ADD_N \<equiv> 106"
abbreviation (input) BuiltinOperator_GATHER_ND :: int where "BuiltinOperator_GATHER_ND \<equiv> 107"
abbreviation (input) BuiltinOperator_COS :: int where "BuiltinOperator_COS \<equiv> 108"
abbreviation (input) BuiltinOperator_WHERE :: int where "BuiltinOperator_WHERE \<equiv> 109"
abbreviation (input) BuiltinOperator_RANK :: int where "BuiltinOperator_RANK \<equiv> 110"
abbreviation (input) BuiltinOperator_ELU :: int where "BuiltinOperator_ELU \<equiv> 111"
abbreviation (input) BuiltinOperator_REVERSE_SEQUENCE :: int where "BuiltinOperator_REVERSE_SEQUENCE \<equiv> 112"
abbreviation (input) BuiltinOperator_MATRIX_DIAG :: int where "BuiltinOperator_MATRIX_DIAG \<equiv> 113"
abbreviation (input) BuiltinOperator_QUANTIZE :: int where "BuiltinOperator_QUANTIZE \<equiv> 114"
abbreviation (input) BuiltinOperator_MATRIX_SET_DIAG :: int where "BuiltinOperator_MATRIX_SET_DIAG \<equiv> 115"
abbreviation (input) BuiltinOperator_ROUND :: int where "BuiltinOperator_ROUND \<equiv> 116"
abbreviation (input) BuiltinOperator_HARD_SWISH :: int where "BuiltinOperator_HARD_SWISH \<equiv> 117"
abbreviation (input) BuiltinOperator_IF :: int where "BuiltinOperator_IF \<equiv> 118"
abbreviation (input) BuiltinOperator_WHILE :: int where "BuiltinOperator_WHILE \<equiv> 119"
abbreviation (input) BuiltinOperator_NON_MAX_SUPPRESSION_V4 :: int where "BuiltinOperator_NON_MAX_SUPPRESSION_V4 \<equiv> 120"
abbreviation (input) BuiltinOperator_NON_MAX_SUPPRESSION_V5 :: int where "BuiltinOperator_NON_MAX_SUPPRESSION_V5 \<equiv> 121"
abbreviation (input) BuiltinOperator_SCATTER_ND :: int where "BuiltinOperator_SCATTER_ND \<equiv> 122"
abbreviation (input) BuiltinOperator_SELECT_V2 :: int where "BuiltinOperator_SELECT_V2 \<equiv> 123"
abbreviation (input) BuiltinOperator_DENSIFY :: int where "BuiltinOperator_DENSIFY \<equiv> 124"
abbreviation (input) BuiltinOperator_SEGMENT_SUM :: int where "BuiltinOperator_SEGMENT_SUM \<equiv> 125"
abbreviation (input) BuiltinOperator_BATCH_MATMUL :: int where "BuiltinOperator_BATCH_MATMUL \<equiv> 126"
abbreviation (input) BuiltinOperator_PLACEHOLDER_FOR_GREATER_OP_CODES :: int where "BuiltinOperator_PLACEHOLDER_FOR_GREATER_OP_CODES \<equiv> 127"
abbreviation (input) BuiltinOperator_CUMSUM :: int where "BuiltinOperator_CUMSUM \<equiv> 128"
abbreviation (input) BuiltinOperator_CALL_ONCE :: int where "BuiltinOperator_CALL_ONCE \<equiv> 129"
abbreviation (input) BuiltinOperator_BROADCAST_TO :: int where "BuiltinOperator_BROADCAST_TO \<equiv> 130"
abbreviation (input) BuiltinOperator_RFFT2D :: int where "BuiltinOperator_RFFT2D \<equiv> 131"
abbreviation (input) BuiltinOperator_CONV_3D :: int where "BuiltinOperator_CONV_3D \<equiv> 132"
abbreviation (input) BuiltinOperator_IMAG :: int where "BuiltinOperator_IMAG \<equiv> 133"
abbreviation (input) BuiltinOperator_REAL :: int where "BuiltinOperator_REAL \<equiv> 134"
abbreviation (input) BuiltinOperator_COMPLEX_ABS :: int where "BuiltinOperator_COMPLEX_ABS \<equiv> 135"
abbreviation (input) BuiltinOperator_HASHTABLE :: int where "BuiltinOperator_HASHTABLE \<equiv> 136"
abbreviation (input) BuiltinOperator_HASHTABLE_FIND :: int where "BuiltinOperator_HASHTABLE_FIND \<equiv> 137"
abbreviation (input) BuiltinOperator_HASHTABLE_IMPORT :: int where "BuiltinOperator_HASHTABLE_IMPORT \<equiv> 138"
abbreviation (input) BuiltinOperator_HASHTABLE_SIZE :: int where "BuiltinOperator_HASHTABLE_SIZE \<equiv> 139"

section \<open>The operator\<close>

record Operator =
  builtin_options_type :: int
  builtin_options :: "fb_table option"

text \<open>\<^verbatim>\<open>builtin_options_as_T()\<close>: the options table when the union has the tag of \<^verbatim>\<open>T\<close>, else null.\<close>

definition builtin_options_as :: "int \<Rightarrow> Operator \<Rightarrow> fb_table option" where
  "builtin_options_as tag op = (if builtin_options_type op = tag then builtin_options op else None)"

section \<open>Options tables\<close>

text \<open>\<^verbatim>\<open>struct LSHProjectionOptions\<close>.\<close>

definition LSHProjectionOptions_type :: "fb_table \<Rightarrow> int" where
  "LSHProjectionOptions_type t = GetField t 4 0"

text \<open>\<^verbatim>\<open>struct SequenceRNNOptions\<close>.\<close>

definition SequenceRNNOptions_time_major :: "fb_table \<Rightarrow> bool" where
  "SequenceRNNOptions_time_major t \<longleftrightarrow> GetField t 4 0 \<noteq> 0"

definition SequenceRNNOptions_fused_activation_function :: "fb_table \<Rightarrow> int" where
  "SequenceRNNOptions_fused_activation_function t = GetField t 6 0"

definition SequenceRNNOptions_asymmetric_quantize_inputs :: "fb_table \<Rightarrow> bool" where
  "SequenceRNNOptions_asymmetric_quantize_inputs t \<longleftrightarrow> GetField t 8 0 \<noteq> 0"

text \<open>\<^verbatim>\<open>struct BidirectionalSequenceRNNOptions\<close>.\<close>

definition BidirectionalSequenceRNNOptions_time_major :: "fb_table \<Rightarrow> bool" where
  "BidirectionalSequenceRNNOptions_time_major t \<longleftrightarrow> GetField t 4 0 \<noteq> 0"

definition BidirectionalSequenceRNNOptions_fused_activation_function :: "fb_table \<Rightarrow> int" where
  "BidirectionalSequenceRNNOptions_fused_activation_function t = GetField t 6 0"

definition BidirectionalSequenceRNNOptions_merge_outputs :: "fb_table \<Rightarrow> bool" where
  "BidirectionalSequenceRNNOptions_merge_outputs t \<longleftrightarrow> GetField t 8 0 \<noteq> 0"

definition BidirectionalSequenceRNNOptions_asymmetric_quantize_inputs :: "fb_table \<Rightarrow> bool" where
  "BidirectionalSequenceRNNOptions_asymmetric_quantize_inputs t \<longleftrightarrow> GetField t 10 0 \<noteq> 0"

text \<open>\<^verbatim>\<open>struct RNNOptions\<close>.\<close>

definition RNNOptions_fused_activation_function :: "fb_table \<Rightarrow> int" where
  "RNNOptions_fused_activation_function t = GetField t 4 0"

definition RNNOptions_asymmetric_quantize_inputs :: "fb_table \<Rightarrow> bool" where
  "RNNOptions_asymmetric_quantize_inputs t \<longleftrightarrow> GetField t 6 0 \<noteq> 0"

text \<open>\<^verbatim>\<open>struct EmbeddingLookupSparseOptions\<close>.\<close>

definition EmbeddingLookupSparseOptions_combiner :: "fb_table \<Rightarrow> int" where
  "EmbeddingLookupSparseOptions_combiner t = GetField t 4 0"

text \<open>\<^verbatim>\<open>struct LocalResponseNormalizationOptions\<close>.\<close>

definition LocalResponseNormalizationOptions_radius :: "fb_table \<Rightarrow> int" where
  "LocalResponseNormalizationOptions_radius t = GetField t 4 0"

definition LocalResponseNormalizationOptions_bias :: "fb_table \<Rightarrow> float32" where
  "LocalResponseNormalizationOptions_bias t = GetField_float t 6 zero"

definition LocalResponseNormalizationOptions_alpha :: "fb_table \<Rightarrow> float32" where
  "LocalResponseNormalizationOptions_alpha t = GetField_float t 8 zero"

definition LocalResponseNormalizationOptions_beta :: "fb_table \<Rightarrow> float32" where
  "LocalResponseNormalizationOptions_beta t = GetField_float t 10 zero"

text \<open>\<^verbatim>\<open>struct LSTMOptions\<close>.\<close>

definition LSTMOptions_fused_activation_function :: "fb_table \<Rightarrow> int" where
  "LSTMOptions_fused_activation_function t = GetField t 4 0"

definition LSTMOptions_cell_clip :: "fb_table \<Rightarrow> float32" where
  "LSTMOptions_cell_clip t = GetField_float t 6 zero"

definition LSTMOptions_proj_clip :: "fb_table \<Rightarrow> float32" where
  "LSTMOptions_proj_clip t = GetField_float t 8 zero"

definition LSTMOptions_kernel_type :: "fb_table \<Rightarrow> int" where
  "LSTMOptions_kernel_type t = GetField t 10 0"

definition LSTMOptions_asymmetric_quantize_inputs :: "fb_table \<Rightarrow> bool" where
  "LSTMOptions_asymmetric_quantize_inputs t \<longleftrightarrow> GetField t 12 0 \<noteq> 0"

text \<open>\<^verbatim>\<open>struct UnidirectionalSequenceLSTMOptions\<close>.\<close>

definition UnidirectionalSequenceLSTMOptions_fused_activation_function :: "fb_table \<Rightarrow> int" where
  "UnidirectionalSequenceLSTMOptions_fused_activation_function t = GetField t 4 0"

definition UnidirectionalSequenceLSTMOptions_cell_clip :: "fb_table \<Rightarrow> float32" where
  "UnidirectionalSequenceLSTMOptions_cell_clip t = GetField_float t 6 zero"

definition UnidirectionalSequenceLSTMOptions_proj_clip :: "fb_table \<Rightarrow> float32" where
  "UnidirectionalSequenceLSTMOptions_proj_clip t = GetField_float t 8 zero"

definition UnidirectionalSequenceLSTMOptions_time_major :: "fb_table \<Rightarrow> bool" where
  "UnidirectionalSequenceLSTMOptions_time_major t \<longleftrightarrow> GetField t 10 0 \<noteq> 0"

definition UnidirectionalSequenceLSTMOptions_asymmetric_quantize_inputs :: "fb_table \<Rightarrow> bool" where
  "UnidirectionalSequenceLSTMOptions_asymmetric_quantize_inputs t \<longleftrightarrow> GetField t 12 0 \<noteq> 0"

text \<open>\<^verbatim>\<open>struct BidirectionalSequenceLSTMOptions\<close>.\<close>

definition BidirectionalSequenceLSTMOptions_fused_activation_function :: "fb_table \<Rightarrow> int" where
  "BidirectionalSequenceLSTMOptions_fused_activation_function t = GetField t 4 0"

definition BidirectionalSequenceLSTMOptions_cell_clip :: "fb_table \<Rightarrow> float32" where
  "BidirectionalSequenceLSTMOptions_cell_clip t = GetField_float t 6 zero"

definition BidirectionalSequenceLSTMOptions_proj_clip :: "fb_table \<Rightarrow> float32" where
  "BidirectionalSequenceLSTMOptions_proj_clip t = GetField_float t 8 zero"

definition BidirectionalSequenceLSTMOptions_merge_outputs :: "fb_table \<Rightarrow> bool" where
  "BidirectionalSequenceLSTMOptions_merge_outputs t \<longleftrightarrow> GetField t 10 0 \<noteq> 0"

definition BidirectionalSequenceLSTMOptions_time_major :: "fb_table \<Rightarrow> bool" where
  "BidirectionalSequenceLSTMOptions_time_major t \<longleftrightarrow> GetField t 12 1 \<noteq> 0"

definition BidirectionalSequenceLSTMOptions_asymmetric_quantize_inputs :: "fb_table \<Rightarrow> bool" where
  "BidirectionalSequenceLSTMOptions_asymmetric_quantize_inputs t \<longleftrightarrow> GetField t 14 0 \<noteq> 0"

text \<open>\<^verbatim>\<open>struct SkipGramOptions\<close>.\<close>

definition SkipGramOptions_ngram_size :: "fb_table \<Rightarrow> int" where
  "SkipGramOptions_ngram_size t = GetField t 4 0"

definition SkipGramOptions_max_skip_size :: "fb_table \<Rightarrow> int" where
  "SkipGramOptions_max_skip_size t = GetField t 6 0"

definition SkipGramOptions_include_all_ngrams :: "fb_table \<Rightarrow> bool" where
  "SkipGramOptions_include_all_ngrams t \<longleftrightarrow> GetField t 8 0 \<noteq> 0"

text \<open>\<^verbatim>\<open>struct SparseToDenseOptions\<close>.\<close>

definition SparseToDenseOptions_validate_indices :: "fb_table \<Rightarrow> bool" where
  "SparseToDenseOptions_validate_indices t \<longleftrightarrow> GetField t 4 0 \<noteq> 0"

text \<open>\<^verbatim>\<open>struct FakeQuantOptions\<close>.\<close>

definition FakeQuantOptions_min :: "fb_table \<Rightarrow> float32" where
  "FakeQuantOptions_min t = GetField_float t 4 zero"

definition FakeQuantOptions_max :: "fb_table \<Rightarrow> float32" where
  "FakeQuantOptions_max t = GetField_float t 6 zero"

definition FakeQuantOptions_num_bits :: "fb_table \<Rightarrow> int" where
  "FakeQuantOptions_num_bits t = GetField t 8 0"

definition FakeQuantOptions_narrow_range :: "fb_table \<Rightarrow> bool" where
  "FakeQuantOptions_narrow_range t \<longleftrightarrow> GetField t 10 0 \<noteq> 0"

text \<open>\<^verbatim>\<open>struct OneHotOptions\<close>.\<close>

definition OneHotOptions_axis :: "fb_table \<Rightarrow> int" where
  "OneHotOptions_axis t = GetField t 4 0"

text \<open>\<^verbatim>\<open>struct MirrorPadOptions\<close>.\<close>

definition MirrorPadOptions_mode :: "fb_table \<Rightarrow> int" where
  "MirrorPadOptions_mode t = GetField t 4 0"

text \<open>\<^verbatim>\<open>struct UniqueOptions\<close>.\<close>

definition UniqueOptions_idx_out_type :: "fb_table \<Rightarrow> int" where
  "UniqueOptions_idx_out_type t = GetField t 4 2"

text \<open>\<^verbatim>\<open>struct ReverseSequenceOptions\<close>.\<close>

definition ReverseSequenceOptions_seq_dim :: "fb_table \<Rightarrow> int" where
  "ReverseSequenceOptions_seq_dim t = GetField t 4 0"

definition ReverseSequenceOptions_batch_dim :: "fb_table \<Rightarrow> int" where
  "ReverseSequenceOptions_batch_dim t = GetField t 6 0"

text \<open>\<^verbatim>\<open>struct IfOptions\<close>.\<close>

definition IfOptions_then_subgraph_index :: "fb_table \<Rightarrow> int" where
  "IfOptions_then_subgraph_index t = GetField t 4 0"

definition IfOptions_else_subgraph_index :: "fb_table \<Rightarrow> int" where
  "IfOptions_else_subgraph_index t = GetField t 6 0"

text \<open>\<^verbatim>\<open>struct WhileOptions\<close>.\<close>

definition WhileOptions_cond_subgraph_index :: "fb_table \<Rightarrow> int" where
  "WhileOptions_cond_subgraph_index t = GetField t 4 0"

definition WhileOptions_body_subgraph_index :: "fb_table \<Rightarrow> int" where
  "WhileOptions_body_subgraph_index t = GetField t 6 0"

text \<open>\<^verbatim>\<open>struct CallOnceOptions\<close>.\<close>

definition CallOnceOptions_init_subgraph_index :: "fb_table \<Rightarrow> int" where
  "CallOnceOptions_init_subgraph_index t = GetField t 4 0"

text \<open>\<^verbatim>\<open>struct Conv3DOptions\<close>.\<close>

definition Conv3DOptions_padding :: "fb_table \<Rightarrow> int" where
  "Conv3DOptions_padding t = GetField t 4 0"

definition Conv3DOptions_stride_d :: "fb_table \<Rightarrow> int" where
  "Conv3DOptions_stride_d t = GetField t 6 0"

definition Conv3DOptions_stride_w :: "fb_table \<Rightarrow> int" where
  "Conv3DOptions_stride_w t = GetField t 8 0"

definition Conv3DOptions_stride_h :: "fb_table \<Rightarrow> int" where
  "Conv3DOptions_stride_h t = GetField t 10 0"

definition Conv3DOptions_fused_activation_function :: "fb_table \<Rightarrow> int" where
  "Conv3DOptions_fused_activation_function t = GetField t 12 0"

definition Conv3DOptions_dilation_d_factor :: "fb_table \<Rightarrow> int" where
  "Conv3DOptions_dilation_d_factor t = GetField t 14 1"

definition Conv3DOptions_dilation_w_factor :: "fb_table \<Rightarrow> int" where
  "Conv3DOptions_dilation_w_factor t = GetField t 16 1"

definition Conv3DOptions_dilation_h_factor :: "fb_table \<Rightarrow> int" where
  "Conv3DOptions_dilation_h_factor t = GetField t 18 1"

text \<open>\<^verbatim>\<open>struct HashtableOptions\<close>.\<close>

definition HashtableOptions_table_id :: "fb_table \<Rightarrow> int" where
  "HashtableOptions_table_id t = GetField t 4 0"

definition HashtableOptions_key_dtype :: "fb_table \<Rightarrow> int" where
  "HashtableOptions_key_dtype t = GetField t 6 0"

definition HashtableOptions_value_dtype :: "fb_table \<Rightarrow> int" where
  "HashtableOptions_value_dtype t = GetField t 8 0"

text \<open>\<^verbatim>\<open>struct AddOptions\<close>.\<close>

definition AddOptions_fused_activation_function :: "fb_table \<Rightarrow> int" where
  "AddOptions_fused_activation_function t = GetField t 4 0"

definition AddOptions_pot_scale_int16 :: "fb_table \<Rightarrow> bool" where
  "AddOptions_pot_scale_int16 t \<longleftrightarrow> GetField t 6 1 \<noteq> 0"

text \<open>\<^verbatim>\<open>struct ArgMaxOptions\<close>.\<close>

definition ArgMaxOptions_output_type :: "fb_table \<Rightarrow> int" where
  "ArgMaxOptions_output_type t = GetField t 4 0"

text \<open>\<^verbatim>\<open>struct ArgMinOptions\<close>.\<close>

definition ArgMinOptions_output_type :: "fb_table \<Rightarrow> int" where
  "ArgMinOptions_output_type t = GetField t 4 0"

text \<open>\<^verbatim>\<open>struct BatchMatMulOptions\<close>.\<close>

definition BatchMatMulOptions_adj_x :: "fb_table \<Rightarrow> bool" where
  "BatchMatMulOptions_adj_x t \<longleftrightarrow> GetField t 4 0 \<noteq> 0"

definition BatchMatMulOptions_adj_y :: "fb_table \<Rightarrow> bool" where
  "BatchMatMulOptions_adj_y t \<longleftrightarrow> GetField t 6 0 \<noteq> 0"

definition BatchMatMulOptions_asymmetric_quantize_inputs :: "fb_table \<Rightarrow> bool" where
  "BatchMatMulOptions_asymmetric_quantize_inputs t \<longleftrightarrow> GetField t 8 0 \<noteq> 0"

text \<open>\<^verbatim>\<open>struct CastOptions\<close>.\<close>

definition CastOptions_in_data_type :: "fb_table \<Rightarrow> int" where
  "CastOptions_in_data_type t = GetField t 4 0"

definition CastOptions_out_data_type :: "fb_table \<Rightarrow> int" where
  "CastOptions_out_data_type t = GetField t 6 0"

text \<open>\<^verbatim>\<open>struct ConcatenationOptions\<close>.\<close>

definition ConcatenationOptions_axis :: "fb_table \<Rightarrow> int" where
  "ConcatenationOptions_axis t = GetField t 4 0"

definition ConcatenationOptions_fused_activation_function :: "fb_table \<Rightarrow> int" where
  "ConcatenationOptions_fused_activation_function t = GetField t 6 0"

text \<open>\<^verbatim>\<open>struct Conv2DOptions\<close>.\<close>

definition Conv2DOptions_padding :: "fb_table \<Rightarrow> int" where
  "Conv2DOptions_padding t = GetField t 4 0"

definition Conv2DOptions_stride_w :: "fb_table \<Rightarrow> int" where
  "Conv2DOptions_stride_w t = GetField t 6 0"

definition Conv2DOptions_stride_h :: "fb_table \<Rightarrow> int" where
  "Conv2DOptions_stride_h t = GetField t 8 0"

definition Conv2DOptions_fused_activation_function :: "fb_table \<Rightarrow> int" where
  "Conv2DOptions_fused_activation_function t = GetField t 10 0"

definition Conv2DOptions_dilation_w_factor :: "fb_table \<Rightarrow> int" where
  "Conv2DOptions_dilation_w_factor t = GetField t 12 1"

definition Conv2DOptions_dilation_h_factor :: "fb_table \<Rightarrow> int" where
  "Conv2DOptions_dilation_h_factor t = GetField t 14 1"

text \<open>\<^verbatim>\<open>struct CumsumOptions\<close>.\<close>

definition CumsumOptions_exclusive :: "fb_table \<Rightarrow> bool" where
  "CumsumOptions_exclusive t \<longleftrightarrow> GetField t 4 0 \<noteq> 0"

definition CumsumOptions_reverse :: "fb_table \<Rightarrow> bool" where
  "CumsumOptions_reverse t \<longleftrightarrow> GetField t 6 0 \<noteq> 0"

text \<open>\<^verbatim>\<open>struct DepthToSpaceOptions\<close>.\<close>

definition DepthToSpaceOptions_block_size :: "fb_table \<Rightarrow> int" where
  "DepthToSpaceOptions_block_size t = GetField t 4 0"

text \<open>\<^verbatim>\<open>struct DepthwiseConv2DOptions\<close>.\<close>

definition DepthwiseConv2DOptions_padding :: "fb_table \<Rightarrow> int" where
  "DepthwiseConv2DOptions_padding t = GetField t 4 0"

definition DepthwiseConv2DOptions_stride_w :: "fb_table \<Rightarrow> int" where
  "DepthwiseConv2DOptions_stride_w t = GetField t 6 0"

definition DepthwiseConv2DOptions_stride_h :: "fb_table \<Rightarrow> int" where
  "DepthwiseConv2DOptions_stride_h t = GetField t 8 0"

definition DepthwiseConv2DOptions_depth_multiplier :: "fb_table \<Rightarrow> int" where
  "DepthwiseConv2DOptions_depth_multiplier t = GetField t 10 0"

definition DepthwiseConv2DOptions_fused_activation_function :: "fb_table \<Rightarrow> int" where
  "DepthwiseConv2DOptions_fused_activation_function t = GetField t 12 0"

definition DepthwiseConv2DOptions_dilation_w_factor :: "fb_table \<Rightarrow> int" where
  "DepthwiseConv2DOptions_dilation_w_factor t = GetField t 14 1"

definition DepthwiseConv2DOptions_dilation_h_factor :: "fb_table \<Rightarrow> int" where
  "DepthwiseConv2DOptions_dilation_h_factor t = GetField t 16 1"

text \<open>\<^verbatim>\<open>struct DivOptions\<close>.\<close>

definition DivOptions_fused_activation_function :: "fb_table \<Rightarrow> int" where
  "DivOptions_fused_activation_function t = GetField t 4 0"

text \<open>\<^verbatim>\<open>struct FullyConnectedOptions\<close>.\<close>

definition FullyConnectedOptions_fused_activation_function :: "fb_table \<Rightarrow> int" where
  "FullyConnectedOptions_fused_activation_function t = GetField t 4 0"

definition FullyConnectedOptions_weights_format :: "fb_table \<Rightarrow> int" where
  "FullyConnectedOptions_weights_format t = GetField t 6 0"

definition FullyConnectedOptions_keep_num_dims :: "fb_table \<Rightarrow> bool" where
  "FullyConnectedOptions_keep_num_dims t \<longleftrightarrow> GetField t 8 0 \<noteq> 0"

definition FullyConnectedOptions_asymmetric_quantize_inputs :: "fb_table \<Rightarrow> bool" where
  "FullyConnectedOptions_asymmetric_quantize_inputs t \<longleftrightarrow> GetField t 10 0 \<noteq> 0"

text \<open>\<^verbatim>\<open>struct GatherOptions\<close>.\<close>

definition GatherOptions_axis :: "fb_table \<Rightarrow> int" where
  "GatherOptions_axis t = GetField t 4 0"

definition GatherOptions_batch_dims :: "fb_table \<Rightarrow> int" where
  "GatherOptions_batch_dims t = GetField t 6 0"

text \<open>\<^verbatim>\<open>struct L2NormOptions\<close>.\<close>

definition L2NormOptions_fused_activation_function :: "fb_table \<Rightarrow> int" where
  "L2NormOptions_fused_activation_function t = GetField t 4 0"

text \<open>\<^verbatim>\<open>struct LeakyReluOptions\<close>.\<close>

definition LeakyReluOptions_alpha :: "fb_table \<Rightarrow> float32" where
  "LeakyReluOptions_alpha t = GetField_float t 4 zero"

text \<open>\<^verbatim>\<open>struct MulOptions\<close>.\<close>

definition MulOptions_fused_activation_function :: "fb_table \<Rightarrow> int" where
  "MulOptions_fused_activation_function t = GetField t 4 0"

text \<open>\<^verbatim>\<open>struct PackOptions\<close>.\<close>

definition PackOptions_values_count :: "fb_table \<Rightarrow> int" where
  "PackOptions_values_count t = GetField t 4 0"

definition PackOptions_axis :: "fb_table \<Rightarrow> int" where
  "PackOptions_axis t = GetField t 6 0"

text \<open>\<^verbatim>\<open>struct Pool2DOptions\<close>.\<close>

definition Pool2DOptions_padding :: "fb_table \<Rightarrow> int" where
  "Pool2DOptions_padding t = GetField t 4 0"

definition Pool2DOptions_stride_w :: "fb_table \<Rightarrow> int" where
  "Pool2DOptions_stride_w t = GetField t 6 0"

definition Pool2DOptions_stride_h :: "fb_table \<Rightarrow> int" where
  "Pool2DOptions_stride_h t = GetField t 8 0"

definition Pool2DOptions_filter_width :: "fb_table \<Rightarrow> int" where
  "Pool2DOptions_filter_width t = GetField t 10 0"

definition Pool2DOptions_filter_height :: "fb_table \<Rightarrow> int" where
  "Pool2DOptions_filter_height t = GetField t 12 0"

definition Pool2DOptions_fused_activation_function :: "fb_table \<Rightarrow> int" where
  "Pool2DOptions_fused_activation_function t = GetField t 14 0"

text \<open>\<^verbatim>\<open>struct ReducerOptions\<close>.\<close>

definition ReducerOptions_keep_dims :: "fb_table \<Rightarrow> bool" where
  "ReducerOptions_keep_dims t \<longleftrightarrow> GetField t 4 0 \<noteq> 0"

text \<open>\<^verbatim>\<open>struct ReshapeOptions\<close>.\<close>

definition ReshapeOptions_new_shape :: "fb_table \<Rightarrow> int list option" where
  "ReshapeOptions_new_shape t = GetPointer_vec t 4"

text \<open>\<^verbatim>\<open>struct ResizeBilinearOptions\<close>.\<close>

definition ResizeBilinearOptions_align_corners :: "fb_table \<Rightarrow> bool" where
  "ResizeBilinearOptions_align_corners t \<longleftrightarrow> GetField t 8 0 \<noteq> 0"

definition ResizeBilinearOptions_half_pixel_centers :: "fb_table \<Rightarrow> bool" where
  "ResizeBilinearOptions_half_pixel_centers t \<longleftrightarrow> GetField t 10 0 \<noteq> 0"

text \<open>\<^verbatim>\<open>struct ResizeNearestNeighborOptions\<close>.\<close>

definition ResizeNearestNeighborOptions_align_corners :: "fb_table \<Rightarrow> bool" where
  "ResizeNearestNeighborOptions_align_corners t \<longleftrightarrow> GetField t 4 0 \<noteq> 0"

definition ResizeNearestNeighborOptions_half_pixel_centers :: "fb_table \<Rightarrow> bool" where
  "ResizeNearestNeighborOptions_half_pixel_centers t \<longleftrightarrow> GetField t 6 0 \<noteq> 0"

text \<open>\<^verbatim>\<open>struct ShapeOptions\<close>.\<close>

definition ShapeOptions_out_type :: "fb_table \<Rightarrow> int" where
  "ShapeOptions_out_type t = GetField t 4 0"

text \<open>\<^verbatim>\<open>struct SoftmaxOptions\<close>.\<close>

definition SoftmaxOptions_beta :: "fb_table \<Rightarrow> float32" where
  "SoftmaxOptions_beta t = GetField_float t 4 zero"

text \<open>\<^verbatim>\<open>struct SpaceToDepthOptions\<close>.\<close>

definition SpaceToDepthOptions_block_size :: "fb_table \<Rightarrow> int" where
  "SpaceToDepthOptions_block_size t = GetField t 4 0"

text \<open>\<^verbatim>\<open>struct SplitOptions\<close>.\<close>

definition SplitOptions_num_splits :: "fb_table \<Rightarrow> int" where
  "SplitOptions_num_splits t = GetField t 4 0"

text \<open>\<^verbatim>\<open>struct SplitVOptions\<close>.\<close>

definition SplitVOptions_num_splits :: "fb_table \<Rightarrow> int" where
  "SplitVOptions_num_splits t = GetField t 4 0"

text \<open>\<^verbatim>\<open>struct SqueezeOptions\<close>.\<close>

definition SqueezeOptions_squeeze_dims :: "fb_table \<Rightarrow> int list option" where
  "SqueezeOptions_squeeze_dims t = GetPointer_vec t 4"

text \<open>\<^verbatim>\<open>struct StridedSliceOptions\<close>.\<close>

definition StridedSliceOptions_begin_mask :: "fb_table \<Rightarrow> int" where
  "StridedSliceOptions_begin_mask t = GetField t 4 0"

definition StridedSliceOptions_end_mask :: "fb_table \<Rightarrow> int" where
  "StridedSliceOptions_end_mask t = GetField t 6 0"

definition StridedSliceOptions_ellipsis_mask :: "fb_table \<Rightarrow> int" where
  "StridedSliceOptions_ellipsis_mask t = GetField t 8 0"

definition StridedSliceOptions_new_axis_mask :: "fb_table \<Rightarrow> int" where
  "StridedSliceOptions_new_axis_mask t = GetField t 10 0"

definition StridedSliceOptions_shrink_axis_mask :: "fb_table \<Rightarrow> int" where
  "StridedSliceOptions_shrink_axis_mask t = GetField t 12 0"

text \<open>\<^verbatim>\<open>struct SubOptions\<close>.\<close>

definition SubOptions_fused_activation_function :: "fb_table \<Rightarrow> int" where
  "SubOptions_fused_activation_function t = GetField t 4 0"

definition SubOptions_pot_scale_int16 :: "fb_table \<Rightarrow> bool" where
  "SubOptions_pot_scale_int16 t \<longleftrightarrow> GetField t 6 1 \<noteq> 0"

text \<open>\<^verbatim>\<open>struct SVDFOptions\<close>.\<close>

definition SVDFOptions_rank :: "fb_table \<Rightarrow> int" where
  "SVDFOptions_rank t = GetField t 4 0"

definition SVDFOptions_fused_activation_function :: "fb_table \<Rightarrow> int" where
  "SVDFOptions_fused_activation_function t = GetField t 6 0"

definition SVDFOptions_asymmetric_quantize_inputs :: "fb_table \<Rightarrow> bool" where
  "SVDFOptions_asymmetric_quantize_inputs t \<longleftrightarrow> GetField t 8 0 \<noteq> 0"

text \<open>\<^verbatim>\<open>struct TransposeConvOptions\<close>.\<close>

definition TransposeConvOptions_padding :: "fb_table \<Rightarrow> int" where
  "TransposeConvOptions_padding t = GetField t 4 0"

definition TransposeConvOptions_stride_w :: "fb_table \<Rightarrow> int" where
  "TransposeConvOptions_stride_w t = GetField t 6 0"

definition TransposeConvOptions_stride_h :: "fb_table \<Rightarrow> int" where
  "TransposeConvOptions_stride_h t = GetField t 8 0"

text \<open>\<^verbatim>\<open>struct UnpackOptions\<close>.\<close>

definition UnpackOptions_num :: "fb_table \<Rightarrow> int" where
  "UnpackOptions_num t = GetField t 4 0"

definition UnpackOptions_axis :: "fb_table \<Rightarrow> int" where
  "UnpackOptions_axis t = GetField t 6 0"

lemmas options_defs =
  LSHProjectionOptions_type_def SequenceRNNOptions_time_major_def
  SequenceRNNOptions_fused_activation_function_def SequenceRNNOptions_asymmetric_quantize_inputs_def
  BidirectionalSequenceRNNOptions_time_major_def BidirectionalSequenceRNNOptions_fused_activation_function_def
  BidirectionalSequenceRNNOptions_merge_outputs_def
  BidirectionalSequenceRNNOptions_asymmetric_quantize_inputs_def RNNOptions_fused_activation_function_def
  RNNOptions_asymmetric_quantize_inputs_def EmbeddingLookupSparseOptions_combiner_def
  LocalResponseNormalizationOptions_radius_def LocalResponseNormalizationOptions_bias_def
  LocalResponseNormalizationOptions_alpha_def LocalResponseNormalizationOptions_beta_def
  LSTMOptions_fused_activation_function_def LSTMOptions_cell_clip_def LSTMOptions_proj_clip_def
  LSTMOptions_kernel_type_def LSTMOptions_asymmetric_quantize_inputs_def
  UnidirectionalSequenceLSTMOptions_fused_activation_function_def
  UnidirectionalSequenceLSTMOptions_cell_clip_def UnidirectionalSequenceLSTMOptions_proj_clip_def
  UnidirectionalSequenceLSTMOptions_time_major_def
  UnidirectionalSequenceLSTMOptions_asymmetric_quantize_inputs_def
  BidirectionalSequenceLSTMOptions_fused_activation_function_def
  BidirectionalSequenceLSTMOptions_cell_clip_def BidirectionalSequenceLSTMOptions_proj_clip_def
  BidirectionalSequenceLSTMOptions_merge_outputs_def BidirectionalSequenceLSTMOptions_time_major_def
  BidirectionalSequenceLSTMOptions_asymmetric_quantize_inputs_def SkipGramOptions_ngram_size_def
  SkipGramOptions_max_skip_size_def SkipGramOptions_include_all_ngrams_def
  SparseToDenseOptions_validate_indices_def FakeQuantOptions_min_def FakeQuantOptions_max_def
  FakeQuantOptions_num_bits_def FakeQuantOptions_narrow_range_def OneHotOptions_axis_def
  MirrorPadOptions_mode_def UniqueOptions_idx_out_type_def ReverseSequenceOptions_seq_dim_def
  ReverseSequenceOptions_batch_dim_def IfOptions_then_subgraph_index_def IfOptions_else_subgraph_index_def
  WhileOptions_cond_subgraph_index_def WhileOptions_body_subgraph_index_def
  CallOnceOptions_init_subgraph_index_def Conv3DOptions_padding_def Conv3DOptions_stride_d_def
  Conv3DOptions_stride_w_def Conv3DOptions_stride_h_def Conv3DOptions_fused_activation_function_def
  Conv3DOptions_dilation_d_factor_def Conv3DOptions_dilation_w_factor_def Conv3DOptions_dilation_h_factor_def
  HashtableOptions_table_id_def HashtableOptions_key_dtype_def HashtableOptions_value_dtype_def
  AddOptions_fused_activation_function_def AddOptions_pot_scale_int16_def ArgMaxOptions_output_type_def
  ArgMinOptions_output_type_def BatchMatMulOptions_adj_x_def BatchMatMulOptions_adj_y_def
  BatchMatMulOptions_asymmetric_quantize_inputs_def CastOptions_in_data_type_def CastOptions_out_data_type_def
  ConcatenationOptions_axis_def ConcatenationOptions_fused_activation_function_def Conv2DOptions_padding_def
  Conv2DOptions_stride_w_def Conv2DOptions_stride_h_def Conv2DOptions_fused_activation_function_def
  Conv2DOptions_dilation_w_factor_def Conv2DOptions_dilation_h_factor_def CumsumOptions_exclusive_def
  CumsumOptions_reverse_def DepthToSpaceOptions_block_size_def DepthwiseConv2DOptions_padding_def
  DepthwiseConv2DOptions_stride_w_def DepthwiseConv2DOptions_stride_h_def
  DepthwiseConv2DOptions_depth_multiplier_def DepthwiseConv2DOptions_fused_activation_function_def
  DepthwiseConv2DOptions_dilation_w_factor_def DepthwiseConv2DOptions_dilation_h_factor_def
  DivOptions_fused_activation_function_def FullyConnectedOptions_fused_activation_function_def
  FullyConnectedOptions_weights_format_def FullyConnectedOptions_keep_num_dims_def
  FullyConnectedOptions_asymmetric_quantize_inputs_def GatherOptions_axis_def GatherOptions_batch_dims_def
  L2NormOptions_fused_activation_function_def LeakyReluOptions_alpha_def
  MulOptions_fused_activation_function_def PackOptions_values_count_def PackOptions_axis_def
  Pool2DOptions_padding_def Pool2DOptions_stride_w_def Pool2DOptions_stride_h_def
  Pool2DOptions_filter_width_def Pool2DOptions_filter_height_def Pool2DOptions_fused_activation_function_def
  ReducerOptions_keep_dims_def ReshapeOptions_new_shape_def ResizeBilinearOptions_align_corners_def
  ResizeBilinearOptions_half_pixel_centers_def ResizeNearestNeighborOptions_align_corners_def
  ResizeNearestNeighborOptions_half_pixel_centers_def ShapeOptions_out_type_def SoftmaxOptions_beta_def
  SpaceToDepthOptions_block_size_def SplitOptions_num_splits_def SplitVOptions_num_splits_def
  SqueezeOptions_squeeze_dims_def StridedSliceOptions_begin_mask_def StridedSliceOptions_end_mask_def
  StridedSliceOptions_ellipsis_mask_def StridedSliceOptions_new_axis_mask_def
  StridedSliceOptions_shrink_axis_mask_def SubOptions_fused_activation_function_def
  SubOptions_pot_scale_int16_def SVDFOptions_rank_def SVDFOptions_fused_activation_function_def
  SVDFOptions_asymmetric_quantize_inputs_def TransposeConvOptions_padding_def
  TransposeConvOptions_stride_w_def TransposeConvOptions_stride_h_def UnpackOptions_num_def
  UnpackOptions_axis_def

end
