(* ===== verification/Tflite_Op_Data.thy ===== *)
theory Tflite_Op_Data
  imports Tflite_Interpreter Ieee_Float
begin

text \<open>
  The operator parameters of the runtime (tensorflow/lite/c/builtin_op_data.h): one record per
  parameter struct the parser fills, its fields in the order of the source and prefixed with
  the name of the struct, the runtime's own enumerations, and the value \<^verbatim>\<open>T()\<close> the allocator starts
  a struct with, in which every field is zero.
\<close>

section \<open>Enumerations\<close>

datatype TfLitePadding =
    kTfLitePaddingUnknown
  | kTfLitePaddingSame
  | kTfLitePaddingValid

datatype TfLiteMirrorPaddingMode =
    kTfLiteMirrorPaddingUnknown
  | kTfLiteMirrorPaddingReflect
  | kTfLiteMirrorPaddingSymmetric

datatype TfLiteFusedActivation =
    kTfLiteActNone
  | kTfLiteActRelu
  | kTfLiteActReluN1To1
  | kTfLiteActRelu6
  | kTfLiteActTanh
  | kTfLiteActSignBit
  | kTfLiteActSigmoid

datatype TfLiteFullyConnectedWeightsFormat =
    kTfLiteFullyConnectedWeightsFormatDefault
  | kTfLiteFullyConnectedWeightsFormatShuffled4x16Int8

datatype TfLiteLSHProjectionType =
    kTfLiteLshProjectionUnknown
  | kTfLiteLshProjectionSparse
  | kTfLiteLshProjectionDense

datatype TfLiteLSTMKernelType =
    kTfLiteLSTMFullKernel
  | kTfLiteLSTMBasicKernel

datatype TfLiteCombinerType =
    kTfLiteCombinerTypeSum
  | kTfLiteCombinerTypeMean
  | kTfLiteCombinerTypeSqrtn

section \<open>Parameter structs\<close>

record TfLitePaddingValues =
  padding_width :: int
  padding_height :: int
  padding_width_offset :: int
  padding_height_offset :: int

record TfLiteMirrorPaddingParams =
  mirrorPadding_mode :: TfLiteMirrorPaddingMode

definition TfLiteMirrorPaddingParams_zero :: TfLiteMirrorPaddingParams where
  "TfLiteMirrorPaddingParams_zero =
     \<lparr>mirrorPadding_mode = kTfLiteMirrorPaddingUnknown\<rparr>"

record TfLiteConvParams =
  conv_padding :: TfLitePadding
  conv_stride_width :: int
  conv_stride_height :: int
  conv_activation :: TfLiteFusedActivation
  conv_dilation_width_factor :: int
  conv_dilation_height_factor :: int

definition TfLiteConvParams_zero :: TfLiteConvParams where
  "TfLiteConvParams_zero =
     \<lparr>conv_padding = kTfLitePaddingUnknown, conv_stride_width = 0, conv_stride_height = 0,
      conv_activation = kTfLiteActNone, conv_dilation_width_factor = 0,
      conv_dilation_height_factor = 0\<rparr>"

record TfLiteConv3DParams =
  conv3D_padding :: TfLitePadding
  conv3D_stride_width :: int
  conv3D_stride_height :: int
  conv3D_stride_depth :: int
  conv3D_dilation_width_factor :: int
  conv3D_dilation_height_factor :: int
  conv3D_dilation_depth_factor :: int
  conv3D_activation :: TfLiteFusedActivation

definition TfLiteConv3DParams_zero :: TfLiteConv3DParams where
  "TfLiteConv3DParams_zero =
     \<lparr>conv3D_padding = kTfLitePaddingUnknown, conv3D_stride_width = 0, conv3D_stride_height = 0,
      conv3D_stride_depth = 0, conv3D_dilation_width_factor = 0, conv3D_dilation_height_factor = 0,
      conv3D_dilation_depth_factor = 0, conv3D_activation = kTfLiteActNone\<rparr>"

record TfLitePoolParams =
  pool_padding :: TfLitePadding
  pool_stride_width :: int
  pool_stride_height :: int
  pool_filter_width :: int
  pool_filter_height :: int
  pool_activation :: TfLiteFusedActivation
  pool_computed_padding :: TfLitePaddingValues

definition TfLitePoolParams_zero :: TfLitePoolParams where
  "TfLitePoolParams_zero =
     \<lparr>pool_padding = kTfLitePaddingUnknown, pool_stride_width = 0, pool_stride_height = 0,
      pool_filter_width = 0, pool_filter_height = 0, pool_activation = kTfLiteActNone,
      pool_computed_padding = \<lparr>padding_width = 0, padding_height = 0, padding_width_offset = 0,
      padding_height_offset = 0\<rparr>\<rparr>"

record TfLiteDepthwiseConvParams =
  depthwiseConv_padding :: TfLitePadding
  depthwiseConv_stride_width :: int
  depthwiseConv_stride_height :: int
  depthwiseConv_depth_multiplier :: int
  depthwiseConv_activation :: TfLiteFusedActivation
  depthwiseConv_dilation_width_factor :: int
  depthwiseConv_dilation_height_factor :: int

definition TfLiteDepthwiseConvParams_zero :: TfLiteDepthwiseConvParams where
  "TfLiteDepthwiseConvParams_zero =
     \<lparr>depthwiseConv_padding = kTfLitePaddingUnknown, depthwiseConv_stride_width = 0,
      depthwiseConv_stride_height = 0, depthwiseConv_depth_multiplier = 0,
      depthwiseConv_activation = kTfLiteActNone, depthwiseConv_dilation_width_factor = 0,
      depthwiseConv_dilation_height_factor = 0\<rparr>"

record TfLiteSVDFParams =
  sVDF_rank :: int
  sVDF_activation :: TfLiteFusedActivation
  sVDF_asymmetric_quantize_inputs :: bool

definition TfLiteSVDFParams_zero :: TfLiteSVDFParams where
  "TfLiteSVDFParams_zero =
     \<lparr>sVDF_rank = 0, sVDF_activation = kTfLiteActNone,
      sVDF_asymmetric_quantize_inputs = False\<rparr>"

record TfLiteRNNParams =
  rNN_activation :: TfLiteFusedActivation
  rNN_asymmetric_quantize_inputs :: bool

definition TfLiteRNNParams_zero :: TfLiteRNNParams where
  "TfLiteRNNParams_zero =
     \<lparr>rNN_activation = kTfLiteActNone, rNN_asymmetric_quantize_inputs = False\<rparr>"

record TfLiteSequenceRNNParams =
  sequenceRNN_time_major :: bool
  sequenceRNN_activation :: TfLiteFusedActivation
  sequenceRNN_asymmetric_quantize_inputs :: bool

definition TfLiteSequenceRNNParams_zero :: TfLiteSequenceRNNParams where
  "TfLiteSequenceRNNParams_zero =
     \<lparr>sequenceRNN_time_major = False, sequenceRNN_activation = kTfLiteActNone,
      sequenceRNN_asymmetric_quantize_inputs = False\<rparr>"

record TfLiteBidirectionalSequenceRNNParams =
  bidirectionalSequenceRNN_time_major :: bool
  bidirectionalSequenceRNN_activation :: TfLiteFusedActivation
  bidirectionalSequenceRNN_merge_outputs :: bool
  bidirectionalSequenceRNN_asymmetric_quantize_inputs :: bool

definition TfLiteBidirectionalSequenceRNNParams_zero :: TfLiteBidirectionalSequenceRNNParams where
  "TfLiteBidirectionalSequenceRNNParams_zero =
     \<lparr>bidirectionalSequenceRNN_time_major = False,
      bidirectionalSequenceRNN_activation = kTfLiteActNone,
      bidirectionalSequenceRNN_merge_outputs = False,
      bidirectionalSequenceRNN_asymmetric_quantize_inputs = False\<rparr>"

record TfLiteFullyConnectedParams =
  fullyConnected_activation :: TfLiteFusedActivation
  fullyConnected_weights_format :: TfLiteFullyConnectedWeightsFormat
  fullyConnected_keep_num_dims :: bool
  fullyConnected_asymmetric_quantize_inputs :: bool

definition TfLiteFullyConnectedParams_zero :: TfLiteFullyConnectedParams where
  "TfLiteFullyConnectedParams_zero =
     \<lparr>fullyConnected_activation = kTfLiteActNone,
      fullyConnected_weights_format = kTfLiteFullyConnectedWeightsFormatDefault,
      fullyConnected_keep_num_dims = False, fullyConnected_asymmetric_quantize_inputs = False\<rparr>"

record TfLiteLSHProjectionParams =
  lSHProjection_type :: TfLiteLSHProjectionType

definition TfLiteLSHProjectionParams_zero :: TfLiteLSHProjectionParams where
  "TfLiteLSHProjectionParams_zero =
     \<lparr>lSHProjection_type = kTfLiteLshProjectionUnknown\<rparr>"

record TfLiteSoftmaxParams =
  softmax_beta :: float32

definition TfLiteSoftmaxParams_zero :: TfLiteSoftmaxParams where
  "TfLiteSoftmaxParams_zero =
     \<lparr>softmax_beta = zero\<rparr>"

record TfLiteConcatenationParams =
  concatenation_axis :: int
  concatenation_activation :: TfLiteFusedActivation

definition TfLiteConcatenationParams_zero :: TfLiteConcatenationParams where
  "TfLiteConcatenationParams_zero =
     \<lparr>concatenation_axis = 0, concatenation_activation = kTfLiteActNone\<rparr>"

record TfLiteAddParams =
  add_activation :: TfLiteFusedActivation
  add_pot_scale_int16 :: bool

definition TfLiteAddParams_zero :: TfLiteAddParams where
  "TfLiteAddParams_zero =
     \<lparr>add_activation = kTfLiteActNone, add_pot_scale_int16 = False\<rparr>"

record TfLiteBatchMatMulParams =
  batchMatMul_adj_x :: bool
  batchMatMul_adj_y :: bool
  batchMatMul_asymmetric_quantize_inputs :: bool

definition TfLiteBatchMatMulParams_zero :: TfLiteBatchMatMulParams where
  "TfLiteBatchMatMulParams_zero =
     \<lparr>batchMatMul_adj_x = False, batchMatMul_adj_y = False,
      batchMatMul_asymmetric_quantize_inputs = False\<rparr>"

record TfLiteMulParams =
  mul_activation :: TfLiteFusedActivation

definition TfLiteMulParams_zero :: TfLiteMulParams where
  "TfLiteMulParams_zero =
     \<lparr>mul_activation = kTfLiteActNone\<rparr>"

record TfLiteSubParams =
  sub_activation :: TfLiteFusedActivation
  sub_pot_scale_int16 :: bool

definition TfLiteSubParams_zero :: TfLiteSubParams where
  "TfLiteSubParams_zero =
     \<lparr>sub_activation = kTfLiteActNone, sub_pot_scale_int16 = False\<rparr>"

record TfLiteDivParams =
  div_activation :: TfLiteFusedActivation

definition TfLiteDivParams_zero :: TfLiteDivParams where
  "TfLiteDivParams_zero =
     \<lparr>div_activation = kTfLiteActNone\<rparr>"

record TfLiteL2NormParams =
  l2Norm_activation :: TfLiteFusedActivation

definition TfLiteL2NormParams_zero :: TfLiteL2NormParams where
  "TfLiteL2NormParams_zero =
     \<lparr>l2Norm_activation = kTfLiteActNone\<rparr>"

record TfLiteLocalResponseNormParams =
  localResponseNorm_radius :: int
  localResponseNorm_bias :: float32
  localResponseNorm_alpha :: float32
  localResponseNorm_beta :: float32

definition TfLiteLocalResponseNormParams_zero :: TfLiteLocalResponseNormParams where
  "TfLiteLocalResponseNormParams_zero =
     \<lparr>localResponseNorm_radius = 0, localResponseNorm_bias = zero,
      localResponseNorm_alpha = zero, localResponseNorm_beta = zero\<rparr>"

record TfLiteLSTMParams =
  lSTM_activation :: TfLiteFusedActivation
  lSTM_cell_clip :: float32
  lSTM_proj_clip :: float32
  lSTM_kernel_type :: TfLiteLSTMKernelType
  lSTM_asymmetric_quantize_inputs :: bool

definition TfLiteLSTMParams_zero :: TfLiteLSTMParams where
  "TfLiteLSTMParams_zero =
     \<lparr>lSTM_activation = kTfLiteActNone, lSTM_cell_clip = zero, lSTM_proj_clip = zero,
      lSTM_kernel_type = kTfLiteLSTMFullKernel, lSTM_asymmetric_quantize_inputs = False\<rparr>"

record TfLiteUnidirectionalSequenceLSTMParams =
  unidirectionalSequenceLSTM_activation :: TfLiteFusedActivation
  unidirectionalSequenceLSTM_cell_clip :: float32
  unidirectionalSequenceLSTM_proj_clip :: float32
  unidirectionalSequenceLSTM_time_major :: bool
  unidirectionalSequenceLSTM_asymmetric_quantize_inputs :: bool

definition TfLiteUnidirectionalSequenceLSTMParams_zero :: TfLiteUnidirectionalSequenceLSTMParams where
  "TfLiteUnidirectionalSequenceLSTMParams_zero =
     \<lparr>unidirectionalSequenceLSTM_activation = kTfLiteActNone,
      unidirectionalSequenceLSTM_cell_clip = zero, unidirectionalSequenceLSTM_proj_clip = zero,
      unidirectionalSequenceLSTM_time_major = False,
      unidirectionalSequenceLSTM_asymmetric_quantize_inputs = False\<rparr>"

record TfLiteBidirectionalSequenceLSTMParams =
  bidirectionalSequenceLSTM_activation :: TfLiteFusedActivation
  bidirectionalSequenceLSTM_cell_clip :: float32
  bidirectionalSequenceLSTM_proj_clip :: float32
  bidirectionalSequenceLSTM_merge_outputs :: bool
  bidirectionalSequenceLSTM_time_major :: bool
  bidirectionalSequenceLSTM_asymmetric_quantize_inputs :: bool

definition TfLiteBidirectionalSequenceLSTMParams_zero :: TfLiteBidirectionalSequenceLSTMParams where
  "TfLiteBidirectionalSequenceLSTMParams_zero =
     \<lparr>bidirectionalSequenceLSTM_activation = kTfLiteActNone,
      bidirectionalSequenceLSTM_cell_clip = zero, bidirectionalSequenceLSTM_proj_clip = zero,
      bidirectionalSequenceLSTM_merge_outputs = False, bidirectionalSequenceLSTM_time_major = False,
      bidirectionalSequenceLSTM_asymmetric_quantize_inputs = False\<rparr>"

record TfLiteResizeBilinearParams =
  resizeBilinear_align_corners :: bool
  resizeBilinear_half_pixel_centers :: bool

definition TfLiteResizeBilinearParams_zero :: TfLiteResizeBilinearParams where
  "TfLiteResizeBilinearParams_zero =
     \<lparr>resizeBilinear_align_corners = False, resizeBilinear_half_pixel_centers = False\<rparr>"

record TfLiteResizeNearestNeighborParams =
  resizeNearestNeighbor_align_corners :: bool
  resizeNearestNeighbor_half_pixel_centers :: bool

definition TfLiteResizeNearestNeighborParams_zero :: TfLiteResizeNearestNeighborParams where
  "TfLiteResizeNearestNeighborParams_zero =
     \<lparr>resizeNearestNeighbor_align_corners = False,
      resizeNearestNeighbor_half_pixel_centers = False\<rparr>"

record TfLiteReshapeParams =
  reshape_shape :: "int list"
  reshape_num_dimensions :: int

definition TfLiteReshapeParams_zero :: TfLiteReshapeParams where
  "TfLiteReshapeParams_zero =
     \<lparr>reshape_shape = replicate 8 0, reshape_num_dimensions = 0\<rparr>"

record TfLiteSkipGramParams =
  skipGram_ngram_size :: int
  skipGram_max_skip_size :: int
  skipGram_include_all_ngrams :: bool

definition TfLiteSkipGramParams_zero :: TfLiteSkipGramParams where
  "TfLiteSkipGramParams_zero =
     \<lparr>skipGram_ngram_size = 0, skipGram_max_skip_size = 0,
      skipGram_include_all_ngrams = False\<rparr>"

record TfLiteSpaceToDepthParams =
  spaceToDepth_block_size :: int

definition TfLiteSpaceToDepthParams_zero :: TfLiteSpaceToDepthParams where
  "TfLiteSpaceToDepthParams_zero =
     \<lparr>spaceToDepth_block_size = 0\<rparr>"

record TfLiteDepthToSpaceParams =
  depthToSpace_block_size :: int

definition TfLiteDepthToSpaceParams_zero :: TfLiteDepthToSpaceParams where
  "TfLiteDepthToSpaceParams_zero =
     \<lparr>depthToSpace_block_size = 0\<rparr>"

record TfLiteCastParams =
  cast_in_data_type :: TfLiteType
  cast_out_data_type :: TfLiteType

definition TfLiteCastParams_zero :: TfLiteCastParams where
  "TfLiteCastParams_zero =
     \<lparr>cast_in_data_type = kTfLiteNoType, cast_out_data_type = kTfLiteNoType\<rparr>"

record TfLiteEmbeddingLookupSparseParams =
  embeddingLookupSparse_combiner :: TfLiteCombinerType

definition TfLiteEmbeddingLookupSparseParams_zero :: TfLiteEmbeddingLookupSparseParams where
  "TfLiteEmbeddingLookupSparseParams_zero =
     \<lparr>embeddingLookupSparse_combiner = kTfLiteCombinerTypeSum\<rparr>"

record TfLiteGatherParams =
  gather_axis :: int
  gather_batch_dims :: int

definition TfLiteGatherParams_zero :: TfLiteGatherParams where
  "TfLiteGatherParams_zero =
     \<lparr>gather_axis = 0, gather_batch_dims = 0\<rparr>"

record TfLiteReducerParams =
  reducer_keep_dims :: bool

definition TfLiteReducerParams_zero :: TfLiteReducerParams where
  "TfLiteReducerParams_zero =
     \<lparr>reducer_keep_dims = False\<rparr>"

record TfLiteSplitParams =
  split_num_splits :: int

definition TfLiteSplitParams_zero :: TfLiteSplitParams where
  "TfLiteSplitParams_zero =
     \<lparr>split_num_splits = 0\<rparr>"

record TfLiteSplitVParams =
  splitV_num_splits :: int

definition TfLiteSplitVParams_zero :: TfLiteSplitVParams where
  "TfLiteSplitVParams_zero =
     \<lparr>splitV_num_splits = 0\<rparr>"

record TfLiteSqueezeParams =
  squeeze_squeeze_dims :: "int list"
  squeeze_num_squeeze_dims :: int

definition TfLiteSqueezeParams_zero :: TfLiteSqueezeParams where
  "TfLiteSqueezeParams_zero =
     \<lparr>squeeze_squeeze_dims = replicate 8 0, squeeze_num_squeeze_dims = 0\<rparr>"

record TfLiteStridedSliceParams =
  stridedSlice_begin_mask :: int
  stridedSlice_end_mask :: int
  stridedSlice_ellipsis_mask :: int
  stridedSlice_new_axis_mask :: int
  stridedSlice_shrink_axis_mask :: int

definition TfLiteStridedSliceParams_zero :: TfLiteStridedSliceParams where
  "TfLiteStridedSliceParams_zero =
     \<lparr>stridedSlice_begin_mask = 0, stridedSlice_end_mask = 0, stridedSlice_ellipsis_mask = 0,
      stridedSlice_new_axis_mask = 0, stridedSlice_shrink_axis_mask = 0\<rparr>"

record TfLiteArgMaxParams =
  argMax_output_type :: TfLiteType

definition TfLiteArgMaxParams_zero :: TfLiteArgMaxParams where
  "TfLiteArgMaxParams_zero =
     \<lparr>argMax_output_type = kTfLiteNoType\<rparr>"

record TfLiteArgMinParams =
  argMin_output_type :: TfLiteType

definition TfLiteArgMinParams_zero :: TfLiteArgMinParams where
  "TfLiteArgMinParams_zero =
     \<lparr>argMin_output_type = kTfLiteNoType\<rparr>"

record TfLiteTransposeConvParams =
  transposeConv_padding :: TfLitePadding
  transposeConv_stride_width :: int
  transposeConv_stride_height :: int

definition TfLiteTransposeConvParams_zero :: TfLiteTransposeConvParams where
  "TfLiteTransposeConvParams_zero =
     \<lparr>transposeConv_padding = kTfLitePaddingUnknown, transposeConv_stride_width = 0,
      transposeConv_stride_height = 0\<rparr>"

record TfLiteSparseToDenseParams =
  sparseToDense_validate_indices :: bool

definition TfLiteSparseToDenseParams_zero :: TfLiteSparseToDenseParams where
  "TfLiteSparseToDenseParams_zero =
     \<lparr>sparseToDense_validate_indices = False\<rparr>"

record TfLiteShapeParams =
  shape_out_type :: TfLiteType

definition TfLiteShapeParams_zero :: TfLiteShapeParams where
  "TfLiteShapeParams_zero =
     \<lparr>shape_out_type = kTfLiteNoType\<rparr>"

record TfLiteFakeQuantParams =
  fakeQuant_min :: float32
  fakeQuant_max :: float32
  fakeQuant_num_bits :: int
  fakeQuant_narrow_range :: bool

definition TfLiteFakeQuantParams_zero :: TfLiteFakeQuantParams where
  "TfLiteFakeQuantParams_zero =
     \<lparr>fakeQuant_min = zero, fakeQuant_max = zero, fakeQuant_num_bits = 0,
      fakeQuant_narrow_range = False\<rparr>"

record TfLitePackParams =
  pack_values_count :: int
  pack_axis :: int

definition TfLitePackParams_zero :: TfLitePackParams where
  "TfLitePackParams_zero =
     \<lparr>pack_values_count = 0, pack_axis = 0\<rparr>"

record TfLiteOneHotParams =
  oneHot_axis :: int

definition TfLiteOneHotParams_zero :: TfLiteOneHotParams where
  "TfLiteOneHotParams_zero =
     \<lparr>oneHot_axis = 0\<rparr>"

record TfLiteUnpackParams =
  unpack_num :: int
  unpack_axis :: int

definition TfLiteUnpackParams_zero :: TfLiteUnpackParams where
  "TfLiteUnpackParams_zero =
     \<lparr>unpack_num = 0, unpack_axis = 0\<rparr>"

record TfLiteLeakyReluParams =
  leakyRelu_alpha :: float32

definition TfLiteLeakyReluParams_zero :: TfLiteLeakyReluParams where
  "TfLiteLeakyReluParams_zero =
     \<lparr>leakyRelu_alpha = zero\<rparr>"

record TfLiteUniqueParams =
  unique_index_out_type :: TfLiteType

definition TfLiteUniqueParams_zero :: TfLiteUniqueParams where
  "TfLiteUniqueParams_zero =
     \<lparr>unique_index_out_type = kTfLiteNoType\<rparr>"

record TfLiteReverseSequenceParams =
  reverseSequence_seq_dim :: int
  reverseSequence_batch_dim :: int

definition TfLiteReverseSequenceParams_zero :: TfLiteReverseSequenceParams where
  "TfLiteReverseSequenceParams_zero =
     \<lparr>reverseSequence_seq_dim = 0, reverseSequence_batch_dim = 0\<rparr>"

record TfLiteIfParams =
  if_then_subgraph_index :: int
  if_else_subgraph_index :: int

definition TfLiteIfParams_zero :: TfLiteIfParams where
  "TfLiteIfParams_zero =
     \<lparr>if_then_subgraph_index = 0, if_else_subgraph_index = 0\<rparr>"

record TfLiteWhileParams =
  while_cond_subgraph_index :: int
  while_body_subgraph_index :: int

definition TfLiteWhileParams_zero :: TfLiteWhileParams where
  "TfLiteWhileParams_zero =
     \<lparr>while_cond_subgraph_index = 0, while_body_subgraph_index = 0\<rparr>"

record TfLiteCumsumParams =
  cumsum_exclusive :: bool
  cumsum_reverse :: bool

definition TfLiteCumsumParams_zero :: TfLiteCumsumParams where
  "TfLiteCumsumParams_zero =
     \<lparr>cumsum_exclusive = False, cumsum_reverse = False\<rparr>"

record TfLiteCallOnceParams =
  callOnce_init_subgraph_index :: int

definition TfLiteCallOnceParams_zero :: TfLiteCallOnceParams where
  "TfLiteCallOnceParams_zero =
     \<lparr>callOnce_init_subgraph_index = 0\<rparr>"

record TfLiteHashtableParams =
  hashtable_table_id :: int
  hashtable_key_dtype :: TfLiteType
  hashtable_value_dtype :: TfLiteType

definition TfLiteHashtableParams_zero :: TfLiteHashtableParams where
  "TfLiteHashtableParams_zero =
     \<lparr>hashtable_table_id = 0, hashtable_key_dtype = kTfLiteNoType,
      hashtable_value_dtype = kTfLiteNoType\<rparr>"

section \<open>The parsed data\<close>

text \<open>What \<^verbatim>\<open>builtin_data\<close> can point at: one constructor per struct.\<close>

datatype (plugins only: code) builtin_data =
    Data_mirrorPadding TfLiteMirrorPaddingParams
  | Data_conv TfLiteConvParams
  | Data_conv3D TfLiteConv3DParams
  | Data_pool TfLitePoolParams
  | Data_depthwiseConv TfLiteDepthwiseConvParams
  | Data_sVDF TfLiteSVDFParams
  | Data_rNN TfLiteRNNParams
  | Data_sequenceRNN TfLiteSequenceRNNParams
  | Data_bidirectionalSequenceRNN TfLiteBidirectionalSequenceRNNParams
  | Data_fullyConnected TfLiteFullyConnectedParams
  | Data_lSHProjection TfLiteLSHProjectionParams
  | Data_softmax TfLiteSoftmaxParams
  | Data_concatenation TfLiteConcatenationParams
  | Data_add TfLiteAddParams
  | Data_batchMatMul TfLiteBatchMatMulParams
  | Data_mul TfLiteMulParams
  | Data_sub TfLiteSubParams
  | Data_div TfLiteDivParams
  | Data_l2Norm TfLiteL2NormParams
  | Data_localResponseNorm TfLiteLocalResponseNormParams
  | Data_lSTM TfLiteLSTMParams
  | Data_unidirectionalSequenceLSTM TfLiteUnidirectionalSequenceLSTMParams
  | Data_bidirectionalSequenceLSTM TfLiteBidirectionalSequenceLSTMParams
  | Data_resizeBilinear TfLiteResizeBilinearParams
  | Data_resizeNearestNeighbor TfLiteResizeNearestNeighborParams
  | Data_reshape TfLiteReshapeParams
  | Data_skipGram TfLiteSkipGramParams
  | Data_spaceToDepth TfLiteSpaceToDepthParams
  | Data_depthToSpace TfLiteDepthToSpaceParams
  | Data_cast TfLiteCastParams
  | Data_embeddingLookupSparse TfLiteEmbeddingLookupSparseParams
  | Data_gather TfLiteGatherParams
  | Data_reducer TfLiteReducerParams
  | Data_split TfLiteSplitParams
  | Data_splitV TfLiteSplitVParams
  | Data_squeeze TfLiteSqueezeParams
  | Data_stridedSlice TfLiteStridedSliceParams
  | Data_argMax TfLiteArgMaxParams
  | Data_argMin TfLiteArgMinParams
  | Data_transposeConv TfLiteTransposeConvParams
  | Data_sparseToDense TfLiteSparseToDenseParams
  | Data_shape TfLiteShapeParams
  | Data_fakeQuant TfLiteFakeQuantParams
  | Data_pack TfLitePackParams
  | Data_oneHot TfLiteOneHotParams
  | Data_unpack TfLiteUnpackParams
  | Data_leakyRelu TfLiteLeakyReluParams
  | Data_unique TfLiteUniqueParams
  | Data_reverseSequence TfLiteReverseSequenceParams
  | Data_if TfLiteIfParams
  | Data_while TfLiteWhileParams
  | Data_cumsum TfLiteCumsumParams
  | Data_callOnce TfLiteCallOnceParams
  | Data_hashtable TfLiteHashtableParams

lemmas zero_defs =
  TfLiteMirrorPaddingParams_zero_def TfLiteConvParams_zero_def TfLiteConv3DParams_zero_def
  TfLitePoolParams_zero_def TfLiteDepthwiseConvParams_zero_def TfLiteSVDFParams_zero_def
  TfLiteRNNParams_zero_def TfLiteSequenceRNNParams_zero_def TfLiteBidirectionalSequenceRNNParams_zero_def
  TfLiteFullyConnectedParams_zero_def TfLiteLSHProjectionParams_zero_def TfLiteSoftmaxParams_zero_def
  TfLiteConcatenationParams_zero_def TfLiteAddParams_zero_def TfLiteBatchMatMulParams_zero_def
  TfLiteMulParams_zero_def TfLiteSubParams_zero_def TfLiteDivParams_zero_def TfLiteL2NormParams_zero_def
  TfLiteLocalResponseNormParams_zero_def TfLiteLSTMParams_zero_def
  TfLiteUnidirectionalSequenceLSTMParams_zero_def TfLiteBidirectionalSequenceLSTMParams_zero_def
  TfLiteResizeBilinearParams_zero_def TfLiteResizeNearestNeighborParams_zero_def
  TfLiteReshapeParams_zero_def TfLiteSkipGramParams_zero_def TfLiteSpaceToDepthParams_zero_def
  TfLiteDepthToSpaceParams_zero_def TfLiteCastParams_zero_def TfLiteEmbeddingLookupSparseParams_zero_def
  TfLiteGatherParams_zero_def TfLiteReducerParams_zero_def TfLiteSplitParams_zero_def
  TfLiteSplitVParams_zero_def TfLiteSqueezeParams_zero_def TfLiteStridedSliceParams_zero_def
  TfLiteArgMaxParams_zero_def TfLiteArgMinParams_zero_def TfLiteTransposeConvParams_zero_def
  TfLiteSparseToDenseParams_zero_def TfLiteShapeParams_zero_def TfLiteFakeQuantParams_zero_def
  TfLitePackParams_zero_def TfLiteOneHotParams_zero_def TfLiteUnpackParams_zero_def
  TfLiteLeakyReluParams_zero_def TfLiteUniqueParams_zero_def TfLiteReverseSequenceParams_zero_def
  TfLiteIfParams_zero_def TfLiteWhileParams_zero_def TfLiteCumsumParams_zero_def
  TfLiteCallOnceParams_zero_def TfLiteHashtableParams_zero_def

end
