(* ===== verification/Flatbuffer_Conversions.thy ===== *)
theory Flatbuffer_Conversions
  imports Tflite_Schema Tflite_Op_Data
begin

text \<open>
  The parser of operator parameters (tensorflow/lite/core/api/flatbuffer_conversions.cc), which the
  interpreter builder runs on every operator of the model the native library loads. A parser
  takes the operator of the flatbuffer and the environment it works in: the allocator, the
  out parameter \<^verbatim>\<open>builtin_data\<close> and the messages sent to the error reporter.
\<close>

section \<open>The environment\<close>

text \<open>The messages, one constructor per format string.\<close>

datatype fb_report =
    Ensure_failed string
  | Input_array_not_provided string
  | Too_many_dimensions string
  | Unsupported_data_type int
  | Unhandled_LSTM_kernel_type int
  | No_valid_LSTM_options
  | Unhandled_weights_format
  | DELEGATE_op_in_model

text \<open>
  The allocator hands out blocks numbered in order; \<open>can_alloc\<close> says which allocations succeed,
  \<open>live_blocks\<close> which blocks have been handed out and not returned.
\<close>

record parse_env =
  can_alloc :: "nat \<Rightarrow> bool"
  next_block :: nat
  live_blocks :: "nat list"
  parsed :: "(nat \<times> builtin_data) option"
  reported :: "fb_report list"

type_synonym parser = "Operator \<Rightarrow> parse_env \<Rightarrow> TfLiteStatus \<times> parse_env"

text \<open>
  \<^verbatim>\<open>AllocatePOD\<close> constructs the struct with a placement \<^verbatim>\<open>new\<close> in the memory the allocator returned. The code is compiled as C++14 (the build sets
  \<^verbatim>\<open>-std=gnu++14\<close>, TensorFlow Lite's own \<^verbatim>\<open>CMAKE_CXX_STANDARD 14\<close>), whose standard gives a null pointer and runs no constructor when the non-throwing
  allocation function returns null; the parsers check for it. From C++17 on a placement \<^verbatim>\<open>new\<close> at a null pointer is undefined, so there the allocator must not fail.
\<close>

definition AllocatePOD :: "parse_env \<Rightarrow> nat option \<times> parse_env" where
  "AllocatePOD e =
     (let n = next_block e
      in if can_alloc e n then (Some n, e\<lparr>next_block := n + 1, live_blocks := n # live_blocks e\<rparr>)
         else (None, e\<lparr>next_block := n + 1\<rparr>))"

definition Deallocate :: "nat \<Rightarrow> parse_env \<Rightarrow> parse_env" where
  "Deallocate n e = e\<lparr>live_blocks := remove1 n (live_blocks e)\<rparr>"

definition report_all :: "fb_report list \<Rightarrow> parse_env \<Rightarrow> parse_env" where
  "report_all rs e = e\<lparr>reported := reported e @ rs\<rparr>"

text \<open>
  The frame all parsers with parameters share: \<^verbatim>\<open>safe_allocator.Allocate<T>()\<close>, the check for null,
  the assignments, and \<^verbatim>\<open>*builtin_data = params.release()\<close>. An early return runs the deleter of the
  \<^verbatim>\<open>unique_ptr\<close>. The assignments give the filled struct, or the messages of an early return.
\<close>

definition with_params ::
  "('p \<Rightarrow> builtin_data) \<Rightarrow> 'p \<Rightarrow> ('p \<Rightarrow> fb_report list + 'p) \<Rightarrow> parse_env \<Rightarrow> TfLiteStatus \<times> parse_env" where
  "with_params wrap init_params fill e =
     (case AllocatePOD e of
        (None, e1) \<Rightarrow> (kTfLiteError, report_all [Ensure_failed ''params != nullptr''] e1)
      | (Some n, e1) \<Rightarrow>
          (case fill init_params of
             Inl rs \<Rightarrow> (kTfLiteError, Deallocate n (report_all rs e1))
           | Inr p \<Rightarrow> (kTfLiteOk, e1\<lparr>parsed := Some (n, wrap p)\<rparr>)))"

text \<open>Assignments under \<^verbatim>\<open>if (schema_params != nullptr)\<close>, and \<^verbatim>\<open>TF_LITE_ENSURE_STATUS\<close>.\<close>

definition if_options ::
  "fb_table option \<Rightarrow> 'p \<Rightarrow> (fb_table \<Rightarrow> fb_report list + 'p) \<Rightarrow> fb_report list + 'p" where
  "if_options opts p f = (case opts of None \<Rightarrow> Inr p | Some t \<Rightarrow> f t)"

definition bind_fill ::
  "fb_report list + 'a \<Rightarrow> ('a \<Rightarrow> fb_report list + 'p) \<Rightarrow> fb_report list + 'p" where
  "bind_fill r f = (case r of Inl rs \<Rightarrow> Inl rs | Inr x \<Rightarrow> f x)"

section \<open>Conversions\<close>

text \<open>
  The size of the destination is given in bytes. On success the copied elements replace the
  start of the buffer.
\<close>

definition FlatBufferIntVectorToArray ::
  "nat \<Rightarrow> int list option \<Rightarrow> int list \<Rightarrow> string \<Rightarrow> fb_report list + int list" where
  "FlatBufferIntVectorToArray max_size_of_buffer flat_vector buffer op_name =
     (case flat_vector of
        None \<Rightarrow> Inl [Input_array_not_provided op_name]
      | Some v \<Rightarrow>
          let num_dimensions = length v
          in if num_dimensions > max_size_of_buffer div 4 then Inl [Too_many_dimensions op_name]
             else Inr (v @ drop num_dimensions buffer))"

definition ConvertActivation :: "int \<Rightarrow> TfLiteFusedActivation" where
  "ConvertActivation activation =
     (if activation = ActivationFunctionType_NONE then kTfLiteActNone
      else if activation = ActivationFunctionType_RELU then kTfLiteActRelu
      else if activation = ActivationFunctionType_RELU_N1_TO_1 then kTfLiteActReluN1To1
      else if activation = ActivationFunctionType_RELU6 then kTfLiteActRelu6
      else if activation = ActivationFunctionType_TANH then kTfLiteActTanh
      else if activation = ActivationFunctionType_SIGN_BIT then kTfLiteActSignBit
      else kTfLiteActNone)"

definition ConvertPadding :: "int \<Rightarrow> TfLitePadding" where
  "ConvertPadding padding =
     (if padding = Padding_SAME then kTfLitePaddingSame
      else if padding = Padding_VALID then kTfLitePaddingValid
      else kTfLitePaddingUnknown)"

definition parseLSHProjectionType :: "int \<Rightarrow> TfLiteLSHProjectionType" where
  "parseLSHProjectionType t =
     (if t = LSHProjectionType_SPARSE then kTfLiteLshProjectionSparse
      else if t = LSHProjectionType_DENSE then kTfLiteLshProjectionDense
      else kTfLiteLshProjectionUnknown)"

definition parseCombinerType :: "int \<Rightarrow> TfLiteCombinerType" where
  "parseCombinerType t =
     (if t = CombinerType_MEAN then kTfLiteCombinerTypeMean
      else if t = CombinerType_SQRTN then kTfLiteCombinerTypeSqrtn
      else kTfLiteCombinerTypeSum)"

text \<open>The type written to \<^verbatim>\<open>*type\<close> and the status; on error the type is \<^verbatim>\<open>kTfLiteNoType\<close> and reported.\<close>

definition ConvertTensorType :: "int \<Rightarrow> fb_report list + TfLiteType" where
  "ConvertTensorType tensor_type =
     (if tensor_type = TensorType_FLOAT16 then Inr kTfLiteFloat16
      else if tensor_type = TensorType_FLOAT32 then Inr kTfLiteFloat32
      else if tensor_type = TensorType_FLOAT64 then Inr kTfLiteFloat64
      else if tensor_type = TensorType_INT16 then Inr kTfLiteInt16
      else if tensor_type = TensorType_INT32 then Inr kTfLiteInt32
      else if tensor_type = TensorType_UINT32 then Inr kTfLiteUInt32
      else if tensor_type = TensorType_UINT8 then Inr kTfLiteUInt8
      else if tensor_type = TensorType_INT8 then Inr kTfLiteInt8
      else if tensor_type = TensorType_INT64 then Inr kTfLiteInt64
      else if tensor_type = TensorType_UINT64 then Inr kTfLiteUInt64
      else if tensor_type = TensorType_STRING then Inr kTfLiteString
      else if tensor_type = TensorType_BOOL then Inr kTfLiteBool
      else if tensor_type = TensorType_COMPLEX64 then Inr kTfLiteComplex64
      else if tensor_type = TensorType_COMPLEX128 then Inr kTfLiteComplex128
      else if tensor_type = TensorType_RESOURCE then Inr kTfLiteResource
      else if tensor_type = TensorType_VARIANT then Inr kTfLiteVariant
      else Inl [Unsupported_data_type tensor_type])"


section \<open>Operators with parameters\<close>

definition ParseAdd :: parser where
  "ParseAdd op = with_params Data_add TfLiteAddParams_zero (\<lambda>p.
     if_options (builtin_options_as BuiltinOptions_AddOptions op) p (\<lambda>t.
       Inr (p\<lparr>add_activation := ConvertActivation (AddOptions_fused_activation_function t),
           add_pot_scale_int16 := AddOptions_pot_scale_int16 t\<rparr>)))"

definition ParseArgMax :: parser where
  "ParseArgMax op = with_params Data_argMax TfLiteArgMaxParams_zero (\<lambda>p.
     if_options (builtin_options_as BuiltinOptions_ArgMaxOptions op) p (\<lambda>t.
       bind_fill (ConvertTensorType (ArgMaxOptions_output_type t)) (\<lambda>y0.
         Inr (p\<lparr>argMax_output_type := y0\<rparr>))))"

definition ParseArgMin :: parser where
  "ParseArgMin op = with_params Data_argMin TfLiteArgMinParams_zero (\<lambda>p.
     if_options (builtin_options_as BuiltinOptions_ArgMinOptions op) p (\<lambda>t.
       bind_fill (ConvertTensorType (ArgMinOptions_output_type t)) (\<lambda>y0.
         Inr (p\<lparr>argMin_output_type := y0\<rparr>))))"

definition ParseBatchMatMul :: parser where
  "ParseBatchMatMul op = with_params Data_batchMatMul TfLiteBatchMatMulParams_zero (\<lambda>p.
     if_options (builtin_options_as BuiltinOptions_BatchMatMulOptions op) p (\<lambda>t.
       Inr (p\<lparr>batchMatMul_adj_x := BatchMatMulOptions_adj_x t,
           batchMatMul_adj_y := BatchMatMulOptions_adj_y t,
           batchMatMul_asymmetric_quantize_inputs := BatchMatMulOptions_asymmetric_quantize_inputs t\<rparr>)))"

definition ParseCast :: parser where
  "ParseCast op = with_params Data_cast TfLiteCastParams_zero (\<lambda>p.
     if_options (builtin_options_as BuiltinOptions_CastOptions op) p (\<lambda>t.
       bind_fill (ConvertTensorType (CastOptions_in_data_type t)) (\<lambda>y0.
       bind_fill (ConvertTensorType (CastOptions_out_data_type t)) (\<lambda>y1.
         Inr (p\<lparr>cast_in_data_type := y0, cast_out_data_type := y1\<rparr>)))))"

definition ParseConcatenation :: parser where
  "ParseConcatenation op = with_params Data_concatenation TfLiteConcatenationParams_zero (\<lambda>p.
     if_options (builtin_options_as BuiltinOptions_ConcatenationOptions op) p (\<lambda>t.
       Inr (p\<lparr>
           concatenation_activation := ConvertActivation (ConcatenationOptions_fused_activation_function t),
           concatenation_axis := ConcatenationOptions_axis t\<rparr>)))"

definition ParseConv2D :: parser where
  "ParseConv2D op = with_params Data_conv TfLiteConvParams_zero (\<lambda>p.
     if_options (builtin_options_as BuiltinOptions_Conv2DOptions op) p (\<lambda>t.
       Inr (p\<lparr>conv_padding := ConvertPadding (Conv2DOptions_padding t),
           conv_stride_width := Conv2DOptions_stride_w t,
           conv_stride_height := Conv2DOptions_stride_h t,
           conv_activation := ConvertActivation (Conv2DOptions_fused_activation_function t),
           conv_dilation_width_factor := Conv2DOptions_dilation_w_factor t,
           conv_dilation_height_factor := Conv2DOptions_dilation_h_factor t\<rparr>)))"

definition ParseCumsum :: parser where
  "ParseCumsum op = with_params Data_cumsum TfLiteCumsumParams_zero (\<lambda>p.
     if_options (builtin_options_as BuiltinOptions_CumsumOptions op) p (\<lambda>t.
       Inr (p\<lparr>cumsum_exclusive := CumsumOptions_exclusive t,
           cumsum_reverse := CumsumOptions_reverse t\<rparr>)))"

definition ParseDepthToSpace :: parser where
  "ParseDepthToSpace op = with_params Data_depthToSpace TfLiteDepthToSpaceParams_zero (\<lambda>p.
     if_options (builtin_options_as BuiltinOptions_DepthToSpaceOptions op) p (\<lambda>t.
       Inr (p\<lparr>depthToSpace_block_size := DepthToSpaceOptions_block_size t\<rparr>)))"

definition ParseDepthwiseConv2D :: parser where
  "ParseDepthwiseConv2D op = with_params Data_depthwiseConv TfLiteDepthwiseConvParams_zero (\<lambda>p.
     if_options (builtin_options_as BuiltinOptions_DepthwiseConv2DOptions op) p (\<lambda>t.
       Inr (p\<lparr>depthwiseConv_padding := ConvertPadding (DepthwiseConv2DOptions_padding t),
           depthwiseConv_stride_width := DepthwiseConv2DOptions_stride_w t,
           depthwiseConv_stride_height := DepthwiseConv2DOptions_stride_h t,
           depthwiseConv_depth_multiplier := DepthwiseConv2DOptions_depth_multiplier t,
           depthwiseConv_activation := ConvertActivation (DepthwiseConv2DOptions_fused_activation_function t),
           depthwiseConv_dilation_width_factor := DepthwiseConv2DOptions_dilation_w_factor t,
           depthwiseConv_dilation_height_factor := DepthwiseConv2DOptions_dilation_h_factor t\<rparr>)))"

definition ParseDiv :: parser where
  "ParseDiv op = with_params Data_div TfLiteDivParams_zero (\<lambda>p.
     if_options (builtin_options_as BuiltinOptions_DivOptions op) p (\<lambda>t.
       Inr (p\<lparr>div_activation := ConvertActivation (DivOptions_fused_activation_function t)\<rparr>)))"

definition ParseFullyConnected :: parser where
  "ParseFullyConnected op = with_params Data_fullyConnected TfLiteFullyConnectedParams_zero (\<lambda>p.
     if_options (builtin_options_as BuiltinOptions_FullyConnectedOptions op) p (\<lambda>t.
       let p1 = p\<lparr>fullyConnected_activation := ConvertActivation (FullyConnectedOptions_fused_activation_function t),
             fullyConnected_keep_num_dims := FullyConnectedOptions_keep_num_dims t,
             fullyConnected_asymmetric_quantize_inputs := FullyConnectedOptions_asymmetric_quantize_inputs t\<rparr>;
           format = FullyConnectedOptions_weights_format t
       in if format = FullyConnectedOptionsWeightsFormat_DEFAULT
          then Inr (p1\<lparr>fullyConnected_weights_format := kTfLiteFullyConnectedWeightsFormatDefault\<rparr>)
          else if format = FullyConnectedOptionsWeightsFormat_SHUFFLED4x16INT8
          then Inr (p1\<lparr>fullyConnected_weights_format := kTfLiteFullyConnectedWeightsFormatShuffled4x16Int8\<rparr>)
          else Inl [Unhandled_weights_format]))"

definition ParseGather :: parser where
  "ParseGather op = with_params Data_gather TfLiteGatherParams_zero (\<lambda>p.
     let p1 = p\<lparr>gather_axis := 0, gather_batch_dims := 0\<rparr>
     in if_options (builtin_options_as BuiltinOptions_GatherOptions op) p1 (\<lambda>t.
          Inr (p1\<lparr>gather_axis := GatherOptions_axis t, gather_batch_dims := GatherOptions_batch_dims t\<rparr>)))"

definition ParseL2Normalization :: parser where
  "ParseL2Normalization op = with_params Data_l2Norm TfLiteL2NormParams_zero (\<lambda>p.
     if_options (builtin_options_as BuiltinOptions_L2NormOptions op) p (\<lambda>t.
       Inr (p\<lparr>l2Norm_activation := ConvertActivation (L2NormOptions_fused_activation_function t)\<rparr>)))"

definition ParseLeakyRelu :: parser where
  "ParseLeakyRelu op = with_params Data_leakyRelu TfLiteLeakyReluParams_zero (\<lambda>p.
     if_options (builtin_options_as BuiltinOptions_LeakyReluOptions op) p (\<lambda>t.
       Inr (p\<lparr>leakyRelu_alpha := LeakyReluOptions_alpha t\<rparr>)))"

definition ParseMul :: parser where
  "ParseMul op = with_params Data_mul TfLiteMulParams_zero (\<lambda>p.
     if_options (builtin_options_as BuiltinOptions_MulOptions op) p (\<lambda>t.
       Inr (p\<lparr>mul_activation := ConvertActivation (MulOptions_fused_activation_function t)\<rparr>)))"

definition ParsePack :: parser where
  "ParsePack op = with_params Data_pack TfLitePackParams_zero (\<lambda>p.
     if_options (builtin_options_as BuiltinOptions_PackOptions op) p (\<lambda>t.
       Inr (p\<lparr>pack_values_count := PackOptions_values_count t, pack_axis := PackOptions_axis t\<rparr>)))"

definition ParsePool :: parser where
  "ParsePool op = with_params Data_pool TfLitePoolParams_zero (\<lambda>p.
     if_options (builtin_options_as BuiltinOptions_Pool2DOptions op) p (\<lambda>t.
       Inr (p\<lparr>pool_padding := ConvertPadding (Pool2DOptions_padding t),
           pool_stride_width := Pool2DOptions_stride_w t,
           pool_stride_height := Pool2DOptions_stride_h t,
           pool_filter_width := Pool2DOptions_filter_width t,
           pool_filter_height := Pool2DOptions_filter_height t,
           pool_activation := ConvertActivation (Pool2DOptions_fused_activation_function t)\<rparr>)))"

definition ParseReducer :: parser where
  "ParseReducer op = with_params Data_reducer TfLiteReducerParams_zero (\<lambda>p.
     if_options (builtin_options_as BuiltinOptions_ReducerOptions op) p (\<lambda>t.
       Inr (p\<lparr>reducer_keep_dims := ReducerOptions_keep_dims t\<rparr>)))"

definition ParseReshape :: parser where
  "ParseReshape op = with_params Data_reshape TfLiteReshapeParams_zero (\<lambda>p.
     if_options (builtin_options_as BuiltinOptions_ReshapeOptions op) p (\<lambda>t.
       case ReshapeOptions_new_shape t of
         None \<Rightarrow> Inr p
       | Some new_shape \<Rightarrow>
           bind_fill (FlatBufferIntVectorToArray 32 (Some new_shape) (reshape_shape p) ''reshape'') (\<lambda>s.
             Inr (p\<lparr>reshape_shape := s, reshape_num_dimensions := int (length new_shape)\<rparr>))))"

definition ParseResizeBilinear :: parser where
  "ParseResizeBilinear op = with_params Data_resizeBilinear TfLiteResizeBilinearParams_zero (\<lambda>p.
     case builtin_options_as BuiltinOptions_ResizeBilinearOptions op of
       Some t \<Rightarrow> Inr (p\<lparr>resizeBilinear_align_corners := ResizeBilinearOptions_align_corners t,
                          resizeBilinear_half_pixel_centers := ResizeBilinearOptions_half_pixel_centers t\<rparr>)
     | None \<Rightarrow> Inr (p\<lparr>resizeBilinear_align_corners := False, resizeBilinear_half_pixel_centers := False\<rparr>))"

definition ParseResizeNearestNeighbor :: parser where
  "ParseResizeNearestNeighbor op = with_params Data_resizeNearestNeighbor TfLiteResizeNearestNeighborParams_zero (\<lambda>p.
     case builtin_options_as BuiltinOptions_ResizeNearestNeighborOptions op of
       Some t \<Rightarrow> Inr (p\<lparr>resizeNearestNeighbor_align_corners := ResizeNearestNeighborOptions_align_corners t,
                          resizeNearestNeighbor_half_pixel_centers := ResizeNearestNeighborOptions_half_pixel_centers t\<rparr>)
     | None \<Rightarrow> Inr (p\<lparr>resizeNearestNeighbor_align_corners := False,
                       resizeNearestNeighbor_half_pixel_centers := False\<rparr>))"

definition ParseShape :: parser where
  "ParseShape op = with_params Data_shape TfLiteShapeParams_zero (\<lambda>p.
     if_options (builtin_options_as BuiltinOptions_ShapeOptions op) p (\<lambda>t.
       bind_fill (ConvertTensorType (ShapeOptions_out_type t)) (\<lambda>y0.
         Inr (p\<lparr>shape_out_type := y0\<rparr>))))"

definition ParseSoftmax :: parser where
  "ParseSoftmax op = with_params Data_softmax TfLiteSoftmaxParams_zero (\<lambda>p.
     if_options (builtin_options_as BuiltinOptions_SoftmaxOptions op) p (\<lambda>t.
       Inr (p\<lparr>softmax_beta := SoftmaxOptions_beta t\<rparr>)))"

definition ParseSpaceToDepth :: parser where
  "ParseSpaceToDepth op = with_params Data_spaceToDepth TfLiteSpaceToDepthParams_zero (\<lambda>p.
     if_options (builtin_options_as BuiltinOptions_SpaceToDepthOptions op) p (\<lambda>t.
       Inr (p\<lparr>spaceToDepth_block_size := SpaceToDepthOptions_block_size t\<rparr>)))"

definition ParseSplit :: parser where
  "ParseSplit op = with_params Data_split TfLiteSplitParams_zero (\<lambda>p.
     if_options (builtin_options_as BuiltinOptions_SplitOptions op) p (\<lambda>t.
       Inr (p\<lparr>split_num_splits := SplitOptions_num_splits t\<rparr>)))"

definition ParseSplitV :: parser where
  "ParseSplitV op = with_params Data_splitV TfLiteSplitVParams_zero (\<lambda>p.
     if_options (builtin_options_as BuiltinOptions_SplitVOptions op) p (\<lambda>t.
       Inr (p\<lparr>splitV_num_splits := SplitVOptions_num_splits t\<rparr>)))"

definition ParseSqueeze :: parser where
  "ParseSqueeze op = with_params Data_squeeze TfLiteSqueezeParams_zero (\<lambda>p.
     if_options (builtin_options_as BuiltinOptions_SqueezeOptions op) p (\<lambda>t.
       case SqueezeOptions_squeeze_dims t of
         None \<Rightarrow> Inr (p\<lparr>squeeze_num_squeeze_dims := 0\<rparr>)
       | Some dims \<Rightarrow>
           bind_fill (FlatBufferIntVectorToArray 32 (Some dims) (squeeze_squeeze_dims p) ''squeeze'') (\<lambda>s.
             Inr (p\<lparr>squeeze_squeeze_dims := s, squeeze_num_squeeze_dims := int (length dims)\<rparr>))))"

definition ParseStridedSlice :: parser where
  "ParseStridedSlice op = with_params Data_stridedSlice TfLiteStridedSliceParams_zero (\<lambda>p.
     if_options (builtin_options_as BuiltinOptions_StridedSliceOptions op) p (\<lambda>t.
       Inr (p\<lparr>stridedSlice_begin_mask := StridedSliceOptions_begin_mask t,
           stridedSlice_end_mask := StridedSliceOptions_end_mask t,
           stridedSlice_ellipsis_mask := StridedSliceOptions_ellipsis_mask t,
           stridedSlice_new_axis_mask := StridedSliceOptions_new_axis_mask t,
           stridedSlice_shrink_axis_mask := StridedSliceOptions_shrink_axis_mask t\<rparr>)))"

definition ParseSub :: parser where
  "ParseSub op = with_params Data_sub TfLiteSubParams_zero (\<lambda>p.
     if_options (builtin_options_as BuiltinOptions_SubOptions op) p (\<lambda>t.
       Inr (p\<lparr>sub_activation := ConvertActivation (SubOptions_fused_activation_function t),
           sub_pot_scale_int16 := SubOptions_pot_scale_int16 t\<rparr>)))"

definition ParseSvdf :: parser where
  "ParseSvdf op = with_params Data_sVDF TfLiteSVDFParams_zero (\<lambda>p.
     if_options (builtin_options_as BuiltinOptions_SVDFOptions op) p (\<lambda>t.
       Inr (p\<lparr>sVDF_rank := SVDFOptions_rank t,
           sVDF_activation := ConvertActivation (SVDFOptions_fused_activation_function t),
           sVDF_asymmetric_quantize_inputs := SVDFOptions_asymmetric_quantize_inputs t\<rparr>)))"

definition ParseTransposeConv :: parser where
  "ParseTransposeConv op = with_params Data_transposeConv TfLiteTransposeConvParams_zero (\<lambda>p.
     if_options (builtin_options_as BuiltinOptions_TransposeConvOptions op) p (\<lambda>t.
       Inr (p\<lparr>transposeConv_padding := ConvertPadding (TransposeConvOptions_padding t),
           transposeConv_stride_width := TransposeConvOptions_stride_w t,
           transposeConv_stride_height := TransposeConvOptions_stride_h t\<rparr>)))"

definition ParseUnpack :: parser where
  "ParseUnpack op = with_params Data_unpack TfLiteUnpackParams_zero (\<lambda>p.
     if_options (builtin_options_as BuiltinOptions_UnpackOptions op) p (\<lambda>t.
       Inr (p\<lparr>unpack_num := UnpackOptions_num t, unpack_axis := UnpackOptions_axis t\<rparr>)))"

section \<open>Operators whose parameters are parsed inside the switch\<close>

definition ParseLshProjection :: parser where
  "ParseLshProjection op = with_params Data_lSHProjection TfLiteLSHProjectionParams_zero (\<lambda>p.
     if_options (builtin_options_as BuiltinOptions_LSHProjectionOptions op) p (\<lambda>t.
       Inr (p\<lparr>lSHProjection_type := parseLSHProjectionType (LSHProjectionOptions_type t)\<rparr>)))"

definition ParseUnidirectionalSequenceRnn :: parser where
  "ParseUnidirectionalSequenceRnn op = with_params Data_sequenceRNN TfLiteSequenceRNNParams_zero (\<lambda>p.
     if_options (builtin_options_as BuiltinOptions_SequenceRNNOptions op) p (\<lambda>t.
       Inr (p\<lparr>
           sequenceRNN_activation := ConvertActivation (SequenceRNNOptions_fused_activation_function t),
           sequenceRNN_time_major := SequenceRNNOptions_time_major t,
           sequenceRNN_asymmetric_quantize_inputs := SequenceRNNOptions_asymmetric_quantize_inputs t\<rparr>)))"

definition ParseBidirectionalSequenceRnn :: parser where
  "ParseBidirectionalSequenceRnn op = with_params Data_bidirectionalSequenceRNN TfLiteBidirectionalSequenceRNNParams_zero (\<lambda>p.
     if_options (builtin_options_as BuiltinOptions_BidirectionalSequenceRNNOptions op) p (\<lambda>t.
       Inr (p\<lparr>
           bidirectionalSequenceRNN_activation := ConvertActivation (BidirectionalSequenceRNNOptions_fused_activation_function t),
           bidirectionalSequenceRNN_time_major := BidirectionalSequenceRNNOptions_time_major t,
           bidirectionalSequenceRNN_merge_outputs := BidirectionalSequenceRNNOptions_merge_outputs t,
           bidirectionalSequenceRNN_asymmetric_quantize_inputs := BidirectionalSequenceRNNOptions_asymmetric_quantize_inputs t\<rparr>)))"

definition ParseRnn :: parser where
  "ParseRnn op = with_params Data_rNN TfLiteRNNParams_zero (\<lambda>p.
     if_options (builtin_options_as BuiltinOptions_RNNOptions op) p (\<lambda>t.
       Inr (p\<lparr>rNN_activation := ConvertActivation (RNNOptions_fused_activation_function t),
           rNN_asymmetric_quantize_inputs := RNNOptions_asymmetric_quantize_inputs t\<rparr>)))"

definition ParseEmbeddingLookupSparse :: parser where
  "ParseEmbeddingLookupSparse op = with_params Data_embeddingLookupSparse TfLiteEmbeddingLookupSparseParams_zero (\<lambda>p.
     if_options (builtin_options_as BuiltinOptions_EmbeddingLookupSparseOptions op) p (\<lambda>t.
       Inr (p\<lparr>embeddingLookupSparse_combiner := parseCombinerType (EmbeddingLookupSparseOptions_combiner t)\<rparr>)))"

definition ParseLocalResponseNormalization :: parser where
  "ParseLocalResponseNormalization op = with_params Data_localResponseNorm TfLiteLocalResponseNormParams_zero (\<lambda>p.
     if_options (builtin_options_as BuiltinOptions_LocalResponseNormalizationOptions op) p (\<lambda>t.
       Inr (p\<lparr>localResponseNorm_radius := LocalResponseNormalizationOptions_radius t,
           localResponseNorm_bias := LocalResponseNormalizationOptions_bias t,
           localResponseNorm_alpha := LocalResponseNormalizationOptions_alpha t,
           localResponseNorm_beta := LocalResponseNormalizationOptions_beta t\<rparr>)))"

definition ParseLstm :: parser where
  "ParseLstm op = with_params Data_lSTM TfLiteLSTMParams_zero (\<lambda>p.
     case builtin_options_as BuiltinOptions_LSTMOptions op of
       Some t \<Rightarrow>
         (let p1 = p\<lparr>lSTM_activation := ConvertActivation (LSTMOptions_fused_activation_function t),
                lSTM_cell_clip := LSTMOptions_cell_clip t, lSTM_proj_clip := LSTMOptions_proj_clip t\<rparr>;
              k = LSTMOptions_kernel_type t;
              q = LSTMOptions_asymmetric_quantize_inputs t
          in if k = LSTMKernelType_FULL
             then Inr (p1\<lparr>lSTM_kernel_type := kTfLiteLSTMFullKernel, lSTM_asymmetric_quantize_inputs := q\<rparr>)
             else if k = LSTMKernelType_BASIC
             then Inr (p1\<lparr>lSTM_kernel_type := kTfLiteLSTMBasicKernel, lSTM_asymmetric_quantize_inputs := q\<rparr>)
             else Inl [Unhandled_LSTM_kernel_type k])
     | None \<Rightarrow> Inl [No_valid_LSTM_options])"

definition ParseUnidirectionalSequenceLstm :: parser where
  "ParseUnidirectionalSequenceLstm op = with_params Data_unidirectionalSequenceLSTM TfLiteUnidirectionalSequenceLSTMParams_zero (\<lambda>p.
     if_options (builtin_options_as BuiltinOptions_UnidirectionalSequenceLSTMOptions op) p (\<lambda>t.
       Inr (p\<lparr>
           unidirectionalSequenceLSTM_activation := ConvertActivation (UnidirectionalSequenceLSTMOptions_fused_activation_function t),
           unidirectionalSequenceLSTM_cell_clip := UnidirectionalSequenceLSTMOptions_cell_clip t,
           unidirectionalSequenceLSTM_proj_clip := UnidirectionalSequenceLSTMOptions_proj_clip t,
           unidirectionalSequenceLSTM_time_major := UnidirectionalSequenceLSTMOptions_time_major t,
           unidirectionalSequenceLSTM_asymmetric_quantize_inputs := UnidirectionalSequenceLSTMOptions_asymmetric_quantize_inputs t\<rparr>)))"

definition ParseBidirectionalSequenceLstm :: parser where
  "ParseBidirectionalSequenceLstm op = with_params Data_bidirectionalSequenceLSTM TfLiteBidirectionalSequenceLSTMParams_zero (\<lambda>p.
     if_options (builtin_options_as BuiltinOptions_BidirectionalSequenceLSTMOptions op) p (\<lambda>t.
       Inr (p\<lparr>
           bidirectionalSequenceLSTM_activation := ConvertActivation (BidirectionalSequenceLSTMOptions_fused_activation_function t),
           bidirectionalSequenceLSTM_cell_clip := BidirectionalSequenceLSTMOptions_cell_clip t,
           bidirectionalSequenceLSTM_proj_clip := BidirectionalSequenceLSTMOptions_proj_clip t,
           bidirectionalSequenceLSTM_merge_outputs := BidirectionalSequenceLSTMOptions_merge_outputs t,
           bidirectionalSequenceLSTM_time_major := BidirectionalSequenceLSTMOptions_time_major t,
           bidirectionalSequenceLSTM_asymmetric_quantize_inputs := BidirectionalSequenceLSTMOptions_asymmetric_quantize_inputs t\<rparr>)))"

definition ParseSkipGram :: parser where
  "ParseSkipGram op = with_params Data_skipGram TfLiteSkipGramParams_zero (\<lambda>p.
     if_options (builtin_options_as BuiltinOptions_SkipGramOptions op) p (\<lambda>t.
       Inr (p\<lparr>skipGram_ngram_size := SkipGramOptions_ngram_size t,
           skipGram_max_skip_size := SkipGramOptions_max_skip_size t,
           skipGram_include_all_ngrams := SkipGramOptions_include_all_ngrams t\<rparr>)))"

definition ParseSparseToDense :: parser where
  "ParseSparseToDense op = with_params Data_sparseToDense TfLiteSparseToDenseParams_zero (\<lambda>p.
     if_options (builtin_options_as BuiltinOptions_SparseToDenseOptions op) p (\<lambda>t.
       Inr (p\<lparr>sparseToDense_validate_indices := SparseToDenseOptions_validate_indices t\<rparr>)))"

definition ParseFakeQuant :: parser where
  "ParseFakeQuant op = with_params Data_fakeQuant TfLiteFakeQuantParams_zero (\<lambda>p.
     if_options (builtin_options_as BuiltinOptions_FakeQuantOptions op) p (\<lambda>t.
       Inr (p\<lparr>fakeQuant_min := FakeQuantOptions_min t, fakeQuant_max := FakeQuantOptions_max t,
           fakeQuant_num_bits := FakeQuantOptions_num_bits t,
           fakeQuant_narrow_range := FakeQuantOptions_narrow_range t\<rparr>)))"

definition ParseOneHot :: parser where
  "ParseOneHot op = with_params Data_oneHot TfLiteOneHotParams_zero (\<lambda>p.
     if_options (builtin_options_as BuiltinOptions_OneHotOptions op) p (\<lambda>t.
       Inr (p\<lparr>oneHot_axis := OneHotOptions_axis t\<rparr>)))"

definition ParseMirrorPad :: parser where
  "ParseMirrorPad op = with_params Data_mirrorPadding TfLiteMirrorPaddingParams_zero (\<lambda>p.
     if_options (builtin_options_as BuiltinOptions_MirrorPadOptions op) p (\<lambda>t.
       Inr (p\<lparr>mirrorPadding_mode :=
         if MirrorPadOptions_mode t = MirrorPadMode_REFLECT then kTfLiteMirrorPaddingReflect
         else kTfLiteMirrorPaddingSymmetric\<rparr>)))"

definition ParseUnique :: parser where
  "ParseUnique op = with_params Data_unique TfLiteUniqueParams_zero (\<lambda>p.
     if_options (builtin_options_as BuiltinOptions_UniqueOptions op) p (\<lambda>t.
       Inr (p\<lparr>unique_index_out_type :=
         if UniqueOptions_idx_out_type t = TensorType_INT64 then kTfLiteInt64 else kTfLiteInt32\<rparr>)))"

definition ParseReverseSequence :: parser where
  "ParseReverseSequence op = with_params Data_reverseSequence TfLiteReverseSequenceParams_zero (\<lambda>p.
     if_options (builtin_options_as BuiltinOptions_ReverseSequenceOptions op) p (\<lambda>t.
       Inr (p\<lparr>reverseSequence_seq_dim := ReverseSequenceOptions_seq_dim t,
           reverseSequence_batch_dim := ReverseSequenceOptions_batch_dim t\<rparr>)))"

definition ParseIf :: parser where
  "ParseIf op = with_params Data_if TfLiteIfParams_zero (\<lambda>p.
     if_options (builtin_options_as BuiltinOptions_IfOptions op) p (\<lambda>t.
       Inr (p\<lparr>if_then_subgraph_index := IfOptions_then_subgraph_index t,
           if_else_subgraph_index := IfOptions_else_subgraph_index t\<rparr>)))"

definition ParseWhile :: parser where
  "ParseWhile op = with_params Data_while TfLiteWhileParams_zero (\<lambda>p.
     if_options (builtin_options_as BuiltinOptions_WhileOptions op) p (\<lambda>t.
       Inr (p\<lparr>while_cond_subgraph_index := WhileOptions_cond_subgraph_index t,
           while_body_subgraph_index := WhileOptions_body_subgraph_index t\<rparr>)))"

definition ParseCallOnce :: parser where
  "ParseCallOnce op = with_params Data_callOnce TfLiteCallOnceParams_zero (\<lambda>p.
     if_options (builtin_options_as BuiltinOptions_CallOnceOptions op) p (\<lambda>t.
       Inr (p\<lparr>callOnce_init_subgraph_index := CallOnceOptions_init_subgraph_index t\<rparr>)))"

definition ParseConv3d :: parser where
  "ParseConv3d op = with_params Data_conv3D TfLiteConv3DParams_zero (\<lambda>p.
     if_options (builtin_options_as BuiltinOptions_Conv3DOptions op) p (\<lambda>t.
       Inr (p\<lparr>conv3D_padding := ConvertPadding (Conv3DOptions_padding t),
           conv3D_activation := ConvertActivation (Conv3DOptions_fused_activation_function t),
           conv3D_stride_depth := Conv3DOptions_stride_d t,
           conv3D_stride_height := Conv3DOptions_stride_h t,
           conv3D_stride_width := Conv3DOptions_stride_w t,
           conv3D_dilation_depth_factor := Conv3DOptions_dilation_d_factor t,
           conv3D_dilation_height_factor := Conv3DOptions_dilation_h_factor t,
           conv3D_dilation_width_factor := Conv3DOptions_dilation_w_factor t\<rparr>)))"

definition ParseHashtable :: parser where
  "ParseHashtable op = with_params Data_hashtable TfLiteHashtableParams_zero (\<lambda>p.
     if_options (builtin_options_as BuiltinOptions_HashtableOptions op) p (\<lambda>t.
       bind_fill (ConvertTensorType (HashtableOptions_key_dtype t)) (\<lambda>y0.
       bind_fill (ConvertTensorType (HashtableOptions_value_dtype t)) (\<lambda>y1.
         Inr (p\<lparr>hashtable_table_id := HashtableOptions_table_id t, hashtable_key_dtype := y0, hashtable_value_dtype := y1\<rparr>)))))"

text \<open>The one operator that must not occur in a model, and the placeholder code.\<close>

definition ParseDelegate :: parser where
  "ParseDelegate op e = (kTfLiteError, report_all [DELEGATE_op_in_model] e)"

definition ParsePlaceholder :: parser where
  "ParsePlaceholder op e = (kTfLiteError, e)"

section \<open>Operators without parameters\<close>

text \<open>They return \<^verbatim>\<open>kTfLiteOk\<close> and leave \<^verbatim>\<open>builtin_data\<close> as it is; so do the cases without a function.\<close>

definition ParseNothing :: parser where
  "ParseNothing op e = (kTfLiteOk, e)"

definition ParseAbs :: parser where "ParseAbs = ParseNothing"
definition ParseAddN :: parser where "ParseAddN = ParseNothing"
definition ParseBatchToSpaceNd :: parser where "ParseBatchToSpaceNd = ParseNothing"
definition ParseCeil :: parser where "ParseCeil = ParseNothing"
definition ParseCos :: parser where "ParseCos = ParseNothing"
definition ParseDequantize :: parser where "ParseDequantize = ParseNothing"
definition ParseElu :: parser where "ParseElu = ParseNothing"
definition ParseEqual :: parser where "ParseEqual = ParseNothing"
definition ParseExp :: parser where "ParseExp = ParseNothing"
definition ParseExpandDims :: parser where "ParseExpandDims = ParseNothing"
definition ParseFill :: parser where "ParseFill = ParseNothing"
definition ParseFloor :: parser where "ParseFloor = ParseNothing"
definition ParseFloorDiv :: parser where "ParseFloorDiv = ParseNothing"
definition ParseFloorMod :: parser where "ParseFloorMod = ParseNothing"
definition ParseGatherNd :: parser where "ParseGatherNd = ParseNothing"
definition ParseGreater :: parser where "ParseGreater = ParseNothing"
definition ParseGreaterEqual :: parser where "ParseGreaterEqual = ParseNothing"
definition ParseHardSwish :: parser where "ParseHardSwish = ParseNothing"
definition ParseLess :: parser where "ParseLess = ParseNothing"
definition ParseLessEqual :: parser where "ParseLessEqual = ParseNothing"
definition ParseLog :: parser where "ParseLog = ParseNothing"
definition ParseLogicalAnd :: parser where "ParseLogicalAnd = ParseNothing"
definition ParseLogicalNot :: parser where "ParseLogicalNot = ParseNothing"
definition ParseLogicalOr :: parser where "ParseLogicalOr = ParseNothing"
definition ParseLogistic :: parser where "ParseLogistic = ParseNothing"
definition ParseLogSoftmax :: parser where "ParseLogSoftmax = ParseNothing"
definition ParseMaximum :: parser where "ParseMaximum = ParseNothing"
definition ParseMinimum :: parser where "ParseMinimum = ParseNothing"
definition ParseNeg :: parser where "ParseNeg = ParseNothing"
definition ParseNotEqual :: parser where "ParseNotEqual = ParseNothing"
definition ParsePad :: parser where "ParsePad = ParseNothing"
definition ParsePadV2 :: parser where "ParsePadV2 = ParseNothing"
definition ParsePow :: parser where "ParsePow = ParseNothing"
definition ParsePrelu :: parser where "ParsePrelu = ParseNothing"
definition ParseQuantize :: parser where "ParseQuantize = ParseNothing"
definition ParseRelu :: parser where "ParseRelu = ParseNothing"
definition ParseRelu6 :: parser where "ParseRelu6 = ParseNothing"
definition ParseRound :: parser where "ParseRound = ParseNothing"
definition ParseRsqrt :: parser where "ParseRsqrt = ParseNothing"
definition ParseSin :: parser where "ParseSin = ParseNothing"
definition ParseSpaceToBatchNd :: parser where "ParseSpaceToBatchNd = ParseNothing"
definition ParseSqrt :: parser where "ParseSqrt = ParseNothing"
definition ParseSquare :: parser where "ParseSquare = ParseNothing"
definition ParseTanh :: parser where "ParseTanh = ParseNothing"
definition ParseTranspose :: parser where "ParseTranspose = ParseNothing"
definition ParseZerosLike :: parser where "ParseZerosLike = ParseNothing"

section \<open>The switch\<close>

text \<open>The cases of \<^verbatim>\<open>ParseOpDataTfLite\<close> in the order of the source, in five parts.\<close>

definition parse_table_1 :: "(int \<times> parser) list" where
  "parse_table_1 =
    [(BuiltinOperator_ABS, ParseAbs),
     (BuiltinOperator_ADD, ParseAdd),
     (BuiltinOperator_ADD_N, ParseAddN),
     (BuiltinOperator_ARG_MAX, ParseArgMax),
     (BuiltinOperator_ARG_MIN, ParseArgMin),
     (BuiltinOperator_AVERAGE_POOL_2D, ParsePool),
     (BuiltinOperator_BATCH_MATMUL, ParseBatchMatMul),
     (BuiltinOperator_BATCH_TO_SPACE_ND, ParseBatchToSpaceNd),
     (BuiltinOperator_CEIL, ParseCeil),
     (BuiltinOperator_CONCATENATION, ParseConcatenation),
     (BuiltinOperator_CONV_2D, ParseConv2D),
     (BuiltinOperator_CUMSUM, ParseCumsum),
     (BuiltinOperator_DEPTH_TO_SPACE, ParseDepthToSpace),
     (BuiltinOperator_DEPTHWISE_CONV_2D, ParseDepthwiseConv2D),
     (BuiltinOperator_DEQUANTIZE, ParseDequantize),
     (BuiltinOperator_DIV, ParseDiv),
     (BuiltinOperator_ELU, ParseElu),
     (BuiltinOperator_EXP, ParseExp),
     (BuiltinOperator_EXPAND_DIMS, ParseExpandDims),
     (BuiltinOperator_FILL, ParseFill),
     (BuiltinOperator_FLOOR, ParseFloor),
     (BuiltinOperator_FLOOR_DIV, ParseFloorDiv),
     (BuiltinOperator_FLOOR_MOD, ParseFloorMod),
     (BuiltinOperator_FULLY_CONNECTED, ParseFullyConnected),
     (BuiltinOperator_GATHER_ND, ParseGatherNd),
     (BuiltinOperator_GREATER, ParseGreater),
     (BuiltinOperator_GREATER_EQUAL, ParseGreaterEqual),
     (BuiltinOperator_HARD_SWISH, ParseHardSwish),
     (BuiltinOperator_L2_NORMALIZATION, ParseL2Normalization),
     (BuiltinOperator_L2_POOL_2D, ParsePool),
     (BuiltinOperator_LEAKY_RELU, ParseLeakyRelu),
     (BuiltinOperator_LESS, ParseLess),
     (BuiltinOperator_LESS_EQUAL, ParseLessEqual),
     (BuiltinOperator_LOG, ParseLog),
     (BuiltinOperator_LOGICAL_AND, ParseLogicalAnd),
     (BuiltinOperator_LOGICAL_NOT, ParseLogicalNot),
     (BuiltinOperator_LOGICAL_OR, ParseLogicalOr),
     (BuiltinOperator_LOGISTIC, ParseLogistic)]"

definition parse_table_2 :: "(int \<times> parser) list" where
  "parse_table_2 =
    [(BuiltinOperator_LOG_SOFTMAX, ParseLogSoftmax),
     (BuiltinOperator_MAXIMUM, ParseMaximum),
     (BuiltinOperator_MAX_POOL_2D, ParsePool),
     (BuiltinOperator_MEAN, ParseReducer),
     (BuiltinOperator_MINIMUM, ParseMinimum),
     (BuiltinOperator_MUL, ParseMul),
     (BuiltinOperator_NEG, ParseNeg),
     (BuiltinOperator_NOT_EQUAL, ParseNotEqual),
     (BuiltinOperator_PACK, ParsePack),
     (BuiltinOperator_PAD, ParsePad),
     (BuiltinOperator_PADV2, ParsePadV2),
     (BuiltinOperator_POW, ParsePow),
     (BuiltinOperator_PRELU, ParsePrelu),
     (BuiltinOperator_QUANTIZE, ParseQuantize),
     (BuiltinOperator_REDUCE_ANY, ParseReducer),
     (BuiltinOperator_REDUCE_MAX, ParseReducer),
     (BuiltinOperator_REDUCE_MIN, ParseReducer),
     (BuiltinOperator_REDUCE_PROD, ParseReducer),
     (BuiltinOperator_RELU, ParseRelu),
     (BuiltinOperator_RELU6, ParseRelu6),
     (BuiltinOperator_RESHAPE, ParseReshape),
     (BuiltinOperator_RESIZE_BILINEAR, ParseResizeBilinear),
     (BuiltinOperator_RESIZE_NEAREST_NEIGHBOR, ParseResizeNearestNeighbor),
     (BuiltinOperator_ROUND, ParseRound),
     (BuiltinOperator_RSQRT, ParseRsqrt),
     (BuiltinOperator_SHAPE, ParseShape),
     (BuiltinOperator_SIN, ParseSin),
     (BuiltinOperator_SOFTMAX, ParseSoftmax),
     (BuiltinOperator_SPACE_TO_BATCH_ND, ParseSpaceToBatchNd),
     (BuiltinOperator_SPACE_TO_DEPTH, ParseSpaceToDepth),
     (BuiltinOperator_SPLIT, ParseSplit),
     (BuiltinOperator_SPLIT_V, ParseSplitV),
     (BuiltinOperator_SQRT, ParseSqrt),
     (BuiltinOperator_SQUARE, ParseSquare),
     (BuiltinOperator_SQUEEZE, ParseSqueeze),
     (BuiltinOperator_STRIDED_SLICE, ParseStridedSlice),
     (BuiltinOperator_SUB, ParseSub)]"

definition parse_table_3 :: "(int \<times> parser) list" where
  "parse_table_3 =
    [(BuiltinOperator_SUM, ParseReducer),
     (BuiltinOperator_SVDF, ParseSvdf),
     (BuiltinOperator_TANH, ParseTanh),
     (BuiltinOperator_TRANSPOSE_CONV, ParseTransposeConv),
     (BuiltinOperator_UNPACK, ParseUnpack),
     (BuiltinOperator_ZEROS_LIKE, ParseZerosLike),
     (BuiltinOperator_CAST, ParseCast),
     (BuiltinOperator_LSH_PROJECTION, ParseLshProjection),
     (BuiltinOperator_UNIDIRECTIONAL_SEQUENCE_RNN, ParseUnidirectionalSequenceRnn),
     (BuiltinOperator_BIDIRECTIONAL_SEQUENCE_RNN, ParseBidirectionalSequenceRnn),
     (BuiltinOperator_RNN, ParseRnn),
     (BuiltinOperator_EMBEDDING_LOOKUP_SPARSE, ParseEmbeddingLookupSparse),
     (BuiltinOperator_HASHTABLE_LOOKUP, ParseNothing),
     (BuiltinOperator_LOCAL_RESPONSE_NORMALIZATION, ParseLocalResponseNormalization),
     (BuiltinOperator_LSTM, ParseLstm),
     (BuiltinOperator_UNIDIRECTIONAL_SEQUENCE_LSTM, ParseUnidirectionalSequenceLstm)]"

definition parse_table_4 :: "(int \<times> parser) list" where
  "parse_table_4 =
    [(BuiltinOperator_BIDIRECTIONAL_SEQUENCE_LSTM, ParseBidirectionalSequenceLstm),
     (BuiltinOperator_SKIP_GRAM, ParseSkipGram),
     (BuiltinOperator_GATHER, ParseGather),
     (BuiltinOperator_SPARSE_TO_DENSE, ParseSparseToDense),
     (BuiltinOperator_DELEGATE, ParseDelegate),
     (BuiltinOperator_FAKE_QUANT, ParseFakeQuant),
     (BuiltinOperator_ONE_HOT, ParseOneHot),
     (BuiltinOperator_MIRROR_PAD, ParseMirrorPad),
     (BuiltinOperator_UNIQUE, ParseUnique),
     (BuiltinOperator_REVERSE_SEQUENCE, ParseReverseSequence),
     (BuiltinOperator_IF, ParseIf),
     (BuiltinOperator_WHILE, ParseWhile),
     (BuiltinOperator_CALL_ONCE, ParseCallOnce),
     (BuiltinOperator_CONV_3D, ParseConv3d)]"

definition parse_table_5 :: "(int \<times> parser) list" where
  "parse_table_5 =
    [(BuiltinOperator_HASHTABLE, ParseHashtable),
     (BuiltinOperator_CALL, ParseNothing),
     (BuiltinOperator_CONCAT_EMBEDDINGS, ParseNothing),
     (BuiltinOperator_COS, ParseNothing),
     (BuiltinOperator_CUSTOM, ParseNothing),
     (BuiltinOperator_EMBEDDING_LOOKUP, ParseNothing),
     (BuiltinOperator_EQUAL, ParseNothing),
     (BuiltinOperator_MATRIX_DIAG, ParseNothing),
     (BuiltinOperator_MATRIX_SET_DIAG, ParseNothing),
     (BuiltinOperator_RELU_N1_TO_1, ParseNothing),
     (BuiltinOperator_SELECT, ParseNothing),
     (BuiltinOperator_SELECT_V2, ParseNothing),
     (BuiltinOperator_SLICE, ParseNothing),
     (BuiltinOperator_TILE, ParseNothing),
     (BuiltinOperator_TOPK_V2, ParseNothing),
     (BuiltinOperator_TRANSPOSE, ParseNothing),
     (BuiltinOperator_RANGE, ParseNothing),
     (BuiltinOperator_SQUARED_DIFFERENCE, ParseNothing),
     (BuiltinOperator_REVERSE_V2, ParseNothing),
     (BuiltinOperator_WHERE, ParseNothing),
     (BuiltinOperator_RANK, ParseNothing),
     (BuiltinOperator_NON_MAX_SUPPRESSION_V4, ParseNothing),
     (BuiltinOperator_NON_MAX_SUPPRESSION_V5, ParseNothing),
     (BuiltinOperator_SCATTER_ND, ParseNothing),
     (BuiltinOperator_DENSIFY, ParseNothing),
     (BuiltinOperator_SEGMENT_SUM, ParseNothing),
     (BuiltinOperator_BROADCAST_TO, ParseNothing),
     (BuiltinOperator_RFFT2D, ParseNothing),
     (BuiltinOperator_IMAG, ParseNothing),
     (BuiltinOperator_REAL, ParseNothing),
     (BuiltinOperator_COMPLEX_ABS, ParseNothing),
     (BuiltinOperator_HASHTABLE_FIND, ParseNothing),
     (BuiltinOperator_HASHTABLE_IMPORT, ParseNothing),
     (BuiltinOperator_HASHTABLE_SIZE, ParseNothing),
     (BuiltinOperator_PLACEHOLDER_FOR_GREATER_OP_CODES, ParsePlaceholder)]"

definition parse_table :: "(int \<times> parser) list" where
  "parse_table = parse_table_1 @ parse_table_2 @ parse_table_3 @ parse_table_4 @ parse_table_5"

definition ParseOpDataTfLite :: "Operator \<Rightarrow> int \<Rightarrow> parse_env \<Rightarrow> TfLiteStatus \<times> parse_env" where
  "ParseOpDataTfLite op op_type e =
     (let e1 = e\<lparr>parsed := None\<rparr>
      in case map_of parse_table op_type of
           Some parse \<Rightarrow> parse op e1
         | None \<Rightarrow> (kTfLiteError, e1))"

definition ParseOpData :: "Operator \<Rightarrow> int \<Rightarrow> parse_env \<Rightarrow> TfLiteStatus \<times> parse_env" where
  "ParseOpData op op_type e = ParseOpDataTfLite op op_type e"

lemmas parse_table_defs = parse_table_1_def parse_table_2_def parse_table_3_def parse_table_4_def parse_table_5_def

end
