(* ===== verification/Op_Data_Props.thy ===== *)
theory Op_Data_Props
  imports Flatbuffer_Conversions
begin

text \<open>
  Properties of the operator parser: it never leaks a parameter block, the struct it returns is the
  one its operator code calls for, it rejects exactly the operators listed below, and it never
  writes outside the fixed-size arrays of the parameter structs.
\<close>

lemmas param_parser_defs =
  ParseAdd_def ParseArgMax_def ParseArgMin_def ParseBatchMatMul_def ParseCast_def ParseConcatenation_def
  ParseConv2D_def ParseCumsum_def ParseDepthToSpace_def ParseDepthwiseConv2D_def ParseDiv_def
  ParseFullyConnected_def ParseGather_def ParseL2Normalization_def ParseLeakyRelu_def ParseMul_def
  ParsePack_def ParsePool_def ParseReducer_def ParseReshape_def ParseResizeBilinear_def
  ParseResizeNearestNeighbor_def ParseShape_def ParseSoftmax_def ParseSpaceToDepth_def ParseSplit_def
  ParseSplitV_def ParseSqueeze_def ParseStridedSlice_def ParseSub_def ParseSvdf_def ParseTransposeConv_def
  ParseUnpack_def ParseLshProjection_def ParseUnidirectionalSequenceRnn_def
  ParseBidirectionalSequenceRnn_def ParseRnn_def ParseEmbeddingLookupSparse_def
  ParseLocalResponseNormalization_def ParseLstm_def ParseUnidirectionalSequenceLstm_def
  ParseBidirectionalSequenceLstm_def ParseSkipGram_def ParseSparseToDense_def ParseFakeQuant_def
  ParseOneHot_def ParseMirrorPad_def ParseUnique_def ParseReverseSequence_def ParseIf_def ParseWhile_def
  ParseCallOnce_def ParseConv3d_def ParseHashtable_def

lemmas noop_parser_defs =
  ParseAbs_def ParseAddN_def ParseBatchToSpaceNd_def ParseCeil_def ParseCos_def ParseDequantize_def
  ParseElu_def ParseEqual_def ParseExp_def ParseExpandDims_def ParseFill_def ParseFloor_def
  ParseFloorDiv_def ParseFloorMod_def ParseGatherNd_def ParseGreater_def ParseGreaterEqual_def
  ParseHardSwish_def ParseLess_def ParseLessEqual_def ParseLog_def ParseLogicalAnd_def ParseLogicalNot_def
  ParseLogicalOr_def ParseLogistic_def ParseLogSoftmax_def ParseMaximum_def ParseMinimum_def ParseNeg_def
  ParseNotEqual_def ParsePad_def ParsePadV2_def ParsePow_def ParsePrelu_def ParseQuantize_def ParseRelu_def
  ParseRelu6_def ParseRound_def ParseRsqrt_def ParseSin_def ParseSpaceToBatchNd_def ParseSqrt_def
  ParseSquare_def ParseTanh_def ParseTranspose_def ParseZerosLike_def

section \<open>The allocator\<close>

text \<open>
  What the parsers rely on: a block handed out is new, and returning it restores the blocks that
  were out before.
\<close>

locale data_allocator =
  fixes alloc :: "'e \<Rightarrow> nat option \<times> 'e"
    and dealloc :: "nat \<Rightarrow> 'e \<Rightarrow> 'e"
    and blocks :: "'e \<Rightarrow> nat list"
    and ok :: "'e \<Rightarrow> bool"
  assumes alloc_none: "ok e \<Longrightarrow> alloc e = (None, e') \<Longrightarrow> ok e' \<and> blocks e' = blocks e"
    and alloc_some: "ok e \<Longrightarrow> alloc e = (Some n, e') \<Longrightarrow> ok e' \<and> n \<notin> set (blocks e) \<and> blocks e' = n # blocks e"
    and dealloc_blocks: "ok e \<Longrightarrow> ok (dealloc n e) \<and> blocks (dealloc n e) = remove1 n (blocks e)"
begin

lemma alloc_dealloc:
  assumes "ok e" "alloc e = (Some n, e')" "blocks e'' = blocks e'" "ok e''"
  shows "blocks (dealloc n e'') = blocks e" "ok (dealloc n e'')"
  using alloc_some [OF assms(1,2)] dealloc_blocks [OF assms(4), of n] assms(3) by simp_all

end

definition alloc_ok :: "parse_env \<Rightarrow> bool" where
  "alloc_ok e \<longleftrightarrow> (\<forall>n \<in> set (live_blocks e). n < next_block e)"

interpretation pa: data_allocator AllocatePOD Deallocate live_blocks alloc_ok
  by unfold_locales
    (auto simp: AllocatePOD_def Deallocate_def alloc_ok_def Let_def less_Suc_eq split: if_splits dest: notin_set_remove1)

section \<open>No leaks\<close>

text \<open>
  A clean outcome: success leaves the environment's blocks alone or adds the one block the out
  parameter now owns; failure leaves blocks and out parameter as they were.
\<close>

definition clean :: "parse_env \<Rightarrow> TfLiteStatus \<times> parse_env \<Rightarrow> bool" where
  "clean e r \<longleftrightarrow> alloc_ok (snd r) \<and>
     (fst r = kTfLiteOk \<and> parsed (snd r) = parsed e \<and> live_blocks (snd r) = live_blocks e \<or>
      fst r = kTfLiteOk \<and> (\<exists>n d. parsed (snd r) = Some (n, d) \<and> n \<notin> set (live_blocks e) \<and>
        live_blocks (snd r) = n # live_blocks e) \<or>
      fst r = kTfLiteError \<and> parsed (snd r) = parsed e \<and> live_blocks (snd r) = live_blocks e)"

definition clean_parser :: "parser \<Rightarrow> bool" where
  "clean_parser P \<longleftrightarrow> (\<forall>op e. alloc_ok e \<longrightarrow> clean e (P op e))"

lemma report_all_fields [simp]:
  "live_blocks (report_all rs e) = live_blocks e" "parsed (report_all rs e) = parsed e"
  "alloc_ok (report_all rs e) = alloc_ok e" "parsed (Deallocate n e) = parsed e"
  by (simp_all add: report_all_def alloc_ok_def Deallocate_def)

lemma AllocatePOD_parsed: "AllocatePOD e = (r, e1) \<Longrightarrow> parsed e1 = parsed e"
  by (auto simp: AllocatePOD_def Let_def split: if_splits)

lemma clean_with_params [simp]:
  assumes "alloc_ok e"
  shows "clean e (with_params wrap z fill e)"
proof -
  obtain r e1 where a: "AllocatePOD e = (r, e1)" by fastforce
  show ?thesis
  proof (cases r)
    case None
    then show ?thesis using pa.alloc_none [OF assms] AllocatePOD_parsed a by (auto simp: with_params_def clean_def)
  next
    case (Some n)
    then have s: "AllocatePOD e = (Some n, e1)" using a by simp
    note b = pa.alloc_some [OF assms s]
    show ?thesis
    proof (cases "fill z")
      case (Inl rs)
      have "live_blocks (report_all rs e1) = live_blocks e1" "alloc_ok (report_all rs e1)" using b by simp_all
      then show ?thesis using pa.alloc_dealloc [OF assms s] AllocatePOD_parsed [OF s] Inl s
        by (simp add: with_params_def clean_def)
    next
      case (Inr p)
      then show ?thesis using b s by (simp add: with_params_def clean_def alloc_ok_def)
    qed
  qed
qed

lemma clean_parsers [simp]:
  "clean_parser ParseAdd" "clean_parser ParseArgMax" "clean_parser ParseArgMin"
  "clean_parser ParseBatchMatMul" "clean_parser ParseCast" "clean_parser ParseConcatenation"
  "clean_parser ParseConv2D" "clean_parser ParseCumsum" "clean_parser ParseDepthToSpace"
  "clean_parser ParseDepthwiseConv2D" "clean_parser ParseDiv" "clean_parser ParseFullyConnected"
  "clean_parser ParseGather" "clean_parser ParseL2Normalization" "clean_parser ParseLeakyRelu"
  "clean_parser ParseMul" "clean_parser ParsePack" "clean_parser ParsePool" "clean_parser ParseReducer"
  "clean_parser ParseReshape" "clean_parser ParseResizeBilinear" "clean_parser ParseResizeNearestNeighbor"
  "clean_parser ParseShape" "clean_parser ParseSoftmax" "clean_parser ParseSpaceToDepth"
  "clean_parser ParseSplit" "clean_parser ParseSplitV" "clean_parser ParseSqueeze"
  "clean_parser ParseStridedSlice" "clean_parser ParseSub" "clean_parser ParseSvdf"
  "clean_parser ParseTransposeConv" "clean_parser ParseUnpack" "clean_parser ParseLshProjection"
  "clean_parser ParseUnidirectionalSequenceRnn" "clean_parser ParseBidirectionalSequenceRnn"
  "clean_parser ParseRnn" "clean_parser ParseEmbeddingLookupSparse"
  "clean_parser ParseLocalResponseNormalization" "clean_parser ParseLstm"
  "clean_parser ParseUnidirectionalSequenceLstm" "clean_parser ParseBidirectionalSequenceLstm"
  "clean_parser ParseSkipGram" "clean_parser ParseSparseToDense" "clean_parser ParseFakeQuant"
  "clean_parser ParseOneHot" "clean_parser ParseMirrorPad" "clean_parser ParseUnique"
  "clean_parser ParseReverseSequence" "clean_parser ParseIf" "clean_parser ParseWhile"
  "clean_parser ParseCallOnce" "clean_parser ParseConv3d" "clean_parser ParseHashtable"
  "clean_parser ParseNothing" "clean_parser ParsePlaceholder" "clean_parser ParseDelegate"
  by (simp_all add: clean_parser_def param_parser_defs ParseNothing_def ParsePlaceholder_def ParseDelegate_def)
    (simp_all add: clean_def)

lemma table_clean: "\<forall>(k, P) \<in> set parse_table. clean_parser P"
  by (simp add: parse_table_def parse_table_defs noop_parser_defs)

text \<open>
  C15: Parsing an operator never leaks and never hands out a stale pointer. Whatever the operator and
  its code: on success \<^verbatim>\<open>builtin_data\<close> is null and the allocator is as before, or it owns exactly one
  new block; on failure it is null, and a block allocated on the way has been returned.
\<close>

theorem parse_never_leaks:
  assumes "alloc_ok e"
  shows "case ParseOpData op op_type e of (st, e') \<Rightarrow>
     st = kTfLiteOk \<and> parsed e' = None \<and> live_blocks e' = live_blocks e \<or>
     st = kTfLiteOk \<and> (\<exists>n d. parsed e' = Some (n, d) \<and> n \<notin> set (live_blocks e) \<and> live_blocks e' = n # live_blocks e) \<or>
     st = kTfLiteError \<and> parsed e' = None \<and> live_blocks e' = live_blocks e"
proof -
  let ?e = "e\<lparr>parsed := None\<rparr>"
  have ok: "alloc_ok ?e" using assms by (simp add: alloc_ok_def)
  have "clean ?e (ParseOpData op op_type e)"
  proof (cases "map_of parse_table op_type")
    case None
    then show ?thesis using ok by (simp add: ParseOpData_def ParseOpDataTfLite_def clean_def)
  next
    case (Some P)
    then have "clean_parser P" using table_clean map_of_SomeD by fastforce
    then show ?thesis using ok Some by (simp add: ParseOpData_def ParseOpDataTfLite_def clean_parser_def)
  qed
  then show ?thesis by (cases "ParseOpData op op_type e") (simp add: clean_def)
qed

definition sample_parse_env :: parse_env where
  "sample_parse_env = \<lparr>can_alloc = (\<lambda>_. True), next_block = 7, live_blocks = [3, 5], parsed = None, reported = []\<rparr>"

text \<open>A reshape operator with nine dimensions, one more than the parameter struct holds.\<close>

definition big_reshape :: Operator where
  "big_reshape = \<lparr>builtin_options_type = BuiltinOptions_ReshapeOptions,
     builtin_options = Some (empty_table\<lparr>fb_vecs := [4 \<mapsto> replicate 9 1]\<rparr>)\<rparr>"

lemma sample_parse_env_ok: "alloc_ok sample_parse_env"
  by (simp add: alloc_ok_def sample_parse_env_def)

theorem parse_never_leaks_witness:
  "case ParseOpData big_reshape BuiltinOperator_RESHAPE sample_parse_env of (st, e') \<Rightarrow>
     st = kTfLiteOk \<and> parsed e' = None \<and> live_blocks e' = [3, 5] \<or>
     st = kTfLiteOk \<and> (\<exists>n d. parsed e' = Some (n, d) \<and> n \<notin> {3, 5} \<and> live_blocks e' = [n, 3, 5]) \<or>
     st = kTfLiteError \<and> parsed e' = None \<and> live_blocks e' = [3, 5]"
  using parse_never_leaks [OF sample_parse_env_ok, of big_reshape BuiltinOperator_RESHAPE]
  by (simp add: sample_parse_env_def)

section \<open>The struct that is returned\<close>

fun struct_of :: "builtin_data \<Rightarrow> string" where
  "struct_of (Data_add x) = ''TfLiteAddParams''"
| "struct_of (Data_argMax x) = ''TfLiteArgMaxParams''"
| "struct_of (Data_argMin x) = ''TfLiteArgMinParams''"
| "struct_of (Data_batchMatMul x) = ''TfLiteBatchMatMulParams''"
| "struct_of (Data_cast x) = ''TfLiteCastParams''"
| "struct_of (Data_concatenation x) = ''TfLiteConcatenationParams''"
| "struct_of (Data_conv x) = ''TfLiteConvParams''"
| "struct_of (Data_cumsum x) = ''TfLiteCumsumParams''"
| "struct_of (Data_depthToSpace x) = ''TfLiteDepthToSpaceParams''"
| "struct_of (Data_depthwiseConv x) = ''TfLiteDepthwiseConvParams''"
| "struct_of (Data_div x) = ''TfLiteDivParams''"
| "struct_of (Data_fullyConnected x) = ''TfLiteFullyConnectedParams''"
| "struct_of (Data_gather x) = ''TfLiteGatherParams''"
| "struct_of (Data_l2Norm x) = ''TfLiteL2NormParams''"
| "struct_of (Data_leakyRelu x) = ''TfLiteLeakyReluParams''"
| "struct_of (Data_mul x) = ''TfLiteMulParams''"
| "struct_of (Data_pack x) = ''TfLitePackParams''"
| "struct_of (Data_pool x) = ''TfLitePoolParams''"
| "struct_of (Data_reducer x) = ''TfLiteReducerParams''"
| "struct_of (Data_reshape x) = ''TfLiteReshapeParams''"
| "struct_of (Data_resizeBilinear x) = ''TfLiteResizeBilinearParams''"
| "struct_of (Data_resizeNearestNeighbor x) = ''TfLiteResizeNearestNeighborParams''"
| "struct_of (Data_shape x) = ''TfLiteShapeParams''"
| "struct_of (Data_softmax x) = ''TfLiteSoftmaxParams''"
| "struct_of (Data_spaceToDepth x) = ''TfLiteSpaceToDepthParams''"
| "struct_of (Data_split x) = ''TfLiteSplitParams''"
| "struct_of (Data_splitV x) = ''TfLiteSplitVParams''"
| "struct_of (Data_squeeze x) = ''TfLiteSqueezeParams''"
| "struct_of (Data_stridedSlice x) = ''TfLiteStridedSliceParams''"
| "struct_of (Data_sub x) = ''TfLiteSubParams''"
| "struct_of (Data_sVDF x) = ''TfLiteSVDFParams''"
| "struct_of (Data_transposeConv x) = ''TfLiteTransposeConvParams''"
| "struct_of (Data_unpack x) = ''TfLiteUnpackParams''"
| "struct_of (Data_lSHProjection x) = ''TfLiteLSHProjectionParams''"
| "struct_of (Data_sequenceRNN x) = ''TfLiteSequenceRNNParams''"
| "struct_of (Data_bidirectionalSequenceRNN x) = ''TfLiteBidirectionalSequenceRNNParams''"
| "struct_of (Data_rNN x) = ''TfLiteRNNParams''"
| "struct_of (Data_embeddingLookupSparse x) = ''TfLiteEmbeddingLookupSparseParams''"
| "struct_of (Data_localResponseNorm x) = ''TfLiteLocalResponseNormParams''"
| "struct_of (Data_lSTM x) = ''TfLiteLSTMParams''"
| "struct_of (Data_unidirectionalSequenceLSTM x) = ''TfLiteUnidirectionalSequenceLSTMParams''"
| "struct_of (Data_bidirectionalSequenceLSTM x) = ''TfLiteBidirectionalSequenceLSTMParams''"
| "struct_of (Data_skipGram x) = ''TfLiteSkipGramParams''"
| "struct_of (Data_sparseToDense x) = ''TfLiteSparseToDenseParams''"
| "struct_of (Data_fakeQuant x) = ''TfLiteFakeQuantParams''"
| "struct_of (Data_oneHot x) = ''TfLiteOneHotParams''"
| "struct_of (Data_mirrorPadding x) = ''TfLiteMirrorPaddingParams''"
| "struct_of (Data_unique x) = ''TfLiteUniqueParams''"
| "struct_of (Data_reverseSequence x) = ''TfLiteReverseSequenceParams''"
| "struct_of (Data_if x) = ''TfLiteIfParams''"
| "struct_of (Data_while x) = ''TfLiteWhileParams''"
| "struct_of (Data_callOnce x) = ''TfLiteCallOnceParams''"
| "struct_of (Data_conv3D x) = ''TfLiteConv3DParams''"
| "struct_of (Data_hashtable x) = ''TfLiteHashtableParams''"

definition struct_table :: "(int \<times> string option) list" where
  "struct_table =
    [(BuiltinOperator_ABS, None),
     (BuiltinOperator_ADD, Some ''TfLiteAddParams''),
     (BuiltinOperator_ADD_N, None),
     (BuiltinOperator_ARG_MAX, Some ''TfLiteArgMaxParams''),
     (BuiltinOperator_ARG_MIN, Some ''TfLiteArgMinParams''),
     (BuiltinOperator_AVERAGE_POOL_2D, Some ''TfLitePoolParams''),
     (BuiltinOperator_BATCH_MATMUL, Some ''TfLiteBatchMatMulParams''),
     (BuiltinOperator_BATCH_TO_SPACE_ND, None),
     (BuiltinOperator_CEIL, None),
     (BuiltinOperator_CONCATENATION, Some ''TfLiteConcatenationParams''),
     (BuiltinOperator_CONV_2D, Some ''TfLiteConvParams''),
     (BuiltinOperator_CUMSUM, Some ''TfLiteCumsumParams''),
     (BuiltinOperator_DEPTH_TO_SPACE, Some ''TfLiteDepthToSpaceParams''),
     (BuiltinOperator_DEPTHWISE_CONV_2D, Some ''TfLiteDepthwiseConvParams''),
     (BuiltinOperator_DEQUANTIZE, None),
     (BuiltinOperator_DIV, Some ''TfLiteDivParams''),
     (BuiltinOperator_ELU, None),
     (BuiltinOperator_EXP, None),
     (BuiltinOperator_EXPAND_DIMS, None),
     (BuiltinOperator_FILL, None),
     (BuiltinOperator_FLOOR, None),
     (BuiltinOperator_FLOOR_DIV, None),
     (BuiltinOperator_FLOOR_MOD, None),
     (BuiltinOperator_FULLY_CONNECTED, Some ''TfLiteFullyConnectedParams''),
     (BuiltinOperator_GATHER_ND, None),
     (BuiltinOperator_GREATER, None),
     (BuiltinOperator_GREATER_EQUAL, None),
     (BuiltinOperator_HARD_SWISH, None),
     (BuiltinOperator_L2_NORMALIZATION, Some ''TfLiteL2NormParams''),
     (BuiltinOperator_L2_POOL_2D, Some ''TfLitePoolParams''),
     (BuiltinOperator_LEAKY_RELU, Some ''TfLiteLeakyReluParams''),
     (BuiltinOperator_LESS, None),
     (BuiltinOperator_LESS_EQUAL, None),
     (BuiltinOperator_LOG, None),
     (BuiltinOperator_LOGICAL_AND, None),
     (BuiltinOperator_LOGICAL_NOT, None),
     (BuiltinOperator_LOGICAL_OR, None),
     (BuiltinOperator_LOGISTIC, None),
     (BuiltinOperator_LOG_SOFTMAX, None),
     (BuiltinOperator_MAXIMUM, None),
     (BuiltinOperator_MAX_POOL_2D, Some ''TfLitePoolParams''),
     (BuiltinOperator_MEAN, Some ''TfLiteReducerParams''),
     (BuiltinOperator_MINIMUM, None),
     (BuiltinOperator_MUL, Some ''TfLiteMulParams''),
     (BuiltinOperator_NEG, None),
     (BuiltinOperator_NOT_EQUAL, None),
     (BuiltinOperator_PACK, Some ''TfLitePackParams''),
     (BuiltinOperator_PAD, None),
     (BuiltinOperator_PADV2, None),
     (BuiltinOperator_POW, None),
     (BuiltinOperator_PRELU, None),
     (BuiltinOperator_QUANTIZE, None),
     (BuiltinOperator_REDUCE_ANY, Some ''TfLiteReducerParams''),
     (BuiltinOperator_REDUCE_MAX, Some ''TfLiteReducerParams''),
     (BuiltinOperator_REDUCE_MIN, Some ''TfLiteReducerParams''),
     (BuiltinOperator_REDUCE_PROD, Some ''TfLiteReducerParams''),
     (BuiltinOperator_RELU, None),
     (BuiltinOperator_RELU6, None),
     (BuiltinOperator_RESHAPE, Some ''TfLiteReshapeParams''),
     (BuiltinOperator_RESIZE_BILINEAR, Some ''TfLiteResizeBilinearParams''),
     (BuiltinOperator_RESIZE_NEAREST_NEIGHBOR, Some ''TfLiteResizeNearestNeighborParams''),
     (BuiltinOperator_ROUND, None),
     (BuiltinOperator_RSQRT, None),
     (BuiltinOperator_SHAPE, Some ''TfLiteShapeParams''),
     (BuiltinOperator_SIN, None),
     (BuiltinOperator_SOFTMAX, Some ''TfLiteSoftmaxParams''),
     (BuiltinOperator_SPACE_TO_BATCH_ND, None),
     (BuiltinOperator_SPACE_TO_DEPTH, Some ''TfLiteSpaceToDepthParams''),
     (BuiltinOperator_SPLIT, Some ''TfLiteSplitParams''),
     (BuiltinOperator_SPLIT_V, Some ''TfLiteSplitVParams''),
     (BuiltinOperator_SQRT, None),
     (BuiltinOperator_SQUARE, None),
     (BuiltinOperator_SQUEEZE, Some ''TfLiteSqueezeParams''),
     (BuiltinOperator_STRIDED_SLICE, Some ''TfLiteStridedSliceParams''),
     (BuiltinOperator_SUB, Some ''TfLiteSubParams''),
     (BuiltinOperator_SUM, Some ''TfLiteReducerParams''),
     (BuiltinOperator_SVDF, Some ''TfLiteSVDFParams''),
     (BuiltinOperator_TANH, None),
     (BuiltinOperator_TRANSPOSE_CONV, Some ''TfLiteTransposeConvParams''),
     (BuiltinOperator_UNPACK, Some ''TfLiteUnpackParams''),
     (BuiltinOperator_ZEROS_LIKE, None),
     (BuiltinOperator_CAST, Some ''TfLiteCastParams''),
     (BuiltinOperator_LSH_PROJECTION, Some ''TfLiteLSHProjectionParams''),
     (BuiltinOperator_UNIDIRECTIONAL_SEQUENCE_RNN, Some ''TfLiteSequenceRNNParams''),
     (BuiltinOperator_BIDIRECTIONAL_SEQUENCE_RNN, Some ''TfLiteBidirectionalSequenceRNNParams''),
     (BuiltinOperator_RNN, Some ''TfLiteRNNParams''),
     (BuiltinOperator_EMBEDDING_LOOKUP_SPARSE, Some ''TfLiteEmbeddingLookupSparseParams''),
     (BuiltinOperator_HASHTABLE_LOOKUP, None),
     (BuiltinOperator_LOCAL_RESPONSE_NORMALIZATION, Some ''TfLiteLocalResponseNormParams''),
     (BuiltinOperator_LSTM, Some ''TfLiteLSTMParams''),
     (BuiltinOperator_UNIDIRECTIONAL_SEQUENCE_LSTM, Some ''TfLiteUnidirectionalSequenceLSTMParams''),
     (BuiltinOperator_BIDIRECTIONAL_SEQUENCE_LSTM, Some ''TfLiteBidirectionalSequenceLSTMParams''),
     (BuiltinOperator_SKIP_GRAM, Some ''TfLiteSkipGramParams''),
     (BuiltinOperator_GATHER, Some ''TfLiteGatherParams''),
     (BuiltinOperator_SPARSE_TO_DENSE, Some ''TfLiteSparseToDenseParams''),
     (BuiltinOperator_DELEGATE, None),
     (BuiltinOperator_FAKE_QUANT, Some ''TfLiteFakeQuantParams''),
     (BuiltinOperator_ONE_HOT, Some ''TfLiteOneHotParams''),
     (BuiltinOperator_MIRROR_PAD, Some ''TfLiteMirrorPaddingParams''),
     (BuiltinOperator_UNIQUE, Some ''TfLiteUniqueParams''),
     (BuiltinOperator_REVERSE_SEQUENCE, Some ''TfLiteReverseSequenceParams''),
     (BuiltinOperator_IF, Some ''TfLiteIfParams''),
     (BuiltinOperator_WHILE, Some ''TfLiteWhileParams''),
     (BuiltinOperator_CALL_ONCE, Some ''TfLiteCallOnceParams''),
     (BuiltinOperator_CONV_3D, Some ''TfLiteConv3DParams''),
     (BuiltinOperator_HASHTABLE, Some ''TfLiteHashtableParams''),
     (BuiltinOperator_CALL, None),
     (BuiltinOperator_CONCAT_EMBEDDINGS, None),
     (BuiltinOperator_COS, None),
     (BuiltinOperator_CUSTOM, None),
     (BuiltinOperator_EMBEDDING_LOOKUP, None),
     (BuiltinOperator_EQUAL, None),
     (BuiltinOperator_MATRIX_DIAG, None),
     (BuiltinOperator_MATRIX_SET_DIAG, None),
     (BuiltinOperator_RELU_N1_TO_1, None),
     (BuiltinOperator_SELECT, None),
     (BuiltinOperator_SELECT_V2, None),
     (BuiltinOperator_SLICE, None),
     (BuiltinOperator_TILE, None),
     (BuiltinOperator_TOPK_V2, None),
     (BuiltinOperator_TRANSPOSE, None),
     (BuiltinOperator_RANGE, None),
     (BuiltinOperator_SQUARED_DIFFERENCE, None),
     (BuiltinOperator_REVERSE_V2, None),
     (BuiltinOperator_WHERE, None),
     (BuiltinOperator_RANK, None),
     (BuiltinOperator_NON_MAX_SUPPRESSION_V4, None),
     (BuiltinOperator_NON_MAX_SUPPRESSION_V5, None),
     (BuiltinOperator_SCATTER_ND, None),
     (BuiltinOperator_DENSIFY, None),
     (BuiltinOperator_SEGMENT_SUM, None),
     (BuiltinOperator_BROADCAST_TO, None),
     (BuiltinOperator_RFFT2D, None),
     (BuiltinOperator_IMAG, None),
     (BuiltinOperator_REAL, None),
     (BuiltinOperator_COMPLEX_ABS, None),
     (BuiltinOperator_HASHTABLE_FIND, None),
     (BuiltinOperator_HASHTABLE_IMPORT, None),
     (BuiltinOperator_HASHTABLE_SIZE, None),
     (BuiltinOperator_PLACEHOLDER_FOR_GREATER_OP_CODES, None)]"


definition result_struct :: "parser \<Rightarrow> string option \<Rightarrow> bool" where
  "result_struct P s \<longleftrightarrow> (\<forall>op e e'. P op e = (kTfLiteOk, e') \<longrightarrow>
     map_option (struct_of \<circ> snd) (parsed e') = (if s = None then map_option (struct_of \<circ> snd) (parsed e) else s))"

lemma with_params_parsed:
  "with_params wrap z fill e = (kTfLiteOk, e') \<Longrightarrow> \<exists>n p. parsed e' = Some (n, wrap p)"
  by (auto simp: with_params_def split: prod.splits option.splits sum.splits)

lemma result_with_params:
  "(\<And>p. struct_of (wrap p) = s) \<Longrightarrow> with_params wrap z fill e = (kTfLiteOk, e') \<Longrightarrow>
   map_option (struct_of \<circ> snd) (parsed e') = Some s"
  using with_params_parsed by fastforce

lemma result_structs [simp]:
  "result_struct ParseAdd (Some ''TfLiteAddParams'')"
  "result_struct ParseArgMax (Some ''TfLiteArgMaxParams'')"
  "result_struct ParseArgMin (Some ''TfLiteArgMinParams'')"
  "result_struct ParseBatchMatMul (Some ''TfLiteBatchMatMulParams'')"
  "result_struct ParseCast (Some ''TfLiteCastParams'')"
  "result_struct ParseConcatenation (Some ''TfLiteConcatenationParams'')"
  "result_struct ParseConv2D (Some ''TfLiteConvParams'')"
  "result_struct ParseCumsum (Some ''TfLiteCumsumParams'')"
  "result_struct ParseDepthToSpace (Some ''TfLiteDepthToSpaceParams'')"
  "result_struct ParseDepthwiseConv2D (Some ''TfLiteDepthwiseConvParams'')"
  "result_struct ParseDiv (Some ''TfLiteDivParams'')"
  "result_struct ParseFullyConnected (Some ''TfLiteFullyConnectedParams'')"
  "result_struct ParseGather (Some ''TfLiteGatherParams'')"
  "result_struct ParseL2Normalization (Some ''TfLiteL2NormParams'')"
  "result_struct ParseLeakyRelu (Some ''TfLiteLeakyReluParams'')"
  "result_struct ParseMul (Some ''TfLiteMulParams'')"
  "result_struct ParsePack (Some ''TfLitePackParams'')"
  "result_struct ParsePool (Some ''TfLitePoolParams'')"
  "result_struct ParseReducer (Some ''TfLiteReducerParams'')"
  "result_struct ParseReshape (Some ''TfLiteReshapeParams'')"
  "result_struct ParseResizeBilinear (Some ''TfLiteResizeBilinearParams'')"
  "result_struct ParseResizeNearestNeighbor (Some ''TfLiteResizeNearestNeighborParams'')"
  "result_struct ParseShape (Some ''TfLiteShapeParams'')"
  "result_struct ParseSoftmax (Some ''TfLiteSoftmaxParams'')"
  "result_struct ParseSpaceToDepth (Some ''TfLiteSpaceToDepthParams'')"
  "result_struct ParseSplit (Some ''TfLiteSplitParams'')"
  "result_struct ParseSplitV (Some ''TfLiteSplitVParams'')"
  "result_struct ParseSqueeze (Some ''TfLiteSqueezeParams'')"
  "result_struct ParseStridedSlice (Some ''TfLiteStridedSliceParams'')"
  "result_struct ParseSub (Some ''TfLiteSubParams'')"
  "result_struct ParseSvdf (Some ''TfLiteSVDFParams'')"
  "result_struct ParseTransposeConv (Some ''TfLiteTransposeConvParams'')"
  "result_struct ParseUnpack (Some ''TfLiteUnpackParams'')"
  "result_struct ParseLshProjection (Some ''TfLiteLSHProjectionParams'')"
  "result_struct ParseUnidirectionalSequenceRnn (Some ''TfLiteSequenceRNNParams'')"
  "result_struct ParseBidirectionalSequenceRnn (Some ''TfLiteBidirectionalSequenceRNNParams'')"
  "result_struct ParseRnn (Some ''TfLiteRNNParams'')"
  "result_struct ParseEmbeddingLookupSparse (Some ''TfLiteEmbeddingLookupSparseParams'')"
  "result_struct ParseLocalResponseNormalization (Some ''TfLiteLocalResponseNormParams'')"
  "result_struct ParseLstm (Some ''TfLiteLSTMParams'')"
  "result_struct ParseUnidirectionalSequenceLstm (Some ''TfLiteUnidirectionalSequenceLSTMParams'')"
  "result_struct ParseBidirectionalSequenceLstm (Some ''TfLiteBidirectionalSequenceLSTMParams'')"
  "result_struct ParseSkipGram (Some ''TfLiteSkipGramParams'')"
  "result_struct ParseSparseToDense (Some ''TfLiteSparseToDenseParams'')"
  "result_struct ParseFakeQuant (Some ''TfLiteFakeQuantParams'')"
  "result_struct ParseOneHot (Some ''TfLiteOneHotParams'')"
  "result_struct ParseMirrorPad (Some ''TfLiteMirrorPaddingParams'')"
  "result_struct ParseUnique (Some ''TfLiteUniqueParams'')"
  "result_struct ParseReverseSequence (Some ''TfLiteReverseSequenceParams'')"
  "result_struct ParseIf (Some ''TfLiteIfParams'')"
  "result_struct ParseWhile (Some ''TfLiteWhileParams'')"
  "result_struct ParseCallOnce (Some ''TfLiteCallOnceParams'')"
  "result_struct ParseConv3d (Some ''TfLiteConv3DParams'')"
  "result_struct ParseHashtable (Some ''TfLiteHashtableParams'')"
  "result_struct ParseNothing (None)"
  "result_struct ParsePlaceholder (None)"
  "result_struct ParseDelegate (None)"
  by (auto simp: result_struct_def param_parser_defs ParseNothing_def ParsePlaceholder_def ParseDelegate_def
      dest: with_params_parsed)

lemma table_structs:
  "list_all2 (\<lambda>(k, P) (k', s). k = k' \<and> result_struct P s) parse_table struct_table"
  by (simp add: parse_table_def parse_table_defs struct_table_def noop_parser_defs)

lemma map_of_all2:
  "list_all2 (\<lambda>(k, x) (k', y). k = k' \<and> R x y) xs ys \<Longrightarrow> map_of xs k = Some x \<Longrightarrow>
   \<exists>y. map_of ys k = Some y \<and> R x y"
  by (induction xs ys rule: list_all2_induct) (auto split: if_splits)

text \<open>
  C30: Type safety of the untyped pointer: when parsing succeeds, \<^verbatim>\<open>builtin_data\<close> points at the struct
  the table lists for that operator code, or is null for the operators listed without one.
\<close>

theorem parsed_struct_matches_op:
  assumes "ParseOpData op op_type e = (kTfLiteOk, e')"
  shows "map_of struct_table op_type = Some (map_option (struct_of \<circ> snd) (parsed e'))"
proof -
  obtain P where P: "map_of parse_table op_type = Some P" "P op (e\<lparr>parsed := None\<rparr>) = (kTfLiteOk, e')"
    using assms by (auto simp: ParseOpData_def ParseOpDataTfLite_def Let_def split: option.splits)
  obtain s where "map_of struct_table op_type = Some s" "result_struct P s"
    using map_of_all2 [OF table_structs P(1)] by auto
  then have "map_option (struct_of \<circ> snd) (parsed e') = s"
    using P(2) unfolding result_struct_def by (cases s) fastforce+
  then show ?thesis using \<open>map_of struct_table op_type = Some s\<close> by simp
qed

theorem parsed_struct_matches_op_witness:
  "\<exists>e'. ParseOpData \<lparr>builtin_options_type = 0, builtin_options = None\<rparr> BuiltinOperator_ADD sample_parse_env = (kTfLiteOk, e') \<and>
     map_of struct_table BuiltinOperator_ADD = Some (map_option (struct_of \<circ> snd) (parsed e'))"
proof -
  let ?r = "ParseOpData \<lparr>builtin_options_type = 0, builtin_options = None\<rparr> BuiltinOperator_ADD sample_parse_env"
  have "map_of parse_table BuiltinOperator_ADD = Some ParseAdd"
    by (simp add: parse_table_def parse_table_1_def)
  then have "fst ?r = kTfLiteOk"
    by (simp add: ParseOpData_def ParseOpDataTfLite_def ParseAdd_def with_params_def AllocatePOD_def Let_def
        sample_parse_env_def if_options_def builtin_options_as_def)
  then have r: "?r = (kTfLiteOk, snd ?r)" by (metis prod.collapse)
  show ?thesis using parsed_struct_matches_op [OF r] r by blast
qed

section \<open>Which operators are rejected\<close>

text \<open>The conversions reject what is outside the schema's range.\<close>

definition valid_type :: "int \<Rightarrow> bool" where
  "valid_type t \<longleftrightarrow> 0 \<le> t \<and> t \<le> 15"

lemma ConvertTensorType_valid: "(\<exists>y. ConvertTensorType t = Inr y) \<longleftrightarrow> valid_type t"
proof
  assume "valid_type t"
  then have "t = 0 \<or> t = 1 \<or> t = 2 \<or> t = 3 \<or> t = 4 \<or> t = 5 \<or> t = 6 \<or> t = 7 \<or> t = 8 \<or> t = 9 \<or> t = 10 \<or>
      t = 11 \<or> t = 12 \<or> t = 13 \<or> t = 14 \<or> t = 15"
    unfolding valid_type_def by presburger
  then show "\<exists>y. ConvertTensorType t = Inr y" by (elim disjE) (simp_all add: ConvertTensorType_def)
qed (auto simp: ConvertTensorType_def valid_type_def split: if_splits)

text \<open>What each of the parsers that can fail requires of its options.\<close>

definition options_ok :: "int \<Rightarrow> Operator \<Rightarrow> (fb_table \<Rightarrow> bool) \<Rightarrow> bool" where
  "options_ok tag op Q \<longleftrightarrow> (case builtin_options_as tag op of None \<Rightarrow> True | Some t \<Rightarrow> Q t)"

definition short_vec :: "int list option \<Rightarrow> bool" where
  "short_vec v \<longleftrightarrow> (case v of None \<Rightarrow> True | Some xs \<Rightarrow> length xs \<le> 8)"

definition valid_options :: "int \<Rightarrow> Operator \<Rightarrow> bool" where
  "valid_options op_type op \<longleftrightarrow>
     (if op_type = BuiltinOperator_LSTM
        then builtin_options_as BuiltinOptions_LSTMOptions op \<noteq> None \<and>
             options_ok BuiltinOptions_LSTMOptions op (\<lambda>t. LSTMOptions_kernel_type t \<in> {LSTMKernelType_FULL, LSTMKernelType_BASIC})
      else if op_type = BuiltinOperator_FULLY_CONNECTED
        then options_ok BuiltinOptions_FullyConnectedOptions op (\<lambda>t. FullyConnectedOptions_weights_format t \<in>
               {FullyConnectedOptionsWeightsFormat_DEFAULT, FullyConnectedOptionsWeightsFormat_SHUFFLED4x16INT8})
      else if op_type = BuiltinOperator_RESHAPE
        then options_ok BuiltinOptions_ReshapeOptions op (\<lambda>t. short_vec (ReshapeOptions_new_shape t))
      else if op_type = BuiltinOperator_SQUEEZE
        then options_ok BuiltinOptions_SqueezeOptions op (\<lambda>t. short_vec (SqueezeOptions_squeeze_dims t))
      else if op_type = BuiltinOperator_ARG_MAX
        then options_ok BuiltinOptions_ArgMaxOptions op (\<lambda>t. valid_type (ArgMaxOptions_output_type t))
      else if op_type = BuiltinOperator_ARG_MIN
        then options_ok BuiltinOptions_ArgMinOptions op (\<lambda>t. valid_type (ArgMinOptions_output_type t))
      else if op_type = BuiltinOperator_SHAPE
        then options_ok BuiltinOptions_ShapeOptions op (\<lambda>t. valid_type (ShapeOptions_out_type t))
      else if op_type = BuiltinOperator_CAST
        then options_ok BuiltinOptions_CastOptions op (\<lambda>t. valid_type (CastOptions_in_data_type t) \<and>
               valid_type (CastOptions_out_data_type t))
      else if op_type = BuiltinOperator_HASHTABLE
        then options_ok BuiltinOptions_HashtableOptions op (\<lambda>t. valid_type (HashtableOptions_key_dtype t) \<and>
               valid_type (HashtableOptions_value_dtype t))
      else op_type \<noteq> BuiltinOperator_DELEGATE \<and> op_type \<noteq> BuiltinOperator_PLACEHOLDER_FOR_GREATER_OP_CODES)"

definition status_if :: "bool \<Rightarrow> TfLiteStatus" where
  "status_if b = (if b then kTfLiteOk else kTfLiteError)"

lemma fst_with_params [simp]:
  "can_alloc e (next_block e) \<Longrightarrow> fst (with_params wrap z fill e) = status_if (\<exists>p. fill z = Inr p)"
  by (auto simp: with_params_def AllocatePOD_def Let_def status_if_def split: sum.splits)

lemma fill_simps [simp]:
  "(\<exists>q. if_options v p f = Inr q) \<longleftrightarrow> (case v of None \<Rightarrow> True | Some t \<Rightarrow> \<exists>q. f t = Inr q)"
  "(\<exists>q. bind_fill r g = Inr q) \<longleftrightarrow> (\<exists>y q. r = Inr y \<and> g y = Inr q)"
  "(\<exists>q. Inr x = (Inr q :: fb_report list + 'p)) \<longleftrightarrow> True"
  by (auto simp: if_options_def bind_fill_def split: option.split sum.splits)

definition always_accepts :: "parser \<Rightarrow> bool" where
  "always_accepts P \<longleftrightarrow> (\<forall>op e. can_alloc e (next_block e) \<longrightarrow> fst (P op e) = kTfLiteOk)"

lemma accepting_parsers:
  "always_accepts ParseAdd" "always_accepts ParseBatchMatMul" "always_accepts ParseConcatenation"
  "always_accepts ParseConv2D" "always_accepts ParseCumsum" "always_accepts ParseDepthToSpace"
  "always_accepts ParseDepthwiseConv2D" "always_accepts ParseDiv" "always_accepts ParseGather"
  "always_accepts ParseL2Normalization" "always_accepts ParseLeakyRelu" "always_accepts ParseMul"
  "always_accepts ParsePack" "always_accepts ParsePool" "always_accepts ParseReducer"
  "always_accepts ParseResizeBilinear" "always_accepts ParseResizeNearestNeighbor"
  "always_accepts ParseSoftmax" "always_accepts ParseSpaceToDepth" "always_accepts ParseSplit"
  "always_accepts ParseSplitV" "always_accepts ParseStridedSlice" "always_accepts ParseSub"
  "always_accepts ParseSvdf" "always_accepts ParseTransposeConv" "always_accepts ParseUnpack"
  "always_accepts ParseLshProjection" "always_accepts ParseUnidirectionalSequenceRnn"
  "always_accepts ParseBidirectionalSequenceRnn" "always_accepts ParseRnn"
  "always_accepts ParseEmbeddingLookupSparse" "always_accepts ParseLocalResponseNormalization"
  "always_accepts ParseUnidirectionalSequenceLstm" "always_accepts ParseBidirectionalSequenceLstm"
  "always_accepts ParseSkipGram" "always_accepts ParseSparseToDense" "always_accepts ParseFakeQuant"
  "always_accepts ParseOneHot" "always_accepts ParseMirrorPad" "always_accepts ParseUnique"
  "always_accepts ParseReverseSequence" "always_accepts ParseIf" "always_accepts ParseWhile"
  "always_accepts ParseCallOnce" "always_accepts ParseConv3d" "always_accepts ParseNothing"
  by (simp_all add: always_accepts_def param_parser_defs ParseNothing_def status_if_def Let_def split: option.split)

lemma accepting [simp]: "always_accepts P \<Longrightarrow> can_alloc e (next_block e) \<Longrightarrow> fst (P op e) = kTfLiteOk"
  by (simp add: always_accepts_def)

lemma rejecting_parsers:
  assumes "can_alloc e (next_block e)"
  shows "fst (ParseLstm op e) = status_if (valid_options BuiltinOperator_LSTM op)"
    "fst (ParseFullyConnected op e) = status_if (valid_options BuiltinOperator_FULLY_CONNECTED op)"
    "fst (ParseReshape op e) = status_if (valid_options BuiltinOperator_RESHAPE op)"
    "fst (ParseSqueeze op e) = status_if (valid_options BuiltinOperator_SQUEEZE op)"
    "fst (ParseArgMax op e) = status_if (valid_options BuiltinOperator_ARG_MAX op)"
    "fst (ParseArgMin op e) = status_if (valid_options BuiltinOperator_ARG_MIN op)"
    "fst (ParseShape op e) = status_if (valid_options BuiltinOperator_SHAPE op)"
    "fst (ParseCast op e) = status_if (valid_options BuiltinOperator_CAST op)"
    "fst (ParseHashtable op e) = status_if (valid_options BuiltinOperator_HASHTABLE op)"
  using assms by (auto simp: valid_options_def options_ok_def param_parser_defs Let_def short_vec_def
      FlatBufferIntVectorToArray_def ConvertTensorType_valid [symmetric]
      intro!: arg_cong [of _ _ status_if] split: option.split)

lemma table_accepts:
  "\<forall>(k, P) \<in> set parse_table. \<forall>op e. can_alloc e (next_block e) \<longrightarrow> fst (P op e) = status_if (valid_options k op)"
  by (simp add: parse_table_def parse_table_defs noop_parser_defs accepting_parsers rejecting_parsers
      ParseDelegate_def ParsePlaceholder_def)
    (simp add: valid_options_def status_if_def)

text \<open>The switch has a case for every enumerator and no others.\<close>

lemma table_keys: "set (map fst parse_table) = {0..139}"
proof -
  have "sort (map fst parse_table) = [0..139]"
    unfolding parse_table_def parse_table_defs by code_simp
  then show ?thesis by (metis set_sort set_upto)
qed

text \<open>
  C29: Exactly these operators are rejected, given memory for the parameters: codes outside the
  enumeration, the delegate and placeholder codes, an LSTM without options or with an unknown
  kernel type, a fully connected layer with an unknown weights format, a reshape or squeeze with
  more than eight dimensions, and the operators that name a tensor type outside the schema.
\<close>

theorem rejected_operators:
  assumes "can_alloc e (next_block e)"
  shows "fst (ParseOpData op op_type e) =
    (if op_type \<in> {0..139} \<and> valid_options op_type op then kTfLiteOk else kTfLiteError)"
proof (cases "map_of parse_table op_type")
  case None
  then have "op_type \<notin> {0..139}" using table_keys by (metis list.set_map map_of_eq_None_iff)
  then show ?thesis using None by (auto simp: ParseOpData_def ParseOpDataTfLite_def)
next
  case (Some P)
  then have m: "(op_type, P) \<in> set parse_table" by (rule map_of_SomeD)
  then have "op_type \<in> {0..139}" using table_keys by force
  moreover have "fst (P op (e\<lparr>parsed := None\<rparr>)) = status_if (valid_options op_type op)"
    using table_accepts m assms by fastforce
  ultimately show ?thesis using Some by (simp add: ParseOpData_def ParseOpDataTfLite_def status_if_def)
qed

theorem rejected_operators_witness:
  "fst (ParseOpData big_reshape BuiltinOperator_RESHAPE sample_parse_env) = kTfLiteError"
  using rejected_operators [of sample_parse_env big_reshape BuiltinOperator_RESHAPE]
  by (simp add: sample_parse_env_def valid_options_def options_ok_def builtin_options_as_def big_reshape_def
      ReshapeOptions_new_shape_def GetPointer_vec_def short_vec_def)

section \<open>Values\<close>

text \<open>
  The copy into a fixed-size array succeeds exactly when the vector is present and fits, never
  changes the length of the array, and puts the vector at its start. \<^verbatim>\<open>ParseReshape\<close> and
  \<^verbatim>\<open>ParseSqueeze\<close> rely on it to stay inside their eight-element arrays.
\<close>

lemma int_vector_copy:
  assumes "length buffer = max_bytes div 4"
  shows "case FlatBufferIntVectorToArray max_bytes v buffer name of
      Inl rs \<Rightarrow> rs \<noteq> [] \<and> (v = None \<or> length (the v) > length buffer)
    | Inr b \<Rightarrow> (\<exists>xs. v = Some xs \<and> length xs \<le> length buffer \<and> length b = length buffer \<and>
         take (length xs) b = xs \<and> drop (length xs) b = drop (length xs) buffer)"
  using assms by (auto simp: FlatBufferIntVectorToArray_def Let_def split: option.split)

text \<open>
  The tensor types of the schema and of the runtime correspond one to one: conversion succeeds
  exactly for the sixteen schema codes, never gives \<^verbatim>\<open>kTfLiteNoType\<close>, and no two codes give the same
  runtime type.
\<close>

lemma tensor_type_conversion:
  "((\<exists>y. ConvertTensorType a = Inr y) \<longleftrightarrow> 0 \<le> a \<and> a \<le> 15) \<and> ConvertTensorType a \<noteq> Inr kTfLiteNoType \<and>
   (ConvertTensorType a = ConvertTensorType b \<longleftrightarrow> a = b)"
proof -
  have "ConvertTensorType a \<noteq> Inr kTfLiteNoType" by (simp add: ConvertTensorType_def)
  moreover have "a = b" if "ConvertTensorType a = ConvertTensorType b"
    using that by (simp add: ConvertTensorType_def split: if_splits)
  ultimately show ?thesis using ConvertTensorType_valid [of a] by (auto simp: valid_type_def)
qed

text \<open>
  What a convolution without an options table gets differs from one whose table leaves the fields
  out: the zero-initialised struct has dilation 0 and unknown padding, the schema defaults are
  dilation 1 and SAME padding.
\<close>

lemma conv2d_defaults:
  assumes "can_alloc e (next_block e)"
  shows "map_option snd (parsed (snd (ParseConv2D \<lparr>builtin_options_type = k, builtin_options = None\<rparr> e))) =
      Some (Data_conv TfLiteConvParams_zero) \<and>
    map_option snd (parsed (snd (ParseConv2D
        \<lparr>builtin_options_type = BuiltinOptions_Conv2DOptions, builtin_options = Some empty_table\<rparr> e))) =
      Some (Data_conv (TfLiteConvParams_zero\<lparr>conv_padding := kTfLitePaddingSame,
        conv_dilation_width_factor := 1, conv_dilation_height_factor := 1\<rparr>))"
  using assms
  by (simp add: ParseConv2D_def with_params_def AllocatePOD_def Let_def if_options_def builtin_options_as_def
      options_defs ConvertPadding_def ConvertActivation_def TfLiteConvParams_zero_def)

end
