(* ===== verification/Tflite_Common.thy ===== *)
theory Tflite_Common
  imports Prelude Ieee_Float Tflite_Interpreter
begin

text \<open>
  The C core of the runtime, \<^verbatim>\<open>lite/c/common.c\<close>, over an explicit heap: arrays of dimensions, and
  the tensor whose destructor frees what the tensor owns. Every block carries its type; a pointer
  is an address or \<^verbatim>\<open>NULL\<close>. An address is never given out twice, so that a dangling pointer stays
  distinguishable from a live one.
\<close>

section \<open>Data\<close>

type_synonym ptr = "nat option"

datatype TfLiteQuantizationType = kTfLiteNoQuantization | kTfLiteAffineQuantization

record TfLiteQuantization =
  qtype :: TfLiteQuantizationType
  qparams :: ptr

record TfLiteAffineQuantization =
  scale :: ptr
  zero_point :: ptr
  quantized_dimension :: int

record TfLiteQuantizationParams =
  params_scale :: fl
  params_zero_point :: int

datatype TfLiteAllocationType =
    kTfLiteMemNone | kTfLiteMmapRo | kTfLiteArenaRw | kTfLiteArenaRwPersistent | kTfLiteDynamic
  | kTfLitePersistentRo | kTfLiteCustom

datatype TfLiteDimensionType = kTfLiteDimDense | kTfLiteDimSparseCSR

record TfLiteDimensionMetadata =
  dim_format :: TfLiteDimensionType
  dense_size :: int
  array_segments :: ptr
  array_indices :: ptr

record TfLiteSparsity =
  traversal_order :: ptr
  block_map :: ptr
  dim_metadata :: ptr
  dim_metadata_size :: int

record c_TfLiteTensor =
  tensor_type :: TfLiteType
  data_raw :: ptr
  tensor_dims :: ptr
  tensor_params :: TfLiteQuantizationParams
  allocation_type :: TfLiteAllocationType
  tensor_bytes :: int
  allocation :: ptr
  tensor_name :: string
  tensor_delegate :: ptr
  buffer_handle :: int
  data_is_stale :: bool
  is_variable :: bool
  quantization :: TfLiteQuantization
  sparsity :: ptr
  dims_signature :: ptr

section \<open>Heap\<close>

text \<open>The floats of a \<^verbatim>\<open>TfLiteFloatArray\<close> are kept as bytes: this file only moves them.\<close>

datatype block =
    IntArray int "int list"
  | FloatArray int "8 word list"
  | AffineBlock TfLiteAffineQuantization
  | DimBlock "TfLiteDimensionMetadata list"
  | SparsityBlock TfLiteSparsity
  | Bytes "8 word list"

record heap =
  mem :: "nat \<Rightarrow> block option"
  brk :: nat

text \<open>The C library's allocator: the requests it grants, and what a fresh block contains.\<close>

record c_alloc =
  grants :: "int \<Rightarrow> bool"
  junk :: "nat \<Rightarrow> nat \<Rightarrow> 8 word"

definition malloc :: "c_alloc \<Rightarrow> int \<Rightarrow> heap \<Rightarrow> ptr \<times> heap" where
  "malloc al n h =
     (if grants al n
      then (Some (brk h), h\<lparr>mem := (mem h)(brk h \<mapsto> Bytes (map (junk al (brk h)) [0..<nat n])), brk := Suc (brk h)\<rparr>)
      else (None, h))"

definition c_free :: "ptr \<Rightarrow> heap \<Rightarrow> heap res" where
  "c_free p h = (case p of None \<Rightarrow> Inr h
     | Some a \<Rightarrow> (case mem h a of None \<Rightarrow> Inl InvalidFree | Some _ \<Rightarrow> Inr (h\<lparr>mem := (mem h)(a := None)\<rparr>)))"

definition load :: "ptr \<Rightarrow> heap \<Rightarrow> block res" where
  "load p h = (case p of None \<Rightarrow> Inl NullDeref
     | Some a \<Rightarrow> (case mem h a of None \<Rightarrow> Inl InvalidAccess | Some b \<Rightarrow> Inr b))"

definition store_block :: "ptr \<Rightarrow> block \<Rightarrow> heap \<Rightarrow> heap res" where
  "store_block p b h = bind_res (load p h) (\<lambda>_. Inr (h\<lparr>mem := (mem h)(the p \<mapsto> b)\<rparr>))"

text \<open>
  \<^verbatim>\<open>realloc\<close> of a byte block: the contents survive up to the smaller size, the old block is gone;
  when it cannot, it returns \<^verbatim>\<open>NULL\<close> and the old block stays.
\<close>

definition c_realloc :: "c_alloc \<Rightarrow> ptr \<Rightarrow> int \<Rightarrow> heap \<Rightarrow> (ptr \<times> heap) res" where
  "c_realloc al p n h = bind_res (load p h) (\<lambda>b. case b of
       Bytes bs \<Rightarrow>
         (case malloc al n h of
            (None, h1) \<Rightarrow> Inr (None, h1)
          | (Some a, h1) \<Rightarrow>
              bind_res (c_free p h1) (\<lambda>h2.
                Inr (Some a, h2\<lparr>mem := (mem h2)(a \<mapsto>
                  Bytes (take (nat n) bs @ map (junk al a) [length bs..<nat n]))\<rparr>)))
     | _ \<Rightarrow> Inl InvalidAccess)"

fun ints_of_bytes :: "8 word list \<Rightarrow> int list" where
  "ints_of_bytes (a # b # c # d # r) =
     to_int (uint a + 256 * uint b + 65536 * uint c + 16777216 * uint d) # ints_of_bytes r"
| "ints_of_bytes _ = []"

definition load_int_array :: "ptr \<Rightarrow> heap \<Rightarrow> (int \<times> int list) res" where
  "load_int_array p h = bind_res (load p h) (\<lambda>b. case b of IntArray n d \<Rightarrow> Inr (n, d) | _ \<Rightarrow> Inl InvalidAccess)"

definition load_affine :: "ptr \<Rightarrow> heap \<Rightarrow> TfLiteAffineQuantization res" where
  "load_affine p h = bind_res (load p h) (\<lambda>b. case b of AffineBlock q \<Rightarrow> Inr q | _ \<Rightarrow> Inl InvalidAccess)"

definition load_sparsity :: "ptr \<Rightarrow> heap \<Rightarrow> TfLiteSparsity res" where
  "load_sparsity p h = bind_res (load p h) (\<lambda>b. case b of SparsityBlock s \<Rightarrow> Inr s | _ \<Rightarrow> Inl InvalidAccess)"

definition load_dims :: "ptr \<Rightarrow> heap \<Rightarrow> TfLiteDimensionMetadata list res" where
  "load_dims p h = bind_res (load p h) (\<lambda>b. case b of DimBlock d \<Rightarrow> Inr d | _ \<Rightarrow> Inl InvalidAccess)"

section \<open>Integer and float arrays\<close>

text \<open>The size is computed in \<^verbatim>\<open>size_t\<close> and narrowed to \<^verbatim>\<open>int\<close>.\<close>

definition TfLiteIntArrayGetSizeInBytes :: "int \<Rightarrow> int" where
  "TfLiteIntArrayGetSizeInBytes sz = to_int (to_size_t (4 + 4 * sz))"

text \<open>The comparison loop over \<^verbatim>\<open>a->data\<close> and \<^verbatim>\<open>b_data\<close> from index \<open>i\<close>.\<close>

fun equal_from :: "int list \<Rightarrow> int list \<Rightarrow> nat \<Rightarrow> nat \<Rightarrow> bool res" where
  "equal_from ad bd i 0 = Inr True"
| "equal_from ad bd i (Suc k) =
     bind_res (vec_at ad (int i)) (\<lambda>x. bind_res (vec_at bd (int i)) (\<lambda>y.
       if x \<noteq> y then Inr False else equal_from ad bd (Suc i) k))"

definition TfLiteIntArrayEqualsArray :: "ptr \<Rightarrow> int \<Rightarrow> int list \<Rightarrow> heap \<Rightarrow> bool res" where
  "TfLiteIntArrayEqualsArray a b_size b_data h =
     (if a = None then Inr (b_size = 0)
      else bind_res (load_int_array a h) (\<lambda>(n, d).
        if n \<noteq> b_size then Inr False else equal_from d b_data 0 (nat n)))"

definition TfLiteIntArrayEqual :: "ptr \<Rightarrow> ptr \<Rightarrow> heap \<Rightarrow> bool res" where
  "TfLiteIntArrayEqual a b h =
     (if a = b then Inr True
      else if a = None \<or> b = None then Inr False
      else bind_res (load_int_array b h) (\<lambda>(n, d). TfLiteIntArrayEqualsArray a n d h))"

definition TfLiteIntArrayCreate :: "c_alloc \<Rightarrow> int \<Rightarrow> heap \<Rightarrow> (ptr \<times> heap) res" where
  "TfLiteIntArrayCreate al sz h =
     (case malloc al (to_size_t (TfLiteIntArrayGetSizeInBytes sz)) h of
        (None, h1) \<Rightarrow> Inl NullDeref
      | (Some a, h1) \<Rightarrow>
          bind_res (load (Some a) h1) (\<lambda>b. case b of
              Bytes bs \<Rightarrow>
                if length bs < 4 then Inl OutOfBounds
                else bind_res (store_block (Some a) (IntArray sz (ints_of_bytes (drop 4 bs))) h1) (\<lambda>h2.
                  Inr (Some a, h2))
            | _ \<Rightarrow> Inl InvalidAccess))"

definition TfLiteIntArrayCopy :: "c_alloc \<Rightarrow> ptr \<Rightarrow> heap \<Rightarrow> (ptr \<times> heap) res" where
  "TfLiteIntArrayCopy al src h =
     (if src = None then Inr (None, h)
      else bind_res (load_int_array src h) (\<lambda>(n, d).
        bind_res (TfLiteIntArrayCreate al n h) (\<lambda>(ret, h1).
          if ret \<noteq> None
          then bind_res (load_int_array ret h1) (\<lambda>(_, e).
            if 0 \<le> n \<and> nat n \<le> length d \<and> nat n \<le> length e
            then bind_res (store_block ret (IntArray n (take (nat n) d @ drop (nat n) e)) h1) (\<lambda>h2. Inr (ret, h2))
            else Inl OutOfBounds)
          else Inr (ret, h1))))"

definition TfLiteIntArrayFree :: "ptr \<Rightarrow> heap \<Rightarrow> heap res" where
  "TfLiteIntArrayFree a h = c_free a h"

definition TfLiteFloatArrayGetSizeInBytes :: "int \<Rightarrow> int" where
  "TfLiteFloatArrayGetSizeInBytes sz = to_int (to_size_t (4 + 4 * sz))"

definition TfLiteFloatArrayCreate :: "c_alloc \<Rightarrow> int \<Rightarrow> heap \<Rightarrow> (ptr \<times> heap) res" where
  "TfLiteFloatArrayCreate al sz h =
     (case malloc al (to_size_t (TfLiteFloatArrayGetSizeInBytes sz)) h of
        (None, h1) \<Rightarrow> Inl NullDeref
      | (Some a, h1) \<Rightarrow>
          bind_res (load (Some a) h1) (\<lambda>b. case b of
              Bytes bs \<Rightarrow>
                if length bs < 4 then Inl OutOfBounds
                else bind_res (store_block (Some a) (FloatArray sz (drop 4 bs)) h1) (\<lambda>h2. Inr (Some a, h2))
            | _ \<Rightarrow> Inl InvalidAccess))"

definition TfLiteFloatArrayFree :: "ptr \<Rightarrow> heap \<Rightarrow> heap res" where
  "TfLiteFloatArrayFree a h = c_free a h"

section \<open>Tensors\<close>

definition TfLiteTensorDataFree :: "c_TfLiteTensor \<Rightarrow> heap \<Rightarrow> (c_TfLiteTensor \<times> heap) res" where
  "TfLiteTensorDataFree t h =
     bind_res (if allocation_type t = kTfLiteDynamic \<or> allocation_type t = kTfLitePersistentRo
               then c_free (data_raw t) h else Inr h) (\<lambda>h1.
     Inr (t\<lparr>data_raw := None\<rparr>, h1))"

definition TfLiteQuantizationFree :: "TfLiteQuantization \<Rightarrow> heap \<Rightarrow> (TfLiteQuantization \<times> heap) res" where
  "TfLiteQuantizationFree q h =
     bind_res
       (if qtype q = kTfLiteAffineQuantization
        then bind_res (load_affine (qparams q) h) (\<lambda>q_params.
          bind_res (if scale q_params \<noteq> None
                    then bind_res (TfLiteFloatArrayFree (scale q_params) h) (\<lambda>h1.
                      bind_res (load_affine (qparams q) h1) (\<lambda>qp.
                        store_block (qparams q) (AffineBlock (qp\<lparr>scale := None\<rparr>)) h1))
                    else Inr h) (\<lambda>h2.
          bind_res (load_affine (qparams q) h2) (\<lambda>q_params2.
          bind_res (if zero_point q_params2 \<noteq> None
                    then bind_res (TfLiteIntArrayFree (zero_point q_params2) h2) (\<lambda>h3.
                      bind_res (load_affine (qparams q) h3) (\<lambda>qp.
                        store_block (qparams q) (AffineBlock (qp\<lparr>zero_point := None\<rparr>)) h3))
                    else Inr h2) (\<lambda>h4.
          c_free (qparams q) h4))))
        else Inr h) (\<lambda>h5.
     Inr (q\<lparr>qparams := None, qtype := kTfLiteNoQuantization\<rparr>, h5))"

text \<open>
  One iteration over \<^verbatim>\<open>dim_metadata\<close>. The entry is copied to a local, so clearing its pointers
  does not reach the heap; the source re-reads the sparsity struct in every iteration.
\<close>

definition free_dim :: "ptr \<Rightarrow> nat \<Rightarrow> heap \<Rightarrow> heap res" where
  "free_dim sp i h =
     bind_res (load_sparsity sp h) (\<lambda>s.
     bind_res (load_dims (dim_metadata s) h) (\<lambda>ds.
     bind_res (vec_at ds (int i)) (\<lambda>metadata.
       if dim_format metadata = kTfLiteDimSparseCSR
       then bind_res (TfLiteIntArrayFree (array_segments metadata) h) (\<lambda>h1.
         TfLiteIntArrayFree (array_indices metadata) h1)
       else Inr h)))"

definition clear_traversal_order :: "ptr \<Rightarrow> heap \<Rightarrow> heap res" where
  "clear_traversal_order sp h =
     bind_res (load_sparsity sp h) (\<lambda>s.
       if traversal_order s \<noteq> None
       then bind_res (TfLiteIntArrayFree (traversal_order s) h) (\<lambda>h1.
         bind_res (load_sparsity sp h1) (\<lambda>s1. store_block sp (SparsityBlock (s1\<lparr>traversal_order := None\<rparr>)) h1))
       else Inr h)"

definition clear_block_map :: "ptr \<Rightarrow> heap \<Rightarrow> heap res" where
  "clear_block_map sp h =
     bind_res (load_sparsity sp h) (\<lambda>s.
       if block_map s \<noteq> None
       then bind_res (TfLiteIntArrayFree (block_map s) h) (\<lambda>h1.
         bind_res (load_sparsity sp h1) (\<lambda>s1. store_block sp (SparsityBlock (s1\<lparr>block_map := None\<rparr>)) h1))
       else Inr h)"

definition clear_dim_metadata :: "ptr \<Rightarrow> heap \<Rightarrow> heap res" where
  "clear_dim_metadata sp h =
     bind_res (load_sparsity sp h) (\<lambda>s.
       if dim_metadata s \<noteq> None
       then bind_res (for_loop (free_dim sp) 0 (nat (dim_metadata_size s)) h) (\<lambda>h1.
         bind_res (load_sparsity sp h1) (\<lambda>s1.
         bind_res (c_free (dim_metadata s1) h1) (\<lambda>h2.
         bind_res (load_sparsity sp h2) (\<lambda>s2. store_block sp (SparsityBlock (s2\<lparr>dim_metadata := None\<rparr>)) h2))))
       else Inr h)"

definition TfLiteSparsityFree :: "ptr \<Rightarrow> heap \<Rightarrow> heap res" where
  "TfLiteSparsityFree sp h =
     (if sp = None then Inr h
      else bind_res (clear_traversal_order sp h) (\<lambda>h1.
           bind_res (clear_block_map sp h1) (\<lambda>h2.
           bind_res (clear_dim_metadata sp h2) (\<lambda>h3.
           c_free sp h3))))"

definition TfLiteTensorFree :: "c_TfLiteTensor \<Rightarrow> heap \<Rightarrow> (c_TfLiteTensor \<times> heap) res" where
  "TfLiteTensorFree t0 h =
     bind_res (TfLiteTensorDataFree t0 h) (\<lambda>(t, h1).
     bind_res (if tensor_dims t \<noteq> None then TfLiteIntArrayFree (tensor_dims t) h1 else Inr h1) (\<lambda>h2.
     bind_res (if dims_signature t \<noteq> None then TfLiteIntArrayFree (dims_signature t) h2 else Inr h2) (\<lambda>h3.
     bind_res (TfLiteQuantizationFree (quantization t) h3) (\<lambda>(q, h4).
     bind_res (TfLiteSparsityFree (sparsity t) h4) (\<lambda>h5.
     Inr (t\<lparr>tensor_dims := None, dims_signature := None, quantization := q, sparsity := None\<rparr>, h5))))))"

definition TfLiteTensorReset ::
  "TfLiteType \<Rightarrow> string \<Rightarrow> ptr \<Rightarrow> TfLiteQuantizationParams \<Rightarrow> ptr \<Rightarrow> int \<Rightarrow> TfLiteAllocationType \<Rightarrow> ptr \<Rightarrow> bool
   \<Rightarrow> c_TfLiteTensor \<Rightarrow> heap \<Rightarrow> (c_TfLiteTensor \<times> heap) res" where
  "TfLiteTensorReset ty name dims quant buffer sz alloc_ty alloc variable t0 h =
     bind_res (TfLiteTensorFree t0 h) (\<lambda>(t, h1).
     Inr (t\<lparr>tensor_type := ty, tensor_name := name, tensor_dims := dims, tensor_params := quant,
            data_raw := buffer, tensor_bytes := sz, allocation_type := alloc_ty, allocation := alloc,
            is_variable := variable,
            quantization := \<lparr>qtype = kTfLiteNoQuantization, qparams = None\<rparr>\<rparr>, h1))"

definition TfLiteTensorRealloc :: "c_alloc \<Rightarrow> int \<Rightarrow> c_TfLiteTensor \<Rightarrow> heap \<Rightarrow> (c_TfLiteTensor \<times> heap) res" where
  "TfLiteTensorRealloc al num_bytes t h =
     (if allocation_type t \<noteq> kTfLiteDynamic \<and> allocation_type t \<noteq> kTfLitePersistentRo then Inr (t, h)
      else bind_res
        (if data_raw t = None then Inr (malloc al num_bytes h)
         else if num_bytes > tensor_bytes t then c_realloc al (data_raw t) num_bytes h
         else Inr (data_raw t, h)) (\<lambda>(p, h1).
      Inr (t\<lparr>data_raw := p, tensor_bytes := num_bytes\<rparr>, h1)))"

definition TfLiteTypeGetName :: "TfLiteType \<Rightarrow> string" where
  "TfLiteTypeGetName ty = (case ty of
       kTfLiteNoType \<Rightarrow> ''NOTYPE''
     | kTfLiteFloat32 \<Rightarrow> ''FLOAT32''
     | kTfLiteInt16 \<Rightarrow> ''INT16''
     | kTfLiteInt32 \<Rightarrow> ''INT32''
     | kTfLiteUInt32 \<Rightarrow> ''UINT32''
     | kTfLiteUInt8 \<Rightarrow> ''UINT8''
     | kTfLiteInt8 \<Rightarrow> ''INT8''
     | kTfLiteInt64 \<Rightarrow> ''INT64''
     | kTfLiteUInt64 \<Rightarrow> ''UINT64''
     | kTfLiteBool \<Rightarrow> ''BOOL''
     | kTfLiteComplex64 \<Rightarrow> ''COMPLEX64''
     | kTfLiteComplex128 \<Rightarrow> ''COMPLEX128''
     | kTfLiteString \<Rightarrow> ''STRING''
     | kTfLiteFloat16 \<Rightarrow> ''FLOAT16''
     | kTfLiteFloat64 \<Rightarrow> ''FLOAT64''
     | kTfLiteResource \<Rightarrow> ''RESOURCE''
     | kTfLiteVariant \<Rightarrow> ''VARIANT'')"

text \<open>A delegate; its functions are addresses of code.\<close>

record TfLiteDelegate =
  delegate_data :: ptr
  delegate_Prepare :: ptr
  delegate_CopyFromBufferHandle :: ptr
  delegate_CopyToBufferHandle :: ptr
  delegate_FreeBufferHandle :: ptr
  delegate_flags :: int

definition TfLiteDelegateCreate :: TfLiteDelegate where
  "TfLiteDelegateCreate = \<lparr>delegate_data = None, delegate_Prepare = None, delegate_CopyFromBufferHandle = None,
     delegate_CopyToBufferHandle = None, delegate_FreeBufferHandle = None, delegate_flags = 0\<rparr>"

section \<open>Resetting a variable tensor\<close>

text \<open>\<^verbatim>\<open>memset\<close> writes the low byte of \<open>value\<close>, on Android and on x86.\<close>

definition ResetVariableTensor :: "c_TfLiteTensor \<Rightarrow> heap \<Rightarrow> (TfLiteStatus \<times> heap) res" where
  "ResetVariableTensor t h =
     (if \<not> is_variable t then Inr (kTfLiteOk, h)
      else let v = (if tensor_type t = kTfLiteInt8 then params_zero_point (tensor_params t) else 0)
        in bind_res (load (data_raw t) h) (\<lambda>b. case b of
             Bytes bs \<Rightarrow>
               if nat (tensor_bytes t) \<le> length bs
               then bind_res (store_block (data_raw t)
                        (Bytes (replicate (nat (tensor_bytes t)) (word_of_int v) @ drop (nat (tensor_bytes t)) bs)) h)
                      (\<lambda>h1. Inr (kTfLiteOk, h1))
               else Inl OutOfBounds
           | _ \<Rightarrow> Inl InvalidAccess))"

section \<open>Ownership\<close>

text \<open>The blocks the destructor of a tensor is responsible for, in the order it frees them.\<close>

definition opt_list :: "ptr \<Rightarrow> nat list" where
  "opt_list p = (case p of None \<Rightarrow> [] | Some a \<Rightarrow> [a])"

definition owned_dim :: "TfLiteDimensionMetadata \<Rightarrow> nat list" where
  "owned_dim d = (if dim_format d = kTfLiteDimSparseCSR then opt_list (array_segments d) @ opt_list (array_indices d) else [])"

definition owned_dims :: "heap \<Rightarrow> TfLiteSparsity \<Rightarrow> nat list" where
  "owned_dims h s = (case dim_metadata s of None \<Rightarrow> []
     | Some d \<Rightarrow> (case mem h d of
          Some (DimBlock ds) \<Rightarrow> concat (map owned_dim (take (nat (dim_metadata_size s)) ds)) @ [d]
        | _ \<Rightarrow> [d]))"

definition owned_sparsity :: "heap \<Rightarrow> ptr \<Rightarrow> nat list" where
  "owned_sparsity h p = (case p of None \<Rightarrow> []
     | Some a \<Rightarrow> (case mem h a of
          Some (SparsityBlock s) \<Rightarrow> opt_list (traversal_order s) @ opt_list (block_map s) @ owned_dims h s @ [a]
        | _ \<Rightarrow> [a]))"

definition owned_quant :: "heap \<Rightarrow> TfLiteQuantization \<Rightarrow> nat list" where
  "owned_quant h q = (if qtype q = kTfLiteAffineQuantization
     then (case qparams q of None \<Rightarrow> []
           | Some a \<Rightarrow> (case mem h a of
                Some (AffineBlock b) \<Rightarrow> opt_list (scale b) @ opt_list (zero_point b) @ [a]
              | _ \<Rightarrow> [a]))
     else [])"

definition owned_data :: "c_TfLiteTensor \<Rightarrow> nat list" where
  "owned_data t = (if allocation_type t = kTfLiteDynamic \<or> allocation_type t = kTfLitePersistentRo
     then opt_list (data_raw t) else [])"

definition owned_blocks :: "heap \<Rightarrow> c_TfLiteTensor \<Rightarrow> nat list" where
  "owned_blocks h t = owned_data t @ opt_list (tensor_dims t) @ opt_list (dims_signature t) @
     owned_quant h (quantization t) @ owned_sparsity h (sparsity t)"

text \<open>The pointers of a well-formed tensor lead to blocks of the declared types.\<close>

definition sparsity_ok :: "heap \<Rightarrow> ptr \<Rightarrow> bool" where
  "sparsity_ok h p = (case p of None \<Rightarrow> True
     | Some a \<Rightarrow> (case mem h a of
          Some (SparsityBlock s) \<Rightarrow> (case dim_metadata s of None \<Rightarrow> True
            | Some d \<Rightarrow> (case mem h d of Some (DimBlock ds) \<Rightarrow> nat (dim_metadata_size s) \<le> length ds | _ \<Rightarrow> False))
        | _ \<Rightarrow> False))"

definition quant_ok :: "heap \<Rightarrow> TfLiteQuantization \<Rightarrow> bool" where
  "quant_ok h q \<longleftrightarrow> qtype q = kTfLiteAffineQuantization \<longrightarrow>
     (case qparams q of None \<Rightarrow> False
      | Some a \<Rightarrow> (case mem h a of Some (AffineBlock _) \<Rightarrow> True | _ \<Rightarrow> False))"

definition all_live :: "heap \<Rightarrow> nat list \<Rightarrow> bool" where
  "all_live h xs \<longleftrightarrow> list_all (\<lambda>a. mem h a \<noteq> None) xs"

definition tensor_wf :: "heap \<Rightarrow> c_TfLiteTensor \<Rightarrow> bool" where
  "tensor_wf h t \<longleftrightarrow> sparsity_ok h (sparsity t) \<and> quant_ok h (quantization t) \<and>
     distinct (owned_blocks h t) \<and> all_live h (owned_blocks h t)"

section \<open>Freeing\<close>

definition del_blocks :: "nat list \<Rightarrow> heap \<Rightarrow> heap" where
  "del_blocks xs h = h\<lparr>mem := (\<lambda>a. if a \<in> set xs then None else mem h a)\<rparr>"

definition set_block :: "nat \<Rightarrow> block \<Rightarrow> heap \<Rightarrow> heap" where
  "set_block a b h = h\<lparr>mem := (mem h)(a \<mapsto> b)\<rparr>"

named_theorems heap_simps "freeing and updating blocks"

lemma mem_del [heap_simps]: "mem (del_blocks xs h) a = (if a \<in> set xs then None else mem h a)"
  by (simp add: del_blocks_def)

lemma mem_set [heap_simps]: "mem (set_block a b h) c = (if c = a then Some b else mem h c)"
  by (simp add: set_block_def)

lemma del_del [heap_simps]: "del_blocks xs (del_blocks ys h) = del_blocks (ys @ xs) h"
  by (auto simp: del_blocks_def intro!: heap.equality)

lemma del_Nil [heap_simps]: "del_blocks [] h = h"
  by (simp add: del_blocks_def)

lemma del_set_same [heap_simps]: "a \<in> set xs \<Longrightarrow> del_blocks xs (set_block a b h) = del_blocks xs h"
  by (auto simp: del_blocks_def set_block_def intro!: heap.equality)

lemma del_set_other [heap_simps]: "a \<notin> set xs \<Longrightarrow> del_blocks xs (set_block a b h) = set_block a b (del_blocks xs h)"
  by (auto simp: del_blocks_def set_block_def intro!: heap.equality)

lemma set_set [heap_simps]: "set_block a b (set_block a c h) = set_block a b h"
  by (simp add: set_block_def)

lemma all_live_append [heap_simps]: "all_live h (xs @ ys) \<longleftrightarrow> all_live h xs \<and> all_live h ys"
  and all_live_Cons [heap_simps]: "all_live h (x # xs) \<longleftrightarrow> mem h x \<noteq> None \<and> all_live h xs"
  and all_live_Nil [heap_simps]: "all_live h []"
  by (simp_all add: all_live_def)

lemma all_live_del [heap_simps]: "all_live (del_blocks ys h) xs \<longleftrightarrow> all_live h xs \<and> set xs \<inter> set ys = {}"
  by (induction xs) (auto simp: heap_simps)

lemma all_live_set [heap_simps]: "all_live h xs \<Longrightarrow> all_live (set_block a b h) xs"
  by (induction xs) (auto simp: heap_simps)

lemma opt_list_simps [simp]: "opt_list None = []" "opt_list (Some a) = [a]"
  by (simp_all add: opt_list_def)

lemma c_free_ok: "all_live h (opt_list p) \<Longrightarrow> c_free p h = Inr (del_blocks (opt_list p) h)"
  by (auto simp: c_free_def del_blocks_def heap_simps fun_upd_def split: option.splits intro!: heap.equality)

lemma load_ok: "mem h a = Some b \<Longrightarrow> load (Some a) h = Inr b"
  by (simp add: load_def)

lemma loads [simp]:
  "mem h a = Some (IntArray n d) \<Longrightarrow> load_int_array (Some a) h = Inr (n, d)"
  "mem h a = Some (AffineBlock q) \<Longrightarrow> load_affine (Some a) h = Inr q"
  "mem h a = Some (SparsityBlock s) \<Longrightarrow> load_sparsity (Some a) h = Inr s"
  "mem h a = Some (DimBlock ds) \<Longrightarrow> load_dims (Some a) h = Inr ds"
  by (simp_all add: load_int_array_def load_affine_def load_sparsity_def load_dims_def load_ok)

lemma store_block_ok: "mem h a \<noteq> None \<Longrightarrow> store_block (Some a) b h = Inr (set_block a b h)"
  by (auto simp: store_block_def load_def set_block_def)

lemmas free_defs = TfLiteIntArrayFree_def TfLiteFloatArrayFree_def

lemma TfLiteQuantizationFree_ok:
  assumes "quant_ok h q" "distinct (owned_quant h q)" "all_live h (owned_quant h q)"
  shows "TfLiteQuantizationFree q h =
    Inr (q\<lparr>qparams := None, qtype := kTfLiteNoQuantization\<rparr>, del_blocks (owned_quant h q) h)"
proof (cases "qtype q = kTfLiteAffineQuantization")
  case True
  then obtain a b where ab: "qparams q = Some a" "mem h a = Some (AffineBlock b)"
    using assms(1) by (auto simp: quant_ok_def split: option.splits block.splits)
  then show ?thesis using True assms(2,3)
    by (cases "scale b"; cases "zero_point b")
      (auto simp: TfLiteQuantizationFree_def owned_quant_def free_defs c_free_ok store_block_ok heap_simps)
qed (simp add: TfLiteQuantizationFree_def owned_quant_def heap_simps)

lemma free_dim_ok:
  assumes "mem h a = Some (SparsityBlock s)" "dim_metadata s = Some d" "mem h d = Some (DimBlock ds)"
    and "i < length ds" "distinct (owned_dim (ds ! i))" "all_live h (owned_dim (ds ! i))"
  shows "free_dim (Some a) i h = Inr (del_blocks (owned_dim (ds ! i)) h)"
proof -
  have "vec_at ds (int i) = Inr (ds ! i)" using assms(4) by simp
  then show ?thesis using assms(1-3,5,6)
    by (cases "array_segments (ds ! i)"; cases "array_indices (ds ! i)")
      (auto simp: free_dim_def owned_dim_def free_defs c_free_ok heap_simps)
qed

lemma free_dims_ok:
  assumes "mem h a = Some (SparsityBlock s)" "dim_metadata s = Some d" "mem h d = Some (DimBlock ds)"
    and "i + k \<le> length ds" "a \<notin> set xs" "d \<notin> set xs" "distinct xs" "all_live h xs"
    and "xs = concat (map owned_dim (take k (drop i ds)))"
  shows "for_loop (free_dim (Some a)) i k h = Inr (del_blocks xs h)"
  using assms
proof (induction k arbitrary: i h xs)
  case (Suc k)
  let ?o = "owned_dim (ds ! i)" and ?ys = "concat (map owned_dim (take k (drop (Suc i) ds)))"
  have xs: "xs = ?o @ ?ys" using Suc.prems(4,9) by (simp add: Cons_nth_drop_Suc [symmetric])
  have "free_dim (Some a) i h = Inr (del_blocks ?o h)"
    using Suc.prems(1-8) unfolding xs by (intro free_dim_ok) (auto simp: heap_simps)
  moreover have "for_loop (free_dim (Some a)) (Suc i) k (del_blocks ?o h) = Inr (del_blocks ?ys (del_blocks ?o h))"
    using Suc.prems(1-8) unfolding xs by (intro Suc.IH) (auto simp: heap_simps)
  ultimately show ?case by (simp add: xs heap_simps)
qed (simp add: heap_simps)

lemma clear_traversal_order_ok:
  assumes "mem h a = Some (SparsityBlock s)" "a \<notin> set (opt_list (traversal_order s))"
    and "all_live h (opt_list (traversal_order s))"
  shows "clear_traversal_order (Some a) h =
    Inr (set_block a (SparsityBlock (s\<lparr>traversal_order := None\<rparr>)) (del_blocks (opt_list (traversal_order s)) h))"
  using assms
  by (cases "traversal_order s")
    (auto simp: clear_traversal_order_def free_defs c_free_ok store_block_ok heap_simps set_block_def fun_upd_idem)

lemma clear_block_map_ok:
  assumes "mem h a = Some (SparsityBlock s)" "a \<notin> set (opt_list (block_map s))"
    and "all_live h (opt_list (block_map s))"
  shows "clear_block_map (Some a) h =
    Inr (set_block a (SparsityBlock (s\<lparr>block_map := None\<rparr>)) (del_blocks (opt_list (block_map s)) h))"
  using assms
  by (cases "block_map s")
    (auto simp: clear_block_map_def free_defs c_free_ok store_block_ok heap_simps set_block_def fun_upd_idem)

lemma clear_dim_metadata_ok:
  assumes s: "mem h a = Some (SparsityBlock s)" and a: "a \<notin> set (owned_dims h s)"
    and "distinct (owned_dims h s)" "all_live h (owned_dims h s)" "sparsity_ok h (Some a)"
  shows "clear_dim_metadata (Some a) h =
    Inr (set_block a (SparsityBlock (s\<lparr>dim_metadata := None\<rparr>)) (del_blocks (owned_dims h s) h))"
proof (cases "dim_metadata s")
  case None
  then show ?thesis using s
    by (simp add: clear_dim_metadata_def owned_dims_def heap_simps set_block_def fun_upd_idem)
next
  case (Some d)
  then obtain ds where ds: "mem h d = Some (DimBlock ds)" "nat (dim_metadata_size s) \<le> length ds"
    using assms(5) s by (auto simp: sparsity_ok_def split: option.splits block.splits)
  let ?xs = "concat (map owned_dim (take (nat (dim_metadata_size s)) ds))"
  have od: "owned_dims h s = ?xs @ [d]" using Some ds by (simp add: owned_dims_def)
  have "for_loop (free_dim (Some a)) 0 (nat (dim_metadata_size s)) h = Inr (del_blocks ?xs h)"
    using assms(2-4) unfolding od by (intro free_dims_ok[OF s Some ds(1)]) (use ds in \<open>auto simp: heap_simps\<close>)
  moreover have "mem (del_blocks ?xs h) a = Some (SparsityBlock s)" "mem (del_blocks ?xs h) d = Some (DimBlock ds)"
    "a \<noteq> d"
    using assms(2,3) s ds unfolding od by (auto simp: heap_simps)
  ultimately show ?thesis using Some s assms(2-4) unfolding od
    by (simp add: clear_dim_metadata_def c_free_ok store_block_ok heap_simps del: del_del) (simp add: heap_simps)
qed

lemma owned_dims_cong:
  assumes "\<And>d. dim_metadata s = Some d \<Longrightarrow> mem h' d = mem h d"
    and "dim_metadata s' = dim_metadata s" "dim_metadata_size s' = dim_metadata_size s"
  shows "owned_dims h' s' = owned_dims h s"
  using assms by (cases "dim_metadata s") (simp_all add: owned_dims_def cong: option.case_cong block.case_cong)

lemma TfLiteSparsityFree_ok:
  assumes "sparsity_ok h p" "distinct (owned_sparsity h p)" "all_live h (owned_sparsity h p)"
  shows "TfLiteSparsityFree p h = Inr (del_blocks (owned_sparsity h p) h)"
proof (cases p)
  case (Some a)
  then obtain s where s: "mem h a = Some (SparsityBlock s)"
    using assms(1) by (auto simp: sparsity_ok_def split: option.splits block.splits)
  let ?t = "opt_list (traversal_order s)" and ?b = "opt_list (block_map s)" and ?d = "owned_dims h s"
  have o: "owned_sparsity h p = ?t @ ?b @ ?d @ [a]" using Some s by (simp add: owned_sparsity_def)
  have dist: "distinct (?t @ ?b @ ?d @ [a])" and lv: "all_live h (?t @ ?b @ ?d @ [a])" using assms(2,3) o by simp_all
  let ?s1 = "s\<lparr>traversal_order := None\<rparr>"
  let ?h1 = "set_block a (SparsityBlock ?s1) (del_blocks ?t h)"
  have 1: "clear_traversal_order (Some a) h = Inr ?h1"
    using dist lv s by (intro clear_traversal_order_ok) (auto simp: heap_simps)
  let ?s2 = "?s1\<lparr>block_map := None\<rparr>"
  let ?h2 = "set_block a (SparsityBlock ?s2) (del_blocks (?t @ ?b) h)"
  have "all_live ?h1 ?b" using dist lv by (intro all_live_set) (auto simp: heap_simps)
  then have 2: "clear_block_map (Some a) ?h1 = Inr ?h2"
    using dist clear_block_map_ok[of ?h1 a ?s1] by (auto simp: heap_simps)
  have d_in: "d \<in> set ?d" if "dim_metadata s = Some d" for d
    using that by (auto simp: owned_dims_def split: option.splits block.splits)
  have same: "owned_dims ?h2 ?s2 = ?d"
    using dist d_in by (intro owned_dims_cong) (auto simp: heap_simps)
  have "sparsity_ok ?h2 (Some a)"
    using assms(1) Some s dist d_in
    by (auto simp: sparsity_ok_def heap_simps split: option.splits block.splits)
  moreover have "all_live ?h2 ?d" using dist lv by (intro all_live_set) (auto simp: heap_simps)
  ultimately have 3: "clear_dim_metadata (Some a) ?h2 =
      Inr (set_block a (SparsityBlock (?s2\<lparr>dim_metadata := None\<rparr>)) (del_blocks ?d ?h2))"
    using dist clear_dim_metadata_ok[of ?h2 a ?s2] unfolding same by (auto simp: heap_simps)
  show ?thesis unfolding o using 1 2 3 Some
    by (simp add: TfLiteSparsityFree_def c_free_ok heap_simps)
qed (simp add: TfLiteSparsityFree_def owned_sparsity_def heap_simps)

lemma owned_quant_frame:
  assumes "quant_ok h q" "set (owned_quant h q) \<inter> set xs = {}"
  shows "owned_quant (del_blocks xs h) q = owned_quant h q \<and> quant_ok (del_blocks xs h) q"
proof (cases "qtype q = kTfLiteAffineQuantization")
  case True
  then obtain a b where ab: "qparams q = Some a" "mem h a = Some (AffineBlock b)"
    using assms(1) by (auto simp: quant_ok_def split: option.splits block.splits)
  have "a \<notin> set xs" using True ab assms(2) by (auto simp: owned_quant_def)
  then show ?thesis using True ab by (simp add: owned_quant_def quant_ok_def heap_simps)
qed (simp add: owned_quant_def quant_ok_def)

lemma owned_sparsity_frame:
  assumes "sparsity_ok h p" "set (owned_sparsity h p) \<inter> set xs = {}"
  shows "owned_sparsity (del_blocks xs h) p = owned_sparsity h p \<and> sparsity_ok (del_blocks xs h) p"
proof (cases p)
  case (Some a)
  then obtain s where s: "mem h a = Some (SparsityBlock s)"
    using assms(1) by (auto simp: sparsity_ok_def split: option.splits block.splits)
  have o: "owned_sparsity h p = opt_list (traversal_order s) @ opt_list (block_map s) @ owned_dims h s @ [a]"
    using Some s by (simp add: owned_sparsity_def)
  have d_in: "d \<notin> set xs" if "dim_metadata s = Some d" for d
    using that assms(2) unfolding o by (auto simp: owned_dims_def split: option.splits block.splits)
  have same: "owned_dims (del_blocks xs h) s = owned_dims h s"
    using d_in by (intro owned_dims_cong) (simp_all add: heap_simps)
  have "mem (del_blocks xs h) a = Some (SparsityBlock s)" using assms(2) s unfolding o by (auto simp: heap_simps)
  then show ?thesis using Some s assms(1) d_in same o
    by (auto simp: owned_sparsity_def sparsity_ok_def heap_simps split: option.splits block.splits)
qed (simp add: owned_sparsity_def sparsity_ok_def)

definition cleared :: "c_TfLiteTensor \<Rightarrow> c_TfLiteTensor" where
  "cleared t = t\<lparr>data_raw := None, tensor_dims := None, dims_signature := None,
     quantization := (quantization t)\<lparr>qparams := None, qtype := kTfLiteNoQuantization\<rparr>, sparsity := None\<rparr>"

lemma TfLiteTensorDataFree_ok:
  "all_live h (owned_data t) \<Longrightarrow> TfLiteTensorDataFree t h = Inr (t\<lparr>data_raw := None\<rparr>, del_blocks (owned_data t) h)"
  by (auto simp: TfLiteTensorDataFree_def owned_data_def c_free_ok heap_simps)

lemma free_unless_null: "(if p \<noteq> None then TfLiteIntArrayFree p h else Inr h) = c_free p h"
  by (simp add: free_defs c_free_def)

lemma TfLiteTensorFree_ok:
  assumes "tensor_wf h t"
  shows "TfLiteTensorFree t h = Inr (cleared t, del_blocks (owned_blocks h t) h)"
proof -
  let ?d = "owned_data t" and ?m = "opt_list (tensor_dims t)" and ?g = "opt_list (dims_signature t)"
  let ?q = "owned_quant h (quantization t)" and ?s = "owned_sparsity h (sparsity t)"
  have dist: "distinct (?d @ ?m @ ?g @ ?q @ ?s)" and lv: "all_live h (?d @ ?m @ ?g @ ?q @ ?s)"
    and q: "quant_ok h (quantization t)" and s: "sparsity_ok h (sparsity t)"
    using assms by (simp_all add: tensor_wf_def owned_blocks_def)
  let ?h3 = "del_blocks (?d @ ?m @ ?g) h" and ?h4 = "del_blocks (?d @ ?m @ ?g @ ?q) h"
  have "owned_quant ?h3 (quantization t) = ?q" "quant_ok ?h3 (quantization t)"
    using owned_quant_frame[OF q, of "?d @ ?m @ ?g"] dist by auto
  then have Q: "TfLiteQuantizationFree (quantization t) ?h3 =
      Inr ((quantization t)\<lparr>qparams := None, qtype := kTfLiteNoQuantization\<rparr>, ?h4)"
    using TfLiteQuantizationFree_ok[of ?h3 "quantization t"] dist lv by (auto simp: heap_simps)
  have "owned_sparsity ?h4 (sparsity t) = ?s" "sparsity_ok ?h4 (sparsity t)"
    using owned_sparsity_frame[OF s, of "?d @ ?m @ ?g @ ?q"] dist by auto
  then have S: "TfLiteSparsityFree (sparsity t) ?h4 = Inr (del_blocks (owned_blocks h t) h)"
    using TfLiteSparsityFree_ok[of ?h4 "sparsity t"] dist lv by (auto simp: heap_simps owned_blocks_def)
  have M: "c_free (tensor_dims t) (del_blocks ?d h) = Inr (del_blocks (?d @ ?m) h)"
    using dist lv c_free_ok[of "del_blocks ?d h" "tensor_dims t"] by (auto simp: heap_simps)
  have G: "c_free (dims_signature t) (del_blocks (?d @ ?m) h) = Inr ?h3"
    using dist lv c_free_ok[of "del_blocks (?d @ ?m) h" "dims_signature t"] by (auto simp: heap_simps)
  have D: "TfLiteTensorDataFree t h = Inr (t\<lparr>data_raw := None\<rparr>, del_blocks ?d h)"
    using lv by (intro TfLiteTensorDataFree_ok) (simp add: heap_simps)
  show ?thesis using D M G Q S unfolding TfLiteTensorFree_def free_unless_null by (simp add: cleared_def)
qed

lemma owned_cleared [simp]: "owned_blocks h (cleared t) = []"
  by (simp add: owned_blocks_def cleared_def owned_data_def owned_quant_def owned_sparsity_def)

lemma cleared_wf: "tensor_wf h (cleared t)"
  by (simp add: tensor_wf_def heap_simps) (simp add: cleared_def sparsity_ok_def quant_ok_def)

section \<open>Arrays\<close>

definition fresh_heap :: "heap \<Rightarrow> bool" where
  "fresh_heap h \<longleftrightarrow> (\<forall>a. brk h \<le> a \<longrightarrow> mem h a = None)"

lemma length_ints_of_bytes: "length (ints_of_bytes bs) = length bs div 4"
proof (induction bs rule: ints_of_bytes.induct)
  case (1 a b c d r)
  then show ?case by simp
qed simp_all

lemma array_bytes:
  "0 \<le> n \<Longrightarrow> n < 2 ^ 29 - 1 \<Longrightarrow> to_size_t (to_int (to_size_t (4 + 4 * n))) = 4 + 4 * n"
  by (simp add: to_size_t_def fits_int_def)

lemma TfLiteIntArrayCreate_ok:
  assumes "0 \<le> n" "n < 2 ^ 29 - 1" "grants al (4 + 4 * n)"
  shows "\<exists>e. length e = nat n \<and>
    TfLiteIntArrayCreate al n h =
      Inr (Some (brk h), h\<lparr>mem := (mem h)(brk h \<mapsto> IntArray n e), brk := Suc (brk h)\<rparr>)"
proof -
  let ?bs = "map (junk al (brk h)) [0..<nat (4 + 4 * n)]"
  have len: "length ?bs = 4 + 4 * nat n" using assms(1) by (simp add: nat_add_distrib nat_mult_distrib)
  have "length (ints_of_bytes (drop 4 ?bs)) = nat n" using len by (simp add: length_ints_of_bytes)
  then show ?thesis using assms len
    by (auto simp: TfLiteIntArrayCreate_def TfLiteIntArrayGetSizeInBytes_def array_bytes malloc_def load_def
        store_block_def)
qed

lemma equal_from_iff:
  "i + k \<le> length ad \<Longrightarrow> i + k \<le> length bd \<Longrightarrow>
   equal_from ad bd i k = Inr (take k (drop i ad) = take k (drop i bd))"
proof (induction k arbitrary: i)
  case (Suc k)
  have "vec_at ad (int i) = Inr (ad ! i)" "vec_at bd (int i) = Inr (bd ! i)" using Suc.prems by simp_all
  moreover have "drop i ad = ad ! i # drop (Suc i) ad" "drop i bd = bd ! i # drop (Suc i) bd"
    using Suc.prems by (simp_all add: Cons_nth_drop_Suc)
  ultimately show ?case using Suc.IH[of "Suc i"] Suc.prems by simp
qed simp

text \<open>An array whose \<^verbatim>\<open>size\<close> member is the number of its elements.\<close>

definition array_at :: "heap \<Rightarrow> nat \<Rightarrow> int list \<Rightarrow> bool" where
  "array_at h a d \<longleftrightarrow> mem h a = Some (IntArray (int (length d)) d)"

lemma TfLiteIntArrayEqual_iff:
  assumes "array_at h a d" "array_at h b e"
  shows "TfLiteIntArrayEqual (Some a) (Some b) h = Inr (d = e)"
proof (cases "a = b")
  case True
  then show ?thesis using assms by (simp add: TfLiteIntArrayEqual_def array_at_def)
next
  case False
  have "equal_from d e 0 (length d) = Inr (d = e)" if "length d = length e"
    using equal_from_iff[of 0 "length d" d e] that by simp
  then show ?thesis using assms False
    by (auto simp: TfLiteIntArrayEqual_def TfLiteIntArrayEqualsArray_def array_at_def)
qed

definition copied_array :: "heap \<Rightarrow> int list \<Rightarrow> heap" where
  "copied_array h d = h\<lparr>mem := (mem h)(brk h \<mapsto> IntArray (int (length d)) d), brk := Suc (brk h)\<rparr>"

lemma TfLiteIntArrayCopy_outcome:
  assumes "array_at h a d" "length d < 2 ^ 29 - 1"
  shows "TfLiteIntArrayCopy al (Some a) h =
      (if grants al (4 + 4 * int (length d)) then Inr (Some (brk h), copied_array h d) else Inl NullDeref)"
proof -
  let ?n = "int (length d)"
  have src: "load_int_array (Some a) h = Inr (?n, d)" using assms(1) by (simp add: array_at_def)
  show ?thesis
  proof (cases "grants al (4 + 4 * ?n)")
    case True
    then show ?thesis using TfLiteIntArrayCreate_ok[of ?n al h] assms(2) src
      by (auto simp: TfLiteIntArrayCopy_def store_block_def load_def copied_array_def simp del: bind_res_eq_Inr)
  next
    case False
    then show ?thesis using assms(2) src
      by (simp add: TfLiteIntArrayCopy_def TfLiteIntArrayCreate_def malloc_def TfLiteIntArrayGetSizeInBytes_def array_bytes)
  qed
qed

lemma TfLiteIntArrayEqualsArray_iff:
  assumes "array_at h a d"
  shows "TfLiteIntArrayEqualsArray (Some a) (int (length xs)) xs h = Inr (d = xs)"
proof (cases "length d = length xs")
  case True
  then show ?thesis using assms equal_from_iff[of 0 "length d" d xs]
    by (simp add: TfLiteIntArrayEqualsArray_def array_at_def)
qed (use assms in \<open>auto simp: TfLiteIntArrayEqualsArray_def array_at_def\<close>)

text \<open>An allocator that grants requests below 100 bytes.\<close>

definition sample_alloc :: c_alloc where
  "sample_alloc = \<lparr>grants = (\<lambda>n. n < 100), junk = (\<lambda>_ _. 0)\<rparr>"

text \<open>
  Copying a dimension array gives a new block with the same elements, which compares equal to the
  source, and changes no other block; when the memory for the copy is refused the process dies on a
  null pointer, because \<^verbatim>\<open>TfLiteIntArrayCreate\<close> writes through the result of \<^verbatim>\<open>malloc\<close> before
  \<^verbatim>\<open>TfLiteIntArrayCopy\<close> checks it.\<close>

lemma int_array_copy:
  assumes "array_at h a d" "length d < 2 ^ 29 - 1" "fresh_heap h"
  shows "TfLiteIntArrayCopy al (Some a) h =
      (if grants al (4 + 4 * int (length d)) then Inr (Some (brk h), copied_array h d) else Inl NullDeref) \<and>
    mem h (brk h) = None \<and> mem (copied_array h d) = (mem h)(brk h \<mapsto> IntArray (int (length d)) d) \<and>
    TfLiteIntArrayEqual (Some a) (Some (brk h)) (copied_array h d) = Inr True"
proof -
  have "mem h (brk h) = None" using assms(3) by (simp add: fresh_heap_def)
  moreover from this have "array_at (copied_array h d) a d" "array_at (copied_array h d) (brk h) d"
    using assms(1) by (auto simp: array_at_def copied_array_def)
  ultimately show ?thesis
    using TfLiteIntArrayEqual_iff TfLiteIntArrayCopy_outcome[OF assms(1,2)] by (simp add: copied_array_def)
qed

text \<open>
  Two dimension arrays compare equal exactly when their elements are equal; a null pointer equals
  only a null pointer, although \<^verbatim>\<open>TfLiteIntArrayEqualsArray\<close> takes null as the empty array.\<close>

lemma int_array_equality:
  assumes "array_at h a d" "array_at h b e"
  shows "TfLiteIntArrayEqual (Some a) (Some b) h = Inr (d = e) \<and>
    TfLiteIntArrayEqual None None h = Inr True \<and>
    TfLiteIntArrayEqual (Some a) None h = Inr False \<and>
    TfLiteIntArrayEqual None (Some b) h = Inr False \<and>
    TfLiteIntArrayEqualsArray (Some a) (int (length xs)) xs h = Inr (d = xs) \<and>
    TfLiteIntArrayEqualsArray None (int (length xs)) xs h = Inr (xs = [])"
  using TfLiteIntArrayEqual_iff[OF assms] TfLiteIntArrayEqualsArray_iff[OF assms(1)]
  by (simp add: TfLiteIntArrayEqual_def TfLiteIntArrayEqualsArray_def)

section \<open>Life of a tensor\<close>

text \<open>
  A tensor with dynamic data, dimensions, a signature, per-channel quantization and a sparse
  dimension, and the heap it lives in.
\<close>

definition sparse_heap :: heap where
  "sparse_heap = \<lparr>mem = [10 \<mapsto> Bytes [1, 2, 3, 4], 11 \<mapsto> IntArray 2 [2, 2], 12 \<mapsto> IntArray 2 [-1, 2],
     13 \<mapsto> AffineBlock \<lparr>scale = Some 14, zero_point = Some 15, quantized_dimension = 0\<rparr>,
     14 \<mapsto> FloatArray 1 [0, 0, 128, 63], 15 \<mapsto> IntArray 1 [0],
     16 \<mapsto> SparsityBlock \<lparr>traversal_order = Some 17, block_map = None, dim_metadata = Some 18, dim_metadata_size = 2\<rparr>,
     17 \<mapsto> IntArray 2 [0, 1],
     18 \<mapsto> DimBlock [\<lparr>dim_format = kTfLiteDimDense, dense_size = 2, array_segments = None, array_indices = None\<rparr>,
            \<lparr>dim_format = kTfLiteDimSparseCSR, dense_size = 0, array_segments = Some 19, array_indices = Some 20\<rparr>],
     19 \<mapsto> IntArray 2 [0, 1], 20 \<mapsto> IntArray 1 [0], 21 \<mapsto> IntArray 1 [7], 22 \<mapsto> Bytes [9, 9]], brk = 23\<rparr>"

definition sparse_tensor :: c_TfLiteTensor where
  "sparse_tensor = \<lparr>tensor_type = kTfLiteInt8, data_raw = Some 10, tensor_dims = Some 11,
     tensor_params = \<lparr>params_scale = Fin False 0, params_zero_point = 5\<rparr>, allocation_type = kTfLiteDynamic, tensor_bytes = 4,
     allocation = None, tensor_name = ''w'', tensor_delegate = None, buffer_handle = -1, data_is_stale = False,
     is_variable = True, quantization = \<lparr>qtype = kTfLiteAffineQuantization, qparams = Some 13\<rparr>,
     sparsity = Some 16, dims_signature = Some 12\<rparr>"

lemma sparse_owned: "owned_blocks sparse_heap sparse_tensor = [10, 11, 12, 14, 15, 13, 17, 19, 20, 18, 16]"
  by (simp add: owned_blocks_def owned_data_def owned_quant_def owned_sparsity_def owned_dims_def owned_dim_def
      sparse_heap_def sparse_tensor_def)

lemma sparse_wf: "tensor_wf sparse_heap sparse_tensor"
  by (simp add: tensor_wf_def sparse_owned all_live_def)
    (simp add: sparsity_ok_def quant_ok_def sparse_heap_def sparse_tensor_def)

text \<open>
  C19: freeing a well-formed tensor succeeds, frees exactly the blocks the tensor owns (the data only when
  it was allocated dynamically or persistently, the index arrays only of the sparse dimensions), leaves
  every other block alone, and leaves a tensor that can be freed again without a double free.\<close>

theorem tensor_free_exact:
  assumes "tensor_wf h t"
  shows "\<exists>t' h'. TfLiteTensorFree t h = Inr (t', h') \<and>
    mem h' = (\<lambda>a. if a \<in> set (owned_blocks h t) then None else mem h a) \<and>
    data_raw t' = None \<and> tensor_dims t' = None \<and> dims_signature t' = None \<and> sparsity t' = None \<and>
    quantization t' = \<lparr>qtype = kTfLiteNoQuantization, qparams = None\<rparr> \<and>
    TfLiteTensorFree t' h' = Inr (t', h')"
proof -
  let ?h = "del_blocks (owned_blocks h t) h"
  have "TfLiteTensorFree (cleared t) ?h = Inr (cleared (cleared t), del_blocks [] ?h)"
    using TfLiteTensorFree_ok[OF cleared_wf, of t ?h] by simp
  moreover have "cleared (cleared t) = cleared t" by (simp add: cleared_def)
  ultimately show ?thesis using TfLiteTensorFree_ok[OF assms]
    by (intro exI[of _ "cleared t"] exI[of _ ?h]) (simp add: del_Nil cleared_def del_blocks_def)
qed

theorem tensor_free_exact_witness:
  "\<exists>t' h'. TfLiteTensorFree sparse_tensor sparse_heap = Inr (t', h') \<and>
     mem h' 16 = None \<and> mem h' 21 = Some (IntArray 1 [7]) \<and> TfLiteTensorFree t' h' = Inr (t', h')"
proof -
  obtain t' h' where "TfLiteTensorFree sparse_tensor sparse_heap = Inr (t', h')" "TfLiteTensorFree t' h' = Inr (t', h')"
    and m: "mem h' = (\<lambda>a. if a \<in> set (owned_blocks sparse_heap sparse_tensor) then None else mem sparse_heap a)"
    using tensor_free_exact[OF sparse_wf] by blast
  moreover have "mem h' 16 = None" "mem h' 21 = Some (IntArray 1 [7])"
    unfolding m sparse_owned by (simp_all add: sparse_heap_def)
  ultimately show ?thesis by blast
qed

text \<open>
  C38: Resetting a well-formed tensor to live blocks it does not already own frees its old blocks
  and gives a well-formed tensor that owns the new dimensions and, if the new allocation type is dynamic
  or persistent, the new buffer, and nothing else.\<close>

theorem tensor_reset:
  assumes "tensor_wf h t"
    and "distinct (opt_list dims @ opt_list buffer @ owned_blocks h t)" "all_live h (opt_list dims @ opt_list buffer)"
  shows "\<exists>t' h'. TfLiteTensorReset ty name dims quant buffer n aty alloc variable t h = Inr (t', h') \<and>
    tensor_wf h' t' \<and>
    owned_blocks h' t' = (if aty \<in> {kTfLiteDynamic, kTfLitePersistentRo} then opt_list buffer else []) @ opt_list dims \<and>
    mem h' = (\<lambda>a. if a \<in> set (owned_blocks h t) then None else mem h a)"
proof -
  let ?h = "del_blocks (owned_blocks h t) h"
  let ?t = "(cleared t)\<lparr>tensor_type := ty, tensor_name := name, tensor_dims := dims, tensor_params := quant,
            data_raw := buffer, tensor_bytes := n, allocation_type := aty, allocation := alloc,
            is_variable := variable, quantization := \<lparr>qtype = kTfLiteNoQuantization, qparams = None\<rparr>\<rparr>"
  have r: "TfLiteTensorReset ty name dims quant buffer n aty alloc variable t h = Inr (?t, ?h)"
    using TfLiteTensorFree_ok[OF assms(1)] by (simp add: TfLiteTensorReset_def)
  have o: "owned_blocks ?h ?t =
      (if aty \<in> {kTfLiteDynamic, kTfLitePersistentRo} then opt_list buffer else []) @ opt_list dims"
    by (simp add: owned_blocks_def owned_data_def owned_quant_def owned_sparsity_def cleared_def)
  have "all_live ?h (opt_list dims)" "all_live ?h (opt_list buffer)" using assms(2,3) by (auto simp: heap_simps)
  then have "tensor_wf ?h ?t" using assms(2) unfolding tensor_wf_def o
    by (auto simp: heap_simps sparsity_ok_def quant_ok_def cleared_def)
  then show ?thesis using r o by (intro exI conjI) (auto simp: del_blocks_def)
qed

theorem tensor_reset_witness:
  "\<exists>t' h'. TfLiteTensorReset kTfLiteInt8 ''v'' (Some 21) (tensor_params sparse_tensor) (Some 22) 2 kTfLiteDynamic
       None False sparse_tensor sparse_heap = Inr (t', h') \<and> owned_blocks h' t' = [22, 21] \<and> mem h' 10 = None"
proof -
  have "distinct (opt_list (Some 21) @ opt_list (Some 22) @ owned_blocks sparse_heap sparse_tensor)"
    by (simp add: sparse_owned)
  moreover have "all_live sparse_heap (opt_list (Some 21) @ opt_list (Some 22))" by (simp add: all_live_def sparse_heap_def)
  ultimately show ?thesis
    using tensor_reset[OF sparse_wf, of "Some 21" "Some 22" kTfLiteInt8 "''v''" "tensor_params sparse_tensor" 2
        kTfLiteDynamic None False] by (auto simp: sparse_owned)
qed

text \<open>The data block of a dynamic tensor holds at least \<^verbatim>\<open>bytes\<close> bytes.\<close>

definition data_ok :: "heap \<Rightarrow> c_TfLiteTensor \<Rightarrow> 8 word list \<Rightarrow> bool" where
  "data_ok h t bs \<longleftrightarrow> 0 \<le> tensor_bytes t \<and>
     (case data_raw t of None \<Rightarrow> bs = []
      | Some a \<Rightarrow> mem h a = Some (Bytes bs) \<and> tensor_bytes t \<le> int (length bs))"

definition owns_data :: "c_TfLiteTensor \<Rightarrow> bool" where
  "owns_data t \<longleftrightarrow> allocation_type t = kTfLiteDynamic \<or> allocation_type t = kTfLitePersistentRo"

lemma take_take_append: "k \<le> length xs \<Longrightarrow> k \<le> n \<Longrightarrow> take k (take n xs @ ys) = take k xs"
  by (simp add: min_def)

lemma realloc_grows:
  assumes "data_raw t = Some a" "mem h a = Some (Bytes bs)" "owns_data t" "tensor_bytes t < n" "grants al n"
    and "fresh_heap h"
  shows "TfLiteTensorRealloc al n t h = Inr (t\<lparr>data_raw := Some (brk h), tensor_bytes := n\<rparr>,
    h\<lparr>mem := (mem h)(a := None, brk h \<mapsto> Bytes (take (nat n) bs @ map (junk al (brk h)) [length bs..<nat n])),
      brk := Suc (brk h)\<rparr>)"
proof -
  have "brk h \<noteq> a" using assms(2,6) by (auto simp: fresh_heap_def)
  then have "c_realloc al (Some a) n h = Inr (Some (brk h),
    h\<lparr>mem := (mem h)(a := None, brk h \<mapsto> Bytes (take (nat n) bs @ map (junk al (brk h)) [length bs..<nat n])),
      brk := Suc (brk h)\<rparr>)"
    using assms(2,5) by (simp add: c_realloc_def load_def malloc_def c_free_def fun_upd_twist)
  then show ?thesis using assms by (auto simp: TfLiteTensorRealloc_def owns_data_def)
qed

text \<open>
  A granted reallocation of a dynamic tensor leaves it with the requested number of bytes, in
  a block of at least that size whose first bytes are the old ones up to the smaller of the old and
  the new size; only the tensor's own old block may have been freed. A tensor that does not own its
  data is left alone.\<close>

lemma tensor_realloc:
  assumes "data_ok h t bs" "fresh_heap h" "0 \<le> n" "grants al n"
  shows "if owns_data t then
      (\<exists>t' h' a bs'. TfLiteTensorRealloc al n t h = Inr (t', h') \<and> data_raw t' = Some a \<and> tensor_bytes t' = n \<and>
         data_ok h' t' bs' \<and> (let k = min (nat n) (min (nat (tensor_bytes t)) (length bs)) in take k bs' = take k bs) \<and>
         (\<forall>c. c \<noteq> a \<and> Some c \<noteq> data_raw t \<longrightarrow> mem h' c = mem h c) \<and> fresh_heap h')
    else TfLiteTensorRealloc al n t h = Inr (t, h)"
proof (cases "owns_data t")
  case own: True
  consider (none) "data_raw t = None" | (keep) a where "data_raw t = Some a" "n \<le> tensor_bytes t"
    | (grow) a where "data_raw t = Some a" "tensor_bytes t < n" by (cases "data_raw t") force+
  then show ?thesis
  proof cases
    case none
    then show ?thesis using own assms
      by (auto simp: TfLiteTensorRealloc_def owns_data_def malloc_def data_ok_def fresh_heap_def)
  next
    case keep
    then show ?thesis using own assms
      by (auto simp: TfLiteTensorRealloc_def owns_data_def data_ok_def intro!: exI)
  next
    case grow
    let ?bs' = "take (nat n) bs @ map (junk al (brk h)) [length bs..<nat n]"
    have b: "mem h a = Some (Bytes bs)" "tensor_bytes t \<le> int (length bs)" "0 \<le> tensor_bytes t"
      using assms(1) grow(1) by (simp_all add: data_ok_def)
    have "int (length ?bs') \<ge> n" using assms(3) by simp
    moreover have "take k ?bs' = take k bs" if "k = min (nat n) (min (nat (tensor_bytes t)) (length bs))" for k
      by (rule take_take_append) (simp_all add: that)
    ultimately show ?thesis
      using own realloc_grows[OF grow(1) b(1) own grow(2) assms(4,2)] assms(2,3) grow b
      by (auto simp: data_ok_def fresh_heap_def Let_def intro!: exI[of _ ?bs'])
  qed
qed (simp add: TfLiteTensorRealloc_def owns_data_def)

text \<open>
  When growing a dynamic tensor is refused, the tensor claims the new size with a null data
  pointer, and its old block stays allocated with no tensor owning it: the only pointer to it is
  overwritten with the result of \<^verbatim>\<open>realloc\<close>.\<close>

lemma realloc_failure_leaks:
  assumes "tensor_wf h t" "owns_data t" "data_raw t = Some a" "mem h a = Some (Bytes bs)"
    and "tensor_bytes t < n" "\<not> grants al n"
  shows "\<exists>t'. TfLiteTensorRealloc al n t h = Inr (t', h) \<and> data_raw t' = None \<and> tensor_bytes t' = n \<and>
    a \<in> set (owned_blocks h t) \<and> a \<notin> set (owned_blocks h t') \<and> mem h a \<noteq> None"
proof -
  let ?t = "t\<lparr>data_raw := None, tensor_bytes := n\<rparr>"
  have o: "owned_blocks h t = a # owned_blocks h ?t"
    using assms(2,3) by (auto simp: owned_blocks_def owned_data_def owns_data_def)
  have "a \<notin> set (owned_blocks h ?t)" using assms(1) by (simp add: tensor_wf_def o)
  moreover have "TfLiteTensorRealloc al n t h = Inr (?t, h)"
    using assms(2-6) by (auto simp: TfLiteTensorRealloc_def owns_data_def c_realloc_def load_def malloc_def)
  ultimately show ?thesis using assms(4) by (simp add: o)
qed

text \<open>
  Resetting a variable tensor fills exactly its bytes, with the zero point of an 8-bit quantized
  tensor and with zero otherwise; nothing else changes, and a tensor that is not a variable is left
  alone.\<close>

lemma reset_variable_tensor:
  assumes "is_variable t \<Longrightarrow> data_raw t = Some a \<and> data_ok h t bs"
  shows "\<exists>h'. ResetVariableTensor t h = Inr (kTfLiteOk, h') \<and>
    (if is_variable t
     then \<exists>bs'. mem h' = (mem h)(a \<mapsto> Bytes bs') \<and> length bs' = length bs \<and>
       (\<forall>i < length bs. bs' ! i = (if i < nat (tensor_bytes t)
          then (if tensor_type t = kTfLiteInt8 then word_of_int (params_zero_point (tensor_params t)) else 0)
          else bs ! i))
     else h' = h)"
proof (cases "is_variable t")
  case True
  let ?k = "nat (tensor_bytes t)"
  let ?v = "if tensor_type t = kTfLiteInt8 then word_of_int (params_zero_point (tensor_params t)) else 0 :: 8 word"
  let ?bs = "replicate ?k ?v @ drop ?k bs"
  have a: "data_raw t = Some a" "mem h a = Some (Bytes bs)" "?k \<le> length bs"
    using assms[OF True] by (auto simp: data_ok_def)
  then have "ResetVariableTensor t h = Inr (kTfLiteOk, h\<lparr>mem := (mem h)(a \<mapsto> Bytes ?bs)\<rparr>)"
    using True by (auto simp: ResetVariableTensor_def load_def store_block_def Let_def)
  moreover have "length ?bs = length bs" "?bs ! i = (if i < ?k then ?v else bs ! i)" if "i < length bs" for i
    using a(3) that by (auto simp: nth_append)
  moreover have "length ?bs = length bs" using a(3) by simp
  ultimately show ?thesis using True by (auto intro!: exI[of _ ?bs])
qed (simp add: ResetVariableTensor_def)

end
