(* ===== verification/Memory_Planner.thy ===== *)
theory Memory_Planner
  imports Prelude Tflite_Interpreter
begin

text \<open>
  The interface \<^verbatim>\<open>micro/memory_planner/memory_planner.h\<close> as a locale, what a client may conclude from it,
  and its simple implementation \<^verbatim>\<open>linear_memory_planner.cc\<close>.
\<close>

section \<open>Data\<close>

text \<open>What a planner is told about a buffer; the offset is the one planned offline, or -1.\<close>

record BufferRequirements =
  req_size :: int
  offline_offset :: int
  first_time_used :: int
  last_time_used :: int

datatype planner_report =
    TooManyBuffers int
  | IndexOutside int int
  | BufferLine int int int int int
  | TimeLine string
  | Overlap int int int int int int int int int int

text \<open>Two buffers are needed at the same time; two ranges of the arena share no byte.\<close>

definition same_time :: "BufferRequirements \<Rightarrow> BufferRequirements \<Rightarrow> bool" where
  "same_time a b \<longleftrightarrow> first_time_used a \<le> last_time_used b \<and> first_time_used b \<le> last_time_used a"

definition disjoint_ranges :: "int \<Rightarrow> int \<Rightarrow> int \<Rightarrow> int \<Rightarrow> bool" where
  "disjoint_ranges o1 s1 o2 s2 \<longleftrightarrow> o1 + s1 \<le> o2 \<or> o2 + s2 \<le> o1"

section \<open>The interface\<close>

text \<open>
  The operations take the planner and return it updated. \<open>holds p rs\<close> says that the planner was told of
  the buffers \<open>rs\<close>, in this order, and can lay them out; \<open>room p rs r\<close> that it can take one more.
\<close>

locale memory_planner =
  fixes add :: "int \<Rightarrow> int \<Rightarrow> int \<Rightarrow> 'p \<Rightarrow> (TfLiteStatus \<times> 'p \<times> planner_report list) res"
    and offset_of :: "int \<Rightarrow> 'p \<Rightarrow> (TfLiteStatus \<times> int option \<times> 'p \<times> planner_report list) res"
    and maximum :: "'p \<Rightarrow> (int \<times> 'p) res"
    and buffer_count :: "'p \<Rightarrow> int"
    and holds :: "'p \<Rightarrow> BufferRequirements list \<Rightarrow> bool"
    and room :: "'p \<Rightarrow> BufferRequirements list \<Rightarrow> BufferRequirements \<Rightarrow> bool"
    and offsets :: "'p \<Rightarrow> int list"
  assumes count: "holds p rs \<Longrightarrow> buffer_count p = int (length rs)"
    and add_ok: "holds p rs \<Longrightarrow> room p rs r \<Longrightarrow>
      \<exists>p'. add (req_size r) (first_time_used r) (last_time_used r) p = Inr (kTfLiteOk, p', []) \<and> holds p' (rs @ [r])"
    and offset_returned: "holds p rs \<Longrightarrow> \<exists>p'. holds p' rs \<and> offsets p' = offsets p \<and> offset_of k p =
      Inr (if 0 \<le> k \<and> k < int (length rs) then (kTfLiteOk, Some (offsets p ! nat k), p', [])
           else (kTfLiteError, None, p', [IndexOutside k (int (length rs))]))"
    and maximum_returned: "holds p rs \<Longrightarrow> \<exists>m p'. maximum p = Inr (m, p') \<and> holds p' rs \<and> offsets p' = offsets p \<and>
      (\<forall>i < length rs. offsets p ! i + req_size (rs ! i) \<le> m)"
    and nonneg: "holds p rs \<Longrightarrow> i < length rs \<Longrightarrow> 0 \<le> offsets p ! i \<and> 0 \<le> req_size (rs ! i)"
    and apart: "holds p rs \<Longrightarrow> i < length rs \<Longrightarrow> j < length rs \<Longrightarrow> i \<noteq> j \<Longrightarrow> same_time (rs ! i) (rs ! j) \<Longrightarrow>
      disjoint_ranges (offsets p ! i) (req_size (rs ! i)) (offsets p ! j) (req_size (rs ! j))"
begin

text \<open>
  A client adds its buffers and asks for their offsets; the answers it gets do not depend on the order of
  the questions, because asking changes no offset.
\<close>

fun ask :: "int list \<Rightarrow> 'p \<Rightarrow> (int option list \<times> 'p) res" where
  "ask [] p = Inr ([], p)"
| "ask (i # is) p = bind_res (offset_of i p) (\<lambda>(st, off, p1, _).
     bind_res (ask is p1) (\<lambda>(offs, p2). Inr (off # offs, p2)))"

lemma ask_answers:
  "holds p rs \<Longrightarrow> \<exists>p'. holds p' rs \<and> offsets p' = offsets p \<and>
     ask is p = Inr (map (\<lambda>i. if 0 \<le> i \<and> i < int (length rs) then Some (offsets p ! nat i) else None) is, p')"
proof (induction "is" arbitrary: p)
  case (Cons i "is")
  obtain p1 where 1: "holds p1 rs" "offsets p1 = offsets p" "offset_of i p =
      Inr (if 0 \<le> i \<and> i < int (length rs) then (kTfLiteOk, Some (offsets p ! nat i), p1, [])
           else (kTfLiteError, None, p1, [IndexOutside i (int (length rs))]))"
    using offset_returned[OF Cons.prems, of i] by blast
  then show ?case using Cons.IH[OF 1(1)] by auto
qed auto

text \<open>The bytes of a buffer lie inside an arena of the maximum size, and apart from those of a buffer in use at the same time.\<close>

definition bytes :: "'p \<Rightarrow> BufferRequirements list \<Rightarrow> nat \<Rightarrow> int set" where
  "bytes p rs i = {offsets p ! i ..< offsets p ! i + req_size (rs ! i)}"

lemma bytes_inside: "holds p rs \<Longrightarrow> i < length rs \<Longrightarrow> maximum p = Inr (m, p') \<Longrightarrow> bytes p rs i \<subseteq> {0 ..< m}"
  using maximum_returned[of p rs] nonneg[of p rs i] by (auto simp: bytes_def)

lemma bytes_apart:
  "holds p rs \<Longrightarrow> i < length rs \<Longrightarrow> j < length rs \<Longrightarrow> i \<noteq> j \<Longrightarrow> same_time (rs ! i) (rs ! j) \<Longrightarrow>
     bytes p rs i \<inter> bytes p rs j = {}"
  using apart[of p rs i j] by (auto simp: bytes_def disjoint_ranges_def)

end

section \<open>The linear planner\<close>

record LinearMemoryPlanner =
  lin_buffer_offsets :: "int list"
  current_buffer_count :: int
  next_free_offset :: int

definition lin_kMaxBufferCount :: int where
  "lin_kMaxBufferCount = 1024"

text \<open>The offsets start out as whatever the memory held.\<close>

definition LinearMemoryPlanner_new :: "(nat \<Rightarrow> int) \<Rightarrow> LinearMemoryPlanner" where
  "LinearMemoryPlanner_new memory = \<lparr>lin_buffer_offsets = map memory [0..<1024], current_buffer_count = 0, next_free_offset = 0\<rparr>"

definition lin_AddBuffer :: "int \<Rightarrow> int \<Rightarrow> int \<Rightarrow> LinearMemoryPlanner \<Rightarrow> (TfLiteStatus \<times> LinearMemoryPlanner \<times> planner_report list) res" where
  "lin_AddBuffer sz f l p =
     (if current_buffer_count p \<ge> lin_kMaxBufferCount
      then Inr (kTfLiteError, p, [TooManyBuffers lin_kMaxBufferCount])
      else bind_res (vec_set (lin_buffer_offsets p) (current_buffer_count p) (next_free_offset p)) (\<lambda>os.
        Inr (kTfLiteOk, p\<lparr>lin_buffer_offsets := os, next_free_offset := to_size_t (next_free_offset p + to_size_t sz),
               current_buffer_count := current_buffer_count p + 1\<rparr>, [])))"

definition lin_GetMaximumMemorySize :: "LinearMemoryPlanner \<Rightarrow> int" where
  "lin_GetMaximumMemorySize p = next_free_offset p"

definition lin_GetBufferCount :: "LinearMemoryPlanner \<Rightarrow> int" where
  "lin_GetBufferCount p = current_buffer_count p"

text \<open>The \<^verbatim>\<open>size_t\<close> offset is narrowed to the \<^verbatim>\<open>int\<close> out parameter.\<close>

definition lin_GetOffsetForBuffer :: "int \<Rightarrow> LinearMemoryPlanner \<Rightarrow> (TfLiteStatus \<times> int option \<times> planner_report list) res" where
  "lin_GetOffsetForBuffer buffer_index p =
     (if buffer_index < 0 \<or> buffer_index \<ge> current_buffer_count p
      then Inr (kTfLiteError, None, [IndexOutside buffer_index (current_buffer_count p)])
      else bind_res (vec_at (lin_buffer_offsets p) buffer_index) (\<lambda>off. Inr (kTfLiteOk, Some (to_int off), [])))"

text \<open>What a linear planner holds: every buffer starts where the ones before it end.\<close>

definition lin_sum :: "BufferRequirements list \<Rightarrow> int" where
  "lin_sum rs = sum_list (map req_size rs)"

definition lin_holds :: "LinearMemoryPlanner \<Rightarrow> BufferRequirements list \<Rightarrow> bool" where
  "lin_holds p rs \<longleftrightarrow> current_buffer_count p = int (length rs) \<and> length rs \<le> 1024 \<and>
     length (lin_buffer_offsets p) = 1024 \<and> list_all (\<lambda>r. 0 \<le> req_size r) rs \<and> lin_sum rs < 2 ^ 31 \<and>
     next_free_offset p = lin_sum rs \<and>
     (\<forall>i < length rs. lin_buffer_offsets p ! i = lin_sum (take i rs))"

definition lin_room :: "LinearMemoryPlanner \<Rightarrow> BufferRequirements list \<Rightarrow> BufferRequirements \<Rightarrow> bool" where
  "lin_room p rs r \<longleftrightarrow> length rs < 1024 \<and> 0 \<le> req_size r \<and> lin_sum rs + req_size r < 2 ^ 31"

text \<open>The two getters do not change the planner; the interface threads it through.\<close>

definition lin_offset_of :: "int \<Rightarrow> LinearMemoryPlanner \<Rightarrow> (TfLiteStatus \<times> int option \<times> LinearMemoryPlanner \<times> planner_report list) res" where
  "lin_offset_of i p = bind_res (lin_GetOffsetForBuffer i p) (\<lambda>(st, off, rs). Inr (st, off, p, rs))"

definition lin_maximum :: "LinearMemoryPlanner \<Rightarrow> (int \<times> LinearMemoryPlanner) res" where
  "lin_maximum p = Inr (lin_GetMaximumMemorySize p, p)"

lemma lin_sum_simps [simp]: "lin_sum [] = 0" "lin_sum (rs @ [r]) = lin_sum rs + req_size r"
  by (simp_all add: lin_sum_def)

lemma lin_sum_nonneg: "list_all (\<lambda>r. 0 \<le> req_size r) rs \<Longrightarrow> 0 \<le> lin_sum rs"
  by (induction rs) (simp_all add: lin_sum_def)

lemma lin_sum_take:
  assumes "list_all (\<lambda>r. 0 \<le> req_size r) rs" "i \<le> j" "j \<le> length rs"
  shows "0 \<le> lin_sum (take i rs)" "lin_sum (take i rs) \<le> lin_sum (take j rs)"
proof -
  have all: "list_all (\<lambda>r. 0 \<le> req_size r) xs" if "set xs \<subseteq> set rs" for xs
    using assms(1) that by (auto simp: list_all_iff)
  show "0 \<le> lin_sum (take i rs)" by (rule lin_sum_nonneg) (simp add: all set_take_subset)
  have "take j rs = take i rs @ drop i (take j rs)"
    using assms(2) by (metis append_take_drop_id min.absorb1 take_take)
  then have "lin_sum (take j rs) = lin_sum (take i rs) + lin_sum (drop i (take j rs))"
    by (metis lin_sum_def map_append sum_list_append)
  moreover have "0 \<le> lin_sum (drop i (take j rs))"
    by (rule lin_sum_nonneg, rule all) (meson dual_order.trans set_drop_subset set_take_subset)
  ultimately show "lin_sum (take i rs) \<le> lin_sum (take j rs)" by simp
qed

lemma lin_sum_Suc: "i < length rs \<Longrightarrow> lin_sum (take (Suc i) rs) = lin_sum (take i rs) + req_size (rs ! i)"
  by (simp add: take_Suc_conv_app_nth)

lemma lin_add_ok:
  assumes "lin_holds p rs" "lin_room p rs r"
  shows "\<exists>p'. lin_AddBuffer (req_size r) f l p = Inr (kTfLiteOk, p', []) \<and> lin_holds p' (rs @ [r])"
proof -
  have "0 \<le> lin_sum rs" using assms(1) lin_sum_nonneg by (simp add: lin_holds_def)
  then have "to_size_t (lin_sum rs + to_size_t (req_size r)) = lin_sum rs + req_size r"
    using assms by (simp add: to_size_t_def lin_room_def)
  then show ?thesis using assms
    by (auto simp: lin_AddBuffer_def lin_kMaxBufferCount_def vec_set_def lin_holds_def lin_room_def nth_append nth_list_update)
qed

lemma lin_apart:
  assumes "lin_holds p rs" "i < j" "j < length rs"
  shows "lin_buffer_offsets p ! i + req_size (rs ! i) \<le> lin_buffer_offsets p ! j"
  using assms lin_sum_take(2)[of rs "Suc i" j] by (simp add: lin_holds_def lin_sum_Suc)

interpretation lin: memory_planner lin_AddBuffer lin_offset_of lin_maximum lin_GetBufferCount lin_holds lin_room
  lin_buffer_offsets
proof
  fix p rs i assume h: "lin_holds p rs" and i: "i < length rs"
  have "0 \<le> lin_sum (take i rs)" using h i lin_sum_take(1)[of rs i i] by (simp add: lin_holds_def)
  then show "0 \<le> lin_buffer_offsets p ! i \<and> 0 \<le> req_size (rs ! i)"
    using h i by (simp add: lin_holds_def list_all_length)
next
  fix p rs i assume h: "lin_holds p rs"
  have "to_int (lin_buffer_offsets p ! nat i) = lin_buffer_offsets p ! nat i" if "0 \<le> i" "i < int (length rs)"
  proof -
    have "nat i < length rs" using that by linarith
    then show ?thesis using h lin_sum_take[of rs "nat i" "length rs"] by (simp add: lin_holds_def fits_int_def)
  qed
  then show "\<exists>p'. lin_holds p' rs \<and> lin_buffer_offsets p' = lin_buffer_offsets p \<and> lin_offset_of i p =
      Inr (if 0 \<le> i \<and> i < int (length rs) then (kTfLiteOk, Some (lin_buffer_offsets p ! nat i), p', [])
           else (kTfLiteError, None, p', [IndexOutside i (int (length rs))]))"
    using h by (intro exI[of _ p]) (auto simp: lin_offset_of_def lin_GetOffsetForBuffer_def lin_holds_def vec_at_def)
next
  fix p rs assume h: "lin_holds p rs"
  have "lin_buffer_offsets p ! i + req_size (rs ! i) \<le> next_free_offset p" if "i < length rs" for i
    using h that lin_sum_take(2)[of rs "Suc i" "length rs"] by (simp add: lin_holds_def lin_sum_Suc)
  then show "\<exists>m p'. lin_maximum p = Inr (m, p') \<and> lin_holds p' rs \<and> lin_buffer_offsets p' = lin_buffer_offsets p \<and>
      (\<forall>i < length rs. lin_buffer_offsets p ! i + req_size (rs ! i) \<le> m)"
    using h by (simp add: lin_maximum_def lin_GetMaximumMemorySize_def)
next
  fix p rs i j assume h: "lin_holds p rs" and ij: "i < length rs" "j < length rs" "i \<noteq> j"
  then consider "i < j" | "j < i" by linarith
  then show "disjoint_ranges (lin_buffer_offsets p ! i) (req_size (rs ! i)) (lin_buffer_offsets p ! j) (req_size (rs ! j))"
    by cases (use h ij lin_apart in \<open>auto simp: disjoint_ranges_def\<close>)
next
  fix p rs assume "lin_holds p rs"
  then show "lin_GetBufferCount p = int (length rs)" by (simp add: lin_GetBufferCount_def lin_holds_def)
qed (rule lin_add_ok)

lemma lin_new_holds: "lin_holds (LinearMemoryPlanner_new memory) []"
  by (simp add: lin_holds_def LinearMemoryPlanner_new_def)

end
