(* ===== verification/Greedy_Memory_Planner.thy ===== *)
theory Greedy_Memory_Planner
  imports Memory_Planner "HOL-Library.Multiset"
begin

text \<open>
  \<^verbatim>\<open>micro/memory_planner/greedy_memory_planner.cc\<close>: the working arrays inside the scratch buffer, the
  sort, the walks over the list of entries linked by index, and the placement loop. A pointer to an
  entry is its index. Signed arithmetic is checked and every array access is bounds-checked. A walk that
  visits more entries than the array has is in a cycle, so it is given as many steps as there are
  entries and running out of them is \<open>Diverges\<close>.
\<close>

section \<open>Data\<close>

record ListEntry =
  entry_offset :: int
  requirements_index :: int
  next_entry_index :: int

record GreedyMemoryPlanner =
  max_buffer_count :: int
  buffer_count :: int
  requirements :: "BufferRequirements list"
  buffer_sizes_sorted :: "int list"
  buffer_ids_sorted :: "int list"
  buffers_sorted_by_offset :: "ListEntry list"
  next_free_entry :: int
  first_entry_index :: int
  buffer_offsets :: "int list"
  need_to_calculate_offsets :: bool

definition kOnlinePlannedBuffer :: int where
  "kOnlinePlannedBuffer = -1"

section \<open>Sorting\<close>

text \<open>
  One pass of the inner \<^verbatim>\<open>for\<close> loop over \<^verbatim>\<open>values\<close> and \<^verbatim>\<open>ids\<close>, and whether it swapped. The head of
  the lists is index \<^verbatim>\<open>i - 1\<close>.
\<close>

fun sort_pass :: "int list \<Rightarrow> int list \<Rightarrow> int list \<times> int list \<times> bool" where
  "sort_pass (v0 # v1 # vs) (d0 # d1 # ds) =
     (if v0 < v1
      then (case sort_pass (v0 # vs) (d0 # ds) of (vs', ds', _) \<Rightarrow> (v1 # vs', d1 # ds', True))
      else (case sort_pass (v1 # vs) (d1 # ds) of (vs', ds', b) \<Rightarrow> (v0 # vs', d0 # ds', b)))"
| "sort_pass vs ds = (vs, ds, False)"

text \<open>The number of pairs that stand in the wrong order.\<close>

fun inversions :: "int list \<Rightarrow> nat" where
  "inversions [] = 0"
| "inversions (v # vs) = length (filter (\<lambda>w. v < w) vs) + inversions vs"

lemma sort_pass_mset: "sort_pass vs ds = (vs', ds', b) \<Longrightarrow> mset vs' = mset vs"
  by (induction vs ds arbitrary: vs' ds' b rule: sort_pass.induct)
    (auto split: if_splits prod.splits)

lemma length_filter_mset: "mset xs = mset ys \<Longrightarrow> length (filter P xs) = length (filter P ys)"
  by (metis mset_filter size_mset)

lemma sort_pass_inversions:
  "sort_pass vs ds = (vs', ds', b) \<Longrightarrow> inversions vs' \<le> inversions vs \<and> (b \<longrightarrow> inversions vs' < inversions vs)"
proof (induction vs ds arbitrary: vs' ds' b rule: sort_pass.induct)
  case (1 v0 v1 vs d0 d1 ds)
  show ?case
  proof (cases "v0 < v1")
    case True
    obtain ws es c where r: "sort_pass (v0 # vs) (d0 # ds) = (ws, es, c)" by (metis prod_cases3)
    have "length (filter ((<) v1) ws) = length (filter ((<) v1) (v0 # vs))"
      by (rule length_filter_mset[OF sort_pass_mset[OF r]])
    then show ?thesis using 1(1)[OF True r] 1(3) r True by auto
  next
    case False
    obtain ws es c where r: "sort_pass (v1 # vs) (d1 # ds) = (ws, es, c)" by (metis prod_cases3)
    have "length (filter ((<) v0) ws) = length (filter ((<) v0) (v1 # vs))"
      by (rule length_filter_mset[OF sort_pass_mset[OF r]])
    then show ?thesis using 1(2)[OF False r] 1(3) r False by auto
  qed
qed simp_all

function ReverseSortInPlace :: "int list \<Rightarrow> int list \<Rightarrow> int list \<times> int list" where
  "ReverseSortInPlace vs ds =
     (case sort_pass vs ds of (vs', ds', any_swapped) \<Rightarrow>
        if any_swapped then ReverseSortInPlace vs' ds' else (vs', ds'))"
  by pat_completeness auto

termination ReverseSortInPlace
  by (relation "measure (\<lambda>(vs, ds). inversions vs)") (auto dest: sort_pass_inversions[OF sym])

declare ReverseSortInPlace.simps [simp del]

section \<open>Construction and registration\<close>

text \<open>What the scratch memory holds where the arrays are placed.\<close>

record scratch =
  scratch_requirements :: "nat \<Rightarrow> BufferRequirements"
  scratch_sizes :: "nat \<Rightarrow> int"
  scratch_ids :: "nat \<Rightarrow> int"
  scratch_entries :: "nat \<Rightarrow> ListEntry"
  scratch_offsets :: "nat \<Rightarrow> int"
  scratch_words :: "int \<times> int"

text \<open>\<^verbatim>\<open>sizeof\<close> 16 for the requirements, 4 and 4, 12 for a list entry, and 4.\<close>

definition per_buffer_size :: int where
  "per_buffer_size = 16 + 4 + 4 + 12 + 4"

text \<open>The division is in \<^verbatim>\<open>size_t\<close>. The two indices are not initialised.\<close>

definition GreedyMemoryPlanner_new :: "scratch \<Rightarrow> int \<Rightarrow> GreedyMemoryPlanner" where
  "GreedyMemoryPlanner_new s scratch_buffer_size =
     (let m = to_int (to_size_t scratch_buffer_size div per_buffer_size); k = nat m
      in \<lparr>max_buffer_count = m, buffer_count = 0,
          requirements = map (scratch_requirements s) [0..<k],
          buffer_sizes_sorted = map (scratch_sizes s) [0..<k],
          buffer_ids_sorted = map (scratch_ids s) [0..<k],
          buffers_sorted_by_offset = map (scratch_entries s) [0..<k],
          next_free_entry = fst (scratch_words s), first_entry_index = snd (scratch_words s),
          buffer_offsets = map (scratch_offsets s) [0..<k],
          need_to_calculate_offsets = True\<rparr>)"

definition AddBuffer ::
  "int \<Rightarrow> int \<Rightarrow> int \<Rightarrow> GreedyMemoryPlanner \<Rightarrow> (TfLiteStatus \<times> GreedyMemoryPlanner \<times> planner_report list) res" where
  "AddBuffer sz f l p =
     (if buffer_count p \<ge> max_buffer_count p
      then Inr (kTfLiteError, p, [TooManyBuffers (max_buffer_count p)])
      else bind_res (vec_set (requirements p) (buffer_count p)
             \<lparr>req_size = sz, offline_offset = kOnlinePlannedBuffer, first_time_used = f, last_time_used = l\<rparr>) (\<lambda>rs.
        Inr (kTfLiteOk, p\<lparr>requirements := rs, buffer_count := buffer_count p + 1, need_to_calculate_offsets := True\<rparr>, [])))"

text \<open>The overload for an offline planned buffer; \<^verbatim>\<open>current\<close> is the slot before the count moves on.\<close>

definition AddBuffer_offline ::
  "int \<Rightarrow> int \<Rightarrow> int \<Rightarrow> int \<Rightarrow> GreedyMemoryPlanner \<Rightarrow> (TfLiteStatus \<times> GreedyMemoryPlanner \<times> planner_report list) res" where
  "AddBuffer_offline sz f l off p =
     (let current = buffer_count p
      in bind_res (AddBuffer sz f l p) (\<lambda>(st, p1, rep).
        if st \<noteq> kTfLiteOk then Inr (kTfLiteError, p1, rep)
        else bind_res (vec_at (requirements p1) current) (\<lambda>r.
          bind_res (vec_set (requirements p1) current (r\<lparr>offline_offset := off\<rparr>)) (\<lambda>rs.
            Inr (kTfLiteOk, p1\<lparr>requirements := rs\<rparr>, rep)))))"

section \<open>Walking the list of entries\<close>

definition DoesEntryOverlapInTime :: "GreedyMemoryPlanner \<Rightarrow> ListEntry \<Rightarrow> int \<Rightarrow> int \<Rightarrow> bool res" where
  "DoesEntryOverlapInTime p e f l =
     bind_res (vec_at (requirements p) (requirements_index e)) (\<lambda>r.
       if first_time_used r > l then Inr False
       else if f > last_time_used r then Inr False
       else Inr True)"

fun next_active :: "nat \<Rightarrow> GreedyMemoryPlanner \<Rightarrow> int \<Rightarrow> int \<Rightarrow> int \<Rightarrow> int option res" where
  "next_active 0 p candidate f l = Inl Diverges"
| "next_active (Suc n) p candidate f l =
     bind_res (vec_at (buffers_sorted_by_offset p) candidate) (\<lambda>e.
     bind_res (DoesEntryOverlapInTime p e f l) (\<lambda>b.
       if b then Inr (Some candidate)
       else if next_entry_index e = -1 then Inr None
       else next_active n p (next_entry_index e) f l))"

definition NextSimultaneouslyActiveBuffer :: "GreedyMemoryPlanner \<Rightarrow> int option \<Rightarrow> int \<Rightarrow> int \<Rightarrow> int option res" where
  "NextSimultaneouslyActiveBuffer p start f l =
     (let n = length (buffers_sorted_by_offset p)
      in case start of
           None \<Rightarrow> next_active n p (first_entry_index p) f l
         | Some s \<Rightarrow> bind_res (vec_at (buffers_sorted_by_offset p) s) (\<lambda>e.
             if next_entry_index e = -1 then Inr None
             else next_active n p (next_entry_index e) f l))"

text \<open>The end of the prior entry, when there is one and it lies beyond the candidate offset.\<close>

definition after_prior :: "GreedyMemoryPlanner \<Rightarrow> int option \<Rightarrow> int \<Rightarrow> int res" where
  "after_prior p prior candidate_offset =
     (case prior of
        None \<Rightarrow> Inr candidate_offset
      | Some i \<Rightarrow>
          bind_res (vec_at (buffers_sorted_by_offset p) i) (\<lambda>e.
          bind_res (vec_at (requirements p) (requirements_index e)) (\<lambda>r.
          bind_res (checked_int (entry_offset e + req_size r)) (\<lambda>prior_entry_offset.
            Inr (if prior_entry_offset > candidate_offset then prior_entry_offset else candidate_offset)))))"

fun find_gap :: "nat \<Rightarrow> GreedyMemoryPlanner \<Rightarrow> int \<Rightarrow> int \<Rightarrow> int \<Rightarrow> int option \<Rightarrow> int \<Rightarrow> int res" where
  "find_gap 0 p wanted_size f l prior candidate_offset = Inl Diverges"
| "find_gap (Suc n) p wanted_size f l prior candidate_offset =
     bind_res (NextSimultaneouslyActiveBuffer p prior f l) (\<lambda>next_entry.
     bind_res (after_prior p prior candidate_offset) (\<lambda>cand.
       case next_entry of
         None \<Rightarrow> Inr cand
       | Some j \<Rightarrow>
           bind_res (vec_at (buffers_sorted_by_offset p) j) (\<lambda>e.
           bind_res (checked_int (entry_offset e - cand)) (\<lambda>gap.
             if gap \<ge> wanted_size then Inr cand
             else find_gap n p wanted_size f l (Some j) cand))))"

section \<open>The plan\<close>

text \<open>Offline planned buffers go to the head of the arrays, the others to the tail.\<close>

definition split_buffer :: "nat \<Rightarrow> (int \<times> int \<times> GreedyMemoryPlanner) \<Rightarrow> (int \<times> int \<times> GreedyMemoryPlanner) res" where
  "split_buffer i = (\<lambda>(idx_from_tail, idx_from_head, p).
     bind_res (vec_at (requirements p) (int i)) (\<lambda>r.
       if offline_offset r = kOnlinePlannedBuffer
       then let t = idx_from_tail - 1 in
         bind_res (vec_set (buffer_sizes_sorted p) t (req_size r)) (\<lambda>ss.
         bind_res (vec_set (buffer_ids_sorted p) t (int i)) (\<lambda>ids.
         bind_res (vec_set (buffer_offsets p) (int i) (-1)) (\<lambda>os.
         Inr (t, idx_from_head, p\<lparr>buffer_sizes_sorted := ss, buffer_ids_sorted := ids, buffer_offsets := os\<rparr>))))
       else
         bind_res (vec_set (buffer_sizes_sorted p) idx_from_head (req_size r)) (\<lambda>ss.
         bind_res (vec_set (buffer_ids_sorted p) idx_from_head (int i)) (\<lambda>ids.
         bind_res (vec_set (buffer_offsets p) (int i) (offline_offset r)) (\<lambda>os.
         Inr (idx_from_tail, idx_from_head + 1,
              p\<lparr>buffer_sizes_sorted := ss, buffer_ids_sorted := ids, buffer_offsets := os\<rparr>))))))"

text \<open>The sort runs on the part of the arrays after the offline planned buffers.\<close>

definition sort_online :: "int \<Rightarrow> GreedyMemoryPlanner \<Rightarrow> GreedyMemoryPlanner" where
  "sort_online idx_from_head p =
     (let h = nat idx_from_head; n = nat (buffer_count p - idx_from_head);
          part = (\<lambda>xs. take n (drop h xs));
          (vs, ds) = ReverseSortInPlace (part (buffer_sizes_sorted p)) (part (buffer_ids_sorted p))
      in p\<lparr>buffer_sizes_sorted := take h (buffer_sizes_sorted p) @ vs @ drop (h + n) (buffer_sizes_sorted p),
           buffer_ids_sorted := take h (buffer_ids_sorted p) @ ds @ drop (h + n) (buffer_ids_sorted p)\<rparr>)"

definition first_buffer :: "GreedyMemoryPlanner \<Rightarrow> GreedyMemoryPlanner res" where
  "first_buffer p =
     bind_res (vec_at (buffers_sorted_by_offset p) 0) (\<lambda>e.
     bind_res (vec_at (buffer_ids_sorted p) 0) (\<lambda>buffer_id.
     bind_res (vec_at (requirements p) buffer_id) (\<lambda>r.
     bind_res (if offline_offset r = kOnlinePlannedBuffer then vec_set (buffer_offsets p) buffer_id 0
               else Inr (buffer_offsets p)) (\<lambda>os.
     bind_res (vec_at os buffer_id) (\<lambda>off.
     bind_res (vec_set (buffers_sorted_by_offset p) 0
        (e\<lparr>next_entry_index := -1, requirements_index := buffer_id, entry_offset := off\<rparr>)) (\<lambda>es.
     Inr (p\<lparr>first_entry_index := 0, next_free_entry := 1, buffer_offsets := os, buffers_sorted_by_offset := es\<rparr>)))))))"

text \<open>Where the new entry is linked in: before the first entry with a larger offset.\<close>

fun link_after :: "nat \<Rightarrow> ListEntry list \<Rightarrow> int \<Rightarrow> int \<Rightarrow> int \<Rightarrow> ListEntry list res" where
  "link_after 0 es current new_index candidate_offset = Inl Diverges"
| "link_after (Suc n) es current new_index candidate_offset =
     bind_res (vec_at es current) (\<lambda>c.
       if next_entry_index c = -1
       then bind_res (vec_set es current (c\<lparr>next_entry_index := new_index\<rparr>)) (\<lambda>es1.
         bind_res (vec_at es1 new_index) (\<lambda>e. vec_set es1 new_index (e\<lparr>next_entry_index := -1\<rparr>)))
       else bind_res (vec_at es (next_entry_index c)) (\<lambda>nx.
         if entry_offset nx > candidate_offset
         then bind_res (vec_at es new_index) (\<lambda>e.
           bind_res (vec_set es new_index (e\<lparr>next_entry_index := next_entry_index c\<rparr>)) (\<lambda>es1.
             vec_set es1 current (c\<lparr>next_entry_index := new_index\<rparr>)))
         else link_after n es (next_entry_index c) new_index candidate_offset))"

text \<open>
  The local \<^verbatim>\<open>first_entry\<close> of the source is always the entry at \<^verbatim>\<open>first_entry_index_\<close>: the two are
  assigned together.
\<close>

definition insert_entry :: "int \<Rightarrow> int \<Rightarrow> GreedyMemoryPlanner \<Rightarrow> GreedyMemoryPlanner res" where
  "insert_entry candidate_offset buffer_id p =
     (let new_index = next_free_entry p in
      bind_res (vec_at (buffers_sorted_by_offset p) new_index) (\<lambda>e.
      bind_res (vec_set (buffers_sorted_by_offset p) new_index
         (e\<lparr>entry_offset := candidate_offset, requirements_index := buffer_id\<rparr>)) (\<lambda>es.
      bind_res (vec_at es (first_entry_index p)) (\<lambda>first_entry.
        let p1 = p\<lparr>next_free_entry := next_free_entry p + 1\<rparr> in
        if entry_offset first_entry > candidate_offset
        then bind_res (vec_at es new_index) (\<lambda>ne.
          bind_res (vec_set es new_index (ne\<lparr>next_entry_index := first_entry_index p\<rparr>)) (\<lambda>es1.
            Inr (p1\<lparr>buffers_sorted_by_offset := es1, first_entry_index := new_index\<rparr>)))
        else bind_res (link_after (length es) es (first_entry_index p) new_index candidate_offset) (\<lambda>es1.
          Inr (p1\<lparr>buffers_sorted_by_offset := es1\<rparr>))))))"

definition place_buffer :: "nat \<Rightarrow> GreedyMemoryPlanner \<Rightarrow> GreedyMemoryPlanner res" where
  "place_buffer i p =
     bind_res (vec_at (buffer_ids_sorted p) (int i)) (\<lambda>buffer_id.
     bind_res (vec_at (requirements p) buffer_id) (\<lambda>wanted.
     bind_res (if offline_offset wanted = kOnlinePlannedBuffer
               then find_gap (Suc (length (buffers_sorted_by_offset p))) p (req_size wanted) (first_time_used wanted)
                      (last_time_used wanted) None 0
               else Inr (offline_offset wanted)) (\<lambda>candidate_offset.
     bind_res (vec_set (buffer_offsets p) buffer_id candidate_offset) (\<lambda>os.
     insert_entry candidate_offset buffer_id (p\<lparr>buffer_offsets := os\<rparr>)))))"

definition CalculateOffsetsIfNeeded :: "GreedyMemoryPlanner \<Rightarrow> GreedyMemoryPlanner res" where
  "CalculateOffsetsIfNeeded p =
     (if \<not> need_to_calculate_offsets p \<or> buffer_count p = 0 then Inr p
      else bind_res (for_loop split_buffer 0 (nat (buffer_count p))
             (buffer_count p, 0, p\<lparr>need_to_calculate_offsets := False\<rparr>)) (\<lambda>(_, idx_from_head, p1).
        bind_res (first_buffer (sort_online idx_from_head p1)) (\<lambda>p2.
        for_loop place_buffer 1 (nat (buffer_count p2) - 1) p2)))"

section \<open>The questions\<close>

text \<open>The sum is an \<^verbatim>\<open>int\<close> that converts to \<^verbatim>\<open>size_t\<close>.\<close>

fun max_walk :: "nat \<Rightarrow> GreedyMemoryPlanner \<Rightarrow> int \<Rightarrow> int \<Rightarrow> int res" where
  "max_walk 0 p entry max_size = Inl Diverges"
| "max_walk (Suc n) p entry max_size =
     bind_res (vec_at (buffers_sorted_by_offset p) entry) (\<lambda>e.
     bind_res (vec_at (requirements p) (requirements_index e)) (\<lambda>r.
     bind_res (checked_int (entry_offset e + req_size r)) (\<lambda>sum.
       let current_size = to_size_t sum; m = (if current_size > max_size then current_size else max_size) in
       if next_entry_index e = -1 then Inr m else max_walk n p (next_entry_index e) m)))"

definition GetMaximumMemorySize :: "GreedyMemoryPlanner \<Rightarrow> (int \<times> GreedyMemoryPlanner) res" where
  "GetMaximumMemorySize p =
     bind_res (CalculateOffsetsIfNeeded p) (\<lambda>p1.
       if buffer_count p1 = 0 then Inr (0, p1)
       else bind_res (max_walk (length (buffers_sorted_by_offset p1)) p1 (first_entry_index p1) 0) (\<lambda>m. Inr (m, p1)))"

definition GetBufferCount :: "GreedyMemoryPlanner \<Rightarrow> int" where
  "GetBufferCount p = buffer_count p"

definition GetOffsetForBuffer ::
  "int \<Rightarrow> GreedyMemoryPlanner \<Rightarrow> (TfLiteStatus \<times> int option \<times> GreedyMemoryPlanner \<times> planner_report list) res" where
  "GetOffsetForBuffer buffer_index p =
     bind_res (CalculateOffsetsIfNeeded p) (\<lambda>p1.
       if buffer_index < 0 \<or> buffer_index \<ge> buffer_count p1
       then Inr (kTfLiteError, None, p1, [IndexOutside buffer_index (buffer_count p1)])
       else bind_res (vec_at (buffer_offsets p1) buffer_index) (\<lambda>off. Inr (kTfLiteOk, Some off, p1, [])))"

text \<open>The inner and the outer loop of the overlap check, with the reports they make.\<close>

definition overlap_pair ::
  "GreedyMemoryPlanner \<Rightarrow> nat \<Rightarrow> BufferRequirements \<Rightarrow> int \<Rightarrow> int \<Rightarrow> nat \<Rightarrow> bool \<times> planner_report list
   \<Rightarrow> (bool \<times> planner_report list) res" where
  "overlap_pair p i a a_start a_end j = (\<lambda>(found, rep).
     if i = j then Inr (found, rep)
     else
       bind_res (vec_at (requirements p) (int j)) (\<lambda>b.
       bind_res (vec_at (buffer_offsets p) (int j)) (\<lambda>b_start.
       bind_res (checked_int (b_start + req_size b)) (\<lambda>b_end.
         if first_time_used a > last_time_used b \<or> first_time_used b > last_time_used a then Inr (found, rep)
         else if a_start \<ge> b_end \<or> b_start \<ge> a_end then Inr (found, rep)
         else Inr (True, rep @ [Overlap (int i) (first_time_used a) (last_time_used a) a_start a_end
                                        (int j) (first_time_used b) (last_time_used b) b_start b_end])))))"

definition overlap_row :: "GreedyMemoryPlanner \<Rightarrow> nat \<Rightarrow> bool \<times> planner_report list \<Rightarrow> (bool \<times> planner_report list) res" where
  "overlap_row p i s =
     bind_res (vec_at (requirements p) (int i)) (\<lambda>a.
     bind_res (vec_at (buffer_offsets p) (int i)) (\<lambda>a_start.
     bind_res (checked_int (a_start + req_size a)) (\<lambda>a_end.
       for_loop (overlap_pair p i a a_start a_end) 0 (nat (buffer_count p)) s)))"

definition DoAnyBuffersOverlap :: "GreedyMemoryPlanner \<Rightarrow> (bool \<times> GreedyMemoryPlanner \<times> planner_report list) res" where
  "DoAnyBuffersOverlap p =
     bind_res (CalculateOffsetsIfNeeded p) (\<lambda>p1.
       bind_res (for_loop (overlap_row p1) 0 (nat (buffer_count p1)) (False, [])) (\<lambda>(found, rep).
         Inr (found, p1, rep)))"

section \<open>Printing\<close>

definition kLineWidth :: int where
  "kLineWidth = 80"

definition display_char :: "nat \<Rightarrow> char" where
  "display_char i = char_of (if i < 10 then 48 + i else if i < 36 then 97 + (i - 10) else if i < 62 then 65 + (i - 36) else 42)"

definition buffer_report :: "GreedyMemoryPlanner \<Rightarrow> nat \<Rightarrow> planner_report list \<Rightarrow> planner_report list res" where
  "buffer_report p i rep =
     bind_res (vec_at (buffer_offsets p) (int i)) (\<lambda>off.
     bind_res (vec_at (requirements p) (int i)) (\<lambda>r.
       Inr (rep @ [BufferLine (int i) off (req_size r) (first_time_used r) (last_time_used r)])))"

definition extent :: "GreedyMemoryPlanner \<Rightarrow> nat \<Rightarrow> int \<times> int \<Rightarrow> (int \<times> int) res" where
  "extent p i = (\<lambda>(max_size, max_time).
     bind_res (vec_at (requirements p) (int i)) (\<lambda>r.
     bind_res (vec_at (buffer_offsets p) (int i)) (\<lambda>off.
     bind_res (checked_int (off + req_size r)) (\<lambda>sz.
       Inr (if sz > max_size then sz else max_size, if last_time_used r > max_time then last_time_used r else max_time)))))"

definition draw_cell :: "nat \<Rightarrow> int \<Rightarrow> string \<Rightarrow> string res" where
  "draw_cell i n line =
     bind_res (vec_at line n) (\<lambda>c. vec_set line n (if c = CHR ''.'' then display_char i else CHR ''!''))"

definition draw_buffer :: "GreedyMemoryPlanner \<Rightarrow> int \<Rightarrow> nat \<Rightarrow> nat \<Rightarrow> string \<Rightarrow> string res" where
  "draw_buffer p max_size t i line =
     bind_res (vec_at (requirements p) (int i)) (\<lambda>r.
       if int t < first_time_used r \<or> int t > last_time_used r then Inr line
       else bind_res (vec_at (buffer_offsets p) (int i)) (\<lambda>off.
         if off = -1 then Inr line
         else
           bind_res (checked_int (off * kLineWidth)) (\<lambda>a.
           bind_res (checked_int (off + req_size r)) (\<lambda>e.
           bind_res (checked_int (e * kLineWidth)) (\<lambda>b.
             let line_start = quot_int a max_size; line_end = quot_int b max_size in
             for_loop (\<lambda>m. draw_cell i (line_start + int m)) 0 (nat (line_end - line_start)) line)))))"

text \<open>
  The line has one more cell for the terminator, which is written after the drawing; the report shows
  the cells before it.
\<close>

definition time_line :: "GreedyMemoryPlanner \<Rightarrow> int \<Rightarrow> nat \<Rightarrow> planner_report list \<Rightarrow> planner_report list res" where
  "time_line p max_size t rep =
     bind_res (for_loop (draw_buffer p max_size t) 0 (nat (buffer_count p))
         (replicate (nat kLineWidth) CHR ''.'' @ [char_of (0 :: nat)])) (\<lambda>line.
       Inr (rep @ [TimeLine (take (nat kLineWidth) line)]))"

text \<open>
  The last \<^verbatim>\<open>++t\<close> of the loop over the times steps to one more than \<^verbatim>\<open>max_time\<close>, which overflows when that is the
  largest \<^verbatim>\<open>int\<close>.
\<close>

definition PrintMemoryPlan :: "GreedyMemoryPlanner \<Rightarrow> (GreedyMemoryPlanner \<times> planner_report list) res" where
  "PrintMemoryPlan p0 =
     bind_res (CalculateOffsetsIfNeeded p0) (\<lambda>p.
     let n = nat (buffer_count p) in
     bind_res (for_loop (buffer_report p) 0 n []) (\<lambda>rep.
     bind_res (for_loop (extent p) 0 n (kLineWidth, 0)) (\<lambda>(max_size, max_time).
     bind_res (for_loop (time_line p max_size) 0 (nat (max_time + 1)) rep) (\<lambda>rep1.
     bind_res (checked_int (max_time + 1)) (\<lambda>t.
     Inr (p, rep1))))))"

end
