(* ===== verification/Greedy_Plan.thy ===== *)
theory Greedy_Plan
  imports Greedy_Memory_Planner
begin

text \<open>
  The plan the greedy planner computes, as functions on lists: the order of placement, the gap search
  over the buffers in use at the same time, and the insertion by offset. The safety of the plan
  (no two buffers in use at the same time share memory) and its bounds are proved here.
\<close>

section \<open>The sort is a stable descending sort\<close>

abbreviation sorted_pass :: "(int \<times> int) list \<Rightarrow> (int \<times> int) list \<times> bool" where
  "sorted_pass xs \<equiv> (case sort_pass (map fst xs) (map snd xs) of (vs, ds, b) \<Rightarrow> (zip vs ds, b))"

lemma sort_pass_lengths:
  "sort_pass vs ds = (vs', ds', b) \<Longrightarrow> length vs' = length vs \<and> length ds' = length ds"
  by (induction vs ds arbitrary: vs' ds' b rule: sort_pass.induct) (auto split: if_splits prod.splits)

lemma sort_pass_zip_mset:
  "sort_pass vs ds = (vs', ds', b) \<Longrightarrow> length vs = length ds \<Longrightarrow> mset (zip vs' ds') = mset (zip vs ds)"
proof (induction vs ds arbitrary: vs' ds' b rule: sort_pass.induct)
  case (1 v0 v1 vs d0 d1 ds)
  then show ?case by (auto split: if_splits prod.splits)
qed auto

text \<open>Elements with equal values keep their order, because only strictly smaller ones are passed.\<close>

lemma sort_pass_stable:
  "sort_pass vs ds = (vs', ds', b) \<Longrightarrow> length vs = length ds \<Longrightarrow>
   filter (\<lambda>x. fst x = k) (zip vs' ds') = filter (\<lambda>x. fst x = k) (zip vs ds)"
proof (induction vs ds arbitrary: vs' ds' b rule: sort_pass.induct)
  case (1 v0 v1 vs d0 d1 ds)
  show ?case
  proof (cases "v0 < v1")
    case True
    obtain ws es c where r: "sort_pass (v0 # vs) (d0 # ds) = (ws, es, c)" by (metis prod_cases3)
    then show ?thesis using 1(1)[OF True r] 1(3,4) True by auto
  next
    case False
    obtain ws es c where r: "sort_pass (v1 # vs) (d1 # ds) = (ws, es, c)" by (metis prod_cases3)
    then show ?thesis using 1(2)[OF False r] 1(3,4) False by auto
  qed
qed auto

lemma sort_pass_fixpoint:
  "sort_pass vs ds = (vs', ds', False) \<Longrightarrow> length vs = length ds \<Longrightarrow>
   vs' = vs \<and> ds' = ds \<and> sorted_wrt (\<ge>) vs"
proof (induction vs ds arbitrary: vs' ds' rule: sort_pass.induct)
  case (1 v0 v1 vs d0 d1 ds)
  then have nl: "\<not> v0 < v1" by (auto split: if_splits prod.splits)
  obtain ws es c where r: "sort_pass (v1 # vs) (d1 # ds) = (ws, es, c)" by (metis prod_cases3)
  then have "c = False" "vs' = v0 # ws" "ds' = d0 # es" using 1(3) nl by auto
  then show ?case using 1(2)[OF nl r[unfolded \<open>c = False\<close>]] 1(4) nl by force
qed (auto simp: length_Suc_conv)

lemma ReverseSortInPlace_props:
  assumes "ReverseSortInPlace vs ds = (vs', ds')" "length vs = length ds"
  shows "length vs' = length vs \<and> length ds' = length ds \<and> mset (zip vs' ds') = mset (zip vs ds) \<and>
    sorted_wrt (\<ge>) vs' \<and> (\<forall>k. filter (\<lambda>x. fst x = k) (zip vs' ds') = filter (\<lambda>x. fst x = k) (zip vs ds))"
  using assms
proof (induction vs ds rule: ReverseSortInPlace.induct)
  case (1 vs ds)
  obtain ws es b where r: "sort_pass vs ds = (ws, es, b)" by (metis prod_cases3)
  note facts = sort_pass_lengths[OF r] sort_pass_zip_mset[OF r 1(3)] sort_pass_stable[OF r 1(3)]
  show ?case
  proof (cases b)
    case True
    then have "ReverseSortInPlace ws es = (vs', ds')" using 1(2) r by (subst (asm) ReverseSortInPlace.simps) simp
    then show ?thesis using 1(1)[OF r[symmetric] refl] True facts 1(3) by simp
  next
    case False
    then have "(ws, es) = (vs', ds')" using 1(2) r by (subst (asm) ReverseSortInPlace.simps) simp
    then show ?thesis using sort_pass_fixpoint[of vs ds ws es] r False facts 1(3) by simp
  qed
qed

lemma ReverseSortInPlace_sort_key:
  assumes "ReverseSortInPlace vs ds = (vs', ds')" "length vs = length ds"
  shows "zip vs' ds' = sort_key (\<lambda>x. - fst x) (zip vs ds)"
proof -
  note props = ReverseSortInPlace_props[OF assms]
  have "map (\<lambda>x. - fst x) (zip vs' ds') = map uminus (map fst (zip vs' ds'))" by simp
  also have "map fst (zip vs' ds') = vs'" using props assms(2) by simp
  finally have "map (\<lambda>x. - fst x) (zip vs' ds') = map uminus vs'" .
  moreover have "sorted (map uminus vs')" using props by (simp add: sorted_wrt_map)
  ultimately have "sorted (map (\<lambda>x. - fst x) (zip vs' ds'))" by simp
  moreover have "filter (\<lambda>x. - fst k = - fst x) (zip vs' ds') = filter (\<lambda>x. - fst k = - fst x) (zip vs ds)"
    for k :: "int \<times> int"
  proof -
    have "filter (\<lambda>x. - fst k = - fst x) zs = filter (\<lambda>x. fst x = fst k) zs" for zs :: "(int \<times> int) list"
      by (rule filter_cong) auto
    then show ?thesis using props by (metis (no_types))
  qed
  ultimately show ?thesis using props by (intro properties_for_sort_key[symmetric]) blast+
qed

section \<open>The plan on lists\<close>

text \<open>A placed buffer is its offset and its number; the list is in the order of the offsets.\<close>

type_synonym layout = "(int \<times> nat) list"

abbreviation online :: "BufferRequirements \<Rightarrow> bool" where
  "online r \<equiv> offline_offset r = kOnlinePlannedBuffer"

definition placing_order :: "BufferRequirements list \<Rightarrow> nat list" where
  "placing_order rs = filter (\<lambda>i. \<not> online (rs ! i)) [0..<length rs] @
     sort_key (\<lambda>i. - req_size (rs ! i)) (rev (filter (\<lambda>i. online (rs ! i)) [0..<length rs]))"

fun first_gap :: "int \<Rightarrow> int \<Rightarrow> (int \<times> int) list \<Rightarrow> int" where
  "first_gap w c [] = c"
| "first_gap w c ((off, sz) # xs) = (if off - c \<ge> w then c else first_gap w (max c (off + sz)) xs)"

definition in_use :: "BufferRequirements list \<Rightarrow> BufferRequirements \<Rightarrow> layout \<Rightarrow> (int \<times> int) list" where
  "in_use rs r v = map (\<lambda>(off, b). (off, req_size (rs ! b))) (filter (\<lambda>(_, b). same_time r (rs ! b)) v)"

definition chosen_offset :: "BufferRequirements list \<Rightarrow> nat \<Rightarrow> layout \<Rightarrow> int" where
  "chosen_offset rs b v =
     (if online (rs ! b) then first_gap (req_size (rs ! b)) 0 (in_use rs (rs ! b) v) else offline_offset (rs ! b))"

definition insert_layout :: "int \<Rightarrow> nat \<Rightarrow> layout \<Rightarrow> layout" where
  "insert_layout off b v = takeWhile (\<lambda>x. fst x \<le> off) v @ (off, b) # dropWhile (\<lambda>x. fst x \<le> off) v"

definition place :: "BufferRequirements list \<Rightarrow> nat \<Rightarrow> layout \<Rightarrow> layout" where
  "place rs b v = insert_layout (chosen_offset rs b v) b v"

definition greedy_plan :: "BufferRequirements list \<Rightarrow> layout" where
  "greedy_plan rs = fold (place rs) (placing_order rs) []"

section \<open>Safety\<close>

lemma mset_insert_layout [simp]: "mset (insert_layout off b v) = add_mset (off, b) (mset v)"
  unfolding insert_layout_def
  by (metis add_mset_add_single mset.simps(2) mset_append takeWhile_dropWhile_id union_mset_add_mset_right)

lemma set_insert_layout [simp]: "set (insert_layout off b v) = insert (off, b) (set v)"
  by (metis mset_insert_layout set_mset_add_mset_insert set_mset_mset)

lemma insert_layout_sorted:
  assumes "sorted (map fst v)"
  shows "sorted (map fst (insert_layout off b v))"
proof -
  let ?P = "\<lambda>x. fst x \<le> off"
  have v: "v = takeWhile ?P v @ dropWhile ?P v" by simp
  have "sorted (map fst (takeWhile ?P v))" "sorted (map fst (dropWhile ?P v))"
    using assms by (metis map_append sorted_append v)+
  moreover have "off \<le> fst x" if "x \<in> set (dropWhile ?P v)" for x
  proof -
    obtain y ys where y: "dropWhile ?P v = y # ys" using \<open>x \<in> _\<close> by (cases "dropWhile ?P v") auto
    have "off < fst y" using y by (metis hd_dropWhile linorder_not_le list.distinct(1) list.sel(1))
    moreover have "fst y \<le> fst x" using calculation that y \<open>sorted (map fst (dropWhile ?P v))\<close> by auto
    ultimately show ?thesis by simp
  qed
  moreover have "fst x \<le> off" if "x \<in> set (takeWhile ?P v)" for x using that by (auto dest: set_takeWhileD)
  ultimately show ?thesis unfolding insert_layout_def
    by (simp add: sorted_append ball_Un) (meson order_trans)
qed

text \<open>The gap lies behind every range it has passed and before every range that is left.\<close>

lemma first_gap_clear:
  "sorted (map fst xs) \<Longrightarrow> c \<le> first_gap w c xs \<and>
   (\<forall>(off, sz) \<in> set xs. off + sz \<le> first_gap w c xs \<or> first_gap w c xs + w \<le> off)"
proof (induction w c xs rule: first_gap.induct)
  case (2 w c off sz xs)
  show ?case
  proof (cases "off - c \<ge> w")
    case True
    then show ?thesis using 2(2) by force
  next
    case False
    then show ?thesis using 2(1) 2(2) by force
  qed
qed simp

lemma first_gap_bound:
  assumes "\<And>off sz. (off, sz) \<in> set xs \<Longrightarrow> off + sz \<le> m" "c \<le> m"
  shows "first_gap w c xs \<le> m"
  using assms
proof (induction w c xs rule: first_gap.induct)
  case (2 w c off sz xs)
  have "max c (off + sz) \<le> m" using 2(2)[of off sz] 2(3) by simp
  then show ?case using 2 by auto
qed simp

text \<open>What is known of a partial layout.\<close>

definition apart_layout :: "BufferRequirements list \<Rightarrow> layout \<Rightarrow> bool" where
  "apart_layout rs v \<longleftrightarrow> (\<forall>(o1, a) \<in> set v. \<forall>(o2, b) \<in> set v.
     a \<noteq> b \<and> (online (rs ! a) \<or> online (rs ! b)) \<and> same_time (rs ! a) (rs ! b) \<longrightarrow>
     disjoint_ranges o1 (req_size (rs ! a)) o2 (req_size (rs ! b)))"

lemma same_time_sym: "same_time a b = same_time b a"
  by (auto simp: same_time_def)

lemma disjoint_ranges_sym: "disjoint_ranges a b c d = disjoint_ranges c d a b"
  by (auto simp: disjoint_ranges_def)

lemma in_use_set: "(off, sz) \<in> set (in_use rs r v) \<longleftrightarrow>
    (\<exists>b. (off, b) \<in> set v \<and> same_time r (rs ! b) \<and> sz = req_size (rs ! b))"
  by (auto simp: in_use_def)

lemma in_use_sorted: "sorted (map fst v) \<Longrightarrow> sorted (map fst (in_use rs r v))"
proof -
  assume "sorted (map fst v)"
  then have "sorted (map fst (filter (\<lambda>(_, b). same_time r (rs ! b)) v))" by (rule sorted_filter)
  moreover have "map fst (in_use rs r v) = map fst (filter (\<lambda>(_, b). same_time r (rs ! b)) v)"
    by (simp add: in_use_def case_prod_beta comp_def)
  ultimately show ?thesis by simp
qed

lemma chosen_offset_apart:
  assumes "sorted (map fst v)" "online (rs ! b)" "(off, a) \<in> set v" "same_time (rs ! b) (rs ! a)"
  shows "disjoint_ranges off (req_size (rs ! a)) (chosen_offset rs b v) (req_size (rs ! b))"
proof -
  have "(off, req_size (rs ! a)) \<in> set (in_use rs (rs ! b) v)" using assms(3,4) by (auto simp: in_use_set)
  then show ?thesis
    using first_gap_clear[OF in_use_sorted[OF assms(1), of rs "rs ! b"], of 0 "req_size (rs ! b)"] assms(2)
    by (auto simp: chosen_offset_def disjoint_ranges_def)
qed

lemma place_apart:
  assumes "sorted (map fst v)" "apart_layout rs v"
    and "\<not> online (rs ! b) \<Longrightarrow> \<forall>(off, a) \<in> set v. \<not> online (rs ! a)"
  shows "apart_layout rs (place rs b v)"
proof -
  have new: "disjoint_ranges off (req_size (rs ! a)) (chosen_offset rs b v) (req_size (rs ! b))"
    if "(off, a) \<in> set v" "online (rs ! a) \<or> online (rs ! b)" "same_time (rs ! a) (rs ! b)" for off a
    using chosen_offset_apart[OF assms(1), of rs b off a] assms(3) that by (auto simp: same_time_sym)
  then show ?thesis using assms(2)
    by (auto simp: apart_layout_def place_def disjoint_ranges_sym same_time_sym)
qed

text \<open>The buffers of the order are all the buffers, the offline planned ones first.\<close>

definition offline_first :: "BufferRequirements list \<Rightarrow> nat list \<Rightarrow> bool" where
  "offline_first rs bs \<longleftrightarrow> sorted_wrt (\<lambda>a b. \<not> online (rs ! b) \<longrightarrow> \<not> online (rs ! a)) bs"

lemma placing_order_mset: "mset (placing_order rs) = mset [0..<length rs]"
proof -
  have "mset (filter (\<lambda>i. \<not> P i) xs) + mset (filter P xs) = mset xs" for P and xs :: "nat list"
    by (metis add.commute mset_filter multiset_partition)
  then show ?thesis unfolding placing_order_def mset_append mset_sort mset_rev .
qed

lemma placing_order_distinct: "distinct (placing_order rs)"
  by (metis distinct_upt mset_eq_imp_distinct_iff placing_order_mset)

lemma placing_order_set: "set (placing_order rs) = {0..<length rs}"
  by (metis atLeastLessThan_upt placing_order_mset set_mset_mset)

lemma placing_order_length: "length (placing_order rs) = length rs"
  using arg_cong[OF placing_order_mset, of size rs] by simp

lemma placing_order_offline_first: "offline_first rs (placing_order rs)"
proof -
  have "sorted_wrt (\<lambda>a b. \<not> online (rs ! b) \<longrightarrow> \<not> online (rs ! a)) xs" if "\<forall>x \<in> set xs. \<not> online (rs ! x)" for xs
    using that by (induction xs) auto
  moreover have "sorted_wrt (\<lambda>a b. \<not> online (rs ! b) \<longrightarrow> \<not> online (rs ! a)) xs" if "\<forall>x \<in> set xs. online (rs ! x)" for xs
    using that by (induction xs) auto
  ultimately show ?thesis by (simp add: offline_first_def placing_order_def sorted_wrt_append)
qed

text \<open>How much memory a plan can need.\<close>

definition offline_top :: "BufferRequirements list \<Rightarrow> int" where
  "offline_top rs = foldr (\<lambda>r m. max (offline_offset r) m) rs 0"

definition plannable :: "BufferRequirements list \<Rightarrow> bool" where
  "plannable rs \<longleftrightarrow> list_all (\<lambda>r. 0 \<le> req_size r \<and> -1 \<le> offline_offset r) rs \<and>
     offline_top rs + sum_list (map req_size rs) < 2 ^ 31"

lemma offline_top_upper: "0 \<le> offline_top rs \<and> (r \<in> set rs \<longrightarrow> offline_offset r \<le> offline_top rs)"
  by (induction rs) (auto simp: offline_top_def)

text \<open>The invariant of the placement after the buffers \<open>bs\<close>.\<close>

definition layout_ok :: "BufferRequirements list \<Rightarrow> nat list \<Rightarrow> layout \<Rightarrow> bool" where
  "layout_ok rs bs v \<longleftrightarrow> sorted (map fst v) \<and> mset (map snd v) = mset bs \<and> apart_layout rs v \<and>
     (\<forall>(off, b) \<in> set v. 0 \<le> off \<and> off + req_size (rs ! b) \<le> offline_top rs + (\<Sum>a\<leftarrow>bs. req_size (rs ! a)) \<and>
        (\<not> online (rs ! b) \<longrightarrow> off = offline_offset (rs ! b)))"

lemma layout_ok_set: "layout_ok rs bs v \<Longrightarrow> snd ` set v = set bs"
  by (metis layout_ok_def list.set_map set_mset_mset)

lemma chosen_offset_bounds:
  assumes "plannable rs" "layout_ok rs bs v" "b < length rs" "set bs \<subseteq> {0..<length rs}"
  shows "0 \<le> chosen_offset rs b v"
    and "chosen_offset rs b v \<le> offline_top rs + (\<Sum>a\<leftarrow>bs. req_size (rs ! a))"
proof -
  let ?m = "offline_top rs + (\<Sum>a\<leftarrow>bs. req_size (rs ! a))"
  have "0 \<le> req_size (rs ! a)" if "a \<in> set bs" for a
    using assms(1,4) that by (auto simp: plannable_def list_all_length)
  then have sum: "0 \<le> (\<Sum>a\<leftarrow>bs. req_size (rs ! a))" by (auto intro!: sum_list_nonneg)
  have srt: "sorted (map fst v)" using assms(2) by (simp add: layout_ok_def)
  have off: "-1 \<le> offline_offset (rs ! b)" "offline_offset (rs ! b) \<le> offline_top rs"
    using assms(1,3) offline_top_upper[of rs "rs ! b"] by (simp_all add: plannable_def list_all_length)
  have "off + sz \<le> ?m" if "(off, sz) \<in> set (in_use rs (rs ! b) v)" for off sz
    using that assms(2) by (auto simp: in_use_set layout_ok_def)
  moreover have "0 \<le> ?m" using sum offline_top_upper[of rs] by simp
  ultimately have "first_gap (req_size (rs ! b)) 0 (in_use rs (rs ! b) v) \<le> ?m" by (rule first_gap_bound)
  then show "chosen_offset rs b v \<le> ?m" using off sum by (simp add: chosen_offset_def)
  show "0 \<le> chosen_offset rs b v"
    using first_gap_clear[OF in_use_sorted[OF srt], of 0] off
    by (auto simp: chosen_offset_def kOnlinePlannedBuffer_def)
qed

lemma place_layout_ok:
  assumes "plannable rs" "layout_ok rs bs v" "b < length rs" "set bs \<subseteq> {0..<length rs}" "offline_first rs (bs @ [b])"
  shows "layout_ok rs (bs @ [b]) (place rs b v)"
proof -
  note bounds = chosen_offset_bounds[OF assms(1-4)]
  have v: "sorted (map fst v)" "mset (map snd v) = mset bs" "apart_layout rs v" using assms(2) by (simp_all add: layout_ok_def)
  have "\<forall>(off, a) \<in> set v. \<not> online (rs ! a)" if "\<not> online (rs ! b)"
  proof -
    have "\<not> online (rs ! a)" if "a \<in> set bs" for a
      using assms(5) that \<open>\<not> online (rs ! b)\<close> by (simp add: offline_first_def sorted_wrt_append)
    then show ?thesis using layout_ok_set[OF assms(2)] by force
  qed
  then have "apart_layout rs (place rs b v)" by (rule place_apart[OF v(1,3)])
  moreover have "0 \<le> req_size (rs ! b)" using assms(1,3) by (simp add: plannable_def list_all_length)
  moreover have "0 \<le> off \<and> off + req_size (rs ! a) \<le> offline_top rs + (\<Sum>c\<leftarrow>bs @ [b]. req_size (rs ! c)) \<and>
      (\<not> online (rs ! a) \<longrightarrow> off = offline_offset (rs ! a))" if "(off, a) \<in> set (place rs b v)" for off a
  proof (cases "(off, a) \<in> set v")
    case True
    then show ?thesis using assms(2) calculation(2) by (auto simp: layout_ok_def)
  next
    case False
    then have "off = chosen_offset rs b v" "a = b" using that by (auto simp: place_def)
    then show ?thesis using bounds by (simp add: chosen_offset_def)
  qed
  ultimately show ?thesis using v(2) insert_layout_sorted[OF v(1)] unfolding layout_ok_def
    by (auto simp: place_def)
qed

lemma fold_place_ok:
  assumes "plannable rs" "set (bs @ cs) \<subseteq> {0..<length rs}" "offline_first rs (bs @ cs)" "layout_ok rs bs v"
  shows "layout_ok rs (bs @ cs) (fold (place rs) cs v)"
  using assms
proof (induction cs arbitrary: bs v)
  case (Cons c cs)
  have "layout_ok rs (bs @ [c]) (place rs c v)"
  proof (rule place_layout_ok[OF Cons.prems(1,4)])
    show "c < length rs" "set bs \<subseteq> {0..<length rs}" using Cons.prems(2) by simp_all
    have "offline_first rs ((bs @ [c]) @ cs)" using Cons.prems(3) by simp
    then show "offline_first rs (bs @ [c])" unfolding offline_first_def sorted_wrt_append by (rule conjunct1)
  qed
  then have "layout_ok rs ((bs @ [c]) @ cs) (fold (place rs) cs (place rs c v))"
    using Cons.prems(1-3) by (intro Cons.IH) (simp_all only: append_assoc append_Cons append_Nil)
  then show ?case by simp
qed simp

lemma greedy_plan_ok:
  assumes "plannable rs"
  shows "layout_ok rs (placing_order rs) (greedy_plan rs)"
  using fold_place_ok[OF assms, of "[]" "placing_order rs" "[]"]
  by (simp add: greedy_plan_def placing_order_set placing_order_offline_first)
    (simp add: layout_ok_def apart_layout_def)

lemma sizes_of_order: "(\<Sum>a\<leftarrow>placing_order rs. req_size (rs ! a)) = sum_list (map req_size rs)"
proof -
  have "(\<Sum>a\<leftarrow>placing_order rs. req_size (rs ! a)) = (\<Sum>a\<leftarrow>[0..<length rs]. req_size (rs ! a))"
    unfolding sum_mset_sum_list[symmetric] mset_map placing_order_mset ..
  also have "map (\<lambda>a. req_size (rs ! a)) [0..<length rs] = map req_size (map ((!) rs) [0..<length rs])" by simp
  finally show ?thesis unfolding map_nth .
qed

lemma sizes_of_prefix:
  assumes "plannable rs"
  shows "offline_top rs + (\<Sum>a\<leftarrow>take i (placing_order rs). req_size (rs ! a)) < 2 ^ 31"
proof -
  let ?f = "\<lambda>a. req_size (rs ! a)"
  have "0 \<le> ?f a" if "a \<in> set (placing_order rs)" for a
    using assms that by (simp add: placing_order_set plannable_def list_all_length)
  then have "0 \<le> (\<Sum>a\<leftarrow>drop i (placing_order rs). ?f a)"
    by (intro sum_list_nonneg) (auto dest: in_set_dropD)
  moreover have "(\<Sum>a\<leftarrow>placing_order rs. ?f a) =
      (\<Sum>a\<leftarrow>take i (placing_order rs). ?f a) + (\<Sum>a\<leftarrow>drop i (placing_order rs). ?f a)"
    by (metis append_take_drop_id map_append sum_list_append)
  ultimately show ?thesis using assms sizes_of_order[of rs] by (simp add: plannable_def)
qed

lemma offline_first_take: "offline_first rs (take i (placing_order rs))"
  using placing_order_offline_first unfolding offline_first_def by (rule sorted_wrt_take)

lemma greedy_plan_step:
  assumes "i < length rs"
  shows "fold (place rs) (take (Suc i) (placing_order rs)) [] =
    place rs (placing_order rs ! i) (fold (place rs) (take i (placing_order rs)) [])"
  using assms by (simp add: take_Suc_conv_app_nth placing_order_length)

end
