(* ===== verification/Greedy_Refines.thy ===== *)
theory Greedy_Refines
  imports Greedy_Plan
begin

text \<open>
  The planner on its arrays computes the plan on lists: its linked entries are, read along the links, the
  layout of the buffers placed so far. From this follow that it returns, that no access
  leaves an array and no sum overflows, and the contract of the interface.
\<close>

section \<open>The linked list\<close>

primrec chain :: "ListEntry list \<Rightarrow> int \<Rightarrow> nat list \<Rightarrow> bool" where
  "chain es i [] \<longleftrightarrow> i = -1"
| "chain es i (j # js) \<longleftrightarrow> i = int j \<and> j < length es \<and> chain es (next_entry_index (es ! j)) js"

lemma chain_bound: "chain es i js \<Longrightarrow> set js \<subseteq> {0..<length es}"
  by (induction js arbitrary: i) auto

lemma chain_cong:
  "chain es i js \<Longrightarrow> length es' = length es \<Longrightarrow> (\<And>j. j \<in> set js \<Longrightarrow> next_entry_index (es' ! j) = next_entry_index (es ! j)) \<Longrightarrow>
   chain es' i js"
  by (induction js arbitrary: i) auto

lemma chain_update: "k \<notin> set js \<Longrightarrow> chain es i js \<Longrightarrow> chain (es[k := x]) i js"
  by (erule chain_cong) (auto dest: nth_list_update_neq, metis nth_list_update_neq)

lemma vec_at_ok [simp]: "j < length xs \<Longrightarrow> vec_at xs (int j) = Inr (xs ! j)"
  by simp

lemma vec_set_ok [simp]: "j < length xs \<Longrightarrow> vec_set xs (int j) x = Inr (xs[j := x])"
  by simp

abbreviation entry :: "GreedyMemoryPlanner \<Rightarrow> nat \<Rightarrow> ListEntry" where
  "entry p j \<equiv> buffers_sorted_by_offset p ! j"

abbreviation buffer_of :: "GreedyMemoryPlanner \<Rightarrow> nat \<Rightarrow> nat" where
  "buffer_of p j \<equiv> nat (requirements_index (entry p j))"

definition known :: "GreedyMemoryPlanner \<Rightarrow> nat list \<Rightarrow> bool" where
  "known p js \<longleftrightarrow> (\<forall>j \<in> set js. 0 \<le> requirements_index (entry p j) \<and> buffer_of p j < length (requirements p))"

definition active :: "GreedyMemoryPlanner \<Rightarrow> int \<Rightarrow> int \<Rightarrow> nat \<Rightarrow> bool" where
  "active p f l j \<longleftrightarrow> first_time_used (requirements p ! buffer_of p j) \<le> l \<and> f \<le> last_time_used (requirements p ! buffer_of p j)"

definition head_index :: "nat list \<Rightarrow> int option" where
  "head_index js = (case js of [] \<Rightarrow> None | j # _ \<Rightarrow> Some (int j))"

lemma known_vec_at:
  "known p (j # js) \<Longrightarrow> vec_at (requirements p) (requirements_index (entry p j)) = Inr (requirements p ! buffer_of p j)"
  by (auto simp: known_def)

lemma overlap_active:
  "known p (j # js) \<Longrightarrow> DoesEntryOverlapInTime p (entry p j) f l = Inr (active p f l j)"
  by (simp add: DoesEntryOverlapInTime_def known_vec_at active_def not_less)

lemma next_active_first:
  "chain (buffers_sorted_by_offset p) i js \<Longrightarrow> js \<noteq> [] \<Longrightarrow> length js \<le> n \<Longrightarrow> known p js \<Longrightarrow>
   next_active n p i f l = Inr (head_index (filter (active p f l) js))"
proof (induction js arbitrary: i n)
  case (Cons j js)
  obtain m where n: "n = Suc m" using Cons.prems(3) by (cases n) auto
  have kn: "known p js" using Cons.prems(4) by (simp add: known_def)
  show ?case
  proof (cases "js = []")
    case True
    then show ?thesis using Cons.prems n by (auto simp: overlap_active head_index_def)
  next
    case False
    then have "next_entry_index (entry p j) \<noteq> -1" using Cons.prems(1) by (cases js) auto
    then show ?thesis using Cons.IH[of "next_entry_index (entry p j)" m] Cons.prems n False kn
      by (auto simp: overlap_active head_index_def)
  qed
qed simp

text \<open>The entries that come after the prior one, or all of them.\<close>

definition rest_of :: "GreedyMemoryPlanner \<Rightarrow> int option \<Rightarrow> nat list \<Rightarrow> bool" where
  "rest_of p prior js \<longleftrightarrow> (case prior of
      None \<Rightarrow> js \<noteq> [] \<and> chain (buffers_sorted_by_offset p) (first_entry_index p) js
    | Some i \<Rightarrow> \<exists>j. i = int j \<and> j < length (buffers_sorted_by_offset p) \<and>
        chain (buffers_sorted_by_offset p) (next_entry_index (entry p j)) js)"

lemma next_simultaneous:
  assumes "rest_of p prior js" "known p js" "length js \<le> length (buffers_sorted_by_offset p)"
  shows "NextSimultaneouslyActiveBuffer p prior f l = Inr (head_index (filter (active p f l) js))"
proof (cases prior)
  case None
  then show ?thesis using assms next_active_first[of p "first_entry_index p" js]
    by (simp add: NextSimultaneouslyActiveBuffer_def rest_of_def)
next
  case (Some i)
  then obtain j where j: "i = int j" "j < length (buffers_sorted_by_offset p)"
      "chain (buffers_sorted_by_offset p) (next_entry_index (entry p j)) js"
    using assms(1) by (auto simp: rest_of_def)
  show ?thesis
  proof (cases js)
    case Nil
    then show ?thesis using Some j by (simp add: NextSimultaneouslyActiveBuffer_def head_index_def)
  next
    case (Cons k ks)
    then have "next_entry_index (entry p j) \<noteq> -1" using j(3) by auto
    then show ?thesis using Some j Cons assms(2,3) next_active_first[OF j(3)]
      by (simp add: NextSimultaneouslyActiveBuffer_def)
  qed
qed

lemma filter_ConsD: "filter P xs = y # ys \<Longrightarrow> \<exists>us vs. xs = us @ y # vs \<and> P y \<and> ys = filter P vs"
  by (metis filter_eq_ConsD)

lemma chain_suffix: "chain es i (us @ j # vs) \<Longrightarrow> j < length es \<and> chain es (next_entry_index (es ! j)) vs"
  by (induction us arbitrary: i) auto

lemma rest_of_suffix: "rest_of p prior (us @ j # vs) \<Longrightarrow> rest_of p (Some (int j)) vs"
  by (auto simp: rest_of_def split: option.splits dest: chain_suffix)

section \<open>The gap search\<close>

definition range_of :: "GreedyMemoryPlanner \<Rightarrow> nat \<Rightarrow> int \<times> int" where
  "range_of p j = (entry_offset (entry p j), req_size (requirements p ! buffer_of p j))"

definition bounded :: "GreedyMemoryPlanner \<Rightarrow> nat list \<Rightarrow> bool" where
  "bounded p js \<longleftrightarrow> (\<forall>j \<in> set js. case range_of p j of (off, sz) \<Rightarrow> 0 \<le> off \<and> 0 \<le> sz \<and> off + sz < 2 ^ 31)"

lemma after_prior_entry:
  assumes "known p (j # js)" "bounded p (j # js)" "j < length (buffers_sorted_by_offset p)"
  shows "after_prior p (Some (int j)) c = Inr (max c (fst (range_of p j) + snd (range_of p j)))"
  using assms by (simp add: after_prior_def known_vec_at checked_int_def fits_int_def bounded_def range_of_def max_def)

lemma find_gap_first_gap:
  assumes "rest_of p prior js" "known p js" "bounded p js" "length js < n" "length js \<le> length (buffers_sorted_by_offset p)"
    and "after_prior p prior c = Inr c'" "0 \<le> c'" "c' < 2 ^ 31"
  shows "find_gap n p w f l prior c = Inr (first_gap w c' (map (range_of p) (filter (active p f l) js)))"
  using assms
proof (induction n arbitrary: prior js c c')
  case (Suc n)
  note nxt = next_simultaneous[OF Suc.prems(1,2,5), of f l]
  show ?case
  proof (cases "filter (active p f l) js")
    case Nil
    then show ?thesis using nxt Suc.prems(6) by (simp add: head_index_def)
  next
    case (Cons j xs)
    then obtain us vs where js: "js = us @ j # vs" and xs: "xs = filter (active p f l) vs" using filter_ConsD by metis
    have r: "rest_of p (Some (int j)) vs" using rest_of_suffix Suc.prems(1) js by blast
    have jl: "j < length (buffers_sorted_by_offset p)" using r by (simp add: rest_of_def)
    have k: "known p (j # vs)" "bounded p (j # vs)" using Suc.prems(2,3) js by (auto simp: known_def bounded_def)
    obtain off sz where os: "range_of p j = (off, sz)" by force
    have b: "0 \<le> off" "0 \<le> sz" "off + sz < 2 ^ 31" "entry_offset (entry p j) = off"
      using k(2) os by (auto simp: bounded_def range_of_def)
    have "find_gap n p w f l (Some (int j)) c' =
        Inr (first_gap w (max c' (off + sz)) (map (range_of p) (filter (active p f l) vs)))"
      using Suc.prems js k b r after_prior_entry[OF k jl, of c'] os
      by (intro Suc.IH[OF r]) (auto simp: known_def bounded_def)
    moreover have "checked_int (off - c') = Inr (off - c')" using b Suc.prems(7,8) by (simp add: checked_int_def fits_int_def)
    ultimately show ?thesis using Cons xs nxt Suc.prems(6) jl os b(4) by (simp add: head_index_def)
  qed
qed simp

section \<open>Linking an entry\<close>

text \<open>Two arrays of entries that differ in the links only.\<close>

definition same_entries :: "ListEntry list \<Rightarrow> ListEntry list \<Rightarrow> bool" where
  "same_entries es es' \<longleftrightarrow> map entry_offset es' = map entry_offset es \<and> map requirements_index es' = map requirements_index es"

lemma same_entries_iff:
  "same_entries es es' \<longleftrightarrow> length es' = length es \<and>
     (\<forall>j < length es. entry_offset (es' ! j) = entry_offset (es ! j) \<and> requirements_index (es' ! j) = requirements_index (es ! j))"
proof -
  have "map g es' = map g es \<longleftrightarrow> length es' = length es \<and> (\<forall>j < length es. g (es' ! j) = g (es ! j))"
    for g :: "ListEntry \<Rightarrow> int"
    by (auto simp: list_eq_iff_nth_eq)
  then show ?thesis by (auto simp: same_entries_def)
qed

lemma same_entriesD:
  assumes "same_entries es es'"
  shows "length es' = length es" "j < length es \<Longrightarrow> entry_offset (es' ! j) = entry_offset (es ! j)"
    "j < length es \<Longrightarrow> requirements_index (es' ! j) = requirements_index (es ! j)"
  using assms by (simp_all add: same_entries_iff)

lemma same_entries_update: "same_entries es (es[j := (es ! j)\<lparr>next_entry_index := x\<rparr>])"
  by (cases "j < length es") (auto simp: same_entries_iff nth_list_update)

lemma same_entries_trans: "same_entries a b \<Longrightarrow> same_entries b c \<Longrightarrow> same_entries a c"
  by (simp add: same_entries_def)

text \<open>The new entry \<open>k\<close> is linked in after \<open>j\<close> and before what \<open>x\<close> leads to.\<close>

definition link_in :: "ListEntry list \<Rightarrow> nat \<Rightarrow> nat \<Rightarrow> int \<Rightarrow> ListEntry list" where
  "link_in es j k x = es[k := (es ! k)\<lparr>next_entry_index := x\<rparr>, j := (es ! j)\<lparr>next_entry_index := int k\<rparr>]"

lemma link_in_facts:
  assumes "j \<noteq> k" "j < length es" "k < length es"
  shows "same_entries es (link_in es j k x)" "length (link_in es j k x) = length es"
    "next_entry_index (link_in es j k x ! j) = int k" "next_entry_index (link_in es j k x ! k) = x"
    "i \<noteq> j \<Longrightarrow> i \<noteq> k \<Longrightarrow> link_in es j k x ! i = es ! i"
proof -
  let ?es = "es[k := (es ! k)\<lparr>next_entry_index := x\<rparr>]"
  have "link_in es j k x = ?es[j := (?es ! j)\<lparr>next_entry_index := int k\<rparr>]" using assms(1) by (simp add: link_in_def)
  then show "same_entries es (link_in es j k x)"
    using same_entries_trans[OF same_entries_update same_entries_update] by simp
qed (use assms in \<open>simp_all add: link_in_def\<close>)

lemma link_in_chain:
  assumes "j \<notin> set js" "k \<notin> set js" "j \<noteq> k" "j < length es" "k < length es" "chain es x js"
  shows "chain (link_in es j k x) (int j) (j # k # js)"
proof -
  have "chain (link_in es j k x) x js"
  proof (rule chain_cong[OF assms(6)])
    fix i assume "i \<in> set js"
    then have "i \<noteq> j" "i \<noteq> k" using assms(1,2) by auto
    then show "next_entry_index (link_in es j k x ! i) = next_entry_index (es ! i)"
      using link_in_facts(5)[OF assms(3-5)] by simp
  qed (rule link_in_facts(2)[OF assms(3-5)])
  then show ?thesis using link_in_facts[OF assms(3-5)] assms(4,5) by simp
qed

lemma link_after_last:
  assumes "next_entry_index (es ! j) = -1" "j \<noteq> k" "j < length es" "k < length es"
  shows "link_after (Suc n) es (int j) (int k) c = Inr (link_in es j k (-1))"
proof -
  have "es[j := (es ! j)\<lparr>next_entry_index := int k\<rparr>] ! k = es ! k" using assms(2) by simp
  then show ?thesis using assms by (simp add: link_in_def list_update_swap)
qed

lemma link_after_between:
  assumes "next_entry_index (es ! j) = int i" "i < length es" "entry_offset (es ! i) > c" "j < length es" "k < length es"
  shows "link_after (Suc n) es (int j) (int k) c = Inr (link_in es j k (int i))"
  using assms by (simp add: link_in_def)

lemma link_after_further:
  assumes "next_entry_index (es ! j) = int i" "i < length es" "entry_offset (es ! i) \<le> c" "j < length es"
  shows "link_after (Suc n) es (int j) (int k) c = link_after n es (int i) (int k) c"
  using assms by simp

lemma link_after_chain:
  assumes "chain es (int j) (j # js)" "distinct (j # js)" "k \<notin> set (j # js)" "k < length es" "length (j # js) \<le> n"
  shows "\<exists>es'. link_after n es (int j) (int k) c = Inr es' \<and> same_entries es es' \<and>
    chain es' (int j) (j # takeWhile (\<lambda>i. entry_offset (es ! i) \<le> c) js @ k # dropWhile (\<lambda>i. entry_offset (es ! i) \<le> c) js) \<and>
    (\<forall>i. i \<notin> set (k # j # js) \<longrightarrow> es' ! i = es ! i)"
  using assms
proof (induction js arbitrary: j n)
  case Nil
  obtain m where n: "n = Suc m" using Nil.prems(5) by (cases n) auto
  have j: "next_entry_index (es ! j) = -1" "j \<noteq> k" "j < length es" using Nil.prems(1,3) by auto
  show ?case unfolding n link_after_last[OF j Nil.prems(4)]
    using link_in_facts[OF j(2,3) Nil.prems(4)] link_in_chain[of j "[]" k es "-1"] j Nil.prems(4) by auto
next
  case (Cons i js)
  obtain m where n: "n = Suc m" using Cons.prems(5) by (cases n) auto
  have j: "next_entry_index (es ! j) = int i" "i < length es" "j < length es" "j \<noteq> k" using Cons.prems(1,3) by auto
  show ?case
  proof (cases "entry_offset (es ! i) > c")
    case True
    have "chain (link_in es j k (int i)) (int j) (j # k # i # js)"
      using Cons.prems j by (intro link_in_chain) auto
    then show ?thesis unfolding n link_after_between[OF j(1,2) True j(3) Cons.prems(4)]
      using link_in_facts[OF j(4,3) Cons.prems(4)] True by auto
  next
    case False
    then have le: "entry_offset (es ! i) \<le> c" by simp
    have "chain es (int i) (i # js)" "distinct (i # js)" "k \<notin> set (i # js)" "length (i # js) \<le> m"
      using Cons.prems n by auto
    then obtain es' where es': "link_after m es (int i) (int k) c = Inr es'" "same_entries es es'"
      "chain es' (int i) (i # takeWhile (\<lambda>i. entry_offset (es ! i) \<le> c) js @ k # dropWhile (\<lambda>i. entry_offset (es ! i) \<le> c) js)"
      "\<forall>x. x \<notin> set (k # i # js) \<longrightarrow> es' ! x = es ! x"
      using Cons.IH[of i m] Cons.prems(4) by blast
    have "es' ! j = es ! j" using es'(4) Cons.prems(2,3) by auto
    then show ?thesis unfolding n link_after_further[OF j(1,2) le j(3)] es'(1)
      using es'(2-4) le j same_entriesD(1)[OF es'(2)] by auto
  qed
qed

section \<open>One placement\<close>

definition view :: "ListEntry list \<Rightarrow> nat list \<Rightarrow> layout" where
  "view es js = map (\<lambda>j. (entry_offset (es ! j), nat (requirements_index (es ! j)))) js"

lemma view_cong: "same_entries es es' \<Longrightarrow> set js \<subseteq> {0..<length es} \<Longrightarrow> view es' js = view es js"
  by (auto simp: view_def same_entries_iff)

lemma view_insert:
  "view es (takeWhile (\<lambda>i. entry_offset (es ! i) \<le> off) js @ k # dropWhile (\<lambda>i. entry_offset (es ! i) \<le> off) js) =
   takeWhile (\<lambda>x. fst x \<le> off) (view es js) @ (entry_offset (es ! k), nat (requirements_index (es ! k))) #
   dropWhile (\<lambda>x. fst x \<le> off) (view es js)"
  by (simp add: view_def takeWhile_map dropWhile_map comp_def)

text \<open>The entries \<open>js\<close> are linked from the first, and are the ones in use.\<close>

definition linked :: "ListEntry list \<Rightarrow> int \<Rightarrow> int \<Rightarrow> int \<Rightarrow> nat list \<Rightarrow> bool" where
  "linked es cnt first free js \<longleftrightarrow> chain es first js \<and> distinct js \<and> set js = {0..<nat free} \<and> 0 < free \<and>
     free \<le> int (length es) \<and> (\<forall>j \<in> set js. 0 \<le> requirements_index (es ! j) \<and> requirements_index (es ! j) < cnt)"

lemma linked_fresh:
  assumes "linked es cnt first free js" "free < int (length es)" "b < nat cnt"
    and "es0 = es[nat free := (es ! nat free)\<lparr>entry_offset := off, requirements_index := int b\<rparr>]"
  shows "chain es0 first js" "view es0 js = view es js" "nat free \<notin> set js" "nat free < length es0"
    "\<forall>j \<in> set (nat free # js). 0 \<le> requirements_index (es0 ! j) \<and> requirements_index (es0 ! j) < cnt"
    "entry_offset (es0 ! nat free) = off" "requirements_index (es0 ! nat free) = int b"
proof -
  note l = assms(1)[unfolded linked_def]
  show nin: "nat free \<notin> set js" using l by simp
  show len: "nat free < length es0" using assms(2,4) l by auto
  have same: "es0 ! j = es ! j" if "j \<in> set js" for j using that nin assms(4) by (metis nth_list_update_neq)
  show "chain es0 first js" by (rule chain_cong[of es]) (use l same assms(4) in auto)
  show "view es0 js = view es js" using same by (simp add: view_def)
  show new: "entry_offset (es0 ! nat free) = off" "requirements_index (es0 ! nat free) = int b" using len assms(4) by simp_all
  show "\<forall>j \<in> set (nat free # js). 0 \<le> requirements_index (es0 ! j) \<and> requirements_index (es0 ! j) < cnt"
    using l same new(2) assms(3) by auto
qed

lemma insert_entry_links:
  assumes "linked (buffers_sorted_by_offset p) (buffer_count p) (first_entry_index p) (next_free_entry p) js"
    and "next_free_entry p < int (length (buffers_sorted_by_offset p))" "b < nat (buffer_count p)"
  shows "\<exists>es first js'. insert_entry off (int b) p = Inr (p\<lparr>next_free_entry := next_free_entry p + 1,
        buffers_sorted_by_offset := es, first_entry_index := first\<rparr>) \<and>
      linked es (buffer_count p) first (next_free_entry p + 1) js' \<and> length es = length (buffers_sorted_by_offset p) \<and>
      view es js' = insert_layout off b (view (buffers_sorted_by_offset p) js)"
proof -
  let ?es = "buffers_sorted_by_offset p" and ?k = "nat (next_free_entry p)"
  define es0 where "es0 = ?es[?k := (?es ! ?k)\<lparr>entry_offset := off, requirements_index := int b\<rparr>]"
  note f = linked_fresh[OF assms es0_def] and l = assms(1)[unfolded linked_def]
  obtain j js0 where js: "js = j # js0" using l by (cases js) auto
  have k: "next_free_entry p = int ?k" and first: "first_entry_index p = int j" and j: "j < length es0"
    using l f(1) js by auto
  have pos: "0 < next_free_entry p" using l by simp
  have len: "length es0 = length ?es" by (simp add: es0_def)
  have kset: "set js = {0..<?k}" "?k < length es0" using l f(4) by auto
  have new: "vec_at ?es (next_free_entry p) = Inr (?es ! ?k)"
      "vec_set ?es (next_free_entry p) ((?es ! ?k)\<lparr>entry_offset := off, requirements_index := int b\<rparr>) = Inr es0"
      "vec_at es0 (next_free_entry p) = Inr (es0 ! ?k)" "vec_at es0 (first_entry_index p) = Inr (es0 ! j)"
    using pos assms(2) len first j by (simp_all add: es0_def)
  show ?thesis
  proof (cases "entry_offset (es0 ! j) > off")
    case True
    let ?es1 = "es0[?k := (es0 ! ?k)\<lparr>next_entry_index := first_entry_index p\<rparr>]"
    have same: "same_entries es0 ?es1" by (rule same_entries_update)
    have ins: "insert_entry off (int b) p = Inr (p\<lparr>next_free_entry := next_free_entry p + 1,
        buffers_sorted_by_offset := ?es1, first_entry_index := next_free_entry p\<rparr>)"
      using new True pos assms(2) len by (simp add: insert_entry_def Let_def)
    have "chain ?es1 (first_entry_index p) js" by (rule chain_update[OF f(3,1)])
    then have c1: "chain ?es1 (next_free_entry p) (?k # js)" using k kset by simp
    have c2: "set (?k # js) = {0..<nat (next_free_entry p + 1)}" "distinct (?k # js)"
      using l f(3) k kset by auto
    have c3: "\<forall>i \<in> set (?k # js). 0 \<le> requirements_index (?es1 ! i) \<and> requirements_index (?es1 ! i) < buffer_count p"
      using f(5) same_entriesD(3)[OF same] kset by auto
    have "view ?es1 (?k # js) = insert_layout off b (view ?es js)"
    proof -
      have "view ?es1 (?k # js) = view es0 (?k # js)" using kset by (intro view_cong[OF same]) auto
      also have "\<dots> = (off, b) # view ?es js" using f(2,6,7) by (simp add: view_def)
      also have "\<dots> = insert_layout off b (view ?es js)"
      proof -
        have "takeWhile (\<lambda>x. fst x \<le> off) (view es0 js) = []" "dropWhile (\<lambda>x. fst x \<le> off) (view es0 js) = view es0 js"
          using True by (simp_all add: js view_def)
        then show ?thesis using f(2) by (simp add: insert_layout_def)
      qed
      finally show ?thesis .
    qed
    moreover have "linked ?es1 (buffer_count p) (next_free_entry p) (next_free_entry p + 1) (?k # js)"
      unfolding linked_def by (intro conjI c1 c2 c3) (use pos assms(2) len in auto)
    ultimately show ?thesis using ins len
      by (intro exI[of _ ?es1] exI[of _ "next_free_entry p"] exI[of _ "?k # js"]) (simp only: length_list_update)
  next
    case False
    then have le: "entry_offset (es0 ! j) \<le> off" by simp
    let ?js = "j # takeWhile (\<lambda>i. entry_offset (es0 ! i) \<le> off) js0 @ ?k # dropWhile (\<lambda>i. entry_offset (es0 ! i) \<le> off) js0"
    have "length js \<le> length es0" using l len by (metis card_atLeastLessThan diff_zero distinct_card kset less_imp_le)
    then obtain es1 where e: "link_after (length es0) es0 (int j) (int ?k) off = Inr es1" "same_entries es0 es1"
        "chain es1 (int j) ?js"
      using link_after_chain[of es0 j js0 ?k "length es0" off] f(1,3,4) l js first by auto
    have ins: "insert_entry off (int b) p = Inr (p\<lparr>next_free_entry := next_free_entry p + 1,
        buffers_sorted_by_offset := es1, first_entry_index := first_entry_index p\<rparr>)"
      using new le e(1) first pos by (simp add: insert_entry_def Let_def)
    have "mset (takeWhile P xs) + mset (dropWhile P xs) = mset xs" for P and xs :: "nat list"
      by (metis mset_append takeWhile_dropWhile_id)
    then have sets: "mset ?js = mset (?k # js)" unfolding js by simp
    then have c2: "set ?js = set (?k # js)" "distinct ?js" using l f(3) by (metis set_mset_mset, metis distinct.simps(2) mset_eq_imp_distinct_iff)
    have c3: "set (?k # js) = {0..<nat (next_free_entry p + 1)}" using l k kset by auto
    have c4: "\<forall>i \<in> set (?k # js). 0 \<le> requirements_index (es1 ! i) \<and> requirements_index (es1 ! i) < buffer_count p"
      using f(5) same_entriesD(3)[OF e(2)] kset by auto
    have sub: "set ?js \<subseteq> {0..<length es0}" unfolding c2(1) using kset by auto
    have "view es1 ?js = insert_layout off b (view ?es js)"
    proof -
      have "view es1 ?js = view es0 ?js" using sub by (rule view_cong[OF e(2)])
      also have "\<dots> = insert_layout off b (view es0 js)"
        using le view_insert[of es0 off js0 ?k] f(6,7) by (simp add: insert_layout_def js view_def)
      finally show ?thesis using f(2) by simp
    qed
    moreover have "linked es1 (buffer_count p) (first_entry_index p) (next_free_entry p + 1) ?js"
      unfolding linked_def c2(1) by (intro conjI c2(2) c3 c4) (use e(3) first pos assms(2) len same_entriesD(1)[OF e(2)] in \<open>auto simp only:\<close>)
    ultimately show ?thesis using ins len same_entriesD(1)[OF e(2)]
      by (intro exI[of _ es1] exI[of _ "first_entry_index p"] exI[of _ ?js]) (simp only: simp_thms)
  qed
qed

text \<open>The arrays have the size the constructor gave them, and hold the buffers added so far.\<close>

definition arrays_ok :: "GreedyMemoryPlanner \<Rightarrow> bool" where
  "arrays_ok p \<longleftrightarrow> 0 \<le> buffer_count p \<and> buffer_count p \<le> max_buffer_count p \<and>
     length (requirements p) = nat (max_buffer_count p) \<and> length (buffer_sizes_sorted p) = nat (max_buffer_count p) \<and>
     length (buffer_ids_sorted p) = nat (max_buffer_count p) \<and>
     length (buffers_sorted_by_offset p) = nat (max_buffer_count p) \<and> length (buffer_offsets p) = nat (max_buffer_count p)"

definition reqs :: "GreedyMemoryPlanner \<Rightarrow> BufferRequirements list" where
  "reqs p = take (nat (buffer_count p)) (requirements p)"

lemma reqs_facts:
  assumes "arrays_ok p"
  shows "length (reqs p) = nat (buffer_count p)" "b < nat (buffer_count p) \<Longrightarrow> reqs p ! b = requirements p ! b"
    "nat (buffer_count p) \<le> length (requirements p)"
  using assms by (auto simp: reqs_def arrays_ok_def)

lemma arrays_len:
  assumes "arrays_ok p" "b < nat (buffer_count p)"
  shows "b < length (requirements p)" "b < length (buffer_ids_sorted p)" "b < length (buffer_sizes_sorted p)"
    "b < length (buffers_sorted_by_offset p)" "b < length (buffer_offsets p)"
  using assms by (auto simp: arrays_ok_def)

text \<open>After \<open>i\<close> placements, \<open>js\<close> are the linked entries.\<close>

definition plan_inv :: "GreedyMemoryPlanner \<Rightarrow> nat \<Rightarrow> nat list \<Rightarrow> bool" where
  "plan_inv p i js \<longleftrightarrow> arrays_ok p \<and> i \<le> nat (buffer_count p) \<and>
     take (nat (buffer_count p)) (buffer_ids_sorted p) = map int (placing_order (reqs p)) \<and>
     linked (buffers_sorted_by_offset p) (buffer_count p) (first_entry_index p) (next_free_entry p) js \<and>
     next_free_entry p = int i \<and>
     view (buffers_sorted_by_offset p) js = fold (place (reqs p)) (take i (placing_order (reqs p))) [] \<and>
     (\<forall>(off, b) \<in> set (view (buffers_sorted_by_offset p) js). buffer_offsets p ! b = off)"

lemma linked_known:
  assumes "arrays_ok p" "linked (buffers_sorted_by_offset p) (buffer_count p) (first_entry_index p) (next_free_entry p) js"
  shows "known p js" "\<forall>j \<in> set js. buffer_of p j < nat (buffer_count p)" "rest_of p None js"
    "length js \<le> length (buffers_sorted_by_offset p)"
proof -
  note l = assms(2)[unfolded linked_def]
  show b: "\<forall>j \<in> set js. buffer_of p j < nat (buffer_count p)" using l by auto
  then have "\<forall>j \<in> set js. buffer_of p j < length (requirements p)" using reqs_facts(3)[OF assms(1)] by (meson less_le_trans)
  then show "known p js" using l by (simp add: known_def)
  have "js \<noteq> []" using l by auto
  then show "rest_of p None js" using l by (simp add: rest_of_def)
  show "length js \<le> length (buffers_sorted_by_offset p)" using l distinct_card[of js] by auto
qed

lemma in_use_ranges:
  assumes "arrays_ok p" "\<forall>j \<in> set js. buffer_of p j < nat (buffer_count p)"
  shows "in_use (reqs p) r (view (buffers_sorted_by_offset p) js) =
    map (range_of p) (filter (active p (first_time_used r) (last_time_used r)) js)"
  using assms(2)
proof (induction js)
  case (Cons j js)
  have "reqs p ! buffer_of p j = requirements p ! buffer_of p j" using Cons.prems reqs_facts(2)[OF assms(1)] by simp
  then show ?case using Cons by (auto simp: in_use_def view_def range_of_def active_def same_time_def)
qed (simp add: in_use_def view_def)

lemma layout_bounded:
  assumes "arrays_ok p" "plannable (reqs p)" "\<forall>j \<in> set js. buffer_of p j < nat (buffer_count p)"
    and "layout_ok (reqs p) (take i (placing_order (reqs p))) (view (buffers_sorted_by_offset p) js)"
  shows "bounded p js"
  unfolding bounded_def
proof
  fix j assume j: "j \<in> set js"
  then have b: "buffer_of p j < nat (buffer_count p)" using assms(3) by blast
  have "(entry_offset (entry p j), buffer_of p j) \<in> set (view (buffers_sorted_by_offset p) js)"
    using j by (auto simp: view_def)
  then have "0 \<le> entry_offset (entry p j)" "entry_offset (entry p j) + req_size (reqs p ! buffer_of p j) \<le>
      offline_top (reqs p) + (\<Sum>a\<leftarrow>take i (placing_order (reqs p)). req_size (reqs p ! a))"
    using assms(4) by (auto simp: layout_ok_def)
  moreover have "0 \<le> req_size (reqs p ! buffer_of p j)"
    using assms(1,2) b reqs_facts(1) by (simp add: plannable_def list_all_length)
  ultimately show "case range_of p j of (off, sz) \<Rightarrow> 0 \<le> off \<and> 0 \<le> sz \<and> off + sz < 2 ^ 31"
    using sizes_of_prefix[OF assms(2), of i] reqs_facts(2)[OF assms(1) b] by (simp add: range_of_def)
qed

lemma plan_inv_layout:
  assumes "plannable (reqs p)" "plan_inv p i js"
  shows "layout_ok (reqs p) (take i (placing_order (reqs p))) (view (buffers_sorted_by_offset p) js)"
proof -
  have "layout_ok (reqs p) ([] @ take i (placing_order (reqs p))) (fold (place (reqs p)) (take i (placing_order (reqs p))) [])"
  proof (rule fold_place_ok[OF assms(1)])
    show "set ([] @ take i (placing_order (reqs p))) \<subseteq> {0..<length (reqs p)}"
      using set_take_subset[of i "placing_order (reqs p)"] by (simp add: placing_order_set)
  qed (simp_all add: offline_first_take layout_ok_def apart_layout_def)
  then show ?thesis using assms(2) by (simp add: plan_inv_def)
qed

lemma find_gap_chosen:
  assumes "plannable (reqs p)" "plan_inv p i js" "b < nat (buffer_count p)" "online (requirements p ! b)"
  shows "find_gap (Suc (length (buffers_sorted_by_offset p))) p (req_size (requirements p ! b))
      (first_time_used (requirements p ! b)) (last_time_used (requirements p ! b)) None 0 =
    Inr (chosen_offset (reqs p) b (view (buffers_sorted_by_offset p) js))"
proof -
  have a: "arrays_ok p" and l: "linked (buffers_sorted_by_offset p) (buffer_count p) (first_entry_index p) (next_free_entry p) js"
    using assms(2) unfolding plan_inv_def by blast+
  note k = linked_known[OF a l]
  have "bounded p js" by (rule layout_bounded[OF a assms(1) k(2) plan_inv_layout[OF assms(1,2)]])
  then show ?thesis
    using find_gap_first_gap[OF k(3,1), of "Suc (length (buffers_sorted_by_offset p))" 0 0] k(4) assms(4)
      in_use_ranges[OF a k(2), of "requirements p ! b"] reqs_facts(2)[OF a assms(3)]
    by (simp add: after_prior_def chosen_offset_def)
qed

text \<open>What the placement leaves as it is.\<close>

definition same_buffers :: "GreedyMemoryPlanner \<Rightarrow> GreedyMemoryPlanner \<Rightarrow> bool" where
  "same_buffers p p' \<longleftrightarrow> requirements p' = requirements p \<and> buffer_count p' = buffer_count p \<and>
     max_buffer_count p' = max_buffer_count p \<and> need_to_calculate_offsets p' = need_to_calculate_offsets p"

lemma same_buffers_trans: "same_buffers p q \<Longrightarrow> same_buffers q r \<Longrightarrow> same_buffers p r"
  by (simp add: same_buffers_def)

lemma same_buffers_reqs: "same_buffers p q \<Longrightarrow> reqs q = reqs p"
  by (simp add: same_buffers_def reqs_def)

lemma order_nth:
  assumes "plan_inv p i js" "i < nat (buffer_count p)"
  shows "vec_at (buffer_ids_sorted p) (int i) = Inr (int (placing_order (reqs p) ! i))"
    "placing_order (reqs p) ! i < nat (buffer_count p)"
proof -
  have a: "arrays_ok p" and t: "take (nat (buffer_count p)) (buffer_ids_sorted p) = map int (placing_order (reqs p))"
    using assms(1) unfolding plan_inv_def by blast+
  have n: "i < length (placing_order (reqs p))" using assms(2) reqs_facts(1)[OF a] by (simp add: placing_order_length)
  then show "placing_order (reqs p) ! i < nat (buffer_count p)"
    using placing_order_set[of "reqs p"] reqs_facts(1)[OF a] by (metis atLeastLessThan_iff nth_mem)
  have "buffer_ids_sorted p ! i = take (nat (buffer_count p)) (buffer_ids_sorted p) ! i" using assms(2) by simp
  then have "buffer_ids_sorted p ! i = int (placing_order (reqs p) ! i)" using t n by simp
  moreover have "i < length (buffer_ids_sorted p)" by (rule arrays_len(2)[OF a assms(2)])
  ultimately show "vec_at (buffer_ids_sorted p) (int i) = Inr (int (placing_order (reqs p) ! i))" by simp
qed

lemma order_fresh:
  assumes "i < length rs" "(off, b) \<in> set (fold (place rs) (take i (placing_order rs)) [])" "plannable rs"
  shows "b \<noteq> placing_order rs ! i"
proof -
  have "layout_ok rs ([] @ take i (placing_order rs)) (fold (place rs) (take i (placing_order rs)) [])"
    using set_take_subset[of i "placing_order rs"] assms(3)
    by (intro fold_place_ok) (simp_all add: placing_order_set offline_first_take layout_ok_def apart_layout_def)
  then have "snd ` set (fold (place rs) (take i (placing_order rs)) []) = set ([] @ take i (placing_order rs))"
    by (rule layout_ok_set)
  then have "b \<in> set (take i (placing_order rs))" using assms(2) by force
  moreover have "placing_order rs ! i \<notin> set (take i (placing_order rs))"
    using assms(1) placing_order_distinct[of rs]
    by (simp add: in_set_conv_nth placing_order_length nth_eq_iff_index_eq)
  ultimately show ?thesis by blast
qed

lemma place_buffer_chosen:
  assumes "plannable (reqs p)" "plan_inv p i js" "i < nat (buffer_count p)" "b = placing_order (reqs p) ! i"
    and "off = chosen_offset (reqs p) b (view (buffers_sorted_by_offset p) js)"
  shows "place_buffer i p = insert_entry off (int b) (p\<lparr>buffer_offsets := (buffer_offsets p)[b := off]\<rparr>)"
proof -
  have a: "arrays_ok p" using assms(2) unfolding plan_inv_def by blast
  note o = order_nth[OF assms(2,3), folded assms(4)]
  have r: "vec_at (requirements p) (int b) = Inr (requirements p ! b)" using o(2) reqs_facts(3)[OF a] by simp
  have s: "vec_set (buffer_offsets p) (int b) x = Inr ((buffer_offsets p)[b := x])" for x
    by (rule vec_set_ok[OF arrays_len(5)[OF a o(2)]])
  have "(if online (requirements p ! b)
      then find_gap (Suc (length (buffers_sorted_by_offset p))) p (req_size (requirements p ! b))
        (first_time_used (requirements p ! b)) (last_time_used (requirements p ! b)) None 0
      else Inr (offline_offset (requirements p ! b))) = Inr off"
    using find_gap_chosen[OF assms(1,2) o(2)] reqs_facts(2)[OF a o(2)] assms(5) by (simp add: chosen_offset_def)
  then show ?thesis using o(1) r s by (simp add: place_buffer_def del: vec_set_Inr)
qed

lemma place_buffer_step:
  assumes "plannable (reqs p)" "plan_inv p i js" "i < nat (buffer_count p)"
  shows "\<exists>p' js'. place_buffer i p = Inr p' \<and> plan_inv p' (Suc i) js' \<and> same_buffers p p'"
proof -
  let ?b = "placing_order (reqs p) ! i" and ?v = "view (buffers_sorted_by_offset p) js"
  let ?off = "chosen_offset (reqs p) ?b ?v"
  let ?q = "p\<lparr>buffer_offsets := (buffer_offsets p)[?b := ?off]\<rparr>"
  have inv: "arrays_ok p" "take (nat (buffer_count p)) (buffer_ids_sorted p) = map int (placing_order (reqs p))"
      "linked (buffers_sorted_by_offset p) (buffer_count p) (first_entry_index p) (next_free_entry p) js"
      "next_free_entry p = int i" "?v = fold (place (reqs p)) (take i (placing_order (reqs p))) []"
      "\<forall>(off, b) \<in> set ?v. buffer_offsets p ! b = off"
    using assms(2) unfolding plan_inv_def by blast+
  have room: "next_free_entry ?q < int (length (buffers_sorted_by_offset ?q))"
    using inv(1,4) assms(3) by (auto simp: arrays_ok_def)
  obtain es first js' where ins: "insert_entry ?off (int ?b) ?q = Inr (?q\<lparr>next_free_entry := next_free_entry ?q + 1,
        buffers_sorted_by_offset := es, first_entry_index := first\<rparr>)"
      and l: "linked es (buffer_count p) first (next_free_entry p + 1) js'"
      and len: "length es = length (buffers_sorted_by_offset p)" and v: "view es js' = insert_layout ?off ?b ?v"
    using insert_entry_links[of ?q js ?b ?off] inv(3) room order_nth(2)[OF assms(2,3)] by auto
  let ?p = "?q\<lparr>next_free_entry := next_free_entry ?q + 1, buffers_sorted_by_offset := es, first_entry_index := first\<rparr>"
  have same: "same_buffers p ?p" by (simp add: same_buffers_def)
  have "length (reqs p) = nat (buffer_count p)" by (rule reqs_facts(1)[OF inv(1)])
  then have plan: "view es js' = fold (place (reqs p)) (take (Suc i) (placing_order (reqs p))) []"
    using greedy_plan_step[of i "reqs p"] assms(3) v inv(5) by (simp add: place_def)
  have "buffer_offsets ?p ! b = off" if "(off, b) \<in> set (view es js')" for off b
  proof (cases "b = ?b")
    case True
    have "(off, b) \<notin> set ?v" using order_fresh[of i "reqs p" off b] True assms(1,3) inv(1,5) reqs_facts(1) by auto
    then have "off = ?off" using that v by auto
    then show ?thesis using True arrays_len(5)[OF inv(1) order_nth(2)[OF assms(2,3)]] by simp
  next
    case False
    then show ?thesis using that v inv(6) by auto
  qed
  then have "plan_inv ?p (Suc i) js'"
    using inv(1,2,4) l len plan assms(3) same_buffers_reqs[OF same]
    unfolding plan_inv_def by (auto simp: arrays_ok_def add.commute)
  then show ?thesis using place_buffer_chosen[OF assms refl refl] ins same by auto
qed

lemma place_buffers:
  assumes "plannable (reqs p)" "plan_inv p i js" "i + k = nat (buffer_count p)"
  shows "\<exists>p' js'. for_loop place_buffer i k p = Inr p' \<and> plan_inv p' (i + k) js' \<and> same_buffers p p'"
  using assms
proof (induction k arbitrary: i p js)
  case 0
  then show ?case by (intro exI[of _ p] exI[of _ js]) (simp add: same_buffers_def)
next
  case (Suc k)
  have "i < nat (buffer_count p)" using Suc.prems(3) by linarith
  from place_buffer_step[OF Suc.prems(1,2) this]
  obtain q js1 where q: "place_buffer i p = Inr q" "plan_inv q (Suc i) js1" "same_buffers p q" by blast
  have "plannable (reqs q)" using Suc.prems(1) same_buffers_reqs[OF q(3)] by simp
  moreover have "Suc i + k = nat (buffer_count q)" using Suc.prems(3) q(3) by (simp add: same_buffers_def)
  ultimately obtain p' js' where "for_loop place_buffer (Suc i) k q = Inr p'" "plan_inv p' (Suc i + k) js'" "same_buffers q p'"
    using Suc.IH[OF _ q(2)] by blast
  then show ?case using q(1) same_buffers_trans[OF q(3)]
    by (intro exI[of _ p'] exI[of _ js']) simp
qed

section \<open>Splitting and sorting\<close>

text \<open>
  An array of \<open>c\<close> cells filled from both ends by the first \<open>i\<close> buffers: those with \<open>P\<close> from the tail,
  the others from the head.
\<close>

definition filled :: "nat \<Rightarrow> (nat \<Rightarrow> bool) \<Rightarrow> nat \<Rightarrow> (nat \<Rightarrow> 'a) \<Rightarrow> 'a list \<Rightarrow> bool" where
  "filled c P i g xs \<longleftrightarrow>
     take (length (filter (\<lambda>j. \<not> P j) [0..<i])) xs = map g (filter (\<lambda>j. \<not> P j) [0..<i]) \<and>
     take (length (filter P [0..<i])) (drop (c - length (filter P [0..<i])) xs) = map g (rev (filter P [0..<i]))"

abbreviation heads :: "(nat \<Rightarrow> bool) \<Rightarrow> nat \<Rightarrow> nat" where
  "heads P i \<equiv> length (filter (\<lambda>j. \<not> P j) [0..<i])"

abbreviation tails :: "(nat \<Rightarrow> bool) \<Rightarrow> nat \<Rightarrow> nat" where
  "tails P i \<equiv> length (filter P [0..<i])"

lemma heads_tails: "heads P i + tails P i = i"
  using sum_length_filter_compl[of P "[0..<i]"] by simp

lemma filled_tail:
  assumes "filled c P i g xs" "i < c" "c \<le> length xs" "P i"
  shows "filled c P (Suc i) g (xs[c - tails P i - 1 := g i])"
proof -
  let ?m = "c - tails P i - 1"
  have ht: "heads P i \<le> ?m" "?m < length xs" "Suc ?m = c - tails P i" using heads_tails[of P i] assms(2,3) by linarith+
  have "drop ?m (xs[?m := g i]) = g i # drop (c - tails P i) xs"
    using ht Cons_nth_drop_Suc[of ?m "xs[?m := g i]"] by simp
  then show ?thesis using assms(1,4) ht(1) by (simp add: filled_def)
qed

lemma filled_head:
  assumes "filled c P i g xs" "i < c" "c \<le> length xs" "\<not> P i"
  shows "filled c P (Suc i) g (xs[heads P i := g i])"
proof -
  have ht: "heads P i < c - tails P i" "heads P i < length xs" using heads_tails[of P i] assms(2,3) by linarith+
  have "take (Suc (heads P i)) (xs[heads P i := g i]) = take (heads P i) xs @ [g i]"
    using ht(2) by (simp add: take_Suc_conv_app_nth)
  moreover have "drop (c - tails P i) (xs[heads P i := g i]) = drop (c - tails P i) xs" using ht(1) by simp
  ultimately show ?thesis using assms(1,4) by (simp add: filled_def)
qed

lemma filled_done:
  assumes "filled c P c g xs" "c \<le> length xs"
  shows "take (heads P c) xs = map g (filter (\<lambda>j. \<not> P j) [0..<c])"
    "take (tails P c) (drop (heads P c) xs) = map g (rev (filter P [0..<c]))"
proof -
  have "c - tails P c = heads P c" using heads_tails[of P c] by linarith
  then show "take (heads P c) xs = map g (filter (\<lambda>j. \<not> P j) [0..<c])"
    "take (tails P c) (drop (heads P c) xs) = map g (rev (filter P [0..<c]))"
    using assms(1) by (simp_all only: filled_def)
qed

text \<open>The state of the split loop after \<open>i\<close> buffers.\<close>

definition split_inv :: "GreedyMemoryPlanner \<Rightarrow> nat \<Rightarrow> int \<times> int \<times> GreedyMemoryPlanner \<Rightarrow> bool" where
  "split_inv p i = (\<lambda>(t, h, q).
     let c = nat (buffer_count p); P = (\<lambda>j. online (requirements p ! j)) in
     same_buffers p q \<and> arrays_ok q \<and> h = int (heads P i) \<and> t = int c - int (tails P i) \<and>
     filled c P i (\<lambda>j. req_size (requirements p ! j)) (buffer_sizes_sorted q) \<and> filled c P i int (buffer_ids_sorted q) \<and>
     (\<forall>j < i. buffer_offsets q ! j = (if P j then -1 else offline_offset (requirements p ! j))))"

lemma split_buffer_step:
  assumes "split_inv p i s" "i < nat (buffer_count p)"
  shows "\<exists>s'. split_buffer i s = Inr s' \<and> split_inv p (Suc i) s'"
proof -
  obtain t h q where s: "s = (t, h, q)" by (metis prod_cases3)
  let ?c = "nat (buffer_count p)" and ?P = "\<lambda>j. online (requirements p ! j)" and ?g = "\<lambda>j. req_size (requirements p ! j)"
  have inv: "same_buffers p q" "arrays_ok q" "h = int (heads ?P i)" "t = int ?c - int (tails ?P i)"
      "filled ?c ?P i ?g (buffer_sizes_sorted q)" "filled ?c ?P i int (buffer_ids_sorted q)"
      "\<forall>j < i. buffer_offsets q ! j = (if ?P j then -1 else offline_offset (requirements p ! j))"
    using assms(1) unfolding split_inv_def s by (simp_all add: Let_def)
  have q: "requirements q = requirements p" "buffer_count q = buffer_count p" using inv(1) by (simp_all add: same_buffers_def)
  have ic: "i < nat (buffer_count q)" using assms(2) q(2) by simp
  note len = arrays_len[OF inv(2) ic]
  have cl: "?c \<le> length (buffer_sizes_sorted q)" "?c \<le> length (buffer_ids_sorted q)"
    using inv(2) q(2) by (auto simp: arrays_ok_def)
  have r: "vec_at (requirements q) (int i) = Inr (requirements p ! i)" using len(1) q(1) by simp
  have o: "(buffer_offsets q)[i := x] ! j = (if j = i then x else buffer_offsets q ! j)" for x j
    using len(5) by simp
  show ?thesis
  proof (cases "?P i")
    case True
    let ?m = "?c - tails ?P i - 1"
    have m: "t - 1 = int ?m" "?m < ?c" using inv(4) heads_tails[of ?P i] assms(2) by linarith+
    let ?q = "q\<lparr>buffer_sizes_sorted := (buffer_sizes_sorted q)[?m := ?g i],
        buffer_ids_sorted := (buffer_ids_sorted q)[?m := int i], buffer_offsets := (buffer_offsets q)[i := -1]\<rparr>"
    have ml: "?m < length (buffer_sizes_sorted q)" "?m < length (buffer_ids_sorted q)" using m(2) cl by linarith+
    have "split_buffer i s = Inr (t - 1, h, ?q)"
      unfolding split_buffer_def s using r True len(5) ml by (simp add: m(1) Let_def del: vec_set_Inr)
    moreover have "split_inv p (Suc i) (t - 1, h, ?q)"
      unfolding split_inv_def using inv True filled_tail[OF inv(5) assms(2) cl(1) True] filled_tail[OF inv(6) assms(2) cl(2) True]
      by (simp add: Let_def same_buffers_def arrays_ok_def o less_Suc_eq)
    ultimately show ?thesis by blast
  next
    case False
    let ?m = "heads ?P i"
    have m: "h = int ?m" "?m < ?c" using inv(3) heads_tails[of ?P i] assms(2) by linarith+
    let ?q = "q\<lparr>buffer_sizes_sorted := (buffer_sizes_sorted q)[?m := ?g i],
        buffer_ids_sorted := (buffer_ids_sorted q)[?m := int i],
        buffer_offsets := (buffer_offsets q)[i := offline_offset (requirements p ! i)]\<rparr>"
    have ml: "?m < length (buffer_sizes_sorted q)" "?m < length (buffer_ids_sorted q)" using m(2) cl by linarith+
    have "split_buffer i s = Inr (t, h + 1, ?q)"
      unfolding split_buffer_def s using r False len(5) ml by (simp add: m(1) Let_def del: vec_set_Inr)
    moreover have "split_inv p (Suc i) (t, h + 1, ?q)"
      unfolding split_inv_def using inv False filled_head[OF inv(5) assms(2) cl(1) False] filled_head[OF inv(6) assms(2) cl(2) False]
      by (simp add: Let_def same_buffers_def arrays_ok_def o less_Suc_eq)
    ultimately show ?thesis by blast
  qed
qed

lemma split_loop:
  assumes "split_inv p i s" "i + k = nat (buffer_count p)"
  shows "\<exists>s'. for_loop split_buffer i k s = Inr s' \<and> split_inv p (i + k) s'"
  using assms
proof (induction k arbitrary: i s)
  case (Suc k)
  then obtain s1 where "split_buffer i s = Inr s1" "split_inv p (Suc i) s1" using split_buffer_step[of p i s] by auto
  then show ?case using Suc.IH[of "Suc i" s1] Suc.prems(2) by auto
qed simp

end
