(* ===== verification/Greedy_Planner_Props.thy ===== *)
theory Greedy_Planner_Props
  imports Greedy_Refines
begin

text \<open>
  What the client of the greedy planner gets: every operation returns, the offsets are the plan, buffers in
  use at the same time are disjoint, and the planner meets the interface of \<open>Memory_Planner\<close>.
\<close>

section \<open>Sorting the online buffers\<close>

lemma insort_key_map: "insort_key k (f x) (map f xs) = map f (insort_key (\<lambda>y. k (f y)) x xs)"
  by (induction xs) auto

lemma sort_key_map: "sort_key k (map f xs) = map f (sort_key (\<lambda>y. k (f y)) xs)"
  by (induction xs) (simp_all add: insort_key_map)

lemma insort_key_agree: "(\<And>y. y \<in> set (x # xs) \<Longrightarrow> f y = g y) \<Longrightarrow> insort_key f x xs = insort_key g x xs"
  by (induction xs) auto

lemma sort_key_agree: "(\<And>y. y \<in> set xs \<Longrightarrow> f y = g y) \<Longrightarrow> sort_key f xs = sort_key g xs"
proof (induction xs)
  case (Cons x xs)
  then show ?case using insort_key_agree[of x "sort_key g xs" f g] by simp
qed simp

lemma sort_pairs:
  assumes "ReverseSortInPlace (map g xs) (map int xs) = (vs, ds)"
  shows "ds = map int (sort_key (\<lambda>i. - g i) xs)" "length vs = length xs"
proof -
  have "zip vs ds = sort_key (\<lambda>x. - fst x) (map (\<lambda>i. (g i, int i)) xs)"
    using ReverseSortInPlace_sort_key[OF assms] by (simp add: zip_map_map zip_same_conv_map comp_def)
  then have "map snd (zip vs ds) = map int (sort_key (\<lambda>i. - g i) xs)" by (simp add: sort_key_map comp_def)
  moreover have l: "length vs = length xs" "length ds = length xs" using ReverseSortInPlace_props[OF assms] by simp_all
  ultimately show "ds = map int (sort_key (\<lambda>i. - g i) xs)" by simp
  show "length vs = length xs" by (rule l(1))
qed

lemma sort_online_order:
  assumes "split_inv p (nat (buffer_count p)) (t, h, q)" "arrays_ok p" "q' = sort_online h q"
  shows "same_buffers p q'" "arrays_ok q'" "buffer_offsets q' = buffer_offsets q"
    "take (nat (buffer_count p)) (buffer_ids_sorted q') = map int (placing_order (reqs p))"
proof -
  let ?c = "nat (buffer_count p)" and ?P = "\<lambda>j. online (requirements p ! j)" and ?g = "\<lambda>j. req_size (requirements p ! j)"
  let ?a = "filter (\<lambda>j. \<not> ?P j) [0..<?c]" and ?b = "rev (filter ?P [0..<?c])"
  have inv: "same_buffers p q" "arrays_ok q" "h = int (heads ?P ?c)" "filled ?c ?P ?c ?g (buffer_sizes_sorted q)"
      "filled ?c ?P ?c int (buffer_ids_sorted q)"
    using assms(1) unfolding split_inv_def by (simp_all add: Let_def)
  have q: "buffer_count q = buffer_count p" using inv(1) by (simp add: same_buffers_def)
  have cl: "?c \<le> length (buffer_sizes_sorted q)" "?c \<le> length (buffer_ids_sorted q)"
    using inv(2) q by (auto simp: arrays_ok_def)
  note s = filled_done[OF inv(4) cl(1)] and i = filled_done[OF inv(5) cl(2)]
  have hn: "nat h = heads ?P ?c" "nat (buffer_count q - h) = tails ?P ?c" "nat h + nat (buffer_count q - h) = ?c"
    using inv(3) q heads_tails[of ?P ?c] by linarith+
  obtain vs ds where vd: "ReverseSortInPlace (map ?g ?b) (map int ?b) = (vs, ds)" by force
  note so = sort_pairs[OF vd]
  have q': "q' = q\<lparr>buffer_sizes_sorted := map ?g ?a @ vs @ drop ?c (buffer_sizes_sorted q),
      buffer_ids_sorted := map int ?a @ ds @ drop ?c (buffer_ids_sorted q)\<rparr>"
    unfolding assms(3) sort_online_def Let_def hn s i vd prod.case hn(3)[unfolded hn] ..
  have len: "length ds = tails ?P ?c" "length vs = tails ?P ?c" using so by simp_all
  show "same_buffers p q'" using inv(1) by (simp add: q' same_buffers_def)
  show "buffer_offsets q' = buffer_offsets q" by (simp add: q')
  show "arrays_ok q'" using inv(2) len cl heads_tails[of ?P ?c] by (simp add: q' arrays_ok_def) linarith
  have r: "reqs p ! j = requirements p ! j" if "j < ?c" for j using that reqs_facts(2)[OF assms(2)] by simp
  have "filter (\<lambda>j. \<not> online (reqs p ! j)) [0..<?c] = ?a" "filter (\<lambda>j. online (reqs p ! j)) [0..<?c] = filter ?P [0..<?c]"
    using r by (auto intro!: filter_cong)
  moreover have "sort_key (\<lambda>i. - req_size (reqs p ! i)) ?b = sort_key (\<lambda>i. - ?g i) ?b"
    using r by (intro sort_key_agree) auto
  ultimately have "placing_order (reqs p) = ?a @ sort_key (\<lambda>i. - ?g i) ?b"
    using reqs_facts(1)[OF assms(2)] by (simp add: placing_order_def)
  then show "take ?c (buffer_ids_sorted q') = map int (placing_order (reqs p))"
    using so(1) heads_tails[of ?P ?c] by (simp add: q')
qed

section \<open>The whole plan\<close>

lemma first_buffer_plan:
  assumes "arrays_ok q" "0 < buffer_count q"
    and "take (nat (buffer_count q)) (buffer_ids_sorted q) = map int (placing_order (reqs q))"
    and "\<And>j. j < nat (buffer_count q) \<Longrightarrow> \<not> online (requirements q ! j) \<Longrightarrow> buffer_offsets q ! j = offline_offset (requirements q ! j)"
  shows "\<exists>p'. first_buffer q = Inr p' \<and> plan_inv p' 1 [0] \<and> same_buffers q p'"
proof -
  let ?c = "nat (buffer_count q)" and ?b = "placing_order (reqs q) ! 0"
  have c: "0 < ?c" using assms(2) by simp
  note len0 = arrays_len[OF assms(1) c]
  have pl: "0 < length (placing_order (reqs q))" using c reqs_facts(1)[OF assms(1)] by (simp add: placing_order_length)
  then have b: "?b < ?c" using placing_order_set[of "reqs q"] reqs_facts(1)[OF assms(1)] by (metis atLeastLessThan_iff nth_mem)
  note len = arrays_len[OF assms(1) b]
  have "take ?c (buffer_ids_sorted q) ! 0 = int ?b" unfolding assms(3) using pl by simp
  then have id: "buffer_ids_sorted q ! 0 = int ?b" using c by simp
  let ?on = "online (requirements q ! ?b)"
  let ?os = "if ?on then (buffer_offsets q)[?b := 0] else buffer_offsets q"
  let ?off = "?os ! ?b"
  let ?e = "(buffers_sorted_by_offset q ! 0)\<lparr>next_entry_index := -1, requirements_index := int ?b, entry_offset := ?off\<rparr>"
  let ?p = "q\<lparr>first_entry_index := 0, next_free_entry := 1, buffer_offsets := ?os,
      buffers_sorted_by_offset := (buffers_sorted_by_offset q)[0 := ?e]\<rparr>"
  have ol: "?b < length ?os" using len(5) by simp
  have f: "first_buffer q = Inr ?p"
    unfolding first_buffer_def using id len0 len ol by (simp del: vec_at_0)
  have same: "same_buffers q ?p" by (simp add: same_buffers_def)
  have off: "?off = chosen_offset (reqs q) ?b []"
    using assms(4)[OF b] len(5) reqs_facts(2)[OF assms(1) b] by (simp add: chosen_offset_def in_use_def)
  have v: "view (buffers_sorted_by_offset ?p) [0] = [(?off, ?b)]" using len0(4) by (simp add: view_def)
  have "take 1 (placing_order (reqs q)) = [?b]" using pl by (cases "placing_order (reqs q)") simp_all
  then have "fold (place (reqs q)) (take 1 (placing_order (reqs q))) [] = [(?off, ?b)]"
    unfolding off by (simp add: place_def insert_layout_def)
  then have F: "view (buffers_sorted_by_offset ?p) [0] = fold (place (reqs q)) (take 1 (placing_order (reqs q))) []"
    by (simp only: v)
  have A: "arrays_ok ?p" using assms(1) by (simp add: arrays_ok_def)
  have D: "linked (buffers_sorted_by_offset ?p) (buffer_count ?p) (first_entry_index ?p) (next_free_entry ?p) [0]"
    using len0(4) b by (auto simp: linked_def Suc_le_eq)
  have C: "take (nat (buffer_count ?p)) (buffer_ids_sorted ?p) = map int (placing_order (reqs q))" using assms(3) by simp
  have G: "\<forall>(off, b) \<in> set (view (buffers_sorted_by_offset ?p) [0]). buffer_offsets ?p ! b = off" unfolding v by simp
  have "plan_inv ?p 1 [0]" unfolding plan_inv_def same_buffers_reqs[OF same]
    by (intro conjI A C D F G) (use c in simp_all)
  then show ?thesis using f same by blast
qed

lemma calculate_plan:
  assumes "arrays_ok p" "plannable (reqs p)" "need_to_calculate_offsets p" "0 < buffer_count p"
  shows "\<exists>p' js. CalculateOffsetsIfNeeded p = Inr p' \<and> plan_inv p' (nat (buffer_count p)) js \<and>
    same_buffers (p\<lparr>need_to_calculate_offsets := False\<rparr>) p'"
proof -
  let ?p = "p\<lparr>need_to_calculate_offsets := False\<rparr>" and ?c = "nat (buffer_count p)"
  have rp: "reqs ?p = reqs p" "buffer_count ?p = buffer_count p" "arrays_ok ?p"
    using assms(1) by (simp_all add: reqs_def arrays_ok_def)
  have "split_inv ?p 0 (buffer_count p, 0, ?p)"
    using rp(3) assms(4) by (simp add: split_inv_def same_buffers_def filled_def)
  then obtain s where s: "for_loop split_buffer 0 ?c (buffer_count p, 0, ?p) = Inr s" "split_inv ?p ?c s"
    using split_loop[of ?p 0 "(buffer_count p, 0, ?p)" ?c] by auto
  obtain t h q where thq: "s = (t, h, q)" by (metis prod_cases3)
  let ?q = "sort_online h q"
  have so: "same_buffers ?p ?q" "arrays_ok ?q" "buffer_offsets ?q = buffer_offsets q"
      "take ?c (buffer_ids_sorted ?q) = map int (placing_order (reqs p))"
    using sort_online_order[of ?p t h q ?q] s(2) thq rp by simp_all
  have q: "buffer_count ?q = buffer_count p" "requirements ?q = requirements p" "reqs ?q = reqs p"
    using so(1) same_buffers_reqs[OF so(1)] rp(1) by (simp_all add: same_buffers_def)
  have "buffer_offsets q ! j = offline_offset (requirements p ! j)" if "j < ?c" "\<not> online (requirements p ! j)" for j
    using s(2) that unfolding thq split_inv_def by (simp add: Let_def)
  then obtain p1 where p1: "first_buffer ?q = Inr p1" "plan_inv p1 1 [0]" "same_buffers ?q p1"
    using first_buffer_plan[of ?q] so q assms(4) by auto
  have q1: "buffer_count p1 = buffer_count p" "reqs p1 = reqs p"
    using p1(3) q same_buffers_reqs[OF p1(3)] by (simp_all add: same_buffers_def)
  have k: "1 + (?c - 1) = nat (buffer_count p1)" using q1(1) assms(4) by linarith
  obtain p2 js where p2: "for_loop place_buffer 1 (?c - 1) p1 = Inr p2" "plan_inv p2 (1 + (?c - 1)) js" "same_buffers p1 p2"
    using place_buffers[OF _ p1(2) k] q1(2) assms(2) by auto
  have "CalculateOffsetsIfNeeded p = Inr p2"
    using assms(3,4) s(1) p1(1) p2(1) q1(1) thq by (simp add: CalculateOffsetsIfNeeded_def)
  moreover have "plan_inv p2 ?c js" using p2(2) k q1(1) by simp
  ultimately show ?thesis using same_buffers_trans[OF so(1) same_buffers_trans[OF p1(3) p2(3)]] by blast
qed

text \<open>The offset the plan gives a buffer.\<close>

definition plan_offset :: "BufferRequirements list \<Rightarrow> nat \<Rightarrow> int" where
  "plan_offset rs b = the (map_of (map (\<lambda>(off, a). (a, off)) (greedy_plan rs)) b)"

lemma greedy_plan_snd: "plannable rs \<Longrightarrow> distinct (map snd (greedy_plan rs)) \<and> snd ` set (greedy_plan rs) = {0..<length rs}"
  using greedy_plan_ok[of rs] layout_ok_set[of rs "placing_order rs" "greedy_plan rs"] placing_order_distinct[of rs]
  by (metis layout_ok_def mset_eq_imp_distinct_iff placing_order_set)

lemma plan_offset_iff:
  assumes "plannable rs" "b < length rs"
  shows "(off, b) \<in> set (greedy_plan rs) \<longleftrightarrow> off = plan_offset rs b"
proof -
  let ?m = "map (\<lambda>(off, a). (a, off)) (greedy_plan rs)"
  have d: "distinct (map fst ?m)" using greedy_plan_snd[OF assms(1)] by (simp add: comp_def case_prod_beta)
  have "b \<in> snd ` set (greedy_plan rs)" using greedy_plan_snd[OF assms(1)] assms(2) by simp
  then obtain o1 where o1: "(o1, b) \<in> set (greedy_plan rs)" by force
  have m: "map_of ?m b = Some x \<longleftrightarrow> (x, b) \<in> set (greedy_plan rs)" for x
  proof -
    have "map_of ?m b = Some x \<longleftrightarrow> (b, x) \<in> set ?m" by (rule map_of_eq_Some_iff[OF d])
    then show ?thesis by auto
  qed
  have o2: "map_of ?m b = Some o1" using m o1 by blast
  then have "plan_offset rs b = o1" unfolding plan_offset_def by simp
  moreover have "(off, b) \<in> set (greedy_plan rs) \<longleftrightarrow> map_of ?m b = Some off" using m by blast
  ultimately show ?thesis unfolding o2 by auto
qed

lemma greedy_plan_set:
  assumes "plannable rs"
  shows "set (greedy_plan rs) = (\<lambda>b. (plan_offset rs b, b)) ` {0..<length rs}"
proof (intro equalityI subsetI)
  fix x assume x: "x \<in> set (greedy_plan rs)"
  then have "snd x \<in> {0..<length rs}" using greedy_plan_snd[OF assms] by blast
  then have "x = (plan_offset rs (snd x), snd x)" using plan_offset_iff[OF assms, of "snd x" "fst x"] x
    by (simp add: prod_eq_iff)
  then show "x \<in> (\<lambda>b. (plan_offset rs b, b)) ` {0..<length rs}" using \<open>snd x \<in> _\<close> by blast
next
  fix x assume "x \<in> (\<lambda>b. (plan_offset rs b, b)) ` {0..<length rs}"
  then show "x \<in> set (greedy_plan rs)" using plan_offset_iff[OF assms] by auto
qed

definition planner_ok :: "GreedyMemoryPlanner \<Rightarrow> bool" where
  "planner_ok p \<longleftrightarrow> arrays_ok p \<and> plannable (reqs p) \<and>
     (\<not> need_to_calculate_offsets p \<longrightarrow> (\<exists>js. plan_inv p (nat (buffer_count p)) js))"

lemma plan_inv_offsets:
  assumes "plannable (reqs p)" "plan_inv p (nat (buffer_count p)) js" "b < nat (buffer_count p)"
  shows "buffer_offsets p ! b = plan_offset (reqs p) b"
proof -
  have a: "arrays_ok p" and v: "view (buffers_sorted_by_offset p) js = greedy_plan (reqs p)"
    using assms(2) reqs_facts(1)[of p] unfolding plan_inv_def greedy_plan_def by (auto simp: placing_order_length)
  have "b < length (reqs p)" using assms(3) reqs_facts(1)[OF a] by simp
  then have "(plan_offset (reqs p) b, b) \<in> set (view (buffers_sorted_by_offset p) js)"
    using plan_offset_iff[OF assms(1)] v by simp
  then show ?thesis using assms(2) unfolding plan_inv_def by auto
qed

lemma calculate_ok:
  assumes "planner_ok p"
  shows "\<exists>p'. CalculateOffsetsIfNeeded p = Inr p' \<and> planner_ok p' \<and> reqs p' = reqs p \<and> buffer_count p' = buffer_count p \<and>
    max_buffer_count p' = max_buffer_count p \<and> requirements p' = requirements p \<and>
    (buffer_count p = 0 \<or> (\<exists>js. plan_inv p' (nat (buffer_count p)) js))"
proof (cases "need_to_calculate_offsets p \<and> 0 < buffer_count p")
  case True
  obtain p' js where p': "CalculateOffsetsIfNeeded p = Inr p'" "plan_inv p' (nat (buffer_count p)) js"
      "same_buffers (p\<lparr>need_to_calculate_offsets := False\<rparr>) p'"
    using calculate_plan[of p] assms True by (auto simp: planner_ok_def)
  have same: "requirements p' = requirements p" "buffer_count p' = buffer_count p" "max_buffer_count p' = max_buffer_count p"
    using p'(3) by (simp_all add: same_buffers_def)
  then have "reqs p' = reqs p" by (simp add: reqs_def)
  moreover have "arrays_ok p'" using p'(2) unfolding plan_inv_def by blast
  ultimately show ?thesis using p' same assms by (auto simp: planner_ok_def)
next
  case False
  have "0 \<le> buffer_count p" using assms by (simp add: planner_ok_def arrays_ok_def)
  then have "CalculateOffsetsIfNeeded p = Inr p" using False by (auto simp: CalculateOffsetsIfNeeded_def)
  then show ?thesis using False assms \<open>0 \<le> buffer_count p\<close> by (auto simp: planner_ok_def)
qed

section \<open>The largest end\<close>

definition end_of :: "GreedyMemoryPlanner \<Rightarrow> nat \<Rightarrow> int" where
  "end_of p j = fst (range_of p j) + snd (range_of p j)"

lemma max_walk_max:
  assumes "chain (buffers_sorted_by_offset p) i js" "js \<noteq> []" "length js \<le> n" "known p js" "bounded p js"
  shows "max_walk n p i m = Inr (foldl max m (map (end_of p) js))"
  using assms
proof (induction js arbitrary: i n m)
  case (Cons j js)
  obtain k where n: "n = Suc k" using Cons.prems(3) by (cases n) auto
  have j: "i = int j" "j < length (buffers_sorted_by_offset p)" "chain (buffers_sorted_by_offset p) (next_entry_index (entry p j)) js"
    using Cons.prems(1) by simp_all
  have kb: "known p js" "bounded p js" using Cons.prems(4,5) by (simp_all add: known_def bounded_def)
  have e: "0 \<le> end_of p j" "end_of p j < 2 ^ 31"
      "entry_offset (entry p j) + req_size (requirements p ! buffer_of p j) = end_of p j"
    using Cons.prems(5) by (auto simp: bounded_def end_of_def range_of_def)
  then have s: "to_size_t (end_of p j) = end_of p j" "checked_int (end_of p j) = Inr (end_of p j)"
    by (simp_all add: to_size_t_def checked_int_def fits_int_def)
  have step: "max_walk n p i m =
      (if next_entry_index (entry p j) = -1 then Inr (max m (end_of p j))
       else max_walk k p (next_entry_index (entry p j)) (max m (end_of p j)))"
    using j(1,2) known_vec_at[OF Cons.prems(4)] e(3) s by (simp add: n Let_def max_def del: vec_at_Inr checked_int_Inr)
  show ?case
  proof (cases "js = []")
    case True
    then show ?thesis using step j(3) by simp
  next
    case False
    then have "next_entry_index (entry p j) \<noteq> -1" using j(3) by (cases js) auto
    then show ?thesis using step Cons.IH[OF j(3) False _ kb, of k "max m (end_of p j)"] Cons.prems(3) n by simp
  qed
qed simp

lemma foldl_max: "foldl max m xs = Max (set (m # xs))" for m :: int
proof (induction xs arbitrary: m)
  case (Cons x xs)
  have "Max (insert m (insert x (set xs))) = Max (insert (max m x) (set xs))"
    by (cases "xs = []") (auto simp: max.assoc)
  then show ?case using Cons by simp
qed simp

definition plan_top :: "BufferRequirements list \<Rightarrow> int" where
  "plan_top rs = foldl max 0 (map (\<lambda>b. plan_offset rs b + req_size (rs ! b)) [0..<length rs])"

lemma plan_ends:
  assumes "planner_ok p" "plan_inv p (nat (buffer_count p)) js"
  shows "set (map (end_of p) js) = set (map (\<lambda>b. plan_offset (reqs p) b + req_size (reqs p ! b)) [0..<length (reqs p)])"
proof -
  have a: "arrays_ok p" and pl: "plannable (reqs p)" using assms(1) by (simp_all add: planner_ok_def)
  have l: "linked (buffers_sorted_by_offset p) (buffer_count p) (first_entry_index p) (next_free_entry p) js"
    and v: "view (buffers_sorted_by_offset p) js = greedy_plan (reqs p)"
    using assms(2) reqs_facts(1)[OF a] unfolding plan_inv_def greedy_plan_def by (auto simp: placing_order_length)
  note k = linked_known[OF a l]
  have "end_of p j = (\<lambda>(off, b). off + req_size (reqs p ! b)) (entry_offset (entry p j), buffer_of p j)" if "j \<in> set js" for j
    using k(2) that reqs_facts(2)[OF a] by (simp add: end_of_def range_of_def)
  then have "set (map (end_of p) js) = (\<lambda>(off, b). off + req_size (reqs p ! b)) ` set (view (buffers_sorted_by_offset p) js)"
    by (auto simp: view_def)
  also have "set (view (buffers_sorted_by_offset p) js) = (\<lambda>b. (plan_offset (reqs p) b, b)) ` {0..<length (reqs p)}"
    unfolding v by (rule greedy_plan_set[OF pl])
  finally show ?thesis by (simp add: image_image)
qed

lemma maximum_ok:
  assumes "planner_ok p"
  shows "\<exists>p'. GetMaximumMemorySize p = Inr (plan_top (reqs p), p') \<and> planner_ok p' \<and> reqs p' = reqs p \<and>
    max_buffer_count p' = max_buffer_count p"
proof -
  obtain p' where p': "CalculateOffsetsIfNeeded p = Inr p'" "planner_ok p'" "reqs p' = reqs p" "buffer_count p' = buffer_count p"
      "max_buffer_count p' = max_buffer_count p" "buffer_count p = 0 \<or> (\<exists>js. plan_inv p' (nat (buffer_count p)) js)"
    using calculate_ok[OF assms] by blast
  show ?thesis
  proof (cases "buffer_count p = 0")
    case True
    then show ?thesis using p' by (auto simp: GetMaximumMemorySize_def plan_top_def reqs_def)
  next
    case False
    then obtain js where js: "plan_inv p' (nat (buffer_count p')) js" using p'(4,6) by auto
    have a: "arrays_ok p'" and pl: "plannable (reqs p')" using p'(2) by (simp_all add: planner_ok_def)
    have l: "linked (buffers_sorted_by_offset p') (buffer_count p') (first_entry_index p') (next_free_entry p') js"
      using js unfolding plan_inv_def by blast
    note k = linked_known[OF a l]
    have "bounded p' js" by (rule layout_bounded[OF a pl k(2) plan_inv_layout[OF pl js]])
    moreover have "chain (buffers_sorted_by_offset p') (first_entry_index p') js" "js \<noteq> []"
      using k(3) by (simp_all add: rest_of_def)
    ultimately have "max_walk (length (buffers_sorted_by_offset p')) p' (first_entry_index p') 0 =
        Inr (foldl max 0 (map (end_of p') js))"
      by (intro max_walk_max k(1,4))
    moreover have "foldl max 0 (map (end_of p') js) = plan_top (reqs p)"
      unfolding plan_top_def foldl_max using plan_ends[OF p'(2) js] p'(3) by simp
    ultimately show ?thesis using p' False by (auto simp: GetMaximumMemorySize_def)
  qed
qed

lemma plan_top_upper: "b < length rs \<Longrightarrow> plan_offset rs b + req_size (rs ! b) \<le> plan_top rs"
  unfolding plan_top_def foldl_max by (intro Max_ge) auto

lemma plan_apart:
  assumes "plannable rs" "i < length rs" "j < length rs" "i \<noteq> j" "online (rs ! i) \<or> online (rs ! j)" "same_time (rs ! i) (rs ! j)"
  shows "disjoint_ranges (plan_offset rs i) (req_size (rs ! i)) (plan_offset rs j) (req_size (rs ! j))"
proof -
  have "(plan_offset rs i, i) \<in> set (greedy_plan rs)" "(plan_offset rs j, j) \<in> set (greedy_plan rs)"
    using plan_offset_iff[OF assms(1)] assms(2,3) by blast+
  then show ?thesis using greedy_plan_ok[OF assms(1)] assms(4-6) by (auto simp: layout_ok_def apart_layout_def)
qed

lemma plan_nonneg:
  assumes "plannable rs" "b < length rs"
  shows "0 \<le> plan_offset rs b" "0 \<le> req_size (rs ! b)" "\<not> online (rs ! b) \<Longrightarrow> plan_offset rs b = offline_offset (rs ! b)"
    "plan_offset rs b + req_size (rs ! b) < 2 ^ 31"
proof -
  have "(plan_offset rs b, b) \<in> set (greedy_plan rs)" using plan_offset_iff[OF assms] by blast
  then show "0 \<le> plan_offset rs b" "\<not> online (rs ! b) \<Longrightarrow> plan_offset rs b = offline_offset (rs ! b)"
    "plan_offset rs b + req_size (rs ! b) < 2 ^ 31"
    using greedy_plan_ok[OF assms(1)] sizes_of_order[of rs] assms(1) by (auto simp: layout_ok_def plannable_def)
  show "0 \<le> req_size (rs ! b)" using assms by (simp add: plannable_def list_all_length)
qed

section \<open>The overlap check\<close>

definition clash :: "BufferRequirements list \<Rightarrow> (nat \<Rightarrow> int) \<Rightarrow> nat \<Rightarrow> nat \<Rightarrow> bool" where
  "clash rs off i j \<longleftrightarrow> i \<noteq> j \<and> same_time (rs ! i) (rs ! j) \<and>
     \<not> disjoint_ranges (off i) (req_size (rs ! i)) (off j) (req_size (rs ! j))"

text \<open>A planner whose offsets are the plan.\<close>

definition planned :: "GreedyMemoryPlanner \<Rightarrow> bool" where
  "planned p \<longleftrightarrow> planner_ok p \<and> (\<forall>b < nat (buffer_count p). buffer_offsets p ! b = plan_offset (reqs p) b)"

lemma planned_reads:
  assumes "planned p" "b < nat (buffer_count p)"
  shows "vec_at (requirements p) (int b) = Inr (reqs p ! b)" "vec_at (buffer_offsets p) (int b) = Inr (plan_offset (reqs p) b)"
    "checked_int (plan_offset (reqs p) b + req_size (reqs p ! b)) = Inr (plan_offset (reqs p) b + req_size (reqs p ! b))"
proof -
  have a: "arrays_ok p" and pl: "plannable (reqs p)" using assms(1) by (simp_all add: planned_def planner_ok_def)
  show "vec_at (requirements p) (int b) = Inr (reqs p ! b)"
    using arrays_len(1)[OF a assms(2)] reqs_facts(2)[OF a assms(2)] by simp
  show "vec_at (buffer_offsets p) (int b) = Inr (plan_offset (reqs p) b)"
    using arrays_len(5)[OF a assms(2)] assms by (simp add: planned_def)
  have "b < length (reqs p)" using assms(2) reqs_facts(1)[OF a] by simp
  note n = plan_nonneg[OF pl this]
  show "checked_int (plan_offset (reqs p) b + req_size (reqs p ! b)) = Inr (plan_offset (reqs p) b + req_size (reqs p ! b))"
    using n(1,2,4) by (simp add: checked_int_def fits_int_def)
qed

lemma overlap_pair_step:
  assumes "planned p" "i < nat (buffer_count p)" "j < nat (buffer_count p)"
    and "a_start = plan_offset (reqs p) i" "a_end = a_start + req_size (reqs p ! i)"
  shows "\<exists>rep'. overlap_pair p i (reqs p ! i) a_start a_end j (found, rep) =
    Inr (found \<or> clash (reqs p) (plan_offset (reqs p)) i j, rep')"
proof (cases "i = j")
  case True
  then show ?thesis by (simp add: overlap_pair_def clash_def)
next
  case False
  let ?a = "reqs p ! i" and ?b = "reqs p ! j" and ?o = "plan_offset (reqs p) j"
  have "overlap_pair p i ?a a_start a_end j (found, rep) =
      (if first_time_used ?a > last_time_used ?b \<or> first_time_used ?b > last_time_used ?a then Inr (found, rep)
       else if a_start \<ge> ?o + req_size ?b \<or> ?o \<ge> a_end then Inr (found, rep)
       else Inr (True, rep @ [Overlap (int i) (first_time_used ?a) (last_time_used ?a) a_start a_end
                                        (int j) (first_time_used ?b) (last_time_used ?b) ?o (?o + req_size ?b)]))"
    using planned_reads[OF assms(1,3)] False by (simp add: overlap_pair_def del: vec_at_Inr checked_int_Inr)
  then show ?thesis using False assms(4,5) by (auto simp: clash_def same_time_def disjoint_ranges_def)
qed

lemma found_loop:
  assumes "\<And>j found rep. i \<le> j \<Longrightarrow> j < i + k \<Longrightarrow> \<exists>rep'. body j (found, rep) = Inr (found \<or> Q j, rep')"
  shows "\<exists>rep'. for_loop body i k (found, rep) = Inr (found \<or> (\<exists>j \<in> {i..<i + k}. Q j), rep')"
  using assms
proof (induction k arbitrary: i found rep)
  case (Suc k)
  obtain r1 where "body i (found, rep) = Inr (found \<or> Q i, r1)" using Suc.prems[of i found rep] by auto
  moreover have "\<exists>r. for_loop body (Suc i) k (found \<or> Q i, r1) = Inr ((found \<or> Q i) \<or> (\<exists>j \<in> {Suc i..<Suc i + k}. Q j), r)"
    using Suc.prems by (intro Suc.IH) simp
  moreover have "(\<exists>j \<in> {i..<i + Suc k}. Q j) \<longleftrightarrow> Q i \<or> (\<exists>j \<in> {Suc i..<Suc i + k}. Q j)"
  proof -
    have "{i..<i + Suc k} = insert i {Suc i..<Suc i + k}" by auto
    then show ?thesis by (simp only: bex_simps)
  qed
  ultimately show ?case by auto
qed simp

lemma overlap_row_step:
  assumes "planned p" "i < nat (buffer_count p)"
  shows "\<exists>rep'. overlap_row p i (found, rep) =
    Inr (found \<or> (\<exists>j \<in> {0..<nat (buffer_count p)}. clash (reqs p) (plan_offset (reqs p)) i j), rep')"
proof -
  note r = planned_reads[OF assms]
  let ?o = "plan_offset (reqs p) i"
  have "\<exists>rep'. for_loop (overlap_pair p i (reqs p ! i) ?o (?o + req_size (reqs p ! i))) 0 (nat (buffer_count p)) (found, rep) =
      Inr (found \<or> (\<exists>j \<in> {0..<0 + nat (buffer_count p)}. clash (reqs p) (plan_offset (reqs p)) i j), rep')"
    by (rule found_loop) (use overlap_pair_step[OF assms] in simp)
  then show ?thesis using r by (simp add: overlap_row_def del: vec_at_Inr checked_int_Inr)
qed

lemma calculate_planned:
  assumes "planner_ok p"
  shows "\<exists>p'. CalculateOffsetsIfNeeded p = Inr p' \<and> planned p' \<and> reqs p' = reqs p \<and> buffer_count p' = buffer_count p \<and>
    max_buffer_count p' = max_buffer_count p"
proof -
  obtain p' where p': "CalculateOffsetsIfNeeded p = Inr p'" "planner_ok p'" "reqs p' = reqs p" "buffer_count p' = buffer_count p"
      "max_buffer_count p' = max_buffer_count p" "buffer_count p = 0 \<or> (\<exists>js. plan_inv p' (nat (buffer_count p)) js)"
    using calculate_ok[OF assms] by blast
  moreover have "planned p'"
  proof (cases "buffer_count p = 0")
    case False
    then obtain js where "plan_inv p' (nat (buffer_count p')) js" using p'(4,6) by auto
    moreover have "plannable (reqs p')" using p'(2) by (simp add: planner_ok_def)
    ultimately show ?thesis using plan_inv_offsets p'(2) by (auto simp: planned_def)
  qed (use p' in \<open>simp add: planned_def\<close>)
  ultimately show ?thesis by blast
qed

lemma overlap_check_ok:
  assumes "planner_ok p"
  shows "\<exists>p' rep. DoAnyBuffersOverlap p =
      Inr (\<exists>i < length (reqs p). \<exists>j < length (reqs p). clash (reqs p) (plan_offset (reqs p)) i j, p', rep) \<and>
    planned p' \<and> reqs p' = reqs p \<and> max_buffer_count p' = max_buffer_count p"
proof -
  obtain p' where p': "CalculateOffsetsIfNeeded p = Inr p'" "planned p'" "reqs p' = reqs p"
      "max_buffer_count p' = max_buffer_count p"
    using calculate_planned[OF assms] by blast
  have n: "length (reqs p) = nat (buffer_count p')"
    using p'(2,3) reqs_facts(1)[of p'] by (simp add: planned_def planner_ok_def)
  let ?Q = "\<lambda>i. \<exists>j \<in> {0..<nat (buffer_count p')}. clash (reqs p') (plan_offset (reqs p')) i j"
  have "\<exists>rep. for_loop (overlap_row p') 0 (nat (buffer_count p')) (False, []) =
      Inr (False \<or> (\<exists>i \<in> {0..<0 + nat (buffer_count p')}. ?Q i), rep)"
    by (rule found_loop) (use overlap_row_step[OF p'(2)] in simp)
  then show ?thesis using p' n by (auto simp: DoAnyBuffersOverlap_def Bex_def atLeast0LessThan)
qed

section \<open>The interface\<close>

definition greedy_holds :: "GreedyMemoryPlanner \<Rightarrow> BufferRequirements list \<Rightarrow> bool" where
  "greedy_holds p rs \<longleftrightarrow> planner_ok p \<and> reqs p = rs \<and> list_all online rs"

definition greedy_room :: "GreedyMemoryPlanner \<Rightarrow> BufferRequirements list \<Rightarrow> BufferRequirements \<Rightarrow> bool" where
  "greedy_room p rs r \<longleftrightarrow> buffer_count p < max_buffer_count p \<and> online r \<and> plannable (rs @ [r])"

definition greedy_offsets :: "GreedyMemoryPlanner \<Rightarrow> int list" where
  "greedy_offsets p = map (plan_offset (reqs p)) [0..<length (reqs p)]"

lemma add_buffer_ok:
  assumes "planner_ok p" "buffer_count p < max_buffer_count p"
    and "plannable (reqs p @ [\<lparr>req_size = n, offline_offset = kOnlinePlannedBuffer, first_time_used = f, last_time_used = l\<rparr>])"
  shows "\<exists>p'. AddBuffer n f l p = Inr (kTfLiteOk, p', []) \<and> planner_ok p' \<and> max_buffer_count p' = max_buffer_count p \<and>
    reqs p' = reqs p @ [\<lparr>req_size = n, offline_offset = kOnlinePlannedBuffer, first_time_used = f, last_time_used = l\<rparr>]"
proof -
  let ?r = "\<lparr>req_size = n, offline_offset = kOnlinePlannedBuffer, first_time_used = f, last_time_used = l\<rparr>"
  let ?c = "nat (buffer_count p)"
  have a: "arrays_ok p" using assms(1) by (simp add: planner_ok_def)
  then have c: "buffer_count p = int ?c" "?c < length (requirements p)" using assms(2) by (auto simp: arrays_ok_def)
  let ?p = "p\<lparr>requirements := (requirements p)[?c := ?r], buffer_count := buffer_count p + 1, need_to_calculate_offsets := True\<rparr>"
  have s: "vec_set (requirements p) (buffer_count p) ?r = Inr ((requirements p)[?c := ?r])"
    using c(2) a by (simp add: arrays_ok_def vec_set_def)
  have add: "AddBuffer n f l p = Inr (kTfLiteOk, ?p, [])" unfolding AddBuffer_def using s assms(2) by simp
  have "nat (buffer_count p + 1) = Suc ?c" using c(1) by linarith
  then have r: "reqs ?p = reqs p @ [?r]" using c(2) by (simp add: reqs_def take_Suc_conv_app_nth)
  have "arrays_ok ?p" using a assms(2) by (simp add: arrays_ok_def)
  then show ?thesis using add r assms(3) by (simp add: planner_ok_def)
qed

lemma offset_ok:
  assumes "planner_ok p"
  shows "\<exists>p'. planned p' \<and> reqs p' = reqs p \<and> max_buffer_count p' = max_buffer_count p \<and> GetOffsetForBuffer k p =
    Inr (if 0 \<le> k \<and> k < int (length (reqs p)) then (kTfLiteOk, Some (plan_offset (reqs p) (nat k)), p', [])
         else (kTfLiteError, None, p', [IndexOutside k (int (length (reqs p)))]))"
proof -
  obtain p' where p': "CalculateOffsetsIfNeeded p = Inr p'" "planned p'" "reqs p' = reqs p" "buffer_count p' = buffer_count p"
      "max_buffer_count p' = max_buffer_count p"
    using calculate_planned[OF assms] by blast
  have a: "arrays_ok p'" using p'(2) by (simp add: planned_def planner_ok_def)
  then have n: "int (length (reqs p)) = buffer_count p'" using p'(3) reqs_facts(1)[of p'] by (simp add: arrays_ok_def)
  have "GetOffsetForBuffer k p =
    Inr (if 0 \<le> k \<and> k < int (length (reqs p)) then (kTfLiteOk, Some (plan_offset (reqs p) (nat k)), p', [])
         else (kTfLiteError, None, p', [IndexOutside k (int (length (reqs p)))]))"
  proof (cases "0 \<le> k \<and> k < buffer_count p'")
    case True
    then have "vec_at (buffer_offsets p') k = Inr (plan_offset (reqs p) (nat k))"
      using planned_reads(2)[OF p'(2), of "nat k"] p'(3) by simp
    then show ?thesis using True p'(1) n by (simp add: GetOffsetForBuffer_def del: vec_at_Inr)
  qed (use p'(1) n in \<open>auto simp: GetOffsetForBuffer_def\<close>)
  then show ?thesis using p' by blast
qed

lemma online_record: "online r \<Longrightarrow> \<lparr>req_size = req_size r, offline_offset = kOnlinePlannedBuffer,
    first_time_used = first_time_used r, last_time_used = last_time_used r\<rparr> = r"
  by (cases r) simp

interpretation greedy: memory_planner AddBuffer GetOffsetForBuffer GetMaximumMemorySize GetBufferCount greedy_holds greedy_room
  greedy_offsets
proof
  fix p rs assume "greedy_holds p rs"
  then show "GetBufferCount p = int (length rs)"
    by (auto simp: greedy_holds_def GetBufferCount_def planner_ok_def reqs_facts(1) arrays_ok_def)
next
  fix p rs r assume h: "greedy_holds p rs" and r: "greedy_room p rs r"
  show "\<exists>p'. AddBuffer (req_size r) (first_time_used r) (last_time_used r) p = Inr (kTfLiteOk, p', []) \<and> greedy_holds p' (rs @ [r])"
  proof -
    have r: "online r" "buffer_count p < max_buffer_count p" "plannable (reqs p @ [r])" and p: "planner_ok p"
      using h r by (auto simp: greedy_holds_def greedy_room_def)
    have "\<exists>p'. AddBuffer (req_size r) (first_time_used r) (last_time_used r) p = Inr (kTfLiteOk, p', []) \<and> planner_ok p' \<and>
        max_buffer_count p' = max_buffer_count p \<and> reqs p' = reqs p @ [r]"
      using add_buffer_ok[OF p r(2), of "req_size r" "first_time_used r" "last_time_used r"] r(3)
      unfolding online_record[OF r(1)] by blast
    then show ?thesis using h r(1) by (auto simp: greedy_holds_def)
  qed
next
  fix p rs k assume h: "greedy_holds p rs"
  have "greedy_offsets p ! nat k = plan_offset (reqs p) (nat k)" if "0 \<le> k" "k < int (length rs)"
    using h that by (simp add: greedy_offsets_def greedy_holds_def nat_less_iff)
  then show "\<exists>p'. greedy_holds p' rs \<and> greedy_offsets p' = greedy_offsets p \<and> GetOffsetForBuffer k p =
      Inr (if 0 \<le> k \<and> k < int (length rs) then (kTfLiteOk, Some (greedy_offsets p ! nat k), p', [])
           else (kTfLiteError, None, p', [IndexOutside k (int (length rs))]))"
    using offset_ok[of p k] h by (auto simp: greedy_holds_def greedy_offsets_def planned_def)
next
  fix p rs assume h: "greedy_holds p rs"
  then obtain p' where "GetMaximumMemorySize p = Inr (plan_top (reqs p), p')" "planner_ok p'" "reqs p' = reqs p"
    using maximum_ok[of p] by (auto simp: greedy_holds_def)
  then show "\<exists>m p'. GetMaximumMemorySize p = Inr (m, p') \<and> greedy_holds p' rs \<and> greedy_offsets p' = greedy_offsets p \<and>
      (\<forall>i < length rs. greedy_offsets p ! i + req_size (rs ! i) \<le> m)"
    using h by (auto simp: greedy_holds_def greedy_offsets_def plan_top_upper)
next
  fix p rs i assume "greedy_holds p rs" "i < length rs"
  then show "0 \<le> greedy_offsets p ! i \<and> 0 \<le> req_size (rs ! i)"
    by (auto simp: greedy_holds_def greedy_offsets_def planner_ok_def plan_nonneg)
next
  fix p rs i j assume "greedy_holds p rs" "i < length rs" "j < length rs" "i \<noteq> j" "same_time (rs ! i) (rs ! j)"
  then show "disjoint_ranges (greedy_offsets p ! i) (req_size (rs ! i)) (greedy_offsets p ! j) (req_size (rs ! j))"
    by (auto simp: greedy_holds_def greedy_offsets_def planner_ok_def list_all_length intro!: plan_apart)
qed

end
