(* ===== verification/Planner_Print.thy ===== *)
theory Planner_Print
  imports Greedy_Planner_Props
begin

text \<open>
  The debug print of the greedy planner: it scales the plan to a line of 80 characters in \<^verbatim>\<open>int\<close>
  arithmetic, so it is well defined for plans of less than a 80th of the range of an \<^verbatim>\<open>int\<close> only. For
  these it returns, and every character it writes is inside the line.
\<close>

definition printable :: "BufferRequirements list \<Rightarrow> bool" where
  "printable rs \<longleftrightarrow> 80 * (offline_top rs + sum_list (map req_size rs)) < 2 ^ 31 \<and>
     list_all (\<lambda>r. last_time_used r < 2 ^ 31 - 1) rs"

lemma plan_end_le:
  assumes "plannable rs" "b < length rs"
  shows "plan_offset rs b + req_size (rs ! b) \<le> offline_top rs + sum_list (map req_size rs)"
proof -
  have "(plan_offset rs b, b) \<in> set (greedy_plan rs)" using plan_offset_iff[OF assms] by blast
  then show ?thesis using greedy_plan_ok[OF assms(1)] sizes_of_order[of rs] by (auto simp: layout_ok_def)
qed

text \<open>The end of every buffer, scaled to the line, is an \<^verbatim>\<open>int\<close> and at most the width of the line.\<close>

lemma scaled_bounds:
  assumes "planned p" "printable (reqs p)" "i < nat (buffer_count p)"
    and "plan_offset (reqs p) i + req_size (reqs p ! i) \<le> m" "80 \<le> m"
  defines "a \<equiv> plan_offset (reqs p) i" and "e \<equiv> plan_offset (reqs p) i + req_size (reqs p ! i)"
  shows "fits_int (a * kLineWidth)" "fits_int (e * kLineWidth)" "0 \<le> quot_int (a * kLineWidth) m"
    "quot_int (e * kLineWidth) m \<le> 80"
proof -
  have pl: "plannable (reqs p)" and l: "i < length (reqs p)"
    using assms(1,3) reqs_facts(1)[of p] by (simp_all add: planned_def planner_ok_def)
  have b: "0 \<le> a" "0 \<le> req_size (reqs p ! i)" using plan_nonneg[OF pl l] by (simp_all add: a_def)
  have "80 * e < 2 ^ 31" using plan_end_le[OF pl l] assms(2) by (simp add: e_def printable_def)
  moreover have ae: "a \<le> e" using b(2) by (simp add: a_def e_def)
  ultimately show "fits_int (a * kLineWidth)" "fits_int (e * kLineWidth)"
    using b(1) by (simp_all add: fits_int_def kLineWidth_def)
  show "0 \<le> quot_int (a * kLineWidth) m"
    using b(1) assms(5) by (simp add: quot_int_nonneg kLineWidth_def pos_imp_zdiv_nonneg_iff)
  have "e * 80 div m \<le> m * 80 div m" using assms(4,5) by (intro zdiv_mono1) (simp_all add: e_def)
  then show "quot_int (e * kLineWidth) m \<le> 80"
    using b(1) ae assms(5) by (simp add: quot_int_nonneg kLineWidth_def)
qed

lemma draw_cell_ok:
  "0 \<le> n \<Longrightarrow> n < 80 \<Longrightarrow> length line = 81 \<Longrightarrow> \<exists>line'. draw_cell i n line = Inr line' \<and> length line' = 81"
  by (simp add: draw_cell_def vec_at_def vec_set_def)

lemma draw_buffer_ok:
  assumes "planned p" "printable (reqs p)" "i < nat (buffer_count p)" "length line = 81"
    and "plan_offset (reqs p) i + req_size (reqs p ! i) \<le> m" "80 \<le> m"
  shows "\<exists>line'. draw_buffer p m t i line = Inr line' \<and> length line' = 81"
proof -
  let ?a = "plan_offset (reqs p) i" and ?e = "plan_offset (reqs p) i + req_size (reqs p ! i)"
  let ?s = "quot_int (?a * kLineWidth) m" and ?n = "quot_int (?e * kLineWidth) m"
  note b = scaled_bounds[OF assms(1-3,5,6)] and r = planned_reads[OF assms(1,3)]
  have "\<exists>line'. for_loop (\<lambda>k. draw_cell i (?s + int k)) 0 (nat (?n - ?s)) line = Inr line' \<and> length line' = 81"
    using assms(4) b(3,4) by (intro for_loop_keeps[where P = "\<lambda>l. length l = 81"] draw_cell_ok) auto
  then show ?thesis using assms(4) b(1,2) r by (simp add: draw_buffer_def Let_def checked_int_def)
qed

lemma extent_ok:
  assumes "planned p" "printable (reqs p)"
  shows "\<exists>m tm. for_loop (extent p) 0 (nat (buffer_count p)) (kLineWidth, 0) = Inr (m, tm) \<and>
    (\<forall>i < nat (buffer_count p). plan_offset (reqs p) i + req_size (reqs p ! i) \<le> m) \<and> 80 \<le> m \<and> 0 \<le> tm \<and> tm < 2 ^ 31 - 1"
proof -
  let ?e = "\<lambda>i. plan_offset (reqs p) i + req_size (reqs p ! i)"
  have times: "last_time_used (reqs p ! i) < 2 ^ 31 - 1" if "i < nat (buffer_count p)" for i
    using assms that reqs_facts(1)[of p] by (simp add: printable_def list_all_length planned_def planner_ok_def)
  have "\<exists>m tm. for_loop (extent p) j k (m0, t0) = Inr (m, tm) \<and> (\<forall>i. j \<le> i \<and> i < j + k \<longrightarrow> ?e i \<le> m) \<and> m0 \<le> m \<and>
      t0 \<le> tm \<and> tm < 2 ^ 31 - 1" if "j + k \<le> nat (buffer_count p)" "t0 < 2 ^ 31 - 1" for j k m0 t0
    using that
  proof (induction k arbitrary: j m0 t0)
    case (Suc k)
    have j: "j < nat (buffer_count p)" using Suc.prems(1) by simp
    let ?m = "if ?e j > m0 then ?e j else m0" and ?t = "if last_time_used (reqs p ! j) > t0 then last_time_used (reqs p ! j) else t0"
    have x: "extent p j (m0, t0) = Inr (?m, ?t)" using planned_reads[OF assms(1) j] by (simp add: extent_def)
    have pre: "Suc j + k \<le> nat (buffer_count p)" "?t < 2 ^ 31 - 1" using Suc.prems times[OF j] by simp_all
    obtain m tm where mt: "for_loop (extent p) (Suc j) k (?m, ?t) = Inr (m, tm)"
        "\<forall>i. Suc j \<le> i \<and> i < Suc j + k \<longrightarrow> ?e i \<le> m" "?m \<le> m" "?t \<le> tm" "tm < 2 ^ 31 - 1"
      using Suc.IH[OF pre] by blast
    have "?e j \<le> m" "m0 \<le> m" "t0 \<le> tm" using mt(3,4) by (simp_all split: if_splits)
    moreover have "?e i \<le> m" if "j \<le> i" "i < j + Suc k" for i
      using that mt(2) \<open>?e j \<le> m\<close> by (cases "i = j") auto
    ultimately show ?case using x mt(1,5) by auto
  qed auto
  from this[of 0 "nat (buffer_count p)" 0 kLineWidth] show ?thesis by (auto simp: kLineWidth_def)
qed

lemma print_ok:
  assumes "planner_ok p" "printable (reqs p)"
  shows "\<exists>p' rep. PrintMemoryPlan p = Inr (p', rep) \<and> planned p' \<and> reqs p' = reqs p \<and> max_buffer_count p' = max_buffer_count p"
proof -
  obtain p' where p': "CalculateOffsetsIfNeeded p = Inr p'" "planned p'" "reqs p' = reqs p" "max_buffer_count p' = max_buffer_count p"
    using calculate_planned[OF assms(1)] by blast
  have pr: "printable (reqs p')" using assms(2) p'(3) by simp
  let ?n = "nat (buffer_count p')"
  have "\<exists>rep. for_loop (buffer_report p') 0 ?n [] = Inr rep \<and> True"
    by (rule for_loop_keeps) (use planned_reads[OF p'(2)] in \<open>simp_all add: buffer_report_def\<close>)
  then obtain rep where rep: "for_loop (buffer_report p') 0 ?n [] = Inr rep" by blast
  obtain m tm where mt: "for_loop (extent p') 0 ?n (kLineWidth, 0) = Inr (m, tm)" "80 \<le> m" "0 \<le> tm" "tm < 2 ^ 31 - 1"
      "\<forall>i < ?n. plan_offset (reqs p') i + req_size (reqs p' ! i) \<le> m"
    using extent_ok[OF p'(2) pr] by blast
  have "\<exists>l. for_loop (draw_buffer p' m t) 0 ?n (replicate (nat kLineWidth) CHR ''.'' @ [char_of (0 :: nat)]) = Inr l \<and> length l = 81" for t
    using mt(2,5) draw_buffer_ok[OF p'(2) pr] by (intro for_loop_keeps[where P = "\<lambda>l. length l = 81"]) (auto simp: kLineWidth_def)
  then have line: "\<exists>v. time_line p' m t u = Inr v" for t u by (fastforce simp: time_line_def)
  obtain rep1 where "for_loop (time_line p' m) 0 (nat (tm + 1)) rep = Inr rep1"
    using for_loop_total[of 0 _ "time_line p' m"] line by blast
  then show ?thesis using p' rep mt(1,3,4) by (simp add: PrintMemoryPlan_def Let_def checked_int_def fits_int_def)
qed

end
