(* ===== verification/Planner_Sessions.thy ===== *)
theory Planner_Sessions
  imports Planner_Print
begin

text \<open>
  Sessions with a planner: any sequence of calls from the constructor on, and the claims a client relies
  on, for the greedy and for the linear planner.
\<close>

section \<open>Calls\<close>

datatype planner_call =
    Add int int int
  | Add_offline int int int int
  | Offset int
  | Maximum
  | Check
  | Buffer_count
  | Print_plan

definition planner_step :: "planner_call \<Rightarrow> GreedyMemoryPlanner \<Rightarrow> GreedyMemoryPlanner res" where
  "planner_step c p = (case c of
       Add sz f l \<Rightarrow> bind_res (AddBuffer sz f l p) (\<lambda>(_, p1, _). Inr p1)
     | Add_offline sz f l off \<Rightarrow> bind_res (AddBuffer_offline sz f l off p) (\<lambda>(_, p1, _). Inr p1)
     | Offset k \<Rightarrow> bind_res (GetOffsetForBuffer k p) (\<lambda>(_, _, p1, _). Inr p1)
     | Maximum \<Rightarrow> bind_res (GetMaximumMemorySize p) (\<lambda>(_, p1). Inr p1)
     | Check \<Rightarrow> bind_res (DoAnyBuffersOverlap p) (\<lambda>(_, p1, _). Inr p1)
     | Buffer_count \<Rightarrow> (let n = GetBufferCount p in Inr p)
     | Print_plan \<Rightarrow> bind_res (PrintMemoryPlan p) (\<lambda>(p1, _). Inr p1))"

fun planner_run :: "planner_call list \<Rightarrow> GreedyMemoryPlanner \<Rightarrow> GreedyMemoryPlanner res" where
  "planner_run [] p = Inr p"
| "planner_run (c # cs) p = bind_res (planner_step c p) (planner_run cs)"

text \<open>The buffers the calls ask for.\<close>

fun request :: "planner_call \<Rightarrow> BufferRequirements list" where
  "request (Add sz f l) = [\<lparr>req_size = sz, offline_offset = kOnlinePlannedBuffer, first_time_used = f, last_time_used = l\<rparr>]"
| "request (Add_offline sz f l off) = [\<lparr>req_size = sz, offline_offset = off, first_time_used = f, last_time_used = l\<rparr>]"
| "request _ = []"

lemma plannable_prefix:
  assumes "plannable (rs @ rs')"
  shows "plannable rs" "printable (rs @ rs') \<Longrightarrow> printable rs"
proof -
  have nn: "list_all (\<lambda>r. 0 \<le> req_size r \<and> -1 \<le> offline_offset r) (rs @ rs')" using assms by (simp add: plannable_def)
  have "offline_top rs \<le> offline_top (rs @ rs')"
  proof (induction rs)
    case Nil
    then show ?case using offline_top_upper[of rs'] by (simp add: offline_top_def)
  qed (auto simp: offline_top_def)
  moreover have "0 \<le> sum_list (map req_size rs')" using nn by (intro sum_list_nonneg) (auto simp: list_all_iff)
  ultimately show "plannable rs" "printable (rs @ rs') \<Longrightarrow> printable rs"
    using assms by (simp_all add: plannable_def printable_def)
qed

lemma add_full:
  assumes "planner_ok p" "max_buffer_count p \<le> buffer_count p"
  shows "AddBuffer n f l p = Inr (kTfLiteError, p, [TooManyBuffers (max_buffer_count p)])"
    "AddBuffer_offline n f l off p = Inr (kTfLiteError, p, [TooManyBuffers (max_buffer_count p)])"
  using assms(2) by (simp_all add: AddBuffer_def AddBuffer_offline_def Let_def)

lemma add_offline_ok:
  assumes "planner_ok p" "buffer_count p < max_buffer_count p"
    and "plannable (reqs p @ [\<lparr>req_size = n, offline_offset = off, first_time_used = f, last_time_used = l\<rparr>])"
  shows "\<exists>p'. AddBuffer_offline n f l off p = Inr (kTfLiteOk, p', []) \<and> planner_ok p' \<and> max_buffer_count p' = max_buffer_count p \<and>
    reqs p' = reqs p @ [\<lparr>req_size = n, offline_offset = off, first_time_used = f, last_time_used = l\<rparr>]"
proof -
  let ?r = "\<lparr>req_size = n, offline_offset = off, first_time_used = f, last_time_used = l\<rparr>"
  let ?c = "nat (buffer_count p)"
  have a: "arrays_ok p" using assms(1) by (simp add: planner_ok_def)
  then have c: "0 \<le> buffer_count p" "?c < length (requirements p)" using assms(2) by (auto simp: arrays_ok_def)
  let ?p = "p\<lparr>requirements := (requirements p)[?c := ?r], buffer_count := buffer_count p + 1, need_to_calculate_offsets := True\<rparr>"
  have add: "AddBuffer_offline n f l off p = Inr (kTfLiteOk, ?p, [])"
    using c assms(2) a by (simp add: AddBuffer_offline_def AddBuffer_def vec_set_def vec_at_def arrays_ok_def Let_def)
  have "nat (buffer_count p + 1) = Suc ?c" using c(1) by linarith
  then have "reqs ?p = reqs p @ [?r]" using c(2) by (simp add: reqs_def take_Suc_conv_app_nth)
  moreover have "arrays_ok ?p" using a assms(2) by (simp add: arrays_ok_def)
  ultimately show ?thesis using add assms(3) by (simp add: planner_ok_def)
qed

text \<open>One call keeps the planner well formed and takes the buffer it asks for, if there is room.\<close>

lemma planner_step_ok:
  assumes "planner_ok p" "plannable (take (nat (max_buffer_count p)) (reqs p @ request c))"
    and "c = Print_plan \<Longrightarrow> printable (take (nat (max_buffer_count p)) (reqs p @ request c))"
  shows "\<exists>p'. planner_step c p = Inr p' \<and> planner_ok p' \<and> max_buffer_count p' = max_buffer_count p \<and>
    reqs p' = take (nat (max_buffer_count p)) (reqs p @ request c)"
proof -
  have a: "arrays_ok p" using assms(1) by (simp add: planner_ok_def)
  have n: "length (reqs p) = nat (buffer_count p)" "0 \<le> buffer_count p" "buffer_count p \<le> max_buffer_count p"
    using a reqs_facts(1)[OF a] by (auto simp: arrays_ok_def)
  have none: "take (nat (max_buffer_count p)) (reqs p) = reqs p" using n by simp
  have full: "take (nat (max_buffer_count p)) (reqs p @ xs) = reqs p" if "max_buffer_count p \<le> buffer_count p" for xs
    using n that by simp
  have one: "take (nat (max_buffer_count p)) (reqs p @ [r]) = reqs p @ [r]" if "buffer_count p < max_buffer_count p" for r
    using n that by simp
  show ?thesis
  proof (cases c)
    case (Add sz f l)
    then show ?thesis
      using add_full(1)[OF assms(1), of sz f l] add_buffer_ok[OF assms(1), of sz f l] full one assms
      by (cases "buffer_count p < max_buffer_count p") (auto simp: planner_step_def)
  next
    case (Add_offline sz f l off)
    then show ?thesis
      using add_full(2)[OF assms(1), of sz f l off] add_offline_ok[OF assms(1), of sz off f l] full one assms
      by (cases "buffer_count p < max_buffer_count p") (auto simp: planner_step_def)
  next
    case (Offset k)
    obtain p' where "planned p'" "reqs p' = reqs p" "max_buffer_count p' = max_buffer_count p" "planner_step c p = Inr p'"
      using offset_ok[OF assms(1), of k] Offset by (auto simp: planner_step_def)
    then show ?thesis using Offset none by (auto simp: planned_def)
  next
    case Maximum
    then show ?thesis using maximum_ok[OF assms(1)] none by (auto simp: planner_step_def)
  next
    case Check
    then show ?thesis using overlap_check_ok[OF assms(1)] none by (auto simp: planner_step_def planned_def)
  next
    case Buffer_count
    then show ?thesis using none assms(1) by (simp add: planner_step_def)
  next
    case Print_plan
    then show ?thesis using print_ok[OF assms(1)] assms(3) none by (auto simp: planner_step_def planned_def)
  qed
qed

lemma take_again: "take m (take m xs @ ys) = take m (xs @ ys)"
  by (cases "length xs \<le> m") auto

lemma planner_run_ok:
  assumes "planner_ok p" "plannable (take (nat (max_buffer_count p)) (reqs p @ concat (map request cs)))"
    and "Print_plan \<in> set cs \<Longrightarrow> printable (take (nat (max_buffer_count p)) (reqs p @ concat (map request cs)))"
  shows "\<exists>p'. planner_run cs p = Inr p' \<and> planner_ok p' \<and> max_buffer_count p' = max_buffer_count p \<and>
    reqs p' = take (nat (max_buffer_count p)) (reqs p @ concat (map request cs))"
  using assms
proof (induction cs arbitrary: p)
  case Nil
  then have "length (reqs p) \<le> nat (max_buffer_count p)" by (auto simp: planner_ok_def reqs_def arrays_ok_def)
  then show ?case using Nil by simp
next
  case (Cons c cs)
  let ?m = "nat (max_buffer_count p)"
  have tk: "take ?m (reqs p @ concat (map request (c # cs))) =
      take ?m (reqs p @ request c) @ take (?m - length (reqs p @ request c)) (concat (map request cs))" by simp
  have "plannable (take ?m (reqs p @ request c))" "c = Print_plan \<Longrightarrow> printable (take ?m (reqs p @ request c))"
    using plannable_prefix[OF Cons.prems(2)[unfolded tk]] Cons.prems(3)[unfolded tk] by simp_all
  then obtain q where q: "planner_step c p = Inr q" "planner_ok q" "max_buffer_count q = max_buffer_count p"
      "reqs q = take ?m (reqs p @ request c)"
    using planner_step_ok[OF Cons.prems(1)] by blast
  have r: "take ?m (reqs q @ concat (map request cs)) = take ?m (reqs p @ concat (map request (c # cs)))"
    unfolding q(4) take_again by simp
  then obtain p' where "planner_run cs q = Inr p'" "planner_ok p'" "max_buffer_count p' = max_buffer_count q"
      "reqs p' = take ?m (reqs q @ concat (map request cs))"
    using Cons.IH[OF q(2)] Cons.prems(2,3) q(3) by auto
  then show ?case using q(1,3) r by auto
qed

lemma new_planner_ok:
  assumes "0 \<le> n" "n < 2 ^ 31"
  shows "planner_ok (GreedyMemoryPlanner_new s n)" "reqs (GreedyMemoryPlanner_new s n) = []"
    "max_buffer_count (GreedyMemoryPlanner_new s n) = n div 40"
proof -
  have "fits_int (n div 40)" using assms unfolding fits_int_def by (intro conjI) linarith+
  then have m: "to_int (to_size_t n div per_buffer_size) = n div 40"
    using assms by (simp add: to_size_t_def per_buffer_size_def)
  then show "max_buffer_count (GreedyMemoryPlanner_new s n) = n div 40" by (simp add: GreedyMemoryPlanner_new_def Let_def)
  show "reqs (GreedyMemoryPlanner_new s n) = []" by (simp add: GreedyMemoryPlanner_new_def Let_def reqs_def)
  then show "planner_ok (GreedyMemoryPlanner_new s n)"
    using m assms by (simp add: planner_ok_def) (simp add: GreedyMemoryPlanner_new_def Let_def arrays_ok_def plannable_def offline_top_def)
qed

section \<open>Claims\<close>

text \<open>A session: the three buffers of the interface's documentation, one planned offline, and questions.\<close>

definition sample_scratch :: scratch where
  "sample_scratch = \<lparr>scratch_requirements = (\<lambda>_. \<lparr>req_size = 7, offline_offset = 7, first_time_used = 7, last_time_used = 7\<rparr>),
     scratch_sizes = (\<lambda>_. 9), scratch_ids = (\<lambda>_. 9),
     scratch_entries = (\<lambda>_. \<lparr>entry_offset = 5, requirements_index = 5, next_entry_index = 5\<rparr>), scratch_offsets = (\<lambda>_. 3),
     scratch_words = (4, 4)\<rparr>"

definition sample_calls :: "planner_call list" where
  "sample_calls = [Add 100 0 1, Maximum, Add 50 1 3, Offset 0, Add 50 2 3, Add_offline 20 0 3 60, Check, Print_plan, Buffer_count]"

abbreviation sample_new :: GreedyMemoryPlanner where
  "sample_new \<equiv> GreedyMemoryPlanner_new sample_scratch 400"

definition sample_reqs :: "BufferRequirements list" where
  "sample_reqs = concat (map request sample_calls)"

lemma sample_plannable: "plannable sample_reqs" "length sample_reqs = 4" "printable sample_reqs"
  by (simp_all add: sample_reqs_def sample_calls_def plannable_def printable_def offline_top_def kOnlinePlannedBuffer_def)

lemma sample_run: "\<exists>p. planner_run sample_calls sample_new = Inr p \<and> planner_ok p \<and> reqs p = sample_reqs"
proof -
  note n = new_planner_ok[of 400 sample_scratch]
  have "take 10 (concat (map request sample_calls)) = sample_reqs" using sample_plannable(2) by (simp add: sample_reqs_def)
  then show ?thesis using planner_run_ok[of sample_new sample_calls] n sample_plannable(1,3) by auto
qed

lemma sample_offsets:
  "plan_offset sample_reqs 0 = 80" "plan_offset sample_reqs 1 = 180" "plan_offset sample_reqs 2 = 0" "plan_offset sample_reqs 3 = 60"
  by code_simp+



text \<open>
  Without the bound the print overflows: one buffer of 26843546 bytes can be planned, and its scaled end
  is 2147483680.\<close>

lemma print_overflows:
  "plannable (request (Add 26843546 0 0)) \<and> planner_run [Add 26843546 0 0, Print_plan] sample_new = Inl SignedOverflow"
  by code_simp

text \<open>
  C17: The offsets the greedy planner computes in its linked arrays are the plan on lists: offline planned
  buffers first, then the others by descending size, each put into the first gap that is large
  enough among the buffers in use at the same time; the links run through the entries in the
  order of their offsets.\<close>

theorem greedy_refines_plan:
  assumes "planner_ok p"
  shows "\<exists>p'. CalculateOffsetsIfNeeded p = Inr p' \<and> reqs p' = reqs p \<and>
    (\<forall>b < length (reqs p). buffer_offsets p' ! b = plan_offset (reqs p) b) \<and>
    (reqs p \<noteq> [] \<longrightarrow> (\<exists>js. chain (buffers_sorted_by_offset p') (first_entry_index p') js \<and>
       view (buffers_sorted_by_offset p') js = greedy_plan (reqs p)))"
proof -
  obtain p' where p': "CalculateOffsetsIfNeeded p = Inr p'" "planner_ok p'" "reqs p' = reqs p" "buffer_count p' = buffer_count p"
      "buffer_count p = 0 \<or> (\<exists>js. plan_inv p' (nat (buffer_count p)) js)"
    using calculate_ok[OF assms] by blast
  have a: "arrays_ok p'" "plannable (reqs p')" using p'(2) by (simp_all add: planner_ok_def)
  have n: "length (reqs p) = nat (buffer_count p')" using reqs_facts(1)[OF a(1)] p'(3) by simp
  show ?thesis
  proof (cases "buffer_count p = 0")
    case True
    then show ?thesis using p' n by auto
  next
    case False
    then obtain js where js: "plan_inv p' (nat (buffer_count p')) js" using p'(4,5) by auto
    have v: "view (buffers_sorted_by_offset p') js = greedy_plan (reqs p')"
      "chain (buffers_sorted_by_offset p') (first_entry_index p') js"
      using js n p'(3) unfolding plan_inv_def greedy_plan_def linked_def by (auto simp: placing_order_length)
    have "\<forall>b < length (reqs p). buffer_offsets p' ! b = plan_offset (reqs p) b"
      using plan_inv_offsets[OF a(2) js] n p'(3) by simp
    then show ?thesis using p'(1,3) v by metis
  qed
qed

theorem greedy_refines_plan_witness:
  "\<exists>p p'. planner_run sample_calls sample_new = Inr p \<and> CalculateOffsetsIfNeeded p = Inr p' \<and>
     buffer_offsets p' ! 0 = 80 \<and> buffer_offsets p' ! 1 = 180 \<and> buffer_offsets p' ! 2 = 0 \<and> buffer_offsets p' ! 3 = 60"
proof -
  obtain p where p: "planner_run sample_calls sample_new = Inr p" "planner_ok p" "reqs p = sample_reqs" using sample_run by blast
  then obtain p' where "CalculateOffsetsIfNeeded p = Inr p'" "\<forall>b < 4. buffer_offsets p' ! b = plan_offset sample_reqs b"
    using greedy_refines_plan[OF p(2)] sample_plannable(2) by auto
  then show ?thesis using p(1) sample_offsets by auto
qed

text \<open>
  C16: Two buffers that are in use at the same time, not both planned offline, get offsets whose ranges
  share no byte; an offline planned buffer gets the offset it asked for, and every offset is
  non-negative.\<close>

theorem greedy_no_overlap:
  assumes "planner_ok p" "i < length (reqs p)" "j < length (reqs p)" "i \<noteq> j"
    and "online (reqs p ! i) \<or> online (reqs p ! j)" "same_time (reqs p ! i) (reqs p ! j)"
  shows "\<exists>oi oj p1 p2. GetOffsetForBuffer (int i) p = Inr (kTfLiteOk, Some oi, p1, []) \<and>
    GetOffsetForBuffer (int j) p1 = Inr (kTfLiteOk, Some oj, p2, []) \<and> 0 \<le> oi \<and> 0 \<le> oj \<and>
    disjoint_ranges oi (req_size (reqs p ! i)) oj (req_size (reqs p ! j)) \<and>
    (\<not> online (reqs p ! i) \<longrightarrow> oi = offline_offset (reqs p ! i))"
proof -
  have pl: "plannable (reqs p)" using assms(1) by (simp add: planner_ok_def)
  obtain p1 where p1: "planned p1" "reqs p1 = reqs p"
      "GetOffsetForBuffer (int i) p = Inr (kTfLiteOk, Some (plan_offset (reqs p) i), p1, [])"
    using offset_ok[OF assms(1), of "int i"] assms(2) by auto
  then obtain p2 where "GetOffsetForBuffer (int j) p1 = Inr (kTfLiteOk, Some (plan_offset (reqs p) j), p2, [])"
    using offset_ok[of p1 "int j"] assms(3) by (auto simp: planned_def)
  then show ?thesis using p1(3) plan_apart[OF pl assms(2-6)] plan_nonneg[OF pl] assms(2,3) by blast
qed

theorem greedy_no_overlap_witness:
  "\<exists>p oi oj p1 p2. planner_run sample_calls sample_new = Inr p \<and>
     GetOffsetForBuffer 1 p = Inr (kTfLiteOk, Some oi, p1, []) \<and> GetOffsetForBuffer 3 p1 = Inr (kTfLiteOk, Some oj, p2, []) \<and>
     disjoint_ranges oi 50 oj 20"
proof -
  obtain p where p: "planner_run sample_calls sample_new = Inr p" "planner_ok p" "reqs p = sample_reqs" using sample_run by blast
  have "online (sample_reqs ! 1) \<or> online (sample_reqs ! 3)" "same_time (sample_reqs ! 1) (sample_reqs ! 3)"
    "req_size (sample_reqs ! 1) = 50" "req_size (sample_reqs ! 3) = 20"
    by (simp_all add: sample_reqs_def sample_calls_def same_time_def)
  then show ?thesis using greedy_no_overlap[OF p(2), of 1 3] p(1,3) sample_plannable(2) by auto
qed

text \<open>
  \<^verbatim>\<open>ReverseSortInPlace\<close> ends, sorts the values in descending order, moves the ids along with them, and
  is stable as its comment says: it is the stable sort of the pairs.\<close>

lemma reverse_sort_stable:
  assumes "length vs = length ds"
  shows "case ReverseSortInPlace vs ds of (vs', ds') \<Rightarrow>
    length vs' = length vs \<and> length ds' = length ds \<and> zip vs' ds' = sort_key (\<lambda>x. - fst x) (zip vs ds)"
proof -
  obtain vs' ds' where r: "ReverseSortInPlace vs ds = (vs', ds')" by force
  then show ?thesis using ReverseSortInPlace_sort_key[OF r assms] ReverseSortInPlace_props[OF r assms] by simp
qed

text \<open>
  C37: The memory size the greedy planner reports is exactly the largest end of a placed buffer: every
  buffer ends at or before it, one ends there, and it is below \<open>2 ^ 31\<close>, so that the conversion to
  \<^verbatim>\<open>size_t\<close> loses nothing.\<close>

theorem greedy_high_water:
  assumes "planner_ok p" "reqs p \<noteq> []"
  shows "\<exists>m p'. GetMaximumMemorySize p = Inr (m, p') \<and> reqs p' = reqs p \<and> 0 \<le> m \<and> m < 2 ^ 31 \<and>
    (\<forall>b < length (reqs p). plan_offset (reqs p) b + req_size (reqs p ! b) \<le> m) \<and>
    (\<exists>b < length (reqs p). plan_offset (reqs p) b + req_size (reqs p ! b) = m)"
proof -
  have pl: "plannable (reqs p)" using assms(1) by (simp add: planner_ok_def)
  let ?e = "\<lambda>b. plan_offset (reqs p) b + req_size (reqs p ! b)" and ?n = "length (reqs p)"
  obtain p' where p': "GetMaximumMemorySize p = Inr (plan_top (reqs p), p')" "reqs p' = reqs p"
    using maximum_ok[OF assms(1)] by blast
  have top: "plan_top (reqs p) = Max (insert 0 (?e ` {0..<?n}))" by (simp add: plan_top_def foldl_max)
  have e: "0 \<le> ?e b" "?e b < 2 ^ 31" if "b < ?n" for b using plan_nonneg[OF pl that] by simp_all
  have "0 < ?n" using assms(2) by simp
  then have "?e 0 \<le> Max (?e ` {0..<?n})" by (intro Max_ge) auto
  then have "0 \<le> Max (?e ` {0..<?n})" using e(1)[OF \<open>0 < ?n\<close>] by linarith
  then have "Max (insert 0 (?e ` {0..<?n})) = Max (?e ` {0..<?n})" using \<open>0 < ?n\<close> by (subst Max_insert) (auto simp: max_def)
  moreover have "Max (?e ` {0..<?n}) \<in> ?e ` {0..<?n}" using \<open>0 < ?n\<close> by (intro Max_in) auto
  ultimately obtain b where b: "b < ?n" "plan_top (reqs p) = ?e b" using top by auto
  then show ?thesis using p' e plan_top_upper[of _ "reqs p"]
    by (intro exI[of _ "plan_top (reqs p)"] exI[of _ p']) auto
qed

theorem greedy_high_water_witness:
  "\<exists>p m p'. planner_run sample_calls sample_new = Inr p \<and> GetMaximumMemorySize p = Inr (m, p') \<and> 230 \<le> m"
proof -
  obtain p where p: "planner_run sample_calls sample_new = Inr p" "planner_ok p" "reqs p = sample_reqs" using sample_run by blast
  have "reqs p \<noteq> []" using p(3) sample_plannable(2) by auto
  then obtain m p' where "GetMaximumMemorySize p = Inr (m, p')" "\<forall>b < 4. plan_offset sample_reqs b + req_size (sample_reqs ! b) \<le> m"
    using greedy_high_water[OF p(2)] p(3) sample_plannable(2) by auto
  moreover have "req_size (sample_reqs ! 1) = 50" by (simp add: sample_reqs_def sample_calls_def)
  ultimately have "GetMaximumMemorySize p = Inr (m, p')" "230 \<le> m" using sample_offsets(2) by (auto dest: spec[of _ 1])
  then show ?thesis using p(1) by blast
qed

text \<open>
  In every state of a planner that holds a plannable list of buffers, the debug check \<^verbatim>\<open>DoAnyBuffersOverlap\<close> returns, and it returns true exactly when two
  buffers are in use at the same time and share memory, and those two are both planned offline, with offsets that clash: the planner itself never makes buffers clash.\<close>

lemma overlap_check_exact:
  assumes "planner_ok p"
  shows "\<exists>found p' rep. DoAnyBuffersOverlap p = Inr (found, p', rep) \<and> reqs p' = reqs p \<and>
    (found \<longleftrightarrow> (\<exists>i < length (reqs p). \<exists>j < length (reqs p). \<not> online (reqs p ! i) \<and> \<not> online (reqs p ! j) \<and>
       clash (reqs p) (\<lambda>b. offline_offset (reqs p ! b)) i j))"
proof -
  have pl: "plannable (reqs p)" using assms by (simp add: planner_ok_def)
  have eq: "clash (reqs p) (plan_offset (reqs p)) i j \<longleftrightarrow> \<not> online (reqs p ! i) \<and> \<not> online (reqs p ! j) \<and>
      clash (reqs p) (\<lambda>b. offline_offset (reqs p ! b)) i j" if "i < length (reqs p)" "j < length (reqs p)" for i j
    using plan_apart[OF pl that] plan_nonneg(3)[OF pl that(1)] plan_nonneg(3)[OF pl that(2)]
    by (cases "online (reqs p ! i) \<or> online (reqs p ! j)") (auto simp: clash_def)
  let ?n = "length (reqs p)"
  have "(\<exists>i < ?n. \<exists>j < ?n. clash (reqs p) (plan_offset (reqs p)) i j) \<longleftrightarrow>
      (\<exists>i < ?n. \<exists>j < ?n. \<not> online (reqs p ! i) \<and> \<not> online (reqs p ! j) \<and>
       clash (reqs p) (\<lambda>b. offline_offset (reqs p ! b)) i j)"
    using eq by meson
  moreover obtain p' rep where "DoAnyBuffersOverlap p =
      Inr (\<exists>i < ?n. \<exists>j < ?n. clash (reqs p) (plan_offset (reqs p)) i j, p', rep)" "reqs p' = reqs p"
    using overlap_check_ok[OF assms] by blast
  ultimately show ?thesis by blast
qed

text \<open>Adding buffers to a linear planner until one is refused.\<close>

fun lin_add_all :: "BufferRequirements list \<Rightarrow> LinearMemoryPlanner \<Rightarrow> (TfLiteStatus \<times> LinearMemoryPlanner) res" where
  "lin_add_all [] p = Inr (kTfLiteOk, p)"
| "lin_add_all (r # rs) p =
     bind_res (lin_AddBuffer (req_size r) (first_time_used r) (last_time_used r) p) (\<lambda>(st, p1, _).
       if st = kTfLiteOk then lin_add_all rs p1 else Inr (st, p1))"

lemma lin_add_all_ok:
  assumes "lin_holds p rs" "length (rs @ rs') \<le> 1024" "list_all (\<lambda>r. 0 \<le> req_size r) (rs @ rs')" "lin_sum (rs @ rs') < 2 ^ 31"
  shows "\<exists>p'. lin_add_all rs' p = Inr (kTfLiteOk, p') \<and> lin_holds p' (rs @ rs')"
  using assms
proof (induction rs' arbitrary: p rs)
  case (Cons r rs')
  have "lin_sum (rs @ r # rs') = lin_sum (rs @ [r]) + lin_sum rs'" by (simp add: lin_sum_def)
  moreover have "0 \<le> lin_sum rs'" using Cons.prems(3) by (intro lin_sum_nonneg) simp
  ultimately have "lin_room p rs r" using Cons.prems(2-4) by (simp add: lin_room_def)
  then obtain p1 where p1: "lin_AddBuffer (req_size r) (first_time_used r) (last_time_used r) p = Inr (kTfLiteOk, p1, [])"
      "lin_holds p1 (rs @ [r])"
    using lin.add_ok[OF Cons.prems(1)] by blast
  then show ?case using Cons.IH[OF p1(2)] Cons.prems(2-4) by simp
qed simp

text \<open>
  The linear planner, told of at most 1024 buffers whose sizes are not negative and add up to less than
  \<open>2 ^ 31\<close>, accepts them all and answers, in any order of questions, with the sum of the sizes before
  each buffer; a number that is not a buffer gets no offset. It reports the total as the memory size.\<close>

lemma linear_layout:
  assumes "length rs \<le> 1024" "list_all (\<lambda>r. 0 \<le> req_size r) rs" "lin_sum rs < 2 ^ 31"
  shows "\<exists>p p'. lin_add_all rs (LinearMemoryPlanner_new memory) = Inr (kTfLiteOk, p) \<and>
    lin.ask ks p = Inr (map (\<lambda>k. if 0 \<le> k \<and> k < int (length rs) then Some (lin_sum (take (nat k) rs)) else None) ks, p') \<and>
    lin_GetMaximumMemorySize p = lin_sum rs"
proof -
  obtain p where p: "lin_add_all rs (LinearMemoryPlanner_new memory) = Inr (kTfLiteOk, p)" "lin_holds p rs"
    using lin_add_all_ok[OF lin_new_holds, of rs memory] assms by auto
  have off: "lin_buffer_offsets p ! nat k = lin_sum (take (nat k) rs)" if "0 \<le> k" "k < int (length rs)" for k
    using p(2) that by (simp add: lin_holds_def nat_less_iff)
  obtain p' where "lin.ask ks p = Inr (map (\<lambda>k. if 0 \<le> k \<and> k < int (length rs) then Some (lin_buffer_offsets p ! nat k) else None) ks, p')"
    using lin.ask_answers[OF p(2)] by blast
  also have "map (\<lambda>k. if 0 \<le> k \<and> k < int (length rs) then Some (lin_buffer_offsets p ! nat k) else None) ks =
      map (\<lambda>k. if 0 \<le> k \<and> k < int (length rs) then Some (lin_sum (take (nat k) rs)) else None) ks"
    using off by (intro map_cong) auto
  finally show ?thesis using p by (auto simp: lin_GetMaximumMemorySize_def lin_holds_def)
qed

end
