(* ===== verification/Shape_Index.thy ===== *)
theory Shape_Index
  imports Prelude
begin

text \<open>
  Indices into a tensor, from \<^verbatim>\<open>kernels/internal/types.h\<close> of TensorFlow Lite: the step to the next index,
  the flat offset of an index with some axes left out, and the flat offsets of the four- and
  five-dimensional kernels. Shapes and indices are lists with one entry for each axis.
\<close>

section \<open>The operations\<close>

text \<open>
  The loop of \<^verbatim>\<open>NextIndex\<close> runs from the last axis down. The carry is 1 until the loop is left, so only the
  result needs it: the loop is left early with carry 0.
\<close>

fun next_index_loop :: "nat \<Rightarrow> int list \<Rightarrow> int list \<Rightarrow> (bool \<times> int list) res" where
  "next_index_loop 0 dims current = Inr (False, current)"
| "next_index_loop (Suc idx) dims current =
     bind_res (vec_at current (int idx)) (\<lambda>c.
     bind_res (checked_int (c + 1)) (\<lambda>current_val.
     bind_res (vec_at dims (int idx)) (\<lambda>d.
       if d = current_val then bind_res (vec_set current (int idx) 0) (next_index_loop idx dims)
       else bind_res (vec_set current (int idx) current_val) (\<lambda>cur. Inr (True, cur)))))"

definition NextIndex :: "int \<Rightarrow> int list \<Rightarrow> int list \<Rightarrow> (bool \<times> int list) res" where
  "NextIndex num_dims dims current =
     (if num_dims = 0 then Inr (False, current) else next_index_loop (nat num_dims) dims current)"

text \<open>Is \<open>idx\<close> among the first entries of \<^verbatim>\<open>axis\<close>? A null pointer is \<open>None\<close>.\<close>

fun axis_scan :: "int \<Rightarrow> nat \<Rightarrow> nat \<Rightarrow> int list \<Rightarrow> bool res" where
  "axis_scan x i 0 axis = Inr False"
| "axis_scan x i (Suc n) axis = bind_res (vec_at axis (int i)) (\<lambda>a. if x = a then Inr True else axis_scan x (Suc i) n axis)"

definition is_axis :: "int \<Rightarrow> int \<Rightarrow> int list option \<Rightarrow> bool res" where
  "is_axis idx num_axis axis = (case axis of None \<Rightarrow> Inr False | Some ax \<Rightarrow> axis_scan idx 0 (nat num_axis) ax)"

text \<open>The offset is a \<^verbatim>\<open>size_t\<close>, and so are the factors.\<close>

definition ReducedOutputOffset :: "int \<Rightarrow> int list \<Rightarrow> int list \<Rightarrow> int \<Rightarrow> int list option \<Rightarrow> int res" where
  "ReducedOutputOffset num_dims dims index num_axis axis =
     (if num_dims = 0 then Inr 0
      else for_loop (\<lambda>idx offset.
             bind_res (is_axis (int idx) num_axis axis) (\<lambda>skip.
               if skip then Inr offset
               else bind_res (vec_at dims (int idx)) (\<lambda>d. bind_res (vec_at index (int idx)) (\<lambda>i.
                 Inr (to_size_t (offset * to_size_t d + to_size_t i)))))) 0 (nat num_dims) 0)"

text \<open>\<^verbatim>\<open>RuntimeShape::FlatSize\<close> and \<^verbatim>\<open>FlatSizeSkipDim\<close>.\<close>

definition FlatSize :: "int list \<Rightarrow> int res" where
  "FlatSize dims_data = for_loop (\<lambda>i buffer_size. bind_res (vec_at dims_data (int i)) (\<lambda>d. checked_int (buffer_size * d))) 0 (length dims_data) 1"

definition FlatSizeSkipDim :: "int list \<Rightarrow> int \<Rightarrow> int res" where
  "FlatSizeSkipDim dims_data skip_dim =
     for_loop (\<lambda>i flat_size. bind_res (if int i = skip_dim then Inr 1 else vec_at dims_data (int i)) (\<lambda>d. checked_int (flat_size * d)))
       0 (length dims_data) 1"

text \<open>One step \<open>a * d + i\<close> of the offset computations.\<close>

definition mul_add :: "int \<Rightarrow> int \<Rightarrow> int \<Rightarrow> int res" where
  "mul_add a d i = bind_res (checked_int (a * d)) (\<lambda>m. checked_int (m + i))"

definition Offset4 :: "int list \<Rightarrow> int \<Rightarrow> int \<Rightarrow> int \<Rightarrow> int \<Rightarrow> int res" where
  "Offset4 shape i0 i1 i2 i3 =
     bind_res (vec_at shape 1) (\<lambda>d1. bind_res (vec_at shape 2) (\<lambda>d2. bind_res (vec_at shape 3) (\<lambda>d3.
     bind_res (mul_add i0 d1 i1) (\<lambda>a. bind_res (mul_add a d2 i2) (\<lambda>b. mul_add b d3 i3)))))"

definition Offset5 :: "int list \<Rightarrow> int \<Rightarrow> int \<Rightarrow> int \<Rightarrow> int \<Rightarrow> int \<Rightarrow> int res" where
  "Offset5 shape i0 i1 i2 i3 i4 =
     bind_res (vec_at shape 1) (\<lambda>d1. bind_res (vec_at shape 2) (\<lambda>d2. bind_res (vec_at shape 3) (\<lambda>d3. bind_res (vec_at shape 4) (\<lambda>d4.
     bind_res (mul_add i0 d1 i1) (\<lambda>a. bind_res (mul_add a d2 i2) (\<lambda>b. bind_res (mul_add b d3 i3) (\<lambda>c. mul_add c d4 i4)))))))"

text \<open>The legacy description of a shape: sizes and strides with the fastest axis first.\<close>

record Dims4 =
  dim_sizes :: "int list"
  dim_strides :: "int list"

definition ToRuntimeDims :: "int list \<Rightarrow> Dims4 res" where
  "ToRuntimeDims array_shape =
     (let dimensions_count = int (length array_shape) in
      bind_res (if dimensions_count \<le> 4 then Inr () else Inl (ProcessExit 134)) (\<lambda>_.
      bind_res (for_loop (\<lambda>i (szs, sts, cum_prod).
          bind_res (if int i < dimensions_count then vec_at array_shape (dimensions_count - 1 - int i) else Inr 1) (\<lambda>new_dim.
          bind_res (checked_int (cum_prod * new_dim)) (\<lambda>cum. Inr (szs @ [new_dim], sts @ [cum_prod], cum)))) 0 4 ([], [], 1))
        (\<lambda>(szs, sts, _). Inr \<lparr>dim_sizes = szs, dim_strides = sts\<rparr>)))"

definition DimsToShape :: "Dims4 \<Rightarrow> int list res" where
  "DimsToShape dims =
     bind_res (vec_at (dim_sizes dims) 3) (\<lambda>a. bind_res (vec_at (dim_sizes dims) 2) (\<lambda>b.
     bind_res (vec_at (dim_sizes dims) 1) (\<lambda>c. bind_res (vec_at (dim_sizes dims) 0) (\<lambda>d. Inr [a, b, c, d]))))"

definition OffsetDims :: "Dims4 \<Rightarrow> int \<Rightarrow> int \<Rightarrow> int \<Rightarrow> int \<Rightarrow> int res" where
  "OffsetDims dims i0 i1 i2 i3 =
     bind_res (vec_at (dim_strides dims) 0) (\<lambda>s0. bind_res (vec_at (dim_strides dims) 1) (\<lambda>s1.
     bind_res (vec_at (dim_strides dims) 2) (\<lambda>s2. bind_res (vec_at (dim_strides dims) 3) (\<lambda>s3.
     bind_res (checked_int (i0 * s0)) (\<lambda>p0. bind_res (checked_int (i1 * s1)) (\<lambda>p1. bind_res (checked_int (p0 + p1)) (\<lambda>a.
     bind_res (checked_int (i2 * s2)) (\<lambda>p2. bind_res (checked_int (a + p2)) (\<lambda>b.
     bind_res (checked_int (i3 * s3)) (\<lambda>p3. checked_int (b + p3)))))))))))"

section \<open>Row-major order\<close>

definition flat_index :: "int list \<Rightarrow> int list \<Rightarrow> int" where
  "flat_index sh idx = foldl (\<lambda>acc (i, d). acc * d + i) 0 (zip idx sh)"

text \<open>All indices of a shape, the last axis fastest.\<close>

definition indices :: "int list \<Rightarrow> int list list" where
  "indices sh = product_lists (map (\<lambda>d. [0 .. d - 1]) sh)"

definition valid_index :: "int list \<Rightarrow> int list \<Rightarrow> bool" where
  "valid_index sh idx \<longleftrightarrow> list_all2 (\<lambda>d i. 0 \<le> i \<and> i < d) sh idx"

lemma valid_index_length: "valid_index sh idx \<Longrightarrow> length idx = length sh"
  by (simp add: valid_index_def list_all2_lengthD)

lemma valid_index_snoc:
  "valid_index (ds @ [d]) (us @ [i]) \<longleftrightarrow> valid_index ds us \<and> 0 \<le> i \<and> i < d"
  by (cases "length ds = length us") (auto simp: valid_index_def list_all2_append dest: list_all2_lengthD)

lemma flat_index_Nil [simp]: "flat_index [] idx = 0" "flat_index sh [] = 0"
  by (simp_all add: flat_index_def)

lemma flat_index_snoc:
  "length ds = length us \<Longrightarrow> flat_index (ds @ [d]) (us @ [i]) = flat_index ds us * d + i"
  by (simp add: flat_index_def)

lemma indices_iff: "idx \<in> set (indices sh) \<longleftrightarrow> valid_index sh idx"
proof -
  have "idx \<in> set (indices sh) \<longleftrightarrow> list_all2 (\<lambda>i xs. i \<in> set xs) idx (map (\<lambda>d. [0 .. d - 1]) sh)"
    by (simp add: indices_def product_lists_set list_all2_conv_all_nth in_set_conv_nth) 
  then show ?thesis by (auto simp: valid_index_def list_all2_conv_all_nth)
qed

text \<open>Flat offsets number the indices of a shape.\<close>

lemma valid_snocE:
  assumes "valid_index (ds @ [d]) idx"
  obtains us i where "idx = us @ [i]" "valid_index ds us" "0 \<le> i" "i < d"
  using assms by (cases idx rule: rev_cases) (auto simp: valid_index_snoc dest: valid_index_length)

lemma flat_index_bounds:
  assumes "valid_index sh idx"
  shows "0 \<le> flat_index sh idx \<and> flat_index sh idx < prod_list sh"
  using assms
proof (induction sh arbitrary: idx rule: rev_induct)
  case (snoc d ds)
  from snoc.prems obtain us i where e: "idx = us @ [i]" and v: "valid_index ds us" "0 \<le> i" "i < d" by (rule valid_snocE)
  have f: "flat_index (ds @ [d]) idx = flat_index ds us * d + i" using e valid_index_length[OF v(1)] by (simp add: flat_index_snoc)
  note ih = snoc.IH[OF v(1)]
  have "(flat_index ds us + 1) * d \<le> prod_list ds * d" using ih v by (intro mult_right_mono) simp_all
  then show ?case using f v ih by (simp add: algebra_simps)
qed (simp_all add: valid_index_def)

lemma flat_index_inj:
  assumes "valid_index sh a" "valid_index sh b" "flat_index sh a = flat_index sh b"
  shows "a = b"
  using assms
proof (induction sh arbitrary: a b rule: rev_induct)
  case (snoc d ds)
  obtain as i where a: "a = as @ [i]" "valid_index ds as" "0 \<le> i" "i < d" using snoc.prems(1) by (rule valid_snocE)
  obtain bs j where b: "b = bs @ [j]" "valid_index ds bs" "0 \<le> j" "j < d" using snoc.prems(2) by (rule valid_snocE)
  have e: "flat_index ds as * d + i = flat_index ds bs * d + j"
    using snoc.prems(3) a b by (simp add: flat_index_snoc valid_index_length)
  have "i = j" using arg_cong[OF e, of "\<lambda>x. x mod d"] a b by simp
  moreover have "flat_index ds as = flat_index ds bs" using e \<open>i = j\<close> a by simp
  ultimately show ?case using snoc.IH[OF a(2) b(2)] a b by simp
qed (simp add: valid_index_def)

lemma product_lists_snoc:
  "product_lists (xss @ [ys]) = concat (map (\<lambda>p. map (\<lambda>y. p @ [y]) ys) (product_lists xss))"
proof (induction xss)
  case (Cons xs xss)
  have cc: "concat (concat zss) = concat (map concat zss)" for zss :: "'a list list list list" by (induction zss) simp_all
  show ?case using Cons.IH by (simp add: map_concat comp_def cc)
qed (simp add: concat_map_singleton)

lemma upto_blocks:
  assumes "0 \<le> (d::int)"
  shows "concat (map (\<lambda>q. map (\<lambda>y. q * d + y) [0 .. d - 1]) [0 .. int n - 1]) = [0 .. int n * d - 1]"
proof (induction n)
  case (Suc n)
  have "[0 .. int (Suc n) - 1] = [0 .. int n - 1] @ [int n]" by (simp add: upto_rec2)
  moreover have "map (\<lambda>y. int n * d + y) [0 .. d - 1] = [int n * d .. int n * d + d - 1]"
    by (rule nth_equalityI) (simp_all add: algebra_simps)
  moreover have "[0 .. int n * d - 1] @ [int n * d .. int n * d + d - 1] = [0 .. int n * d + d - 1]"
    using upto_split1[of 0 "int n * d" "int n * d + d - 1"] assms by (cases "d = 0") simp_all
  ultimately show ?case using Suc.IH by (simp add: algebra_simps)
qed simp

lemma flat_index_indices:
  assumes "\<forall>d \<in> set sh. 0 \<le> d"
  shows "map (flat_index sh) (indices sh) = [0 .. prod_list sh - 1]"
  using assms
proof (induction sh rule: rev_induct)
  case (snoc d ds)
  have P: "0 \<le> prod_list ds" using snoc.prems by (induction ds) auto
  have len: "length p = length ds" if "p \<in> set (indices ds)" for p using that by (simp add: indices_iff valid_index_length)
  have "map (flat_index (ds @ [d])) (indices (ds @ [d])) =
      concat (map (\<lambda>p. map (\<lambda>y. flat_index ds p * d + y) [0 .. d - 1]) (indices ds))"
    using len by (simp add: indices_def product_lists_snoc map_concat comp_def flat_index_snoc cong: map_cong)
  also have "\<dots> = concat (map (\<lambda>q. map (\<lambda>y. q * d + y) [0 .. d - 1]) (map (flat_index ds) (indices ds)))"
    by (simp add: comp_def)
  also have "\<dots> = [0 .. prod_list ds * d - 1]"
    using snoc.IH snoc.prems P upto_blocks[of d "nat (prod_list ds)"] by simp
  finally show ?case by simp
qed (simp add: indices_def)

lemma indices_nth:
  assumes "\<forall>d \<in> set sh. 0 \<le> d"
  shows "length (indices sh) = nat (prod_list sh)"
    and "k < nat (prod_list sh) \<Longrightarrow> valid_index sh (indices sh ! k) \<and> flat_index sh (indices sh ! k) = int k"
proof -
  note f = flat_index_indices[OF assms]
  show l: "length (indices sh) = nat (prod_list sh)" using arg_cong[OF f, of length] by simp
  assume k: "k < nat (prod_list sh)"
  have "flat_index sh (indices sh ! k) = [0 .. prod_list sh - 1] ! k" unfolding f[symmetric] using k l by simp
  moreover have "indices sh ! k \<in> set (indices sh)" using k l by simp
  ultimately show "valid_index sh (indices sh ! k) \<and> flat_index sh (indices sh ! k) = int k"
    using k by (simp add: indices_iff)
qed

section \<open>The next index\<close>

text \<open>
  What the loop does to the first \<open>n\<close> axes: the next index of their shape, or the first one again when there is none.
\<close>

lemma next_index_loop_step:
  assumes "n \<le> length sh" "length cur = length sh" "valid_index (take n sh) (take n cur)" "\<forall>d \<in> set sh. d < 2 ^ 31"
  shows "\<exists>cur'. next_index_loop n sh cur = Inr (flat_index (take n sh) (take n cur) + 1 < prod_list (take n sh), cur') \<and>
    drop n cur' = drop n cur \<and> length cur' = length cur \<and> valid_index (take n sh) (take n cur') \<and>
    flat_index (take n sh) (take n cur') =
      (if flat_index (take n sh) (take n cur) + 1 < prod_list (take n sh) then flat_index (take n sh) (take n cur) + 1 else 0)"
  using assms
proof (induction n arbitrary: cur)
  case (Suc n)
  define d c where "d = sh ! n" and "c = cur ! n"
  have n: "n < length sh" "n < length cur" using Suc.prems by simp_all
  have t: "take (Suc n) sh = take n sh @ [d]" "take (Suc n) cur = take n cur @ [c]"
    using n by (simp_all add: d_def c_def take_Suc_conv_app_nth)
  have v: "valid_index (take n sh) (take n cur)" "0 \<le> c" "c < d" using Suc.prems(3) by (simp_all add: t valid_index_snoc)
  have d: "d < 2 ^ 31" using Suc.prems(4) n by (simp add: d_def)
  let ?f = "flat_index (take n sh) (take n cur)" and ?P = "prod_list (take n sh)"
  have f: "flat_index (take (Suc n) sh) (take (Suc n) cur) = ?f * d + c" "prod_list (take (Suc n) sh) = ?P * d"
    using n by (simp_all add: t flat_index_snoc)
  have b: "0 \<le> ?f" "?f < ?P" using flat_index_bounds[OF v(1)] by blast+
  show ?case
  proof (cases "d = c + 1")
    case True
    have "?f * d + c + 1 = (?f + 1) * d" using True by (simp add: algebra_simps)
    then have lt: "?f * d + c + 1 < ?P * d \<longleftrightarrow> ?f + 1 < ?P" using v by (simp add: mult_less_cancel_right_pos)
    have tk: "take n (cur[n := 0]) = take n cur" by simp
    obtain cur' where c': "next_index_loop n sh (cur[n := 0]) = Inr (?f + 1 < ?P, cur')" "drop n cur' = drop n (cur[n := 0])"
        "length cur' = length cur" "valid_index (take n sh) (take n cur')"
        "flat_index (take n sh) (take n cur') = (if ?f + 1 < ?P then ?f + 1 else 0)"
      using Suc.IH[of "cur[n := 0]"] Suc.prems v(1) by (auto simp: tk)
    have "cur' ! n = 0" using arg_cong[OF c'(2), of hd] n c'(3) by (simp add: hd_drop_conv_nth)
    then have t': "take (Suc n) cur' = take n cur' @ [0]" using n c'(3) by (simp add: take_Suc_conv_app_nth)
    have dr: "drop (Suc n) cur' = drop (Suc n) cur" using arg_cong[OF c'(2), of "drop 1"] by simp
    show ?thesis
    proof (intro exI[of _ cur'] conjI)
      show "next_index_loop (Suc n) sh cur = Inr (flat_index (take (Suc n) sh) (take (Suc n) cur) + 1 < prod_list (take (Suc n) sh), cur')"
        using n c'(1) True v d lt unfolding f by (simp add: d_def c_def fits_int_def vec_at_def vec_set_def checked_int_def del: bind_res_eq_Inr)
    qed (use dr c'(3-5) True v n lt in \<open>simp_all add: t t' f valid_index_snoc flat_index_snoc algebra_simps\<close>)
  next
    case False
    let ?cur = "cur[n := c + 1]"
    have t': "take (Suc n) ?cur = take n cur @ [c + 1]" using n by (simp add: take_Suc_conv_app_nth)
    have "(?f + 1) * d \<le> ?P * d" using b v by (intro mult_right_mono) simp_all
    then have lt: "?f * d + c + 1 < ?P * d" using False v by (simp add: algebra_simps)
    show ?thesis
    proof (intro exI[of _ ?cur] conjI)
      show "next_index_loop (Suc n) sh cur = Inr (flat_index (take (Suc n) sh) (take (Suc n) cur) + 1 < prod_list (take (Suc n) sh), ?cur)"
        using n False v d lt unfolding f by (simp add: d_def c_def fits_int_def vec_at_def vec_set_def checked_int_def del: bind_res_eq_Inr)
    qed (use False v n lt in \<open>simp_all add: t t' f valid_index_snoc flat_index_snoc\<close>)
  qed
qed simp

text \<open>\<^verbatim>\<open>NextIndex\<close> steps through the indices of the shape in row-major order and starts over after the last.\<close>

definition shape_ok :: "int list \<Rightarrow> bool" where
  "shape_ok sh \<longleftrightarrow> (\<forall>d \<in> set sh. 1 \<le> d \<and> d < 2 ^ 31)"

lemma shape_ok_nonneg: "shape_ok sh \<Longrightarrow> \<forall>d \<in> set sh. 0 \<le> d"
  by (auto simp: shape_ok_def)

lemma prod_list_pos: "shape_ok sh \<Longrightarrow> 1 \<le> prod_list sh"
proof (induction sh)
  case (Cons d sh)
  then have "1 \<le> d" "1 \<le> prod_list sh" by (auto simp: shape_ok_def)
  then show ?case using mult_mono[of 1 d 1 "prod_list sh"] by simp
qed simp

lemma shape_ok_take: "shape_ok sh \<Longrightarrow> shape_ok (take m sh)"
  by (auto simp: shape_ok_def dest: in_set_takeD)

lemma next_index_indices:
  assumes "shape_ok sh" "k < nat (prod_list sh)"
  shows "NextIndex (int (length sh)) sh (indices sh ! k) =
    Inr (Suc k < nat (prod_list sh), indices sh ! (if Suc k < nat (prod_list sh) then Suc k else 0))"
proof -
  note nn = shape_ok_nonneg[OF assms(1)]
  let ?N = "nat (prod_list sh)" and ?n = "length sh"
  have k: "valid_index sh (indices sh ! k)" "flat_index sh (indices sh ! k) = int k" using indices_nth(2)[OF nn assms(2)] by blast+
  obtain cur where c: "next_index_loop ?n sh (indices sh ! k) = Inr (int k + 1 < prod_list sh, cur)" "length cur = ?n"
      "valid_index sh cur" "flat_index sh cur = (if int k + 1 < prod_list sh then int k + 1 else 0)"
    using next_index_loop_step[of ?n sh "indices sh ! k"] k assms(1) valid_index_length[OF k(1)] by (auto simp: shape_ok_def)
  let ?j = "if Suc k < ?N then Suc k else 0"
  have "?j < ?N" using assms(2) by (cases "Suc k < ?N") simp_all
  then have "valid_index sh (indices sh ! ?j)" "flat_index sh (indices sh ! ?j) = int ?j" using indices_nth(2)[OF nn] by blast+
  moreover have "int k + 1 < prod_list sh \<longleftrightarrow> Suc k < ?N" by linarith
  ultimately have "cur = indices sh ! ?j" "NextIndex (int ?n) sh (indices sh ! k) = Inr (Suc k < ?N, cur)"
    using flat_index_inj[OF c(3)] c valid_index_length[OF k(1)] by (auto simp: NextIndex_def)
  then show ?thesis by simp
qed

lemma indices_first:
  assumes "shape_ok sh"
  shows "indices sh ! 0 = replicate (length sh) 0"
proof (rule flat_index_inj[of sh])
  have "0 < nat (prod_list sh)" using prod_list_pos[OF assms] by simp
  then show "valid_index sh (indices sh ! 0)" using indices_nth(2)[OF shape_ok_nonneg[OF assms]] by blast
  have "0 < sh ! i" if "i < length sh" for i using assms nth_mem[OF that] unfolding shape_ok_def by force
  then show "valid_index sh (replicate (length sh) 0)" by (simp add: valid_index_def list_all2_conv_all_nth)
  have z: "flat_index ds (replicate (length ds) 0) = 0" for ds
    by (induction ds rule: rev_induct) (simp_all add: flat_index_snoc replicate_append_same[symmetric])
  show "flat_index sh (indices sh ! 0) = flat_index sh (replicate (length sh) 0)"
    using indices_nth(2)[OF shape_ok_nonneg[OF assms], of 0] prod_list_pos[OF assms] z by simp
qed

section \<open>Offsets with axes left out\<close>

definition kept :: "int list \<Rightarrow> 'a list \<Rightarrow> 'a list" where
  "kept axes xs = map fst (filter (\<lambda>p. int (snd p) \<notin> set axes) (zip xs [0 ..< length xs]))"

lemma kept_nths: "kept axes xs = nths xs {i. int i \<notin> set axes}"
  by (simp add: kept_def nths_def)

lemma axis_scan_mem: "i + n \<le> length axis \<Longrightarrow> axis_scan x i n axis = Inr (x \<in> set (take n (drop i axis)))"
  by (induction n arbitrary: i) (auto simp: vec_at_def Cons_nth_drop_Suc[symmetric])

lemma kept_snoc: "kept axes (xs @ [x]) = kept axes xs @ (if int (length xs) \<in> set axes then [] else [x])"
  by (simp add: kept_nths nths_append)

lemma kept_length: "length xs = length ys \<Longrightarrow> length (kept axes xs) = length (kept axes ys)"
  by (simp add: kept_nths length_nths)

lemma kept_all [simp]: "kept [] xs = xs"
  by (simp add: kept_nths nths_all)

lemma kept_shape_ok: "shape_ok sh \<Longrightarrow> shape_ok (kept axes sh)"
  using set_nths_subset by (fastforce simp: shape_ok_def kept_nths)

lemma kept_valid: "valid_index sh idx \<Longrightarrow> valid_index (kept axes sh) (kept axes idx)"
proof (induction sh arbitrary: idx rule: rev_induct)
  case (snoc d ds)
  from snoc.prems obtain us i where e: "idx = us @ [i]" "valid_index ds us" "0 \<le> i" "i < d" by (rule valid_snocE)
  show ?case using snoc.IH[OF e(2)] e valid_index_length[OF e(2)] by (simp add: kept_snoc valid_index_snoc)
qed (simp add: valid_index_def kept_nths)

lemma kept_prefix_le:
  assumes "shape_ok sh"
  shows "prod_list (kept axes (take m sh)) \<le> prod_list (kept axes sh)"
proof -
  let ?B = "{i. int (i + length (take m sh)) \<notin> set axes}"
  have "shape_ok (take m sh)" "shape_ok (drop m sh)" using assms by (auto simp: shape_ok_def dest: in_set_takeD in_set_dropD)
  moreover from this(2) have "shape_ok (nths (drop m sh) ?B)" unfolding shape_ok_def by (meson notin_set_nthsI)
  ultimately have "1 \<le> prod_list (nths (drop m sh) ?B)" "1 \<le> prod_list (kept axes (take m sh))"
    by (simp_all add: prod_list_pos kept_shape_ok)
  moreover have "kept axes sh = kept axes (take m sh) @ nths (drop m sh) ?B"
    unfolding kept_nths by (subst append_take_drop_id[of m sh, symmetric], subst nths_append) simp
  ultimately show ?thesis using mult_left_mono[of 1 "prod_list (nths (drop m sh) ?B)" "prod_list (kept axes (take m sh))"] by simp
qed

lemma kept_le:
  assumes "shape_ok sh"
  shows "prod_list (kept axes sh) \<le> prod_list sh"
  using assms
proof (induction sh rule: rev_induct)
  case (snoc d ds)
  then have d: "1 \<le> d" "shape_ok ds" by (auto simp: shape_ok_def)
  have "prod_list ds \<le> prod_list ds * d" using d prod_list_pos[OF d(2)] mult_left_mono[of 1 d "prod_list ds"] by simp
  then show ?case using snoc.IH[OF d(2)] d by (auto simp: kept_snoc intro: order.trans mult_right_mono)
qed (simp add: kept_nths)

lemma for_loop_snoc: "for_loop body i (Suc n) s = bind_res (for_loop body i n s) (body (i + n))"
proof (induction n arbitrary: i s)
  case 0
  show ?case by (cases "body i s") simp_all
next
  case (Suc n)
  show ?case by (cases "body i s") (simp_all add: Suc.IH[simplified] del: for_loop.simps(2)[of _ "Suc i"])
qed

lemma take_kept_snoc:
  assumes "m < length xs"
  shows "kept axes (take (Suc m) xs) = kept axes (take m xs) @ (if int m \<in> set axes then [] else [xs ! m])"
  using assms by (simp add: take_Suc_conv_app_nth kept_snoc)

text \<open>
  With the first \<open>n\<close> entries of the axis array left out, the offset is the flat offset of what is left of
  the index in what is left of the shape, as long as that has fewer than \<open>2 ^ 64\<close> elements.
\<close>

lemma reduced_offset:
  assumes sh: "shape_ok sh" and v: "valid_index sh idx" and ax: "axes = (case axis of None \<Rightarrow> [] | Some ax \<Rightarrow> take n ax)"
    and n: "\<And>ax. axis = Some ax \<Longrightarrow> n \<le> length ax" and fits: "prod_list (kept axes sh) \<le> 2 ^ 64"
  shows "ReducedOutputOffset (int (length sh)) sh idx (int n) axis = Inr (flat_index (kept axes sh) (kept axes idx))"
proof -
  define body where "body = (\<lambda>idx' offset. bind_res (is_axis (int idx') (int n) axis) (\<lambda>skip. if skip then Inr offset
     else bind_res (vec_at sh (int idx')) (\<lambda>d. bind_res (vec_at idx (int idx')) (\<lambda>i. Inr (to_size_t (offset * to_size_t d + to_size_t i))))))"
  have skip: "is_axis (int m) (int n) axis = Inr (int m \<in> set axes)" for m
    using n ax by (cases axis) (simp_all add: is_axis_def axis_scan_mem)
  note len = valid_index_length[OF v]
  have "for_loop body 0 m 0 = Inr (flat_index (kept axes (take m sh)) (kept axes (take m idx)))" if "m \<le> length sh" for m
    using that
  proof (induction m)
    case (Suc m)
    let ?f = "flat_index (kept axes (take m sh)) (kept axes (take m idx))"
    have m: "m < length sh" "m < length idx" using Suc.prems len by simp_all
    have s: "kept axes (take (Suc m) sh) = kept axes (take m sh) @ (if int m \<in> set axes then [] else [sh ! m])"
      "kept axes (take (Suc m) idx) = kept axes (take m idx) @ (if int m \<in> set axes then [] else [idx ! m])"
      using take_kept_snoc m by blast+
    have "valid_index (take (Suc m) sh) (take (Suc m) idx)" using v by (simp add: valid_index_def list_all2_takeI)
    from flat_index_bounds[OF kept_valid[OF this, of axes]]
    have b: "0 \<le> flat_index (kept axes (take (Suc m) sh)) (kept axes (take (Suc m) idx))"
      "flat_index (kept axes (take (Suc m) sh)) (kept axes (take (Suc m) idx)) < 2 ^ 64"
      using kept_prefix_le[OF sh, of axes "Suc m"] fits by linarith+
    have dm: "1 \<le> sh ! m" "sh ! m < 2 ^ 31" "0 \<le> idx ! m" "idx ! m < sh ! m"
      using sh v m by (simp_all add: shape_ok_def valid_index_def list_all2_conv_all_nth)
    have "length (kept axes (take m sh)) = length (kept axes (take m idx))" by (rule kept_length) (use len in simp)
    then show ?case using Suc.IH m b dm s skip
      by (cases "int m \<in> set axes")
        (simp_all add: for_loop_snoc body_def vec_at_def flat_index_snoc to_size_t_def del: for_loop.simps)
  qed (simp add: kept_nths)
  from this[of "length sh"] show ?thesis unfolding ReducedOutputOffset_def body_def using len by (simp add: kept_nths)
qed

section \<open>Offsets of four axes\<close>

lemma FlatSize_prod:
  assumes "shape_ok sh" "prod_list sh < 2 ^ 31"
  shows "FlatSize sh = Inr (prod_list sh)"
proof -
  have "for_loop (\<lambda>i b. bind_res (vec_at sh (int i)) (\<lambda>d. checked_int (b * d))) 0 m 1 = Inr (prod_list (take m sh))" if "m \<le> length sh" for m
    using that
  proof (induction m)
    case (Suc m)
    have "1 \<le> prod_list (take (Suc m) sh)" by (rule prod_list_pos[OF shape_ok_take[OF assms(1)]])
    moreover have "prod_list (take (Suc m) sh) < 2 ^ 31" using kept_prefix_le[OF assms(1), of "[]" "Suc m"] assms(2) by simp
    moreover have "prod_list (take (Suc m) sh) = prod_list (take m sh) * sh ! m" using Suc.prems by (simp add: take_Suc_conv_app_nth)
    ultimately show ?case using Suc by (simp add: for_loop_snoc vec_at_def fits_int_def checked_int_def del: for_loop.simps)
  qed simp
  from this[of "length sh"] show ?thesis by (simp add: FlatSize_def)
qed

lemma mul_add_ok:
  assumes "0 \<le> a" "a < A" "0 \<le> i" "i < d" "A * d < 2 ^ 31"
  shows "mul_add a d i = Inr (a * d + i)" "0 \<le> a * d + i" "a * d + i < A * d"
proof -
  have "(a + 1) * d \<le> A * d" using assms by (intro mult_right_mono) simp_all
  then have b: "a * d + i < A * d" using assms by (simp add: algebra_simps)
  have nn: "0 \<le> a * d" using assms by simp
  have "fits_int (a * d)" "fits_int (a * d + i)" unfolding fits_int_def using nn b assms by linarith+
  then show "mul_add a d i = Inr (a * d + i)" "0 \<le> a * d + i" "a * d + i < A * d"
    using nn b assms(3) by (simp_all add: mul_add_def checked_int_def)
qed

lemma Offset4_flat:
  assumes v: "valid_index [d0, d1, d2, d3] [i0, i1, i2, i3]" and sz: "d0 * d1 * d2 * d3 < 2 ^ 31"
  shows "Offset4 [d0, d1, d2, d3] i0 i1 i2 i3 = Inr (flat_index [d0, d1, d2, d3] [i0, i1, i2, i3])"
proof -
  have i: "0 \<le> i0" "i0 < d0" "0 \<le> i1" "i1 < d1" "0 \<le> i2" "i2 < d2" "0 \<le> i3" "i3 < d3" using v by (simp_all add: valid_index_def)
  have le: "x \<le> x * y" if "0 \<le> x" "1 \<le> y" for x y :: int using that mult_left_mono[of 1 y x] by simp
  have "d0 * d1 * d2 \<le> d0 * d1 * d2 * d3" "d0 * d1 \<le> d0 * d1 * d2" by (rule le; use i in simp)+
  then have s: "d0 * d1 < 2 ^ 31" "d0 * d1 * d2 < 2 ^ 31" using sz by linarith+
  note A = mul_add_ok[OF i(1-4) s(1)]
  note B = mul_add_ok[OF A(2,3) i(5,6) s(2)]
  note C = mul_add_ok[OF B(2,3) i(7,8) sz]
  show ?thesis by (simp add: Offset4_def vec_at_def A(1) B(1) C(1) flat_index_def)
qed

lemma ToRuntimeDims_4:
  assumes "shape_ok [d0, d1, d2, d3]" "d0 * d1 * d2 * d3 < 2 ^ 31"
  shows "ToRuntimeDims [d0, d1, d2, d3] = Inr \<lparr>dim_sizes = [d3, d2, d1, d0], dim_strides = [1, d3, d3 * d2, d3 * d2 * d1]\<rparr>"
proof -
  have d: "1 \<le> d0" "1 \<le> d1" "1 \<le> d2" "1 \<le> d3" using assms(1) by (simp_all add: shape_ok_def)
  have ge: "1 \<le> x * y" "x \<le> x * y" if "1 \<le> x" "1 \<le> y" for x y :: int
    using that mult_mono[of 1 x 1 y] mult_left_mono[of 1 y x] by simp_all
  have p: "1 \<le> d3 * d2" "1 \<le> d3 * d2 * d1" "1 \<le> d3 * d2 * d1 * d0" by (intro ge d)+
  have "d3 \<le> d3 * d2" "d3 * d2 \<le> d3 * d2 * d1" "d3 * d2 * d1 \<le> d3 * d2 * d1 * d0" by (intro ge(2) d p)+
  moreover have "d3 * d2 * d1 * d0 < 2 ^ 31" using assms(2) by (simp add: ac_simps)
  ultimately have "fits_int d3" "fits_int (d3 * d2)" "fits_int (d3 * d2 * d1)" "fits_int (d3 * d2 * d1 * d0)"
    unfolding fits_int_def using d p by linarith+
  then show ?thesis by (simp add: ToRuntimeDims_def Let_def numeral_eq_Suc vec_at_def checked_int_def)
qed

text \<open>
  For a four-dimensional shape with fewer than \<open>2 ^ 31\<close> elements, none of its axes empty, the row-major offset of an index and its offset in the
  legacy description (sizes and strides reversed) are the same number, which is the position of the
  index in row-major order and within the buffer; and the legacy description converts back to the shape.\<close>

lemma offsets_agree:
  assumes "shape_ok [d0, d1, d2, d3]" "valid_index [d0, d1, d2, d3] [i0, i1, i2, i3]" "d0 * d1 * d2 * d3 < 2 ^ 31"
  shows "\<exists>off dims. Offset4 [d0, d1, d2, d3] i0 i1 i2 i3 = Inr off \<and> ToRuntimeDims [d0, d1, d2, d3] = Inr dims \<and>
    OffsetDims dims i3 i2 i1 i0 = Inr off \<and> DimsToShape dims = Inr [d0, d1, d2, d3] \<and>
    0 \<le> off \<and> FlatSize [d0, d1, d2, d3] = Inr (d0 * d1 * d2 * d3) \<and> off < d0 * d1 * d2 * d3 \<and>
    indices [d0, d1, d2, d3] ! nat off = [i0, i1, i2, i3]"
proof -
  let ?sh = "[d0, d1, d2, d3]" and ?ix = "[i0, i1, i2, i3]"
  let ?off = "flat_index ?sh ?ix"
  have P: "prod_list ?sh = d0 * d1 * d2 * d3" by (simp add: mult.assoc)
  have b: "0 \<le> ?off" "?off < d0 * d1 * d2 * d3" using flat_index_bounds[OF assms(2)] P by simp_all
  have i: "0 \<le> i0" "0 \<le> i1" "0 \<le> i2" "0 \<le> i3" "0 \<le> d1" "0 \<le> d2" "0 \<le> d3"
    using assms(1,2) by (simp_all add: valid_index_def shape_ok_def)
  define t1 t2 t3 where "t1 = i2 * d3" and "t2 = i1 * (d3 * d2)" and "t3 = i0 * (d3 * d2 * d1)"
  have t: "0 \<le> t1" "0 \<le> t2" "0 \<le> t3" unfolding t1_def t2_def t3_def using i by simp_all
  have off: "?off = i3 + t1 + t2 + t3" by (simp add: flat_index_def t1_def t2_def t3_def algebra_simps)
  have od: "OffsetDims \<lparr>dim_sizes = [d3, d2, d1, d0], dim_strides = [1, d3, d3 * d2, d3 * d2 * d1]\<rparr> i3 i2 i1 i0 = Inr ?off"
    using b assms(3) t i unfolding off
    by (simp add: OffsetDims_def vec_at_def t1_def[symmetric] t2_def[symmetric] t3_def[symmetric] checked_int_def fits_int_def)
  have "nat ?off < nat (prod_list ?sh)" using b P by simp
  note k = indices_nth(2)[OF shape_ok_nonneg[OF assms(1)] this]
  have "indices ?sh ! nat ?off = ?ix" by (rule flat_index_inj[of ?sh]) (use k assms(2) b in simp_all)
  then show ?thesis
    using Offset4_flat[OF assms(2,3)] ToRuntimeDims_4[OF assms(1,3)] od b FlatSize_prod[OF assms(1)] assms(3) P
    by (simp add: DimsToShape_def vec_at_def)
qed

end
