(* ===== verification/Strided_Slice.thy ===== *)
theory Strided_Slice
  imports Shape_Index
begin

text \<open>
  \<^verbatim>\<open>kernels/internal/strided_slice_logic.h\<close> and the reference kernel \<^verbatim>\<open>reference/strided_slice.h\<close>: where a slice
  starts and stops on an axis, and the five nested loops over flat offsets. The kernel is proved to
  write the elements of the multi-dimensional slice, in order, and to stay inside the input.
\<close>

section \<open>Data\<close>

record StridedSliceParams =
  start_indices_count :: int
  start_indices :: "int list"
  stop_indices_count :: int
  stop_indices :: "int list"
  strides_count :: int
  strides :: "int list"
  begin_mask :: int
  ellipsis_mask :: int
  end_mask :: int
  new_axis_mask :: int
  shrink_axis_mask :: int

text \<open>A failed \<^verbatim>\<open>TFLITE_CHECK\<close> aborts; the \<^verbatim>\<open>DCHECK\<close>s are not part of a release build.\<close>

definition TFLITE_CHECK :: "bool \<Rightarrow> unit res" where
  "TFLITE_CHECK c = (if c then Inr () else Inl (ProcessExit 134))"

section \<open>Start and stop on an axis\<close>

definition Clamp :: "int \<Rightarrow> int \<Rightarrow> int \<Rightarrow> int" where
  "Clamp v lo hi = (if hi < v then hi else if v < lo then lo else v)"

text \<open>The first loop runs from the last index down, so that no index is overwritten before it is moved.\<close>

fun shift_indices :: "nat \<Rightarrow> nat \<Rightarrow> int list \<Rightarrow> int list res" where
  "shift_indices 0 pad xs = Inr xs"
| "shift_indices (Suc i) pad xs =
     bind_res (vec_at xs (int i)) (\<lambda>x. bind_res (vec_set xs (int (i + pad)) x) (shift_indices i pad))"

definition fill_indices :: "nat \<Rightarrow> int \<Rightarrow> int list \<Rightarrow> int list res" where
  "fill_indices pad v xs = for_loop (\<lambda>i ys. vec_set ys (int i) v) 0 pad xs"

definition StridedSlicePadIndices :: "StridedSliceParams \<Rightarrow> int \<Rightarrow> StridedSliceParams res" where
  "StridedSlicePadIndices p dim_count =
     bind_res (TFLITE_CHECK (dim_count \<le> 5)) (\<lambda>_.
     bind_res (TFLITE_CHECK (dim_count \<ge> start_indices_count p)) (\<lambda>_.
     bind_res (TFLITE_CHECK (start_indices_count p = stop_indices_count p)) (\<lambda>_.
     bind_res (TFLITE_CHECK (stop_indices_count p = strides_count p)) (\<lambda>_.
     let pad = nat (dim_count - start_indices_count p); n = nat (start_indices_count p);
         shift = (\<lambda>m. to_int16 (m * 2 ^ pad)); ones = (2 ^ pad - 1 :: int) in
     bind_res (bind_res (shift_indices n pad (strides p)) (fill_indices pad 1)) (\<lambda>ss.
     bind_res (bind_res (shift_indices n pad (start_indices p)) (fill_indices pad 0)) (\<lambda>bs.
     bind_res (bind_res (shift_indices n pad (stop_indices p)) (fill_indices pad 1)) (\<lambda>es.
     Inr (p\<lparr>strides := ss, start_indices := bs, stop_indices := es,
            shrink_axis_mask := shift (shrink_axis_mask p), ellipsis_mask := shift (ellipsis_mask p),
            new_axis_mask := shift (new_axis_mask p),
            begin_mask := to_int16 (or (shift (begin_mask p)) ones), end_mask := to_int16 (or (shift (end_mask p)) ones),
            start_indices_count := to_int8 dim_count, stop_indices_count := to_int8 dim_count,
            strides_count := to_int8 dim_count\<rparr>))))))))"

definition StartForAxis :: "StridedSliceParams \<Rightarrow> int list \<Rightarrow> nat \<Rightarrow> int res" where
  "StartForAxis p input_shape axis =
     bind_res (vec_at input_shape (int axis)) (\<lambda>axis_size.
       if axis_size = 0 then Inr 0
       else
         bind_res (vec_at (start_indices p) (int axis)) (\<lambda>start0.
         bind_res (vec_at (strides p) (int axis)) (\<lambda>stride.
         let start1 = (if bit (begin_mask p) axis then (if stride > 0 then - (2 ^ 31) else 2 ^ 31 - 1) else start0) in
         bind_res (if start1 < 0 then checked_int (start1 + axis_size) else Inr start1) (\<lambda>start2.
         Inr (if stride > 0 then Clamp start2 0 axis_size else Clamp start2 (-1) (axis_size - 1))))))"

definition StopForAxis :: "StridedSliceParams \<Rightarrow> int list \<Rightarrow> nat \<Rightarrow> int \<Rightarrow> int res" where
  "StopForAxis p input_shape axis start_for_axis =
     bind_res (vec_at input_shape (int axis)) (\<lambda>axis_size.
       if axis_size = 0 then Inr 0
       else
         bind_res (vec_at (stop_indices p) (int axis)) (\<lambda>stop0.
         if bit (shrink_axis_mask p) axis then checked_int (start_for_axis + 1)
         else
           bind_res (vec_at (strides p) (int axis)) (\<lambda>stride.
           let stop1 = (if bit (end_mask p) axis then (if stride > 0 then 2 ^ 31 - 1 else - (2 ^ 31)) else stop0) in
           bind_res (if stop1 < 0 then checked_int (stop1 + axis_size) else Inr stop1) (\<lambda>stop2.
           Inr (if stride > 0 then Clamp stop2 0 axis_size else Clamp stop2 (-1) (axis_size - 1))))))"

definition LoopCondition :: "int \<Rightarrow> int \<Rightarrow> int \<Rightarrow> bool" where
  "LoopCondition index stop stride = (if stride > 0 then index \<ge> stop else index \<le> stop)"

definition BuildStridedSliceParams :: "int \<Rightarrow> int \<Rightarrow> int \<Rightarrow> int list \<Rightarrow> int list \<Rightarrow> int list \<Rightarrow> int list \<Rightarrow> StridedSliceParams res" where
  "BuildStridedSliceParams bm em sm starts stops strs uninit =
     (let dims_count = int_size starts; n = nat dims_count;
          copy = (\<lambda>src. for_loop (\<lambda>i ys. bind_res (vec_at src (int i)) (vec_set ys (int i))) 0 n uninit) in
      bind_res (copy starts) (\<lambda>bs. bind_res (copy stops) (\<lambda>es. bind_res (copy strs) (\<lambda>ss.
        Inr \<lparr>start_indices_count = to_int8 dims_count, start_indices = bs, stop_indices_count = to_int8 dims_count,
             stop_indices = es, strides_count = to_int8 dims_count, strides = ss, begin_mask = to_int16 bm,
             ellipsis_mask = 0, end_mask = to_int16 em, new_axis_mask = 0, shrink_axis_mask = to_int16 sm\<rparr>))))"

section \<open>The kernel\<close>

text \<open>
  One of the nested loops. The offset of the enclosing loop is 0 for the outermost, and the innermost
  one has no factor. A step that does not bring the offset closer to the end never ends, so the
  distance to the end bounds the steps.
\<close>

fun offset_loop :: "nat \<Rightarrow> int \<Rightarrow> int \<Rightarrow> int \<Rightarrow> int \<Rightarrow> (int \<Rightarrow> 's \<Rightarrow> 's res) \<Rightarrow> 's \<Rightarrow> 's res" where
  "offset_loop 0 offset fin step stride body s = Inl Diverges"
| "offset_loop (Suc n) offset fin step stride body s =
     (if LoopCondition offset fin stride then Inr s
      else bind_res (body offset s) (\<lambda>s1.
           bind_res (checked_int (offset + step)) (\<lambda>next.
           offset_loop n next fin step stride body s1)))"

definition slice_level :: "int \<Rightarrow> int \<Rightarrow> int \<Rightarrow> int \<Rightarrow> (int \<Rightarrow> 's \<Rightarrow> 's res) \<Rightarrow> int \<Rightarrow> 's \<Rightarrow> 's res" where
  "slice_level dim start stop stride body outer s =
     bind_res (checked_int (outer + start)) (\<lambda>a. bind_res (checked_int (a * dim)) (\<lambda>offset.
     bind_res (checked_int (outer + stop)) (\<lambda>b. bind_res (checked_int (b * dim)) (\<lambda>fin.
     bind_res (checked_int (stride * dim)) (\<lambda>step.
       offset_loop (Suc (nat \<bar>fin - offset\<bar>)) offset fin step stride body s)))))"

text \<open>\<^verbatim>\<open>writer->Write(position)\<close>; \<open>room\<close> is the number of elements of the output.\<close>

definition write_element :: "'a list \<Rightarrow> nat \<Rightarrow> int \<Rightarrow> 'a list \<Rightarrow> 'a list res" where
  "write_element input room position out =
     bind_res (vec_at input position) (\<lambda>x. if length out < room then Inr (out @ [x]) else Inl OutOfBounds)"

text \<open>\<^verbatim>\<open>RuntimeShape::ExtendedShape(5, shape)\<close>: ones in front.\<close>

definition ExtendedShape :: "nat \<Rightarrow> int list \<Rightarrow> int list res" where
  "ExtendedShape n sh = bind_res (TFLITE_CHECK (length sh \<le> n)) (\<lambda>_. Inr (replicate (n - length sh) 1 @ sh))"

definition StridedSlice :: "StridedSliceParams \<Rightarrow> int list \<Rightarrow> int list \<Rightarrow> 'a list \<Rightarrow> nat \<Rightarrow> 'a list res" where
  "StridedSlice op_params unextended_input_shape unextended_output_shape input room =
     bind_res (ExtendedShape 5 unextended_input_shape) (\<lambda>sh.
     bind_res (ExtendedShape 5 unextended_output_shape) (\<lambda>_.
     bind_res (StridedSlicePadIndices op_params 5) (\<lambda>p.
     bind_res (StartForAxis p sh 0) (\<lambda>start_0. bind_res (StopForAxis p sh 0 start_0) (\<lambda>stop_0.
     bind_res (StartForAxis p sh 1) (\<lambda>start_1. bind_res (StopForAxis p sh 1 start_1) (\<lambda>stop_1.
     bind_res (StartForAxis p sh 2) (\<lambda>start_2. bind_res (StopForAxis p sh 2 start_2) (\<lambda>stop_2.
     bind_res (StartForAxis p sh 3) (\<lambda>start_3. bind_res (StopForAxis p sh 3 start_3) (\<lambda>stop_3.
     bind_res (StartForAxis p sh 4) (\<lambda>start_4. bind_res (StopForAxis p sh 4 start_4) (\<lambda>stop_4.
     slice_level (sh ! 1) start_0 stop_0 (strides p ! 0)
      (slice_level (sh ! 2) start_1 stop_1 (strides p ! 1)
       (slice_level (sh ! 3) start_2 stop_2 (strides p ! 2)
        (slice_level (sh ! 4) start_3 stop_3 (strides p ! 3)
         (slice_level 1 start_4 stop_4 (strides p ! 4) (write_element input room))))) 0 [])))))))))))))"

section \<open>The slice of an axis\<close>

text \<open>The indices from \<open>start\<close> on, \<open>stride\<close> apart, before \<open>stop\<close>.\<close>

definition slice_count :: "int \<Rightarrow> int \<Rightarrow> int \<Rightarrow> nat" where
  "slice_count start stop stride = nat (if stride > 0 then (stop - start + stride - 1) div stride
     else if stride < 0 then (start - stop - stride - 1) div (- stride) else 0)"

definition slice_range :: "int \<Rightarrow> int \<Rightarrow> int \<Rightarrow> int list" where
  "slice_range start stop stride = map (\<lambda>k. start + int k * stride) [0..<slice_count start stop stride]"

lemma slice_count_step:
  assumes "stride \<noteq> 0"
  shows "LoopCondition start stop stride \<Longrightarrow> slice_count start stop stride = 0"
    and "\<not> LoopCondition start stop stride \<Longrightarrow> slice_count start stop stride = Suc (slice_count (start + stride) stop stride)"
proof -
  have d: "x div c = 1 + (x - c) div c" if "0 < c" for x c :: int
  proof -
    have "x div c = ((x - c) + 1 * c) div c" by simp
    also have "\<dots> = 1 + (x - c) div c" using that by (subst div_mult_self1) simp_all
    finally show ?thesis .
  qed
  have neg: "x div c \<le> 0" if "0 < c" "x < c" for x c :: int
  proof -
    have "x div c \<le> (c - 1) div c" using that by (intro zdiv_mono1) simp_all
    also have "(c - 1) div c = 0" using that(1) by (simp add: div_pos_pos_trivial)
    finally show ?thesis .
  qed
  have nn: "0 \<le> x div c" if "0 < c" "0 \<le> x" for x c :: int using that by (simp add: pos_imp_zdiv_nonneg_iff)
  show "LoopCondition start stop stride \<Longrightarrow> slice_count start stop stride = 0"
    using assms neg[of stride "stop - start + stride - 1"] neg[of "- stride" "start - stop - stride - 1"]
    by (auto simp: LoopCondition_def slice_count_def split: if_splits)
  assume nl: "\<not> LoopCondition start stop stride"
  show "slice_count start stop stride = Suc (slice_count (start + stride) stop stride)"
  proof (cases "stride > 0")
    case True
    then have "start < stop" using nl by (simp add: LoopCondition_def)
    then show ?thesis using True d[of stride "stop - start + stride - 1"] nn[of stride "stop - start - 1"]
      by (simp add: slice_count_def nat_add_distrib algebra_simps)
  next
    case False
    then have s: "stride < 0" "stop < start" using nl assms by (simp_all add: LoopCondition_def)
    then show ?thesis using d[of "- stride" "start - stop - stride - 1"] nn[of "- stride" "start - stop - 1"]
      by (simp add: slice_count_def nat_add_distrib algebra_simps)
  qed
qed

lemma slice_range_step:
  assumes "stride \<noteq> 0"
  shows "slice_range start stop stride =
    (if LoopCondition start stop stride then [] else start # slice_range (start + stride) stop stride)"
proof (cases "LoopCondition start stop stride")
  case True
  then show ?thesis using slice_count_step(1)[OF assms] by (simp add: slice_range_def)
next
  case False
  have "map (\<lambda>k. start + int k * stride) [0..<Suc n] = start # map (\<lambda>k. (start + stride) + int k * stride) [0..<n]" for n
    by (simp add: map_upt_Suc algebra_simps del: upt_Suc)
  then show ?thesis using False slice_count_step(2)[OF assms False] by (simp add: slice_range_def del: upt_Suc)
qed

lemma slice_range_bounds:
  assumes "i \<in> set (slice_range start stop stride)"
  shows "if stride > 0 then start \<le> i \<and> i < stop else stop < i \<and> i \<le> start"
proof (cases "stride = 0")
  case True
  then show ?thesis using assms by (simp add: slice_range_def slice_count_def)
next
  case False
  have "if stride > 0 then start \<le> i \<and> i < stop else stop < i \<and> i \<le> start"
    if "i \<in> set (slice_range start stop stride)" "slice_count start stop stride = n" for n
    using that
  proof (induction n arbitrary: start)
    case 0
    then show ?case by (simp add: slice_range_def)
  next
    case (Suc n)
    then have nl: "\<not> LoopCondition start stop stride" using slice_count_step(1)[OF False] by fastforce
    show ?case
    proof (cases "i = start")
      case True
      then show ?thesis using nl by (simp add: LoopCondition_def split: if_splits)
    next
      case False
      then have "i \<in> set (slice_range (start + stride) stop stride)"
        using Suc.prems(1) nl slice_range_step[OF \<open>stride \<noteq> 0\<close>, of start stop] by simp
      then show ?thesis using Suc.IH[of "start + stride"] Suc.prems(2) slice_count_step(2)[OF \<open>stride \<noteq> 0\<close> nl]
        by (auto split: if_splits)
    qed
  qed
  then show ?thesis using assms by blast
qed

lemma slice_count_le: "slice_count start stop stride \<le> nat \<bar>stop - start\<bar>"
proof (cases "stride = 0")
  case False
  have "slice_count start stop stride = n \<Longrightarrow> n \<le> nat \<bar>stop - start\<bar>" for n
  proof (induction n arbitrary: start)
    case (Suc n)
    then have nl: "\<not> LoopCondition start stop stride" using slice_count_step(1)[OF False] by fastforce
    then have "n \<le> nat \<bar>stop - (start + stride)\<bar>" using Suc.IH[of "start + stride"] Suc.prems slice_count_step(2)[OF False nl] by simp
    show ?case
    proof (cases n)
      case 0
      then show ?thesis using nl by (auto simp: LoopCondition_def split: if_splits)
    next
      case (Suc m)
      then have "\<not> LoopCondition (start + stride) stop stride"
        using Suc.prems slice_count_step[OF False] nl by fastforce
      then show ?thesis using \<open>n \<le> _\<close> nl False by (auto simp: LoopCondition_def split: if_splits)
    qed
  qed simp
  then show ?thesis by blast
qed (simp add: slice_count_def)

section \<open>The nested loops\<close>

fun fold_res :: "('i \<Rightarrow> 's \<Rightarrow> 's res) \<Rightarrow> 'i list \<Rightarrow> 's \<Rightarrow> 's res" where
  "fold_res f [] s = Inr s"
| "fold_res f (x # xs) s = bind_res (f x s) (fold_res f xs)"

lemma LoopCondition_scale: "0 < d \<Longrightarrow> LoopCondition ((o1 + a) * d) ((o1 + b) * d) stride = LoopCondition a b stride"
  by (simp add: LoopCondition_def)

lemma offset_loop_fold:
  assumes "0 < d" "stride \<noteq> 0" "slice_count start stop stride < n"
    and "\<And>i. i \<in> set (slice_range start stop stride) \<Longrightarrow> fits_int ((o1 + i + stride) * d)"
  shows "offset_loop n ((o1 + start) * d) ((o1 + stop) * d) (stride * d) stride body s =
    fold_res (\<lambda>i. body ((o1 + i) * d)) (slice_range start stop stride) s"
  using assms(3,4)
proof (induction n arbitrary: start s)
  case (Suc n)
  show ?case
  proof (cases "LoopCondition start stop stride")
    case True
    then show ?thesis using slice_range_step[OF assms(2), of start stop] LoopCondition_scale[OF assms(1)] by simp
  next
    case False
    let ?r = "slice_range (start + stride) stop stride"
    have r: "slice_range start stop stride = start # ?r" using False slice_range_step[OF assms(2)] by simp
    have nxt: "(o1 + start) * d + stride * d = (o1 + (start + stride)) * d" "(o1 + start + stride) * d = (o1 + (start + stride)) * d"
      by (simp_all add: algebra_simps)
    have "fits_int ((o1 + (start + stride)) * d)" using Suc.prems(2)[of start] r nxt(2) by simp
    moreover have "offset_loop n ((o1 + (start + stride)) * d) ((o1 + stop) * d) (stride * d) stride body s1 =
        fold_res (\<lambda>i. body ((o1 + i) * d)) ?r s1" for s1
      using Suc.prems slice_count_step(2)[OF assms(2) False] r by (intro Suc.IH) auto
    ultimately show ?thesis using False LoopCondition_scale[OF assms(1)] r nxt(1)
      by (simp add: checked_int_def cong: bind_res_cong)
  qed
qed simp

text \<open>A loop body that appends \<open>ys\<close> to the output when there is room for it.\<close>

definition emits :: "nat \<Rightarrow> ('a list \<Rightarrow> 'a list res) \<Rightarrow> 'a list \<Rightarrow> bool" where
  "emits room f ys \<longleftrightarrow> (\<forall>out. length out + length ys \<le> room \<longrightarrow> f out = Inr (out @ ys))"

lemma fold_res_emits:
  assumes "\<And>i. i \<in> set xs \<Longrightarrow> emits room (body i) (g i)"
  shows "emits room (fold_res body xs) (concat (map g xs))"
  using assms
proof (induction xs)
  case (Cons x xs)
  then have "emits room (body x) (g x)" "emits room (fold_res body xs) (concat (map g xs))" by simp_all
  then show ?case by (simp add: emits_def)
qed (simp add: emits_def)

lemma write_element_emits:
  "0 \<le> pos \<Longrightarrow> pos < int (length input) \<Longrightarrow> emits room (write_element input room pos) [input ! nat pos]"
  by (simp add: emits_def write_element_def vec_at_def)

text \<open>The start and stop of an axis of size \<open>d\<close>.\<close>

definition axis_ok :: "int \<Rightarrow> int \<Rightarrow> int \<Rightarrow> int \<Rightarrow> bool" where
  "axis_ok d start stop stride \<longleftrightarrow> 1 \<le> d \<and> stride \<noteq> 0 \<and> \<bar>stride\<bar> \<le> d \<and> -1 \<le> stop \<and> stop \<le> d \<and>
     (if stride > 0 then 0 \<le> start \<and> start \<le> d else -1 \<le> start \<and> start \<le> d - 1)"

lemma axis_range: "axis_ok d start stop stride \<Longrightarrow> i \<in> set (slice_range start stop stride) \<Longrightarrow> 0 \<le> i \<and> i < d"
  using slice_range_bounds[of i start stop stride] by (auto simp: axis_ok_def split: if_splits)

lemma scaled_fits:
  assumes "0 < dim" "- a \<le> x" "x \<le> 2 * a" "a * dim < 2 ^ 30" "0 \<le> a"
  shows "fits_int (x * dim)"
proof -
  have "x * dim \<le> (2 * a) * dim" by (rule mult_right_mono[OF assms(3)]) (use assms(1) in simp)
  moreover have "(- a) * dim \<le> x * dim" by (rule mult_right_mono[OF assms(2)]) (use assms(1) in simp)
  ultimately have "x * dim \<le> 2 * (a * dim)" "- (a * dim) \<le> x * dim" by (simp_all add: mult.assoc)
  then show ?thesis using assms(4) by (simp add: fits_int_def)
qed

lemma slice_level_emits:
  assumes ax: "axis_ok d start stop stride" and dim: "0 < dim" and o1: "0 \<le> o1" "o1 \<le> a - d" and size: "a * dim < 2 ^ 30"
    and body: "\<And>i. i \<in> set (slice_range start stop stride) \<Longrightarrow> emits room (body ((o1 + i) * dim)) (g i)"
  shows "emits room (slice_level dim start stop stride body o1) (concat (map g (slice_range start stop stride)))"
proof -
  have da: "1 \<le> d" "d \<le> a" using ax o1 by (simp_all add: axis_ok_def)
  have "a * 1 \<le> a * dim" using dim da by (intro mult_left_mono) simp_all
  then have "a < 2 ^ 30" using size by simp
  then have s: "fits_int (o1 + start)" "fits_int (o1 + stop)"
    using ax o1 da by (auto simp: fits_int_def axis_ok_def split: if_splits)
  have f: "fits_int ((o1 + start) * dim)" "fits_int ((o1 + stop) * dim)" "fits_int (stride * dim)"
    using ax o1 da by (intro scaled_fits[OF dim _ _ size]; auto simp: axis_ok_def split: if_splits)+
  have "fits_int ((o1 + i + stride) * dim)" if "i \<in> set (slice_range start stop stride)" for i
    using axis_range[OF ax that] ax o1 da by (intro scaled_fits[OF dim _ _ size]) (auto simp: axis_ok_def)
  moreover have "slice_count start stop stride < Suc (nat \<bar>(o1 + stop) * dim - (o1 + start) * dim\<bar>)"
  proof -
    have "(o1 + stop) * dim - (o1 + start) * dim = (stop - start) * dim" by (simp add: algebra_simps)
    moreover have "\<bar>stop - start\<bar> * 1 \<le> \<bar>stop - start\<bar> * dim" using dim by (intro mult_left_mono) simp_all
    ultimately have "\<bar>stop - start\<bar> \<le> \<bar>(o1 + stop) * dim - (o1 + start) * dim\<bar>" using dim by (simp add: abs_mult)
    then show ?thesis using slice_count_le[of start stop stride] by linarith
  qed
  moreover have "stride \<noteq> 0" using ax by (simp add: axis_ok_def)
  ultimately have "slice_level dim start stop stride body o1 out =
      fold_res (\<lambda>i. body ((o1 + i) * dim)) (slice_range start stop stride) out" for out
    using s f offset_loop_fold[OF dim, of stride start stop _ o1 body out] by (simp add: slice_level_def checked_int_def del: offset_loop.simps)
  then show ?thesis using fold_res_emits[OF body] by (simp add: emits_def)
qed

lemma inner_offset:
  assumes "axis_ok d start stop stride" "0 < dim" "0 \<le> o1" "o1 \<le> a - d" "i \<in> set (slice_range start stop stride)"
  shows "0 \<le> (o1 + i) * dim" "(o1 + i) * dim \<le> a * dim - dim"
proof -
  have i: "0 \<le> o1 + i" "o1 + i \<le> a - 1" using axis_range[OF assms(1,5)] assms(3,4) by simp_all
  then show "0 \<le> (o1 + i) * dim" using assms(2) by simp
  have "(o1 + i) * dim \<le> (a - 1) * dim" using i assms(2) by (simp add: mult_right_mono)
  then show "(o1 + i) * dim \<le> a * dim - dim" by (simp add: algebra_simps)
qed

section \<open>Bounds of start and stop\<close>

lemma StartForAxis_bounds:
  assumes "axis < length sh" "axis < length (start_indices p)" "axis < length (strides p)" "1 \<le> sh ! axis" "sh ! axis < 2 ^ 31"
    and "fits_int (start_indices p ! axis)"
  shows "\<exists>start. StartForAxis p sh axis = Inr start \<and>
    (if strides p ! axis > 0 then 0 \<le> start \<and> start \<le> sh ! axis else -1 \<le> start \<and> start \<le> sh ! axis - 1)"
proof -
  let ?s1 = "if bit (begin_mask p) axis then (if strides p ! axis > 0 then - (2 ^ 31) else 2 ^ 31 - 1) else start_indices p ! axis"
  have "fits_int ?s1" using assms(6) by (simp add: fits_int_def)
  then have "checked_int (?s1 + sh ! axis) = Inr (?s1 + sh ! axis)" if "?s1 < 0"
    using that assms(4,5) unfolding checked_int_def fits_int_def by auto
  moreover have "vec_at sh (int axis) = Inr (sh ! axis)" "vec_at (start_indices p) (int axis) = Inr (start_indices p ! axis)"
      "vec_at (strides p) (int axis) = Inr (strides p ! axis)"
    using assms(1-3) by simp_all
  ultimately have "StartForAxis p sh axis = Inr (let s2 = (if ?s1 < 0 then ?s1 + sh ! axis else ?s1) in
      if strides p ! axis > 0 then Clamp s2 0 (sh ! axis) else Clamp s2 (-1) (sh ! axis - 1))"
    using assms(4) unfolding StartForAxis_def Let_def by (simp del: vec_at_Inr checked_int_Inr)
  then show ?thesis using assms(4) by (auto simp: Let_def Clamp_def)
qed

lemma StopForAxis_bounds:
  assumes "axis < length sh" "axis < length (stop_indices p)" "axis < length (strides p)" "1 \<le> sh ! axis" "sh ! axis < 2 ^ 31"
    and "fits_int (stop_indices p ! axis)" "-1 \<le> start" "start \<le> sh ! axis"
    and "bit (shrink_axis_mask p) axis \<Longrightarrow> start < sh ! axis"
  shows "\<exists>stop. StopForAxis p sh axis start = Inr stop \<and> -1 \<le> stop \<and> stop \<le> sh ! axis"
proof (cases "bit (shrink_axis_mask p) axis")
  case True
  have "vec_at sh (int axis) = Inr (sh ! axis)" "vec_at (stop_indices p) (int axis) = Inr (stop_indices p ! axis)"
    using assms(1,2) by simp_all
  moreover have "checked_int (start + 1) = Inr (start + 1)" using assms(5,7) assms(9)[OF True] by (simp add: checked_int_def fits_int_def)
  ultimately show ?thesis using True assms(4,7) assms(9)[OF True]
    by (simp add: StopForAxis_def del: vec_at_Inr checked_int_Inr)
next
  case False
  let ?s1 = "if bit (end_mask p) axis then (if strides p ! axis > 0 then 2 ^ 31 - 1 else - (2 ^ 31)) else stop_indices p ! axis"
  have "fits_int ?s1" using assms(6) by (simp add: fits_int_def)
  then have "checked_int (?s1 + sh ! axis) = Inr (?s1 + sh ! axis)" if "?s1 < 0"
    using that assms(4,5) unfolding checked_int_def fits_int_def by auto
  moreover have "vec_at sh (int axis) = Inr (sh ! axis)" "vec_at (stop_indices p) (int axis) = Inr (stop_indices p ! axis)"
      "vec_at (strides p) (int axis) = Inr (strides p ! axis)"
    using assms(1-3) by simp_all
  ultimately have "StopForAxis p sh axis start = Inr (let s2 = (if ?s1 < 0 then ?s1 + sh ! axis else ?s1) in
      if strides p ! axis > 0 then Clamp s2 0 (sh ! axis) else Clamp s2 (-1) (sh ! axis - 1))"
    using assms(4) False unfolding StopForAxis_def Let_def by (simp del: vec_at_Inr checked_int_Inr)
  then show ?thesis using assms(4) by (auto simp: Let_def Clamp_def)
qed

section \<open>The kernel writes the slice\<close>

definition axis_slice :: "StridedSliceParams \<Rightarrow> int list \<Rightarrow> nat \<Rightarrow> int list" where
  "axis_slice p sh k = (case StartForAxis p sh k of Inl _ \<Rightarrow> []
     | Inr start \<Rightarrow> (case StopForAxis p sh k start of Inl _ \<Rightarrow> [] | Inr stop \<Rightarrow> slice_range start stop (strides p ! k)))"

definition slice_elements :: "StridedSliceParams \<Rightarrow> int list \<Rightarrow> 'a list \<Rightarrow> 'a list" where
  "slice_elements p sh input =
     map (\<lambda>idx. input ! nat (flat_index sh idx)) (product_lists (map (axis_slice p sh) [0, 1, 2, 3, 4]))"

lemma five_levels:
  assumes ax: "axis_ok d0 a0 b0 s0" "axis_ok d1 a1 b1 s1" "axis_ok d2 a2 b2 s2" "axis_ok d3 a3 b3 s3" "axis_ok d4 a4 b4 s4"
    and sz: "d0 * d1 * d2 * d3 * d4 < 2 ^ 30" "int (length input) = d0 * d1 * d2 * d3 * d4"
  shows "emits room (slice_level d1 a0 b0 s0 (slice_level d2 a1 b1 s1 (slice_level d3 a2 b2 s2
      (slice_level d4 a3 b3 s3 (slice_level 1 a4 b4 s4 (write_element input room))))) 0)
    (map (\<lambda>idx. input ! nat (flat_index [d0, d1, d2, d3, d4] idx))
      (product_lists [slice_range a0 b0 s0, slice_range a1 b1 s1, slice_range a2 b2 s2, slice_range a3 b3 s3, slice_range a4 b4 s4]))"
proof -
  have d: "1 \<le> d0" "1 \<le> d1" "1 \<le> d2" "1 \<le> d3" "1 \<le> d4" using ax by (simp_all add: axis_ok_def)
  let ?A1 = "d0 * d1" and ?A2 = "d0 * d1 * d2" and ?A3 = "d0 * d1 * d2 * d3" and ?A4 = "d0 * d1 * d2 * d3 * d4"
  have m: "1 \<le> x * y" if "1 \<le> x" "1 \<le> y" for x y :: int using mult_mono[of 1 x 1 y] that by simp
  have p: "1 \<le> ?A1" "1 \<le> ?A2" "1 \<le> ?A3" "1 \<le> ?A4" by (intro m d)+
  have le: "x \<le> x * y" if "1 \<le> x" "1 \<le> y" for x y :: int using that mult_left_mono[of 1 y x] by simp
  have A: "?A1 < 2 ^ 30" "?A2 < 2 ^ 30" "?A3 < 2 ^ 30"
    using le[OF p(1) d(3)] le[OF p(2) d(4)] le[OF p(3) d(5)] sz(1) by linarith+
  let ?g4 = "\<lambda>o1 i. [input ! nat ((o1 + i) * 1)]"
  let ?l4 = "slice_level 1 a4 b4 s4 (write_element input room)"
  have L4: "emits room (?l4 o1) (concat (map (?g4 o1) (slice_range a4 b4 s4)))" if "0 \<le> o1" "o1 \<le> ?A4 - d4" for o1
  proof (rule slice_level_emits[OF ax(5) _ that])
    fix i assume i: "i \<in> set (slice_range a4 b4 s4)"
    show "emits room (write_element input room ((o1 + i) * 1)) [input ! nat ((o1 + i) * 1)]"
      using inner_offset[OF ax(5) _ that i, of 1] sz(2) by (intro write_element_emits) simp_all
  qed (use sz(1) in simp_all)
  let ?g3 = "\<lambda>o1 i. concat (map (?g4 ((o1 + i) * d4)) (slice_range a4 b4 s4))"
  let ?l3 = "slice_level d4 a3 b3 s3 ?l4"
  have L3: "emits room (?l3 o1) (concat (map (?g3 o1) (slice_range a3 b3 s3)))" if "0 \<le> o1" "o1 \<le> ?A3 - d3" for o1
    by (rule slice_level_emits[OF ax(4) _ that]) (use d sz(1) L4 inner_offset[OF ax(4) _ that, of d4] in auto)
  let ?g2 = "\<lambda>o1 i. concat (map (?g3 ((o1 + i) * d3)) (slice_range a3 b3 s3))"
  let ?l2 = "slice_level d3 a2 b2 s2 ?l3"
  have L2: "emits room (?l2 o1) (concat (map (?g2 o1) (slice_range a2 b2 s2)))" if "0 \<le> o1" "o1 \<le> ?A2 - d2" for o1
    by (rule slice_level_emits[OF ax(3) _ that]) (use d A(3) L3 inner_offset[OF ax(3) _ that, of d3] in auto)
  let ?g1 = "\<lambda>o1 i. concat (map (?g2 ((o1 + i) * d2)) (slice_range a2 b2 s2))"
  let ?l1 = "slice_level d2 a1 b1 s1 ?l2"
  have L1: "emits room (?l1 o1) (concat (map (?g1 o1) (slice_range a1 b1 s1)))" if "0 \<le> o1" "o1 \<le> ?A1 - d1" for o1
    by (rule slice_level_emits[OF ax(2) _ that]) (use d A(2) L2 inner_offset[OF ax(2) _ that, of d2] in auto)
  let ?g0 = "\<lambda>i. concat (map (?g1 ((0 + i) * d1)) (slice_range a1 b1 s1))"
  have "emits room (slice_level d1 a0 b0 s0 ?l1 0) (concat (map ?g0 (slice_range a0 b0 s0)))"
    by (rule slice_level_emits[OF ax(1), of _ 0 d0]) (use d A(1) L1 inner_offset[OF ax(1), of d1 0 d0] in auto)
  moreover have "concat (map ?g0 (slice_range a0 b0 s0)) =
      map (\<lambda>idx. input ! nat (flat_index [d0, d1, d2, d3, d4] idx))
      (product_lists [slice_range a0 b0 s0, slice_range a1 b1 s1, slice_range a2 b2 s2, slice_range a3 b3 s3, slice_range a4 b4 s4])"
    by (simp add: flat_index_def map_concat comp_def concat_map_singleton)
  ultimately show ?thesis by simp
qed

text \<open>
  What the kernel needs of the padded parameters \<open>p\<close> and the extended shape: no empty axis, strides that are
  not zero and not larger than their axis, and a shrunk axis that is indexed inside it.
\<close>

definition axis_params_ok :: "StridedSliceParams \<Rightarrow> int list \<Rightarrow> nat \<Rightarrow> bool" where
  "axis_params_ok p sh k \<longleftrightarrow> 1 \<le> sh ! k \<and> sh ! k < 2 ^ 31 \<and> strides p ! k \<noteq> 0 \<and> \<bar>strides p ! k\<bar> \<le> sh ! k \<and>
     fits_int (start_indices p ! k) \<and> fits_int (stop_indices p ! k) \<and>
     (bit (shrink_axis_mask p) k \<longrightarrow> (case StartForAxis p sh k of Inl _ \<Rightarrow> False | Inr start \<Rightarrow> start < sh ! k))"

definition slice_params_ok :: "StridedSliceParams \<Rightarrow> int list \<Rightarrow> bool" where
  "slice_params_ok p sh \<longleftrightarrow> length sh = 5 \<and> length (start_indices p) = 5 \<and> length (stop_indices p) = 5 \<and>
     length (strides p) = 5 \<and> prod_list sh < 2 ^ 30 \<and> list_all (axis_params_ok p sh) [0, 1, 2, 3, 4]"

lemma axis_start_stop:
  assumes "slice_params_ok p sh" "k \<in> {0, 1, 2, 3, 4}"
  shows "\<exists>start stop. StartForAxis p sh k = Inr start \<and> StopForAxis p sh k start = Inr stop \<and>
    axis_slice p sh k = slice_range start stop (strides p ! k) \<and> axis_ok (sh ! k) start stop (strides p ! k)"
proof -
  have a: "axis_params_ok p sh k" "k < length sh" "k < length (start_indices p)" "k < length (stop_indices p)" "k < length (strides p)"
    using assms by (auto simp: slice_params_ok_def)
  obtain start where st: "StartForAxis p sh k = Inr start"
      "if strides p ! k > 0 then 0 \<le> start \<and> start \<le> sh ! k else -1 \<le> start \<and> start \<le> sh ! k - 1"
    using StartForAxis_bounds[OF a(2,3,5)] a(1) by (auto simp: axis_params_ok_def)
  then have b: "-1 \<le> start" "start \<le> sh ! k" "bit (shrink_axis_mask p) k \<Longrightarrow> start < sh ! k"
    using a(1) by (auto simp: axis_params_ok_def split: if_splits)
  obtain stop where sp: "StopForAxis p sh k start = Inr stop" "-1 \<le> stop" "stop \<le> sh ! k"
    using StopForAxis_bounds[OF a(2,4,5) _ _ _ b] a(1) by (auto simp: axis_params_ok_def)
  then show ?thesis using st a(1) by (auto simp: axis_slice_def axis_ok_def axis_params_ok_def)
qed

lemma strided_slice_levels:
  assumes "ExtendedShape 5 ish = Inr sh" "ExtendedShape 5 osh = Inr sh'" "StridedSlicePadIndices op 5 = Inr p"
    and "\<And>k. k \<in> {0, 1, 2, 3, 4} \<Longrightarrow> StartForAxis p sh k = Inr (a k) \<and> StopForAxis p sh k (a k) = Inr (b k)"
  shows "StridedSlice op ish osh input room =
    slice_level (sh ! 1) (a 0) (b 0) (strides p ! 0) (slice_level (sh ! 2) (a 1) (b 1) (strides p ! 1)
      (slice_level (sh ! 3) (a 2) (b 2) (strides p ! 2) (slice_level (sh ! 4) (a 3) (b 3) (strides p ! 3)
        (slice_level 1 (a 4) (b 4) (strides p ! 4) (write_element input room))))) 0 []"
  unfolding StridedSlice_def using assms(1-3) assms(4)[of 0] assms(4)[of 1] assms(4)[of 2] assms(4)[of 3] assms(4)[of 4]
  by (simp del: bind_res_eq_Inr)

text \<open>
  C32: The strided slice kernel returns and writes exactly the elements of the multi-dimensional slice, in
  row-major order: for every axis the indices from its start, a stride apart, up to its stop. It reads
  no element outside the input, none of its five offsets overflows, and its loops end; this needs no empty
  axis, strides that are not zero and not larger than their axis, fewer than \<open>2 ^ 30\<close> elements, and
  shrunk axes that are indexed inside their bounds.\<close>

theorem strided_slice_correct:
  assumes "ExtendedShape 5 ish = Inr sh" "ExtendedShape 5 osh = Inr sh'" "StridedSlicePadIndices op 5 = Inr p"
    and "slice_params_ok p sh" "int (length input) = prod_list sh" "length (slice_elements p sh input) \<le> room"
  shows "StridedSlice op ish osh input room = Inr (slice_elements p sh input)"
proof -
  have "\<forall>k \<in> {0, 1, 2, 3, 4}. \<exists>ab. StartForAxis p sh k = Inr (fst ab) \<and> StopForAxis p sh k (fst ab) = Inr (snd ab) \<and>
      axis_slice p sh k = slice_range (fst ab) (snd ab) (strides p ! k) \<and> axis_ok (sh ! k) (fst ab) (snd ab) (strides p ! k)"
    using axis_start_stop[OF assms(4)] by auto
  then obtain ab where ab: "\<And>k. k \<in> {0, 1, 2, 3, 4} \<Longrightarrow> StartForAxis p sh k = Inr (fst (ab k)) \<and>
      StopForAxis p sh k (fst (ab k)) = Inr (snd (ab k)) \<and>
      axis_slice p sh k = slice_range (fst (ab k)) (snd (ab k)) (strides p ! k) \<and>
      axis_ok (sh ! k) (fst (ab k)) (snd (ab k)) (strides p ! k)"
    by metis
  have sh: "sh = [sh ! 0, sh ! 1, sh ! 2, sh ! 3, sh ! 4]"
    using assms(4) by (auto simp: slice_params_ok_def numeral_eq_Suc length_Suc_conv)
  have "prod_list sh = sh ! 0 * sh ! 1 * sh ! 2 * sh ! 3 * sh ! 4"
    by (subst sh) (simp add: mult.assoc del: nth_Cons_0)
  then have sz: "sh ! 0 * sh ! 1 * sh ! 2 * sh ! 3 * sh ! 4 < 2 ^ 30" "int (length input) = sh ! 0 * sh ! 1 * sh ! 2 * sh ! 3 * sh ! 4"
    using assms(4,5) by (simp_all add: slice_params_ok_def)
  have el: "slice_elements p sh input = map (\<lambda>idx. input ! nat (flat_index [sh ! 0, sh ! 1, sh ! 2, sh ! 3, sh ! 4] idx))
      (product_lists [slice_range (fst (ab 0)) (snd (ab 0)) (strides p ! 0), slice_range (fst (ab 1)) (snd (ab 1)) (strides p ! 1),
        slice_range (fst (ab 2)) (snd (ab 2)) (strides p ! 2), slice_range (fst (ab 3)) (snd (ab 3)) (strides p ! 3),
        slice_range (fst (ab 4)) (snd (ab 4)) (strides p ! 4)])"
    unfolding slice_elements_def sh[symmetric] using ab by (simp del: product_lists.simps)
  have ax: "axis_ok (sh ! k) (fst (ab k)) (snd (ab k)) (strides p ! k)" if "k \<in> {0, 1, 2, 3, 4}" for k using ab[OF that] by blast
  have bounds: "StartForAxis p sh k = Inr (fst (ab k)) \<and> StopForAxis p sh k (fst (ab k)) = Inr (snd (ab k))"
    if "k \<in> {0, 1, 2, 3, 4}" for k using ab[OF that] by blast
  note em = five_levels[OF ax[of 0] ax[of 1] ax[of 2] ax[of 3] ax[of 4] sz, where room = room, folded el, simplified]
  show ?thesis
    by (rule trans[OF strided_slice_levels[OF assms(1-3) bounds]]) (use em assms(6) in \<open>simp_all add: emits_def\<close>)
qed

theorem strided_slice_correct_witness:
  "StridedSlice \<lparr>start_indices_count = 2, start_indices = [0, 2, 0, 0, 0], stop_indices_count = 2, stop_indices = [2, 0, 0, 0, 0],
     strides_count = 2, strides = [1, -1, 0, 0, 0], begin_mask = 0, ellipsis_mask = 0, end_mask = 2, new_axis_mask = 0,
     shrink_axis_mask = 0\<rparr> [2, 3] [2, 3] [10, 11, 12, 13, 14, 15 :: int] 6 = Inr [12, 11, 10, 15, 14, 13]"
proof -
  let ?op = "\<lparr>start_indices_count = 2, start_indices = [0, 2, 0, 0, 0], stop_indices_count = 2, stop_indices = [2, 0, 0, 0, 0],
     strides_count = 2, strides = [1, -1, 0, 0, 0], begin_mask = 0, ellipsis_mask = 0, end_mask = 2, new_axis_mask = 0,
     shrink_axis_mask = 0\<rparr>"
  let ?p = "\<lparr>start_indices_count = 5, start_indices = [0, 0, 0, 0, 2], stop_indices_count = 5, stop_indices = [1, 1, 1, 2, 0],
     strides_count = 5, strides = [1, 1, 1, 1, -1], begin_mask = 7, ellipsis_mask = 0, end_mask = 23, new_axis_mask = 0,
     shrink_axis_mask = 0\<rparr>"
  have sh: "ExtendedShape 5 [2, 3] = Inr [1, 1, 1, 2, 3]" by code_simp
  have p: "StridedSlicePadIndices ?op 5 = Inr ?p" by code_simp
  have ok: "slice_params_ok ?p [1, 1, 1, 2, 3]" by code_simp
  have el: "slice_elements ?p [1, 1, 1, 2, 3] [10, 11, 12, 13, 14, 15 :: int] = [12, 11, 10, 15, 14, 13]" by code_simp
  show ?thesis
    using strided_slice_correct[OF sh sh p ok, of "[10, 11, 12, 13, 14, 15 :: int]" 6] unfolding el by simp
qed

text \<open>
  A shrunk axis whose index is the size of the axis is clamped to that size and read one element past the
  axis: on a vector, past the input.
\<close>

lemma shrink_reads_past_axis:
  "StridedSlice \<lparr>start_indices_count = 1, start_indices = [2, 0, 0, 0, 0], stop_indices_count = 1, stop_indices = [3, 0, 0, 0, 0],
     strides_count = 1, strides = [1, 0, 0, 0, 0], begin_mask = 0, ellipsis_mask = 0, end_mask = 0, new_axis_mask = 0,
     shrink_axis_mask = 1\<rparr> [2] [] [10, 11 :: int] 1 = Inl OutOfBounds"
  by code_simp

end
