(* ===== verification/Tflite_Padding.thy ===== *)
theory Tflite_Padding
  imports Tflite_Op_Data
begin

text \<open>
  The output sizes and paddings of convolution and pooling windows, from \<^verbatim>\<open>kernels/padding.h\<close> of
  TensorFlow Lite: how many windows of a (dilated) filter an axis gets, and how many elements of
  padding stand before and after the axis. All arithmetic is on 32-bit \<^verbatim>\<open>int\<close>s, an overflow or a
  division by zero is an error.
\<close>

section \<open>The computations\<close>

definition effective_filter :: "int \<Rightarrow> int \<Rightarrow> int res" where
  "effective_filter filter_size dilation_rate =
     bind_res (checked_int (filter_size - 1)) (\<lambda>a. bind_res (checked_int (a * dilation_rate)) (\<lambda>b. checked_int (b + 1)))"

text \<open>\<^verbatim>\<open>(out_size - 1) * stride + effective_filter_size - in_size\<close>.\<close>

definition window_excess :: "int \<Rightarrow> int \<Rightarrow> int \<Rightarrow> int \<Rightarrow> int res" where
  "window_excess stride eff in_size out_size =
     bind_res (checked_int (out_size - 1)) (\<lambda>a. bind_res (checked_int (a * stride)) (\<lambda>b.
     bind_res (checked_int (b + eff)) (\<lambda>c. checked_int (c - in_size))))"

definition ComputePadding :: "int \<Rightarrow> int \<Rightarrow> int \<Rightarrow> int \<Rightarrow> int \<Rightarrow> int res" where
  "ComputePadding stride dilation_rate in_size filter_size out_size =
     bind_res (effective_filter filter_size dilation_rate) (\<lambda>eff.
     bind_res (window_excess stride eff in_size out_size) (\<lambda>excess.
     bind_res (checked_quot excess 2) (\<lambda>padding.
     Inr (if padding > 0 then padding else 0))))"

text \<open>The result and \<^verbatim>\<open>*offset\<close>.\<close>

definition ComputePaddingWithOffset :: "int \<Rightarrow> int \<Rightarrow> int \<Rightarrow> int \<Rightarrow> int \<Rightarrow> (int \<times> int) res" where
  "ComputePaddingWithOffset stride dilation_rate in_size filter_size out_size =
     bind_res (effective_filter filter_size dilation_rate) (\<lambda>eff.
     bind_res (window_excess stride eff in_size out_size) (\<lambda>excess.
     let total_padding = (if excess > 0 then excess else 0) in
     bind_res (checked_quot total_padding 2) (\<lambda>half. Inr (half, total_padding mod 2))))"

definition ComputeOutSize :: "TfLitePadding \<Rightarrow> int \<Rightarrow> int \<Rightarrow> int \<Rightarrow> int \<Rightarrow> int res" where
  "ComputeOutSize padding image_size filter_size stride dilation_rate =
     bind_res (effective_filter filter_size dilation_rate) (\<lambda>eff.
     case padding of
       kTfLitePaddingSame \<Rightarrow>
         bind_res (checked_int (image_size + stride)) (\<lambda>a. bind_res (checked_int (a - 1)) (\<lambda>b. checked_quot b stride))
     | kTfLitePaddingValid \<Rightarrow>
         bind_res (checked_int (image_size + stride)) (\<lambda>a. bind_res (checked_int (a - eff)) (\<lambda>b. checked_quot b stride))
     | kTfLitePaddingUnknown \<Rightarrow> Inr 0)"

text \<open>The results are the padding values, \<^verbatim>\<open>*out_height\<close> and \<^verbatim>\<open>*out_width\<close>.\<close>

definition ComputePaddingHeightWidth ::
    "int \<Rightarrow> int \<Rightarrow> int \<Rightarrow> int \<Rightarrow> int \<Rightarrow> int \<Rightarrow> int \<Rightarrow> int \<Rightarrow> TfLitePadding \<Rightarrow> (TfLitePaddingValues \<times> int \<times> int) res" where
  "ComputePaddingHeightWidth stride_height stride_width dilation_rate_height dilation_rate_width
       in_height in_width filter_height filter_width padding =
     bind_res (ComputeOutSize padding in_width filter_width stride_width dilation_rate_width) (\<lambda>out_width.
     bind_res (ComputeOutSize padding in_height filter_height stride_height dilation_rate_height) (\<lambda>out_height.
     bind_res (ComputePaddingWithOffset stride_height dilation_rate_height in_height filter_height out_height) (\<lambda>(height, height_off).
     bind_res (ComputePaddingWithOffset stride_width dilation_rate_width in_width filter_width out_width) (\<lambda>(width, width_off).
     Inr (\<lparr>padding_width = width, padding_height = height, padding_width_offset = width_off,
           padding_height_offset = height_off\<rparr>, out_height, out_width)))))"

text \<open>The three-dimensional values are kept in 16 bits.\<close>

record Padding3DValues =
  p3_width :: int
  p3_height :: int
  p3_depth :: int
  p3_width_offset :: int
  p3_height_offset :: int
  p3_depth_offset :: int

definition ComputePadding3DValues ::
    "int \<Rightarrow> int \<Rightarrow> int \<Rightarrow> int \<Rightarrow> int \<Rightarrow> int \<Rightarrow> int \<Rightarrow> int \<Rightarrow> int \<Rightarrow> int \<Rightarrow> int \<Rightarrow> int \<Rightarrow> TfLitePadding
       \<Rightarrow> (Padding3DValues \<times> int \<times> int \<times> int) res" where
  "ComputePadding3DValues stride_height stride_width stride_depth dilation_rate_height dilation_rate_width
       dilation_rate_depth in_height in_width in_depth filter_height filter_width filter_depth padding =
     bind_res (ComputeOutSize padding in_width filter_width stride_width dilation_rate_width) (\<lambda>out_width.
     bind_res (ComputeOutSize padding in_height filter_height stride_height dilation_rate_height) (\<lambda>out_height.
     bind_res (ComputeOutSize padding in_depth filter_depth stride_depth dilation_rate_depth) (\<lambda>out_depth.
     bind_res (ComputePaddingWithOffset stride_depth dilation_rate_depth in_depth filter_depth out_depth) (\<lambda>(depth, depth_off).
     bind_res (ComputePaddingWithOffset stride_height dilation_rate_height in_height filter_height out_height) (\<lambda>(height, height_off).
     bind_res (ComputePaddingWithOffset stride_width dilation_rate_width in_width filter_width out_width) (\<lambda>(width, width_off).
     Inr (\<lparr>p3_width = to_int16 width, p3_height = to_int16 height, p3_depth = to_int16 depth,
           p3_width_offset = to_int16 width_off, p3_height_offset = to_int16 height_off,
           p3_depth_offset = to_int16 depth_off\<rparr>, out_height, out_width, out_depth)))))))"

section \<open>The windows of an axis\<close>

text \<open>
  The elements under the \<open>i\<close>-th window, counted from the first element of the axis: negative positions
  are padding before it.
\<close>

definition window :: "int \<Rightarrow> int \<Rightarrow> int \<Rightarrow> int \<Rightarrow> int set" where
  "window eff stride pad i = {i * stride - pad ..< i * stride - pad + eff}"

text \<open>
  What the two schemes promise of an axis of \<open>n\<close> elements with \<open>out\<close> windows, \<open>pad\<close> elements before it
  and \<open>pad + off\<close> after it. SAME: one window for every \<open>stride\<close> elements begun; every window lies
  in the padded axis and meets the axis; when the stride does not jump over elements, every element is in a window; and the padding
  is used up exactly. VALID: no padding, every window lies in the axis, and a further one would not.
\<close>

definition axis_windows :: "TfLitePadding \<Rightarrow> int \<Rightarrow> int \<Rightarrow> int \<Rightarrow> int \<Rightarrow> int \<Rightarrow> int \<Rightarrow> bool" where
  "axis_windows scheme n eff stride out pad off = (case scheme of
     kTfLitePaddingSame \<Rightarrow>
       1 \<le> out \<and> (out - 1) * stride < n \<and> n \<le> out * stride \<and> 0 \<le> pad \<and> off \<in> {0, 1} \<and>
       (\<forall>i \<in> {0 ..< out}. window eff stride pad i \<subseteq> {- pad ..< n + pad + off} \<and> window eff stride pad i \<inter> {0 ..< n} \<noteq> {}) \<and>
       (stride \<le> eff \<longrightarrow> {0 ..< n} \<subseteq> (\<Union>i \<in> {0 ..< out}. window eff stride pad i)) \<and>
       (0 < pad + off \<longrightarrow> n + pad + off - 1 \<in> window eff stride pad (out - 1))
   | kTfLitePaddingValid \<Rightarrow>
       1 \<le> out \<and> pad = 0 \<and> off = 0 \<and> (\<forall>i \<in> {0 ..< out}. window eff stride pad i \<subseteq> {0 ..< n}) \<and>
       \<not> window eff stride pad out \<subseteq> {0 ..< n}
   | kTfLitePaddingUnknown \<Rightarrow> out = 0)"

text \<open>The sizes for which the arithmetic stays in range; a VALID window has to fit the axis.\<close>

definition axis_sizes_ok :: "TfLitePadding \<Rightarrow> int \<Rightarrow> int \<Rightarrow> int \<Rightarrow> int \<Rightarrow> bool" where
  "axis_sizes_ok scheme n filt stride dil \<longleftrightarrow> 1 \<le> n \<and> n < 2 ^ 29 \<and> 1 \<le> stride \<and> stride < 2 ^ 29 \<and> 1 \<le> filt \<and> 1 \<le> dil \<and>
     (filt - 1) * dil + 1 < 2 ^ 29 \<and> (scheme = kTfLitePaddingValid \<longrightarrow> (filt - 1) * dil + 1 \<le> n)"

section \<open>One axis\<close>

lemma effective_filter_ok:
  assumes "axis_sizes_ok scheme n filt stride dil"
  shows "effective_filter filt dil = Inr ((filt - 1) * dil + 1)" "1 \<le> (filt - 1) * dil + 1"
proof -
  have "0 \<le> filt - 1" "1 \<le> dil" "(filt - 1) * dil + 1 < 2 ^ 29" using assms by (simp_all add: axis_sizes_ok_def)
  moreover from this have "filt - 1 \<le> (filt - 1) * dil" using mult_left_mono[of 1 dil "filt - 1"] by simp
  ultimately show "effective_filter filt dil = Inr ((filt - 1) * dil + 1)" "1 \<le> (filt - 1) * dil + 1"
    by (simp_all add: effective_filter_def fits_int_def)
qed

lemma window_excess_ok:
  assumes "0 \<le> out" "out < 2 ^ 30" "\<bar>(out - 1) * stride\<bar> \<le> 2 ^ 29" "0 \<le> eff" "eff \<le> 2 ^ 29" "0 \<le> n" "n < 2 ^ 29"
  shows "window_excess stride eff n out = Inr ((out - 1) * stride + eff - n)"
proof -
  obtain b where b: "(out - 1) * stride = b" by simp
  show ?thesis using assms unfolding window_excess_def b by (auto simp: b fits_int_def)
qed

text \<open>The two paddings are the two halves of the total, the second one larger when it is odd.\<close>

lemma padding_halves:
  assumes "effective_filter filt dil = Inr eff" "window_excess stride eff n out = Inr excess"
  shows "ComputePaddingWithOffset stride dil n filt out = Inr (max 0 excess div 2, max 0 excess mod 2)"
proof -
  have "fits_int excess" using assms(2) by (simp add: window_excess_def)
  then have "fits_int (max 0 excess)" by (simp add: fits_int_def max_def)
  then have "checked_quot (max 0 excess) 2 = Inr (max 0 excess div 2)" by (intro checked_quot_pos) simp_all
  moreover have "(if excess > 0 then excess else 0) = max 0 excess" by simp
  ultimately show ?thesis using assms by (simp add: ComputePaddingWithOffset_def Let_def)
qed

text \<open>\<^verbatim>\<open>ComputePadding\<close> is the padding before the axis, on every input.\<close>

lemma ComputePadding_fst:
  "ComputePadding stride dil n filt out = bind_res (ComputePaddingWithOffset stride dil n filt out) (\<lambda>r. Inr (fst r))"
proof (cases "effective_filter filt dil")
  case eff: (Inr eff)
  show ?thesis
  proof (cases "window_excess stride eff n out")
    case ex: (Inr excess)
    have "fits_int excess" using ex by (simp add: window_excess_def)
    then have "checked_quot excess 2 = Inr (quot_int excess 2)" "quot_int excess 2 \<le> 0 \<or> 0 < excess"
      "0 \<le> excess \<Longrightarrow> quot_int excess 2 = excess div 2"
      by (auto simp: checked_quot_def quot_int_def fits_int_def Let_def)
    then show ?thesis using eff ex padding_halves[OF eff ex] by (auto simp: ComputePadding_def max_def)
  qed (simp add: ComputePadding_def ComputePaddingWithOffset_def eff)
qed (simp add: ComputePadding_def ComputePaddingWithOffset_def)

lemma ceil_div_bounds:
  assumes "1 \<le> n" "1 \<le> (s::int)"
  shows "1 \<le> (n + s - 1) div s" "((n + s - 1) div s - 1) * s < n" "n \<le> (n + s - 1) div s * s" "(n + s - 1) div s \<le> n"
proof -
  let ?q = "(n + s - 1) div s"
  have e: "?q * s + (n + s - 1) mod s = n + s - 1" by simp
  have m: "0 \<le> (n + s - 1) mod s" "(n + s - 1) mod s < s" using assms by simp_all
  show "1 \<le> ?q" using zdiv_mono1[of s "n + s - 1" s] assms by simp
  have f: "(?q - 1) * s = ?q * s - s" by (simp add: left_diff_distrib)
  show l: "(?q - 1) * s < n" using e m f by linarith
  show "n \<le> ?q * s" using e m by linarith
  have "?q - 1 \<le> (?q - 1) * s" using \<open>1 \<le> ?q\<close> assms mult_left_mono[of 1 s "?q - 1"] by simp
  then show "?q \<le> n" using l by linarith
qed

lemma window_last:
  assumes "0 \<le> i" "i < out" "1 \<le> (s::int)"
  shows "0 \<le> i * s" "i * s \<le> (out - 1) * s"
  using assms by (simp_all add: mult_right_mono)

lemma same_windows:
  assumes n: "1 \<le> n" "1 \<le> s" "1 \<le> eff" and out: "1 \<le> out" "(out - 1) * s < n" "n \<le> out * s"
    and t: "t = max 0 ((out - 1) * s + eff - n)"
  shows "axis_windows kTfLitePaddingSame n eff s out (t div 2) (t mod 2)"
proof -
  define pad off where "pad = t div 2" and "off = t mod 2"
  have po: "pad + pad + off = t" "0 \<le> pad" "off \<in> {0, 1}" "0 \<le> off" "0 \<le> t"
    using t by (auto simp: pad_def off_def)
  have le: "(out - 1) * s + eff \<le> n + t" "pad < eff" using t po n out by (auto simp: max_def split: if_splits)
  have w: "window eff s pad i \<subseteq> {- pad ..< n + pad + off}" "window eff s pad i \<inter> {0 ..< n} \<noteq> {}" if "0 \<le> i" "i < out" for i
  proof -
    note b = window_last[OF that n(2)]
    show "window eff s pad i \<subseteq> {- pad ..< n + pad + off}" using b le po by (auto simp: window_def)
    have "i * s - pad < n" using b po out by linarith
    then have "max 0 (i * s - pad) \<in> window eff s pad i \<inter> {0 ..< n}" using b le po n by (auto simp: window_def)
    then show "window eff s pad i \<inter> {0 ..< n} \<noteq> {}" by blast
  qed
  have cover: "\<exists>i \<in> {0 ..< out}. x \<in> window eff s pad i" if "s \<le> eff" "0 \<le> x" "x < n" for x
  proof (cases "(x + pad) div s < out")
    case True
    have "(x + pad) div s * s + (x + pad) mod s = x + pad" by simp
    moreover have "0 \<le> (x + pad) mod s" "(x + pad) mod s < s" using n by simp_all
    ultimately have "(x + pad) div s * s - pad \<le> x" "x < (x + pad) div s * s - pad + eff" using that by linarith+
    then have "x \<in> window eff s pad ((x + pad) div s)" by (simp add: window_def)
    moreover have "0 \<le> (x + pad) div s" using that po n by (simp add: pos_imp_zdiv_nonneg_iff)
    ultimately show ?thesis using True by (intro bexI[of _ "(x + pad) div s"]) auto
  next
    case False
    have "out * s \<le> (x + pad) div s * s" using False n by (simp add: mult_right_mono)
    also have "\<dots> \<le> x + pad" using div_mult_mod_eq[of "x + pad" s] n pos_mod_sign[of s "x + pad"] by linarith
    finally have "out * s \<le> x + pad" .
    moreover have "out * s = (out - 1) * s + s" by (simp add: algebra_simps)
    ultimately have "x \<in> window eff s pad (out - 1)" using that po t n out by (auto simp: window_def max_def split: if_splits)
    then show ?thesis using out by (intro bexI[of _ "out - 1"]) auto
  qed
  have "n + pad + off - 1 \<in> window eff s pad (out - 1)" if "0 < pad + off"
    using that po t le out n by (auto simp: window_def max_def split: if_splits)
  then show ?thesis
    using w cover po out unfolding axis_windows_def pad_def[symmetric] off_def[symmetric] TfLitePadding.case by auto
qed

lemma valid_windows:
  assumes "1 \<le> s" "1 \<le> eff" "1 \<le> out" "(out - 1) * s + eff \<le> n" "n < out * s + eff"
  shows "axis_windows kTfLitePaddingValid n eff s out 0 0"
proof -
  have "window eff s 0 i \<subseteq> {0 ..< n}" if "0 \<le> i" "i < out" for i
    using window_last[OF that assms(1)] assms(4) by (auto simp: window_def)
  moreover have "out * s + eff - 1 \<in> window eff s 0 out" using assms(2) by (simp add: window_def)
  then have "\<not> window eff s 0 out \<subseteq> {0 ..< n}" using assms(5) by force
  ultimately show ?thesis using assms(3) by (simp add: axis_windows_def)
qed

lemma same_axis:
  assumes "axis_sizes_ok kTfLitePaddingSame n filt s dil"
  shows "\<exists>out pad off. ComputeOutSize kTfLitePaddingSame n filt s dil = Inr out \<and>
    ComputePaddingWithOffset s dil n filt out = Inr (pad, off) \<and>
    axis_windows kTfLitePaddingSame n ((filt - 1) * dil + 1) s out pad off"
proof -
  define out eff where "out = (n + s - 1) div s" and "eff = (filt - 1) * dil + 1"
  note ef = effective_filter_ok[OF assms, folded eff_def]
  have b: "1 \<le> n" "n < 2 ^ 29" "1 \<le> s" "s < 2 ^ 29" "eff < 2 ^ 29" using assms by (simp_all add: axis_sizes_ok_def eff_def)
  note c = ceil_div_bounds[OF b(1,3), folded out_def]
  have "checked_quot (n + s - 1) s = Inr out" unfolding out_def using b by (intro checked_quot_pos) (simp_all add: fits_int_def)
  then have o: "ComputeOutSize kTfLitePaddingSame n filt s dil = Inr out"
    using b ef by (simp add: ComputeOutSize_def fits_int_def checked_int_def)
  have "window_excess s eff n out = Inr ((out - 1) * s + eff - n)"
    by (rule window_excess_ok) (use b c ef in \<open>auto simp: abs_of_nonneg\<close>)
  note p = padding_halves[OF ef(1) this]
  show ?thesis using o p same_windows[OF b(1,3) ef(2) c(1-3) refl] unfolding eff_def[symmetric] by blast
qed

lemma valid_axis:
  assumes "axis_sizes_ok kTfLitePaddingValid n filt s dil"
  shows "\<exists>out pad off. ComputeOutSize kTfLitePaddingValid n filt s dil = Inr out \<and>
    ComputePaddingWithOffset s dil n filt out = Inr (pad, off) \<and>
    axis_windows kTfLitePaddingValid n ((filt - 1) * dil + 1) s out pad off"
proof -
  define eff where "eff = (filt - 1) * dil + 1"
  define out where "out = (n + s - eff) div s"
  note ef = effective_filter_ok[OF assms, folded eff_def]
  have b: "1 \<le> n" "n < 2 ^ 29" "1 \<le> s" "s < 2 ^ 29" "eff \<le> n" using assms by (simp_all add: axis_sizes_ok_def eff_def)
  have c: "1 \<le> out" "(out - 1) * s < n - eff + 1" "n - eff + 1 \<le> out * s" "out \<le> n - eff + 1"
    using ceil_div_bounds[of "n - eff + 1" s] b by (simp_all add: out_def algebra_simps)
  have "checked_quot (n + s - eff) s = Inr out" unfolding out_def using b ef by (intro checked_quot_pos) (simp_all add: fits_int_def)
  then have o: "ComputeOutSize kTfLitePaddingValid n filt s dil = Inr out"
    using b ef by (simp add: ComputeOutSize_def fits_int_def checked_int_def)
  have "window_excess s eff n out = Inr ((out - 1) * s + eff - n)"
    by (rule window_excess_ok) (use b c ef in \<open>auto simp: abs_of_nonneg\<close>)
  note p = padding_halves[OF ef(1) this]
  have "(out - 1) * s + eff - n \<le> 0" using c by linarith
  then have "ComputePaddingWithOffset s dil n filt out = Inr (0, 0)" using p by (simp add: max_def)
  moreover have "axis_windows kTfLitePaddingValid n eff s out 0 0" by (rule valid_windows) (use b c ef in linarith)+
  ultimately show ?thesis using o unfolding eff_def[symmetric] by blast
qed

text \<open>
  C36: For positive sizes below \<open>2 ^ 29\<close>, and a filter that fits the axis in the VALID scheme, the padding computation
  of a two-dimensional window returns without overflow, and on both axes the values do what the scheme
  promises. SAME: as many windows as strides begun on the axis, every window inside the padded
  axis and on at least one of its elements, every element in a window when the stride is at most the dilated filter, and the
  padding used up exactly. VALID: no padding, all windows inside the axis and no room for one more.\<close>

theorem padding_windows:
  assumes "scheme \<in> {kTfLitePaddingSame, kTfLitePaddingValid}"
    and "axis_sizes_ok scheme h fh sh dh" "axis_sizes_ok scheme w fw sw dw"
  shows "\<exists>v out_height out_width. ComputePaddingHeightWidth sh sw dh dw h w fh fw scheme = Inr (v, out_height, out_width) \<and>
    axis_windows scheme h ((fh - 1) * dh + 1) sh out_height (padding_height v) (padding_height_offset v) \<and>
    axis_windows scheme w ((fw - 1) * dw + 1) sw out_width (padding_width v) (padding_width_offset v)"
proof -
  have ax: "\<exists>out pad off. ComputeOutSize scheme n f s d = Inr out \<and> ComputePaddingWithOffset s d n f out = Inr (pad, off) \<and>
      axis_windows scheme n ((f - 1) * d + 1) s out pad off" if "axis_sizes_ok scheme n f s d" for n f s d
    using assms(1) same_axis valid_axis that by blast
  obtain oh ph qh where H: "ComputeOutSize scheme h fh sh dh = Inr oh" "ComputePaddingWithOffset sh dh h fh oh = Inr (ph, qh)"
    "axis_windows scheme h ((fh - 1) * dh + 1) sh oh ph qh" using ax[OF assms(2)] by blast
  obtain ow pw qw where W: "ComputeOutSize scheme w fw sw dw = Inr ow" "ComputePaddingWithOffset sw dw w fw ow = Inr (pw, qw)"
    "axis_windows scheme w ((fw - 1) * dw + 1) sw ow pw qw" using ax[OF assms(3)] by blast
  show ?thesis using H W by (simp add: ComputePaddingHeightWidth_def)
qed

theorem padding_windows_witness:
  "ComputePaddingHeightWidth 2 1 1 2 224 7 3 3 kTfLitePaddingSame =
     Inr (\<lparr>padding_width = 2, padding_height = 0, padding_width_offset = 0, padding_height_offset = 1\<rparr>, 112, 7) \<and>
   axis_windows kTfLitePaddingSame 224 3 2 112 0 1 \<and> axis_windows kTfLitePaddingSame 7 5 1 7 2 0"
proof -
  have e: "ComputePaddingHeightWidth 2 1 1 2 224 7 3 3 kTfLitePaddingSame =
     Inr (\<lparr>padding_width = 2, padding_height = 0, padding_width_offset = 0, padding_height_offset = 1\<rparr>, 112, 7)"
    by code_simp
  then show ?thesis
    using padding_windows[of kTfLitePaddingSame 224 3 2 1 7 3 1 2] by (simp add: axis_sizes_ok_def)
qed

text \<open>In three dimensions the values are narrowed to 16 bits: on a long axis with a long filter the padding is lost.\<close>

lemma padding_3d_narrowed:
  "ComputePadding3DValues 1 1 1 1 1 1 1 70000 1 1 65537 1 kTfLitePaddingSame =
     Inr (\<lparr>p3_width = -32768, p3_height = 0, p3_depth = 0, p3_width_offset = 0, p3_height_offset = 0, p3_depth_offset = 0\<rparr>,
       1, 70000, 1)"
  by code_simp

text \<open>A VALID filter larger than its axis is not refused: the output size is negative.\<close>

lemma valid_filter_too_large: "ComputeOutSize kTfLitePaddingValid 1 6 2 1 = Inr (-1)"
  by code_simp

end
