(* ===== verification/Reduce_Ops.thy ===== *)
theory Reduce_Ops
  imports Shape_Index
begin

text \<open>
  \<^verbatim>\<open>kernels/internal/reference/reduce.h\<close>: the generic reduction of a tensor along some of its axes, the
  resolution of the axis argument and the initialisation of the output. The element types are
  type variables and the reducer is a parameter, as in the code, that may fail (a sum of integers may overflow).
\<close>

section \<open>The kernels\<close>

text \<open>One round of the loop: combine one element, then step the index.\<close>

definition reduce_round ::
    "('o \<Rightarrow> 'i \<Rightarrow> 'o res) \<Rightarrow> 'i list \<Rightarrow> int list \<Rightarrow> int \<Rightarrow> int list \<Rightarrow> int \<Rightarrow> int list \<Rightarrow> 'o list \<Rightarrow> (bool \<times> int list \<times> 'o list) res" where
  "reduce_round reducer input_data input_dims input_num_dims axis num_axis input_iter output_data =
     bind_res (ReducedOutputOffset input_num_dims input_dims input_iter 0 None) (\<lambda>input_offset.
     bind_res (ReducedOutputOffset input_num_dims input_dims input_iter num_axis (Some axis)) (\<lambda>output_offset.
     bind_res (vec_at output_data output_offset) (\<lambda>current.
     bind_res (vec_at input_data input_offset) (\<lambda>x.
     bind_res (reducer current x) (\<lambda>v.
     bind_res (vec_set output_data output_offset v) (\<lambda>out.
     bind_res (NextIndex input_num_dims input_dims input_iter) (\<lambda>(again, iter). Inr (again, iter, out))))))))"

text \<open>The \<^verbatim>\<open>do ... while\<close> loop; \<open>None\<close> when it never ends.\<close>

partial_function (option) reduce_loop ::
    "('o \<Rightarrow> 'i \<Rightarrow> 'o res) \<Rightarrow> 'i list \<Rightarrow> int list \<Rightarrow> int \<Rightarrow> int list \<Rightarrow> int \<Rightarrow> int list \<Rightarrow> 'o list \<Rightarrow> (int list \<times> 'o list) res option" where
  "reduce_loop reducer input_data input_dims input_num_dims axis num_axis input_iter output_data =
     (case reduce_round reducer input_data input_dims input_num_dims axis num_axis input_iter output_data of
        Inl e \<Rightarrow> Some (Inl e)
      | Inr (again, iter, out) \<Rightarrow>
          if again then reduce_loop reducer input_data input_dims input_num_dims axis num_axis iter out
          else Some (Inr (iter, out)))"

text \<open>The results are the returned truth value, the iterator and the output.\<close>

definition Reduce ::
    "'i list \<Rightarrow> int list \<Rightarrow> int list \<Rightarrow> int \<Rightarrow> int \<Rightarrow> int list \<Rightarrow> int \<Rightarrow> int list \<Rightarrow> ('o \<Rightarrow> 'i \<Rightarrow> 'o res) \<Rightarrow> 'o list
       \<Rightarrow> (bool \<times> int list \<times> 'o list) res option" where
  "Reduce input_data input_dims output_dims input_num_dims output_num_dims axis num_axis input_iter reducer output_data =
     (case for_loop (\<lambda>idx iter. vec_set iter (int idx) 0) 0 (nat input_num_dims) input_iter of
        Inl e \<Rightarrow> Some (Inl e)
      | Inr iter \<Rightarrow> map_option (\<lambda>r. bind_res r (\<lambda>(it, out). Inr (True, it, out)))
          (reduce_loop reducer input_data input_dims input_num_dims axis num_axis iter output_data))"

fun resolve_loop :: "int \<Rightarrow> int list \<Rightarrow> nat \<Rightarrow> nat \<Rightarrow> int list \<Rightarrow> int \<Rightarrow> (bool \<times> int list \<times> int) res" where
  "resolve_loop num_dims axis idx 0 out_axis out_num_axis = Inr (True, out_axis, out_num_axis)"
| "resolve_loop num_dims axis idx (Suc k) out_axis out_num_axis =
     bind_res (vec_at axis (int idx)) (\<lambda>a.
     bind_res (if a < 0 then checked_int (a + num_dims) else Inr a) (\<lambda>current.
       if current < 0 \<or> current \<ge> num_dims then Inr (False, out_axis, out_num_axis)
       else
         bind_res (axis_scan current 0 (nat out_num_axis) out_axis) (\<lambda>is_dup.
           if is_dup then resolve_loop num_dims axis (Suc idx) k out_axis out_num_axis
           else bind_res (vec_set out_axis out_num_axis current) (\<lambda>out.
                bind_res (checked_int (out_num_axis + 1)) (\<lambda>n. resolve_loop num_dims axis (Suc idx) k out n)))))"

definition ResolveAxis :: "int \<Rightarrow> int list \<Rightarrow> int \<Rightarrow> int list \<Rightarrow> (bool \<times> int list \<times> int) res" where
  "ResolveAxis num_dims axis num_axis out_axis =
     (if num_dims = 0 then Inr (True, out_axis, 0) else resolve_loop num_dims axis 0 (nat num_axis) out_axis 0)"

text \<open>
  The product of the sizes as a \<^verbatim>\<open>size_t\<close>; \<open>None\<close> when the overflow check fails. The check divides by the
  size.
\<close>

fun size_product :: "nat \<Rightarrow> nat \<Rightarrow> int list \<Rightarrow> int \<Rightarrow> int option res" where
  "size_product idx 0 dims num_elements = Inr (Some num_elements)"
| "size_product idx (Suc k) dims num_elements =
     bind_res (vec_at dims (int idx)) (\<lambda>d.
       let current = to_size_t d in
       if current = 0 then Inl DivideByZero
       else if num_elements > (2 ^ 64 - 1) div current then Inr None
       else size_product (Suc idx) k dims (to_size_t (num_elements * current)))"

definition InitTensorDataForReduce :: "int list \<Rightarrow> int \<Rightarrow> 'a \<Rightarrow> 'a list \<Rightarrow> (bool \<times> 'a list) res" where
  "InitTensorDataForReduce dims num_dims init_value data =
     bind_res (size_product 0 (nat num_dims) dims 1) (\<lambda>r. case r of
       None \<Rightarrow> Inr (False, data)
     | Some num_elements \<Rightarrow>
         bind_res (for_loop (\<lambda>idx xs. vec_set xs (int idx) init_value) 0 (nat num_elements) data) (\<lambda>xs. Inr (True, xs)))"

fun has_zero_dim :: "nat \<Rightarrow> nat \<Rightarrow> int list \<Rightarrow> bool res" where
  "has_zero_dim i 0 dims = Inr False"
| "has_zero_dim i (Suc k) dims = bind_res (vec_at dims (int i)) (\<lambda>d. if d = 0 then Inr True else has_zero_dim (Suc i) k dims)"

text \<open>The results are the returned truth value, the output, \<^verbatim>\<open>temp_index\<close> and \<^verbatim>\<open>resolved_axis\<close>.\<close>

definition ReduceGeneric ::
    "'a list \<Rightarrow> int list \<Rightarrow> int \<Rightarrow> 'a list \<Rightarrow> int list \<Rightarrow> int \<Rightarrow> int list \<Rightarrow> int \<Rightarrow> bool \<Rightarrow> int list \<Rightarrow> int list \<Rightarrow> 'a
       \<Rightarrow> ('a \<Rightarrow> 'a \<Rightarrow> 'a res) \<Rightarrow> (bool \<times> 'a list \<times> int list \<times> int list) res option" where
  "ReduceGeneric input_data input_dims input_num_dims output_data output_dims output_num_dims axis
       num_axis_dimensions keep_dims temp_index resolved_axis init_value reducer =
     (case has_zero_dim 0 (nat input_num_dims) input_dims of
        Inl e \<Rightarrow> Some (Inl e)
      | Inr True \<Rightarrow> Some (Inr (True, output_data, temp_index, resolved_axis))
      | Inr False \<Rightarrow>
     (case InitTensorDataForReduce output_dims output_num_dims init_value output_data of
        Inl e \<Rightarrow> Some (Inl e)
      | Inr (False, out) \<Rightarrow> Some (Inr (False, out, temp_index, resolved_axis))
      | Inr (True, out) \<Rightarrow>
     (case ResolveAxis input_num_dims axis num_axis_dimensions resolved_axis of
        Inl e \<Rightarrow> Some (Inl e)
      | Inr (False, ax, _) \<Rightarrow> Some (Inr (False, out, temp_index, ax))
      | Inr (True, ax, num_resolved_axis) \<Rightarrow>
          map_option (\<lambda>r. bind_res r (\<lambda>(ok, it, out'). Inr (ok, out', it, ax)))
            (Reduce input_data input_dims output_dims input_num_dims output_num_dims ax num_resolved_axis
               temp_index reducer out))))"

section \<open>What a reduction computes\<close>

text \<open>
  The element of the output at \<open>jdx\<close>: the reducer over the input elements whose index is \<open>jdx\<close> on the axes that are
  kept, in row-major order.
\<close>

definition reduced :: "('o \<Rightarrow> 'i \<Rightarrow> 'o) \<Rightarrow> 'o \<Rightarrow> int list \<Rightarrow> int list \<Rightarrow> 'i list \<Rightarrow> int list \<Rightarrow> 'o" where
  "reduced r init dims axes input jdx =
     foldl r init (map (\<lambda>idx. input ! nat (flat_index dims idx)) (filter (\<lambda>idx. kept axes idx = jdx) (indices dims)))"

text \<open>The input elements that go into the output at \<open>jdx\<close>.\<close>

definition reduced_elements :: "int list \<Rightarrow> int list \<Rightarrow> 'i list \<Rightarrow> int list \<Rightarrow> 'i list" where
  "reduced_elements dims axes input jdx =
     map (\<lambda>idx. input ! nat (flat_index dims idx)) (filter (\<lambda>idx. kept axes idx = jdx) (indices dims))"

text \<open>A fold whose steps may fail, and one round of the reduction as a step.\<close>

primrec fold_res :: "('s \<Rightarrow> 'a \<Rightarrow> 's res) \<Rightarrow> 's \<Rightarrow> 'a list \<Rightarrow> 's res" where
  "fold_res f s [] = Inr s"
| "fold_res f s (x # xs) = bind_res (f s x) (\<lambda>s'. fold_res f s' xs)"

lemma fold_res_total: "(\<And>c x. f c x = Inr (r c x)) \<Longrightarrow> fold_res f s xs = Inr (foldl r s xs)"
  by (induction xs arbitrary: s) simp_all

definition reduce_step :: "('o \<Rightarrow> 'i \<Rightarrow> 'o res) \<Rightarrow> int list \<Rightarrow> int list \<Rightarrow> 'i list \<Rightarrow> 'o list \<Rightarrow> int list \<Rightarrow> 'o list res" where
  "reduce_step red dims axes input out idx =
     (let j = nat (flat_index (kept axes dims) (kept axes idx)) in
      bind_res (red (out ! j) (input ! nat (flat_index dims idx))) (\<lambda>v. Inr (out[j := v])))"

lemma reduce_step_cases:
  "reduce_step red dims axes input out idx = Inr out' \<longleftrightarrow>
    (\<exists>v. red (out ! nat (flat_index (kept axes dims) (kept axes idx))) (input ! nat (flat_index dims idx)) = Inr v \<and>
      out' = out[nat (flat_index (kept axes dims) (kept axes idx)) := v])"
  "reduce_step red dims axes input out idx = Inl e \<longleftrightarrow>
    red (out ! nat (flat_index (kept axes dims) (kept axes idx))) (input ! nat (flat_index dims idx)) = Inl e"
  by (auto simp: reduce_step_def Let_def bind_res_def split: sum.splits)

lemma reduce_step_length: "reduce_step red dims axes input out idx = Inr out' \<Longrightarrow> length out' = length out"
  by (auto simp: reduce_step_cases)

lemma reduce_round_step:
  assumes sh: "shape_ok dims" "prod_list dims \<le> 2 ^ 64" and k: "k < nat (prod_list dims)"
    and inp: "int (length input) = prod_list dims" and ax: "n \<le> length axis" "axes = take n axis"
    and out: "int (length out) = prod_list (kept axes dims)"
  shows "reduce_round red input dims (int (length dims)) axis (int n) (indices dims ! k) out =
    bind_res (reduce_step red dims axes input out (indices dims ! k)) (\<lambda>out'.
      Inr (Suc k < nat (prod_list dims), indices dims ! (if Suc k < nat (prod_list dims) then Suc k else 0), out'))"
proof -
  let ?idx = "indices dims ! k"
  have v: "valid_index dims ?idx" using indices_nth(2)[OF shape_ok_nonneg[OF sh(1)] k] by blast
  have "prod_list (kept axes dims) \<le> prod_list dims" using kept_le[OF sh(1)] .
  then have ro: "ReducedOutputOffset (int (length dims)) dims ?idx (int n) (Some axis) = Inr (flat_index (kept axes dims) (kept axes ?idx))"
    using reduced_offset[OF sh(1) v, of axes n "Some axis"] ax sh(2) by simp
  have io: "ReducedOutputOffset (int (length dims)) dims ?idx 0 None = Inr (flat_index dims ?idx)"
    using reduced_offset[OF sh(1) v, of "[]" 0 None] sh(2) by simp
  note b = flat_index_bounds[OF v] flat_index_bounds[OF kept_valid[OF v, of axes]]
  show ?thesis
    using b inp out by (simp add: reduce_round_def ro io next_index_indices[OF sh(1) k] vec_at_def vec_set_def reduce_step_def Let_def bind_res_assoc
        del: bind_res_eq_Inr)
qed

text \<open>From the \<open>k\<close>-th index on, the loop ends and has gone through the remaining indices in order, or up to the first failure.\<close>

lemma reduce_loop_runs:
  assumes sh: "shape_ok dims" "prod_list dims \<le> 2 ^ 64" and k: "k < nat (prod_list dims)"
    and inp: "int (length input) = prod_list dims" and ax: "n \<le> length axis" "axes = take n axis"
    and out: "int (length out) = prod_list (kept axes dims)"
  shows "reduce_loop red input dims (int (length dims)) axis (int n) (indices dims ! k) out =
    Some (bind_res (fold_res (reduce_step red dims axes input) out (drop k (indices dims))) (\<lambda>out'. Inr (indices dims ! 0, out')))"
  using k out
proof (induction "nat (prod_list dims) - k" arbitrary: k out)
  case (Suc m)
  note round = reduce_round_step[OF sh Suc.prems(1) inp ax Suc.prems(2), of red]
  have l: "length (indices dims) = nat (prod_list dims)" by (rule indices_nth(1)[OF shape_ok_nonneg[OF sh(1)]])
  have d: "drop k (indices dims) = indices dims ! k # drop (Suc k) (indices dims)"
    using Suc.prems(1) l by (simp add: Cons_nth_drop_Suc)
  show ?case
  proof (cases "reduce_step red dims axes input out (indices dims ! k)")
    case (Inl e)
    then show ?thesis using round by (subst reduce_loop.simps) (simp add: d)
  next
    case (Inr out1)
    show ?thesis
    proof (cases "Suc k < nat (prod_list dims)")
      case True
      have "m = nat (prod_list dims) - Suc k" using Suc.hyps(2) by simp
      from Suc.hyps(1)[OF this True, of out1] show ?thesis
        using True round Suc.prems(2) reduce_step_length[OF Inr] Inr by (subst reduce_loop.simps) (simp add: d)
    next
      case False
      then show ?thesis using round l Inr by (subst reduce_loop.simps) (simp add: d)
    qed
  qed
qed simp

text \<open>
  Element by element: the fold over all indices ends with the folds of the elements of every output, and it fails only if one of these
  does.
\<close>

definition cell :: "int list \<Rightarrow> int list \<Rightarrow> 'i list \<Rightarrow> nat \<Rightarrow> int list list \<Rightarrow> 'i list" where
  "cell dims axes input j xs = map (\<lambda>idx. input ! nat (flat_index dims idx))
     (filter (\<lambda>idx. nat (flat_index (kept axes dims) (kept axes idx)) = j) xs)"

lemma cell_simps [simp]:
  "cell dims axes input j [] = []"
  "cell dims axes input j (idx # xs) = (if nat (flat_index (kept axes dims) (kept axes idx)) = j then [input ! nat (flat_index dims idx)] else []) @ cell dims axes input j xs"
  by (simp_all add: cell_def)

lemma fold_reduce_Inr:
  assumes "fold_res (reduce_step red dims axes input) out xs = Inr out'"
  shows "length out' = length out \<and> (\<forall>j < length out. fold_res red (out ! j) (cell dims axes input j xs) = Inr (out' ! j))"
  using assms
proof (induction xs arbitrary: out)
  case (Cons idx xs)
  then obtain v where v: "red (out ! nat (flat_index (kept axes dims) (kept axes idx))) (input ! nat (flat_index dims idx)) = Inr v"
      "fold_res (reduce_step red dims axes input) (out[nat (flat_index (kept axes dims) (kept axes idx)) := v]) xs = Inr out'"
    by (auto simp: reduce_step_cases)
  show ?case using Cons.IH[OF v(2)] v(1) by (auto simp: nth_list_update)
qed simp

lemma fold_reduce_Inl:
  assumes "fold_res (reduce_step red dims axes input) out xs = Inl e"
    and "\<forall>idx \<in> set xs. nat (flat_index (kept axes dims) (kept axes idx)) < length out"
  shows "\<exists>j < length out. fold_res red (out ! j) (cell dims axes input j xs) = Inl e"
  using assms
proof (induction xs arbitrary: out)
  case (Cons idx xs)
  let ?j = "nat (flat_index (kept axes dims) (kept axes idx))"
  show ?case
  proof (cases "red (out ! ?j) (input ! nat (flat_index dims idx))")
    case (Inl e')
    then have "reduce_step red dims axes input out idx = Inl e'" by (simp add: reduce_step_cases)
    then show ?thesis using Cons.prems Inl by (intro exI[of _ ?j]) simp
  next
    case (Inr v)
    then have "reduce_step red dims axes input out idx = Inr (out[?j := v])" by (simp add: reduce_step_cases)
    then have "fold_res (reduce_step red dims axes input) (out[?j := v]) xs = Inl e" using Cons.prems(1) by simp
    then obtain j where j: "j < length out" "fold_res red (out[?j := v] ! j) (cell dims axes input j xs) = Inl e"
      using Cons.IH[of "out[?j := v]"] Cons.prems(2) by auto
    then show ?thesis using Inr by (intro exI[of _ j]) (auto simp: nth_list_update)
  qed
qed simp

lemma cell_elements:
  assumes "valid_index (kept axes dims) jdx"
  shows "cell dims axes input (nat (flat_index (kept axes dims) jdx)) (indices dims) = reduced_elements dims axes input jdx"
proof -
  let ?j = "nat (flat_index (kept axes dims) jdx)"
  note b = flat_index_bounds[OF assms]
  have "nat (flat_index (kept axes dims) (kept axes idx)) = ?j \<longleftrightarrow> kept axes idx = jdx" if "idx \<in> set (indices dims)" for idx
  proof -
    have v: "valid_index (kept axes dims) (kept axes idx)" using that by (simp add: indices_iff kept_valid)
    have "nat (flat_index (kept axes dims) (kept axes idx)) = ?j \<longleftrightarrow> flat_index (kept axes dims) (kept axes idx) = flat_index (kept axes dims) jdx"
      using flat_index_bounds[OF v] b by (intro eq_nat_nat_iff) simp_all
    then show ?thesis using flat_index_inj[OF v assms] by blast
  qed
  then have "filter (\<lambda>idx. nat (flat_index (kept axes dims) (kept axes idx)) = ?j) (indices dims) =
      filter (\<lambda>idx. kept axes idx = jdx) (indices dims)" by (rule filter_cong[OF refl])
  then show ?thesis by (simp add: cell_def reduced_elements_def)
qed

text \<open>
  What a reduction from \<open>init\<close> may end with: the results of all outputs, or the failure of one of them.
\<close>

definition reduces ::
    "('o \<Rightarrow> 'i \<Rightarrow> 'o res) \<Rightarrow> 'o \<Rightarrow> int list \<Rightarrow> int list \<Rightarrow> 'i list \<Rightarrow> nat \<Rightarrow> 'o list res \<Rightarrow> bool" where
  "reduces red init dims axes input n r \<longleftrightarrow> (case r of
     Inr out' \<Rightarrow> length out' = n \<and> (\<forall>jdx. valid_index (kept axes dims) jdx \<longrightarrow>
       fold_res red init (reduced_elements dims axes input jdx) = Inr (out' ! nat (flat_index (kept axes dims) jdx)))
   | Inl e \<Rightarrow> \<exists>jdx. valid_index (kept axes dims) jdx \<and> fold_res red init (reduced_elements dims axes input jdx) = Inl e)"

lemma fold_reduces:
  assumes sh: "shape_ok dims" and n: "int n = prod_list (kept axes dims)"
  shows "reduces red init dims axes input n (fold_res (reduce_step red dims axes input) (replicate n init) (indices dims))"
proof (cases "fold_res (reduce_step red dims axes input) (replicate n init) (indices dims)")
  case (Inr out')
  have "fold_res red init (reduced_elements dims axes input jdx) = Inr (out' ! nat (flat_index (kept axes dims) jdx))"
    if "valid_index (kept axes dims) jdx" for jdx
  proof -
    have "nat (flat_index (kept axes dims) jdx) < n" using flat_index_bounds[OF that] n by linarith
    then show ?thesis using fold_reduce_Inr[OF Inr] cell_elements[OF that, of input] by auto
  qed
  then show ?thesis using fold_reduce_Inr[OF Inr] Inr by (simp add: reduces_def)
next
  case (Inl e)
  have "nat (flat_index (kept axes dims) (kept axes idx)) < n" if "idx \<in> set (indices dims)" for idx
    using flat_index_bounds[OF kept_valid[of dims idx axes]] that n by (simp add: indices_iff) linarith
  then obtain j where j: "j < n" "fold_res red init (cell dims axes input j (indices dims)) = Inl e"
    using fold_reduce_Inl[OF Inl] by auto
  have "j < nat (prod_list (kept axes dims))" using j(1) n by linarith
  from indices_nth(2)[OF shape_ok_nonneg[OF kept_shape_ok[OF sh]] this]
  have v: "valid_index (kept axes dims) (indices (kept axes dims) ! j)" "flat_index (kept axes dims) (indices (kept axes dims) ! j) = int j" by simp_all
  then have "fold_res red init (reduced_elements dims axes input (indices (kept axes dims) ! j)) = Inl e"
    using cell_elements[OF v(1), of input] j(2) by simp
  then show ?thesis using v(1) Inl by (auto simp: reduces_def)
qed

lemma for_loop_fill:
  assumes "k \<le> length xs"
  shows "for_loop (\<lambda>i ys. vec_set ys (int i) v) 0 k xs = Inr (replicate k v @ drop k xs)"
  using assms
proof (induction k)
  case (Suc k)
  then have "drop k xs = xs ! k # drop (Suc k) xs" by (simp add: Cons_nth_drop_Suc)
  with Suc show ?case
    by (simp add: for_loop_snoc vec_set_def list_update_append replicate_append_same[symmetric] del: for_loop.simps)
qed simp

text \<open>The whole of \<^verbatim>\<open>Reduce\<close>.\<close>

lemma Reduce_runs:
  assumes sh: "shape_ok dims" "prod_list dims \<le> 2 ^ 64"
    and inp: "int (length input) = prod_list dims" and ax: "n \<le> length axis" "axes = take n axis"
    and out: "int (length out) = prod_list (kept axes dims)" and it: "length iter = length dims"
  shows "Reduce input dims odims (int (length dims)) on axis (int n) iter red out =
    Some (bind_res (fold_res (reduce_step red dims axes input) out (indices dims)) (\<lambda>out'. Inr (True, replicate (length dims) 0, out')))"
proof -
  have "0 < nat (prod_list dims)" using prod_list_pos[OF sh(1)] by simp
  from reduce_loop_runs[OF sh this inp ax out] show ?thesis
    using it by (simp add: Reduce_def for_loop_fill indices_first[OF sh(1)] bind_res_assoc)
qed

section \<open>Resolving the axes\<close>

text \<open>A negative axis counts from the end.\<close>

definition norm_axis :: "int \<Rightarrow> int \<Rightarrow> int" where
  "norm_axis n a = (if a < 0 then a + n else a)"

definition axes_in_range :: "int \<Rightarrow> int list \<Rightarrow> bool" where
  "axes_in_range n axis \<longleftrightarrow> list_all (\<lambda>a. - n \<le> a \<and> a < n) axis"

text \<open>The first \<open>m\<close> entries of the buffer are the axes resolved so far, each once.\<close>

definition resolved_prefix :: "int \<Rightarrow> int list \<Rightarrow> int list \<Rightarrow> nat \<Rightarrow> bool" where
  "resolved_prefix n axis out m \<longleftrightarrow> m \<le> length axis \<and> distinct (take m out) \<and> set (take m out) = norm_axis n ` set axis"

lemma resolve_loop_ok:
  assumes "i + k = length axis" "resolved_prefix n (take i axis) out m" "length axis \<le> length out" "length axis < 2 ^ 31"
    and "axes_in_range n axis" "n < 2 ^ 31"
  shows "\<exists>out' m'. resolve_loop n axis i k out (int m) = Inr (True, out', int m') \<and> length out' = length out \<and> resolved_prefix n axis out' m'"
  using assms
proof (induction k arbitrary: i out m)
  case (Suc k)
  define a c where "a = axis ! i" and "c = norm_axis n a"
  have i: "i < length axis" "take (Suc i) axis = take i axis @ [a]" using Suc.prems(1) by (simp_all add: a_def take_Suc_conv_app_nth)
  have r: "- n \<le> a" "a < n" using Suc.prems(5) i by (simp_all add: axes_in_range_def list_all_length a_def)
  then have c: "0 \<le> c" "c < n" "(if a < 0 then checked_int (a + n) else Inr a) = Inr c"
    using Suc.prems(6) by (auto simp: c_def norm_axis_def checked_int_def fits_int_def)
  have m: "m \<le> i" "distinct (take m out)" "set (take m out) = norm_axis n ` set (take i axis)"
    using Suc.prems(2) i by (simp_all add: resolved_prefix_def)
  have scan: "axis_scan c 0 m out = Inr (c \<in> set (take m out))" using m(1) i Suc.prems(3) by (simp add: axis_scan_mem)
  have step: "resolve_loop n axis i (Suc k) out (int m) =
      (if c \<in> set (take m out) then resolve_loop n axis (Suc i) k out (int m)
       else resolve_loop n axis (Suc i) k (out[m := c]) (int (Suc m)))"
    using i c m(1) Suc.prems(3,4) by (simp add: vec_at_def vec_set_def a_def[symmetric] scan checked_int_def fits_int_def add.commute)
  show ?case
  proof (cases "c \<in> set (take m out)")
    case True
    have "resolved_prefix n (take (Suc i) axis) out m" using m True i by (auto simp: resolved_prefix_def c_def)
    with Suc.IH[of "Suc i" out m] True Suc.prems show ?thesis unfolding step by simp
  next
    case False
    have t: "take (Suc m) (out[m := c]) = take m out @ [c]" using m(1) i Suc.prems(3) by (simp add: take_Suc_conv_app_nth)
    have "resolved_prefix n (take (Suc i) axis) (out[m := c]) (Suc m)"
      using m False i unfolding resolved_prefix_def t by (auto simp: c_def)
    with Suc.IH[of "Suc i" "out[m := c]" "Suc m"] False Suc.prems show ?thesis unfolding step by simp
  qed
qed simp

lemma ResolveAxis_ok:
  assumes "n \<noteq> 0 \<longrightarrow> axes_in_range n axis" "n < 2 ^ 31" "length axis \<le> length out" "length axis < 2 ^ 31"
  shows "\<exists>out' m. ResolveAxis n axis (int (length axis)) out = Inr (True, out', int m) \<and> length out' = length out \<and>
    m \<le> length out \<and> (if n = 0 then m = 0 else resolved_prefix n axis out' m)"
proof (cases "n = 0")
  case False
  have "resolved_prefix n (take 0 axis) out 0" by (simp add: resolved_prefix_def)
  from resolve_loop_ok[OF _ this assms(3,4) _ assms(2)] False assms show ?thesis
    by (fastforce simp: ResolveAxis_def resolved_prefix_def)
qed (simp add: ResolveAxis_def)

lemma size_product_ok:
  assumes "idx + k = length sh" "shape_ok sh" "prod_list sh < 2 ^ 64" "num = prod_list (take idx sh)"
  shows "size_product idx k sh num = Inr (Some (prod_list sh))"
  using assms
proof (induction k arbitrary: idx num)
  case (Suc k)
  define d where "d = sh ! idx"
  have i: "idx < length sh" "take (Suc idx) sh = take idx sh @ [d]" using Suc.prems(1) by (simp_all add: d_def take_Suc_conv_app_nth)
  have d: "1 \<le> d" "d < 2 ^ 31" using Suc.prems(2) i by (simp_all add: shape_ok_def d_def)
  have p: "prod_list (take (Suc idx) sh) = num * d" by (simp add: i Suc.prems(4))
  have "prod_list (take (Suc idx) sh) \<le> prod_list sh" using kept_prefix_le[OF Suc.prems(2), of "[]"] by simp
  then have le: "num * d < 2 ^ 64" using p Suc.prems(3) by simp
  have "shape_ok (take idx sh)" by (rule shape_ok_take[OF Suc.prems(2)])
  then have n1: "1 \<le> num" using Suc.prems(4) prod_list_pos by simp
  have "num * d div d \<le> (2 ^ 64 - 1) div d" using le d by (intro zdiv_mono1) simp_all
  then have "num \<le> (2 ^ 64 - 1) div d" using d by simp
  moreover have "to_size_t d = d" "to_size_t (num * d) = num * d" using d le n1 by (simp_all add: to_size_t_def)
  ultimately show ?case
    using Suc.IH[of "Suc idx" "num * d"] Suc.prems i d p by (simp add: vec_at_def d_def[symmetric] Let_def del: bind_res_eq_Inr)
qed simp

lemma has_zero_dim_none: "i + k = length sh \<Longrightarrow> shape_ok sh \<Longrightarrow> has_zero_dim i k sh = Inr False"
proof (induction k arbitrary: i)
  case (Suc k)
  have "sh ! i \<in> set sh" using Suc.prems by simp
  then have "sh ! i \<noteq> 0" using Suc.prems(2) unfolding shape_ok_def by force
  then show ?case using Suc by (simp add: vec_at_def)
qed simp

lemma kept_cong: "set a = set b \<Longrightarrow> kept a xs = kept b xs"
  by (simp add: kept_nths)

section \<open>The reduction is correct\<close>

text \<open>
  What the kernels need of their arguments: a shape without empty axes and fewer than \<open>2 ^ 63\<close> elements, as many input
  elements, axes in range, an output with one element for each index of the kept axes (the output shape has ones
  or nothing for the others), and scratch arrays of the right size.
\<close>

definition reduce_args_ok :: "'a list \<Rightarrow> int list \<Rightarrow> 'b list \<Rightarrow> int list \<Rightarrow> int list \<Rightarrow> int list \<Rightarrow> int list \<Rightarrow> bool" where
  "reduce_args_ok input dims out odims axis temp_index resolved \<longleftrightarrow>
     shape_ok dims \<and> prod_list dims < 2 ^ 63 \<and> length dims < 2 ^ 31 \<and> int (length input) = prod_list dims \<and>
     (dims \<noteq> [] \<longrightarrow> axes_in_range (int (length dims)) axis) \<and>
     shape_ok odims \<and> prod_list odims = prod_list (kept (map (norm_axis (int (length dims))) axis) dims) \<and>
     int (length out) = prod_list odims \<and> length temp_index = length dims \<and>
     length axis \<le> length resolved \<and> length axis < 2 ^ 31"

lemma resolved_kept:
  assumes "reduce_args_ok input dims out odims axis temp_index resolved"
  shows "\<exists>ax m. ResolveAxis (int (length dims)) axis (int (length axis)) resolved = Inr (True, ax, int m) \<and> m \<le> length ax \<and>
    (if dims = [] then m = 0 else resolved_prefix (int (length dims)) axis ax m) \<and>
    (\<forall>idx :: int list. length idx = length dims \<longrightarrow> kept (take m ax) idx = kept (map (norm_axis (int (length dims))) axis) idx)"
proof -
  let ?n = "int (length dims)"
  have a: "?n \<noteq> 0 \<longrightarrow> axes_in_range ?n axis" "?n < 2 ^ 31" "length axis \<le> length resolved" "length axis < 2 ^ 31"
    using assms by (simp_all add: reduce_args_ok_def)
  obtain ax m where r: "ResolveAxis ?n axis (int (length axis)) resolved = Inr (True, ax, int m)" "length ax = length resolved" "m \<le> length resolved"
    "if ?n = 0 then m = 0 else resolved_prefix ?n axis ax m" using ResolveAxis_ok[OF a] by blast
  have "kept (take m ax) idx = kept (map (norm_axis ?n) axis) idx" if "length idx = length dims" for idx :: "int list"
  proof (cases "dims = []")
    case False
    then show ?thesis using r(4) by (intro kept_cong) (simp add: resolved_prefix_def)
  qed (use that in \<open>simp add: kept_nths\<close>)
  then show ?thesis using r by (intro exI[of _ ax] exI[of _ m]) auto
qed

lemma reduces_cong:
  assumes "\<And>idx :: int list. length idx = length dims \<Longrightarrow> kept a idx = kept b idx"
  shows "reduces red init dims a input n r \<longleftrightarrow> reduces red init dims b input n r"
proof -
  have "filter (\<lambda>idx. kept a idx = jdx) (indices dims) = filter (\<lambda>idx. kept b idx = jdx) (indices dims)" for jdx
    by (rule filter_cong[OF refl]) (use assms in \<open>simp add: indices_iff valid_index_length\<close>)
  moreover have "kept a dims = kept b dims" by (rule assms) simp
  ultimately show ?thesis by (cases r) (simp_all add: reduces_def reduced_elements_def)
qed

text \<open>The common part of the two kernels: resolve the axes, then reduce into an output filled with \<open>init\<close>.\<close>

lemma resolve_and_reduce:
  assumes ok: "reduce_args_ok input dims out odims axis temp_index resolved"
  obtains ax m r where "ResolveAxis (int (length dims)) axis (int (length axis)) resolved = Inr (True, ax, int m)" "m \<le> length ax"
    "if dims = [] then m = 0 else resolved_prefix (int (length dims)) axis ax m"
    "Reduce input dims odims (int (length dims)) on ax (int m) temp_index red (replicate (length out) init) =
      Some (bind_res r (\<lambda>out'. Inr (True, replicate (length dims) 0, out')))"
    "reduces red init dims (map (norm_axis (int (length dims))) axis) input (length out) r"
proof -
  let ?A = "map (norm_axis (int (length dims))) axis"
  have a: "shape_ok dims" "prod_list dims \<le> 2 ^ 64" "int (length input) = prod_list dims" "length temp_index = length dims"
    "int (length out) = prod_list (kept ?A dims)"
    using ok by (simp_all add: reduce_args_ok_def)
  obtain ax m where r: "ResolveAxis (int (length dims)) axis (int (length axis)) resolved = Inr (True, ax, int m)" "m \<le> length ax"
      "if dims = [] then m = 0 else resolved_prefix (int (length dims)) axis ax m"
      "\<And>idx :: int list. length idx = length dims \<Longrightarrow> kept (take m ax) idx = kept ?A idx"
    using resolved_kept[OF ok] by blast
  have k: "kept (take m ax) dims = kept ?A dims" by (rule r(4)) simp
  let ?r = "fold_res (reduce_step red dims (take m ax) input) (replicate (length out) init) (indices dims)"
  have "reduces red init dims (take m ax) input (length out) ?r" using a(5) by (intro fold_reduces[OF a(1)]) (simp add: k)
  then have "reduces red init dims ?A input (length out) ?r" using reduces_cong[of dims "take m ax" ?A red init input "length out" ?r] r(4) by blast
  moreover have "Reduce input dims odims (int (length dims)) on ax (int m) temp_index red (replicate (length out) init) =
      Some (bind_res ?r (\<lambda>out'. Inr (True, replicate (length dims) 0, out')))"
    using a(5) k by (intro Reduce_runs[OF a(1-3) r(2) refl _ a(4)]) simp
  ultimately show ?thesis using that r(1-3) by blast
qed

lemma reduces_total:
  assumes "\<And>c x. red c x = Inr (f c x)" "reduces red init dims axes input n r"
  obtains out' where "r = Inr out'" "length out' = n"
    "\<forall>jdx. valid_index (kept axes dims) jdx \<longrightarrow> out' ! nat (flat_index (kept axes dims) jdx) = reduced f init dims axes input jdx"
  using assms(2) that fold_res_total[where f = red and r = f, OF assms(1)]
  by (auto simp: reduces_def reduced_def reduced_elements_def split: sum.splits)

text \<open>
  C33: A generic reduction (sum, product, minimum, maximum) with a reducer that does not fail over a shape without empty axes ends and returns true, and
  every element of the output is the reducer over exactly the input elements that agree with it on the
  axes that are kept, in row-major order, from the initial value. Axes may be negative, in any order and repeated; nothing is
  read or written out of bounds, whatever the output held before.\<close>

theorem reduce_generic_correct:
  assumes "reduce_args_ok input dims out odims axis temp_index resolved" "\<And>c x. red c x = Inr (r c x)"
  shows "\<exists>out' it ax. ReduceGeneric input dims (int (length dims)) out odims (int (length odims)) axis (int (length axis))
      keep_dims temp_index resolved init red = Some (Inr (True, out', it, ax)) \<and> length out' = length out \<and>
    (\<forall>jdx. valid_index (kept (map (norm_axis (int (length dims))) axis) dims) jdx \<longrightarrow>
      out' ! nat (flat_index (kept (map (norm_axis (int (length dims))) axis) dims) jdx) =
      reduced r init dims (map (norm_axis (int (length dims))) axis) input jdx)"
proof -
  have a: "shape_ok dims" "shape_ok odims" "int (length out) = prod_list odims"
    using assms(1) by (simp_all add: reduce_args_ok_def)
  have "prod_list odims \<le> prod_list dims" using assms(1) kept_le[OF a(1)] by (simp add: reduce_args_ok_def)
  then have "prod_list odims < 2 ^ 64" using assms(1) by (simp add: reduce_args_ok_def)
  then have "size_product 0 (length odims) odims 1 = Inr (Some (prod_list odims))" using size_product_ok[of 0 "length odims" odims 1] a(2) by simp
  moreover have n: "nat (prod_list odims) = length out" using a(3) by linarith
  ultimately have i: "InitTensorDataForReduce odims (int (length odims)) init out = Inr (True, replicate (length out) init)"
    using for_loop_fill[of "length out" out init] n by (simp add: InitTensorDataForReduce_def)
  have z: "has_zero_dim 0 (length dims) dims = Inr False" by (rule has_zero_dim_none[OF _ a(1)]) simp
  obtain ax m q where r: "ResolveAxis (int (length dims)) axis (int (length axis)) resolved = Inr (True, ax, int m)"
    "Reduce input dims odims (int (length dims)) (int (length odims)) ax (int m) temp_index red (replicate (length out) init) =
      Some (bind_res q (\<lambda>out'. Inr (True, replicate (length dims) 0, out')))"
    "reduces red init dims (map (norm_axis (int (length dims))) axis) input (length out) q"
    using resolve_and_reduce[OF assms(1), where on = "int (length odims)" and init = init and red = red] .
  obtain out' where o: "q = Inr out'" "length out' = length out"
    "\<forall>jdx. valid_index (kept (map (norm_axis (int (length dims))) axis) dims) jdx \<longrightarrow>
      out' ! nat (flat_index (kept (map (norm_axis (int (length dims))) axis) dims) jdx) =
      reduced r init dims (map (norm_axis (int (length dims))) axis) input jdx"
    using reduces_total[where red = red and f = r, OF assms(2) r(3)] .
  have "ReduceGeneric input dims (int (length dims)) out odims (int (length odims)) axis (int (length axis))
      keep_dims temp_index resolved init red = Some (Inr (True, out', replicate (length dims) 0, ax))"
    by (simp add: ReduceGeneric_def z i r(1,2) o(1))
  then show ?thesis using o(2,3) by blast
qed

theorem reduce_generic_correct_witness:
  "\<exists>out' it ax. ReduceGeneric [1, 2, 3, 4, 5, 6 :: int] [2, 3] 2 [9, 9] [2, 1] 2 [-1, 1] 2 True [7, 7] [0, 0] 0 (\<lambda>c x. Inr (c + x)) =
     Some (Inr (True, out', it, ax)) \<and> out' ! 0 = 6 \<and> out' ! 1 = 15"
proof -
  let ?A = "map (norm_axis (int (length [2, 3 :: int]))) [-1, 1]"
  have ok: "reduce_args_ok [1, 2, 3, 4, 5, 6 :: int] [2, 3] [9, 9 :: int] [2, 1] [-1, 1] [7, 7] [0, 0]"
    by (simp add: reduce_args_ok_def shape_ok_def axes_in_range_def norm_axis_def kept_def upt_rec)
  obtain out' it ax where r: "ReduceGeneric [1, 2, 3, 4, 5, 6 :: int] [2, 3] (int (length [2, 3 :: int])) [9, 9] [2, 1] (int (length [2, 1 :: int]))
        [-1, 1] (int (length [-1, 1 :: int])) True [7, 7] [0, 0] 0 (\<lambda>c x. Inr (c + x)) = Some (Inr (True, out', it, ax))"
      "\<forall>jdx. valid_index (kept ?A [2, 3]) jdx \<longrightarrow> out' ! nat (flat_index (kept ?A [2, 3]) jdx) =
         reduced (+) 0 [2, 3] ?A [1, 2, 3, 4, 5, 6] jdx"
    using reduce_generic_correct[OF ok, of "\<lambda>c x. Inr (c + x)" "(+)" True 0, OF refl] by blast
  have "valid_index (kept ?A [2, 3]) [0]" "nat (flat_index (kept ?A [2, 3]) [0]) = 0" "reduced (+) 0 [2, 3] ?A [1, 2, 3, 4, 5, 6 :: int] [0] = 6"
    "valid_index (kept ?A [2, 3]) [1]" "nat (flat_index (kept ?A [2, 3]) [1]) = 1" "reduced (+) 0 [2, 3] ?A [1, 2, 3, 4, 5, 6 :: int] [1] = 15"
    by code_simp+
  with r(2) have "out' ! 0 = 6" "out' ! 1 = 15" by metis+
  then show ?thesis using r(1) by simp
qed

end
