(* ===== verification/Cpp_Numbers.thy ===== *)
theory Cpp_Numbers
  imports Ieee_Float
begin

text \<open>
  The arithmetic types a kernel template is instantiated with, for code that is generic in them: integers of a width, signed or
  not, and the two floating-point formats, with the conversions and the operators C++ has on them. An operand narrower than \<^verbatim>\<open>int\<close> is
  promoted; signed overflow, an integer division by zero and a floating-point value too large for the integer type it is converted to are errors.
\<close>

section \<open>Types and values\<close>

datatype num_type = Signed nat | Unsigned nat | Floating fmt

datatype num = IntN int | FlN fl

fun zero_num :: "num_type \<Rightarrow> num" where
  "zero_num (Floating F) = FlN zero"
| "zero_num _ = IntN 0"

definition fits_signed :: "nat \<Rightarrow> int \<Rightarrow> bool" where
  "fits_signed w z \<longleftrightarrow> - (2 ^ (w - 1)) \<le> z \<and> z < 2 ^ (w - 1)"

fun in_type :: "num_type \<Rightarrow> num \<Rightarrow> bool" where
  "in_type (Signed w) (IntN z) \<longleftrightarrow> fits_signed w z"
| "in_type (Unsigned w) (IntN z) \<longleftrightarrow> 0 \<le> z \<and> z < 2 ^ w"
| "in_type (Floating F) (FlN x) \<longleftrightarrow> True"
| "in_type _ _ \<longleftrightarrow> False"

section \<open>Conversions and operators\<close>

text \<open>The integer part, towards zero.\<close>

definition truncated :: "bool \<Rightarrow> rat \<Rightarrow> int" where
  "truncated s m = (if s then - \<lfloor>m\<rfloor> else \<lfloor>m\<rfloor>)"

text \<open>\<^verbatim>\<open>static_cast<U>(x)\<close>: an integer keeps its low bits, a number that goes to a floating-point type is rounded.\<close>

fun cast :: "num_type \<Rightarrow> num \<Rightarrow> num res" where
  "cast (Signed w) (IntN z) = Inr (IntN (signed_take_bit (w - 1) z))"
| "cast (Unsigned w) (IntN z) = Inr (IntN (z mod 2 ^ w))"
| "cast (Floating F) (IntN z) = Inr (FlN (fl_of_int F z))"
| "cast (Floating F) (FlN x) = Inr (FlN (fl_cvt F x))"
| "cast U (FlN (Fin s m)) = (if in_type U (IntN (truncated s m)) then Inr (IntN (truncated s m)) else Inl Undefined)"
| "cast U (FlN x) = Inl Undefined"

text \<open>The type in which \<^verbatim>\<open>a + b\<close> and \<^verbatim>\<open>a / b\<close> are computed for operands of type \<^verbatim>\<open>U\<close>.\<close>

fun promoted :: "num_type \<Rightarrow> num_type" where
  "promoted (Signed w) = Signed (max w 32)"
| "promoted (Unsigned w) = (if w < 32 then Signed 32 else Unsigned w)"
| "promoted (Floating F) = Floating F"

fun plus_num :: "num_type \<Rightarrow> num \<Rightarrow> num \<Rightarrow> num res" where
  "plus_num (Signed w) (IntN a) (IntN b) = (if fits_signed w (a + b) then Inr (IntN (a + b)) else Inl SignedOverflow)"
| "plus_num (Unsigned w) (IntN a) (IntN b) = Inr (IntN ((a + b) mod 2 ^ w))"
| "plus_num (Floating F) (FlN a) (FlN b) = Inr (FlN (fl_add F a b))"
| "plus_num _ _ _ = Inl Undefined"

fun over_num :: "num_type \<Rightarrow> num \<Rightarrow> num \<Rightarrow> num res" where
  "over_num (Signed w) (IntN a) (IntN b) =
     (if b = 0 then Inl DivideByZero else if fits_signed w (quot_int a b) then Inr (IntN (quot_int a b)) else Inl SignedOverflow)"
| "over_num (Unsigned w) (IntN a) (IntN b) = (if b = 0 then Inl DivideByZero else Inr (IntN (a div b)))"
| "over_num (Floating F) (FlN a) (FlN b) = Inr (FlN (fl_div F a b))"
| "over_num _ _ _ = Inl Undefined"

section \<open>Values that fit\<close>

lemma cast_in_type: "in_type U (IntN z) \<Longrightarrow> cast U (IntN z) = Inr (IntN z)"
  by (cases U) (auto simp: fits_signed_def signed_take_bit_int_eq_self)

lemma cast_signed: "fits_signed w z \<Longrightarrow> cast (Signed w) (IntN z) = Inr (IntN z)"
  by (rule cast_in_type) simp

lemma zero_in_type: "in_type U (zero_num U)"
  by (cases U) (simp_all add: fits_signed_def)

text \<open>Truncating division by a positive number is monotone and stays between the bounds of what it divides.\<close>

lemma quot_int_bounds:
  assumes "0 < d" "l \<le> 0" "0 \<le> h" "l * d \<le> n" "n \<le> h * d"
  shows "l \<le> quot_int n d" "quot_int n d \<le> h"
proof -
  have q: "quot_int n d = (if n < 0 then - ((- n) div d) else n div d)" using assms(1) by (simp add: quot_int_def Let_def)
  have "(- n) div d \<le> (- l) * d div d" using assms by (intro zdiv_mono1) simp_all
  then have "(- n) div d \<le> - l" using nonzero_mult_div_cancel_right[of d "- l"] assms(1) by simp
  moreover have "n div d \<le> h" using zdiv_mono1[of n "h * d" d] assms by simp
  moreover have "0 \<le> (- n) div d" if "n < 0" using that assms(1) by (simp add: pos_imp_zdiv_nonneg_iff)
  moreover have "0 \<le> n div d" if "\<not> n < 0" using that assms(1) by (simp add: pos_imp_zdiv_nonneg_iff)
  ultimately show "l \<le> quot_int n d" "quot_int n d \<le> h" using assms(2,3) unfolding q by (auto split: if_splits)
qed

end
