(* ===== verification/Reduce_Mean.thy ===== *)
theory Reduce_Mean
  imports Reduce_Ops Cpp_Numbers
begin

text \<open>
  \<^verbatim>\<open>kernels/internal/reference/reduce.h\<close>: the sum along axes and the mean, for an input type \<^verbatim>\<open>T\<close> and a type \<^verbatim>\<open>U\<close> of totals. The arguments \<open>T\<close> and \<open>U\<close> are the
  template parameters: the addition, the division and the conversions are those C++ has on these types, with their overflow.
\<close>

section \<open>The kernels\<close>

text \<open>The lambda \<^verbatim>\<open>reducer\<close>: \<^verbatim>\<open>return current + static_cast<Out>(in)\<close>, converted back to \<^verbatim>\<open>Out\<close>.\<close>

definition sum_reducer :: "num_type \<Rightarrow> num \<Rightarrow> num \<Rightarrow> num res" where
  "sum_reducer Out current x =
     bind_res (cast Out x) (\<lambda>actual_in. bind_res (plus_num (promoted Out) current actual_in) (cast Out))"

definition ReduceSumImpl ::
    "num_type \<Rightarrow> num list \<Rightarrow> int list \<Rightarrow> int list \<Rightarrow> int \<Rightarrow> int \<Rightarrow> int list \<Rightarrow> int \<Rightarrow> int list \<Rightarrow> num list \<Rightarrow> (bool \<times> int list \<times> num list) res option" where
  "ReduceSumImpl Out input_data input_dims output_dims input_num_dims output_num_dims axis num_axis input_iter output_data =
     Reduce input_data input_dims output_dims input_num_dims output_num_dims axis num_axis input_iter (sum_reducer Out) output_data"

fun axis_product :: "nat \<Rightarrow> nat \<Rightarrow> int list \<Rightarrow> int list \<Rightarrow> int \<Rightarrow> int option res" where
  "axis_product idx 0 dims axis num_elements = Inr (Some num_elements)"
| "axis_product idx (Suc k) dims axis num_elements =
     bind_res (vec_at axis (int idx)) (\<lambda>a. bind_res (vec_at dims a) (\<lambda>d.
       let current = to_size_t d in
       if num_elements = 0 then Inl DivideByZero
       else if current > (2 ^ 64 - 1) div num_elements then Inr None
       else axis_product (Suc idx) k dims axis (to_size_t (num_elements * current))))"

text \<open>\<^verbatim>\<open>static_cast<T>(s / static_cast<U>(n))\<close>, and the last loop of the mean.\<close>

definition mean_quotient :: "num_type \<Rightarrow> num_type \<Rightarrow> num \<Rightarrow> int \<Rightarrow> num res" where
  "mean_quotient T U s n = bind_res (cast U (IntN n)) (\<lambda>d. bind_res (over_num (promoted U) s d) (cast T))"

definition divide_sums :: "num_type \<Rightarrow> num_type \<Rightarrow> int \<Rightarrow> nat \<Rightarrow> num list \<Rightarrow> num list \<Rightarrow> num list res" where
  "divide_sums T U n num_outputs temp_sum out =
     for_loop (\<lambda>idx ys. bind_res (vec_at temp_sum (int idx)) (\<lambda>s. bind_res (mean_quotient T U s n) (vec_set ys (int idx)))) 0 num_outputs out"

text \<open>The results are the returned truth value, the output and \<^verbatim>\<open>temp_sum\<close>.\<close>

definition Mean ::
    "num_type \<Rightarrow> num_type \<Rightarrow> num list \<Rightarrow> int list \<Rightarrow> int \<Rightarrow> num list \<Rightarrow> int list \<Rightarrow> int \<Rightarrow> int list \<Rightarrow> int
       \<Rightarrow> bool \<Rightarrow> int list \<Rightarrow> int list \<Rightarrow> num list \<Rightarrow> (bool \<times> num list \<times> num list) res option" where
  "Mean T U input_data input_dims input_num_dims output_data output_dims output_num_dims axis
       num_axis_dimensions keep_dims temp_index resolved_axis temp_sum =
     (case size_product 0 (nat output_num_dims) output_dims 1 of
        Inl e \<Rightarrow> Some (Inl e)
      | Inr None \<Rightarrow> Some (Inr (False, output_data, temp_sum))
      | Inr (Some num_outputs) \<Rightarrow>
     (case for_loop (\<lambda>idx (out, totals). bind_res (vec_set out (int idx) (zero_num T)) (\<lambda>out'. bind_res (vec_set totals (int idx) (zero_num U)) (\<lambda>totals'.
             Inr (out', totals')))) 0 (nat num_outputs) (output_data, temp_sum) of
        Inl e \<Rightarrow> Some (Inl e)
      | Inr (out, totals) \<Rightarrow>
     (case ResolveAxis input_num_dims axis num_axis_dimensions resolved_axis of
        Inl e \<Rightarrow> Some (Inl e)
      | Inr (False, _, _) \<Rightarrow> Some (Inr (False, out, totals))
      | Inr (True, ax, num_resolved_axis) \<Rightarrow>
     (case ReduceSumImpl U input_data input_dims output_dims input_num_dims output_num_dims ax num_resolved_axis temp_index totals of
        None \<Rightarrow> None
      | Some (Inl e) \<Rightarrow> Some (Inl e)
      | Some (Inr (False, _, totals')) \<Rightarrow> Some (Inr (False, out, totals'))
      | Some (Inr (True, _, totals')) \<Rightarrow>
     (case axis_product 0 (nat num_resolved_axis) input_dims ax 1 of
        Inl e \<Rightarrow> Some (Inl e)
      | Inr None \<Rightarrow> Some (Inr (False, out, totals'))
      | Inr (Some n) \<Rightarrow>
          Some (bind_res (if n > 0 then divide_sums T U n (nat num_outputs) totals' out else Inr out) (\<lambda>out'.
            Inr (True, out', totals'))))))))"

section \<open>What the mean of some numbers is\<close>

text \<open>Their sum in the type \<open>U\<close>, from left to right, divided by how many they are, in the type \<open>T\<close>.\<close>

definition mean_of :: "num_type \<Rightarrow> num_type \<Rightarrow> num list \<Rightarrow> num res" where
  "mean_of T U xs = bind_res (fold_res (sum_reducer U) (zero_num U) xs) (\<lambda>s. mean_quotient T U s (int (length xs)))"

section \<open>The loops\<close>

lemma axis_product_ok:
  assumes "idx + k = length axis" "shape_ok dims" "\<forall>a \<in> set axis. 0 \<le> a \<and> a < int (length dims)"
    and "prod_list (map (\<lambda>a. dims ! nat a) axis) < 2 ^ 64" "num = prod_list (map (\<lambda>a. dims ! nat a) (take idx axis))"
  shows "axis_product idx k dims axis num = Inr (Some (prod_list (map (\<lambda>a. dims ! nat a) axis)))"
  using assms
proof (induction k arbitrary: idx num)
  case (Suc k)
  define d where "d = dims ! nat (axis ! idx)"
  have i: "idx < length axis" "take (Suc idx) axis = take idx axis @ [axis ! idx]" using Suc.prems(1) by (simp_all add: take_Suc_conv_app_nth)
  have r: "0 \<le> axis ! idx" "axis ! idx < int (length dims)" using Suc.prems(3) i(1) by simp_all
  let ?ds = "map (\<lambda>a. dims ! nat a) axis"
  have sh: "shape_ok ?ds" using Suc.prems(2,3) by (auto simp: shape_ok_def)
  have d: "1 \<le> d" "d < 2 ^ 31" using sh i(1) by (simp_all add: shape_ok_def d_def)
  have p: "prod_list (take (Suc idx) ?ds) = num * d" unfolding take_map i(2) Suc.prems(5) by (simp add: d_def)
  have "prod_list (take (Suc idx) ?ds) \<le> prod_list ?ds" using kept_prefix_le[OF sh, of "[]"] by simp
  then have le: "num * d < 2 ^ 64" using p Suc.prems(4) by simp
  have "shape_ok (take idx ?ds)" by (rule shape_ok_take[OF sh])
  then have n1: "1 \<le> num" using Suc.prems(5) prod_list_pos by (simp add: take_map)
  have "d * num div num \<le> (2 ^ 64 - 1) div num" using le n1 by (intro zdiv_mono1) (simp_all add: mult.commute)
  then have "d \<le> (2 ^ 64 - 1) div num" using n1 by simp
  moreover have "to_size_t d = d" "to_size_t (num * d) = num * d" using d le n1 by (simp_all add: to_size_t_def)
  moreover have "num * d = prod_list (map (\<lambda>a. dims ! nat a) (take (Suc idx) axis))" using p by (simp add: take_map)
  ultimately show ?case
    using Suc.IH[of "Suc idx" "num * d"] Suc.prems i(1) r n1 by (simp add: vec_at_def d_def[symmetric] Let_def del: bind_res_eq_Inr)
qed simp

lemma for_loop_fill2:
  assumes "k \<le> length xs" "k \<le> length ys"
  shows "for_loop (\<lambda>i (us, vs). bind_res (vec_set us (int i) a) (\<lambda>us'. bind_res (vec_set vs (int i) b) (\<lambda>vs'. Inr (us', vs')))) 0 k (xs, ys) =
    Inr (replicate k a @ drop k xs, replicate k b @ drop k ys)"
  using assms
proof (induction k)
  case (Suc k)
  then have "drop k xs = xs ! k # drop (Suc k) xs" "drop k ys = ys ! k # drop (Suc k) ys" by (simp_all add: Cons_nth_drop_Suc)
  with Suc show ?case
    by (auto simp: for_loop_snoc vec_set_def list_update_append replicate_append_same[symmetric] simp del: for_loop.simps)
qed simp

lemma divide_sums_cases:
  assumes "length totals = length out"
  shows "case divide_sums T U n (length out) totals out of
      Inr ys \<Rightarrow> list_all2 (\<lambda>s y. mean_quotient T U s n = Inr y) totals ys | Inl e \<Rightarrow> \<exists>s \<in> set totals. mean_quotient T U s n = Inl e"
proof -
  have "case for_loop (\<lambda>idx ys. bind_res (vec_at totals (int idx)) (\<lambda>s. bind_res (mean_quotient T U s n) (vec_set ys (int idx)))) 0 k out of
      Inr zs \<Rightarrow> \<exists>ys. zs = ys @ drop k out \<and> list_all2 (\<lambda>s y. mean_quotient T U s n = Inr y) (take k totals) ys
    | Inl e \<Rightarrow> \<exists>s \<in> set totals. mean_quotient T U s n = Inl e" (is "case ?loop k of Inr zs \<Rightarrow> ?R k zs | Inl e \<Rightarrow> ?L e") if "k \<le> length out" for k
    using that
  proof (induction k)
    case (Suc k)
    show ?case
    proof (cases "?loop k")
      case (Inl e)
      then show ?thesis using Suc by (simp add: for_loop_snoc del: for_loop.simps)
    next
      case (Inr zs)
      then obtain ys where ys: "zs = ys @ drop k out" "list_all2 (\<lambda>s y. mean_quotient T U s n = Inr y) (take k totals) ys" using Suc by auto
      have l: "length ys = k" using list_all2_lengthD[OF ys(2)] Suc.prems assms by simp
      have d: "drop k out = out ! k # drop (Suc k) out" using Suc.prems by (simp add: Cons_nth_drop_Suc)
      show ?thesis
      proof (cases "mean_quotient T U (totals ! k) n")
        case (Inl e)
        then show ?thesis using \<open>?loop k = Inr zs\<close> Suc.prems assms by (auto simp: for_loop_snoc vec_at_def simp del: for_loop.simps)
      next
        case (Inr y)
        have a: "?loop (Suc k) = Inr ((ys @ [y]) @ drop (Suc k) out)"
          using \<open>?loop k = Inr zs\<close> Inr Suc.prems assms l ys(1) d by (simp add: for_loop_snoc vec_at_def vec_set_def list_update_append del: for_loop.simps)
        have b: "list_all2 (\<lambda>s y. mean_quotient T U s n = Inr y) (take (Suc k) totals) (ys @ [y])"
          using ys(2) Inr Suc.prems assms by (simp add: take_Suc_conv_app_nth list_all2_appendI)
        show ?thesis unfolding a using b by (simp only: sum.case) blast
      qed
    qed
  qed simp
  from this[of "length out"] show ?thesis using assms by (simp add: divide_sums_def split: sum.splits)
qed

text \<open>The number of elements that go into one mean: the product of the sizes of the distinct axes.\<close>

definition axis_elements :: "int list \<Rightarrow> int list \<Rightarrow> int" where
  "axis_elements dims axes = prod_list (map (\<lambda>i. dims ! i) (filter (\<lambda>i. int i \<in> set axes) [0 ..< length dims]))"

lemma axis_elements_prod: "axis_elements dims axes = (\<Prod>i \<in> {i. i < length dims \<and> int i \<in> set axes}. dims ! i)"
  using prod.distinct_set_conv_list[of "filter (\<lambda>i. int i \<in> set axes) [0 ..< length dims]" "\<lambda>i. dims ! i"]
  by (simp add: axis_elements_def conj_commute)

lemma axis_elements_bounds:
  assumes "shape_ok dims"
  shows "1 \<le> axis_elements dims axes" "axis_elements dims axes \<le> prod_list dims"
proof -
  have ge: "1 \<le> dims ! i" if "i < length dims" for i using assms nth_mem[OF that] unfolding shape_ok_def by blast
  show "1 \<le> axis_elements dims axes" unfolding axis_elements_prod by (rule prod_ge_1) (use ge in auto)
  have "prod_list dims = (\<Prod>i = 0 ..< length dims. dims ! i)" by (rule prod.list_conv_set_nth)
  moreover have "(\<Prod>i \<in> {i. i < length dims \<and> int i \<in> set axes}. dims ! i) \<le> (\<Prod>i = 0 ..< length dims. dims ! i)"
  proof (rule prod_mono2)
    show "0 \<le> dims ! i" if "i \<in> {i. i < length dims \<and> int i \<in> set axes}" for i using ge[of i] that by simp
  qed (use ge in auto)
  ultimately show "axis_elements dims axes \<le> prod_list dims" by (simp add: axis_elements_prod)
qed

lemma norm_axis_range:
  assumes "axes_in_range n axis" "a \<in> norm_axis n ` set axis"
  shows "0 \<le> a \<and> a < n"
  using assms by (auto simp: axes_in_range_def list_all_iff norm_axis_def)

lemma resolved_elements:
  assumes "resolved_prefix (int (length dims)) axis ax m" "axes_in_range (int (length dims)) axis"
  shows "prod_list (map (\<lambda>a. dims ! nat a) (take m ax)) = axis_elements dims (map (norm_axis (int (length dims))) axis)"
proof -
  let ?S = "norm_axis (int (length dims)) ` set axis"
  have S: "distinct (take m ax)" "set (take m ax) = ?S" using assms(1) by (simp_all add: resolved_prefix_def)
  note rng = norm_axis_range[OF assms(2)]
  have im: "nat ` ?S = {i. i < length dims \<and> int i \<in> ?S}"
  proof (intro equalityI subsetI)
    fix i assume "i \<in> {i. i < length dims \<and> int i \<in> ?S}"
    then have "int i \<in> ?S" by simp
    from imageI[OF this, of nat] show "i \<in> nat ` ?S" by simp
  next
    fix i assume "i \<in> nat ` ?S"
    then obtain a where a: "a \<in> ?S" "i = nat a" by blast
    then show "i \<in> {i. i < length dims \<and> int i \<in> ?S}" using rng[OF a(1)] by (simp add: nat_less_iff)
  qed
  have "inj_on nat ?S" using rng by (intro inj_onI) (metis eq_nat_nat_iff)
  then have "(\<Prod>a \<in> ?S. dims ! nat a) = (\<Prod>i \<in> nat ` ?S. dims ! i)" by (simp add: prod.reindex)
  moreover have "prod_list (map (\<lambda>a. dims ! nat a) (take m ax)) = (\<Prod>a \<in> ?S. dims ! nat a)"
    using prod.distinct_set_conv_list[OF S(1), of "\<lambda>a. dims ! nat a"] S(2) by simp
  ultimately show ?thesis unfolding axis_elements_prod by (simp add: im)
qed

lemma axis_product_resolved:
  assumes ok: "reduce_args_ok input dims out odims axis temp_index resolved"
    and m: "m \<le> length ax" "if dims = [] then m = 0 else resolved_prefix (int (length dims)) axis ax m"
  shows "axis_product 0 m dims ax 1 = Inr (Some (axis_elements dims (map (norm_axis (int (length dims))) axis)))"
proof (cases "dims = []")
  case True
  then show ?thesis using m(2) by (simp add: axis_elements_def)
next
  case False
  let ?A = "map (norm_axis (int (length dims))) axis"
  have a: "shape_ok dims" "axes_in_range (int (length dims)) axis" "prod_list dims < 2 ^ 63"
    using ok False by (simp_all add: reduce_args_ok_def)
  have r: "resolved_prefix (int (length dims)) axis ax m" using m(2) False by simp
  note e = resolved_elements[OF r a(2)]
  have "\<forall>x \<in> set (take m ax). 0 \<le> x \<and> x < int (length dims)"
    using norm_axis_range[OF a(2)] r by (simp add: resolved_prefix_def)
  moreover have "prod_list (map (\<lambda>a. dims ! nat a) (take m ax)) < 2 ^ 64"
    unfolding e using axis_elements_bounds(2)[OF a(1), of ?A] a(3) by simp
  ultimately have "axis_product 0 m dims (take m ax) 1 = Inr (Some (axis_elements dims ?A))"
    using axis_product_ok[of 0 m "take m ax" dims 1] a(1) m(1) by (simp add: e)
  moreover have "axis_product i k dims (take m ax) num = axis_product i k dims ax num" if "i + k \<le> m" for i k num
    using that m(1) by (induction k arbitrary: i num) (auto simp: vec_at_def Let_def)
  ultimately show ?thesis by simp
qed

text \<open>Every output of a reduction has that many elements.\<close>

lemma axis_elements_snoc: "axis_elements (ds @ [d]) axes = axis_elements ds axes * (if int (length ds) \<in> set axes then d else 1)"
proof -
  have m: "map ((!) (ds @ [d])) (filter (\<lambda>i. int i \<in> set axes) [0 ..< length ds]) = map ((!) ds) (filter (\<lambda>i. int i \<in> set axes) [0 ..< length ds])"
    by (rule map_cong) (auto simp: nth_append)
  show ?thesis by (simp add: axis_elements_def m)
qed

lemma sum_list_blocks: "sum_list (map (\<lambda>p. if Q p then c else 0) xs) = c * length (filter Q xs)" for c :: nat
  by (induction xs) (simp_all add: algebra_simps)

lemma count_kept:
  assumes "shape_ok dims" "valid_index (kept axes dims) jdx"
  shows "int (length (filter (\<lambda>idx. kept axes idx = jdx) (indices dims))) = axis_elements dims axes"
  using assms
proof (induction dims arbitrary: jdx rule: rev_induct)
  case Nil
  then show ?case by (simp add: indices_def axis_elements_def kept_nths valid_index_def)
next
  case (snoc d ds)
  have len: "length p = length ds" if "p \<in> set (indices ds)" for p using that by (simp add: indices_iff valid_index_length)
  have sh: "shape_ok ds" "1 \<le> d" using snoc.prems(1) by (simp_all add: shape_ok_def)
  have blocks: "length (filter P (indices (ds @ [d]))) = sum_list (map (\<lambda>p. length (filter (\<lambda>y. P (p @ [y])) [0 .. d - 1])) (indices ds))" for P
    by (simp add: indices_def product_lists_snoc filter_concat length_concat comp_def filter_map)
  show ?case
  proof (cases "int (length ds) \<in> set axes")
    case True
    have "valid_index (kept axes ds) jdx" using snoc.prems(2) True by (simp add: kept_snoc)
    note IH = snoc.IH[OF sh(1) this]
    have m: "map (\<lambda>p. length (filter (\<lambda>y. kept axes (p @ [y]) = jdx) [0 .. d - 1])) (indices ds) = map (\<lambda>p. if kept axes p = jdx then nat d else 0) (indices ds)"
      using True len by (intro map_cong) (simp_all add: kept_snoc)
    show ?thesis using IH sh(2) True by (simp add: blocks m sum_list_blocks axis_elements_snoc)
  next
    case False
    then obtain us i where j: "jdx = us @ [i]" "valid_index (kept axes ds) us" "0 \<le> i" "i < d"
      using snoc.prems(2) by (auto simp: kept_snoc elim: valid_snocE)
    note IH = snoc.IH[OF sh(1) j(2)]
    have "filter (\<lambda>y. y = i) [0 .. i - 1] = []" "filter (\<lambda>y. y = i) [i + 1 .. d - 1] = []" by (auto simp: filter_empty_conv)
    then have "filter (\<lambda>y. y = i) [0 .. d - 1] = [i]" using j(3,4) by (simp add: upto_split3[of 0 i "d - 1"])
    then have m: "map (\<lambda>p. length (filter (\<lambda>y. kept axes (p @ [y]) = jdx) [0 .. d - 1])) (indices ds) = map (\<lambda>p. if kept axes p = us then 1 else 0) (indices ds)"
      using False len j(1) by (intro map_cong) (simp_all add: kept_snoc)
    show ?thesis using IH False by (simp add: blocks m sum_list_blocks axis_elements_snoc)
  qed
qed

lemma length_elements: "shape_ok dims \<Longrightarrow> valid_index (kept axes dims) jdx \<Longrightarrow> int (length (reduced_elements dims axes input jdx)) = axis_elements dims axes"
  using count_kept by (simp add: reduced_elements_def)

section \<open>The mean is correct\<close>

text \<open>What the mean may end with: the means of all outputs, or the failure of one of them.\<close>

definition means :: "num_type \<Rightarrow> num_type \<Rightarrow> int list \<Rightarrow> int list \<Rightarrow> num list \<Rightarrow> nat \<Rightarrow> (bool \<times> num list \<times> num list) res \<Rightarrow> bool" where
  "means T U dims axes input n r \<longleftrightarrow> (case r of
     Inr (ok, out', totals') \<Rightarrow> ok \<and> length out' = n \<and> (\<forall>jdx. valid_index (kept axes dims) jdx \<longrightarrow>
       mean_of T U (reduced_elements dims axes input jdx) = Inr (out' ! nat (flat_index (kept axes dims) jdx)))
   | Inl e \<Rightarrow> \<exists>jdx. valid_index (kept axes dims) jdx \<and> mean_of T U (reduced_elements dims axes input jdx) = Inl e)"

lemma divided_means:
  assumes sh: "shape_ok dims" and n: "int n = prod_list (kept axes dims)"
    and r: "reduces (sum_reducer U) (zero_num U) dims axes input n (Inr totals)"
  shows "means T U dims axes input n (bind_res (divide_sums T U (axis_elements dims axes) n totals (replicate n z)) (\<lambda>out'. Inr (True, out', totals)))"
proof -
  have s: "length totals = n" "\<And>jdx. valid_index (kept axes dims) jdx \<Longrightarrow>
      fold_res (sum_reducer U) (zero_num U) (reduced_elements dims axes input jdx) = Inr (totals ! nat (flat_index (kept axes dims) jdx))"
    using r by (simp_all add: reduces_def)
  have m: "mean_of T U (reduced_elements dims axes input jdx) = mean_quotient T U (totals ! nat (flat_index (kept axes dims) jdx)) (axis_elements dims axes)"
    if "valid_index (kept axes dims) jdx" for jdx
    using s(2)[OF that] length_elements[OF sh that, of input] by (simp add: mean_of_def)
  have b: "nat (flat_index (kept axes dims) jdx) < n" if "valid_index (kept axes dims) jdx" for jdx using flat_index_bounds[OF that] n by linarith
  note c = divide_sums_cases[of totals "replicate n z" T U "axis_elements dims axes"]
  show ?thesis
  proof (cases "divide_sums T U (axis_elements dims axes) n totals (replicate n z)")
    case (Inl e)
    then obtain j where j: "j < n" "mean_quotient T U (totals ! j) (axis_elements dims axes) = Inl e" using c s(1) by (auto simp: in_set_conv_nth)
    have "j < nat (prod_list (kept axes dims))" using j(1) n by linarith
    from indices_nth(2)[OF shape_ok_nonneg[OF kept_shape_ok[OF sh]] this] show ?thesis using m[of "indices (kept axes dims) ! j"] j(2) Inl by (auto simp: means_def)
  next
    case (Inr out')
    then have "list_all2 (\<lambda>s y. mean_quotient T U s (axis_elements dims axes) = Inr y) totals out'" using c s(1) by simp
    then show ?thesis using m b s(1) Inr by (auto simp: means_def list_all2_conv_all_nth)
  qed
qed

lemma Mean_outcome:
  assumes ok: "reduce_args_ok input dims out odims axis temp_index resolved" "length totals = length out"
  obtains r where "Mean T U input dims (int (length dims)) out odims (int (length odims)) axis (int (length axis)) keep_dims temp_index resolved totals = Some r"
    "means T U dims (map (norm_axis (int (length dims))) axis) input (length out) r"
proof -
  let ?A = "map (norm_axis (int (length dims))) axis"
  have a: "shape_ok dims" "shape_ok odims" "int (length out) = prod_list odims" "prod_list odims = prod_list (kept ?A dims)"
    using ok(1) by (simp_all add: reduce_args_ok_def)
  have "prod_list odims < 2 ^ 64" using ok(1) kept_le[OF a(1), of ?A] by (simp add: reduce_args_ok_def)
  then have s: "size_product 0 (length odims) odims 1 = Inr (Some (prod_list odims))"
    using size_product_ok[of 0 "length odims" odims 1] a(2) by simp
  have n: "nat (prod_list odims) = length out" using a(3) by linarith
  obtain ax m q where r: "ResolveAxis (int (length dims)) axis (int (length axis)) resolved = Inr (True, ax, int m)" "m \<le> length ax"
    "if dims = [] then m = 0 else resolved_prefix (int (length dims)) axis ax m"
    "Reduce input dims odims (int (length dims)) (int (length odims)) ax (int m) temp_index (sum_reducer U) (replicate (length out) (zero_num U)) =
      Some (bind_res q (\<lambda>out'. Inr (True, replicate (length dims) 0, out')))"
    "reduces (sum_reducer U) (zero_num U) dims ?A input (length out) q"
    using resolve_and_reduce[OF ok(1), where on = "int (length odims)" and init = "zero_num U" and red = "sum_reducer U"] .
  have fill: "for_loop (\<lambda>idx (out, totals). bind_res (vec_set out (int idx) (zero_num T)) (\<lambda>out'. bind_res (vec_set totals (int idx) (zero_num U)) (\<lambda>totals'.
      Inr (out', totals')))) 0 (length out) (out, totals) = Inr (replicate (length out) (zero_num T), replicate (length out) (zero_num U))"
    using for_loop_fill2[of "length out" out totals "zero_num T" "zero_num U"] ok(2) by simp
  note p = axis_product_resolved[OF ok(1) r(2,3)]
  have pos: "0 < axis_elements dims ?A" using axis_elements_bounds(1)[OF a(1), of ?A] by linarith
  show ?thesis
  proof (cases q)
    case (Inl e)
    have "Mean T U input dims (int (length dims)) out odims (int (length odims)) axis (int (length axis)) keep_dims temp_index resolved totals = Some (Inl e)"
      by (simp add: Mean_def s n fill r(1,4) ReduceSumImpl_def Inl)
    moreover have "means T U dims ?A input (length out) (Inl e)" using r(5) Inl by (auto simp: reduces_def means_def mean_of_def)
    ultimately show ?thesis by (rule that)
  next
    case (Inr totals')
    have "Mean T U input dims (int (length dims)) out odims (int (length odims)) axis (int (length axis)) keep_dims temp_index resolved totals =
        Some (bind_res (divide_sums T U (axis_elements dims ?A) (length out) totals' (replicate (length out) (zero_num T))) (\<lambda>out'. Inr (True, out', totals')))"
      by (simp add: Mean_def s n fill r(1,4) ReduceSumImpl_def p pos Inr)
    moreover have "means T U dims ?A input (length out)
        (bind_res (divide_sums T U (axis_elements dims ?A) (length out) totals' (replicate (length out) (zero_num T))) (\<lambda>out'. Inr (True, out', totals')))"
      using divided_means[OF a(1)] a(3,4) r(5) Inr by simp
    ultimately show ?thesis by (rule that)
  qed
qed

section \<open>Means of integers\<close>

text \<open>The width of an integer type and the smallest and largest number of it.\<close>

fun num_bits :: "num_type \<Rightarrow> nat" where
  "num_bits (Signed w) = w"
| "num_bits (Unsigned w) = w"
| "num_bits (Floating F) = width F"

fun lowest :: "num_type \<Rightarrow> int" where
  "lowest (Signed w) = - (2 ^ (w - 1))"
| "lowest _ = 0"

fun highest :: "num_type \<Rightarrow> int" where
  "highest (Signed w) = 2 ^ (w - 1) - 1"
| "highest (Unsigned w) = 2 ^ w - 1"
| "highest (Floating F) = 0"

lemma integer_bounds:
  assumes "\<forall>F. T \<noteq> Floating F" "0 < num_bits T"
  shows "in_type T (IntN z) \<longleftrightarrow> lowest T \<le> z \<and> z \<le> highest T" "lowest T \<le> 0" "0 \<le> highest T"
    "- (2 ^ num_bits T - 1) \<le> lowest T" "highest T \<le> 2 ^ num_bits T - 1"
proof -
  have h: "(2 :: int) ^ (w - 1) \<le> 2 ^ w - 1" if "0 < w" for w
  proof -
    have "(2 :: int) ^ w = 2 * 2 ^ (w - 1)" using that by (cases w) simp_all
    then show ?thesis using one_le_power[of "2 :: int" "w - 1"] by linarith
  qed
  consider w where "T = Signed w" "0 < w" | w where "T = Unsigned w" "0 < w" using assms by (cases T) auto
  note T = this
  show "in_type T (IntN z) \<longleftrightarrow> lowest T \<le> z \<and> z \<le> highest T" by (cases rule: T) (auto simp: fits_signed_def)
  show "lowest T \<le> 0" by (cases rule: T) simp_all
  show "0 \<le> highest T" by (cases rule: T) simp_all
  have "- (2 ^ num_bits T - 1) \<le> lowest T \<and> highest T \<le> 2 ^ num_bits T - 1"
  proof (cases rule: T)
    case (1 w)
    show ?thesis unfolding 1(1) num_bits.simps lowest.simps highest.simps using h[OF 1(2)] by linarith
  qed simp
  then show "- (2 ^ num_bits T - 1) \<le> lowest T" "highest T \<le> 2 ^ num_bits T - 1" by simp_all
qed

text \<open>Integers whose number times their size stays below the range of \<open>U\<close> are added without overflow.\<close>

lemma integer_sum:
  assumes "32 \<le> w" "0 \<le> B" "\<forall>z \<in> set zs. - B \<le> z \<and> z \<le> B" "\<bar>a\<bar> + int (length zs) * B < 2 ^ (w - 1)"
  shows "fold_res (sum_reducer (Signed w)) (IntN a) (map IntN zs) = Inr (IntN (a + sum_list zs))"
  using assms(3,4)
proof (induction zs arbitrary: a)
  case (Cons z zs)
  have w: "max w 32 = w" using assms(1) by simp
  have z: "\<bar>z\<bar> \<le> B" using Cons.prems(1) by auto
  have l: "int (length (z # zs)) * B = B + int (length zs) * B" by (simp add: algebra_simps)
  have nn: "0 \<le> int (length zs) * B" using assms(2) by simp
  have "\<bar>z\<bar> < 2 ^ (w - 1)" "\<bar>a + z\<bar> < 2 ^ (w - 1)" using z nn l Cons.prems(2) by linarith+
  then have f: "fits_signed w z" "fits_signed w (a + z)" by (simp_all add: fits_signed_def abs_less_iff)
  have "\<bar>a + z\<bar> + int (length zs) * B < 2 ^ (w - 1)" using z l Cons.prems(2) by linarith
  then have "fold_res (sum_reducer (Signed w)) (IntN (a + z)) (map IntN zs) = Inr (IntN (a + z + sum_list zs))"
    using Cons.IH[of "a + z"] Cons.prems(1) by simp
  moreover have "sum_reducer (Signed w) (IntN a) (IntN z) = Inr (IntN (a + z))"
    using f by (simp add: sum_reducer_def cast_signed w del: cast.simps)
  ultimately show ?case by (simp add: add.assoc)
qed simp

lemma sum_list_bounds:
  assumes "\<forall>z \<in> set zs. l \<le> z \<and> z \<le> h"
  shows "l * int (length zs) \<le> sum_list zs" "sum_list zs \<le> h * int (length zs)"
  using assms by (induction zs) (auto simp: algebra_simps)

lemma integer_mean:
  assumes T: "\<forall>F. T \<noteq> Floating F" "0 < num_bits T" and w: "32 \<le> w"
    and zs: "zs \<noteq> []" "\<forall>z \<in> set zs. in_type T (IntN z)" "int (length zs) * 2 ^ num_bits T \<le> 2 ^ (w - 1)"
  shows "mean_of T (Signed w) (map IntN zs) = Inr (IntN (quot_int (sum_list zs) (int (length zs))))"
proof -
  let ?n = "int (length zs)" and ?B = "2 ^ num_bits T - 1 :: int" and ?s = "sum_list zs"
  note b = integer_bounds[OF T]
  have n: "1 \<le> ?n" using zs(1) by (cases zs) simp_all
  have B: "0 \<le> ?B" by simp
  have le: "?n * ?B < 2 ^ (w - 1)" using zs(3) n by (simp add: algebra_simps)
  have "\<forall>z \<in> set zs. - ?B \<le> z \<and> z \<le> ?B" using zs(2) b(1,4,5) by fastforce
  then have s: "fold_res (sum_reducer (Signed w)) (IntN 0) (map IntN zs) = Inr (IntN ?s)" using integer_sum[OF w B, of zs 0] le by simp
  have r: "lowest T * ?n \<le> ?s" "?s \<le> highest T * ?n" using zs(2) b(1) sum_list_bounds[of zs "lowest T" "highest T"] by simp_all
  have q: "lowest T \<le> quot_int ?s ?n" "quot_int ?s ?n \<le> highest T" using quot_int_bounds[OF _ b(2,3) r] n by linarith+
  have "?n * 1 \<le> ?n * ?B" using T(2) self_le_power[of "2 :: int" "num_bits T"] by (intro mult_left_mono) simp_all
  then have "?n < 2 ^ (w - 1)" using le by linarith
  moreover have "- (2 ^ (w - 1)) \<le> (0 :: int)" by simp
  ultimately have fn: "fits_signed w ?n" using n unfolding fits_signed_def by linarith
  have "1 * ?B \<le> ?n * ?B" using n B by (intro mult_right_mono)
  then have fq: "fits_signed w (quot_int ?s ?n)" using q b(4,5) le by (simp add: fits_signed_def)
  have "mean_quotient T (Signed w) (IntN ?s) ?n = Inr (IntN (quot_int ?s ?n))"
    using fn fq zs(1) w cast_in_type[of T "quot_int ?s ?n"] q b(1) by (simp add: mean_quotient_def cast_signed max_def del: cast.simps)
  then show ?thesis using s by (simp add: mean_of_def)
qed

lemma elements_map:
  assumes "shape_ok dims" "int (length zs) = prod_list dims"
  shows "reduced_elements dims axes (map f zs) jdx = map f (reduced_elements dims axes zs jdx)" "set (reduced_elements dims axes zs jdx) \<subseteq> set zs"
proof -
  have "nat (flat_index dims idx) < length zs" if "valid_index dims idx" for idx using flat_index_bounds[OF that] assms(2) by linarith
  then show "reduced_elements dims axes (map f zs) jdx = map f (reduced_elements dims axes zs jdx)" "set (reduced_elements dims axes zs jdx) \<subseteq> set zs"
    by (auto simp: reduced_elements_def indices_iff)
qed

section \<open>Claims\<close>

text \<open>
  C35: The mean over a shape without empty axes, with axes in range and arrays of the sizes the shapes give, always ends, for all arithmetic types \<^verbatim>\<open>T\<close> and \<^verbatim>\<open>U\<close>, and reads and writes nothing out of bounds. If for every output the
  mean of exactly the input elements that agree with it on the kept axes is defined in C++ (they are converted to \<^verbatim>\<open>U\<close> and added in \<^verbatim>\<open>U\<close> in row-major order, the sum is
  divided by their number converted to \<^verbatim>\<open>U\<close>, the quotient is converted to \<^verbatim>\<open>T\<close>), it returns true and every output is that mean, whatever the arrays held
  before; repeated and negative axes count once. Otherwise it fails with the error of one of the outputs, such as the overflow of a signed sum.\<close>

theorem mean_correct:
  assumes "reduce_args_ok input dims out odims axis temp_index resolved" "length temp_sum = length out"
  shows "case Mean T U input dims (int (length dims)) out odims (int (length odims)) axis (int (length axis)) keep_dims temp_index resolved temp_sum of
      None \<Rightarrow> False
    | Some (Inl e) \<Rightarrow> \<exists>jdx. valid_index (kept (map (norm_axis (int (length dims))) axis) dims) jdx \<and>
        mean_of T U (reduced_elements dims (map (norm_axis (int (length dims))) axis) input jdx) = Inl e
    | Some (Inr (ok, out', temp_sum')) \<Rightarrow> ok \<and> length out' = length out \<and> (\<forall>jdx. valid_index (kept (map (norm_axis (int (length dims))) axis) dims) jdx \<longrightarrow>
        mean_of T U (reduced_elements dims (map (norm_axis (int (length dims))) axis) input jdx) =
        Inr (out' ! nat (flat_index (kept (map (norm_axis (int (length dims))) axis) dims) jdx)))"
proof -
  obtain r where r: "Mean T U input dims (int (length dims)) out odims (int (length odims)) axis (int (length axis)) keep_dims temp_index resolved temp_sum = Some r"
      "means T U dims (map (norm_axis (int (length dims))) axis) input (length out) r"
    using Mean_outcome[OF assms] .
  then show ?thesis by (cases r) (auto simp: means_def)
qed

lemma six_args: "reduce_args_ok [IntN a, IntN b, IntN c, IntN d, IntN e, IntN f] [2, 3] [IntN 9, IntN 9] [2] [-1, 1] [7, 7] [0, 0]"
  by (simp add: reduce_args_ok_def shape_ok_def axes_in_range_def norm_axis_def kept_def upt_rec)

text \<open>The second row of \<^verbatim>\<open>int\<close>s overflows when it is added in \<^verbatim>\<open>int\<close>.\<close>

lemma overflowing_row:
  "mean_of (Signed 32) (Signed 32) (reduced_elements [2, 3] (map (norm_axis (int (length [2, 3 :: int]))) [-1, 1])
     (map IntN [1, 2, 4, 2147483647, 1, 0]) [1]) = Inl SignedOverflow"
  by code_simp

theorem mean_correct_witness:
  "\<exists>e. Mean (Signed 32) (Signed 32) (map IntN [1, 2, 4, 2147483647, 1, 0]) [2, 3] 2 [IntN 9, IntN 9] [2] 1 [-1, 1] 2 False [7, 7] [0, 0] [IntN 8, IntN 8] = Some (Inl e)"
proof -
  have "valid_index (kept (map (norm_axis (int (length [2, 3 :: int]))) [-1, 1]) [2, 3]) [1]" by code_simp
  then show ?thesis
    using mean_correct[OF six_args[of 1 2 4 2147483647 1 0], of "[IntN 8, IntN 8]" "Signed 32" "Signed 32" False] overflowing_row
    by (auto split: option.splits sum.splits)
qed

text \<open>
  C39: The mean of integers is exact. For an integer type \<^verbatim>\<open>T\<close> and sums in a signed type of at least 32 bits that has room for the number of elements of a mean times
  \<open>2 ^ num_bits T\<close> (8388608 elements of \<^verbatim>\<open>uint8_t\<close> in an \<^verbatim>\<open>int32_t\<close>), nothing overflows or is narrowed: the mean returns true and
  every output is the exact sum of the elements that agree with it on the kept axes, divided by the product of the sizes of the distinct axes and rounded
  towards zero.\<close>

theorem integer_mean_exact:
  assumes "reduce_args_ok (map IntN zs) dims out odims axis temp_index resolved" "length temp_sum = length out"
    and "\<forall>F. T \<noteq> Floating F" "0 < num_bits T" "\<forall>z \<in> set zs. in_type T (IntN z)"
    and "32 \<le> w" "axis_elements dims (map (norm_axis (int (length dims))) axis) * 2 ^ num_bits T \<le> 2 ^ (w - 1)"
  shows "\<exists>out' temp_sum'. Mean T (Signed w) (map IntN zs) dims (int (length dims)) out odims (int (length odims)) axis (int (length axis))
      keep_dims temp_index resolved temp_sum = Some (Inr (True, out', temp_sum')) \<and>
    (\<forall>jdx. valid_index (kept (map (norm_axis (int (length dims))) axis) dims) jdx \<longrightarrow>
      out' ! nat (flat_index (kept (map (norm_axis (int (length dims))) axis) dims) jdx) =
      IntN (quot_int (sum_list (reduced_elements dims (map (norm_axis (int (length dims))) axis) zs jdx))
        (axis_elements dims (map (norm_axis (int (length dims))) axis))))"
proof -
  let ?A = "map (norm_axis (int (length dims))) axis"
  have sh: "shape_ok dims" "int (length zs) = prod_list dims" using assms(1) by (simp_all add: reduce_args_ok_def)
  obtain r where r: "Mean T (Signed w) (map IntN zs) dims (int (length dims)) out odims (int (length odims)) axis (int (length axis))
      keep_dims temp_index resolved temp_sum = Some r" "means T (Signed w) dims ?A (map IntN zs) (length out) r"
    using Mean_outcome[OF assms(1,2)] .
  have m: "mean_of T (Signed w) (reduced_elements dims ?A (map IntN zs) jdx) =
      Inr (IntN (quot_int (sum_list (reduced_elements dims ?A zs jdx)) (axis_elements dims ?A)))" if "valid_index (kept ?A dims) jdx" for jdx
  proof -
    have l: "int (length (reduced_elements dims ?A zs jdx)) = axis_elements dims ?A" by (rule length_elements[OF sh(1) that])
    then have "reduced_elements dims ?A zs jdx \<noteq> []" using axis_elements_bounds(1)[OF sh(1), of ?A] by auto
    moreover have "\<forall>z \<in> set (reduced_elements dims ?A zs jdx). in_type T (IntN z)" using elements_map(2)[OF sh] assms(5) by blast
    ultimately show ?thesis using integer_mean[OF assms(3,4,6), of "reduced_elements dims ?A zs jdx"] assms(7) l by (simp add: elements_map(1)[OF sh])
  qed
  then show ?thesis using r by (auto simp: means_def split: sum.splits)
qed

theorem integer_mean_exact_witness:
  "\<exists>out' temp_sum'. Mean (Unsigned 8) (Signed 32) (map IntN [250, 251, 255, 7, 0, 1]) [2, 3] 2 [IntN 9, IntN 9] [2] 1 [-1, 1] 2 False [7, 7] [0, 0]
     [IntN 8, IntN 8] = Some (Inr (True, out', temp_sum')) \<and> out' ! 0 = IntN 252 \<and> out' ! 1 = IntN 2"
proof -
  let ?A = "map (norm_axis (int (length [2, 3 :: int]))) [-1, 1]" and ?zs = "[250, 251, 255, 7, 0, 1] :: int list"
  have ok: "reduce_args_ok (map IntN ?zs) [2, 3] [IntN 9, IntN 9] [2] [-1, 1] [7, 7] [0, 0]" using six_args[of 250 251 255 7 0 1] by simp
  have e: "axis_elements [2, 3] ?A = 3" by code_simp
  have v: "valid_index (kept ?A [2, 3]) [0]" "valid_index (kept ?A [2, 3]) [1]" "nat (flat_index (kept ?A [2, 3]) [0]) = 0" "nat (flat_index (kept ?A [2, 3]) [1]) = 1"
    "quot_int (sum_list (reduced_elements [2, 3] ?A ?zs [0])) 3 = 252" "quot_int (sum_list (reduced_elements [2, 3] ?A ?zs [1])) 3 = 2"
    by code_simp+
  obtain out' temp_sum' where r: "Mean (Unsigned 8) (Signed 32) (map IntN ?zs) [2, 3] (int (length [2, 3 :: int])) [IntN 9, IntN 9] [2] (int (length [2 :: int]))
        [-1, 1] (int (length [-1, 1 :: int])) False [7, 7] [0, 0] [IntN 8, IntN 8] = Some (Inr (True, out', temp_sum'))"
      "\<forall>jdx. valid_index (kept ?A [2, 3]) jdx \<longrightarrow> out' ! nat (flat_index (kept ?A [2, 3]) jdx) =
        IntN (quot_int (sum_list (reduced_elements [2, 3] ?A ?zs jdx)) (axis_elements [2, 3] ?A))"
    using integer_mean_exact[OF ok, of "[IntN 8, IntN 8]" "Unsigned 8" 32 False] e by auto
  have "out' ! 0 = IntN 252" "out' ! 1 = IntN 2" using r(2)[rule_format, OF v(1)] r(2)[rule_format, OF v(2)] v(3-6) e by simp_all
  then show ?thesis using r(1) by simp
qed

text \<open>
  The mean has no early return for empty shapes: an empty output axis is a division by zero in its own overflow
  check, and an empty axis that is averaged away is read from.
\<close>

lemma mean_empty_output:
  "Mean T U [] [0, 2] 2 [] [0] 1 [1] 1 False [0, 0] [0] [] = Some (Inl DivideByZero)"
  by (simp add: Mean_def vec_at_def to_size_t_def)

lemma mean_empty_axis:
  "Mean T U [] [0] 1 [IntN 5] [] 0 [0] 1 False [0] [0] [IntN 5] = Some (Inl OutOfBounds)"
proof -
  have "reduce_round (sum_reducer U) [] [0] 1 [0] 1 [0] [zero_num U] = Inl OutOfBounds"
    by (simp add: reduce_round_def ReducedOutputOffset_def is_axis_def to_size_t_def)
  then show ?thesis
    by (simp add: Mean_def ResolveAxis_def ReduceSumImpl_def Reduce_def vec_at_def vec_set_def checked_int_def fits_int_def reduce_loop.simps)
qed

end
