(* ===== verification/Runtime_Shape.thy ===== *)
theory Runtime_Shape
  imports Strided_Slice
begin

text \<open>
  The class \<^verbatim>\<open>RuntimeShape\<close> of \<^verbatim>\<open>kernels/internal/types.h\<close>: up to five sizes are stored in the object, more of them in an array on the heap, and the
  two share a union. The kernels of the other theories take a shape as the list of its sizes; here objects that are made, copied, changed and destroyed in
  any order are shown to behave as such lists, with no array leaked, freed twice or read after it was freed, as long as no object is replaced by its own sizes.
\<close>

section \<open>Memory\<close>

text \<open>Arrays of \<^verbatim>\<open>int32_t\<close>. Memory that was not written holds anything.\<close>

record int_memory =
  int_blocks :: "nat \<Rightarrow> int list option"
  int_top :: nat
  int_noise :: "nat \<Rightarrow> nat \<Rightarrow> int"

definition uninit :: "nat \<Rightarrow> int_memory \<Rightarrow> int list" where
  "uninit n m = map (int_noise m (int_top m)) [0..<n]"

definition new_ints :: "int \<Rightarrow> int_memory \<Rightarrow> nat \<times> int_memory" where
  "new_ints n m = (int_top m, m\<lparr>int_blocks := (int_blocks m)(int_top m \<mapsto> uninit (nat n) m), int_top := Suc (int_top m)\<rparr>)"

definition delete_ints :: "nat \<Rightarrow> int_memory \<Rightarrow> int_memory res" where
  "delete_ints a m = (case int_blocks m a of None \<Rightarrow> Inl InvalidFree | Some _ \<Rightarrow> Inr (m\<lparr>int_blocks := (int_blocks m)(a := None)\<rparr>))"

text \<open>\<^verbatim>\<open>memcpy\<close> of \<open>n\<close> elements to the place \<open>i\<close> of an array; a negative \<open>n\<close> becomes a huge \<^verbatim>\<open>size_t\<close>.\<close>

definition memcpy_ints :: "int list \<Rightarrow> int \<Rightarrow> int list \<Rightarrow> int \<Rightarrow> int list res" where
  "memcpy_ints dst i src n =
     (if 0 \<le> n \<and> 0 \<le> i \<and> i + n \<le> int (length dst) \<and> n \<le> int (length src)
      then Inr (take (nat i) dst @ take (nat n) src @ drop (nat (i + n)) dst) else Inl OutOfBounds)"

section \<open>The class\<close>

datatype dims_union = Dims_array "int list" | Dims_pointer nat

record RuntimeShape =
  shape_size :: int
  shape_dims :: dims_union

definition kMaxSmallSize :: int where
  "kMaxSmallSize = 5"

text \<open>The array behind \<^verbatim>\<open>DimsData()\<close>. Reading the member of the union that was not written, or a freed array, is an error.\<close>

definition DimsData :: "RuntimeShape \<Rightarrow> int_memory \<Rightarrow> int list res" where
  "DimsData s m =
     (if shape_size s > kMaxSmallSize then
        (case shape_dims s of Dims_array ds \<Rightarrow> Inl InvalidAccess
         | Dims_pointer a \<Rightarrow> (case int_blocks m a of None \<Rightarrow> Inl InvalidAccess | Some xs \<Rightarrow> Inr xs))
      else (case shape_dims s of Dims_array ds \<Rightarrow> Inr ds | Dims_pointer a \<Rightarrow> Inl InvalidAccess))"

text \<open>Writing through the pointer \<^verbatim>\<open>DimsData()\<close>.\<close>

definition put_dims :: "int list \<Rightarrow> RuntimeShape \<Rightarrow> int_memory \<Rightarrow> RuntimeShape \<times> int_memory" where
  "put_dims xs s m = (case shape_dims s of Dims_array ds \<Rightarrow> (s\<lparr>shape_dims := Dims_array xs\<rparr>, m)
     | Dims_pointer a \<Rightarrow> (s, m\<lparr>int_blocks := (int_blocks m)(a \<mapsto> xs)\<rparr>))"

definition RuntimeShape_new :: "int_memory \<Rightarrow> RuntimeShape" where
  "RuntimeShape_new m = \<lparr>shape_size = 0, shape_dims = Dims_array (uninit 5 m)\<rparr>"

definition RuntimeShape_count :: "int \<Rightarrow> int_memory \<Rightarrow> RuntimeShape \<times> int_memory" where
  "RuntimeShape_count dimensions_count m =
     (if dimensions_count > kMaxSmallSize then
        (case new_ints dimensions_count m of (a, m1) \<Rightarrow> (\<lparr>shape_size = dimensions_count, shape_dims = Dims_pointer a\<rparr>, m1))
      else (\<lparr>shape_size = dimensions_count, shape_dims = Dims_array (uninit 5 m)\<rparr>, m))"

definition DimensionsCount :: "RuntimeShape \<Rightarrow> int" where
  "DimensionsCount s = shape_size s"

definition Dims :: "int \<Rightarrow> RuntimeShape \<Rightarrow> int_memory \<Rightarrow> int res" where
  "Dims i s m = bind_res (DimsData s m) (\<lambda>xs. vec_at xs i)"

definition SetDim :: "int \<Rightarrow> int \<Rightarrow> RuntimeShape \<times> int_memory \<Rightarrow> (RuntimeShape \<times> int_memory) res" where
  "SetDim i val = (\<lambda>(s, m). bind_res (DimsData s m) (\<lambda>xs. bind_res (vec_set xs i val) (\<lambda>ys. Inr (put_dims ys s m))))"

text \<open>The destructor; what is left is the memory.\<close>

definition RuntimeShape_destroy :: "RuntimeShape \<Rightarrow> int_memory \<Rightarrow> int_memory res" where
  "RuntimeShape_destroy s m =
     (if shape_size s > kMaxSmallSize then
        (case shape_dims s of Dims_array ds \<Rightarrow> Inl InvalidFree | Dims_pointer a \<Rightarrow> delete_ints a m)
      else Inr m)"

text \<open>After a pointer was stored in the union, the array in the object holds anything.\<close>

definition Resize :: "int \<Rightarrow> RuntimeShape \<Rightarrow> int_memory \<Rightarrow> (RuntimeShape \<times> int_memory) res" where
  "Resize dimensions_count s m =
     bind_res (RuntimeShape_destroy s m) (\<lambda>m1.
       Inr (if dimensions_count > kMaxSmallSize then
              (case new_ints dimensions_count m1 of (a, m2) \<Rightarrow> (\<lparr>shape_size = dimensions_count, shape_dims = Dims_pointer a\<rparr>, m2))
            else (\<lparr>shape_size = dimensions_count,
                   shape_dims = (case shape_dims s of Dims_array ds \<Rightarrow> Dims_array ds | Dims_pointer a \<Rightarrow> Dims_array (uninit 5 m1))\<rparr>, m1)))"

text \<open>
  A pointer \<^verbatim>\<open>const int32_t*\<close> that is given to a member function: into an array that is no part of the object and not on the heap of the shapes (a local array, the
  sizes inside another object), to an array on that heap, or to the array inside the object itself. What it points to is read when the function reads it.
\<close>

datatype dims_ptr = Outside "int list" | Heap_array nat | Own_array

definition dims_read :: "dims_ptr \<Rightarrow> RuntimeShape \<Rightarrow> int_memory \<Rightarrow> int list res" where
  "dims_read p s m = (case p of Outside xs \<Rightarrow> Inr xs
     | Heap_array a \<Rightarrow> (case int_blocks m a of None \<Rightarrow> Inl InvalidAccess | Some xs \<Rightarrow> Inr xs)
     | Own_array \<Rightarrow> (case shape_dims s of Dims_array ds \<Rightarrow> Inr ds | Dims_pointer a \<Rightarrow> Inl InvalidAccess))"

text \<open>The value of \<^verbatim>\<open>DimsData()\<close> of a shape, passed to a member function of the same object or of another one.\<close>

definition dims_address :: "bool \<Rightarrow> RuntimeShape \<Rightarrow> dims_ptr res" where
  "dims_address own s =
     (if shape_size s > kMaxSmallSize then (case shape_dims s of Dims_array ds \<Rightarrow> Inl InvalidAccess | Dims_pointer a \<Rightarrow> Inr (Heap_array a))
      else (case shape_dims s of Dims_array ds \<Rightarrow> Inr (if own then Own_array else Outside ds) | Dims_pointer a \<Rightarrow> Inl InvalidAccess))"

text \<open>The array a pointer points to is the one behind \<^verbatim>\<open>DimsData()\<close>: \<^verbatim>\<open>memcpy\<close> is undefined on overlapping arrays.\<close>

definition same_array :: "dims_ptr \<Rightarrow> RuntimeShape \<Rightarrow> bool" where
  "same_array p s \<longleftrightarrow> (case shape_dims s of Dims_array ds \<Rightarrow> p = Own_array | Dims_pointer a \<Rightarrow> p = Heap_array a)"

definition ReplaceWith :: "int \<Rightarrow> dims_ptr \<Rightarrow> RuntimeShape \<Rightarrow> int_memory \<Rightarrow> (RuntimeShape \<times> int_memory) res" where
  "ReplaceWith dimensions_count dims_data s m =
     bind_res (Resize dimensions_count s m) (\<lambda>(s1, m1).
     bind_res (DimsData s1 m1) (\<lambda>dst_dims.
     bind_res (dims_read dims_data s1 m1) (\<lambda>src.
     if same_array dims_data s1 \<and> dimensions_count \<noteq> 0 then Inl Undefined
     else bind_res (memcpy_ints dst_dims 0 src dimensions_count) (\<lambda>ys. Inr (put_dims ys s1 m1)))))"

definition BuildFrom :: "int list \<Rightarrow> RuntimeShape \<Rightarrow> int_memory \<Rightarrow> (RuntimeShape \<times> int_memory) res" where
  "BuildFrom src_iterable s m =
     bind_res (Resize (int (length src_iterable)) s m) (\<lambda>(s1, m1).
     bind_res (DimsData s1 m1) (\<lambda>xs.
     bind_res (for_loop (\<lambda>i ys. bind_res (vec_at src_iterable (int i)) (\<lambda>it. vec_set ys (int i) it)) 0 (length src_iterable) xs)
       (\<lambda>ys. Inr (put_dims ys s1 m1))))"

definition RuntimeShape_value :: "int \<Rightarrow> int \<Rightarrow> int_memory \<Rightarrow> (RuntimeShape \<times> int_memory) res" where
  "RuntimeShape_value n val m =
     bind_res (Resize n (RuntimeShape_new m) m) (for_loop (\<lambda>i. SetDim (int i) val) 0 (nat n))"

definition RuntimeShape_data :: "int \<Rightarrow> dims_ptr \<Rightarrow> int_memory \<Rightarrow> (RuntimeShape \<times> int_memory) res" where
  "RuntimeShape_data dimensions_count dims_data m = ReplaceWith dimensions_count dims_data (RuntimeShape_new m) m"

definition RuntimeShape_list :: "int list \<Rightarrow> int_memory \<Rightarrow> (RuntimeShape \<times> int_memory) res" where
  "RuntimeShape_list init_list m = BuildFrom init_list (RuntimeShape_new m) m"

definition RuntimeShape_copy :: "RuntimeShape \<Rightarrow> int_memory \<Rightarrow> (RuntimeShape \<times> int_memory) res" where
  "RuntimeShape_copy other m =
     (case RuntimeShape_count (DimensionsCount other) m of (s, m1) \<Rightarrow>
      bind_res (DimsData s m1) (\<lambda>dst. bind_res (DimsData other m1) (\<lambda>src.
      bind_res (memcpy_ints dst 0 src (shape_size s)) (\<lambda>ys. Inr (put_dims ys s m1)))))"

definition RuntimeShape_extend :: "int \<Rightarrow> RuntimeShape \<Rightarrow> int \<Rightarrow> int_memory \<Rightarrow> (RuntimeShape \<times> int_memory) res" where
  "RuntimeShape_extend new_shape_size shape pad_value m =
     bind_res (TFLITE_CHECK (new_shape_size \<ge> DimensionsCount shape)) (\<lambda>_.
     bind_res (Resize new_shape_size (RuntimeShape_new m) m) (\<lambda>r.
     let size_increase = new_shape_size - DimensionsCount shape in
     bind_res (for_loop (\<lambda>i. SetDim (int i) pad_value) 0 (nat size_increase) r) (\<lambda>(s1, m1).
     bind_res (DimsData s1 m1) (\<lambda>dst. bind_res (DimsData shape m1) (\<lambda>src.
     bind_res (memcpy_ints dst size_increase src (DimensionsCount shape)) (\<lambda>ys. Inr (put_dims ys s1 m1)))))))"

text \<open>\<^verbatim>\<open>memcmp\<close> compares bytes, which are equal when the numbers are.\<close>

definition RuntimeShape_eq :: "RuntimeShape \<Rightarrow> RuntimeShape \<Rightarrow> int_memory \<Rightarrow> bool res" where
  "RuntimeShape_eq s other m =
     (if shape_size s = shape_size other then
        bind_res (DimsData s m) (\<lambda>xs. bind_res (DimsData other m) (\<lambda>ys.
          if 0 \<le> shape_size s \<and> shape_size s \<le> int (length xs) \<and> shape_size s \<le> int (length ys)
          then Inr (take (nat (shape_size s)) xs = take (nat (shape_size s)) ys) else Inl OutOfBounds))
      else Inr False)"

definition RuntimeShape_FlatSize :: "RuntimeShape \<Rightarrow> int_memory \<Rightarrow> int res" where
  "RuntimeShape_FlatSize s m = bind_res (DimsData s m) (\<lambda>dims_data.
     for_loop (\<lambda>i buffer_size. bind_res (vec_at dims_data (int i)) (\<lambda>d. checked_int (buffer_size * d))) 0 (nat (shape_size s)) 1)"


section \<open>One object\<close>

definition mem_ok :: "int_memory \<Rightarrow> bool" where
  "mem_ok m \<longleftrightarrow> (\<forall>a. int_blocks m a \<noteq> None \<longrightarrow> a < int_top m)"

definition stored_ok :: "int_memory \<Rightarrow> RuntimeShape \<Rightarrow> bool" where
  "stored_ok m s \<longleftrightarrow> 0 \<le> shape_size s \<and>
     (if shape_size s \<le> 5 then \<exists>ds. shape_dims s = Dims_array ds \<and> length ds = 5
      else \<exists>a xs. shape_dims s = Dims_pointer a \<and> int_blocks m a = Some xs \<and> length xs = nat (shape_size s))"

definition shape_array :: "int_memory \<Rightarrow> RuntimeShape \<Rightarrow> int list" where
  "shape_array m s = (case shape_dims s of Dims_array ds \<Rightarrow> ds | Dims_pointer a \<Rightarrow> (case int_blocks m a of None \<Rightarrow> [] | Some xs \<Rightarrow> xs))"

text \<open>The list of sizes an object stands for.\<close>

definition shape_value :: "int_memory \<Rightarrow> RuntimeShape \<Rightarrow> int list" where
  "shape_value m s = take (nat (shape_size s)) (shape_array m s)"

definition owns :: "RuntimeShape option \<Rightarrow> nat set" where
  "owns x = {a. \<exists>s. x = Some s \<and> shape_dims s = Dims_pointer a}"

text \<open>An object changes from \<open>x\<close> to \<open>y\<close>, where \<open>None\<close> is no object: only its own array and fresh memory are touched, and an array it no longer owns is freed.\<close>

definition moves :: "int_memory \<Rightarrow> RuntimeShape option \<Rightarrow> RuntimeShape option \<Rightarrow> int_memory \<Rightarrow> bool" where
  "moves m x y m1 \<longleftrightarrow> (\<forall>a. a \<notin> owns x \<union> owns y \<longrightarrow> int_blocks m1 a = int_blocks m a) \<and> (\<forall>a \<in> owns y. a \<in> owns x \<or> int_blocks m a = None) \<and>
     (\<forall>a \<in> owns x - owns y. int_blocks m1 a = None) \<and> (\<forall>s. y = Some s \<longrightarrow> stored_ok m1 s) \<and> mem_ok m1"

lemma owns_simps [simp]:
  "owns None = {}" "owns (Some s) = (case shape_dims s of Dims_array ds \<Rightarrow> {} | Dims_pointer a \<Rightarrow> {a})"
  by (auto simp: owns_def split: dims_union.splits)

lemma moves_trans:
  assumes "moves m x y m1" "moves m1 y z m2"
  shows "moves m x z m2"
proof -
  have 1: "\<And>a. a \<notin> owns x \<union> owns y \<Longrightarrow> int_blocks m1 a = int_blocks m a" "\<And>a. a \<in> owns y \<Longrightarrow> a \<in> owns x \<or> int_blocks m a = None"
      "\<And>a. a \<in> owns x - owns y \<Longrightarrow> int_blocks m1 a = None"
    and 2: "\<And>a. a \<notin> owns y \<union> owns z \<Longrightarrow> int_blocks m2 a = int_blocks m1 a" "\<And>a. a \<in> owns z \<Longrightarrow> a \<in> owns y \<or> int_blocks m1 a = None"
      "\<And>a. a \<in> owns y - owns z \<Longrightarrow> int_blocks m2 a = None" "\<forall>s. z = Some s \<longrightarrow> stored_ok m2 s" "mem_ok m2"
    using assms unfolding moves_def by simp_all
  have "int_blocks m2 a = int_blocks m a" if "a \<notin> owns x \<union> owns z" for a using that 1(1,2)[of a] 2(1,3)[of a] by (cases "a \<in> owns y") auto
  moreover have "a \<in> owns x \<or> int_blocks m a = None" if "a \<in> owns z" for a using that 1(1,2)[of a] 2(2)[of a] by (cases "a \<in> owns x"; cases "a \<in> owns y") auto
  moreover have "int_blocks m2 a = None" if "a \<in> owns x - owns z" for a using that 1(3)[of a] 2(1,3)[of a] by (cases "a \<in> owns y") auto
  ultimately show ?thesis using 2(4,5) unfolding moves_def by simp
qed

lemma moves_ok: "moves m x (Some s) m1 \<Longrightarrow> stored_ok m1 s \<and> mem_ok m1"
  by (simp add: moves_def)

lemma top_free: "mem_ok m \<Longrightarrow> int_blocks m (int_top m) = None"
  by (auto simp: mem_ok_def)

lemma DimsData_ok: "stored_ok m s \<Longrightarrow> DimsData s m = Inr (shape_array m s)"
  by (auto simp: stored_ok_def DimsData_def shape_array_def kMaxSmallSize_def split: if_splits)

lemma array_length: "stored_ok m s \<Longrightarrow> length (shape_array m s) = (if shape_size s \<le> 5 then 5 else nat (shape_size s))"
  by (auto simp: stored_ok_def shape_array_def split: if_splits)

lemma array_long: "stored_ok m s \<Longrightarrow> shape_size s \<le> int (length (shape_array m s)) \<and> 0 \<le> shape_size s"
  using array_length[of m s] by (auto simp: stored_ok_def)

lemma value_length: "stored_ok m s \<Longrightarrow> int (length (shape_value m s)) = shape_size s"
  using array_long[of m s] by (auto simp: shape_value_def min_def)

lemma stored_cases:
  assumes "stored_ok m s"
  obtains (small) n ds where "s = \<lparr>shape_size = n, shape_dims = Dims_array ds\<rparr>" "length ds = 5" "0 \<le> n" "n \<le> 5"
  | (large) n a xs where "s = \<lparr>shape_size = n, shape_dims = Dims_pointer a\<rparr>" "int_blocks m a = Some xs" "length xs = nat n" "5 < n"
  using assms by (cases s) (auto simp: stored_ok_def split: if_splits)

lemma put_dims_ok:
  assumes "stored_ok m s" "mem_ok m" "length ys = length (shape_array m s)"
  obtains s1 m1 where "put_dims ys s m = (s1, m1)" "moves m (Some s) (Some s1) m1" "shape_size s1 = shape_size s" "shape_array m1 s1 = ys"
  using assms(1)
proof (cases rule: stored_cases)
  case (small n ds)
  show ?thesis by (rule that[of "s\<lparr>shape_dims := Dims_array ys\<rparr>" m]) (use small assms in \<open>simp_all add: put_dims_def moves_def stored_ok_def shape_array_def\<close>)
next
  case (large n a xs)
  have "mem_ok (m\<lparr>int_blocks := (int_blocks m)(a \<mapsto> ys)\<rparr>)" using assms(2) large(2) by (auto simp: mem_ok_def)
  then show ?thesis
    by (intro that[of s "m\<lparr>int_blocks := (int_blocks m)(a \<mapsto> ys)\<rparr>"]) (use large assms in \<open>simp_all add: put_dims_def moves_def stored_ok_def shape_array_def\<close>)
qed

lemma new_shape_moves: "mem_ok m \<Longrightarrow> moves m None (Some (RuntimeShape_new m)) m"
  by (simp add: moves_def stored_ok_def RuntimeShape_new_def uninit_def)

lemma count_ok:
  assumes "mem_ok m" "0 \<le> n"
  obtains s m1 where "RuntimeShape_count n m = (s, m1)" "moves m None (Some s) m1" "shape_size s = n"
proof (cases "5 < n")
  case True
  let ?m = "m\<lparr>int_blocks := (int_blocks m)(int_top m \<mapsto> uninit (nat n) m), int_top := Suc (int_top m)\<rparr>"
  have "mem_ok ?m" using assms(1) by (auto simp: mem_ok_def less_Suc_eq)
  then show ?thesis using that[of "\<lparr>shape_size = n, shape_dims = Dims_pointer (int_top m)\<rparr>" ?m] True top_free[OF assms(1)]
    by (simp add: RuntimeShape_count_def new_ints_def moves_def stored_ok_def kMaxSmallSize_def uninit_def)
next
  case False
  then show ?thesis using that[of "\<lparr>shape_size = n, shape_dims = Dims_array (uninit 5 m)\<rparr>" m] assms
    by (simp add: RuntimeShape_count_def moves_def stored_ok_def kMaxSmallSize_def uninit_def)
qed

lemma destroy_ok:
  assumes "stored_ok m s" "mem_ok m"
  obtains m1 where "RuntimeShape_destroy s m = Inr m1" "moves m (Some s) None m1"
  using assms(1)
proof (cases rule: stored_cases)
  case (small n ds)
  then show ?thesis using that[of m] assms(2) by (simp add: RuntimeShape_destroy_def moves_def kMaxSmallSize_def)
next
  case (large n a xs)
  then show ?thesis using that[of "m\<lparr>int_blocks := (int_blocks m)(a := None)\<rparr>"] assms(2)
    by (simp add: RuntimeShape_destroy_def delete_ints_def moves_def mem_ok_def kMaxSmallSize_def)
qed

lemma Resize_ok:
  assumes s: "stored_ok m s" "mem_ok m" and n: "0 \<le> n"
  obtains s1 m1 where "Resize n s m = Inr (s1, m1)" "moves m (Some s) (Some s1) m1" "shape_size s1 = n"
    "shape_size s \<le> 5 \<and> n \<le> 5 \<longrightarrow> shape_array m1 s1 = shape_array m s"
proof -
  obtain m1 where m1: "RuntimeShape_destroy s m = Inr m1" "moves m (Some s) None m1" using destroy_ok[OF s] .
  then have ok: "mem_ok m1" by (simp add: moves_def)
  show ?thesis
  proof (cases "n > 5 \<or> shape_size s > 5")
    case True
    obtain s1 m2 where c: "RuntimeShape_count n m1 = (s1, m2)" "moves m1 None (Some s1) m2" "shape_size s1 = n" using count_ok[OF ok n] .
    have "Resize n s m = Inr (RuntimeShape_count n m1)"
      using True s(1) m1(1) by (auto simp: Resize_def RuntimeShape_count_def stored_ok_def kMaxSmallSize_def split: if_splits)
    then show ?thesis using that[OF _ moves_trans[OF m1(2) c(2)]] c True by auto
  next
    case False
    then obtain ds where d: "shape_dims s = Dims_array ds" "length ds = 5" "m1 = m"
      using s(1) m1(1) by (auto simp: stored_ok_def RuntimeShape_destroy_def kMaxSmallSize_def)
    then have "Resize n s m = Inr (s\<lparr>shape_size := n\<rparr>, m)" using False m1(1) by (simp add: Resize_def kMaxSmallSize_def)
    then show ?thesis using that d False n s(2) by (simp add: moves_def stored_ok_def shape_array_def)
  qed
qed

lemma moves_other:
  assumes "moves m x y m1" "stored_ok m t" "owns (Some t) \<inter> owns x = {}"
  shows "stored_ok m1 t" "shape_array m1 t = shape_array m t"
proof -
  have "int_blocks m1 a = int_blocks m a" if "shape_dims t = Dims_pointer a" "int_blocks m a \<noteq> None" for a
  proof -
    have "a \<notin> owns x" "a \<notin> owns y" using assms(1,3) that by (auto simp: moves_def)
    then show ?thesis using assms(1) by (simp add: moves_def)
  qed
  then have "stored_ok m1 t \<and> shape_array m1 t = shape_array m t"
    using assms(2) by (cases rule: stored_cases[OF assms(2)]) (simp_all add: stored_ok_def shape_array_def)
  then show "stored_ok m1 t" "shape_array m1 t = shape_array m t" by simp_all
qed

text \<open>An operation gives an object with the sizes \<open>xs\<close>.\<close>

definition gives :: "int_memory \<Rightarrow> RuntimeShape option \<Rightarrow> (RuntimeShape \<times> int_memory) res \<Rightarrow> int list \<Rightarrow> bool" where
  "gives m x r xs \<longleftrightarrow> (\<exists>s m1. r = Inr (s, m1) \<and> moves m x (Some s) m1 \<and> shape_value m1 s = xs)"

lemma memcpy_put:
  assumes s: "stored_ok m s" "mem_ok m" and i: "0 \<le> i" "0 \<le> n" "i + n = shape_size s" "n \<le> int (length src)"
  obtains ys s1 m1 where "memcpy_ints (shape_array m s) i src n = Inr ys" "put_dims ys s m = (s1, m1)" "moves m (Some s) (Some s1) m1"
    "shape_value m1 s1 = take (nat i) (shape_array m s) @ take (nat n) src"
proof -
  let ?xs = "shape_array m s"
  define ys where "ys = take (nat i) ?xs @ take (nat n) src @ drop (nat (i + n)) ?xs"
  have l: "shape_size s \<le> int (length ?xs)" using array_long[OF s(1)] by simp
  then have e: "memcpy_ints ?xs i src n = Inr ys" using i by (simp add: memcpy_ints_def ys_def)
  have t: "length (take (nat i) ?xs) = nat i" "length (take (nat n) src) = nat n" using i l by auto
  have "int (length (drop (nat (i + n)) ?xs)) = int (length ?xs) - (i + n)" using i l by simp
  then have len: "length ys = length ?xs" using t i(1,2) unfolding ys_def length_append by linarith
  obtain s1 m1 where p: "put_dims ys s m = (s1, m1)" "moves m (Some s) (Some s1) m1" "shape_size s1 = shape_size s" "shape_array m1 s1 = ys" using put_dims_ok[OF s len] .
  have "nat (shape_size s) = nat i + nat n" using i by (simp add: nat_add_distrib[symmetric])
  then have "shape_value m1 s1 = take (nat i) ?xs @ take (nat n) src" using p(3,4) t by (simp add: shape_value_def ys_def)
  then show ?thesis using that e p(1,2) by blast
qed

text \<open>An array that is not the object's own, at the end of the pointer, is still there after the object has been resized.\<close>

definition points_to :: "int_memory \<Rightarrow> RuntimeShape \<Rightarrow> dims_ptr \<Rightarrow> int list \<Rightarrow> bool" where
  "points_to m s p xs \<longleftrightarrow> (case p of Outside ys \<Rightarrow> ys = xs | Heap_array a \<Rightarrow> int_blocks m a = Some xs \<and> a \<notin> owns (Some s) | Own_array \<Rightarrow> False)"

lemma points_to_moves:
  assumes "points_to m s p xs" "moves m (Some s) (Some s1) m1"
  shows "dims_read p s1 m1 = Inr xs" "\<not> same_array p s1"
proof -
  have "a \<notin> owns (Some s1) \<and> int_blocks m1 a = Some xs" if "p = Heap_array a" for a
  proof -
    have a: "int_blocks m a = Some xs" "a \<notin> owns (Some s)" using assms(1) that by (simp_all add: points_to_def)
    then have "a \<notin> owns (Some s1)" using assms(2) unfolding moves_def by force
    then show ?thesis using assms(2) a unfolding moves_def by (metis Un_iff)
  qed
  then show "dims_read p s1 m1 = Inr xs" "\<not> same_array p s1"
    using assms(1) by (cases p; force simp: points_to_def dims_read_def same_array_def split: dims_union.splits)+
qed

lemma ReplaceWith_ok:
  assumes "stored_ok m s" "mem_ok m" "0 \<le> n" "n \<le> int (length data)" "points_to m s p data"
  shows "gives m (Some s) (ReplaceWith n p s m) (take (nat n) data)"
proof -
  obtain s1 m1 where r: "Resize n s m = Inr (s1, m1)" "moves m (Some s) (Some s1) m1" "shape_size s1 = n" using Resize_ok[OF assms(1-3)] by blast
  have ok: "stored_ok m1 s1" "mem_ok m1" using moves_ok[OF r(2)] by simp_all
  obtain ys s2 m2 where p: "memcpy_ints (shape_array m1 s1) 0 data n = Inr ys" "put_dims ys s1 m1 = (s2, m2)" "moves m1 (Some s1) (Some s2) m2"
      "shape_value m2 s2 = take (nat 0) (shape_array m1 s1) @ take (nat n) data"
    using memcpy_put[OF ok _ assms(3) _ assms(4), of 0] r(3) by auto
  show ?thesis unfolding gives_def
    by (intro exI[of _ s2] exI[of _ m2])
      (use r p DimsData_ok[OF ok(1)] points_to_moves[OF assms(5) r(2)] moves_trans[OF r(2) p(3)] in \<open>simp add: ReplaceWith_def\<close>)
qed

text \<open>Replacing an object by its own sizes: an array on the heap has been freed when it is read, the one inside the object is copied onto itself.\<close>

lemma ReplaceWith_own:
  assumes "stored_ok m s" "mem_ok m" "0 < n" "n \<le> shape_size s"
  shows "bind_res (dims_address True s) (\<lambda>p. ReplaceWith n p s m) = Inl (if 5 < shape_size s then InvalidAccess else Undefined)"
proof -
  have n: "0 \<le> n" using assms(3) by simp
  obtain s1 m1 where r: "Resize n s m = Inr (s1, m1)" "moves m (Some s) (Some s1) m1" "shape_size s1 = n" using Resize_ok[OF assms(1,2) n] by blast
  have ok: "stored_ok m1 s1" using moves_ok[OF r(2)] by simp
  from assms(1) show ?thesis
  proof (cases rule: stored_cases)
    case (small k ds)
    then have "\<exists>es. shape_dims s1 = Dims_array es" using ok r(3) assms(4) by (auto simp: stored_ok_def)
    then show ?thesis using small assms(3) r(1) DimsData_ok[OF ok] by (auto simp: dims_address_def ReplaceWith_def dims_read_def same_array_def kMaxSmallSize_def)
  next
    case (large k a xs)
    have "a \<notin> owns (Some s1)"
    proof
      assume a: "a \<in> owns (Some s1)"
      have "a < int_top m" using large(2) assms(2) by (simp add: mem_ok_def)
      then show False using a r(1) large by (auto simp: Resize_def RuntimeShape_destroy_def delete_ints_def kMaxSmallSize_def new_ints_def split: if_splits)
    qed
    then have "int_blocks m1 a = None" using r(2) large(1) unfolding moves_def by force
    then show ?thesis using large r(1) DimsData_ok[OF ok] by (simp add: dims_address_def ReplaceWith_def dims_read_def kMaxSmallSize_def)
  qed
qed

lemma fill_list:
  assumes "i + k = length xs" "length xs \<le> length ys" "take i ys = take i xs"
  shows "for_loop (\<lambda>i ys. bind_res (vec_at xs (int i)) (\<lambda>it. vec_set ys (int i) it)) i k ys = Inr (xs @ drop (length xs) ys)"
  using assms
proof (induction k arbitrary: i ys)
  case 0
  then show ?case by (metis add.right_neutral append_take_drop_id for_loop.simps(1) take_all_iff order_refl)
next
  case (Suc k)
  let ?ys = "ys[i := xs ! i]"
  have "vec_at xs (int i) = Inr (xs ! i)" "vec_set ys (int i) (xs ! i) = Inr ?ys" using Suc.prems by simp_all
  moreover have "take (Suc i) ?ys = take (Suc i) xs" using Suc.prems by (simp add: take_Suc_conv_app_nth)
  moreover have "drop (length xs) ?ys = drop (length xs) ys" using Suc.prems by simp
  ultimately show ?case using Suc.IH[of "Suc i" ?ys] Suc.prems by (simp del: vec_at_Inr vec_set_Inr)
qed

lemma BuildFrom_ok:
  assumes "stored_ok m s" "mem_ok m"
  shows "gives m (Some s) (BuildFrom xs s m) xs"
proof -
  obtain s1 m1 where r: "Resize (int (length xs)) s m = Inr (s1, m1)" "moves m (Some s) (Some s1) m1" "shape_size s1 = int (length xs)"
    using Resize_ok[OF assms] by (metis of_nat_0_le_iff)
  have ok: "stored_ok m1 s1" "mem_ok m1" using moves_ok[OF r(2)] by simp_all
  have l: "length xs \<le> length (shape_array m1 s1)" using array_long[OF ok(1)] r(3) by simp
  let ?ys = "xs @ drop (length xs) (shape_array m1 s1)"
  have len: "length ?ys = length (shape_array m1 s1)" using l by simp
  obtain s2 m2 where p: "put_dims ?ys s1 m1 = (s2, m2)" "moves m1 (Some s1) (Some s2) m2" "shape_size s2 = shape_size s1" "shape_array m2 s2 = ?ys"
    using put_dims_ok[OF ok len] .
  have "BuildFrom xs s m = Inr (s2, m2)" using r(1) p(1) DimsData_ok[OF ok(1)] fill_list[of 0 "length xs" xs "shape_array m1 s1"] l by (simp add: BuildFrom_def)
  moreover have "shape_value m2 s2 = xs" using p(3,4) r(3) by (simp add: shape_value_def)
  ultimately show ?thesis using moves_trans[OF r(2) p(2)] by (simp add: gives_def)
qed

lemma SetDim_ok:
  assumes "stored_ok m s" "mem_ok m" "0 \<le> i" "i < shape_size s"
  obtains s1 m1 where "SetDim i v (s, m) = Inr (s1, m1)" "moves m (Some s) (Some s1) m1" "shape_size s1 = shape_size s"
    "shape_array m1 s1 = (shape_array m s)[nat i := v]"
proof -
  let ?ys = "(shape_array m s)[nat i := v]"
  obtain s1 m1 where p: "put_dims ?ys s m = (s1, m1)" "moves m (Some s) (Some s1) m1" "shape_size s1 = shape_size s" "shape_array m1 s1 = ?ys"
    using put_dims_ok[OF assms(1,2), of ?ys] by auto
  have "vec_set (shape_array m s) i v = Inr ?ys" using assms(3,4) array_long[OF assms(1)] by simp
  then have "SetDim i v (s, m) = Inr (s1, m1)" using p(1) DimsData_ok[OF assms(1)] by (simp add: SetDim_def del: vec_set_Inr)
  then show ?thesis using that p(2-4) by blast
qed

lemma SetDim_loop:
  assumes "stored_ok m s" "mem_ok m" "int (i + k) \<le> shape_size s" "take i (shape_array m s) = replicate i v"
  obtains s1 m1 where "for_loop (\<lambda>i. SetDim (int i) v) i k (s, m) = Inr (s1, m1)" "moves m (Some s) (Some s1) m1" "shape_size s1 = shape_size s"
    "take (i + k) (shape_array m1 s1) = replicate (i + k) v"
  using assms
proof (induction k arbitrary: i m s thesis)
  case 0
  have "moves m (Some s) (Some s) m" using 0(2,3) by (cases rule: stored_cases) (auto simp: moves_def stored_ok_def)
  then show ?case using 0 by simp
next
  case (Suc k)
  obtain s1 m1 where p: "SetDim (int i) v (s, m) = Inr (s1, m1)" "moves m (Some s) (Some s1) m1" "shape_size s1 = shape_size s"
      "shape_array m1 s1 = (shape_array m s)[nat (int i) := v]"
    using SetDim_ok[OF Suc.prems(2,3), of "int i" v] Suc.prems(4) by auto
  have ok: "stored_ok m1 s1" "mem_ok m1" using moves_ok[OF p(2)] by simp_all
  have "i < length (shape_array m s)" using array_long[OF Suc.prems(2)] Suc.prems(4) by simp
  then have t: "take (Suc i) (shape_array m1 s1) = replicate (Suc i) v" using p(4) Suc.prems(5) by (simp add: take_Suc_conv_app_nth replicate_append_same)
  have b: "int (Suc i + k) \<le> shape_size s1" using Suc.prems(4) p(3) by simp
  obtain s2 m2 where r: "for_loop (\<lambda>i. SetDim (int i) v) (Suc i) k (s1, m1) = Inr (s2, m2)" "moves m1 (Some s1) (Some s2) m2" "shape_size s2 = shape_size s1"
      "take (Suc i + k) (shape_array m2 s2) = replicate (Suc i + k) v"
    using Suc.IH[OF _ ok b t] .
  show ?case by (rule Suc.prems(1)[of s2 m2]) (use p(1,3) r moves_trans[OF p(2) r(2)] in simp_all)
qed

section \<open>New objects\<close>

lemma gives_new:
  assumes "mem_ok m" "gives m (Some (RuntimeShape_new m)) r xs"
  shows "gives m None r xs"
  using assms moves_trans[OF new_shape_moves[OF assms(1)]] unfolding gives_def by blast

lemma new_stored: "mem_ok m \<Longrightarrow> stored_ok m (RuntimeShape_new m)"
  using moves_ok[OF new_shape_moves] by blast

lemma RuntimeShape_data_ok:
  "mem_ok m \<Longrightarrow> 0 \<le> n \<Longrightarrow> n \<le> int (length data) \<Longrightarrow> points_to m (RuntimeShape_new m) p data \<Longrightarrow> gives m None (RuntimeShape_data n p m) (take (nat n) data)"
  unfolding RuntimeShape_data_def by (intro gives_new ReplaceWith_ok new_stored)

lemma RuntimeShape_list_ok: "mem_ok m \<Longrightarrow> gives m None (RuntimeShape_list xs m) xs"
  unfolding RuntimeShape_list_def by (intro gives_new BuildFrom_ok new_stored)

lemma new_resized:
  assumes "mem_ok m" "0 \<le> n"
  obtains s1 m1 where "Resize n (RuntimeShape_new m) m = Inr (s1, m1)" "moves m None (Some s1) m1" "shape_size s1 = n" "stored_ok m1 s1" "mem_ok m1"
proof -
  obtain s1 m1 where r: "Resize n (RuntimeShape_new m) m = Inr (s1, m1)" "moves m (Some (RuntimeShape_new m)) (Some s1) m1" "shape_size s1 = n"
    using Resize_ok[OF new_stored[OF assms(1)] assms] by blast
  show ?thesis by (rule that[OF r(1) moves_trans[OF new_shape_moves[OF assms(1)] r(2)] r(3)]) (use moves_ok[OF r(2)] in simp_all)
qed

lemma RuntimeShape_value_ok:
  assumes "mem_ok m" "0 \<le> n"
  shows "gives m None (RuntimeShape_value n v m) (replicate (nat n) v)"
proof -
  obtain s1 m1 where r: "Resize n (RuntimeShape_new m) m = Inr (s1, m1)" "moves m None (Some s1) m1" "shape_size s1 = n" "stored_ok m1 s1" "mem_ok m1"
    using new_resized[OF assms] .
  obtain s2 m2 where l: "for_loop (\<lambda>i. SetDim (int i) v) 0 (nat n) (s1, m1) = Inr (s2, m2)" "moves m1 (Some s1) (Some s2) m2" "shape_size s2 = shape_size s1"
      "take (0 + nat n) (shape_array m2 s2) = replicate (0 + nat n) v"
    using SetDim_loop[OF r(4,5), of 0 "nat n" v] r(3) assms(2) by auto
  show ?thesis unfolding gives_def
    by (intro exI[of _ s2] exI[of _ m2]) (use r l moves_trans[OF r(2) l(2)] in \<open>simp add: RuntimeShape_value_def shape_value_def\<close>)
qed

lemma RuntimeShape_copy_ok:
  assumes m: "mem_ok m" and t: "stored_ok m t"
  shows "gives m None (RuntimeShape_copy t m) (shape_value m t)"
proof -
  have n: "0 \<le> shape_size t" using t by (simp add: stored_ok_def)
  obtain s1 m1 where c: "RuntimeShape_count (shape_size t) m = (s1, m1)" "moves m None (Some s1) m1" "shape_size s1 = shape_size t" using count_ok[OF m n] .
  have ok: "stored_ok m1 s1" "mem_ok m1" using moves_ok[OF c(2)] by simp_all
  have o: "stored_ok m1 t" "shape_array m1 t = shape_array m t" using moves_other[OF c(2) t] by simp_all
  have z: "(0 :: int) \<le> 0" "0 + shape_size t = shape_size s1" "shape_size t \<le> int (length (shape_array m1 t))" using c(3) array_long[OF o(1)] by simp_all
  obtain ys s2 m2 where p: "memcpy_ints (shape_array m1 s1) 0 (shape_array m1 t) (shape_size t) = Inr ys" "put_dims ys s1 m1 = (s2, m2)"
      "moves m1 (Some s1) (Some s2) m2" "shape_value m2 s2 = take (nat 0) (shape_array m1 s1) @ take (nat (shape_size t)) (shape_array m1 t)"
    using memcpy_put[OF ok z(1) n z(2,3)] .
  show ?thesis unfolding gives_def
    by (intro exI[of _ s2] exI[of _ m2])
      (use c p DimsData_ok[OF ok(1)] DimsData_ok[OF o(1)] o(2) moves_trans[OF c(2) p(3)] in \<open>simp add: RuntimeShape_copy_def DimensionsCount_def shape_value_def\<close>)
qed

lemma RuntimeShape_extend_ok:
  assumes m: "mem_ok m" and t: "stored_ok m t" and n: "shape_size t \<le> n"
  shows "gives m None (RuntimeShape_extend n t v m) (replicate (nat n - length (shape_value m t)) v @ shape_value m t)"
proof -
  let ?k = "n - shape_size t"
  have t0: "0 \<le> shape_size t" using t by (simp add: stored_ok_def)
  then have n0: "0 \<le> n" using n by simp
  obtain s1 m1 where r: "Resize n (RuntimeShape_new m) m = Inr (s1, m1)" "moves m None (Some s1) m1" "shape_size s1 = n" "stored_ok m1 s1" "mem_ok m1"
    using new_resized[OF m n0] .
  have k: "int (0 + nat ?k) \<le> shape_size s1" using t0 n r(3) by simp
  obtain s2 m2 where l: "for_loop (\<lambda>i. SetDim (int i) v) 0 (nat ?k) (s1, m1) = Inr (s2, m2)" "moves m1 (Some s1) (Some s2) m2" "shape_size s2 = shape_size s1"
      "take (0 + nat ?k) (shape_array m2 s2) = replicate (0 + nat ?k) v"
    using SetDim_loop[OF r(4,5) k, of v] by auto
  have ok: "stored_ok m2 s2" "mem_ok m2" and mv: "moves m None (Some s2) m2" using moves_ok[OF l(2)] moves_trans[OF r(2) l(2)] by simp_all
  have o: "stored_ok m2 t" "shape_array m2 t = shape_array m t" using moves_other[OF mv t] by simp_all
  have z: "0 \<le> ?k" "?k + shape_size t = shape_size s2" "shape_size t \<le> int (length (shape_array m2 t))" using n l(3) r(3) array_long[OF o(1)] by simp_all
  obtain ys s3 m3 where p: "memcpy_ints (shape_array m2 s2) ?k (shape_array m2 t) (shape_size t) = Inr ys" "put_dims ys s2 m2 = (s3, m3)"
      "moves m2 (Some s2) (Some s3) m3" "shape_value m3 s3 = take (nat ?k) (shape_array m2 s2) @ take (nat (shape_size t)) (shape_array m2 t)"
    using memcpy_put[OF ok z(1) t0 z(2,3)] .
  have "RuntimeShape_extend n t v m = Inr (s3, m3)"
    using n r(1) l(1) p(1,2) DimsData_ok[OF ok(1)] DimsData_ok[OF o(1)] by (simp add: RuntimeShape_extend_def DimensionsCount_def TFLITE_CHECK_def)
  moreover have "nat n - length (shape_value m t) = nat ?k" using value_length[OF t] t0 by (simp add: nat_diff_distrib)
  ultimately show ?thesis using moves_trans[OF mv p(3)] p(4) l(4) o(2) unfolding gives_def by (simp add: shape_value_def)
qed

section \<open>Questions\<close>

lemma shape_eq_value:
  assumes "stored_ok m s" "stored_ok m t"
  shows "RuntimeShape_eq s t m = Inr (shape_value m s = shape_value m t)"
proof (cases "shape_size s = shape_size t")
  case True
  then show ?thesis using assms array_long[OF assms(1)] array_long[OF assms(2)] by (simp add: RuntimeShape_eq_def DimsData_ok shape_value_def)
next
  case False
  then have "shape_value m s \<noteq> shape_value m t" using value_length[OF assms(1)] value_length[OF assms(2)] by metis
  then show ?thesis using False by (simp add: RuntimeShape_eq_def)
qed

lemma shape_dims_value: "stored_ok m s \<Longrightarrow> 0 \<le> i \<Longrightarrow> i < shape_size s \<Longrightarrow> Dims i s m = Inr (shape_value m s ! nat i)"
  using array_long[of m s] by (simp add: Dims_def DimsData_ok shape_value_def nat_less_iff)

lemma for_loop_cong:
  assumes "\<And>j u. i \<le> j \<Longrightarrow> j < i + k \<Longrightarrow> f j u = g j u"
  shows "for_loop f i k s = for_loop g i k s"
  using assms
proof (induction k arbitrary: i s)
  case (Suc k)
  have "for_loop f (Suc i) k u = for_loop g (Suc i) k u" for u by (rule Suc.IH) (use Suc.prems in simp)
  then show ?case using Suc.prems[of i s] by (cases "g i s") simp_all
qed simp

lemma flat_size_value:
  assumes "stored_ok m s"
  shows "RuntimeShape_FlatSize s m = FlatSize (shape_value m s)"
proof -
  have n: "nat (shape_size s) = length (shape_value m s)" using value_length[OF assms] by linarith
  have "vec_at (shape_array m s) (int j) = vec_at (shape_value m s) (int j)" if "j < length (shape_value m s)" for j
    using that by (simp add: vec_at_def shape_value_def)
  then show ?thesis unfolding RuntimeShape_FlatSize_def FlatSize_def DimsData_ok[OF assms] bind_res_simps n by (intro for_loop_cong) simp
qed

section \<open>Many objects\<close>

text \<open>
  The operations on objects that have names: constructors, assignments through the members, and the destructor. \<open>New_from\<close> and \<open>Replace_from\<close> pass the pointer
  \<^verbatim>\<open>DimsData()\<close> of an object, which may be the one that is replaced.
\<close>

datatype shape_op =
    New_empty nat
  | New_count nat int
  | New_value nat int int
  | New_data nat int "int list"
  | New_from nat int nat
  | New_list nat "int list"
  | Copy_of nat nat
  | Extended nat int nat
  | Set_dim nat int int
  | Resize_to nat int
  | Replace nat int "int list"
  | Replace_from nat int nat
  | Build nat "int list"
  | Destroy nat

type_synonym shape_objects = "int_memory \<times> (nat \<rightharpoonup> RuntimeShape)"

definition with_shape :: "nat \<Rightarrow> (nat \<rightharpoonup> RuntimeShape) \<Rightarrow> (RuntimeShape \<Rightarrow> 'a res) \<Rightarrow> 'a res" where
  "with_shape v vs f = (case vs v of None \<Rightarrow> Inl InvalidAccess | Some s \<Rightarrow> f s)"

definition assign :: "nat \<Rightarrow> (nat \<rightharpoonup> RuntimeShape) \<Rightarrow> (RuntimeShape \<times> int_memory) res \<Rightarrow> shape_objects res" where
  "assign v vs r = bind_res r (\<lambda>(s, m). Inr (m, vs(v \<mapsto> s)))"

fun exec_op :: "shape_op \<Rightarrow> shape_objects \<Rightarrow> shape_objects res" where
  "exec_op (New_empty v) (m, vs) = assign v vs (Inr (RuntimeShape_new m, m))"
| "exec_op (New_count v n) (m, vs) = assign v vs (Inr (RuntimeShape_count n m))"
| "exec_op (New_value v n x) (m, vs) = assign v vs (RuntimeShape_value n x m)"
| "exec_op (New_data v n data) (m, vs) = assign v vs (RuntimeShape_data n (Outside data) m)"
| "exec_op (New_from v n w) (m, vs) = with_shape w vs (\<lambda>t. assign v vs (bind_res (dims_address False t) (\<lambda>p. RuntimeShape_data n p m)))"
| "exec_op (New_list v xs) (m, vs) = assign v vs (RuntimeShape_list xs m)"
| "exec_op (Copy_of v w) (m, vs) = with_shape w vs (\<lambda>t. assign v vs (RuntimeShape_copy t m))"
| "exec_op (Extended v n w) (m, vs) = with_shape w vs (\<lambda>t. assign v vs (RuntimeShape_extend n t 1 m))"
| "exec_op (Set_dim v i x) (m, vs) = with_shape v vs (\<lambda>s. assign v vs (SetDim i x (s, m)))"
| "exec_op (Resize_to v n) (m, vs) = with_shape v vs (\<lambda>s. assign v vs (Resize n s m))"
| "exec_op (Replace v n data) (m, vs) = with_shape v vs (\<lambda>s. assign v vs (ReplaceWith n (Outside data) s m))"
| "exec_op (Replace_from v n w) (m, vs) = with_shape v vs (\<lambda>s. with_shape w vs (\<lambda>t.
     assign v vs (bind_res (dims_address (v = w) t) (\<lambda>p. ReplaceWith n p s m))))"
| "exec_op (Build v xs) (m, vs) = with_shape v vs (\<lambda>s. assign v vs (BuildFrom xs s m))"
| "exec_op (Destroy v) (m, vs) = with_shape v vs (\<lambda>s. bind_res (RuntimeShape_destroy s m) (\<lambda>m1. Inr (m1, vs(v := None))))"

text \<open>The same operations on lists, and what a caller has to see to.\<close>

type_synonym size_lists = "nat \<rightharpoonup> int list"

fun allowed :: "shape_op \<Rightarrow> size_lists \<Rightarrow> bool" where
  "allowed (New_empty v) a \<longleftrightarrow> a v = None"
| "allowed (New_count v n) a \<longleftrightarrow> a v = None \<and> 0 \<le> n"
| "allowed (New_value v n x) a \<longleftrightarrow> a v = None \<and> 0 \<le> n"
| "allowed (New_data v n data) a \<longleftrightarrow> a v = None \<and> 0 \<le> n \<and> n \<le> int (length data)"
| "allowed (New_from v n w) a \<longleftrightarrow> a v = None \<and> 0 \<le> n \<and> (case a w of None \<Rightarrow> False | Some xs \<Rightarrow> n \<le> int (length xs))"
| "allowed (New_list v xs) a \<longleftrightarrow> a v = None"
| "allowed (Copy_of v w) a \<longleftrightarrow> a v = None \<and> a w \<noteq> None"
| "allowed (Extended v n w) a \<longleftrightarrow> a v = None \<and> (case a w of None \<Rightarrow> False | Some xs \<Rightarrow> int (length xs) \<le> n)"
| "allowed (Set_dim v i x) a \<longleftrightarrow> (case a v of None \<Rightarrow> False | Some xs \<Rightarrow> 0 \<le> i \<and> i < int (length xs))"
| "allowed (Resize_to v n) a \<longleftrightarrow> a v \<noteq> None \<and> 0 \<le> n"
| "allowed (Replace v n data) a \<longleftrightarrow> a v \<noteq> None \<and> 0 \<le> n \<and> n \<le> int (length data)"
| "allowed (Replace_from v n w) a \<longleftrightarrow> v \<noteq> w \<and> a v \<noteq> None \<and> 0 \<le> n \<and> (case a w of None \<Rightarrow> False | Some xs \<Rightarrow> n \<le> int (length xs))"
| "allowed (Build v xs) a \<longleftrightarrow> a v \<noteq> None"
| "allowed (Destroy v) a \<longleftrightarrow> a v \<noteq> None"

fun lists_after :: "shape_op \<Rightarrow> size_lists \<Rightarrow> size_lists \<Rightarrow> bool" where
  "lists_after (New_empty v) a a' \<longleftrightarrow> a' = a(v \<mapsto> [])"
| "lists_after (New_count v n) a a' \<longleftrightarrow> (\<exists>xs. int (length xs) = n \<and> a' = a(v \<mapsto> xs))"
| "lists_after (New_value v n x) a a' \<longleftrightarrow> a' = a(v \<mapsto> replicate (nat n) x)"
| "lists_after (New_data v n data) a a' \<longleftrightarrow> a' = a(v \<mapsto> take (nat n) data)"
| "lists_after (New_from v n w) a a' \<longleftrightarrow> (\<exists>xs. a w = Some xs \<and> a' = a(v \<mapsto> take (nat n) xs))"
| "lists_after (New_list v xs) a a' \<longleftrightarrow> a' = a(v \<mapsto> xs)"
| "lists_after (Copy_of v w) a a' \<longleftrightarrow> a' = a(v := a w)"
| "lists_after (Extended v n w) a a' \<longleftrightarrow> (\<exists>xs ys. a w = Some xs \<and> ExtendedShape (nat n) xs = Inr ys \<and> a' = a(v \<mapsto> ys))"
| "lists_after (Set_dim v i x) a a' \<longleftrightarrow> (\<exists>xs. a v = Some xs \<and> a' = a(v \<mapsto> xs[nat i := x]))"
| "lists_after (Resize_to v n) a a' \<longleftrightarrow> (\<exists>xs ys. a v = Some xs \<and> int (length ys) = n \<and> a' = a(v \<mapsto> ys) \<and>
     (length xs \<le> 5 \<and> length ys \<le> 5 \<longrightarrow> take (length ys) xs = take (length xs) ys))"
| "lists_after (Replace v n data) a a' \<longleftrightarrow> a' = a(v \<mapsto> take (nat n) data)"
| "lists_after (Replace_from v n w) a a' \<longleftrightarrow> (\<exists>xs. a w = Some xs \<and> a' = a(v \<mapsto> take (nat n) xs))"
| "lists_after (Build v xs) a a' \<longleftrightarrow> a' = a(v \<mapsto> xs)"
| "lists_after (Destroy v) a a' \<longleftrightarrow> a' = a(v := None)"

primrec exec_all :: "('o \<Rightarrow> 's \<Rightarrow> 's res) \<Rightarrow> 'o list \<Rightarrow> 's \<Rightarrow> 's res" where
  "exec_all exec [] s = Inr s"
| "exec_all exec (op # ops) s = bind_res (exec op s) (exec_all exec ops)"

primrec lists_run :: "shape_op list \<Rightarrow> size_lists \<Rightarrow> size_lists \<Rightarrow> bool" where
  "lists_run [] a a' \<longleftrightarrow> a' = a"
| "lists_run (op # ops) a a' \<longleftrightarrow> (\<exists>b. lists_after op a b \<and> lists_run ops b a')"

text \<open>Every operation of the sequence is allowed, whatever unwritten memory holds.\<close>

primrec legal :: "shape_op list \<Rightarrow> size_lists \<Rightarrow> bool" where
  "legal [] a \<longleftrightarrow> True"
| "legal (op # ops) a \<longleftrightarrow> allowed op a \<and> (\<forall>b. lists_after op a b \<longrightarrow> legal ops b)"

section \<open>The contract\<close>

text \<open>
  What the kernels rely on: named objects that behave as lists, with one array for every object of more than five sizes and no other.
\<close>

locale shapes_as_lists =
  fixes exec :: "shape_op \<Rightarrow> 's \<Rightarrow> 's res" and invar :: "'s \<Rightarrow> bool" and lists_of :: "'s \<Rightarrow> size_lists" and arrays :: "'s \<Rightarrow> nat set"
  assumes step: "invar s \<Longrightarrow> allowed op (lists_of s) \<Longrightarrow> \<exists>s'. exec op s = Inr s' \<and> invar s' \<and> lists_after op (lists_of s) (lists_of s')"
    and owned: "invar s \<Longrightarrow> \<exists>f. bij_betw f {v. \<exists>xs. lists_of s v = Some xs \<and> 5 < length xs} (arrays s)"
begin

lemma run:
  assumes "invar s" "legal ops (lists_of s)"
  shows "\<exists>s'. exec_all exec ops s = Inr s' \<and> invar s' \<and> lists_run ops (lists_of s) (lists_of s')"
  using assms
proof (induction ops arbitrary: s)
  case (Cons op ops)
  obtain s1 where s1: "exec op s = Inr s1" "invar s1" "lists_after op (lists_of s) (lists_of s1)" using step[of s op] Cons.prems by auto
  obtain s2 where "exec_all exec ops s1 = Inr s2" "invar s2" "lists_run ops (lists_of s1) (lists_of s2)" using Cons.IH[OF s1(2)] Cons.prems(2) s1(3) by auto
  then show ?case using s1 by auto
qed simp

lemma all_freed:
  assumes "invar s" "lists_of s = Map.empty"
  shows "arrays s = {}"
  using owned[OF assms(1)] assms(2) by (auto simp: bij_betw_def)

end

section \<open>The objects meet it\<close>

definition objects_ok :: "shape_objects \<Rightarrow> bool" where
  "objects_ok = (\<lambda>(m, vs). mem_ok m \<and> (\<forall>v s. vs v = Some s \<longrightarrow> stored_ok m s) \<and>
     (\<forall>a. int_blocks m a \<noteq> None \<longrightarrow> (\<exists>v. a \<in> owns (vs v))) \<and> (\<forall>v w. v \<noteq> w \<longrightarrow> owns (vs v) \<inter> owns (vs w) = {}))"

definition sizes_of :: "shape_objects \<Rightarrow> size_lists" where
  "sizes_of = (\<lambda>(m, vs) v. map_option (shape_value m) (vs v))"

definition live_arrays :: "shape_objects \<Rightarrow> nat set" where
  "live_arrays = (\<lambda>(m, vs). dom (int_blocks m))"

lemma owned_live: "stored_ok m s \<Longrightarrow> a \<in> owns (Some s) \<Longrightarrow> int_blocks m a \<noteq> None"
  by (cases rule: stored_cases) auto

lemma moves_objects:
  assumes ok: "objects_ok (m, vs)" and mv: "moves m (vs v) y m1"
  shows "objects_ok (m1, vs(v := y))" "sizes_of (m1, vs(v := y)) = (sizes_of (m, vs))(v := map_option (shape_value m1) y)"
proof -
  have st: "stored_ok m s" if "vs w = Some s" for w s using ok that by (simp add: objects_ok_def)
  have dis: "owns (vs u) \<inter> owns (vs w) = {}" if "u \<noteq> w" for u w using ok that by (simp add: objects_ok_def)
  have other: "stored_ok m1 s" "shape_array m1 s = shape_array m s" if "vs w = Some s" "w \<noteq> v" for w s
    using moves_other[OF mv st[OF that(1)]] dis[OF that(2)] that(1) by simp_all
  have y: "\<forall>s. y = Some s \<longrightarrow> stored_ok m1 s" "mem_ok m1" "\<forall>a \<in> owns y. a \<in> owns (vs v) \<or> int_blocks m a = None"
      "\<forall>a \<in> owns (vs v) - owns y. int_blocks m1 a = None" "\<forall>a. a \<notin> owns (vs v) \<union> owns y \<longrightarrow> int_blocks m1 a = int_blocks m a"
    using mv by (simp_all add: moves_def)
  have new: "owns (vs w) \<inter> owns y = {}" if "w \<noteq> v" for w
  proof (cases "vs w")
    case (Some s)
    have "\<forall>a \<in> owns (vs w). int_blocks m a \<noteq> None" unfolding Some using owned_live[OF st[OF Some]] by blast
    then show ?thesis using y(3) dis[OF that] by blast
  qed simp
  have cover: "\<exists>w. a \<in> owns ((vs(v := y)) w)" if "int_blocks m1 a \<noteq> None" for a
  proof (cases "a \<in> owns y")
    case False
    then have "a \<notin> owns (vs v)" using y(4)[rule_format, of a] that by auto
    then have "int_blocks m a \<noteq> None" using y(5) False that by simp
    then obtain w where w: "a \<in> owns (vs w)" using ok by (auto simp: objects_ok_def)
    then have "w \<noteq> v" using \<open>a \<notin> owns (vs v)\<close> by blast
    then show ?thesis using w by (intro exI[of _ w]) simp
  qed (rule exI[of _ v], simp)
  have disj: "owns ((vs(v := y)) u) \<inter> owns ((vs(v := y)) w) = {}" if "u \<noteq> w" for u w
    using that dis[OF that] new[of u] new[of w] by (simp add: Int_commute)
  show "objects_ok (m1, vs(v := y))" unfolding objects_ok_def prod.case
    by (intro conjI allI impI) (use y(1,2) other(1) cover disj in \<open>auto split: if_splits\<close>)
  show "sizes_of (m1, vs(v := y)) = (sizes_of (m, vs))(v := map_option (shape_value m1) y)"
  proof
    fix w
    show "sizes_of (m1, vs(v := y)) w = ((sizes_of (m, vs))(v := map_option (shape_value m1) y)) w"
      using other(2)[of w] by (cases "vs w") (auto simp: sizes_of_def shape_value_def)
  qed
qed

lemma gives_objects:
  assumes "objects_ok (m, vs)" "gives m (vs v) r xs"
  shows "\<exists>st. assign v vs r = Inr st \<and> objects_ok st \<and> sizes_of st = (sizes_of (m, vs))(v \<mapsto> xs)"
proof -
  obtain s m1 where r: "r = Inr (s, m1)" "moves m (vs v) (Some s) m1" "shape_value m1 s = xs" using assms(2) by (auto simp: gives_def)
  show ?thesis using moves_objects[OF assms(1) r(2)] r(1,3) by (simp add: assign_def)
qed

lemma sizes_Some: "sizes_of (m, vs) v = Some xs \<longleftrightarrow> (\<exists>s. vs v = Some s \<and> shape_value m s = xs)"
  by (auto simp: sizes_of_def)

lemma sizes_None: "sizes_of (m, vs) v = None \<longleftrightarrow> vs v = None"
  by (simp add: sizes_of_def)

lemma objects_memory: "objects_ok (m, vs) \<Longrightarrow> mem_ok m"
  by (simp add: objects_ok_def)

lemma objects_stored: "objects_ok (m, vs) \<Longrightarrow> vs v = Some s \<Longrightarrow> stored_ok m s"
  by (simp add: objects_ok_def)

text \<open>The size is known from the list, so bounds on the one are bounds on the other.\<close>

lemma count_gives:
  assumes "mem_ok m" "0 \<le> n"
  shows "\<exists>xs. int (length xs) = n \<and> gives m None (Inr (RuntimeShape_count n m)) xs"
proof -
  obtain s m1 where c: "RuntimeShape_count n m = (s, m1)" "moves m None (Some s) m1" "shape_size s = n" using count_ok[OF assms] .
  show ?thesis using value_length[of m1 s] moves_ok[OF c(2)] c by (auto simp: gives_def)
qed

lemma SetDim_gives:
  assumes "stored_ok m s" "mem_ok m" "0 \<le> i" "i < shape_size s"
  shows "gives m (Some s) (SetDim i x (s, m)) ((shape_value m s)[nat i := x])"
proof -
  obtain s1 m1 where "SetDim i x (s, m) = Inr (s1, m1)" "moves m (Some s) (Some s1) m1" "shape_size s1 = shape_size s"
      "shape_array m1 s1 = (shape_array m s)[nat i := x]"
    using SetDim_ok[OF assms] .
  then show ?thesis by (simp add: gives_def shape_value_def take_update_swap)
qed

lemma Resize_gives:
  assumes "stored_ok m s" "mem_ok m" "0 \<le> n"
  shows "\<exists>ys. int (length ys) = n \<and> gives m (Some s) (Resize n s m) ys \<and>
    (length (shape_value m s) \<le> 5 \<and> length ys \<le> 5 \<longrightarrow> take (length ys) (shape_value m s) = take (length (shape_value m s)) ys)"
proof -
  obtain s1 m1 where r: "Resize n s m = Inr (s1, m1)" "moves m (Some s) (Some s1) m1" "shape_size s1 = n"
      "shape_size s \<le> 5 \<and> n \<le> 5 \<longrightarrow> shape_array m1 s1 = shape_array m s"
    using Resize_ok[OF assms] .
  have l: "int (length (shape_value m1 s1)) = n" "int (length (shape_value m s)) = shape_size s" using value_length[of m1 s1] value_length[OF assms(1)] moves_ok[OF r(2)] r(3) by simp_all
  have k: "length (shape_value m1 s1) = nat n" "length (shape_value m s) = nat (shape_size s)" using l by linarith+
  have "take (nat n) (shape_value m s) = take (nat (shape_size s)) (shape_value m1 s1)" if "shape_size s \<le> 5" "n \<le> 5"
    using r(3,4) that by (simp add: shape_value_def min.commute)
  then show ?thesis using r(1,2) l k by (intro exI[of _ "shape_value m1 s1"]) (auto simp: gives_def)
qed

text \<open>The pointer \<^verbatim>\<open>DimsData()\<close> of another object.\<close>

lemma other_address:
  assumes "stored_ok m t" "owns (Some t) \<inter> owns (Some s) = {}"
  obtains p where "dims_address False t = Inr p" "points_to m s p (shape_array m t)"
  using assms(1)
proof (cases rule: stored_cases)
  case (small n ds)
  show ?thesis by (rule that[of "Outside ds"]) (use small in \<open>simp_all add: dims_address_def kMaxSmallSize_def points_to_def shape_array_def\<close>)
next
  case (large n a xs)
  show ?thesis by (rule that[of "Heap_array a"]) (use large assms(2) in \<open>simp_all add: dims_address_def kMaxSmallSize_def points_to_def shape_array_def\<close>)
qed

lemma take_value: "stored_ok m t \<Longrightarrow> n \<le> int (length (shape_value m t)) \<Longrightarrow> n \<le> int (length (shape_array m t)) \<and> take (nat n) (shape_array m t) = take (nat n) (shape_value m t)"
  using array_long[of m t] value_length[of m t] by (simp add: shape_value_def min_def)

lemma extended_list: "length xs \<le> n \<Longrightarrow> ExtendedShape n xs = Inr (replicate (n - length xs) 1 @ xs)"
  by (simp add: ExtendedShape_def TFLITE_CHECK_def)

lemma exec_op_refines:
  assumes ok: "objects_ok (m, vs)" and al: "allowed op (sizes_of (m, vs))"
  shows "\<exists>st. exec_op op (m, vs) = Inr st \<and> objects_ok st \<and> lists_after op (sizes_of (m, vs)) (sizes_of st)"
proof (cases op)
  case (New_empty v)
  have "gives m None (Inr (RuntimeShape_new m, m)) []"
    using new_shape_moves[OF objects_memory[OF ok]] by (simp add: gives_def shape_value_def RuntimeShape_new_def)
  then show ?thesis using gives_objects[OF ok, of v] al New_empty by (simp add: sizes_None)
next
  case (New_count v n)
  then obtain xs where "int (length xs) = n" "gives m None (Inr (RuntimeShape_count n m)) xs" using count_gives[OF objects_memory[OF ok]] al by auto
  then show ?thesis using gives_objects[OF ok, of v] al New_count by (fastforce simp: sizes_None)
next
  case (New_value v n x)
  then show ?thesis using gives_objects[OF ok, of v] al RuntimeShape_value_ok[OF objects_memory[OF ok], of n x] by (simp add: sizes_None)
next
  case (New_data v n data)
  then show ?thesis using gives_objects[OF ok, of v] al RuntimeShape_data_ok[OF objects_memory[OF ok], of n data "Outside data"]
    by (simp add: sizes_None points_to_def)
next
  case (New_from v n w)
  then obtain t where t: "vs w = Some t" "vs v = None" "0 \<le> n" "n \<le> int (length (shape_value m t))" using al by (auto simp: sizes_None sizes_Some split: option.splits)
  note st = objects_stored[OF ok t(1)]
  obtain p where p: "dims_address False t = Inr p" "points_to m (RuntimeShape_new m) p (shape_array m t)"
    using other_address[OF st, of "RuntimeShape_new m"] by (auto simp: RuntimeShape_new_def)
  have "gives m (vs v) (bind_res (dims_address False t) (\<lambda>p. RuntimeShape_data n p m)) (take (nat n) (shape_value m t))"
    using RuntimeShape_data_ok[OF objects_memory[OF ok] t(3) _ p(2)] take_value[OF st t(4)] t(2) p(1) by simp
  from gives_objects[OF ok this] show ?thesis using New_from t(1) by (auto simp: with_shape_def sizes_Some)
next
  case (New_list v xs)
  then show ?thesis using gives_objects[OF ok, of v] al RuntimeShape_list_ok[OF objects_memory[OF ok], of xs] by (simp add: sizes_None)
next
  case (Copy_of v w)
  then obtain t where t: "vs w = Some t" "vs v = None" using al by (auto simp: sizes_None)
  have "gives m (vs v) (RuntimeShape_copy t m) (shape_value m t)" using RuntimeShape_copy_ok[OF objects_memory[OF ok] objects_stored[OF ok t(1)]] t(2) by simp
  from gives_objects[OF ok this] show ?thesis using Copy_of t(1) by (simp add: with_shape_def sizes_of_def)
next
  case (Extended v n w)
  then obtain t where t: "vs w = Some t" "vs v = None" "int (length (shape_value m t)) \<le> n" using al by (auto simp: sizes_None sizes_Some split: option.splits)
  have st: "stored_ok m t" by (rule objects_stored[OF ok t(1)])
  have "gives m (vs v) (RuntimeShape_extend n t 1 m) (replicate (nat n - length (shape_value m t)) 1 @ shape_value m t)"
    using RuntimeShape_extend_ok[OF objects_memory[OF ok] st, of n 1] t(2,3) value_length[OF st] by simp
  from gives_objects[OF ok this] show ?thesis
    using Extended t extended_list[of "shape_value m t" "nat n"] by (auto simp: with_shape_def sizes_Some nat_le_iff le_nat_iff)
next
  case (Set_dim v i x)
  then obtain s where s: "vs v = Some s" "0 \<le> i" "i < int (length (shape_value m s))" using al by (auto simp: sizes_Some split: option.splits)
  have st: "stored_ok m s" by (rule objects_stored[OF ok s(1)])
  have "gives m (vs v) (SetDim i x (s, m)) ((shape_value m s)[nat i := x])" using SetDim_gives[OF st objects_memory[OF ok] s(2)] s value_length[OF st] by simp
  from gives_objects[OF ok this] show ?thesis using Set_dim s(1) by (auto simp: with_shape_def sizes_Some)
next
  case (Resize_to v n)
  then obtain s where s: "vs v = Some s" "0 \<le> n" using al by (auto simp: sizes_None)
  obtain ys where ys: "int (length ys) = n" "gives m (vs v) (Resize n s m) ys"
      "length (shape_value m s) \<le> 5 \<and> length ys \<le> 5 \<longrightarrow> take (length ys) (shape_value m s) = take (length (shape_value m s)) ys"
    using Resize_gives[OF objects_stored[OF ok s(1)] objects_memory[OF ok] s(2)] s(1) by auto
  from gives_objects[OF ok ys(2)] show ?thesis using Resize_to s(1) ys(1,3) by (fastforce simp: with_shape_def sizes_Some)
next
  case (Replace v n data)
  then obtain s where s: "vs v = Some s" "0 \<le> n" "n \<le> int (length data)" using al by (auto simp: sizes_None)
  have "gives m (vs v) (ReplaceWith n (Outside data) s m) (take (nat n) data)"
    using ReplaceWith_ok[OF objects_stored[OF ok s(1)] objects_memory[OF ok] s(2,3)] s(1) by (simp add: points_to_def)
  from gives_objects[OF ok this] show ?thesis using Replace s(1) by (simp add: with_shape_def)
next
  case (Replace_from v n w)
  then obtain s t where t: "vs v = Some s" "vs w = Some t" "v \<noteq> w" "0 \<le> n" "n \<le> int (length (shape_value m t))"
    using al by (auto simp: sizes_None sizes_Some split: option.splits)
  note st = objects_stored[OF ok t(2)]
  have "owns (vs w) \<inter> owns (vs v) = {}" using ok t(3) by (auto simp: objects_ok_def)
  then obtain p where p: "dims_address False t = Inr p" "points_to m s p (shape_array m t)" using other_address[OF st, of s] t(1,2) by auto
  have "gives m (vs v) (bind_res (dims_address (v = w) t) (\<lambda>p. ReplaceWith n p s m)) (take (nat n) (shape_value m t))"
    using ReplaceWith_ok[OF objects_stored[OF ok t(1)] objects_memory[OF ok] t(4) _ p(2)] take_value[OF st t(5)] t(1,3) p(1) by simp
  from gives_objects[OF ok this] show ?thesis using Replace_from t(1,2) by (auto simp: with_shape_def sizes_Some)
next
  case (Build v xs)
  then obtain s where s: "vs v = Some s" using al by (auto simp: sizes_None)
  have "gives m (vs v) (BuildFrom xs s m) xs" using BuildFrom_ok[OF objects_stored[OF ok s] objects_memory[OF ok]] s by simp
  from gives_objects[OF ok this] show ?thesis using Build s by (simp add: with_shape_def)
next
  case (Destroy v)
  then obtain s where s: "vs v = Some s" using al by (auto simp: sizes_None)
  obtain m1 where d: "RuntimeShape_destroy s m = Inr m1" "moves m (vs v) None m1" using destroy_ok[OF objects_stored[OF ok s] objects_memory[OF ok]] s by metis
  show ?thesis using moves_objects[OF ok d(2)] Destroy s d(1) by (simp add: with_shape_def)
qed

text \<open>The array of an object, where it has one.\<close>

definition array_of :: "(nat \<rightharpoonup> RuntimeShape) \<Rightarrow> nat \<Rightarrow> nat" where
  "array_of vs v = (case vs v of Some s \<Rightarrow> (case shape_dims s of Dims_pointer a \<Rightarrow> a | Dims_array ds \<Rightarrow> 0) | None \<Rightarrow> 0)"

lemma large_owns:
  assumes "objects_ok (m, vs)"
  shows "(\<exists>xs. sizes_of (m, vs) v = Some xs \<and> 5 < length xs) \<longleftrightarrow> owns (vs v) \<noteq> {}" "owns (vs v) \<noteq> {} \<Longrightarrow> owns (vs v) = {array_of vs v}"
proof -
  show "(\<exists>xs. sizes_of (m, vs) v = Some xs \<and> 5 < length xs) \<longleftrightarrow> owns (vs v) \<noteq> {}"
  proof (cases "vs v")
    case (Some s)
    note st = objects_stored[OF assms Some]
    have "5 < length (shape_value m s) \<longleftrightarrow> 5 < shape_size s" using value_length[OF st] by linarith
    then show ?thesis using st Some by (cases rule: stored_cases[OF st]) (auto simp: sizes_Some)
  qed (simp add: sizes_of_def)
  show "owns (vs v) = {array_of vs v}" if "owns (vs v) \<noteq> {}"
    using that by (auto simp: owns_def array_of_def)
qed

lemma arrays_owned:
  assumes ok: "objects_ok (m, vs)"
  shows "bij_betw (array_of vs) {v. \<exists>xs. sizes_of (m, vs) v = Some xs \<and> 5 < length xs} (dom (int_blocks m))"
  unfolding bij_betw_def large_owns(1)[OF ok]
proof
  have dis: "owns (vs u) \<inter> owns (vs w) = {}" if "u \<noteq> w" for u w using ok that by (simp add: objects_ok_def)
  show "inj_on (array_of vs) {v. owns (vs v) \<noteq> {}}"
  proof (rule inj_onI)
    fix u w assume "u \<in> {v. owns (vs v) \<noteq> {}}" "w \<in> {v. owns (vs v) \<noteq> {}}" and e: "array_of vs u = array_of vs w"
    then have "owns (vs u) = {array_of vs u}" "owns (vs w) = {array_of vs u}" using large_owns(2)[OF ok, of u] large_owns(2)[OF ok, of w] by simp_all
    then show "u = w" using dis[of u w] by auto
  qed
  show "array_of vs ` {v. owns (vs v) \<noteq> {}} = dom (int_blocks m)"
  proof (intro equalityI subsetI)
    fix a assume "a \<in> array_of vs ` {v. owns (vs v) \<noteq> {}}"
    then obtain v where v: "a \<in> owns (vs v)" using large_owns(2)[OF ok] by auto
    then obtain s where s: "vs v = Some s" by (auto simp: owns_def)
    have "int_blocks m a \<noteq> None" by (rule owned_live[OF objects_stored[OF ok s]]) (use v s in simp)
    then show "a \<in> dom (int_blocks m)" by auto
  next
    fix a assume "a \<in> dom (int_blocks m)"
    then obtain v where "a \<in> owns (vs v)" using ok by (auto simp: objects_ok_def)
    moreover from this have "owns (vs v) = {array_of vs v}" using large_owns(2)[OF ok, of v] by blast
    ultimately show "a \<in> array_of vs ` {v. owns (vs v) \<noteq> {}}" by auto
  qed
qed

interpretation rs: shapes_as_lists exec_op objects_ok sizes_of live_arrays
proof unfold_locales
  fix st :: shape_objects and op
  obtain m vs where st: "st = (m, vs)" by (cases st)
  show "\<exists>st'. exec_op op st = Inr st' \<and> objects_ok st' \<and> lists_after op (sizes_of st) (sizes_of st')" if "objects_ok st" "allowed op (sizes_of st)"
    using exec_op_refines that unfolding st by blast
  show "\<exists>f. bij_betw f {v. \<exists>xs. sizes_of st v = Some xs \<and> 5 < length xs} (live_arrays st)" if "objects_ok st"
    using arrays_owned that unfolding st by (auto simp: live_arrays_def)
qed

text \<open>Before any object exists; what unwritten memory holds is arbitrary.\<close>

definition no_objects :: "(nat \<Rightarrow> nat \<Rightarrow> int) \<Rightarrow> shape_objects" where
  "no_objects nz = (\<lparr>int_blocks = (\<lambda>a. None), int_top = 0, int_noise = nz\<rparr>, Map.empty)"

lemma no_objects_ok: "objects_ok (no_objects nz)" "sizes_of (no_objects nz) = Map.empty"
  by (auto simp: no_objects_def objects_ok_def mem_ok_def sizes_of_def)

lemma same_questions:
  assumes "objects_ok (m, vs)" "vs v = Some s" "vs w = Some t"
  shows "RuntimeShape_eq s t m = Inr (sizes_of (m, vs) v = sizes_of (m, vs) w)" "RuntimeShape_FlatSize s m = FlatSize (the (sizes_of (m, vs) v))"
  using shape_eq_value[OF objects_stored[OF assms(1,2)] objects_stored[OF assms(1,3)]] flat_size_value[OF objects_stored[OF assms(1,2)]] assms(2,3)
  by (simp_all add: sizes_of_def)

text \<open>The obligation not to replace an object by its own sizes is needed.\<close>

lemma own_sizes_fail:
  assumes "objects_ok (m, vs)" "sizes_of (m, vs) v = Some xs" "0 < n" "n \<le> int (length xs)"
  shows "exec_op (Replace_from v n v) (m, vs) = Inl (if 5 < length xs then InvalidAccess else Undefined)"
proof -
  obtain s where s: "vs v = Some s" "shape_value m s = xs" using assms(2) by (auto simp: sizes_Some)
  note st = objects_stored[OF assms(1) s(1)]
  have l: "shape_size s = int (length xs)" using value_length[OF st] s(2) by simp
  show ?thesis using ReplaceWith_own[OF st objects_memory[OF assms(1)] assms(3)] assms(4) s(1) l by (simp add: with_shape_def assign_def)
qed

section \<open>Claims\<close>

text \<open>
  C34: Shapes behave as the lists of their sizes. Whatever objects a program makes, copies, extends, changes and destroys in whatever order, as long as it uses
  objects that exist, indices in range, and does not replace an object by its own \<^verbatim>\<open>DimsData()\<close>, every operation succeeds and does what the operation on lists does; nothing is
  read or freed after it was freed; there is exactly one array on the heap for every object of more than five sizes, so none is left when all objects are destroyed;
  and equality and the flat size of objects are those of the lists. An object that is replaced by its own sizes always fails: more than five are
  read after they were freed, up to five are copied onto themselves, which \<^verbatim>\<open>memcpy\<close> leaves undefined.\<close>

theorem shapes_refine_lists:
  assumes "legal ops Map.empty"
  shows "\<exists>m vs. exec_all exec_op ops (no_objects nz) = Inr (m, vs) \<and> lists_run ops Map.empty (sizes_of (m, vs)) \<and>
    (\<exists>f. bij_betw f {v. \<exists>xs. sizes_of (m, vs) v = Some xs \<and> 5 < length xs} (live_arrays (m, vs))) \<and>
    (sizes_of (m, vs) = Map.empty \<longrightarrow> live_arrays (m, vs) = {}) \<and>
    (\<forall>v w s t. vs v = Some s \<and> vs w = Some t \<longrightarrow>
       RuntimeShape_eq s t m = Inr (sizes_of (m, vs) v = sizes_of (m, vs) w) \<and> RuntimeShape_FlatSize s m = FlatSize (the (sizes_of (m, vs) v))) \<and>
    (\<forall>v xs n. sizes_of (m, vs) v = Some xs \<and> 0 < n \<and> n \<le> int (length xs) \<longrightarrow>
       exec_op (Replace_from v n v) (m, vs) = Inl (if 5 < length xs then InvalidAccess else Undefined))"
proof -
  obtain m vs where r: "exec_all exec_op ops (no_objects nz) = Inr (m, vs)" "objects_ok (m, vs)" "lists_run ops Map.empty (sizes_of (m, vs))"
    using rs.run[OF no_objects_ok(1), of ops nz] assms by (auto simp: no_objects_ok(2))
  have "\<forall>v xs n. sizes_of (m, vs) v = Some xs \<and> 0 < n \<and> n \<le> int (length xs) \<longrightarrow>
      exec_op (Replace_from v n v) (m, vs) = Inl (if 5 < length xs then InvalidAccess else Undefined)" using own_sizes_fail[OF r(2)] by blast
  then show ?thesis using r rs.owned[OF r(2)] rs.all_freed[OF r(2)] same_questions[OF r(2)] by (intro exI[of _ m] exI[of _ vs]) blast
qed

text \<open>A shape of six sizes is copied, the copy resized and extended, and everything destroyed again.\<close>

definition sample_ops :: "shape_op list" where
  "sample_ops = [New_list 0 [2, 3, 1, 1, 4, 5], Copy_of 1 0, Set_dim 1 5 7, Replace 1 2 [8, 9, 10], Extended 2 6 1, Replace_from 1 6 0, Resize_to 1 3, Destroy 0, Destroy 1, Destroy 2]"

lemma sample_legal: "legal sample_ops Map.empty"
  by (auto simp: sample_ops_def)

theorem shapes_refine_lists_witness:
  "\<exists>m vs. exec_all exec_op sample_ops (no_objects (\<lambda>a i. 42)) = Inr (m, vs) \<and> lists_run sample_ops Map.empty (sizes_of (m, vs)) \<and> live_arrays (m, vs) = {}"
proof -
  obtain m vs where r: "exec_all exec_op sample_ops (no_objects (\<lambda>a i. 42)) = Inr (m, vs)" "lists_run sample_ops Map.empty (sizes_of (m, vs))"
      "sizes_of (m, vs) = Map.empty \<longrightarrow> live_arrays (m, vs) = {}"
    using shapes_refine_lists[OF sample_legal, of "\<lambda>a i. 42"] by blast
  have "sizes_of (m, vs) = Map.empty" using r(2) by (auto simp: sample_ops_def fun_eq_iff split: if_splits)
  then show ?thesis using r by blast
qed

end
