(* ===== verification/Flatbuffers.thy ===== *)
theory Flatbuffers
  imports Prelude
begin

text \<open>
  The reading side of the flatbuffers library (\<^verbatim>\<open>flatbuffers/base.h\<close>, \<^verbatim>\<open>flatbuffers/flatbuffers.h\<close>): scalars in a byte
  buffer, tables with their vtables, vectors and strings, and the class \<^verbatim>\<open>Verifier\<close> that decides whether an
  untrusted buffer may be read. A pointer into the buffer is its distance from the start of the buffer, an integer; reading
  outside the buffer is an error. A \<^verbatim>\<open>size_t\<close> has 64 bits.
\<close>

section \<open>Scalars\<close>

type_synonym bytes = "8 word list"

text \<open>The scalar types the schemas use; \<^verbatim>\<open>uoffset_t\<close>, \<^verbatim>\<open>soffset_t\<close> and \<^verbatim>\<open>voffset_t\<close> are three of them.\<close>

datatype scalar_type = I8 | U8 | I16 | U16 | I32 | U32 | I64 | U64 | F32 | F64

fun sizeof :: "scalar_type \<Rightarrow> nat" where
  "sizeof I8 = 1" | "sizeof U8 = 1" | "sizeof I16 = 2" | "sizeof U16 = 2" | "sizeof I32 = 4"
| "sizeof U32 = 4" | "sizeof I64 = 8" | "sizeof U64 = 8" | "sizeof F32 = 4" | "sizeof F64 = 8"

abbreviation uoffset_t :: scalar_type where "uoffset_t \<equiv> U32"
abbreviation soffset_t :: scalar_type where "soffset_t \<equiv> I32"
abbreviation voffset_t :: scalar_type where "voffset_t \<equiv> U16"

fun is_signed :: "scalar_type \<Rightarrow> bool" where
  "is_signed I8 = True" | "is_signed I16 = True" | "is_signed I32 = True" | "is_signed I64 = True" | "is_signed _ = False"

primrec le_value :: "bytes \<Rightarrow> int" where
  "le_value [] = 0"
| "le_value (b # bs) = uint b + 256 * le_value bs"

text \<open>\<^verbatim>\<open>ReadScalar<T>(p)\<close> on a little-endian machine. A floating-point number is its bit pattern.\<close>

definition ReadScalar :: "scalar_type \<Rightarrow> bytes \<Rightarrow> int \<Rightarrow> int res" where
  "ReadScalar ty b p =
     (if 0 \<le> p \<and> p + int (sizeof ty) \<le> int (length b) then
        let u = le_value (take (sizeof ty) (drop (nat p) b)) in
        Inr (if is_signed ty then signed_take_bit (8 * sizeof ty - 1) u else u)
      else Inl OutOfBounds)"

section \<open>Tables, vectors and strings\<close>

definition GetVTable :: "bytes \<Rightarrow> int \<Rightarrow> int res" where
  "GetVTable b data = bind_res (ReadScalar soffset_t b data) (\<lambda>s. Inr (data - s))"

definition GetOptionalFieldOffset :: "bytes \<Rightarrow> int \<Rightarrow> int \<Rightarrow> int res" where
  "GetOptionalFieldOffset b data field =
     bind_res (GetVTable b data) (\<lambda>vtable.
     bind_res (ReadScalar voffset_t b vtable) (\<lambda>vtsize.
       if field < vtsize then ReadScalar voffset_t b (vtable + field) else Inr 0))"

definition Table_GetField :: "scalar_type \<Rightarrow> bytes \<Rightarrow> int \<Rightarrow> int \<Rightarrow> int \<Rightarrow> int res" where
  "Table_GetField ty b data field defaultval =
     bind_res (GetOptionalFieldOffset b data field) (\<lambda>field_offset.
       if field_offset \<noteq> 0 then ReadScalar ty b (data + field_offset) else Inr defaultval)"

text \<open>A null pointer is \<open>None\<close>.\<close>

definition Table_GetPointer :: "bytes \<Rightarrow> int \<Rightarrow> int \<Rightarrow> int option res" where
  "Table_GetPointer b data field =
     bind_res (GetOptionalFieldOffset b data field) (\<lambda>field_offset.
       let p = data + field_offset in
       if field_offset \<noteq> 0 then bind_res (ReadScalar uoffset_t b p) (\<lambda>o1. Inr (Some (p + o1))) else Inr None)"

definition Table_GetStruct :: "bytes \<Rightarrow> int \<Rightarrow> int \<Rightarrow> int option res" where
  "Table_GetStruct b data field =
     bind_res (GetOptionalFieldOffset b data field) (\<lambda>field_offset.
       Inr (if field_offset \<noteq> 0 then Some (data + field_offset) else None))"

definition Table_GetOptional :: "scalar_type \<Rightarrow> bytes \<Rightarrow> int \<Rightarrow> int \<Rightarrow> int option res" where
  "Table_GetOptional ty b data field =
     bind_res (GetOptionalFieldOffset b data field) (\<lambda>field_offset.
       if field_offset \<noteq> 0 then bind_res (ReadScalar ty b (data + field_offset)) (\<lambda>x. Inr (Some x)) else Inr None)"

definition Table_CheckField :: "bytes \<Rightarrow> int \<Rightarrow> int \<Rightarrow> bool res" where
  "Table_CheckField b data field = bind_res (GetOptionalFieldOffset b data field) (\<lambda>o1. Inr (o1 \<noteq> 0))"

text \<open>\<^verbatim>\<open>Vector<T>::size\<close>, and \<^verbatim>\<open>Get\<close> for scalars and for offsets.\<close>

definition Vector_size :: "bytes \<Rightarrow> int \<Rightarrow> int res" where
  "Vector_size b vec = ReadScalar uoffset_t b vec"

definition Vector_Get :: "scalar_type \<Rightarrow> bytes \<Rightarrow> int \<Rightarrow> nat \<Rightarrow> int res" where
  "Vector_Get ty b vec i = ReadScalar ty b (vec + 4 + int i * int (sizeof ty))"

definition Vector_GetOffset :: "bytes \<Rightarrow> int \<Rightarrow> nat \<Rightarrow> int res" where
  "Vector_GetOffset b vec i =
     (let p = vec + 4 + int i * 4 in bind_res (ReadScalar uoffset_t b p) (\<lambda>o1. Inr (p + o1)))"

text \<open>\<^verbatim>\<open>GetRoot\<close>.\<close>

definition GetRoot :: "bytes \<Rightarrow> int \<Rightarrow> int res" where
  "GetRoot b buf = bind_res (ReadScalar uoffset_t b buf) (\<lambda>o1. Inr (buf + o1))"

section \<open>The verifier\<close>

text \<open>
  The members of \<^verbatim>\<open>Verifier\<close>; \<^verbatim>\<open>size_\<close> is the length of the buffer, and \<^verbatim>\<open>upper_bound_\<close> is only used when the size is
  tracked, which the build does not do.
\<close>

record verifier =
  vf_buf :: bytes
  vf_depth :: int
  vf_max_depth :: int
  vf_num_tables :: int
  vf_max_tables :: int
  vf_check_alignment :: bool

definition Verifier_new :: "bytes \<Rightarrow> int \<Rightarrow> int \<Rightarrow> bool \<Rightarrow> verifier" where
  "Verifier_new b max_depth max_tables check_alignment =
     \<lparr>vf_buf = b, vf_depth = 0, vf_max_depth = max_depth, vf_num_tables = 0, vf_max_tables = max_tables,
      vf_check_alignment = check_alignment\<rparr>"

abbreviation vf_size :: "verifier \<Rightarrow> int" where "vf_size v \<equiv> int (length (vf_buf v))"

definition Verify_range :: "verifier \<Rightarrow> int \<Rightarrow> int \<Rightarrow> bool" where
  "Verify_range v elem elem_len \<longleftrightarrow> elem_len < vf_size v \<and> elem \<le> vf_size v - elem_len"

definition VerifyAlignment :: "verifier \<Rightarrow> scalar_type \<Rightarrow> int \<Rightarrow> bool" where
  "VerifyAlignment v ty elem \<longleftrightarrow> and elem (int (sizeof ty) - 1) = 0 \<or> \<not> vf_check_alignment v"

definition Verify_scalar :: "verifier \<Rightarrow> scalar_type \<Rightarrow> int \<Rightarrow> bool" where
  "Verify_scalar v ty elem \<longleftrightarrow> VerifyAlignment v ty elem \<and> Verify_range v elem (int (sizeof ty))"

definition Verify_base :: "verifier \<Rightarrow> scalar_type \<Rightarrow> int \<Rightarrow> int \<Rightarrow> bool" where
  "Verify_base v ty base elem_off \<longleftrightarrow> Verify_range v (to_size_t (to_size_t base + elem_off)) (int (sizeof ty))"

definition FLATBUFFERS_MAX_BUFFER_SIZE :: int where
  "FLATBUFFERS_MAX_BUFFER_SIZE = 2 ^ 31 - 1"

text \<open>The result and \<^verbatim>\<open>*end\<close>, which is only used when the result is true.\<close>

definition VerifyVectorOrString :: "verifier \<Rightarrow> int \<Rightarrow> int \<Rightarrow> (bool \<times> int) res" where
  "VerifyVectorOrString v vec elem_size =
     (let veco = to_size_t vec in
      if \<not> Verify_scalar v uoffset_t veco then Inr (False, 0)
      else bind_res (ReadScalar uoffset_t (vf_buf v) vec) (\<lambda>sz.
        let max_elems = FLATBUFFERS_MAX_BUFFER_SIZE div elem_size in
        if \<not> sz < max_elems then Inr (False, 0)
        else let byte_size = to_size_t (4 + elem_size * sz) in
             Inr (Verify_range v veco byte_size, to_size_t (veco + byte_size))))"

definition VerifyVector :: "verifier \<Rightarrow> scalar_type \<Rightarrow> int option \<Rightarrow> bool res" where
  "VerifyVector v ty vec = (case vec of None \<Rightarrow> Inr True
     | Some p \<Rightarrow> bind_res (VerifyVectorOrString v p (int (sizeof ty))) (\<lambda>(ok, _). Inr ok))"

definition VerifyString :: "verifier \<Rightarrow> int option \<Rightarrow> bool res" where
  "VerifyString v str = (case str of None \<Rightarrow> Inr True
     | Some p \<Rightarrow> bind_res (VerifyVectorOrString v p 1) (\<lambda>(ok, fin).
         if ok \<and> Verify_range v fin 1 then bind_res (vec_at (vf_buf v) fin) (\<lambda>c. Inr (c = 0)) else Inr False))"

definition VerifyOffset :: "verifier \<Rightarrow> int \<Rightarrow> int res" where
  "VerifyOffset v start =
     (if \<not> Verify_scalar v uoffset_t start then Inr 0
      else bind_res (ReadScalar uoffset_t (vf_buf v) start) (\<lambda>o1.
        if o1 = 0 then Inr 0
        else if \<not> to_int o1 \<ge> 0 then Inr 0
        else if \<not> Verify_range v (to_size_t (start + o1)) 1 then Inr 0
        else Inr o1))"

text \<open>A method that updates the counters returns the verifier.\<close>

definition VerifyComplexity :: "verifier \<Rightarrow> bool \<times> verifier" where
  "VerifyComplexity v =
     (let v' = v\<lparr>vf_depth := (vf_depth v + 1) mod 2 ^ 32, vf_num_tables := (vf_num_tables v + 1) mod 2 ^ 32\<rparr> in
      (vf_depth v' \<le> vf_max_depth v' \<and> vf_num_tables v' \<le> vf_max_tables v', v'))"

definition EndTable :: "verifier \<Rightarrow> bool \<times> verifier" where
  "EndTable v = (True, v\<lparr>vf_depth := (vf_depth v - 1) mod 2 ^ 32\<rparr>)"

definition VerifyTableStart :: "int \<Rightarrow> verifier \<Rightarrow> (bool \<times> verifier) res" where
  "VerifyTableStart table v =
     (let tableo = to_size_t table in
      if \<not> Verify_scalar v soffset_t tableo then Inr (False, v)
      else bind_res (ReadScalar soffset_t (vf_buf v) table) (\<lambda>s.
        let vtableo = to_size_t (tableo - to_size_t s); (simple, v1) = VerifyComplexity v in
        if \<not> (simple \<and> Verify_scalar v1 voffset_t vtableo) then Inr (False, v1)
        else bind_res (ReadScalar voffset_t (vf_buf v1) vtableo) (\<lambda>vtsize.
          Inr (VerifyAlignment v1 voffset_t vtsize \<and> Verify_range v1 vtableo vtsize, v1))))"

text \<open>The methods of \<^verbatim>\<open>Table\<close> that take a verifier.\<close>

definition Table_VerifyField :: "scalar_type \<Rightarrow> int \<Rightarrow> int \<Rightarrow> verifier \<Rightarrow> bool res" where
  "Table_VerifyField ty data field v =
     bind_res (GetOptionalFieldOffset (vf_buf v) data field) (\<lambda>field_offset.
       Inr (field_offset = 0 \<or> Verify_base v ty data field_offset))"

definition Table_VerifyFieldRequired :: "scalar_type \<Rightarrow> int \<Rightarrow> int \<Rightarrow> verifier \<Rightarrow> bool res" where
  "Table_VerifyFieldRequired ty data field v =
     bind_res (GetOptionalFieldOffset (vf_buf v) data field) (\<lambda>field_offset.
       Inr (field_offset \<noteq> 0 \<and> Verify_base v ty data field_offset))"

definition Table_VerifyOffset :: "int \<Rightarrow> int \<Rightarrow> verifier \<Rightarrow> bool res" where
  "Table_VerifyOffset data field v =
     bind_res (GetOptionalFieldOffset (vf_buf v) data field) (\<lambda>field_offset.
       if field_offset = 0 then Inr True
       else bind_res (VerifyOffset v (to_size_t (to_size_t data + field_offset))) (\<lambda>o1. Inr (o1 \<noteq> 0)))"

definition Table_VerifyOffsetRequired :: "int \<Rightarrow> int \<Rightarrow> verifier \<Rightarrow> bool res" where
  "Table_VerifyOffsetRequired data field v =
     bind_res (GetOptionalFieldOffset (vf_buf v) data field) (\<lambda>field_offset.
       if field_offset = 0 then Inr False
       else bind_res (VerifyOffset v (to_size_t (to_size_t data + field_offset))) (\<lambda>o1. Inr (o1 \<noteq> 0)))"

text \<open>
  The loop of \<^verbatim>\<open>VerifyVectorOfTables\<close>: \<open>i\<close> is the index, \<open>n\<close> the number of elements left, \<open>tab\<close> the method \<^verbatim>\<open>Verify\<close> of the
  element type.
\<close>

fun tables_loop :: "(int \<Rightarrow> verifier \<Rightarrow> (bool \<times> verifier) res) \<Rightarrow> int \<Rightarrow> nat \<Rightarrow> nat \<Rightarrow> verifier \<Rightarrow> (bool \<times> verifier) res" where
  "tables_loop tab vec i 0 v = Inr (True, v)"
| "tables_loop tab vec i (Suc n) v =
     bind_res (Vector_GetOffset (vf_buf v) vec i) (\<lambda>p. bind_res (tab p v) (\<lambda>(ok, v1).
       if ok then tables_loop tab vec (Suc i) n v1 else Inr (False, v1)))"

definition VerifyVectorOfTables :: "(int \<Rightarrow> verifier \<Rightarrow> (bool \<times> verifier) res) \<Rightarrow> int option \<Rightarrow> verifier \<Rightarrow> (bool \<times> verifier) res" where
  "VerifyVectorOfTables tab vec v = (case vec of None \<Rightarrow> Inr (True, v)
     | Some p \<Rightarrow> bind_res (Vector_size (vf_buf v) p) (\<lambda>n. tables_loop tab p 0 (nat n) v))"

fun strings_loop :: "verifier \<Rightarrow> int \<Rightarrow> nat \<Rightarrow> nat \<Rightarrow> bool res" where
  "strings_loop v vec i 0 = Inr True"
| "strings_loop v vec i (Suc n) =
     bind_res (Vector_GetOffset (vf_buf v) vec i) (\<lambda>p. bind_res (VerifyString v (Some p)) (\<lambda>ok.
       if ok then strings_loop v vec (Suc i) n else Inr False))"

definition VerifyVectorOfStrings :: "verifier \<Rightarrow> int option \<Rightarrow> bool res" where
  "VerifyVectorOfStrings v vec = (case vec of None \<Rightarrow> Inr True
     | Some p \<Rightarrow> bind_res (Vector_size (vf_buf v) p) (\<lambda>n. strings_loop v p 0 (nat n)))"

definition VerifyTable :: "(int \<Rightarrow> verifier \<Rightarrow> (bool \<times> verifier) res) \<Rightarrow> int option \<Rightarrow> verifier \<Rightarrow> (bool \<times> verifier) res" where
  "VerifyTable tab p v = (case p of None \<Rightarrow> Inr (True, v) | Some t \<Rightarrow> tab t v)"

text \<open>\<^verbatim>\<open>strncmp(p, identifier, n) == 0\<close> for an identifier without a zero byte: the comparison ends at the first difference.\<close>

fun same_bytes :: "bytes \<Rightarrow> int \<Rightarrow> bytes \<Rightarrow> bool res" where
  "same_bytes b p [] = Inr True"
| "same_bytes b p (c # cs) = bind_res (vec_at b p) (\<lambda>x. if x = c then same_bytes b (p + 1) cs else Inr False)"

definition BufferHasIdentifier :: "bytes \<Rightarrow> int \<Rightarrow> bytes \<Rightarrow> bool \<Rightarrow> bool res" where
  "BufferHasIdentifier b buf identifier size_prefixed =
     same_bytes b (buf + (if size_prefixed then 8 else 4)) (take 4 identifier)"

definition VerifyBufferFromStart :: "(int \<Rightarrow> verifier \<Rightarrow> (bool \<times> verifier) res) \<Rightarrow> bytes option \<Rightarrow> int \<Rightarrow> verifier \<Rightarrow> (bool \<times> verifier) res" where
  "VerifyBufferFromStart tab identifier start v =
     bind_res (case identifier of None \<Rightarrow> Inr True
       | Some ident \<Rightarrow> if vf_size v \<ge> 8 then BufferHasIdentifier (vf_buf v) start ident False else Inr False) (\<lambda>named.
       if \<not> named then Inr (False, v)
       else bind_res (VerifyOffset v start) (\<lambda>o1. if o1 = 0 then Inr (False, v) else tab (start + o1) v))"

definition VerifyBuffer :: "(int \<Rightarrow> verifier \<Rightarrow> (bool \<times> verifier) res) \<Rightarrow> bytes option \<Rightarrow> verifier \<Rightarrow> (bool \<times> verifier) res" where
  "VerifyBuffer tab identifier v = VerifyBufferFromStart tab identifier 0 v"

definition VerifySizePrefixedBuffer :: "(int \<Rightarrow> verifier \<Rightarrow> (bool \<times> verifier) res) \<Rightarrow> bytes option \<Rightarrow> verifier \<Rightarrow> (bool \<times> verifier) res" where
  "VerifySizePrefixedBuffer tab identifier v =
     (if \<not> Verify_scalar v uoffset_t 0 then Inr (False, v)
      else bind_res (ReadScalar uoffset_t (vf_buf v) 0) (\<lambda>n.
        if n = vf_size v - 4 then VerifyBufferFromStart tab identifier 4 v else Inr (False, v)))"

section \<open>Reads in bounds\<close>

lemma sizeof_pos [simp]: "0 < sizeof ty" "1 \<le> sizeof ty"
  by (cases ty; simp)+

lemma le_value_bounds: "0 \<le> le_value bs \<and> le_value bs < 256 ^ length bs"
proof (induction bs)
  case (Cons b bs)
  have "0 \<le> uint b" "uint b < 256" using uint_lt2p[of b] by simp_all
  then show ?case using Cons.IH by (simp add: algebra_simps)
qed simp

text \<open>A read in bounds succeeds, and its value is in the range of the type.\<close>

lemma ReadScalar_ok:
  assumes "0 \<le> p" "p + int (sizeof ty) \<le> int (length b)"
  obtains x where "ReadScalar ty b p = Inr x"
  using assms by (simp add: ReadScalar_def Let_def)

lemma ReadScalar_bounds:
  assumes "ReadScalar ty b p = Inr x"
  shows "0 \<le> p" "p + int (sizeof ty) \<le> int (length b)" "\<not> is_signed ty \<Longrightarrow> 0 \<le> x \<and> x < 256 ^ sizeof ty"
    "is_signed ty \<Longrightarrow> - (2 ^ (8 * sizeof ty - 1)) \<le> x \<and> x < 2 ^ (8 * sizeof ty - 1)"
proof -
  let ?u = "le_value (take (sizeof ty) (drop (nat p) b))"
  show r: "0 \<le> p" "p + int (sizeof ty) \<le> int (length b)" using assms by (auto simp: ReadScalar_def Let_def split: if_splits)
  then have "length (take (sizeof ty) (drop (nat p) b)) = sizeof ty" by simp
  then show "\<not> is_signed ty \<Longrightarrow> 0 \<le> x \<and> x < 256 ^ sizeof ty"
    using assms r le_value_bounds[of "take (sizeof ty) (drop (nat p) b)"] by (simp add: ReadScalar_def Let_def)
  show "is_signed ty \<Longrightarrow> - (2 ^ (8 * sizeof ty - 1)) \<le> x \<and> x < 2 ^ (8 * sizeof ty - 1)"
    using assms r signed_take_bit_int_greater_eq_minus_exp[of "8 * sizeof ty - 1" ?u] signed_take_bit_int_less_exp[of "8 * sizeof ty - 1" ?u]
    by (auto simp: ReadScalar_def Let_def)
qed

end
