(* ===== verification/Vector_Downward.thy ===== *)
theory Vector_Downward
  imports Flatbuffers
begin

text \<open>
  The buffer of the flatbuffer builder (\<^verbatim>\<open>flatbuffers/flatbuffers.h\<close>, class \<^verbatim>\<open>vector_downward\<close>): one block of memory whose
  end holds the data, growing downwards, and whose start holds a scratch area, growing upwards. When the two
  would meet, the block is replaced by a larger one. The block is a list of bytes and the pointers into it are
  distances from its start; writing outside the block is an error. No wrap-around of \<^verbatim>\<open>size_t\<close> is written out for the size of
  the block, since a block of \<open>2 ^ 63\<close> bytes cannot be allocated.
\<close>

section \<open>Bytes\<close>

primrec le_bytes :: "nat \<Rightarrow> int \<Rightarrow> bytes" where
  "le_bytes 0 x = []"
| "le_bytes (Suc n) x = word_of_int x # le_bytes n (x div 256)"

text \<open>Copying from and to a block.\<close>

definition peek :: "bytes \<Rightarrow> int \<Rightarrow> int \<Rightarrow> bytes res" where
  "peek m p n = (if 0 \<le> p \<and> 0 \<le> n \<and> p + n \<le> int (length m) then Inr (take (nat n) (drop (nat p) m)) else Inl OutOfBounds)"

definition poke :: "bytes \<Rightarrow> int \<Rightarrow> bytes \<Rightarrow> bytes res" where
  "poke m p bs = (if 0 \<le> p \<and> p + int (length bs) \<le> int (length m)
     then Inr (take (nat p) m @ bs @ drop (nat p + length bs) m) else Inl OutOfBounds)"

definition WriteScalar :: "scalar_type \<Rightarrow> bytes \<Rightarrow> int \<Rightarrow> int \<Rightarrow> bytes res" where
  "WriteScalar ty m p x = poke m p (le_bytes (sizeof ty) x)"

text \<open>\<^verbatim>\<open>FLATBUFFERS_ASSERT\<close> is \<^verbatim>\<open>assert\<close>: the process aborts.\<close>

definition FLATBUFFERS_ASSERT :: "bool \<Rightarrow> unit res" where
  "FLATBUFFERS_ASSERT c = (if c then Inr () else Inl (ProcessExit 134))"

section \<open>The class\<close>

text \<open>
  The allocator is a function: \<open>vd_allocate v k n\<close> is the contents of the \<open>k\<close>th block it hands out, when \<open>n\<close> bytes are asked for, and
  \<open>None\<close> when it throws. \<open>vd_blocks\<close> counts the blocks. A null \<^verbatim>\<open>buf_\<close> is \<open>None\<close>; \<open>vd_cur\<close> and \<open>vd_scratch\<close> are relative to it.
\<close>

record vector_downward =
  vd_allocate :: "nat \<Rightarrow> int \<Rightarrow> bytes option"
  vd_blocks :: nat
  vd_initial_size :: int
  vd_buffer_minalign :: int
  vd_reserved :: int
  vd_buf :: "bytes option"
  vd_cur :: int
  vd_scratch :: int

definition vector_downward_new :: "(nat \<Rightarrow> int \<Rightarrow> bytes option) \<Rightarrow> int \<Rightarrow> int \<Rightarrow> vector_downward" where
  "vector_downward_new allocate initial_size buffer_minalign =
     \<lparr>vd_allocate = allocate, vd_blocks = 0, vd_initial_size = initial_size, vd_buffer_minalign = buffer_minalign,
      vd_reserved = 0, vd_buf = None, vd_cur = 0, vd_scratch = 0\<rparr>"

definition vd_clear_scratch :: "vector_downward \<Rightarrow> vector_downward" where
  "vd_clear_scratch v = v\<lparr>vd_scratch := 0\<rparr>"

definition vd_clear :: "vector_downward \<Rightarrow> vector_downward" where
  "vd_clear v = vd_clear_scratch (case vd_buf v of Some m \<Rightarrow> v\<lparr>vd_cur := vd_reserved v\<rparr> | None \<Rightarrow> v\<lparr>vd_reserved := 0, vd_cur := 0\<rparr>)"

text \<open>\<^verbatim>\<open>release\<close>: the block goes to the caller with the data that is in use.\<close>

definition vd_release :: "vector_downward \<Rightarrow> bytes \<times> vector_downward" where
  "vd_release v = ((case vd_buf v of None \<Rightarrow> [] | Some m \<Rightarrow> drop (nat (vd_cur v)) m), vd_clear (v\<lparr>vd_buf := None\<rparr>))"

definition vd_size :: "vector_downward \<Rightarrow> int" where
  "vd_size v = (vd_reserved v - vd_cur v) mod 2 ^ 32"

definition vd_scratch_size :: "vector_downward \<Rightarrow> int" where
  "vd_scratch_size v = vd_scratch v mod 2 ^ 32"

definition Allocate :: "int \<Rightarrow> vector_downward \<Rightarrow> (bytes \<times> vector_downward) res" where
  "Allocate n v = (case vd_allocate v (vd_blocks v) n of None \<Rightarrow> Inl (ProcessExit 134)
     | Some m \<Rightarrow> Inr (m, v\<lparr>vd_blocks := vd_blocks v + 1\<rparr>))"

definition memcpy_downward :: "bytes \<Rightarrow> int \<Rightarrow> bytes \<Rightarrow> int \<Rightarrow> int \<Rightarrow> int \<Rightarrow> bytes res" where
  "memcpy_downward old_p old_size new_p new_size in_use_back in_use_front =
     bind_res (peek old_p (old_size - in_use_back) in_use_back) (\<lambda>xs.
     bind_res (poke new_p (new_size - in_use_back) xs) (\<lambda>m.
     bind_res (peek old_p 0 in_use_front) (\<lambda>ys. poke m 0 ys)))"

definition ReallocateDownward :: "bytes \<Rightarrow> int \<Rightarrow> int \<Rightarrow> int \<Rightarrow> int \<Rightarrow> vector_downward \<Rightarrow> (bytes \<times> vector_downward) res" where
  "ReallocateDownward old_p old_size new_size in_use_back in_use_front v =
     bind_res (FLATBUFFERS_ASSERT (new_size > old_size)) (\<lambda>_.
     bind_res (Allocate new_size v) (\<lambda>(new_p, v1).
     bind_res (memcpy_downward old_p old_size new_p new_size in_use_back in_use_front) (\<lambda>m. Inr (m, v1))))"

definition vd_reallocate :: "int \<Rightarrow> vector_downward \<Rightarrow> vector_downward res" where
  "vd_reallocate len v =
     (let old_reserved = vd_reserved v; old_size = vd_size v; old_scratch_size = vd_scratch_size v;
          grown = old_reserved + max len (if old_reserved \<noteq> 0 then old_reserved div 2 else vd_initial_size v);
          reserved = and (grown + vd_buffer_minalign v - 1) (not (vd_buffer_minalign v - 1)) in
      bind_res (case vd_buf v of
          Some m \<Rightarrow> ReallocateDownward m old_reserved reserved old_size old_scratch_size v
        | None \<Rightarrow> Allocate reserved v) (\<lambda>(m, v1).
      Inr (v1\<lparr>vd_reserved := reserved, vd_buf := Some m, vd_cur := reserved - old_size, vd_scratch := old_scratch_size\<rparr>)))"

definition vd_ensure_space :: "int \<Rightarrow> vector_downward \<Rightarrow> vector_downward res" where
  "vd_ensure_space len v =
     bind_res (FLATBUFFERS_ASSERT (vd_cur v \<ge> vd_scratch v \<and> vd_scratch v \<ge> 0)) (\<lambda>_.
     bind_res (if len > vd_cur v - vd_scratch v then vd_reallocate len v else Inr v) (\<lambda>v1.
     bind_res (FLATBUFFERS_ASSERT (vd_size v1 < FLATBUFFERS_MAX_BUFFER_SIZE)) (\<lambda>_. Inr v1)))"

definition vd_make_space :: "int \<Rightarrow> vector_downward \<Rightarrow> vector_downward res" where
  "vd_make_space len v = bind_res (vd_ensure_space len v) (\<lambda>v1. Inr (v1\<lparr>vd_cur := vd_cur v1 - len\<rparr>))"

text \<open>Writing bytes at a place of the block.\<close>

definition vd_store :: "int \<Rightarrow> bytes \<Rightarrow> vector_downward \<Rightarrow> vector_downward res" where
  "vd_store p bs v = (if bs = [] then Inr v else (case vd_buf v of None \<Rightarrow> Inl NullDeref
     | Some m \<Rightarrow> bind_res (poke m p bs) (\<lambda>m1. Inr (v\<lparr>vd_buf := Some m1\<rparr>))))"

definition vd_push :: "bytes \<Rightarrow> vector_downward \<Rightarrow> vector_downward res" where
  "vd_push bs v = (if length bs > 0 then bind_res (vd_make_space (int (length bs)) v) (\<lambda>v1. vd_store (vd_cur v1) bs v1) else Inr v)"

definition vd_push_small :: "bytes \<Rightarrow> vector_downward \<Rightarrow> vector_downward res" where
  "vd_push_small bs v = bind_res (vd_make_space (int (length bs)) v) (\<lambda>v1. vd_store (vd_cur v1) bs v1)"

definition vd_scratch_push_small :: "bytes \<Rightarrow> vector_downward \<Rightarrow> vector_downward res" where
  "vd_scratch_push_small bs v = bind_res (vd_ensure_space (int (length bs)) v) (\<lambda>v1.
     bind_res (vd_store (vd_scratch v1) bs v1) (\<lambda>v2. Inr (v2\<lparr>vd_scratch := vd_scratch v2 + int (length bs)\<rparr>)))"

text \<open>The loop of \<^verbatim>\<open>fill\<close> and the \<^verbatim>\<open>memset\<close> of \<^verbatim>\<open>fill_big\<close> write the same bytes.\<close>

definition vd_fill :: "int \<Rightarrow> vector_downward \<Rightarrow> vector_downward res" where
  "vd_fill n v = bind_res (vd_make_space n v) (\<lambda>v1. vd_store (vd_cur v1) (replicate (nat n) 0) v1)"

definition vd_pop :: "int \<Rightarrow> vector_downward \<Rightarrow> vector_downward" where
  "vd_pop n v = v\<lparr>vd_cur := vd_cur v + n\<rparr>"

definition vd_scratch_pop :: "int \<Rightarrow> vector_downward \<Rightarrow> vector_downward" where
  "vd_scratch_pop n v = v\<lparr>vd_scratch := vd_scratch v - n\<rparr>"

text \<open>\<^verbatim>\<open>data_at(offset)\<close>: an offset counts from the end of the block.\<close>

definition vd_data_at :: "vector_downward \<Rightarrow> int \<Rightarrow> int" where
  "vd_data_at v off = vd_reserved v - off"

section \<open>Bytes that were written\<close>

lemma length_le_bytes [simp]: "length (le_bytes n x) = n"
  by (induction n arbitrary: x) simp_all

lemma le_value_bytes: "le_value (le_bytes n x) = x mod 256 ^ n"
proof (induction n arbitrary: x)
  case (Suc n)
  have "uint (word_of_int x :: 8 word) = x mod 256" by (simp add: uint_word_of_int)
  moreover have "x mod 256 + 256 * (x div 256 mod 256 ^ n) = x mod (256 * 256 ^ n)" by (simp add: zmod_zmult2_eq)
  ultimately show ?case using Suc.IH[of "x div 256"] by simp
qed simp

definition in_range :: "scalar_type \<Rightarrow> int \<Rightarrow> bool" where
  "in_range ty x \<longleftrightarrow> (if is_signed ty then - (2 ^ (8 * sizeof ty - 1)) \<le> x \<and> x < 2 ^ (8 * sizeof ty - 1)
     else 0 \<le> x \<and> x < 2 ^ (8 * sizeof ty))"

text \<open>A scalar that was written is read again.\<close>

lemma ReadScalar_written:
  assumes "in_range ty x" "0 \<le> p" "int (length b) = p + int (length rest) + int (sizeof ty)" "drop (nat p) b = le_bytes (sizeof ty) x @ rest"
  shows "ReadScalar ty b p = Inr x"
proof -
  have p: "256 ^ sizeof ty = (2 ^ (8 * sizeof ty) :: int)" using power_mult[of "2 :: int" 8 "sizeof ty"] by simp
  have s: "\<not> 8 * sizeof ty \<le> 8 * sizeof ty - 1" using sizeof_pos(1)[of ty] by linarith
  have "signed_take_bit (8 * sizeof ty - 1) (x mod 2 ^ (8 * sizeof ty)) = x" if "is_signed ty"
  proof -
    have "signed_take_bit (8 * sizeof ty - 1) (take_bit (8 * sizeof ty) x) = signed_take_bit (8 * sizeof ty - 1) x"
      using s by (simp add: signed_take_bit_take_bit)
    moreover have "signed_take_bit (8 * sizeof ty - 1) x = x" using assms(1) that by (simp add: in_range_def signed_take_bit_int_eq_self)
    ultimately show ?thesis by (simp add: take_bit_eq_mod)
  qed
  moreover have "x mod 2 ^ (8 * sizeof ty) = x" if "\<not> is_signed ty" using assms(1) that by (simp add: in_range_def)
  moreover have "le_value (take (sizeof ty) (drop (nat p) b)) = x mod 2 ^ (8 * sizeof ty)"
    unfolding assms(4) by (simp add: le_value_bytes p)
  moreover have "0 \<le> p \<and> p + int (sizeof ty) \<le> int (length b)" using assms(2,3) by simp
  ultimately show ?thesis unfolding ReadScalar_def Let_def by presburger
qed

section \<open>What the block stands for\<close>

text \<open>The data in use at the end, and the scratch area at the start.\<close>

definition vd_used :: "vector_downward \<Rightarrow> bytes" where
  "vd_used v = (case vd_buf v of None \<Rightarrow> [] | Some m \<Rightarrow> drop (nat (vd_cur v)) m)"

definition vd_scr :: "vector_downward \<Rightarrow> bytes" where
  "vd_scr v = (case vd_buf v of None \<Rightarrow> [] | Some m \<Rightarrow> take (nat (vd_scratch v)) m)"

definition allocator_ok :: "(nat \<Rightarrow> int \<Rightarrow> bytes option) \<Rightarrow> bool" where
  "allocator_ok allocate \<longleftrightarrow> (\<forall>k n. 0 \<le> n \<longrightarrow> (\<exists>m. allocate k n = Some m \<and> int (length m) = n))"

definition vd_ok :: "vector_downward \<Rightarrow> bool" where
  "vd_ok v \<longleftrightarrow> allocator_ok (vd_allocate v) \<and> (\<exists>k. vd_buffer_minalign v = 2 ^ k) \<and> 0 \<le> vd_initial_size v \<and>
     (case vd_buf v of None \<Rightarrow> vd_reserved v = 0 \<and> vd_cur v = 0 \<and> vd_scratch v = 0
      | Some m \<Rightarrow> int (length m) = vd_reserved v \<and> 0 \<le> vd_scratch v \<and> vd_scratch v \<le> vd_cur v \<and> vd_cur v \<le> vd_reserved v)"

lemma new_ok:
  assumes "allocator_ok a" "0 \<le> n"
  shows "vd_ok (vector_downward_new a n (2 ^ k))" "vd_used (vector_downward_new a n k') = []" "vd_scr (vector_downward_new a n k') = []"
  using assms by (auto simp: vd_ok_def vector_downward_new_def vd_used_def vd_scr_def)

lemma vd_lengths:
  assumes "vd_ok v"
  shows "int (length (vd_used v)) = vd_reserved v - vd_cur v" "int (length (vd_scr v)) = vd_scratch v" "0 \<le> vd_scratch v" "vd_scratch v \<le> vd_cur v"
  using assms by (auto simp: vd_ok_def vd_used_def vd_scr_def split: option.splits)

lemma vd_size_used: "vd_ok v \<Longrightarrow> int (length (vd_used v)) < 2 ^ 32 \<Longrightarrow> vd_size v = int (length (vd_used v))"
  using vd_lengths(1)[of v] by (simp add: vd_size_def)

lemma round_up: "(x :: int) \<le> and (x + 2 ^ k - 1) (not (2 ^ k - 1))"
proof -
  have "y - take_bit k y = and y (not (2 ^ k - 1))" for y :: int
  proof -
    have "y - take_bit k y = and y (not (take_bit k y))"
      by (rule disjunctive_diff_eq_and_not) (auto intro!: bit_eqI simp: bit_simps)
    also have "\<dots> = and y (not (mask k))" by (rule bit_eqI) (auto simp: bit_simps)
    finally show ?thesis by (simp add: mask_eq_exp_minus_1)
  qed
  then have "and y (not (2 ^ k - 1)) = y - y mod 2 ^ k" for y :: int by (metis take_bit_eq_mod)
  moreover have "(x + 2 ^ k - 1) mod 2 ^ k < 2 ^ k" by simp
  then have "x \<le> (x + 2 ^ k - 1) - (x + 2 ^ k - 1) mod 2 ^ k" by linarith
  ultimately show ?thesis by metis
qed

lemma memcpy_downward_ok:
  assumes "int (length old) = n" "int (length new) = n'" "0 \<le> back" "0 \<le> front" "front + back \<le> n" "n \<le> n'"
  obtains m where "memcpy_downward old n new n' back front = Inr m" "int (length m) = n'"
    "drop (nat (n' - back)) m = drop (nat (n - back)) old" "take (nat front) m = take (nat front) old"
proof -
  let ?xs = "drop (nat (n - back)) old" and ?ys = "take (nat front) old"
  have l: "length ?xs = nat back" "length ?ys = nat front" using assms by auto
  have x: "peek old (n - back) back = Inr ?xs" using assms by (simp add: peek_def)
  have y: "peek old 0 front = Inr ?ys" using assms by (simp add: peek_def)
  define m where "m = take (nat (n' - back)) new @ ?xs"
  have lm: "int (length m) = n'" using assms l by (simp add: m_def)
  have pm: "poke new (n' - back) ?xs = Inr m" using assms l by (auto simp: poke_def m_def)
  have "nat front \<le> nat (n' - back)" using assms by simp
  then have dm: "drop (nat (n' - back)) (?ys @ drop (nat front) m) = ?xs" using assms l by (simp add: m_def)
  show ?thesis
  proof
    show "memcpy_downward old n new n' back front = Inr (?ys @ drop (nat front) m)"
      using x y pm assms lm l by (simp add: memcpy_downward_def poke_def del: bind_res_eq_Inr)
    show "int (length (?ys @ drop (nat front) m)) = n'" using l lm assms by simp
    show "drop (nat (n' - back)) (?ys @ drop (nat front) m) = ?xs" by (rule dm)
    show "take (nat front) (?ys @ drop (nat front) m) = ?ys" using l by simp
  qed
qed

text \<open>Growing keeps the data and the scratch area and makes room.\<close>

lemma vd_reallocate_ok:
  assumes v: "vd_ok v" and room: "vd_cur v - vd_scratch v < len"
    and small: "int (length (vd_used v)) < 2 ^ 32" "int (length (vd_scr v)) < 2 ^ 32"
  obtains v' where "vd_reallocate len v = Inr v'" "vd_ok v'" "vd_used v' = vd_used v" "vd_scr v' = vd_scr v" "len \<le> vd_cur v' - vd_scratch v'"
proof -
  obtain k where k: "vd_buffer_minalign v = 2 ^ k" and a: "allocator_ok (vd_allocate v)" and i: "0 \<le> vd_initial_size v"
    using v by (auto simp: vd_ok_def)
  note l = vd_lengths[OF v]
  define r where "r = and (vd_reserved v + max len (if vd_reserved v \<noteq> 0 then vd_reserved v div 2 else vd_initial_size v) + 2 ^ k - 1) (not (2 ^ k - 1))"
  have r: "vd_reserved v + len \<le> r"
    using round_up[of "vd_reserved v + max len (if vd_reserved v \<noteq> 0 then vd_reserved v div 2 else vd_initial_size v)" k]
    unfolding r_def by linarith
  have r0: "0 \<le> vd_reserved v" using v by (auto simp: vd_ok_def split: option.splits)
  have s: "vd_size v = vd_reserved v - vd_cur v" "vd_scratch_size v = vd_scratch v"
    using small l by (simp_all add: vd_size_used[OF v] vd_scratch_size_def)
  have "0 \<le> r" using r r0 room l by linarith
  then obtain m0 where m0: "vd_allocate v (vd_blocks v) r = Some m0" "int (length m0) = r"
    using a unfolding allocator_ok_def by blast
  have al: "Allocate r v = Inr (m0, v\<lparr>vd_blocks := vd_blocks v + 1\<rparr>)" using m0 by (simp add: Allocate_def)
  show ?thesis
  proof (cases "vd_buf v")
    case None
    then have z: "vd_reserved v = 0" "vd_cur v = 0" "vd_scratch v = 0" using v by (simp_all add: vd_ok_def)
    have "vd_reallocate len v = Inr (v\<lparr>vd_blocks := vd_blocks v + 1, vd_reserved := r, vd_buf := Some m0, vd_cur := r, vd_scratch := 0\<rparr>)"
      using al None s z k by (simp add: vd_reallocate_def Let_def r_def)
    then show ?thesis
      by (rule that) (use None m0 a k i r z room in \<open>simp_all add: vd_ok_def vd_used_def vd_scr_def\<close>)
  next
    case (Some old)
    then have lo: "int (length old) = vd_reserved v" using v by (simp add: vd_ok_def)
    obtain m where m: "memcpy_downward old (vd_reserved v) m0 r (vd_size v) (vd_scratch v) = Inr m" "int (length m) = r"
        "drop (nat (r - vd_size v)) m = drop (nat (vd_reserved v - vd_size v)) old" "take (nat (vd_scratch v)) m = take (nat (vd_scratch v)) old"
      using memcpy_downward_ok[OF lo m0(2), of "vd_size v" "vd_scratch v"] l r s room by auto
    have "vd_reallocate len v = Inr (v\<lparr>vd_blocks := vd_blocks v + 1, vd_reserved := r, vd_buf := Some m, vd_cur := r - vd_size v, vd_scratch := vd_scratch v\<rparr>)"
      using al Some s k m(1) r room l
      by (simp add: vd_reallocate_def Let_def r_def ReallocateDownward_def FLATBUFFERS_ASSERT_def del: bind_res_eq_Inr)
    then show ?thesis
      by (rule that) (use Some m a k i r l s room in \<open>simp_all add: vd_ok_def vd_used_def vd_scr_def\<close>)
  qed
qed

lemma vd_ensure_space_ok:
  assumes v: "vd_ok v" and small: "int (length (vd_used v)) < 2 ^ 31 - 1" "int (length (vd_scr v)) < 2 ^ 32"
  obtains v' where "vd_ensure_space len v = Inr v'" "vd_ok v'" "vd_used v' = vd_used v" "vd_scr v' = vd_scr v" "len \<le> vd_cur v' - vd_scratch v'"
proof -
  have a: "FLATBUFFERS_ASSERT (vd_scratch v \<le> vd_cur v \<and> 0 \<le> vd_scratch v) = Inr ()"
    using vd_lengths[OF v] by (simp add: FLATBUFFERS_ASSERT_def)
  have s: "vd_size w < FLATBUFFERS_MAX_BUFFER_SIZE" if "vd_ok w" "vd_used w = vd_used v" for w
    using that small vd_size_used[of w] by (simp add: FLATBUFFERS_MAX_BUFFER_SIZE_def)
  show ?thesis
  proof (cases "vd_cur v - vd_scratch v < len")
    case True
    obtain w where w: "vd_reallocate len v = Inr w" "vd_ok w" "vd_used w = vd_used v" "vd_scr w = vd_scr v" "len \<le> vd_cur w - vd_scratch w"
      using vd_reallocate_ok[OF v True] small by auto
    have "vd_ensure_space len v = Inr w"
      using a True w(1) s[OF w(2,3)] by (simp add: vd_ensure_space_def FLATBUFFERS_ASSERT_def del: bind_res_eq_Inr)
    then show ?thesis by (rule that) (use w in simp_all)
  next
    case False
    have "vd_ensure_space len v = Inr v" using a False s[OF v] by (simp add: vd_ensure_space_def FLATBUFFERS_ASSERT_def)
    then show ?thesis by (rule that) (use v False in simp_all)
  qed
qed

lemma vd_make_space_ok:
  assumes v: "vd_ok v" and small: "int (length (vd_used v)) < 2 ^ 31 - 1" "int (length (vd_scr v)) < 2 ^ 32" and n: "0 \<le> n"
  obtains v' xs where "vd_make_space n v = Inr v'" "vd_ok v'" "vd_used v' = xs @ vd_used v" "int (length xs) = n" "vd_scr v' = vd_scr v"
proof -
  obtain w where w: "vd_ensure_space n v = Inr w" "vd_ok w" "vd_used w = vd_used v" "vd_scr w = vd_scr v" "n \<le> vd_cur w - vd_scratch w"
    using vd_ensure_space_ok[OF v small] by blast
  have r: "vd_make_space n v = Inr (w\<lparr>vd_cur := vd_cur w - n\<rparr>)" using w(1) by (simp add: vd_make_space_def)
  show ?thesis
  proof (cases "vd_buf w")
    case None
    then have "n = 0" using w n by (simp add: vd_ok_def)
    then show ?thesis using that[OF r, of "[]"] w by simp
  next
    case (Some m)
    have c: "vd_cur w \<le> int (length m)" "0 \<le> vd_cur w - n" using w(2,5) Some vd_lengths(3)[OF w(2)] by (simp_all add: vd_ok_def)
    let ?xs = "take (nat n) (drop (nat (vd_cur w - n)) m)"
    have e: "nat (vd_cur w) = nat n + nat (vd_cur w - n)" using c n by simp
    have "drop (nat (vd_cur w - n)) m = ?xs @ drop (nat (vd_cur w)) m"
      unfolding e using append_take_drop_id[of "nat n" "drop (nat (vd_cur w - n)) m"] by (simp add: drop_drop)
    then show ?thesis
      using that[OF r, of ?xs] w Some c n by (simp add: vd_used_def vd_scr_def vd_ok_def)
  qed
qed

text \<open>Overwriting bytes that are in use.\<close>

lemma vd_store_used:
  assumes "vd_ok v" "vd_used v = xs @ old @ ys" "length bs = length old"
  obtains v' where "vd_store (vd_data_at v (int (length old + length ys))) bs v = Inr v'" "vd_ok v'" "vd_used v' = xs @ bs @ ys" "vd_scr v' = vd_scr v"
proof (cases "bs = []")
  case True
  then show ?thesis using that[of v] assms by (simp add: vd_store_def)
next
  case False
  then obtain m where m: "vd_buf v = Some m" using assms by (cases "vd_buf v") (auto simp: vd_used_def)
  have l: "int (length m) = vd_reserved v" "0 \<le> vd_scratch v" "vd_scratch v \<le> vd_cur v" "vd_cur v \<le> vd_reserved v"
    and d: "drop (nat (vd_cur v)) m = xs @ old @ ys"
    using assms(1,2) m by (simp_all add: vd_ok_def vd_used_def)
  define pre where "pre = take (nat (vd_cur v)) m"
  have pm: "m = pre @ xs @ old @ ys" unfolding pre_def d[symmetric] by simp
  have lp: "int (length pre) = vd_cur v" using l by (simp add: pre_def)
  have at: "vd_data_at v (int (length old + length ys)) = int (length (pre @ xs))" using l(1) lp pm by (simp add: vd_data_at_def)
  let ?m = "pre @ xs @ bs @ ys"
  have "poke m (int (length (pre @ xs))) bs = Inr ?m" using pm assms(3) by (simp add: poke_def)
  then have "vd_store (vd_data_at v (int (length old + length ys))) bs v = Inr (v\<lparr>vd_buf := Some ?m\<rparr>)"
    using False m at by (simp add: vd_store_def)
  moreover have "nat (vd_cur v) = length pre" "nat (vd_scratch v) \<le> length pre" using lp l by simp_all
  ultimately show ?thesis using that[of "v\<lparr>vd_buf := Some ?m\<rparr>"] assms(1,3) m l pm lp by (simp add: vd_ok_def vd_used_def vd_scr_def)
qed

lemma vd_store_front:
  assumes "vd_ok v" "vd_used v = xs @ ys" "length bs = length xs"
  obtains v' where "vd_store (vd_cur v) bs v = Inr v'" "vd_ok v'" "vd_used v' = bs @ ys" "vd_scr v' = vd_scr v"
proof -
  have "vd_data_at v (int (length xs + length ys)) = vd_cur v" using vd_lengths(1)[OF assms(1)] assms(2) by (simp add: vd_data_at_def)
  then show ?thesis using vd_store_used[OF assms(1), of "[]" xs ys bs] assms(2,3) that by auto
qed

text \<open>The contract of the writing operations: data is added in front.\<close>

definition adds_front :: "bytes \<Rightarrow> vector_downward \<Rightarrow> vector_downward \<Rightarrow> bool" where
  "adds_front bs v v' \<longleftrightarrow> vd_ok v' \<and> vd_used v' = bs @ vd_used v \<and> vd_scr v' = vd_scr v"

lemma vd_push_small_ok:
  assumes "vd_ok v" "int (length (vd_used v)) < 2 ^ 31 - 1" "int (length (vd_scr v)) < 2 ^ 32"
  obtains v' where "vd_push_small bs v = Inr v'" "adds_front bs v v'"
proof -
  obtain w xs where w: "vd_make_space (int (length bs)) v = Inr w" "vd_ok w" "vd_used w = xs @ vd_used v" "int (length xs) = int (length bs)" "vd_scr w = vd_scr v"
    using vd_make_space_ok[OF assms, of "int (length bs)"] by auto
  obtain v' where v': "vd_store (vd_cur w) bs w = Inr v'" "vd_ok v'" "vd_used v' = bs @ vd_used v" "vd_scr v' = vd_scr w"
    using vd_store_front[OF w(2,3), of bs] w(4) by auto
  show ?thesis using that[of v'] w v' by (simp add: vd_push_small_def adds_front_def del: bind_res_eq_Inr)
qed

lemma vd_push_ok:
  assumes "vd_ok v" "int (length (vd_used v)) < 2 ^ 31 - 1" "int (length (vd_scr v)) < 2 ^ 32"
  obtains v' where "vd_push bs v = Inr v'" "adds_front bs v v'"
proof (cases "bs = []")
  case True
  then show ?thesis using that[of v] assms(1) by (simp add: vd_push_def adds_front_def)
next
  case False
  obtain v' where v': "vd_push_small bs v = Inr v'" "adds_front bs v v'" using vd_push_small_ok[OF assms] .
  have "vd_push bs v = vd_push_small bs v" using False by (simp add: vd_push_def vd_push_small_def)
  then show ?thesis using that v' by simp
qed

lemma vd_fill_push: "0 \<le> n \<Longrightarrow> vd_fill n v = vd_push_small (replicate (nat n) 0) v"
  by (simp add: vd_fill_def vd_push_small_def)

lemma vd_fill_ok:
  assumes "vd_ok v" "int (length (vd_used v)) < 2 ^ 31 - 1" "int (length (vd_scr v)) < 2 ^ 32" "0 \<le> n"
  obtains v' where "vd_fill n v = Inr v'" "adds_front (replicate (nat n) 0) v v'"
  using vd_push_small_ok[OF assms(1-3), of "replicate (nat n) 0"] assms(4) by (metis vd_fill_push)

lemma vd_pop_ok:
  assumes v: "vd_ok v" "vd_used v = xs @ ys"
  shows "vd_ok (vd_pop (int (length xs)) v)" "vd_used (vd_pop (int (length xs)) v) = ys" "vd_scr (vd_pop (int (length xs)) v) = vd_scr v"
proof -
  have l: "int (length xs) \<le> vd_reserved v - vd_cur v" "0 \<le> vd_cur v" using vd_lengths[OF v(1)] v(2) by simp_all
  then show "vd_ok (vd_pop (int (length xs)) v)" using v by (auto simp: vd_ok_def vd_pop_def vd_used_def split: option.splits)
  show "vd_scr (vd_pop (int (length xs)) v) = vd_scr v" by (simp add: vd_scr_def vd_pop_def split: option.splits)
  show "vd_used (vd_pop (int (length xs)) v) = ys"
  proof (cases "vd_buf v")
    case None
    then show ?thesis using v(2) by (simp add: vd_used_def vd_pop_def)
  next
    case (Some m)
    have "nat (vd_cur v + int (length xs)) = length xs + nat (vd_cur v)" using l(2) by simp
    moreover have "drop (length xs) (drop (nat (vd_cur v)) m) = ys" using v(2) Some by (simp add: vd_used_def)
    ultimately show ?thesis using Some by (simp add: vd_used_def vd_pop_def drop_drop)
  qed
qed

text \<open>The scratch area is a stack at the other end.\<close>

lemma vd_scratch_push_ok:
  assumes v: "vd_ok v" "int (length (vd_used v)) < 2 ^ 31 - 1" "int (length (vd_scr v)) < 2 ^ 32" and bs: "bs \<noteq> []"
  obtains v' where "vd_scratch_push_small bs v = Inr v'" "vd_ok v'" "vd_used v' = vd_used v" "vd_scr v' = vd_scr v @ bs"
proof -
  obtain w where w: "vd_ensure_space (int (length bs)) v = Inr w" "vd_ok w" "vd_used w = vd_used v" "vd_scr w = vd_scr v"
      "int (length bs) \<le> vd_cur w - vd_scratch w"
    using vd_ensure_space_ok[OF v, of "int (length bs)"] by auto
  obtain m where m: "vd_buf w = Some m" using w(2,5) bs by (cases "vd_buf w") (auto simp: vd_ok_def)
  have l: "int (length m) = vd_reserved w" "0 \<le> vd_scratch w" "vd_scratch w \<le> vd_cur w" "vd_cur w \<le> vd_reserved w" using w(2) m by (simp_all add: vd_ok_def)
  let ?m = "take (nat (vd_scratch w)) m @ bs @ drop (nat (vd_scratch w) + length bs) m"
  let ?v = "w\<lparr>vd_buf := Some ?m, vd_scratch := vd_scratch w + int (length bs)\<rparr>"
  have r: "vd_scratch_push_small bs v = Inr ?v" using w(1,5) bs m l by (simp add: vd_scratch_push_small_def vd_store_def poke_def)
  have lm: "length ?m = length m" "nat (vd_scratch w) + length bs \<le> nat (vd_cur w)" "nat (vd_scratch w) \<le> length m" using w(5) l by simp_all
  have "vd_used ?v = vd_used w" using lm m by (simp add: vd_used_def)
  moreover have "vd_scr ?v = vd_scr w @ bs" using l m w(5) by (simp add: vd_scr_def nat_add_distrib)
  moreover have "vd_ok ?v" using w(2,5) m l lm(1) by (simp add: vd_ok_def)
  ultimately show ?thesis using that[OF r] w(3,4) by simp
qed

lemma vd_scratch_pop_ok:
  assumes v: "vd_ok v" "vd_scr v = xs @ ys"
  shows "vd_ok (vd_scratch_pop (int (length ys)) v)" "vd_used (vd_scratch_pop (int (length ys)) v) = vd_used v"
    "vd_scr (vd_scratch_pop (int (length ys)) v) = xs"
proof -
  have l: "vd_scratch v = int (length xs) + int (length ys)" using vd_lengths(2)[OF v(1)] v(2) by simp
  then show "vd_ok (vd_scratch_pop (int (length ys)) v)" using v by (auto simp: vd_ok_def vd_scratch_pop_def vd_scr_def split: option.splits)
  show "vd_used (vd_scratch_pop (int (length ys)) v) = vd_used v" by (simp add: vd_used_def vd_scratch_pop_def split: option.splits)
  show "vd_scr (vd_scratch_pop (int (length ys)) v) = xs"
  proof (cases "vd_buf v")
    case (Some m)
    have "take (length xs) (take (nat (vd_scratch v)) m) = xs" using v(2) Some by (simp add: vd_scr_def)
    then show ?thesis using Some l by (simp add: vd_scr_def vd_scratch_pop_def)
  qed (use v(2) in \<open>simp add: vd_scr_def vd_scratch_pop_def\<close>)
qed

lemma vd_clear_scratch_ok:
  assumes "vd_ok v"
  shows "vd_ok (vd_clear_scratch v)" "vd_used (vd_clear_scratch v) = vd_used v" "vd_scr (vd_clear_scratch v) = []"
  using assms by (auto simp: vd_ok_def vd_clear_scratch_def vd_used_def vd_scr_def split: option.splits)

lemma vd_clear_ok:
  assumes "vd_ok v"
  shows "vd_ok (vd_clear v)" "vd_used (vd_clear v) = []" "vd_scr (vd_clear v) = []"
  using assms by (auto simp: vd_ok_def vd_clear_def vd_clear_scratch_def vd_used_def vd_scr_def split: option.splits)

lemma vd_release_ok:
  assumes "vd_ok v"
  shows "fst (vd_release v) = vd_used v" "vd_ok (snd (vd_release v))" "vd_used (snd (vd_release v)) = []"
  using assms by (auto simp: vd_ok_def vd_release_def vd_clear_def vd_clear_scratch_def vd_used_def)

section \<open>Reading from the block\<close>

definition vd_mem :: "vector_downward \<Rightarrow> bytes" where
  "vd_mem v = (case vd_buf v of None \<Rightarrow> [] | Some m \<Rightarrow> m)"

lemma ReadScalar_append: "ReadScalar ty (pre @ b) (int (length pre) + p) = ReadScalar ty b p" if "0 \<le> p"
  using that by (simp add: ReadScalar_def nat_add_distrib)

lemma ReadScalar_prefix: "ReadScalar ty (b @ rest) p = ReadScalar ty b p" if "p + int (sizeof ty) \<le> int (length b)"
  using that by (simp add: ReadScalar_def Let_def)

lemma vd_mem_split:
  assumes "vd_ok v"
  obtains pre where "vd_mem v = pre @ vd_used v" "int (length pre) = vd_cur v"
proof (cases "vd_buf v")
  case None
  then show ?thesis using that[of "[]"] assms by (simp add: vd_mem_def vd_used_def vd_ok_def)
next
  case (Some m)
  then have "int (length (take (nat (vd_cur v)) m)) = vd_cur v" using assms by (auto simp: vd_ok_def min_def)
  then show ?thesis using that[of "take (nat (vd_cur v)) m"] Some by (simp add: vd_mem_def vd_used_def)
qed

lemma vd_read_used:
  assumes "vd_ok v" "off \<le> int (length (vd_used v))"
  shows "ReadScalar ty (vd_mem v) (vd_data_at v off) = ReadScalar ty (vd_used v) (int (length (vd_used v)) - off)"
proof -
  obtain pre where pre: "vd_mem v = pre @ vd_used v" "int (length pre) = vd_cur v" using vd_mem_split[OF assms(1)] .
  have "vd_data_at v off = int (length pre) + (int (length (vd_used v)) - off)" using pre vd_lengths(1)[OF assms(1)] by (simp add: vd_data_at_def)
  then show ?thesis using ReadScalar_append[of "int (length (vd_used v)) - off" ty pre "vd_used v"] pre(1) assms(2) by simp
qed

lemma vd_read_scratch:
  assumes "vd_ok v" "p + int (sizeof ty) \<le> int (length (vd_scr v))"
  shows "ReadScalar ty (vd_mem v) p = ReadScalar ty (vd_scr v) p"
proof (cases "vd_buf v")
  case (Some m)
  then have "vd_mem v = vd_scr v @ drop (nat (vd_scratch v)) m" by (simp add: vd_mem_def vd_scr_def)
  then show ?thesis using ReadScalar_prefix assms(2) by simp
qed (simp add: vd_mem_def vd_scr_def)

end
