(* ===== verification/Flatbuffer_Builder.thy ===== *)
theory Flatbuffer_Builder
  imports Vector_Downward Ieee_Float
begin

text \<open>
  The class \<^verbatim>\<open>FlatBufferBuilder\<close> (\<^verbatim>\<open>flatbuffers/flatbuffers.h\<close>): scalars, strings, vectors and tables are written from the end of the
  buffer towards its start, a table's fields are remembered in the scratch area until its vtable is written, and equal vtables are
  shared. An \<^verbatim>\<open>Offset\<close> is the distance of an object from the end of the buffer.
\<close>

section \<open>The class\<close>

record builder =
  fbb_buf :: vector_downward
  num_field_loc :: int
  max_voffset :: int
  nested :: bool
  finished :: bool
  minalign :: int
  force_defaults :: bool
  dedup_vtables :: bool

definition FlatBufferBuilder_new :: "(nat \<Rightarrow> int \<Rightarrow> bytes option) \<Rightarrow> int \<Rightarrow> int \<Rightarrow> builder" where
  "FlatBufferBuilder_new allocate initial_size buffer_minalign =
     \<lparr>fbb_buf = vector_downward_new allocate initial_size buffer_minalign, num_field_loc = 0, max_voffset = 0, nested = False,
      finished = False, minalign = 1, force_defaults = False, dedup_vtables = True\<rparr>"

text \<open>\<^verbatim>\<open>FieldLoc\<close>: the offset and the id, with two bytes of padding.\<close>

definition sizeof_FieldLoc :: int where "sizeof_FieldLoc = 8"

definition FieldLoc :: "int \<Rightarrow> int \<Rightarrow> bytes" where
  "FieldLoc off field = le_bytes 4 off @ le_bytes 2 field @ [0, 0]"

definition GetSize :: "builder \<Rightarrow> int" where
  "GetSize b = vd_size (fbb_buf b)"

definition ClearOffsets :: "builder \<Rightarrow> builder" where
  "ClearOffsets b = b\<lparr>fbb_buf := vd_scratch_pop (num_field_loc b * sizeof_FieldLoc) (fbb_buf b), num_field_loc := 0, max_voffset := 0\<rparr>"

definition Builder_Clear :: "builder \<Rightarrow> builder" where
  "Builder_Clear b = (let b1 = ClearOffsets b in b1\<lparr>fbb_buf := vd_clear (fbb_buf b1), nested := False, finished := False, minalign := 1\<rparr>)"

text \<open>\<^verbatim>\<open>Finished()\<close> and \<^verbatim>\<open>Release()\<close>.\<close>

definition Builder_Release :: "builder \<Rightarrow> (bytes \<times> builder) res" where
  "Builder_Release b = bind_res (FLATBUFFERS_ASSERT (finished b)) (\<lambda>_.
     case vd_release (fbb_buf b) of (bs, v) \<Rightarrow> Inr (bs, b\<lparr>fbb_buf := v\<rparr>))"

definition ForceDefaults :: "bool \<Rightarrow> builder \<Rightarrow> builder" where
  "ForceDefaults fd b = b\<lparr>force_defaults := fd\<rparr>"

definition DedupVtables :: "bool \<Rightarrow> builder \<Rightarrow> builder" where
  "DedupVtables dedup b = b\<lparr>dedup_vtables := dedup\<rparr>"

text \<open>The updates of the buffer inside the builder.\<close>

definition on_buf :: "(vector_downward \<Rightarrow> vector_downward res) \<Rightarrow> builder \<Rightarrow> builder res" where
  "on_buf f b = bind_res (f (fbb_buf b)) (\<lambda>v. Inr (b\<lparr>fbb_buf := v\<rparr>))"

definition PaddingBytes :: "int \<Rightarrow> int \<Rightarrow> int" where
  "PaddingBytes buf_size scalar_size = and (to_size_t (to_size_t (not buf_size) + 1)) (scalar_size - 1)"

definition TrackMinAlign :: "int \<Rightarrow> builder \<Rightarrow> builder" where
  "TrackMinAlign elem_size b = (if elem_size > minalign b then b\<lparr>minalign := elem_size\<rparr> else b)"

definition Align :: "int \<Rightarrow> builder \<Rightarrow> builder res" where
  "Align elem_size b = (let b1 = TrackMinAlign elem_size b in on_buf (vd_fill (PaddingBytes (GetSize b1) elem_size)) b1)"

definition PreAlign :: "int \<Rightarrow> int \<Rightarrow> builder \<Rightarrow> builder res" where
  "PreAlign len alignment b = (let b1 = TrackMinAlign alignment b in on_buf (vd_fill (PaddingBytes (to_size_t (GetSize b1 + len)) alignment)) b1)"

definition PushElement :: "scalar_type \<Rightarrow> int \<Rightarrow> builder \<Rightarrow> (int \<times> builder) res" where
  "PushElement ty element b = bind_res (Align (int (sizeof ty)) b) (\<lambda>b1.
     bind_res (on_buf (vd_push_small (le_bytes (sizeof ty) element)) b1) (\<lambda>b2. Inr (GetSize b2, b2)))"

definition TrackField :: "int \<Rightarrow> int \<Rightarrow> builder \<Rightarrow> builder res" where
  "TrackField field off b = bind_res (on_buf (vd_scratch_push_small (FieldLoc off field)) b) (\<lambda>b1.
     Inr (b1\<lparr>num_field_loc := (num_field_loc b1 + 1) mod 2 ^ 32, max_voffset := max (max_voffset b1) field\<rparr>))"

text \<open>\<^verbatim>\<open>e == def\<close>: floating-point numbers are compared as numbers, not as bit patterns.\<close>

definition IsTheSameAs :: "scalar_type \<Rightarrow> int \<Rightarrow> int \<Rightarrow> bool" where
  "IsTheSameAs ty e defaultval = (case ty of
     F32 \<Rightarrow> fl_eq (fl_of_bits Binary32 e) (fl_of_bits Binary32 defaultval)
   | F64 \<Rightarrow> fl_eq (fl_of_bits Binary64 e) (fl_of_bits Binary64 defaultval)
   | _ \<Rightarrow> e = defaultval)"

definition AddElement :: "scalar_type \<Rightarrow> int \<Rightarrow> int \<Rightarrow> int \<Rightarrow> builder \<Rightarrow> builder res" where
  "AddElement ty field e defaultval b =
     (if IsTheSameAs ty e defaultval \<and> \<not> force_defaults b then Inr b
      else bind_res (PushElement ty e b) (\<lambda>(off, b1). TrackField field off b1))"

definition ReferTo :: "int \<Rightarrow> builder \<Rightarrow> (int \<times> builder) res" where
  "ReferTo off b = bind_res (Align 4 b) (\<lambda>b1.
     bind_res (FLATBUFFERS_ASSERT (off \<noteq> 0 \<and> off \<le> GetSize b1)) (\<lambda>_. Inr ((GetSize b1 - off + 4) mod 2 ^ 32, b1)))"

definition AddOffset :: "int \<Rightarrow> int \<Rightarrow> builder \<Rightarrow> builder res" where
  "AddOffset field off b = (if off = 0 then Inr b
     else bind_res (ReferTo off b) (\<lambda>(r, b1). AddElement uoffset_t field r 0 b1))"

definition PushElement_offset :: "int \<Rightarrow> builder \<Rightarrow> (int \<times> builder) res" where
  "PushElement_offset off b = bind_res (ReferTo off b) (\<lambda>(r, b1). PushElement uoffset_t r b1)"

definition NotNested :: "builder \<Rightarrow> unit res" where
  "NotNested b = bind_res (FLATBUFFERS_ASSERT (\<not> nested b)) (\<lambda>_. FLATBUFFERS_ASSERT (num_field_loc b = 0))"

section \<open>Tables\<close>

definition FieldIndexToOffset :: "int \<Rightarrow> int" where
  "FieldIndexToOffset field_id = (field_id + 2) * 2 mod 2 ^ 16"

definition Builder_StartTable :: "builder \<Rightarrow> (int \<times> builder) res" where
  "Builder_StartTable b = bind_res (NotNested b) (\<lambda>_. Inr (GetSize b, b\<lparr>nested := True\<rparr>))"

text \<open>The loop that writes the offsets into the vtable: \<open>it\<close> walks over the remembered fields, \<open>n\<close> of which are left.\<close>

fun vtable_loop :: "int \<Rightarrow> nat \<Rightarrow> int \<Rightarrow> builder \<Rightarrow> builder res" where
  "vtable_loop it 0 vtableoffsetloc b = Inr b"
| "vtable_loop it (Suc n) vtableoffsetloc b =
     bind_res (ReadScalar uoffset_t (vd_mem (fbb_buf b)) it) (\<lambda>off.
     bind_res (ReadScalar voffset_t (vd_mem (fbb_buf b)) (it + 4)) (\<lambda>field.
     bind_res (ReadScalar voffset_t (vd_mem (fbb_buf b)) (vd_cur (fbb_buf b) + field)) (\<lambda>old.
     bind_res (FLATBUFFERS_ASSERT (old = 0)) (\<lambda>_.
     bind_res (on_buf (vd_store (vd_cur (fbb_buf b) + field) (le_bytes 2 ((vtableoffsetloc - off) mod 2 ^ 16))) b) (\<lambda>b1.
       vtable_loop (it + sizeof_FieldLoc) n vtableoffsetloc b1)))))"

text \<open>The search for an equal vtable: \<open>n\<close> known vtables are left.\<close>

fun dedup_loop :: "int \<Rightarrow> nat \<Rightarrow> int \<Rightarrow> int \<Rightarrow> vector_downward \<Rightarrow> int option res" where
  "dedup_loop it 0 vt1 vt1_size v = Inr None"
| "dedup_loop it (Suc n) vt1 vt1_size v =
     bind_res (ReadScalar uoffset_t (vd_mem v) it) (\<lambda>vt_offset.
     bind_res (ReadScalar voffset_t (vd_mem v) (vd_data_at v vt_offset)) (\<lambda>vt2_size.
       if vt1_size \<noteq> vt2_size then dedup_loop (it + 4) n vt1 vt1_size v
       else bind_res (peek (vd_mem v) (vd_data_at v vt_offset) vt1_size) (\<lambda>xs.
            bind_res (peek (vd_mem v) vt1 vt1_size) (\<lambda>ys.
              if xs = ys then Inr (Some vt_offset) else dedup_loop (it + 4) n vt1 vt1_size v))))"

text \<open>
  \<^verbatim>\<open>EndTable\<close> in three parts: the vtable is written in front of the table, an equal one is looked for, and the table's first field is
  set to the distance of its vtable.
\<close>

definition write_vtable :: "int \<Rightarrow> builder \<Rightarrow> (int \<times> builder) res" where
  "write_vtable start b =
     bind_res (FLATBUFFERS_ASSERT (nested b)) (\<lambda>_.
     bind_res (PushElement soffset_t 0 b) (\<lambda>(vtableoffsetloc, b1).
     let b2 = b1\<lparr>max_voffset := max ((max_voffset b1 + 2) mod 2 ^ 16) (FieldIndexToOffset 0)\<rparr>;
         table_object_size = (vtableoffsetloc - start) mod 2 ^ 32 in
     bind_res (on_buf (vd_fill (max_voffset b2)) b2) (\<lambda>b3.
     bind_res (FLATBUFFERS_ASSERT (table_object_size < 65536)) (\<lambda>_.
     bind_res (on_buf (vd_store (vd_cur (fbb_buf b3) + 2) (le_bytes 2 table_object_size)) b3) (\<lambda>b4.
     bind_res (on_buf (vd_store (vd_cur (fbb_buf b4)) (le_bytes 2 (max_voffset b4))) b4) (\<lambda>b5.
     bind_res (vtable_loop (vd_scratch (fbb_buf b5) - num_field_loc b5 * sizeof_FieldLoc) (nat (num_field_loc b5)) vtableoffsetloc b5) (\<lambda>b6.
       Inr (vtableoffsetloc, ClearOffsets b6))))))))"

definition share_vtable :: "int \<Rightarrow> builder \<Rightarrow> (int \<times> builder) res" where
  "share_vtable vtableoffsetloc b =
     (let v = fbb_buf b in
      bind_res (ReadScalar voffset_t (vd_mem v) (vd_cur v)) (\<lambda>vt1_size.
      bind_res (if dedup_vtables b then dedup_loop 0 (nat ((vd_scratch v + 3) div 4)) (vd_cur v) vt1_size v else Inr None) (\<lambda>found.
      let (vt_use, b1) = (case found of Some off \<Rightarrow> (off, b\<lparr>fbb_buf := vd_pop (GetSize b - vtableoffsetloc) v\<rparr>) | None \<Rightarrow> (GetSize b, b)) in
      bind_res (if vt_use = GetSize b1 then on_buf (vd_scratch_push_small (le_bytes 4 vt_use)) b1 else Inr b1) (\<lambda>b2.
        Inr (vt_use, b2)))))"

definition Builder_EndTable :: "int \<Rightarrow> builder \<Rightarrow> (int \<times> builder) res" where
  "Builder_EndTable start b =
     bind_res (write_vtable start b) (\<lambda>(vtableoffsetloc, b1).
     bind_res (share_vtable vtableoffsetloc b1) (\<lambda>(vt_use, b2).
     bind_res (checked_int (to_int vt_use - to_int vtableoffsetloc)) (\<lambda>s.
     bind_res (on_buf (vd_store (vd_data_at (fbb_buf b2) vtableoffsetloc) (le_bytes 4 s)) b2) (\<lambda>b3.
       Inr (vtableoffsetloc, b3\<lparr>nested := False\<rparr>)))))"

section \<open>Strings, vectors and the finished buffer\<close>

definition PushBytes :: "bytes \<Rightarrow> builder \<Rightarrow> builder res" where
  "PushBytes bs = on_buf (vd_push bs)"

definition CreateString :: "bytes \<Rightarrow> builder \<Rightarrow> (int \<times> builder) res" where
  "CreateString str b =
     bind_res (NotNested b) (\<lambda>_.
     bind_res (PreAlign (int (length str) + 1) 4 b) (\<lambda>b1.
     bind_res (on_buf (vd_fill 1) b1) (\<lambda>b2.
     bind_res (PushBytes str b2) (\<lambda>b3.
     bind_res (PushElement uoffset_t (int (length str) mod 2 ^ 32) b3) (\<lambda>(_, b4). Inr (GetSize b4, b4))))))"

definition EndVector :: "int \<Rightarrow> builder \<Rightarrow> (int \<times> builder) res" where
  "EndVector len b = bind_res (FLATBUFFERS_ASSERT (nested b)) (\<lambda>_. PushElement uoffset_t (len mod 2 ^ 32) (b\<lparr>nested := False\<rparr>))"

definition StartVector :: "int \<Rightarrow> int \<Rightarrow> builder \<Rightarrow> builder res" where
  "StartVector len elemsize b =
     bind_res (NotNested b) (\<lambda>_. bind_res (PreAlign (len * elemsize) 4 (b\<lparr>nested := True\<rparr>)) (\<lambda>b1. PreAlign (len * elemsize) elemsize b1))"

definition FLATBUFFERS_MAX_ALIGNMENT :: int where
  "FLATBUFFERS_MAX_ALIGNMENT = 16"

definition VerifyAlignmentRequirements :: "int \<Rightarrow> int \<Rightarrow> bool" where
  "VerifyAlignmentRequirements align min_align \<longleftrightarrow> min_align \<le> align \<and> align \<le> FLATBUFFERS_MAX_ALIGNMENT \<and> and align (align - 1) = 0"

definition ForceVectorAlignment :: "int \<Rightarrow> int \<Rightarrow> int \<Rightarrow> builder \<Rightarrow> builder res" where
  "ForceVectorAlignment len elemsize alignment b =
     bind_res (FLATBUFFERS_ASSERT (VerifyAlignmentRequirements alignment 1)) (\<lambda>_. PreAlign (len * elemsize) alignment b)"

definition CreateVector :: "scalar_type \<Rightarrow> int list \<Rightarrow> builder \<Rightarrow> (int \<times> builder) res" where
  "CreateVector ty xs b =
     bind_res (StartVector (int (length xs)) (int (sizeof ty)) b) (\<lambda>b1.
       if length xs = 0 then EndVector 0 b1
       else bind_res (PushBytes (concat (map (le_bytes (sizeof ty)) xs)) b1) (\<lambda>b2. EndVector (int (length xs)) b2))"

text \<open>The loop over the offsets runs from the last to the first.\<close>

fun push_offsets :: "int list \<Rightarrow> builder \<Rightarrow> builder res" where
  "push_offsets [] b = Inr b"
| "push_offsets (off # offs) b = bind_res (push_offsets offs b) (\<lambda>b1. bind_res (PushElement_offset off b1) (\<lambda>(_, b2). Inr b2))"

definition CreateVector_offsets :: "int list \<Rightarrow> builder \<Rightarrow> (int \<times> builder) res" where
  "CreateVector_offsets offs b =
     bind_res (StartVector (int (length offs)) 4 b) (\<lambda>b1. bind_res (push_offsets offs b1) (\<lambda>b2. EndVector (int (length offs)) b2))"

definition Builder_Finish :: "int \<Rightarrow> bytes option \<Rightarrow> bool \<Rightarrow> builder \<Rightarrow> builder res" where
  "Builder_Finish root_off file_identifier size_prefix b =
     bind_res (NotNested b) (\<lambda>_.
     let b1 = b\<lparr>fbb_buf := vd_clear_scratch (fbb_buf b)\<rparr> in
     bind_res (PreAlign ((if size_prefix then 4 else 0) + 4 + (if file_identifier \<noteq> None then 4 else 0)) (minalign b1) b1) (\<lambda>b2.
     bind_res (case file_identifier of None \<Rightarrow> Inr b2
       | Some ident \<Rightarrow> bind_res (FLATBUFFERS_ASSERT (length ident = 4)) (\<lambda>_. PushBytes ident b2)) (\<lambda>b3.
     bind_res (PushElement_offset root_off b3) (\<lambda>(_, b4).
     bind_res (if size_prefix then PushElement uoffset_t (GetSize b4) b4 else Inr (0, b4)) (\<lambda>(_, b5).
       Inr (b5\<lparr>finished := True\<rparr>))))))"

section \<open>Generated table builders\<close>

text \<open>
  A generated function \<^verbatim>\<open>CreateT\<close> starts a table, adds its fields in a fixed order and ends it. A field is a scalar with its default, or
  an offset.
\<close>

datatype field_add = Element scalar_type int int int | Refer int int

fun add_field :: "field_add \<Rightarrow> builder \<Rightarrow> builder res" where
  "add_field (Element ty field e defaultval) b = AddElement ty field e defaultval b"
| "add_field (Refer field off) b = AddOffset field off b"

fun add_fields :: "field_add list \<Rightarrow> builder \<Rightarrow> builder res" where
  "add_fields [] b = Inr b"
| "add_fields (f # fs) b = bind_res (add_field f b) (add_fields fs)"

definition create_table :: "field_add list \<Rightarrow> builder \<Rightarrow> (int \<times> builder) res" where
  "create_table fs b = bind_res (Builder_StartTable b) (\<lambda>(start, b1). bind_res (add_fields fs b1) (\<lambda>b2. Builder_EndTable start b2))"

end
