(* ===== verification/Builder_Lemmas.thy ===== *)
theory Builder_Lemmas
  imports Flatbuffer_Builder
begin

text \<open>
  What a builder stands for: the bytes written so far, the known vtables and the fields of the table being built; and what each
  operation of \<open>Flatbuffer_Builder\<close> does to them.
\<close>

section \<open>Representation\<close>

text \<open>The fields of the builder that the table operations do not touch.\<close>

definition same_flags :: "builder \<Rightarrow> builder \<Rightarrow> bool" where
  "same_flags b b' \<longleftrightarrow> nested b' = nested b \<and> finished b' = finished b \<and> force_defaults b' = force_defaults b \<and> dedup_vtables b' = dedup_vtables b"

lemma same_flags_refl [simp]: "same_flags b b"
  by (simp add: same_flags_def)

lemma same_flags_trans: "same_flags a b \<Longrightarrow> same_flags b c \<Longrightarrow> same_flags a c"
  by (simp add: same_flags_def)

definition scratch_bytes :: "int list \<Rightarrow> (int \<times> int) list \<Rightarrow> bytes" where
  "scratch_bytes vts locs = concat (map (le_bytes 4) vts) @ concat (map (\<lambda>(off, field). FieldLoc off field) locs)"

definition top_field :: "(int \<times> int) list \<Rightarrow> int" where
  "top_field locs = foldl (\<lambda>m l. max m (snd l)) 0 locs"

definition fbb_rep :: "builder \<Rightarrow> bytes \<Rightarrow> int list \<Rightarrow> (int \<times> int) list \<Rightarrow> bool" where
  "fbb_rep b u vts locs \<longleftrightarrow> vd_ok (fbb_buf b) \<and> vd_used (fbb_buf b) = u \<and> vd_scr (fbb_buf b) = scratch_bytes vts locs \<and>
     num_field_loc b = int (length locs) \<and> max_voffset b = top_field locs \<and> (\<exists>k \<le> 4. minalign b = 2 ^ k)"

text \<open>Room for the next \<open>n\<close> bytes of data and of scratch.\<close>

definition room :: "bytes \<Rightarrow> int list \<Rightarrow> (int \<times> int) list \<Rightarrow> int \<Rightarrow> bool" where
  "room u vts locs n \<longleftrightarrow> int (length u) + n < 2 ^ 31 - 1 \<and> 4 * int (length vts) + 8 * int (length locs) + n < 2 ^ 32"

lemma room_mono: "room u vts locs n \<Longrightarrow> m \<le> n \<Longrightarrow> room u vts locs m"
  by (auto simp: room_def)

lemma length_FieldLoc [simp]: "length (FieldLoc off field) = 8"
  by (simp add: FieldLoc_def)

lemma length_scratch_bytes: "int (length (scratch_bytes vts locs)) = 4 * int (length vts) + 8 * int (length locs)"
proof -
  have "length (concat (map (le_bytes 4) vts)) = 4 * length vts" by (induction vts) simp_all
  moreover have "length (concat (map (\<lambda>(off, field). FieldLoc off field) locs)) = 8 * length locs" by (induction locs) auto
  ultimately show ?thesis by (simp add: scratch_bytes_def)
qed

lemma rep_bounds:
  assumes "fbb_rep b u vts locs" "room u vts locs n" "0 \<le> n"
  shows "vd_ok (fbb_buf b)" "int (length (vd_used (fbb_buf b))) < 2 ^ 31 - 1" "int (length (vd_scr (fbb_buf b))) < 2 ^ 32" "GetSize b = int (length u)"
  using assms vd_size_used[of "fbb_buf b"] by (auto simp: fbb_rep_def room_def length_scratch_bytes GetSize_def)

text \<open>An update of the buffer that adds data in front.\<close>

lemma on_buf_front:
  assumes "f (fbb_buf b) = Inr v" "adds_front bs (fbb_buf b) v" "fbb_rep b u vts locs"
  obtains b' where "on_buf f b = Inr b'" "fbb_rep b' (bs @ u) vts locs" "same_flags b b'" "minalign b' = minalign b"
  using that[of "b\<lparr>fbb_buf := v\<rparr>"] assms by (auto simp: on_buf_def fbb_rep_def adds_front_def same_flags_def)

section \<open>Alignment\<close>

lemma PaddingBytes_mod: "PaddingBytes n (2 ^ k) = (- n) mod 2 ^ k" if "k \<le> 64"
proof -
  have "PaddingBytes n (2 ^ k) = take_bit k ((not n mod 2 ^ 64 + 1) mod 2 ^ 64)"
    by (simp add: PaddingBytes_def to_size_t_def take_bit_eq_mask mask_eq_exp_minus_1)
  also have "\<dots> = (- n) mod 2 ^ 64 mod 2 ^ k" by (simp add: take_bit_eq_mod mod_add_left_eq not_int_def)
  also have "\<dots> = (- n) mod 2 ^ k" by (rule mod_mod_cancel[OF le_imp_power_dvd[OF that]])
  finally show ?thesis .
qed

lemma padding_aligns: "((n :: int) + (- n) mod m) mod m = 0"
  by (simp add: mod_add_right_eq)

lemma sizeof_pow2: obtains k where "k \<le> 3" "int (sizeof ty) = 2 ^ k"
  using that[of 0] that[of 1] that[of 2] that[of 3] by (cases ty) simp_all

lemma TrackMinAlign_rep:
  assumes "fbb_rep b u vts locs" "k \<le> 4"
  shows "fbb_rep (TrackMinAlign (2 ^ k) b) u vts locs" "same_flags b (TrackMinAlign (2 ^ k) b)" "GetSize (TrackMinAlign (2 ^ k) b) = GetSize b"
    "minalign b \<le> minalign (TrackMinAlign (2 ^ k) b)" "2 ^ k \<le> minalign (TrackMinAlign (2 ^ k) b)"
  using assms by (auto simp: TrackMinAlign_def fbb_rep_def same_flags_def GetSize_def)

text \<open>Padding to an alignment of \<open>2 ^ k\<close> so that \<open>len\<close> more bytes end aligned; \<^verbatim>\<open>Align\<close> is the case \<open>len = 0\<close>.\<close>

lemma PreAlign_rep:
  assumes b: "fbb_rep b u vts locs" "room u vts locs 0" and k: "k \<le> 4" and len: "0 \<le> len" "len < 2 ^ 32"
  obtains b' where "PreAlign len (2 ^ k) b = Inr b'" "fbb_rep b' (replicate (nat ((- (int (length u) + len)) mod 2 ^ k)) 0 @ u) vts locs"
    "same_flags b b'" "minalign b \<le> minalign b'" "2 ^ k \<le> minalign b'"
proof -
  let ?b = "TrackMinAlign (2 ^ k) b" and ?n = "(- (int (length u) + len)) mod 2 ^ k"
  note t = TrackMinAlign_rep[OF b(1) k]
  note r = rep_bounds[OF t(1) b(2)]
  have "to_size_t (int (length u) + len) = int (length u) + len" using b(2) len by (simp add: to_size_t_def room_def)
  then have p: "PaddingBytes (to_size_t (GetSize ?b + len)) (2 ^ k) = ?n" using k r(4) PaddingBytes_mod[of k "int (length u) + len"] by simp
  obtain v where v: "vd_fill ?n (fbb_buf ?b) = Inr v" "adds_front (replicate (nat ?n) 0) (fbb_buf ?b) v"
    using vd_fill_ok[OF r(1-3), of ?n] by auto
  obtain b' where b': "on_buf (vd_fill ?n) ?b = Inr b'" "fbb_rep b' (replicate (nat ?n) 0 @ u) vts locs" "same_flags ?b b'" "minalign b' = minalign ?b"
    using on_buf_front[where f = "vd_fill ?n", OF v t(1)] .
  show ?thesis
    by (rule that[of b']) (use b' t p same_flags_trans[OF t(2) b'(3)] in \<open>simp_all add: PreAlign_def Let_def\<close>)
qed

lemma Align_PreAlign: "0 \<le> GetSize b \<Longrightarrow> GetSize b < 2 ^ 32 \<Longrightarrow> Align n b = PreAlign 0 n b"
  by (simp add: Align_def PreAlign_def Let_def TrackMinAlign_def GetSize_def to_size_t_def)

lemma GetSize_bounds [simp]: "0 \<le> GetSize b" "GetSize b < 2 ^ 32"
  by (simp_all add: GetSize_def vd_size_def)

lemma PushElement_rep:
  assumes b: "fbb_rep b u vts locs" "room u vts locs 8"
  obtains b' where "PushElement ty e b = Inr (int (length (le_bytes (sizeof ty) e @ replicate (nat ((- int (length u)) mod int (sizeof ty))) 0 @ u)), b')"
    "fbb_rep b' (le_bytes (sizeof ty) e @ replicate (nat ((- int (length u)) mod int (sizeof ty))) 0 @ u) vts locs" "same_flags b b'"
    "minalign b \<le> minalign b'" "int (sizeof ty) \<le> minalign b'"
proof -
  obtain k where k: "k \<le> 3" "int (sizeof ty) = 2 ^ k" by (rule sizeof_pow2)
  have k8: "(2 :: int) ^ k \<le> 8" using power_increasing[OF k(1), of "2 :: int"] by simp
  have k4: "k \<le> 4" using k(1) by simp
  let ?u = "replicate (nat ((- int (length u)) mod int (sizeof ty))) 0 @ u"
  have r0: "room u vts locs 0" using b(2) by (rule room_mono) simp
  obtain b1 where b1: "PreAlign 0 (2 ^ k) b = Inr b1" "fbb_rep b1 ?u vts locs" "same_flags b b1" "minalign b \<le> minalign b1" "2 ^ k \<le> minalign b1"
    using PreAlign_rep[OF b(1) r0 k4, of 0] k(2) by auto
  have "(- int (length u)) mod 2 ^ k < 2 ^ k" by simp
  then have "(- int (length u)) mod int (sizeof ty) < 8" unfolding k(2) using k8 by linarith
  then have r1: "room ?u vts locs 0" using b(2) by (auto simp: room_def)
  note r = rep_bounds[OF b1(2) r1]
  obtain v where v: "vd_push_small (le_bytes (sizeof ty) e) (fbb_buf b1) = Inr v" "adds_front (le_bytes (sizeof ty) e) (fbb_buf b1) v"
    using vd_push_small_ok[OF r(1-3)] by auto
  obtain b' where b': "on_buf (vd_push_small (le_bytes (sizeof ty) e)) b1 = Inr b'" "fbb_rep b' (le_bytes (sizeof ty) e @ ?u) vts locs"
      "same_flags b1 b'" "minalign b' = minalign b1"
    using on_buf_front[where f = "vd_push_small (le_bytes (sizeof ty) e)", OF v b1(2)] .
  have l: "int (length (le_bytes (sizeof ty) e @ ?u)) < 2 ^ 32" using r1 k8 k(2) b'(2) by (auto simp: room_def)
  then have "GetSize b' = int (length (le_bytes (sizeof ty) e @ ?u))" using b'(2) vd_size_used[of "fbb_buf b'"] by (simp add: fbb_rep_def GetSize_def)
  moreover have "Align (int (sizeof ty)) b = Inr b1" using b1(1) k(2) by (simp add: Align_PreAlign[OF GetSize_bounds])
  ultimately show ?thesis
    using that[of b'] b' b1 k(2) same_flags_trans[OF b1(3) b'(3)] by (simp add: PushElement_def del: bind_res_eq_Inr)
qed

lemma top_field_snoc: "top_field (locs @ [(off, field)]) = max (top_field locs) field"
  by (simp add: top_field_def)

lemma TrackField_rep:
  assumes b: "fbb_rep b u vts locs" "room u vts locs 0" "int (length locs) < 2 ^ 31"
  obtains b' where "TrackField field off b = Inr b'" "fbb_rep b' u vts (locs @ [(off, field)])" "same_flags b b'" "minalign b' = minalign b"
proof -
  note r = rep_bounds[OF b(1,2)]
  obtain v where v: "vd_scratch_push_small (FieldLoc off field) (fbb_buf b) = Inr v" "vd_ok v" "vd_used v = vd_used (fbb_buf b)"
      "vd_scr v = vd_scr (fbb_buf b) @ FieldLoc off field"
    using vd_scratch_push_ok[OF r(1-3), of "FieldLoc off field"] by (auto simp: FieldLoc_def)
  let ?b = "b\<lparr>fbb_buf := v, num_field_loc := (num_field_loc b + 1) mod 2 ^ 32, max_voffset := max (max_voffset b) field\<rparr>"
  have "TrackField field off b = Inr ?b" using v(1) by (simp add: TrackField_def on_buf_def)
  moreover have "fbb_rep ?b u vts (locs @ [(off, field)])"
    using b v(2-) by (auto simp: fbb_rep_def scratch_bytes_def top_field_snoc)
  ultimately show ?thesis using that[of ?b] by (simp add: same_flags_def)
qed

section \<open>Fields\<close>

text \<open>Reading at a distance from the end: bytes added in front do not matter.\<close>

definition rd :: "scalar_type \<Rightarrow> bytes \<Rightarrow> int \<Rightarrow> int res" where
  "rd ty u off = ReadScalar ty u (int (length u) - off)"

lemma rd_append: "off \<le> int (length u) \<Longrightarrow> rd ty (xs @ u) off = rd ty u off"
  using ReadScalar_append[of "int (length u) - off" ty xs u] by (simp add: rd_def algebra_simps)

lemma rd_front: "in_range ty e \<Longrightarrow> rd ty (le_bytes (sizeof ty) e @ u) (int (sizeof ty + length u)) = Inr e"
  using ReadScalar_written[of ty e 0 "le_bytes (sizeof ty) e @ u" u] by (simp add: rd_def)

fun add_type :: "field_add \<Rightarrow> scalar_type" where
  "add_type (Element ty field e defaultval) = ty"
| "add_type (Refer field off) = uoffset_t"

fun add_key :: "field_add \<Rightarrow> int" where
  "add_key (Element ty field e defaultval) = field"
| "add_key (Refer field off) = field"

text \<open>What is stored for a field at distance \<open>p\<close> from the end: an offset is relative to its place.\<close>

fun add_value :: "field_add \<Rightarrow> int \<Rightarrow> int" where
  "add_value (Element ty field e defaultval) p = e"
| "add_value (Refer field off) p = p - off"

fun skipped :: "bool \<Rightarrow> field_add \<Rightarrow> bool" where
  "skipped forced (Element ty field e defaultval) \<longleftrightarrow> IsTheSameAs ty e defaultval \<and> \<not> forced"
| "skipped forced (Refer field off) \<longleftrightarrow> off = 0"

fun add_ok :: "bytes \<Rightarrow> field_add \<Rightarrow> bool" where
  "add_ok u (Element ty field e defaultval) \<longleftrightarrow> in_range ty e"
| "add_ok u (Refer field off) \<longleftrightarrow> 0 \<le> off \<and> off \<le> int (length u)"

definition stores :: "bytes \<Rightarrow> field_add \<Rightarrow> int \<Rightarrow> bool" where
  "stores u f p \<longleftrightarrow> rd (add_type f) u p = Inr (add_value f p) \<and> p mod int (sizeof (add_type f)) = 0 \<and> p \<le> int (length u)"

lemma stores_append: "stores u f p \<Longrightarrow> stores (xs @ u) f p"
  by (auto simp: stores_def rd_append)

lemma add_ok_append: "add_ok u f \<Longrightarrow> add_ok (xs @ u) f"
  by (cases f) auto

lemma AddElement_rep:
  assumes b: "fbb_rep b u vts locs" "room u vts locs 16" "int (length locs) < 2 ^ 31" and e: "in_range ty e"
    and stored: "\<not> (IsTheSameAs ty e d \<and> \<not> force_defaults b)"
  obtains b' xs where "AddElement ty field e d b = Inr b'" "fbb_rep b' (xs @ u) vts (locs @ [(int (length (xs @ u)), field)])" "same_flags b b'"
    "rd ty (xs @ u) (int (length (xs @ u))) = Inr e" "int (length (xs @ u)) mod int (sizeof ty) = 0" "int (length xs) \<le> 15"
    "xs = le_bytes (sizeof ty) e @ replicate (nat ((- int (length u)) mod int (sizeof ty))) 0" "minalign b \<le> minalign b'" "int (sizeof ty) \<le> minalign b'"
proof -
  let ?pad = "(- int (length u)) mod int (sizeof ty)"
  let ?xs = "le_bytes (sizeof ty) e @ replicate (nat ?pad) 0"
  have r8: "room u vts locs 8" using b(2) by (rule room_mono) simp
  obtain b1 where b1: "PushElement ty e b = Inr (int (length (?xs @ u)), b1)" "fbb_rep b1 (?xs @ u) vts locs" "same_flags b b1"
      "minalign b \<le> minalign b1" "int (sizeof ty) \<le> minalign b1"
    using PushElement_rep[OF b(1) r8, of ty e] by auto
  have s8: "sizeof ty \<le> 8" by (cases ty) simp_all
  have pad: "0 \<le> ?pad" "?pad < int (sizeof ty)" by simp_all
  have "int (length ?xs) = int (sizeof ty) + ?pad" by simp
  then have l: "int (length ?xs) \<le> 15" using s8 pad by linarith
  then have r1: "room (?xs @ u) vts locs 0" using b(2) by (auto simp: room_def)
  obtain b2 where b2: "TrackField field (int (length (?xs @ u))) b1 = Inr b2" "fbb_rep b2 (?xs @ u) vts (locs @ [(int (length (?xs @ u)), field)])"
      "same_flags b1 b2" "minalign b2 = minalign b1"
    using TrackField_rep[OF b1(2) r1 b(3)] .
  have "int (length (?xs @ u)) = int (sizeof ty) + (int (length u) + ?pad)" using pad by simp
  then have al: "int (length (?xs @ u)) mod int (sizeof ty) = 0" using padding_aligns[of "int (length u)" "int (sizeof ty)"] by (simp add: add.commute)
  have rdx: "rd ty (?xs @ u) (int (length (?xs @ u))) = Inr e" using rd_front[OF e, of "replicate (nat ?pad) 0 @ u"] by simp
  have "AddElement ty field e d b = Inr b2" using b1(1) b2(1) stored by (auto simp: AddElement_def simp del: bind_res_eq_Inr)
  then show ?thesis by (rule that) (use b1 b2 l al rdx same_flags_trans[OF b1(3) b2(3)] in simp_all)
qed

lemma add_field_rep:
  assumes b: "fbb_rep b u vts locs" "room u vts locs 32" "int (length locs) < 2 ^ 31" and f: "add_ok u f" "\<not> skipped (force_defaults b) f"
  obtains b' xs where "add_field f b = Inr b'" "fbb_rep b' (xs @ u) vts (locs @ [(int (length (xs @ u)), add_key f)])" "same_flags b b'"
    "stores (xs @ u) f (int (length (xs @ u)))" "xs \<noteq> []" "int (length xs) \<le> 15" "minalign b \<le> minalign b'" "int (sizeof (add_type f)) \<le> minalign b'"
proof (cases f)
  case (Element ty field e d)
  have r: "room u vts locs 16" using b(2) by (rule room_mono) simp
  have e: "in_range ty e" "\<not> (IsTheSameAs ty e d \<and> \<not> force_defaults b)" using f Element by simp_all
  obtain b' xs where x: "AddElement ty field e d b = Inr b'" "fbb_rep b' (xs @ u) vts (locs @ [(int (length (xs @ u)), field)])" "same_flags b b'"
    "rd ty (xs @ u) (int (length (xs @ u))) = Inr e" "int (length (xs @ u)) mod int (sizeof ty) = 0" "int (length xs) \<le> 15"
    "xs = le_bytes (sizeof ty) e @ replicate (nat ((- int (length u)) mod int (sizeof ty))) 0" "minalign b \<le> minalign b'" "int (sizeof ty) \<le> minalign b'"
    using AddElement_rep[OF b(1) r b(3) e] by metis
  have "xs \<noteq> []" using x(7) sizeof_pos(1)[of ty] by (metis append_is_Nil_conv length_le_bytes list.size(3) less_irrefl)
  then show ?thesis using that[of b' xs] x Element by (simp add: stores_def)
next
  case (Refer field off)
  have o: "0 < off" "off \<le> int (length u)" using f Refer by auto
  let ?pad = "(- int (length u)) mod 4"
  let ?u = "replicate (nat ?pad) 0 @ u"
  have r0: "room u vts locs 0" using b(2) by (rule room_mono) simp
  have p: "0 \<le> ?pad" "?pad < 4" by simp_all
  obtain b1 where b1: "PreAlign 0 (2 ^ 2) b = Inr b1" "fbb_rep b1 ?u vts locs" "same_flags b b1" "minalign b \<le> minalign b1" "2 ^ 2 \<le> minalign b1"
    using PreAlign_rep[OF b(1) r0, of 2 0] by auto
  have r1: "room ?u vts locs 16" using b(2) p by (auto simp: room_def)
  have sz: "GetSize b1 = int (length ?u)" using rep_bounds(4)[OF b1(2) r1] by simp
  define r where "r = int (length ?u) - off + 4"
  have small: "int (length ?u) + 4 < 2 ^ 31" using r1 by (simp add: room_def)
  have r: "in_range uoffset_t r" "r \<noteq> 0" "r mod 2 ^ 32 = r" using o small by (simp_all add: r_def in_range_def)
  have ref: "ReferTo off b = Inr (r, b1)"
    using b1(1) sz o r(3) by (simp add: ReferTo_def Align_PreAlign[OF GetSize_bounds] FLATBUFFERS_ASSERT_def r_def del: bind_res_eq_Inr)
  have "\<not> (IsTheSameAs uoffset_t r 0 \<and> \<not> force_defaults b1)" using r(2) by (simp add: IsTheSameAs_def)
  then obtain b' xs where x: "AddElement uoffset_t field r 0 b1 = Inr b'" "fbb_rep b' (xs @ ?u) vts (locs @ [(int (length (xs @ ?u)), field)])" "same_flags b1 b'"
    "rd uoffset_t (xs @ ?u) (int (length (xs @ ?u))) = Inr r" "int (length (xs @ ?u)) mod int (sizeof uoffset_t) = 0"
    "xs = le_bytes (sizeof uoffset_t) r @ replicate (nat ((- int (length ?u)) mod int (sizeof uoffset_t))) 0" "minalign b1 \<le> minalign b'"
    "int (sizeof uoffset_t) \<le> minalign b'"
    using AddElement_rep[OF b1(2) r1 b(3) r(1)] by metis
  have "int (length ?u) mod 4 = 0" using padding_aligns[of "int (length u)" 4] p by (simp add: add.commute)
  then have lx: "length xs = 4" unfolding x(6) by (simp add: mod_minus_cong zmod_zminus1_eq_if)
  let ?ys = "xs @ replicate (nat ?pad) 0"
  have "add_field f b = Inr b'" using ref x(1) o Refer by (simp add: AddOffset_def del: bind_res_eq_Inr)
  moreover have "fbb_rep b' (?ys @ u) vts (locs @ [(int (length (?ys @ u)), add_key f)])" using x(2) Refer by simp
  moreover have "stores (?ys @ u) f (int (length (?ys @ u)))" using x(4,5) lx Refer by (simp add: stores_def r_def)
  moreover have "?ys \<noteq> []" "int (length ?ys) \<le> 15" using lx p by auto
  moreover have "minalign b \<le> minalign b'" "int (sizeof (add_type f)) \<le> minalign b'" using x(7,8) b1(4) Refer by simp_all
  ultimately show ?thesis by (rule that[OF _ _ same_flags_trans[OF b1(3) x(3)]])
qed

text \<open>A sequence of fields: the ones that are not skipped are remembered with their places.\<close>

definition remembered :: "bytes \<Rightarrow> int \<Rightarrow> field_add \<Rightarrow> int \<times> int \<Rightarrow> bool" where
  "remembered u start f l \<longleftrightarrow> snd l = add_key f \<and> stores u f (fst l) \<and> start < fst l"

lemma remembered_append: "remembered u start f l \<Longrightarrow> remembered (xs @ u) start f l"
  by (simp add: remembered_def stores_append)

lemma remembered_start: "remembered u start f l \<Longrightarrow> s \<le> start \<Longrightarrow> remembered u s f l"
  by (simp add: remembered_def)

definition fields_added :: "field_add list \<Rightarrow> builder \<Rightarrow> bytes \<Rightarrow> int list \<Rightarrow> (int \<times> int) list \<Rightarrow> builder \<Rightarrow> bytes \<Rightarrow> (int \<times> int) list \<Rightarrow> bool" where
  "fields_added fs b u vts locs b' xs new \<longleftrightarrow> fbb_rep b' (xs @ u) vts (locs @ new) \<and> same_flags b b' \<and>
     list_all2 (remembered (xs @ u) (int (length u))) (filter (\<lambda>f. \<not> skipped (force_defaults b) f) fs) new \<and>
     length xs \<le> 15 * length fs \<and> minalign b \<le> minalign b' \<and>
     (\<forall>f \<in> set fs. \<not> skipped (force_defaults b) f \<longrightarrow> int (sizeof (add_type f)) \<le> minalign b')"

lemma add_fields_rep:
  assumes "fbb_rep b u vts locs" "room u vts locs (32 * (int (length fs) + 1))" "int (length locs) + int (length fs) < 2 ^ 31" "\<forall>f \<in> set fs. add_ok u f"
  shows "\<exists>b' xs new. add_fields fs b = Inr b' \<and> fields_added fs b u vts locs b' xs new"
  using assms
proof (induction fs arbitrary: b u locs)
  case Nil
  then show ?case by (intro exI[of _ b] exI[of _ "[]"] exI[of _ "[]"]) (simp add: fields_added_def)
next
  case (Cons f fs)
  show ?case
  proof (cases "skipped (force_defaults b) f")
    case True
    then have s: "add_field f b = Inr b" by (cases f) (auto simp: AddElement_def AddOffset_def)
    have "room u vts locs (32 * (int (length fs) + 1))" using Cons.prems(2) by (rule room_mono) simp
    then obtain b' xs new where r: "add_fields fs b = Inr b'" "fields_added fs b u vts locs b' xs new" using Cons.IH[OF Cons.prems(1)] Cons.prems(3,4) by auto
    have "fields_added (f # fs) b u vts locs b' xs new" using r(2) True by (simp add: fields_added_def)
    then show ?thesis using s r(1) by auto
  next
    case False
    have r: "room u vts locs 32" using Cons.prems(2) by (rule room_mono) simp
    have fo: "int (length locs) < 2 ^ 31" "add_ok u f" using Cons.prems(3,4) by simp_all
    obtain b1 ys where b1: "add_field f b = Inr b1" "fbb_rep b1 (ys @ u) vts (locs @ [(int (length (ys @ u)), add_key f)])" "same_flags b b1"
      "stores (ys @ u) f (int (length (ys @ u)))" "ys \<noteq> []" "int (length ys) \<le> 15" "minalign b \<le> minalign b1" "int (sizeof (add_type f)) \<le> minalign b1"
      by (rule add_field_rep[OF Cons.prems(1) r fo False])
    let ?l = "(int (length (ys @ u)), add_key f)"
    have "room (ys @ u) vts (locs @ [?l]) (32 * (int (length fs) + 1))" using Cons.prems(2) b1(6) by (simp add: room_def)
    moreover have "\<forall>g \<in> set fs. add_ok (ys @ u) g" using Cons.prems(4) by (simp add: add_ok_append)
    ultimately obtain b' xs new where r: "add_fields fs b1 = Inr b'" "fields_added fs b1 (ys @ u) vts (locs @ [?l]) b' xs new"
      using Cons.IH[OF b1(2)] Cons.prems(3) by auto
    have fd: "force_defaults b1 = force_defaults b" using b1(3) by (simp add: same_flags_def)
    have "remembered (ys @ u) (int (length u)) f ?l" using b1(4,5) by (simp add: remembered_def)
    then have "remembered (xs @ ys @ u) (int (length u)) f ?l" by (rule remembered_append)
    moreover have "list_all2 (remembered (xs @ ys @ u) (int (length u))) (filter (\<lambda>f. \<not> skipped (force_defaults b) f) fs) new"
    proof -
      have "list_all2 (remembered (xs @ ys @ u) (int (length (ys @ u)))) (filter (\<lambda>f. \<not> skipped (force_defaults b) f) fs) new"
        using r(2) unfolding fields_added_def fd by simp
      then show ?thesis by (rule list_all2_mono) (auto elim: remembered_start)
    qed
    ultimately have "fields_added (f # fs) b u vts locs b' (xs @ ys) (?l # new)"
      using r(2) b1(3,6,7,8) False same_flags_trans[OF b1(3)] by (auto simp: fields_added_def fd)
    then show ?thesis using b1(1) r(1) by auto
  qed
qed

end
