(* ===== verification/Builder_Tables.thy ===== *)
theory Builder_Tables
  imports Builder_Lemmas
begin

text \<open>
  \<^verbatim>\<open>EndTable\<close>: the vtable as a list of 16-bit entries, the loop that enters the fields, the search for an equal vtable, and the table
  that results.
\<close>

section \<open>Entries of a vtable\<close>

definition vt_bytes :: "int list \<Rightarrow> bytes" where
  "vt_bytes es = concat (map (le_bytes 2) es)"

lemma vt_bytes_simps [simp]: "vt_bytes [] = []" "vt_bytes (e # es) = le_bytes 2 e @ vt_bytes es" "vt_bytes (es @ fs) = vt_bytes es @ vt_bytes fs"
  by (simp_all add: vt_bytes_def)

lemma length_vt_bytes [simp]: "length (vt_bytes es) = 2 * length es"
  by (induction es) simp_all

lemma vt_bytes_split: "i < length es \<Longrightarrow> vt_bytes es = vt_bytes (take i es) @ le_bytes 2 (es ! i) @ vt_bytes (drop (Suc i) es)"
  by (subst id_take_nth_drop[of i es]) simp_all

lemma vt_bytes_update: "i < length es \<Longrightarrow> vt_bytes (es[i := x]) = vt_bytes (take i es) @ le_bytes 2 x @ vt_bytes (drop (Suc i) es)"
  by (simp add: upd_conv_take_nth_drop)

lemma vt_bytes_zeros: "replicate (2 * n) 0 = vt_bytes (replicate n 0)"
  by (induction n) (simp_all add: numeral_2_eq_2)

definition entry_ok :: "int \<Rightarrow> bool" where
  "entry_ok e \<longleftrightarrow> 0 \<le> e \<and> e < 2 ^ 16"

lemma ReadScalar_entry:
  assumes "i < length es" "entry_ok (es ! i)"
  shows "ReadScalar voffset_t (pre @ vt_bytes es @ rest) (int (length pre) + 2 * int i) = Inr (es ! i)"
proof -
  have "ReadScalar voffset_t (vt_bytes es @ rest) (2 * int i) = Inr (es ! i)"
  proof (rule ReadScalar_written)
    show "in_range voffset_t (es ! i)" using assms(2) by (simp add: in_range_def entry_ok_def)
    show "drop (nat (2 * int i)) (vt_bytes es @ rest) = le_bytes (sizeof voffset_t) (es ! i) @ vt_bytes (drop (Suc i) es) @ rest"
      using assms(1) by (subst vt_bytes_split[OF assms(1)]) (simp add: nat_mult_distrib)
    show "int (length (vt_bytes es @ rest)) = 2 * int i + int (length (vt_bytes (drop (Suc i) es) @ rest)) + int (sizeof voffset_t)"
      using assms(1) by simp
  qed simp
  then show ?thesis using ReadScalar_append[of "2 * int i" voffset_t pre "vt_bytes es @ rest"] by simp
qed

text \<open>Reading and writing the vtable at the front of the data.\<close>

lemma front_read:
  assumes "vd_ok v" "vd_used v = vt_bytes es @ rest" "i < length es" "entry_ok (es ! i)"
  shows "ReadScalar voffset_t (vd_mem v) (vd_cur v + 2 * int i) = Inr (es ! i)"
proof -
  obtain pre where "vd_mem v = pre @ vd_used v" "int (length pre) = vd_cur v" using vd_mem_split[OF assms(1)] .
  then show ?thesis using ReadScalar_entry[OF assms(3,4), of pre rest] assms(2) by simp
qed

lemma front_write:
  assumes "vd_ok v" "vd_used v = vt_bytes es @ rest" "i < length es"
  obtains v' where "vd_store (vd_cur v + 2 * int i) (le_bytes 2 x) v = Inr v'" "vd_ok v'" "vd_used v' = vt_bytes (es[i := x]) @ rest" "vd_scr v' = vd_scr v"
proof -
  let ?tail = "vt_bytes (drop (Suc i) es) @ rest"
  have u: "vd_used v = vt_bytes (take i es) @ le_bytes 2 (es ! i) @ ?tail" using assms(2) by (simp add: vt_bytes_split[OF assms(3)])
  have "vd_data_at v (int (length (le_bytes 2 (es ! i)) + length ?tail)) = vd_cur v + 2 * int i"
    using vd_lengths(1)[OF assms(1)] assms(2,3) by (simp add: vd_data_at_def algebra_simps)
  then show ?thesis using vd_store_used[OF assms(1) u, of "le_bytes 2 x"] that by (auto simp: vt_bytes_update[OF assms(3)])
qed

section \<open>Entering the fields\<close>

definition enter :: "int \<Rightarrow> (int \<times> int) list \<Rightarrow> int list \<Rightarrow> int list" where
  "enter loc locs es = foldl (\<lambda>es l. es[nat (snd l) div 2 := loc - fst l]) es locs"

lemma enter_simps [simp]: "enter loc [] es = es" "enter loc (l # ls) es = enter loc ls (es[nat (snd l) div 2 := loc - fst l])"
  by (simp_all add: enter_def)

lemma length_enter [simp]: "length (enter loc locs es) = length es"
  by (induction locs arbitrary: es) simp_all

lemma enter_other: "i \<notin> (\<lambda>l. nat (snd l) div 2) ` set locs \<Longrightarrow> enter loc locs es ! i = es ! i"
  by (induction locs arbitrary: es) simp_all

text \<open>A place remembered for a table that ends at \<open>loc\<close>, in a vtable of \<open>n\<close> entries.\<close>

definition loc_ok :: "int \<Rightarrow> nat \<Rightarrow> int \<times> int \<Rightarrow> bool" where
  "loc_ok loc n l \<longleftrightarrow> entry_ok (loc - fst l) \<and> 0 \<le> fst l \<and> fst l < 2 ^ 32 \<and> even (snd l) \<and> 4 \<le> snd l \<and> snd l < 2 ^ 16 \<and> snd l < 2 * int n"

lemma even_keys: "even (x :: int) \<Longrightarrow> 0 \<le> x \<Longrightarrow> even y \<Longrightarrow> 0 \<le> y \<Longrightarrow> nat x div 2 = nat y div 2 \<longleftrightarrow> x = y"
  by (auto elim!: evenE simp: nat_mult_distrib)

lemma enter_entry:
  assumes "list_all (loc_ok loc (length es)) locs" "distinct (map snd locs)" "l \<in> set locs"
  shows "enter loc locs es ! (nat (snd l) div 2) = loc - fst l"
  using assms
proof (induction locs arbitrary: es)
  case (Cons k ks)
  let ?es = "es[nat (snd k) div 2 := loc - fst k]"
  show ?case
  proof (cases "l = k")
    case True
    have "nat (snd k) div 2 \<noteq> nat (snd j) div 2" if "j \<in> set ks" for j
    proof -
      have "even (snd k)" "4 \<le> snd k" "even (snd j)" "4 \<le> snd j" using Cons.prems(1) that by (auto simp: loc_ok_def list_all_iff)
      moreover have "snd k \<noteq> snd j" using Cons.prems(2) that by auto
      ultimately show ?thesis using even_keys[of "snd k" "snd j"] by simp
    qed
    then have "nat (snd k) div 2 \<notin> (\<lambda>l. nat (snd l) div 2) ` set ks" by auto
    moreover have "nat (snd k) div 2 < length es" using Cons.prems(1) by (auto simp: loc_ok_def)
    ultimately show ?thesis using True by (simp add: enter_other)
  qed (use Cons in simp)
qed simp

lemma enter_entries_ok:
  assumes "list_all (loc_ok loc (length es)) locs" "list_all entry_ok es"
  shows "list_all entry_ok (enter loc locs es)"
  using assms
proof (induction locs arbitrary: es)
  case (Cons k ks)
  have "list_all entry_ok (es[nat (snd k) div 2 := loc - fst k])"
    using Cons.prems set_update_subset_insert[of es "nat (snd k) div 2" "loc - fst k"] by (auto simp: list_all_iff loc_ok_def)
  then show ?case using Cons by simp
qed simp

text \<open>The scratch area, at a vtable and at a field.\<close>

lemma scratch_locs:
  assumes "vd_ok v" "vd_scr v = scratch_bytes vts (ds @ (off, field) # ls)" "in_range uoffset_t off" "in_range voffset_t field"
    and "it = 4 * int (length vts) + 8 * int (length ds)"
  shows "ReadScalar uoffset_t (vd_mem v) it = Inr off" "ReadScalar voffset_t (vd_mem v) (it + 4) = Inr field"
proof -
  let ?A = "scratch_bytes vts ds" and ?B = "concat (map (\<lambda>(off, field). FieldLoc off field) ls)"
  have s: "vd_scr v = ?A @ le_bytes 4 off @ le_bytes 2 field @ [0, 0] @ ?B" using assms(2) by (simp add: scratch_bytes_def FieldLoc_def)
  have A: "int (length ?A) = it" using assms(5) by (simp add: length_scratch_bytes)
  then have d: "drop (nat it) (vd_scr v) = le_bytes 4 off @ le_bytes 2 field @ [0, 0] @ ?B" "0 \<le> it" using s by auto
  have "ReadScalar uoffset_t (vd_scr v) it = Inr off"
    by (rule ReadScalar_written[OF assms(3) d(2), of _ "le_bytes 2 field @ [0, 0] @ ?B"]) (use s A d in simp_all)
  then show "ReadScalar uoffset_t (vd_mem v) it = Inr off" using vd_read_scratch[OF assms(1)] s A by simp
  have "drop 4 (drop (nat it) (vd_scr v)) = le_bytes 2 field @ [0, 0] @ ?B" using d(1) by simp
  then have d2: "drop (nat (it + 4)) (vd_scr v) = le_bytes 2 field @ [0, 0] @ ?B" using d(2) by (simp add: nat_add_distrib add.commute)
  have "ReadScalar voffset_t (vd_scr v) (it + 4) = Inr field"
    by (rule ReadScalar_written[OF assms(4), of _ _ "[0, 0] @ ?B"]) (use s A d d2 in simp_all)
  then show "ReadScalar voffset_t (vd_mem v) (it + 4) = Inr field" using vd_read_scratch[OF assms(1)] s A by simp
qed

lemma scratch_vts:
  assumes "vd_ok v" "vd_scr v = scratch_bytes (ds @ vt # vts) []" "in_range uoffset_t vt"
  shows "ReadScalar uoffset_t (vd_mem v) (4 * int (length ds)) = Inr vt"
proof -
  let ?A = "concat (map (le_bytes 4) ds)"
  have s: "vd_scr v = ?A @ le_bytes 4 vt @ concat (map (le_bytes 4) vts)" using assms(2) by (simp add: scratch_bytes_def)
  have A: "length ?A = 4 * length ds" by (induction ds) simp_all
  have d: "drop (nat (4 * int (length ds))) (vd_scr v) = le_bytes 4 vt @ concat (map (le_bytes 4) vts)" unfolding s using A by (simp add: nat_mult_distrib)
  have "ReadScalar uoffset_t (vd_scr v) (4 * int (length ds)) = Inr vt"
    by (rule ReadScalar_written[OF assms(3), of _ _ "concat (map (le_bytes 4) vts)"]) (use s A d in simp_all)
  then show ?thesis using vd_read_scratch[OF assms(1)] s A by simp
qed

text \<open>The loop enters all remembered fields.\<close>

lemma vtable_loop_ok:
  assumes "vd_ok (fbb_buf b)" "vd_used (fbb_buf b) = vt_bytes es @ rest" "vd_scr (fbb_buf b) = scratch_bytes vts (ds @ locs)"
    and "it = 4 * int (length vts) + 8 * int (length ds)"
    and "list_all (loc_ok loc (length es)) locs" "distinct (map snd locs)" "\<forall>l \<in> set locs. es ! (nat (snd l) div 2) = 0"
  shows "\<exists>v'. vtable_loop it (length locs) loc b = Inr (b\<lparr>fbb_buf := v'\<rparr>) \<and> vd_ok v' \<and> vd_used v' = vt_bytes (enter loc locs es) @ rest \<and>
    vd_scr v' = vd_scr (fbb_buf b)"
  using assms
proof (induction locs arbitrary: b es ds it)
  case Nil
  then show ?case by (intro exI[of _ "fbb_buf b"]) simp
next
  case (Cons l ls)
  obtain off field where l: "l = (off, field)" by (cases l)
  let ?v = "fbb_buf b" and ?i = "nat field div 2"
  have ok: "entry_ok (loc - off)" "0 \<le> off" "off < 2 ^ 32" "even field" "4 \<le> field" "field < 2 ^ 16" "field < 2 * int (length es)"
    using Cons.prems(5) l by (simp_all add: loc_ok_def)
  have i: "2 * int ?i = field" "?i < length es" using ok(4,5,7) by auto
  have z: "es ! ?i = 0" using Cons.prems(7) l by simp
  have rs: "ReadScalar uoffset_t (vd_mem ?v) it = Inr off" "ReadScalar voffset_t (vd_mem ?v) (it + 4) = Inr field"
    using scratch_locs[OF Cons.prems(1) _ _ _ Cons.prems(4), of off field ls] Cons.prems(3) l ok by (simp_all add: in_range_def)
  have r0: "ReadScalar voffset_t (vd_mem ?v) (vd_cur ?v + field) = Inr 0"
    using front_read[OF Cons.prems(1,2) i(2)] z i(1) by (simp add: entry_ok_def)
  obtain v1 where v1: "vd_store (vd_cur ?v + field) (le_bytes 2 (loc - off)) ?v = Inr v1" "vd_ok v1" "vd_used v1 = vt_bytes (es[?i := loc - off]) @ rest"
      "vd_scr v1 = vd_scr ?v"
    using front_write[OF Cons.prems(1,2) i(2), of "loc - off"] i(1) by auto
  have m: "(loc - off) mod 2 ^ 16 = loc - off" using ok(1) by (simp add: entry_ok_def)
  have step: "vtable_loop it (length (l # ls)) loc b = vtable_loop (it + 8) (length ls) loc (b\<lparr>fbb_buf := v1\<rparr>)"
    using rs r0 v1(1) m by (simp add: FLATBUFFERS_ASSERT_def on_buf_def sizeof_FieldLoc_def del: bind_res_eq_Inr)
  have "\<forall>k \<in> set ls. (es[?i := loc - off]) ! (nat (snd k) div 2) = 0"
  proof
    fix k assume k: "k \<in> set ls"
    then have "even (snd k)" "4 \<le> snd k" "snd k \<noteq> field" using Cons.prems(5,6) l by (auto simp: loc_ok_def list_all_iff)
    then have "nat (snd k) div 2 \<noteq> ?i" using even_keys[of "snd k" field] ok by simp
    then show "(es[?i := loc - off]) ! (nat (snd k) div 2) = 0" using Cons.prems(7) k by simp
  qed
  then have "\<exists>v'. vtable_loop (it + 8) (length ls) loc (b\<lparr>fbb_buf := v1\<rparr>) = Inr (b\<lparr>fbb_buf := v1, fbb_buf := v'\<rparr>) \<and> vd_ok v' \<and>
      vd_used v' = vt_bytes (enter loc ls (es[?i := loc - off])) @ rest \<and> vd_scr v' = vd_scr v1"
    using Cons.IH[of "b\<lparr>fbb_buf := v1\<rparr>" "es[?i := loc - off]" "ds @ [l]" "it + 8"] Cons.prems v1 by simp
  then show ?case using step v1(4) l by simp
qed

text \<open>A field that was remembered twice fails the assertion that its entry is still zero: no field is at distance zero from the table.\<close>

lemma vtable_loop_twice:
  assumes "vd_ok (fbb_buf b)" "vd_used (fbb_buf b) = vt_bytes es @ rest" "vd_scr (fbb_buf b) = scratch_bytes vts (ds @ locs)"
    and "it = 4 * int (length vts) + 8 * int (length ds)"
    and "list_all (loc_ok loc (length es)) locs" "\<forall>l \<in> set locs. fst l < loc" "list_all entry_ok es"
    and "\<not> distinct (map snd locs) \<or> (\<exists>l \<in> set locs. es ! (nat (snd l) div 2) \<noteq> 0)"
  shows "vtable_loop it (length locs) loc b = Inl (ProcessExit 134)"
  using assms
proof (induction locs arbitrary: b es ds it)
  case (Cons l ls)
  obtain off field where l: "l = (off, field)" by (cases l)
  let ?v = "fbb_buf b" and ?i = "nat field div 2"
  have ok: "entry_ok (loc - off)" "0 \<le> off" "off < 2 ^ 32" "even field" "4 \<le> field" "field < 2 ^ 16" "field < 2 * int (length es)" "off < loc"
    using Cons.prems(5,6) l by (simp_all add: loc_ok_def)
  have i: "2 * int ?i = field" "?i < length es" using ok(4,5,7) by auto
  have e: "entry_ok (es ! ?i)" using Cons.prems(7) i(2) by (simp add: list_all_length)
  have rs: "ReadScalar uoffset_t (vd_mem ?v) it = Inr off" "ReadScalar voffset_t (vd_mem ?v) (it + 4) = Inr field"
    using scratch_locs[OF Cons.prems(1) _ _ _ Cons.prems(4), of off field ls] Cons.prems(3) l ok by (simp_all add: in_range_def)
  have r0: "ReadScalar voffset_t (vd_mem ?v) (vd_cur ?v + field) = Inr (es ! ?i)"
    using front_read[OF Cons.prems(1,2) i(2) e] i(1) by simp
  show ?case
  proof (cases "es ! ?i = 0")
    case True
    obtain v1 where v1: "vd_store (vd_cur ?v + field) (le_bytes 2 (loc - off)) ?v = Inr v1" "vd_ok v1" "vd_used v1 = vt_bytes (es[?i := loc - off]) @ rest"
        "vd_scr v1 = vd_scr ?v"
      using front_write[OF Cons.prems(1,2) i(2), of "loc - off"] i(1) by auto
    have m: "(loc - off) mod 2 ^ 16 = loc - off" using ok(1) by (simp add: entry_ok_def)
    have step: "vtable_loop it (length (l # ls)) loc b = vtable_loop (it + 8) (length ls) loc (b\<lparr>fbb_buf := v1\<rparr>)"
      using rs r0 True v1(1) m by (simp add: FLATBUFFERS_ASSERT_def on_buf_def sizeof_FieldLoc_def del: bind_res_eq_Inr)
    have "\<not> distinct (map snd ls) \<or> (\<exists>k \<in> set ls. (es[?i := loc - off]) ! (nat (snd k) div 2) \<noteq> 0)"
    proof (cases "\<exists>k \<in> set ls. nat (snd k) div 2 = ?i")
      case True
      then obtain k where "k \<in> set ls" "nat (snd k) div 2 = ?i" by blast
      then have "(es[?i := loc - off]) ! (nat (snd k) div 2) \<noteq> 0" using i(2) ok(8) by simp
      then show ?thesis using \<open>k \<in> set ls\<close> by blast
    next
      case False
      then have "field \<notin> snd ` set ls" by auto
      have keep: "(es[?i := loc - off]) ! (nat (snd k) div 2) = es ! (nat (snd k) div 2)" if "k \<in> set ls" for k
        using False that by (metis nth_list_update_neq)
      have "\<not> distinct (map snd ls) \<or> (\<exists>k \<in> set ls. es ! (nat (snd k) div 2) \<noteq> 0)"
        using Cons.prems(8) l True \<open>field \<notin> snd ` set ls\<close> by auto
      then show ?thesis using keep by metis
    qed
    moreover have "list_all entry_ok (es[?i := loc - off])"
      using Cons.prems(7) ok(1) set_update_subset_insert[of es ?i "loc - off"] by (auto simp: list_all_iff)
    ultimately have "vtable_loop (it + 8) (length ls) loc (b\<lparr>fbb_buf := v1\<rparr>) = Inl (ProcessExit 134)"
      using Cons.IH[of "b\<lparr>fbb_buf := v1\<rparr>" "es[?i := loc - off]" "ds @ [l]" "it + 8"] Cons.prems v1 by simp
    then show ?thesis using step by simp
  qed (use rs r0 in \<open>simp add: FLATBUFFERS_ASSERT_def\<close>)
qed simp

section \<open>Writing the vtable\<close>

definition vtable_size :: "(int \<times> int) list \<Rightarrow> int" where
  "vtable_size locs = max (top_field locs + 2) 4"

definition vtable_entries :: "int \<Rightarrow> int \<Rightarrow> (int \<times> int) list \<Rightarrow> int list" where
  "vtable_entries loc start locs = enter loc locs ([vtable_size locs, loc - start] @ replicate (nat (vtable_size locs) div 2 - 2) 0)"

lemma top_field_bounds:
  assumes "\<forall>l \<in> set locs. even (snd l) \<and> 4 \<le> snd l \<and> snd l < 2 ^ 16 - 2"
  shows "0 \<le> top_field locs \<and> top_field locs < 2 ^ 16 - 2 \<and> even (top_field locs) \<and> (\<forall>l \<in> set locs. snd l \<le> top_field locs)"
  using assms
proof (induction locs rule: rev_induct)
  case (snoc l ls)
  then show ?case by (cases l) (auto simp: top_field_snoc max_def)
qed (simp add: top_field_def)

text \<open>The fields of a table that starts at size \<open>start\<close> and ends at \<open>loc\<close>.\<close>

definition locs_ok :: "int \<Rightarrow> int \<Rightarrow> (int \<times> int) list \<Rightarrow> bool" where
  "locs_ok start loc locs \<longleftrightarrow> 0 \<le> start \<and> start \<le> loc \<and> loc - start < 2 ^ 16 \<and> loc < 2 ^ 32 \<and>
     (\<forall>l \<in> set locs. start \<le> fst l \<and> fst l \<le> loc \<and> even (snd l) \<and> 4 \<le> snd l \<and> snd l < 2 ^ 16 - 2)"

definition fields_ok :: "int \<Rightarrow> int \<Rightarrow> (int \<times> int) list \<Rightarrow> bool" where
  "fields_ok start loc locs \<longleftrightarrow> distinct (map snd locs) \<and> locs_ok start loc locs"

lemma locs_okD:
  assumes "locs_ok start loc locs"
  shows "4 \<le> vtable_size locs" "vtable_size locs < 2 ^ 16" "even (vtable_size locs)" "int (length (vtable_entries loc start locs)) * 2 = vtable_size locs"
    "list_all (loc_ok loc (length (vtable_entries loc start locs))) locs" "list_all entry_ok (vtable_entries loc start locs)"
    "vtable_entries loc start locs ! 0 = vtable_size locs" "vtable_entries loc start locs ! 1 = loc - start" "2 \<le> length (vtable_entries loc start locs)"
proof -
  have l: "\<forall>l \<in> set locs. even (snd l) \<and> 4 \<le> snd l \<and> snd l < 2 ^ 16 - 2" using assms by (simp add: locs_ok_def)
  note t = top_field_bounds[OF l]
  show s: "4 \<le> vtable_size locs" "vtable_size locs < 2 ^ 16" "even (vtable_size locs)" using t by (auto simp: vtable_size_def max_def)
  have n: "nat (vtable_size locs) div 2 \<ge> 2" "2 * int (nat (vtable_size locs) div 2) = vtable_size locs" using s by auto
  let ?es = "[vtable_size locs, loc - start] @ replicate (nat (vtable_size locs) div 2 - 2) 0"
  have le: "length ?es = nat (vtable_size locs) div 2" using n(1) by simp
  then show len: "int (length (vtable_entries loc start locs)) * 2 = vtable_size locs" using n(2) by (simp add: vtable_entries_def)
  show "2 \<le> length (vtable_entries loc start locs)" using n(1) le by (simp add: vtable_entries_def)
  have "loc_ok loc (length ?es) k" if "k \<in> set locs" for k
  proof -
    have "snd k \<le> top_field locs" "start \<le> fst k" "fst k \<le> loc" "even (snd k)" "4 \<le> snd k" "snd k < 2 ^ 16 - 2"
      using t that assms by (auto simp: locs_ok_def)
    then show ?thesis using assms le n(2) by (simp add: loc_ok_def entry_ok_def locs_ok_def vtable_size_def)
  qed
  then have ok: "list_all (loc_ok loc (length ?es)) locs" by (simp add: list_all_iff)
  then show "list_all (loc_ok loc (length (vtable_entries loc start locs))) locs" by (simp add: vtable_entries_def)
  have "list_all entry_ok ?es" using s assms by (auto simp: entry_ok_def locs_ok_def list_all_iff)
  then show "list_all entry_ok (vtable_entries loc start locs)" unfolding vtable_entries_def by (rule enter_entries_ok[OF ok])
  have "2 \<le> nat (snd k) div 2" if "k \<in> set locs" for k using l that by auto
  then have "0 \<notin> (\<lambda>l. nat (snd l) div 2) ` set locs" "1 \<notin> (\<lambda>l. nat (snd l) div 2) ` set locs" by fastforce+
  then show "vtable_entries loc start locs ! 0 = vtable_size locs" "vtable_entries loc start locs ! 1 = loc - start"
    by (simp_all add: vtable_entries_def enter_other)
qed

lemmas fields_ok_locs = fields_ok_def[THEN iffD1, THEN conjunct2]

lemma zero_entries:
  assumes "2 \<le> n"
  shows "(replicate n (0 :: int))[1 := y, 0 := x] = [x, y] @ replicate (n - 2) 0"
proof -
  obtain m where "n = Suc (Suc m)" using assms by (metis Suc_le_D numeral_2_eq_2 Suc_le_mono)
  then show ?thesis by simp
qed

text \<open>The fresh vtable in front of the data, with its two header entries.\<close>

lemma fresh_vtable:
  assumes v: "vd_ok v" "int (length (vd_used v)) < 2 ^ 31 - 1" "int (length (vd_scr v)) < 2 ^ 32" and s: "4 \<le> s" "even s"
  obtains v1 v2 v3 where "vd_fill s v = Inr v1" "vd_store (vd_cur v1 + 2) (le_bytes 2 y) v1 = Inr v2" "vd_store (vd_cur v2) (le_bytes 2 x) v2 = Inr v3"
    "vd_ok v3" "vd_used v3 = vt_bytes ([x, y] @ replicate (nat s div 2 - 2) 0) @ vd_used v" "vd_scr v3 = vd_scr v"
proof -
  let ?n = "nat s div 2" and ?u = "vd_used v"
  have n: "2 \<le> ?n" "2 * ?n = nat s" using s by (auto simp: even_nat_iff)
  obtain v1 where v1: "vd_fill s v = Inr v1" "adds_front (replicate (nat s) 0) v v1" using vd_fill_ok[OF v, of s] s(1) by auto
  have o1: "vd_ok v1" "vd_used v1 = vt_bytes (replicate ?n 0) @ ?u" "vd_scr v1 = vd_scr v" using v1(2) vt_bytes_zeros[of ?n] n by (simp_all add: adds_front_def)
  have "1 < length (replicate ?n (0 :: int))" using n by simp
  then obtain v2 where v2: "vd_store (vd_cur v1 + 2 * int 1) (le_bytes 2 y) v1 = Inr v2" "vd_ok v2" "vd_used v2 = vt_bytes ((replicate ?n 0)[1 := y]) @ ?u"
      "vd_scr v2 = vd_scr v1"
    using front_write[OF o1(1,2), of 1 y] by blast
  have "0 < length ((replicate ?n (0 :: int))[1 := y])" using n by simp
  then obtain v3 where v3: "vd_store (vd_cur v2 + 2 * int 0) (le_bytes 2 x) v2 = Inr v3" "vd_ok v3" "vd_used v3 = vt_bytes ((replicate ?n 0)[1 := y, 0 := x]) @ ?u"
      "vd_scr v3 = vd_scr v2"
    using front_write[OF v2(2,3), of 0 x] by blast
  have "vd_used v3 = vt_bytes ([x, y] @ replicate (?n - 2) 0) @ ?u" using v3(3) unfolding zero_entries[OF n(1)] .
  then show ?thesis using that[OF v1(1), of v2 v3] v2 v3 o1 by simp
qed

text \<open>Everything up to the loop that enters the fields.\<close>

lemma write_vtable_start:
  fixes start :: int
  assumes b: "fbb_rep b u vts locs" "room u vts locs 16" "nested b" and loc: "loc = int (length u) + (- int (length u)) mod 4 + 4"
    and f: "locs_ok start loc locs"
  defines "es \<equiv> [vtable_size locs, loc - start] @ replicate (nat (vtable_size locs) div 2 - 2) 0"
    and "u' \<equiv> le_bytes 4 0 @ replicate (nat ((- int (length u)) mod 4)) 0 @ u"
  obtains b1 v3 where "fbb_rep b1 u' vts locs" "same_flags b b1" "minalign b \<le> minalign b1" "4 \<le> minalign b1"
    "write_vtable start b = bind_res (vtable_loop (4 * int (length vts)) (length locs) loc (b1\<lparr>max_voffset := vtable_size locs, fbb_buf := v3\<rparr>))
       (\<lambda>b6. Inr (loc, ClearOffsets b6))"
    "vd_ok v3" "vd_used v3 = vt_bytes es @ u'" "vd_scr v3 = scratch_bytes vts locs"
    "list_all (loc_ok loc (length es)) locs" "list_all entry_ok es" "\<forall>l \<in> set locs. es ! (nat (snd l) div 2) = 0"
proof -
  note fD = locs_okD[OF f]
  let ?s = "vtable_size locs"
  have r8: "room u vts locs 8" using b(2) by (rule room_mono) simp
  have lu: "int (length u') = loc" using loc by (simp add: u'_def)
  obtain b1 where b1: "PushElement soffset_t 0 b = Inr (loc, b1)" "fbb_rep b1 u' vts locs" "same_flags b b1" "minalign b \<le> minalign b1" "4 \<le> minalign b1"
    using PushElement_rep[OF b(1) r8, of soffset_t 0] lu by (auto simp: u'_def)
  have "(- int (length u)) mod 4 < 4" by simp
  then have "loc < int (length u) + 8" using loc by linarith
  then have "room u' vts locs 0" using b(2) unfolding room_def lu by linarith
  note rb = rep_bounds[OF b1(2) this order_refl]
  obtain v1 v2 v3 where v: "vd_fill ?s (fbb_buf b1) = Inr v1" "vd_store (vd_cur v1 + 2) (le_bytes 2 (loc - start)) v1 = Inr v2"
      "vd_store (vd_cur v2) (le_bytes 2 ?s) v2 = Inr v3" "vd_ok v3"
      "vd_used v3 = vt_bytes es @ vd_used (fbb_buf b1)" "vd_scr v3 = vd_scr (fbb_buf b1)"
    using fresh_vtable[OF rb(1-3) fD(1,3), of "loc - start" ?s] unfolding es_def .
  have b1': "vd_used (fbb_buf b1) = u'" "vd_scr (fbb_buf b1) = scratch_bytes vts locs" "num_field_loc b1 = int (length locs)" "max_voffset b1 = top_field locs"
    using b1(2) by (simp_all add: fbb_rep_def)
  have le: "length (vtable_entries loc start locs) = length es" by (simp add: vtable_entries_def es_def)
  have z: "es ! (nat (snd l) div 2) = 0" if "l \<in> set locs" for l
  proof -
    have "4 \<le> snd l" "snd l < 2 * int (length es)" "even (snd l)" using fD(5) that unfolding le by (auto simp: list_all_iff loc_ok_def)
    then have h: "2 \<le> nat (snd l) div 2" "nat (snd l) div 2 < length es" by auto
    define j where "j = nat (snd l) div 2 - 2"
    have j: "nat (snd l) div 2 = Suc (Suc j)" using h(1) unfolding j_def by linarith
    then have "j < nat ?s div 2 - 2" using h(2) by (simp add: es_def)
    then show ?thesis unfolding j by (simp add: es_def)
  qed
  have sc: "vd_scratch v3 - int (length locs) * 8 = 4 * int (length vts)"
    using vd_lengths(2)[OF v(4)] v(6) b1'(2) length_scratch_bytes[of vts locs] by simp
  have top: "top_field locs + 2 < 2 ^ 16" "0 \<le> top_field locs" using fD(2) top_field_bounds[of locs] f by (auto simp: vtable_size_def locs_ok_def)
  then have sz: "max ((max_voffset b1 + 2) mod 2 ^ 16) (FieldIndexToOffset 0) = ?s" using b1'(4) by (simp add: FieldIndexToOffset_def vtable_size_def)
  have ob: "(loc - start) mod 2 ^ 32 = loc - start" "loc - start < 65536" using f by (simp_all add: locs_ok_def)
  have w: "write_vtable start b = bind_res (vtable_loop (4 * int (length vts)) (length locs) loc (b1\<lparr>max_voffset := ?s, fbb_buf := v3\<rparr>))
       (\<lambda>b6. Inr (loc, ClearOffsets b6))"
    using b(3) b1(1) v(1-3) sz ob b1'(3) sc
    by (simp add: write_vtable_def FLATBUFFERS_ASSERT_def on_buf_def Let_def sizeof_FieldLoc_def del: bind_res_eq_Inr)
  have "list_all entry_ok es" using locs_okD(1,2)[OF f] f by (auto simp: es_def entry_ok_def locs_ok_def list_all_iff)
  then show ?thesis using that[OF b1(2-5) w v(4)] v(5,6) b1'(1,2) fD(5) z unfolding le by simp
qed

lemma write_vtable_rep:
  assumes b: "fbb_rep b u vts locs" "room u vts locs 16" "nested b" and loc: "loc = int (length u) + (- int (length u)) mod 4 + 4"
    and f: "fields_ok start loc locs"
  obtains b' where "write_vtable start b = Inr (loc, b')"
    "fbb_rep b' (vt_bytes (vtable_entries loc start locs) @ le_bytes 4 0 @ replicate (nat ((- int (length u)) mod 4)) 0 @ u) vts []"
    "same_flags b b'" "minalign b \<le> minalign b'" "4 \<le> minalign b'"
proof -
  let ?u = "le_bytes 4 0 @ replicate (nat ((- int (length u)) mod 4)) 0 @ u" and ?s = "vtable_size locs"
  let ?es = "[?s, loc - start] @ replicate (nat ?s div 2 - 2) 0"
  obtain b1 v3 where b1: "fbb_rep b1 ?u vts locs" "same_flags b b1" "minalign b \<le> minalign b1" "4 \<le> minalign b1"
    and w: "write_vtable start b = bind_res (vtable_loop (4 * int (length vts)) (length locs) loc (b1\<lparr>max_voffset := ?s, fbb_buf := v3\<rparr>))
       (\<lambda>b6. Inr (loc, ClearOffsets b6))"
    and v: "vd_ok v3" "vd_used v3 = vt_bytes ?es @ ?u" "vd_scr v3 = scratch_bytes vts locs"
    and e: "list_all (loc_ok loc (length ?es)) locs" "\<forall>l \<in> set locs. ?es ! (nat (snd l) div 2) = 0"
    using write_vtable_start[OF b loc fields_ok_locs[OF f]] by blast
  let ?b = "b1\<lparr>max_voffset := ?s, fbb_buf := v3\<rparr>"
  have b1': "num_field_loc b1 = int (length locs)" using b1(1) by (simp add: fbb_rep_def)
  have d: "distinct (map snd locs)" using f by (simp add: fields_ok_def)
  obtain v4 where v4: "vtable_loop (4 * int (length vts)) (length locs) loc ?b = Inr (?b\<lparr>fbb_buf := v4\<rparr>)" "vd_ok v4"
      "vd_used v4 = vt_bytes (vtable_entries loc start locs) @ ?u" "vd_scr v4 = scratch_bytes vts locs"
    using vtable_loop_ok[of ?b ?es ?u vts "[]" locs "4 * int (length vts)" loc] v e d by (auto simp: vtable_entries_def)
  let ?r = "ClearOffsets (?b\<lparr>fbb_buf := v4\<rparr>)"
  have r: "write_vtable start b = Inr (loc, ?r)" using w v4(1) by simp
  have "vd_scr v4 = scratch_bytes vts [] @ concat (map (\<lambda>(off, field). FieldLoc off field) locs)" using v4(4) by (simp add: scratch_bytes_def)
  moreover have "int (length (concat (map (\<lambda>(off, field). FieldLoc off field) locs))) = int (length locs) * 8"
    using length_scratch_bytes[of "[]" locs] by (simp add: scratch_bytes_def)
  ultimately have p: "vd_ok (vd_scratch_pop (int (length locs) * 8) v4)" "vd_used (vd_scratch_pop (int (length locs) * 8) v4) = vd_used v4"
      "vd_scr (vd_scratch_pop (int (length locs) * 8) v4) = scratch_bytes vts []"
    using vd_scratch_pop_ok[OF v4(2)] by metis+
  have "fbb_rep ?r (vt_bytes (vtable_entries loc start locs) @ ?u) vts []"
    using p v4(3) b1(1) b1' by (auto simp: fbb_rep_def ClearOffsets_def sizeof_FieldLoc_def top_field_def)
  then show ?thesis using that[OF r] b1(2-4) by (simp add: same_flags_def ClearOffsets_def)
qed

lemma EndTable_twice:
  assumes b: "fbb_rep b u vts locs" "room u vts locs 16" "nested b" and loc: "loc = int (length u) + (- int (length u)) mod 4 + 4"
    and f: "locs_ok start loc locs" "\<forall>l \<in> set locs. fst l < loc" "\<not> distinct (map snd locs)"
  shows "Builder_EndTable start b = Inl (ProcessExit 134)"
proof -
  let ?u = "le_bytes 4 0 @ replicate (nat ((- int (length u)) mod 4)) 0 @ u" and ?s = "vtable_size locs"
  let ?es = "[?s, loc - start] @ replicate (nat ?s div 2 - 2) 0"
  obtain b1 v3 where w: "write_vtable start b = bind_res (vtable_loop (4 * int (length vts)) (length locs) loc (b1\<lparr>max_voffset := ?s, fbb_buf := v3\<rparr>))
       (\<lambda>b6. Inr (loc, ClearOffsets b6))"
    and v: "vd_ok v3" "vd_used v3 = vt_bytes ?es @ ?u" "vd_scr v3 = scratch_bytes vts locs"
    and e: "list_all (loc_ok loc (length ?es)) locs" "list_all entry_ok ?es"
    using write_vtable_start[OF b loc f(1)] by blast
  have "vtable_loop (4 * int (length vts)) (length locs) loc (b1\<lparr>max_voffset := ?s, fbb_buf := v3\<rparr>) = Inl (ProcessExit 134)"
    by (rule vtable_loop_twice[of _ ?es ?u vts "[]"]) (use v e f(2,3) in simp_all)
  then show ?thesis using w by (simp add: Builder_EndTable_def)
qed

section \<open>Sharing the vtable\<close>

definition has_vtable :: "bytes \<Rightarrow> int \<Rightarrow> int list \<Rightarrow> bool" where
  "has_vtable u vt es \<longleftrightarrow> (\<exists>pre rest. u = pre @ vt_bytes es @ rest \<and> vt = int (2 * length es + length rest))"

definition vtable_wf :: "int list \<Rightarrow> bool" where
  "vtable_wf es \<longleftrightarrow> 2 \<le> length es \<and> es ! 0 = 2 * int (length es) \<and> list_all entry_ok es"

definition vts_ok :: "bytes \<Rightarrow> int list \<Rightarrow> bool" where
  "vts_ok u vts \<longleftrightarrow> (\<forall>vt \<in> set vts. even vt \<and> (\<exists>es. has_vtable u vt es \<and> vtable_wf es))"

lemma has_vtable_append: "has_vtable u vt es \<Longrightarrow> has_vtable (xs @ u) vt es"
  unfolding has_vtable_def by (metis append.assoc)

lemma vts_ok_append: "vts_ok u vts \<Longrightarrow> vts_ok (xs @ u) vts"
  unfolding vts_ok_def using has_vtable_append by blast

lemma has_vtable_bounds: "has_vtable u vt es \<Longrightarrow> vtable_wf es \<Longrightarrow> 4 \<le> vt \<and> vt \<le> int (length u)"
  by (auto simp: has_vtable_def vtable_wf_def)

lemma has_vtable_read:
  assumes "has_vtable u vt es" "vtable_wf es" "i < length es"
  shows "ReadScalar voffset_t u (int (length u) - vt + 2 * int i) = Inr (es ! i)"
proof -
  obtain pre rest where u: "u = pre @ vt_bytes es @ rest" "vt = int (2 * length es + length rest)" using assms(1) by (auto simp: has_vtable_def)
  have "entry_ok (es ! i)" using assms(2,3) by (simp add: vtable_wf_def list_all_length)
  then show ?thesis using ReadScalar_entry[OF assms(3), of pre rest] u by simp
qed

lemma peek_middle: "peek (xs @ ys @ zs) (int (length xs)) (int (length ys)) = Inr ys"
  by (simp add: peek_def)

lemma vd_peek:
  assumes "vd_ok v" "vd_used v = xs @ ys @ zs"
  shows "peek (vd_mem v) (vd_data_at v (int (length ys + length zs))) (int (length ys)) = Inr ys"
proof -
  obtain pre where pre: "vd_mem v = pre @ vd_used v" "int (length pre) = vd_cur v" using vd_mem_split[OF assms(1)] .
  have "vd_data_at v (int (length ys + length zs)) = int (length (pre @ xs))" using vd_lengths(1)[OF assms(1)] assms(2) pre(2) by (simp add: vd_data_at_def)
  then show ?thesis using peek_middle[of "pre @ xs" ys zs] pre(1) assms(2) by simp
qed

lemma dedup_loop_ok:
  assumes "vd_ok v" "vd_used v = vt_bytes es @ rest" "vtable_wf es" "int (length (vd_used v)) < 2 ^ 31"
    and "vd_scr v = scratch_bytes (ds @ vts) []" "vts_ok (vd_used v) vts"
  shows "\<exists>r. dedup_loop (4 * int (length ds)) (length vts) (vd_cur v) (2 * int (length es)) v = Inr r \<and>
    (\<forall>vt. r = Some vt \<longrightarrow> vt \<in> set vts \<and> has_vtable (vd_used v) vt es)"
  using assms(5,6)
proof (induction vts arbitrary: ds)
  case (Cons vt vts)
  let ?goal = "\<lambda>r. \<exists>x. r = Inr x \<and> (\<forall>t. x = Some t \<longrightarrow> t \<in> set (vt # vts) \<and> has_vtable (vd_used v) t es)"
  let ?next = "dedup_loop (4 * int (length ds) + 4) (length vts) (vd_cur v) (2 * int (length es)) v"
  obtain gs where gs: "has_vtable (vd_used v) vt gs" "vtable_wf gs" using Cons.prems(2) by (auto simp: vts_ok_def)
  note bd = has_vtable_bounds[OF gs]
  have "in_range uoffset_t vt" using bd assms(4) by (simp add: in_range_def)
  then have r1: "ReadScalar uoffset_t (vd_mem v) (4 * int (length ds)) = Inr vt" using scratch_vts[OF assms(1)] Cons.prems(1) by simp
  have "0 < length gs" "gs ! 0 = 2 * int (length gs)" using gs(2) by (auto simp: vtable_wf_def)
  then have r2: "ReadScalar voffset_t (vd_mem v) (vd_data_at v vt) = Inr (2 * int (length gs))"
    using has_vtable_read[OF gs, of 0] vd_read_used[OF assms(1), of vt voffset_t] bd by simp
  have "\<exists>r. ?next = Inr r \<and> (\<forall>vt. r = Some vt \<longrightarrow> vt \<in> set vts \<and> has_vtable (vd_used v) vt es)"
    using Cons.IH[of "ds @ [vt]"] Cons.prems by (simp add: vts_ok_def add.commute)
  then have nxt: "?goal ?next" by auto
  show ?case
  proof (cases "length gs = length es")
    case True
    obtain pre tail where u: "vd_used v = pre @ vt_bytes gs @ tail" "vt = int (2 * length gs + length tail)" using gs(1) by (auto simp: has_vtable_def)
    have p1: "peek (vd_mem v) (vd_data_at v vt) (2 * int (length es)) = Inr (vt_bytes gs)" using vd_peek[OF assms(1) u(1)] u(2) True by simp
    have "vd_data_at v (int (length (vt_bytes es) + length rest)) = vd_cur v" using vd_lengths(1)[OF assms(1)] assms(2) by (simp add: vd_data_at_def)
    then have p2: "peek (vd_mem v) (vd_cur v) (2 * int (length es)) = Inr (vt_bytes es)" using vd_peek[OF assms(1), of "[]" "vt_bytes es" rest] assms(2) by simp
    show ?thesis
    proof (cases "vt_bytes gs = vt_bytes es")
      case same: True
      then have "has_vtable (vd_used v) vt es" using u True by (auto simp: has_vtable_def)
      then show ?thesis using r1 r2 p1 p2 True same by simp
    next
      case False
      then have "dedup_loop (4 * int (length ds)) (length (vt # vts)) (vd_cur v) (2 * int (length es)) v = ?next" using r1 r2 p1 p2 True by simp
      then show ?thesis using nxt by simp
    qed
  next
    case False
    then have "dedup_loop (4 * int (length ds)) (length (vt # vts)) (vd_cur v) (2 * int (length es)) v = ?next" using r1 r2 by simp
    then show ?thesis using nxt by simp
  qed
qed simp

text \<open>
  The outcome: the new vtable stays in front of the data and is remembered, or it is taken away again and an older one with the same
  entries is used.
\<close>

definition shared :: "int list \<Rightarrow> bytes \<Rightarrow> bytes \<Rightarrow> int list \<Rightarrow> int \<Rightarrow> bytes \<Rightarrow> int list \<Rightarrow> bool" where
  "shared es xs u vts vt_use front vts' \<longleftrightarrow> (front = [] \<and> vt_use \<in> set vts \<and> has_vtable u vt_use es \<and> vts' = vts) \<or>
     (front = vt_bytes es \<and> vt_use = int (length (vt_bytes es @ xs @ u)) \<and> vts' = vts @ [vt_use])"

lemma has_vtable_suffix:
  assumes "has_vtable (xs @ u) vt es" "vt \<le> int (length u)"
  shows "has_vtable u vt es"
proof -
  obtain pre tail where h: "xs @ u = pre @ vt_bytes es @ tail" "vt = int (2 * length es + length tail)" using assms(1) by (auto simp: has_vtable_def)
  have "length xs \<le> length pre" using arg_cong[OF h(1), of length] h(2) assms(2) by simp
  then have "u = drop (length xs) pre @ vt_bytes es @ tail" using arg_cong[OF h(1), of "drop (length xs)"] by simp
  then show ?thesis using h(2) unfolding has_vtable_def by blast
qed

lemma share_vtable_rep:
  assumes b: "fbb_rep b (vt_bytes es @ xs @ u) vts []" "room (vt_bytes es @ xs @ u) vts [] 8" and es: "vtable_wf es"
    and vts: "vts_ok u vts" "xs \<noteq> []"
  obtains vt_use b' front vts' where "share_vtable (int (length (xs @ u))) b = Inr (vt_use, b')" "fbb_rep b' (front @ xs @ u) vts' []"
    "same_flags b b'" "minalign b' = minalign b" "shared es xs u vts vt_use front vts'"
proof -
  let ?rest = "xs @ u" and ?v = "fbb_buf b"
  note r = rep_bounds[OF b]
  have v: "vd_ok ?v" "vd_used ?v = vt_bytes es @ ?rest" "vd_scr ?v = scratch_bytes vts []" using b(1) by (simp_all add: fbb_rep_def)
  have es0: "0 < length es" "es ! 0 = 2 * int (length es)" using es by (auto simp: vtable_wf_def)
  have "entry_ok (es ! 0)" using es nth_mem[OF es0(1)] unfolding vtable_wf_def list_all_iff by blast
  note es0 = es0 this
  have sz: "ReadScalar voffset_t (vd_mem ?v) (vd_cur ?v) = Inr (2 * int (length es))" using front_read[OF v(1,2) es0(1,3)] es0(2) by simp
  have n: "nat ((vd_scratch ?v + 3) div 4) = length vts" using vd_lengths(2)[OF v(1)] v(3) length_scratch_bytes[of vts "[]"] by simp
  have small: "int (length (vd_used ?v)) < 2 ^ 31" using b(2) v(2) by (simp add: room_def)
  have ok: "vts_ok (vd_used ?v) vts" using vts(1) v(2) vts_ok_append[of u vts "vt_bytes es @ xs"] by simp
  have "\<exists>f. (if dedup_vtables b then dedup_loop 0 (length vts) (vd_cur ?v) (2 * int (length es)) ?v else Inr None) = Inr f \<and>
      (\<forall>vt. f = Some vt \<longrightarrow> vt \<in> set vts \<and> has_vtable (vd_used ?v) vt es)"
    using dedup_loop_ok[OF v(1,2) es small, of "[]" vts] v(3) ok by simp
  then obtain f where f: "(if dedup_vtables b then dedup_loop 0 (length vts) (vd_cur ?v) (2 * int (length es)) ?v else Inr None) = Inr f"
      "\<And>vt. f = Some vt \<Longrightarrow> vt \<in> set vts \<and> has_vtable (vd_used ?v) vt es" by blast
  have gs: "GetSize b = int (length (vt_bytes es @ ?rest))" using r(4) by simp
  show ?thesis
  proof (cases f)
    case None
    have ne: "le_bytes 4 (GetSize b) \<noteq> []" by (metis length_le_bytes list.size(3) zero_neq_numeral)
    obtain w where w: "vd_scratch_push_small (le_bytes 4 (GetSize b)) ?v = Inr w" "vd_ok w" "vd_used w = vd_used ?v" "vd_scr w = vd_scr ?v @ le_bytes 4 (GetSize b)"
      by (rule vd_scratch_push_ok[OF r(1) r(2) r(3) ne]) simp_all
    have "share_vtable (int (length ?rest)) b = Inr (GetSize b, b\<lparr>fbb_buf := w\<rparr>)"
      unfolding share_vtable_def Let_def sz bind_res_simps n f(1) using None w(1) by (simp add: on_buf_def)
    moreover have "fbb_rep (b\<lparr>fbb_buf := w\<rparr>) (vt_bytes es @ ?rest) (vts @ [GetSize b]) []"
      using b(1) w(2-) v(3) by (simp add: fbb_rep_def scratch_bytes_def)
    ultimately show ?thesis using that[of "GetSize b" "b\<lparr>fbb_buf := w\<rparr>" "vt_bytes es" "vts @ [GetSize b]"] gs
      by (simp add: same_flags_def shared_def)
  next
    case (Some vt)
    have vt: "vt \<in> set vts" "has_vtable (vd_used ?v) vt es" using f(2)[OF Some] by simp_all
    obtain gs where "has_vtable u vt gs" "vtable_wf gs" using vts(1) vt(1) by (auto simp: vts_ok_def)
    then have lt: "vt \<le> int (length u)" using has_vtable_bounds by blast
    then have neq: "vt \<noteq> int (length ?rest)" using vts(2) by (cases xs) auto
    let ?w = "vd_pop (int (length (vt_bytes es))) ?v"
    note p = vd_pop_ok[OF v(1,2)]
    let ?b = "b\<lparr>fbb_buf := ?w\<rparr>"
    have rep: "fbb_rep ?b ?rest vts []" using b(1) p by (simp add: fbb_rep_def)
    have "int (length ?rest) < 2 ^ 32" using b(2) by (simp add: room_def)
    then have gb: "GetSize ?b = int (length ?rest)" using vd_size_used[OF p(1)] p(2) by (simp add: GetSize_def)
    have "share_vtable (int (length ?rest)) b = Inr (vt, ?b)"
      unfolding share_vtable_def Let_def sz bind_res_simps n f(1) using Some gs gb neq by simp
    moreover have "has_vtable u vt es" by (rule has_vtable_suffix[of "vt_bytes es @ xs"]) (use vt(2) v(2) lt in simp_all)
    ultimately show ?thesis using that[of vt ?b "[]" vts] rep vt(1) by (simp add: same_flags_def shared_def)
  qed
qed

section \<open>The finished table\<close>

text \<open>A table at distance \<open>loc\<close> from the end, with its vtable at distance \<open>vt\<close>.\<close>

definition table_at :: "bytes \<Rightarrow> int \<Rightarrow> int \<Rightarrow> int list \<Rightarrow> bool" where
  "table_at u loc vt es \<longleftrightarrow> rd soffset_t u loc = Inr (vt - loc) \<and> loc \<le> int (length u) \<and> even vt \<and> has_vtable u vt es \<and> vtable_wf es"

lemma table_at_append: "table_at u loc vt es \<Longrightarrow> table_at (xs @ u) loc vt es"
  by (auto simp: table_at_def rd_append has_vtable_append)

lemma table_at_field:
  assumes "table_at u loc vt es" "even key" "0 \<le> key"
  shows "GetOptionalFieldOffset u (int (length u) - loc) key = Inr (if key < 2 * int (length es) then es ! (nat key div 2) else 0)"
proof -
  have t: "rd soffset_t u loc = Inr (vt - loc)" "has_vtable u vt es" "vtable_wf es" using assms(1) by (simp_all add: table_at_def)
  have vt: "GetVTable u (int (length u) - loc) = Inr (int (length u) - vt)" using t(1) by (simp add: GetVTable_def rd_def)
  have "0 < length es" "es ! 0 = 2 * int (length es)" using t(3) by (auto simp: vtable_wf_def)
  then have sz: "ReadScalar voffset_t u (int (length u) - vt) = Inr (2 * int (length es))" using has_vtable_read[OF t(2,3), of 0] by simp
  show ?thesis
  proof (cases "key < 2 * int (length es)")
    case True
    have "nat key div 2 < length es" "2 * int (nat key div 2) = key" using True assms(2,3) by auto
    then show ?thesis using has_vtable_read[OF t(2,3), of "nat key div 2"] vt sz True by (simp add: GetOptionalFieldOffset_def)
  qed (use vt sz in \<open>simp add: GetOptionalFieldOffset_def\<close>)
qed

lemma entries_wf: "fields_ok start loc locs \<Longrightarrow> vtable_wf (vtable_entries loc start locs)"
  using locs_okD[OF fields_ok_locs, of start loc locs] unfolding vtable_wf_def by simp

definition table_closed :: "builder \<Rightarrow> builder \<Rightarrow> bool" where
  "table_closed b b' \<longleftrightarrow> \<not> nested b' \<and> finished b' = finished b \<and> force_defaults b' = force_defaults b \<and> dedup_vtables b' = dedup_vtables b"

lemma to_int_small: "0 \<le> x \<Longrightarrow> x < 2 ^ 31 \<Longrightarrow> to_int x = x"
  by (simp add: to_int_def signed_take_bit_int_eq_self)

lemma end_aligned: "loc = int n + (- int n) mod 4 + 4 \<Longrightarrow> loc mod 4 = 0"
  by presburger

lemma EndTable_rep:
  assumes b: "fbb_rep b u vts locs" "room u vts locs 70000" "nested b" "vts_ok u vts"
    and loc: "loc = int (length u) + (- int (length u)) mod 4 + 4" and f: "fields_ok start loc locs"
  obtains b' vt xs vts' where "Builder_EndTable start b = Inr (loc, b')" "fbb_rep b' (xs @ u) vts' []" "table_closed b b'" "vts_ok (xs @ u) vts'"
    "table_at (xs @ u) loc vt (vtable_entries loc start locs)" "int (length xs) \<le> 65543" "4 * length vts' \<le> 4 * length vts + length xs"
    "minalign b \<le> minalign b'" "4 \<le> minalign b'"
proof -
  let ?es = "vtable_entries loc start locs" and ?pad = "replicate (nat ((- int (length u)) mod 4)) (0 :: 8 word)"
  note fD = locs_okD[OF fields_ok_locs[OF f]] and wf = entries_wf[OF f]
  have p4: "0 \<le> (- int (length u)) mod 4" "(- int (length u)) mod 4 < 4" by simp_all
  have lpad: "int (length ?pad) = (- int (length u)) mod 4" using p4 by simp
  have r16: "room u vts locs 16" using b(2) by (rule room_mono) simp
  obtain b1 where b1: "write_vtable start b = Inr (loc, b1)" "fbb_rep b1 (vt_bytes ?es @ (le_bytes 4 0 @ ?pad) @ u) vts []" "same_flags b b1"
      "minalign b \<le> minalign b1" "4 \<le> minalign b1"
    using write_vtable_rep[OF b(1) r16 b(3) loc f] by auto
  have es: "int (length (vt_bytes ?es)) < 2 ^ 16" using fD(2,4) by simp
  have ll: "int (length ((le_bytes 4 0 @ ?pad) @ u)) = loc" using loc lpad by simp
  have locb: "0 \<le> loc" "loc < int (length u) + 8" using loc p4 by linarith+
  have al: "even loc" using end_aligned[OF loc] by presburger
  have "int (length (vt_bytes ?es @ (le_bytes 4 0 @ ?pad) @ u)) = int (length (vt_bytes ?es)) + loc" using ll by simp
  moreover have "int (length u) + 70000 < 2 ^ 31 - 1" "4 * int (length vts) + 70000 < 2 ^ 32" using b(2) by (simp_all add: room_def)
  ultimately have r1: "room (vt_bytes ?es @ (le_bytes 4 0 @ ?pad) @ u) vts [] 8" and small: "int (length (vt_bytes ?es)) + loc < 2 ^ 31"
    using es locb(2) unfolding room_def by auto
  have ne: "le_bytes 4 0 @ ?pad \<noteq> []" by (metis append_is_Nil_conv length_le_bytes list.size(3) zero_neq_numeral)
  obtain vt b2 front vts' where b2: "share_vtable loc b1 = Inr (vt, b2)" "fbb_rep b2 (front @ (le_bytes 4 0 @ ?pad) @ u) vts' []" "same_flags b1 b2"
      "minalign b2 = minalign b1" "shared ?es (le_bytes 4 0 @ ?pad) u vts vt front vts'"
    using share_vtable_rep[OF b1(2) r1 wf b(4) ne, unfolded ll] .
  let ?xs = "front @ le_bytes 4 (vt - loc) @ ?pad"
  have v2: "vd_ok (fbb_buf b2)" "vd_used (fbb_buf b2) = front @ le_bytes 4 0 @ ?pad @ u" using b2(2) by (simp_all add: fbb_rep_def)
  obtain w where w: "vd_store (vd_data_at (fbb_buf b2) loc) (le_bytes 4 (vt - loc)) (fbb_buf b2) = Inr w" "vd_ok w" "vd_used w = ?xs @ u"
      "vd_scr w = vd_scr (fbb_buf b2)"
    using vd_store_used[OF v2, of "le_bytes 4 (vt - loc)"] ll by auto
  consider "front = []" "vt \<in> set vts" "has_vtable u vt ?es" "vts' = vts"
    | "front = vt_bytes ?es" "vt = int (length (vt_bytes ?es @ (le_bytes 4 0 @ ?pad) @ u))" "vts' = vts @ [vt]"
    using b2(5) by (auto simp: shared_def)
  then have "has_vtable (?xs @ u) vt ?es \<and> even vt \<and> vt < 2 ^ 31 \<and> vts_ok (?xs @ u) vts' \<and> 4 * length vts' \<le> 4 * length vts + length ?xs"
  proof cases
    case 1
    then have "vt \<le> int (length u)" using has_vtable_bounds[OF 1(3) wf] by simp
    moreover have "even vt" using b(4) 1(2) by (simp add: vts_ok_def)
    ultimately show ?thesis using 1 has_vtable_append[OF 1(3), of ?xs] vts_ok_append[OF b(4), of ?xs] b(2) by (simp add: room_def)
  next
    case 2
    have h: "has_vtable (?xs @ u) vt ?es" unfolding has_vtable_def
      by (intro exI[of _ "[]"] exI[of _ "le_bytes 4 (vt - loc) @ ?pad @ u"]) (use 2 in simp)
    have "vt = 2 * int (length ?es) + loc" using 2(2) ll by simp
    then have ev: "even vt" using al by simp
    have "vts_ok (?xs @ u) vts'" using h ev 2(3) wf vts_ok_append[OF b(4), of ?xs] by (auto simp: vts_ok_def)
    moreover have "4 \<le> length (vt_bytes ?es)" using fD(9) by simp
    ultimately show ?thesis using h al 2 small ll by simp
  qed
  then have hv: "has_vtable (?xs @ u) vt ?es" and ev: "even vt" and vb: "0 \<le> vt" "vt < 2 ^ 31" and vo: "vts_ok (?xs @ u) vts'" and lf: "4 * length vts' \<le> 4 * length vts + length ?xs"
    using has_vtable_bounds[OF _ wf, of "?xs @ u" vt] by auto
  let ?b = "b2\<lparr>fbb_buf := w, nested := False\<rparr>"
  have "fits_int (vt - loc)" using vb locb small by (simp add: fits_int_def)
  then have e: "Builder_EndTable start b = Inr (loc, ?b)"
    using b1(1) b2(1) w(1) vb locb small by (simp add: Builder_EndTable_def to_int_small checked_int_def on_buf_def del: bind_res_eq_Inr checked_int_Inr)
  have "in_range soffset_t (vt - loc)" using vb locb small by (simp add: in_range_def)
  then have "rd soffset_t (le_bytes 4 (vt - loc) @ ?pad @ u) loc = Inr (vt - loc)" using rd_front[of soffset_t "vt - loc" "?pad @ u"] ll by simp
  then have "rd soffset_t (?xs @ u) loc = Inr (vt - loc)" using rd_append[of loc "le_bytes 4 (vt - loc) @ ?pad @ u" soffset_t front] ll by simp
  then have "table_at (?xs @ u) loc vt ?es" using hv ev wf ll by (simp add: table_at_def)
  moreover have "fbb_rep ?b (?xs @ u) vts' []" using b2(2) w by (simp add: fbb_rep_def)
  moreover have "int (length ?xs) \<le> 65543" using b2(5) es p4 by (auto simp: shared_def)
  moreover have "table_closed b ?b" using b1(3) b2(3) by (simp add: table_closed_def same_flags_def)
  moreover have "minalign b \<le> minalign ?b" "4 \<le> minalign ?b" using b1(4,5) b2(4) by simp_all
  ultimately show ?thesis using that[of ?b ?xs vts' vt] e vo lf by blast
qed

end
