(* ===== verification/Builder_Objects.thy ===== *)
theory Builder_Objects
  imports Builder_Tables
begin

text \<open>
  Building objects and reading them back: tables, strings, vectors of scalars and vectors of offsets. What was written is read again at the same
  distance from the end of the buffer, whatever is added in front later.
\<close>

section \<open>Objects\<close>

text \<open>One call of the interface for each kind of object. \<open>create_table\<close> is the body of the generated functions.\<close>

datatype fb_object = Table "field_add list" | Str bytes | Vec scalar_type "int list" | OffVec "int list"

fun build :: "fb_object \<Rightarrow> builder \<Rightarrow> (int \<times> builder) res" where
  "build (Table fs) b = create_table fs b"
| "build (Str bs) b = CreateString bs b"
| "build (Vec ty xs) b = CreateVector ty xs b"
| "build (OffVec offs) b = CreateVector_offsets offs b"

text \<open>
  What a reader finds at distance \<open>loc\<close> from the end. A scalar field is what was stored, or the default where that compares equal; an offset
  leads to the object it was made from, and a field that was not given is absent.
\<close>

definition field_reads :: "bytes \<Rightarrow> int \<Rightarrow> field_add \<Rightarrow> bool" where
  "field_reads u data f \<longleftrightarrow> (case f of
     Element ty key e d \<Rightarrow> \<exists>x. Table_GetField ty u data key d = Inr x \<and> (x = e \<or> x = d \<and> IsTheSameAs ty e d)
   | Refer key off \<Rightarrow> Table_GetPointer u data key = Inr (if off = 0 then None else Some (int (length u) - off)))"

fun reads_as :: "bytes \<Rightarrow> int \<Rightarrow> fb_object \<Rightarrow> bool" where
  "reads_as u p (Table fs) \<longleftrightarrow> (\<forall>f \<in> set fs. field_reads u p f) \<and>
     (\<forall>key. even key \<and> 4 \<le> key \<and> key \<notin> add_key ` set fs \<longrightarrow> Table_CheckField u p key = Inr False)"
| "reads_as u p (Str bs) \<longleftrightarrow> Vector_size u p = Inr (int (length bs)) \<and> peek u (p + 4) (int (length bs)) = Inr bs \<and>
     vec_at u (p + 4 + int (length bs)) = Inr 0"
| "reads_as u p (Vec ty xs) \<longleftrightarrow> Vector_size u p = Inr (int (length xs)) \<and> (\<forall>i < length xs. Vector_Get ty u p i = Inr (xs ! i))"
| "reads_as u p (OffVec offs) \<longleftrightarrow> Vector_size u p = Inr (int (length offs)) \<and>
     (\<forall>i < length offs. Vector_GetOffset u p i = Inr (int (length u) - offs ! i))"

section \<open>Reads are stable\<close>

lemma ReadScalar_stable: "ReadScalar ty u p = Inr x \<Longrightarrow> ReadScalar ty (ws @ u) (int (length ws) + p) = Inr x"
  using ReadScalar_bounds(1)[of ty u p x] ReadScalar_append[of p ty ws u] by simp

lemma field_offset_stable:
  "GetOptionalFieldOffset u p k = Inr x \<Longrightarrow> GetOptionalFieldOffset (ws @ u) (int (length ws) + p) k = Inr x"
proof -
  assume a: "GetOptionalFieldOffset u p k = Inr x"
  then obtain s n where s: "ReadScalar soffset_t u p = Inr s" "ReadScalar voffset_t u (p - s) = Inr n"
      "(if k < n then ReadScalar voffset_t u (p - s + k) else Inr 0) = Inr x"
    by (auto simp: GetOptionalFieldOffset_def GetVTable_def)
  have "ReadScalar soffset_t (ws @ u) (int (length ws) + p) = Inr s" by (rule ReadScalar_stable[OF s(1)])
  moreover have "ReadScalar voffset_t (ws @ u) (int (length ws) + p - s) = Inr n" using ReadScalar_stable[OF s(2), of ws] by (simp add: algebra_simps)
  moreover have "(if k < n then ReadScalar voffset_t (ws @ u) (int (length ws) + p - s + k) else Inr 0) = Inr x"
    using s(3) ReadScalar_stable[of voffset_t u "p - s + k" x ws] by (auto simp: algebra_simps split: if_splits)
  ultimately show ?thesis by (simp add: GetOptionalFieldOffset_def GetVTable_def del: bind_res_eq_Inr)
qed

lemma GetField_stable: "Table_GetField ty u p k d = Inr x \<Longrightarrow> Table_GetField ty (ws @ u) (int (length ws) + p) k d = Inr x"
proof -
  assume "Table_GetField ty u p k d = Inr x"
  then obtain off where o: "GetOptionalFieldOffset u p k = Inr off" "(if off \<noteq> 0 then ReadScalar ty u (p + off) else Inr d) = Inr x"
    by (auto simp: Table_GetField_def)
  have "(if off \<noteq> 0 then ReadScalar ty (ws @ u) (int (length ws) + p + off) else Inr d) = Inr x"
    using o(2) ReadScalar_stable[of ty u "p + off" x ws] by (auto simp: add.assoc split: if_splits)
  then show ?thesis using field_offset_stable[OF o(1), of ws] by (simp add: Table_GetField_def del: bind_res_eq_Inr)
qed

lemma GetPointer_stable:
  assumes "Table_GetPointer u p k = Inr q"
  shows "Table_GetPointer (ws @ u) (int (length ws) + p) k = Inr (map_option ((+) (int (length ws))) q)"
proof (cases "GetOptionalFieldOffset u p k")
  case (Inr off)
  note o = field_offset_stable[OF Inr, of ws]
  show ?thesis
  proof (cases "off = 0")
    case True
    then show ?thesis using assms Inr o by (simp add: Table_GetPointer_def)
  next
    case False
    then obtain r where r: "ReadScalar uoffset_t u (p + off) = Inr r" "q = Some (p + off + r)"
      using assms Inr by (auto simp: Table_GetPointer_def Let_def)
    have "ReadScalar uoffset_t (ws @ u) (int (length ws) + p + off) = Inr r" using ReadScalar_stable[OF r(1), of ws] by (simp add: add.assoc)
    then show ?thesis using o r(2) False by (simp add: Table_GetPointer_def Let_def)
  qed
qed (use assms in \<open>simp add: Table_GetPointer_def\<close>)

lemma peek_stable: "peek u p n = Inr xs \<Longrightarrow> peek (ws @ u) (int (length ws) + p) n = Inr xs"
  by (auto simp: peek_def nat_add_distrib split: if_splits)

lemma vec_at_stable: "vec_at u p = Inr x \<Longrightarrow> vec_at (ws @ u) (int (length ws) + p) = Inr x"
  by (auto simp: nth_append nat_add_distrib)

lemma field_reads_stable: "field_reads u p f \<Longrightarrow> field_reads (ws @ u) (int (length ws) + p) f"
  by (cases f) (auto simp: field_reads_def dest: GetField_stable[of _ _ _ _ _ _ ws] GetPointer_stable[of _ _ _ _ ws])

lemma reads_as_stable: "reads_as u p obj \<Longrightarrow> reads_as (ws @ u) (int (length ws) + p) obj"
proof (induction obj)
  case (Table fs)
  have "Table_CheckField (ws @ u) (int (length ws) + p) key = Inr False" if "Table_CheckField u p key = Inr False" for key
    using that field_offset_stable[of u p key _ ws] by (cases "GetOptionalFieldOffset u p key") (auto simp: Table_CheckField_def)
  then show ?case using Table by (simp add: field_reads_stable)
next
  case (Str bs)
  then show ?case using ReadScalar_stable[of uoffset_t u p _ ws] peek_stable[of u "p + 4" _ _ ws] vec_at_stable[of u "p + 4 + int (length bs)" 0 ws]
    by (simp add: Vector_size_def add.assoc del: vec_at_Inr)
next
  case (Vec ty xs)
  then show ?case using ReadScalar_stable[of _ u _ _ ws] by (simp add: Vector_size_def Vector_Get_def add.assoc)
next
  case (OffVec offs)
  have "Vector_GetOffset (ws @ u) (int (length ws) + p) i = Inr (int (length (ws @ u)) - offs ! i)" if "i < length offs" for i
  proof -
    let ?p = "p + 4 + int i * 4"
    have "Vector_GetOffset u p i = Inr (int (length u) - offs ! i)" using OffVec that by simp
    then obtain r where "ReadScalar uoffset_t u ?p = Inr r" "?p + r = int (length u) - offs ! i" by (auto simp: Vector_GetOffset_def Let_def)
    then show ?thesis using ReadScalar_stable[of uoffset_t u ?p r ws] by (simp add: Vector_GetOffset_def Let_def add.assoc)
  qed
  then show ?case using OffVec ReadScalar_stable[of uoffset_t u p _ ws] by (simp add: Vector_size_def)
qed

section \<open>Layout\<close>

text \<open>
  Where an object at distance \<open>loc\<close> from the end and its parts are: on multiples of four, a vtable on an even place with all its bytes in the
  data, and an offset behind the object it leads to.
\<close>

definition offset_placed :: "bytes \<Rightarrow> int \<Rightarrow> field_add \<Rightarrow> bool" where
  "offset_placed u loc f \<longleftrightarrow> (case f of Element ty key e d \<Rightarrow> True
     | Refer key off \<Rightarrow> \<exists>fo. GetOptionalFieldOffset u (int (length u) - loc) key = Inr fo \<and> fo mod 4 = 0 \<and> (off \<noteq> 0 \<longrightarrow> off < loc - fo))"

fun laid_out :: "bytes \<Rightarrow> int \<Rightarrow> fb_object \<Rightarrow> bool" where
  "laid_out u loc (Table fs) \<longleftrightarrow> loc mod 4 = 0 \<and> (\<exists>vt n. rd soffset_t u loc = Inr (vt - loc) \<and> rd voffset_t u vt = Inr n \<and> even vt \<and> even n \<and>
     n \<le> vt \<and> vt \<le> int (length u)) \<and> list_all (offset_placed u loc) fs"
| "laid_out u loc obj \<longleftrightarrow> loc mod 4 = 0"

lemma offset_placed_stable: "offset_placed u loc f \<Longrightarrow> offset_placed (ws @ u) loc f"
  using field_offset_stable[of u "int (length u) - loc" _ _ ws] by (auto simp: offset_placed_def add_diff_eq split: field_add.splits)

lemma laid_out_stable: "laid_out u loc obj \<Longrightarrow> loc \<le> int (length u) \<Longrightarrow> laid_out (ws @ u) loc obj"
proof (induction obj)
  case (Table fs)
  then obtain vt n where "rd soffset_t u loc = Inr (vt - loc)" "rd voffset_t u vt = Inr n" "even vt" "even n" "n \<le> vt" "vt \<le> int (length u)" by auto
  moreover have "list_all (offset_placed (ws @ u) loc) fs" using Table by (auto simp: list_all_iff offset_placed_stable)
  ultimately show ?case using Table by (auto simp: rd_append)
qed simp_all

text \<open>A stored scalar and the elements of a vector are on multiples of their size, which the builder has taken note of.\<close>

definition element_aligned :: "int \<Rightarrow> bytes \<Rightarrow> int \<Rightarrow> field_add \<Rightarrow> bool" where
  "element_aligned m u loc f \<longleftrightarrow> (case f of Refer key off \<Rightarrow> True
     | Element ty key e d \<Rightarrow> \<exists>fo. GetOptionalFieldOffset u (int (length u) - loc) key = Inr fo \<and> (fo \<noteq> 0 \<longrightarrow> (loc - fo) mod int (sizeof ty) = 0 \<and> int (sizeof ty) \<le> m))"

fun aligned :: "int \<Rightarrow> bytes \<Rightarrow> int \<Rightarrow> fb_object \<Rightarrow> bool" where
  "aligned m u loc (Table fs) \<longleftrightarrow> list_all (element_aligned m u loc) fs"
| "aligned m u loc (Vec ty xs) \<longleftrightarrow> (loc - 4) mod int (sizeof ty) = 0 \<and> int (sizeof ty) \<le> m"
| "aligned m u loc obj \<longleftrightarrow> True"

lemma aligned_stable: "aligned m u loc obj \<Longrightarrow> m \<le> m' \<Longrightarrow> aligned m' (ws @ u) loc obj"
proof (induction obj)
  case (Table fs)
  have "element_aligned m' (ws @ u) loc f" if "element_aligned m u loc f" for f
    using that Table(2) field_offset_stable[of u "int (length u) - loc" _ _ ws] by (fastforce simp: element_aligned_def add_diff_eq split: field_add.splits)
  then show ?case using Table(1) by (auto simp: list_all_iff)
qed auto

section \<open>A table that was built\<close>

text \<open>A builder between two objects.\<close>

definition fbb_ok :: "builder \<Rightarrow> bytes \<Rightarrow> int list \<Rightarrow> bool" where
  "fbb_ok b u vts \<longleftrightarrow> fbb_rep b u vts [] \<and> \<not> nested b \<and> vts_ok u vts \<and> 4 * length vts \<le> length u"

definition key_ok :: "int \<Rightarrow> bool" where
  "key_ok key \<longleftrightarrow> even key \<and> 4 \<le> key \<and> key < 2 ^ 16 - 2"

lemma list_all2_find: "list_all2 P xs ys \<Longrightarrow> x \<in> set xs \<Longrightarrow> \<exists>y \<in> set ys. P x y"
  by (induction rule: list_all2_induct) auto

lemma list_all2_back: "list_all2 P xs ys \<Longrightarrow> y \<in> set ys \<Longrightarrow> \<exists>x \<in> set xs. P x y"
  by (induction rule: list_all2_induct) auto

lemma remembered_keys: "list_all2 (remembered u start) fs locs \<Longrightarrow> map snd locs = map add_key fs"
  by (induction rule: list_all2_induct) (auto simp: remembered_def)

lemma entered:
  assumes "fields_ok start loc locs" "l \<in> set locs"
  shows "vtable_entries loc start locs ! (nat (snd l) div 2) = loc - fst l"
proof -
  have "list_all (loc_ok loc (length ([vtable_size locs, loc - start] @ replicate (nat (vtable_size locs) div 2 - 2) 0))) locs"
    using locs_okD(5)[OF fields_ok_locs[OF assms(1)]] by (simp add: vtable_entries_def)
  then show ?thesis unfolding vtable_entries_def by (rule enter_entry[OF _ conjunct1[OF assms(1)[unfolded fields_ok_def]] assms(2)])
qed

lemma stored_field_reads:
  assumes t: "table_at u loc vt (vtable_entries loc start locs)" and ok: "fields_ok start loc locs"
    and l: "l \<in> set locs" "remembered u start f l" "fst l < loc" and f: "add_ok u f" "\<not> skipped fd f"
  shows "field_reads u (int (length u) - loc) f"
proof -
  let ?es = "vtable_entries loc start locs"
  have k: "even (snd l)" "4 \<le> snd l" "snd l < 2 * int (length ?es)" using locs_okD(5)[OF fields_ok_locs[OF ok]] l(1) by (auto simp: list_all_iff loc_ok_def)
  have off: "GetOptionalFieldOffset u (int (length u) - loc) (add_key f) = Inr (loc - fst l)"
    using table_at_field[OF t k(1)] entered[OF ok l(1)] k l(2) by (simp add: remembered_def)
  have r: "ReadScalar (add_type f) u (int (length u) - loc + (loc - fst l)) = Inr (add_value f (fst l))"
    using l(2) by (simp add: remembered_def stores_def rd_def)
  show ?thesis
  proof (cases f)
    case (Element ty key e d)
    then show ?thesis using off r l(3) by (simp add: field_reads_def Table_GetField_def)
  next
    case (Refer key o1)
    then show ?thesis using off r l(3) f(2) by (simp add: field_reads_def Table_GetPointer_def Let_def)
  qed
qed

text \<open>The offset fields of a table that was built are where the verifier wants them.\<close>

lemma stored_field_placed:
  assumes t: "table_at u loc vt (vtable_entries loc start locs)" and ok: "fields_ok start loc locs" "loc mod 4 = 0"
    and l: "l \<in> set locs" "remembered u start f l" and f: "add_ok v f" "int (length v) \<le> start"
  shows "offset_placed u loc f"
proof (cases f)
  case (Refer key off)
  have k: "even (snd l)" "4 \<le> snd l" "snd l < 2 * int (length (vtable_entries loc start locs))"
    using locs_okD(5)[OF fields_ok_locs[OF ok(1)]] l(1) by (auto simp: list_all_iff loc_ok_def)
  have "GetOptionalFieldOffset u (int (length u) - loc) key = Inr (loc - fst l)"
    using table_at_field[OF t k(1)] entered[OF ok(1) l(1)] k l(2) Refer by (simp add: remembered_def)
  moreover have "fst l mod 4 = 0" using l(2) Refer by (simp add: remembered_def stores_def)
  then have "(loc - fst l) mod 4 = 0" using ok(2) by presburger
  moreover have "off < fst l" using l(2) f Refer by (simp add: remembered_def)
  ultimately show ?thesis using Refer by (simp add: offset_placed_def)
qed (simp add: offset_placed_def)

lemma stored_field_aligned:
  assumes t: "table_at u loc vt (vtable_entries loc start locs)" and ok: "fields_ok start loc locs"
    and l: "l \<in> set locs" "remembered u start f l" and m: "int (sizeof (add_type f)) \<le> m"
  shows "element_aligned m u loc f"
proof (cases f)
  case (Element ty key e d)
  have k: "even (snd l)" "4 \<le> snd l" "snd l < 2 * int (length (vtable_entries loc start locs))"
    using locs_okD(5)[OF fields_ok_locs[OF ok]] l(1) by (auto simp: list_all_iff loc_ok_def)
  have "GetOptionalFieldOffset u (int (length u) - loc) key = Inr (loc - fst l)"
    using table_at_field[OF t k(1)] entered[OF ok l(1)] k l(2) Element by (simp add: remembered_def)
  then show ?thesis using l(2) m Element by (simp add: element_aligned_def remembered_def stores_def)
qed (simp add: element_aligned_def)

lemma absent_field:
  assumes t: "table_at u loc vt (vtable_entries loc start locs)" and ok: "fields_ok start loc locs"
    and k: "even key" "4 \<le> key" "key \<notin> snd ` set locs"
  shows "GetOptionalFieldOffset u (int (length u) - loc) key = Inr 0"
proof -
  let ?es = "vtable_entries loc start locs"
  have "?es ! (nat key div 2) = 0" if lt: "key < 2 * int (length ?es)"
  proof -
    have "nat (snd l) div 2 \<noteq> nat key div 2" if "l \<in> set locs" for l
    proof -
      have "even (snd l)" "4 \<le> snd l" "snd l \<noteq> key" using ok k(3) that by (auto simp: fields_ok_def locs_ok_def)
      then show ?thesis using even_keys[of "snd l" key] k by simp
    qed
    then have "nat key div 2 \<notin> (\<lambda>l. nat (snd l) div 2) ` set locs" by fastforce
    then have e: "?es ! (nat key div 2) = ([vtable_size locs, loc - start] @ replicate (nat (vtable_size locs) div 2 - 2) 0) ! (nat key div 2)"
      unfolding vtable_entries_def by (rule enter_other)
    define j where "j = nat key div 2 - 2"
    have j: "nat key div 2 = Suc (Suc j)" using k unfolding j_def by linarith
    have "nat key div 2 < length ?es" using lt k by auto
    then have "j < nat (vtable_size locs) div 2 - 2" using j by (simp add: vtable_entries_def)
    then show ?thesis using e unfolding j by simp
  qed
  then show ?thesis using table_at_field[OF t k(1)] k(2) by simp
qed

lemma table_at_laid:
  assumes "table_at u loc vt es"
  shows "\<exists>vt n. rd soffset_t u loc = Inr (vt - loc) \<and> rd voffset_t u vt = Inr n \<and> even vt \<and> even n \<and> n \<le> vt \<and> vt \<le> int (length u)"
proof -
  have t: "rd soffset_t u loc = Inr (vt - loc)" "even vt" "has_vtable u vt es" "vtable_wf es" using assms by (simp_all add: table_at_def)
  have "0 < length es" "es ! 0 = 2 * int (length es)" using t(4) by (auto simp: vtable_wf_def)
  then have "rd voffset_t u vt = Inr (2 * int (length es))" using has_vtable_read[OF t(3,4), of 0] by (simp add: rd_def)
  moreover have "2 * int (length es) \<le> vt" using t(3) by (auto simp: has_vtable_def)
  ultimately show ?thesis using t has_vtable_bounds[OF t(3,4)] by (intro exI[of _ vt] exI[of _ "2 * int (length es)"]) simp
qed

text \<open>A generated function builds a table whose fields are read as they were given.\<close>

text \<open>A table up to \<^verbatim>\<open>EndTable\<close>: its stored fields are remembered with their places, whether or not two have the same key.\<close>

lemma create_table_start:
  assumes b: "fbb_ok b u vts" "int (length u) + 200000 < 2 ^ 31 - 1" and fs: "\<forall>f \<in> set fs. add_ok u f \<and> key_ok (add_key f)" "length fs \<le> 4000"
  obtains b2 xs new loc where "create_table fs b = Builder_EndTable (int (length u)) b2" "fields_added fs (b\<lparr>nested := True\<rparr>) u vts [] b2 xs new"
    "loc = int (length (xs @ u)) + (- int (length (xs @ u))) mod 4 + 4" "locs_ok (int (length u)) loc new" "\<forall>l \<in> set new. fst l < loc"
    "map snd new = map add_key (filter (\<lambda>f. \<not> skipped (force_defaults b) f) fs)" "room (xs @ u) vts new 70000" "nested b2" "force_defaults b2 = force_defaults b"
proof -
  let ?b = "b\<lparr>nested := True\<rparr>"
  have rep: "fbb_rep ?b u vts []" "\<not> nested b" "vts_ok u vts" "4 * length vts \<le> length u" "num_field_loc b = 0" using b(1) by (auto simp: fbb_ok_def fbb_rep_def)
  have room: "room u vts [] (32 * (int (length fs) + 1))" using b(2) rep(4) fs(2) by (simp add: room_def)
  have rb: "fbb_rep b u vts []" using b(1) by (simp add: fbb_ok_def)
  have "GetSize b = int (length u)" using rep_bounds(4)[OF rb room] by simp
  then have st: "Builder_StartTable b = Inr (int (length u), ?b)" using rep(2,5) by (simp add: Builder_StartTable_def NotNested_def FLATBUFFERS_ASSERT_def)
  obtain b2 xs new where b2: "add_fields fs ?b = Inr b2" "fields_added fs ?b u vts [] b2 xs new"
    using add_fields_rep[OF rep(1) room] fs by auto
  let ?u = "xs @ u" and ?fs = "filter (\<lambda>f. \<not> skipped (force_defaults b) f) fs"
  have a: "same_flags ?b b2" "list_all2 (remembered ?u (int (length u))) ?fs new" "length xs \<le> 15 * length fs"
    using b2(2) by (simp_all add: fields_added_def)
  define loc where "loc = int (length ?u) + (- int (length ?u)) mod 4 + 4"
  have p4: "0 \<le> (- int (length ?u)) mod 4" "(- int (length ?u)) mod 4 < 4" by simp_all
  have lb: "int (length ?u) < loc" "loc < int (length ?u) + 8" unfolding loc_def using p4 by linarith+
  have "int (length u) < fst l \<and> fst l \<le> int (length ?u) \<and> key_ok (snd l)" if "l \<in> set new" for l
    using list_all2_back[OF a(2) that] fs(1) by (auto simp: remembered_def stores_def)
  then have each: "\<forall>l \<in> set new. int (length u) \<le> fst l \<and> fst l \<le> loc \<and> fst l < loc \<and> key_ok (snd l)" using lb by fastforce
  have "loc - int (length u) < 2 ^ 16" "loc < 2 ^ 32" using lb a(3) fs(2) b(2) by simp_all
  then have ok: "locs_ok (int (length u)) loc new" using each lb by (simp add: locs_ok_def key_ok_def)
  have "int (length new) \<le> 4000" using list_all2_lengthD[OF a(2)] fs(2) length_filter_le[of _ fs] by (metis le_trans of_nat_mono of_nat_numeral)
  then have room2: "room ?u vts new 70000" using b(2) rep(4) a(3) fs(2) by (simp add: room_def)
  have nb: "nested b2" "force_defaults b2 = force_defaults b" using a(1) by (simp_all add: same_flags_def)
  show ?thesis
    by (rule that[OF _ b2(2) loc_def ok _ remembered_keys[OF a(2)] room2 nb]) (use st b2(1) each in \<open>simp_all add: create_table_def\<close>)
qed

lemma create_table_twice:
  assumes b: "fbb_ok b u vts" "int (length u) + 200000 < 2 ^ 31 - 1" and fs: "\<forall>f \<in> set fs. add_ok u f \<and> key_ok (add_key f)" "length fs \<le> 4000"
    and d: "\<not> distinct (map add_key (filter (\<lambda>f. \<not> skipped (force_defaults b) f) fs))"
  shows "create_table fs b = Inl (ProcessExit 134)"
proof -
  obtain b2 xs new loc where c: "create_table fs b = Builder_EndTable (int (length u)) b2" "fields_added fs (b\<lparr>nested := True\<rparr>) u vts [] b2 xs new"
    "loc = int (length (xs @ u)) + (- int (length (xs @ u))) mod 4 + 4" "locs_ok (int (length u)) loc new" "\<forall>l \<in> set new. fst l < loc"
    "map snd new = map add_key (filter (\<lambda>f. \<not> skipped (force_defaults b) f) fs)" "room (xs @ u) vts new 70000" "nested b2" "force_defaults b2 = force_defaults b"
    using create_table_start[OF b fs] .
  have "fbb_rep b2 (xs @ u) vts new" using c(2) by (simp add: fields_added_def)
  moreover have "room (xs @ u) vts new 16" using c(7) by (rule room_mono) simp
  moreover have "\<not> distinct (map snd new)" using c(6) d by simp
  ultimately have "Builder_EndTable (int (length u)) b2 = Inl (ProcessExit 134)" by (rule EndTable_twice[OF _ _ c(8,3,4,5)])
  then show ?thesis using c(1) by simp
qed

lemma create_table_ok:
  assumes b: "fbb_ok b u vts" "int (length u) + 200000 < 2 ^ 31 - 1" and fs: "\<forall>f \<in> set fs. add_ok u f \<and> key_ok (add_key f)" "distinct (map add_key fs)" "length fs \<le> 4000"
  obtains loc b' xs vts' where "create_table fs b = Inr (loc, b')" "fbb_ok b' (xs @ u) vts'" "table_closed b b'" "0 < loc" "loc \<le> int (length (xs @ u))"
    "reads_as (xs @ u) (int (length (xs @ u)) - loc) (Table fs)" "length xs \<le> 125543" "4 \<le> minalign b'" "laid_out (xs @ u) loc (Table fs)"
    "aligned (minalign b') (xs @ u) loc (Table fs)" "minalign b \<le> minalign b'" "int (length u) < loc"
proof -
  let ?b = "b\<lparr>nested := True\<rparr>"
  have rep: "vts_ok u vts" "4 * length vts \<le> length u" using b(1) by (auto simp: fbb_ok_def)
  obtain b2 xs new loc where st: "create_table fs b = Builder_EndTable (int (length u)) b2" and b2: "fields_added fs ?b u vts [] b2 xs new"
    and loc_def: "loc = int (length (xs @ u)) + (- int (length (xs @ u))) mod 4 + 4" and lo: "locs_ok (int (length u)) loc new" "\<forall>l \<in> set new. fst l < loc"
    and keys: "map snd new = map add_key (filter (\<lambda>f. \<not> skipped (force_defaults b) f) fs)" and room2: "room (xs @ u) vts new 70000"
    and nb: "nested b2" "force_defaults b2 = force_defaults b"
    using create_table_start[OF b fs(1,3)] by blast
  let ?u = "xs @ u" and ?fs = "filter (\<lambda>f. \<not> skipped (force_defaults b) f) fs"
  have a: "fbb_rep b2 ?u vts new" "same_flags ?b b2" "list_all2 (remembered ?u (int (length u))) ?fs new" "length xs \<le> 15 * length fs" "minalign b \<le> minalign b2"
    using b2 by (simp_all add: fields_added_def)
  have p4: "0 \<le> (- int (length ?u)) mod 4" "(- int (length ?u)) mod 4 < 4" by simp_all
  have lb: "int (length ?u) < loc" "loc < int (length ?u) + 8" unfolding loc_def using p4 by linarith+
  have d: "distinct (map snd new)" unfolding keys using fs(2) by (simp add: distinct_map_filter)
  then have ok: "fields_ok (int (length u)) loc new" using lo(1) by (simp add: fields_ok_def)
  have each: "\<forall>l \<in> set new. int (length u) \<le> fst l \<and> fst l \<le> loc \<and> fst l < loc \<and> key_ok (snd l)"
    using lo by (auto simp: locs_ok_def key_ok_def)
  obtain b3 vt ys vts' where b3: "Builder_EndTable (int (length u)) b2 = Inr (loc, b3)" "fbb_rep b3 (ys @ ?u) vts' []" "table_closed b2 b3" "vts_ok (ys @ ?u) vts'"
    "table_at (ys @ ?u) loc vt (vtable_entries loc (int (length u)) new)" "int (length ys) \<le> 65543" "4 * length vts' \<le> 4 * length vts + length ys" "minalign b2 \<le> minalign b3" "4 \<le> minalign b3"
    using EndTable_rep[OF a(1) room2 nb(1) vts_ok_append[OF rep(1)] loc_def ok] .
  let ?w = "ys @ ?u"
  have l4: "loc mod 4 = 0" by (rule end_aligned[OF loc_def])
  have sz: "int (sizeof (add_type f)) \<le> minalign b3" if "f \<in> set fs" "\<not> skipped (force_defaults b) f" for f
  proof -
    have "int (sizeof (add_type f)) \<le> minalign b2" using b2 that by (simp add: fields_added_def)
    then show ?thesis using b3(8) by linarith
  qed
  have "field_reads ?w (int (length ?w) - loc) f \<and> offset_placed ?w loc f \<and> element_aligned (minalign b3) ?w loc f" if f: "f \<in> set fs" for f
  proof (cases "skipped (force_defaults b) f")
    case True
    have "add_key f \<notin> snd ` set new"
    proof
      assume "add_key f \<in> snd ` set new"
      then have "add_key f \<in> add_key ` set ?fs" by (metis keys set_map)
      then obtain g where "g \<in> set fs" "add_key g = add_key f" "\<not> skipped (force_defaults b) g" by auto
      then show False using fs(2) f True by (metis distinct_map inj_onD)
    qed
    then have "GetOptionalFieldOffset ?w (int (length ?w) - loc) (add_key f) = Inr 0"
      using absent_field[OF b3(5) ok, of "add_key f"] fs(1) f by (simp add: key_ok_def)
    then show ?thesis using True by (cases f) (auto simp: field_reads_def offset_placed_def element_aligned_def Table_GetField_def Table_GetPointer_def Let_def simp del: append_assoc)
  next
    case False
    then obtain l where l: "l \<in> set new" "remembered ?u (int (length u)) f l" using list_all2_find[OF a(3), of f] f by auto
    have "remembered ?w (int (length u)) f l" "fst l < loc" "add_ok ?w f" using remembered_append[OF l(2)] l(1) each fs(1) f add_ok_append[of u f "ys @ xs"] by auto
    then show ?thesis using stored_field_reads[OF b3(5) ok l(1)] stored_field_placed[OF b3(5) ok l4 l(1), of f u]
        stored_field_aligned[OF b3(5) ok l(1), of f "minalign b3"] False fs(1) f sz[of f] by blast
  qed
  moreover have "Table_CheckField ?w (int (length ?w) - loc) key = Inr False" if "even key" "4 \<le> key" "key \<notin> add_key ` set fs" for key
  proof -
    have "key \<notin> snd ` set new" using that(3) keys by (metis filter_is_subset image_mono image_set subsetD)
    then show ?thesis using absent_field[OF b3(5) ok that(1,2)] by (simp add: Table_CheckField_def)
  qed
  ultimately have "reads_as ?w (int (length ?w) - loc) (Table fs)" "list_all (offset_placed ?w loc) fs" "aligned (minalign b3) ?w loc (Table fs)"
    by (simp_all add: list_all_iff)
  then have "reads_as ?w (int (length ?w) - loc) (Table fs) \<and> laid_out ?w loc (Table fs) \<and> aligned (minalign b3) ?w loc (Table fs)"
    using table_at_laid[OF b3(5)] l4 by simp
  moreover have "create_table fs b = Inr (loc, b3)" using st b3(1) by simp
  moreover have "fbb_ok b3 ?w vts'" using b3(2-4,7) rep(2) by (simp add: fbb_ok_def table_closed_def)
  moreover have "table_closed b b3" using b3(3) a(2) by (simp add: table_closed_def same_flags_def)
  moreover have "loc \<le> int (length ?w)" using b3(5) by (simp add: table_at_def)
  moreover have "minalign b \<le> minalign b3" using a(5) b3(8) by linarith
  ultimately show ?thesis using that[of loc b3 "ys @ xs" vts'] lb a(4) b3(6,9) fs(3) by simp
qed

end
