(* ===== verification/Builder_Vectors.thy ===== *)
theory Builder_Vectors
  imports Builder_Objects
begin

text \<open>
  Strings and vectors that were built, and the finished buffer.
\<close>

section \<open>Strings\<close>

text \<open>The most bytes an object takes.\<close>

fun cost :: "fb_object \<Rightarrow> int" where
  "cost (Table fs) = 125543"
| "cost (Str bs) = int (length bs) + 16"
| "cost (Vec ty xs) = int (length xs) * int (sizeof ty) + 16"
| "cost (OffVec offs) = 4 * int (length offs) + 16"

text \<open>A vector whose data ends up aligned without padding is put right there.\<close>

fun snug :: "bytes \<Rightarrow> int \<Rightarrow> fb_object \<Rightarrow> bool" where
  "snug u loc (Vec ty xs) \<longleftrightarrow> ((int (length u) + int (length xs) * int (sizeof ty)) mod 16 = 0 \<longrightarrow> loc = int (length u) + int (length xs) * int (sizeof ty) + 4)"
| "snug u loc obj \<longleftrightarrow> True"

definition built_as :: "builder \<Rightarrow> bytes \<Rightarrow> fb_object \<Rightarrow> (int \<times> builder) res \<Rightarrow> bool" where
  "built_as b u obj r \<longleftrightarrow> (\<exists>loc b' xs vts'. r = Inr (loc, b') \<and> fbb_ok b' (xs @ u) vts' \<and> int (length (xs @ u)) < 2 ^ 31 - 1 \<and> table_closed b b' \<and> 0 < loc \<and>
     loc \<le> int (length (xs @ u)) \<and> reads_as (xs @ u) (int (length (xs @ u)) - loc) obj \<and> 4 \<le> minalign b' \<and>
     laid_out (xs @ u) loc obj \<and> aligned (minalign b') (xs @ u) loc obj \<and> minalign b \<le> minalign b' \<and> int (length u) < loc \<and> int (length xs) \<le> cost obj \<and>
     snug u loc obj)"

lemma fill_rep:
  assumes "fbb_rep b u vts locs" "room u vts locs 0" "0 \<le> n"
  obtains b' where "on_buf (vd_fill n) b = Inr b'" "fbb_rep b' (replicate (nat n) 0 @ u) vts locs" "same_flags b b'" "minalign b' = minalign b"
proof -
  note r = rep_bounds[OF assms(1,2) order_refl]
  obtain v where v: "vd_fill n (fbb_buf b) = Inr v" "adds_front (replicate (nat n) 0) (fbb_buf b) v" using vd_fill_ok[OF r(1-3) assms(3)] .
  show ?thesis using on_buf_front[where f = "vd_fill n", OF v assms(1)] that by blast
qed

lemma PushBytes_rep:
  assumes "fbb_rep b u vts locs" "room u vts locs 0"
  obtains b' where "PushBytes bs b = Inr b'" "fbb_rep b' (bs @ u) vts locs" "same_flags b b'" "minalign b' = minalign b"
proof -
  note r = rep_bounds[OF assms order_refl]
  obtain v where v: "vd_push bs (fbb_buf b) = Inr v" "adds_front bs (fbb_buf b) v" using vd_push_ok[OF r(1-3)] .
  show ?thesis using on_buf_front[where f = "vd_push bs", OF v assms(1)] that unfolding PushBytes_def by blast
qed

lemma NotNested_ok: "fbb_ok b u vts \<Longrightarrow> NotNested b = Inr ()"
  by (simp add: fbb_ok_def fbb_rep_def NotNested_def FLATBUFFERS_ASSERT_def)

text \<open>Pushing a length in front of data that ends aligned needs no padding.\<close>

lemma PushLength_rep:
  assumes "fbb_rep b u vts locs" "room u vts locs 8" "int (length u) mod 4 = 0"
  obtains b' where "PushElement uoffset_t n b = Inr (int (length u) + 4, b')" "fbb_rep b' (le_bytes 4 n @ u) vts locs" "same_flags b b'" "minalign b \<le> minalign b'" "4 \<le> minalign b'"
proof -
  have "(- int (length u)) mod 4 = 0" using assms(3) by presburger
  then show ?thesis using PushElement_rep[OF assms(1,2), of uoffset_t n] that by (auto simp: add.commute)
qed

lemma length_reads:
  assumes "0 \<le> n" "n < 2 ^ 32"
  shows "Vector_size (le_bytes 4 n @ u) 0 = Inr n"
  using ReadScalar_written[of uoffset_t n 0 "le_bytes 4 n @ u" u] assms by (simp add: Vector_size_def in_range_def)

lemma front_aligned: "int (length u) mod 4 = 0 \<Longrightarrow> int (length (le_bytes 4 n @ u)) mod 4 = 0"
  by (simp add: mod_add_left_eq)

lemma CreateString_ok:
  assumes b: "fbb_ok b u vts" and room: "int (length u) + int (length bs) + 32 < 2 ^ 31 - 1"
  shows "built_as b u (Str bs) (CreateString bs b)"
proof -
  have rep: "fbb_rep b u vts []" "4 * length vts \<le> length u" using b by (simp_all add: fbb_ok_def)
  let ?n = "int (length bs)"
  have r0: "room u vts [] 0" using room rep(2) by (simp add: room_def)
  define p where "p = (- (int (length u) + (?n + 1))) mod 4"
  have p: "0 \<le> p" "p < 4" by (simp_all add: p_def)
  obtain b1 where b1: "PreAlign (?n + 1) (2 ^ 2) b = Inr b1" "fbb_rep b1 (replicate (nat p) 0 @ u) vts []" "same_flags b b1" "minalign b \<le> minalign b1"
    using PreAlign_rep[OF rep(1) r0, of 2 "?n + 1"] room by (auto simp: p_def)
  have r1: "room (replicate (nat p) 0 @ u) vts [] 0" using room rep(2) p by (simp add: room_def)
  obtain b2 where b2: "on_buf (vd_fill 1) b1 = Inr b2" "fbb_rep b2 (0 # replicate (nat p) 0 @ u) vts []" "same_flags b1 b2" "minalign b2 = minalign b1"
    using fill_rep[OF b1(2) r1, of 1] by auto
  have r2: "room (0 # replicate (nat p) 0 @ u) vts [] 0" using room rep(2) p by (simp add: room_def)
  obtain b3 where b3: "PushBytes bs b2 = Inr b3" "fbb_rep b3 (bs @ 0 # replicate (nat p) 0 @ u) vts []" "same_flags b2 b3" "minalign b3 = minalign b2"
    using PushBytes_rep[OF b2(2) r2] .
  let ?u = "bs @ 0 # replicate (nat p) 0 @ u"
  have r3: "room ?u vts [] 8" using room rep(2) p by (simp add: room_def)
  have lu: "int (length ?u) = (int (length u) + (?n + 1)) + p" using p by simp
  have "((int (length u) + (?n + 1)) + p) mod 4 = 0" unfolding p_def by (rule padding_aligns)
  then have al: "int (length ?u) mod 4 = 0" by (simp only: lu)
  obtain b4 where b4: "PushElement uoffset_t ?n b3 = Inr (int (length ?u) + 4, b4)" "fbb_rep b4 (le_bytes 4 ?n @ ?u) vts []" "same_flags b3 b4" "4 \<le> minalign b4" "minalign b3 \<le> minalign b4"
    using PushLength_rep[OF b3(2) r3 al] by blast
  have l: "int (length (le_bytes 4 ?n @ ?u)) < 2 ^ 31" using room p by simp
  then have gs: "GetSize b4 = int (length (le_bytes 4 ?n @ ?u))" using b4(2) vd_size_used[of "fbb_buf b4"] by (simp add: fbb_rep_def GetSize_def)
  let ?xs = "le_bytes 4 ?n @ bs @ 0 # replicate (nat p) 0"
  have "CreateString bs b = Inr (int (length (?xs @ u)), b4)"
    using b1(1) b2(1) b3(1) b4(1) gs room NotNested_ok[OF b] by (simp add: CreateString_def del: bind_res_eq_Inr)
  moreover have "fbb_ok b4 (?xs @ u) vts"
    using b4(2) b vts_ok_append[of u vts ?xs] b1(3) b2(3) b3(3) b4(3) by (simp add: fbb_ok_def same_flags_def)
  moreover have "table_closed b b4" using b b1(3) b2(3) b3(3) b4(3) by (simp add: table_closed_def same_flags_def fbb_ok_def)
  moreover have "reads_as (?xs @ u) 0 (Str bs)"
    using length_reads[of ?n ?u] room by (simp add: peek_def nth_append nat_add_distrib)
  moreover have "4 \<le> minalign b4" by (rule b4(4))
  moreover have "int (length (?xs @ u)) < 2 ^ 31 - 1" using room p by simp
  moreover have "laid_out (?xs @ u) (int (length (?xs @ u))) (Str bs)" using front_aligned[OF al, of ?n] by simp
  moreover have "minalign b \<le> minalign b4" using b1(4) b2(4) b3(4) b4(5) by linarith
  moreover have "int (length u) < int (length (?xs @ u))" "int (length ?xs) \<le> cost (Str bs)" using p by simp_all
  ultimately show ?thesis unfolding built_as_def
    by (intro exI[of _ "int (length (?xs @ u))"] exI[of _ b4] exI[of _ ?xs] exI[of _ vts]) simp
qed

section \<open>Vectors\<close>

lemma mod_8_4: "(x :: int) mod 8 = 0 \<Longrightarrow> x mod 4 = 0"
  by presburger

text \<open>After the two paddings the data ends aligned, for its length and for its elements.\<close>

lemma StartVector_rep:
  assumes b: "fbb_ok b u vts" and k: "k \<le> 3" and len: "0 \<le> n" and room: "int (length u) + n * 2 ^ k + 32 < 2 ^ 31 - 1"
  obtains b' p where "StartVector n (2 ^ k) b = Inr b'" "fbb_rep b' (replicate p 0 @ u) vts []" "nested b'" "table_closed b (b'\<lparr>nested := False\<rparr>)" "p < 12"
    "int (p + length u) + n * 2 ^ k \<le> int (length u) + n * 2 ^ k + 12" "(int (p + length u) + n * 2 ^ k) mod 4 = 0" "minalign b \<le> minalign b'"
    "(int (p + length u) + n * 2 ^ k) mod 2 ^ k = 0" "2 ^ k \<le> minalign b'" "(int (length u) + n * 2 ^ k) mod 16 = 0 \<longrightarrow> p = 0"
proof -
  have rep: "fbb_rep (b\<lparr>nested := True\<rparr>) u vts []" "4 * length vts \<le> length u" using b by (simp_all add: fbb_ok_def fbb_rep_def)
  let ?n = "n * 2 ^ k"
  have n: "0 \<le> ?n" "?n < 2 ^ 32" using len room by simp_all
  have r0: "room u vts [] 0" using room rep(2) n by (simp add: room_def)
  define p where "p = (- (int (length u) + ?n)) mod 4"
  have p: "0 \<le> p" "p < 4" by (simp_all add: p_def)
  obtain b1 where b1: "PreAlign ?n (2 ^ 2) (b\<lparr>nested := True\<rparr>) = Inr b1" "fbb_rep b1 (replicate (nat p) 0 @ u) vts []"
      "same_flags (b\<lparr>nested := True\<rparr>) b1" "minalign b \<le> minalign b1"
    using PreAlign_rep[OF rep(1) r0 _ n, of 2] by (auto simp: p_def)
  let ?u = "replicate (nat p) 0 @ u"
  have lu: "int (length ?u) = int (length u) + p" using p by simp
  have r1: "room ?u vts [] 0" using room rep(2) n p by (simp add: room_def)
  define q where "q = (- (int (length ?u) + ?n)) mod 2 ^ k"
  have k8: "(2 :: int) ^ k \<le> 8" using power_increasing[OF k, of "2 :: int"] by simp
  have k4: "k \<le> 4" using k by simp
  have "q < 2 ^ k" "0 \<le> q" by (simp_all add: q_def)
  then have q: "0 \<le> q" "q < 8" using k8 by linarith+
  obtain b2 where b2: "PreAlign ?n (2 ^ k) b1 = Inr b2" "fbb_rep b2 (replicate (nat q) 0 @ ?u) vts []" "same_flags b1 b2" "minalign b1 \<le> minalign b2" "2 ^ k \<le> minalign b2"
    using PreAlign_rep[OF b1(2) r1 k4 n] unfolding q_def by blast
  have "((int (length u) + ?n) + p) mod 4 = 0" unfolding p_def by (rule padding_aligns)
  then have m4: "(int (length ?u) + ?n) mod 4 = 0" unfolding lu by (simp add: algebra_simps)
  have mk: "((int (length ?u) + ?n) + q) mod 2 ^ k = 0" unfolding q_def by (rule padding_aligns)
  have "(int (length ?u) + ?n + q) mod 4 = 0"
  proof (cases "k = 3")
    case True
    then show ?thesis using mk by (simp add: mod_8_4)
  next
    case False
    then have "(2 :: int) ^ k dvd 2 ^ 2" using k by (intro le_imp_power_dvd) simp
    then have "(2 :: int) ^ k dvd 4" by simp
    moreover have "4 dvd int (length ?u) + ?n" using m4 by (rule mod_0_imp_dvd)
    ultimately have "2 ^ k dvd int (length ?u) + ?n" by (rule dvd_trans)
    then have "q = 0" unfolding q_def by (metis dvd_minus_iff mod_eq_0_iff_dvd)
    then show ?thesis using m4 by simp
  qed
  then have "(int (nat q + nat p + length u) + ?n) mod 4 = 0" using p q lu by (simp add: algebra_simps)
  moreover have "StartVector n (2 ^ k) b = Inr b2" using NotNested_ok[OF b] b1(1) b2(1) by (simp add: StartVector_def del: bind_res_eq_Inr)
  moreover have "fbb_rep b2 (replicate (nat q + nat p) 0 @ u) vts []" using b2(2) by (simp add: replicate_add)
  moreover have "nested b2" "table_closed b (b2\<lparr>nested := False\<rparr>)" using b1(3) b2(3) by (simp_all add: same_flags_def table_closed_def)
  moreover have "int (nat q + nat p + length u) + ?n = int (length ?u) + ?n + q" using p q lu by simp
  then have "(int (nat q + nat p + length u) + ?n) mod 2 ^ k = 0" using mk by (simp only:)
  moreover have "nat q + nat p = 0" if "(int (length u) + ?n) mod 16 = 0"
  proof -
    have d: "16 dvd int (length u) + ?n" using that by (rule mod_0_imp_dvd)
    have "(4 :: int) dvd 16" "(2 :: int) ^ k dvd 16" using le_imp_power_dvd[OF k4, of "2 :: int"] by simp_all
    then have "4 dvd int (length u) + ?n" and dk: "2 ^ k dvd int (length u) + ?n" using d dvd_trans by blast+
    then have "p = 0" unfolding p_def by (metis dvd_minus_iff mod_eq_0_iff_dvd)
    then have "2 ^ k dvd int (length ?u) + ?n" using dk lu by simp
    then have "q = 0" unfolding q_def by (metis dvd_minus_iff mod_eq_0_iff_dvd)
    then show ?thesis using \<open>p = 0\<close> by simp
  qed
  ultimately show ?thesis using that[of b2 "nat q + nat p"] p q b1(4) b2(4,5) by simp
qed

lemma EndVector_rep:
  assumes "fbb_rep b u vts []" "room u vts [] 8" "nested b" "int (length u) mod 4 = 0" "0 \<le> n" "n < 2 ^ 32"
  obtains b' where "EndVector n b = Inr (int (length u) + 4, b')" "fbb_rep b' (le_bytes 4 n @ u) vts []" "same_flags (b\<lparr>nested := False\<rparr>) b'" "4 \<le> minalign b'" "minalign b \<le> minalign b'"
proof -
  have rep: "fbb_rep (b\<lparr>nested := False\<rparr>) u vts []" using assms(1) by (simp add: fbb_rep_def)
  obtain b' where "PushElement uoffset_t n (b\<lparr>nested := False\<rparr>) = Inr (int (length u) + 4, b')" "fbb_rep b' (le_bytes 4 n @ u) vts []"
      "same_flags (b\<lparr>nested := False\<rparr>) b'" "4 \<le> minalign b'" "minalign b \<le> minalign b'"
    using PushLength_rep[OF rep assms(2,4)] by auto
  then show ?thesis using that[of b'] assms(3,5,6) by (simp add: EndVector_def FLATBUFFERS_ASSERT_def)
qed

lemma vector_element:
  assumes "i < length xs" "in_range ty (xs ! i)"
  shows "Vector_Get ty (le_bytes 4 n @ concat (map (le_bytes (sizeof ty)) xs) @ u) 0 i = Inr (xs ! i)"
proof -
  let ?f = "\<lambda>zs. concat (map (le_bytes (sizeof ty)) zs)"
  have len: "length (?f zs) = length zs * sizeof ty" for zs by (induction zs) simp_all
  have "xs = take i xs @ xs ! i # drop (Suc i) xs" by (rule id_take_nth_drop[OF assms(1)])
  then have s: "?f xs = ?f (take i xs) @ le_bytes (sizeof ty) (xs ! i) @ ?f (drop (Suc i) xs)"
    by (metis append_Cons append_assoc append_eq_Cons_conv concat.simps(2) concat_append list.simps(9) map_append)
  let ?pre = "le_bytes 4 n @ ?f (take i xs)"
  have "length ?pre = 4 + i * sizeof ty" using len[of "take i xs"] assms(1) by simp
  moreover have "ReadScalar ty (le_bytes (sizeof ty) (xs ! i) @ ?f (drop (Suc i) xs) @ u) 0 = Inr (xs ! i)"
    by (rule ReadScalar_written[OF assms(2)]) simp_all
  ultimately have "ReadScalar ty (?pre @ le_bytes (sizeof ty) (xs ! i) @ ?f (drop (Suc i) xs) @ u) (int (4 + i * sizeof ty)) = Inr (xs ! i)"
    using ReadScalar_append[of 0 ty ?pre] by simp
  then show ?thesis unfolding s by (simp add: Vector_Get_def)
qed

lemma CreateVector_ok:
  assumes b: "fbb_ok b u vts" and room: "int (length u) + int (length xs) * int (sizeof ty) + 64 < 2 ^ 31 - 1" and xs: "\<forall>x \<in> set xs. in_range ty x"
  shows "built_as b u (Vec ty xs) (CreateVector ty xs b)"
proof -
  have vts: "4 * length vts \<le> length u" using b by (simp add: fbb_ok_def)
  obtain k where k: "k \<le> 3" "int (sizeof ty) = 2 ^ k" by (rule sizeof_pow2)
  let ?n = "int (length xs)" and ?d = "concat (map (le_bytes (sizeof ty)) xs)"
  have ld: "int (length ?d) = ?n * 2 ^ k" unfolding k(2)[symmetric] by (induction xs) (simp_all add: algebra_simps)
  obtain b1 p where b1: "StartVector ?n (2 ^ k) b = Inr b1" "fbb_rep b1 (replicate p 0 @ u) vts []" "nested b1" "table_closed b (b1\<lparr>nested := False\<rparr>)" "p < 12"
      "(int (p + length u) + ?n * 2 ^ k) mod 4 = 0" "minalign b \<le> minalign b1" "(int (p + length u) + ?n * 2 ^ k) mod 2 ^ k = 0" "2 ^ k \<le> minalign b1"
      "(int (length u) + ?n * 2 ^ k) mod 16 = 0 \<longrightarrow> p = 0"
    using StartVector_rep[OF b k(1), of ?n] room k(2) by auto
  have nk: "0 \<le> ?n * 2 ^ k" by simp
  have ul: "int (length u) + 64 < 2 ^ 31 - 1" using room nk unfolding k(2) by linarith
  then have r1: "room (replicate p 0 @ u) vts [] 0" using vts b1(5) by (simp add: room_def)
  obtain b2 where b2: "PushBytes ?d b1 = Inr b2" "fbb_rep b2 (?d @ replicate p 0 @ u) vts []" "same_flags b1 b2" "minalign b2 = minalign b1"
    using PushBytes_rep[OF b1(2) r1] .
  let ?u = "?d @ replicate p 0 @ u"
  have lu: "int (length ?u) = int (p + length u) + ?n * 2 ^ k" using ld by simp
  have r2: "room ?u vts [] 8" using room vts b1(5) ul unfolding room_def lu k(2) by auto
  have nb: "nested b2" using b1(3) b2(3) by (simp add: same_flags_def)
  have al: "int (length ?u) mod 4 = 0" unfolding lu by (rule b1(6))
  have nn: "?n < 2 ^ 32"
  proof -
    have "?n * 1 \<le> ?n * int (sizeof ty)" using sizeof_pos(2)[of ty] by (intro mult_left_mono) simp_all
    moreover have "0 \<le> int (length u)" "(2 :: int) ^ 31 - 1 \<le> 2 ^ 32" by simp_all
    ultimately show ?thesis using room by linarith
  qed
  obtain b3 where b3: "EndVector ?n b2 = Inr (int (length ?u) + 4, b3)" "fbb_rep b3 (le_bytes 4 ?n @ ?u) vts []" "same_flags (b2\<lparr>nested := False\<rparr>) b3" "4 \<le> minalign b3" "minalign b2 \<le> minalign b3"
    using EndVector_rep[OF b2(2) r2 nb al _ nn] by auto
  let ?xs = "le_bytes 4 ?n @ ?d @ replicate p 0"
  have cv: "CreateVector ty xs b = Inr (int (length (?xs @ u)), b3)"
  proof (cases "xs = []")
    case True
    then have "b2 = b1" using b2(1) by (simp add: PushBytes_def on_buf_def vd_push_def)
    then show ?thesis using b1(1) b3(1) True k(2) lu by (simp add: CreateVector_def del: bind_res_eq_Inr)
  next
    case False
    then show ?thesis using b1(1) b2(1) b3(1) k(2) by (simp add: CreateVector_def del: bind_res_eq_Inr)
  qed
  have "Vector_Get ty (?xs @ u) 0 i = Inr (xs ! i)" if "i < length xs" for i
    using vector_element[OF that, of ty ?n "replicate p 0 @ u"] xs that by simp
  moreover have "Vector_size (?xs @ u) 0 = Inr ?n" using length_reads[of ?n ?u] nn by simp
  ultimately have "reads_as (?xs @ u) 0 (Vec ty xs)" by simp
  moreover have "fbb_ok b3 (?xs @ u) vts" using b3(2) b vts_ok_append[of u vts ?xs] b3(3) by (simp add: fbb_ok_def same_flags_def)
  moreover have "table_closed b b3" using b1(4) b2(3) b3(3) by (simp add: table_closed_def same_flags_def)
  moreover have "4 \<le> minalign b3" by (rule b3(4))
  moreover have "int (length (?xs @ u)) < 2 ^ 31 - 1" using r2 by (simp add: room_def)
  moreover have "laid_out (?xs @ u) (int (length (?xs @ u))) (Vec ty xs)" using front_aligned[OF al, of ?n] by simp
  moreover have "minalign b \<le> minalign b3" "2 ^ k \<le> minalign b3" using b1(7,9) b2(4) b3(5) by linarith+
  moreover have "int (length (?xs @ u)) - 4 = int (p + length u) + ?n * 2 ^ k" using ld by simp
  then have "(int (length (?xs @ u)) - 4) mod int (sizeof ty) = 0" unfolding k(2) using b1(8) by (simp only:)
  then have "aligned (minalign b3) (?xs @ u) (int (length (?xs @ u))) (Vec ty xs)" using \<open>2 ^ k \<le> minalign b3\<close> k(2) unfolding aligned.simps by simp
  moreover have "int (length ?xs) = 4 + ?n * 2 ^ k + int p" using ld by simp
  then have "int (length ?xs) \<le> cost (Vec ty xs)" using b1(5) by (simp add: k(2))
  moreover have "int (length u) < int (length (?xs @ u))" by simp
  moreover have "snug u (int (length (?xs @ u))) (Vec ty xs)" using b1(10) ld by (simp add: k(2))
  ultimately show ?thesis unfolding built_as_def cv
    by (intro exI[of _ "int (length (?xs @ u))"] exI[of _ b3] exI[of _ ?xs] exI[of _ vts]) simp
qed

text \<open>Offsets are stored relative to their place.\<close>

lemma PushElement_offset_rep:
  assumes b: "fbb_rep b u vts []" "room u vts [] 8" "int (length u) mod 4 = 0" and off: "0 < off" "off \<le> int (length u)"
  obtains b' where "PushElement_offset off b = Inr (int (length u) + 4, b')" "fbb_rep b' (le_bytes 4 (int (length u) + 4 - off) @ u) vts []"
    "same_flags b b'" "minalign b \<le> minalign b'"
proof -
  have r0: "room u vts [] 0" using b(2) by (rule room_mono) simp
  have "(- int (length u)) mod 4 = 0" using b(3) by presburger
  then obtain b1 where b1: "PreAlign 0 (2 ^ 2) b = Inr b1" "fbb_rep b1 u vts []" "same_flags b b1" "minalign b \<le> minalign b1"
    using PreAlign_rep[OF b(1) r0, of 2 0] by auto
  have sz: "GetSize b1 = int (length u)" using rep_bounds(4)[OF b1(2) r0] by simp
  have "int (length u) + 8 < 2 ^ 31 - 1" using b(2) by (simp add: room_def)
  then have "(int (length u) - off + 4) mod 2 ^ 32 = int (length u) + 4 - off" using off by simp
  then have ref: "ReferTo off b = Inr (int (length u) + 4 - off, b1)"
    using b1(1) sz off by (simp add: ReferTo_def Align_PreAlign[OF GetSize_bounds] FLATBUFFERS_ASSERT_def del: bind_res_eq_Inr)
  obtain b2 where b2: "PushElement uoffset_t (int (length u) + 4 - off) b1 = Inr (int (length u) + 4, b2)" "fbb_rep b2 (le_bytes 4 (int (length u) + 4 - off) @ u) vts []"
      "same_flags b1 b2" "minalign b1 \<le> minalign b2"
    using PushLength_rep[OF b1(2) b(2,3)] by blast
  show ?thesis
    by (rule that[of b2]) (use ref b1 b2 same_flags_trans[OF b1(3) b2(3)] in \<open>simp_all add: PushElement_offset_def del: bind_res_eq_Inr\<close>)
qed

lemma rd_offset:
  assumes "0 < off" "off \<le> int (length u)" "int (length u) + 8 < 2 ^ 31"
  shows "rd uoffset_t (le_bytes 4 (int (length u) + 4 - off) @ u) (int (length u) + 4) = Inr (int (length u) + 4 - off)"
  using rd_front[of uoffset_t "int (length u) + 4 - off" u] assms by (simp add: in_range_def add.commute)

lemma push_offsets_rep:
  assumes "fbb_rep b u vts []" "room u vts [] (4 * int (length offs) + 8)" "int (length u) mod 4 = 0" "\<forall>off \<in> set offs. 0 < off \<and> off \<le> int (length u)"
  shows "\<exists>b' xs. push_offsets offs b = Inr b' \<and> fbb_rep b' (xs @ u) vts [] \<and> same_flags b b' \<and> length xs = 4 * length offs \<and> minalign b \<le> minalign b' \<and>
    (\<forall>i < length offs. rd uoffset_t (xs @ u) (int (length u) + 4 * (int (length offs) - int i)) = Inr (int (length u) + 4 * (int (length offs) - int i) - offs ! i))"
  using assms
proof (induction offs)
  case Nil
  then show ?case by (intro exI[of _ b] exI[of _ "[]"]) simp
next
  case (Cons off offs)
  have "room u vts [] (4 * int (length offs) + 8)" using Cons.prems(2) by (rule room_mono) simp
  then obtain b1 xs where b1: "push_offsets offs b = Inr b1" "fbb_rep b1 (xs @ u) vts []" "same_flags b b1" "length xs = 4 * length offs" "minalign b \<le> minalign b1"
      "\<And>i. i < length offs \<Longrightarrow> rd uoffset_t (xs @ u) (int (length u) + 4 * (int (length offs) - int i)) = Inr (int (length u) + 4 * (int (length offs) - int i) - offs ! i)"
    using Cons.IH[OF Cons.prems(1) _ Cons.prems(3)] Cons.prems(4) by auto
  let ?u = "xs @ u"
  have lu: "int (length ?u) = int (length u) + 4 * int (length offs)" using b1(4) by simp
  have r: "room ?u vts [] 8" using Cons.prems(2) b1(4) by (simp add: room_def)
  have al: "int (length ?u) mod 4 = 0" unfolding lu using Cons.prems(3) by simp
  have off: "0 < off" "off \<le> int (length ?u)" using Cons.prems(4) lu by auto
  obtain b2 where b2: "PushElement_offset off b1 = Inr (int (length ?u) + 4, b2)" "fbb_rep b2 (le_bytes 4 (int (length ?u) + 4 - off) @ ?u) vts []" "same_flags b1 b2"
      "minalign b1 \<le> minalign b2"
    using PushElement_offset_rep[OF b1(2) r al off] .
  let ?w = "le_bytes 4 (int (length ?u) + 4 - off) @ ?u"
  have "int (length ?u) + 8 < 2 ^ 31" using r by (simp add: room_def)
  note first = rd_offset[OF off this]
  have "rd uoffset_t ?w (int (length u) + 4 * (int (length (off # offs)) - int i)) = Inr (int (length u) + 4 * (int (length (off # offs)) - int i) - (off # offs) ! i)"
    if "i < length (off # offs)" for i
  proof (cases i)
    case 0
    then show ?thesis using first lu by (simp add: algebra_simps)
  next
    case (Suc j)
    then have "j < length offs" using that by simp
    then show ?thesis using b1(6)[of j] rd_append[of "int (length u) + 4 * (int (length offs) - int j)" ?u uoffset_t "le_bytes 4 (int (length ?u) + 4 - off)"] lu Suc
      by simp
  qed
  moreover have "push_offsets (off # offs) b = Inr b2" using b1(1) b2(1) by simp
  moreover have "fbb_rep b2 ((le_bytes 4 (int (length ?u) + 4 - off) @ xs) @ u) vts []" using b2(2) by simp
  ultimately show ?case using b1(4,5) b2(4) same_flags_trans[OF b1(3) b2(3)]
    by (intro exI[of _ b2] exI[of _ "le_bytes 4 (int (length ?u) + 4 - off) @ xs"]) simp
qed

lemma offset_element:
  assumes "rd uoffset_t (xs @ u) (int (length u) + 4 * (int n - int i)) = Inr (int (length u) + 4 * (int n - int i) - off)" "length xs = 4 * n" "i < n"
  shows "Vector_GetOffset (le_bytes 4 m @ xs @ u) 0 i = Inr (int (length (le_bytes 4 m @ xs @ u)) - off)"
proof -
  let ?d = "int (length u) + 4 * (int n - int i)"
  have "rd uoffset_t (le_bytes 4 m @ xs @ u) ?d = Inr (?d - off)" using rd_append[of ?d "xs @ u" uoffset_t "le_bytes 4 m"] assms by simp
  then have "ReadScalar uoffset_t (le_bytes 4 m @ xs @ u) (4 + int i * 4) = Inr (?d - off)" using assms(2) by (simp add: rd_def algebra_simps)
  then show ?thesis using assms(2) by (simp add: Vector_GetOffset_def)
qed

lemma CreateVector_offsets_ok:
  assumes b: "fbb_ok b u vts" and room: "int (length u) + 4 * int (length offs) + 64 < 2 ^ 31 - 1" and offs: "\<forall>off \<in> set offs. 0 < off \<and> off \<le> int (length u)"
  shows "built_as b u (OffVec offs) (CreateVector_offsets offs b)"
proof -
  have vts: "4 * length vts \<le> length u" using b by (simp add: fbb_ok_def)
  let ?n = "int (length offs)"
  have k2: "(2 :: nat) \<le> 3" and n0: "0 \<le> ?n" and c: "int (length u) + ?n * 2 ^ 2 + 32 < 2 ^ 31 - 1" using room by simp_all
  obtain b1 p where b1: "StartVector ?n (2 ^ 2) b = Inr b1" "fbb_rep b1 (replicate p 0 @ u) vts []" "nested b1" "table_closed b (b1\<lparr>nested := False\<rparr>)" "p < 12"
      "(int (p + length u) + ?n * 2 ^ 2) mod 4 = 0" "minalign b \<le> minalign b1"
    using StartVector_rep[OF b k2 n0 c] by metis
  let ?u = "replicate p 0 @ u"
  have al: "int (length ?u) mod 4 = 0" using b1(6) by simp
  have r1: "room ?u vts [] (4 * ?n + 8)" using room vts b1(5) by (simp add: room_def)
  have "\<forall>off \<in> set offs. 0 < off \<and> off \<le> int (length ?u)" using offs by auto
  from push_offsets_rep[OF b1(2) r1 al this] obtain b2 xs where b2: "push_offsets offs b1 = Inr b2" "fbb_rep b2 (xs @ ?u) vts []" "same_flags b1 b2"
      "length xs = 4 * length offs"
      "\<And>i. i < length offs \<Longrightarrow> rd uoffset_t (xs @ ?u) (int (length ?u) + 4 * (?n - int i)) = Inr (int (length ?u) + 4 * (?n - int i) - offs ! i)"
      "minalign b1 \<le> minalign b2"
    by auto
  let ?w = "xs @ ?u"
  have r2: "room ?w vts [] 8" using room vts b1(5) b2(4) by (simp add: room_def)
  have al2: "int (length ?w) mod 4 = 0" using al b2(4) by (simp add: mod_add_left_eq)
  have nb: "nested b2" using b1(3) b2(3) by (simp add: same_flags_def)
  obtain b3 where b3: "EndVector ?n b2 = Inr (int (length ?w) + 4, b3)" "fbb_rep b3 (le_bytes 4 ?n @ ?w) vts []" "same_flags (b2\<lparr>nested := False\<rparr>) b3" "4 \<le> minalign b3" "minalign b2 \<le> minalign b3"
    using EndVector_rep[OF b2(2) r2 nb al2, of ?n] room by auto
  let ?xs = "le_bytes 4 ?n @ xs @ replicate p 0"
  have cv: "CreateVector_offsets offs b = Inr (int (length (?xs @ u)), b3)" using b1(1) b2(1) b3(1) by (simp add: CreateVector_offsets_def del: bind_res_eq_Inr)
  have "Vector_GetOffset (?xs @ u) 0 i = Inr (int (length (?xs @ u)) - offs ! i)" if "i < length offs" for i
    using offset_element[OF b2(5)[OF that] b2(4) that, of ?n] by simp
  moreover have "Vector_size (?xs @ u) 0 = Inr ?n" using length_reads[of ?n ?w] room by simp
  ultimately have "reads_as (?xs @ u) 0 (OffVec offs)" by simp
  moreover have "fbb_ok b3 (?xs @ u) vts" using b3(2) b vts_ok_append[of u vts ?xs] b3(3) by (simp add: fbb_ok_def same_flags_def)
  moreover have "table_closed b b3" using b1(4) b2(3) b3(3) by (simp add: table_closed_def same_flags_def)
  moreover have "int (length (?xs @ u)) < 2 ^ 31 - 1" using r2 by (simp add: room_def)
  moreover have "laid_out (?xs @ u) (int (length (?xs @ u))) (OffVec offs)" using front_aligned[OF al2, of ?n] by simp
  moreover have "minalign b \<le> minalign b3" using b1(7) b2(6) b3(5) by linarith
  moreover have "int (length u) < int (length (?xs @ u))" "int (length ?xs) \<le> cost (OffVec offs)" using b1(5) b2(4) by simp_all
  ultimately show ?thesis unfolding built_as_def cv using b3(4)
    by (intro exI[of _ "int (length (?xs @ u))"] exI[of _ b3] exI[of _ ?xs] exI[of _ vts]) simp
qed

end
