(* ===== verification/Flatbuffer_Verify.thy ===== *)
theory Flatbuffer_Verify
  imports Flatbuffers
begin

text \<open>
  The generated \<^verbatim>\<open>Verify\<close> methods all have one form: \<^verbatim>\<open>VerifyTableStart\<close>, a conjunction of checks of the fields, and
  \<^verbatim>\<open>EndTable\<close>. Such a body is a list of field checks here; \<open>verify_table\<close> runs it, and \<open>read_table\<close> is a client that
  calls every accessor of the table and of everything the table refers to. The verifier is shown to stay in the buffer whatever the
  buffer holds, and the client to stay in the buffer when the verifier has accepted it.
\<close>

section \<open>Bodies of the verify methods\<close>

text \<open>
  One conjunct, or two or three that belong together: \<^verbatim>\<open>VerifyField<T>(verifier, vt)\<close>; \<^verbatim>\<open>VerifyOffset(verifier, vt)\<close> with
  \<^verbatim>\<open>verifier.VerifyVector\<close>, \<^verbatim>\<open>VerifyString\<close>, \<^verbatim>\<open>VerifyTable\<close>, \<^verbatim>\<open>VerifyVector\<close> and \<^verbatim>\<open>VerifyVectorOfTables\<close>; for a union the check of its type field,
  \<^verbatim>\<open>VerifyOffset\<close>, and the verify function of the union, which switches on the type.
\<close>

datatype fb_field =
    Scalar scalar_type int
  | Scalars scalar_type int
  | Text int
  | Subtable int "fb_field list"
  | Subtables int "fb_field list"
  | Union int int "(int \<times> fb_field list) list"

type_synonym check = "int \<Rightarrow> verifier \<Rightarrow> (bool \<times> verifier) res"

text \<open>\<^verbatim>\<open>a && b\<close> and the constant checks.\<close>

definition and_then :: "check \<Rightarrow> check \<Rightarrow> check" where
  "and_then f g data v = bind_res (f data v) (\<lambda>(ok, v1). if ok then g data v1 else Inr (False, v1))"

definition pure_check :: "(int \<Rightarrow> verifier \<Rightarrow> bool res) \<Rightarrow> check" where
  "pure_check f data v = bind_res (f data v) (\<lambda>ok. Inr (ok, v))"

fun all_checks :: "check list \<Rightarrow> check" where
  "all_checks [] data v = Inr (True, v)"
| "all_checks (f # fs) data v = and_then f (all_checks fs) data v"

text \<open>\<^verbatim>\<open>return VerifyTableStart(verifier) && ... && verifier.EndTable();\<close>\<close>

definition table_body :: "check list \<Rightarrow> check" where
  "table_body fs = and_then VerifyTableStart (and_then (all_checks fs) (\<lambda>_ v. Inr (EndTable v)))"

text \<open>An accessor followed by a check of what it returns.\<close>

definition with_pointer :: "int \<Rightarrow> (int option \<Rightarrow> verifier \<Rightarrow> (bool \<times> verifier) res) \<Rightarrow> check" where
  "with_pointer vt f data v = bind_res (Table_GetPointer (vf_buf v) data vt) (\<lambda>p. f p v)"

definition offset_check :: "int \<Rightarrow> check" where
  "offset_check vt = pure_check (\<lambda>data. Table_VerifyOffset data vt)"

text \<open>The switch of a union's verify function: the alternative of the type, true for the types without one.\<close>

definition union_check :: "(int \<times> check list) list \<Rightarrow> int \<Rightarrow> int option \<Rightarrow> verifier \<Rightarrow> (bool \<times> verifier) res" where
  "union_check alts ty p v = (case map_of alts ty of None \<Rightarrow> Inr (True, v) | Some fs \<Rightarrow> VerifyTable (table_body fs) p v)"

primrec verify_field :: "fb_field \<Rightarrow> check" where
  "verify_field (Scalar ty vt) = pure_check (\<lambda>data. Table_VerifyField ty data vt)"
| "verify_field (Scalars ty vt) = and_then (offset_check vt) (with_pointer vt (\<lambda>p v. bind_res (VerifyVector v ty p) (\<lambda>ok. Inr (ok, v))))"
| "verify_field (Text vt) = and_then (offset_check vt) (with_pointer vt (\<lambda>p v. bind_res (VerifyString v p) (\<lambda>ok. Inr (ok, v))))"
| "verify_field (Subtable vt fs) = and_then (offset_check vt) (with_pointer vt (VerifyTable (table_body (map verify_field fs))))"
| "verify_field (Subtables vt fs) = and_then (offset_check vt)
     (and_then (with_pointer vt (\<lambda>p v. bind_res (VerifyVector v uoffset_t p) (\<lambda>ok. Inr (ok, v))))
       (with_pointer vt (VerifyVectorOfTables (table_body (map verify_field fs)))))"
| "verify_field (Union vt_type vt alts) = and_then (pure_check (\<lambda>data. Table_VerifyField U8 data vt_type)) (and_then (offset_check vt)
     (\<lambda>data v. bind_res (Table_GetPointer (vf_buf v) data vt) (\<lambda>p. bind_res (Table_GetField U8 (vf_buf v) data vt_type 0) (\<lambda>ty.
       union_check (map (map_prod id (map verify_field)) alts) ty p v))))"

definition verify_table :: "fb_field list \<Rightarrow> check" where
  "verify_table fs = table_body (map verify_field fs)"

section \<open>A client\<close>

text \<open>
  What a client reads: every field of a table through its accessor, the elements of its vectors, the characters of its
  strings (as \<^verbatim>\<open>c_str()\<close>, up to the zero byte), and the tables it refers to.
\<close>

datatype fb_value =
    Absent
  | Number int
  | Numbers "int list"
  | Chars bytes
  | Record "fb_value list"
  | Records "fb_value list"
  | Variant int "fb_value option"

fun read_each :: "(nat \<Rightarrow> 'a res) \<Rightarrow> nat \<Rightarrow> nat \<Rightarrow> 'a list res" where
  "read_each f i 0 = Inr []"
| "read_each f i (Suc n) = bind_res (f i) (\<lambda>x. bind_res (read_each f (Suc i) n) (\<lambda>xs. Inr (x # xs)))"

text \<open>The characters from \<open>p\<close> to the first zero byte; the fuel is the rest of the buffer.\<close>

fun c_str :: "nat \<Rightarrow> bytes \<Rightarrow> int \<Rightarrow> bytes res" where
  "c_str 0 b p = Inl OutOfBounds"
| "c_str (Suc n) b p = bind_res (vec_at b p) (\<lambda>c. if c = 0 then Inr [] else bind_res (c_str n b (p + 1)) (\<lambda>cs. Inr (c # cs)))"

fun read_fields :: "(bytes \<Rightarrow> int \<Rightarrow> 'a res) list \<Rightarrow> bytes \<Rightarrow> int \<Rightarrow> 'a list res" where
  "read_fields [] b data = Inr []"
| "read_fields (f # fs) b data = bind_res (f b data) (\<lambda>x. bind_res (read_fields fs b data) (\<lambda>xs. Inr (x # xs)))"

definition if_present :: "(bytes \<Rightarrow> int \<Rightarrow> fb_value res) \<Rightarrow> int \<Rightarrow> bytes \<Rightarrow> int \<Rightarrow> fb_value res" where
  "if_present f vt b data = bind_res (Table_GetPointer b data vt) (\<lambda>p. case p of None \<Rightarrow> Inr Absent | Some q \<Rightarrow> f b q)"

definition read_record :: "(bytes \<Rightarrow> int \<Rightarrow> fb_value res) list \<Rightarrow> bytes \<Rightarrow> int \<Rightarrow> fb_value res" where
  "read_record fs b data = bind_res (read_fields fs b data) (\<lambda>xs. Inr (Record xs))"

primrec read_field :: "fb_field \<Rightarrow> bytes \<Rightarrow> int \<Rightarrow> fb_value res" where
  "read_field (Scalar ty vt) = (\<lambda>b data. bind_res (Table_GetOptional ty b data vt) (\<lambda>x. Inr (case x of None \<Rightarrow> Absent | Some n \<Rightarrow> Number n)))"
| "read_field (Scalars ty vt) = if_present (\<lambda>b p. bind_res (Vector_size b p) (\<lambda>n.
     bind_res (read_each (Vector_Get ty b p) 0 (nat n)) (\<lambda>xs. Inr (Numbers xs)))) vt"
| "read_field (Text vt) = if_present (\<lambda>b p. bind_res (c_str (Suc (length b)) b (p + 4)) (\<lambda>cs. Inr (Chars cs))) vt"
| "read_field (Subtable vt fs) = if_present (read_record (map read_field fs)) vt"
| "read_field (Subtables vt fs) = if_present (\<lambda>b p. bind_res (Vector_size b p) (\<lambda>n.
     bind_res (read_each (\<lambda>i. bind_res (Vector_GetOffset b p i) (read_record (map read_field fs) b)) 0 (nat n)) (\<lambda>xs. Inr (Records xs)))) vt"
| "read_field (Union vt_type vt alts) = (\<lambda>b data. bind_res (Table_GetField U8 b data vt_type 0) (\<lambda>ty.
     bind_res (Table_GetPointer b data vt) (\<lambda>p. case p of None \<Rightarrow> Inr (Variant ty None)
       | Some q \<Rightarrow> (case map_of (map (map_prod id (map read_field)) alts) ty of
           None \<Rightarrow> Inr (Variant ty None) | Some fs \<Rightarrow> bind_res (read_record fs b q) (\<lambda>x. Inr (Variant ty (Some x)))))))"

definition read_table :: "fb_field list \<Rightarrow> bytes \<Rightarrow> int \<Rightarrow> fb_value res" where
  "read_table fs = read_record (map read_field fs)"

section \<open>Safe buffers\<close>

text \<open>
  What the constructor of the verifier asks of the buffer, with the alignment check on. The counters are in range as long as
  the verifier has not failed.
\<close>

definition vsafe :: "verifier \<Rightarrow> bool" where
  "vsafe v \<longleftrightarrow> vf_check_alignment v \<and> vf_size v < FLATBUFFERS_MAX_BUFFER_SIZE"

definition vcount :: "verifier \<Rightarrow> bool" where
  "vcount v \<longleftrightarrow> 0 \<le> vf_depth v \<and> vf_depth v < 2 ^ 32 \<and> 0 \<le> vf_num_tables v \<and> vf_num_tables v \<le> vf_max_tables v \<and>
     vf_max_tables v < 2 ^ 32 - 1"

text \<open>Only the counters change.\<close>

definition vframe :: "verifier \<Rightarrow> verifier \<Rightarrow> bool" where
  "vframe v v' \<longleftrightarrow> vf_buf v' = vf_buf v \<and> vf_check_alignment v' = vf_check_alignment v \<and> vf_max_depth v' = vf_max_depth v \<and>
     vf_max_tables v' = vf_max_tables v"

lemma vframe_refl [simp]: "vframe v v"
  by (simp add: vframe_def)

lemma vframe_trans: "vframe u v \<Longrightarrow> vframe v w \<Longrightarrow> vframe u w"
  by (simp add: vframe_def)

lemma vframe_safe: "vframe v v' \<Longrightarrow> vsafe v \<Longrightarrow> vsafe v'"
  by (simp add: vframe_def vsafe_def)

lemma vframe_buf: "vframe v v' \<Longrightarrow> vf_buf v' = vf_buf v"
  by (simp add: vframe_def)

text \<open>A check that returns, and establishes \<open>Q\<close> when it is true.\<close>

definition runs :: "(bool \<times> verifier) res \<Rightarrow> verifier \<Rightarrow> (verifier \<Rightarrow> bool) \<Rightarrow> bool" where
  "runs r v Q \<longleftrightarrow> (\<exists>ok v'. r = Inr (ok, v') \<and> vframe v v' \<and> (ok \<longrightarrow> Q v'))"

lemma runsI: "r = Inr (ok, v') \<Longrightarrow> vframe v v' \<Longrightarrow> (ok \<Longrightarrow> Q v') \<Longrightarrow> runs r v Q"
  by (auto simp: runs_def)

lemma runs_weaken: "runs r v Q \<Longrightarrow> (\<And>v'. vframe v v' \<Longrightarrow> Q v' \<Longrightarrow> R v') \<Longrightarrow> runs r v R"
  by (auto simp: runs_def)

lemma runs_and_then:
  assumes "runs (f data v) v Q" "\<And>v1. vframe v v1 \<Longrightarrow> Q v1 \<Longrightarrow> runs (g data v1) v1 R"
  shows "runs (and_then f g data v) v R"
proof -
  obtain ok v1 where f: "f data v = Inr (ok, v1)" "vframe v v1" "ok \<longrightarrow> Q v1" using assms(1) by (auto simp: runs_def)
  show ?thesis
  proof (cases ok)
    case True
    then obtain ok2 v2 where "g data v1 = Inr (ok2, v2)" "vframe v1 v2" "ok2 \<longrightarrow> R v2"
      using assms(2)[OF f(2)] f(3) by (auto simp: runs_def)
    then show ?thesis using f True by (auto simp: runs_def and_then_def intro: vframe_trans)
  qed (use f in \<open>auto simp: runs_def and_then_def\<close>)
qed

lemma runs_pure:
  assumes "f data v = Inr ok" "ok \<Longrightarrow> Q"
  shows "runs (pure_check f data v) v (\<lambda>v'. v' = v \<and> Q)"
  using assms by (auto simp: runs_def pure_check_def)

lemma to_size_t_small: "0 \<le> x \<Longrightarrow> x < 2 ^ 64 \<Longrightarrow> to_size_t x = x"
  by (simp add: to_size_t_def)

lemma to_size_t_nonneg [simp]: "0 \<le> to_size_t x"
  by (simp add: to_size_t_def)

text \<open>A table whose vtable lies in the buffer and has whole entries.\<close>

definition table_ok :: "bytes \<Rightarrow> int \<Rightarrow> bool" where
  "table_ok b data \<longleftrightarrow> (\<exists>s n. ReadScalar soffset_t b data = Inr s \<and> ReadScalar voffset_t b (data - s) = Inr n \<and>
     even n \<and> data - s + n \<le> int (length b))"

lemma Verify_scalar_read:
  assumes "Verify_scalar v ty p" "0 \<le> p"
  obtains x where "ReadScalar ty (vf_buf v) p = Inr x"
  using assms ReadScalar_ok[of p ty "vf_buf v"] by (auto simp: Verify_scalar_def Verify_range_def)

lemma VerifyTableStart_runs:
  assumes "vsafe v" "0 \<le> data" "data < 2 ^ 34"
  shows "runs (VerifyTableStart data v) v (\<lambda>v'. table_ok (vf_buf v) data \<and> (vcount v \<longrightarrow> vcount v' \<and>
    vf_depth v' = (vf_depth v + 1) mod 2 ^ 32 \<and> vf_num_tables v' = vf_num_tables v + 1))"
proof (cases "Verify_scalar v soffset_t data")
  case True
  have d: "to_size_t data = data" using assms by (simp add: to_size_t_small)
  obtain s where s: "ReadScalar soffset_t (vf_buf v) data = Inr s" using Verify_scalar_read[OF True assms(2)] .
  have sb: "- (2 ^ 31) \<le> s" "s < 2 ^ 31" using ReadScalar_bounds(4)[OF s] by simp_all
  define vt where "vt = to_size_t (data - to_size_t s)"
  obtain simple v1 where c: "VerifyComplexity v = (simple, v1)" by (cases "VerifyComplexity v")
  have v1: "vframe v v1" "simple \<Longrightarrow> vcount v \<Longrightarrow> vcount v1 \<and> vf_depth v1 = (vf_depth v + 1) mod 2 ^ 32 \<and> vf_num_tables v1 = vf_num_tables v + 1"
    using c by (auto simp: VerifyComplexity_def Let_def vframe_def vcount_def)
  show ?thesis
  proof (cases "simple \<and> Verify_scalar v1 voffset_t vt")
    case ok: True
    have len: "vf_buf v1 = vf_buf v" using v1(1) by (rule vframe_buf)
    have vt: "0 \<le> vt" "vt < 2 ^ 31"
      using ok assms(1) len by (simp_all add: vt_def Verify_scalar_def Verify_range_def vsafe_def FLATBUFFERS_MAX_BUFFER_SIZE_def)
    have "vt = (data - s) mod 2 ^ 64" unfolding vt_def to_size_t_def by (simp add: mod_diff_right_eq)
    moreover have "0 \<le> data - s"
    proof (rule ccontr)
      assume "\<not> 0 \<le> data - s"
      then have "(data - s + 2 ^ 64) mod 2 ^ 64 = data - s + 2 ^ 64" using sb assms by (intro mod_pos_pos_trivial) simp_all
      then have "(data - s) mod 2 ^ 64 = data - s + 2 ^ 64" by simp
      then show False using calculation vt sb assms by simp
    qed
    ultimately have e: "vt = data - s" using sb assms by simp
    obtain n where n: "ReadScalar voffset_t (vf_buf v) vt = Inr n" using Verify_scalar_read[of v1 voffset_t vt] ok vt len by auto
    have r: "VerifyTableStart data v = Inr (VerifyAlignment v1 voffset_t n \<and> Verify_range v1 vt n, v1)"
      using True s c ok n len by (simp add: VerifyTableStart_def d Let_def vt_def[symmetric])
    have "table_ok (vf_buf v) data" if "VerifyAlignment v1 voffset_t n" "Verify_range v1 vt n"
      using that s n e len v1(1) assms(1)
      by (auto simp: table_ok_def VerifyAlignment_def Verify_range_def vframe_def vsafe_def and_one_eq even_iff_mod_2_eq_zero)
    then show ?thesis using v1 ok by (intro runsI[OF r]) auto
  qed (use True s c v1 d in \<open>auto simp: VerifyTableStart_def Let_def vt_def runs_def\<close>)
qed (use assms in \<open>auto simp: VerifyTableStart_def to_size_t_small runs_def\<close>)

text \<open>Field offsets of a table whose start was verified.\<close>

lemma field_offset:
  assumes "table_ok b data" "even vt" "0 \<le> vt"
  obtains off where "GetOptionalFieldOffset b data vt = Inr off" "0 \<le> off" "off < 2 ^ 16"
proof -
  obtain s n where s: "ReadScalar soffset_t b data = Inr s" "ReadScalar voffset_t b (data - s) = Inr n" "even n" "data - s + n \<le> int (length b)"
    using assms(1) by (auto simp: table_ok_def)
  show ?thesis
  proof (cases "vt < n")
    case True
    have "0 \<le> data - s" by (rule ReadScalar_bounds(1)[OF s(2)])
    moreover have "vt + 2 \<le> n" using True assms(2) s(3) by presburger
    ultimately obtain off where "ReadScalar voffset_t b (data - s + vt) = Inr off"
      using ReadScalar_ok[of "data - s + vt" voffset_t b] assms(3) s(4) by auto
    then show ?thesis using that ReadScalar_bounds(3)[of voffset_t b "data - s + vt" off] s True
      by (simp add: GetOptionalFieldOffset_def GetVTable_def)
  qed (use that s in \<open>simp add: GetOptionalFieldOffset_def GetVTable_def\<close>)
qed

lemma base_small: "0 \<le> data \<Longrightarrow> data < 2 ^ 34 \<Longrightarrow> 0 \<le> off \<Longrightarrow> off < 2 ^ 16 \<Longrightarrow> to_size_t (to_size_t data + off) = data + off"
  by (simp add: to_size_t_small)

lemma VerifyField_runs:
  assumes "table_ok (vf_buf v) data" "even vt" "0 \<le> vt" "0 \<le> data" "data < 2 ^ 34"
  obtains ok where "Table_VerifyField ty data vt v = Inr ok"
    "ok \<Longrightarrow> \<exists>x. Table_GetOptional ty (vf_buf v) data vt = Inr x \<and> (\<forall>d. Table_GetField ty (vf_buf v) data vt d = Inr (case x of None \<Rightarrow> d | Some n \<Rightarrow> n))"
proof -
  obtain off where o: "GetOptionalFieldOffset (vf_buf v) data vt = Inr off" "0 \<le> off" "off < 2 ^ 16" using field_offset[OF assms(1-3)] .
  have b: "Verify_base v ty data off \<Longrightarrow> \<exists>x. ReadScalar ty (vf_buf v) (data + off) = Inr x"
    using ReadScalar_ok[of "data + off" ty "vf_buf v"] o assms(4,5) by (auto simp: Verify_base_def base_small Verify_range_def)
  show ?thesis
  proof
    show "Table_VerifyField ty data vt v = Inr (off = 0 \<or> Verify_base v ty data off)" using o by (simp add: Table_VerifyField_def)
    show "\<exists>x. Table_GetOptional ty (vf_buf v) data vt = Inr x \<and> (\<forall>d. Table_GetField ty (vf_buf v) data vt d = Inr (case x of None \<Rightarrow> d | Some n \<Rightarrow> n))"
      if c: "off = 0 \<or> Verify_base v ty data off"
    proof (cases "off = 0")
      case False
      then obtain x where "ReadScalar ty (vf_buf v) (data + off) = Inr x" using b c by blast
      then show ?thesis using o False by (intro exI[of _ "Some x"]) (simp add: Table_GetOptional_def Table_GetField_def)
    qed (use o in \<open>simp add: Table_GetOptional_def Table_GetField_def\<close>)
  qed
qed

text \<open>A verified offset leads into the buffer.\<close>

lemma VerifyOffset_runs:
  assumes "vsafe v" "0 \<le> p" "p < 2 ^ 35"
  obtains o1 where "VerifyOffset v p = Inr o1" "o1 \<noteq> 0 \<Longrightarrow> ReadScalar uoffset_t (vf_buf v) p = Inr o1 \<and> 0 < o1 \<and> p + o1 < vf_size v"
proof (cases "Verify_scalar v uoffset_t p")
  case True
  obtain o1 where o: "ReadScalar uoffset_t (vf_buf v) p = Inr o1" using Verify_scalar_read[OF True assms(2)] .
  have b: "0 \<le> o1" "o1 < 2 ^ 32" using ReadScalar_bounds(3)[OF o] by simp_all
  have r: "Verify_range v (to_size_t (p + o1)) 1 \<Longrightarrow> p + o1 < vf_size v" using b assms(2,3) by (simp add: to_size_t_small Verify_range_def)
  let ?r = "if o1 = 0 \<or> \<not> to_int o1 \<ge> 0 \<or> \<not> Verify_range v (to_size_t (p + o1)) 1 then 0 else o1"
  show ?thesis
  proof
    show "VerifyOffset v p = Inr ?r" using True o by (auto simp: VerifyOffset_def)
    show "ReadScalar uoffset_t (vf_buf v) p = Inr ?r \<and> 0 < ?r \<and> p + ?r < vf_size v" if "?r \<noteq> 0"
      using that o b r by (simp split: if_splits)
  qed
qed (use that in \<open>simp add: VerifyOffset_def\<close>)

lemma offset_check_runs:
  assumes "vsafe v" "table_ok (vf_buf v) data" "even vt" "0 \<le> vt" "0 \<le> data" "data < 2 ^ 34"
  shows "runs (offset_check vt data v) v (\<lambda>v'. v' = v \<and> (\<exists>p. Table_GetPointer (vf_buf v) data vt = Inr p \<and>
    (\<forall>q. p = Some q \<longrightarrow> 0 \<le> q \<and> q < 2 ^ 34)))"
proof -
  obtain off where o: "GetOptionalFieldOffset (vf_buf v) data vt = Inr off" "0 \<le> off" "off < 2 ^ 16" using field_offset[OF assms(2-4)] .
  have p: "0 \<le> data + off" "data + off < 2 ^ 35" using o assms(5,6) by simp_all
  obtain o1 where o1: "VerifyOffset v (data + off) = Inr o1"
      "o1 \<noteq> 0 \<Longrightarrow> ReadScalar uoffset_t (vf_buf v) (data + off) = Inr o1 \<and> 0 < o1 \<and> data + off + o1 < vf_size v"
    using VerifyOffset_runs[OF assms(1) p] by blast
  have "Table_VerifyOffset data vt v = Inr (off = 0 \<or> o1 \<noteq> 0)"
    using o o1(1) assms(5,6) by (simp add: Table_VerifyOffset_def base_small)
  moreover have "\<exists>q. Table_GetPointer (vf_buf v) data vt = Inr q \<and> (\<forall>r. q = Some r \<longrightarrow> 0 \<le> r \<and> r < 2 ^ 34)" if "off = 0 \<or> o1 \<noteq> 0"
  proof (cases "off = 0")
    case False
    then have "Table_GetPointer (vf_buf v) data vt = Inr (Some (data + off + o1))" "0 \<le> data + off + o1" "data + off + o1 < 2 ^ 34"
      using o1(2) that o p assms(1) by (auto simp: Table_GetPointer_def Let_def vsafe_def FLATBUFFERS_MAX_BUFFER_SIZE_def)
    then show ?thesis by blast
  qed (use o in \<open>simp add: Table_GetPointer_def\<close>)
  ultimately show ?thesis unfolding offset_check_def by (rule runs_pure)
qed

text \<open>Vectors and strings.\<close>

lemma VerifyVectorOrString_runs:
  assumes "vsafe v" "0 \<le> p" "p < 2 ^ 34" "0 < es" "es \<le> 8"
  obtains ok fin where "VerifyVectorOrString v p es = Inr (ok, fin)"
    "ok \<Longrightarrow> \<exists>n. Vector_size (vf_buf v) p = Inr n \<and> 0 \<le> n \<and> fin = p + 4 + es * n \<and> fin \<le> vf_size v"
proof (cases "Verify_scalar v uoffset_t p")
  case True
  have p: "to_size_t p = p" using assms(2,3) by (simp add: to_size_t_small)
  obtain n where n: "ReadScalar uoffset_t (vf_buf v) p = Inr n" using Verify_scalar_read[OF True assms(2)] .
  have b: "0 \<le> n" "n < 2 ^ 32" using ReadScalar_bounds(3)[OF n] by simp_all
  have m: "0 \<le> es * n" "es * n \<le> 8 * 2 ^ 32" using b assms(4,5) mult_mono[of es 8 n "2 ^ 32"] by simp_all
  then have s: "to_size_t (4 + es * n) = 4 + es * n" "to_size_t (p + (4 + es * n)) = p + 4 + es * n"
    using assms(2,3) by (simp_all add: to_size_t_small)
  show ?thesis
  proof (cases "n < FLATBUFFERS_MAX_BUFFER_SIZE div es")
    case lt: True
    show ?thesis
      by (rule that[of "Verify_range v p (4 + es * n)" "p + 4 + es * n"])
        (use True n lt b p s in \<open>auto simp: VerifyVectorOrString_def Let_def Vector_size_def Verify_range_def\<close>)
  qed (use that True n p in \<open>simp add: VerifyVectorOrString_def Let_def\<close>)
qed (use that assms in \<open>simp add: VerifyVectorOrString_def to_size_t_small\<close>)

lemma VerifyVector_runs:
  assumes "vsafe v" "0 \<le> p" "p < 2 ^ 34"
  obtains ok where "VerifyVector v ty (Some p) = Inr ok"
    "ok \<Longrightarrow> \<exists>n. Vector_size (vf_buf v) p = Inr n \<and> 0 \<le> n \<and> p + 4 + int (sizeof ty) * n \<le> vf_size v"
proof -
  have "0 < int (sizeof ty)" "int (sizeof ty) \<le> 8" by (cases ty; simp)+
  then obtain ok fin where r: "VerifyVectorOrString v p (int (sizeof ty)) = Inr (ok, fin)"
      "ok \<Longrightarrow> \<exists>n. Vector_size (vf_buf v) p = Inr n \<and> 0 \<le> n \<and> fin = p + 4 + int (sizeof ty) * n \<and> fin \<le> vf_size v"
    using VerifyVectorOrString_runs[OF assms] by blast
  show ?thesis
  proof
    show "VerifyVector v ty (Some p) = Inr ok" using r(1) by (simp add: VerifyVector_def)
    show "\<exists>n. Vector_size (vf_buf v) p = Inr n \<and> 0 \<le> n \<and> p + 4 + int (sizeof ty) * n \<le> vf_size v" if "ok" using r(2)[OF that] by blast
  qed
qed

lemma c_str_ok:
  assumes "0 \<le> p" "p \<le> e" "e < int (length b)" "b ! nat e = 0" "e - p < int fuel"
  shows "\<exists>cs. c_str fuel b p = Inr cs"
  using assms
proof (induction fuel arbitrary: p)
  case (Suc fuel)
  have v: "vec_at b p = Inr (b ! nat p)" using Suc.prems by (simp add: vec_at_def)
  show ?case
  proof (cases "b ! nat p = 0")
    case False
    then have "p \<noteq> e" using Suc.prems(4) by auto
    then obtain cs where "c_str fuel b (p + 1) = Inr cs" using Suc.IH[of "p + 1"] Suc.prems by auto
    then show ?thesis using v False by (simp del: vec_at_Inr)
  qed (use v in \<open>simp del: vec_at_Inr\<close>)
qed simp

lemma VerifyString_runs:
  assumes "vsafe v" "0 \<le> p" "p < 2 ^ 34"
  obtains ok where "VerifyString v (Some p) = Inr ok" "ok \<Longrightarrow> \<exists>cs. c_str (Suc (length (vf_buf v))) (vf_buf v) (p + 4) = Inr cs"
proof -
  obtain ok fin where r: "VerifyVectorOrString v p 1 = Inr (ok, fin)"
      "ok \<Longrightarrow> \<exists>n. Vector_size (vf_buf v) p = Inr n \<and> 0 \<le> n \<and> fin = p + 4 + 1 * n \<and> fin \<le> vf_size v"
    using VerifyVectorOrString_runs[OF assms, of 1] by auto
  show ?thesis
  proof (cases "ok \<and> Verify_range v fin 1")
    case True
    then have f: "p + 4 \<le> fin" "fin < vf_size v" using r(2) by (auto simp: Verify_range_def)
    then have "vec_at (vf_buf v) fin = Inr (vf_buf v ! nat fin)" using assms(2) by (simp add: vec_at_def)
    moreover have "\<exists>cs. c_str (Suc (length (vf_buf v))) (vf_buf v) (p + 4) = Inr cs" if "vf_buf v ! nat fin = 0"
      by (rule c_str_ok[of "p + 4" fin "vf_buf v"]) (use that f assms(2) in simp_all)
    ultimately show ?thesis using that[of "vf_buf v ! nat fin = 0"] r(1) True by (simp add: VerifyString_def del: vec_at_Inr)
  qed (use that[of False] r(1) in \<open>auto simp: VerifyString_def\<close>)
qed

section \<open>Verified tables can be read\<close>

text \<open>The tables a client visits.\<close>

primrec tables_in :: "fb_value \<Rightarrow> int" where
  "tables_in Absent = 0"
| "tables_in (Number n) = 0"
| "tables_in (Numbers ns) = 0"
| "tables_in (Chars cs) = 0"
| "tables_in (Record xs) = 1 + sum_list (map tables_in xs)"
| "tables_in (Records xs) = sum_list (map tables_in xs)"
| "tables_in (Variant ty x) = (case map_option tables_in x of None \<Rightarrow> 0 | Some n \<Rightarrow> n)"

definition counted :: "verifier \<Rightarrow> verifier \<Rightarrow> int \<Rightarrow> bool" where
  "counted v v' k \<longleftrightarrow> (vcount v \<longrightarrow> vcount v' \<and> vf_depth v' = vf_depth v \<and> vf_num_tables v' = vf_num_tables v + k)"

lemma counted_0 [simp]: "counted v v 0"
  by (simp add: counted_def)

lemma counted_trans: "counted u v j \<Longrightarrow> counted v w k \<Longrightarrow> counted u w (j + k)"
  by (simp add: counted_def)

text \<open>A check is sound for a reader when it returns on every table, and the reader succeeds where the check is true.\<close>

definition reads_ok :: "(bool \<times> verifier) res \<Rightarrow> (bytes \<Rightarrow> fb_value res) \<Rightarrow> verifier \<Rightarrow> bool" where
  "reads_ok r f v \<longleftrightarrow> runs r v (\<lambda>v'. \<exists>x. f (vf_buf v) = Inr x \<and> counted v v' (tables_in x))"

definition sound :: "check \<Rightarrow> (bytes \<Rightarrow> int \<Rightarrow> fb_value res) \<Rightarrow> bool" where
  "sound c r \<longleftrightarrow> (\<forall>data v. vsafe v \<and> 0 \<le> data \<and> data < 2 ^ 34 \<and> table_ok (vf_buf v) data \<longrightarrow> reads_ok (c data v) (\<lambda>b. r b data) v)"

definition table_sound :: "check \<Rightarrow> (bytes \<Rightarrow> int \<Rightarrow> fb_value res) \<Rightarrow> bool" where
  "table_sound c r \<longleftrightarrow> (\<forall>data v. vsafe v \<and> 0 \<le> data \<and> data < 2 ^ 34 \<longrightarrow> reads_ok (c data v) (\<lambda>b. r b data) v)"

lemma all_checks_runs:
  assumes "list_all2 sound cs rs" "vsafe v" "0 \<le> data" "data < 2 ^ 34" "table_ok (vf_buf v) data"
  shows "runs (all_checks cs data v) v (\<lambda>v'. \<exists>xs. read_fields rs (vf_buf v) data = Inr xs \<and> counted v v' (sum_list (map tables_in xs)))"
  using assms
proof (induction cs rs arbitrary: v rule: list_all2_induct)
  case (Cons c cs r rs)
  have "runs (c data v) v (\<lambda>v'. \<exists>x. r (vf_buf v) data = Inr x \<and> counted v v' (tables_in x))"
    using Cons.hyps(1) Cons.prems by (simp add: sound_def reads_ok_def)
  then show ?case unfolding all_checks.simps
  proof (rule runs_and_then)
    fix v1 assume f: "vframe v v1" and q: "\<exists>x. r (vf_buf v) data = Inr x \<and> counted v v1 (tables_in x)"
    have "runs (all_checks cs data v1) v1 (\<lambda>v'. \<exists>xs. read_fields rs (vf_buf v1) data = Inr xs \<and> counted v1 v' (sum_list (map tables_in xs)))"
      using Cons.IH[of v1] Cons.prems vframe_safe[OF f] vframe_buf[OF f] by simp
    then show "runs (all_checks cs data v1) v1 (\<lambda>v'. \<exists>xs. read_fields (r # rs) (vf_buf v) data = Inr xs \<and> counted v v' (sum_list (map tables_in xs)))"
      by (rule runs_weaken) (use q vframe_buf[OF f] in \<open>auto intro: counted_trans\<close>)
  qed
qed (auto simp: runs_def)

lemma table_body_sound:
  assumes "list_all2 sound cs rs"
  shows "table_sound (table_body cs) (read_record rs)"
  unfolding table_sound_def reads_ok_def table_body_def
proof (intro allI impI, elim conjE)
  fix data :: int and v assume v: "vsafe v" "0 \<le> data" "data < 2 ^ 34"
  let ?Q = "\<lambda>v'. \<exists>x. read_record rs (vf_buf v) data = Inr x \<and> counted v v' (tables_in x)"
  show "runs (and_then VerifyTableStart (and_then (all_checks cs) (\<lambda>_ v. Inr (EndTable v))) data v) v ?Q"
  proof (rule runs_and_then, rule VerifyTableStart_runs[OF v], rule runs_and_then)
    fix v1 assume f: "vframe v v1" and s: "table_ok (vf_buf v) data \<and> (vcount v \<longrightarrow> vcount v1 \<and>
        vf_depth v1 = (vf_depth v + 1) mod 2 ^ 32 \<and> vf_num_tables v1 = vf_num_tables v + 1)"
    show "runs (all_checks cs data v1) v1 (\<lambda>v'. \<exists>xs. read_fields rs (vf_buf v1) data = Inr xs \<and> counted v1 v' (sum_list (map tables_in xs)))"
      using all_checks_runs[OF assms, of v1 data] v s vframe_safe[OF f] vframe_buf[OF f] by simp
    fix v2 assume g: "vframe v1 v2" and "\<exists>xs. read_fields rs (vf_buf v1) data = Inr xs \<and> counted v1 v2 (sum_list (map tables_in xs))"
    then obtain xs where x: "read_fields rs (vf_buf v) data = Inr xs" "counted v1 v2 (sum_list (map tables_in xs))" using vframe_buf[OF f] by auto
    have "vframe v2 (snd (EndTable v2))" by (simp add: EndTable_def vframe_def)
    moreover have "counted v (snd (EndTable v2)) (tables_in (Record xs))"
      using x(2) s by (auto simp: counted_def EndTable_def vcount_def mod_diff_left_eq)
    ultimately show "runs (Inr (EndTable v2)) v2 ?Q"
      using x(1) by (auto simp: runs_def read_record_def EndTable_def)
  qed
qed

text \<open>The elements of a verified vector.\<close>

lemma read_each_ok:
  assumes "\<And>j. i \<le> j \<Longrightarrow> j < i + n \<Longrightarrow> \<exists>x. f j = Inr x"
  shows "\<exists>xs. read_each f i n = Inr xs"
  using assms
proof (induction n arbitrary: i)
  case (Suc n)
  obtain x where "f i = Inr x" using Suc.prems[of i] by auto
  moreover have "\<exists>xs. read_each f (Suc i) n = Inr xs" using Suc.prems by (intro Suc.IH) simp
  ultimately show ?case by auto
qed simp

lemma Vector_Get_ok:
  assumes "0 \<le> p" "int j < n" "p + 4 + int (sizeof ty) * n \<le> int (length b)"
  shows "\<exists>x. Vector_Get ty b p j = Inr x"
proof -
  have "(int j + 1) * int (sizeof ty) \<le> n * int (sizeof ty)" using assms(2) by (intro mult_right_mono) simp_all
  then have "p + 4 + int j * int (sizeof ty) + int (sizeof ty) \<le> int (length b)" using assms(3) by (simp add: algebra_simps)
  then show ?thesis using assms(1) ReadScalar_ok[of "p + 4 + int j * int (sizeof ty)" ty b] by (auto simp: Vector_Get_def)
qed

lemma Vector_GetOffset_ok:
  assumes "0 \<le> p" "int j < n" "p + 4 + 4 * n \<le> int (length b)" "int (length b) < 2 ^ 31"
  shows "\<exists>q. Vector_GetOffset b p j = Inr q \<and> 0 \<le> q \<and> q < 2 ^ 34"
proof -
  have "\<exists>x. ReadScalar uoffset_t b (p + 4 + int j * 4) = Inr x" using Vector_Get_ok[of p j n uoffset_t b] assms by (simp add: Vector_Get_def)
  then obtain x where x: "ReadScalar uoffset_t b (p + 4 + int j * 4) = Inr x" by blast
  have "0 \<le> x" "x < 2 ^ 32" using ReadScalar_bounds(3)[OF x] by simp_all
  then show ?thesis using x assms by (simp add: Vector_GetOffset_def Let_def)
qed

lemma tables_loop_runs:
  assumes tab: "table_sound tab r" and v: "vsafe v"
    and p: "0 \<le> p" "p + 4 + 4 * n \<le> vf_size v" "int (i + k) \<le> n"
  shows "runs (tables_loop tab p i k v) v (\<lambda>v'. \<exists>xs. read_each (\<lambda>j. bind_res (Vector_GetOffset (vf_buf v) p j) (r (vf_buf v))) i k = Inr xs \<and>
    counted v v' (sum_list (map tables_in xs)))"
  using v p
proof (induction k arbitrary: i v)
  case (Suc k)
  have "vf_size v < 2 ^ 31" using Suc.prems(1) by (simp add: vsafe_def FLATBUFFERS_MAX_BUFFER_SIZE_def)
  moreover have "int i < n" using Suc.prems(4) by simp
  ultimately obtain q where q: "Vector_GetOffset (vf_buf v) p i = Inr q" "0 \<le> q" "q < 2 ^ 34"
    using Vector_GetOffset_ok[OF Suc.prems(2), of i n "vf_buf v"] Suc.prems(3) by blast
  have "runs (tab q v) v (\<lambda>v'. \<exists>x. r (vf_buf v) q = Inr x \<and> counted v v' (tables_in x))"
    using tab Suc.prems(1) q by (simp add: table_sound_def reads_ok_def)
  then obtain ok v1 where t: "tab q v = Inr (ok, v1)" "vframe v v1" "ok \<longrightarrow> (\<exists>x. r (vf_buf v) q = Inr x \<and> counted v v1 (tables_in x))"
    unfolding runs_def by blast
  show ?case
  proof (cases ok)
    case True
    then obtain x where x: "r (vf_buf v) q = Inr x" "counted v v1 (tables_in x)" using t(3) by blast
    have b: "vf_buf v1 = vf_buf v" by (rule vframe_buf[OF t(2)])
    obtain ok2 v2 where l: "tables_loop tab p (Suc i) k v1 = Inr (ok2, v2)" "vframe v1 v2"
        "ok2 \<longrightarrow> (\<exists>xs. read_each (\<lambda>j. bind_res (Vector_GetOffset (vf_buf v) p j) (r (vf_buf v))) (Suc i) k = Inr xs \<and>
           counted v1 v2 (sum_list (map tables_in xs)))"
      using Suc.IH[of v1 "Suc i"] Suc.prems vframe_safe[OF t(2)] unfolding runs_def b by auto
    have "tables_loop tab p i (Suc k) v = Inr (ok2, v2)" using q t(1) True l(1) by simp
    then show ?thesis by (rule runsI) (use l(2,3) t(2) x q(1) in \<open>auto intro: vframe_trans counted_trans\<close>)
  next
    case False
    have "tables_loop tab p i (Suc k) v = Inr (False, v1)" using q t(1) False by simp
    then show ?thesis by (rule runsI) (use t(2) in simp_all)
  qed
qed (auto simp: runs_def)

section \<open>All fields\<close>

text \<open>Field positions are even, and behind the two sizes a vtable starts with: it has two bytes for each field.\<close>

primrec wf_field :: "fb_field \<Rightarrow> bool" where
  "wf_field (Scalar ty vt) = (even vt \<and> 4 \<le> vt)"
| "wf_field (Scalars ty vt) = (even vt \<and> 4 \<le> vt)"
| "wf_field (Text vt) = (even vt \<and> 4 \<le> vt)"
| "wf_field (Subtable vt fs) = (even vt \<and> 4 \<le> vt \<and> list_all wf_field fs)"
| "wf_field (Subtables vt fs) = (even vt \<and> 4 \<le> vt \<and> list_all wf_field fs)"
| "wf_field (Union vt_type vt alts) = (even vt_type \<and> 4 \<le> vt_type \<and> even vt \<and> 4 \<le> vt \<and>
     list_all (pred_prod (\<lambda>_. True) (list_all wf_field)) alts)"

text \<open>A check of an optional pointer: nothing to do for a null pointer.\<close>

lemma pointer_sound:
  assumes vt: "even vt" "0 \<le> vt"
    and none: "\<And>v. runs (f None v) v (\<lambda>v'. v' = v)"
    and some: "\<And>v q. vsafe v \<Longrightarrow> 0 \<le> q \<Longrightarrow> q < 2 ^ 34 \<Longrightarrow> reads_ok (f (Some q) v) (\<lambda>b. r b q) v"
  shows "sound (and_then (offset_check vt) (with_pointer vt f)) (if_present r vt)"
  unfolding sound_def reads_ok_def
proof (intro allI impI, elim conjE)
  fix data v assume v: "vsafe v" "0 \<le> data" "data < 2 ^ 34" "table_ok (vf_buf v) data"
  show "runs (and_then (offset_check vt) (with_pointer vt f) data v) v (\<lambda>v'. \<exists>x. if_present r vt (vf_buf v) data = Inr x \<and> counted v v' (tables_in x))"
  proof (rule runs_and_then, rule offset_check_runs[OF v(1,4) vt v(2,3)], elim conjE exE)
    fix v1 p assume v1: "v1 = v" and p: "Table_GetPointer (vf_buf v) data vt = Inr p" "\<forall>q. p = Some q \<longrightarrow> 0 \<le> q \<and> q < 2 ^ 34"
    show "runs (with_pointer vt f data v1) v1 (\<lambda>v'. \<exists>x. if_present r vt (vf_buf v) data = Inr x \<and> counted v v' (tables_in x))"
    proof (cases p)
      case None
      show ?thesis using none[of v] p None v1 by (auto simp: with_pointer_def if_present_def runs_def)
    next
      case (Some q)
      then have "reads_ok (f (Some q) v) (\<lambda>b. r b q) v" using some[OF v(1)] p(2) by blast
      then show ?thesis using p(1) Some v1 by (simp add: with_pointer_def if_present_def reads_ok_def)
    qed
  qed
qed

lemma scalar_sound:
  assumes "even vt" "0 \<le> vt"
  shows "sound (verify_field (Scalar ty vt)) (read_field (Scalar ty vt))"
  unfolding sound_def reads_ok_def verify_field.simps read_field.simps
proof (intro allI impI, elim conjE)
  fix data v assume v: "vsafe v" "0 \<le> data" "data < 2 ^ 34" "table_ok (vf_buf v) data"
  obtain ok where ok: "Table_VerifyField ty data vt v = Inr ok" "ok \<Longrightarrow> \<exists>x. Table_GetOptional ty (vf_buf v) data vt = Inr x"
    using VerifyField_runs[OF v(4) assms v(2,3)] by blast
  show "runs (pure_check (\<lambda>data. Table_VerifyField ty data vt) data v) v (\<lambda>v'. \<exists>x. bind_res (Table_GetOptional ty (vf_buf v) data vt)
      (\<lambda>x. Inr (case x of None \<Rightarrow> Absent | Some n \<Rightarrow> Number n)) = Inr x \<and> counted v v' (tables_in x))"
  proof (rule runs_weaken)
    show "runs (pure_check (\<lambda>data. Table_VerifyField ty data vt) data v) v (\<lambda>v'. v' = v \<and> (\<exists>x. Table_GetOptional ty (vf_buf v) data vt = Inr x))"
      by (rule runs_pure[where f = "\<lambda>data. Table_VerifyField ty data vt", OF ok])
  next
    fix v' assume "v' = v \<and> (\<exists>x. Table_GetOptional ty (vf_buf v) data vt = Inr x)"
    then obtain x where "v' = v" "Table_GetOptional ty (vf_buf v) data vt = Inr x" by blast
    then show "\<exists>x. bind_res (Table_GetOptional ty (vf_buf v) data vt) (\<lambda>x. Inr (case x of None \<Rightarrow> Absent | Some n \<Rightarrow> Number n)) = Inr x \<and>
        counted v v' (tables_in x)" by (cases x) simp_all
  qed
qed

lemma vector_sound:
  assumes "even vt" "0 \<le> vt"
  shows "sound (verify_field (Scalars ty vt)) (read_field (Scalars ty vt))"
  unfolding verify_field.simps read_field.simps
proof (rule pointer_sound[OF assms])
  fix v q assume v: "vsafe v" "0 \<le> (q :: int)" "q < 2 ^ 34"
  obtain ok where ok: "VerifyVector v ty (Some q) = Inr ok"
      "ok \<Longrightarrow> \<exists>n. Vector_size (vf_buf v) q = Inr n \<and> 0 \<le> n \<and> q + 4 + int (sizeof ty) * n \<le> vf_size v"
    using VerifyVector_runs[OF v] by blast
  have "\<exists>xs. read_each (Vector_Get ty (vf_buf v) q) 0 (nat n) = Inr xs" if "0 \<le> n" "q + 4 + int (sizeof ty) * n \<le> vf_size v" for n
    by (rule read_each_ok, rule Vector_Get_ok[OF v(2), of _ n]) (use that in simp_all)
  then have "\<exists>xs. bind_res (Vector_size (vf_buf v) q) (\<lambda>n. bind_res (read_each (Vector_Get ty (vf_buf v) q) 0 (nat n)) (\<lambda>xs. Inr (Numbers xs))) = Inr xs \<and>
      counted v v (tables_in xs)" if ok
    using ok(2)[OF that] by fastforce
  then show "reads_ok (bind_res (VerifyVector v ty (Some q)) (\<lambda>ok. Inr (ok, v)))
      (\<lambda>b. bind_res (Vector_size b q) (\<lambda>n. bind_res (read_each (Vector_Get ty b q) 0 (nat n)) (\<lambda>xs. Inr (Numbers xs)))) v"
    unfolding reads_ok_def by (intro runsI[where ok = ok and v' = v]) (use ok(1) in \<open>auto simp del: bind_res_eq_Inr\<close>)
qed (auto simp: VerifyVector_def runs_def)

lemma text_sound:
  assumes "even vt" "0 \<le> vt"
  shows "sound (verify_field (Text vt)) (read_field (Text vt))"
  unfolding verify_field.simps read_field.simps
proof (rule pointer_sound[OF assms])
  fix v q assume v: "vsafe v" "0 \<le> (q :: int)" "q < 2 ^ 34"
  obtain ok where ok: "VerifyString v (Some q) = Inr ok" "ok \<Longrightarrow> \<exists>cs. c_str (Suc (length (vf_buf v))) (vf_buf v) (q + 4) = Inr cs"
    using VerifyString_runs[OF v] by blast
  then show "reads_ok (bind_res (VerifyString v (Some q)) (\<lambda>ok. Inr (ok, v)))
      (\<lambda>b. bind_res (c_str (Suc (length b)) b (q + 4)) (\<lambda>cs. Inr (Chars cs))) v"
    by (auto simp: reads_ok_def runs_def simp del: c_str.simps)
qed (auto simp: VerifyString_def runs_def)

lemma subtable_sound:
  assumes "even vt" "0 \<le> vt" "table_sound tab r"
  shows "sound (and_then (offset_check vt) (with_pointer vt (VerifyTable tab))) (if_present r vt)"
  by (rule pointer_sound[OF assms(1,2)]) (use assms(3) in \<open>auto simp: VerifyTable_def runs_def table_sound_def\<close>)

text \<open>The vector of offsets is checked before its elements are.\<close>

lemma two_pointer_checks:
  "and_then (with_pointer vt (\<lambda>p v. bind_res (h v p) (\<lambda>ok. Inr (ok, v)))) (with_pointer vt g) =
   with_pointer vt (\<lambda>p v. bind_res (h v p) (\<lambda>ok. if ok then g p v else Inr (False, v)))"
proof (intro ext)
  fix data v
  show "and_then (with_pointer vt (\<lambda>p v. bind_res (h v p) (\<lambda>ok. Inr (ok, v)))) (with_pointer vt g) data v =
    with_pointer vt (\<lambda>p v. bind_res (h v p) (\<lambda>ok. if ok then g p v else Inr (False, v))) data v"
  proof (cases "Table_GetPointer (vf_buf v) data vt")
    case (Inr p)
    then show ?thesis by (cases "h v p") (simp_all add: and_then_def with_pointer_def)
  qed (simp add: and_then_def with_pointer_def)
qed

lemma subtables_sound:
  assumes "even vt" "0 \<le> vt" "table_sound tab r"
  shows "sound (and_then (offset_check vt) (and_then (with_pointer vt (\<lambda>p v. bind_res (VerifyVector v uoffset_t p) (\<lambda>ok. Inr (ok, v))))
      (with_pointer vt (VerifyVectorOfTables tab))))
    (if_present (\<lambda>b p. bind_res (Vector_size b p) (\<lambda>n. bind_res (read_each (\<lambda>i. bind_res (Vector_GetOffset b p i) (r b)) 0 (nat n))
      (\<lambda>xs. Inr (Records xs)))) vt)"
  unfolding two_pointer_checks
proof (rule pointer_sound[OF assms(1,2)])
  fix v q assume v: "vsafe v" "0 \<le> (q :: int)" "q < 2 ^ 34"
  obtain ok where ok: "VerifyVector v uoffset_t (Some q) = Inr ok"
      "ok \<Longrightarrow> \<exists>n. Vector_size (vf_buf v) q = Inr n \<and> 0 \<le> n \<and> q + 4 + int (sizeof uoffset_t) * n \<le> vf_size v"
    using VerifyVector_runs[OF v] by blast
  show "reads_ok (bind_res (VerifyVector v uoffset_t (Some q)) (\<lambda>ok. if ok then VerifyVectorOfTables tab (Some q) v else Inr (False, v)))
      (\<lambda>b. bind_res (Vector_size b q) (\<lambda>n. bind_res (read_each (\<lambda>i. bind_res (Vector_GetOffset b q i) (r b)) 0 (nat n)) (\<lambda>xs. Inr (Records xs)))) v"
  proof (cases ok)
    case True
    then obtain n where n: "Vector_size (vf_buf v) q = Inr n" "0 \<le> n" "q + 4 + 4 * n \<le> vf_size v" using ok(2) by auto
    have "runs (tables_loop tab q 0 (nat n) v) v (\<lambda>v'. \<exists>xs. read_each (\<lambda>j. bind_res (Vector_GetOffset (vf_buf v) q j) (r (vf_buf v))) 0 (nat n) =
        Inr xs \<and> counted v v' (sum_list (map tables_in xs)))"
      by (rule tables_loop_runs[OF assms(3) v(1,2) n(3)]) (use n(2) in simp)
    then have "runs (tables_loop tab q 0 (nat n) v) v (\<lambda>v'. \<exists>x. bind_res (read_each (\<lambda>i. bind_res (Vector_GetOffset (vf_buf v) q i) (r (vf_buf v))) 0 (nat n))
        (\<lambda>xs. Inr (Records xs)) = Inr x \<and> counted v v' (tables_in x))"
      by (rule runs_weaken) auto
    then show ?thesis using ok(1) True n(1) by (simp add: reads_ok_def VerifyVectorOfTables_def del: bind_res_eq_Inr)
  qed (use ok in \<open>auto simp: reads_ok_def runs_def\<close>)
qed (auto simp: VerifyVector_def VerifyVectorOfTables_def runs_def)

lemma union_sound:
  assumes "even vt_type" "0 \<le> vt_type" "even vt" "0 \<le> vt"
    and alts: "list_all2 (\<lambda>a b. fst a = fst b \<and> list_all2 sound (snd a) (snd b)) cs rs"
  shows "sound (and_then (pure_check (\<lambda>data. Table_VerifyField U8 data vt_type)) (and_then (offset_check vt)
      (\<lambda>data v. bind_res (Table_GetPointer (vf_buf v) data vt) (\<lambda>p. bind_res (Table_GetField U8 (vf_buf v) data vt_type 0) (\<lambda>ty.
        union_check cs ty p v)))))
    (\<lambda>b data. bind_res (Table_GetField U8 b data vt_type 0) (\<lambda>ty. bind_res (Table_GetPointer b data vt) (\<lambda>p. case p of None \<Rightarrow> Inr (Variant ty None)
       | Some q \<Rightarrow> (case map_of rs ty of None \<Rightarrow> Inr (Variant ty None) | Some fs \<Rightarrow> bind_res (read_record fs b q) (\<lambda>x. Inr (Variant ty (Some x)))))))"
    (is "sound (and_then ?F (and_then ?O ?G)) ?R")
  unfolding sound_def reads_ok_def
proof (intro allI impI, elim conjE)
  fix data v assume v: "vsafe v" "0 \<le> data" "data < 2 ^ 34" "table_ok (vf_buf v) data"
  let ?Q = "\<lambda>v'. \<exists>x. ?R (vf_buf v) data = Inr x \<and> counted v v' (tables_in x)"
  obtain ok where ok: "Table_VerifyField U8 data vt_type v = Inr ok" "ok \<Longrightarrow> \<exists>ty. Table_GetField U8 (vf_buf v) data vt_type 0 = Inr ty"
    using VerifyField_runs[OF v(4) assms(1,2) v(2,3), where ty = U8] by blast
  have typed: "runs (?F data v) v (\<lambda>v'. v' = v \<and> (\<exists>ty. Table_GetField U8 (vf_buf v) data vt_type 0 = Inr ty))"
    by (rule runs_pure[where f = "\<lambda>data. Table_VerifyField U8 data vt_type", OF ok])
  show "runs (and_then ?F (and_then ?O ?G) data v) v ?Q"
  proof (rule runs_and_then, rule typed, rule runs_and_then, elim conjE exE)
    fix v1 ty assume v1: "v1 = v" and ty: "Table_GetField U8 (vf_buf v) data vt_type 0 = Inr ty"
    show "runs (?O data v1) v1 (\<lambda>v'. v' = v \<and> (\<exists>p. Table_GetPointer (vf_buf v) data vt = Inr p \<and> (\<forall>q. p = Some q \<longrightarrow> 0 \<le> q \<and> q < 2 ^ 34)))"
      using offset_check_runs[OF v(1,4) assms(3,4) v(2,3)] v1 by simp
  next
    fix v1 v2 assume "v1 = v \<and> (\<exists>ty. Table_GetField U8 (vf_buf v) data vt_type 0 = Inr ty)"
      "v2 = v \<and> (\<exists>p. Table_GetPointer (vf_buf v) data vt = Inr p \<and> (\<forall>q. p = Some q \<longrightarrow> 0 \<le> q \<and> q < 2 ^ 34))"
    then obtain ty p where ty: "Table_GetField U8 (vf_buf v) data vt_type 0 = Inr ty" and p: "Table_GetPointer (vf_buf v) data vt = Inr p"
      "\<And>q. p = Some q \<Longrightarrow> 0 \<le> q \<and> q < 2 ^ 34" and v2: "v2 = v" by blast
    have m: "rel_option (list_all2 sound) (map_of cs ty) (map_of rs ty)" using alts by (induction cs rs rule: list_all2_induct) auto
    show "runs (?G data v2) v2 ?Q"
    proof (cases p)
      case (Some q)
      show ?thesis
      proof (cases "map_of rs ty")
        case None
        then show ?thesis using m ty p Some v2 by (auto simp: union_check_def runs_def)
      next
        case r: (Some fs)
        then obtain gs where g: "map_of cs ty = Some gs" "list_all2 sound gs fs" using m by (auto simp: option_rel_Some2)
        have "reads_ok (table_body gs q v) (\<lambda>b. read_record fs b q) v"
          using table_body_sound[OF g(2)] v(1) p(2)[OF Some] by (simp add: table_sound_def)
        then have "runs (table_body gs q v) v ?Q" unfolding reads_ok_def
          by (rule runs_weaken) (use ty p(1) Some r in auto)
        then show ?thesis using ty p(1) Some g(1) v2 by (simp add: union_check_def VerifyTable_def)
      qed
    qed (use ty p v2 in \<open>auto simp: union_check_def VerifyTable_def runs_def split: option.splits\<close>)
  qed
qed

lemma sound_list:
  assumes "\<And>f. f \<in> set fs \<Longrightarrow> wf_field f \<Longrightarrow> sound (verify_field f) (read_field f)" "list_all wf_field fs"
  shows "list_all2 sound (map verify_field fs) (map read_field fs)"
  using assms by (simp add: list_all2_map1 list_all2_map2 list_all2_same list_all_iff)

lemma verify_field_sound: "wf_field f \<Longrightarrow> sound (verify_field f) (read_field f)"
proof (induction f)
  case (Subtable vt fs)
  have "list_all2 sound (map verify_field fs) (map read_field fs)" using Subtable by (intro sound_list) auto
  then show ?case using Subtable.prems subtable_sound[OF _ _ table_body_sound] by simp
next
  case (Subtables vt fs)
  have "list_all2 sound (map verify_field fs) (map read_field fs)" using Subtables by (intro sound_list) auto
  then show ?case using Subtables.prems subtables_sound[OF _ _ table_body_sound] by simp
next
  case (Union vt_type vt alts)
  have "list_all2 sound (map verify_field (snd a)) (map read_field (snd a))" if "a \<in> set alts" for a
  proof (rule sound_list)
    show "list_all wf_field (snd a)" using Union.prems that by (auto simp: list_all_iff pred_prod_beta)
    show "sound (verify_field f) (read_field f)" if "f \<in> set (snd a)" "wf_field f" for f
      using Union.IH[OF \<open>a \<in> set alts\<close> _ that] by (simp add: snds.simps)
  qed
  then have "list_all2 (\<lambda>a b. fst a = fst b \<and> list_all2 sound (snd a) (snd b))
      (map (map_prod id (map verify_field)) alts) (map (map_prod id (map read_field)) alts)"
    by (simp add: list_all2_map1 list_all2_map2 list_all2_same)
  then show ?case using Union.prems union_sound unfolding verify_field.simps read_field.simps by simp
qed (rule scalar_sound vector_sound text_sound; simp)+

text \<open>The whole of a table, and of a buffer.\<close>

lemma verify_table_sound:
  assumes "list_all wf_field fs"
  shows "table_sound (verify_table fs) (read_table fs)"
  unfolding verify_table_def read_table_def
  by (rule table_body_sound) (rule sound_list[OF verify_field_sound assms])

lemma same_bytes_ok:
  assumes "0 \<le> p" "p + int (length cs) \<le> int (length b)"
  shows "\<exists>r. same_bytes b p cs = Inr r"
  using assms by (induction cs arbitrary: p) (auto simp: vec_at_def)

lemma VerifyBufferFromStart_runs:
  assumes tab: "table_sound tab r" and v: "vsafe v" and start: "0 \<le> start" "start \<le> 4"
    and ids: "\<And>i. idn = Some i \<Longrightarrow> 8 \<le> vf_size v \<Longrightarrow> start + 8 \<le> vf_size v"
  shows "runs (VerifyBufferFromStart tab idn start v) v (\<lambda>v'. \<exists>root x. GetRoot (vf_buf v) start = Inr root \<and>
    r (vf_buf v) root = Inr x \<and> counted v v' (tables_in x))"
proof -
  let ?n = "case idn of None \<Rightarrow> Inr True | Some idt \<Rightarrow> if vf_size v \<ge> 8 then BufferHasIdentifier (vf_buf v) start idt False else Inr False"
  have "\<exists>named. ?n = Inr named"
  proof (cases "idn")
    case (Some i)
    have "\<exists>x. same_bytes (vf_buf v) (start + 4) (take 4 i) = Inr x" if "8 \<le> vf_size v"
      using same_bytes_ok[of "start + 4" "take 4 i" "vf_buf v"] ids[OF Some that] start by simp
    then show ?thesis using Some by (auto simp: BufferHasIdentifier_def)
  qed auto
  then obtain named where n: "?n = Inr named" by blast
  obtain o1 where o: "VerifyOffset v start = Inr o1" "o1 \<noteq> 0 \<Longrightarrow> ReadScalar uoffset_t (vf_buf v) start = Inr o1 \<and> 0 < o1 \<and> start + o1 < vf_size v"
    using VerifyOffset_runs[OF v, of start] start by auto
  show ?thesis
  proof (cases "named \<and> o1 \<noteq> 0")
    case True
    have "vf_size v < 2 ^ 31" using v by (simp add: vsafe_def FLATBUFFERS_MAX_BUFFER_SIZE_def)
    then have "reads_ok (tab (start + o1) v) (\<lambda>b. r b (start + o1)) v"
      using tab v o(2) True start by (simp add: table_sound_def)
    then have "runs (tab (start + o1) v) v (\<lambda>v'. \<exists>root x. GetRoot (vf_buf v) start = Inr root \<and> r (vf_buf v) root = Inr x \<and> counted v v' (tables_in x))"
      unfolding reads_ok_def by (rule runs_weaken) (use o(2) True in \<open>auto simp: GetRoot_def\<close>)
    then show ?thesis using n o(1) True unfolding VerifyBufferFromStart_def by simp
  qed (use n o(1) in \<open>auto simp: VerifyBufferFromStart_def runs_def\<close>)
qed

end
