(* ===== verification/Builder_Sessions.thy ===== *)
theory Builder_Sessions
  imports Builder_Vectors Flatbuffer_Verify
begin

text \<open>
  Sessions of a builder: objects are built one after another, each referring to earlier ones only, and the buffer is finished with one of them
  as the root. The claims: every session can go on as long as there is room, and a reader of the finished buffer finds every object as it was built.
\<close>

section \<open>Finishing\<close>

lemma identifier_reads: "same_bytes (ys @ ident @ zs) (int (length ys)) ident = Inr True"
proof (induction ident arbitrary: ys)
  case (Cons c cs)
  have "vec_at (ys @ (c # cs) @ zs) (int (length ys)) = Inr c" by (simp add: nth_append)
  moreover have "same_bytes (ys @ (c # cs) @ zs) (int (length ys) + 1) cs = Inr True" using Cons.IH[of "ys @ [c]"] by (simp add: add.commute)
  ultimately show ?case by (simp del: vec_at_Inr)
qed simp

lemma mod_pow_4:
  assumes "2 \<le> k" "(x :: int) mod 2 ^ k = 0"
  shows "x mod 4 = 0"
proof -
  have "(4 :: int) dvd 2 ^ k" using le_imp_power_dvd[OF assms(1), of "2 :: int"] by simp
  then have "4 dvd x" using mod_0_imp_dvd[OF assms(2)] by (rule dvd_trans)
  then show ?thesis by simp
qed

text \<open>The bytes in front of the objects: a size, the root, an identifier and padding.\<close>

definition header :: "int \<Rightarrow> bytes option \<Rightarrow> bool \<Rightarrow> bytes \<Rightarrow> bytes" where
  "header root_off ident size_prefix v =
     (let i = (case ident of None \<Rightarrow> [] | Some s \<Rightarrow> s); w = le_bytes 4 (int (length (i @ v)) + 4 - root_off) @ i in
      (if size_prefix then le_bytes 4 (int (length (w @ v))) else []) @ w)"

lemma Finish_rep:
  assumes b: "fbb_ok b u vts" "4 \<le> minalign b" and room: "int (length u) + 64 < 2 ^ 31 - 1" and r: "0 < root_off" "root_off \<le> int (length u)"
    and i: "\<And>s. ident = Some s \<Longrightarrow> length s = 4"
  obtains b' p where "Builder_Finish root_off ident size_prefix b = Inr b'" "finished b'" "\<not> nested b'"
    "vd_used (fbb_buf b') = header root_off ident size_prefix (replicate p 0 @ u) @ replicate p 0 @ u" "vd_ok (fbb_buf b')" "p < 16"
    "int (length (header root_off ident size_prefix (replicate p 0 @ u) @ replicate p 0 @ u)) mod 4 = 0"
    "int (length (header root_off ident size_prefix (replicate p 0 @ u) @ replicate p 0 @ u)) mod minalign b = 0"
proof -
  let ?b = "b\<lparr>fbb_buf := vd_clear_scratch (fbb_buf b)\<rparr>" and ?i = "case ident of None \<Rightarrow> [] | Some s \<Rightarrow> s"
  have v: "vd_ok (fbb_buf b)" "vd_used (fbb_buf b) = u" and nn: "NotNested b = Inr ()" using b(1) NotNested_ok by (auto simp: fbb_ok_def fbb_rep_def)
  have rep: "fbb_rep ?b u [] []" using b(1) vd_clear_scratch_ok[OF v(1)] v(2) by (auto simp: fbb_ok_def fbb_rep_def scratch_bytes_def)
  obtain k where k: "k \<le> 4" "minalign b = 2 ^ k" using b(1) by (auto simp: fbb_ok_def fbb_rep_def)
  have k2: "2 \<le> k"
  proof (rule ccontr)
    assume "\<not> 2 \<le> k"
    then have "k = 0 \<or> k = 1" by auto
    then show False using b(2) k(2) by auto
  qed
  define n where "n = (if size_prefix then 4 else 0) + 4 + (if ident \<noteq> None then 4 else (0 :: int))"
  have n: "0 \<le> n" "n < 2 ^ 32" "n = (if size_prefix then 4 else 0) + 4 + int (length ?i)" using i by (auto simp: n_def split: option.splits)
  have r0: "room u [] [] 0" using room by (simp add: room_def)
  define p where "p = (- (int (length u) + n)) mod 2 ^ k"
  have k8: "(2 :: int) ^ k \<le> 16" using power_increasing[OF k(1), of "2 :: int"] by simp
  have "0 \<le> p" "p < 2 ^ k" by (simp_all add: p_def)
  then have p: "0 \<le> p" "p < 16" using k8 by linarith+
  obtain b2 where b2: "PreAlign n (2 ^ k) ?b = Inr b2" "fbb_rep b2 (replicate (nat p) 0 @ u) [] []" "same_flags ?b b2"
    using PreAlign_rep[OF rep r0 k(1) n(1,2)] unfolding p_def by blast
  let ?v = "replicate (nat p) 0 @ u"
  have r2: "room ?v [] [] 0" using room p by (simp add: room_def)
  have "\<exists>b3. (case ident of None \<Rightarrow> Inr b2 | Some ident \<Rightarrow> bind_res (FLATBUFFERS_ASSERT (length ident = 4)) (\<lambda>_. PushBytes ident b2)) = Inr b3 \<and>
      fbb_rep b3 (?i @ ?v) [] [] \<and> same_flags b2 b3"
  proof (cases ident)
    case (Some s)
    obtain b3 where "PushBytes s b2 = Inr b3" "fbb_rep b3 (s @ ?v) [] []" "same_flags b2 b3" using PushBytes_rep[OF b2(2) r2] by blast
    then show ?thesis using Some i[OF Some] by (simp add: FLATBUFFERS_ASSERT_def)
  qed (use b2 in simp)
  then obtain b3 where b3: "(case ident of None \<Rightarrow> Inr b2 | Some ident \<Rightarrow> bind_res (FLATBUFFERS_ASSERT (length ident = 4)) (\<lambda>_. PushBytes ident b2)) = Inr b3"
      "fbb_rep b3 (?i @ ?v) [] []" "same_flags b2 b3" by blast
  have li: "int (length ?i) \<le> 4" using i by (auto split: option.splits)
  have lv: "int (length (?i @ ?v)) = int (length u) + p + int (length ?i)" using p by simp
  have r3: "room (?i @ ?v) [] [] 16" using room p li lv unfolding room_def by simp
  have r8: "room (?i @ ?v) [] [] 8" using r3 by (rule room_mono) simp
  have "((int (length u) + n) + p) mod 2 ^ k = 0" unfolding p_def by (rule padding_aligns)
  note alk = this
  then have al4: "((int (length u) + n) + p) mod 4 = 0" by (rule mod_pow_4[OF k2])
  have lw: "int (length (header root_off ident size_prefix ?v @ ?v)) = (int (length u) + n) + p"
    using n(3) p by (simp add: header_def Let_def)
  then have alw: "int (length (header root_off ident size_prefix ?v @ ?v)) mod 4 = 0" "int (length (header root_off ident size_prefix ?v @ ?v)) mod minalign b = 0"
    using al4 alk k(2) by (simp_all only:)
  have al: "int (length (?i @ ?v)) mod 4 = 0" unfolding lv using al4 n(3) by (auto split: if_splits) presburger+
  have ro: "root_off \<le> int (length (?i @ ?v))" using r(2) by simp
  obtain b4 where b4: "PushElement_offset root_off b3 = Inr (int (length (?i @ ?v)) + 4, b4)" "fbb_rep b4 (le_bytes 4 (int (length (?i @ ?v)) + 4 - root_off) @ ?i @ ?v) [] []"
      "same_flags b3 b4"
    using PushElement_offset_rep[OF b3(2) r8 al r(1) ro] by blast
  let ?w = "le_bytes 4 (int (length (?i @ ?v)) + 4 - root_off) @ ?i"
  have r4: "room (?w @ ?v) [] [] 8" using r3 by (simp add: room_def)
  have alv: "int (length (?w @ ?v)) mod 4 = 0" using al by (simp add: mod_add_left_eq)
  have gs: "GetSize b4 = int (length (?w @ ?v))" using rep_bounds(4)[OF b4(2), of 8] r4 by simp
  have "\<exists>x b5. (if size_prefix then PushElement uoffset_t (GetSize b4) b4 else Inr (0, b4)) = Inr (x, b5) \<and>
      fbb_rep b5 (header root_off ident size_prefix ?v @ ?v) [] [] \<and> same_flags b4 b5"
  proof (cases size_prefix)
    case True
    obtain b5 where "PushElement uoffset_t (GetSize b4) b4 = Inr (int (length (?w @ ?v)) + 4, b5)" "fbb_rep b5 (le_bytes 4 (GetSize b4) @ ?w @ ?v) [] []" "same_flags b4 b5"
      using PushLength_rep[of b4 "?w @ ?v" "[]" "[]" "GetSize b4"] b4(2) r4 alv by auto
    then show ?thesis using True gs p(1) by (simp add: header_def Let_def add.assoc)
  qed (use b4 in \<open>simp add: header_def Let_def\<close>)
  then obtain x b5 where b5: "(if size_prefix then PushElement uoffset_t (GetSize b4) b4 else Inr (0, b4)) = Inr (x, b5)"
      "fbb_rep b5 (header root_off ident size_prefix ?v @ ?v) [] []" "same_flags b4 b5" by blast
  have "Builder_Finish root_off ident size_prefix b = Inr (b5\<lparr>finished := True\<rparr>)"
    unfolding Builder_Finish_def nn bind_res_simps Let_def
    using b2(1) b3(1) b4(1) b5(1) k(2) by (simp add: n_def del: bind_res_eq_Inr)
  moreover have "\<not> nested b5" using b(1) b2(3) b3(3) b4(3) b5(3) by (simp add: same_flags_def fbb_ok_def)
  ultimately show ?thesis using that[of "b5\<lparr>finished := True\<rparr>" "nat p"] b5(2) p alw by (simp add: fbb_rep_def)
qed

lemma header_reads:
  fixes root_off :: int and ident :: "bytes option" and size_prefix :: bool and v :: bytes
  assumes r: "0 < root_off" "root_off \<le> int (length v)" and i: "\<And>s. ident = Some s \<Longrightarrow> length s = 4" and room: "int (length v) + 32 < 2 ^ 31"
  defines "w \<equiv> header root_off ident size_prefix v @ v" and "start \<equiv> (if size_prefix then 4 else (0 :: int))"
  shows "GetRoot w start = Inr (int (length w) - root_off)" "ident = Some s \<Longrightarrow> BufferHasIdentifier w start s False = Inr True"
    "size_prefix \<Longrightarrow> ReadScalar uoffset_t w 0 = Inr (int (length w) - 4)"
proof -
  let ?i = "case ident of None \<Rightarrow> [] | Some s \<Rightarrow> s"
  let ?r = "int (length (?i @ v)) + 4 - root_off" and ?n = "int (length (le_bytes 4 (int (length (?i @ v)) + 4 - root_off) @ ?i @ v))"
  define ys where "ys = (if size_prefix then le_bytes 4 ?n else [])"
  have w: "w = ys @ le_bytes 4 ?r @ ?i @ v" by (simp add: w_def header_def Let_def ys_def add.assoc)
  have ls: "int (length ys) = start" by (simp add: ys_def start_def)
  have li: "length ?i \<le> 4" using i by (auto split: option.splits)
  have "in_range uoffset_t ?r" using r room li by (simp add: in_range_def)
  then have "ReadScalar uoffset_t (le_bytes 4 ?r @ ?i @ v) 0 = Inr ?r" using ReadScalar_written[of uoffset_t ?r 0 "le_bytes 4 ?r @ ?i @ v" "?i @ v"] by simp
  then have "ReadScalar uoffset_t w start = Inr ?r" unfolding w using ReadScalar_append[of 0 uoffset_t ys "le_bytes 4 ?r @ ?i @ v"] ls by simp
  moreover have "start + ?r = int (length w) - root_off" using ls by (simp add: w)
  ultimately show "GetRoot w start = Inr (int (length w) - root_off)" by (simp add: GetRoot_def)
  show "BufferHasIdentifier w start s False = Inr True" if "ident = Some s"
  proof -
    have "take 4 s = s" using i[OF that] by simp
    moreover have "same_bytes ((ys @ le_bytes 4 ?r) @ s @ v) (int (length (ys @ le_bytes 4 ?r))) s = Inr True" by (rule identifier_reads)
    ultimately show ?thesis using that ls by (simp add: BufferHasIdentifier_def w)
  qed
  show "ReadScalar uoffset_t w 0 = Inr (int (length w) - 4)" if size_prefix
  proof -
    have "in_range uoffset_t ?n" using room li by (simp add: in_range_def)
    moreover have "int (length w) - 4 = ?n" using that by (simp add: w ys_def)
    ultimately show ?thesis using that ReadScalar_written[of uoffset_t ?n 0 w "le_bytes 4 ?r @ ?i @ v"] by (simp add: w ys_def)
  qed
qed

section \<open>Sessions\<close>

text \<open>
  An object that may be built when the objects at \<open>offs\<close> exist and the buffer has size \<open>n\<close>. For a table these are the caller's
  obligations that \<^verbatim>\<open>EndTable\<close> asserts: no field is set twice, and the table stays below 64 KB, for which 4000 fields of any types are few
  enough; the generated functions meet both.
\<close>

definition field_ok :: "int set \<Rightarrow> field_add \<Rightarrow> bool" where
  "field_ok offs f \<longleftrightarrow> key_ok (add_key f) \<and> (case f of Element ty key e d \<Rightarrow> in_range ty e | Refer key off \<Rightarrow> off \<in> insert 0 offs)"

fun object_ok :: "int set \<Rightarrow> int \<Rightarrow> fb_object \<Rightarrow> bool" where
  "object_ok offs n (Table fs) \<longleftrightarrow> list_all (field_ok offs) fs \<and> distinct (map add_key fs) \<and> length fs \<le> 4000 \<and> n + 200000 < 2 ^ 31 - 1"
| "object_ok offs n (Str bs) \<longleftrightarrow> n + int (length bs) + 32 < 2 ^ 31 - 1"
| "object_ok offs n (Vec ty xs) \<longleftrightarrow> list_all (in_range ty) xs \<and> n + int (length xs) * int (sizeof ty) + 64 < 2 ^ 31 - 1"
| "object_ok offs n (OffVec os) \<longleftrightarrow> list_all (\<lambda>off. off \<in> offs) os \<and> n + 4 * int (length os) + 64 < 2 ^ 31 - 1"

text \<open>The states of a builder, with the objects that were built and their offsets.\<close>

inductive session :: "builder \<Rightarrow> (int \<times> fb_object) list \<Rightarrow> bool" where
  session_new: "allocator_ok a \<Longrightarrow> 0 \<le> n \<Longrightarrow> session (FlatBufferBuilder_new a n (2 ^ k)) []"
| session_force: "session b objs \<Longrightarrow> session (ForceDefaults fd b) objs"
| session_dedup: "session b objs \<Longrightarrow> session (DedupVtables dd b) objs"
| session_clear: "session b objs \<Longrightarrow> session (Builder_Clear b) []"
| session_align: "session b objs \<Longrightarrow> 0 \<le> len * elemsize \<Longrightarrow> len * elemsize < 2 ^ 32 \<Longrightarrow> GetSize b + 64 < 2 ^ 31 - 1 \<Longrightarrow>
    ForceVectorAlignment len elemsize alignment b = Inr b' \<Longrightarrow> session b' objs"
| session_build: "session b objs \<Longrightarrow> object_ok (fst ` set objs) (GetSize b) obj \<Longrightarrow> build obj b = Inr (loc, b') \<Longrightarrow> session b' ((loc, obj) # objs)"

definition placed :: "int \<Rightarrow> bytes \<Rightarrow> int \<Rightarrow> fb_object \<Rightarrow> bool" where
  "placed m u loc obj \<longleftrightarrow> 0 < loc \<and> loc \<le> int (length u) \<and> reads_as u (int (length u) - loc) obj \<and> laid_out u loc obj \<and> aligned m u loc obj"

lemma placed_append: "placed m u loc obj \<Longrightarrow> m \<le> m' \<Longrightarrow> placed m' (xs @ u) loc obj"
  using reads_as_stable[of u "int (length u) - loc" obj xs] laid_out_stable[of u loc obj xs] aligned_stable[of m u loc obj m' xs]
  by (simp add: placed_def algebra_simps)

lemma placed_bounds: "placed m u loc obj \<Longrightarrow> 0 < loc \<and> loc \<le> int (length u)"
  by (simp add: placed_def)

definition session_inv :: "builder \<Rightarrow> (int \<times> fb_object) list \<Rightarrow> bool" where
  "session_inv b objs \<longleftrightarrow> (\<exists>u vts. fbb_ok b u vts \<and> int (length u) < 2 ^ 31 - 1 \<and> (objs \<noteq> [] \<longrightarrow> 4 \<le> minalign b) \<and>
     distinct (map fst objs) \<and> (\<forall>(loc, obj) \<in> set objs. placed (minalign b) u loc obj))"

lemma build_ok:
  assumes b: "fbb_ok b u vts" "int (length u) < 2 ^ 31 - 1" and o: "object_ok offs (GetSize b) obj" "\<forall>off \<in> offs. 0 < off \<and> off \<le> int (length u)"
  shows "built_as b u obj (build obj b)"
proof -
  have "vd_size (fbb_buf b) = int (length u)" using b vd_size_used[of "fbb_buf b"] by (auto simp: fbb_ok_def fbb_rep_def)
  then have gs: "GetSize b = int (length u)" by (simp add: GetSize_def)
  show ?thesis
  proof (cases obj)
    case (Table fs)
    then have fs: "list_all (field_ok offs) fs" "distinct (map add_key fs)" "length fs \<le> 4000" "int (length u) + 200000 < 2 ^ 31 - 1" using o(1) gs by simp_all
    have ok: "\<forall>f \<in> set fs. add_ok u f \<and> key_ok (add_key f)"
    proof
      fix f assume "f \<in> set fs"
      then have "field_ok offs f" using fs(1) by (simp add: list_all_iff)
      then show "add_ok u f \<and> key_ok (add_key f)" using o(2) by (cases f) (auto simp: field_ok_def)
    qed
    obtain loc b' xs vts' where r: "create_table fs b = Inr (loc, b')" "fbb_ok b' (xs @ u) vts'" "table_closed b b'" "0 < loc" "loc \<le> int (length (xs @ u))"
      "reads_as (xs @ u) (int (length (xs @ u)) - loc) (Table fs)" "length xs \<le> 125543" "4 \<le> minalign b'" "laid_out (xs @ u) loc (Table fs)"
      "aligned (minalign b') (xs @ u) loc (Table fs)" "minalign b \<le> minalign b'" "int (length u) < loc"
      using create_table_ok[OF b(1) fs(4) ok fs(2,3)] .
    moreover have "int (length (xs @ u)) < 2 ^ 31 - 1" "int (length xs) \<le> cost (Table fs)" "snug u loc (Table fs)" using r(7) fs(4) by simp_all
    ultimately show ?thesis unfolding built_as_def Table build.simps by blast
  next
    case (Str bs)
    then show ?thesis using CreateString_ok[OF b(1), of bs] o(1) gs by simp
  next
    case (Vec ty xs)
    then show ?thesis using CreateVector_ok[OF b(1), of xs ty] o(1) gs by (simp add: list_all_iff)
  next
    case (OffVec os)
    then show ?thesis using CreateVector_offsets_ok[OF b(1), of os] o gs by (auto simp: list_all_iff)
  qed
qed

lemma session_invE:
  assumes "session_inv b objs"
  obtains u vts where "fbb_ok b u vts" "int (length u) < 2 ^ 31 - 1" "objs \<noteq> [] \<longrightarrow> 4 \<le> minalign b"
    "distinct (map fst objs)" "\<forall>(loc, obj) \<in> set objs. placed (minalign b) u loc obj"
  using assms unfolding session_inv_def by blast

lemma inv_fields:
  assumes "session_inv b objs" "fbb_buf b' = fbb_buf b" "num_field_loc b' = num_field_loc b" "max_voffset b' = max_voffset b" "minalign b' = minalign b" "nested b' = nested b"
  shows "session_inv b' objs"
  using assms by (simp add: session_inv_def fbb_ok_def fbb_rep_def)

lemma inv_size: "session_inv b objs \<Longrightarrow> GetSize b < 2 ^ 31 - 1"
  using vd_size_used[of "fbb_buf b"] by (auto simp: session_inv_def fbb_ok_def fbb_rep_def GetSize_def)

lemma ok_size: "fbb_ok b u vts \<Longrightarrow> int (length u) < 2 ^ 31 - 1 \<Longrightarrow> GetSize b = int (length u)"
  using vd_size_used[of "fbb_buf b"] by (auto simp: fbb_ok_def fbb_rep_def GetSize_def)

lemma inv_build:
  assumes inv: "session_inv b objs" and o: "object_ok (fst ` set objs) (GetSize b) obj"
  obtains loc b' where "build obj b = Inr (loc, b')" "session_inv b' ((loc, obj) # objs)" "GetSize b' \<le> GetSize b + cost obj" "minalign b \<le> minalign b'"
    "\<forall>ty xs. obj = Vec ty xs \<longrightarrow> (GetSize b + int (length xs) * int (sizeof ty)) mod 16 = 0 \<longrightarrow> loc = GetSize b + int (length xs) * int (sizeof ty) + 4"
proof -
  obtain u vts where u: "fbb_ok b u vts" "int (length u) < 2 ^ 31 - 1" "objs \<noteq> [] \<longrightarrow> 4 \<le> minalign b" "distinct (map fst objs)"
      "\<forall>(loc, obj) \<in> set objs. placed (minalign b) u loc obj"
    using session_invE[OF inv] .
  have old: "\<forall>off \<in> fst ` set objs. 0 < off \<and> off \<le> int (length u)" using u(5) placed_bounds by fastforce
  then obtain loc b' xs vts' where r: "build obj b = Inr (loc, b')" "fbb_ok b' (xs @ u) vts'" "int (length (xs @ u)) < 2 ^ 31 - 1" "4 \<le> minalign b'"
      "placed (minalign b') (xs @ u) loc obj" "minalign b \<le> minalign b'" "int (length u) < loc" "int (length xs) \<le> cost obj" "snug u loc obj"
    using build_ok[OF u(1,2) o] unfolding built_as_def placed_def by blast
  have "\<forall>(loc, obj) \<in> set ((loc, obj) # objs). placed (minalign b') (xs @ u) loc obj" using u(5) r(5) placed_append[OF _ r(6)] by auto
  moreover have "distinct (map fst ((loc, obj) # objs))" using u(4) old r(7) by fastforce
  ultimately have "session_inv b' ((loc, obj) # objs)" unfolding session_inv_def
    by (intro exI[of _ "xs @ u"] exI[of _ vts'] conjI impI) (use r in simp_all)
  moreover have "\<forall>ty xs. obj = Vec ty xs \<longrightarrow> (GetSize b + int (length xs) * int (sizeof ty)) mod 16 = 0 \<longrightarrow> loc = GetSize b + int (length xs) * int (sizeof ty) + 4"
    using r(9) ok_size[OF u(1,2)] by auto
  moreover have "GetSize b' \<le> GetSize b + cost obj" using r(8) ok_size[OF u(1,2)] ok_size[OF r(2,3)] by simp
  ultimately show ?thesis using that r(1,6) by blast
qed

text \<open>A table with a field that is stored twice runs into the assertion of \<^verbatim>\<open>EndTable\<close>.\<close>

lemma inv_build_twice:
  assumes inv: "session_inv b objs" and fs: "list_all (field_ok (fst ` set objs)) fs" "length fs \<le> 4000" "GetSize b + 200000 < 2 ^ 31 - 1"
    and d: "\<not> distinct (map add_key (filter (\<lambda>f. \<not> skipped (force_defaults b) f) fs))"
  shows "build (Table fs) b = Inl (ProcessExit 134)"
proof -
  obtain u vts where u: "fbb_ok b u vts" "int (length u) < 2 ^ 31 - 1" "\<forall>(loc, obj) \<in> set objs. placed (minalign b) u loc obj"
    using session_invE[OF inv] .
  have old: "\<forall>off \<in> fst ` set objs. 0 < off \<and> off \<le> int (length u)" using u(3) placed_bounds by fastforce
  have "add_ok u f \<and> key_ok (add_key f)" if "f \<in> set fs" for f
  proof -
    have "field_ok (fst ` set objs) f" using fs(1) that by (simp add: list_all_iff)
    then show ?thesis using old by (cases f) (auto simp: field_ok_def)
  qed
  then show ?thesis using create_table_twice[OF u(1) _ _ fs(2) d] fs(3) ok_size[OF u(1,2)] by simp
qed

text \<open>Forcing an alignment adds padding.\<close>

lemma alignment_power:
  assumes "VerifyAlignmentRequirements a 1"
  obtains k where "k \<le> 4" "a = 2 ^ k"
proof -
  have "1 \<le> a" "a \<le> 16" "and a (a - 1) = 0" using assms by (simp_all add: VerifyAlignmentRequirements_def FLATBUFFERS_MAX_ALIGNMENT_def)
  then have "a \<in> {1 .. 16}" by simp
  moreover have "{1 .. 16 :: int} = {1, 2, 3, 4, 5, 6, 7, 8, 9, 10, 11, 12, 13, 14, 15, 16}" by (simp add: set_eq_iff) presburger
  ultimately have "a = 2 ^ 0 \<or> a = 2 ^ 1 \<or> a = 2 ^ 2 \<or> a = 2 ^ 3 \<or> a = 2 ^ 4" using \<open>and a (a - 1) = 0\<close> by auto
  then show ?thesis using that[of 0] that[of 1] that[of 2] that[of 3] that[of 4] by auto
qed

lemma inv_align:
  assumes inv: "session_inv b objs" and n: "0 \<le> len * elemsize" "len * elemsize < 2 ^ 32" and room: "GetSize b + 64 < 2 ^ 31 - 1"
    and a: "VerifyAlignmentRequirements a 1"
  obtains b' where "ForceVectorAlignment len elemsize a b = Inr b'" "session_inv b' objs" "GetSize b' \<le> GetSize b + 15" "a \<le> minalign b'"
    "(GetSize b' + len * elemsize) mod a = 0" "minalign b \<le> minalign b'"
proof -
  obtain u vts where u: "fbb_ok b u vts" "int (length u) < 2 ^ 31 - 1" "objs \<noteq> [] \<longrightarrow> 4 \<le> minalign b" "distinct (map fst objs)"
      "\<forall>(loc, obj) \<in> set objs. placed (minalign b) u loc obj"
    using session_invE[OF inv] .
  obtain k where k: "k \<le> 4" "a = 2 ^ k" using alignment_power[OF a] .
  have rep: "fbb_rep b u vts []" "4 * length vts \<le> length u" "\<not> nested b" "vts_ok u vts" using u(1) by (simp_all add: fbb_ok_def)
  have sz: "GetSize b = int (length u)" by (rule ok_size[OF u(1,2)])
  have r0: "room u vts [] 0" using room sz rep(2) by (simp add: room_def)
  define p where "p = (- (int (length u) + len * elemsize)) mod 2 ^ k"
  have k16: "(2 :: int) ^ k \<le> 16" using power_increasing[OF k(1), of "2 :: int"] by simp
  have "0 \<le> p" "p < 2 ^ k" by (simp_all add: p_def)
  then have p: "0 \<le> p" "p \<le> 15" using k16 by linarith+
  obtain b' where b': "PreAlign (len * elemsize) (2 ^ k) b = Inr b'" "fbb_rep b' (replicate (nat p) 0 @ u) vts []" "same_flags b b'" "minalign b \<le> minalign b'"
      "2 ^ k \<le> minalign b'"
    using PreAlign_rep[OF rep(1) r0 k(1) n] unfolding p_def by blast
  let ?u = "replicate (nat p) 0 @ u"
  have ok: "fbb_ok b' ?u vts" using b'(2,3) rep vts_ok_append[OF rep(4)] by (simp add: fbb_ok_def same_flags_def)
  have lu: "int (length ?u) = int (length u) + p" using p by simp
  then have small: "int (length ?u) < 2 ^ 31 - 1" using room sz p by linarith
  have "session_inv b' objs" unfolding session_inv_def
    by (intro exI[of _ ?u] exI[of _ vts] conjI impI) (use ok small u(3-5) b'(4) placed_append[OF _ b'(4)] in auto)
  moreover have "((int (length u) + len * elemsize) + p) mod 2 ^ k = 0" unfolding p_def by (rule padding_aligns)
  then have "(GetSize b' + len * elemsize) mod a = 0" unfolding ok_size[OF ok small] lu k(2) by (simp add: algebra_simps)
  moreover have "GetSize b' \<le> GetSize b + 15" unfolding ok_size[OF ok small] sz lu using p by simp
  ultimately show ?thesis using that[of b'] b'(1,4,5) k(2) a by (simp add: ForceVectorAlignment_def FLATBUFFERS_ASSERT_def)
qed

lemma clear_ok:
  assumes "fbb_ok b u vts"
  shows "fbb_ok (Builder_Clear b) [] []"
proof -
  have v: "vd_ok (fbb_buf b)" "vd_scr (fbb_buf b) = scratch_bytes vts [] @ []" "num_field_loc b = 0" using assms by (simp_all add: fbb_ok_def fbb_rep_def)
  have "vd_ok (vd_scratch_pop 0 (fbb_buf b))" using vd_scratch_pop_ok(1)[OF v(1,2)] by simp
  note c = vd_clear_ok[OF this]
  have "\<exists>k \<le> 4. (1 :: int) = 2 ^ k" by (rule exI[of _ 0]) simp
  then show ?thesis using c v(3)
    by (simp add: fbb_ok_def fbb_rep_def Builder_Clear_def ClearOffsets_def Let_def scratch_bytes_def top_field_def vts_ok_def)
qed

lemma session_invariant: "session b objs \<Longrightarrow> session_inv b objs"
proof (induction rule: session.induct)
  case (session_new a n k)
  have "\<exists>j \<le> 4. (1 :: int) = 2 ^ j" by (rule exI[of _ 0]) simp
  then have "fbb_ok (FlatBufferBuilder_new a n (2 ^ k)) [] []"
    using new_ok[OF session_new] by (simp add: fbb_ok_def fbb_rep_def FlatBufferBuilder_new_def scratch_bytes_def top_field_def vts_ok_def)
  then show ?case unfolding session_inv_def by (intro exI[of _ "[]"] exI[of _ "[]"]) simp
next
  case (session_force b objs fd)
  show ?case by (rule inv_fields[OF session_force.IH]) (simp_all add: ForceDefaults_def)
next
  case (session_dedup b objs dd)
  show ?case by (rule inv_fields[OF session_dedup.IH]) (simp_all add: DedupVtables_def)
next
  case (session_clear b objs)
  then obtain u vts where "fbb_ok b u vts" by (auto simp: session_inv_def)
  then show ?case unfolding session_inv_def using clear_ok by (intro exI[of _ "[]"] exI[of _ "[]"]) auto
next
  case (session_align b objs len elemsize alignment b')
  have "VerifyAlignmentRequirements alignment 1" using session_align.hyps(5) by (auto simp: ForceVectorAlignment_def FLATBUFFERS_ASSERT_def split: if_splits)
  then show ?case using inv_align[OF session_align.IH session_align.hyps(2-4)] session_align.hyps(5) by (metis sum.inject(2))
next
  case (session_build b objs obj loc b')
  then show ?case using inv_build[OF session_build.IH session_build.hyps(2)] by auto
qed

text \<open>Finishing a session: a header is put in front of the data, and the whole is a multiple of four bytes long.\<close>

lemma finish_session:
  assumes "session b objs" "r \<in> fst ` set objs" "GetSize b + 64 < 2 ^ 31 - 1" "case ident of None \<Rightarrow> True | Some s \<Rightarrow> length s = 4"
  obtains b1 pre u b2 where "Builder_Finish r ident size_prefix b = Inr b1" "Builder_Release b1 = Inr (pre @ u, b2)"
    "GetRoot (pre @ u) (if size_prefix then 4 else 0) = Inr (int (length (pre @ u)) - r)"
    "\<forall>s. ident = Some s \<longrightarrow> BufferHasIdentifier (pre @ u) (if size_prefix then 4 else 0) s False = Inr True"
    "size_prefix \<longrightarrow> ReadScalar uoffset_t (pre @ u) 0 = Inr (int (length (pre @ u)) - 4)"
    "\<forall>(loc, obj) \<in> set objs. placed (minalign b) u loc obj" "distinct (map fst objs)"
    "(if size_prefix then 8 else 4) \<le> length pre" "int (length (pre @ u)) mod 4 = 0" "int (length (pre @ u)) < 2 ^ 31 - 1" "int (length (pre @ u)) mod minalign b = 0"
proof -
  obtain u vts where u: "fbb_ok b u vts" "int (length u) < 2 ^ 31 - 1" "objs \<noteq> [] \<longrightarrow> 4 \<le> minalign b" "distinct (map fst objs)"
      "\<forall>(loc, obj) \<in> set objs. placed (minalign b) u loc obj"
    using session_invE[OF session_invariant[OF assms(1)]] .
  have m: "4 \<le> minalign b" using u(3) assms(2) by auto
  have "GetSize b = int (length u)" using u(1,2) vd_size_used[of "fbb_buf b"] by (auto simp: fbb_ok_def fbb_rep_def GetSize_def)
  then have room: "int (length u) + 64 < 2 ^ 31 - 1" using assms(3) by simp
  obtain obj where "(r, obj) \<in> set objs" using assms(2) by auto
  then have "placed (minalign b) u r obj" using u(5) by blast
  then have r: "0 < r" "r \<le> int (length u)" using placed_bounds by simp_all
  have i: "\<And>s. ident = Some s \<Longrightarrow> length s = 4" using assms(4) by simp
  obtain b1 p where f: "Builder_Finish r ident size_prefix b = Inr b1" "finished b1" "\<not> nested b1"
      "vd_used (fbb_buf b1) = header r ident size_prefix (replicate p 0 @ u) @ replicate p 0 @ u" "vd_ok (fbb_buf b1)" "p < 16"
      "int (length (header r ident size_prefix (replicate p 0 @ u) @ replicate p 0 @ u)) mod 4 = 0"
      "int (length (header r ident size_prefix (replicate p 0 @ u) @ replicate p 0 @ u)) mod minalign b = 0"
    using Finish_rep[OF u(1) m room r i] .
  let ?v = "replicate p 0 @ u"
  define pre where "pre = header r ident size_prefix ?v @ replicate p 0"
  have w: "pre @ u = header r ident size_prefix ?v @ ?v" by (simp add: pre_def)
  have rel: "Builder_Release b1 = Inr (pre @ u, b1\<lparr>fbb_buf := snd (vd_release (fbb_buf b1))\<rparr>)"
    using f(2,4) vd_release_ok(1)[OF f(5)] by (auto simp: Builder_Release_def FLATBUFFERS_ASSERT_def w split: prod.splits)
  have v: "r \<le> int (length ?v)" "int (length ?v) + 32 < 2 ^ 31" using r room f(6) by simp_all
  note h = header_reads[where ident = ident and size_prefix = size_prefix, OF r(1) v(1) i v(2), folded w]
  have lh: "length pre = (if size_prefix then 8 else 4) + (case ident of None \<Rightarrow> 0 | Some s \<Rightarrow> 4) + p"
    using i by (auto simp: pre_def header_def Let_def split: option.splits)
  show ?thesis
  proof (rule that[OF f(1) rel h(1)])
    show "(if size_prefix then 8 else 4) \<le> length pre" using lh by simp
    show "int (length (pre @ u)) mod 4 = 0" unfolding w by (rule f(7))
    show "int (length (pre @ u)) < 2 ^ 31 - 1" using lh room f(6) by (simp split: option.splits)
    show "\<forall>s. ident = Some s \<longrightarrow> BufferHasIdentifier (pre @ u) (if size_prefix then 4 else 0) s False = Inr True" using h(2) by blast
    show "size_prefix \<longrightarrow> ReadScalar uoffset_t (pre @ u) 0 = Inr (int (length (pre @ u)) - 4)" using h(3) by blast
    show "\<forall>(loc, obj) \<in> set objs. placed (minalign b) u loc obj" "distinct (map fst objs)" by (rule u)+
    show "int (length (pre @ u)) mod minalign b = 0" unfolding w by (rule f(8))
  qed
qed

section \<open>Claims\<close>

text \<open>
  C24: A builder never gets stuck: in every session, however the block grows and whether vtables are shared or not, an object that meets the
  caller's obligations is built. They are that its parts exist, its values fit their types, there is room below 2 GB, and for a table that its
  fields have the keys of a vtable, no two the same, and are at most 4000, so that the table is smaller than 64 KB. Then no assertion of the builder fails,
  nothing is written outside the block, and the session goes on with the object at the returned offset. A table that meets the other obligations
  but stores two fields under one key ends in the assertion of \<^verbatim>\<open>EndTable\<close>.\<close>

theorem builder_progress:
  assumes "session b objs"
  shows "(object_ok (fst ` set objs) (GetSize b) obj \<longrightarrow> (\<exists>loc b'. build obj b = Inr (loc, b') \<and> session b' ((loc, obj) # objs))) \<and>
    (list_all (field_ok (fst ` set objs)) fs \<and> length fs \<le> 4000 \<and> GetSize b + 200000 < 2 ^ 31 - 1 \<and>
     \<not> distinct (map add_key (filter (\<lambda>f. \<not> skipped (force_defaults b) f) fs)) \<longrightarrow> build (Table fs) b = Inl (ProcessExit 134))"
  using inv_build[OF session_invariant[OF assms], of obj] session_build[OF assms, of obj] inv_build_twice[OF session_invariant[OF assms], of fs] by metis

text \<open>A string, and a table that refers to it, starting from a block of 8 bytes.\<close>

definition zero_memory :: "nat \<Rightarrow> int \<Rightarrow> bytes option" where
  "zero_memory k n = Some (replicate (nat n) 0)"

definition demo_builder :: builder where
  "demo_builder = FlatBufferBuilder_new zero_memory 8 (2 ^ 3)"

lemma demo_new: "session demo_builder []"
  unfolding demo_builder_def by (rule session_new) (simp_all add: allocator_ok_def zero_memory_def)

definition demo_table :: fb_object where
  "demo_table = Table [Element I32 4 7 0, Refer 6 8]"

lemma demo_run:
  "case build (Str [104, 105]) demo_builder of Inl e \<Rightarrow> False | Inr (loc, b) \<Rightarrow> loc = 8 \<and> GetSize b = 8 \<and>
    (case build demo_table b of Inl e \<Rightarrow> False | Inr (loc', b') \<Rightarrow> loc' = 20 \<and> GetSize b' = 28)"
  by code_simp

theorem builder_progress_witness:
  "(\<exists>loc b'. build (Str [104, 105]) demo_builder = Inr (loc, b') \<and> session b' [(loc, Str [104, 105])]) \<and>
   build (Table [Element I32 4 7 0, Element I32 4 8 0]) demo_builder = Inl (ProcessExit 134)"
proof -
  have n: "GetSize demo_builder = 0" "force_defaults demo_builder = False"
    by (simp_all add: demo_builder_def FlatBufferBuilder_new_def GetSize_def vd_size_def vector_downward_new_def)
  let ?fs = "[Element I32 4 7 0, Element I32 4 8 0]"
  have "list_all (field_ok (fst ` set [])) ?fs" by (simp add: field_ok_def key_ok_def in_range_def)
  moreover have "\<not> distinct (map add_key (filter (\<lambda>f. \<not> skipped (force_defaults demo_builder) f) ?fs))" by (simp add: n IsTheSameAs_def)
  ultimately show ?thesis using builder_progress[OF demo_new, of "Str [104, 105]" ?fs] n by simp
qed

text \<open>
  C23: What was built is read. For every session with 64 bytes of room below 2 GB, every object of it taken as the root, and no identifier or one of four bytes, finishing the buffer succeeds, and in the
  bytes that are released \<^verbatim>\<open>GetRoot\<close> leads to the root, the identifier is found, a size prefix holds the size, and every object of the
  session is read at its offset as it was built: strings with their bytes and terminator, vectors with their elements, tables with
  their fields, where a scalar equal to its default may read as the default, and offsets lead to the objects they were made from.\<close>

theorem built_buffer_reads:
  assumes "session b objs" "r \<in> fst ` set objs" "GetSize b + 64 < 2 ^ 31 - 1" "case ident of None \<Rightarrow> True | Some s \<Rightarrow> length s = 4"
  shows "\<exists>b1 w b2. Builder_Finish r ident size_prefix b = Inr b1 \<and> Builder_Release b1 = Inr (w, b2) \<and>
    (let start = (if size_prefix then 4 else 0) in GetRoot w start = Inr (int (length w) - r) \<and>
      (case ident of None \<Rightarrow> True | Some s \<Rightarrow> BufferHasIdentifier w start s False = Inr True)) \<and>
    (size_prefix \<longrightarrow> ReadScalar uoffset_t w 0 = Inr (int (length w) - 4)) \<and>
    (\<forall>(loc, obj) \<in> set objs. reads_as w (int (length w) - loc) obj)"
proof -
  let ?start = "if size_prefix then 4 else (0 :: int)"
  obtain b1 pre u b2 where f: "Builder_Finish r ident size_prefix b = Inr b1" "Builder_Release b1 = Inr (pre @ u, b2)"
    and h: "GetRoot (pre @ u) ?start = Inr (int (length (pre @ u)) - r)" "\<forall>s. ident = Some s \<longrightarrow> BufferHasIdentifier (pre @ u) ?start s False = Inr True"
      "size_prefix \<longrightarrow> ReadScalar uoffset_t (pre @ u) 0 = Inr (int (length (pre @ u)) - 4)"
    and o: "\<forall>(loc, obj) \<in> set objs. placed (minalign b) u loc obj" "distinct (map fst objs)"
      "(if size_prefix then 8 else 4) \<le> length pre" "int (length (pre @ u)) mod 4 = 0" "int (length (pre @ u)) < 2 ^ 31 - 1" "int (length (pre @ u)) mod minalign b = 0"
    using finish_session[OF assms, of size_prefix] .
  have "\<forall>(loc, obj) \<in> set objs. reads_as (pre @ u) (int (length (pre @ u)) - loc) obj" using o(1) placed_append[of "minalign b" u _ _ "minalign b" pre] unfolding placed_def by blast
  then show ?thesis using f h by (intro exI[of _ b1] exI[of _ "pre @ u"] exI[of _ b2]) (auto simp: Let_def split: option.splits)
qed

lemma demo_session:
  obtains b1 b2 where "build (Str [104, 105]) demo_builder = Inr (8, b1)" "build demo_table b1 = Inr (20, b2)" "GetSize b2 = 28"
    "session b2 [(20, demo_table), (8, Str [104, 105])]"
proof -
  obtain b1 b2 where b: "build (Str [104, 105]) demo_builder = Inr (8, b1)" "GetSize b1 = 8" "build demo_table b1 = Inr (20, b2)" "GetSize b2 = 28"
  proof (cases "build (Str [104, 105]) demo_builder")
    case s: (Inr x)
    obtain loc b where x: "x = (loc, b)" by (cases x)
    show ?thesis
    proof (cases "build demo_table b")
      case (Inr y)
      obtain loc' b' where "y = (loc', b')" by (cases y)
      then show ?thesis using that[of b b'] demo_run s x Inr by simp
    qed (use demo_run s x in simp)
  qed (use demo_run in simp)
  have g: "GetSize demo_builder = 0" by (simp add: demo_builder_def FlatBufferBuilder_new_def GetSize_def vd_size_def vector_downward_new_def)
  have "session b1 [(8, Str [104, 105])]" using session_build[OF demo_new _ b(1)] g by simp
  from session_build[OF this _ b(3)] have "session b2 [(20, demo_table), (8, Str [104, 105])]"
    using b(2) by (simp add: demo_table_def field_ok_def key_ok_def in_range_def)
  then show ?thesis using that b by blast
qed

theorem built_buffer_reads_witness:
  "\<exists>b b1 w b2. Builder_Finish 20 (Some [84, 70, 76, 51]) False b = Inr b1 \<and> Builder_Release b1 = Inr (w, b2) \<and>
    GetRoot w 0 = Inr (int (length w) - 20) \<and> reads_as w (int (length w) - 20) demo_table \<and> reads_as w (int (length w) - 8) (Str [104, 105])"
proof -
  obtain b where b: "session b [(20, demo_table), (8, Str [104, 105])]" "GetSize b = 28" using demo_session .
  show ?thesis using built_buffer_reads[OF b(1), of 20 "Some [84, 70, 76, 51]" False] b(2) by (auto simp: Let_def)
qed

text \<open>Negative zero compares equal to a default of zero, so it is not stored: the sign is lost.\<close>

lemma negative_zero_dropped: "AddElement F32 4 (2 ^ 31) 0 demo_builder = Inr demo_builder"
  by (simp add: AddElement_def IsTheSameAs_def fl_of_bits_def demo_builder_def FlatBufferBuilder_new_def)

end
