(* ===== verification/Verify_Complete.thy ===== *)
theory Verify_Complete
  imports Builder_Sessions
begin

text \<open>
  The other direction of the verifier: it accepts what a builder has built. Objects are typed by the same field lists that drive the verify
  methods; the tables a verifier will count and the depth it will reach are computed from the objects. A finished buffer whose root has the
  type of the schema passes every check, as long as the limits allow that many tables and that depth.
\<close>

section \<open>Typed objects\<close>

type_synonym objects = "int \<rightharpoonup> fb_object"

text \<open>The field a table was given under a key, if any.\<close>

definition added :: "field_add list \<Rightarrow> int \<Rightarrow> field_add option" where
  "added fs key = find (\<lambda>f. add_key f = key) fs"

definition adds_scalar :: "scalar_type \<Rightarrow> field_add list \<Rightarrow> int \<Rightarrow> bool" where
  "adds_scalar ty fs key = (case added fs key of None \<Rightarrow> True | Some (Element ty' k e d) \<Rightarrow> ty' = ty | Some (Refer k off) \<Rightarrow> False)"

text \<open>The type of a union: an unsigned byte whose default is zero.\<close>

definition adds_type :: "field_add list \<Rightarrow> int \<Rightarrow> bool" where
  "adds_type fs key = (case added fs key of None \<Rightarrow> True | Some (Element ty k e d) \<Rightarrow> ty = U8 \<and> d = 0 | Some (Refer k off) \<Rightarrow> False)"

definition union_type :: "field_add list \<Rightarrow> int \<Rightarrow> int" where
  "union_type fs key = (case added fs key of Some (Element ty k e d) \<Rightarrow> e | _ \<Rightarrow> 0)"

definition refers :: "(int \<Rightarrow> bool) \<Rightarrow> field_add list \<Rightarrow> int \<Rightarrow> bool" where
  "refers P fs key = (case added fs key of None \<Rightarrow> True | Some (Element ty k e d) \<Rightarrow> False | Some (Refer k off) \<Rightarrow> off = 0 \<or> P off)"

definition refer_count :: "(int \<Rightarrow> nat) \<Rightarrow> field_add list \<Rightarrow> int \<Rightarrow> nat" where
  "refer_count n fs key = (case added fs key of Some (Refer k off) \<Rightarrow> if off = 0 then 0 else n off | _ \<Rightarrow> 0)"

definition table_fits :: "(objects \<Rightarrow> field_add list \<Rightarrow> bool) list \<Rightarrow> objects \<Rightarrow> int \<Rightarrow> bool" where
  "table_fits ps h off = (case h off of Some (Table fs) \<Rightarrow> list_all (\<lambda>p. p h fs) ps | _ \<Rightarrow> False)"

definition table_count :: "(objects \<Rightarrow> field_add list \<Rightarrow> nat) list \<Rightarrow> objects \<Rightarrow> int \<Rightarrow> nat" where
  "table_count ns h off = (case h off of Some (Table fs) \<Rightarrow> Suc (sum_list (map (\<lambda>n. n h fs) ns)) | _ \<Rightarrow> 0)"

primrec fits :: "fb_field \<Rightarrow> objects \<Rightarrow> field_add list \<Rightarrow> bool" where
  "fits (Scalar ty vt) = (\<lambda>h fs. adds_scalar ty fs vt)"
| "fits (Scalars ty vt) = (\<lambda>h fs. refers (\<lambda>off. case h off of Some (Vec ty' xs) \<Rightarrow> ty' = ty | _ \<Rightarrow> False) fs vt)"
| "fits (Text vt) = (\<lambda>h fs. refers (\<lambda>off. case h off of Some (Str bs) \<Rightarrow> True | _ \<Rightarrow> False) fs vt)"
| "fits (Subtable vt gs) = (\<lambda>h fs. refers (table_fits (map fits gs) h) fs vt)"
| "fits (Subtables vt gs) = (\<lambda>h fs. refers (\<lambda>off. case h off of Some (OffVec os) \<Rightarrow> list_all (table_fits (map fits gs) h) os | _ \<Rightarrow> False) fs vt)"
| "fits (Union vt_type vt alts) = (\<lambda>h fs. adds_type fs vt_type \<and> refers (\<lambda>off. case map_of (map (map_prod id (map fits)) alts) (union_type fs vt_type) of
     None \<Rightarrow> h off \<noteq> None | Some ps \<Rightarrow> table_fits ps h off) fs vt)"

text \<open>The tables below a field, counted once for every path that leads to them, as the verifier does.\<close>

primrec weight :: "fb_field \<Rightarrow> objects \<Rightarrow> field_add list \<Rightarrow> nat" where
  "weight (Scalar ty vt) = (\<lambda>h fs. 0)"
| "weight (Scalars ty vt) = (\<lambda>h fs. 0)"
| "weight (Text vt) = (\<lambda>h fs. 0)"
| "weight (Subtable vt gs) = (\<lambda>h fs. refer_count (table_count (map weight gs) h) fs vt)"
| "weight (Subtables vt gs) = (\<lambda>h fs. refer_count (\<lambda>off. case h off of Some (OffVec os) \<Rightarrow> sum_list (map (table_count (map weight gs) h) os) | _ \<Rightarrow> 0) fs vt)"
| "weight (Union vt_type vt alts) = (\<lambda>h fs. refer_count (\<lambda>off. case map_of (map (map_prod id (map weight)) alts) (union_type fs vt_type) of
     None \<Rightarrow> 0 | Some ns \<Rightarrow> table_count ns h off) fs vt)"

definition max_list :: "nat list \<Rightarrow> nat" where
  "max_list ns = foldr max ns 0"

text \<open>The depth of a schema: nested tables below a field.\<close>

primrec field_depth :: "fb_field \<Rightarrow> nat" where
  "field_depth (Scalar ty vt) = 0"
| "field_depth (Scalars ty vt) = 0"
| "field_depth (Text vt) = 0"
| "field_depth (Subtable vt gs) = Suc (max_list (map field_depth gs))"
| "field_depth (Subtables vt gs) = Suc (max_list (map field_depth gs))"
| "field_depth (Union vt_type vt alts) = Suc (max_list (map (\<lambda>a. max_list (snd a)) (map (map_prod id (map field_depth)) alts)))"

definition fits_table :: "fb_field list \<Rightarrow> objects \<Rightarrow> int \<Rightarrow> bool" where
  "fits_table gs = table_fits (map fits gs)"

definition weight_table :: "fb_field list \<Rightarrow> objects \<Rightarrow> int \<Rightarrow> nat" where
  "weight_table gs = table_count (map weight gs)"

definition table_depth :: "fb_field list \<Rightarrow> nat" where
  "table_depth gs = Suc (max_list (map field_depth gs))"

section \<open>Checks that accept\<close>

text \<open>A check that returns true on the bytes \<open>w\<close>, counting \<open>n\<close> tables and going down \<open>d\<close> levels, whether alignment is checked or not.\<close>

definition accepts :: "(verifier \<Rightarrow> (bool \<times> verifier) res) \<Rightarrow> bytes \<Rightarrow> nat \<Rightarrow> nat \<Rightarrow> bool" where
  "accepts c w n d \<longleftrightarrow> (\<forall>v. vf_buf v = w \<and> 0 \<le> vf_depth v \<and> vf_depth v + int d \<le> vf_max_depth v \<and> vf_max_depth v < 2 ^ 32 \<and>
     0 \<le> vf_num_tables v \<and> vf_num_tables v + int n \<le> vf_max_tables v \<and> vf_max_tables v < 2 ^ 32 \<longrightarrow>
     c v = Inr (True, v\<lparr>vf_num_tables := vf_num_tables v + int n\<rparr>))"

lemma accepts_same: "(\<And>v. vf_buf v = w \<Longrightarrow> c v = Inr (True, v)) \<Longrightarrow> accepts c w 0 d"
  by (simp add: accepts_def)

lemma accepts_pure: "(\<And>v. vf_buf v = w \<Longrightarrow> f data v = Inr True) \<Longrightarrow> accepts (pure_check f data) w 0 d"
  by (simp add: accepts_def pure_check_def)

lemma accepts_mono: "accepts c w n d \<Longrightarrow> d \<le> e \<Longrightarrow> accepts c w n e"
  by (simp add: accepts_def)

lemma accepts_and:
  assumes "accepts (f data) w n d" "accepts (g data) w m d"
  shows "accepts (and_then f g data) w (n + m) d"
  unfolding accepts_def
proof (intro allI impI)
  fix v :: verifier
  assume v: "vf_buf v = w \<and> 0 \<le> vf_depth v \<and> vf_depth v + int d \<le> vf_max_depth v \<and> vf_max_depth v < 2 ^ 32 \<and>
     0 \<le> vf_num_tables v \<and> vf_num_tables v + int (n + m) \<le> vf_max_tables v \<and> vf_max_tables v < 2 ^ 32"
  let ?v = "v\<lparr>vf_num_tables := vf_num_tables v + int n\<rparr>"
  have "f data v = Inr (True, ?v)" using assms(1) v by (simp add: accepts_def)
  moreover have "g data ?v = Inr (True, ?v\<lparr>vf_num_tables := vf_num_tables ?v + int m\<rparr>)" using assms(2) v by (simp add: accepts_def)
  ultimately show "and_then f g data v = Inr (True, v\<lparr>vf_num_tables := vf_num_tables v + int (n + m)\<rparr>)"
    by (simp add: and_then_def add.assoc)
qed

lemma accepts_all:
  assumes "list_all2 (\<lambda>c n. accepts (c data) w n d) cs ns"
  shows "accepts (all_checks cs data) w (sum_list ns) d"
  using assms
proof (induction rule: list_all2_induct)
  case Nil
  show ?case by (simp add: accepts_def)
next
  case (Cons c cs n ns)
  have "accepts (and_then c (all_checks cs) data) w (n + sum_list ns) d" using Cons.hyps(1) Cons.IH by (rule accepts_and)
  then show ?case by (simp add: accepts_def)
qed

lemma accepts_body:
  assumes start: "\<And>v v1. vf_buf v = w \<Longrightarrow> VerifyComplexity v = (True, v1) \<Longrightarrow> VerifyTableStart data v = Inr (True, v1)"
    and fields: "accepts (all_checks cs data) w n d"
  shows "accepts (table_body cs data) w (Suc n) (Suc d)"
  unfolding accepts_def
proof (intro allI impI)
  fix v :: verifier
  assume v: "vf_buf v = w \<and> 0 \<le> vf_depth v \<and> vf_depth v + int (Suc d) \<le> vf_max_depth v \<and> vf_max_depth v < 2 ^ 32 \<and>
     0 \<le> vf_num_tables v \<and> vf_num_tables v + int (Suc n) \<le> vf_max_tables v \<and> vf_max_tables v < 2 ^ 32"
  let ?v = "v\<lparr>vf_depth := vf_depth v + 1, vf_num_tables := vf_num_tables v + 1\<rparr>"
  have "VerifyComplexity v = (True, ?v)" using v by (simp add: VerifyComplexity_def Let_def)
  then have "VerifyTableStart data v = Inr (True, ?v)" using start v by blast
  moreover have "all_checks cs data ?v = Inr (True, ?v\<lparr>vf_num_tables := vf_num_tables ?v + int n\<rparr>)" using fields v by (simp add: accepts_def)
  ultimately show "table_body cs data v = Inr (True, v\<lparr>vf_num_tables := vf_num_tables v + int (Suc n)\<rparr>)"
    using v by (simp add: table_body_def and_then_def EndTable_def add.assoc)
qed


section \<open>A finished buffer\<close>

text \<open>The bytes \<open>pre @ u\<close>: a header in front of the objects.\<close>

definition finished_as :: "int \<Rightarrow> bytes \<Rightarrow> bytes \<Rightarrow> objects \<Rightarrow> bool" where
  "finished_as m pre u h \<longleftrightarrow> 4 \<le> length pre \<and> int (length (pre @ u)) mod 4 = 0 \<and> int (length (pre @ u)) < 2 ^ 31 - 1 \<and>
     int (length (pre @ u)) mod m = 0 \<and> (\<forall>off obj. h off = Some obj \<longrightarrow> placed m u off obj)"

text \<open>What is known of an object in it: \<open>p\<close> is its place.\<close>

lemma finished_object:
  assumes "finished_as m pre u h" "h loc = Some obj"
  defines "w \<equiv> pre @ u" and "p \<equiv> int (length (pre @ u)) - loc"
  shows "placed m w loc obj" "4 \<le> p" "p < int (length w)" "int (length w) < 2 ^ 31 - 1" "p mod 4 = 0" "reads_as w p obj" "laid_out w loc obj" "laid_out u loc obj"
proof -
  have f: "4 \<le> length pre" "int (length w) mod 4 = 0" "int (length w) < 2 ^ 31 - 1" "placed m u loc obj" using assms(1,2) by (auto simp: finished_as_def w_def)
  note pl = placed_append[OF f(4) order_refl, of pre, folded w_def]
  show "placed m w loc obj" "int (length w) < 2 ^ 31 - 1" by (rule pl f(3))+
  show "4 \<le> p" "p < int (length w)" using f(1) placed_bounds[OF f(4)] by (simp_all add: p_def w_def)
  show "reads_as w p obj" "laid_out w loc obj" "laid_out u loc obj" using pl f(4) by (simp_all add: placed_def p_def w_def)
  have "loc mod 4 = 0" using f(4) unfolding placed_def by (cases obj) auto
  then show "p mod 4 = 0" using f(2) unfolding p_def w_def by presburger
qed

lemma and_3: "and (x :: int) 3 = x mod 4"
  using take_bit_eq_mask[of 2 x] by (simp add: take_bit_eq_mod mask_eq_exp_minus_1)

lemma scalar_verifies:
  assumes "x mod 4 = 0" "4 \<le> x" "x + 4 \<le> vf_size v"
  shows "Verify_scalar v I32 x" "Verify_scalar v U32 x"
  using assms by (simp_all add: Verify_scalar_def VerifyAlignment_def Verify_range_def and_3)

lemma start_accepts:
  assumes f: "finished_as m pre u h" "h loc = Some (Table fs)" and v: "vf_buf v = pre @ u" "VerifyComplexity v = (True, v1)"
  shows "VerifyTableStart (int (length (pre @ u)) - loc) v = Inr (True, v1)"
proof -
  let ?w = "pre @ u" and ?p = "int (length (pre @ u)) - loc"
  note o = finished_object[OF f]
  obtain vt n where vt: "rd soffset_t u loc = Inr (vt - loc)" "rd voffset_t u vt = Inr n" "even vt" "even n" "n \<le> vt" "vt \<le> int (length u)"
    using o(8) by auto
  have loc: "loc \<le> int (length u)" "0 < loc" using o(1) f by (auto simp: finished_as_def placed_def)
  have s: "ReadScalar soffset_t ?w ?p = Inr (vt - loc)" using rd_append[OF loc(1), of soffset_t pre] vt(1) by (simp add: rd_def)
  have n: "ReadScalar voffset_t ?w (int (length ?w) - vt) = Inr n" using rd_append[OF vt(6), of voffset_t pre] vt(2) by (simp add: rd_def)
  note nb = ReadScalar_bounds(2,3)[OF n] and sb = ReadScalar_bounds(2,4)[OF s]
  have q: "4 \<le> int (length ?w) - vt" "0 \<le> n" "2 \<le> vt" using f(1) vt(6) nb by (auto simp: finished_as_def)
  have l4: "int (length ?w) mod 4 = 0" using f(1) by (simp add: finished_as_def)
  then have ev: "even (int (length ?w) - vt)" using vt(3) by presburger
  have p: "to_size_t ?p = ?p" using o(2-4) by (intro to_size_t_small) auto
  have "(?p - (vt - loc) mod 2 ^ 64) mod 2 ^ 64 = (?p - (vt - loc)) mod 2 ^ 64" by (rule mod_diff_right_eq)
  also have "\<dots> = int (length ?w) - vt" using q o(4) by simp
  finally have vo: "to_size_t (?p - to_size_t (vt - loc)) = int (length ?w) - vt" by (simp only: to_size_t_def)
  have b1: "vf_buf v1 = ?w" using v by (auto simp: VerifyComplexity_def Let_def)
  have vs: "Verify_scalar v soffset_t ?p" using scalar_verifies(1)[OF o(5,2)] sb(1) v(1) by simp
  have v1s: "Verify_scalar v1 voffset_t (int (length ?w) - vt)"
    using ev q nb(1) b1 by (simp add: Verify_scalar_def VerifyAlignment_def Verify_range_def and_one_eq even_iff_mod_2_eq_zero)
  have "VerifyAlignment v1 voffset_t n" "Verify_range v1 (int (length ?w) - vt) n"
    using vt(4,5) q b1 by (simp_all add: VerifyAlignment_def Verify_range_def and_one_eq even_iff_mod_2_eq_zero)
  then show ?thesis unfolding VerifyTableStart_def Let_def p using vs s v v1s n b1 vo by (simp del: bind_res_eq_Inr)
qed


section \<open>The fields of a table\<close>

lemma addedD: "added fs key = Some f \<Longrightarrow> f \<in> set fs \<and> add_key f = key"
  by (auto simp: added_def find_Some_iff)

lemma added_None: "added fs key = None \<Longrightarrow> key \<notin> add_key ` set fs"
  by (auto simp: added_def find_None_iff)

lemma absent_offset:
  assumes "reads_as w p (Table fs)" "added fs key = None" "even key" "4 \<le> key"
  shows "GetOptionalFieldOffset w p key = Inr 0"
proof -
  have "Table_CheckField w p key = Inr False" using assms(1,3,4) added_None[OF assms(2)] by simp
  then show ?thesis by (cases "GetOptionalFieldOffset w p key") (simp_all add: Table_CheckField_def)
qed

lemma field_offset_bounds:
  assumes "GetOptionalFieldOffset w p key = Inr fo"
  shows "0 \<le> fo \<and> fo < 2 ^ 16"
proof -
  have "fo = 0 \<or> (\<exists>x. ReadScalar voffset_t w x = Inr fo)"
    using assms by (auto simp: GetOptionalFieldOffset_def GetVTable_def split: if_splits)
  then show ?thesis using ReadScalar_bounds(3)[of voffset_t w _ fo] by auto
qed

lemma element_verifies:
  assumes "finished_as m pre u h" "h loc = Some (Table fs)" "adds_scalar ty fs key" "even key" "4 \<le> key" "vf_buf v = pre @ u"
  shows "Table_VerifyField ty (int (length (pre @ u)) - loc) key v = Inr True"
proof -
  let ?w = "pre @ u" and ?p = "int (length (pre @ u)) - loc"
  note o = finished_object[OF assms(1,2)]
  show ?thesis
  proof (cases "added fs key")
    case None
    then show ?thesis using absent_offset[OF o(6) None assms(4,5)] assms(6) by (simp add: Table_VerifyField_def)
  next
    case (Some f)
    then obtain e d where f: "Element ty key e d \<in> set fs" using assms(3) addedD[OF Some] by (cases f) (auto simp: adds_scalar_def)
    then have "field_reads ?w ?p (Element ty key e d)" using o(6) by simp
    then obtain x where x: "Table_GetField ty ?w ?p key d = Inr x" by (auto simp: field_reads_def)
    then obtain fo where fo: "GetOptionalFieldOffset ?w ?p key = Inr fo" "fo \<noteq> 0 \<longrightarrow> ReadScalar ty ?w (?p + fo) = Inr x"
      by (auto simp: Table_GetField_def split: if_splits)
    have fb: "0 \<le> fo" "fo < 2 ^ 16" using field_offset_bounds[OF fo(1)] by simp_all
    have "Verify_base v ty ?p fo" if "fo \<noteq> 0"
    proof -
      have "?p + fo + int (sizeof ty) \<le> int (length ?w)" using ReadScalar_bounds(2) fo(2) that by blast
      moreover have "to_size_t (to_size_t ?p + fo) = ?p + fo" using o(2-4) fb by (intro base_small) simp_all
      ultimately show ?thesis using o(2) fb assms(6) unfolding Verify_base_def Verify_range_def by simp
    qed
    then show ?thesis using fo(1) assms(6) by (auto simp: Table_VerifyField_def)
  qed
qed

lemma union_type_reads:
  assumes "reads_as w p (Table fs)" "adds_type fs key" "even key" "4 \<le> key"
  shows "Table_GetField U8 w p key 0 = Inr (union_type fs key)"
proof (cases "added fs key")
  case None
  then show ?thesis using absent_offset[OF assms(1) None assms(3,4)] by (simp add: Table_GetField_def union_type_def)
next
  case (Some f)
  then obtain e where f: "Element U8 key e 0 \<in> set fs" "f = Element U8 key e 0" using assms(2) addedD[OF Some] by (cases f) (auto simp: adds_type_def)
  then have "field_reads w p (Element U8 key e 0)" using assms(1) by simp
  then show ?thesis using Some f(2) by (auto simp: field_reads_def union_type_def IsTheSameAs_def)
qed

text \<open>An offset field is absent, or leads to its object by an offset the verifier lets pass.\<close>

lemma offset_verifies:
  assumes f: "finished_as m pre u h" "h loc = Some (Table fs)" and r: "Refer key off \<in> set fs" "off \<noteq> 0" "h off \<noteq> None" and v: "vf_buf v = pre @ u"
  shows "Table_VerifyOffset (int (length (pre @ u)) - loc) key v = Inr True"
proof -
  let ?w = "pre @ u" and ?p = "int (length (pre @ u)) - loc"
  note o = finished_object[OF f]
  obtain obj where "h off = Some obj" using r(3) by auto
  note t = finished_object[OF f(1) this]
  have "offset_placed ?w loc (Refer key off)" using o(7) r(1) by (simp add: list_all_iff)
  then obtain fo where fo: "GetOptionalFieldOffset ?w ?p key = Inr fo" "fo mod 4 = 0" "off < loc - fo" using r(2) by (auto simp: offset_placed_def)
  have "field_reads ?w ?p (Refer key off)" using o(6) r(1) by simp
  then have ptr: "Table_GetPointer ?w ?p key = Inr (Some (int (length ?w) - off))" using r(2) by (simp add: field_reads_def)
  then have nz: "fo \<noteq> 0" using fo(1) by (auto simp: Table_GetPointer_def)
  then obtain o1 where o1: "ReadScalar uoffset_t ?w (?p + fo) = Inr o1" "?p + fo + o1 = int (length ?w) - off"
    using ptr fo(1) by (auto simp: Table_GetPointer_def Let_def)
  have fb: "0 \<le> fo" "fo < 2 ^ 16" using field_offset_bounds[OF fo(1)] by simp_all
  have b: "to_size_t (to_size_t ?p + fo) = ?p + fo" using o(2-4) fb by (intro base_small) simp_all
  have "(?p + fo) mod 4 = 0" using o(5) fo(2) by presburger
  then have vs: "Verify_scalar v uoffset_t (?p + fo)" using scalar_verifies(2) o(2) fb ReadScalar_bounds(2)[OF o1(1)] v by simp
  have pos: "0 < o1" "o1 < 2 ^ 31" "to_size_t (?p + fo + o1) = int (length ?w) - off" "1 \<le> off"
    using o1(2) fo(3) o(2,4) t(2,3) fb by (simp_all add: to_size_t_small)
  have "to_int o1 = o1" using pos by (intro to_int_small) simp_all
  moreover have "Verify_range v (int (length ?w) - off) 1" using pos(4) o(2,3) v by (simp add: Verify_range_def)
  ultimately have "VerifyOffset v (?p + fo) = Inr o1" using vs o1(1) pos v unfolding VerifyOffset_def by simp
  then show ?thesis using fo(1) nz b pos(1) v unfolding Table_VerifyOffset_def by simp
qed

lemma refers_cases:
  assumes f: "finished_as m pre u h" "h loc = Some (Table fs)" "even key" "4 \<le> key"
    and r: "refers P fs key" "\<And>off. P off \<Longrightarrow> h off \<noteq> None"
  obtains (absent) "Table_GetPointer (pre @ u) (int (length (pre @ u)) - loc) key = Inr None" "\<And>n. refer_count n fs key = 0"
      "\<And>v. vf_buf v = pre @ u \<Longrightarrow> Table_VerifyOffset (int (length (pre @ u)) - loc) key v = Inr True"
    | (present) off where "P off" "Table_GetPointer (pre @ u) (int (length (pre @ u)) - loc) key = Inr (Some (int (length (pre @ u)) - off))"
      "\<And>n. refer_count n fs key = n off"
      "\<And>v. vf_buf v = pre @ u \<Longrightarrow> Table_VerifyOffset (int (length (pre @ u)) - loc) key v = Inr True"
proof (cases "added fs key")
  case None
  note a = absent_offset[OF finished_object(6)[OF f(1,2)] None f(3,4)]
  show ?thesis by (rule absent) (use a None in \<open>simp_all add: Table_GetPointer_def refer_count_def Table_VerifyOffset_def\<close>)
next
  case (Some g)
  then obtain off where g: "Refer key off \<in> set fs" "g = Refer key off" "off = 0 \<or> P off"
    using r(1) addedD[OF Some] by (cases g) (auto simp: refers_def)
  then have rd: "Table_GetPointer (pre @ u) (int (length (pre @ u)) - loc) key = Inr (if off = 0 then None else Some (int (length (pre @ u)) - off))"
    using finished_object(6)[OF f(1,2)] by (force simp: field_reads_def)
  show ?thesis
  proof (cases "off = 0")
    case True
    then obtain fo where fo: "GetOptionalFieldOffset (pre @ u) (int (length (pre @ u)) - loc) key = Inr fo" "fo = 0"
      using rd by (auto simp: Table_GetPointer_def Let_def split: if_splits)
    show ?thesis by (rule absent) (use True rd fo Some g(2) in \<open>simp_all add: refer_count_def Table_VerifyOffset_def\<close>)
  next
    case False
    then have "P off" using g(3) by simp
    then show ?thesis
      by (rule present) (use False rd Some g(2) offset_verifies[OF f(1,2) g(1) False r(2)[OF \<open>P off\<close>]] in \<open>simp_all add: refer_count_def\<close>)
  qed
qed


section \<open>Vectors and strings\<close>

lemma elements_fit:
  assumes "0 < es" "es \<le> 8" "es * n + 8 < 2 ^ 31 - 1"
  shows "n < FLATBUFFERS_MAX_BUFFER_SIZE div es"
proof -
  have "n + 1 = ((n + 1) * es) div es" using assms(1) by simp
  also have "\<dots> \<le> FLATBUFFERS_MAX_BUFFER_SIZE div es"
    by (rule zdiv_mono1[OF _ assms(1)]) (use assms in \<open>simp add: FLATBUFFERS_MAX_BUFFER_SIZE_def algebra_simps\<close>)
  finally show ?thesis by simp
qed

lemma vector_or_string:
  assumes w: "4 \<le> q" "q mod 4 = 0" "int (length w) < 2 ^ 31 - 1" and n: "Vector_size w q = Inr n" "q + 4 + es * n \<le> int (length w)"
    and es: "0 < es" "es \<le> 8" and v: "vf_buf v = w"
  shows "VerifyVectorOrString v q es = Inr (True, q + 4 + es * n)"
proof -
  have r: "ReadScalar uoffset_t w q = Inr n" using n(1) by (simp add: Vector_size_def)
  have "0 \<le> n" using ReadScalar_bounds(3)[OF r] by simp
  then have p: "0 \<le> es * n" using es by simp
  have s: "Verify_scalar v uoffset_t q" using scalar_verifies(2)[OF w(2,1)] n(2) p v by simp
  have q: "to_size_t q = q" "to_size_t (4 + es * n) = 4 + es * n" "to_size_t (q + (4 + es * n)) = q + 4 + es * n"
    using w(1,3) n(2) p by (simp_all add: to_size_t_small)
  have "n < FLATBUFFERS_MAX_BUFFER_SIZE div es" using w(1,3) n(2) es by (intro elements_fit) simp_all
  moreover have "Verify_range v q (4 + es * n)" using w(1) n(2) v by (simp add: Verify_range_def)
  ultimately show ?thesis using s r v q by (simp add: VerifyVectorOrString_def Let_def)
qed

lemma vector_ends:
  assumes "Vector_size w q = Inr (int n)" "\<And>i. i < n \<Longrightarrow> \<exists>x. ReadScalar ty w (q + 4 + int i * int (sizeof ty)) = Inr x"
  shows "q + 4 + int (sizeof ty) * int n \<le> int (length w)"
proof (cases n)
  case 0
  then show ?thesis using assms(1) ReadScalar_bounds(2)[of uoffset_t w q] by (simp add: Vector_size_def)
next
  case (Suc m)
  then obtain x where "ReadScalar ty w (q + 4 + int m * int (sizeof ty)) = Inr x" using assms(2)[of m] by auto
  then show ?thesis using ReadScalar_bounds(2) Suc by (fastforce simp: algebra_simps)
qed

lemma vector_verifies:
  assumes "finished_as m pre u h" "h off = Some obj" "vf_buf v = pre @ u" and n: "Vector_size (pre @ u) (int (length (pre @ u)) - off) = Inr (int n)"
    and each: "\<And>i. i < n \<Longrightarrow> \<exists>x. ReadScalar ty (pre @ u) (int (length (pre @ u)) - off + 4 + int i * int (sizeof ty)) = Inr x"
  shows "VerifyVector v ty (Some (int (length (pre @ u)) - off)) = Inr True"
proof -
  note o = finished_object[OF assms(1,2)]
  have "0 < int (sizeof ty)" "int (sizeof ty) \<le> 8" by (cases ty; simp)+
  then show ?thesis using vector_or_string[OF o(2,5,4) n vector_ends[OF n each] _ _ assms(3)] by (simp add: VerifyVector_def)
qed

lemma scalars_verify:
  assumes "finished_as m pre u h" "h off = Some (Vec ty xs)" "vf_buf v = pre @ u"
  shows "VerifyVector v ty (Some (int (length (pre @ u)) - off)) = Inr True"
  by (rule vector_verifies[OF assms, of "length xs"]) (use finished_object(6)[OF assms(1,2)] in \<open>auto simp: Vector_Get_def\<close>)

lemma offsets_verify:
  assumes "finished_as m pre u h" "h off = Some (OffVec os)" "vf_buf v = pre @ u"
  shows "VerifyVector v uoffset_t (Some (int (length (pre @ u)) - off)) = Inr True"
proof (rule vector_verifies[OF assms, of "length os"])
  note r = finished_object(6)[OF assms(1,2)]
  show "Vector_size (pre @ u) (int (length (pre @ u)) - off) = Inr (int (length os))" using r by simp
  fix i assume "i < length os"
  then have "Vector_GetOffset (pre @ u) (int (length (pre @ u)) - off) i = Inr (int (length (pre @ u)) - os ! i)" using r by simp
  then show "\<exists>x. ReadScalar uoffset_t (pre @ u) (int (length (pre @ u)) - off + 4 + int i * int (sizeof uoffset_t)) = Inr x"
    by (auto simp: Vector_GetOffset_def Let_def)
qed

lemma string_verifies:
  assumes "finished_as m pre u h" "h off = Some (Str bs)" "vf_buf v = pre @ u"
  shows "VerifyString v (Some (int (length (pre @ u)) - off)) = Inr True"
proof -
  let ?w = "pre @ u" and ?q = "int (length (pre @ u)) - off"
  note o = finished_object[OF assms(1,2)]
  have r: "Vector_size ?w ?q = Inr (int (length bs))" "vec_at ?w (?q + 4 + int (length bs)) = Inr 0" using o(6) by (simp_all del: vec_at_Inr)
  then have e: "?q + 4 + 1 * int (length bs) < int (length ?w)" by simp
  then have "VerifyVectorOrString v ?q 1 = Inr (True, ?q + 4 + 1 * int (length bs))"
    using vector_or_string[OF o(2,5,4) r(1) _ _ _ assms(3), of 1] by simp
  moreover have "Verify_range v (?q + 4 + 1 * int (length bs)) 1" using e o(2,3) assms(3) by (simp add: Verify_range_def)
  ultimately show ?thesis using r(2) assms(3) by (simp add: VerifyString_def del: vec_at_Inr)
qed


section \<open>All fields\<close>

lemma max_list_ge: "x \<in> set xs \<Longrightarrow> x \<le> max_list xs"
  by (induction xs) (auto simp: max_list_def)

lemma pointer_known: "Table_GetPointer w p vt = Inr q \<Longrightarrow> accepts (g q) w n d \<Longrightarrow> accepts (with_pointer vt g p) w n d"
  by (simp add: accepts_def with_pointer_def)

lemma pointer_accepts:
  assumes f: "finished_as m pre u h" "h loc = Some (Table fs)" "even vt" "4 \<le> vt" and r: "refers P fs vt" "\<And>off. P off \<Longrightarrow> h off \<noteq> None"
    and none: "\<And>v. vf_buf v = pre @ u \<Longrightarrow> g None v = Inr (True, v)"
    and some: "\<And>off. P off \<Longrightarrow> accepts (g (Some (int (length (pre @ u)) - off))) (pre @ u) (n off) d"
  shows "accepts (and_then (offset_check vt) (with_pointer vt g) (int (length (pre @ u)) - loc)) (pre @ u) (refer_count n fs vt) d"
proof -
  let ?p = "int (length (pre @ u)) - loc"
  have checked: "accepts (and_then (offset_check vt) (with_pointer vt g) ?p) (pre @ u) m d"
    if "Table_GetPointer (pre @ u) ?p vt = Inr q" "accepts (g q) (pre @ u) m d" "\<And>v. vf_buf v = pre @ u \<Longrightarrow> Table_VerifyOffset ?p vt v = Inr True" for q m
  proof -
    have "accepts (offset_check vt ?p) (pre @ u) 0 d" unfolding offset_check_def by (rule accepts_pure) (rule that(3))
    from accepts_and[where f = "offset_check vt" and g = "with_pointer vt g", OF this pointer_known[where g = g, OF that(1,2)]] show ?thesis by simp
  qed
  show ?thesis
  proof (rule refers_cases[OF f r(1)])
    show "h off \<noteq> None" if "P off" for off by (rule r(2)[OF that])
  next
    assume a: "Table_GetPointer (pre @ u) ?p vt = Inr None" "\<And>n. refer_count n fs vt = 0" "\<And>v. vf_buf v = pre @ u \<Longrightarrow> Table_VerifyOffset ?p vt v = Inr True"
    have "accepts (g None) (pre @ u) 0 d" by (rule accepts_same) (rule none)
    then show ?thesis using checked[OF a(1) _ a(3)] a(2) by simp
  next
    fix off assume a: "P off" "Table_GetPointer (pre @ u) ?p vt = Inr (Some (int (length (pre @ u)) - off))" "\<And>n. refer_count n fs vt = n off"
      "\<And>v. vf_buf v = pre @ u \<Longrightarrow> Table_VerifyOffset ?p vt v = Inr True"
    show ?thesis using checked[OF a(2) some[OF a(1)] a(4)] a(3) by simp
  qed
qed

definition complete :: "fb_field \<Rightarrow> bool" where
  "complete F \<longleftrightarrow> (\<forall>m pre u h loc fs. finished_as m pre u h \<and> h loc = Some (Table fs) \<and> fits F h fs \<longrightarrow>
     accepts (verify_field F (int (length (pre @ u)) - loc)) (pre @ u) (weight F h fs) (field_depth F))"

lemma completeD:
  "complete F \<Longrightarrow> finished_as m pre u h \<Longrightarrow> h loc = Some (Table fs) \<Longrightarrow> fits F h fs \<Longrightarrow>
    accepts (verify_field F (int (length (pre @ u)) - loc)) (pre @ u) (weight F h fs) (field_depth F)"
  unfolding complete_def by blast

lemma fitting_accepts:
  assumes gs: "\<forall>F \<in> set gs. complete F" and f: "finished_as m pre u h" "table_fits (map fits gs) h loc"
  shows "accepts (table_body (map verify_field gs) (int (length (pre @ u)) - loc)) (pre @ u) (table_count (map weight gs) h loc) (Suc (max_list (map field_depth gs)))"
proof -
  obtain fs where fs: "h loc = Some (Table fs)" "\<forall>F \<in> set gs. fits F h fs" using f(2) by (auto simp: table_fits_def list_all_iff split: option.splits fb_object.splits)
  let ?p = "int (length (pre @ u)) - loc" and ?d = "max_list (map field_depth gs)"
  have "accepts (verify_field F ?p) (pre @ u) (weight F h fs) ?d" if "F \<in> set gs" for F
    by (rule accepts_mono[OF completeD[OF _ f(1) fs(1)]]) (use gs fs(2) that in \<open>simp_all add: max_list_ge\<close>)
  then have "list_all2 (\<lambda>c n. accepts (c ?p) (pre @ u) n ?d) (map verify_field gs) (map (\<lambda>F. weight F h fs) gs)"
    by (simp add: list_all2_map1 list_all2_map2 list_all2_same)
  then have "accepts (all_checks (map verify_field gs) ?p) (pre @ u) (sum_list (map (\<lambda>F. weight F h fs) gs)) ?d" by (rule accepts_all)
  then have "accepts (table_body (map verify_field gs) ?p) (pre @ u) (Suc (sum_list (map (\<lambda>F. weight F h fs) gs))) (Suc ?d)"
    by (rule accepts_body[rotated]) (rule start_accepts[OF f(1) fs(1)])
  then show ?thesis using fs(1) by (simp add: table_count_def o_def)
qed

lemma tables_loop_accepts:
  assumes "\<And>j. i \<le> j \<Longrightarrow> j < i + k \<Longrightarrow> Vector_GetOffset w q j = Inr (p j) \<and> accepts (tab (p j)) w (n j) d"
  shows "accepts (tables_loop tab q i k) w (sum_list (map n [i ..< i + k])) d"
  using assms
proof (induction k arbitrary: i)
  case 0
  then show ?case by (simp add: accepts_def)
next
  case (Suc k)
  have h: "Vector_GetOffset w q i = Inr (p i)" "accepts (tab (p i)) w (n i) d" using Suc.prems[of i] by simp_all
  have t: "accepts (tables_loop tab q (Suc i) k) w (sum_list (map n [Suc i ..< Suc i + k])) d" using Suc.prems by (intro Suc.IH) simp
  have "accepts (and_then (\<lambda>_. tab (p i)) (\<lambda>_. tables_loop tab q (Suc i) k) 0) w (n i + sum_list (map n [Suc i ..< Suc i + k])) d"
    by (rule accepts_and[where f = "\<lambda>_. tab (p i)" and g = "\<lambda>_. tables_loop tab q (Suc i) k" and data = 0, OF h(2) t])
  moreover have "[i ..< i + Suc k] = i # [Suc i ..< Suc i + k]" by (simp add: upt_conv_Cons)
  ultimately show ?case using h(1) unfolding accepts_def and_then_def by (auto simp del: upt_Suc)
qed

lemma vector_of_tables_accepts:
  assumes gs: "\<forall>F \<in> set gs. complete F" and f: "finished_as m pre u h" "h off = Some (OffVec os)" "list_all (table_fits (map fits gs) h) os"
  shows "accepts (VerifyVectorOfTables (table_body (map verify_field gs)) (Some (int (length (pre @ u)) - off))) (pre @ u)
    (sum_list (map (table_count (map weight gs) h) os)) (Suc (max_list (map field_depth gs)))"
proof -
  let ?q = "int (length (pre @ u)) - off" and ?n = "\<lambda>j. table_count (map weight gs) h (os ! j)"
  have r: "Vector_size (pre @ u) ?q = Inr (int (length os))" "\<And>i. i < length os \<Longrightarrow> Vector_GetOffset (pre @ u) ?q i = Inr (int (length (pre @ u)) - os ! i)"
    using finished_object(6)[OF f(1,2)] by simp_all
  have "accepts (tables_loop (table_body (map verify_field gs)) ?q 0 (length os)) (pre @ u) (sum_list (map ?n [0 ..< 0 + length os])) (Suc (max_list (map field_depth gs)))"
    by (rule tables_loop_accepts[where p = "\<lambda>j. int (length (pre @ u)) - os ! j"])
      (use r(2) fitting_accepts[OF gs f(1)] f(3) in \<open>simp add: list_all_length\<close>)
  moreover have "map ?n [0 ..< 0 + length os] = map (table_count (map weight gs) h) os" by (rule nth_equalityI) simp_all
  ultimately show ?thesis using r(1) unfolding accepts_def VerifyVectorOfTables_def by simp
qed


lemma accepts_cong: "(\<And>v. vf_buf v = w \<Longrightarrow> c v = c' v) \<Longrightarrow> accepts c' w n d \<Longrightarrow> accepts c w n d"
  by (simp add: accepts_def)

lemma scalar_complete: "even vt \<Longrightarrow> 4 \<le> vt \<Longrightarrow> complete (Scalar ty vt)"
  unfolding complete_def verify_field.simps weight.simps fits.simps using element_verifies by (intro allI impI accepts_pure) blast

lemma scalars_complete:
  assumes "even vt" "4 \<le> vt"
  shows "complete (Scalars ty vt)"
  unfolding complete_def verify_field.simps fits.simps
proof (intro allI impI, elim conjE)
  fix m pre u h loc fs
  assume f: "finished_as m pre u h" "h loc = Some (Table fs)" "refers (\<lambda>off. case h off of Some (Vec ty' xs) \<Rightarrow> ty' = ty | _ \<Rightarrow> False) fs vt"
  have "accepts (and_then (offset_check vt) (with_pointer vt (\<lambda>p v. bind_res (VerifyVector v ty p) (\<lambda>ok. Inr (ok, v)))) (int (length (pre @ u)) - loc)) (pre @ u)
      (refer_count (\<lambda>off. 0) fs vt) (field_depth (Scalars ty vt))"
  proof (rule pointer_accepts[OF f(1,2) assms f(3)])
    fix off assume "case h off of Some (Vec ty' xs) \<Rightarrow> ty' = ty | _ \<Rightarrow> False"
    then obtain xs where xs: "h off = Some (Vec ty xs)" by (auto split: option.splits fb_object.splits)
    then show "h off \<noteq> None" by simp
    show "accepts (\<lambda>v. bind_res (VerifyVector v ty (Some (int (length (pre @ u)) - off))) (\<lambda>ok. Inr (ok, v))) (pre @ u) 0 (field_depth (Scalars ty vt))"
      by (rule accepts_same) (use scalars_verify[OF f(1) xs] in simp)
  qed (simp add: VerifyVector_def)
  then show "accepts (and_then (offset_check vt) (with_pointer vt (\<lambda>p v. bind_res (VerifyVector v ty p) (\<lambda>ok. Inr (ok, v)))) (int (length (pre @ u)) - loc)) (pre @ u)
      (weight (Scalars ty vt) h fs) (field_depth (Scalars ty vt))" by (simp add: refer_count_def split: option.splits field_add.splits)
qed

lemma text_complete:
  assumes "even vt" "4 \<le> vt"
  shows "complete (Text vt)"
  unfolding complete_def verify_field.simps fits.simps
proof (intro allI impI, elim conjE)
  fix m pre u h loc fs
  assume f: "finished_as m pre u h" "h loc = Some (Table fs)" "refers (\<lambda>off. case h off of Some (Str bs) \<Rightarrow> True | _ \<Rightarrow> False) fs vt"
  have "accepts (and_then (offset_check vt) (with_pointer vt (\<lambda>p v. bind_res (VerifyString v p) (\<lambda>ok. Inr (ok, v)))) (int (length (pre @ u)) - loc)) (pre @ u)
      (refer_count (\<lambda>off. 0) fs vt) (field_depth (Text vt))"
  proof (rule pointer_accepts[OF f(1,2) assms f(3)])
    fix off assume "case h off of Some (Str bs) \<Rightarrow> True | _ \<Rightarrow> False"
    then obtain bs where bs: "h off = Some (Str bs)" by (auto split: option.splits fb_object.splits)
    then show "h off \<noteq> None" by simp
    show "accepts (\<lambda>v. bind_res (VerifyString v (Some (int (length (pre @ u)) - off))) (\<lambda>ok. Inr (ok, v))) (pre @ u) 0 (field_depth (Text vt))"
      by (rule accepts_same) (use string_verifies[OF f(1) bs] in simp)
  qed (simp add: VerifyString_def)
  then show "accepts (and_then (offset_check vt) (with_pointer vt (\<lambda>p v. bind_res (VerifyString v p) (\<lambda>ok. Inr (ok, v)))) (int (length (pre @ u)) - loc)) (pre @ u)
      (weight (Text vt) h fs) (field_depth (Text vt))" by (simp add: refer_count_def split: option.splits field_add.splits)
qed

lemma table_fits_Some: "table_fits ps h off \<Longrightarrow> h off \<noteq> None"
  by (auto simp: table_fits_def split: option.splits)

lemma VerifyTable_Some: "VerifyTable tab (Some t) = tab t"
  by (intro ext) (simp add: VerifyTable_def)

lemma subtable_complete:
  assumes "even vt" "4 \<le> vt" "\<forall>F \<in> set gs. complete F"
  shows "complete (Subtable vt gs)"
  unfolding complete_def verify_field.simps fits.simps weight.simps field_depth.simps
proof (intro allI impI, elim conjE)
  fix m pre u h loc fs
  assume f: "finished_as m pre u h" "h loc = Some (Table fs)" "refers (table_fits (map fits gs) h) fs vt"
  show "accepts (and_then (offset_check vt) (with_pointer vt (VerifyTable (table_body (map verify_field gs)))) (int (length (pre @ u)) - loc)) (pre @ u)
      (refer_count (table_count (map weight gs) h) fs vt) (Suc (max_list (map field_depth gs)))"
    by (rule pointer_accepts[OF f(1,2) assms(1,2) f(3)]) (use table_fits_Some fitting_accepts[OF assms(3) f(1)] in \<open>simp_all add: VerifyTable_Some\<close>, simp add: VerifyTable_def)
qed

lemma subtables_complete:
  assumes "even vt" "4 \<le> vt" "\<forall>F \<in> set gs. complete F"
  shows "complete (Subtables vt gs)"
  unfolding complete_def verify_field.simps fits.simps weight.simps field_depth.simps two_pointer_checks
proof (intro allI impI, elim conjE)
  fix m pre u h loc fs
  let ?P = "\<lambda>off. case h off of Some (OffVec os) \<Rightarrow> list_all (table_fits (map fits gs) h) os | _ \<Rightarrow> False"
  let ?n = "\<lambda>off. case h off of Some (OffVec os) \<Rightarrow> sum_list (map (table_count (map weight gs) h) os) | _ \<Rightarrow> 0"
  let ?tab = "table_body (map verify_field gs)"
  assume f: "finished_as m pre u h" "h loc = Some (Table fs)" "refers ?P fs vt"
  show "accepts (and_then (offset_check vt) (with_pointer vt (\<lambda>p v. bind_res (VerifyVector v uoffset_t p) (\<lambda>ok. if ok then VerifyVectorOfTables ?tab p v else Inr (False, v))))
      (int (length (pre @ u)) - loc)) (pre @ u) (refer_count ?n fs vt) (Suc (max_list (map field_depth gs)))"
  proof (rule pointer_accepts[OF f(1,2) assms(1,2) f(3)])
    fix off assume "?P off"
    then obtain os where os: "h off = Some (OffVec os)" "list_all (table_fits (map fits gs) h) os" by (auto split: option.splits fb_object.splits)
    then show "h off \<noteq> None" by simp
    show "accepts (\<lambda>v. bind_res (VerifyVector v uoffset_t (Some (int (length (pre @ u)) - off))) (\<lambda>ok. if ok then VerifyVectorOfTables ?tab
        (Some (int (length (pre @ u)) - off)) v else Inr (False, v))) (pre @ u) (?n off) (Suc (max_list (map field_depth gs)))"
    proof (rule accepts_cong)
      show "accepts (VerifyVectorOfTables ?tab (Some (int (length (pre @ u)) - off))) (pre @ u) (?n off) (Suc (max_list (map field_depth gs)))"
        using vector_of_tables_accepts[OF assms(3) f(1) os] os(1) by simp
    qed (use offsets_verify[OF f(1) os(1)] in simp)
  qed (simp add: VerifyVector_def VerifyVectorOfTables_def)
qed


lemma map_of_alternatives: "map_of (map (map_prod id f) alts) ty = map_option f (map_of alts ty)"
  by (induction alts) auto

lemma union_complete:
  assumes vt: "even vt_type" "4 \<le> vt_type" "even vt" "4 \<le> vt" and alts: "\<And>ty gs. (ty, gs) \<in> set alts \<Longrightarrow> \<forall>F \<in> set gs. complete F"
  shows "complete (Union vt_type vt alts)"
  unfolding complete_def
proof (intro allI impI, elim conjE)
  fix m pre u h loc fs
  assume f: "finished_as m pre u h" "h loc = Some (Table fs)" "fits (Union vt_type vt alts) h fs"
  let ?p = "int (length (pre @ u)) - loc" and ?w = "pre @ u" and ?ty = "union_type fs vt_type" and ?cs = "map (map_prod id (map verify_field)) alts"
  let ?d = "field_depth (Union vt_type vt alts)"
  let ?P = "\<lambda>off. case map_of (map (map_prod id (map fits)) alts) ?ty of None \<Rightarrow> h off \<noteq> None | Some ps \<Rightarrow> table_fits ps h off"
  let ?n = "\<lambda>off. case map_of (map (map_prod id (map weight)) alts) ?ty of None \<Rightarrow> 0 | Some ns \<Rightarrow> table_count ns h off"
  let ?G = "\<lambda>data v. bind_res (Table_GetPointer (vf_buf v) data vt) (\<lambda>p. bind_res (Table_GetField U8 (vf_buf v) data vt_type 0) (\<lambda>ty. union_check ?cs ty p v))"
  have t: "adds_type fs vt_type" "refers ?P fs vt" using f(3) by simp_all
  have ty: "Table_GetField U8 ?w ?p vt_type 0 = Inr ?ty" by (rule union_type_reads[OF finished_object(6)[OF f(1,2)] t(1) vt(1,2)])
  have ptr: "accepts (and_then (offset_check vt) (with_pointer vt (union_check ?cs ?ty)) ?p) ?w (refer_count ?n fs vt) ?d"
  proof (rule pointer_accepts[OF f(1,2) vt(3,4) t(2)])
    fix off assume P: "?P off"
    then show "h off \<noteq> None" by (auto split: option.splits dest: table_fits_Some)
    show "accepts (union_check ?cs ?ty (Some (int (length ?w) - off))) ?w (?n off) ?d"
    proof (cases "map_of alts ?ty")
      case (Some gs)
      then have gs: "(?ty, gs) \<in> set alts" by (rule map_of_SomeD)
      have "accepts (table_body (map verify_field gs) (int (length ?w) - off)) ?w (table_count (map weight gs) h off) (Suc (max_list (map field_depth gs)))"
        by (rule fitting_accepts[OF alts[OF gs] f(1)]) (use P Some in \<open>simp add: map_of_alternatives\<close>)
      moreover have "Suc (max_list (map field_depth gs)) \<le> ?d" using gs by (force intro: max_list_ge)
      ultimately have "accepts (table_body (map verify_field gs) (int (length ?w) - off)) ?w (table_count (map weight gs) h off) ?d" by (rule accepts_mono)
      then show ?thesis using Some by (simp add: accepts_def union_check_def map_of_alternatives VerifyTable_def)
    qed (simp add: accepts_def union_check_def map_of_alternatives)
  qed (auto simp: union_check_def VerifyTable_def split: option.splits)
  have "accepts (and_then (offset_check vt) ?G ?p) ?w (refer_count ?n fs vt) ?d"
  proof (rule accepts_cong[OF _ ptr])
    fix v :: verifier assume "vf_buf v = ?w"
    then show "and_then (offset_check vt) ?G ?p v = and_then (offset_check vt) (with_pointer vt (union_check ?cs ?ty)) ?p v"
      using ty by (cases "Table_VerifyOffset ?p vt v") (simp_all add: and_then_def offset_check_def pure_check_def with_pointer_def)
  qed
  moreover have "accepts (pure_check (\<lambda>data. Table_VerifyField U8 data vt_type) ?p) ?w 0 ?d"
  proof (rule accepts_pure)
    have "adds_scalar U8 fs vt_type" using t(1) by (auto simp: adds_type_def adds_scalar_def split: option.splits field_add.splits)
    then show "Table_VerifyField U8 ?p vt_type v = Inr True" if "vf_buf v = ?w" for v by (rule element_verifies[OF f(1,2) _ vt(1,2) that])
  qed
  ultimately show "accepts (verify_field (Union vt_type vt alts) ?p) ?w (weight (Union vt_type vt alts) h fs) ?d"
    using accepts_and[where f = "pure_check (\<lambda>data. Table_VerifyField U8 data vt_type)" and g = "and_then (offset_check vt) ?G" and data = ?p and n = 0 and w = ?w and d = ?d]
    unfolding verify_field.simps weight.simps by simp
qed

lemma field_complete: "wf_field F \<Longrightarrow> complete F"
proof (induction F)
  case (Subtable vt gs)
  then show ?case by (intro subtable_complete) (auto simp: list_all_iff)
next
  case (Subtables vt gs)
  then show ?case by (intro subtables_complete) (auto simp: list_all_iff)
next
  case (Union vt_type vt alts)
  show ?case
  proof (rule union_complete)
    fix ty gs assume a: "(ty, gs) \<in> set alts"
    then have "list_all wf_field gs" using Union.prems by (auto simp: list_all_iff pred_prod_beta)
    then show "\<forall>F \<in> set gs. complete F" using Union.IH[OF a, of gs] by (auto simp: list_all_iff)
  qed (use Union.prems in auto)
qed (simp_all add: scalar_complete scalars_complete text_complete)

text \<open>A table of the right type passes.\<close>

lemma verify_table_complete:
  assumes "list_all wf_field gs" "finished_as m pre u h" "fits_table gs h loc"
  shows "accepts (verify_table gs (int (length (pre @ u)) - loc)) (pre @ u) (weight_table gs h loc) (table_depth gs)"
  unfolding verify_table_def weight_table_def table_depth_def
  by (rule fitting_accepts) (use assms field_complete in \<open>auto simp: list_all_iff fits_table_def\<close>)


section \<open>The whole buffer\<close>

definition verify_finished :: "bool \<Rightarrow> check \<Rightarrow> bytes option \<Rightarrow> verifier \<Rightarrow> (bool \<times> verifier) res" where
  "verify_finished size_prefix tab ident = (if size_prefix then VerifySizePrefixedBuffer tab ident else VerifyBuffer tab ident)"

lemma root_verifies:
  assumes start: "start = 0 \<or> start = 4" "start < int (length w) - r" and r: "0 < r" and w: "GetRoot w start = Inr (int (length w) - r)" "8 \<le> int (length w)" "int (length w) < 2 ^ 31 - 1"
    and ident: "\<forall>s. ident = Some s \<longrightarrow> BufferHasIdentifier w start s False = Inr True" and v: "vf_buf v = w" and tab: "tab (int (length w) - r) v = Inr (True, v')"
  shows "VerifyBufferFromStart tab ident start v = Inr (True, v')"
proof -
  obtain o1 where o1: "ReadScalar uoffset_t w start = Inr o1" "start + o1 = int (length w) - r" using w(1) by (auto simp: GetRoot_def)
  have "Verify_scalar v uoffset_t start" using start(1) w(2) v by (auto simp: Verify_scalar_def VerifyAlignment_def Verify_range_def and_3)
  moreover have b: "0 < o1" "o1 < 2 ^ 31" "to_size_t (start + o1) = int (length w) - r" using o1(2) start r w(3) by (auto simp: to_size_t_small)
  moreover have "to_int o1 = o1" using b by (intro to_int_small) simp_all
  moreover have "Verify_range v (int (length w) - r) 1" using r w(2) v by (simp add: Verify_range_def)
  ultimately have "VerifyOffset v start = Inr o1" using o1(1) v by (simp add: VerifyOffset_def)
  moreover have "(case ident of None \<Rightarrow> Inr True | Some i \<Rightarrow> if 8 \<le> vf_size v then BufferHasIdentifier (vf_buf v) start i False else Inr False) = Inr True"
    using ident w(2) v by (simp split: option.splits)
  ultimately show ?thesis using b(1) o1(2) tab v unfolding VerifyBufferFromStart_def by (simp del: bind_res_eq_Inr)
qed

lemma built_buffer_accepted:
  assumes b: "session b objs" "GetSize b + 64 < 2 ^ 31 - 1" "case ident of None \<Rightarrow> True | Some s \<Rightarrow> length s = 4"
    and gs: "list_all wf_field gs" "fits_table gs (map_of objs) r"
    and limits: "int (table_depth gs) \<le> max_depth" "max_depth < 2 ^ 32" "int (weight_table gs (map_of objs) r) \<le> max_tables" "max_tables < 2 ^ 32"
  shows "\<exists>b1 w b2 v'. Builder_Finish r ident size_prefix b = Inr b1 \<and> Builder_Release b1 = Inr (w, b2) \<and>
    verify_finished size_prefix (verify_table gs) ident (Verifier_new w max_depth max_tables check_alignment) = Inr (True, v') \<and>
    vf_num_tables v' = int (weight_table gs (map_of objs) r)"
proof -
  obtain obj where obj: "map_of objs r = Some obj" using gs(2) table_fits_Some by (fastforce simp: fits_table_def)
  then have r: "r \<in> fst ` set objs" by (force dest: map_of_SomeD)
  obtain b1 pre u b2 where f: "Builder_Finish r ident size_prefix b = Inr b1" "Builder_Release b1 = Inr (pre @ u, b2)"
    "GetRoot (pre @ u) (if size_prefix then 4 else 0) = Inr (int (length (pre @ u)) - r)"
    "\<forall>s. ident = Some s \<longrightarrow> BufferHasIdentifier (pre @ u) (if size_prefix then 4 else 0) s False = Inr True"
    "size_prefix \<longrightarrow> ReadScalar uoffset_t (pre @ u) 0 = Inr (int (length (pre @ u)) - 4)"
    "\<forall>(loc, obj) \<in> set objs. placed (minalign b) u loc obj" "distinct (map fst objs)"
    "(if size_prefix then 8 else 4) \<le> length pre" "int (length (pre @ u)) mod 4 = 0" "int (length (pre @ u)) < 2 ^ 31 - 1" "int (length (pre @ u)) mod minalign b = 0"
    using finish_session[OF b(1) r b(2,3), of size_prefix] .
  let ?w = "pre @ u"
  let ?v = "Verifier_new ?w max_depth max_tables check_alignment" and ?n = "int (weight_table gs (map_of objs) r)"
  have fin: "finished_as (minalign b) pre u (map_of objs)" unfolding finished_as_def using f(6-11) by (auto dest: map_of_SomeD split: if_splits)
  note o = finished_object[OF fin obj]
  have pr: "0 < r" "r \<le> int (length u)" using fin obj placed_bounds unfolding finished_as_def by blast+
  have tab: "verify_table gs (int (length ?w) - r) ?v = Inr (True, ?v\<lparr>vf_num_tables := ?n\<rparr>)"
    using verify_table_complete[OF gs(1) fin gs(2)] limits by (simp add: accepts_def Verifier_new_def)
  have "4 \<le> r" using o(5) f(9) pr(1) by presburger
  then have "8 \<le> int (length ?w)" using pr(2) f(8) by (auto split: if_splits)
  then have start: "VerifyBufferFromStart (verify_table gs) ident (if size_prefix then 4 else 0) ?v = Inr (True, ?v\<lparr>vf_num_tables := ?n\<rparr>)"
    by (intro root_verifies[where tab = "verify_table gs", OF _ _ pr(1) f(3) _ f(10) f(4) _ tab]) (use f(8) pr(2) in \<open>auto simp: Verifier_new_def\<close>)
  have "verify_finished size_prefix (verify_table gs) ident ?v = Inr (True, ?v\<lparr>vf_num_tables := ?n\<rparr>)"
  proof (cases size_prefix)
    case True
    have "Verify_scalar ?v uoffset_t 0" using \<open>8 \<le> int (length ?w)\<close> by (simp add: Verifier_new_def Verify_scalar_def VerifyAlignment_def Verify_range_def)
    then show ?thesis using True start f(5) by (simp add: verify_finished_def VerifySizePrefixedBuffer_def Verifier_new_def)
  qed (use start in \<open>simp add: verify_finished_def VerifyBuffer_def\<close>)
  then show ?thesis using f(1,2) by (intro exI[of _ b1] exI[of _ ?w] exI[of _ b2] exI[of _ "?v\<lparr>vf_num_tables := ?n\<rparr>"]) simp
qed

end
