(* ===== verification/Schema_Verify.thy ===== *)
theory Schema_Verify
  imports Flatbuffer_Verify
begin

text \<open>
  The \<^verbatim>\<open>Verify\<close> methods of the tables of the TensorFlow Lite schema and the verify functions of its unions
  (\<^verbatim>\<open>schema/schema_generated.h\<close>), as lists of field checks: the number of a field is its place in the vtable. At the end
  the two functions that verify a model file.
\<close>

section \<open>The tables\<close>

definition Verify_CustomQuantization :: "fb_field list" where
  "Verify_CustomQuantization = [Scalars U8 4]"

definition QuantizationDetails_alternatives :: "(int \<times> fb_field list) list" where
  "QuantizationDetails_alternatives =
     [(1, Verify_CustomQuantization)]"

definition Verify_QuantizationParameters :: "fb_field list" where
  "Verify_QuantizationParameters = [Scalars F32 4, Scalars F32 6, Scalars F32 8, Scalars I64 10,
     Union 12 14 QuantizationDetails_alternatives, Scalar I32 16]"

definition Verify_Int32Vector :: "fb_field list" where
  "Verify_Int32Vector = [Scalars I32 4]"

definition Verify_Uint16Vector :: "fb_field list" where
  "Verify_Uint16Vector = [Scalars U16 4]"

definition Verify_Uint8Vector :: "fb_field list" where
  "Verify_Uint8Vector = [Scalars U8 4]"

definition SparseIndexVector_alternatives :: "(int \<times> fb_field list) list" where
  "SparseIndexVector_alternatives =
     [(1, Verify_Int32Vector),
      (2, Verify_Uint16Vector),
      (3, Verify_Uint8Vector)]"

definition Verify_DimensionMetadata :: "fb_field list" where
  "Verify_DimensionMetadata = [Scalar I8 4, Scalar I32 6, Union 8 10 SparseIndexVector_alternatives,
     Union 12 14 SparseIndexVector_alternatives]"

definition Verify_SparsityParameters :: "fb_field list" where
  "Verify_SparsityParameters = [Scalars I32 4, Scalars I32 6, Subtables 8 Verify_DimensionMetadata]"

definition Verify_Tensor :: "fb_field list" where
  "Verify_Tensor = [Scalars I32 4, Scalar I8 6, Scalar U32 8, Text 10, Subtable 12 Verify_QuantizationParameters,
     Scalar U8 14, Subtable 16 Verify_SparsityParameters, Scalars I32 18]"

definition Verify_Conv2DOptions :: "fb_field list" where
  "Verify_Conv2DOptions = [Scalar I8 4, Scalar I32 6, Scalar I32 8, Scalar I8 10, Scalar I32 12, Scalar I32 14]"

definition Verify_Conv3DOptions :: "fb_field list" where
  "Verify_Conv3DOptions = [Scalar I8 4, Scalar I32 6, Scalar I32 8, Scalar I32 10, Scalar I8 12, Scalar I32 14,
     Scalar I32 16, Scalar I32 18]"

definition Verify_Pool2DOptions :: "fb_field list" where
  "Verify_Pool2DOptions = [Scalar I8 4, Scalar I32 6, Scalar I32 8, Scalar I32 10, Scalar I32 12, Scalar I8 14]"

definition Verify_DepthwiseConv2DOptions :: "fb_field list" where
  "Verify_DepthwiseConv2DOptions = [Scalar I8 4, Scalar I32 6, Scalar I32 8, Scalar I32 10, Scalar I8 12, Scalar I32 14,
     Scalar I32 16]"

definition Verify_ConcatEmbeddingsOptions :: "fb_field list" where
  "Verify_ConcatEmbeddingsOptions = [Scalar I32 4, Scalars I32 6, Scalars I32 8]"

definition Verify_LSHProjectionOptions :: "fb_field list" where
  "Verify_LSHProjectionOptions = [Scalar I8 4]"

definition Verify_SVDFOptions :: "fb_field list" where
  "Verify_SVDFOptions = [Scalar I32 4, Scalar I8 6, Scalar U8 8]"

definition Verify_RNNOptions :: "fb_field list" where
  "Verify_RNNOptions = [Scalar I8 4, Scalar U8 6]"

definition Verify_SequenceRNNOptions :: "fb_field list" where
  "Verify_SequenceRNNOptions = [Scalar U8 4, Scalar I8 6, Scalar U8 8]"

definition Verify_BidirectionalSequenceRNNOptions :: "fb_field list" where
  "Verify_BidirectionalSequenceRNNOptions = [Scalar U8 4, Scalar I8 6, Scalar U8 8, Scalar U8 10]"

definition Verify_FullyConnectedOptions :: "fb_field list" where
  "Verify_FullyConnectedOptions = [Scalar I8 4, Scalar I8 6, Scalar U8 8, Scalar U8 10]"

definition Verify_SoftmaxOptions :: "fb_field list" where
  "Verify_SoftmaxOptions = [Scalar F32 4]"

definition Verify_ConcatenationOptions :: "fb_field list" where
  "Verify_ConcatenationOptions = [Scalar I32 4, Scalar I8 6]"

definition Verify_AddOptions :: "fb_field list" where
  "Verify_AddOptions = [Scalar I8 4, Scalar U8 6]"

definition Verify_MulOptions :: "fb_field list" where
  "Verify_MulOptions = [Scalar I8 4]"

definition Verify_L2NormOptions :: "fb_field list" where
  "Verify_L2NormOptions = [Scalar I8 4]"

definition Verify_LocalResponseNormalizationOptions :: "fb_field list" where
  "Verify_LocalResponseNormalizationOptions = [Scalar I32 4, Scalar F32 6, Scalar F32 8, Scalar F32 10]"

definition Verify_LSTMOptions :: "fb_field list" where
  "Verify_LSTMOptions = [Scalar I8 4, Scalar F32 6, Scalar F32 8, Scalar I8 10, Scalar U8 12]"

definition Verify_UnidirectionalSequenceLSTMOptions :: "fb_field list" where
  "Verify_UnidirectionalSequenceLSTMOptions = [Scalar I8 4, Scalar F32 6, Scalar F32 8, Scalar U8 10, Scalar U8 12]"

definition Verify_BidirectionalSequenceLSTMOptions :: "fb_field list" where
  "Verify_BidirectionalSequenceLSTMOptions = [Scalar I8 4, Scalar F32 6, Scalar F32 8, Scalar U8 10, Scalar U8 12,
     Scalar U8 14]"

definition Verify_ResizeBilinearOptions :: "fb_field list" where
  "Verify_ResizeBilinearOptions = [Scalar U8 8, Scalar U8 10]"

definition Verify_ResizeNearestNeighborOptions :: "fb_field list" where
  "Verify_ResizeNearestNeighborOptions = [Scalar U8 4, Scalar U8 6]"

definition Verify_CallOptions :: "fb_field list" where
  "Verify_CallOptions = [Scalar U32 4]"

definition Verify_PadOptions :: "fb_field list" where
  "Verify_PadOptions = []"

definition Verify_PadV2Options :: "fb_field list" where
  "Verify_PadV2Options = []"

definition Verify_ReshapeOptions :: "fb_field list" where
  "Verify_ReshapeOptions = [Scalars I32 4]"

definition Verify_SpaceToBatchNDOptions :: "fb_field list" where
  "Verify_SpaceToBatchNDOptions = []"

definition Verify_BatchToSpaceNDOptions :: "fb_field list" where
  "Verify_BatchToSpaceNDOptions = []"

definition Verify_SkipGramOptions :: "fb_field list" where
  "Verify_SkipGramOptions = [Scalar I32 4, Scalar I32 6, Scalar U8 8]"

definition Verify_SpaceToDepthOptions :: "fb_field list" where
  "Verify_SpaceToDepthOptions = [Scalar I32 4]"

definition Verify_DepthToSpaceOptions :: "fb_field list" where
  "Verify_DepthToSpaceOptions = [Scalar I32 4]"

definition Verify_SubOptions :: "fb_field list" where
  "Verify_SubOptions = [Scalar I8 4, Scalar U8 6]"

definition Verify_DivOptions :: "fb_field list" where
  "Verify_DivOptions = [Scalar I8 4]"

definition Verify_TopKV2Options :: "fb_field list" where
  "Verify_TopKV2Options = []"

definition Verify_EmbeddingLookupSparseOptions :: "fb_field list" where
  "Verify_EmbeddingLookupSparseOptions = [Scalar I8 4]"

definition Verify_GatherOptions :: "fb_field list" where
  "Verify_GatherOptions = [Scalar I32 4, Scalar I32 6]"

definition Verify_TransposeOptions :: "fb_field list" where
  "Verify_TransposeOptions = []"

definition Verify_ExpOptions :: "fb_field list" where
  "Verify_ExpOptions = []"

definition Verify_CosOptions :: "fb_field list" where
  "Verify_CosOptions = []"

definition Verify_ReducerOptions :: "fb_field list" where
  "Verify_ReducerOptions = [Scalar U8 4]"

definition Verify_SqueezeOptions :: "fb_field list" where
  "Verify_SqueezeOptions = [Scalars I32 4]"

definition Verify_SplitOptions :: "fb_field list" where
  "Verify_SplitOptions = [Scalar I32 4]"

definition Verify_SplitVOptions :: "fb_field list" where
  "Verify_SplitVOptions = [Scalar I32 4]"

definition Verify_StridedSliceOptions :: "fb_field list" where
  "Verify_StridedSliceOptions = [Scalar I32 4, Scalar I32 6, Scalar I32 8, Scalar I32 10, Scalar I32 12]"

definition Verify_LogSoftmaxOptions :: "fb_field list" where
  "Verify_LogSoftmaxOptions = []"

definition Verify_CastOptions :: "fb_field list" where
  "Verify_CastOptions = [Scalar I8 4, Scalar I8 6]"

definition Verify_DequantizeOptions :: "fb_field list" where
  "Verify_DequantizeOptions = []"

definition Verify_MaximumMinimumOptions :: "fb_field list" where
  "Verify_MaximumMinimumOptions = []"

definition Verify_TileOptions :: "fb_field list" where
  "Verify_TileOptions = []"

definition Verify_ArgMaxOptions :: "fb_field list" where
  "Verify_ArgMaxOptions = [Scalar I8 4]"

definition Verify_ArgMinOptions :: "fb_field list" where
  "Verify_ArgMinOptions = [Scalar I8 4]"

definition Verify_GreaterOptions :: "fb_field list" where
  "Verify_GreaterOptions = []"

definition Verify_GreaterEqualOptions :: "fb_field list" where
  "Verify_GreaterEqualOptions = []"

definition Verify_LessOptions :: "fb_field list" where
  "Verify_LessOptions = []"

definition Verify_LessEqualOptions :: "fb_field list" where
  "Verify_LessEqualOptions = []"

definition Verify_NegOptions :: "fb_field list" where
  "Verify_NegOptions = []"

definition Verify_SelectOptions :: "fb_field list" where
  "Verify_SelectOptions = []"

definition Verify_SliceOptions :: "fb_field list" where
  "Verify_SliceOptions = []"

definition Verify_TransposeConvOptions :: "fb_field list" where
  "Verify_TransposeConvOptions = [Scalar I8 4, Scalar I32 6, Scalar I32 8]"

definition Verify_ExpandDimsOptions :: "fb_field list" where
  "Verify_ExpandDimsOptions = []"

definition Verify_SparseToDenseOptions :: "fb_field list" where
  "Verify_SparseToDenseOptions = [Scalar U8 4]"

definition Verify_EqualOptions :: "fb_field list" where
  "Verify_EqualOptions = []"

definition Verify_NotEqualOptions :: "fb_field list" where
  "Verify_NotEqualOptions = []"

definition Verify_ShapeOptions :: "fb_field list" where
  "Verify_ShapeOptions = [Scalar I8 4]"

definition Verify_RankOptions :: "fb_field list" where
  "Verify_RankOptions = []"

definition Verify_PowOptions :: "fb_field list" where
  "Verify_PowOptions = []"

definition Verify_FakeQuantOptions :: "fb_field list" where
  "Verify_FakeQuantOptions = [Scalar F32 4, Scalar F32 6, Scalar I32 8, Scalar U8 10]"

definition Verify_PackOptions :: "fb_field list" where
  "Verify_PackOptions = [Scalar I32 4, Scalar I32 6]"

definition Verify_LogicalOrOptions :: "fb_field list" where
  "Verify_LogicalOrOptions = []"

definition Verify_OneHotOptions :: "fb_field list" where
  "Verify_OneHotOptions = [Scalar I32 4]"

definition Verify_AbsOptions :: "fb_field list" where
  "Verify_AbsOptions = []"

definition Verify_HardSwishOptions :: "fb_field list" where
  "Verify_HardSwishOptions = []"

definition Verify_LogicalAndOptions :: "fb_field list" where
  "Verify_LogicalAndOptions = []"

definition Verify_LogicalNotOptions :: "fb_field list" where
  "Verify_LogicalNotOptions = []"

definition Verify_UnpackOptions :: "fb_field list" where
  "Verify_UnpackOptions = [Scalar I32 4, Scalar I32 6]"

definition Verify_FloorDivOptions :: "fb_field list" where
  "Verify_FloorDivOptions = []"

definition Verify_SquareOptions :: "fb_field list" where
  "Verify_SquareOptions = []"

definition Verify_ZerosLikeOptions :: "fb_field list" where
  "Verify_ZerosLikeOptions = []"

definition Verify_FillOptions :: "fb_field list" where
  "Verify_FillOptions = []"

definition Verify_FloorModOptions :: "fb_field list" where
  "Verify_FloorModOptions = []"

definition Verify_RangeOptions :: "fb_field list" where
  "Verify_RangeOptions = []"

definition Verify_LeakyReluOptions :: "fb_field list" where
  "Verify_LeakyReluOptions = [Scalar F32 4]"

definition Verify_SquaredDifferenceOptions :: "fb_field list" where
  "Verify_SquaredDifferenceOptions = []"

definition Verify_MirrorPadOptions :: "fb_field list" where
  "Verify_MirrorPadOptions = [Scalar I8 4]"

definition Verify_UniqueOptions :: "fb_field list" where
  "Verify_UniqueOptions = [Scalar I8 4]"

definition Verify_ReverseV2Options :: "fb_field list" where
  "Verify_ReverseV2Options = []"

definition Verify_AddNOptions :: "fb_field list" where
  "Verify_AddNOptions = []"

definition Verify_GatherNdOptions :: "fb_field list" where
  "Verify_GatherNdOptions = []"

definition Verify_WhereOptions :: "fb_field list" where
  "Verify_WhereOptions = []"

definition Verify_ReverseSequenceOptions :: "fb_field list" where
  "Verify_ReverseSequenceOptions = [Scalar I32 4, Scalar I32 6]"

definition Verify_MatrixDiagOptions :: "fb_field list" where
  "Verify_MatrixDiagOptions = []"

definition Verify_QuantizeOptions :: "fb_field list" where
  "Verify_QuantizeOptions = []"

definition Verify_MatrixSetDiagOptions :: "fb_field list" where
  "Verify_MatrixSetDiagOptions = []"

definition Verify_IfOptions :: "fb_field list" where
  "Verify_IfOptions = [Scalar I32 4, Scalar I32 6]"

definition Verify_CallOnceOptions :: "fb_field list" where
  "Verify_CallOnceOptions = [Scalar I32 4]"

definition Verify_WhileOptions :: "fb_field list" where
  "Verify_WhileOptions = [Scalar I32 4, Scalar I32 6]"

definition Verify_NonMaxSuppressionV4Options :: "fb_field list" where
  "Verify_NonMaxSuppressionV4Options = []"

definition Verify_NonMaxSuppressionV5Options :: "fb_field list" where
  "Verify_NonMaxSuppressionV5Options = []"

definition Verify_ScatterNdOptions :: "fb_field list" where
  "Verify_ScatterNdOptions = []"

definition Verify_SelectV2Options :: "fb_field list" where
  "Verify_SelectV2Options = []"

definition Verify_DensifyOptions :: "fb_field list" where
  "Verify_DensifyOptions = []"

definition Verify_SegmentSumOptions :: "fb_field list" where
  "Verify_SegmentSumOptions = []"

definition Verify_BatchMatMulOptions :: "fb_field list" where
  "Verify_BatchMatMulOptions = [Scalar U8 4, Scalar U8 6, Scalar U8 8]"

definition Verify_CumsumOptions :: "fb_field list" where
  "Verify_CumsumOptions = [Scalar U8 4, Scalar U8 6]"

definition Verify_BroadcastToOptions :: "fb_field list" where
  "Verify_BroadcastToOptions = []"

definition Verify_Rfft2dOptions :: "fb_field list" where
  "Verify_Rfft2dOptions = []"

definition Verify_HashtableOptions :: "fb_field list" where
  "Verify_HashtableOptions = [Scalar I32 4, Scalar I8 6, Scalar I8 8]"

definition Verify_HashtableFindOptions :: "fb_field list" where
  "Verify_HashtableFindOptions = []"

definition Verify_HashtableImportOptions :: "fb_field list" where
  "Verify_HashtableImportOptions = []"

definition Verify_HashtableSizeOptions :: "fb_field list" where
  "Verify_HashtableSizeOptions = []"

definition Verify_OperatorCode :: "fb_field list" where
  "Verify_OperatorCode = [Scalar I8 4, Text 6, Scalar I32 8, Scalar I32 10]"

definition BuiltinOptions_alternatives :: "(int \<times> fb_field list) list" where
  "BuiltinOptions_alternatives =
     [(1, Verify_Conv2DOptions),
      (2, Verify_DepthwiseConv2DOptions),
      (3, Verify_ConcatEmbeddingsOptions),
      (4, Verify_LSHProjectionOptions),
      (5, Verify_Pool2DOptions),
      (6, Verify_SVDFOptions),
      (7, Verify_RNNOptions),
      (8, Verify_FullyConnectedOptions),
      (9, Verify_SoftmaxOptions),
      (10, Verify_ConcatenationOptions),
      (11, Verify_AddOptions),
      (12, Verify_L2NormOptions),
      (13, Verify_LocalResponseNormalizationOptions),
      (14, Verify_LSTMOptions),
      (15, Verify_ResizeBilinearOptions),
      (16, Verify_CallOptions),
      (17, Verify_ReshapeOptions),
      (18, Verify_SkipGramOptions),
      (19, Verify_SpaceToDepthOptions),
      (20, Verify_EmbeddingLookupSparseOptions),
      (21, Verify_MulOptions),
      (22, Verify_PadOptions),
      (23, Verify_GatherOptions),
      (24, Verify_BatchToSpaceNDOptions),
      (25, Verify_SpaceToBatchNDOptions),
      (26, Verify_TransposeOptions),
      (27, Verify_ReducerOptions),
      (28, Verify_SubOptions),
      (29, Verify_DivOptions),
      (30, Verify_SqueezeOptions),
      (31, Verify_SequenceRNNOptions),
      (32, Verify_StridedSliceOptions),
      (33, Verify_ExpOptions),
      (34, Verify_TopKV2Options),
      (35, Verify_SplitOptions),
      (36, Verify_LogSoftmaxOptions),
      (37, Verify_CastOptions),
      (38, Verify_DequantizeOptions),
      (39, Verify_MaximumMinimumOptions),
      (40, Verify_ArgMaxOptions),
      (41, Verify_LessOptions),
      (42, Verify_NegOptions),
      (43, Verify_PadV2Options),
      (44, Verify_GreaterOptions),
      (45, Verify_GreaterEqualOptions),
      (46, Verify_LessEqualOptions),
      (47, Verify_SelectOptions),
      (48, Verify_SliceOptions),
      (49, Verify_TransposeConvOptions),
      (50, Verify_SparseToDenseOptions),
      (51, Verify_TileOptions),
      (52, Verify_ExpandDimsOptions),
      (53, Verify_EqualOptions),
      (54, Verify_NotEqualOptions),
      (55, Verify_ShapeOptions),
      (56, Verify_PowOptions),
      (57, Verify_ArgMinOptions),
      (58, Verify_FakeQuantOptions),
      (59, Verify_PackOptions),
      (60, Verify_LogicalOrOptions),
      (61, Verify_OneHotOptions),
      (62, Verify_LogicalAndOptions),
      (63, Verify_LogicalNotOptions),
      (64, Verify_UnpackOptions),
      (65, Verify_FloorDivOptions),
      (66, Verify_SquareOptions),
      (67, Verify_ZerosLikeOptions),
      (68, Verify_FillOptions),
      (69, Verify_BidirectionalSequenceLSTMOptions),
      (70, Verify_BidirectionalSequenceRNNOptions),
      (71, Verify_UnidirectionalSequenceLSTMOptions),
      (72, Verify_FloorModOptions),
      (73, Verify_RangeOptions),
      (74, Verify_ResizeNearestNeighborOptions),
      (75, Verify_LeakyReluOptions),
      (76, Verify_SquaredDifferenceOptions),
      (77, Verify_MirrorPadOptions),
      (78, Verify_AbsOptions),
      (79, Verify_SplitVOptions),
      (80, Verify_UniqueOptions),
      (81, Verify_ReverseV2Options),
      (82, Verify_AddNOptions),
      (83, Verify_GatherNdOptions),
      (84, Verify_CosOptions),
      (85, Verify_WhereOptions),
      (86, Verify_RankOptions),
      (87, Verify_ReverseSequenceOptions),
      (88, Verify_MatrixDiagOptions),
      (89, Verify_QuantizeOptions),
      (90, Verify_MatrixSetDiagOptions),
      (91, Verify_HardSwishOptions),
      (92, Verify_IfOptions),
      (93, Verify_WhileOptions),
      (94, Verify_DepthToSpaceOptions),
      (95, Verify_NonMaxSuppressionV4Options),
      (96, Verify_NonMaxSuppressionV5Options),
      (97, Verify_ScatterNdOptions),
      (98, Verify_SelectV2Options),
      (99, Verify_DensifyOptions),
      (100, Verify_SegmentSumOptions),
      (101, Verify_BatchMatMulOptions),
      (102, Verify_CumsumOptions),
      (103, Verify_CallOnceOptions),
      (104, Verify_BroadcastToOptions),
      (105, Verify_Rfft2dOptions),
      (106, Verify_Conv3DOptions),
      (107, Verify_HashtableOptions),
      (108, Verify_HashtableFindOptions),
      (109, Verify_HashtableImportOptions),
      (110, Verify_HashtableSizeOptions)]"

definition Verify_Operator :: "fb_field list" where
  "Verify_Operator = [Scalar U32 4, Scalars I32 6, Scalars I32 8, Union 10 12 BuiltinOptions_alternatives, Scalars U8 14,
     Scalar I8 16, Scalars U8 18, Scalars I32 20]"

definition Verify_SubGraph :: "fb_field list" where
  "Verify_SubGraph = [Subtables 4 Verify_Tensor, Scalars I32 6, Scalars I32 8, Subtables 10 Verify_Operator, Text 12]"

definition Verify_Buffer :: "fb_field list" where
  "Verify_Buffer = [Scalars U8 4]"

definition Verify_Metadata :: "fb_field list" where
  "Verify_Metadata = [Text 4, Scalar U32 6]"

definition Verify_TensorMap :: "fb_field list" where
  "Verify_TensorMap = [Text 4, Scalar U32 6]"

definition Verify_SignatureDef :: "fb_field list" where
  "Verify_SignatureDef = [Subtables 4 Verify_TensorMap, Subtables 6 Verify_TensorMap, Text 8, Text 10]"

definition Verify_Model :: "fb_field list" where
  "Verify_Model = [Scalar U32 4, Subtables 6 Verify_OperatorCode, Subtables 8 Verify_SubGraph, Text 10,
     Subtables 12 Verify_Buffer, Scalars I32 14, Subtables 16 Verify_Metadata, Subtables 18 Verify_SignatureDef]"

lemmas schema_verify_defs =
  Verify_CustomQuantization_def QuantizationDetails_alternatives_def Verify_QuantizationParameters_def
  Verify_Int32Vector_def Verify_Uint16Vector_def Verify_Uint8Vector_def
  SparseIndexVector_alternatives_def Verify_DimensionMetadata_def Verify_SparsityParameters_def
  Verify_Tensor_def Verify_Conv2DOptions_def Verify_Conv3DOptions_def
  Verify_Pool2DOptions_def Verify_DepthwiseConv2DOptions_def Verify_ConcatEmbeddingsOptions_def
  Verify_LSHProjectionOptions_def Verify_SVDFOptions_def Verify_RNNOptions_def
  Verify_SequenceRNNOptions_def Verify_BidirectionalSequenceRNNOptions_def Verify_FullyConnectedOptions_def
  Verify_SoftmaxOptions_def Verify_ConcatenationOptions_def Verify_AddOptions_def
  Verify_MulOptions_def Verify_L2NormOptions_def Verify_LocalResponseNormalizationOptions_def
  Verify_LSTMOptions_def Verify_UnidirectionalSequenceLSTMOptions_def Verify_BidirectionalSequenceLSTMOptions_def
  Verify_ResizeBilinearOptions_def Verify_ResizeNearestNeighborOptions_def Verify_CallOptions_def
  Verify_PadOptions_def Verify_PadV2Options_def Verify_ReshapeOptions_def
  Verify_SpaceToBatchNDOptions_def Verify_BatchToSpaceNDOptions_def Verify_SkipGramOptions_def
  Verify_SpaceToDepthOptions_def Verify_DepthToSpaceOptions_def Verify_SubOptions_def
  Verify_DivOptions_def Verify_TopKV2Options_def Verify_EmbeddingLookupSparseOptions_def
  Verify_GatherOptions_def Verify_TransposeOptions_def Verify_ExpOptions_def
  Verify_CosOptions_def Verify_ReducerOptions_def Verify_SqueezeOptions_def
  Verify_SplitOptions_def Verify_SplitVOptions_def Verify_StridedSliceOptions_def
  Verify_LogSoftmaxOptions_def Verify_CastOptions_def Verify_DequantizeOptions_def
  Verify_MaximumMinimumOptions_def Verify_TileOptions_def Verify_ArgMaxOptions_def
  Verify_ArgMinOptions_def Verify_GreaterOptions_def Verify_GreaterEqualOptions_def
  Verify_LessOptions_def Verify_LessEqualOptions_def Verify_NegOptions_def
  Verify_SelectOptions_def Verify_SliceOptions_def Verify_TransposeConvOptions_def
  Verify_ExpandDimsOptions_def Verify_SparseToDenseOptions_def Verify_EqualOptions_def
  Verify_NotEqualOptions_def Verify_ShapeOptions_def Verify_RankOptions_def
  Verify_PowOptions_def Verify_FakeQuantOptions_def Verify_PackOptions_def
  Verify_LogicalOrOptions_def Verify_OneHotOptions_def Verify_AbsOptions_def
  Verify_HardSwishOptions_def Verify_LogicalAndOptions_def Verify_LogicalNotOptions_def
  Verify_UnpackOptions_def Verify_FloorDivOptions_def Verify_SquareOptions_def
  Verify_ZerosLikeOptions_def Verify_FillOptions_def Verify_FloorModOptions_def
  Verify_RangeOptions_def Verify_LeakyReluOptions_def Verify_SquaredDifferenceOptions_def
  Verify_MirrorPadOptions_def Verify_UniqueOptions_def Verify_ReverseV2Options_def
  Verify_AddNOptions_def Verify_GatherNdOptions_def Verify_WhereOptions_def
  Verify_ReverseSequenceOptions_def Verify_MatrixDiagOptions_def Verify_QuantizeOptions_def
  Verify_MatrixSetDiagOptions_def Verify_IfOptions_def Verify_CallOnceOptions_def
  Verify_WhileOptions_def Verify_NonMaxSuppressionV4Options_def Verify_NonMaxSuppressionV5Options_def
  Verify_ScatterNdOptions_def Verify_SelectV2Options_def Verify_DensifyOptions_def
  Verify_SegmentSumOptions_def Verify_BatchMatMulOptions_def Verify_CumsumOptions_def
  Verify_BroadcastToOptions_def Verify_Rfft2dOptions_def Verify_HashtableOptions_def
  Verify_HashtableFindOptions_def Verify_HashtableImportOptions_def Verify_HashtableSizeOptions_def
  Verify_OperatorCode_def BuiltinOptions_alternatives_def Verify_Operator_def
  Verify_SubGraph_def Verify_Buffer_def Verify_Metadata_def
  Verify_TensorMap_def Verify_SignatureDef_def Verify_Model_def

section \<open>Model files\<close>

definition ModelIdentifier :: bytes where
  "ModelIdentifier = map (\<lambda>c. word_of_nat (of_char c)) ''TFL3''"

definition VerifyModelBuffer :: "verifier \<Rightarrow> (bool \<times> verifier) res" where
  "VerifyModelBuffer v = VerifyBuffer (verify_table Verify_Model) (Some ModelIdentifier) v"

definition VerifySizePrefixedModelBuffer :: "verifier \<Rightarrow> (bool \<times> verifier) res" where
  "VerifySizePrefixedModelBuffer v = VerifySizePrefixedBuffer (verify_table Verify_Model) (Some ModelIdentifier) v"

lemma model_wf: "list_all wf_field Verify_Model"
  by (simp add: schema_verify_defs)

lemma model_sound: "table_sound (verify_table Verify_Model) (read_table Verify_Model)"
  by (rule verify_table_sound[OF model_wf])

lemma VerifyModelBuffer_runs:
  assumes "vsafe v"
  shows "runs (VerifyModelBuffer v) v (\<lambda>v'. \<exists>root x. GetRoot (vf_buf v) 0 = Inr root \<and> read_table Verify_Model (vf_buf v) root = Inr x \<and>
    counted v v' (tables_in x))"
  unfolding VerifyModelBuffer_def VerifyBuffer_def by (rule VerifyBufferFromStart_runs[OF model_sound assms]) simp_all

end
