(* ===== verification/Schema_Create.thy ===== *)
theory Schema_Create
  imports Builder_Objects Schema_Verify
begin

text \<open>
  The generated functions that build the tables of the TensorFlow Lite schema (\<^verbatim>\<open>schema/schema_generated.h\<close>). A function \<^verbatim>\<open>CreateT\<close> starts a
  table, adds its fields with the methods of \<^verbatim>\<open>TBuilder\<close> in a fixed order and ends it: it is the list of the fields it adds, which
  \<open>create_table\<close> runs. Enumerations and booleans are their numbers, floating-point numbers their bit patterns, and an offset of zero is a null
  offset. A function \<^verbatim>\<open>CreateTDirect\<close> builds the vectors and strings of the table first.
\<close>

section \<open>The tables\<close>

definition Create_CustomQuantization :: "int \<Rightarrow> field_add list" where
  "Create_CustomQuantization custom = [Refer 4 custom]"

definition Create_QuantizationParameters :: "int \<Rightarrow> int \<Rightarrow> int \<Rightarrow> int \<Rightarrow> int \<Rightarrow> int \<Rightarrow> int \<Rightarrow> field_add list" where
  "Create_QuantizationParameters vmin vmax scale zero_point details_type details quantized_dimension =
     [Element I32 16 quantized_dimension 0, Refer 14 details, Refer 10 zero_point, Refer 8 scale, Refer 6 vmax, Refer 4 vmin, Element U8 12 details_type 0]"

definition Create_Int32Vector :: "int \<Rightarrow> field_add list" where
  "Create_Int32Vector values = [Refer 4 values]"

definition Create_Uint16Vector :: "int \<Rightarrow> field_add list" where
  "Create_Uint16Vector values = [Refer 4 values]"

definition Create_Uint8Vector :: "int \<Rightarrow> field_add list" where
  "Create_Uint8Vector values = [Refer 4 values]"

definition Create_DimensionMetadata :: "int \<Rightarrow> int \<Rightarrow> int \<Rightarrow> int \<Rightarrow> int \<Rightarrow> int \<Rightarrow> field_add list" where
  "Create_DimensionMetadata format dense_size array_segments_type array_segments array_indices_type array_indices =
     [Refer 14 array_indices, Refer 10 array_segments, Element I32 6 dense_size 0, Element U8 12 array_indices_type 0, Element U8 8 array_segments_type 0,
      Element I8 4 format 0]"

definition Create_SparsityParameters :: "int \<Rightarrow> int \<Rightarrow> int \<Rightarrow> field_add list" where
  "Create_SparsityParameters traversal_order block_map dim_metadata = [Refer 8 dim_metadata, Refer 6 block_map, Refer 4 traversal_order]"

definition Create_Tensor :: "int \<Rightarrow> int \<Rightarrow> int \<Rightarrow> int \<Rightarrow> int \<Rightarrow> int \<Rightarrow> int \<Rightarrow> int \<Rightarrow> field_add list" where
  "Create_Tensor shape type buffer name quantization is_variable sparsity shape_signature =
     [Refer 18 shape_signature, Refer 16 sparsity, Refer 12 quantization, Refer 10 name, Element U32 8 buffer 0, Refer 4 shape,
      Element U8 14 is_variable 0, Element I8 6 type 0]"

definition Create_Conv2DOptions :: "int \<Rightarrow> int \<Rightarrow> int \<Rightarrow> int \<Rightarrow> int \<Rightarrow> int \<Rightarrow> field_add list" where
  "Create_Conv2DOptions padding stride_w stride_h fused_activation_function dilation_w_factor dilation_h_factor =
     [Element I32 14 dilation_h_factor 1, Element I32 12 dilation_w_factor 1, Element I32 8 stride_h 0, Element I32 6 stride_w 0,
      Element I8 10 fused_activation_function 0, Element I8 4 padding 0]"

definition Create_Conv3DOptions :: "int \<Rightarrow> int \<Rightarrow> int \<Rightarrow> int \<Rightarrow> int \<Rightarrow> int \<Rightarrow> int \<Rightarrow> int \<Rightarrow> field_add list" where
  "Create_Conv3DOptions padding stride_d stride_w stride_h fused_activation_function dilation_d_factor dilation_w_factor dilation_h_factor =
     [Element I32 18 dilation_h_factor 1, Element I32 16 dilation_w_factor 1, Element I32 14 dilation_d_factor 1, Element I32 10 stride_h 0,
      Element I32 8 stride_w 0, Element I32 6 stride_d 0, Element I8 12 fused_activation_function 0, Element I8 4 padding 0]"

definition Create_Pool2DOptions :: "int \<Rightarrow> int \<Rightarrow> int \<Rightarrow> int \<Rightarrow> int \<Rightarrow> int \<Rightarrow> field_add list" where
  "Create_Pool2DOptions padding stride_w stride_h filter_width filter_height fused_activation_function =
     [Element I32 12 filter_height 0, Element I32 10 filter_width 0, Element I32 8 stride_h 0, Element I32 6 stride_w 0,
      Element I8 14 fused_activation_function 0, Element I8 4 padding 0]"

definition Create_DepthwiseConv2DOptions :: "int \<Rightarrow> int \<Rightarrow> int \<Rightarrow> int \<Rightarrow> int \<Rightarrow> int \<Rightarrow> int \<Rightarrow> field_add list" where
  "Create_DepthwiseConv2DOptions padding stride_w stride_h depth_multiplier fused_activation_function dilation_w_factor dilation_h_factor =
     [Element I32 16 dilation_h_factor 1, Element I32 14 dilation_w_factor 1, Element I32 10 depth_multiplier 0, Element I32 8 stride_h 0,
      Element I32 6 stride_w 0, Element I8 12 fused_activation_function 0, Element I8 4 padding 0]"

definition Create_ConcatEmbeddingsOptions :: "int \<Rightarrow> int \<Rightarrow> int \<Rightarrow> field_add list" where
  "Create_ConcatEmbeddingsOptions num_channels num_columns_per_channel embedding_dim_per_channel = [Refer 8 embedding_dim_per_channel, Refer 6 num_columns_per_channel, Element I32 4 num_channels 0]"

definition Create_LSHProjectionOptions :: "int \<Rightarrow> field_add list" where
  "Create_LSHProjectionOptions type = [Element I8 4 type 0]"

definition Create_SVDFOptions :: "int \<Rightarrow> int \<Rightarrow> int \<Rightarrow> field_add list" where
  "Create_SVDFOptions rank fused_activation_function asymmetric_quantize_inputs = [Element I32 4 rank 0, Element U8 8 asymmetric_quantize_inputs 0, Element I8 6 fused_activation_function 0]"

definition Create_RNNOptions :: "int \<Rightarrow> int \<Rightarrow> field_add list" where
  "Create_RNNOptions fused_activation_function asymmetric_quantize_inputs = [Element U8 6 asymmetric_quantize_inputs 0, Element I8 4 fused_activation_function 0]"

definition Create_SequenceRNNOptions :: "int \<Rightarrow> int \<Rightarrow> int \<Rightarrow> field_add list" where
  "Create_SequenceRNNOptions time_major fused_activation_function asymmetric_quantize_inputs = [Element U8 8 asymmetric_quantize_inputs 0, Element I8 6 fused_activation_function 0, Element U8 4 time_major 0]"

definition Create_BidirectionalSequenceRNNOptions :: "int \<Rightarrow> int \<Rightarrow> int \<Rightarrow> int \<Rightarrow> field_add list" where
  "Create_BidirectionalSequenceRNNOptions time_major fused_activation_function merge_outputs asymmetric_quantize_inputs =
     [Element U8 10 asymmetric_quantize_inputs 0, Element U8 8 merge_outputs 0, Element I8 6 fused_activation_function 0, Element U8 4 time_major 0]"

definition Create_FullyConnectedOptions :: "int \<Rightarrow> int \<Rightarrow> int \<Rightarrow> int \<Rightarrow> field_add list" where
  "Create_FullyConnectedOptions fused_activation_function weights_format keep_num_dims asymmetric_quantize_inputs =
     [Element U8 10 asymmetric_quantize_inputs 0, Element U8 8 keep_num_dims 0, Element I8 6 weights_format 0, Element I8 4 fused_activation_function 0]"

definition Create_SoftmaxOptions :: "int \<Rightarrow> field_add list" where
  "Create_SoftmaxOptions beta = [Element F32 4 beta 0]"

definition Create_ConcatenationOptions :: "int \<Rightarrow> int \<Rightarrow> field_add list" where
  "Create_ConcatenationOptions axis fused_activation_function = [Element I32 4 axis 0, Element I8 6 fused_activation_function 0]"

definition Create_AddOptions :: "int \<Rightarrow> int \<Rightarrow> field_add list" where
  "Create_AddOptions fused_activation_function pot_scale_int16 = [Element U8 6 pot_scale_int16 1, Element I8 4 fused_activation_function 0]"

definition Create_MulOptions :: "int \<Rightarrow> field_add list" where
  "Create_MulOptions fused_activation_function = [Element I8 4 fused_activation_function 0]"

definition Create_L2NormOptions :: "int \<Rightarrow> field_add list" where
  "Create_L2NormOptions fused_activation_function = [Element I8 4 fused_activation_function 0]"

definition Create_LocalResponseNormalizationOptions :: "int \<Rightarrow> int \<Rightarrow> int \<Rightarrow> int \<Rightarrow> field_add list" where
  "Create_LocalResponseNormalizationOptions radius bias alpha beta =
     [Element F32 10 beta 0, Element F32 8 alpha 0, Element F32 6 bias 0, Element I32 4 radius 0]"

definition Create_LSTMOptions :: "int \<Rightarrow> int \<Rightarrow> int \<Rightarrow> int \<Rightarrow> int \<Rightarrow> field_add list" where
  "Create_LSTMOptions fused_activation_function cell_clip proj_clip kernel_type asymmetric_quantize_inputs =
     [Element F32 8 proj_clip 0, Element F32 6 cell_clip 0, Element U8 12 asymmetric_quantize_inputs 0, Element I8 10 kernel_type 0,
      Element I8 4 fused_activation_function 0]"

definition Create_UnidirectionalSequenceLSTMOptions :: "int \<Rightarrow> int \<Rightarrow> int \<Rightarrow> int \<Rightarrow> int \<Rightarrow> field_add list" where
  "Create_UnidirectionalSequenceLSTMOptions fused_activation_function cell_clip proj_clip time_major asymmetric_quantize_inputs =
     [Element F32 8 proj_clip 0, Element F32 6 cell_clip 0, Element U8 12 asymmetric_quantize_inputs 0, Element U8 10 time_major 0,
      Element I8 4 fused_activation_function 0]"

definition Create_BidirectionalSequenceLSTMOptions :: "int \<Rightarrow> int \<Rightarrow> int \<Rightarrow> int \<Rightarrow> int \<Rightarrow> int \<Rightarrow> field_add list" where
  "Create_BidirectionalSequenceLSTMOptions fused_activation_function cell_clip proj_clip merge_outputs time_major asymmetric_quantize_inputs =
     [Element F32 8 proj_clip 0, Element F32 6 cell_clip 0, Element U8 14 asymmetric_quantize_inputs 0, Element U8 12 time_major 1,
      Element U8 10 merge_outputs 0, Element I8 4 fused_activation_function 0]"

definition Create_ResizeBilinearOptions :: "int \<Rightarrow> int \<Rightarrow> field_add list" where
  "Create_ResizeBilinearOptions align_corners half_pixel_centers = [Element U8 10 half_pixel_centers 0, Element U8 8 align_corners 0]"

definition Create_ResizeNearestNeighborOptions :: "int \<Rightarrow> int \<Rightarrow> field_add list" where
  "Create_ResizeNearestNeighborOptions align_corners half_pixel_centers = [Element U8 6 half_pixel_centers 0, Element U8 4 align_corners 0]"

definition Create_CallOptions :: "int \<Rightarrow> field_add list" where
  "Create_CallOptions subgraph = [Element U32 4 subgraph 0]"

definition Create_PadOptions :: "field_add list" where
  "Create_PadOptions = []"

definition Create_PadV2Options :: "field_add list" where
  "Create_PadV2Options = []"

definition Create_ReshapeOptions :: "int \<Rightarrow> field_add list" where
  "Create_ReshapeOptions new_shape = [Refer 4 new_shape]"

definition Create_SpaceToBatchNDOptions :: "field_add list" where
  "Create_SpaceToBatchNDOptions = []"

definition Create_BatchToSpaceNDOptions :: "field_add list" where
  "Create_BatchToSpaceNDOptions = []"

definition Create_SkipGramOptions :: "int \<Rightarrow> int \<Rightarrow> int \<Rightarrow> field_add list" where
  "Create_SkipGramOptions ngram_size max_skip_size include_all_ngrams = [Element I32 6 max_skip_size 0, Element I32 4 ngram_size 0, Element U8 8 include_all_ngrams 0]"

definition Create_SpaceToDepthOptions :: "int \<Rightarrow> field_add list" where
  "Create_SpaceToDepthOptions block_size = [Element I32 4 block_size 0]"

definition Create_DepthToSpaceOptions :: "int \<Rightarrow> field_add list" where
  "Create_DepthToSpaceOptions block_size = [Element I32 4 block_size 0]"

definition Create_SubOptions :: "int \<Rightarrow> int \<Rightarrow> field_add list" where
  "Create_SubOptions fused_activation_function pot_scale_int16 = [Element U8 6 pot_scale_int16 1, Element I8 4 fused_activation_function 0]"

definition Create_DivOptions :: "int \<Rightarrow> field_add list" where
  "Create_DivOptions fused_activation_function = [Element I8 4 fused_activation_function 0]"

definition Create_TopKV2Options :: "field_add list" where
  "Create_TopKV2Options = []"

definition Create_EmbeddingLookupSparseOptions :: "int \<Rightarrow> field_add list" where
  "Create_EmbeddingLookupSparseOptions combiner = [Element I8 4 combiner 0]"

definition Create_GatherOptions :: "int \<Rightarrow> int \<Rightarrow> field_add list" where
  "Create_GatherOptions axis batch_dims = [Element I32 6 batch_dims 0, Element I32 4 axis 0]"

definition Create_TransposeOptions :: "field_add list" where
  "Create_TransposeOptions = []"

definition Create_ExpOptions :: "field_add list" where
  "Create_ExpOptions = []"

definition Create_CosOptions :: "field_add list" where
  "Create_CosOptions = []"

definition Create_ReducerOptions :: "int \<Rightarrow> field_add list" where
  "Create_ReducerOptions keep_dims = [Element U8 4 keep_dims 0]"

definition Create_SqueezeOptions :: "int \<Rightarrow> field_add list" where
  "Create_SqueezeOptions squeeze_dims = [Refer 4 squeeze_dims]"

definition Create_SplitOptions :: "int \<Rightarrow> field_add list" where
  "Create_SplitOptions num_splits = [Element I32 4 num_splits 0]"

definition Create_SplitVOptions :: "int \<Rightarrow> field_add list" where
  "Create_SplitVOptions num_splits = [Element I32 4 num_splits 0]"

definition Create_StridedSliceOptions :: "int \<Rightarrow> int \<Rightarrow> int \<Rightarrow> int \<Rightarrow> int \<Rightarrow> field_add list" where
  "Create_StridedSliceOptions begin_mask end_mask ellipsis_mask new_axis_mask shrink_axis_mask =
     [Element I32 12 shrink_axis_mask 0, Element I32 10 new_axis_mask 0, Element I32 8 ellipsis_mask 0, Element I32 6 end_mask 0, Element I32 4 begin_mask 0]"

definition Create_LogSoftmaxOptions :: "field_add list" where
  "Create_LogSoftmaxOptions = []"

definition Create_CastOptions :: "int \<Rightarrow> int \<Rightarrow> field_add list" where
  "Create_CastOptions in_data_type out_data_type = [Element I8 6 out_data_type 0, Element I8 4 in_data_type 0]"

definition Create_DequantizeOptions :: "field_add list" where
  "Create_DequantizeOptions = []"

definition Create_MaximumMinimumOptions :: "field_add list" where
  "Create_MaximumMinimumOptions = []"

definition Create_TileOptions :: "field_add list" where
  "Create_TileOptions = []"

definition Create_ArgMaxOptions :: "int \<Rightarrow> field_add list" where
  "Create_ArgMaxOptions output_type = [Element I8 4 output_type 0]"

definition Create_ArgMinOptions :: "int \<Rightarrow> field_add list" where
  "Create_ArgMinOptions output_type = [Element I8 4 output_type 0]"

definition Create_GreaterOptions :: "field_add list" where
  "Create_GreaterOptions = []"

definition Create_GreaterEqualOptions :: "field_add list" where
  "Create_GreaterEqualOptions = []"

definition Create_LessOptions :: "field_add list" where
  "Create_LessOptions = []"

definition Create_LessEqualOptions :: "field_add list" where
  "Create_LessEqualOptions = []"

definition Create_NegOptions :: "field_add list" where
  "Create_NegOptions = []"

definition Create_SelectOptions :: "field_add list" where
  "Create_SelectOptions = []"

definition Create_SliceOptions :: "field_add list" where
  "Create_SliceOptions = []"

definition Create_TransposeConvOptions :: "int \<Rightarrow> int \<Rightarrow> int \<Rightarrow> field_add list" where
  "Create_TransposeConvOptions padding stride_w stride_h = [Element I32 8 stride_h 0, Element I32 6 stride_w 0, Element I8 4 padding 0]"

definition Create_ExpandDimsOptions :: "field_add list" where
  "Create_ExpandDimsOptions = []"

definition Create_SparseToDenseOptions :: "int \<Rightarrow> field_add list" where
  "Create_SparseToDenseOptions validate_indices = [Element U8 4 validate_indices 0]"

definition Create_EqualOptions :: "field_add list" where
  "Create_EqualOptions = []"

definition Create_NotEqualOptions :: "field_add list" where
  "Create_NotEqualOptions = []"

definition Create_ShapeOptions :: "int \<Rightarrow> field_add list" where
  "Create_ShapeOptions out_type = [Element I8 4 out_type 0]"

definition Create_RankOptions :: "field_add list" where
  "Create_RankOptions = []"

definition Create_PowOptions :: "field_add list" where
  "Create_PowOptions = []"

definition Create_FakeQuantOptions :: "int \<Rightarrow> int \<Rightarrow> int \<Rightarrow> int \<Rightarrow> field_add list" where
  "Create_FakeQuantOptions vmin vmax num_bits narrow_range =
     [Element I32 8 num_bits 0, Element F32 6 vmax 0, Element F32 4 vmin 0, Element U8 10 narrow_range 0]"

definition Create_PackOptions :: "int \<Rightarrow> int \<Rightarrow> field_add list" where
  "Create_PackOptions values_count axis = [Element I32 6 axis 0, Element I32 4 values_count 0]"

definition Create_LogicalOrOptions :: "field_add list" where
  "Create_LogicalOrOptions = []"

definition Create_OneHotOptions :: "int \<Rightarrow> field_add list" where
  "Create_OneHotOptions axis = [Element I32 4 axis 0]"

definition Create_AbsOptions :: "field_add list" where
  "Create_AbsOptions = []"

definition Create_HardSwishOptions :: "field_add list" where
  "Create_HardSwishOptions = []"

definition Create_LogicalAndOptions :: "field_add list" where
  "Create_LogicalAndOptions = []"

definition Create_LogicalNotOptions :: "field_add list" where
  "Create_LogicalNotOptions = []"

definition Create_UnpackOptions :: "int \<Rightarrow> int \<Rightarrow> field_add list" where
  "Create_UnpackOptions num axis = [Element I32 6 axis 0, Element I32 4 num 0]"

definition Create_FloorDivOptions :: "field_add list" where
  "Create_FloorDivOptions = []"

definition Create_SquareOptions :: "field_add list" where
  "Create_SquareOptions = []"

definition Create_ZerosLikeOptions :: "field_add list" where
  "Create_ZerosLikeOptions = []"

definition Create_FillOptions :: "field_add list" where
  "Create_FillOptions = []"

definition Create_FloorModOptions :: "field_add list" where
  "Create_FloorModOptions = []"

definition Create_RangeOptions :: "field_add list" where
  "Create_RangeOptions = []"

definition Create_LeakyReluOptions :: "int \<Rightarrow> field_add list" where
  "Create_LeakyReluOptions alpha = [Element F32 4 alpha 0]"

definition Create_SquaredDifferenceOptions :: "field_add list" where
  "Create_SquaredDifferenceOptions = []"

definition Create_MirrorPadOptions :: "int \<Rightarrow> field_add list" where
  "Create_MirrorPadOptions mode = [Element I8 4 mode 0]"

definition Create_UniqueOptions :: "int \<Rightarrow> field_add list" where
  "Create_UniqueOptions idx_out_type = [Element I8 4 idx_out_type 2]"

definition Create_ReverseV2Options :: "field_add list" where
  "Create_ReverseV2Options = []"

definition Create_AddNOptions :: "field_add list" where
  "Create_AddNOptions = []"

definition Create_GatherNdOptions :: "field_add list" where
  "Create_GatherNdOptions = []"

definition Create_WhereOptions :: "field_add list" where
  "Create_WhereOptions = []"

definition Create_ReverseSequenceOptions :: "int \<Rightarrow> int \<Rightarrow> field_add list" where
  "Create_ReverseSequenceOptions seq_dim batch_dim = [Element I32 6 batch_dim 0, Element I32 4 seq_dim 0]"

definition Create_MatrixDiagOptions :: "field_add list" where
  "Create_MatrixDiagOptions = []"

definition Create_QuantizeOptions :: "field_add list" where
  "Create_QuantizeOptions = []"

definition Create_MatrixSetDiagOptions :: "field_add list" where
  "Create_MatrixSetDiagOptions = []"

definition Create_IfOptions :: "int \<Rightarrow> int \<Rightarrow> field_add list" where
  "Create_IfOptions then_subgraph_index else_subgraph_index = [Element I32 6 else_subgraph_index 0, Element I32 4 then_subgraph_index 0]"

definition Create_CallOnceOptions :: "int \<Rightarrow> field_add list" where
  "Create_CallOnceOptions init_subgraph_index = [Element I32 4 init_subgraph_index 0]"

definition Create_WhileOptions :: "int \<Rightarrow> int \<Rightarrow> field_add list" where
  "Create_WhileOptions cond_subgraph_index body_subgraph_index = [Element I32 6 body_subgraph_index 0, Element I32 4 cond_subgraph_index 0]"

definition Create_NonMaxSuppressionV4Options :: "field_add list" where
  "Create_NonMaxSuppressionV4Options = []"

definition Create_NonMaxSuppressionV5Options :: "field_add list" where
  "Create_NonMaxSuppressionV5Options = []"

definition Create_ScatterNdOptions :: "field_add list" where
  "Create_ScatterNdOptions = []"

definition Create_SelectV2Options :: "field_add list" where
  "Create_SelectV2Options = []"

definition Create_DensifyOptions :: "field_add list" where
  "Create_DensifyOptions = []"

definition Create_SegmentSumOptions :: "field_add list" where
  "Create_SegmentSumOptions = []"

definition Create_BatchMatMulOptions :: "int \<Rightarrow> int \<Rightarrow> int \<Rightarrow> field_add list" where
  "Create_BatchMatMulOptions adj_x adj_y asymmetric_quantize_inputs = [Element U8 8 asymmetric_quantize_inputs 0, Element U8 6 adj_y 0, Element U8 4 adj_x 0]"

definition Create_CumsumOptions :: "int \<Rightarrow> int \<Rightarrow> field_add list" where
  "Create_CumsumOptions exclusive reverse = [Element U8 6 reverse 0, Element U8 4 exclusive 0]"

definition Create_BroadcastToOptions :: "field_add list" where
  "Create_BroadcastToOptions = []"

definition Create_Rfft2dOptions :: "field_add list" where
  "Create_Rfft2dOptions = []"

definition Create_HashtableOptions :: "int \<Rightarrow> int \<Rightarrow> int \<Rightarrow> field_add list" where
  "Create_HashtableOptions table_id key_dtype value_dtype = [Element I32 4 table_id 0, Element I8 8 value_dtype 0, Element I8 6 key_dtype 0]"

definition Create_HashtableFindOptions :: "field_add list" where
  "Create_HashtableFindOptions = []"

definition Create_HashtableImportOptions :: "field_add list" where
  "Create_HashtableImportOptions = []"

definition Create_HashtableSizeOptions :: "field_add list" where
  "Create_HashtableSizeOptions = []"

definition Create_OperatorCode :: "int \<Rightarrow> int \<Rightarrow> int \<Rightarrow> int \<Rightarrow> field_add list" where
  "Create_OperatorCode deprecated_builtin_code custom_code version builtin_code =
     [Element I32 10 builtin_code 0, Element I32 8 version 1, Refer 6 custom_code, Element I8 4 deprecated_builtin_code 0]"

definition Create_Operator :: "int \<Rightarrow> int \<Rightarrow> int \<Rightarrow> int \<Rightarrow> int \<Rightarrow> int \<Rightarrow> int \<Rightarrow> int \<Rightarrow> int \<Rightarrow> field_add list" where
  "Create_Operator opcode_index inputs outputs builtin_options_type builtin_options custom_options custom_options_format mutating_variable_inputs intermediates =
     [Refer 20 intermediates, Refer 18 mutating_variable_inputs, Refer 14 custom_options, Refer 12 builtin_options, Refer 8 outputs, Refer 6 inputs,
      Element U32 4 opcode_index 0, Element I8 16 custom_options_format 0, Element U8 10 builtin_options_type 0]"

definition Create_SubGraph :: "int \<Rightarrow> int \<Rightarrow> int \<Rightarrow> int \<Rightarrow> int \<Rightarrow> field_add list" where
  "Create_SubGraph tensors inputs outputs operators name =
     [Refer 12 name, Refer 10 operators, Refer 8 outputs, Refer 6 inputs, Refer 4 tensors]"

definition Create_Buffer :: "int \<Rightarrow> field_add list" where
  "Create_Buffer data = [Refer 4 data]"

definition Create_Metadata :: "int \<Rightarrow> int \<Rightarrow> field_add list" where
  "Create_Metadata name buffer = [Element U32 6 buffer 0, Refer 4 name]"

definition Create_TensorMap :: "int \<Rightarrow> int \<Rightarrow> field_add list" where
  "Create_TensorMap name tensor_index = [Element U32 6 tensor_index 0, Refer 4 name]"

definition Create_SignatureDef :: "int \<Rightarrow> int \<Rightarrow> int \<Rightarrow> int \<Rightarrow> field_add list" where
  "Create_SignatureDef inputs outputs method_name key =
     [Refer 10 key, Refer 8 method_name, Refer 6 outputs, Refer 4 inputs]"

definition Create_Model :: "int \<Rightarrow> int \<Rightarrow> int \<Rightarrow> int \<Rightarrow> int \<Rightarrow> int \<Rightarrow> int \<Rightarrow> int \<Rightarrow> field_add list" where
  "Create_Model version operator_codes subgraphs description buffers metadata_buffer metadata signature_defs =
     [Refer 18 signature_defs, Refer 16 metadata, Refer 14 metadata_buffer, Refer 12 buffers, Refer 10 description, Refer 8 subgraphs,
      Refer 6 operator_codes, Element U32 4 version 0]"

lemmas schema_create_defs =
  Create_CustomQuantization_def Create_QuantizationParameters_def Create_Int32Vector_def
  Create_Uint16Vector_def Create_Uint8Vector_def Create_DimensionMetadata_def
  Create_SparsityParameters_def Create_Tensor_def Create_Conv2DOptions_def
  Create_Conv3DOptions_def Create_Pool2DOptions_def Create_DepthwiseConv2DOptions_def
  Create_ConcatEmbeddingsOptions_def Create_LSHProjectionOptions_def Create_SVDFOptions_def
  Create_RNNOptions_def Create_SequenceRNNOptions_def Create_BidirectionalSequenceRNNOptions_def
  Create_FullyConnectedOptions_def Create_SoftmaxOptions_def Create_ConcatenationOptions_def
  Create_AddOptions_def Create_MulOptions_def Create_L2NormOptions_def
  Create_LocalResponseNormalizationOptions_def Create_LSTMOptions_def Create_UnidirectionalSequenceLSTMOptions_def
  Create_BidirectionalSequenceLSTMOptions_def Create_ResizeBilinearOptions_def Create_ResizeNearestNeighborOptions_def
  Create_CallOptions_def Create_PadOptions_def Create_PadV2Options_def
  Create_ReshapeOptions_def Create_SpaceToBatchNDOptions_def Create_BatchToSpaceNDOptions_def
  Create_SkipGramOptions_def Create_SpaceToDepthOptions_def Create_DepthToSpaceOptions_def
  Create_SubOptions_def Create_DivOptions_def Create_TopKV2Options_def
  Create_EmbeddingLookupSparseOptions_def Create_GatherOptions_def Create_TransposeOptions_def
  Create_ExpOptions_def Create_CosOptions_def Create_ReducerOptions_def
  Create_SqueezeOptions_def Create_SplitOptions_def Create_SplitVOptions_def
  Create_StridedSliceOptions_def Create_LogSoftmaxOptions_def Create_CastOptions_def
  Create_DequantizeOptions_def Create_MaximumMinimumOptions_def Create_TileOptions_def
  Create_ArgMaxOptions_def Create_ArgMinOptions_def Create_GreaterOptions_def
  Create_GreaterEqualOptions_def Create_LessOptions_def Create_LessEqualOptions_def
  Create_NegOptions_def Create_SelectOptions_def Create_SliceOptions_def
  Create_TransposeConvOptions_def Create_ExpandDimsOptions_def Create_SparseToDenseOptions_def
  Create_EqualOptions_def Create_NotEqualOptions_def Create_ShapeOptions_def
  Create_RankOptions_def Create_PowOptions_def Create_FakeQuantOptions_def
  Create_PackOptions_def Create_LogicalOrOptions_def Create_OneHotOptions_def
  Create_AbsOptions_def Create_HardSwishOptions_def Create_LogicalAndOptions_def
  Create_LogicalNotOptions_def Create_UnpackOptions_def Create_FloorDivOptions_def
  Create_SquareOptions_def Create_ZerosLikeOptions_def Create_FillOptions_def
  Create_FloorModOptions_def Create_RangeOptions_def Create_LeakyReluOptions_def
  Create_SquaredDifferenceOptions_def Create_MirrorPadOptions_def Create_UniqueOptions_def
  Create_ReverseV2Options_def Create_AddNOptions_def Create_GatherNdOptions_def
  Create_WhereOptions_def Create_ReverseSequenceOptions_def Create_MatrixDiagOptions_def
  Create_QuantizeOptions_def Create_MatrixSetDiagOptions_def Create_IfOptions_def
  Create_CallOnceOptions_def Create_WhileOptions_def Create_NonMaxSuppressionV4Options_def
  Create_NonMaxSuppressionV5Options_def Create_ScatterNdOptions_def Create_SelectV2Options_def
  Create_DensifyOptions_def Create_SegmentSumOptions_def Create_BatchMatMulOptions_def
  Create_CumsumOptions_def Create_BroadcastToOptions_def Create_Rfft2dOptions_def
  Create_HashtableOptions_def Create_HashtableFindOptions_def Create_HashtableImportOptions_def
  Create_HashtableSizeOptions_def Create_OperatorCode_def Create_Operator_def
  Create_SubGraph_def Create_Buffer_def Create_Metadata_def
  Create_TensorMap_def Create_SignatureDef_def Create_Model_def

section \<open>The types of the unions\<close>

text \<open>\<^verbatim>\<open>enum_value\<close> of the traits: the type that goes with a table.\<close>

definition QuantizationDetailsTraits :: "(int \<times> fb_field list) list" where
  "QuantizationDetailsTraits =
     [(1, Verify_CustomQuantization)]"

definition SparseIndexVectorTraits :: "(int \<times> fb_field list) list" where
  "SparseIndexVectorTraits =
     [(1, Verify_Int32Vector), (2, Verify_Uint16Vector), (3, Verify_Uint8Vector)]"

definition BuiltinOptionsTraits :: "(int \<times> fb_field list) list" where
  "BuiltinOptionsTraits =
     [(1, Verify_Conv2DOptions), (2, Verify_DepthwiseConv2DOptions), (3, Verify_ConcatEmbeddingsOptions), (4, Verify_LSHProjectionOptions),
      (5, Verify_Pool2DOptions), (6, Verify_SVDFOptions), (7, Verify_RNNOptions), (8, Verify_FullyConnectedOptions), (9, Verify_SoftmaxOptions),
      (10, Verify_ConcatenationOptions), (11, Verify_AddOptions), (12, Verify_L2NormOptions), (13, Verify_LocalResponseNormalizationOptions),
      (14, Verify_LSTMOptions), (15, Verify_ResizeBilinearOptions), (16, Verify_CallOptions), (17, Verify_ReshapeOptions),
      (18, Verify_SkipGramOptions), (19, Verify_SpaceToDepthOptions), (20, Verify_EmbeddingLookupSparseOptions), (21, Verify_MulOptions),
      (22, Verify_PadOptions), (23, Verify_GatherOptions), (24, Verify_BatchToSpaceNDOptions), (25, Verify_SpaceToBatchNDOptions),
      (26, Verify_TransposeOptions), (27, Verify_ReducerOptions), (28, Verify_SubOptions), (29, Verify_DivOptions), (30, Verify_SqueezeOptions),
      (31, Verify_SequenceRNNOptions), (32, Verify_StridedSliceOptions), (33, Verify_ExpOptions), (34, Verify_TopKV2Options),
      (35, Verify_SplitOptions), (36, Verify_LogSoftmaxOptions), (37, Verify_CastOptions), (38, Verify_DequantizeOptions),
      (39, Verify_MaximumMinimumOptions), (40, Verify_ArgMaxOptions), (41, Verify_LessOptions), (42, Verify_NegOptions),
      (43, Verify_PadV2Options), (44, Verify_GreaterOptions), (45, Verify_GreaterEqualOptions), (46, Verify_LessEqualOptions),
      (47, Verify_SelectOptions), (48, Verify_SliceOptions), (49, Verify_TransposeConvOptions), (50, Verify_SparseToDenseOptions),
      (51, Verify_TileOptions), (52, Verify_ExpandDimsOptions), (53, Verify_EqualOptions), (54, Verify_NotEqualOptions),
      (55, Verify_ShapeOptions), (56, Verify_PowOptions), (57, Verify_ArgMinOptions), (58, Verify_FakeQuantOptions), (59, Verify_PackOptions),
      (60, Verify_LogicalOrOptions), (61, Verify_OneHotOptions), (62, Verify_LogicalAndOptions), (63, Verify_LogicalNotOptions),
      (64, Verify_UnpackOptions), (65, Verify_FloorDivOptions), (66, Verify_SquareOptions), (67, Verify_ZerosLikeOptions),
      (68, Verify_FillOptions), (69, Verify_BidirectionalSequenceLSTMOptions), (70, Verify_BidirectionalSequenceRNNOptions),
      (71, Verify_UnidirectionalSequenceLSTMOptions), (72, Verify_FloorModOptions), (73, Verify_RangeOptions),
      (74, Verify_ResizeNearestNeighborOptions), (75, Verify_LeakyReluOptions), (76, Verify_SquaredDifferenceOptions),
      (77, Verify_MirrorPadOptions), (78, Verify_AbsOptions), (79, Verify_SplitVOptions), (80, Verify_UniqueOptions),
      (81, Verify_ReverseV2Options), (82, Verify_AddNOptions), (83, Verify_GatherNdOptions), (84, Verify_CosOptions), (85, Verify_WhereOptions),
      (86, Verify_RankOptions), (87, Verify_ReverseSequenceOptions), (88, Verify_MatrixDiagOptions), (89, Verify_QuantizeOptions),
      (90, Verify_MatrixSetDiagOptions), (91, Verify_HardSwishOptions), (92, Verify_IfOptions), (93, Verify_WhileOptions),
      (94, Verify_DepthToSpaceOptions), (95, Verify_NonMaxSuppressionV4Options), (96, Verify_NonMaxSuppressionV5Options),
      (97, Verify_ScatterNdOptions), (98, Verify_SelectV2Options), (99, Verify_DensifyOptions), (100, Verify_SegmentSumOptions),
      (101, Verify_BatchMatMulOptions), (102, Verify_CumsumOptions), (103, Verify_CallOnceOptions), (104, Verify_BroadcastToOptions),
      (105, Verify_Rfft2dOptions), (106, Verify_Conv3DOptions), (107, Verify_HashtableOptions), (108, Verify_HashtableFindOptions),
      (109, Verify_HashtableImportOptions), (110, Verify_HashtableSizeOptions)]"


section \<open>Tables with their vectors and strings\<close>

text \<open>
  \<^verbatim>\<open>auto x__ = x ? _fbb.CreateVector(*x) : 0;\<close> and the rest of the function, which gets the offset; \<^verbatim>\<open>if (x) { _fbb.ForceVectorAlignment(...); }\<close>
  in front of it.
\<close>

definition with_part :: "fb_object option \<Rightarrow> (int \<Rightarrow> builder \<Rightarrow> (int \<times> builder) res) \<Rightarrow> builder \<Rightarrow> (int \<times> builder) res" where
  "with_part x rest b = (case x of None \<Rightarrow> rest 0 b | Some obj \<Rightarrow> bind_res (build obj b) (\<lambda>(off, b1). rest off b1))"

definition force_part :: "int list option \<Rightarrow> int \<Rightarrow> int \<Rightarrow> (builder \<Rightarrow> (int \<times> builder) res) \<Rightarrow> builder \<Rightarrow> (int \<times> builder) res" where
  "force_part x elemsize alignment rest b = (case x of None \<Rightarrow> rest b
     | Some xs \<Rightarrow> bind_res (ForceVectorAlignment (int (length xs)) elemsize alignment b) rest)"

definition CreateCustomQuantizationDirect :: "int list option \<Rightarrow> builder \<Rightarrow> (int \<times> builder) res" where
  "CreateCustomQuantizationDirect custom =
     force_part custom 1 16 (
     with_part (map_option (Vec U8) custom) (\<lambda>custom_off.
     create_table (Create_CustomQuantization custom_off)))"

definition CreateQuantizationParametersDirect :: "int list option \<Rightarrow> int list option \<Rightarrow> int list option \<Rightarrow> int list option \<Rightarrow> int \<Rightarrow> int \<Rightarrow> int \<Rightarrow> builder \<Rightarrow> (int \<times> builder) res" where
  "CreateQuantizationParametersDirect vmin vmax scale zero_point details_type details quantized_dimension =
     with_part (map_option (Vec F32) vmin) (\<lambda>vmin_off.
     with_part (map_option (Vec F32) vmax) (\<lambda>vmax_off.
     with_part (map_option (Vec F32) scale) (\<lambda>scale_off.
     with_part (map_option (Vec I64) zero_point) (\<lambda>zero_point_off.
     create_table (Create_QuantizationParameters vmin_off vmax_off scale_off zero_point_off details_type details quantized_dimension)))))"

definition CreateInt32VectorDirect :: "int list option \<Rightarrow> builder \<Rightarrow> (int \<times> builder) res" where
  "CreateInt32VectorDirect values =
     with_part (map_option (Vec I32) values) (\<lambda>values_off.
     create_table (Create_Int32Vector values_off))"

definition CreateUint16VectorDirect :: "int list option \<Rightarrow> builder \<Rightarrow> (int \<times> builder) res" where
  "CreateUint16VectorDirect values =
     force_part values 2 4 (
     with_part (map_option (Vec U16) values) (\<lambda>values_off.
     create_table (Create_Uint16Vector values_off)))"

definition CreateUint8VectorDirect :: "int list option \<Rightarrow> builder \<Rightarrow> (int \<times> builder) res" where
  "CreateUint8VectorDirect values =
     force_part values 1 4 (
     with_part (map_option (Vec U8) values) (\<lambda>values_off.
     create_table (Create_Uint8Vector values_off)))"

definition CreateSparsityParametersDirect :: "int list option \<Rightarrow> int list option \<Rightarrow> int list option \<Rightarrow> builder \<Rightarrow> (int \<times> builder) res" where
  "CreateSparsityParametersDirect traversal_order block_map dim_metadata =
     with_part (map_option (Vec I32) traversal_order) (\<lambda>traversal_order_off.
     with_part (map_option (Vec I32) block_map) (\<lambda>block_map_off.
     with_part (map_option OffVec dim_metadata) (\<lambda>dim_metadata_off.
     create_table (Create_SparsityParameters traversal_order_off block_map_off dim_metadata_off))))"

definition CreateTensorDirect :: "int list option \<Rightarrow> int \<Rightarrow> int \<Rightarrow> bytes option \<Rightarrow> int \<Rightarrow> int \<Rightarrow> int \<Rightarrow> int list option \<Rightarrow> builder \<Rightarrow> (int \<times> builder) res" where
  "CreateTensorDirect shape type buffer name quantization is_variable sparsity shape_signature =
     with_part (map_option (Vec I32) shape) (\<lambda>shape_off.
     with_part (map_option Str name) (\<lambda>name_off.
     with_part (map_option (Vec I32) shape_signature) (\<lambda>shape_signature_off.
     create_table (Create_Tensor shape_off type buffer name_off quantization is_variable sparsity shape_signature_off))))"

definition CreateConcatEmbeddingsOptionsDirect :: "int \<Rightarrow> int list option \<Rightarrow> int list option \<Rightarrow> builder \<Rightarrow> (int \<times> builder) res" where
  "CreateConcatEmbeddingsOptionsDirect num_channels num_columns_per_channel embedding_dim_per_channel =
     with_part (map_option (Vec I32) num_columns_per_channel) (\<lambda>num_columns_per_channel_off.
     with_part (map_option (Vec I32) embedding_dim_per_channel) (\<lambda>embedding_dim_per_channel_off.
     create_table (Create_ConcatEmbeddingsOptions num_channels num_columns_per_channel_off embedding_dim_per_channel_off)))"

definition CreateReshapeOptionsDirect :: "int list option \<Rightarrow> builder \<Rightarrow> (int \<times> builder) res" where
  "CreateReshapeOptionsDirect new_shape =
     with_part (map_option (Vec I32) new_shape) (\<lambda>new_shape_off.
     create_table (Create_ReshapeOptions new_shape_off))"

definition CreateSqueezeOptionsDirect :: "int list option \<Rightarrow> builder \<Rightarrow> (int \<times> builder) res" where
  "CreateSqueezeOptionsDirect squeeze_dims =
     with_part (map_option (Vec I32) squeeze_dims) (\<lambda>squeeze_dims_off.
     create_table (Create_SqueezeOptions squeeze_dims_off))"

definition CreateOperatorCodeDirect :: "int \<Rightarrow> bytes option \<Rightarrow> int \<Rightarrow> int \<Rightarrow> builder \<Rightarrow> (int \<times> builder) res" where
  "CreateOperatorCodeDirect deprecated_builtin_code custom_code version builtin_code =
     with_part (map_option Str custom_code) (\<lambda>custom_code_off.
     create_table (Create_OperatorCode deprecated_builtin_code custom_code_off version builtin_code))"

definition CreateOperatorDirect :: "int \<Rightarrow> int list option \<Rightarrow> int list option \<Rightarrow> int \<Rightarrow> int \<Rightarrow> int list option \<Rightarrow> int \<Rightarrow> int list option \<Rightarrow> int list option \<Rightarrow> builder \<Rightarrow> (int \<times> builder) res" where
  "CreateOperatorDirect opcode_index inputs outputs builtin_options_type builtin_options custom_options custom_options_format mutating_variable_inputs intermediates =
     with_part (map_option (Vec I32) inputs) (\<lambda>inputs_off.
     with_part (map_option (Vec I32) outputs) (\<lambda>outputs_off.
     with_part (map_option (Vec U8) custom_options) (\<lambda>custom_options_off.
     with_part (map_option (Vec U8) mutating_variable_inputs) (\<lambda>mutating_variable_inputs_off.
     with_part (map_option (Vec I32) intermediates) (\<lambda>intermediates_off.
     create_table (Create_Operator opcode_index inputs_off outputs_off builtin_options_type builtin_options custom_options_off custom_options_format mutating_variable_inputs_off intermediates_off))))))"

definition CreateSubGraphDirect :: "int list option \<Rightarrow> int list option \<Rightarrow> int list option \<Rightarrow> int list option \<Rightarrow> bytes option \<Rightarrow> builder \<Rightarrow> (int \<times> builder) res" where
  "CreateSubGraphDirect tensors inputs outputs operators name =
     with_part (map_option OffVec tensors) (\<lambda>tensors_off.
     with_part (map_option (Vec I32) inputs) (\<lambda>inputs_off.
     with_part (map_option (Vec I32) outputs) (\<lambda>outputs_off.
     with_part (map_option OffVec operators) (\<lambda>operators_off.
     with_part (map_option Str name) (\<lambda>name_off.
     create_table (Create_SubGraph tensors_off inputs_off outputs_off operators_off name_off))))))"

definition CreateBufferDirect :: "int list option \<Rightarrow> builder \<Rightarrow> (int \<times> builder) res" where
  "CreateBufferDirect data =
     force_part data 1 16 (
     with_part (map_option (Vec U8) data) (\<lambda>data_off.
     create_table (Create_Buffer data_off)))"

definition CreateMetadataDirect :: "bytes option \<Rightarrow> int \<Rightarrow> builder \<Rightarrow> (int \<times> builder) res" where
  "CreateMetadataDirect name buffer =
     with_part (map_option Str name) (\<lambda>name_off.
     create_table (Create_Metadata name_off buffer))"

definition CreateTensorMapDirect :: "bytes option \<Rightarrow> int \<Rightarrow> builder \<Rightarrow> (int \<times> builder) res" where
  "CreateTensorMapDirect name tensor_index =
     with_part (map_option Str name) (\<lambda>name_off.
     create_table (Create_TensorMap name_off tensor_index))"

definition CreateSignatureDefDirect :: "int list option \<Rightarrow> int list option \<Rightarrow> bytes option \<Rightarrow> bytes option \<Rightarrow> builder \<Rightarrow> (int \<times> builder) res" where
  "CreateSignatureDefDirect inputs outputs method_name key =
     with_part (map_option OffVec inputs) (\<lambda>inputs_off.
     with_part (map_option OffVec outputs) (\<lambda>outputs_off.
     with_part (map_option Str method_name) (\<lambda>method_name_off.
     with_part (map_option Str key) (\<lambda>key_off.
     create_table (Create_SignatureDef inputs_off outputs_off method_name_off key_off)))))"

definition CreateModelDirect :: "int \<Rightarrow> int list option \<Rightarrow> int list option \<Rightarrow> bytes option \<Rightarrow> int list option \<Rightarrow> int list option \<Rightarrow> int list option \<Rightarrow> int list option \<Rightarrow> builder \<Rightarrow> (int \<times> builder) res" where
  "CreateModelDirect version operator_codes subgraphs description buffers metadata_buffer metadata signature_defs =
     with_part (map_option OffVec operator_codes) (\<lambda>operator_codes_off.
     with_part (map_option OffVec subgraphs) (\<lambda>subgraphs_off.
     with_part (map_option Str description) (\<lambda>description_off.
     with_part (map_option OffVec buffers) (\<lambda>buffers_off.
     with_part (map_option (Vec I32) metadata_buffer) (\<lambda>metadata_buffer_off.
     with_part (map_option OffVec metadata) (\<lambda>metadata_off.
     with_part (map_option OffVec signature_defs) (\<lambda>signature_defs_off.
     create_table (Create_Model version operator_codes_off subgraphs_off description_off buffers_off metadata_buffer_off metadata_off signature_defs_off))))))))"

end
