(* ===== verification/Create_Calls.thy ===== *)
theory Create_Calls
  imports Verify_Complete Schema_Create
begin

text \<open>
  The C++ types of the generated functions, and the one obligation of their callers the types do not express. A parameter of type \<^verbatim>\<open>Offset<T>\<close> takes the
  offset of an object that was built as a \<^verbatim>\<open>T\<close>. A union takes an \<^verbatim>\<open>Offset<void>\<close> and an enumerator: the compiler accepts any pair, and it is up to the caller that the
  table is the one the traits name for the enumerator (\<open>union_agrees\<close>). A call that meets both gives a table that has the type the verify method of
  the table checks.
\<close>

section \<open>Types of offsets\<close>

datatype off_type = Vector_of scalar_type | String_type | Table_of "fb_field list" | Tables_of "fb_field list"

type_synonym typing = "int \<rightharpoonup> off_type"

definition typed :: "typing \<Rightarrow> off_type \<Rightarrow> int \<Rightarrow> bool" where
  "typed \<Gamma> t off \<longleftrightarrow> off = 0 \<or> \<Gamma> off = Some t"

text \<open>The caller's obligation for a union: an enumerator of the traits comes with a table of its type, any other with an object that exists.\<close>

definition union_agrees :: "typing \<Rightarrow> (int \<times> fb_field list) list \<Rightarrow> int \<Rightarrow> int \<Rightarrow> bool" where
  "union_agrees \<Gamma> traits ty off \<longleftrightarrow> off = 0 \<or> (case map_of traits ty of None \<Rightarrow> \<Gamma> off \<noteq> None | Some gs \<Rightarrow> \<Gamma> off = Some (Table_of gs))"

text \<open>The object an offset of a type leads to.\<close>

fun has_type :: "objects \<Rightarrow> int \<Rightarrow> off_type \<Rightarrow> bool" where
  "has_type h off (Vector_of ty) \<longleftrightarrow> (case h off of Some (Vec ty' xs) \<Rightarrow> ty' = ty | _ \<Rightarrow> False)"
| "has_type h off String_type \<longleftrightarrow> (case h off of Some (Str bs) \<Rightarrow> True | _ \<Rightarrow> False)"
| "has_type h off (Table_of gs) \<longleftrightarrow> table_fits (map fits gs) h off"
| "has_type h off (Tables_of gs) \<longleftrightarrow> (case h off of Some (OffVec os) \<Rightarrow> list_all (table_fits (map fits gs) h) os | _ \<Rightarrow> False)"

definition typing_of :: "objects \<Rightarrow> typing \<Rightarrow> bool" where
  "typing_of h \<Gamma> \<longleftrightarrow> (\<forall>off t. \<Gamma> off = Some t \<longrightarrow> has_type h off t)"

section \<open>Calls\<close>

text \<open>
  A call of a generated function, with the type of its result. First the functions whose parameters are scalars, vectors of scalars and strings,
  then the ones that refer to other tables.
\<close>

inductive leaf_call :: "typing \<Rightarrow> fb_field list \<Rightarrow> field_add list \<Rightarrow> bool" for \<Gamma> where
  leaf_call_CustomQuantization: "typed \<Gamma> (Vector_of U8) custom \<Longrightarrow> leaf_call \<Gamma> Verify_CustomQuantization (Create_CustomQuantization custom)"
| leaf_call_Int32Vector: "typed \<Gamma> (Vector_of I32) values \<Longrightarrow> leaf_call \<Gamma> Verify_Int32Vector (Create_Int32Vector values)"
| leaf_call_Uint16Vector: "typed \<Gamma> (Vector_of U16) values \<Longrightarrow> leaf_call \<Gamma> Verify_Uint16Vector (Create_Uint16Vector values)"
| leaf_call_Uint8Vector: "typed \<Gamma> (Vector_of U8) values \<Longrightarrow> leaf_call \<Gamma> Verify_Uint8Vector (Create_Uint8Vector values)"
| leaf_call_Conv2DOptions: "in_range I8 padding \<Longrightarrow> in_range I32 stride_w \<Longrightarrow> in_range I32 stride_h \<Longrightarrow>
    in_range I8 fused_activation_function \<Longrightarrow> in_range I32 dilation_w_factor \<Longrightarrow>
    in_range I32 dilation_h_factor \<Longrightarrow>
    leaf_call \<Gamma> Verify_Conv2DOptions (Create_Conv2DOptions padding stride_w stride_h fused_activation_function dilation_w_factor dilation_h_factor)"
| leaf_call_Conv3DOptions: "in_range I8 padding \<Longrightarrow> in_range I32 stride_d \<Longrightarrow> in_range I32 stride_w \<Longrightarrow>
    in_range I32 stride_h \<Longrightarrow> in_range I8 fused_activation_function \<Longrightarrow>
    in_range I32 dilation_d_factor \<Longrightarrow> in_range I32 dilation_w_factor \<Longrightarrow>
    in_range I32 dilation_h_factor \<Longrightarrow>
    leaf_call \<Gamma> Verify_Conv3DOptions (Create_Conv3DOptions padding stride_d stride_w stride_h fused_activation_function dilation_d_factor dilation_w_factor dilation_h_factor)"
| leaf_call_Pool2DOptions: "in_range I8 padding \<Longrightarrow> in_range I32 stride_w \<Longrightarrow> in_range I32 stride_h \<Longrightarrow>
    in_range I32 filter_width \<Longrightarrow> in_range I32 filter_height \<Longrightarrow>
    in_range I8 fused_activation_function \<Longrightarrow>
    leaf_call \<Gamma> Verify_Pool2DOptions (Create_Pool2DOptions padding stride_w stride_h filter_width filter_height fused_activation_function)"
| leaf_call_DepthwiseConv2DOptions: "in_range I8 padding \<Longrightarrow> in_range I32 stride_w \<Longrightarrow> in_range I32 stride_h \<Longrightarrow>
    in_range I32 depth_multiplier \<Longrightarrow> in_range I8 fused_activation_function \<Longrightarrow>
    in_range I32 dilation_w_factor \<Longrightarrow> in_range I32 dilation_h_factor \<Longrightarrow>
    leaf_call \<Gamma> Verify_DepthwiseConv2DOptions (Create_DepthwiseConv2DOptions padding stride_w stride_h depth_multiplier fused_activation_function dilation_w_factor dilation_h_factor)"
| leaf_call_ConcatEmbeddingsOptions: "in_range I32 num_channels \<Longrightarrow> typed \<Gamma> (Vector_of I32) num_columns_per_channel \<Longrightarrow>
    typed \<Gamma> (Vector_of I32) embedding_dim_per_channel \<Longrightarrow>
    leaf_call \<Gamma> Verify_ConcatEmbeddingsOptions (Create_ConcatEmbeddingsOptions num_channels num_columns_per_channel embedding_dim_per_channel)"
| leaf_call_LSHProjectionOptions: "in_range I8 type \<Longrightarrow> leaf_call \<Gamma> Verify_LSHProjectionOptions (Create_LSHProjectionOptions type)"
| leaf_call_SVDFOptions: "in_range I32 rank \<Longrightarrow> in_range I8 fused_activation_function \<Longrightarrow>
    in_range U8 asymmetric_quantize_inputs \<Longrightarrow>
    leaf_call \<Gamma> Verify_SVDFOptions (Create_SVDFOptions rank fused_activation_function asymmetric_quantize_inputs)"
| leaf_call_RNNOptions: "in_range I8 fused_activation_function \<Longrightarrow> in_range U8 asymmetric_quantize_inputs \<Longrightarrow>
    leaf_call \<Gamma> Verify_RNNOptions (Create_RNNOptions fused_activation_function asymmetric_quantize_inputs)"
| leaf_call_SequenceRNNOptions: "in_range U8 time_major \<Longrightarrow> in_range I8 fused_activation_function \<Longrightarrow>
    in_range U8 asymmetric_quantize_inputs \<Longrightarrow>
    leaf_call \<Gamma> Verify_SequenceRNNOptions (Create_SequenceRNNOptions time_major fused_activation_function asymmetric_quantize_inputs)"
| leaf_call_BidirectionalSequenceRNNOptions: "in_range U8 time_major \<Longrightarrow> in_range I8 fused_activation_function \<Longrightarrow>
    in_range U8 merge_outputs \<Longrightarrow> in_range U8 asymmetric_quantize_inputs \<Longrightarrow>
    leaf_call \<Gamma> Verify_BidirectionalSequenceRNNOptions (Create_BidirectionalSequenceRNNOptions time_major fused_activation_function merge_outputs asymmetric_quantize_inputs)"
| leaf_call_FullyConnectedOptions: "in_range I8 fused_activation_function \<Longrightarrow> in_range I8 weights_format \<Longrightarrow>
    in_range U8 keep_num_dims \<Longrightarrow> in_range U8 asymmetric_quantize_inputs \<Longrightarrow>
    leaf_call \<Gamma> Verify_FullyConnectedOptions (Create_FullyConnectedOptions fused_activation_function weights_format keep_num_dims asymmetric_quantize_inputs)"
| leaf_call_SoftmaxOptions: "in_range F32 beta \<Longrightarrow> leaf_call \<Gamma> Verify_SoftmaxOptions (Create_SoftmaxOptions beta)"
| leaf_call_ConcatenationOptions: "in_range I32 axis \<Longrightarrow> in_range I8 fused_activation_function \<Longrightarrow>
    leaf_call \<Gamma> Verify_ConcatenationOptions (Create_ConcatenationOptions axis fused_activation_function)"
| leaf_call_AddOptions: "in_range I8 fused_activation_function \<Longrightarrow> in_range U8 pot_scale_int16 \<Longrightarrow>
    leaf_call \<Gamma> Verify_AddOptions (Create_AddOptions fused_activation_function pot_scale_int16)"
| leaf_call_MulOptions: "in_range I8 fused_activation_function \<Longrightarrow> leaf_call \<Gamma> Verify_MulOptions (Create_MulOptions fused_activation_function)"
| leaf_call_L2NormOptions: "in_range I8 fused_activation_function \<Longrightarrow>
    leaf_call \<Gamma> Verify_L2NormOptions (Create_L2NormOptions fused_activation_function)"
| leaf_call_LocalResponseNormalizationOptions: "in_range I32 radius \<Longrightarrow> in_range F32 bias \<Longrightarrow> in_range F32 alpha \<Longrightarrow>
    in_range F32 beta \<Longrightarrow> leaf_call \<Gamma> Verify_LocalResponseNormalizationOptions (Create_LocalResponseNormalizationOptions radius bias alpha beta)"
| leaf_call_LSTMOptions: "in_range I8 fused_activation_function \<Longrightarrow> in_range F32 cell_clip \<Longrightarrow> in_range F32 proj_clip \<Longrightarrow>
    in_range I8 kernel_type \<Longrightarrow> in_range U8 asymmetric_quantize_inputs \<Longrightarrow>
    leaf_call \<Gamma> Verify_LSTMOptions (Create_LSTMOptions fused_activation_function cell_clip proj_clip kernel_type asymmetric_quantize_inputs)"
| leaf_call_UnidirectionalSequenceLSTMOptions: "in_range I8 fused_activation_function \<Longrightarrow> in_range F32 cell_clip \<Longrightarrow>
    in_range F32 proj_clip \<Longrightarrow>
    in_range U8 time_major \<Longrightarrow> in_range U8 asymmetric_quantize_inputs \<Longrightarrow>
    leaf_call \<Gamma> Verify_UnidirectionalSequenceLSTMOptions (Create_UnidirectionalSequenceLSTMOptions fused_activation_function cell_clip proj_clip time_major asymmetric_quantize_inputs)"
| leaf_call_BidirectionalSequenceLSTMOptions: "in_range I8 fused_activation_function \<Longrightarrow> in_range F32 cell_clip \<Longrightarrow>
    in_range F32 proj_clip \<Longrightarrow>
    in_range U8 merge_outputs \<Longrightarrow> in_range U8 time_major \<Longrightarrow>
    in_range U8 asymmetric_quantize_inputs \<Longrightarrow>
    leaf_call \<Gamma> Verify_BidirectionalSequenceLSTMOptions (Create_BidirectionalSequenceLSTMOptions fused_activation_function cell_clip proj_clip merge_outputs time_major asymmetric_quantize_inputs)"
| leaf_call_ResizeBilinearOptions: "in_range U8 align_corners \<Longrightarrow> in_range U8 half_pixel_centers \<Longrightarrow>
    leaf_call \<Gamma> Verify_ResizeBilinearOptions (Create_ResizeBilinearOptions align_corners half_pixel_centers)"
| leaf_call_ResizeNearestNeighborOptions: "in_range U8 align_corners \<Longrightarrow> in_range U8 half_pixel_centers \<Longrightarrow>
    leaf_call \<Gamma> Verify_ResizeNearestNeighborOptions (Create_ResizeNearestNeighborOptions align_corners half_pixel_centers)"
| leaf_call_CallOptions: "in_range U32 subgraph \<Longrightarrow> leaf_call \<Gamma> Verify_CallOptions (Create_CallOptions subgraph)"
| leaf_call_PadOptions: "leaf_call \<Gamma> Verify_PadOptions Create_PadOptions"
| leaf_call_PadV2Options: "leaf_call \<Gamma> Verify_PadV2Options Create_PadV2Options"
| leaf_call_ReshapeOptions: "typed \<Gamma> (Vector_of I32) new_shape \<Longrightarrow> leaf_call \<Gamma> Verify_ReshapeOptions (Create_ReshapeOptions new_shape)"
| leaf_call_SpaceToBatchNDOptions: "leaf_call \<Gamma> Verify_SpaceToBatchNDOptions Create_SpaceToBatchNDOptions"
| leaf_call_BatchToSpaceNDOptions: "leaf_call \<Gamma> Verify_BatchToSpaceNDOptions Create_BatchToSpaceNDOptions"
| leaf_call_SkipGramOptions: "in_range I32 ngram_size \<Longrightarrow> in_range I32 max_skip_size \<Longrightarrow> in_range U8 include_all_ngrams \<Longrightarrow>
    leaf_call \<Gamma> Verify_SkipGramOptions (Create_SkipGramOptions ngram_size max_skip_size include_all_ngrams)"
| leaf_call_SpaceToDepthOptions: "in_range I32 block_size \<Longrightarrow> leaf_call \<Gamma> Verify_SpaceToDepthOptions (Create_SpaceToDepthOptions block_size)"
| leaf_call_DepthToSpaceOptions: "in_range I32 block_size \<Longrightarrow> leaf_call \<Gamma> Verify_DepthToSpaceOptions (Create_DepthToSpaceOptions block_size)"
| leaf_call_SubOptions: "in_range I8 fused_activation_function \<Longrightarrow> in_range U8 pot_scale_int16 \<Longrightarrow>
    leaf_call \<Gamma> Verify_SubOptions (Create_SubOptions fused_activation_function pot_scale_int16)"
| leaf_call_DivOptions: "in_range I8 fused_activation_function \<Longrightarrow> leaf_call \<Gamma> Verify_DivOptions (Create_DivOptions fused_activation_function)"
| leaf_call_TopKV2Options: "leaf_call \<Gamma> Verify_TopKV2Options Create_TopKV2Options"
| leaf_call_EmbeddingLookupSparseOptions: "in_range I8 combiner \<Longrightarrow>
    leaf_call \<Gamma> Verify_EmbeddingLookupSparseOptions (Create_EmbeddingLookupSparseOptions combiner)"
| leaf_call_GatherOptions: "in_range I32 axis \<Longrightarrow> in_range I32 batch_dims \<Longrightarrow>
    leaf_call \<Gamma> Verify_GatherOptions (Create_GatherOptions axis batch_dims)"
| leaf_call_TransposeOptions: "leaf_call \<Gamma> Verify_TransposeOptions Create_TransposeOptions"
| leaf_call_ExpOptions: "leaf_call \<Gamma> Verify_ExpOptions Create_ExpOptions"
| leaf_call_CosOptions: "leaf_call \<Gamma> Verify_CosOptions Create_CosOptions"
| leaf_call_ReducerOptions: "in_range U8 keep_dims \<Longrightarrow> leaf_call \<Gamma> Verify_ReducerOptions (Create_ReducerOptions keep_dims)"
| leaf_call_SqueezeOptions: "typed \<Gamma> (Vector_of I32) squeeze_dims \<Longrightarrow> leaf_call \<Gamma> Verify_SqueezeOptions (Create_SqueezeOptions squeeze_dims)"
| leaf_call_SplitOptions: "in_range I32 num_splits \<Longrightarrow> leaf_call \<Gamma> Verify_SplitOptions (Create_SplitOptions num_splits)"
| leaf_call_SplitVOptions: "in_range I32 num_splits \<Longrightarrow> leaf_call \<Gamma> Verify_SplitVOptions (Create_SplitVOptions num_splits)"
| leaf_call_StridedSliceOptions: "in_range I32 begin_mask \<Longrightarrow> in_range I32 end_mask \<Longrightarrow> in_range I32 ellipsis_mask \<Longrightarrow>
    in_range I32 new_axis_mask \<Longrightarrow> in_range I32 shrink_axis_mask \<Longrightarrow>
    leaf_call \<Gamma> Verify_StridedSliceOptions (Create_StridedSliceOptions begin_mask end_mask ellipsis_mask new_axis_mask shrink_axis_mask)"
| leaf_call_LogSoftmaxOptions: "leaf_call \<Gamma> Verify_LogSoftmaxOptions Create_LogSoftmaxOptions"
| leaf_call_CastOptions: "in_range I8 in_data_type \<Longrightarrow> in_range I8 out_data_type \<Longrightarrow>
    leaf_call \<Gamma> Verify_CastOptions (Create_CastOptions in_data_type out_data_type)"
| leaf_call_DequantizeOptions: "leaf_call \<Gamma> Verify_DequantizeOptions Create_DequantizeOptions"
| leaf_call_MaximumMinimumOptions: "leaf_call \<Gamma> Verify_MaximumMinimumOptions Create_MaximumMinimumOptions"
| leaf_call_TileOptions: "leaf_call \<Gamma> Verify_TileOptions Create_TileOptions"
| leaf_call_ArgMaxOptions: "in_range I8 output_type \<Longrightarrow> leaf_call \<Gamma> Verify_ArgMaxOptions (Create_ArgMaxOptions output_type)"
| leaf_call_ArgMinOptions: "in_range I8 output_type \<Longrightarrow> leaf_call \<Gamma> Verify_ArgMinOptions (Create_ArgMinOptions output_type)"
| leaf_call_GreaterOptions: "leaf_call \<Gamma> Verify_GreaterOptions Create_GreaterOptions"
| leaf_call_GreaterEqualOptions: "leaf_call \<Gamma> Verify_GreaterEqualOptions Create_GreaterEqualOptions"
| leaf_call_LessOptions: "leaf_call \<Gamma> Verify_LessOptions Create_LessOptions"
| leaf_call_LessEqualOptions: "leaf_call \<Gamma> Verify_LessEqualOptions Create_LessEqualOptions"
| leaf_call_NegOptions: "leaf_call \<Gamma> Verify_NegOptions Create_NegOptions"
| leaf_call_SelectOptions: "leaf_call \<Gamma> Verify_SelectOptions Create_SelectOptions"
| leaf_call_SliceOptions: "leaf_call \<Gamma> Verify_SliceOptions Create_SliceOptions"
| leaf_call_TransposeConvOptions: "in_range I8 padding \<Longrightarrow> in_range I32 stride_w \<Longrightarrow> in_range I32 stride_h \<Longrightarrow>
    leaf_call \<Gamma> Verify_TransposeConvOptions (Create_TransposeConvOptions padding stride_w stride_h)"
| leaf_call_ExpandDimsOptions: "leaf_call \<Gamma> Verify_ExpandDimsOptions Create_ExpandDimsOptions"
| leaf_call_SparseToDenseOptions: "in_range U8 validate_indices \<Longrightarrow>
    leaf_call \<Gamma> Verify_SparseToDenseOptions (Create_SparseToDenseOptions validate_indices)"
| leaf_call_EqualOptions: "leaf_call \<Gamma> Verify_EqualOptions Create_EqualOptions"
| leaf_call_NotEqualOptions: "leaf_call \<Gamma> Verify_NotEqualOptions Create_NotEqualOptions"
| leaf_call_ShapeOptions: "in_range I8 out_type \<Longrightarrow> leaf_call \<Gamma> Verify_ShapeOptions (Create_ShapeOptions out_type)"
| leaf_call_RankOptions: "leaf_call \<Gamma> Verify_RankOptions Create_RankOptions"
| leaf_call_PowOptions: "leaf_call \<Gamma> Verify_PowOptions Create_PowOptions"
| leaf_call_FakeQuantOptions: "in_range F32 vmin \<Longrightarrow> in_range F32 vmax \<Longrightarrow> in_range I32 num_bits \<Longrightarrow>
    in_range U8 narrow_range \<Longrightarrow> leaf_call \<Gamma> Verify_FakeQuantOptions (Create_FakeQuantOptions vmin vmax num_bits narrow_range)"
| leaf_call_PackOptions: "in_range I32 values_count \<Longrightarrow> in_range I32 axis \<Longrightarrow>
    leaf_call \<Gamma> Verify_PackOptions (Create_PackOptions values_count axis)"
| leaf_call_LogicalOrOptions: "leaf_call \<Gamma> Verify_LogicalOrOptions Create_LogicalOrOptions"
| leaf_call_OneHotOptions: "in_range I32 axis \<Longrightarrow> leaf_call \<Gamma> Verify_OneHotOptions (Create_OneHotOptions axis)"
| leaf_call_AbsOptions: "leaf_call \<Gamma> Verify_AbsOptions Create_AbsOptions"
| leaf_call_HardSwishOptions: "leaf_call \<Gamma> Verify_HardSwishOptions Create_HardSwishOptions"
| leaf_call_LogicalAndOptions: "leaf_call \<Gamma> Verify_LogicalAndOptions Create_LogicalAndOptions"
| leaf_call_LogicalNotOptions: "leaf_call \<Gamma> Verify_LogicalNotOptions Create_LogicalNotOptions"
| leaf_call_UnpackOptions: "in_range I32 num \<Longrightarrow> in_range I32 axis \<Longrightarrow>
    leaf_call \<Gamma> Verify_UnpackOptions (Create_UnpackOptions num axis)"
| leaf_call_FloorDivOptions: "leaf_call \<Gamma> Verify_FloorDivOptions Create_FloorDivOptions"
| leaf_call_SquareOptions: "leaf_call \<Gamma> Verify_SquareOptions Create_SquareOptions"
| leaf_call_ZerosLikeOptions: "leaf_call \<Gamma> Verify_ZerosLikeOptions Create_ZerosLikeOptions"
| leaf_call_FillOptions: "leaf_call \<Gamma> Verify_FillOptions Create_FillOptions"
| leaf_call_FloorModOptions: "leaf_call \<Gamma> Verify_FloorModOptions Create_FloorModOptions"
| leaf_call_RangeOptions: "leaf_call \<Gamma> Verify_RangeOptions Create_RangeOptions"
| leaf_call_LeakyReluOptions: "in_range F32 alpha \<Longrightarrow> leaf_call \<Gamma> Verify_LeakyReluOptions (Create_LeakyReluOptions alpha)"
| leaf_call_SquaredDifferenceOptions: "leaf_call \<Gamma> Verify_SquaredDifferenceOptions Create_SquaredDifferenceOptions"
| leaf_call_MirrorPadOptions: "in_range I8 mode \<Longrightarrow> leaf_call \<Gamma> Verify_MirrorPadOptions (Create_MirrorPadOptions mode)"
| leaf_call_UniqueOptions: "in_range I8 idx_out_type \<Longrightarrow> leaf_call \<Gamma> Verify_UniqueOptions (Create_UniqueOptions idx_out_type)"
| leaf_call_ReverseV2Options: "leaf_call \<Gamma> Verify_ReverseV2Options Create_ReverseV2Options"
| leaf_call_AddNOptions: "leaf_call \<Gamma> Verify_AddNOptions Create_AddNOptions"
| leaf_call_GatherNdOptions: "leaf_call \<Gamma> Verify_GatherNdOptions Create_GatherNdOptions"
| leaf_call_WhereOptions: "leaf_call \<Gamma> Verify_WhereOptions Create_WhereOptions"
| leaf_call_ReverseSequenceOptions: "in_range I32 seq_dim \<Longrightarrow> in_range I32 batch_dim \<Longrightarrow>
    leaf_call \<Gamma> Verify_ReverseSequenceOptions (Create_ReverseSequenceOptions seq_dim batch_dim)"
| leaf_call_MatrixDiagOptions: "leaf_call \<Gamma> Verify_MatrixDiagOptions Create_MatrixDiagOptions"
| leaf_call_QuantizeOptions: "leaf_call \<Gamma> Verify_QuantizeOptions Create_QuantizeOptions"
| leaf_call_MatrixSetDiagOptions: "leaf_call \<Gamma> Verify_MatrixSetDiagOptions Create_MatrixSetDiagOptions"
| leaf_call_IfOptions: "in_range I32 then_subgraph_index \<Longrightarrow> in_range I32 else_subgraph_index \<Longrightarrow>
    leaf_call \<Gamma> Verify_IfOptions (Create_IfOptions then_subgraph_index else_subgraph_index)"
| leaf_call_CallOnceOptions: "in_range I32 init_subgraph_index \<Longrightarrow> leaf_call \<Gamma> Verify_CallOnceOptions (Create_CallOnceOptions init_subgraph_index)"
| leaf_call_WhileOptions: "in_range I32 cond_subgraph_index \<Longrightarrow> in_range I32 body_subgraph_index \<Longrightarrow>
    leaf_call \<Gamma> Verify_WhileOptions (Create_WhileOptions cond_subgraph_index body_subgraph_index)"
| leaf_call_NonMaxSuppressionV4Options: "leaf_call \<Gamma> Verify_NonMaxSuppressionV4Options Create_NonMaxSuppressionV4Options"
| leaf_call_NonMaxSuppressionV5Options: "leaf_call \<Gamma> Verify_NonMaxSuppressionV5Options Create_NonMaxSuppressionV5Options"
| leaf_call_ScatterNdOptions: "leaf_call \<Gamma> Verify_ScatterNdOptions Create_ScatterNdOptions"
| leaf_call_SelectV2Options: "leaf_call \<Gamma> Verify_SelectV2Options Create_SelectV2Options"
| leaf_call_DensifyOptions: "leaf_call \<Gamma> Verify_DensifyOptions Create_DensifyOptions"
| leaf_call_SegmentSumOptions: "leaf_call \<Gamma> Verify_SegmentSumOptions Create_SegmentSumOptions"
| leaf_call_BatchMatMulOptions: "in_range U8 adj_x \<Longrightarrow> in_range U8 adj_y \<Longrightarrow> in_range U8 asymmetric_quantize_inputs \<Longrightarrow>
    leaf_call \<Gamma> Verify_BatchMatMulOptions (Create_BatchMatMulOptions adj_x adj_y asymmetric_quantize_inputs)"
| leaf_call_CumsumOptions: "in_range U8 exclusive \<Longrightarrow> in_range U8 reverse \<Longrightarrow>
    leaf_call \<Gamma> Verify_CumsumOptions (Create_CumsumOptions exclusive reverse)"
| leaf_call_BroadcastToOptions: "leaf_call \<Gamma> Verify_BroadcastToOptions Create_BroadcastToOptions"
| leaf_call_Rfft2dOptions: "leaf_call \<Gamma> Verify_Rfft2dOptions Create_Rfft2dOptions"
| leaf_call_HashtableOptions: "in_range I32 table_id \<Longrightarrow> in_range I8 key_dtype \<Longrightarrow> in_range I8 value_dtype \<Longrightarrow>
    leaf_call \<Gamma> Verify_HashtableOptions (Create_HashtableOptions table_id key_dtype value_dtype)"
| leaf_call_HashtableFindOptions: "leaf_call \<Gamma> Verify_HashtableFindOptions Create_HashtableFindOptions"
| leaf_call_HashtableImportOptions: "leaf_call \<Gamma> Verify_HashtableImportOptions Create_HashtableImportOptions"
| leaf_call_HashtableSizeOptions: "leaf_call \<Gamma> Verify_HashtableSizeOptions Create_HashtableSizeOptions"
| leaf_call_OperatorCode: "in_range I8 deprecated_builtin_code \<Longrightarrow> typed \<Gamma> String_type custom_code \<Longrightarrow>
    in_range I32 version \<Longrightarrow> in_range I32 builtin_code \<Longrightarrow>
    leaf_call \<Gamma> Verify_OperatorCode (Create_OperatorCode deprecated_builtin_code custom_code version builtin_code)"
| leaf_call_Buffer: "typed \<Gamma> (Vector_of U8) data \<Longrightarrow> leaf_call \<Gamma> Verify_Buffer (Create_Buffer data)"
| leaf_call_Metadata: "typed \<Gamma> String_type name \<Longrightarrow> in_range U32 buffer \<Longrightarrow>
    leaf_call \<Gamma> Verify_Metadata (Create_Metadata name buffer)"
| leaf_call_TensorMap: "typed \<Gamma> String_type name \<Longrightarrow> in_range U32 tensor_index \<Longrightarrow>
    leaf_call \<Gamma> Verify_TensorMap (Create_TensorMap name tensor_index)"

inductive call :: "typing \<Rightarrow> fb_field list \<Rightarrow> field_add list \<Rightarrow> bool" for \<Gamma> where
  call_leaf: "leaf_call \<Gamma> gs fs \<Longrightarrow> call \<Gamma> gs fs"
| call_QuantizationParameters: "typed \<Gamma> (Vector_of F32) vmin \<Longrightarrow> typed \<Gamma> (Vector_of F32) vmax \<Longrightarrow>
    typed \<Gamma> (Vector_of F32) scale \<Longrightarrow> typed \<Gamma> (Vector_of I64) zero_point \<Longrightarrow>
    in_range U8 details_type \<Longrightarrow> union_agrees \<Gamma> QuantizationDetailsTraits details_type details \<Longrightarrow>
    in_range I32 quantized_dimension \<Longrightarrow>
    call \<Gamma> Verify_QuantizationParameters (Create_QuantizationParameters vmin vmax scale zero_point details_type details quantized_dimension)"
| call_DimensionMetadata: "in_range I8 format \<Longrightarrow> in_range I32 dense_size \<Longrightarrow> in_range U8 array_segments_type \<Longrightarrow>
    union_agrees \<Gamma> SparseIndexVectorTraits array_segments_type array_segments \<Longrightarrow>
    in_range U8 array_indices_type \<Longrightarrow>
    union_agrees \<Gamma> SparseIndexVectorTraits array_indices_type array_indices \<Longrightarrow>
    call \<Gamma> Verify_DimensionMetadata (Create_DimensionMetadata format dense_size array_segments_type array_segments array_indices_type array_indices)"
| call_SparsityParameters: "typed \<Gamma> (Vector_of I32) traversal_order \<Longrightarrow> typed \<Gamma> (Vector_of I32) block_map \<Longrightarrow>
    typed \<Gamma> (Tables_of Verify_DimensionMetadata) dim_metadata \<Longrightarrow>
    call \<Gamma> Verify_SparsityParameters (Create_SparsityParameters traversal_order block_map dim_metadata)"
| call_Tensor: "typed \<Gamma> (Vector_of I32) shape \<Longrightarrow> in_range I8 type \<Longrightarrow> in_range U32 buffer \<Longrightarrow>
    typed \<Gamma> String_type name \<Longrightarrow> typed \<Gamma> (Table_of Verify_QuantizationParameters) quantization \<Longrightarrow>
    in_range U8 is_variable \<Longrightarrow> typed \<Gamma> (Table_of Verify_SparsityParameters) sparsity \<Longrightarrow>
    typed \<Gamma> (Vector_of I32) shape_signature \<Longrightarrow>
    call \<Gamma> Verify_Tensor (Create_Tensor shape type buffer name quantization is_variable sparsity shape_signature)"
| call_Operator: "in_range U32 opcode_index \<Longrightarrow> typed \<Gamma> (Vector_of I32) inputs \<Longrightarrow>
    typed \<Gamma> (Vector_of I32) outputs \<Longrightarrow> in_range U8 builtin_options_type \<Longrightarrow>
    union_agrees \<Gamma> BuiltinOptionsTraits builtin_options_type builtin_options \<Longrightarrow>
    typed \<Gamma> (Vector_of U8) custom_options \<Longrightarrow> in_range I8 custom_options_format \<Longrightarrow>
    typed \<Gamma> (Vector_of U8) mutating_variable_inputs \<Longrightarrow> typed \<Gamma> (Vector_of I32) intermediates \<Longrightarrow>
    call \<Gamma> Verify_Operator (Create_Operator opcode_index inputs outputs builtin_options_type builtin_options custom_options custom_options_format mutating_variable_inputs intermediates)"
| call_SubGraph: "typed \<Gamma> (Tables_of Verify_Tensor) tensors \<Longrightarrow> typed \<Gamma> (Vector_of I32) inputs \<Longrightarrow>
    typed \<Gamma> (Vector_of I32) outputs \<Longrightarrow> typed \<Gamma> (Tables_of Verify_Operator) operators \<Longrightarrow>
    typed \<Gamma> String_type name \<Longrightarrow> call \<Gamma> Verify_SubGraph (Create_SubGraph tensors inputs outputs operators name)"
| call_SignatureDef: "typed \<Gamma> (Tables_of Verify_TensorMap) inputs \<Longrightarrow> typed \<Gamma> (Tables_of Verify_TensorMap) outputs \<Longrightarrow>
    typed \<Gamma> String_type method_name \<Longrightarrow> typed \<Gamma> String_type key \<Longrightarrow>
    call \<Gamma> Verify_SignatureDef (Create_SignatureDef inputs outputs method_name key)"
| call_Model: "in_range U32 version \<Longrightarrow> typed \<Gamma> (Tables_of Verify_OperatorCode) operator_codes \<Longrightarrow>
    typed \<Gamma> (Tables_of Verify_SubGraph) subgraphs \<Longrightarrow> typed \<Gamma> String_type description \<Longrightarrow>
    typed \<Gamma> (Tables_of Verify_Buffer) buffers \<Longrightarrow> typed \<Gamma> (Vector_of I32) metadata_buffer \<Longrightarrow>
    typed \<Gamma> (Tables_of Verify_Metadata) metadata \<Longrightarrow>
    typed \<Gamma> (Tables_of Verify_SignatureDef) signature_defs \<Longrightarrow>
    call \<Gamma> Verify_Model (Create_Model version operator_codes subgraphs description buffers metadata_buffer metadata signature_defs)"

section \<open>The tables that are built\<close>

lemma added_simps [simp]: "added [] key = None" "added (f # fs) key = (if add_key f = key then Some f else added fs key)"
  by (simp_all add: added_def)

lemma typed_offset: "typed \<Gamma> t off \<Longrightarrow> typing_of h \<Gamma> \<Longrightarrow> off \<noteq> 0 \<Longrightarrow> has_type h off t"
  by (auto simp: typed_def typing_of_def)

lemma typed_fits:
  assumes "typing_of h \<Gamma>"
  shows "typed \<Gamma> (Vector_of ty) off \<Longrightarrow> off = 0 \<or> (case h off of Some (Vec ty' xs) \<Rightarrow> ty' = ty | _ \<Rightarrow> False)"
    "typed \<Gamma> String_type off \<Longrightarrow> off = 0 \<or> (case h off of Some (Str bs) \<Rightarrow> True | _ \<Rightarrow> False)"
    "typed \<Gamma> (Table_of gs) off \<Longrightarrow> off = 0 \<or> table_fits (map fits gs) h off"
    "typed \<Gamma> (Tables_of gs) off \<Longrightarrow> off = 0 \<or> (case h off of Some (OffVec os) \<Rightarrow> list_all (table_fits (map fits gs) h) os | _ \<Rightarrow> False)"
  using typed_offset[OF _ assms] by fastforce+

lemma leaf_fits:
  assumes "leaf_call \<Gamma> gs fs" "typing_of h \<Gamma>"
  shows "list_all (\<lambda>F. fits F h fs) gs"
  using assms(1) typed_fits[OF assms(2)]
  by (cases rule: leaf_call.cases)
    (simp_all add: schema_create_defs schema_verify_defs adds_scalar_def refers_def)

text \<open>The traits and the verify functions of the unions agree.\<close>

lemma traits_agree: "QuantizationDetailsTraits = QuantizationDetails_alternatives" "SparseIndexVectorTraits = SparseIndexVector_alternatives"
    "BuiltinOptionsTraits = BuiltinOptions_alternatives"
  by (simp_all only: QuantizationDetailsTraits_def QuantizationDetails_alternatives_def SparseIndexVectorTraits_def SparseIndexVector_alternatives_def
      BuiltinOptionsTraits_def BuiltinOptions_alternatives_def)

lemma union_fits:
  assumes "typing_of h \<Gamma>" "union_agrees \<Gamma> alts ty off"
  shows "off = 0 \<or> (case map_of (map (map_prod id (map fits)) alts) ty of None \<Rightarrow> h off \<noteq> None | Some ps \<Rightarrow> table_fits ps h off)"
proof (cases "off = 0")
  case False
  have "h off \<noteq> None" if "\<Gamma> off = Some t" for t
  proof -
    have "has_type h off t" using assms(1) that by (simp add: typing_of_def)
    then show ?thesis by (cases t) (auto simp: table_fits_def split: option.splits)
  qed
  then show ?thesis using assms(2) False typed_fits(3)[OF assms(1), of _ off]
    by (auto simp: union_agrees_def typed_def map_of_alternatives split: option.splits)
qed simp

lemmas added_defs = adds_scalar_def adds_type_def refers_def union_type_def

lemma call_fits:
  assumes "call \<Gamma> gs fs" "typing_of h \<Gamma>"
  shows "list_all (\<lambda>F. fits F h fs) gs"
  using assms(1)
proof (cases rule: call.cases)
  case call_leaf
  then show ?thesis by (rule leaf_fits[OF _ assms(2)])
next
  case call_QuantizationParameters
  then show ?thesis using typed_fits[OF assms(2)] union_fits[OF assms(2)] by (simp del: not_None_eq add: traits_agree added_defs Create_QuantizationParameters_def Verify_QuantizationParameters_def)
next
  case call_DimensionMetadata
  then show ?thesis using union_fits[OF assms(2)] by (simp del: not_None_eq add: traits_agree added_defs Create_DimensionMetadata_def Verify_DimensionMetadata_def)
next
  case call_SparsityParameters
  then show ?thesis using typed_fits[OF assms(2)] by (simp add: added_defs Create_SparsityParameters_def Verify_SparsityParameters_def)
next
  case call_Tensor
  then show ?thesis using typed_fits[OF assms(2)] by (simp add: added_defs Create_Tensor_def Verify_Tensor_def)
next
  case call_Operator
  then show ?thesis using typed_fits[OF assms(2)] union_fits[OF assms(2)] by (simp del: not_None_eq add: traits_agree added_defs Create_Operator_def Verify_Operator_def)
next
  case call_SubGraph
  then show ?thesis using typed_fits[OF assms(2)] by (simp add: added_defs Create_SubGraph_def Verify_SubGraph_def)
next
  case call_SignatureDef
  then show ?thesis using typed_fits[OF assms(2)] by (simp add: added_defs Create_SignatureDef_def Verify_SignatureDef_def)
next
  case call_Model
  then show ?thesis using typed_fits[OF assms(2)] by (simp add: added_defs Create_Model_def Verify_Model_def)
qed

end
