(* ===== verification/Typed_Programs.thy ===== *)
theory Typed_Programs
  imports Create_Calls
begin

text \<open>
  Programs that build tables through the generated functions: they make strings, vectors, vectors of tables and tables, every argument having its
  C++ type and every union a table that agrees with its tag. The types of the offsets last while the program goes on, and the functions that also build the vectors and
  strings of a table add exactly these, the data of forced vectors aligned, and the table that refers to them.
\<close>

section \<open>Arguments\<close>

lemma typed_known: "typed \<Gamma> t off \<Longrightarrow> off = 0 \<or> off \<in> dom \<Gamma>"
  by (auto simp: typed_def)

lemma union_known: "union_agrees \<Gamma> alts ty off \<Longrightarrow> off = 0 \<or> off \<in> dom \<Gamma>"
  by (auto simp: union_agrees_def split: option.splits)

text \<open>The fields of a call can be given to the builder: their keys are distinct keys of the schema, scalars are in range and offsets are known.\<close>

definition call_ok :: "int set \<Rightarrow> field_add list \<Rightarrow> bool" where
  "call_ok offs fs \<longleftrightarrow> list_all (field_ok offs) fs \<and> distinct (map add_key fs) \<and> length fs \<le> 4000"

lemma leaf_ok: "leaf_call \<Gamma> gs fs \<Longrightarrow> call_ok (dom \<Gamma>) fs"
  by (induction rule: leaf_call.induct) (simp_all add: schema_create_defs call_ok_def field_ok_def key_ok_def typed_known)

lemma fields_ok: "call \<Gamma> gs fs \<Longrightarrow> call_ok (dom \<Gamma>) fs"
  by (induction rule: call.induct) (simp_all add: leaf_ok[unfolded call_ok_def] schema_create_defs call_ok_def field_ok_def key_ok_def typed_known union_known)

lemma field_ok_mono: "field_ok offs f \<Longrightarrow> offs \<subseteq> offs' \<Longrightarrow> field_ok offs' f"
  by (cases f) (auto simp: field_ok_def)

lemma call_object_ok: "call \<Gamma> gs fs \<Longrightarrow> dom \<Gamma> \<subseteq> offs \<Longrightarrow> n + 200000 < 2 ^ 31 - 1 \<Longrightarrow> object_ok offs n (Table fs)"
  using fields_ok[of \<Gamma> gs fs] field_ok_mono[of "dom \<Gamma>" _ offs] by (simp add: call_ok_def list_all_iff)

section \<open>Types of objects last\<close>

lemma table_fits_mono:
  assumes "\<And>F fs. F \<in> set gs \<Longrightarrow> fits F h fs \<Longrightarrow> fits F h' fs" "h \<subseteq>\<^sub>m h'" "table_fits (map fits gs) h off"
  shows "table_fits (map fits gs) h' off"
proof -
  obtain fs where fs: "h off = Some (Table fs)" "\<forall>F \<in> set gs. fits F h fs"
    using assms(3) by (auto simp: table_fits_def list_all_iff split: option.splits fb_object.splits)
  then have "h' off = Some (Table fs)" using assms(2) by (auto simp: map_le_def dom_def)
  then show ?thesis using fs(2) assms(1) by (simp add: table_fits_def list_all_iff)
qed

lemma refers_mono: "refers P fs key \<Longrightarrow> (\<And>off. P off \<Longrightarrow> Q off) \<Longrightarrow> refers Q fs key"
  by (auto simp: refers_def split: option.splits field_add.splits)

lemma heap_mono: "h \<subseteq>\<^sub>m h' \<Longrightarrow> h off = Some obj \<Longrightarrow> h' off = Some obj"
  by (auto simp: map_le_def dom_def)

lemma fits_mono: "h \<subseteq>\<^sub>m h' \<Longrightarrow> fits F h fs \<Longrightarrow> fits F h' fs"
proof (induction F arbitrary: fs)
  case (Scalars ty vt)
  then show ?case by (auto elim!: refers_mono simp: heap_mono split: option.splits fb_object.splits)
next
  case (Text vt)
  have "case h' off of Some (Str bs) \<Rightarrow> True | _ \<Rightarrow> False" if "case h off of Some (Str bs) \<Rightarrow> True | _ \<Rightarrow> False" for off
    using that heap_mono[OF Text.prems(1), of off] by (auto split: option.splits fb_object.splits)
  then show ?case using Text.prems(2) by (auto elim!: refers_mono)
next
  case (Subtable vt gs)
  have "table_fits (map fits gs) h' off" if "table_fits (map fits gs) h off" for off
    by (rule table_fits_mono[OF _ Subtable.prems(1) that]) (rule Subtable.IH[OF _ Subtable.prems(1)])
  then show ?case using Subtable.prems(2) by (auto elim!: refers_mono)
next
  case (Subtables vt gs)
  have t: "table_fits (map fits gs) h' off" if "table_fits (map fits gs) h off" for off
    by (rule table_fits_mono[OF _ Subtables.prems(1) that]) (rule Subtables.IH[OF _ Subtables.prems(1)])
  have "case h' off of Some (OffVec os) \<Rightarrow> list_all (table_fits (map fits gs) h') os | _ \<Rightarrow> False"
    if "case h off of Some (OffVec os) \<Rightarrow> list_all (table_fits (map fits gs) h) os | _ \<Rightarrow> False" for off
    using that t heap_mono[OF Subtables.prems(1), of off] by (auto simp: list_all_iff split: option.splits fb_object.splits)
  then show ?case using Subtables.prems(2) by (auto elim!: refers_mono)
next
  case (Union vt_type vt alts)
  have t: "table_fits (map fits gs) h' off" if "(ty, gs) \<in> set alts" "table_fits (map fits gs) h off" for ty gs off
    by (rule table_fits_mono[OF _ Union.prems(1) that(2)]) (use Union.IH[OF that(1), of gs] Union.prems(1) in auto)
  let ?P = "\<lambda>h off. case map_of (map (map_prod id (map fits)) alts) (union_type fs vt_type) of None \<Rightarrow> h off \<noteq> None | Some ps \<Rightarrow> table_fits ps h off"
  have "?P h' off" if "?P h off" for off
    using that t heap_mono[OF Union.prems(1), of off] by (auto simp: map_of_alternatives dest: map_of_SomeD split: option.splits)
  then show ?case using Union.prems(2) by (auto elim!: refers_mono)
qed simp

lemma has_type_mono: "has_type h off t \<Longrightarrow> h \<subseteq>\<^sub>m h' \<Longrightarrow> has_type h' off t"
proof (induction h off t rule: has_type.induct)
  case (3 h off gs)
  then show ?case using table_fits_mono[OF fits_mono[OF 3(2)] 3(2)] by simp
next
  case (4 h off gs)
  have "table_fits (map fits gs) h' x" if "table_fits (map fits gs) h x" for x
    by (rule table_fits_mono[OF fits_mono[OF 4(2)] 4(2) that])
  then show ?case using 4(1) heap_mono[OF 4(2), of off] by (auto simp: list_all_iff split: option.splits fb_object.splits)
qed (auto simp: heap_mono split: option.splits fb_object.splits)

lemma typing_of_mono: "typing_of h \<Gamma> \<Longrightarrow> h \<subseteq>\<^sub>m h' \<Longrightarrow> typing_of h' \<Gamma>"
  by (auto simp: typing_of_def intro: has_type_mono)

section \<open>Programs\<close>

text \<open>
  What a program does with a builder, with the objects that exist and the types their offsets have: an \<open>Offset<T>\<close> comes from a function that returns one.
\<close>

inductive program :: "builder \<Rightarrow> (int \<times> fb_object) list \<Rightarrow> typing \<Rightarrow> bool" where
  program_new: "allocator_ok a \<Longrightarrow> 0 \<le> n \<Longrightarrow> program (FlatBufferBuilder_new a n (2 ^ k)) [] Map.empty"
| program_force: "program b objs \<Gamma> \<Longrightarrow> program (ForceDefaults fd b) objs \<Gamma>"
| program_dedup: "program b objs \<Gamma> \<Longrightarrow> program (DedupVtables dd b) objs \<Gamma>"
| program_clear: "program b objs \<Gamma> \<Longrightarrow> program (Builder_Clear b) [] Map.empty"
| program_align: "program b objs \<Gamma> \<Longrightarrow> 0 \<le> len * elemsize \<Longrightarrow> len * elemsize < 2 ^ 32 \<Longrightarrow> GetSize b + 64 < 2 ^ 31 - 1 \<Longrightarrow>
    ForceVectorAlignment len elemsize alignment b = Inr b' \<Longrightarrow> program b' objs \<Gamma>"
| program_string: "program b objs \<Gamma> \<Longrightarrow> GetSize b + int (length s) + 32 < 2 ^ 31 - 1 \<Longrightarrow>
    CreateString s b = Inr (loc, b') \<Longrightarrow> program b' ((loc, Str s) # objs) (\<Gamma>(loc \<mapsto> String_type))"
| program_vector: "program b objs \<Gamma> \<Longrightarrow> list_all (in_range ty) xs \<Longrightarrow> GetSize b + int (length xs) * int (sizeof ty) + 64 < 2 ^ 31 - 1 \<Longrightarrow>
    CreateVector ty xs b = Inr (loc, b') \<Longrightarrow> program b' ((loc, Vec ty xs) # objs) (\<Gamma>(loc \<mapsto> Vector_of ty))"
| program_tables: "program b objs \<Gamma> \<Longrightarrow> list_all (\<lambda>off. \<Gamma> off = Some (Table_of gs)) offs \<Longrightarrow> GetSize b + 4 * int (length offs) + 64 < 2 ^ 31 - 1 \<Longrightarrow>
    CreateVector_offsets offs b = Inr (loc, b') \<Longrightarrow> program b' ((loc, OffVec offs) # objs) (\<Gamma>(loc \<mapsto> Tables_of gs))"
| program_table: "program b objs \<Gamma> \<Longrightarrow> call \<Gamma> gs fs \<Longrightarrow> GetSize b + 200000 < 2 ^ 31 - 1 \<Longrightarrow>
    create_table fs b = Inr (loc, b') \<Longrightarrow> program b' ((loc, Table fs) # objs) (\<Gamma>(loc \<mapsto> Table_of gs))"

definition program_inv :: "builder \<Rightarrow> (int \<times> fb_object) list \<Rightarrow> typing \<Rightarrow> bool" where
  "program_inv b objs \<Gamma> \<longleftrightarrow> session b objs \<and> typing_of (map_of objs) \<Gamma> \<and> dom \<Gamma> \<subseteq> fst ` set objs"

lemma session_distinct: "session b objs \<Longrightarrow> distinct (map fst objs)"
  using session_invariant session_invE by metis

lemma inv_step:
  assumes inv: "program_inv b objs \<Gamma>" and o: "object_ok (fst ` set objs) (GetSize b) obj" "build obj b = Inr (loc, b')"
    and t: "typing_of ((map_of objs)(loc \<mapsto> obj)) \<Gamma> \<Longrightarrow> has_type ((map_of objs)(loc \<mapsto> obj)) loc t"
  shows "program_inv b' ((loc, obj) # objs) (\<Gamma>(loc \<mapsto> t))"
proof -
  have s: "session b' ((loc, obj) # objs)" using session_build[OF _ o] inv by (simp add: program_inv_def)
  have "map_of objs \<subseteq>\<^sub>m (map_of objs)(loc \<mapsto> obj)" using session_distinct[OF s] by (force simp: map_le_def dest: map_of_SomeD)
  then have "typing_of ((map_of objs)(loc \<mapsto> obj)) \<Gamma>" using inv typing_of_mono by (auto simp: program_inv_def)
  then show ?thesis using s t inv by (auto simp: program_inv_def typing_of_def)
qed

lemma call_has_type: "call \<Gamma> gs fs \<Longrightarrow> typing_of h \<Gamma> \<Longrightarrow> h loc = Some (Table fs) \<Longrightarrow> has_type h loc (Table_of gs)"
  using call_fits[of \<Gamma> gs fs h] by (simp add: table_fits_def list_all_iff)

lemma program_invariant: "program b objs \<Gamma> \<Longrightarrow> program_inv b objs \<Gamma>"
proof (induction rule: program.induct)
  case (program_tables b objs \<Gamma> gs offs loc b')
  have d: "off \<in> fst ` set objs" if "off \<in> set offs" for off using program_tables.hyps(2) program_tables.IH that by (auto simp: program_inv_def list_all_iff)
  have o: "object_ok (fst ` set objs) (GetSize b) (OffVec offs)" using program_tables.hyps(3) d by (simp add: list_all_iff)
  show ?case
  proof (rule inv_step[OF program_tables.IH o])
    assume "typing_of ((map_of objs)(loc \<mapsto> OffVec offs)) \<Gamma>"
    then have "table_fits (map fits gs) ((map_of objs)(loc \<mapsto> OffVec offs)) off" if "off \<in> set offs" for off
      using that program_tables.hyps(2) by (fastforce simp: typing_of_def list_all_iff)
    then show "has_type ((map_of objs)(loc \<mapsto> OffVec offs)) loc (Tables_of gs)" by (simp add: list_all_iff)
  qed (use program_tables.hyps(4) in simp)
next
  case (program_table b objs \<Gamma> gs fs loc b')
  have o: "object_ok (fst ` set objs) (GetSize b) (Table fs)"
    using program_table.IH by (intro call_object_ok[OF program_table.hyps(2) _ program_table.hyps(3)]) (simp add: program_inv_def)
  show ?case by (rule inv_step[OF program_table.IH o]) (use program_table.hyps(4) call_has_type[OF program_table.hyps(2)] in auto)
next
  case (program_string b objs \<Gamma> s loc b')
  then show ?case by (intro inv_step[OF program_string.IH]) simp_all
next
  case (program_vector b objs \<Gamma> ty xs loc b')
  then show ?case by (intro inv_step[OF program_vector.IH]) simp_all
qed (auto simp: program_inv_def typing_of_def intro: session.intros)

section \<open>Functions that build the parts of a table\<close>

text \<open>A vector or a string that is given, and the room it may take.\<close>

definition numbers_given :: "scalar_type \<Rightarrow> int list option \<Rightarrow> bool" where
  "numbers_given ty x \<longleftrightarrow> (\<forall>xs. x = Some xs \<longrightarrow> list_all (in_range ty) xs)"

definition tables_given :: "typing \<Rightarrow> fb_field list \<Rightarrow> int list option \<Rightarrow> bool" where
  "tables_given \<Gamma> gs x \<longleftrightarrow> (\<forall>offs. x = Some offs \<longrightarrow> list_all (\<lambda>off. \<Gamma> off = Some (Table_of gs)) offs)"

definition part_room :: "fb_object option \<Rightarrow> int" where
  "part_room x = (case x of None \<Rightarrow> 0 | Some obj \<Rightarrow> cost obj + 64)"

text \<open>
  Calls of the functions \<open>Create...Direct\<close>, with the type of their result, the parts they build in their order, the alignment the schema forces for the
  data of the first part (1 if none), and the fields of the table as a function of the offsets of the parts, which take the places of the vectors and strings among the parameters.
\<close>

inductive direct_call ::
  "typing \<Rightarrow> fb_field list \<Rightarrow> fb_object option list \<Rightarrow> int \<Rightarrow> (int list \<Rightarrow> field_add list) \<Rightarrow> (builder \<Rightarrow> (int \<times> builder) res) \<Rightarrow> bool" for \<Gamma> where
  direct_CustomQuantization: "numbers_given U8 custom \<Longrightarrow>
    direct_call \<Gamma> Verify_CustomQuantization [map_option (Vec U8) custom]
      16 (\<lambda>offs. Create_CustomQuantization (offs ! 0))
      (CreateCustomQuantizationDirect custom)"
| direct_QuantizationParameters: "numbers_given F32 vmin \<Longrightarrow> numbers_given F32 vmax \<Longrightarrow> numbers_given F32 scale \<Longrightarrow>
    numbers_given I64 zero_point \<Longrightarrow> in_range U8 details_type \<Longrightarrow>
    union_agrees \<Gamma> QuantizationDetailsTraits details_type details \<Longrightarrow> in_range I32 quantized_dimension \<Longrightarrow>
    direct_call \<Gamma> Verify_QuantizationParameters [map_option (Vec F32) vmin, map_option (Vec F32) vmax, map_option (Vec F32) scale, map_option (Vec I64) zero_point]
      1 (\<lambda>offs. Create_QuantizationParameters (offs ! 0) (offs ! 1) (offs ! 2) (offs ! 3) details_type details quantized_dimension)
      (CreateQuantizationParametersDirect vmin vmax scale zero_point details_type details quantized_dimension)"
| direct_Int32Vector: "numbers_given I32 values \<Longrightarrow>
    direct_call \<Gamma> Verify_Int32Vector [map_option (Vec I32) values]
      1 (\<lambda>offs. Create_Int32Vector (offs ! 0))
      (CreateInt32VectorDirect values)"
| direct_Uint16Vector: "numbers_given U16 values \<Longrightarrow>
    direct_call \<Gamma> Verify_Uint16Vector [map_option (Vec U16) values]
      4 (\<lambda>offs. Create_Uint16Vector (offs ! 0))
      (CreateUint16VectorDirect values)"
| direct_Uint8Vector: "numbers_given U8 values \<Longrightarrow>
    direct_call \<Gamma> Verify_Uint8Vector [map_option (Vec U8) values]
      4 (\<lambda>offs. Create_Uint8Vector (offs ! 0))
      (CreateUint8VectorDirect values)"
| direct_SparsityParameters: "numbers_given I32 traversal_order \<Longrightarrow> numbers_given I32 block_map \<Longrightarrow>
    tables_given \<Gamma> Verify_DimensionMetadata dim_metadata \<Longrightarrow>
    direct_call \<Gamma> Verify_SparsityParameters [map_option (Vec I32) traversal_order, map_option (Vec I32) block_map, map_option OffVec dim_metadata]
      1 (\<lambda>offs. Create_SparsityParameters (offs ! 0) (offs ! 1) (offs ! 2))
      (CreateSparsityParametersDirect traversal_order block_map dim_metadata)"
| direct_Tensor: "numbers_given I32 shape \<Longrightarrow> in_range I8 type \<Longrightarrow> in_range U32 buffer \<Longrightarrow>
    typed \<Gamma> (Table_of Verify_QuantizationParameters) quantization \<Longrightarrow> in_range U8 is_variable \<Longrightarrow>
    typed \<Gamma> (Table_of Verify_SparsityParameters) sparsity \<Longrightarrow> numbers_given I32 shape_signature \<Longrightarrow>
    direct_call \<Gamma> Verify_Tensor [map_option (Vec I32) shape, map_option Str name, map_option (Vec I32) shape_signature]
      1 (\<lambda>offs. Create_Tensor (offs ! 0) type buffer (offs ! 1) quantization is_variable sparsity (offs ! 2))
      (CreateTensorDirect shape type buffer name quantization is_variable sparsity shape_signature)"
| direct_ConcatEmbeddingsOptions: "in_range I32 num_channels \<Longrightarrow> numbers_given I32 num_columns_per_channel \<Longrightarrow>
    numbers_given I32 embedding_dim_per_channel \<Longrightarrow>
    direct_call \<Gamma> Verify_ConcatEmbeddingsOptions [map_option (Vec I32) num_columns_per_channel, map_option (Vec I32) embedding_dim_per_channel]
      1 (\<lambda>offs. Create_ConcatEmbeddingsOptions num_channels (offs ! 0) (offs ! 1))
      (CreateConcatEmbeddingsOptionsDirect num_channels num_columns_per_channel embedding_dim_per_channel)"
| direct_ReshapeOptions: "numbers_given I32 new_shape \<Longrightarrow>
    direct_call \<Gamma> Verify_ReshapeOptions [map_option (Vec I32) new_shape]
      1 (\<lambda>offs. Create_ReshapeOptions (offs ! 0))
      (CreateReshapeOptionsDirect new_shape)"
| direct_SqueezeOptions: "numbers_given I32 squeeze_dims \<Longrightarrow>
    direct_call \<Gamma> Verify_SqueezeOptions [map_option (Vec I32) squeeze_dims]
      1 (\<lambda>offs. Create_SqueezeOptions (offs ! 0))
      (CreateSqueezeOptionsDirect squeeze_dims)"
| direct_OperatorCode: "in_range I8 deprecated_builtin_code \<Longrightarrow> in_range I32 version \<Longrightarrow> in_range I32 builtin_code \<Longrightarrow>
    direct_call \<Gamma> Verify_OperatorCode [map_option Str custom_code]
      1 (\<lambda>offs. Create_OperatorCode deprecated_builtin_code (offs ! 0) version builtin_code)
      (CreateOperatorCodeDirect deprecated_builtin_code custom_code version builtin_code)"
| direct_Operator: "in_range U32 opcode_index \<Longrightarrow> numbers_given I32 inputs \<Longrightarrow> numbers_given I32 outputs \<Longrightarrow>
    in_range U8 builtin_options_type \<Longrightarrow>
    union_agrees \<Gamma> BuiltinOptionsTraits builtin_options_type builtin_options \<Longrightarrow>
    numbers_given U8 custom_options \<Longrightarrow> in_range I8 custom_options_format \<Longrightarrow>
    numbers_given U8 mutating_variable_inputs \<Longrightarrow> numbers_given I32 intermediates \<Longrightarrow>
    direct_call \<Gamma> Verify_Operator [map_option (Vec I32) inputs, map_option (Vec I32) outputs, map_option (Vec U8) custom_options, map_option (Vec U8) mutating_variable_inputs, map_option (Vec I32) intermediates]
      1 (\<lambda>offs. Create_Operator opcode_index (offs ! 0) (offs ! 1) builtin_options_type builtin_options (offs ! 2) custom_options_format (offs ! 3) (offs ! 4))
      (CreateOperatorDirect opcode_index inputs outputs builtin_options_type builtin_options custom_options custom_options_format mutating_variable_inputs intermediates)"
| direct_SubGraph: "tables_given \<Gamma> Verify_Tensor tensors \<Longrightarrow> numbers_given I32 inputs \<Longrightarrow>
    numbers_given I32 outputs \<Longrightarrow> tables_given \<Gamma> Verify_Operator operators \<Longrightarrow>
    direct_call \<Gamma> Verify_SubGraph [map_option OffVec tensors, map_option (Vec I32) inputs, map_option (Vec I32) outputs, map_option OffVec operators, map_option Str name]
      1 (\<lambda>offs. Create_SubGraph (offs ! 0) (offs ! 1) (offs ! 2) (offs ! 3) (offs ! 4))
      (CreateSubGraphDirect tensors inputs outputs operators name)"
| direct_Buffer: "numbers_given U8 data \<Longrightarrow>
    direct_call \<Gamma> Verify_Buffer [map_option (Vec U8) data]
      16 (\<lambda>offs. Create_Buffer (offs ! 0))
      (CreateBufferDirect data)"
| direct_Metadata: "in_range U32 buffer \<Longrightarrow>
    direct_call \<Gamma> Verify_Metadata [map_option Str name]
      1 (\<lambda>offs. Create_Metadata (offs ! 0) buffer)
      (CreateMetadataDirect name buffer)"
| direct_TensorMap: "in_range U32 tensor_index \<Longrightarrow>
    direct_call \<Gamma> Verify_TensorMap [map_option Str name]
      1 (\<lambda>offs. Create_TensorMap (offs ! 0) tensor_index)
      (CreateTensorMapDirect name tensor_index)"
| direct_SignatureDef: "tables_given \<Gamma> Verify_TensorMap inputs \<Longrightarrow> tables_given \<Gamma> Verify_TensorMap outputs \<Longrightarrow>
    direct_call \<Gamma> Verify_SignatureDef [map_option OffVec inputs, map_option OffVec outputs, map_option Str method_name, map_option Str key]
      1 (\<lambda>offs. Create_SignatureDef (offs ! 0) (offs ! 1) (offs ! 2) (offs ! 3))
      (CreateSignatureDefDirect inputs outputs method_name key)"
| direct_Model: "in_range U32 version \<Longrightarrow> tables_given \<Gamma> Verify_OperatorCode operator_codes \<Longrightarrow>
    tables_given \<Gamma> Verify_SubGraph subgraphs \<Longrightarrow> tables_given \<Gamma> Verify_Buffer buffers \<Longrightarrow>
    numbers_given I32 metadata_buffer \<Longrightarrow> tables_given \<Gamma> Verify_Metadata metadata \<Longrightarrow>
    tables_given \<Gamma> Verify_SignatureDef signature_defs \<Longrightarrow>
    direct_call \<Gamma> Verify_Model [map_option OffVec operator_codes, map_option OffVec subgraphs, map_option Str description, map_option OffVec buffers, map_option (Vec I32) metadata_buffer, map_option OffVec metadata, map_option OffVec signature_defs]
      1 (\<lambda>offs. Create_Model version (offs ! 0) (offs ! 1) (offs ! 2) (offs ! 3) (offs ! 4) (offs ! 5) (offs ! 6))
      (CreateModelDirect version operator_codes subgraphs description buffers metadata_buffer metadata signature_defs)"

text \<open>The parts that are given, with their offsets, the one built last in front; a part that is not given has offset 0.\<close>

definition given_parts :: "fb_object option list \<Rightarrow> int list \<Rightarrow> (int \<times> fb_object) list" where
  "given_parts parts offs = rev (concat (map2 (\<lambda>x off. case x of None \<Rightarrow> [] | Some obj \<Rightarrow> [(off, obj)]) parts offs))"

definition parts_at :: "fb_object option list \<Rightarrow> int list \<Rightarrow> bool" where
  "parts_at parts offs \<longleftrightarrow> list_all2 (\<lambda>x off. x = None \<longleftrightarrow> off = 0) parts offs"

lemma parts_simps [simp]:
  "given_parts [] [] = []" "given_parts (None # ps) (off # offs) = given_parts ps offs"
  "given_parts (Some obj # ps) (off # offs) = given_parts ps offs @ [(off, obj)]"
  "parts_at [] offs \<longleftrightarrow> offs = []" "parts_at (x # ps) (off # offs) \<longleftrightarrow> (x = None \<longleftrightarrow> off = 0) \<and> parts_at ps offs"
  by (simp_all add: given_parts_def parts_at_def)

text \<open>The data of the first part, four bytes after the offset of its length, is at a multiple of \<open>al\<close> from the end, and the buffer will be padded to one.\<close>

definition first_aligned :: "int \<Rightarrow> fb_object option list \<Rightarrow> int list \<Rightarrow> builder \<Rightarrow> bool" where
  "first_aligned al parts offs b \<longleftrightarrow> (parts \<noteq> [] \<and> hd parts \<noteq> None \<longrightarrow> (hd offs - 4) mod al = 0 \<and> al \<le> minalign b)"

text \<open>
  A function makes a table of a type from its parts in every program whose types satisfy \<open>H\<close> and that has room for \<open>n\<close> bytes: it adds the parts
  that are given and the table with the fields \<open>mk\<close> gives for their offsets, and nothing else.
\<close>

definition makes ::
  "fb_field list \<Rightarrow> int \<Rightarrow> (typing \<Rightarrow> bool) \<Rightarrow> fb_object option list \<Rightarrow> int \<Rightarrow> (int list \<Rightarrow> field_add list) \<Rightarrow> (builder \<Rightarrow> (int \<times> builder) res) \<Rightarrow> bool" where
  "makes gs n H parts al mk f \<longleftrightarrow> (\<forall>b objs \<Gamma>. program b objs \<Gamma> \<and> H \<Gamma> \<and> GetSize b + n < 2 ^ 31 - 1 \<longrightarrow>
     (\<exists>loc b' offs \<Gamma>'. f b = Inr (loc, b') \<and> parts_at parts offs \<and> program b' ((loc, Table (mk offs)) # given_parts parts offs @ objs) \<Gamma>' \<and>
        \<Gamma> \<subseteq>\<^sub>m \<Gamma>' \<and> \<Gamma>' loc = Some (Table_of gs) \<and> minalign b \<le> minalign b' \<and> first_aligned al parts offs b'))"

lemma makesE:
  assumes "makes gs n H parts al mk f" "program b objs \<Gamma>" "H \<Gamma>" "GetSize b + n < 2 ^ 31 - 1"
  obtains loc b' offs \<Gamma>' where "f b = Inr (loc, b')" "parts_at parts offs" "program b' ((loc, Table (mk offs)) # given_parts parts offs @ objs) \<Gamma>'"
    "\<Gamma> \<subseteq>\<^sub>m \<Gamma>'" "\<Gamma>' loc = Some (Table_of gs)" "minalign b \<le> minalign b'" "first_aligned al parts offs b'"
  using assms unfolding makes_def by blast

lemma makes_mono: "makes gs n H parts al mk f \<Longrightarrow> n \<le> m \<Longrightarrow> makes gs m H parts al mk f"
  by (fastforce simp: makes_def)

text \<open>What is known of the types stays true when more offsets are known.\<close>

definition lasting :: "(typing \<Rightarrow> bool) \<Rightarrow> bool" where
  "lasting H \<longleftrightarrow> (\<forall>\<Gamma> \<Gamma>'. H \<Gamma> \<longrightarrow> \<Gamma> \<subseteq>\<^sub>m \<Gamma>' \<longrightarrow> H \<Gamma>')"

lemma typed_mono: "typed \<Gamma> t off \<Longrightarrow> \<Gamma> \<subseteq>\<^sub>m \<Gamma>' \<Longrightarrow> typed \<Gamma>' t off"
  by (auto simp: typed_def map_le_def dom_def)

lemma union_agrees_mono: "union_agrees \<Gamma> alts ty off \<Longrightarrow> \<Gamma> \<subseteq>\<^sub>m \<Gamma>' \<Longrightarrow> union_agrees \<Gamma>' alts ty off"
  by (auto simp: union_agrees_def map_le_def dom_def split: option.splits)

lemma lasting_rules:
  "lasting (\<lambda>\<Gamma>'. \<Gamma> \<subseteq>\<^sub>m \<Gamma>')" "lasting (\<lambda>\<Gamma>. typed \<Gamma> t off)" "lasting H \<Longrightarrow> lasting K \<Longrightarrow> lasting (\<lambda>\<Gamma>. H \<Gamma> \<and> K \<Gamma>)"
  by (auto simp: lasting_def intro: map_le_trans typed_mono)

lemma program_build:
  assumes p: "program b objs \<Gamma>" and o: "object_ok (fst ` set objs) (GetSize b) obj"
  obtains loc b' where "build obj b = Inr (loc, b')" "GetSize b' \<le> GetSize b + cost obj" "loc \<notin> dom \<Gamma>" "0 < loc" "minalign b \<le> minalign b'" "loc mod 4 = 0"
    "\<forall>ty xs. obj = Vec ty xs \<longrightarrow> (GetSize b + int (length xs) * int (sizeof ty)) mod 16 = 0 \<longrightarrow> loc = GetSize b + int (length xs) * int (sizeof ty) + 4"
proof -
  have inv: "program_inv b objs \<Gamma>" by (rule program_invariant[OF p])
  then have s: "session b objs" by (simp add: program_inv_def)
  obtain loc b' where b': "build obj b = Inr (loc, b')" "session_inv b' ((loc, obj) # objs)" "GetSize b' \<le> GetSize b + cost obj" "minalign b \<le> minalign b'"
      "\<forall>ty xs. obj = Vec ty xs \<longrightarrow> (GetSize b + int (length xs) * int (sizeof ty)) mod 16 = 0 \<longrightarrow> loc = GetSize b + int (length xs) * int (sizeof ty) + 4"
    using inv_build[OF session_invariant[OF s] o] .
  have "loc \<notin> fst ` set objs" using session_distinct[OF session_build[OF s o b'(1)]] by auto
  then have "loc \<notin> dom \<Gamma>" using inv by (auto simp: program_inv_def)
  obtain u where pl: "placed (minalign b') u loc obj" using session_invE[OF b'(2)] by (metis case_prodD list.set_intros(1))
  have "0 < loc" using pl by (simp add: placed_def)
  moreover have "loc mod 4 = 0" using pl by (cases obj) (simp_all add: placed_def)
  ultimately show ?thesis using that[OF b'(1,3) _ _ b'(4) _ b'(5)] \<open>loc \<notin> dom \<Gamma>\<close> by simp
qed

lemma program_minalign: "program b objs \<Gamma> \<Longrightarrow> 1 \<le> minalign b"
  using program_invariant[of b objs \<Gamma>] session_invariant[of b objs] by (auto simp: program_inv_def session_inv_def fbb_ok_def fbb_rep_def)

lemma makes_table:
  assumes "\<And>\<Gamma>. H \<Gamma> \<Longrightarrow> call \<Gamma> gs fs" "mk [] = fs"
  shows "makes gs 200000 H [] 1 mk (create_table fs)"
  unfolding makes_def
proof (intro allI impI)
  fix b objs \<Gamma> assume p: "program b objs \<Gamma> \<and> H \<Gamma> \<and> GetSize b + 200000 < 2 ^ 31 - 1"
  then have c: "call \<Gamma> gs fs" using assms(1) by blast
  then have o: "object_ok (fst ` set objs) (GetSize b) (Table fs)"
    using p program_invariant[of b objs \<Gamma>] by (intro call_object_ok[OF c]) (simp_all add: program_inv_def)
  obtain loc b' where b': "build (Table fs) b = Inr (loc, b')" "loc \<notin> dom \<Gamma>" "minalign b \<le> minalign b'" using program_build[OF _ o] p by metis
  have "program b' ((loc, Table fs) # objs) (\<Gamma>(loc \<mapsto> Table_of gs))" using p c b'(1) by (auto intro: program_table)
  moreover have "\<Gamma> \<subseteq>\<^sub>m \<Gamma>(loc \<mapsto> Table_of gs)" using b'(2) by (simp add: map_le_def)
  ultimately show "\<exists>loc b' offs \<Gamma>'. create_table fs b = Inr (loc, b') \<and> parts_at [] offs \<and> program b' ((loc, Table (mk offs)) # given_parts [] offs @ objs) \<Gamma>' \<and>
        \<Gamma> \<subseteq>\<^sub>m \<Gamma>' \<and> \<Gamma>' loc = Some (Table_of gs) \<and> minalign b \<le> minalign b' \<and> first_aligned 1 [] offs b'"
    using b'(1,3) assms(2) by (intro exI[of _ loc] exI[of _ b'] exI[of _ "[]"] exI[of _ "\<Gamma>(loc \<mapsto> Table_of gs)"]) (simp add: first_aligned_def)
qed

text \<open>The type a part has, if it may be built.\<close>

fun part_typed :: "typing \<Rightarrow> fb_object \<Rightarrow> off_type \<Rightarrow> bool" where
  "part_typed \<Gamma> (Vec ty xs) (Vector_of ty') \<longleftrightarrow> ty' = ty \<and> list_all (in_range ty) xs"
| "part_typed \<Gamma> (Str s) String_type \<longleftrightarrow> True"
| "part_typed \<Gamma> (OffVec offs) (Tables_of gs) \<longleftrightarrow> list_all (\<lambda>off. \<Gamma> off = Some (Table_of gs)) offs"
| "part_typed \<Gamma> obj t \<longleftrightarrow> False"

lemma part_program:
  assumes p: "program b objs \<Gamma>" and t: "part_typed \<Gamma> obj t" and room: "GetSize b + cost obj + 64 < 2 ^ 31 - 1"
  obtains loc b' where "build obj b = Inr (loc, b')" "GetSize b' \<le> GetSize b + cost obj" "program b' ((loc, obj) # objs) (\<Gamma>(loc \<mapsto> t))" "loc \<notin> dom \<Gamma>" "0 < loc"
    "minalign b \<le> minalign b'" "loc mod 4 = 0"
    "\<forall>ty xs. obj = Vec ty xs \<longrightarrow> (GetSize b + int (length xs) * int (sizeof ty)) mod 16 = 0 \<longrightarrow> loc = GetSize b + int (length xs) * int (sizeof ty) + 4"
proof -
  have inv: "program_inv b objs \<Gamma>" by (rule program_invariant[OF p])
  have o: "object_ok (fst ` set objs) (GetSize b) obj"
    using t room inv by (cases "(\<Gamma>, obj, t)" rule: part_typed.cases) (auto simp: list_all_iff program_inv_def)
  obtain loc b' where b': "build obj b = Inr (loc, b')" "GetSize b' \<le> GetSize b + cost obj" "loc \<notin> dom \<Gamma>" "0 < loc" "minalign b \<le> minalign b'" "loc mod 4 = 0"
    "\<forall>ty xs. obj = Vec ty xs \<longrightarrow> (GetSize b + int (length xs) * int (sizeof ty)) mod 16 = 0 \<longrightarrow> loc = GetSize b + int (length xs) * int (sizeof ty) + 4"
    using program_build[OF p o] .
  have "program b' ((loc, obj) # objs) (\<Gamma>(loc \<mapsto> t))"
    using t room b'(1) by (cases "(\<Gamma>, obj, t)" rule: part_typed.cases) (auto intro: program_vector[OF p] program_string[OF p] program_tables[OF p])
  then show ?thesis using that[OF b'(1,2) _ b'(3-7)] by blast
qed

text \<open>A part and what is made after it.\<close>

lemma part_then:
  assumes t: "x = Some obj" "part_typed \<Gamma> obj t" and H: "lasting H" "H \<Gamma>" and p: "program b objs \<Gamma>" "GetSize b + (n + part_room x) < 2 ^ 31 - 1" "0 \<le> n"
    and rest: "\<And>off. makes gs n (\<lambda>\<Gamma>. H \<Gamma> \<and> typed \<Gamma> t off) ps 1 (\<lambda>offs. mk (off # offs)) (rest off)"
  obtains off loc b' offs \<Gamma>' where "with_part x rest b = Inr (loc, b')" "parts_at (x # ps) (off # offs)"
    "program b' ((loc, Table (mk (off # offs))) # given_parts (x # ps) (off # offs) @ objs) \<Gamma>'" "\<Gamma> \<subseteq>\<^sub>m \<Gamma>'" "\<Gamma>' loc = Some (Table_of gs)" "minalign b \<le> minalign b'"
    "off mod 4 = 0" "\<forall>ty xs. obj = Vec ty xs \<longrightarrow> (GetSize b + int (length xs) * int (sizeof ty)) mod 16 = 0 \<longrightarrow> off = GetSize b + int (length xs) * int (sizeof ty) + 4"
proof -
  have "GetSize b + cost obj + 64 < 2 ^ 31 - 1" using t(1) p(2,3) by (simp add: part_room_def)
  then obtain off b1 where b1: "build obj b = Inr (off, b1)" "GetSize b1 \<le> GetSize b + cost obj" "program b1 ((off, obj) # objs) (\<Gamma>(off \<mapsto> t))" "off \<notin> dom \<Gamma>" "0 < off"
      "minalign b \<le> minalign b1" "off mod 4 = 0"
      "\<forall>ty xs. obj = Vec ty xs \<longrightarrow> (GetSize b + int (length xs) * int (sizeof ty)) mod 16 = 0 \<longrightarrow> off = GetSize b + int (length xs) * int (sizeof ty) + 4"
    using part_program[OF p(1) t(2)] by metis
  have le: "\<Gamma> \<subseteq>\<^sub>m \<Gamma>(off \<mapsto> t)" using b1(4) by (simp add: map_le_def)
  then have h: "H (\<Gamma>(off \<mapsto> t)) \<and> typed (\<Gamma>(off \<mapsto> t)) t off" using H unfolding lasting_def by (auto simp: typed_def)
  have room: "GetSize b1 + n < 2 ^ 31 - 1" using p(2) b1(2) t(1) by (simp add: part_room_def)
  obtain loc b' offs \<Gamma>' where r: "rest off b1 = Inr (loc, b')" "parts_at ps offs"
      "program b' ((loc, Table (mk (off # offs))) # given_parts ps offs @ (off, obj) # objs) \<Gamma>'" "\<Gamma>(off \<mapsto> t) \<subseteq>\<^sub>m \<Gamma>'" "\<Gamma>' loc = Some (Table_of gs)"
      "minalign b1 \<le> minalign b'" "first_aligned 1 ps offs b'"
    using makesE[OF rest b1(3) h room] .
  show ?thesis
    by (rule that[of loc b' off offs \<Gamma>']) (use r b1 t(1) map_le_trans[OF le r(4)] in \<open>simp_all add: with_part_def\<close>)
qed

lemma makes_part:
  assumes t: "\<And>obj \<Gamma>. x = Some obj \<Longrightarrow> H \<Gamma> \<Longrightarrow> part_typed \<Gamma> obj t" and H: "lasting H" and n: "0 \<le> n"
    and rest: "\<And>off. makes gs n (\<lambda>\<Gamma>. H \<Gamma> \<and> typed \<Gamma> t off) ps 1 (\<lambda>offs. mk (off # offs)) (rest off)"
  shows "makes gs (n + part_room x) H (x # ps) 1 mk (with_part x rest)"
  unfolding makes_def
proof (intro allI impI)
  fix b objs \<Gamma> assume p: "program b objs \<Gamma> \<and> H \<Gamma> \<and> GetSize b + (n + part_room x) < 2 ^ 31 - 1"
  let ?done = "\<lambda>loc b' offs \<Gamma>'. with_part x rest b = Inr (loc, b') \<and> parts_at (x # ps) offs \<and>
     program b' ((loc, Table (mk offs)) # given_parts (x # ps) offs @ objs) \<Gamma>' \<and> \<Gamma> \<subseteq>\<^sub>m \<Gamma>' \<and> \<Gamma>' loc = Some (Table_of gs) \<and> minalign b \<le> minalign b'"
  have "\<exists>loc b' offs \<Gamma>'. ?done loc b' offs \<Gamma>'"
  proof (cases x)
    case None
    have "H \<Gamma> \<and> typed \<Gamma> t 0" "GetSize b + n < 2 ^ 31 - 1" using p None by (simp_all add: typed_def part_room_def)
    then obtain loc b' offs \<Gamma>' where r: "rest 0 b = Inr (loc, b')" "parts_at ps offs" "program b' ((loc, Table (mk (0 # offs))) # given_parts ps offs @ objs) \<Gamma>'"
        "\<Gamma> \<subseteq>\<^sub>m \<Gamma>'" "\<Gamma>' loc = Some (Table_of gs)" "minalign b \<le> minalign b'"
      using makesE[OF rest] p by metis
    have "?done loc b' (0 # offs) \<Gamma>'" using r None by (simp add: with_part_def)
    then show ?thesis by blast
  next
    case (Some obj)
    have pt: "part_typed \<Gamma> obj t" using t[OF Some] p by blast
    obtain off loc b' offs \<Gamma>' where r: "with_part x rest b = Inr (loc, b')" "parts_at (x # ps) (off # offs)"
        "program b' ((loc, Table (mk (off # offs))) # given_parts (x # ps) (off # offs) @ objs) \<Gamma>'" "\<Gamma> \<subseteq>\<^sub>m \<Gamma>'" "\<Gamma>' loc = Some (Table_of gs)" "minalign b \<le> minalign b'"
      using part_then[where rest = rest and mk = mk, OF Some pt H _ _ _ n rest] p by metis
    have "?done loc b' (off # offs) \<Gamma>'" using r by simp
    then show ?thesis by blast
  qed
  then obtain loc b' offs \<Gamma>' where r: "?done loc b' offs \<Gamma>'" by blast
  then have "first_aligned 1 (x # ps) offs b'" using program_minalign by (auto simp: first_aligned_def)
  then show "\<exists>loc b' offs \<Gamma>'. with_part x rest b = Inr (loc, b') \<and> parts_at (x # ps) offs \<and> program b' ((loc, Table (mk offs)) # given_parts (x # ps) offs @ objs) \<Gamma>' \<and>
        \<Gamma> \<subseteq>\<^sub>m \<Gamma>' \<and> \<Gamma>' loc = Some (Table_of gs) \<and> minalign b \<le> minalign b' \<and> first_aligned 1 (x # ps) offs b'"
    using r by blast
qed

text \<open>A vector whose alignment is forced, as the first part.\<close>

lemma forced_place:
  fixes s n a :: int
  assumes "(s + n) mod a = 0" "a = 16 \<or> a = 4" "off mod 4 = 0" "(s + n) mod 16 = 0 \<longrightarrow> off = s + n + 4"
  shows "(off - 4) mod a = 0"
  using assms(2)
proof
  assume "a = 16"
  then show ?thesis using assms(1,4) by simp
next
  assume "a = 4"
  then show ?thesis using assms(3) by presburger
qed

lemma makes_force:
  assumes t: "\<And>\<Gamma> obj. map_option (Vec ty) x = Some obj \<Longrightarrow> H \<Gamma> \<Longrightarrow> part_typed \<Gamma> obj (Vector_of ty)" and H: "lasting H" and n: "0 \<le> n"
    and a: "VerifyAlignmentRequirements a 1" "a = 16 \<or> a = 4" and e: "elemsize = int (sizeof ty)"
    and rest: "\<And>off. makes gs n (\<lambda>\<Gamma>. H \<Gamma> \<and> typed \<Gamma> (Vector_of ty) off) ps 1 (\<lambda>offs. mk (off # offs)) (rest off)"
  shows "makes gs (n + part_room (map_option (Vec ty) x) + 64) H (map_option (Vec ty) x # ps) a mk (force_part x elemsize a (with_part (map_option (Vec ty) x) rest))"
proof (cases x)
  case None
  then have f: "force_part x elemsize a (with_part (map_option (Vec ty) x) rest) = with_part None rest" by (simp add: force_part_def fun_eq_iff)
  have "makes gs (n + part_room None) H (None # ps) 1 mk (with_part None rest)" by (rule makes_part[OF _ H n rest]) simp
  then have "makes gs (n + part_room None + 64) H (None # ps) 1 mk (with_part None rest)" by (rule makes_mono) simp
  moreover have "first_aligned al (None # ps) offs b" for al offs b by (simp add: first_aligned_def)
  ultimately show ?thesis unfolding f using None by (simp add: makes_def)
next
  case (Some xs)
  let ?n = "int (length xs) * elemsize" and ?x = "map_option (Vec ty) x"
  have x: "?x = Some (Vec ty xs)" using Some by simp
  show ?thesis unfolding makes_def
  proof (intro allI impI)
    fix b objs \<Gamma> assume p: "program b objs \<Gamma> \<and> H \<Gamma> \<and> GetSize b + (n + part_room ?x + 64) < 2 ^ 31 - 1"
    then have inv: "session_inv b objs" using program_invariant session_invariant by (auto simp: program_inv_def)
    then have "0 \<le> GetSize b" using session_invE ok_size by (metis of_nat_0_le_iff)
    moreover have room: "GetSize b + n + (cost (Vec ty xs) + 64) + 64 < 2147483647" using p x by (simp add: part_room_def)
    moreover have "0 \<le> ?n" "?n \<le> cost (Vec ty xs)" using e by simp_all
    ultimately have "?n < 2147483647" "GetSize b + 64 < 2147483647" using n by linarith+
    then have m: "0 \<le> ?n" "?n < 2 ^ 32" "GetSize b + 64 < 2 ^ 31 - 1" using e by simp_all
    obtain b1 where b1: "ForceVectorAlignment (int (length xs)) elemsize a b = Inr b1" "GetSize b1 \<le> GetSize b + 15" "a \<le> minalign b1"
        "(GetSize b1 + ?n) mod a = 0" "minalign b \<le> minalign b1"
      using inv_align[OF inv m a(1)] .
    have p1: "program b1 objs \<Gamma>" using program_align[OF _ m b1(1)] p by blast
    have room1: "GetSize b1 + (n + part_room ?x) < 2 ^ 31 - 1" using p b1(2) by simp
    have hG: "H \<Gamma>" using p by simp
    have pt: "part_typed \<Gamma> (Vec ty xs) (Vector_of ty)" by (rule t[OF x hG])
    obtain off loc b' offs \<Gamma>' where r: "with_part ?x rest b1 = Inr (loc, b')" "parts_at (?x # ps) (off # offs)"
        "program b' ((loc, Table (mk (off # offs))) # given_parts (?x # ps) (off # offs) @ objs) \<Gamma>'" "\<Gamma> \<subseteq>\<^sub>m \<Gamma>'" "\<Gamma>' loc = Some (Table_of gs)" "minalign b1 \<le> minalign b'"
        "off mod 4 = 0" "\<forall>ty' xs'. Vec ty xs = Vec ty' xs' \<longrightarrow> (GetSize b1 + int (length xs') * int (sizeof ty')) mod 16 = 0 \<longrightarrow> off = GetSize b1 + int (length xs') * int (sizeof ty') + 4"
      using part_then[where rest = rest and mk = mk, OF x pt H hG p1 room1 n rest] .
    have "(GetSize b1 + ?n) mod 16 = 0 \<longrightarrow> off = GetSize b1 + ?n + 4" using r(8)[rule_format, of ty xs] e by simp
    then have "(off - 4) mod a = 0" by (rule forced_place[OF b1(4) a(2) r(7)])
    then have "first_aligned a (?x # ps) (off # offs) b'" using b1(3) r(6) by (simp add: first_aligned_def)
    moreover have "force_part x elemsize a (with_part ?x rest) b = Inr (loc, b')" using Some b1(1) r(1) by (simp add: force_part_def)
    moreover have "minalign b \<le> minalign b'" using b1(5) r(6) by linarith
    ultimately show "\<exists>loc b' offs \<Gamma>'. force_part x elemsize a (with_part ?x rest) b = Inr (loc, b') \<and> parts_at (?x # ps) offs \<and>
        program b' ((loc, Table (mk offs)) # given_parts (?x # ps) offs @ objs) \<Gamma>' \<and> \<Gamma> \<subseteq>\<^sub>m \<Gamma>' \<and> \<Gamma>' loc = Some (Table_of gs) \<and> minalign b \<le> minalign b' \<and>
        first_aligned a (?x # ps) offs b'"
      using r(2-5) by blast
  qed
qed

text \<open>The same by the list of the parts that are still to be built.\<close>

definition parts_room :: "fb_object option list \<Rightarrow> int" where
  "parts_room ps = 200000 + sum_list (map part_room ps)"

lemma cost_nonneg: "0 \<le> cost obj"
  by (cases obj) simp_all

lemma parts_room_nonneg: "0 \<le> parts_room ps"
proof -
  have "0 \<le> part_room x" for x using cost_nonneg by (auto simp: part_room_def split: option.splits intro: add_nonneg_nonneg)
  then have "0 \<le> sum_list (map part_room ps)" by (intro sum_list_nonneg) auto
  then show ?thesis by (simp add: parts_room_def)
qed

lemma makes_parts:
  assumes "\<And>obj \<Gamma>. x = Some obj \<Longrightarrow> H \<Gamma> \<Longrightarrow> part_typed \<Gamma> obj t" "lasting H"
    and "\<And>off. makes gs (parts_room ps) (\<lambda>\<Gamma>. H \<Gamma> \<and> typed \<Gamma> t off) ps 1 (\<lambda>offs. mk (off # offs)) (rest off)"
  shows "makes gs (parts_room (x # ps)) H (x # ps) 1 mk (with_part x rest)"
  using makes_part[where rest = rest, OF assms(1,2) parts_room_nonneg assms(3)] by (simp add: parts_room_def add.assoc add.commute)

lemma makes_last: "(\<And>\<Gamma>. H \<Gamma> \<Longrightarrow> call \<Gamma> gs fs) \<Longrightarrow> mk [] = fs \<Longrightarrow> makes gs (parts_room []) H [] 1 mk (create_table fs)"
  using makes_table[of H gs fs mk] by (simp add: parts_room_def)

lemma part_given:
  "numbers_given ty x \<Longrightarrow> map_option (Vec ty) x = Some obj \<Longrightarrow> part_typed \<Gamma> obj (Vector_of ty)"
  "map_option Str s = Some obj \<Longrightarrow> part_typed \<Gamma> obj String_type"
  "tables_given \<Gamma> gs y \<Longrightarrow> map_option OffVec y = Some obj \<Longrightarrow> \<Gamma> \<subseteq>\<^sub>m \<Gamma>' \<Longrightarrow> part_typed \<Gamma>' obj (Tables_of gs)"
  by (auto simp: numbers_given_def tables_given_def list_all_iff map_le_def dom_def)

lemma makes_forced:
  assumes "\<And>obj \<Gamma>. map_option (Vec ty) x = Some obj \<Longrightarrow> H \<Gamma> \<Longrightarrow> part_typed \<Gamma> obj (Vector_of ty)" "lasting H"
    and "VerifyAlignmentRequirements a 1" "a = 16 \<or> a = 4" "elemsize = int (sizeof ty)"
    and "\<And>off. makes gs (parts_room ps) (\<lambda>\<Gamma>. H \<Gamma> \<and> typed \<Gamma> (Vector_of ty) off) ps 1 (\<lambda>offs. mk (off # offs)) (rest off)"
  shows "makes gs (parts_room (map_option (Vec ty) x # ps) + 64) H (map_option (Vec ty) x # ps) a mk (force_part x elemsize a (with_part (map_option (Vec ty) x) rest))"
  using makes_force[where rest = rest, OF assms(1,2) parts_room_nonneg assms(3-6)] by (simp add: parts_room_def add.assoc add.commute)

lemma makes_unforced: "makes gs n H parts al mk f \<Longrightarrow> makes gs (n + 64) H parts al mk f"
  by (erule makes_mono) simp

lemma forced_sizes: "VerifyAlignmentRequirements 16 1" "VerifyAlignmentRequirements 4 1" "int (sizeof U8) = 1" "int (sizeof U16) = 2"
  by code_simp+

lemmas direct_rules = part_given typed_mono union_agrees_mono

lemma direct_makes: "direct_call \<Gamma> gs parts al mk f \<Longrightarrow> makes gs (parts_room parts + 64) (\<lambda>\<Gamma>'. \<Gamma> \<subseteq>\<^sub>m \<Gamma>') parts al mk f"
proof (induction rule: direct_call.induct)
  case direct_CustomQuantization
  then show ?case unfolding CreateCustomQuantizationDirect_def
    by (intro makes_forced[OF _ _ forced_sizes(1) _ _ makes_last])
      (auto intro!: lasting_rules intro: direct_rules call_leaf[OF leaf_call_CustomQuantization])
next
  case direct_QuantizationParameters
  then show ?case unfolding CreateQuantizationParametersDirect_def
    by (intro makes_unforced makes_parts[where t = "Vector_of F32", OF _ _ makes_parts[where t = "Vector_of F32", OF _ _ makes_parts[where t = "Vector_of F32", OF _ _ makes_parts[where t = "Vector_of I64", OF _ _ makes_last]]]])
      (auto intro!: lasting_rules intro: direct_rules call_QuantizationParameters)
next
  case direct_Int32Vector
  then show ?case unfolding CreateInt32VectorDirect_def
    by (intro makes_unforced makes_parts[where t = "Vector_of I32", OF _ _ makes_last])
      (auto intro!: lasting_rules intro: direct_rules call_leaf[OF leaf_call_Int32Vector])
next
  case direct_Uint16Vector
  then show ?case unfolding CreateUint16VectorDirect_def
    by (intro makes_forced[OF _ _ forced_sizes(2) _ _ makes_last])
      (auto intro!: lasting_rules intro: direct_rules call_leaf[OF leaf_call_Uint16Vector])
next
  case direct_Uint8Vector
  then show ?case unfolding CreateUint8VectorDirect_def
    by (intro makes_forced[OF _ _ forced_sizes(2) _ _ makes_last])
      (auto intro!: lasting_rules intro: direct_rules call_leaf[OF leaf_call_Uint8Vector])
next
  case direct_SparsityParameters
  then show ?case unfolding CreateSparsityParametersDirect_def
    by (intro makes_unforced makes_parts[where t = "Vector_of I32", OF _ _ makes_parts[where t = "Vector_of I32", OF _ _ makes_parts[where t = "Tables_of Verify_DimensionMetadata", OF _ _ makes_last]]])
      (auto intro!: lasting_rules intro: direct_rules call_SparsityParameters)
next
  case direct_Tensor
  then show ?case unfolding CreateTensorDirect_def
    by (intro makes_unforced makes_parts[where t = "Vector_of I32", OF _ _ makes_parts[where t = "String_type", OF _ _ makes_parts[where t = "Vector_of I32", OF _ _ makes_last]]])
      (auto intro!: lasting_rules intro: direct_rules call_Tensor)
next
  case direct_ConcatEmbeddingsOptions
  then show ?case unfolding CreateConcatEmbeddingsOptionsDirect_def
    by (intro makes_unforced makes_parts[where t = "Vector_of I32", OF _ _ makes_parts[where t = "Vector_of I32", OF _ _ makes_last]])
      (auto intro!: lasting_rules intro: direct_rules call_leaf[OF leaf_call_ConcatEmbeddingsOptions])
next
  case direct_ReshapeOptions
  then show ?case unfolding CreateReshapeOptionsDirect_def
    by (intro makes_unforced makes_parts[where t = "Vector_of I32", OF _ _ makes_last])
      (auto intro!: lasting_rules intro: direct_rules call_leaf[OF leaf_call_ReshapeOptions])
next
  case direct_SqueezeOptions
  then show ?case unfolding CreateSqueezeOptionsDirect_def
    by (intro makes_unforced makes_parts[where t = "Vector_of I32", OF _ _ makes_last])
      (auto intro!: lasting_rules intro: direct_rules call_leaf[OF leaf_call_SqueezeOptions])
next
  case direct_OperatorCode
  then show ?case unfolding CreateOperatorCodeDirect_def
    by (intro makes_unforced makes_parts[where t = "String_type", OF _ _ makes_last])
      (auto intro!: lasting_rules intro: direct_rules call_leaf[OF leaf_call_OperatorCode])
next
  case direct_Operator
  then show ?case unfolding CreateOperatorDirect_def
    by (intro makes_unforced makes_parts[where t = "Vector_of I32", OF _ _ makes_parts[where t = "Vector_of I32", OF _ _ makes_parts[where t = "Vector_of U8", OF _ _ makes_parts[where t = "Vector_of U8", OF _ _ makes_parts[where t = "Vector_of I32", OF _ _ makes_last]]]]])
      (auto intro!: lasting_rules intro: direct_rules call_Operator)
next
  case direct_SubGraph
  then show ?case unfolding CreateSubGraphDirect_def
    by (intro makes_unforced makes_parts[where t = "Tables_of Verify_Tensor", OF _ _ makes_parts[where t = "Vector_of I32", OF _ _ makes_parts[where t = "Vector_of I32", OF _ _ makes_parts[where t = "Tables_of Verify_Operator", OF _ _ makes_parts[where t = "String_type", OF _ _ makes_last]]]]])
      (auto intro!: lasting_rules intro: direct_rules call_SubGraph)
next
  case direct_Buffer
  then show ?case unfolding CreateBufferDirect_def
    by (intro makes_forced[OF _ _ forced_sizes(1) _ _ makes_last])
      (auto intro!: lasting_rules intro: direct_rules call_leaf[OF leaf_call_Buffer])
next
  case direct_Metadata
  then show ?case unfolding CreateMetadataDirect_def
    by (intro makes_unforced makes_parts[where t = "String_type", OF _ _ makes_last])
      (auto intro!: lasting_rules intro: direct_rules call_leaf[OF leaf_call_Metadata])
next
  case direct_TensorMap
  then show ?case unfolding CreateTensorMapDirect_def
    by (intro makes_unforced makes_parts[where t = "String_type", OF _ _ makes_last])
      (auto intro!: lasting_rules intro: direct_rules call_leaf[OF leaf_call_TensorMap])
next
  case direct_SignatureDef
  then show ?case unfolding CreateSignatureDefDirect_def
    by (intro makes_unforced makes_parts[where t = "Tables_of Verify_TensorMap", OF _ _ makes_parts[where t = "Tables_of Verify_TensorMap", OF _ _ makes_parts[where t = "String_type", OF _ _ makes_parts[where t = "String_type", OF _ _ makes_last]]]])
      (auto intro!: lasting_rules intro: direct_rules call_SignatureDef)
next
  case direct_Model
  then show ?case unfolding CreateModelDirect_def
    by (intro makes_unforced makes_parts[where t = "Tables_of Verify_OperatorCode", OF _ _ makes_parts[where t = "Tables_of Verify_SubGraph", OF _ _ makes_parts[where t = "String_type", OF _ _ makes_parts[where t = "Tables_of Verify_Buffer", OF _ _ makes_parts[where t = "Vector_of I32", OF _ _ makes_parts[where t = "Tables_of Verify_Metadata", OF _ _ makes_parts[where t = "Tables_of Verify_SignatureDef", OF _ _ makes_last]]]]]]])
      (auto intro!: lasting_rules intro: direct_rules call_Model)
qed

end
