(* ===== verification/Buffer_Alignment.thy ===== *)
theory Buffer_Alignment
  imports Typed_Programs
begin

text \<open>
  Where the data of a finished buffer is, counted from its start. A reader goes through pointers to the scalars and the vectors, and the kernels take the data of
  a tensor as it lies in the buffer, so all of it has to be on multiples of the sizes.
\<close>

definition Buffer_data :: "bytes \<Rightarrow> int \<Rightarrow> int option res" where
  "Buffer_data b t = Table_GetPointer b t 4"

section \<open>Multiples\<close>

definition field_aligned :: "bytes \<Rightarrow> int \<Rightarrow> field_add \<Rightarrow> bool" where
  "field_aligned w p f \<longleftrightarrow> (\<exists>fo. GetOptionalFieldOffset w p (add_key f) = Inr fo \<and>
     (fo \<noteq> 0 \<longrightarrow> (p + fo) mod (case f of Element ty key e d \<Rightarrow> int (sizeof ty) | Refer key off \<Rightarrow> 4) = 0))"

text \<open>The object at \<open>p\<close>: its length or its offset to the vtable, then the fields that are stored, or the elements.\<close>

fun aligned_at :: "bytes \<Rightarrow> int \<Rightarrow> fb_object \<Rightarrow> bool" where
  "aligned_at w p (Table fs) \<longleftrightarrow> p mod 4 = 0 \<and> list_all (field_aligned w p) fs"
| "aligned_at w p (Vec ty xs) \<longleftrightarrow> p mod 4 = 0 \<and> (p + 4) mod int (sizeof ty) = 0"
| "aligned_at w p obj \<longleftrightarrow> p mod 4 = 0"

lemma session_power: "session b objs \<Longrightarrow> \<exists>k \<le> 4. minalign b = 2 ^ k"
  using session_invariant[of b objs] by (auto simp: session_inv_def fbb_ok_def fbb_rep_def)

lemma session_multiple:
  assumes "session b objs" "2 ^ j \<le> minalign b" "int n mod minalign b = 0"
  shows "(2 :: int) ^ j dvd int n"
proof -
  obtain k where k: "minalign b = 2 ^ k" using session_power[OF assms(1)] by blast
  have "j \<le> k" using assms(2) k by (simp add: power_increasing_iff)
  then have "(2 :: int) ^ j dvd minalign b" unfolding k by (rule le_imp_power_dvd)
  then show ?thesis using mod_0_imp_dvd[OF assms(3)] by (rule dvd_trans)
qed

lemma mod_distance: "(d :: int) dvd n \<Longrightarrow> x mod d = 0 \<Longrightarrow> (n - x) mod d = 0"
  by (simp add: mod_eq_0_iff_dvd)

lemma placed_aligned:
  assumes s: "session b objs" and w: "int (length w) mod minalign b = 0" "int (length w) mod 4 = 0" and p: "placed (minalign b) w loc obj"
  shows "aligned_at w (int (length w) - loc) obj"
proof -
  let ?p = "int (length w) - loc"
  have l: "laid_out w loc obj" "aligned (minalign b) w loc obj" using p by (simp_all add: placed_def)
  then have "loc mod 4 = 0" by (cases obj) auto
  then have p4: "?p mod 4 = 0" using w(2) by presburger
  have el: "(int (length w) - x) mod int (sizeof ty) = 0" if x: "x mod int (sizeof ty) = 0" "int (sizeof ty) \<le> minalign b" for x ty
  proof -
    obtain k where k: "int (sizeof ty) = 2 ^ k" by (rule sizeof_pow2)
    show ?thesis using session_multiple[OF s _ w(1), of k] x k by (intro mod_distance) simp_all
  qed
  show ?thesis
  proof (cases obj)
    case (Table fs)
    have "field_aligned w ?p f" if mem: "f \<in> set fs" for f
    proof (cases f)
      case (Element ty key e d)
      then obtain fo where fo: "GetOptionalFieldOffset w ?p key = Inr fo" "fo \<noteq> 0 \<longrightarrow> (loc - fo) mod int (sizeof ty) = 0 \<and> int (sizeof ty) \<le> minalign b"
        using l(2) mem Table by (fastforce simp: list_all_iff element_aligned_def)
      then have "fo \<noteq> 0 \<longrightarrow> (?p + fo) mod int (sizeof ty) = 0" using el[of "loc - fo" ty] by (simp add: algebra_simps)
      then show ?thesis using fo(1) Element by (simp add: field_aligned_def)
    next
      case (Refer key off)
      then obtain fo where fo: "GetOptionalFieldOffset w ?p key = Inr fo" "fo mod 4 = 0" using l(1) mem Table by (fastforce simp: list_all_iff offset_placed_def)
      then show ?thesis using p4 Refer by (simp add: field_aligned_def) presburger
    qed
    then show ?thesis using Table p4 by (simp add: list_all_iff)
  next
    case (Vec ty xs)
    then have "(?p + 4) mod int (sizeof ty) = 0" using l(2) el[of "loc - 4" ty] by (simp add: algebra_simps)
    then show ?thesis using Vec p4 by simp
  qed (use p4 in simp_all)
qed

section \<open>Later states of a builder\<close>

text \<open>What happens to a builder between making an object and finishing: everything but clearing it.\<close>

inductive later :: "builder \<Rightarrow> (int \<times> fb_object) list \<Rightarrow> builder \<Rightarrow> (int \<times> fb_object) list \<Rightarrow> bool" for b0 objs0 where
  later_refl: "later b0 objs0 b0 objs0"
| later_force: "later b0 objs0 b objs \<Longrightarrow> later b0 objs0 (ForceDefaults fd b) objs"
| later_dedup: "later b0 objs0 b objs \<Longrightarrow> later b0 objs0 (DedupVtables dd b) objs"
| later_align: "later b0 objs0 b objs \<Longrightarrow> 0 \<le> len * elemsize \<Longrightarrow> len * elemsize < 2 ^ 32 \<Longrightarrow> GetSize b + 64 < 2 ^ 31 - 1 \<Longrightarrow>
    ForceVectorAlignment len elemsize alignment b = Inr b' \<Longrightarrow> later b0 objs0 b' objs"
| later_build: "later b0 objs0 b objs \<Longrightarrow> object_ok (fst ` set objs) (GetSize b) obj \<Longrightarrow> build obj b = Inr (loc, b') \<Longrightarrow> later b0 objs0 b' ((loc, obj) # objs)"

lemma later_keeps:
  assumes "later b0 objs0 b objs" "session b0 objs0"
  shows "session b objs \<and> set objs0 \<subseteq> set objs \<and> minalign b0 \<le> minalign b"
  using assms(1)
proof (induction rule: later.induct)
  case (later_align b objs len elemsize alignment b')
  then have s: "session b objs" by blast
  have "VerifyAlignmentRequirements alignment 1" using later_align.hyps(5) by (auto simp: ForceVectorAlignment_def FLATBUFFERS_ASSERT_def split: if_splits)
  then have "minalign b \<le> minalign b'" using inv_align[OF session_invariant[OF s] later_align.hyps(2-4)] later_align.hyps(5) by (metis sum.inject(2))
  then show ?case using later_align session_align[OF s later_align.hyps(2-5)] by auto
next
  case (later_build b objs obj loc b')
  then have s: "session b objs" by blast
  have "minalign b \<le> minalign b'" using inv_build[OF session_invariant[OF s] later_build.hyps(2)] later_build.hyps(3) by (metis prod.inject sum.inject(2))
  then show ?case using later_build session_build[OF s later_build.hyps(2,3)] by auto
qed (use assms(2) session_force session_dedup in \<open>auto simp: ForceDefaults_def DedupVtables_def\<close>)

text \<open>A vector that was forced to a multiple of 16 stays there.\<close>

lemma forced_vector:
  assumes s: "session b objs" and xs: "list_all (in_range ty) xs" "GetSize b + int (length xs) * int (sizeof ty) + 96 < 2 ^ 31 - 1"
  obtains b1 loc b2 where "ForceVectorAlignment (int (length xs)) (int (sizeof ty)) 16 b = Inr b1" "build (Vec ty xs) b1 = Inr (loc, b2)"
    "session b1 objs" "session b2 ((loc, Vec ty xs) # objs)" "16 \<le> minalign b2" "(loc - 4) mod 16 = 0" "GetSize b2 \<le> GetSize b + cost (Vec ty xs) + 15"
proof -
  let ?n = "int (length xs) * int (sizeof ty)"
  have "0 \<le> GetSize b" using session_invariant[OF s] session_invE ok_size by (metis of_nat_0_le_iff)
  moreover have "0 \<le> ?n" by simp
  moreover have "GetSize b + ?n + 96 < 2147483647" using xs(2) by simp
  ultimately have "0 \<le> ?n" "?n < 2147483647" "GetSize b + 64 < 2147483647" by linarith+
  then have m: "0 \<le> ?n" "?n < 2 ^ 32" "GetSize b + 64 < 2 ^ 31 - 1" by simp_all
  obtain b1 where b1: "ForceVectorAlignment (int (length xs)) (int (sizeof ty)) 16 b = Inr b1" "GetSize b1 \<le> GetSize b + 15" "16 \<le> minalign b1"
      "(GetSize b1 + ?n) mod 16 = 0"
    using inv_align[OF session_invariant[OF s] m forced_sizes(1)] .
  have s1: "session b1 objs" by (rule session_align[OF s m b1(1)])
  have o: "object_ok (fst ` set objs) (GetSize b1) (Vec ty xs)" using xs b1(2) by simp
  obtain loc b2 where b2: "build (Vec ty xs) b1 = Inr (loc, b2)" "session_inv b2 ((loc, Vec ty xs) # objs)" "GetSize b2 \<le> GetSize b1 + cost (Vec ty xs)" "minalign b1 \<le> minalign b2"
      "\<forall>ty' xs'. Vec ty xs = Vec ty' xs' \<longrightarrow> (GetSize b1 + int (length xs') * int (sizeof ty')) mod 16 = 0 \<longrightarrow> loc = GetSize b1 + int (length xs') * int (sizeof ty') + 4"
    using inv_build[OF session_invariant[OF s1] o] .
  have "loc = GetSize b1 + ?n + 4" using b2(5)[rule_format, of ty xs] b1(4) by simp
  then have "(loc - 4) mod 16 = 0" using b1(4) by simp
  then show ?thesis using that[OF b1(1) b2(1) s1 session_build[OF s1 o b2(1)]] b1(2,3) b2(3,4) by linarith
qed

text \<open>However the buffer is finished, the table at \<open>loc\<close> leads to the bytes \<open>xs\<close>, which start at a multiple of 16.\<close>

definition finishes_with_data :: "builder \<Rightarrow> (int \<times> fb_object) list \<Rightarrow> int \<Rightarrow> int list \<Rightarrow> bool" where
  "finishes_with_data b objs loc xs \<longleftrightarrow> (\<forall>r \<in> fst ` set objs. \<forall>ident size_prefix. (case ident of None \<Rightarrow> True | Some s \<Rightarrow> length s = 4) \<longrightarrow>
     (\<exists>b1 w b2 p. Builder_Finish r ident size_prefix b = Inr b1 \<and> Builder_Release b1 = Inr (w, b2) \<and>
        Buffer_data w (int (length w) - loc) = Inr (Some p) \<and> reads_as w p (Vec U8 xs) \<and> (p + 4) mod 16 = 0))"

lemma finishes_data:
  assumes s: "session b objs" "GetSize b + 64 < 2 ^ 31 - 1" and o: "(loc, Table (Create_Buffer v)) \<in> set objs" "(v, Vec U8 xs) \<in> set objs"
    and v: "16 \<le> minalign b" "(v - 4) mod 16 = 0"
  shows "finishes_with_data b objs loc xs"
  unfolding finishes_with_data_def
proof (intro ballI allI impI)
  fix r ident size_prefix assume r: "r \<in> fst ` set objs" "case ident of None \<Rightarrow> True | Some (s :: bytes) \<Rightarrow> length s = 4"
  obtain b1 pre u b2 where w: "Builder_Finish r ident size_prefix b = Inr b1" "Builder_Release b1 = Inr (pre @ u, b2)"
      "\<forall>(loc, obj) \<in> set objs. placed (minalign b) u loc obj" "int (length (pre @ u)) mod minalign b = 0"
    using finish_session[OF s(1) r(1) s(2) r(2), of size_prefix] by metis
  let ?w = "pre @ u"
  have pl: "placed (minalign b) ?w loc (Table (Create_Buffer v))" "placed (minalign b) ?w v (Vec U8 xs)" using w(3) o by (auto intro!: placed_append[OF _ order_refl])
  then have rd: "reads_as ?w (int (length ?w) - loc) (Table (Create_Buffer v))" "reads_as ?w (int (length ?w) - v) (Vec U8 xs)" and v0: "v \<noteq> 0"
    by (auto simp: placed_def)
  have "(2 :: int) ^ 4 dvd int (length ?w)" by (rule session_multiple[OF s(1) _ w(4)]) (use v(1) in simp)
  then have "(int (length ?w) - v + 4) mod 16 = 0" using mod_distance[of 16 "int (length ?w)" "v - 4"] v(2) by (simp add: algebra_simps)
  moreover have "Buffer_data ?w (int (length ?w) - loc) = Inr (Some (int (length ?w) - v))"
    using rd(1) v0 by (simp add: Create_Buffer_def field_reads_def Buffer_data_def)
  ultimately show "\<exists>b1 w b2 p. Builder_Finish r ident size_prefix b = Inr b1 \<and> Builder_Release b1 = Inr (w, b2) \<and>
      Buffer_data w (int (length w) - loc) = Inr (Some p) \<and> reads_as w p (Vec U8 xs) \<and> (p + 4) mod 16 = 0"
    using w(1,2) rd(2) by (intro exI[of _ b1] exI[of _ ?w] exI[of _ b2] exI[of _ "int (length ?w) - v"]) simp
qed

section \<open>Claims\<close>

text \<open>
  C27: Everything in a finished buffer is aligned. For every session and every root, in the bytes that are released the objects start at multiples of four from the
  start of the buffer, every scalar field that is stored and the elements of every vector are at multiples of their size, and the offsets at multiples of four.\<close>

theorem built_buffer_aligned:
  assumes "session b objs" "r \<in> fst ` set objs" "GetSize b + 64 < 2 ^ 31 - 1" "case ident of None \<Rightarrow> True | Some s \<Rightarrow> length s = 4"
  shows "\<exists>b1 w b2. Builder_Finish r ident size_prefix b = Inr b1 \<and> Builder_Release b1 = Inr (w, b2) \<and> int (length w) mod minalign b = 0 \<and>
    (\<forall>(loc, obj) \<in> set objs. aligned_at w (int (length w) - loc) obj)"
proof -
  obtain b1 pre u b2 where f: "Builder_Finish r ident size_prefix b = Inr b1" "Builder_Release b1 = Inr (pre @ u, b2)"
    and h: "GetRoot (pre @ u) (if size_prefix then 4 else 0) = Inr (int (length (pre @ u)) - r)"
      "\<forall>s. ident = Some s \<longrightarrow> BufferHasIdentifier (pre @ u) (if size_prefix then 4 else 0) s False = Inr True"
      "size_prefix \<longrightarrow> ReadScalar uoffset_t (pre @ u) 0 = Inr (int (length (pre @ u)) - 4)"
    and o: "\<forall>(loc, obj) \<in> set objs. placed (minalign b) u loc obj" "distinct (map fst objs)"
      "(if size_prefix then 8 else 4) \<le> length pre" "int (length (pre @ u)) mod 4 = 0" "int (length (pre @ u)) < 2 ^ 31 - 1" "int (length (pre @ u)) mod minalign b = 0"
    using finish_session[OF assms, of size_prefix] .
  have "aligned_at (pre @ u) (int (length (pre @ u)) - loc) obj" if "(loc, obj) \<in> set objs" for loc obj
    by (rule placed_aligned[OF assms(1) o(6,4) placed_append[OF _ order_refl]]) (use o(1) that in blast)
  then show ?thesis using f o(6) by (intro exI[of _ b1] exI[of _ "pre @ u"] exI[of _ b2]) auto
qed

theorem built_buffer_aligned_witness:
  "\<exists>b b1 w b2. Builder_Finish 20 None False b = Inr b1 \<and> Builder_Release b1 = Inr (w, b2) \<and> aligned_at w (int (length w) - 20) demo_table"
proof -
  obtain b where b: "session b [(20, demo_table), (8, Str [104, 105])]" "GetSize b = 28" using demo_session .
  show ?thesis using built_buffer_aligned[OF b(1), of 20 None False] b(2) by auto
qed

text \<open>
  C26: The data of a tensor is where the kernels want it. \<^verbatim>\<open>CreateBufferDirect\<close> succeeds in every session that has room, and whatever is built after it, in the
  finished buffer the vector that \<^verbatim>\<open>Buffer::data\<close> leads to holds the bytes that were given, and the first of them is at a multiple of 16, as the
  attribute \<^verbatim>\<open>force_align\<close> of the schema asks for.\<close>

theorem tensor_data_aligned:
  assumes "session b objs" "list_all (in_range U8) xs" "GetSize b + int (length xs) + 200200 < 2 ^ 31 - 1"
  shows "\<exists>loc b0 objs0. CreateBufferDirect (Some xs) b = Inr (loc, b0) \<and> session b0 objs0 \<and> loc \<in> fst ` set objs0 \<and> set objs \<subseteq> set objs0 \<and>
    GetSize b0 \<le> GetSize b + int (length xs) + 125600 \<and>
    (\<forall>b1 objs1. later b0 objs0 b1 objs1 \<and> GetSize b1 + 64 < 2 ^ 31 - 1 \<longrightarrow> finishes_with_data b1 objs1 loc xs)"
proof -
  have room: "GetSize b + int (length xs) * int (sizeof U8) + 96 < 2 ^ 31 - 1" using assms(3) by simp
  obtain ba v bb where f: "ForceVectorAlignment (int (length xs)) 1 16 b = Inr ba" "build (Vec U8 xs) ba = Inr (v, bb)"
      "session bb ((v, Vec U8 xs) # objs)" "16 \<le> minalign bb" "(v - 4) mod 16 = 0" "GetSize bb \<le> GetSize b + cost (Vec U8 xs) + 15"
    using forced_vector[OF assms(1,2), unfolded forced_sizes(3)] room by (metis forced_sizes(3))
  let ?objs = "(v, Vec U8 xs) # objs" and ?t = "Table (Create_Buffer v)"
  have o: "object_ok (fst ` set ?objs) (GetSize bb) ?t" using f(6) assms(3) by (simp add: Create_Buffer_def field_ok_def key_ok_def)
  obtain loc b0 where t: "build ?t bb = Inr (loc, b0)" "minalign bb \<le> minalign b0" "GetSize b0 \<le> GetSize bb + cost ?t"
    using inv_build[OF session_invariant[OF f(3)] o] by metis
  let ?objs0 = "(loc, ?t) # ?objs"
  have s0: "session b0 ?objs0" by (rule session_build[OF f(3) o t(1)])
  have "CreateBufferDirect (Some xs) b = Inr (loc, b0)" using f(1,2) t(1) by (simp add: CreateBufferDirect_def force_part_def with_part_def)
  moreover have "GetSize b0 \<le> GetSize b + int (length xs) + 125600" using t(3) f(6) by simp
  moreover have "finishes_with_data b1 objs1 loc xs" if l: "later b0 ?objs0 b1 objs1" "GetSize b1 + 64 < 2 ^ 31 - 1" for b1 objs1
  proof -
    have k: "session b1 objs1" "set ?objs0 \<subseteq> set objs1" "minalign b0 \<le> minalign b1" using later_keeps[OF l(1) s0] by blast+
    show ?thesis using k(2) f(4,5) t(2) k(3) by (intro finishes_data[OF k(1) l(2), of loc v xs]) auto
  qed
  ultimately show ?thesis using s0 by (intro exI[of _ loc] exI[of _ b0] exI[of _ ?objs0]) auto
qed

theorem tensor_data_aligned_witness:
  "\<exists>loc b0 objs0. CreateBufferDirect (Some [7, 8, 9]) demo_builder = Inr (loc, b0) \<and> loc \<in> fst ` set objs0 \<and> finishes_with_data b0 objs0 loc [7, 8, 9]"
proof -
  have g: "GetSize demo_builder = 0" by (simp add: demo_builder_def FlatBufferBuilder_new_def GetSize_def vd_size_def vector_downward_new_def)
  have xs: "list_all (in_range U8) [7, 8, 9]" by (simp add: in_range_def)
  obtain loc b0 objs0 where b: "CreateBufferDirect (Some [7, 8, 9]) demo_builder = Inr (loc, b0)" "loc \<in> fst ` set objs0" "GetSize b0 \<le> 125603"
      "\<forall>b1 objs1. later b0 objs0 b1 objs1 \<and> GetSize b1 + 64 < 2 ^ 31 - 1 \<longrightarrow> finishes_with_data b1 objs1 loc [7, 8, 9]"
    using tensor_data_aligned[OF demo_new xs] g by auto
  have "finishes_with_data b0 objs0 loc [7, 8, 9]" by (rule b(4)[rule_format]) (use b(3) later_refl in simp)
  then show ?thesis using b(1,2) by blast
qed

end
