(* ===== verification/Model_Bytes.thy ===== *)
theory Model_Bytes
  imports Schema_Verify
begin

text \<open>
  Verifying an untrusted model file: the verifier of \<open>Schema_Verify\<close> returns on every buffer, and what it accepts can be read
  completely. Where the verifier itself leaves the buffer: a size-prefixed buffer shorter than its identifier, and an odd
  vtable when alignment is not checked.
\<close>

section \<open>Any buffer\<close>

lemma new_safe: "int (length b) < 2 ^ 31 - 1 \<Longrightarrow> vsafe (Verifier_new b d t True)"
  by (simp add: vsafe_def Verifier_new_def FLATBUFFERS_MAX_BUFFER_SIZE_def)

lemma new_fields [simp]: "vf_buf (Verifier_new b d t a) = b" "vf_num_tables (Verifier_new b d t a) = 0" "vf_max_tables (Verifier_new b d t a) = t"
  by (simp_all add: Verifier_new_def)

text \<open>A model with a version and nothing else, and one whose root offset leads outside.\<close>

definition tiny_model :: bytes where
  "tiny_model = [16, 0, 0, 0, 84, 70, 76, 51, 6, 0, 8, 0, 4, 0, 0, 0, 8, 0, 0, 0, 3, 0, 0, 0]"

definition bad_model :: bytes where
  "bad_model = [200, 0, 0, 0, 84, 70, 76, 51, 6, 0, 8, 0, 4, 0, 0, 0, 8, 0, 0, 0, 3, 0, 0, 0]"

text \<open>
  C20: Verifying a model file is safe whatever the file holds: for every sequence of fewer than \<open>2 ^ 31 - 1\<close> bytes and every
  choice of limits, with the alignment check on, the verifier of the whole schema returns a verdict and never reads
  outside the buffer.\<close>

theorem model_verifier_safe:
  assumes "int (length b) < 2 ^ 31 - 1"
  shows "\<exists>ok v'. VerifyModelBuffer (Verifier_new b max_depth max_tables True) = Inr (ok, v')"
  using VerifyModelBuffer_runs[OF new_safe[OF assms, of max_depth max_tables]] unfolding runs_def by blast

theorem model_verifier_safe_witness: "\<exists>ok v'. VerifyModelBuffer (Verifier_new bad_model 64 1000000 True) = Inr (ok, v')"
  by (rule model_verifier_safe) (simp add: bad_model_def)

text \<open>
  C21: A model file below 2 GB that the verifier has accepted, with its alignment check on and a limit below the largest counter, can be read: starting at the root, every accessor of every table of the schema,
  every element of every vector, every string up to its zero byte and every alternative of a union that its type
  names is inside the buffer. The client visits as many tables as the verifier counted, which is at most
  the limit it was given, however often the file refers to the same table.\<close>

theorem verified_model_readable:
  assumes "int (length b) < 2 ^ 31 - 1" "0 \<le> max_tables" "max_tables < 2 ^ 32 - 1"
    and "VerifyModelBuffer (Verifier_new b max_depth max_tables True) = Inr (True, v')"
  shows "\<exists>root x. GetRoot b 0 = Inr root \<and> read_table Verify_Model b root = Inr x \<and>
    vf_num_tables v' = tables_in x \<and> tables_in x \<le> max_tables"
proof -
  let ?v = "Verifier_new b max_depth max_tables True"
  obtain root x where x: "GetRoot b 0 = Inr root" "read_table Verify_Model b root = Inr x" "counted ?v v' (tables_in x)" "vframe ?v v'"
    using VerifyModelBuffer_runs[OF new_safe[OF assms(1), of max_depth max_tables]] assms(4) by (auto simp: runs_def)
  have "vcount ?v" using assms(2,3) by (simp add: vcount_def Verifier_new_def)
  then have "vcount v'" "vf_num_tables v' = tables_in x" using x(3) by (simp_all add: counted_def)
  moreover have "vf_max_tables v' = max_tables" using x(4) by (simp add: vframe_def)
  ultimately show ?thesis using x(1,2) by (auto simp: vcount_def)
qed

lemma tiny_verified:
  "VerifyModelBuffer (Verifier_new tiny_model 64 1000000 True) = Inr (True, (Verifier_new tiny_model 64 1000000 True)\<lparr>vf_num_tables := 1\<rparr>)"
  by code_simp

theorem verified_model_readable_witness:
  "\<exists>root x. GetRoot tiny_model 0 = Inr root \<and> read_table Verify_Model tiny_model root = Inr x \<and> tables_in x = 1"
proof -
  have "int (length tiny_model) < 2 ^ 31 - 1" by (simp add: tiny_model_def)
  from verified_model_readable[OF this _ _ tiny_verified] show ?thesis by auto
qed

section \<open>Where the verifier itself is not safe\<close>

text \<open>
  The size-prefixed variant asks for 8 bytes before it compares the identifier, which is then in the bytes 8 to 11. It is safe on
  buffers that have them, or that are too short for the comparison.
\<close>

lemma size_prefixed_safe:
  assumes "int (length b) < 2 ^ 31 - 1" "length b < 8 \<or> 12 \<le> length b"
  shows "\<exists>ok v'. VerifySizePrefixedModelBuffer (Verifier_new b max_depth max_tables True) = Inr (ok, v')"
proof -
  let ?v = "Verifier_new b max_depth max_tables True"
  note v = new_safe[OF assms(1), of max_depth max_tables]
  have "runs (VerifyBufferFromStart (verify_table Verify_Model) (Some ModelIdentifier) 4 ?v) ?v (\<lambda>v'. \<exists>root x. GetRoot (vf_buf ?v) 4 = Inr root \<and>
      read_table Verify_Model (vf_buf ?v) root = Inr x \<and> counted ?v v' (tables_in x))"
    by (rule VerifyBufferFromStart_runs[OF model_sound v]) (use assms(2) in auto)
  then have "\<exists>r. VerifyBufferFromStart (verify_table Verify_Model) (Some ModelIdentifier) 4 ?v = Inr r" unfolding runs_def by blast
  then obtain ok v' where r: "VerifyBufferFromStart (verify_table Verify_Model) (Some ModelIdentifier) 4 ?v = Inr (ok, v')" by force
  show ?thesis
  proof (cases "Verify_scalar ?v uoffset_t 0")
    case True
    then obtain n where "ReadScalar uoffset_t b 0 = Inr n" using Verify_scalar_read[OF True] by auto
    then have "VerifySizePrefixedModelBuffer ?v = (if n = int (length b) - 4 then Inr (ok, v') else Inr (False, ?v))"
      using r True by (simp add: VerifySizePrefixedModelBuffer_def VerifySizePrefixedBuffer_def)
    then show ?thesis by (cases "n = int (length b) - 4") auto
  next
    case False
    then have "VerifySizePrefixedModelBuffer ?v = Inr (False, ?v)"
      by (simp add: VerifySizePrefixedModelBuffer_def VerifySizePrefixedBuffer_def)
    then show ?thesis by blast
  qed
qed

lemma size_prefixed_overrun:
  "VerifySizePrefixedModelBuffer (Verifier_new [4, 0, 0, 0, 0, 0, 0, 0] 64 1000000 True) = Inl OutOfBounds"
  by code_simp

text \<open>Without the alignment check a vtable may have odd size, and its last entry is read beyond its end.\<close>

lemma unaligned_overrun:
  "VerifyModelBuffer (Verifier_new [8, 0, 0, 0, 84, 70, 76, 51, 252, 255, 255, 255, 5, 0, 4, 0, 4] 64 1000000 False) = Inl OutOfBounds"
  by code_simp

end
