(* ===== verification/Options_Bytes.thy ===== *)
theory Options_Bytes
  imports Model_Bytes Op_Data_Props
begin

text \<open>
  From the bytes of a model file to the operators the parser reads. \<open>Tflite_Schema\<close> models an options table as the fields that are
  present; here such a table is read from the buffer, and the accessors of \<^verbatim>\<open>flatbuffers::Table\<close> on the bytes
  return what the accessors of the abstract table return. The operators are reached the way a loader reaches them, through the
  vectors of the model and of its subgraphs.
\<close>

section \<open>Accessors on the bytes\<close>

definition Operator_builtin_options_type :: "bytes \<Rightarrow> int \<Rightarrow> int res" where
  "Operator_builtin_options_type b data = Table_GetField U8 b data 10 0"

definition Operator_builtin_options :: "bytes \<Rightarrow> int \<Rightarrow> int option res" where
  "Operator_builtin_options b data = Table_GetPointer b data 12"

text \<open>\<^verbatim>\<open>builtin_options_as_T()\<close>, where \<open>tag\<close> is the enumerator of \<^verbatim>\<open>T\<close>.\<close>

definition Operator_builtin_options_as :: "int \<Rightarrow> bytes \<Rightarrow> int \<Rightarrow> int option res" where
  "Operator_builtin_options_as tag b data =
     bind_res (Operator_builtin_options_type b data) (\<lambda>ty. if ty = tag then Operator_builtin_options b data else Inr None)"

definition GetModel :: "bytes \<Rightarrow> int res" where
  "GetModel b = GetRoot b 0"

definition Model_subgraphs :: "bytes \<Rightarrow> int \<Rightarrow> int option res" where
  "Model_subgraphs b data = Table_GetPointer b data 8"

definition SubGraph_operators :: "bytes \<Rightarrow> int \<Rightarrow> int option res" where
  "SubGraph_operators b data = Table_GetPointer b data 10"

text \<open>Element \<open>i\<close> of a vector of tables, if there is a vector and it is long enough; then operator \<open>j\<close> of subgraph \<open>i\<close>.\<close>

definition element_at :: "(bytes \<Rightarrow> int \<Rightarrow> int option res) \<Rightarrow> nat \<Rightarrow> bytes \<Rightarrow> int \<Rightarrow> int option res" where
  "element_at acc i b data = bind_res (acc b data) (\<lambda>vec. case vec of None \<Rightarrow> Inr None
     | Some p \<Rightarrow> bind_res (Vector_size b p) (\<lambda>n.
         if int i < n then bind_res (Vector_GetOffset b p i) (\<lambda>q. Inr (Some q)) else Inr None))"

definition model_operator :: "bytes \<Rightarrow> nat \<Rightarrow> nat \<Rightarrow> int option res" where
  "model_operator b i j = bind_res (GetModel b) (\<lambda>m. bind_res (element_at Model_subgraphs i b m) (\<lambda>g.
     case g of None \<Rightarrow> Inr None | Some q \<Rightarrow> element_at SubGraph_operators j b q))"

section \<open>The abstract operator\<close>

fun store_field :: "fb_field \<Rightarrow> fb_value \<Rightarrow> fb_table \<Rightarrow> fb_table" where
  "store_field (Scalar ty vt) (Number n) t =
     (if ty = F32 then t\<lparr>fb_floats := (fb_floats t)(nat vt \<mapsto> fl_of_bits Binary32 n)\<rparr>
      else t\<lparr>fb_ints := (fb_ints t)(nat vt \<mapsto> n)\<rparr>)"
| "store_field (Scalars ty vt) (Numbers ns) t = t\<lparr>fb_vecs := (fb_vecs t)(nat vt \<mapsto> ns)\<rparr>"
| "store_field _ _ t = t"

fun options_of :: "fb_field list \<Rightarrow> fb_value list \<Rightarrow> fb_table" where
  "options_of (f # fs) (x # xs) = store_field f x (options_of fs xs)"
| "options_of _ _ = empty_table"

fun operator_of :: "fb_value \<Rightarrow> Operator" where
  "operator_of (Variant ty (Some (Record xs))) = \<lparr>builtin_options_type = ty,
     builtin_options = map_option (\<lambda>fs. options_of fs xs) (map_of BuiltinOptions_alternatives ty)\<rparr>"
| "operator_of (Variant ty _) = \<lparr>builtin_options_type = ty, builtin_options = None\<rparr>"
| "operator_of _ = \<lparr>builtin_options_type = 0, builtin_options = None\<rparr>"

definition operator_at :: "bytes \<Rightarrow> int \<Rightarrow> Operator res" where
  "operator_at b data = bind_res (read_field (Union 10 12 BuiltinOptions_alternatives) b data) (\<lambda>x. Inr (operator_of x))"

section \<open>The refinement\<close>

text \<open>Every accessor a table of the given fields has returns on the bytes what it returns on the abstract table.\<close>

definition table_rel :: "fb_field list \<Rightarrow> bytes \<Rightarrow> int \<Rightarrow> fb_table \<Rightarrow> bool" where
  "table_rel fs b q t \<longleftrightarrow>
     (\<forall>ty vt d. Scalar ty vt \<in> set fs \<and> ty \<noteq> F32 \<longrightarrow> Table_GetField ty b q vt d = Inr (GetField t (nat vt) d)) \<and>
     (\<forall>vt u. Scalar F32 vt \<in> set fs \<longrightarrow>
        (\<exists>n. Table_GetField F32 b q vt u = Inr n \<and> fl_of_bits Binary32 n = GetField_float t (nat vt) (fl_of_bits Binary32 u))) \<and>
     (\<forall>ty vt. Scalars ty vt \<in> set fs \<longrightarrow> (case GetPointer_vec t (nat vt) of
        None \<Rightarrow> Table_GetPointer b q vt = Inr None
      | Some xs \<Rightarrow> \<exists>p. Table_GetPointer b q vt = Inr (Some p) \<and> Vector_size b p = Inr (int (length xs)) \<and>
          (\<forall>i < length xs. Vector_Get ty b p i = Inr (xs ! i))))"

definition operator_rel :: "bytes \<Rightarrow> int \<Rightarrow> Operator \<Rightarrow> bool" where
  "operator_rel b data op \<longleftrightarrow> Operator_builtin_options_type b data = Inr (builtin_options_type op) \<and>
     (\<forall>(tag, fs) \<in> set BuiltinOptions_alternatives. case builtin_options_as tag op of
        None \<Rightarrow> Operator_builtin_options_as tag b data = Inr None
      | Some t \<Rightarrow> \<exists>q. Operator_builtin_options_as tag b data = Inr (Some q) \<and> table_rel fs b q t)"

text \<open>What a client has read of a table.\<close>

lemma read_fields_all2:
  assumes "read_fields fs b data = Inr xs"
  shows "list_all2 (\<lambda>f x. f b data = Inr x) fs xs"
  using assms by (induction fs arbitrary: xs) auto

lemma read_record_fields:
  assumes "read_record (map read_field fs) b data = Inr x"
  obtains xs where "x = Record xs" "list_all2 (\<lambda>f y. read_field f b data = Inr y) fs xs"
  using assms read_fields_all2[of "map read_field fs" b data] by (auto simp: read_record_def list_all2_map1)

lemma read_table_field:
  assumes "read_table fs b data = Inr x" "f \<in> set fs"
  obtains y where "read_field f b data = Inr y"
proof -
  obtain xs where "list_all2 (\<lambda>f y. read_field f b data = Inr y) fs xs"
    by (rule read_record_fields[OF assms(1)[unfolded read_table_def]])
  moreover obtain i where "i < length fs" "fs ! i = f" using assms(2) by (auto simp: in_set_conv_nth)
  ultimately show ?thesis using that[of "xs ! i"] by (auto dest: list_all2_nthD)
qed

lemma read_each_nth:
  assumes "read_each f i n = Inr xs"
  shows "length xs = n \<and> (\<forall>j < n. f (i + j) = Inr (xs ! j))"
  using assms
proof (induction n arbitrary: i xs)
  case (Suc n)
  then obtain x ys where xs: "f i = Inr x" "read_each f (Suc i) n = Inr ys" "xs = x # ys" by auto
  have "length ys = n \<and> (\<forall>j < n. f (Suc i + j) = Inr (ys ! j))" using Suc.IH[OF xs(2)] .
  then show ?case using xs by (auto simp: nth_Cons split: nat.splits)
qed simp

text \<open>The keys a table may have.\<close>

fun field_key :: "fb_field \<Rightarrow> nat" where
  "field_key (Scalar ty vt) = nat vt"
| "field_key (Scalars ty vt) = nat vt"
| "field_key (Text vt) = nat vt"
| "field_key (Subtable vt fs) = nat vt"
| "field_key (Subtables vt fs) = nat vt"
| "field_key (Union vt_type vt alts) = nat vt"

lemma store_field_other:
  assumes "k \<noteq> field_key f"
  shows "fb_ints (store_field f x t) k = fb_ints t k" "fb_floats (store_field f x t) k = fb_floats t k" "fb_vecs (store_field f x t) k = fb_vecs t k"
  using assms by (cases "(f, x, t)" rule: store_field.cases; simp)+

lemma options_of_absent:
  assumes "k \<notin> field_key ` set fs"
  shows "fb_ints (options_of fs xs) k = None" "fb_floats (options_of fs xs) k = None" "fb_vecs (options_of fs xs) k = None"
  using assms by (induction fs xs rule: options_of.induct) (simp_all add: store_field_other empty_table_def)

text \<open>The value stored for a field is the value of that field.\<close>

lemma options_of_field:
  assumes "list_all2 R fs xs" "distinct (map field_key fs)" "f \<in> set fs"
  obtains x t where "R f x" "fb_ints t (field_key f) = None" "fb_floats t (field_key f) = None" "fb_vecs t (field_key f) = None"
    "fb_ints (options_of fs xs) (field_key f) = fb_ints (store_field f x t) (field_key f)"
    "fb_floats (options_of fs xs) (field_key f) = fb_floats (store_field f x t) (field_key f)"
    "fb_vecs (options_of fs xs) (field_key f) = fb_vecs (store_field f x t) (field_key f)"
  using assms
proof (induction fs xs arbitrary: thesis rule: list_all2_induct)
  case (Cons g fs y ys)
  show ?case
  proof (cases "f = g")
    case True
    have "field_key g \<notin> field_key ` set fs" using Cons.prems(2) by simp
    then show ?thesis using Cons.prems(1)[of y "options_of fs ys"] Cons.hyps(1) True by (simp add: options_of_absent)
  next
    case False
    then have f: "f \<in> set fs" "distinct (map field_key fs)" "field_key f \<noteq> field_key g"
      using Cons.prems(2,3) by (auto simp: rev_image_eqI)
    show ?thesis by (rule Cons.IH[OF _ f(2,1)], rule Cons.prems(1)) (simp_all add: store_field_other[OF f(3)])
  qed
qed simp

lemma Table_GetField_optional:
  assumes "Table_GetOptional ty b data vt = Inr r"
  shows "Table_GetField ty b data vt d = Inr (case r of None \<Rightarrow> d | Some n \<Rightarrow> n)"
proof (cases "GetOptionalFieldOffset b data vt")
  case (Inr off)
  then show ?thesis using assms
    by (cases "off = 0"; cases "ReadScalar ty b (data + off)") (auto simp: Table_GetOptional_def Table_GetField_def)
qed (use assms in \<open>simp add: Table_GetOptional_def\<close>)

lemma read_scalar:
  assumes "read_field (Scalar ty vt) b q = Inr x"
  obtains r where "Table_GetOptional ty b q vt = Inr r" "x = (case r of None \<Rightarrow> Absent | Some n \<Rightarrow> Number n)"
  using assms that by (cases "Table_GetOptional ty b q vt") simp_all

lemma read_vector:
  assumes "read_field (Scalars ty vt) b q = Inr x"
  obtains "Table_GetPointer b q vt = Inr None" "x = Absent"
  | p xs where "Table_GetPointer b q vt = Inr (Some p)" "Vector_size b p = Inr (int (length xs))"
      "\<forall>i < length xs. Vector_Get ty b p i = Inr (xs ! i)" "x = Numbers xs"
proof -
  obtain r where r: "Table_GetPointer b q vt = Inr r" using assms by (auto simp: if_present_def)
  show ?thesis
  proof (cases r)
    case None
    then show ?thesis using assms r that(1) by (simp add: if_present_def)
  next
    case (Some p)
    then obtain n xs where n: "Vector_size b p = Inr n" "read_each (Vector_Get ty b p) 0 (nat n) = Inr xs" "x = Numbers xs"
      using assms r by (auto simp: if_present_def)
    have "0 \<le> n" using ReadScalar_bounds(3)[of uoffset_t b p n] n(1) by (simp add: Vector_size_def)
    then show ?thesis using that(2)[of p xs] r Some n read_each_nth[OF n(2)] by simp
  qed
qed

lemma options_table_rel:
  assumes "list_all2 (\<lambda>f x. read_field f b q = Inr x) fs xs" "distinct (map field_key fs)"
  shows "table_rel fs b q (options_of fs xs)"
  unfolding table_rel_def
proof (intro conjI allI impI)
  fix ty vt d assume "Scalar ty vt \<in> set fs \<and> ty \<noteq> F32"
  then have f: "Scalar ty vt \<in> set fs" "ty \<noteq> F32" by simp_all
  obtain x t where x: "read_field (Scalar ty vt) b q = Inr x" "fb_ints t (nat vt) = None"
      "fb_ints (options_of fs xs) (nat vt) = fb_ints (store_field (Scalar ty vt) x t) (nat vt)"
    using options_of_field[OF assms f(1)] by (metis field_key.simps(1))
  obtain r where "Table_GetOptional ty b q vt = Inr r" "x = (case r of None \<Rightarrow> Absent | Some n \<Rightarrow> Number n)"
    using read_scalar[OF x(1)] .
  then show "Table_GetField ty b q vt d = Inr (GetField (options_of fs xs) (nat vt) d)"
    using x(2,3) f(2) by (cases r) (simp_all add: Table_GetField_optional GetField_def)
next
  fix vt u assume f: "Scalar F32 vt \<in> set fs"
  obtain x t where x: "read_field (Scalar F32 vt) b q = Inr x" "fb_floats t (nat vt) = None"
      "fb_floats (options_of fs xs) (nat vt) = fb_floats (store_field (Scalar F32 vt) x t) (nat vt)"
    using options_of_field[OF assms f] by (metis field_key.simps(1))
  obtain r where "Table_GetOptional F32 b q vt = Inr r" "x = (case r of None \<Rightarrow> Absent | Some n \<Rightarrow> Number n)"
    using read_scalar[OF x(1)] .
  then show "\<exists>n. Table_GetField F32 b q vt u = Inr n \<and> fl_of_bits Binary32 n = GetField_float (options_of fs xs) (nat vt) (fl_of_bits Binary32 u)"
    using x(2,3) by (cases r) (simp_all add: Table_GetField_optional GetField_float_def)
next
  fix ty vt assume f: "Scalars ty vt \<in> set fs"
  obtain x t where x: "read_field (Scalars ty vt) b q = Inr x" "fb_vecs t (nat vt) = None"
      "fb_vecs (options_of fs xs) (nat vt) = fb_vecs (store_field (Scalars ty vt) x t) (nat vt)"
    using options_of_field[OF assms f] by (metis field_key.simps(2))
  show "case GetPointer_vec (options_of fs xs) (nat vt) of None \<Rightarrow> Table_GetPointer b q vt = Inr None
      | Some ns \<Rightarrow> \<exists>p. Table_GetPointer b q vt = Inr (Some p) \<and> Vector_size b p = Inr (int (length ns)) \<and>
          (\<forall>i < length ns. Vector_Get ty b p i = Inr (ns ! i))"
    using read_vector[OF x(1)] x(2,3) by cases (auto simp: GetPointer_vec_def)
qed

section \<open>Operators of a verified model\<close>

lemma alternatives_distinct: "(tag, fs) \<in> set BuiltinOptions_alternatives \<Longrightarrow> distinct (map field_key fs)"
  "distinct (map fst BuiltinOptions_alternatives)"
proof -
  have "list_all (\<lambda>(tag, fs). distinct (map field_key fs)) BuiltinOptions_alternatives" by code_simp
  then show "(tag, fs) \<in> set BuiltinOptions_alternatives \<Longrightarrow> distinct (map field_key fs)" by (auto simp: list_all_iff)
  show "distinct (map fst BuiltinOptions_alternatives)" by code_simp
qed

lemma operator_at_rel:
  assumes "read_field (Union 10 12 BuiltinOptions_alternatives) b data = Inr x"
  shows "operator_rel b data (operator_of x)"
proof -
  obtain ty r where ty: "Table_GetField U8 b data 10 0 = Inr ty" and r: "Table_GetPointer b data 12 = Inr r"
    and x: "(case r of None \<Rightarrow> Inr (Variant ty None) | Some q \<Rightarrow> (case map_of (map (map_prod id (map read_field)) BuiltinOptions_alternatives) ty of
      None \<Rightarrow> Inr (Variant ty None) | Some rs \<Rightarrow> bind_res (read_record rs b q) (\<lambda>y. Inr (Variant ty (Some y))))) = Inr x"
    using assms by auto
  have m: "map_of (map (map_prod id (map read_field)) alts) ty = map_option (map read_field) (map_of alts ty)" for alts :: "(int \<times> fb_field list) list"
    by (induction alts) auto
  note acc = Operator_builtin_options_as_def Operator_builtin_options_type_def Operator_builtin_options_def builtin_options_as_def
  consider "r = None \<or> map_of BuiltinOptions_alternatives ty = None" "x = Variant ty None"
    | q fs xs where "r = Some q" "map_of BuiltinOptions_alternatives ty = Some fs" "x = Variant ty (Some (Record xs))"
      "list_all2 (\<lambda>f y. read_field f b q = Inr y) fs xs"
    using x m by (auto simp: read_record_def list_all2_map1 split: option.splits dest!: read_fields_all2)
  then show ?thesis
  proof cases
    case 1
    then show ?thesis using ty r by (auto simp: operator_rel_def acc weak_map_of_SomeI dest: map_of_SomeD simp: map_of_eq_None_iff image_iff)
  next
    case 2
    have "table_rel fs b q (options_of fs xs)"
      using options_table_rel[OF 2(4)] alternatives_distinct(1) map_of_SomeD[OF 2(2)] by blast
    moreover have "gs = fs" if "(ty, gs) \<in> set BuiltinOptions_alternatives" for gs
      using that 2(2) alternatives_distinct(2) by (simp add: map_of_is_SomeI)
    ultimately show ?thesis using ty r 2 by (auto simp: operator_rel_def acc)
  qed
qed

lemma element_at_read:
  assumes "read_field (Subtables vt fs) b data = Inr x" "\<And>b data. acc b data = Table_GetPointer b data vt"
  obtains r where "element_at acc i b data = Inr r" "\<And>p. r = Some p \<Longrightarrow> \<exists>y. read_table fs b p = Inr y"
proof -
  obtain r where r: "Table_GetPointer b data vt = Inr r" using assms by (auto simp: if_present_def)
  show ?thesis
  proof (cases r)
    case None
    then show ?thesis using that[of None] r assms(2) by (simp add: element_at_def)
  next
    case (Some p)
    then obtain n xs where n: "Vector_size b p = Inr n"
        "read_each (\<lambda>i. bind_res (Vector_GetOffset b p i) (read_record (map read_field fs) b)) 0 (nat n) = Inr xs"
      using assms(1) r by (auto simp: if_present_def)
    show ?thesis
    proof (cases "int i < n")
      case True
      then have "bind_res (Vector_GetOffset b p i) (read_record (map read_field fs) b) = Inr (xs ! i)" using read_each_nth[OF n(2)] by simp
      then obtain q where "Vector_GetOffset b p i = Inr q" "read_table fs b q = Inr (xs ! i)" by (auto simp: read_table_def)
      then show ?thesis using that[of "Some q"] r Some n(1) True assms(2) by (simp add: element_at_def)
    qed (use that[of None] r Some n(1) assms(2) in \<open>simp add: element_at_def\<close>)
  qed
qed

lemma model_operator_read:
  assumes "GetRoot b 0 = Inr m" "read_table Verify_Model b m = Inr x"
  obtains r where "model_operator b i j = Inr r" "\<And>p. r = Some p \<Longrightarrow> \<exists>y. read_table Verify_Operator b p = Inr y"
proof -
  have "Subtables 8 Verify_SubGraph \<in> set Verify_Model" "Subtables 10 Verify_Operator \<in> set Verify_SubGraph"
    by (simp_all add: Verify_Model_def Verify_SubGraph_def)
  note members = this
  obtain y where s: "read_field (Subtables 8 Verify_SubGraph) b m = Inr y" by (rule read_table_field[OF assms(2) members(1)])
  obtain g where g: "element_at Model_subgraphs i b m = Inr g" "\<And>p. g = Some p \<Longrightarrow> \<exists>y. read_table Verify_SubGraph b p = Inr y"
    using element_at_read[OF s, of Model_subgraphs i] by (auto simp: Model_subgraphs_def)
  show ?thesis
  proof (cases g)
    case None
    then show ?thesis using that[of None] g(1) assms(1) by (simp add: model_operator_def GetModel_def)
  next
    case (Some q)
    then obtain y where "read_table Verify_SubGraph b q = Inr y" using g(2) by blast
    then obtain z where z: "read_field (Subtables 10 Verify_Operator) b q = Inr z"
      by (rule read_table_field[OF _ members(2)])
    obtain r where "element_at SubGraph_operators j b q = Inr r" "\<And>p. r = Some p \<Longrightarrow> \<exists>y. read_table Verify_Operator b p = Inr y"
      using element_at_read[OF z, of SubGraph_operators j] by (auto simp: SubGraph_operators_def)
    then show ?thesis using that[of r] g(1) Some assms(1) by (simp add: model_operator_def GetModel_def)
  qed
qed

text \<open>A model with one subgraph of one reshape operator, whose new shape is (2, 3).\<close>

definition reshape_model :: bytes where
  "reshape_model =
    [20, 0, 0, 0, 84, 70, 76, 51, 10, 0, 8, 0, 0, 0, 0, 0, 4, 0, 0, 0,
     12, 0, 0, 0, 4, 0, 0, 0, 1, 0, 0, 0, 16, 0, 0, 0, 12, 0, 8, 0,
     0, 0, 0, 0, 0, 0, 4, 0, 12, 0, 0, 0, 4, 0, 0, 0, 1, 0, 0, 0,
     20, 0, 0, 0, 14, 0, 12, 0, 0, 0, 0, 0, 0, 0, 8, 0, 4, 0, 0, 0,
     16, 0, 0, 0, 16, 0, 0, 0, 17, 0, 0, 0, 6, 0, 8, 0, 4, 0, 0, 0,
     8, 0, 0, 0, 4, 0, 0, 0, 2, 0, 0, 0, 2, 0, 0, 0, 3, 0, 0, 0]"

text \<open>
  C22: The operators of a verified model file refine to the operators the parser reads. Whatever numbers a loader asks for, the
  walk from the root over the vectors of subgraphs and operators stays in the buffer; and the operator it reaches is
  represented by an abstract operator, read from the same bytes, such that the type of its options is the stored one, for every
  alternative of the union \<^verbatim>\<open>builtin_options_as_T\<close> is null on both sides or on neither, and every accessor of that
  options table, of integers, of floating-point numbers and of vectors, returns on the bytes what the parser's model of it returns.\<close>

theorem verified_operators_refine:
  assumes "int (length b) < 2 ^ 31 - 1"
    and "VerifyModelBuffer (Verifier_new b max_depth max_tables True) = Inr (True, v')"
  shows "\<exists>r. model_operator b i j = Inr r \<and> (\<forall>p. r = Some p \<longrightarrow> (\<exists>op. operator_at b p = Inr op \<and> operator_rel b p op))"
proof -
  let ?v = "Verifier_new b max_depth max_tables True"
  obtain m x where m: "GetRoot b 0 = Inr m" "read_table Verify_Model b m = Inr x"
    using VerifyModelBuffer_runs[OF new_safe[OF assms(1), of max_depth max_tables]] assms(2) by (auto simp: runs_def)
  obtain r where r: "model_operator b i j = Inr r" "\<And>p. r = Some p \<Longrightarrow> \<exists>y. read_table Verify_Operator b p = Inr y"
    using model_operator_read[OF m] by blast
  have member: "Union 10 12 BuiltinOptions_alternatives \<in> set Verify_Operator" by (simp add: Verify_Operator_def)
  have "\<exists>op. operator_at b p = Inr op \<and> operator_rel b p op" if p: "r = Some p" for p
  proof -
    obtain y where y: "read_table Verify_Operator b p = Inr y" using r(2)[OF p] by blast
    obtain z where "read_field (Union 10 12 BuiltinOptions_alternatives) b p = Inr z" by (rule read_table_field[OF y member])
    then show ?thesis using operator_at_rel[of b p z] unfolding operator_at_def by auto
  qed
  then show ?thesis using r(1) by blast
qed

lemma reshape_verified:
  "VerifyModelBuffer (Verifier_new reshape_model 64 1000000 True) = Inr (True, (Verifier_new reshape_model 64 1000000 True)\<lparr>vf_num_tables := 4\<rparr>)"
  by code_simp

lemma reshape_operator: "model_operator reshape_model 0 0 = Inr (Some 80)"
  by code_simp

theorem verified_operators_refine_witness:
  "model_operator reshape_model 0 0 = Inr (Some 80) \<and> (\<exists>op. operator_at reshape_model 80 = Inr op \<and> operator_rel reshape_model 80 op)"
proof -
  have "int (length reshape_model) < 2 ^ 31 - 1" by (simp add: reshape_model_def)
  from verified_operators_refine[OF this reshape_verified, of 0 0] show ?thesis using reshape_operator by simp
qed

end
