(* ===== verification/Model_Built.thy ===== *)
theory Model_Built
  imports Typed_Programs Options_Bytes
begin

text \<open>
  Models that are built by typed programs: what finishes them, and the claims about the finished buffer.
\<close>

section \<open>Finishing a model\<close>

definition FinishModelBuffer :: "int \<Rightarrow> builder \<Rightarrow> builder res" where
  "FinishModelBuffer r b = Builder_Finish r (Some ModelIdentifier) False b"

definition FinishSizePrefixedModelBuffer :: "int \<Rightarrow> builder \<Rightarrow> builder res" where
  "FinishSizePrefixedModelBuffer r b = Builder_Finish r (Some ModelIdentifier) True b"

definition GetSizePrefixedModel :: "bytes \<Rightarrow> int res" where
  "GetSizePrefixedModel buf = GetRoot buf 4"

definition ModelBufferHasIdentifier :: "bytes \<Rightarrow> bool res" where
  "ModelBufferHasIdentifier buf = BufferHasIdentifier buf 0 ModelIdentifier False"

text \<open>The types of the schema nest six deep, the model included.\<close>

lemma model_depth: "table_depth Verify_Model = 6"
  by code_simp

lemma model_fields: "list_all wf_field Verify_Model"
  by code_simp

lemma model_identifier_length: "length ModelIdentifier = 4"
  by (simp add: ModelIdentifier_def)

section \<open>Claims\<close>

text \<open>
  C25: Building and verifying agree. However a program uses the generated functions, as long as its arguments have their C++ types, every union is given a table of the type its tag
  names, and there is room below 2 GB, the buffer it finishes with a model is accepted by the generated verifier, with or without a size prefix and whether alignment is checked or
  not, and the verifier counts exactly the tables that are reached from the model, once for every path. The limits that are needed are six levels and that many tables.
  The agreement of tag and table is an obligation of the program: the parameter is an \<^verbatim>\<open>Offset<void>\<close>, so the compiler does not see it, and without it the
  verifier may reject the buffer, as the model of a convolution below shows.\<close>

theorem typed_program_verifies:
  assumes "program b objs \<Gamma>" "\<Gamma> r = Some (Table_of Verify_Model)" "GetSize b + 64 < 2 ^ 31 - 1" "6 \<le> max_depth" "max_depth < 2 ^ 32"
    "int (weight_table Verify_Model (map_of objs) r) \<le> max_tables" "max_tables < 2 ^ 32"
  shows "(\<exists>b1 w b2 v'. FinishModelBuffer r b = Inr b1 \<and> Builder_Release b1 = Inr (w, b2) \<and>
      VerifyModelBuffer (Verifier_new w max_depth max_tables check_alignment) = Inr (True, v') \<and> vf_num_tables v' = int (weight_table Verify_Model (map_of objs) r)) \<and>
    (\<exists>b1 w b2 v'. FinishSizePrefixedModelBuffer r b = Inr b1 \<and> Builder_Release b1 = Inr (w, b2) \<and>
      VerifySizePrefixedModelBuffer (Verifier_new w max_depth max_tables check_alignment) = Inr (True, v') \<and> vf_num_tables v' = int (weight_table Verify_Model (map_of objs) r))"
proof -
  have inv: "session b objs" "typing_of (map_of objs) \<Gamma>" using program_invariant[OF assms(1)] by (simp_all add: program_inv_def)
  have "fits_table Verify_Model (map_of objs) r" using inv(2) assms(2) by (fastforce simp: typing_of_def fits_table_def)
  note acc = built_buffer_accepted[where ident = "Some ModelIdentifier", OF inv(1) assms(3) _ model_fields this _ assms(5-7)]
  show ?thesis using acc[of False check_alignment] acc[of True check_alignment] assms(4) model_depth model_identifier_length
    by (simp add: FinishModelBuffer_def FinishSizePrefixedModelBuffer_def verify_finished_def VerifyModelBuffer_def VerifySizePrefixedModelBuffer_def)
qed

text \<open>A model with a list of two buffers, the same one twice.\<close>

lemma run_case: "(case r of Inl e \<Rightarrow> False | Inr (x, y) \<Rightarrow> P x y) \<longleftrightarrow> (\<exists>x y. r = Inr (x, y) \<and> P x y)"
  by (auto split: sum.splits)

lemma small_model_run:
  "case CreateVector U8 [1, 2, 3] demo_builder of Inl e \<Rightarrow> False | Inr (l1, b1) \<Rightarrow> l1 = 8 \<and> GetSize b1 = 8 \<and>
    (case create_table (Create_Buffer 8) b1 of Inl e \<Rightarrow> False | Inr (l2, b2) \<Rightarrow> l2 = 16 \<and> GetSize b2 = 22 \<and>
    (case CreateVector_offsets [16, 16] b2 of Inl e \<Rightarrow> False | Inr (l3, b3) \<Rightarrow> l3 = 36 \<and> GetSize b3 = 36 \<and>
    (case create_table (Create_Model 3 0 0 0 36 0 0 0) b3 of Inl e \<Rightarrow> False | Inr (l4, b4) \<Rightarrow> l4 = 48 \<and> GetSize b4 = 62)))"
  by code_simp

definition small_model :: "(int \<times> fb_object) list" where
  "small_model = [(48, Table (Create_Model 3 0 0 0 36 0 0 0)), (36, OffVec [16, 16]), (16, Table (Create_Buffer 8)), (8, Vec U8 [1, 2, 3])]"

lemma small_model_program: "\<exists>b \<Gamma>. program b small_model \<Gamma> \<and> \<Gamma> 48 = Some (Table_of Verify_Model) \<and> GetSize b = 62"
proof -
  obtain b1 b2 b3 b4 where b: "CreateVector U8 [1, 2, 3] demo_builder = Inr (8, b1)" "GetSize b1 = 8" "create_table (Create_Buffer 8) b1 = Inr (16, b2)" "GetSize b2 = 22"
      "CreateVector_offsets [16, 16] b2 = Inr (36, b3)" "GetSize b3 = 36" "create_table (Create_Model 3 0 0 0 36 0 0 0) b3 = Inr (48, b4)" "GetSize b4 = 62"
    using small_model_run by (auto simp: run_case)
  have p0: "program demo_builder [] Map.empty" unfolding demo_builder_def by (rule program_new) (simp_all add: allocator_ok_def zero_memory_def)
  have g: "GetSize demo_builder = 0" by (simp add: demo_builder_def FlatBufferBuilder_new_def GetSize_def vd_size_def vector_downward_new_def)
  have p1: "program b1 [(8, Vec U8 [1, 2, 3])] [8 \<mapsto> Vector_of U8]" by (rule program_vector[OF p0 _ _ b(1)]) (simp_all add: in_range_def g)
  have c1: "call [8 \<mapsto> Vector_of U8] Verify_Buffer (Create_Buffer 8)" by (intro call_leaf leaf_call_Buffer) (simp add: typed_def)
  have p2: "program b2 [(16, Table (Create_Buffer 8)), (8, Vec U8 [1, 2, 3])] [8 \<mapsto> Vector_of U8, 16 \<mapsto> Table_of Verify_Buffer]"
    by (rule program_table[OF p1 c1 _ b(3)]) (simp add: b(2))
  have p3: "program b3 [(36, OffVec [16, 16]), (16, Table (Create_Buffer 8)), (8, Vec U8 [1, 2, 3])]
      [8 \<mapsto> Vector_of U8, 16 \<mapsto> Table_of Verify_Buffer, 36 \<mapsto> Tables_of Verify_Buffer]"
    by (rule program_tables[OF p2 _ _ b(5)]) (simp_all add: b(4))
  have c2: "call [8 \<mapsto> Vector_of U8, 16 \<mapsto> Table_of Verify_Buffer, 36 \<mapsto> Tables_of Verify_Buffer] Verify_Model (Create_Model 3 0 0 0 36 0 0 0)"
    by (rule call_Model) (simp_all add: typed_def in_range_def)
  show ?thesis using program_table[OF p3 c2 _ b(7)] b(6,8) unfolding small_model_def
    by (intro exI[of _ b4] exI[of _ "[8 \<mapsto> Vector_of U8, 16 \<mapsto> Table_of Verify_Buffer, 36 \<mapsto> Tables_of Verify_Buffer, 48 \<mapsto> Table_of Verify_Model]"]) simp
qed

lemma small_model_weight: "weight_table Verify_Model (map_of small_model) 48 = 3"
  by code_simp

theorem typed_program_verifies_witness:
  "\<exists>b b1 w b2 v'. FinishModelBuffer 48 b = Inr b1 \<and> Builder_Release b1 = Inr (w, b2) \<and>
    VerifyModelBuffer (Verifier_new w 64 1000000 True) = Inr (True, v') \<and> vf_num_tables v' = 3"
proof -
  obtain b \<Gamma> where b: "program b small_model \<Gamma>" "\<Gamma> 48 = Some (Table_of Verify_Model)" "GetSize b = 62" using small_model_program by blast
  show ?thesis using typed_program_verifies[OF b(1,2), of 64 1000000 True] b(3) small_model_weight by auto
qed

text \<open>
  The obligation on unions is needed. The options of a convolution, stored in an operator under a tag: under their own the model is accepted; under the tag of a reshape, which C++ lets a
  program pass, it is built without a failure and the verifier rejects it.
\<close>

definition conv_model :: "int \<Rightarrow> (bool \<times> verifier) res" where
  "conv_model tag =
     bind_res (create_table (Create_Conv2DOptions 1 1 1 0 1 1) demo_builder) (\<lambda>(options, b).
     bind_res (create_table (Create_Operator 0 0 0 tag options 0 0 0 0) b) (\<lambda>(operator, b).
     bind_res (CreateSubGraphDirect None None None (Some [operator]) None b) (\<lambda>(subgraph, b).
     bind_res (CreateModelDirect 3 None (Some [subgraph]) None None None None None b) (\<lambda>(model, b).
     bind_res (FinishModelBuffer model b) (\<lambda>b.
     bind_res (Builder_Release b) (\<lambda>(w, b). VerifyModelBuffer (Verifier_new w 64 1000000 True)))))))"

lemma mismatched_union_rejected:
  "bind_res (conv_model BuiltinOptions_Conv2DOptions) (\<lambda>(r, v). Inr r) = Inr True"
  "bind_res (conv_model BuiltinOptions_ReshapeOptions) (\<lambda>(r, v). Inr r) = Inr False"
  by code_simp+

text \<open>
  C28: The functions that take the vectors and strings of a table as values build what they are given. In every program, a call of one of the eighteen
  \<^verbatim>\<open>Create...Direct\<close> functions whose arguments have their C++ types (and whose union tag agrees with the table), for which there is room,
  adds exactly the vectors and strings that are given, in the order of the parameters, and then the table; an argument that is not given gets the offset 0 and every other one
  the offset of its part, and the fields of the table are those of the plain function \<^verbatim>\<open>Create...\<close> for these offsets in their places. Where the schema forces an
  alignment (16 for the data of a buffer and of a custom quantization, 4 for the vectors of 8 and 16 bits), the data of the vector is on a multiple of it, counted from the end, to which
  the finished buffer is padded. All earlier objects stay as they were, the earlier offsets keep their types and the new one has the type of the table.\<close>

theorem direct_calls_succeed:
  assumes "program b objs \<Gamma>" "direct_call \<Gamma> gs parts al mk f" "GetSize b + parts_room parts + 64 < 2 ^ 31 - 1"
  shows "\<exists>loc b' offs \<Gamma>'. f b = Inr (loc, b') \<and> parts_at parts offs \<and> program b' ((loc, Table (mk offs)) # given_parts parts offs @ objs) \<Gamma>' \<and>
    \<Gamma> \<subseteq>\<^sub>m \<Gamma>' \<and> \<Gamma>' loc = Some (Table_of gs) \<and> first_aligned al parts offs b'"
proof -
  have room: "GetSize b + (parts_room parts + 64) < 2 ^ 31 - 1" using assms(3) by simp
  obtain loc b' offs \<Gamma>' where r: "f b = Inr (loc, b')" "parts_at parts offs" "program b' ((loc, Table (mk offs)) # given_parts parts offs @ objs) \<Gamma>'"
      "\<Gamma> \<subseteq>\<^sub>m \<Gamma>'" "\<Gamma>' loc = Some (Table_of gs)" "minalign b \<le> minalign b'" "first_aligned al parts offs b'"
    using makesE[OF direct_makes[OF assms(2)] assms(1) map_le_refl room] .
  then show ?thesis by (intro exI conjI)
qed

theorem direct_calls_succeed_witness:
  "\<exists>loc b' off \<Gamma>'. CreateUint16VectorDirect (Some [7, 65535]) demo_builder = Inr (loc, b') \<and> off \<noteq> 0 \<and>
    program b' [(loc, Table [Refer 4 off]), (off, Vec U16 [7, 65535])] \<Gamma>' \<and> \<Gamma>' loc = Some (Table_of Verify_Uint16Vector) \<and> (off - 4) mod 4 = 0"
proof -
  have p: "program demo_builder [] Map.empty" unfolding demo_builder_def by (rule program_new) (simp_all add: allocator_ok_def zero_memory_def)
  have d: "direct_call Map.empty Verify_Uint16Vector [map_option (Vec U16) (Some [7, 65535])] 4 (\<lambda>offs. Create_Uint16Vector (offs ! 0)) (CreateUint16VectorDirect (Some [7, 65535]))"
    by (rule direct_Uint16Vector) (simp add: numbers_given_def in_range_def)
  have "GetSize demo_builder = 0" by (simp add: demo_builder_def FlatBufferBuilder_new_def GetSize_def vd_size_def vector_downward_new_def)
  then have room: "GetSize demo_builder + parts_room [map_option (Vec U16) (Some [7, 65535])] + 64 < 2 ^ 31 - 1" by (simp add: parts_room_def part_room_def)
  obtain loc b' offs \<Gamma>' where r: "CreateUint16VectorDirect (Some [7, 65535]) demo_builder = Inr (loc, b')" "parts_at [Some (Vec U16 [7, 65535])] offs"
      "program b' ((loc, Table (Create_Uint16Vector (offs ! 0))) # given_parts [Some (Vec U16 [7, 65535])] offs) \<Gamma>'" "\<Gamma>' loc = Some (Table_of Verify_Uint16Vector)"
      "first_aligned 4 [Some (Vec U16 [7, 65535])] offs b'"
    using direct_calls_succeed[OF p d room] by auto
  obtain off where "offs = [off]" using r(2) by (auto simp: parts_at_def list_all2_Cons1)
  then show ?thesis using r by (intro exI[of _ loc] exI[of _ b'] exI[of _ off] exI[of _ \<Gamma>']) (simp add: Create_Uint16Vector_def first_aligned_def)
qed

end
