(* ===== verification/Spec2Isabelle.thy ===== *)
theory Spec2Isabelle
  imports Native_Calls Op_Data_Props Tflite_Common Planner_Sessions Strided_Slice Tflite_Padding Reduce_Mean Runtime_Shape Buffer_Alignment Model_Built
begin

text \<open>
  A verification library for the native part of the Android controller app
  (\<^verbatim>\<open>src/controller/app/src/main/cpp\<close>) and for parts of the TensorFlow Lite sources the repository
  carries (\<^verbatim>\<open>src/controller/extern_modules/include/tensorflow/lite\<close>): the format of the model file with its reader, verifier, builder and parser, the C
  core with its tensors, the memory planners, and the slicing, reduction and padding logic of the kernels.

  \<^bold>\<open>The program.\<close> A Java activity feeds camera frames to a shared library. The library finds green
  blobs in a frame (\<^verbatim>\<open>detect_obj.cpp\<close>), hands their centroids to the tracked object
  (\<^verbatim>\<open>point_obj.cpp\<close>), estimates its pose (\<^verbatim>\<open>point_tracker.cpp\<close>) and returns it as an OpenGL matrix
  (\<^verbatim>\<open>native-lib.cpp\<close>). A touch re-learns the model points and runs a TensorFlow Lite network on the
  frame (\<^verbatim>\<open>tflite_obj.cpp\<close>). The camera settings and results travel in a struct (\<^verbatim>\<open>utils.h\<close>) that every
  function takes by value.

  \<^bold>\<open>Theories.\<close>
  \<^item> \<open>Prelude\<close>: the errors a native call ends with, bounded integers, vector access, for loops, and the
    collections of rewrite rules.
  \<^item> \<open>Ieee_Float\<close>: binary32 and binary64 arithmetic with round to nearest even, on rationals; bounds
    and monotonicity of rounding.
  \<^item> \<open>Cv_Mat\<close>: \<^verbatim>\<open>cv::Mat\<close> headers over an explicit store of buffers, so that sharing a buffer is visible;
    the compiled OpenCV as the record \<open>cv_api\<close>. \<open>Cv_Sample\<close>: a concrete instance of that record.
  \<^item> \<open>Point_Obj\<close>, \<open>Camera_Info\<close>, \<open>Detect_Obj\<close>, \<open>Point_Tracker\<close>: the four classes, one definition per
    method; \<open>Std_Sort\<close>: \<^verbatim>\<open>std::sort\<close> up to equivalent elements, undefined where the comparator is no strict weak order on the range.
  \<^item> \<open>Tflite_Interpreter\<close>, \<open>Tflite_Obj\<close>: the accessors of the interpreter and the class that uses them.
  \<^item> \<open>Native_Lib\<close>: the static state and the six JNI functions. \<open>Native_Inv\<close>: the invariant and how
    \<^verbatim>\<open>InitMatrix\<close> and the start of a frame keep it. \<open>Native_Frame\<close>: the camera frame call.
    \<open>Native_Calls\<close>: sequences of calls as a step relation.
  \<^item> \<open>Tflite_Schema\<close>, \<open>Tflite_Op_Data\<close>, \<open>Flatbuffer_Conversions\<close>: the accessors of the model file, the
    parameter structs of the runtime, and the parser between them
    (\<^verbatim>\<open>core/api/flatbuffer_conversions.cc\<close>); \<open>Op_Data_Props\<close>: its properties.
  \<^item> \<open>Flatbuffers\<close>: reading and verifying a byte buffer (\<^verbatim>\<open>flatbuffers/base.h\<close>, \<^verbatim>\<open>flatbuffers/flatbuffers.h\<close>);
    \<open>Flatbuffer_Verify\<close>: the generated verify methods as lists of field checks, a client that reads everything, and the soundness of
    the one for the other; \<open>Schema_Verify\<close>: the verify methods of the whole schema; \<open>Model_Bytes\<close>: verifying a model file;
    \<open>Options_Bytes\<close>: from the bytes of a verified model to the operators the parser reads.
  \<^item> \<open>Vector_Downward\<close>, \<open>Flatbuffer_Builder\<close>: the class that writes such a buffer and the block of memory under it;
    \<open>Builder_Lemmas\<close>, \<open>Builder_Tables\<close>, \<open>Builder_Objects\<close>, \<open>Builder_Vectors\<close>: what the operations do to the bytes written so far, the known
    vtables and the open table; \<open>Builder_Sessions\<close>: sessions of a builder and the claims.
  \<^item> \<open>Verify_Complete\<close>: objects typed by the field lists of the verify methods, and that the verifier accepts a finished buffer whose root has
    its type. \<open>Schema_Create\<close>: for every table of \<^verbatim>\<open>schema_generated.h\<close> the fields its builder class adds, in their order, and the functions that also
    build the vectors and strings of a table; \<open>Create_Calls\<close>: the C++ types of their parameters and results; \<open>Typed_Programs\<close>: programs that make
    calls of these types; \<open>Buffer_Alignment\<close>: the places of the data in a finished buffer; \<open>Model_Built\<close>: models that are built, finished and verified.
  \<^item> \<open>Tflite_Common\<close>: \<^verbatim>\<open>c/common.c\<close> and \<^verbatim>\<open>core/api/tensor_utils.cc\<close> over an explicit heap of typed blocks.
  \<^item> \<open>Memory_Planner\<close>: the interface \<^verbatim>\<open>micro/memory_planner/memory_planner.h\<close> as a locale and the linear
    planner; \<open>Greedy_Memory_Planner\<close>: the greedy planner on its scratch arrays; \<open>Greedy_Plan\<close>: the same plan
    on lists, with its safety; \<open>Greedy_Refines\<close> and \<open>Greedy_Planner_Props\<close>: the arrays implement the lists and the
    planner meets the interface; \<open>Planner_Print\<close>: the memory plan that is printed; \<open>Planner_Sessions\<close>: sequences of calls and the claims.
  \<^item> \<open>Shape_Index\<close>: indices, flat offsets and the legacy dimensions of \<^verbatim>\<open>kernels/internal/types.h\<close>;
    \<open>Runtime_Shape\<close>: the class \<^verbatim>\<open>RuntimeShape\<close> with its array in the object or on the heap, the contract that objects behave as lists, and its proof;
    \<open>Reduce_Ops\<close>: the generic reduction of \<^verbatim>\<open>reference/reduce.h\<close>; \<open>Cpp_Numbers\<close>: the arithmetic types a template is instantiated with, their conversions and operators;
    \<open>Reduce_Mean\<close>: the sum and the mean of \<^verbatim>\<open>reduce.h\<close> for all these types.
  \<^item> \<open>Strided_Slice\<close>: \<^verbatim>\<open>kernels/internal/strided_slice_logic.h\<close> and the reference kernel over it.
  \<^item> \<open>Tflite_Padding\<close>: \<^verbatim>\<open>kernels/padding.h\<close>, output sizes and paddings of convolution and pooling windows.

  \<^bold>\<open>Correspondence.\<close> A struct or class is a record with the members of the source, an \<^verbatim>\<open>int\<close> is a
  mathematical integer with the narrowing written out where the source narrows, a \<^verbatim>\<open>float\<close> or \<^verbatim>\<open>double\<close>
  is an element of \<open>fl\<close> rounded after every operation. A function that can crash returns a value of
  \<open>'a res\<close>: \<open>Inl\<close> is the way the process dies (null pointer, out of bounds, signed overflow, an OpenCV
  exception, \<^verbatim>\<open>exit\<close>), or \<open>Undefined\<close> where a call breaks a requirement of the language or its library. A \<^verbatim>\<open>Mat\<close> passed by reference or by pointer is a header returned updated, and
  its elements are in the store. The parser takes and returns its allocator, out parameter and
  error reporter in one record. In the C core a pointer is an address in a heap or null, and freeing or
  reading a dead block is an error. In a flatbuffer a pointer is its distance from the start of the buffer, and reading
  outside the buffer is an error. In a builder an offset is the distance of an object from the end of the buffer, and an
  \<^verbatim>\<open>Offset<T>\<close> is such a distance with a type in an environment that the calls extend. In the planners a pointer to an entry is its index.

  \<^bold>\<open>What is assumed.\<close> Code that is only present as a binary is a parameter. \<open>create_ok\<close> is the documented
  behaviour of \<^verbatim>\<open>Mat::create\<close> (reuse a matching buffer, otherwise a fresh one), \<open>dims_ok\<close> the documented
  dimensions of the numeric results, \<open>few_contours\<close> that the number of contours fits an \<^verbatim>\<open>int\<close>;
  \<open>lib_ok\<close> is the three together, and \<open>sample_cv\<close> satisfies it. Directory iteration of the asset
  manager ends after finitely many names (\<open>lists_names\<close>). Programs that build a model give every union a table of the type its tag names
  (\<open>union_agrees\<close>): the C++ parameter is an \<^verbatim>\<open>Offset<void>\<close>, and a program that breaks it is shown to be rejected by the verifier.

  \<^bold>\<open>What is shown.\<close>
  \<^item> Sessions: every reachable state satisfies \<open>native_inv\<close>; a frame after \<^verbatim>\<open>InitMatrix\<close> returns the matrix
    of the object's pose, one before it fails; solved, unsolved and empty frames are characterised;
    \<^verbatim>\<open>NativeInfo\<close> and \<^verbatim>\<open>GetRvecTvec\<close> report what they report; leaks are counted.
  \<^item> Tracking: the centroid and the distances are finite and bounded, the points are sorted by a strict
    weak order, the pose estimator fails exactly if the sort is undefined on its points or the solver throws, a touch fixes the model.
  \<^item> Detection: the accepted and the marked contours, and that the dilation is without effect.
  \<^item> Network: the frame never reaches the input tensor, the output index is misused.
  \<^item> Parser: no leaks on any path, the struct returned is the one the operator calls for, the exact set
    of rejected operators, array bounds, type conversion, defaults.
  \<^item> Model files: verifying any bytes stays in the buffer, everything the schema reaches in a verified model can be read, and
    its operators are the ones the parser's model reads; two ways in which the verifier itself leaves the buffer.
  \<^item> Building: a builder never gets stuck below 2 GB on objects whose parts exist and whose fields are distinct, a field that is stored twice ends in the assertion, and in the finished buffer every object is read as it was built, with
    shared vtables, growing blocks and any of the finishing options. Every stored scalar and vector element is at a multiple of its size, and the data of
    a tensor at a multiple of 16.
  \<^item> Building and verifying: the verifier accepts the buffer of every program that uses the generated functions with arguments of their C++ types and unions that agree, and
    counts exactly the tables reached; the functions that build the parts of a table add exactly these, aligned as the schema forces, as long as there is room.
  \<^item> Tensors: the destructor frees exactly what the tensor owns and can run again, resetting and growing a
    tensor keep it well formed and keep its bytes, copies are equal to their source; what a refused
    allocation does.
  \<^item> Planners: the greedy planner computes the plan on lists, buffers in use at the same time are disjoint, the
    reported size is exact, the sort is stable, the overlap check is exact, every session returns (printing included, below the size where its scaled offsets
    overflow); both planners meet the interface, from which it follows that the bytes of live buffers are inside the arena and apart.
  \<^item> Shapes: objects that are made, copied, changed and destroyed in any order behave as the lists of sizes the kernels are modelled on; no array is leaked,
    freed twice or read after it was freed, unless an object is replaced by its own sizes, which is shown to fail.
  \<^item> Kernels: the strided slice kernel writes exactly the elements of the slice in row-major order and
    reads nothing else; a reduction folds exactly the elements that agree on the kept axes, and a mean adds and divides them
    in its types, failing exactly where C++ leaves an operation undefined, and exactly for integers with room for their sum; the two ways to compute an offset agree; the computed paddings give windows that cover the axis (SAME) or fill it (VALID).

  \<^bold>\<open>Termination and bounds.\<close> Loops over vectors are structural recursion; the asset loop is a partial
  function proved to return. The walks over the planner's linked entries have as many steps as there are
  entries, after which a walk would be in a cycle; that they never run out is part of the session theorem.
  The loop of a reduction is a partial function proved to return; a slicing loop gets as many steps as its distance
  to the end, after which it would make no progress. The kernels are covered for fewer than \<open>2 ^ 30\<close> (slices) and
  \<open>2 ^ 63\<close> (reductions) elements, and shapes without empty axes.
  The sort ends because a pass that swaps has fewer pairs in the wrong order. The float bounds hold
  for coordinates up to \<open>2 ^ 100\<close> and fewer than \<open>2 ^ 24\<close> points, far beyond any image. Counts narrowed to \<^verbatim>\<open>int\<close> are covered for fewer than \<open>2 ^ 31\<close>
  elements. Plans are covered up to \<open>2 ^ 31\<close> bytes, the range of the offsets.

  \<^bold>\<open>Not modelled.\<close> Logging, the Java side, the compiled parts of OpenCV and TensorFlow Lite, pixel
  contents (images are an abstract type), reference counts of matrix buffers (a buffer is never
  reused, so a stale pointer would show as one no header has), the object API of the
  flatbuffer schema, the vendored trees the app does not call.

  Of the modelled sources these parts are left out: the quantized mean, which
  rests on the fixed-point arithmetic of a library that is not in the repository, structs, shared strings and nested buffers of the builder, and the
  in-place mutation of tables.
\<close>

section \<open>A concrete session\<close>

text \<open>
  The library loaded over a sample OpenCV and a sample network, with one green-free and one
  three-blob image; the states of the witnesses are reached from it.
\<close>

definition sample_contour :: "int \<Rightarrow> int \<Rightarrow> contour" where
  "sample_contour u v = replicate 301 (u, v)"

definition sample_image :: "contour list" where
  "sample_image = [sample_contour 1 2, sample_contour 3 4, sample_contour 5 6]"

definition sample_pix :: "contour list pixels" where
  "sample_pix a = (if a = 1 then sample_image else [])"

lemma sample_pix_1 [simp]: "sample_pix 1 = sample_image" "sample_pix (Suc 0) = sample_image"
  by (simp_all add: sample_pix_def)

definition sample_frame :: "addr \<Rightarrow> mat" where
  "sample_frame a = \<lparr>rows = 480, cols = 640, mtype = CV_8UC4, data = a\<rparr>"

definition sample_jmats :: "nat \<rightharpoonup> mat" where
  "sample_jmats a = (if a \<in> {1, 2} then Some (sample_frame a) else None)"

definition session0 :: "(contour list, unit) native_state" where
  "session0 = library_loaded sample_pix sample_jmats"

definition session1 :: "(contour list, unit) native_state" where
  "session1 = InitMatrix sample_cv session0"

lemma session0_run: "jni_run sample_cv sample_tf [] session0"
  unfolding session0_def by (rule run_start)

lemma session1_run: "jni_run sample_cv sample_tf [Init_matrix] session1"
  using run_step [OF session0_run matrix_step] by (simp add: session1_def)

lemma session1_fields [simp]: "jmats session1 = sample_jmats" "pix session1 = sample_pix"
  by (simp_all add: session1_def session0_def InitMatrix_frame library_loaded_def)

text \<open>In the middle of a frame, without and with model points to match three image points.\<close>

definition session2 :: "(contour list, unit) native_state" where
  "session2 = (case set_camera_info sample_cv [480, 640, 60, 1] session1 of Inl e \<Rightarrow> session1 | Inr s \<Rightarrow> s)"

definition sample_points :: "point2f list" where
  "sample_points = replicate 3 \<lparr>px = fone, py = fone\<rparr>"

definition session3 :: "(contour list, unit) native_state" where
  "session3 = session2\<lparr>tracker_vars := refresh_model_points static_tracker sample_points\<rparr>"

lemma session2_ok:
  "native_inv session2" "running session2" "holds (nheap session2) (cam_R (info session2)) 3 3 eye3"
  "touch_status (info session2) = 1" "tracker_vars session2 = static_tracker"
proof -
  have i: "native_inv session1" "\<not> loaded session1"
    using jni.run_good [of "(sample_cv, sample_tf)"] run_phases [OF sample_lib_ok] session1_run sample_lib_ok by fastforce+
  obtain s where "set_camera_info sample_cv [480, 640, 60, 1] session1 = Inr s" "native_inv s" "running s"
    "holds (nheap s) (cam_R (info s)) 3 3 eye3" "tracker_vars s = tracker_vars session1" "touch_status (info s) = [480, 640, 60, 1] ! 3"
    by (rule frame_start [OF sample_create_ok i, of "[480, 640, 60, 1]"]) simp_all
  then show "native_inv session2" "running session2" "holds (nheap session2) (cam_R (info session2)) 3 3 eye3"
    "touch_status (info session2) = 1" "tracker_vars session2 = static_tracker"
    by (simp_all add: session2_def session1_def session0_def InitMatrix_frame library_loaded_def)
qed

lemma session3_ok:
  "native_inv session3" "running session3" "touch_status (info session3) = 1"
  "length (model_points (tracker_vars session3)) = 3"
proof -
  show "native_inv session3" "running session3"
    using session2_ok(1,2) phases_disjoint [of session2]
    by (simp_all add: session3_def native_inv_def running_def tracker_ok_def counters_unmoved_def globals_reset_def
        cam_set_def cam_mats_def pose_mats_def sample_points_def)
  show "touch_status (info session3) = 1" "length (model_points (tracker_vars session3)) = 3"
    using session2_ok(4) by (simp_all add: session3_def sample_points_def)
qed

lemma session3_solves:
  "solves sample_cv sample_points (frame_env sample_cv m sample_points session3) = Some (zeros3, [zero, zero, fone])"
  using session3_ok by (simp add: solves_def frame_env_def sample_points_def sample_cv_def)

lemma sample_sortable: "sortable sample_points"
proof (rule in_frame_sortable [of 0])
  show "\<forall>p \<in> set sample_points. in_frame 0 p" by (simp add: sample_points_def in_frame_def fone_def)
  show "length sample_points < 2 ^ 24" by (simp add: sample_points_def)
qed simp_all

lemma sample_total:
  "cv_cvtColor sample_cv im k = Inr im" "\<exists>r. cv_solvePnPGeneric sample_cv os ps K D f = Inr r"
  by (simp_all add: sample_cv_def)

section \<open>Properties of the native library\<close>

text \<open>
  C1: Whatever calls the Java side makes in whatever order, as long as they return, the library is in
  the phase the calls determine. Before the first \<^verbatim>\<open>InitMatrix\<close> (\<open>loaded\<close>) every static matrix is empty, the
  raw pointers of the camera struct are null and there are no model points. From then on the matrices
  of the pose, global and in the object, are live, have their shapes and share no buffer, and the globals \<^verbatim>\<open>gR\<close>, \<^verbatim>\<open>gt\<close>
  and \<^verbatim>\<open>gr\<close> hold the identity and the zeros \<^verbatim>\<open>InitMatrix\<close> put there. Before the first frame (\<open>ready\<close>) the
  camera struct has no matrices; after it (\<open>running\<close>) it has three more that share no buffer
  with each other or with the pose, and its raw pointers point into them. In every phase the model and
  object points of the tracker have the same length and the counters of the struct are zero.
\<close>

theorem reachable_inv:
  assumes "lib_ok cv" "jni_run cv tf cs s"
  shows "native_inv s \<and>
    (if Init_matrix \<notin> set cs then loaded s else if frames cs = 0 then ready s else running s)"
proof -
  have i: "native_inv s" using jni.run_good [of "(cv, tf)" cs s] assms by simp
  then have "loaded s \<or> ready s \<or> running s" by (simp add: native_inv_def)
  then show ?thesis using i run_phases [OF assms] phases_disjoint [of s] by auto
qed

theorem reachable_inv_witness: "native_inv session1 \<and> ready session1"
  using reachable_inv [OF sample_lib_ok session1_run] by (simp add: frames_def)

text \<open>
  C2: After \<^verbatim>\<open>InitMatrix\<close>, a camera frame that is not a touch returns, given two matrices, four
  camera settings, a sixteen-element array, an image the library converts, and fewer than \<open>2^24\<close>
  accepted blobs with finite centres in \<open>[0, 2^k]\<close>, on which the sort is well defined. Of the solver it is
  required that it does not throw on the one call the frame makes, if it makes one: with the
  tracker's model points and the frame's points in their order, equally many and at least three.
  The frame fills the array with the homogeneous matrix of the tracked object's current rotation and
  translation, and its result says whether a blob was accepted.
\<close>

theorem frame_returns:
  assumes "lib_ok cv" "jni_run cv tf cs s" "Init_matrix \<in> set cs"
    and "jmats s a = Some mi" "jmats s b = Some mb" "4 \<le> length cf" "cf ! 3 \<noteq> 0" "length rot = 16"
    and "cv_cvtColor cv (pix s (data mi)) COLOR_BGR2HSV = Inr hsv"
    and "pts = blob_centres cv (accepted cv) (frame_contours cv hsv)"
    and "0 \<le> k" "k \<le> 100" "\<forall>p \<in> set pts. in_frame k p" "length pts < 2 ^ 24"
    and "3 \<le> length pts \<Longrightarrow> length (model_points (tracker_vars s)) = length pts \<Longrightarrow>
      \<exists>r. cv_solvePnPGeneric cv (model_points (tracker_vars s)) (sorted_points pts)
        (camera_matrix ((info s)\<lparr>res_x := cf ! 1, res_y := cf ! 0\<rparr>)) [zero, zero, zero, zero] SOLVEPNP_SQPNP = Inr r"
  shows "\<exists>s'. ConvertRGBtoGray cv tf a b rot cf s =
      Inr (s', gl_matrix (mat_values (nheap s') (gR (objLeft s'))) (mat_values (nheap s') (gt (objLeft s'))),
           False, pts \<noteq> []) \<and>
    running s' \<and> native_inv s'"
proof -
  note cv = lib_okD [OF assms(1)]
  have i: "native_inv s" "\<not> loaded s"
    using jni.run_good [of "(cv, tf)" cs s] run_phases assms(1-3) by auto
  obtain s' rot' thrown where f: "ConvertRGBtoGray cv tf a b rot cf s = Inr (s', rot', thrown, pts \<noteq> [])"
    using frame_total [OF cv i assms(4-7,9,10) in_frame_sortable [OF assms(11-14)], of tf rot] assms(15) by auto
  let ?g = "gl_matrix (mat_values (nheap s') (gR (objLeft s'))) (mat_values (nheap s') (gt (objLeft s')))"
  have r: "native_inv s'" "running s'" using frame_inv(1,2) [OF cv i f] by simp_all
  obtain vs where "pose_values s' = Inr vs" "SetFloatArrayRegion rot vs = (rot', thrown)"
    by (rule frame_steps [OF f])
  moreover have "SetFloatArrayRegion rot ?g = (?g, False)" by (rule SetFloatArrayRegion_fits) (simp add: assms(8))
  ultimately have "(rot', thrown) = (?g, False)" using pose_values_running [OF r(2)] by simp
  then show ?thesis using f r by auto
qed

lemma sample_contour_simps [simp]:
  "sample_moments (sample_contour u v) = \<lparr>m00 = fone, m10 = Fin False (of_int u), m01 = Fin False (of_int v)\<rparr>"
  "length (sample_contour u v) = 301"
  using replicate_Suc [of 300 "(u, v)"] by (simp_all add: sample_moments_def sample_contour_def)

text \<open>The divisor of a centroid with unit area is at least one.\<close>

lemma unit_area:
  obtains d where "fl_add Binary64 fone d1em5 = Fin False d" "1 \<le> d"
proof -
  have b: "bound_of Binary64 (pow2 1)" "bound_of Binary64 (pow2 0)" by (rule bound_of_pow2; simp)+
  obtain m where m: "d1em5 = Fin False m" "0 \<le> m" "m \<le> 1"
    using rnd_nonneg_upto [OF b(2), of "1 / 100000"] by (auto simp: d1em5_def elim!: nonneg_uptoE)
  have "fl_add Binary64 fone d1em5 = rnd Binary64 False (1 + m)" using m(2) by (simp add: m(1) fone_def)
  also have "\<dots> = Fin False (round_mag Binary64 (1 + m))"
    using b(1) m(3) by (intro rnd_Fin [of _ "pow2 1"]) (simp_all add: bound_of_def)
  finally have "fl_add Binary64 fone d1em5 = Fin False (round_mag Binary64 (1 + m))" .
  moreover have "round_mag Binary64 1 = 1"
    using round_mag_representable [OF representable_int [of 1 Binary64]] by simp
  ultimately show thesis using that round_mag_mono [of 1 "1 + m" Binary64] m(2) by simp
qed

lemma unit_centroid:
  assumes "0 \<le> u" "u \<le> 8" "0 \<le> v" "v \<le> 8"
  shows "in_frame 3 (centroid \<lparr>m00 = fone, m10 = Fin False u, m01 = Fin False v\<rparr>)"
proof -
  obtain d where d: "fl_add Binary64 fone d1em5 = Fin False d" "1 \<le> d" by (rule unit_area)
  have b: "bound_of F (pow2 3)" for F by (rule bound_of_pow2; cases F; simp)
  have "nonneg_upto (pow2 3) (fl_div Binary64 (Fin False w) (Fin False d))" if "0 \<le> w" "w \<le> 8" for w
  proof -
    have "w / d \<le> pow2 3" using that d(2) by (simp add: divide_le_eq)
    then show ?thesis using d(2) rnd_nonneg_upto [OF b] by simp
  qed
  then show ?thesis using assms d(1) fl_cvt_nonneg_upto [OF _ b] by (simp add: in_frame_def centroid_def)
qed

lemma sample_centres:
  defines "pts \<equiv> blob_centres sample_cv (accepted sample_cv) (frame_contours sample_cv (sample_image))"
  shows "\<forall>p \<in> set pts. in_frame 3 p" "length pts < 2 ^ 24"
proof -
  have cs: "frame_contours sample_cv (sample_image) = [sample_contour 1 2, sample_contour 3 4, sample_contour 5 6]"
    by (simp add: frame_contours_def sample_cv_def sample_image_def)
  have mo: "cv_moments sample_cv = sample_moments" by (simp add: sample_cv_def)
  show "\<forall>p \<in> set pts. in_frame 3 p"
    by (auto simp: pts_def blob_centres_def cs mo split: if_splits intro!: unit_centroid)
  have "length pts \<le> 3" using length_filter_le [of "accepted sample_cv" "frame_contours sample_cv (sample_image)"]
    by (simp add: pts_def blob_centres_def cs)
  then show "length pts < 2 ^ 24" by simp
qed

theorem frame_returns_witness:
  "\<exists>s'. ConvertRGBtoGray sample_cv sample_tf 1 2 (replicate 16 zero) [480, 640, 60, 1] session1 =
      Inr (s', gl_matrix (mat_values (nheap s') (gR (objLeft s'))) (mat_values (nheap s') (gt (objLeft s'))), False,
        blob_centres sample_cv (accepted sample_cv) (frame_contours sample_cv (sample_image)) \<noteq> []) \<and>
    running s' \<and> native_inv s'"
  by (rule frame_returns [OF sample_lib_ok session1_run, where mi = "sample_frame 1" and mb = "sample_frame 2" and k = 3])
    (use sample_centres sample_total(2) in \<open>simp_all add: sample_jmats_def sample_frame_def sample_total(1) del: split_paired_Ex\<close>)

text \<open>
  C8: A camera frame before the first \<^verbatim>\<open>InitMatrix\<close> never returns, whatever the image. Given two matrices,
  four camera settings and no touch, the way it fails is known: if the colour conversion throws,
  with its exception; else, if the comparator is not a strict weak order on the accepted blobs, in
  the undefined sort; and else by reading a matrix of the tracked object through a null pointer.
\<close>

theorem frame_before_init:
  assumes "lib_ok cv" "jni_run cv tf cs s" "Init_matrix \<notin> set cs"
  shows "(\<exists>err. ConvertRGBtoGray cv tf a b rot cf s = Inl err) \<and>
    (jmats s a = Some mi \<and> jmats s b = Some mb \<and> 4 \<le> length cf \<and> cf ! 3 \<noteq> 0 \<longrightarrow>
     ConvertRGBtoGray cv tf a b rot cf s =
       Inl (case cv_cvtColor cv (pix s (data mi)) COLOR_BGR2HSV of
              Inl err \<Rightarrow> err
            | Inr hsv \<Rightarrow>
                if sortable (blob_centres cv (accepted cv) (frame_contours cv hsv)) then NullDeref else Undefined))"
proof -
  have "native_inv s" "loaded s"
    using jni.run_good [of "(cv, tf)" cs s] run_phases [OF assms(1,2)] assms by simp_all
  then show ?thesis
    using frame_loaded_fails [OF lib_okD [OF assms(1)]] frame_loaded_error [OF lib_okD [OF assms(1)]] by blast
qed

theorem frame_before_init_witness:
  "ConvertRGBtoGray sample_cv sample_tf 1 2 (replicate 16 zero) [480, 640, 60, 1] session0 = Inl NullDeref"
proof -
  have "sortable (blob_centres sample_cv (accepted sample_cv) (frame_contours sample_cv (sample_image)))"
    using in_frame_sortable [of 3] sample_centres by simp
  then show ?thesis
    using frame_before_init [OF sample_lib_ok session0_run, of 1 2 "replicate 16 zero" "[480, 640, 60, 1]" "sample_frame 1" "sample_frame 2"]
    by (simp add: session0_def library_loaded_def sample_jmats_def sample_frame_def sample_total(1))
qed

text \<open>
  C3: When the tracker finds a pose, the object's rotation is the matrix of the negated solution
  vector, its translation the solution moved by the fixed offset and scaled to metres, the
  OpenGL matrix is built from the two, and the camera struct's \<^verbatim>\<open>rv\<close> shows the same rotation
  although the struct was passed by value: the copy shares the matrix buffer.
\<close>

theorem solved_pose:
  assumes "lib_ok cv" "native_inv s" "running s" "length pts < 2 ^ 31"
    and "track_points cv tf mi mr pts s = Inr (s', b)"
    and "solves cv pts (frame_env cv mr pts s) = Some (r0, t0)"
  shows "b \<and> pose_values s' = Inr (gl_matrix (solution_R cv r0) (solution_t cv r0 t0)) \<and>
    NativeInfo s' arr = Inr (SetFloatArrayRegion arr (map (fl_cvt Binary32) (solution_R cv r0) @ replicate 7 zero)) \<and>
    new_arrays s' = new_arrays s + 1"
proof -
  note cv = lib_okD(1,2) [OF assms(1)]
  note i = track_points_inv [OF cv assms(2-5)] and v = track_solved [OF cv assms(2-6)]
  have "counters_unmoved s'" using i(1) by (simp add: native_inv_def)
  then show ?thesis
    using i(3,5) v pose_values_running [OF i(2)] NativeInfo_running [OF i(2)] by simp
qed

theorem solved_pose_witness:
  "\<exists>s'. track_points sample_cv sample_tf (sample_frame 1) (sample_frame 1) sample_points session3 = Inr (s', True) \<and>
     pose_values s' = Inr (gl_matrix (solution_R sample_cv zeros3) (solution_t sample_cv zeros3 [zero, zero, fone])) \<and>
     new_arrays s' = new_arrays session3 + 1"
proof -
  have l: "length sample_points < 2 ^ 31" by (simp add: sample_points_def)
  obtain s' where s': "track_points sample_cv sample_tf (sample_frame 1) (sample_frame 1) sample_points session3 = Inr (s', True)"
    using track_points_total [OF sample_create_ok sample_dims_ok session3_ok(1,2) l, of sample_tf "sample_frame 1" "sample_frame 1"]
      session3_ok(3) sample_total(2) sample_sortable by auto
  then show ?thesis using solved_pose [OF sample_lib_ok session3_ok(1,2) l s' session3_solves] by blast
qed

text \<open>
  C9: When the tracker gets points but finds no pose (a touch, too few points, a changed number
  of points, or no solution), the object's rotation becomes the camera's, which a frame has just
  reset to the identity, while its translation stays what it was.
\<close>

theorem unsolved_pose:
  assumes "lib_ok cv" "native_inv s" "running s" "holds (nheap s) (cam_R (info s)) 3 3 eye3" "length pts < 2 ^ 31"
    and "track_points cv tf mi mr pts s = Inr (s', b)"
    and "solves cv pts (frame_env cv mr pts s) = None"
  shows "b \<and> pose_values s' = Inr (gl_matrix eye3 (mat_values (nheap s) (gt (objLeft s)))) \<and>
    new_arrays s' = new_arrays s"
proof -
  note cv = lib_okD(1,2) [OF assms(1)]
  note i = track_points_inv [OF cv assms(2,3,5,6)] and v = track_unsolved [OF cv assms(2,3,5-7)]
  have "mat_values (nheap s) (cam_R (info s)) = eye3" using assms(4) by (simp add: holds_def)
  then show ?thesis using i(3) v pose_values_running [OF i(2)] by simp
qed

theorem unsolved_pose_witness:
  "\<exists>s'. track_points sample_cv sample_tf (sample_frame 1) (sample_frame 1) sample_points session2 = Inr (s', True) \<and>
     pose_values s' = Inr (gl_matrix eye3 (mat_values (nheap session2) (gt (objLeft session2))))"
proof -
  have l: "length sample_points < 2 ^ 31" by (simp add: sample_points_def)
  obtain s' where s': "track_points sample_cv sample_tf (sample_frame 1) (sample_frame 1) sample_points session2 = Inr (s', True)"
    using track_points_total [OF sample_create_ok sample_dims_ok session2_ok(1,2) l, of sample_tf "sample_frame 1" "sample_frame 1"]
      session2_ok(4) sample_total(2) sample_sortable by auto
  have "solves sample_cv sample_points (frame_env sample_cv (sample_frame 1) sample_points session2) = None"
    by (simp add: solves_def frame_env_def session2_ok(5) static_tracker_def sample_points_def)
  then show ?thesis using unsolved_pose [OF sample_lib_ok session2_ok(1-3) l s'] s' by blast
qed

text \<open>
  A frame without an accepted blob leaves the tracked object alone and reports its previous
  pose.
\<close>

lemma frame_without_points:
  assumes "lib_ok cv" "jni_run cv tf cs s" "jmats s a = Some mi"
    and "cv_cvtColor cv (pix s (data mi)) COLOR_BGR2HSV = Inr hsv"
    and "blob_centres cv (accepted cv) (frame_contours cv hsv) = []"
    and "ConvertRGBtoGray cv tf a b rot cf s = Inr (s', rot', thrown, res)" "length rot = 16"
  shows "objLeft s' = objLeft s \<and> \<not> res \<and>
    rot' = gl_matrix (mat_values (nheap s) (gR (objLeft s))) (mat_values (nheap s) (gt (objLeft s)))"
proof -
  note cv = lib_okD [OF assms(1)]
  have i: "native_inv s" using jni.run_good [of "(cv, tf)" cs s] assms(1,2) by simp
  have n: "\<not> loaded s" using frame_loaded_fails [OF cv i, of tf a b rot cf] assms(6) by auto
  note f = frame_no_points [OF cv i n assms(6,3,4,5)]
  then show ?thesis using assms(7) by (simp add: SetFloatArrayRegion_fits)
qed

text \<open>
  C13: After \<^verbatim>\<open>InitMatrix\<close>, \<^verbatim>\<open>GetRvecTvec\<close> returns two zero vectors whatever has been tracked: it
  reads the globals \<^verbatim>\<open>gr\<close> and \<^verbatim>\<open>gt\<close>, which no frame writes. Before, it fails.
\<close>

theorem rvec_tvec_zero:
  assumes "lib_ok cv" "jni_run cv tf cs s" "length rvec = 3" "length tvec = 3"
  shows "GetRvecTvec s rvec tvec =
    (if Init_matrix \<in> set cs then Inr ([zero, zero, zero], [zero, zero, zero], False) else Inl NullDeref)"
proof -
  have i: "native_inv s" and p: "loaded s \<longleftrightarrow> Init_matrix \<notin> set cs"
    using jni.run_good [of "(cv, tf)" cs s] run_phases [OF assms(1,2)] assms(1,2) by simp_all
  show ?thesis
  proof (cases "loaded s")
    case True
    then show ?thesis using p by (simp add: GetRvecTvec_unset loaded_def)
  next
    case False
    then have "globals_reset s" using i by (auto simp: native_inv_def ready_def running_def)
    then show ?thesis using p False assms(3,4) by (simp add: GetRvecTvec_zero SetFloatArrayRegion_fits)
  qed
qed

theorem rvec_tvec_zero_witness:
  "GetRvecTvec session1 [zero, zero, zero] [zero, zero, zero] = Inr ([zero, zero, zero], [zero, zero, zero], False)"
  using rvec_tvec_zero [OF sample_lib_ok session1_run, of "[zero, zero, zero]" "[zero, zero, zero]"] by simp

text \<open>
  C14: \<^verbatim>\<open>NativeInfo\<close> fails until the first frame has returned. From then on it returns the rotation
  matrix and seven zeros: the translation, the number of contours, the tracking flag and the
  number of solutions are never reported, since the functions that set them work on a copy of
  the struct.
\<close>

theorem native_info_reports:
  assumes "lib_ok cv" "jni_run cv tf cs s" "length arr = 16"
  shows "NativeInfo s arr =
    (if 0 < frames cs
     then Inr (map (fl_cvt Binary32) (mat_values (nheap s) (cam_R (info s))) @ replicate 7 zero, False)
     else Inl NullDeref)"
proof -
  have i: "native_inv s" and p: "running s \<longleftrightarrow> 0 < frames cs"
    using jni.run_good [of "(cv, tf)" cs s] run_phases [OF assms(1,2)] assms(1,2) by simp_all
  show ?thesis
  proof (cases "running s")
    case True
    then obtain R where "holds (nheap s) (cam_R (info s)) 3 3 R"
      by (auto simp: running_def owned_Cons cam_mats_def)
    then have "length (mat_values (nheap s) (cam_R (info s))) = 9" using holds_length by (fastforce simp: holds_def)
    then show ?thesis using p True i assms(3)
      by (simp add: NativeInfo_running native_inv_def SetFloatArrayRegion_fits)
  next
    case False
    then have "cam_unset s" using i by (auto simp: native_inv_def ready_def loaded_def)
    then show ?thesis using p False by (simp add: NativeInfo_unset)
  qed
qed

theorem native_info_reports_witness: "NativeInfo session1 (replicate 16 zero) = Inl NullDeref"
  using native_info_reports [OF sample_lib_ok session1_run, of "replicate 16 zero"] by (simp add: frames_def)

text \<open>
  Every frame pins the Java array of camera settings once more and nothing ever releases it:
  the number of pinned arrays is the number of frames processed.
\<close>

lemma pinned_arrays_grow:
  assumes "lib_ok cv" "jni_run cv tf cs s"
  shows "pinned_arrays s = length (filter is_Frame cs)"
  using run_phases [OF assms] by (simp add: frames_def)

text \<open>
  C12: \<^verbatim>\<open>InitMatrix\<close> resets the pose: the object's rotation is the identity and both its vectors are
  zero, also when it is called again in the middle of a session, and the images, the camera
  struct, the tracker and the network are untouched.
\<close>

theorem init_matrix_resets:
  assumes "lib_ok cv" "jni_run cv tf cs s"
  defines "s' \<equiv> InitMatrix cv s"
  shows "mat_values (nheap s') (gR (objLeft s')) = eye3 \<and> mat_values (nheap s') (gt (objLeft s')) = zeros3 \<and>
    mat_values (nheap s') (gr (objLeft s')) = zeros3 \<and> mat_values (nheap s') (global_gR s') = eye3 \<and>
    info s' = info s \<and> tracker_vars s' = tracker_vars s \<and> tfl s' = tfl s \<and> pix s' = pix s"
proof -
  have "native_inv s" using jni.run_good [of "(cv, tf)" cs s] assms(1,2) by simp
  then have "pose_reset s'" unfolding s'_def by (rule InitMatrix_inv(3) [OF lib_okD(1) [OF assms(1)]])
  then show ?thesis by (simp add: s'_def InitMatrix_frame pose_reset_def holds_def)
qed

theorem init_matrix_resets_witness:
  "mat_values (nheap (InitMatrix sample_cv session1)) (gR (objLeft (InitMatrix sample_cv session1))) = eye3"
  using init_matrix_resets [OF sample_lib_ok session1_run] by simp

end
